(* ===== verification/Prelude.thy ===== *)
theory Prelude
  imports Main "HOL-Library.Word"
begin

text \<open>
  Generic material shared by the component theories: the fact collections of the
  development, 64-bit wrap-around, results of fallible calls, and list lemmas that
  mention no part of the program.

  \<open>inv_intros\<close> collects one preservation lemma per operation, \<open>frame_simps\<close> the fields
  an operation leaves alone, \<open>wire_simps\<close> the evaluation of byte-level formatting.
\<close>

named_theorems inv_intros "an operation preserves its component's invariant"
named_theorems frame_simps "the parts of a state an operation leaves unchanged"
named_theorems wire_simps "evaluation of byte-level output"

section \<open>Machine integers\<close>

text \<open>Go's \<open>int\<close> and \<open>int64\<close> are 64 bits wide and wrap; \<open>uint64\<close> counters are words.\<close>

type_synonym uint64 = "64 word"

definition wrap_int64 :: "int \<Rightarrow> int" where
  "wrap_int64 i = sint (word_of_int i :: 64 word)"

definition max_int64 :: int where
  "max_int64 = 9223372036854775807"

definition in_int64 :: "int \<Rightarrow> bool" where
  "in_int64 i \<longleftrightarrow> - max_int64 - 1 \<le> i \<and> i \<le> max_int64"

lemma wrap_int64_eq: "wrap_int64 i = (i + 2 ^ 63) mod 2 ^ 64 - 2 ^ 63"
  by (simp add: wrap_int64_def sint_uint signed_take_bit_eq_take_bit_shift
      take_bit_eq_mod uint_word_of_int mod_simps)

lemma wrap_int64_id [simp]: "in_int64 i \<Longrightarrow> wrap_int64 i = i"
  by (auto simp: wrap_int64_eq in_int64_def max_int64_def)

lemma in_int64_wrap [simp]: "in_int64 (wrap_int64 i)"
proof -
  have "0 \<le> (i + 2 ^ 63) mod 2 ^ 64" "(i + 2 ^ 63) mod 2 ^ 64 < (2 ^ 64 :: int)"
    by (rule pos_mod_sign pos_mod_bound; simp)+
  then show ?thesis
    by (simp add: wrap_int64_eq in_int64_def max_int64_def)
qed

lemma wrap_int64_fixed: "wrap_int64 i = i \<longleftrightarrow> in_int64 i"
  by (metis in_int64_wrap wrap_int64_id)

lemma unat_uint64_succ_le: "unat (x + 1 :: uint64) \<le> Suc (unat x)"
  by (simp add: unat_word_ariths)

lemma unat_uint64_minus_1: "unat (- 1 :: uint64) = 2 ^ 64 - 1"
  by (simp add: unsigned_minus_1_eq_mask mask_eq_exp_minus_1)

section \<open>Results\<close>

text \<open>A Go call returning \<open>(value, error)\<close> is a sum: \<open>Inl\<close> the error, \<open>Inr\<close> the value.\<close>

fun result_bind :: "'e + 'a \<Rightarrow> ('a \<Rightarrow> 'e + 'b) \<Rightarrow> 'e + 'b" where
  "result_bind (Inl e) f = Inl e"
| "result_bind (Inr x) f = f x"

lemma result_bind_Inr_iff:
  "result_bind r f = Inr y \<longleftrightarrow> (\<exists>x. r = Inr x \<and> f x = Inr y)"
  by (cases r) auto

section \<open>Lists\<close>

lemma filter_map_of_distinct:
  assumes "distinct (map f xs)" and "x \<in> set xs"
  shows "filter (\<lambda>y. f y = f x) xs = [x]"
  using assms
proof (induction xs)
  case Nil
  then show ?case by simp
next
  case (Cons a xs)
  then show ?case
    by (cases "a = x") (auto simp: filter_empty_conv image_iff rev_image_eqI)
qed

lemma find_Some_iff_distinct:
  assumes "distinct (map f xs)"
  shows "find (\<lambda>y. f y = k) xs = Some x \<longleftrightarrow> x \<in> set xs \<and> f x = k"
  using assms by (induction xs) (auto simp: image_iff)

lemma distinct_map_filter_map:
  "distinct (map f xs) \<Longrightarrow> (\<And>x. f (g x) = f x) \<Longrightarrow> distinct (map f (filter P (map g xs)))"
  by (induction xs) (auto simp: image_iff)

lemma distinct_map_snoc:
  "distinct (map f xs) \<Longrightarrow> f y \<notin> f ` set xs \<Longrightarrow> distinct (map f (xs @ [y]))"
  by simp

lemma map_upd_if_map:
  "(\<And>x. f (if P x then g x else x) = f x) \<Longrightarrow> map f (map (\<lambda>x. if P x then g x else x) xs) = map f xs"
  by (induction xs) auto

lemma nth_list_update_any:
  "j < length xs \<Longrightarrow> xs[i := x] ! j = (if i = j then x else xs ! j)"
  by (cases "i < length xs") (auto simp: nth_list_update list_update_beyond)

text \<open>The largest element of a list of integers, from a floor.\<close>

definition max_list :: "int \<Rightarrow> int list \<Rightarrow> int" where
  "max_list k xs = fold max xs k"

lemma fold_max_ge_init: "(k::int) \<le> fold max xs k"
proof (induction xs arbitrary: k)
  case Nil
  then show ?case by simp
next
  case (Cons x xs)
  have "k \<le> max x k" by simp
  also have "\<dots> \<le> fold max xs (max x k)" by (rule Cons.IH)
  finally show ?case by simp
qed

lemma max_list_floor: "k \<le> max_list k xs"
  by (simp add: max_list_def fold_max_ge_init)

lemma max_list_ge: "x \<in> set xs \<Longrightarrow> x \<le> max_list k xs"
  unfolding max_list_def
proof (induction xs arbitrary: k)
  case Nil
  then show ?case by simp
next
  case (Cons y xs)
  show ?case
  proof (cases "x = y")
    case True
    have "y \<le> max y k" by simp
    also have "\<dots> \<le> fold max xs (max y k)" by (rule fold_max_ge_init)
    finally show ?thesis using True by simp
  next
    case False
    with Cons show ?thesis by simp
  qed
qed

lemma max_list_bounded:
  assumes "\<forall>x\<in>set xs. x \<le> k"
  shows "max_list k xs = k"
  using assms unfolding max_list_def
  by (induction xs arbitrary: k) (auto simp: max_def)

text \<open>Keeping the first occurrence of every element, in order, as a Go loop over a \<open>seen\<close> set does.\<close>

fun dedup_first :: "'a set \<Rightarrow> 'a list \<Rightarrow> 'a list" where
  "dedup_first seen [] = []"
| "dedup_first seen (x # xs) =
     (if x \<in> seen then dedup_first seen xs else x # dedup_first (insert x seen) xs)"

lemma set_dedup_first: "set (dedup_first seen xs) = set xs - seen"
  by (induction xs arbitrary: seen) auto

lemma distinct_dedup_first: "distinct (dedup_first seen xs)"
  by (induction xs arbitrary: seen) (auto simp: set_dedup_first)

lemma length_dedup_first: "length (dedup_first seen xs) \<le> length xs"
  by (induction xs arbitrary: seen) (auto simp: le_SucI)

lemma dedup_first_id: "distinct xs \<Longrightarrow> set xs \<inter> seen = {} \<Longrightarrow> dedup_first seen xs = xs"
  by (induction xs arbitrary: seen) auto

section \<open>Go maps\<close>

text \<open>
  A Go map is an association list with distinct keys.  Its order is not observable in the
  program: loops over maps have results that do not depend on it.
\<close>

definition map_put :: "'k \<Rightarrow> 'v \<Rightarrow> ('k \<times> 'v) list \<Rightarrow> ('k \<times> 'v) list" where
  "map_put k v m = filter (\<lambda>p. fst p \<noteq> k) m @ [(k, v)]"

definition map_delete :: "'k \<Rightarrow> ('k \<times> 'v) list \<Rightarrow> ('k \<times> 'v) list" where
  "map_delete k m = filter (\<lambda>p. fst p \<noteq> k) m"

lemma map_of_filter_key: "map_of (filter (\<lambda>p. fst p \<noteq> k) m) = (map_of m)(k := None)"
  by (induction m) (auto simp: fun_upd_twist)

lemma map_of_map_put [simp]: "map_of (map_put k v m) = (map_of m)(k \<mapsto> v)"
  by (auto simp: map_put_def map_of_filter_key map_add_def fun_eq_iff split: option.splits)

lemma map_of_map_delete [simp]: "map_of (map_delete k m) = (map_of m)(k := None)"
  by (simp add: map_delete_def map_of_filter_key)

lemma distinct_map_put [simp]:
  "distinct (map fst m) \<Longrightarrow> distinct (map fst (map_put k v m))"
  by (auto simp: map_put_def distinct_map_filter)

end
