(* ===== verification/Go_Strings.thy ===== *)
theory Go_Strings
  imports Prelude
begin

text \<open>
  Go's strings and byte slices, and the functions of the packages \<open>strings\<close>, \<open>bytes\<close>,
  \<open>strconv\<close> and \<open>unicode/utf8\<close> that the program calls.  A Go string is a sequence of
  bytes, which is HOL's \<open>string\<close>: a \<open>char\<close> is one byte.

  The case mappings of the Unicode tables above ASCII are data of the Go library; they are
  the fields of a \<open>unicode\<close> record that the functions using them take as an argument.
  What happens below 128, and the decoding and encoding of UTF-8, are written out.
\<close>

type_synonym bytes = string
type_synonym rune = nat

abbreviation CR :: char where "CR \<equiv> CHR 0x0D"
abbreviation LF :: char where "LF \<equiv> CHR 0x0A"
abbreviation TAB :: char where "TAB \<equiv> CHR 0x09"
abbreviation NUL :: char where "NUL \<equiv> CHR 0x00"
abbreviation BSLASH :: char where "BSLASH \<equiv> CHR 0x5C"
abbreviation DQUOTE :: char where "DQUOTE \<equiv> CHR 0x22"
abbreviation CRLF :: bytes where "CRLF \<equiv> [CR, LF]"

definition byte :: "char \<Rightarrow> nat" where
  "byte c = of_char c"

definition chr :: "nat \<Rightarrow> char" where
  "chr n = char_of n"

lemma byte_less [simp]: "byte c < 256"
  by (simp add: byte_def)

lemma byte_chr [simp]: "n < 256 \<Longrightarrow> byte (chr n) = n"
  by (simp add: byte_def chr_def)

lemma chr_byte [simp]: "chr (byte c) = c"
  by (simp add: byte_def chr_def)

lemma byte_inject [simp]: "byte c = byte d \<longleftrightarrow> c = d"
  by (metis chr_byte)

section \<open>UTF-8\<close>

definition rune_error :: rune where
  "rune_error = 65533"

definition valid_rune :: "rune \<Rightarrow> bool" where
  "valid_rune r \<longleftrightarrow> r < 55296 \<or> (57343 < r \<and> r < 1114112)"

definition cont :: "nat \<Rightarrow> nat \<Rightarrow> nat \<Rightarrow> bool" where
  "cont lo hi b \<longleftrightarrow> lo \<le> b \<and> b \<le> hi"

text \<open>
  \<open>utf8.DecodeRune\<close>: the rune at the front and its width; \<open>(RuneError, 0)\<close> on the empty
  string and \<open>(RuneError, 1)\<close> at a byte that starts no well-formed sequence.  The bounds on
  the second byte exclude overlong forms and surrogates.
\<close>

definition second_lo :: "nat \<Rightarrow> nat" where
  "second_lo b = (if b = 224 then 160 else if b = 240 then 144 else 128)"

definition second_hi :: "nat \<Rightarrow> nat" where
  "second_hi b = (if b = 237 then 159 else if b = 244 then 143 else 191)"

definition rune2 :: "nat \<Rightarrow> nat \<Rightarrow> rune" where
  "rune2 b0 b1 = (b0 - 192) * 64 + (b1 - 128)"

definition rune3 :: "nat \<Rightarrow> nat \<Rightarrow> nat \<Rightarrow> rune" where
  "rune3 b0 b1 b2 = (b0 - 224) * 4096 + (b1 - 128) * 64 + (b2 - 128)"

definition rune4 :: "nat \<Rightarrow> nat \<Rightarrow> nat \<Rightarrow> nat \<Rightarrow> rune" where
  "rune4 b0 b1 b2 b3 = (b0 - 240) * 262144 + (b1 - 128) * 4096 + (b2 - 128) * 64 + (b3 - 128)"

fun decode_bytes :: "nat list \<Rightarrow> rune \<times> nat" where
  "decode_bytes [] = (rune_error, 0)"
| "decode_bytes (b0 # bs) =
     (if b0 < 128 then (b0, 1)
      else if b0 < 194 \<or> 244 < b0 then (rune_error, 1)
      else case bs of
        [] \<Rightarrow> (rune_error, 1)
      | b1 # bs' \<Rightarrow>
          if \<not> cont (second_lo b0) (second_hi b0) b1 then (rune_error, 1)
          else if b0 < 224 then (rune2 b0 b1, 2)
          else case bs' of
            [] \<Rightarrow> (rune_error, 1)
          | b2 # bs'' \<Rightarrow>
              if \<not> cont 128 191 b2 then (rune_error, 1)
              else if b0 < 240 then (rune3 b0 b1 b2, 3)
              else case bs'' of
                [] \<Rightarrow> (rune_error, 1)
              | b3 # _ \<Rightarrow>
                  if \<not> cont 128 191 b3 then (rune_error, 1)
                  else (rune4 b0 b1 b2 b3, 4))"

definition decode_rune :: "bytes \<Rightarrow> rune \<times> nat" where
  "decode_rune s = decode_bytes (map byte (take 4 s))"

text \<open>\<open>utf8.EncodeRune\<close>: what is no scalar value is encoded as \<open>RuneError\<close>.\<close>

definition encode_rune :: "rune \<Rightarrow> bytes" where
  "encode_rune r0 =
     (let r = (if valid_rune r0 then r0 else rune_error) in
      map chr
       (if r < 128 then [r]
        else if r < 2048 then [192 + r div 64, 128 + r mod 64]
        else if r < 65536 then [224 + r div 4096, 128 + r div 64 mod 64, 128 + r mod 64]
        else [240 + r div 262144, 128 + r div 4096 mod 64, 128 + r div 64 mod 64, 128 + r mod 64]))"

text \<open>Ranging over a string, \<open>for _, r := range s\<close>.\<close>

fun runes :: "bytes \<Rightarrow> rune list" where
  "runes [] = []"
| "runes (c # cs) = (let (r, n) = decode_rune (c # cs) in r # runes (drop (n - 1) cs))"

definition encode_runes :: "rune list \<Rightarrow> bytes" where
  "encode_runes rs = concat (map encode_rune rs)"

text \<open>Replacing every malformed byte by U+FFFD, as \<open>encoding/json\<close> and \<open>strings.Map\<close> do.\<close>

definition to_valid_utf8 :: "bytes \<Rightarrow> bytes" where
  "to_valid_utf8 s = encode_runes (runes s)"

definition ascii :: "bytes \<Rightarrow> bool" where
  "ascii s \<longleftrightarrow> (\<forall>c\<in>set s. byte c < 128)"

lemma valid_rune_error [simp]: "valid_rune rune_error"
  by (simp add: valid_rune_def rune_error_def)

lemma decode_rune_ascii: "byte c < 128 \<Longrightarrow> decode_rune (c # cs) = (byte c, 1)"
  by (simp add: decode_rune_def)

lemma decode_rune_Nil [simp]: "decode_rune [] = (rune_error, 0)"
  by (simp add: decode_rune_def)

lemma decode_bytes_width:
  "bs \<noteq> [] \<Longrightarrow> 0 < snd (decode_bytes bs) \<and> snd (decode_bytes bs) \<le> length bs"
  by (cases bs) (auto split: list.splits)

lemma decode_rune_width:
  assumes "s \<noteq> []"
  shows "0 < snd (decode_rune s)" and "snd (decode_rune s) \<le> length s"
  using assms decode_bytes_width [of "map byte (take 4 s)"] by (auto simp: decode_rune_def)

lemma rune2_valid: "194 \<le> b0 \<Longrightarrow> b0 < 224 \<Longrightarrow> cont (second_lo b0) (second_hi b0) b1 \<Longrightarrow> valid_rune (rune2 b0 b1)"
  by (auto simp: rune2_def valid_rune_def cont_def second_lo_def second_hi_def)

lemma rune3_valid:
  assumes "224 \<le> b0" "b0 < 240" "cont (second_lo b0) (second_hi b0) b1" "cont 128 191 b2"
  shows "valid_rune (rune3 b0 b1 b2)"
proof -
  obtain a where a: "b0 = 224 + a" "a < 16" using assms(1,2) by (auto simp: le_iff_add)
  have "128 \<le> b1" using assms(3) by (auto simp: cont_def second_lo_def split: if_splits)
  then obtain b where b: "b1 = 128 + b" by (auto simp: le_iff_add)
  obtain c where c: "b2 = 128 + c" "c < 64" using assms(4) by (auto simp: cont_def le_iff_add)
  have "b < 64" "a = 13 \<Longrightarrow> b < 32"
    using assms(3) a b by (auto simp: cont_def second_hi_def split: if_splits)
  then show ?thesis
    using a b c by (cases "a < 13"; cases "a = 13") (simp_all add: rune3_def valid_rune_def)
qed

lemma rune4_valid:
  assumes "240 \<le> b0" "b0 \<le> 244" "cont (second_lo b0) (second_hi b0) b1"
    and "cont 128 191 b2" "cont 128 191 b3"
  shows "valid_rune (rune4 b0 b1 b2 b3)"
proof -
  obtain a where a: "b0 = 240 + a" "a < 5" using assms(1,2) by (auto simp: le_iff_add)
  have "128 \<le> b1" using assms(3) by (auto simp: cont_def second_lo_def split: if_splits)
  then obtain b where b: "b1 = 128 + b" by (auto simp: le_iff_add)
  obtain c where c: "b2 = 128 + c" "c < 64" using assms(4) by (auto simp: cont_def le_iff_add)
  obtain d where d: "b3 = 128 + d" "d < 64" using assms(5) by (auto simp: cont_def le_iff_add)
  have "b < 64" "a = 4 \<Longrightarrow> b < 16" "a = 0 \<Longrightarrow> 16 \<le> b"
    using assms(3) a b by (auto simp: cont_def second_hi_def second_lo_def split: if_splits)
  then show ?thesis
    using a b c d by (cases "a = 0"; cases "a = 4") (simp_all add: rune4_def valid_rune_def)
qed

lemma decode_bytes_valid: "valid_rune (fst (decode_bytes bs))"
proof (cases bs)
  case Nil
  then show ?thesis by simp
next
  case (Cons b0 bs')
  consider "b0 < 128 \<or> b0 < 194 \<or> 244 < b0" | "194 \<le> b0" "b0 < 224" | "224 \<le> b0" "b0 < 240"
    | "240 \<le> b0" "b0 \<le> 244" by linarith
  then show ?thesis
  proof cases
    case 1
    then show ?thesis by (auto simp: Cons valid_rune_def [of b0])
  next
    case 2
    then show ?thesis by (simp add: Cons rune2_valid split: list.split)
  next
    case 3
    then show ?thesis by (simp add: Cons rune3_valid split: list.split)
  next
    case 4
    then show ?thesis by (simp add: Cons rune4_valid split: list.split)
  qed
qed

lemma decode_rune_valid [simp]: "valid_rune (fst (decode_rune s))"
  by (simp add: decode_rune_def decode_bytes_valid)

lemma nat_split64:
  fixes r :: nat
  shows "r = r div 64 * 64 + r mod 64"
    and "r div 64 = r div 4096 * 64 + r div 64 mod 64"
    and "r div 4096 = r div 262144 * 64 + r div 4096 mod 64"
proof -
  show "r = r div 64 * 64 + r mod 64" by simp
  have "r div 4096 = r div 64 div 64" by (simp add: div_mult2_eq [symmetric])
  then show "r div 64 = r div 4096 * 64 + r div 64 mod 64" by simp
  have "r div 262144 = r div 4096 div 64" by (simp add: div_mult2_eq [symmetric])
  then show "r div 4096 = r div 262144 * 64 + r div 4096 mod 64" by simp
qed

lemma decode_encode_rune:
  assumes "valid_rune r"
  shows "decode_rune (encode_rune r @ s) = (r, length (encode_rune r))"
proof -
  consider "r < 128" | "128 \<le> r" "r < 2048" | "2048 \<le> r" "r < 65536" | "65536 \<le> r"
    by linarith
  then show ?thesis
  proof cases
    case 1
    then show ?thesis using assms by (simp add: encode_rune_def decode_rune_def)
  next
    case 2
    define a b where "a = r div 64" and "b = r mod 64"
    have r: "r = a * 64 + b" by (simp add: a_def b_def)
    have ab: "2 \<le> a" "a < 32" "b < 64" using 2 by (auto simp: a_def b_def)
    have "encode_rune r = map chr [192 + a, 128 + b]"
      using 2 assms by (simp add: encode_rune_def a_def b_def)
    then show ?thesis
      using ab by (simp add: decode_rune_def rune2_def cont_def second_lo_def second_hi_def r)
  next
    case 3
    define a b c where "a = r div 4096" and "b = r div 64 mod 64" and "c = r mod 64"
    have r: "r = a * 4096 + b * 64 + c"
      using nat_split64(1,2) [of r] unfolding a_def b_def c_def by linarith
    have abc: "a < 16" "b < 64" "c < 64" using 3 by (auto simp: a_def b_def c_def)
    have over: "a = 0 \<Longrightarrow> 32 \<le> b" using 3 r abc by auto
    have surr: "a = 13 \<Longrightarrow> b < 32" using assms r abc by (auto simp: valid_rune_def)
    have "encode_rune r = map chr [224 + a, 128 + b, 128 + c]"
      using 3 assms by (simp add: encode_rune_def a_def b_def c_def)
    then show ?thesis
      using abc over surr
      by (auto simp: decode_rune_def rune2_def rune3_def rune4_def cont_def second_lo_def second_hi_def r)
  next
    case 4
    define a b c d where "a = r div 262144" and "b = r div 4096 mod 64"
      and "c = r div 64 mod 64" and "d = r mod 64"
    have r: "r = a * 262144 + b * 4096 + c * 64 + d"
      using nat_split64 [of r] unfolding a_def b_def c_def d_def by linarith
    have "r < 1114112" using assms 4 by (auto simp: valid_rune_def)
    then have abc: "a < 5" "b < 64" "c < 64" "d < 64" by (auto simp: a_def b_def c_def d_def)
    have over: "a = 0 \<Longrightarrow> 16 \<le> b" using 4 r abc by auto
    have high: "a = 4 \<Longrightarrow> b < 16" using \<open>r < 1114112\<close> r abc by auto
    have "encode_rune r = map chr [240 + a, 128 + b, 128 + c, 128 + d]"
      using 4 assms by (simp add: encode_rune_def a_def b_def c_def d_def)
    then show ?thesis
      using abc over high
      by (auto simp: decode_rune_def rune2_def rune3_def rune4_def cont_def second_lo_def second_hi_def r)
  qed
qed


lemma encode_rune_nonempty [simp]: "encode_rune r \<noteq> []"
  by (simp add: encode_rune_def Let_def)

lemma encode_rune_ascii: "byte c < 128 \<Longrightarrow> encode_rune (byte c) = [c]"
  by (simp add: encode_rune_def valid_rune_def)

lemma runes_unfold: "s \<noteq> [] \<Longrightarrow> runes s = fst (decode_rune s) # runes (drop (snd (decode_rune s)) s)"
proof (cases s)
  case (Cons c cs)
  have "0 < snd (decode_rune (c # cs))" by (rule decode_rune_width) simp
  then show ?thesis
    by (simp add: Cons split_beta Let_def drop_Cons' del: One_nat_def)
qed simp

lemma runes_encode_append: "valid_rune r \<Longrightarrow> runes (encode_rune r @ s) = r # runes s"
  by (simp add: runes_unfold decode_encode_rune)

lemma runes_encode_runes: "\<forall>r\<in>set rs. valid_rune r \<Longrightarrow> runes (encode_runes rs) = rs"
  by (induction rs) (auto simp: encode_runes_def runes_encode_append)

lemma runes_induct [case_names Nil step]:
  assumes "P []" and "\<And>s. s \<noteq> [] \<Longrightarrow> P (drop (snd (decode_rune s)) s) \<Longrightarrow> P s"
  shows "P s"
proof (induction s rule: length_induct)
  case (1 s)
  show ?case
  proof (cases "s = []")
    case False
    then have "length (drop (snd (decode_rune s)) s) < length s"
      using decode_rune_width(1) [of s] by simp
    with 1 False show ?thesis by (auto intro: assms(2))
  qed (use assms(1) in simp)
qed

lemma runes_valid: "r \<in> set (runes s) \<Longrightarrow> valid_rune r"
  by (induction s rule: runes_induct) (auto simp: runes_unfold)

lemma runes_ascii_Cons: "byte c < 128 \<Longrightarrow> runes (c # cs) = byte c # runes cs"
  by (simp add: decode_rune_ascii)

lemma runes_ascii: "ascii s \<Longrightarrow> runes s = map byte s"
  by (induction s) (simp_all add: ascii_def runes_ascii_Cons del: runes.simps(2))

lemma length_runes: "length (runes s) \<le> length s"
proof (induction s rule: runes_induct)
  case (step s)
  then show ?case using decode_rune_width [of s] by (simp add: runes_unfold)
qed simp

text \<open>\<open>to_valid_utf8\<close> is idempotent, and the identity on what \<open>encode_runes\<close> produces.\<close>

lemma to_valid_encode_runes:
  "\<forall>r\<in>set rs. valid_rune r \<Longrightarrow> to_valid_utf8 (encode_runes rs) = encode_runes rs"
  by (simp add: to_valid_utf8_def runes_encode_runes)

lemma to_valid_utf8_idem [simp]: "to_valid_utf8 (to_valid_utf8 s) = to_valid_utf8 s"
  unfolding to_valid_utf8_def [of s] by (rule to_valid_encode_runes) (auto intro: runes_valid)

lemma encode_runes_ascii: "ascii s \<Longrightarrow> encode_runes (map byte s) = s"
  by (induction s) (simp_all add: encode_runes_def ascii_def encode_rune_ascii)

lemma to_valid_utf8_ascii [simp]: "ascii s \<Longrightarrow> to_valid_utf8 s = s"
  by (simp add: to_valid_utf8_def runes_ascii encode_runes_ascii)

section \<open>Case mapping and folding\<close>

record unicode =
  lower_hi :: "rune \<Rightarrow> rune"
  upper_hi :: "rune \<Rightarrow> rune"
  fold_hi :: "rune \<Rightarrow> rune"

definition lower_rune :: "unicode \<Rightarrow> rune \<Rightarrow> rune" where
  "lower_rune u r = (if r < 128 then (if 65 \<le> r \<and> r \<le> 90 then r + 32 else r) else lower_hi u r)"

definition upper_rune :: "unicode \<Rightarrow> rune \<Rightarrow> rune" where
  "upper_rune u r = (if r < 128 then (if 97 \<le> r \<and> r \<le> 122 then r - 32 else r) else upper_hi u r)"

text \<open>The representative of a rune's case-folding class (\<open>unicode.SimpleFold\<close>).\<close>

definition fold_rune :: "unicode \<Rightarrow> rune \<Rightarrow> rune" where
  "fold_rune u r = (if r < 128 then (if 65 \<le> r \<and> r \<le> 90 then r + 32 else r) else fold_hi u r)"

definition to_lower :: "unicode \<Rightarrow> bytes \<Rightarrow> bytes" where
  "to_lower u s = encode_runes (map (lower_rune u) (runes s))"

definition to_upper :: "unicode \<Rightarrow> bytes \<Rightarrow> bytes" where
  "to_upper u s = encode_runes (map (upper_rune u) (runes s))"

definition equal_fold :: "unicode \<Rightarrow> bytes \<Rightarrow> bytes \<Rightarrow> bool" where
  "equal_fold u s t \<longleftrightarrow> map (fold_rune u) (runes s) = map (fold_rune u) (runes t)"

definition ascii_lower :: "char \<Rightarrow> char" where
  "ascii_lower c = (if 65 \<le> byte c \<and> byte c \<le> 90 then chr (byte c + 32) else c)"

definition ascii_upper :: "char \<Rightarrow> char" where
  "ascii_upper c = (if 97 \<le> byte c \<and> byte c \<le> 122 then chr (byte c - 32) else c)"

text \<open>A table used by the witnesses: it leaves every rune above ASCII alone.\<close>

definition plain_unicode :: unicode where
  "plain_unicode = \<lparr>lower_hi = (\<lambda>r. r), upper_hi = (\<lambda>r. r), fold_hi = (\<lambda>r. r)\<rparr>"

lemma lower_rune_byte: "byte c < 128 \<Longrightarrow> lower_rune u (byte c) = byte (ascii_lower c)"
  by (simp add: lower_rune_def ascii_lower_def)

lemma upper_rune_byte: "byte c < 128 \<Longrightarrow> upper_rune u (byte c) = byte (ascii_upper c)"
  by (simp add: upper_rune_def ascii_upper_def)

lemma ascii_lower_ascii [simp]: "byte c < 128 \<Longrightarrow> byte (ascii_lower c) < 128"
  by (simp add: ascii_lower_def)

lemma ascii_upper_ascii [simp]: "byte c < 128 \<Longrightarrow> byte (ascii_upper c) < 128"
  by (auto simp: ascii_upper_def)

lemma to_lower_ascii: "ascii s \<Longrightarrow> to_lower u s = map ascii_lower s"
proof -
  assume a: "ascii s"
  have "map (lower_rune u) (runes s) = map byte (map ascii_lower s)"
    using a by (simp add: runes_ascii ascii_def lower_rune_byte)
  moreover have "ascii (map ascii_lower s)" using a by (simp add: ascii_def)
  ultimately show ?thesis by (simp only: to_lower_def encode_runes_ascii)
qed

lemma to_upper_ascii: "ascii s \<Longrightarrow> to_upper u s = map ascii_upper s"
proof -
  assume a: "ascii s"
  have "map (upper_rune u) (runes s) = map byte (map ascii_upper s)"
    using a by (simp add: runes_ascii ascii_def upper_rune_byte)
  moreover have "ascii (map ascii_upper s)" using a by (simp add: ascii_def)
  ultimately show ?thesis by (simp only: to_upper_def encode_runes_ascii)
qed

lemma encode_runes_Nil_iff [simp]: "encode_runes rs = [] \<longleftrightarrow> rs = []"
  by (auto simp: encode_runes_def)

lemma runes_Nil_iff [simp]: "runes s = [] \<longleftrightarrow> s = []"
  by (cases s) (auto simp: split_beta Let_def)

lemma to_lower_Nil_iff [simp]: "to_lower u s = [] \<longleftrightarrow> s = []"
  by (simp add: to_lower_def)

lemma to_upper_Nil_iff [simp]: "to_upper u s = [] \<longleftrightarrow> s = []"
  by (simp add: to_upper_def)

lemma equal_fold_refl [simp]: "equal_fold u s s"
  by (simp add: equal_fold_def)

lemma equal_fold_sym: "equal_fold u s t \<longleftrightarrow> equal_fold u t s"
  by (auto simp: equal_fold_def)

lemma equal_fold_trans: "equal_fold u s t \<Longrightarrow> equal_fold u t v \<Longrightarrow> equal_fold u s v"
  by (simp add: equal_fold_def)


section \<open>Trimming\<close>

text \<open>\<open>unicode.IsSpace\<close>.\<close>

definition is_space :: "rune \<Rightarrow> bool" where
  "is_space r \<longleftrightarrow> (9 \<le> r \<and> r \<le> 13) \<or> r = 32 \<or> r = 133 \<or> r = 160 \<or> r = 5760
     \<or> (8192 \<le> r \<and> r \<le> 8202) \<or> r = 8232 \<or> r = 8233 \<or> r = 8239 \<or> r = 8287 \<or> r = 12288"

text \<open>\<open>utf8.DecodeLastRune\<close>: back up over at most three continuation bytes.\<close>

definition decode_last_rune :: "bytes \<Rightarrow> rune \<times> nat" where
  "decode_last_rune s =
     (if s = [] then (rune_error, 0)
      else if byte (last s) < 128 then (byte (last s), 1)
      else
        (case find (\<lambda>k. k \<le> length s \<and> \<not> cont 128 191 (byte (s ! (length s - k)))) [2, 3, 4] of
           None \<Rightarrow> (rune_error, 1)
         | Some k \<Rightarrow>
             (let (r, n) = decode_rune (drop (length s - k) s)
              in if n = k then (r, n) else (rune_error, 1))))"

lemma decode_last_rune_width: "s \<noteq> [] \<Longrightarrow> 0 < snd (decode_last_rune s)"
  by (auto simp: decode_last_rune_def split_beta Let_def split: option.splits if_splits)

function trim_left :: "bytes \<Rightarrow> bytes" where
  "trim_left s =
     (if s = [] then []
      else if is_space (fst (decode_rune s)) then trim_left (drop (snd (decode_rune s)) s) else s)"
  by pat_completeness auto
termination
  by (relation "measure length") (use decode_rune_width(1) in auto)

function trim_right :: "bytes \<Rightarrow> bytes" where
  "trim_right s =
     (if s = [] then []
      else if is_space (fst (decode_last_rune s))
           then trim_right (take (length s - snd (decode_last_rune s)) s) else s)"
  by pat_completeness auto
termination
  by (relation "measure length") (use decode_last_rune_width in auto)

declare trim_left.simps [simp del] trim_right.simps [simp del]

definition trim_space :: "bytes \<Rightarrow> bytes" where
  "trim_space s = trim_right (trim_left s)"

text \<open>\<open>strings.Trim\<close>, \<open>TrimRight\<close> for a cutset of single-byte characters.\<close>

definition trim_right_set :: "char list \<Rightarrow> bytes \<Rightarrow> bytes" where
  "trim_right_set cs s = rev (dropWhile (\<lambda>c. c \<in> set cs) (rev s))"

definition trim_set :: "char list \<Rightarrow> bytes \<Rightarrow> bytes" where
  "trim_set cs s = trim_right_set cs (dropWhile (\<lambda>c. c \<in> set cs) s)"

lemma trim_left_Nil [simp]: "trim_left [] = []"
  by (simp add: trim_left.simps)

lemma trim_right_Nil [simp]: "trim_right [] = []"
  by (simp add: trim_right.simps)

lemma trim_space_Nil [simp]: "trim_space [] = []"
  by (simp add: trim_space_def)

lemma trim_left_space:
  "s \<noteq> [] \<Longrightarrow> is_space (fst (decode_rune s)) \<Longrightarrow> trim_left s = trim_left (drop (snd (decode_rune s)) s)"
  by (subst trim_left.simps) simp

lemma trim_left_stop: "\<not> is_space (fst (decode_rune s)) \<Longrightarrow> trim_left s = s"
  by (subst trim_left.simps) simp

lemma trim_right_space:
  "s \<noteq> [] \<Longrightarrow> is_space (fst (decode_last_rune s)) \<Longrightarrow>
   trim_right s = trim_right (take (length s - snd (decode_last_rune s)) s)"
  by (subst trim_right.simps) simp

lemma trim_right_stop: "\<not> is_space (fst (decode_last_rune s)) \<Longrightarrow> trim_right s = s"
  by (subst trim_right.simps) simp

lemma trim_left_suffix: "\<exists>p. s = p @ trim_left s"
proof (induction s rule: trim_left.induct)
  case (1 s)
  show ?case
  proof (cases "s \<noteq> [] \<and> is_space (fst (decode_rune s))")
    case True
    with "1.IH" obtain p where "drop (snd (decode_rune s)) s = p @ trim_left (drop (snd (decode_rune s)) s)"
      by blast
    then have "s = (take (snd (decode_rune s)) s @ p) @ trim_left s"
      using True by (simp add: trim_left_space)
    then show ?thesis by blast
  next
    case False
    then show ?thesis by (cases "s = []") (auto simp: trim_left_stop)
  qed
qed

lemma trim_right_prefix: "\<exists>q. s = trim_right s @ q"
proof (induction s rule: trim_right.induct)
  case (1 s)
  let ?t = "take (length s - snd (decode_last_rune s)) s"
  show ?case
  proof (cases "s \<noteq> [] \<and> is_space (fst (decode_last_rune s))")
    case True
    with "1.IH" obtain q where "?t = trim_right ?t @ q" by blast
    then have "s = trim_right s @ (q @ drop (length s - snd (decode_last_rune s)) s)"
      using True by (simp add: trim_right_space) (metis append_assoc append_take_drop_id)
    then show ?thesis by blast
  next
    case False
    then show ?thesis by (cases "s = []") (auto simp: trim_right_stop)
  qed
qed

lemma trim_space_infix: "\<exists>p q. s = p @ trim_space s @ q"
  unfolding trim_space_def by (metis append_assoc trim_left_suffix trim_right_prefix)

lemma set_trim_space: "set (trim_space s) \<subseteq> set s"
  using trim_space_infix [of s] by (metis Un_iff set_append subsetI)

text \<open>A string that starts and ends with a graphic ASCII byte is not changed.\<close>

definition graphic :: "char \<Rightarrow> bool" where
  "graphic c \<longleftrightarrow> 32 < byte c \<and> byte c < 128"

lemma trim_space_id:
  assumes "s \<noteq> []" "graphic (hd s)" "graphic (last s)"
  shows "trim_space s = s"
proof -
  have "trim_left s = s"
    using assms by (cases s) (auto intro!: trim_left_stop simp: graphic_def decode_rune_ascii is_space_def)
  moreover have "trim_right s = s"
    using assms by (intro trim_right_stop) (auto simp: decode_last_rune_def graphic_def is_space_def)
  ultimately show ?thesis by (simp add: trim_space_def)
qed

section \<open>Searching, splitting and replacing\<close>

text \<open>\<open>strings.Index\<close> with \<open>None\<close> for the result \<open>-1\<close>.\<close>

definition has_prefix :: "bytes \<Rightarrow> bytes \<Rightarrow> bool" where
  "has_prefix s p \<longleftrightarrow> take (length p) s = p"

definition has_suffix :: "bytes \<Rightarrow> bytes \<Rightarrow> bool" where
  "has_suffix s p \<longleftrightarrow> length p \<le> length s \<and> drop (length s - length p) s = p"

definition trim_suffix :: "bytes \<Rightarrow> bytes \<Rightarrow> bytes" where
  "trim_suffix s p = (if has_suffix s p then take (length s - length p) s else s)"

fun index_of :: "bytes \<Rightarrow> bytes \<Rightarrow> nat option" where
  "index_of [] p = (if p = [] then Some 0 else None)"
| "index_of (c # cs) p =
     (if has_prefix (c # cs) p then Some 0 else map_option Suc (index_of cs p))"

definition contains :: "bytes \<Rightarrow> bytes \<Rightarrow> bool" where
  "contains s p \<longleftrightarrow> index_of s p \<noteq> None"

fun index_byte :: "(char \<Rightarrow> bool) \<Rightarrow> bytes \<Rightarrow> nat option" where
  "index_byte P [] = None"
| "index_byte P (c # cs) = (if P c then Some 0 else map_option Suc (index_byte P cs))"

definition contains_any :: "char list \<Rightarrow> bytes \<Rightarrow> bool" where
  "contains_any cs s \<longleftrightarrow> (\<exists>c\<in>set s. c \<in> set cs)"

text \<open>\<open>strings.ReplaceAll\<close> for a non-empty pattern, \<open>strings.Split\<close> on one byte.\<close>

function replace_all :: "bytes \<Rightarrow> bytes \<Rightarrow> bytes \<Rightarrow> bytes" where
  "replace_all old new [] = []"
| "replace_all old new (c # cs) =
     (if old \<noteq> [] \<and> has_prefix (c # cs) old
      then new @ replace_all old new (drop (length old - 1) cs)
      else c # replace_all old new cs)"
  by pat_completeness auto
termination
  by (relation "measure (\<lambda>(_, _, s). length s)") auto

fun split_byte :: "char \<Rightarrow> bytes \<Rightarrow> bytes list" where
  "split_byte sep [] = [[]]"
| "split_byte sep (c # cs) =
     (if c = sep then [] # split_byte sep cs
      else (case split_byte sep cs of [] \<Rightarrow> [[c]] | w # ws \<Rightarrow> (c # w) # ws))"

lemma split_byte_nonempty [simp]: "split_byte sep s \<noteq> []"
  by (induction s) (auto split: list.splits)

lemma split_byte_no_sep: "w \<in> set (split_byte sep s) \<Longrightarrow> sep \<notin> set w"
proof (induction s arbitrary: w)
  case (Cons c cs)
  then show ?case
    by (cases "split_byte sep cs") (auto split: if_splits)
qed simp

lemma index_byte_SomeD:
  "index_byte P s = Some i \<Longrightarrow> i < length s \<and> P (s ! i) \<and> (\<forall>c\<in>set (take i s). \<not> P c)"
  by (induction s arbitrary: i) (auto split: if_splits)

lemma index_byte_None_iff: "index_byte P s = None \<longleftrightarrow> (\<forall>c\<in>set s. \<not> P c)"
  by (induction s) auto

lemma index_of_SomeD:
  "index_of s p = Some i \<Longrightarrow> i + length p \<le> length s \<and> take (length p) (drop i s) = p"
proof (induction s arbitrary: i)
  case (Cons c cs)
  then show ?case
    by (auto simp: has_prefix_def split: if_splits dest: arg_cong [where f = length])
qed (auto split: if_splits)

lemma index_of_Some_le:
  "take (length p) (drop j s) = p \<Longrightarrow> j + length p \<le> length s \<Longrightarrow> \<exists>i\<le>j. index_of s p = Some i"
proof (induction s arbitrary: j)
  case (Cons c cs)
  show ?case
  proof (cases j)
    case 0
    with Cons.prems show ?thesis by (simp add: has_prefix_def)
  next
    case (Suc k)
    with Cons.IH [of k] Cons.prems show ?thesis by auto
  qed
qed simp

lemma contains_iff: "contains s p \<longleftrightarrow> (\<exists>a b. s = a @ p @ b)"
proof
  assume "contains s p"
  then obtain i where "index_of s p = Some i" by (auto simp: contains_def)
  then have i: "take (length p) (drop i s) = p" by (simp add: index_of_SomeD)
  have "s = take i s @ take (length p) (drop i s) @ drop (length p) (drop i s)"
    by (simp only: append_take_drop_id)
  with i show "\<exists>a b. s = a @ p @ b" by metis
next
  assume "\<exists>a b. s = a @ p @ b"
  then obtain a b where "s = a @ p @ b" by blast
  then have "take (length p) (drop (length a) s) = p" "length a + length p \<le> length s" by auto
  from index_of_Some_le [OF this] show "contains s p" by (auto simp: contains_def)
qed


section \<open>Numbers\<close>

definition is_digit :: "char \<Rightarrow> bool" where
  "is_digit c \<longleftrightarrow> 48 \<le> byte c \<and> byte c \<le> 57"

definition digit_val :: "char \<Rightarrow> nat" where
  "digit_val c = byte c - 48"

fun parse_digits :: "nat \<Rightarrow> bytes \<Rightarrow> nat option" where
  "parse_digits n [] = Some n"
| "parse_digits n (c # cs) = (if is_digit c then parse_digits (10 * n + digit_val c) cs else None)"

text \<open>
  \<open>strconv.Atoi\<close> (and \<open>ParseInt(s, 10, 64)\<close>): an optional sign, at least one digit, no
  other byte, and a value that fits 64 bits; \<open>None\<close> is any error.
\<close>

definition atoi :: "bytes \<Rightarrow> int option" where
  "atoi s =
     (let neg = (s \<noteq> [] \<and> hd s = CHR ''-'');
          ds = (if s \<noteq> [] \<and> (hd s = CHR ''-'' \<or> hd s = CHR ''+'') then tl s else s)
      in if ds = [] then None
         else (case parse_digits 0 ds of
                 None \<Rightarrow> None
               | Some n \<Rightarrow>
                   (let v = (if neg then - int n else int n)
                    in if in_int64 v then Some v else None)))"

fun nat_digits :: "nat \<Rightarrow> bytes" where
  "nat_digits n = (if n < 10 then [chr (48 + n)] else nat_digits (n div 10) @ [chr (48 + n mod 10)])"

declare nat_digits.simps [simp del]

text \<open>\<open>strconv.Itoa\<close>, the verb \<open>%d\<close>.\<close>

definition itoa :: "int \<Rightarrow> bytes" where
  "itoa i = (if i < 0 then CHR ''-'' # nat_digits (nat (- i)) else nat_digits (nat i))"

lemma is_digit_chr [simp]: "d < 10 \<Longrightarrow> is_digit (chr (48 + d))"
  by (simp add: is_digit_def)

lemma digit_val_chr [simp]: "d < 10 \<Longrightarrow> digit_val (chr (48 + d)) = d"
  by (simp add: digit_val_def)

lemma nat_digits_nonempty [simp]: "nat_digits n \<noteq> []"
  by (subst nat_digits.simps) simp

lemma parse_digits_append:
  "parse_digits n (s @ t) = (case parse_digits n s of None \<Rightarrow> None | Some m \<Rightarrow> parse_digits m t)"
  by (induction s arbitrary: n) auto

lemma parse_nat_digits [simp]: "parse_digits 0 (nat_digits n) = Some n"
proof (induction n rule: nat_digits.induct)
  case (1 n)
  then show ?case
    by (subst nat_digits.simps) (simp add: parse_digits_append)
qed

lemma nat_digits_digits: "\<forall>c\<in>set (nat_digits n). is_digit c"
proof (induction n rule: nat_digits.induct)
  case (1 n)
  then show ?case by (subst nat_digits.simps) simp
qed

lemma hd_nat_digits: "is_digit (hd (nat_digits n))"
  using nat_digits_digits [of n] by (cases "nat_digits n") auto

lemma atoi_itoa: "in_int64 i \<Longrightarrow> atoi (itoa i) = Some i"
proof -
  assume i: "in_int64 i"
  have "hd (nat_digits n) \<noteq> CHR ''-''" "hd (nat_digits n) \<noteq> CHR ''+''" for n
    using hd_nat_digits [of n] by (auto simp: is_digit_def byte_def)
  with i show ?thesis
    by (auto simp: atoi_def itoa_def Let_def)
qed

lemma atoi_in_int64: "atoi s = Some i \<Longrightarrow> in_int64 i"
  by (auto simp: atoi_def Let_def split: if_splits option.splits)

lemma itoa_inject: "in_int64 i \<Longrightarrow> in_int64 j \<Longrightarrow> itoa i = itoa j \<longleftrightarrow> i = j"
  by (metis atoi_itoa option.inject)

lemma itoa_graphic: "\<forall>c\<in>set (itoa i). is_digit c \<or> c = CHR ''-''"
  using nat_digits_digits by (auto simp: itoa_def)

section \<open>Evaluation on literals\<close>

text \<open>Simp rules that evaluate the string functions on closed ASCII arguments.\<close>

lemma chr_eval:
  "chr n = Char (odd n) (odd (n div 2)) (odd (n div 4)) (odd (n div 8))
     (odd (n div 16)) (odd (n div 32)) (odd (n div 64)) (odd (n div 128))"
  by (simp only: chr_def char_of_def bit_iff_odd) simp

lemmas ascii_eval = byte_def chr_eval ascii_def to_lower_ascii to_upper_ascii ascii_lower_def ascii_upper_def

lemmas number_eval = is_digit_def digit_val_def atoi_def in_int64_def max_int64_def

lemmas search_eval = has_prefix_def has_suffix_def trim_suffix_def contains_def

end
