(* ===== verification/Go_Time.thy ===== *)
theory Go_Time
  imports Go_Strings
begin

text \<open>
  What the program uses of Go's package \<open>time\<close>: instants, the calendar arithmetic of
  \<open>Date\<close> and \<open>AddDate\<close>, \<open>Add\<close>, \<open>UnixMilli\<close> with its 64-bit wrap-around, and
  \<open>ParseInLocation\<close> for the three iCalendar layouts.

  The time-zone database is data outside the program.  A location is the function
  \<open>Location.lookup\<close>: for a Unix second, the offset in force and the first and the last
  (exclusive) second of its period.
\<close>

type_synonym location = "int \<Rightarrow> int \<times> int \<times> int"

record tz_env =
  tz_local :: location
  tz_load :: "bytes \<Rightarrow> location option"

definition utc :: location where
  "utc = (\<lambda>s. (0, s, s + 1))"

record go_time =
  t_sec :: int
  t_nsec :: int
  t_loc :: location

section \<open>The civil calendar\<close>

definition is_leap :: "int \<Rightarrow> bool" where
  "is_leap y \<longleftrightarrow> y mod 4 = 0 \<and> (y mod 100 \<noteq> 0 \<or> y mod 400 = 0)"

definition days_in :: "int \<Rightarrow> int \<Rightarrow> int" where
  "days_in m y =
     (if m = 2 then (if is_leap y then 29 else 28)
      else if m = 4 \<or> m = 6 \<or> m = 9 \<or> m = 11 then 30 else 31)"

fun days_before_month :: "nat \<Rightarrow> int \<Rightarrow> int" where
  "days_before_month 0 y = 0"
| "days_before_month (Suc k) y = days_before_month k y + days_in (int (Suc k)) y"

definition days_before_year :: "int \<Rightarrow> int" where
  "days_before_year y = 365 * (y - 1) + (y - 1) div 4 - (y - 1) div 100 + (y - 1) div 400"

text \<open>Days from 1 January 1970; \<open>719162\<close> days lie between year 1 and that date.\<close>

definition civil_days :: "int \<Rightarrow> int \<Rightarrow> int \<Rightarrow> int" where
  "civil_days y m d = days_before_year y + days_before_month (nat (m - 1)) y + (d - 1) - 719162"

definition civil_secs :: "int \<Rightarrow> int \<Rightarrow> int \<Rightarrow> int \<Rightarrow> int \<Rightarrow> int \<Rightarrow> int" where
  "civil_secs y m d h mi s = civil_days y m d * 86400 + h * 3600 + mi * 60 + s"

text \<open>The end of \<open>time.Date\<close>: from local clock seconds to a Unix second.\<close>

definition resolve :: "location \<Rightarrow> int \<Rightarrow> int" where
  "resolve l unix =
     (let (offset, start, end') = l unix in
      if offset = 0 then unix
      else
        (let u = unix - offset in
         if u < start \<or> end' \<le> u then unix - fst (l u) else u))"

definition date_in :: "location \<Rightarrow> int \<Rightarrow> int \<Rightarrow> go_time" where
  "date_in l secs nsec = \<lparr>t_sec = resolve l secs, t_nsec = nsec, t_loc = l\<rparr>"

text \<open>\<open>AddDate(0, 0, n)\<close>: the same wall clock \<open>n\<close> days later.\<close>

definition add_days :: "int \<Rightarrow> go_time \<Rightarrow> go_time" where
  "add_days n t = date_in (t_loc t) (t_sec t + fst (t_loc t (t_sec t)) + n * 86400) (t_nsec t)"

definition nanos :: "go_time \<Rightarrow> int" where
  "nanos t = t_sec t * 1000000000 + t_nsec t"

text \<open>\<open>Time.Add\<close> of a duration in nanoseconds.\<close>

definition add_duration :: "int \<Rightarrow> go_time \<Rightarrow> go_time" where
  "add_duration d t = t\<lparr>t_sec := (nanos t + d) div 1000000000, t_nsec := (nanos t + d) mod 1000000000\<rparr>"

definition unix_milli :: "go_time \<Rightarrow> int" where
  "unix_milli t = wrap_int64 (t_sec t * 1000 + t_nsec t div 1000000)"

definition from_unix_milli :: "int \<Rightarrow> go_time" where
  "from_unix_milli ms = \<lparr>t_sec = ms div 1000, t_nsec = ms mod 1000 * 1000000, t_loc = utc\<rparr>"

text \<open>\<open>Time.Equal\<close>.\<close>

definition same_instant :: "go_time \<Rightarrow> go_time \<Rightarrow> bool" where
  "same_instant a b \<longleftrightarrow> t_sec a = t_sec b \<and> t_nsec a = t_nsec b"

lemma resolve_utc [simp]: "resolve utc s = s"
  by (simp add: resolve_def utc_def)

lemma add_days_utc: "t_loc t = utc \<Longrightarrow> add_days n t = t\<lparr>t_sec := t_sec t + n * 86400\<rparr>"
  by (cases t) (simp add: add_days_def date_in_def, simp add: utc_def)

lemma nanos_add_duration: "nanos (add_duration d t) = nanos t + d"
  by (simp add: nanos_def add_duration_def)

text \<open>The round trip through milliseconds succeeds exactly when nothing overflows or is cut off.\<close>

lemma milli_roundtrip_iff:
  assumes "0 \<le> t_nsec t" "t_nsec t < 1000000000"
  shows "same_instant (from_unix_milli (unix_milli t)) t \<longleftrightarrow>
    t_nsec t mod 1000000 = 0 \<and> in_int64 (t_sec t * 1000 + t_nsec t div 1000000)"
proof -
  let ?n = "t_nsec t" and ?w = "t_sec t * 1000 + t_nsec t div 1000000"
  have range: "0 \<le> ?n div 1000000" "?n div 1000000 < 1000"
    using assms by auto
  show ?thesis
  proof (cases "in_int64 ?w")
    case True
    have "?w div 1000 = t_sec t" "?w mod 1000 = ?n div 1000000"
      using range by auto
    then show ?thesis using True
      by (auto simp: same_instant_def from_unix_milli_def unix_milli_def) presburger+
  next
    case False
    then have "wrap_int64 ?w \<noteq> ?w" by (simp add: wrap_int64_fixed)
    moreover have "wrap_int64 ?w = ?w" if "same_instant (from_unix_milli (unix_milli t)) t"
    proof -
      have "wrap_int64 ?w div 1000 = t_sec t" "wrap_int64 ?w mod 1000 * 1000000 = ?n"
        using that by (auto simp: same_instant_def from_unix_milli_def unix_milli_def)
      moreover have "wrap_int64 ?w = wrap_int64 ?w div 1000 * 1000 + wrap_int64 ?w mod 1000"
        by (simp only: div_mult_mod_eq)
      ultimately show ?thesis by (metis nonzero_mult_div_cancel_right zero_neq_numeral)
    qed
    ultimately show ?thesis using False by auto
  qed
qed

section \<open>Parsing\<close>

text \<open>\<open>getnum\<close>: one or two digits, or exactly two when \<open>fixed\<close>.\<close>

definition getnum :: "bytes \<Rightarrow> bool \<Rightarrow> (int \<times> bytes) option" where
  "getnum s fixed =
     (case s of
        [] \<Rightarrow> None
      | c # cs \<Rightarrow>
          if \<not> is_digit c then None
          else (case cs of
              [] \<Rightarrow> if fixed then None else Some (int (digit_val c), [])
            | d # ds \<Rightarrow>
                if is_digit d then Some (int (10 * digit_val c + digit_val d), ds)
                else if fixed then None else Some (int (digit_val c), cs)))"

text \<open>The layout element \<open>2006\<close>.\<close>

definition get_year :: "bytes \<Rightarrow> (int \<times> bytes) option" where
  "get_year s =
     (if length s < 4 then None
      else map_option (\<lambda>n. (int n, drop 4 s)) (parse_digits 0 (take 4 s)))"

definition get_literal :: "char \<Rightarrow> bytes \<Rightarrow> bytes option" where
  "get_literal c s = (case s of [] \<Rightarrow> None | d # ds \<Rightarrow> if d = c then Some ds else None)"

definition in_range :: "int \<Rightarrow> int \<Rightarrow> int \<times> bytes \<Rightarrow> (int \<times> bytes) option" where
  "in_range lo hi p = (if lo \<le> fst p \<and> fst p \<le> hi then Some p else None)"

text \<open>The elements \<open>20060102\<close>; the day is checked against its month at the end of \<open>Parse\<close>.\<close>

definition get_date :: "bytes \<Rightarrow> ((int \<times> int \<times> int) \<times> bytes) option" where
  "get_date s0 =
     Option.bind (get_year s0) (\<lambda>(y, s1).
     Option.bind (Option.bind (getnum s1 True) (in_range 1 12)) (\<lambda>(m, s2).
     Option.bind (getnum s2 True) (\<lambda>(d, s3). Some ((y, m, d), s3))))"

definition valid_day :: "int \<times> int \<times> int \<Rightarrow> bool" where
  "valid_day ymd = (case ymd of (y, m, d) \<Rightarrow> 1 \<le> d \<and> d \<le> days_in m y)"

text \<open>
  A fraction after the seconds is taken even though the layouts have none; at most nine of
  its digits count.
\<close>

definition get_fraction :: "bytes \<Rightarrow> int \<times> bytes" where
  "get_fraction s =
     (case s of
        c # d # ds \<Rightarrow>
          if (c = CHR ''.'' \<or> c = CHR '','') \<and> is_digit d then
            (let digits = take 9 (takeWhile is_digit (d # ds))
             in ((case parse_digits 0 digits of None \<Rightarrow> 0 | Some n \<Rightarrow> int n * 10 ^ (9 - length digits)),
                 dropWhile is_digit (d # ds)))
          else (0, s)
      | _ \<Rightarrow> (0, s))"

definition get_clock :: "bytes \<Rightarrow> ((int \<times> int \<times> int \<times> int) \<times> bytes) option" where
  "get_clock s0 =
     Option.bind (Option.bind (getnum s0 False) (in_range 0 23)) (\<lambda>(h, s1).
     Option.bind (Option.bind (getnum s1 True) (in_range 0 59)) (\<lambda>(mi, s2).
     Option.bind (Option.bind (getnum s2 True) (in_range 0 59)) (\<lambda>(s, s3).
       let (n, s4) = get_fraction s3 in Some ((h, mi, s, n), s4))))"

text \<open>\<open>time.ParseInLocation("20060102", value, time.UTC)\<close>.\<close>

definition parse_day :: "bytes \<Rightarrow> go_time option" where
  "parse_day value =
     (case get_date value of
        None \<Rightarrow> None
      | Some ((y, m, d), rest) \<Rightarrow>
          if rest = [] \<and> valid_day (y, m, d)
          then Some (date_in utc (civil_secs y m d 0 0 0) 0) else None)"

text \<open>
  \<open>time.ParseInLocation("20060102T150405" + tail, value, loc)\<close>, where the tail is empty or
  the literal \<open>Z\<close>.
\<close>

definition parse_datetime :: "bytes \<Rightarrow> location \<Rightarrow> bytes \<Rightarrow> go_time option" where
  "parse_datetime tail loc value =
     Option.bind (get_date value) (\<lambda>((y, m, d), s1).
     Option.bind (get_literal (CHR ''T'') s1) (\<lambda>s2.
     Option.bind (get_clock s2) (\<lambda>((h, mi, s, n), s3).
       if s3 = tail \<and> valid_day (y, m, d)
       then Some (date_in loc (civil_secs y m d h mi s) n) else None)))"


section \<open>The calendar arithmetic is right\<close>

text \<open>
  \<open>civil_days\<close> counts days: the day after a day of the same month, after the last of a
  month, and after 31 December is one more.
\<close>

lemma days_in_bounds: "28 \<le> days_in m y" "days_in m y \<le> 31"
  by (auto simp: days_in_def)

lemma civil_days_next_day: "civil_days y m (d + 1) = civil_days y m d + 1"
  by (simp add: civil_days_def)

lemma civil_days_next_month:
  assumes "1 \<le> m"
  shows "civil_days y (m + 1) 1 = civil_days y m (days_in m y) + 1"
proof -
  obtain k where k: "m = int k + 1" using assms by (metis add.commute zle_iff_zadd)
  then show ?thesis by (simp add: civil_days_def nat_add_distrib add.commute)
qed

lemma year_length: "days_before_year (y + 1) - days_before_year y = (if is_leap y then 366 else 365)"
proof -
  have step: "y div k - (y - 1) div k = (if y mod k = 0 then 1 else 0)" if "0 < k" for k :: int
  proof (cases "y mod k = 0")
    case True
    then obtain q where "y = k * q" by (metis mod_0_imp_dvd dvdE)
    moreover have "(k * q - 1) div k = q - 1"
      using that by (intro int_div_pos_eq [where r = "k - 1"]) (auto simp: algebra_simps)
    ultimately show ?thesis using that True by simp
  next
    case False
    have "y - 1 = k * (y div k) + (y mod k - 1)" by simp
    moreover have "0 \<le> y mod k - 1" "y mod k - 1 < k"
      using False that pos_mod_sign [of k y] pos_mod_bound [of k y] by linarith+
    ultimately have "(y - 1) div k = y div k" using that by (metis int_div_pos_eq)
    then show ?thesis using False by simp
  qed
  have imps: "y mod 400 = 0 \<Longrightarrow> y mod 100 = 0" "y mod 100 = 0 \<Longrightarrow> y mod 4 = 0"
    using dvd_trans [of 100 400 y] dvd_trans [of 4 100 y] by (simp_all add: mod_eq_0_iff_dvd)
  have bools: "(365::int) + (if A then 1 else 0) - (if B then 1 else 0) + (if C then 1 else 0)
      = (if A \<and> (\<not> B \<or> C) then 366 else 365)" if "C \<longrightarrow> B" "B \<longrightarrow> A" for A B C
    using that by (cases A; cases B; cases C) simp_all
  have regroup: "365 * y + a - b + c - (365 * (y - 1) + a' - b' + c')
      = 365 + (a - a') - (b - b') + (c - c')" for a b c a' b' c' :: int
    by (simp add: algebra_simps)
  have "days_before_year (y + 1) - days_before_year y =
      365 + (y div 4 - (y - 1) div 4) - (y div 100 - (y - 1) div 100) + (y div 400 - (y - 1) div 400)"
    unfolding days_before_year_def add_diff_cancel_right' by (rule regroup)
  also have "\<dots> = 365 + (if y mod 4 = 0 then 1 else 0) - (if y mod 100 = 0 then 1 else 0)
      + (if y mod 400 = 0 then 1 else 0)"
    using step [of 4] step [of 100] step [of 400] by (simp only: zero_less_numeral)
  also have "\<dots> = (if is_leap y then 366 else 365)"
    unfolding is_leap_def by (rule bools) (use imps in blast)+
  finally show ?thesis .
qed

lemma year_months: "days_before_month 12 y = (if is_leap y then 366 else 365)"
  by (simp add: numeral_eq_Suc days_in_def)

lemma civil_days_next_year: "civil_days (y + 1) 1 1 = civil_days y 12 31 + 1"
proof -
  have "days_before_month 12 y = days_before_month 11 y + 31"
    by (simp add: numeral_eq_Suc days_in_def)
  then show ?thesis
    using year_length [of y] year_months [of y] by (auto simp: civil_days_def split: if_splits)
qed

lemma civil_days_epoch: "civil_days 1970 1 1 = 0"
  by (simp add: civil_days_def days_before_year_def)

end
