(* ===== verification/Events.thy ===== *)
theory Events
  imports Go_Strings "HOL-Library.Sublist"
begin

text \<open>
  \<open>internal/events/events.go\<close>: the events of the mail store and the hub that fans them out
  to the subscribers of the event stream.

  A Go channel is an entry of the hub's channel table: its buffered values and whether it
  was closed.  The table stands for the heap; \<open>hub.subscribers\<close> maps subscription ids to
  references into it.  Every operation runs under \<open>hub.mu\<close>, so it is one step; the only
  other step is a receive by the owner of a channel.
\<close>

section \<open>Events\<close>

datatype event_type = MailboxNewT | MailboxDeletedT | MessagesChangedT | CalendarChangedT
  | MessageNewT | ResetT

record mailbox_ref =
  mr_id :: int
  mr_address :: bytes

record message_summary =
  sum_id :: int
  sum_subject :: "bytes option"
  sum_from_address :: "bytes option"
  sum_from_name :: "bytes option"

record event =
  ev_type :: event_type
  ev_mailbox :: "mailbox_ref option"
  ev_mailbox_id :: "int option"
  ev_message :: "message_summary option"

definition mailbox_event :: "event_type \<Rightarrow> int \<Rightarrow> event" where
  "mailbox_event t i = \<lparr>ev_type = t, ev_mailbox = None, ev_mailbox_id = Some i, ev_message = None\<rparr>"

definition mailbox_new :: "int \<Rightarrow> bytes \<Rightarrow> event" where
  "mailbox_new i a = \<lparr>ev_type = MailboxNewT, ev_mailbox = Some \<lparr>mr_id = i, mr_address = a\<rparr>,
     ev_mailbox_id = None, ev_message = None\<rparr>"

definition mailbox_deleted :: "int \<Rightarrow> event" where
  "mailbox_deleted i = mailbox_event MailboxDeletedT i"

definition messages_changed :: "int \<Rightarrow> event" where
  "messages_changed i = mailbox_event MessagesChangedT i"

definition calendar_changed :: "int \<Rightarrow> event" where
  "calendar_changed i = mailbox_event CalendarChangedT i"

definition message_new :: "int \<Rightarrow> int \<Rightarrow> bytes option \<Rightarrow> bytes option \<Rightarrow> bytes option \<Rightarrow> event" where
  "message_new mb i subject from_address from_name =
     \<lparr>ev_type = MessageNewT, ev_mailbox = None, ev_mailbox_id = Some mb,
      ev_message = Some \<lparr>sum_id = i, sum_subject = subject, sum_from_address = from_address,
                         sum_from_name = from_name\<rparr>\<rparr>"

definition reset_event :: event where
  "reset_event = \<lparr>ev_type = ResetT, ev_mailbox = None, ev_mailbox_id = None, ev_message = None\<rparr>"

section \<open>The hub\<close>

record channel =
  buffer :: "event list"
  chan_closed :: bool

record hub =
  next_id :: uint64
  subscribers :: "(uint64 \<times> nat) list"
  hub_closed :: bool
  channels :: "channel list"

text \<open>What \<open>Subscribe\<close> returns: the channel and the closure that unsubscribes, once.\<close>

record subscription =
  sub_id :: "uint64 option"
  sub_chan :: nat
  sub_done :: bool

definition subscriber_buffer :: nat where
  "subscriber_buffer = 64"

definition new_hub :: hub where
  "new_hub = \<lparr>next_id = 0, subscribers = [], hub_closed = False, channels = []\<rparr>"

definition close_chan :: "nat \<Rightarrow> channel list \<Rightarrow> channel list" where
  "close_chan c chs = chs[c := (chs ! c)\<lparr>chan_closed := True\<rparr>]"

definition push_chan :: "nat \<Rightarrow> event \<Rightarrow> channel list \<Rightarrow> channel list" where
  "push_chan c e chs = chs[c := (chs ! c)\<lparr>buffer := buffer (chs ! c) @ [e]\<rparr>]"

definition subscribe :: "hub \<Rightarrow> subscription \<times> hub" where
  "subscribe h =
     (if hub_closed h then
        (\<lparr>sub_id = None, sub_chan = length (channels h), sub_done = False\<rparr>,
         h\<lparr>channels := channels h @ [\<lparr>buffer = [], chan_closed = True\<rparr>]\<rparr>)
      else
        (let c = length (channels h); i = next_id h in
         (\<lparr>sub_id = Some i, sub_chan = c, sub_done = False\<rparr>,
          h\<lparr>channels := channels h @ [\<lparr>buffer = [], chan_closed = False\<rparr>],
            next_id := i + 1,
            subscribers := map_put i c (subscribers h)\<rparr>)))"

definition unsubscribe :: "subscription \<Rightarrow> hub \<Rightarrow> subscription \<times> hub" where
  "unsubscribe s h =
     (case sub_id s of
        None \<Rightarrow> (s, h)
      | Some i \<Rightarrow>
          if sub_done s then (s, h)
          else (s\<lparr>sub_done := True\<rparr>,
            (if map_of (subscribers h) i = Some (sub_chan s)
             then h\<lparr>subscribers := map_delete i (subscribers h),
                    channels := close_chan (sub_chan s) (channels h)\<rparr>
             else h)))"

text \<open>
  One iteration of the loop of \<open>Broadcast\<close>: the non-blocking send succeeds when the buffer
  has room; otherwise the subscriber is removed and its channel closed.
\<close>

definition offer :: "event \<Rightarrow> hub \<Rightarrow> uint64 \<times> nat \<Rightarrow> hub" where
  "offer e h p =
     (if length (buffer (channels h ! snd p)) < subscriber_buffer
      then h\<lparr>channels := push_chan (snd p) e (channels h)\<rparr>
      else h\<lparr>subscribers := map_delete (fst p) (subscribers h),
             channels := close_chan (snd p) (channels h)\<rparr>)"

definition broadcast :: "event \<Rightarrow> hub \<Rightarrow> hub" where
  "broadcast e h = (if hub_closed h then h else foldl (offer e) h (subscribers h))"

definition drop_subscriber :: "hub \<Rightarrow> uint64 \<times> nat \<Rightarrow> hub" where
  "drop_subscriber h p =
     h\<lparr>subscribers := map_delete (fst p) (subscribers h),
       channels := close_chan (snd p) (channels h)\<rparr>"

definition close_hub :: "hub \<Rightarrow> hub" where
  "close_hub h =
     (if hub_closed h then h
      else foldl drop_subscriber (h\<lparr>hub_closed := True\<rparr>) (subscribers h))"

text \<open>
  A receive: the oldest buffered value; \<open>None\<close> with an unchanged hub when the channel is
  empty (the receiver blocks, or sees the close).
\<close>

definition receive :: "nat \<Rightarrow> hub \<Rightarrow> event option \<times> hub" where
  "receive c h =
     (case buffer (channels h ! c) of
        [] \<Rightarrow> (None, h)
      | e # es \<Rightarrow> (Some e, h\<lparr>channels := (channels h)[c := (channels h ! c)\<lparr>buffer := es\<rparr>]\<rparr>))"

section \<open>The invariant of the hub\<close>

text \<open>
  Subscription ids and channel references are used once, a subscribed channel exists and is
  open, every open channel is subscribed, no buffer exceeds its capacity, and a closed hub
  has no subscriber.
\<close>

definition hub_inv :: "hub \<Rightarrow> bool" where
  "hub_inv h \<longleftrightarrow>
     distinct (map fst (subscribers h)) \<and>
     distinct (map snd (subscribers h)) \<and>
     (\<forall>c < length (channels h).
        (c \<in> snd ` set (subscribers h) \<longleftrightarrow> \<not> chan_closed (channels h ! c)) \<and>
        length (buffer (channels h ! c)) \<le> subscriber_buffer) \<and>
     (\<forall>p \<in> set (subscribers h). snd p < length (channels h) \<and> fst p < next_id h) \<and>
     (hub_closed h \<longrightarrow> subscribers h = [])"


lemma hub_inv_new: "hub_inv new_hub"
  by (simp add: hub_inv_def new_hub_def)

section \<open>What a broadcast and a close do to every channel\<close>

text \<open>The effect of an offer on the channel itself.\<close>

definition offered :: "event \<Rightarrow> channel \<Rightarrow> channel" where
  "offered e ch =
     (if length (buffer ch) < subscriber_buffer then ch\<lparr>buffer := buffer ch @ [e]\<rparr>
      else ch\<lparr>chan_closed := True\<rparr>)"

lemma length_channels_offer [simp]: "length (channels (offer e h p)) = length (channels h)"
  by (simp add: offer_def push_chan_def close_chan_def)

lemma offer_frame [simp]:
  "next_id (offer e h p) = next_id h" "hub_closed (offer e h p) = hub_closed h"
  by (simp_all add: offer_def)

lemma channels_offer:
  "snd p < length (channels h) \<Longrightarrow>
   channels (offer e h p) = (channels h)[snd p := offered e (channels h ! snd p)]"
  by (simp add: offer_def offered_def push_chan_def close_chan_def)

lemma subscribers_offer:
  "subscribers (offer e h p) =
     (if length (buffer (channels h ! snd p)) < subscriber_buffer then subscribers h
      else map_delete (fst p) (subscribers h))"
  by (simp add: offer_def)

lemma length_channels_offers [simp]: "length (channels (foldl (offer e) h ps)) = length (channels h)"
  by (induction ps arbitrary: h) auto

lemma offers_frame [simp]:
  "next_id (foldl (offer e) h ps) = next_id h"
  "hub_closed (foldl (offer e) h ps) = hub_closed h"
  by (induction ps arbitrary: h) auto

lemma channels_offers:
  "distinct (map snd ps) \<Longrightarrow> \<forall>p\<in>set ps. snd p < length (channels h) \<Longrightarrow> c < length (channels h) \<Longrightarrow>
   channels (foldl (offer e) h ps) ! c =
     (if c \<in> snd ` set ps then offered e (channels h ! c) else channels h ! c)"
proof (induction ps arbitrary: h)
  case (Cons p ps)
  with Cons.IH [of "offer e h p"] show ?case
    by (auto simp: channels_offer nth_list_update_any)
qed simp

lemma subscribers_offers:
  "distinct (map snd ps) \<Longrightarrow> \<forall>p\<in>set ps. snd p < length (channels h) \<Longrightarrow>
   subscribers (foldl (offer e) h ps) = filter (\<lambda>q. \<not> (\<exists>p\<in>set ps. fst p = fst q
           \<and> subscriber_buffer \<le> length (buffer (channels h ! snd p)))) (subscribers h)"
proof (induction ps arbitrary: h)
  case (Cons p ps)
  have same: "channels (offer e h p) ! snd q = channels h ! snd q" if "q \<in> set ps" for q
    using that Cons.prems by (auto simp: channels_offer nth_list_update image_iff)
  have "subscribers (foldl (offer e) h (p # ps)) =
      filter (\<lambda>q. \<not> (\<exists>p'\<in>set ps. fst p' = fst q
         \<and> subscriber_buffer \<le> length (buffer (channels (offer e h p) ! snd p')))) (subscribers (offer e h p))"
    using Cons.prems Cons.IH [of "offer e h p"] by simp
  also have "\<dots> = filter (\<lambda>q. \<not> (\<exists>p'\<in>set ps. fst p' = fst q
         \<and> subscriber_buffer \<le> length (buffer (channels h ! snd p')))) (subscribers (offer e h p))"
    by (intro filter_cong refl) (use same in auto)
  finally show ?case
    by (auto simp: subscribers_offer map_delete_def intro!: filter_cong)
qed simp

lemma hub_inv_subscribers:
  assumes "hub_inv h"
  shows "distinct (map fst (subscribers h))" "distinct (map snd (subscribers h))"
    and "\<forall>p\<in>set (subscribers h). snd p < length (channels h)"
  using assms by (auto simp: hub_inv_def)

text \<open>
  For a hub in its invariant, a broadcast acts on all channels alike, whatever the order of
  the map's iteration: an open channel takes the event or is closed, a closed one stays.
\<close>

lemma channels_broadcast:
  assumes "hub_inv h" "\<not> hub_closed h"
  shows "channels (broadcast e h) =
    map (\<lambda>ch. if chan_closed ch then ch else offered e ch) (channels h)"
proof (rule nth_equalityI)
  show "length (channels (broadcast e h)) =
      length (map (\<lambda>ch. if chan_closed ch then ch else offered e ch) (channels h))"
    using assms(2) by (simp add: broadcast_def)
  fix c assume "c < length (channels (broadcast e h))"
  then have c: "c < length (channels h)" using assms(2) by (simp add: broadcast_def)
  then show "channels (broadcast e h) ! c =
      map (\<lambda>ch. if chan_closed ch then ch else offered e ch) (channels h) ! c"
    using channels_offers [OF hub_inv_subscribers(2,3) [OF assms(1)] c, of e] assms
    by (simp add: broadcast_def hub_inv_def)
qed

lemma subscribers_broadcast:
  assumes "hub_inv h" "\<not> hub_closed h"
  shows "subscribers (broadcast e h) =
    filter (\<lambda>p. length (buffer (channels h ! snd p)) < subscriber_buffer) (subscribers h)"
proof -
  have key: "p = q" if "p \<in> set (subscribers h)" "q \<in> set (subscribers h)" "fst p = fst q" for p q
    using hub_inv_subscribers(1) [OF assms(1)] that by (auto simp: distinct_map inj_on_def)
  have "(\<exists>p\<in>set (subscribers h). fst p = fst q
      \<and> subscriber_buffer \<le> length (buffer (channels h ! snd p)))
    \<longleftrightarrow> subscriber_buffer \<le> length (buffer (channels h ! snd q))" if "q \<in> set (subscribers h)" for q
    using key that by blast
  then show ?thesis
    using assms(2) subscribers_offers [OF hub_inv_subscribers(2,3) [OF assms(1)], of e]
    by (simp add: broadcast_def not_le [symmetric] cong: filter_cong)
qed

lemma broadcast_frame [frame_simps]:
  "next_id (broadcast e h) = next_id h" "hub_closed (broadcast e h) = hub_closed h"
  "length (channels (broadcast e h)) = length (channels h)"
  by (simp_all add: broadcast_def)

lemma close_chan_length [simp]: "length (close_chan c chs) = length chs"
  by (simp add: close_chan_def)

lemma drops_frame [simp]:
  "next_id (foldl drop_subscriber h ps) = next_id h"
  "hub_closed (foldl drop_subscriber h ps) = hub_closed h"
  "length (channels (foldl drop_subscriber h ps)) = length (channels h)"
  by (induction ps arbitrary: h) (auto simp: drop_subscriber_def)

lemma channels_drop:
  "c < length (channels h) \<Longrightarrow> channels (drop_subscriber h p) ! c =
     (if c = snd p then (channels h ! c)\<lparr>chan_closed := True\<rparr> else channels h ! c)"
  by (simp add: drop_subscriber_def close_chan_def)

lemma channels_drops:
  "c < length (channels h) \<Longrightarrow> channels (foldl drop_subscriber h ps) ! c =
     (if c \<in> snd ` set ps then (channels h ! c)\<lparr>chan_closed := True\<rparr> else channels h ! c)"
proof (induction ps arbitrary: h)
  case (Cons p ps)
  have "c < length (channels (drop_subscriber h p))"
    using Cons.prems by (simp add: drop_subscriber_def)
  from Cons.IH [OF this] Cons.prems show ?case by (simp add: channels_drop)
qed simp

lemma subscribers_drops:
  "subscribers (foldl drop_subscriber h ps) = filter (\<lambda>q. fst q \<notin> fst ` set ps) (subscribers h)"
  by (induction ps arbitrary: h) (auto simp: drop_subscriber_def map_delete_def intro!: filter_cong)

lemma channels_close_hub:
  assumes "hub_inv h"
  shows "channels (close_hub h) = map (\<lambda>ch. ch\<lparr>chan_closed := True\<rparr>) (channels h)"
proof (rule nth_equalityI)
  show "length (channels (close_hub h)) = length (map (\<lambda>ch. ch\<lparr>chan_closed := True\<rparr>) (channels h))"
    by (simp add: close_hub_def)
  fix c assume "c < length (channels (close_hub h))"
  then have c: "c < length (channels h)" by (simp add: close_hub_def split: if_splits)
  then show "channels (close_hub h) ! c = map (\<lambda>ch. ch\<lparr>chan_closed := True\<rparr>) (channels h) ! c"
    using assms channels_drops [of c "h\<lparr>hub_closed := True\<rparr>" "subscribers h"]
    by (auto simp: close_hub_def hub_inv_def)
qed

lemma subscribers_close_hub: "hub_inv h \<Longrightarrow> subscribers (close_hub h) = []"
  by (auto simp: close_hub_def subscribers_drops hub_inv_def filter_empty_conv)


section \<open>Every operation keeps the invariant\<close>

lemma hub_invI:
  assumes "distinct (map fst (subscribers h))" "distinct (map snd (subscribers h))"
    and "\<And>c. c < length (channels h) \<Longrightarrow> c \<in> snd ` set (subscribers h) \<longleftrightarrow> \<not> chan_closed (channels h ! c)"
    and "\<And>c. c < length (channels h) \<Longrightarrow> length (buffer (channels h ! c)) \<le> subscriber_buffer"
    and "\<And>i c. (i, c) \<in> set (subscribers h) \<Longrightarrow> c < length (channels h) \<and> i < next_id h"
    and "hub_closed h \<Longrightarrow> subscribers h = []"
  shows "hub_inv h"
  using assms by (auto simp: hub_inv_def)

lemma hub_invD:
  assumes "hub_inv h"
  shows "c < length (channels h) \<Longrightarrow> c \<in> snd ` set (subscribers h) \<longleftrightarrow> \<not> chan_closed (channels h ! c)"
    and "c < length (channels h) \<Longrightarrow> length (buffer (channels h ! c)) \<le> subscriber_buffer"
    and "(i, c) \<in> set (subscribers h) \<Longrightarrow> c < length (channels h) \<and> i < next_id h"
    and "hub_closed h \<Longrightarrow> subscribers h = []"
  using assms by (auto simp: hub_inv_def)

lemma hub_inv_broadcast [inv_intros]:
  assumes inv: "hub_inv h"
  shows "hub_inv (broadcast e h)"
proof (cases "hub_closed h")
  case True
  then show ?thesis using assms by (simp add: broadcast_def)
next
  case False
  note eqs = channels_broadcast [OF inv False] subscribers_broadcast [OF inv False]
  show ?thesis
  proof (rule hub_invI)
    fix c assume "c < length (channels (broadcast e h))"
    then have c: "c < length (channels h)" by (simp add: frame_simps)
    have "c \<in> snd ` set (subscribers (broadcast e h)) \<longleftrightarrow>
        c \<in> snd ` set (subscribers h) \<and> length (buffer (channels h ! c)) < subscriber_buffer"
      unfolding eqs(2) by force
    then show "c \<in> snd ` set (subscribers (broadcast e h)) \<longleftrightarrow> \<not> chan_closed (channels (broadcast e h) ! c)"
      using c hub_invD(1) [OF inv c] by (auto simp: eqs(1) offered_def)
    show "length (buffer (channels (broadcast e h) ! c)) \<le> subscriber_buffer"
      using c hub_invD(2) [OF inv c] by (simp add: eqs(1) offered_def)
  next
    fix i c assume "(i, c) \<in> set (subscribers (broadcast e h))"
    then show "c < length (channels (broadcast e h)) \<and> i < next_id (broadcast e h)"
      using hub_invD(3) [OF inv, of i c] by (simp add: eqs(2) frame_simps)
  qed (use hub_inv_subscribers [OF inv] False in \<open>auto simp: eqs(2) frame_simps distinct_map_filter\<close>)
qed

lemma hub_inv_close_hub [inv_intros]: "hub_inv h \<Longrightarrow> hub_inv (close_hub h)"
  by (rule hub_invI) (auto simp: channels_close_hub subscribers_close_hub hub_invD(2))

lemma hub_inv_unsubscribe [inv_intros]:
  assumes inv: "hub_inv h"
  shows "hub_inv (snd (unsubscribe s h))"
proof (cases "sub_id s \<noteq> None \<and> map_of (subscribers h) (the (sub_id s)) = Some (sub_chan s) \<and> \<not> sub_done s")
  case True
  then obtain i where i: "sub_id s = Some i" and mem: "(i, sub_chan s) \<in> set (subscribers h)"
    by (auto dest: map_of_SomeD)
  let ?h = "h\<lparr>subscribers := map_delete i (subscribers h),
              channels := close_chan (sub_chan s) (channels h)\<rparr>"
  have eq: "snd (unsubscribe s h) = ?h"
    using True i by (simp add: unsubscribe_def)
  have key: "p = (i, sub_chan s)" if "p \<in> set (subscribers h)" "snd p = sub_chan s \<or> fst p = i" for p
    using hub_inv_subscribers(1,2) [OF inv] mem that
    by (auto simp: distinct_map inj_on_def)
  have rest: "c \<in> snd ` set (map_delete i (subscribers h)) \<longleftrightarrow>
      c \<in> snd ` set (subscribers h) \<and> c \<noteq> sub_chan s" for c
  proof -
    have "fst p \<noteq> i \<longleftrightarrow> snd p \<noteq> sub_chan s" if "p \<in> set (subscribers h)" for p
      using key [OF that] by (metis fst_conv snd_conv)
    then show ?thesis by (auto simp: map_delete_def)
  qed
  have "hub_inv ?h"
  proof (rule hub_invI)
    fix c assume "c < length (channels ?h)"
    then have c: "c < length (channels h)" by simp
    show "c \<in> snd ` set (subscribers ?h) \<longleftrightarrow> \<not> chan_closed (channels ?h ! c)"
      using rest [of c] hub_invD(1) [OF inv c] c by (auto simp: close_chan_def nth_list_update_any)
    show "length (buffer (channels ?h ! c)) \<le> subscriber_buffer"
      using hub_invD(2) [OF inv] c by (auto simp: close_chan_def nth_list_update_any)
  qed (use hub_inv_subscribers(1,2) [OF inv] hub_invD(3,4) [OF inv] in
        \<open>auto simp: map_delete_def distinct_map_filter\<close>)
  then show ?thesis unfolding eq .
next
  case False
  then have "snd (unsubscribe s h) = h" by (auto simp: unsubscribe_def split: option.splits)
  then show ?thesis using inv by simp
qed

lemma receive_unfold:
  "receive c h =
     (if buffer (channels h ! c) = [] then (None, h)
      else (Some (hd (buffer (channels h ! c))),
            h\<lparr>channels := (channels h)[c := (channels h ! c)\<lparr>buffer := tl (buffer (channels h ! c))\<rparr>]\<rparr>))"
  by (simp add: receive_def split: list.splits)

lemma channels_receive:
  "c' < length (channels h) \<Longrightarrow> channels (snd (receive c h)) ! c' =
     (if c' = c then (channels h ! c)\<lparr>buffer := tl (buffer (channels h ! c))\<rparr> else channels h ! c')"
  by (auto simp: receive_unfold nth_list_update_any)

lemma receive_frame [frame_simps]:
  "subscribers (snd (receive c h)) = subscribers h" "next_id (snd (receive c h)) = next_id h"
  "hub_closed (snd (receive c h)) = hub_closed h"
  "length (channels (snd (receive c h))) = length (channels h)"
  by (simp_all add: receive_unfold)

lemma hub_inv_receive [inv_intros]:
  assumes inv: "hub_inv h"
  shows "hub_inv (snd (receive c h))"
proof (rule hub_invI)
  fix c' assume "c' < length (channels (snd (receive c h)))"
  then have c: "c' < length (channels h)" by (simp add: frame_simps)
  show "c' \<in> snd ` set (subscribers (snd (receive c h))) \<longleftrightarrow> \<not> chan_closed (channels (snd (receive c h)) ! c')"
    using hub_invD(1) [OF inv c] c by (auto simp: frame_simps channels_receive)
  show "length (buffer (channels (snd (receive c h)) ! c')) \<le> subscriber_buffer"
    using hub_invD(2) [OF inv c] c by (auto simp: channels_receive)
qed (use hub_inv_subscribers(1,2) [OF inv] hub_invD(3,4) [OF inv] in \<open>auto simp: frame_simps\<close>)

lemma hub_inv_subscribe [inv_intros]:
  assumes inv: "hub_inv h" and fresh: "next_id h \<noteq> - 1"
  shows "hub_inv (snd (subscribe h))"
proof (cases "hub_closed h")
  case True
  then show ?thesis
    using hub_invD(2,4) [OF inv] hub_invD(1) [OF inv]
    by (intro hub_invI) (auto simp: subscribe_def nth_append less_Suc_eq)
next
  case False
  have less: "x < next_id h + 1 \<longleftrightarrow> x \<le> next_id h" for x
  proof -
    have "unat (next_id h + 1) = unat (next_id h) + 1"
      using fresh by (metis add.commute unatSuc  add.inverse_inverse diff_add_cancel diff_0 eq_iff_diff_eq_0 add_eq_0_iff Suc_eq_plus1)
    then show ?thesis by (simp add: word_less_nat_alt word_le_nat_alt less_Suc_eq_le)
  qed
  have new: "next_id h \<notin> fst ` set (subscribers h)" "length (channels h) \<notin> snd ` set (subscribers h)"
    using hub_invD(3) [OF inv] by force+
  have put: "map_put (next_id h) c (subscribers h) = subscribers h @ [(next_id h, c)]" for c
    using new(1) by (auto simp: map_put_def filter_id_conv image_iff)
  show ?thesis
  proof (rule hub_invI)
    fix c assume "c < length (channels (snd (subscribe h)))"
    then show "c \<in> snd ` set (subscribers (snd (subscribe h))) \<longleftrightarrow> \<not> chan_closed (channels (snd (subscribe h)) ! c)"
      and "length (buffer (channels (snd (subscribe h)) ! c)) \<le> subscriber_buffer"
      using False hub_invD(1,2) [OF inv]
      by (auto simp: subscribe_def Let_def put nth_append less_Suc_eq)
  next
    fix i c assume "(i, c) \<in> set (subscribers (snd (subscribe h)))"
    then show "c < length (channels (snd (subscribe h))) \<and> i < next_id (snd (subscribe h))"
      using False hub_invD(3) [OF inv] by (auto simp: subscribe_def Let_def put less less_imp_le less_SucI)
  qed (use hub_inv_subscribers(1,2) [OF inv] new False in \<open>auto simp: subscribe_def Let_def put\<close>)
qed


section \<open>Runs of the hub\<close>

text \<open>
  An interleaving of the hub's operations and of receives by the subscribers.  Operations
  are atomic (each holds \<open>hub.mu\<close>), so every concurrent execution is such a list.
\<close>

datatype hub_action =
    Subscribe
  | Unsubscribe subscription
  | Broadcast event
  | CloseHub
  | Receive nat

fun hub_step :: "hub \<Rightarrow> hub_action \<Rightarrow> hub" where
  "hub_step h Subscribe = snd (subscribe h)"
| "hub_step h (Unsubscribe s) = snd (unsubscribe s h)"
| "hub_step h (Broadcast e) = broadcast e h"
| "hub_step h CloseHub = close_hub h"
| "hub_step h (Receive c) = snd (receive c h)"

fun hub_run :: "hub \<Rightarrow> hub_action list \<Rightarrow> hub" where
  "hub_run h [] = h"
| "hub_run h (a # as) = hub_run (hub_step h a) as"

text \<open>What the owner of channel \<open>c\<close> receives during a run, and what was broadcast.\<close>

fun received :: "nat \<Rightarrow> hub \<Rightarrow> hub_action list \<Rightarrow> event list" where
  "received c h [] = []"
| "received c h (a # as) =
     (case a of
        Receive d \<Rightarrow> (if d = c then (case fst (receive c h) of None \<Rightarrow> [] | Some e \<Rightarrow> [e]) else [])
      | _ \<Rightarrow> []) @ received c (hub_step h a) as"

fun broadcasts :: "hub_action list \<Rightarrow> event list" where
  "broadcasts [] = []"
| "broadcasts (Broadcast e # as) = e # broadcasts as"
| "broadcasts (_ # as) = broadcasts as"

fun subscribes :: "hub_action list \<Rightarrow> nat" where
  "subscribes [] = 0"
| "subscribes (Subscribe # as) = Suc (subscribes as)"
| "subscribes (_ # as) = subscribes as"

lemma next_id_step:
  "unat (next_id h) + subscribes (a # as) < 2 ^ 64 \<Longrightarrow>
   unat (next_id (hub_step h a)) + subscribes as < 2 ^ 64"
proof (cases a)
  case Subscribe
  moreover have "unat (next_id h + 1) \<le> Suc (unat (next_id h))"
    by (rule unat_uint64_succ_le)
  moreover assume "unat (next_id h) + subscribes (a # as) < 2 ^ 64"
  ultimately show ?thesis by (auto simp: subscribe_def Let_def)
qed (auto simp: frame_simps unsubscribe_def close_hub_def split: option.splits)

lemma hub_inv_step:
  assumes "hub_inv h" "unat (next_id h) + subscribes [a] < 2 ^ 64"
  shows "hub_inv (hub_step h a)"
proof (cases a)
  case Subscribe
  then have "unat (next_id h) \<noteq> unat (- 1 :: uint64)" using assms(2) by (simp add: unat_uint64_minus_1)
  then have "next_id h \<noteq> - 1" by metis
  then show ?thesis using assms(1) Subscribe by (simp add: inv_intros)
qed (use assms(1) in \<open>auto intro: inv_intros\<close>)

lemma subscribes_Cons: "subscribes (a # as) = subscribes [a] + subscribes as"
  by (cases a) auto

lemma hub_inv_run:
  "hub_inv h \<Longrightarrow> unat (next_id h) + subscribes as < 2 ^ 64 \<Longrightarrow> hub_inv (hub_run h as)"
proof (induction as arbitrary: h)
  case (Cons a as)
  have "hub_inv (hub_step h a)"
    using Cons.prems by (intro hub_inv_step) (auto simp: subscribes_Cons [of a as])
  then show ?case using Cons.IH next_id_step [OF Cons.prems(2)] by simp
qed simp

text \<open>
  One step, seen from one channel: how its buffer, its closed flag, what its owner got and
  what was sent are related.
\<close>

lemma length_channels_step: "length (channels h) \<le> length (channels (hub_step h a))"
  by (cases a) (auto simp: frame_simps subscribe_def unsubscribe_def close_hub_def Let_def split: option.splits)

lemma step_keeps_closed:
  assumes "hub_inv h" "c < length (channels h)" "chan_closed (channels h ! c)"
  shows "chan_closed (channels (hub_step h a) ! c) \<and>
    received c h [a] @ buffer (channels (hub_step h a) ! c) = buffer (channels h ! c)"
proof (cases a)
  case (Unsubscribe s)
  then show ?thesis using assms
    by (auto simp: unsubscribe_def close_chan_def nth_list_update_any split: option.splits)
next
  case (Broadcast e)
  then show ?thesis using assms
    by (cases "hub_closed h") (simp_all add: channels_broadcast, simp add: broadcast_def)
next
  case (Receive d)
  then show ?thesis using assms by (auto simp: channels_receive) (auto simp: receive_unfold)
qed (use assms in \<open>auto simp: subscribe_def Let_def nth_append channels_close_hub\<close>)

lemma step_open:
  fixes a :: hub_action
  assumes "hub_inv h" "c < length (channels h)" "\<not> chan_closed (channels h ! c)"
  defines "got \<equiv> received c h [a]" and "ch \<equiv> channels (hub_step h a) ! c"
  shows "got @ buffer ch = buffer (channels h ! c) @ (if chan_closed ch then [] else broadcasts [a])"
proof (cases a)
  case (Unsubscribe s)
  then show ?thesis using assms
    by (auto simp: unsubscribe_def close_chan_def nth_list_update_any split: option.splits)
next
  case (Broadcast e)
  have "\<not> hub_closed h"
    using assms hub_invD(1,4) [OF assms(1)] by fastforce
  then show ?thesis using assms Broadcast
    by (auto simp: channels_broadcast offered_def)
next
  case (Receive d)
  then show ?thesis using assms by (auto simp: channels_receive) (auto simp: receive_unfold)
qed (use assms in \<open>auto simp: subscribe_def Let_def nth_append channels_close_hub\<close>)

lemma received_Cons: "received c h (a # as) = received c h [a] @ received c (hub_step h a) as"
  by simp

lemma broadcasts_Cons: "broadcasts (a # as) = broadcasts [a] @ broadcasts as"
  by (cases a) auto

lemma closed_delivery:
  assumes "hub_inv h" "c < length (channels h)" "chan_closed (channels h ! c)"
    and "unat (next_id h) + subscribes as < 2 ^ 64"
  shows "chan_closed (channels (hub_run h as) ! c) \<and>
    received c h as @ buffer (channels (hub_run h as) ! c) = buffer (channels h ! c)"
  using assms
proof (induction as arbitrary: h)
  case (Cons a as)
  have inv: "hub_inv (hub_step h a)"
    using Cons.prems by (intro hub_inv_step) (auto simp: subscribes_Cons [of a as])
  have len: "c < length (channels (hub_step h a))"
    using Cons.prems(2) length_channels_step [of h a] by linarith
  note step = step_keeps_closed [OF Cons.prems(1,2,3), of a]
  show ?case
    using Cons.IH [OF inv len _ next_id_step [OF Cons.prems(4)]] step
    unfolding received_Cons [of c h a as] by (metis append.assoc hub_run.simps(2))
qed simp


text \<open>
  Over a whole run, an open channel either stayed open and its owner got and still has
  buffered exactly what was broadcast, in order; or it was closed, and what it got and has
  buffered is an initial part of that.
\<close>

lemma open_delivery:
  assumes "hub_inv h" "c < length (channels h)" "\<not> chan_closed (channels h ! c)"
    and "unat (next_id h) + subscribes as < 2 ^ 64"
  shows "\<exists>sent lost. broadcasts as = sent @ lost \<and>
    received c h as @ buffer (channels (hub_run h as) ! c) = buffer (channels h ! c) @ sent \<and>
    (\<not> chan_closed (channels (hub_run h as) ! c) \<longrightarrow> lost = [])"
  using assms
proof (induction as arbitrary: h)
  case Nil
  then show ?case by simp
next
  case (Cons a as)
  have inv: "hub_inv (hub_step h a)"
    using Cons.prems by (intro hub_inv_step) (auto simp: subscribes_Cons [of a as])
  have len: "c < length (channels (hub_step h a))"
    using Cons.prems(2) length_channels_step [of h a] by linarith
  note step = step_open [OF Cons.prems(1,2,3), of a]
  show ?case
  proof (cases "chan_closed (channels (hub_step h a) ! c)")
    case True
    from closed_delivery [OF inv len True next_id_step [OF Cons.prems(4)]] step True
    have "chan_closed (channels (hub_run h (a # as)) ! c)"
      "received c h (a # as) @ buffer (channels (hub_run h (a # as)) ! c) = buffer (channels h ! c) @ []"
      by (simp_all add: received_Cons [of c h a as] del: received.simps)
    then show ?thesis by (metis append_Nil)
  next
    case False
    from Cons.IH [OF inv len False next_id_step [OF Cons.prems(4)]] obtain sent lost where
      IH: "broadcasts as = sent @ lost"
      "received c (hub_step h a) as @ buffer (channels (hub_run (hub_step h a) as) ! c)
         = buffer (channels (hub_step h a) ! c) @ sent"
      "\<not> chan_closed (channels (hub_run (hub_step h a) as) ! c) \<longrightarrow> lost = []" by blast
    have "received c h (a # as) @ buffer (channels (hub_run h (a # as)) ! c)
        = buffer (channels h ! c) @ broadcasts [a] @ sent"
      using IH(2) step False by (simp add: received_Cons [of c h a as] del: received.simps)
    moreover have "broadcasts (a # as) = (broadcasts [a] @ sent) @ lost"
      using IH(1) by (simp add: broadcasts_Cons [of a as] del: broadcasts.simps)
    ultimately show ?thesis using IH(3) by fastforce
  qed
qed

section \<open>Properties\<close>

text \<open>
  C4. A subscriber of the event hub never sees a gap or a reordering: over any interleaving
  of hub operations and receives, what it received followed by what is still buffered is an
  initial part of what was broadcast since, and all of it while its channel is open; a
  subscriber that fell 64 events behind has its channel closed instead of losing events
  silently.
\<close>

theorem hub_delivers_in_order:
  assumes "hub_inv h" "c < length (channels h)" "\<not> chan_closed (channels h ! c)"
    and "unat (next_id h) + subscribes as < 2 ^ 64"
  shows "let ch = channels (hub_run h as) ! c;
             seen = received c h as @ buffer ch;
             sent = buffer (channels h ! c) @ broadcasts as
         in prefix seen sent \<and> (\<not> chan_closed ch \<longrightarrow> seen = sent) \<and> length (buffer ch) \<le> 64"
proof -
  from open_delivery [OF assms] obtain sent lost where
    d: "broadcasts as = sent @ lost"
      "received c h as @ buffer (channels (hub_run h as) ! c) = buffer (channels h ! c) @ sent"
      "\<not> chan_closed (channels (hub_run h as) ! c) \<longrightarrow> lost = []" by blast
  have "c < length (channels (hub_run h as))"
    using assms(2) by (induction as arbitrary: h) (auto intro: order_less_le_trans [OF _ length_channels_step])
  then have "length (buffer (channels (hub_run h as) ! c)) \<le> 64"
    using hub_invD(2) [OF hub_inv_run [OF assms(1,4)]] by (simp add: subscriber_buffer_def)
  with d show ?thesis unfolding Let_def by (metis append.assoc append_Nil2 prefixI)
qed

theorem hub_delivers_in_order_witness:
  "received 0 (snd (subscribe new_hub)) [Broadcast reset_event, Receive 0] = [reset_event]"
proof -
  have "hub_inv (snd (subscribe new_hub))"
    by (rule hub_inv_subscribe [OF hub_inv_new]) (simp add: new_hub_def)
  from hub_delivers_in_order [OF this, of 0 "[Broadcast reset_event, Receive 0]"]
  show ?thesis
    by (simp add: subscribe_def new_hub_def Let_def map_put_def broadcast_def offer_def
        push_chan_def subscriber_buffer_def receive_def)
qed

text \<open>
  The hub's state is consistent in every run: no operation, in any order, leaves a
  subscribed channel closed, an open channel unsubscribed, two subscriptions sharing an id
  or a channel, a buffer over its 64 slots, or a closed hub with a subscriber (so no
  channel is closed twice, which would panic).
\<close>

theorem hub_run_consistent:
  assumes "unat (next_id new_hub) + subscribes as < 2 ^ 64"
  shows "hub_inv (hub_run new_hub as)"
  using hub_inv_run [OF hub_inv_new assms] .

theorem hub_run_consistent_witness:
  "hub_inv (hub_run new_hub [Subscribe, Broadcast reset_event, CloseHub, Subscribe])"
  by (rule hub_run_consistent) (simp add: new_hub_def)

end
