(* ===== verification/Go_Text.thy ===== *)
theory Go_Text
  imports Go_Strings
begin

text \<open>
  What the program uses of Go's package \<open>strings\<close> beyond \<open>Go_Strings\<close>: joining, fields, splitting in two,
  and the bytes that a field or a part can hold.
\<close>

section \<open>Joining\<close>

text \<open>Joining parts with a separator, \<open>strings.Join\<close>.\<close>

fun join :: "bytes \<Rightarrow> bytes list \<Rightarrow> bytes" where
  "join sep [] = []"
| "join sep [w] = w"
| "join sep (w # ws) = w @ sep @ join sep ws"

lemma join_Cons: "ws \<noteq> [] \<Longrightarrow> join sep (w # ws) = w @ sep @ join sep ws"
  by (cases ws) auto

lemma join_split_byte: "join [sep] (split_byte sep s) = s"
proof (induction s)
  case (Cons c cs)
  obtain w ws where w: "split_byte sep cs = w # ws" by (meson neq_Nil_conv split_byte_nonempty)
  then have "join [sep] (w # ws) = cs" using Cons by simp
  then show ?case by (cases ws) (auto simp: w)
qed simp

section \<open>Runes of a concatenation\<close>

text \<open>A byte that does not continue an encoding starts a rune of its own.\<close>

definition continues :: "bytes \<Rightarrow> bool" where
  "continues t \<longleftrightarrow> t \<noteq> [] \<and> 128 \<le> byte (hd t) \<and> byte (hd t) \<le> 191"

lemma decode_bytes_take: "decode_bytes (take 4 bs) = decode_bytes bs"
proof (cases bs)
  case (Cons b0 bs1)
  show ?thesis
  proof (cases bs1)
    case c1: (Cons b1 bs2)
    show ?thesis
    proof (cases bs2)
      case c2: (Cons b2 bs3)
      then show ?thesis using Cons c1 by (cases bs3) (simp_all add: numeral_eq_Suc)
    qed (use Cons c1 in simp)
  qed (use Cons in simp)
qed simp

lemma decode_bytes_append:
  assumes "bs \<noteq> []" and "cs = [] \<or> \<not> (128 \<le> hd cs \<and> hd cs \<le> 191)"
  shows "decode_bytes (bs @ cs) = decode_bytes bs"
proof (cases cs)
  case (Cons c cs')
  have out: "\<not> cont 128 191 c" "\<not> cont (second_lo b) (second_hi b) c" for b
    using assms(2) Cons by (auto simp: cont_def second_lo_def second_hi_def split: if_splits)
  obtain b0 bs1 where b0: "bs = b0 # bs1" using assms(1) by (cases bs) auto
  show ?thesis
  proof (cases bs1)
    case Nil
    then show ?thesis using Cons b0 out by simp
  next
    case c1: (Cons b1 bs2)
    show ?thesis
    proof (cases bs2)
      case Nil
      then show ?thesis using Cons b0 c1 out by simp
    next
      case c2: (Cons b2 bs3)
      show ?thesis using Cons b0 c1 c2 out by (cases bs3) simp_all
    qed
  qed
qed simp

lemma decode_rune_append:
  "s \<noteq> [] \<Longrightarrow> \<not> continues t \<Longrightarrow> decode_rune (s @ t) = decode_rune s"
  unfolding decode_rune_def take_map [symmetric] decode_bytes_take map_append
  by (rule decode_bytes_append) (auto simp: continues_def hd_map)

lemma runes_append: "\<not> continues t \<Longrightarrow> runes (s @ t) = runes s @ runes t"
proof (induction s rule: runes_induct)
  case (step s)
  have "snd (decode_rune s) \<le> length s" using step(1) by (rule decode_rune_width)
  then show ?case
    using step by (simp add: runes_unfold [of "s @ t"] runes_unfold [of s] decode_rune_append)
qed simp

lemma space_not_continues: "is_space (fst (decode_rune t)) \<Longrightarrow> \<not> continues t"
proof
  assume t: "is_space (fst (decode_rune t))" and "continues t"
  then obtain c t' where "t = c # t'" "128 \<le> byte c" "byte c \<le> 191" by (cases t) (auto simp: continues_def)
  then have "fst (decode_rune t) = rune_error" by (simp add: decode_rune_def)
  with t show False by (simp add: is_space_def rune_error_def)
qed

lemma ascii_not_continues [simp]: "byte c < 128 \<Longrightarrow> \<not> continues (c # t)"
  by (simp add: continues_def)

lemma not_continues_Nil [simp]: "\<not> continues []"
  by (simp add: continues_def)

lemma runes_append_ascii: "byte c < 128 \<Longrightarrow> runes (a @ c # b) = runes a @ byte c # runes b"
  by (simp add: runes_append runes_ascii_Cons del: runes.simps(2))

section \<open>Fields\<close>

text \<open>\<open>strings.Fields\<close>.\<close>

function field_span :: "bytes \<Rightarrow> bytes \<times> bytes" where
  "field_span s =
     (if s = [] \<or> is_space (fst (decode_rune s)) then ([], s)
      else (let n = snd (decode_rune s); (w, rest) = field_span (drop n s) in (take n s @ w, rest)))"
  by pat_completeness auto
termination
  by (relation "measure length") (auto simp: decode_rune_width)

lemma field_span_shorter: "length (snd (field_span s)) \<le> length s"
proof (induction s rule: field_span.induct)
  case (1 s)
  show ?case
  proof (cases "s = [] \<or> is_space (fst (decode_rune s))")
    case False
    from 1 [OF False refl] False show ?thesis by (subst field_span.simps) (auto simp: Let_def split_beta)
  qed (subst field_span.simps, auto)
qed

lemma field_span_progress:
  assumes "s \<noteq> []" and "\<not> is_space (fst (decode_rune s))"
  shows "length (snd (field_span s)) < length s"
proof -
  have "0 < snd (decode_rune s)" using assms(1) by (rule decode_rune_width)
  then have "length (drop (snd (decode_rune s)) s) < length s" using assms(1) by simp
  moreover have "snd (field_span s) = snd (field_span (drop (snd (decode_rune s)) s))"
    using assms by (subst field_span.simps) (simp add: Let_def split_beta)
  ultimately show ?thesis using field_span_shorter [of "drop (snd (decode_rune s)) s"] by simp
qed

declare field_span.simps [simp del]

lemma trim_left_head: "trim_left s \<noteq> [] \<Longrightarrow> \<not> is_space (fst (decode_rune (trim_left s)))"
proof (induction s rule: trim_left.induct)
  case (1 s)
  then show ?case by (cases "s \<noteq> [] \<and> is_space (fst (decode_rune s))") (auto simp: trim_left_space trim_left_stop)
qed

function string_fields :: "bytes \<Rightarrow> bytes list" where
  "string_fields s =
     (if trim_left s = [] then []
      else fst (field_span (trim_left s)) # string_fields (snd (field_span (trim_left s))))"
  by pat_completeness auto
termination
proof (relation "measure length")
  fix s :: bytes
  assume ne: "trim_left s \<noteq> []"
  have "length (snd (field_span (trim_left s))) < length (trim_left s)"
    by (rule field_span_progress [OF ne trim_left_head [OF ne]])
  also have "\<dots> \<le> length s" using trim_left_suffix [of s] by (metis le_add2 length_append)
  finally show "(snd (field_span (trim_left s)), s) \<in> measure length" by simp
qed simp

declare string_fields.simps [simp del]

lemma field_span_append: "fst (field_span s) @ snd (field_span s) = s"
proof (induction s rule: field_span.induct)
  case (1 s)
  show ?case
  proof (cases "s = [] \<or> is_space (fst (decode_rune s))")
    case False
    from 1 [OF False refl] False show ?thesis
      by (subst (1 2) field_span.simps) (auto simp: Let_def split_beta)
  qed (subst (1 2) field_span.simps, auto)
qed

lemma set_string_fields: "w \<in> set (string_fields s) \<Longrightarrow> set w \<subseteq> set s"
proof (induction s rule: string_fields.induct)
  case (1 s)
  have span: "set (fst (field_span t)) \<subseteq> set t" "set (snd (field_span t)) \<subseteq> set t" for t
    using field_span_append [of t] by (metis Un_upper1 set_append, metis Un_upper2 set_append)
  have trim: "set (trim_left s) \<subseteq> set s"
    using trim_left_suffix [of s] by (metis Un_upper2 set_append)
  show ?case
  proof (cases "trim_left s = []")
    case True
    then show ?thesis using 1 by (simp add: string_fields.simps)
  next
    case False
    then have "w = fst (field_span (trim_left s)) \<or> w \<in> set (string_fields (snd (field_span (trim_left s))))"
      using 1(2) by (simp add: string_fields.simps [of s])
    then show ?thesis using 1(1) [OF False] span [of "trim_left s"] trim by blast
  qed
qed

lemma runes_trim_left: "\<exists>sp. runes s = sp @ runes (trim_left s) \<and> list_all is_space sp"
proof (induction s rule: trim_left.induct)
  case (1 s)
  show ?case
  proof (cases "s \<noteq> [] \<and> is_space (fst (decode_rune s))")
    case True
    with 1 obtain sp where "runes (drop (snd (decode_rune s)) s) = sp @ runes (trim_left (drop (snd (decode_rune s)) s))"
      "list_all is_space sp" by blast
    then have "runes s = (fst (decode_rune s) # sp) @ runes (trim_left s)"
      using True by (simp add: runes_unfold [of s] trim_left_space)
    moreover have "list_all is_space (fst (decode_rune s) # sp)" using True \<open>list_all is_space sp\<close> by simp
    ultimately show ?thesis by blast
  next
    case False
    then have "trim_left s = s" by (cases "s = []") (auto simp: trim_left_stop)
    then show ?thesis by (intro exI [of _ "[]"]) simp
  qed
qed

lemma field_span_stops: "snd (field_span s) = [] \<or> is_space (fst (decode_rune (snd (field_span s))))"
proof (induction s rule: field_span.induct)
  case (1 s)
  show ?case
  proof (cases "s = [] \<or> is_space (fst (decode_rune s))")
    case False
    from 1 [OF False refl] False show ?thesis by (subst (1 2) field_span.simps) (auto simp: Let_def split_beta)
  qed (subst (1 2) field_span.simps, auto)
qed

text \<open>A rune that is no white space lies in one of the fields.\<close>

lemma rune_in_field:
  "runes s = a @ r # b \<Longrightarrow> \<not> is_space r \<Longrightarrow>
     \<exists>w\<in>set (string_fields s). \<exists>a1 a2 b1. a = a1 @ a2 \<and> runes w = a2 @ r # b1"
proof (induction s arbitrary: a rule: string_fields.induct)
  case (1 s)
  obtain sp where sp: "runes s = sp @ runes (trim_left s)" "list_all is_space sp"
    using runes_trim_left by blast
  let ?w = "fst (field_span (trim_left s))" and ?rest = "snd (field_span (trim_left s))"
  have "\<not> continues ?rest" using field_span_stops [of "trim_left s"] space_not_continues by auto
  then have split: "runes (trim_left s) = runes ?w @ runes ?rest"
    using runes_append [of ?rest ?w] by (simp add: field_span_append)
  have in_sp: "r \<notin> set sp" using sp(2) 1(3) by (auto simp: list_all_iff)
  show ?case
  proof (cases "trim_left s = []")
    case True
    then show ?thesis using 1(2) sp in_sp by (metis append_Nil2 in_set_conv_decomp runes.simps(1))
  next
    case False
    have fields: "string_fields s = ?w # string_fields ?rest" using False by (subst string_fields.simps) simp
    from 1(2) sp(1) have "a @ r # b = sp @ runes (trim_left s)" by simp
    then obtain a' where a': "a = sp @ a'" "runes (trim_left s) = a' @ r # b"
      using in_sp by (auto simp: append_eq_append_conv2 Cons_eq_append_conv)
    from a'(2) split have "runes ?w @ runes ?rest = a' @ r # b" by simp
    then consider (here) b1 where "runes ?w = a' @ r # b1"
      | (later) a2 where "a' = runes ?w @ a2" "runes ?rest = a2 @ r # b"
      by (auto simp: append_eq_append_conv2) (metis append_eq_Cons_conv append_Nil2 self_append_conv2)
    then show ?thesis
    proof cases
      case here
      then show ?thesis unfolding fields using a'(1) by fastforce
    next
      case later
      from 1(1) [OF False later(2) 1(3)] obtain w a1 a3 b1 where
        w: "w \<in> set (string_fields ?rest)" "a2 = a1 @ a3" "runes w = a3 @ r # b1" by blast
      then have "a = (sp @ runes ?w @ a1) @ a3" using a'(1) later(1) by simp
      then show ?thesis unfolding fields using w by (metis list.set_intros(2))
    qed
  qed
qed

section \<open>Splitting in two\<close>

text \<open>\<open>strings.SplitN(s, sep, 2)\<close> for a separator of one byte.\<close>

definition split_two :: "char \<Rightarrow> bytes \<Rightarrow> bytes list" where
  "split_two sep s =
     (case index_byte (\<lambda>c. c = sep) s of None \<Rightarrow> [s] | Some i \<Rightarrow> [take i s, drop (Suc i) s])"

definition trim_prefix :: "bytes \<Rightarrow> bytes \<Rightarrow> bytes" where
  "trim_prefix s p = (if has_prefix s p then drop (length p) s else s)"

end
