(* ===== verification/Calendar_Lines.thy ===== *)
theory Calendar_Lines
  imports Go_Text
begin

text \<open>
  The lexical half of \<open>internal/calendar/calendar.go\<close>: unfolding, content lines with their
  parameters, and the text values of RFC 5545.
\<close>

section \<open>Data\<close>

record content_line =
  cl_name :: bytes
  cl_value :: bytes
  cl_params :: "(bytes \<times> bytes list) list"

text \<open>The zero value, which an absent map key yields.\<close>

definition no_line :: content_line where
  "no_line = \<lparr>cl_name = [], cl_value = [], cl_params = []\<rparr>"

section \<open>Unfolding\<close>

definition is_folded :: "bytes \<Rightarrow> bool" where
  "is_folded s \<longleftrightarrow> has_prefix s '' '' \<or> has_prefix s [TAB]"

text \<open>The loop of \<open>unfoldLines\<close>: the lines so far, the line under construction once started.\<close>

fun unfold_loop :: "bytes list \<Rightarrow> bytes option \<Rightarrow> bytes list \<Rightarrow> bytes list option" where
  "unfold_loop lines line [] =
     Some (case line of None \<Rightarrow> lines | Some l \<Rightarrow> lines @ [l])"
| "unfold_loop lines line (p # ps) =
     (if is_folded p
      then (case line of
              None \<Rightarrow> None
            | Some l \<Rightarrow> unfold_loop lines (Some (l @ drop 1 p)) ps)
      else unfold_loop (case line of None \<Rightarrow> lines | Some l \<Rightarrow> lines @ [l]) (Some p) ps)"

definition unfold_lines :: "bytes \<Rightarrow> bytes list option" where
  "unfold_lines text =
     unfold_loop [] None
       (split_byte LF (replace_all [CR] [LF] (replace_all CRLF [LF] text)))"

section \<open>Separators outside quotes\<close>

fun separator_scan :: "char \<Rightarrow> bool \<Rightarrow> bool \<Rightarrow> bytes \<Rightarrow> nat option" where
  "separator_scan sep quoted escaped [] = None"
| "separator_scan sep quoted escaped (c # cs) =
     (if escaped then map_option Suc (separator_scan sep quoted False cs)
      else if c = BSLASH then map_option Suc (separator_scan sep quoted True cs)
      else if c = DQUOTE then map_option Suc (separator_scan sep (\<not> quoted) False cs)
      else if c = sep \<and> \<not> quoted then Some 0
      else map_option Suc (separator_scan sep quoted False cs))"

definition separator_index :: "bytes \<Rightarrow> char \<Rightarrow> nat option" where
  "separator_index value sep = separator_scan sep False False value"

text \<open>\<open>splitOutsideQuotes\<close>; \<open>part\<close> is \<open>value[start:index]\<close>.\<close>

fun split_scan :: "char \<Rightarrow> bool \<Rightarrow> bool \<Rightarrow> bytes \<Rightarrow> bytes \<Rightarrow> bytes list" where
  "split_scan sep quoted escaped part [] = [part]"
| "split_scan sep quoted escaped part (c # cs) =
     (if escaped then split_scan sep quoted False (part @ [c]) cs
      else if c = BSLASH then split_scan sep quoted True (part @ [c]) cs
      else if c = DQUOTE then split_scan sep (\<not> quoted) False (part @ [c]) cs
      else if c = sep \<and> \<not> quoted then part # split_scan sep quoted False [] cs
      else split_scan sep quoted False (part @ [c]) cs)"

definition split_outside_quotes :: "bytes \<Rightarrow> char \<Rightarrow> bytes list" where
  "split_outside_quotes value sep = split_scan sep False False [] value"

section \<open>Parameters and text values\<close>

definition decode_parameter :: "bytes \<Rightarrow> bytes" where
  "decode_parameter value =
     (let v = (if 2 \<le> length value \<and> hd value = DQUOTE \<and> last value = DQUOTE
               then butlast (tl value) else value)
      in replace_all [BSLASH, BSLASH] [BSLASH] (replace_all [BSLASH, DQUOTE] [DQUOTE] v))"

fun decode_text :: "bytes \<Rightarrow> bytes option" where
  "decode_text [] = Some []"
| "decode_text (c # cs) =
     (if c \<noteq> BSLASH then map_option ((#) c) (decode_text cs)
      else (case cs of
              [] \<Rightarrow> None
            | d # ds \<Rightarrow>
                if d = CHR ''n'' \<or> d = CHR ''N'' then map_option ((#) LF) (decode_text ds)
                else if d = BSLASH \<or> d = CHR '','' \<or> d = CHR '';''
                     then map_option ((#) d) (decode_text ds)
                else None))"

section \<open>Content lines\<close>

text \<open>The loop over the parameters of a line; a later parameter of the same name replaces an earlier one.\<close>

fun parse_params :: "unicode \<Rightarrow> (bytes \<times> bytes list) list \<Rightarrow> bytes list
    \<Rightarrow> (bytes \<times> bytes list) list option" where
  "parse_params u params [] = Some params"
| "parse_params u params (part # parts) =
     (case separator_index part (CHR ''='') of
        None \<Rightarrow> None
      | Some 0 \<Rightarrow> None
      | Some equals \<Rightarrow>
          parse_params u
            (map_put (to_upper u (take equals part))
               (map decode_parameter (split_outside_quotes (drop (equals + 1) part) (CHR '','')))
               params)
            parts)"

definition parse_content_line :: "unicode \<Rightarrow> bytes \<Rightarrow> content_line option" where
  "parse_content_line u raw =
     (case separator_index raw (CHR '':'') of
        None \<Rightarrow> None
      | Some 0 \<Rightarrow> None
      | Some colon \<Rightarrow>
          (let parts = split_outside_quotes (take colon raw) (CHR '';'');
               name = to_upper u (hd parts)
           in if name = [] then None
              else map_option
                (\<lambda>params. \<lparr>cl_name = name, cl_value = drop (colon + 1) raw, cl_params = params\<rparr>)
                (parse_params u [] (tl parts))))"

definition first_parameter :: "(bytes \<times> bytes list) list \<Rightarrow> bytes \<Rightarrow> bytes" where
  "first_parameter params name =
     (case map_of params name of None \<Rightarrow> [] | Some [] \<Rightarrow> [] | Some (v # _) \<Rightarrow> v)"

definition optional_parameter ::
    "unicode \<Rightarrow> (bytes \<times> bytes list) list \<Rightarrow> bytes \<Rightarrow> bool \<Rightarrow> bytes option" where
  "optional_parameter u params name upper =
     (case map_of params name of
        None \<Rightarrow> None
      | Some [] \<Rightarrow> None
      | Some (v # _) \<Rightarrow> if v = [] then None else Some (if upper then to_upper u v else v))"

definition optional_text :: "content_line \<Rightarrow> bytes option option" where
  "optional_text line = map_option (\<lambda>v. if v = [] then None else Some v) (decode_text (cl_value line))"

definition optional_upper :: "unicode \<Rightarrow> content_line \<Rightarrow> bytes option" where
  "optional_upper u line =
     (let v = to_upper u (cl_value line) in if v = [] then None else Some v)"

definition mailto :: "unicode \<Rightarrow> bytes \<Rightarrow> bytes option" where
  "mailto u value =
     (if value = [] then None
      else
        (let v = (if 7 \<le> length value \<and> equal_fold u (take 7 value) ''mailto:'' then drop 7 value else value);
             w = to_lower u v
         in if w = [] then None else Some w))"

definition parse_sequence :: "bytes \<Rightarrow> int" where
  "parse_sequence value = (case atoi value of None \<Rightarrow> 0 | Some n \<Rightarrow> if n < 0 then 0 else n)"

section \<open>Nothing is lost in splitting\<close>

lemma split_scan_nonempty [simp]: "split_scan sep quoted escaped part s \<noteq> []"
  by (induction sep quoted escaped part s rule: split_scan.induct) auto

lemma join_split_scan: "join [sep] (split_scan sep quoted escaped part s) = part @ s"
  by (induction sep quoted escaped part s rule: split_scan.induct) (auto simp: join_Cons)

lemma join_split_outside_quotes: "join [sep] (split_outside_quotes value sep) = value"
  by (simp add: split_outside_quotes_def join_split_scan)

lemma separator_scan_bound:
  "separator_scan sep quoted escaped s = Some i \<Longrightarrow> i < length s \<and> s ! i = sep"
  by (induction sep quoted escaped s arbitrary: i rule: separator_scan.induct) (auto split: if_splits)

lemma split_scan_take:
  "separator_scan sep quoted escaped s = Some i \<Longrightarrow>
   split_scan sep quoted escaped part s = (part @ take i s) # split_scan sep False False [] (drop (Suc i) s)"
  by (induction sep quoted escaped s arbitrary: i part rule: separator_scan.induct) (auto split: if_splits)

lemma split_scan_None:
  "separator_scan sep quoted escaped s = None \<Longrightarrow> split_scan sep quoted escaped part s = [part @ s]"
  by (induction sep quoted escaped s arbitrary: part rule: separator_scan.induct) (auto split: if_splits)

text \<open>
  The two scanners agree: splitting cuts exactly at the first index found, then goes on
  behind it.
\<close>

lemma split_outside_quotes_rec:
  "split_outside_quotes value sep =
     (case separator_index value sep of
        None \<Rightarrow> [value]
      | Some i \<Rightarrow> take i value # split_outside_quotes (drop (i + 1) value) sep)"
  by (auto simp: split_outside_quotes_def separator_index_def split_scan_None split_scan_take
      split: option.splits)

end
