(* ===== verification/Calendar.thy ===== *)
theory Calendar
  imports Calendar_Lines Go_Time
begin

text \<open>
  \<open>internal/calendar/calendar.go\<close>: calendar times and durations, the event builder and the
  component-stack machine of \<open>ParseICS\<close>.
\<close>

section \<open>Data\<close>

definition method_publish :: bytes where "method_publish = ''PUBLISH''"
definition method_request :: bytes where "method_request = ''REQUEST''"
definition method_cancel :: bytes where "method_cancel = ''CANCEL''"
definition method_reply :: bytes where "method_reply = ''REPLY''"

definition max_events_per_calendar :: nat where
  "max_events_per_calendar = 1000"

record attendee =
  at_address :: bytes
  at_name :: "bytes option"
  at_partstat :: "bytes option"
  at_role :: "bytes option"

record parsed_event =
  pe_method :: bytes
  pe_uid :: bytes
  pe_sequence :: int
  pe_summary :: "bytes option"
  pe_description :: "bytes option"
  pe_location :: "bytes option"
  pe_status :: "bytes option"
  pe_organizer_address :: "bytes option"
  pe_organizer_name :: "bytes option"
  pe_attendees :: "attendee list"
  pe_dtstart :: int
  pe_dtend :: "int option"
  pe_all_day :: bool

definition dedup_key :: "parsed_event \<Rightarrow> bytes" where
  "dedup_key e = pe_uid e @ ''|'' @ itoa (pe_sequence e) @ ''|'' @ pe_method e"

definition is_calendar_part :: "unicode \<Rightarrow> bytes \<Rightarrow> bytes \<Rightarrow> bool" where
  "is_calendar_part u content_type filename \<longleftrightarrow>
     (let ct = to_lower u content_type in
      contains ct ''text/calendar'' \<or> contains ct ''application/ics''
      \<or> has_suffix (to_lower u filename) ''.ics'')"

section \<open>Times\<close>

definition ends_in_z :: "unicode \<Rightarrow> bytes \<Rightarrow> bool" where
  "ends_in_z u value \<longleftrightarrow> has_suffix (to_upper u value) ''Z''"

definition is_all_day :: "unicode \<Rightarrow> content_line \<Rightarrow> bool" where
  "is_all_day u line \<longleftrightarrow>
     (let value = cl_value line; value_type = first_parameter (cl_params line) ''VALUE'' in
      equal_fold u value_type ''DATE'' \<or>
      (value_type = [] \<and> (length value = 8 \<or> (length value = 9 \<and> ends_in_z u value))))"

text \<open>\<open>None\<close> is a parse error; otherwise the instant and whether the value is a date.\<close>

definition parse_calendar_time :: "unicode \<Rightarrow> tz_env \<Rightarrow> content_line \<Rightarrow> (go_time \<times> bool) option" where
  "parse_calendar_time u tz line =
     (let value = cl_value line in
      if is_all_day u line then
        map_option (\<lambda>t. (t, True)) (parse_day (trim_suffix (to_upper u value) ''Z''))
      else if ends_in_z u value then
        map_option (\<lambda>t. (t, False)) (parse_datetime ''Z'' utc (to_upper u value))
      else
        (let tzid = first_parameter (cl_params line) ''TZID'';
             loc = (if tzid \<noteq> [] then (case tz_load tz tzid of None \<Rightarrow> tz_local tz | Some l \<Rightarrow> l)
                    else tz_local tz)
         in map_option (\<lambda>t. (t, False)) (parse_datetime [] loc value)))"

section \<open>Durations\<close>

record duration =
  du_sign :: int
  du_weeks :: int
  du_days :: int
  du_hours :: int
  du_minutes :: int
  du_seconds :: int

text \<open>One optional group \<open>(?:(\d+)X)?\<close> of \<open>durationPattern\<close>: the digits, or \<open>[]\<close>, and the rest.\<close>

definition duration_group :: "char \<Rightarrow> bytes \<Rightarrow> bytes \<times> bytes" where
  "duration_group letter s =
     (let ds = takeWhile is_digit s; rest = dropWhile is_digit s in
      if ds \<noteq> [] \<and> rest \<noteq> [] \<and> hd rest = letter then (ds, tl rest) else ([], s))"

text \<open>
  \<open>durationPattern.FindStringSubmatch\<close>: whether the sign is a minus and the five groups,
  \<open>None\<close> without a match.
\<close>

definition match_duration :: "bytes \<Rightarrow> (bool \<times> bytes list) option" where
  "match_duration s =
     (let neg = (s \<noteq> [] \<and> hd s = CHR ''-'');
          s1 = (if s \<noteq> [] \<and> (hd s = CHR ''-'' \<or> hd s = CHR ''+'') then tl s else s)
      in case s1 of
           [] \<Rightarrow> None
         | p # s2 \<Rightarrow>
             if p \<noteq> CHR ''P'' then None
             else
               (let (w, s3) = duration_group (CHR ''W'') s2;
                    (d, s4) = duration_group (CHR ''D'') s3
                in case s4 of
                     [] \<Rightarrow> Some (neg, [w, d, [], [], []])
                   | t # s5 \<Rightarrow>
                       if t \<noteq> CHR ''T'' then None
                       else
                         (let (h, s6) = duration_group (CHR ''H'') s5;
                              (m, s7) = duration_group (CHR ''M'') s6;
                              (x, s8) = duration_group (CHR ''S'') s7
                          in if s8 = [] then Some (neg, [w, d, h, m, x]) else None)))"

text \<open>The loop over the fields: \<open>None\<close> when \<open>Atoi\<close> fails, an absent group is 0.\<close>

fun duration_fields :: "bytes list \<Rightarrow> int list option" where
  "duration_fields [] = Some []"
| "duration_fields (g # gs) =
     (if g = [] then map_option ((#) 0) (duration_fields gs)
      else (case atoi g of
              None \<Rightarrow> None
            | Some n \<Rightarrow> map_option ((#) n) (duration_fields gs)))"

definition parse_duration :: "unicode \<Rightarrow> bytes \<Rightarrow> duration option" where
  "parse_duration u value =
     (case match_duration (to_upper u value) of
        None \<Rightarrow> None
      | Some (neg, groups) \<Rightarrow>
          (case duration_fields groups of
             Some [w, d, h, m, s] \<Rightarrow>
               if (\<forall>g\<in>set groups. g = []) then None
               else Some \<lparr>du_sign = (if neg then - 1 else 1), du_weeks = w, du_days = d,
                          du_hours = h, du_minutes = m, du_seconds = s\<rparr>
           | _ \<Rightarrow> None))"

definition max_duration_days :: int where
  "max_duration_days = min max_int64 (max_int64 div (24 * 60 * 60 * 1000))"

fun add_clock :: "int \<Rightarrow> (int \<times> int) list \<Rightarrow> int option" where
  "add_clock clock [] = Some clock"
| "add_clock clock ((amount, unit) # rest) =
     (if (max_int64 - clock) div unit < amount then None
      else add_clock (clock + amount * unit) rest)"

definition clock_parts :: "duration \<Rightarrow> (int \<times> int) list" where
  "clock_parts d = [(du_hours d, 3600000000000), (du_minutes d, 60000000000), (du_seconds d, 1000000000)]"

definition add_to :: "duration \<Rightarrow> go_time \<Rightarrow> go_time option" where
  "add_to d value =
     (if max_duration_days div 7 < du_weeks d
         \<or> max_duration_days - du_weeks d * 7 < du_days d then None
      else
        (let days = du_sign d * (du_weeks d * 7 + du_days d) in
         case add_clock 0 (clock_parts d) of
           None \<Rightarrow> None
         | Some clock \<Rightarrow>
             (let end' = add_duration (du_sign d * clock) (add_days days value) in
              if same_instant (from_unix_milli (unix_milli end')) end' then Some end' else None)))"

section \<open>The event builder\<close>

record event_builder =
  eb_properties :: "(bytes \<times> content_line) list"
  eb_attendees :: "content_line list"

definition new_event_builder :: event_builder where
  "new_event_builder = \<lparr>eb_properties = [], eb_attendees = []\<rparr>"

definition builder_add :: "content_line \<Rightarrow> event_builder \<Rightarrow> event_builder" where
  "builder_add line b =
     (if cl_name line = ''ATTENDEE'' then b\<lparr>eb_attendees := eb_attendees b @ [line]\<rparr>
      else if map_of (eb_properties b) (cl_name line) = None
           then b\<lparr>eb_properties := map_put (cl_name line) line (eb_properties b)\<rparr>
      else b)"

text \<open>\<open>builder.properties[name]\<close>, the zero value when absent.\<close>

definition prop_line :: "event_builder \<Rightarrow> bytes \<Rightarrow> content_line" where
  "prop_line b name = (case map_of (eb_properties b) name of None \<Rightarrow> no_line | Some l \<Rightarrow> l)"

definition build_attendees :: "unicode \<Rightarrow> content_line list \<Rightarrow> attendee list" where
  "build_attendees u lines =
     concat (map (\<lambda>line. case mailto u (cl_value line) of
         None \<Rightarrow> []
       | Some address \<Rightarrow>
           [\<lparr>at_address = address,
             at_name = optional_parameter u (cl_params line) ''CN'' False,
             at_partstat = optional_parameter u (cl_params line) ''PARTSTAT'' True,
             at_role = optional_parameter u (cl_params line) ''ROLE'' True\<rparr>]) lines)"

text \<open>The end of an event: \<open>None\<close> is an invalid value, \<open>Some None\<close> no end.\<close>

definition build_end ::
    "unicode \<Rightarrow> tz_env \<Rightarrow> event_builder \<Rightarrow> go_time \<Rightarrow> bool \<Rightarrow> int option option" where
  "build_end u tz b start all_day =
     (case map_of (eb_properties b) ''DTEND'' of
        Some end_line \<Rightarrow>
          (case parse_calendar_time u tz end_line of
             None \<Rightarrow> None
           | Some (end', _) \<Rightarrow> Some (Some (unix_milli end')))
      | None \<Rightarrow>
          (case map_of (eb_properties b) ''DURATION'' of
             Some duration_line \<Rightarrow>
               (case parse_duration u (cl_value duration_line) of
                  None \<Rightarrow> None
                | Some d \<Rightarrow>
                    (case add_to d start of
                       None \<Rightarrow> None
                     | Some end' \<Rightarrow> Some (Some (unix_milli end'))))
           | None \<Rightarrow>
               Some (if all_day then Some (unix_milli (add_days 1 start)) else None)))"

text \<open>The three outcomes of \<open>build\<close>: invalid calendar, incomplete event, event.\<close>

datatype build_result = Invalid | Incomplete | Built parsed_event

definition build :: "unicode \<Rightarrow> tz_env \<Rightarrow> bytes \<Rightarrow> event_builder \<Rightarrow> build_result" where
  "build u tz method' b =
     (case (map_of (eb_properties b) ''UID'', map_of (eb_properties b) ''DTSTART'') of
        (Some uid_line, Some start_line) \<Rightarrow>
          (case decode_text (cl_value uid_line) of
             None \<Rightarrow> Invalid
           | Some uid \<Rightarrow>
               if uid = [] then Incomplete
               else
                 (case parse_calendar_time u tz start_line of
                    None \<Rightarrow> Invalid
                  | Some (start, all_day) \<Rightarrow>
                      (case build_end u tz b start all_day of
                         None \<Rightarrow> Invalid
                       | Some end_millis \<Rightarrow>
                           (case (optional_text (prop_line b ''SUMMARY''),
                                  optional_text (prop_line b ''DESCRIPTION''),
                                  optional_text (prop_line b ''LOCATION'')) of
                              (Some summary, Some description, Some location) \<Rightarrow>
                                Built \<lparr>pe_method = to_upper u method', pe_uid = uid,
                                   pe_sequence = parse_sequence (cl_value (prop_line b ''SEQUENCE'')),
                                   pe_summary = summary, pe_description = description,
                                   pe_location = location,
                                   pe_status = optional_upper u (prop_line b ''STATUS''),
                                   pe_organizer_address =
                                     (case map_of (eb_properties b) ''ORGANIZER'' of
                                        None \<Rightarrow> None | Some l \<Rightarrow> mailto u (cl_value l)),
                                   pe_organizer_name =
                                     (case map_of (eb_properties b) ''ORGANIZER'' of
                                        None \<Rightarrow> None
                                      | Some l \<Rightarrow> optional_parameter u (cl_params l) ''CN'' False),
                                   pe_attendees = build_attendees u (eb_attendees b),
                                   pe_dtstart = unix_milli start, pe_dtend = end_millis,
                                   pe_all_day = all_day\<rparr>
                            | _ \<Rightarrow> Invalid))))
      | _ \<Rightarrow> Incomplete)"

section \<open>The parser\<close>

record ics_state =
  ics_method :: bytes
  ics_stack :: "bytes list"
  ics_events :: "parsed_event list"
  ics_current :: "event_builder option"
  ics_seen_calendar :: bool
  ics_closed_calendar :: bool
  ics_seen_component :: bool
  ics_event_count :: nat

definition ics_init :: ics_state where
  "ics_init = \<lparr>ics_method = method_publish, ics_stack = [], ics_events = [], ics_current = None,
     ics_seen_calendar = False, ics_closed_calendar = False, ics_seen_component = False,
     ics_event_count = 0\<rparr>"

text \<open>The case \<open>BEGIN\<close>; \<open>None\<close> is the early return of no events.\<close>

definition ics_begin :: "unicode \<Rightarrow> content_line \<Rightarrow> ics_state \<Rightarrow> ics_state option" where
  "ics_begin u line st =
     (let component = to_upper u (cl_value line);
          push = (\<lambda>s. s\<lparr>ics_seen_component := (ics_seen_component s \<or> ics_stack s \<noteq> []),
                        ics_stack := ics_stack s @ [component]\<rparr>)
      in if ics_stack st = [] then
           (if component \<noteq> ''VCALENDAR'' \<or> ics_seen_calendar st then None
            else Some (push (st\<lparr>ics_seen_calendar := True\<rparr>)))
         else if component = ''VCALENDAR'' then None
         else if component = ''VEVENT'' then
           (if ics_stack st \<noteq> [''VCALENDAR''] then None
            else if max_events_per_calendar < ics_event_count st + 1 then None
            else Some (push (st\<lparr>ics_event_count := ics_event_count st + 1,
                                ics_current := Some new_event_builder\<rparr>)))
         else Some (push st))"

definition ics_end :: "unicode \<Rightarrow> tz_env \<Rightarrow> content_line \<Rightarrow> ics_state \<Rightarrow> ics_state option" where
  "ics_end u tz line st =
     (let component = to_upper u (cl_value line);
          pop = (\<lambda>s. s\<lparr>ics_stack := butlast (ics_stack s),
                       ics_closed_calendar := (ics_closed_calendar s \<or> component = ''VCALENDAR'')\<rparr>)
      in if ics_stack st = [] \<or> last (ics_stack st) \<noteq> component then None
         else
           (case ics_current st of
              Some b \<Rightarrow>
                if component = ''VEVENT'' then
                  (case build u tz (ics_method st) b of
                     Invalid \<Rightarrow> None
                   | Incomplete \<Rightarrow> Some (pop (st\<lparr>ics_current := None\<rparr>))
                   | Built e \<Rightarrow> Some (pop (st\<lparr>ics_events := ics_events st @ [e], ics_current := None\<rparr>)))
                else Some (pop st)
            | None \<Rightarrow> Some (pop st)))"

definition ics_property :: "unicode \<Rightarrow> content_line \<Rightarrow> ics_state \<Rightarrow> ics_state option" where
  "ics_property u line st =
     (if ics_stack st = [] then None
      else if ics_stack st = [''VCALENDAR''] \<and> cl_name line = ''METHOD'' then
        (if ics_seen_component st then None
         else
           (let value = to_upper u (cl_value line) in
            Some (if value \<noteq> [] then st\<lparr>ics_method := value\<rparr> else st)))
      else
        (case ics_current st of
           Some b \<Rightarrow>
             if last (ics_stack st) = ''VEVENT'' then Some (st\<lparr>ics_current := Some (builder_add line b)\<rparr>)
             else Some st
         | None \<Rightarrow> Some st))"

definition ics_step :: "unicode \<Rightarrow> tz_env \<Rightarrow> bytes \<Rightarrow> ics_state \<Rightarrow> ics_state option" where
  "ics_step u tz raw st =
     (if raw = [] then Some st
      else
        (case parse_content_line u raw of
           None \<Rightarrow> None
         | Some line \<Rightarrow>
             if cl_name line = ''BEGIN'' then ics_begin u line st
             else if cl_name line = ''END'' then ics_end u tz line st
             else ics_property u line st))"

fun ics_loop :: "unicode \<Rightarrow> tz_env \<Rightarrow> bytes list \<Rightarrow> ics_state \<Rightarrow> ics_state option" where
  "ics_loop u tz [] st = Some st"
| "ics_loop u tz (raw # raws) st =
     (case ics_step u tz raw st of None \<Rightarrow> None | Some st' \<Rightarrow> ics_loop u tz raws st')"

definition parse_ics :: "unicode \<Rightarrow> tz_env \<Rightarrow> bytes \<Rightarrow> parsed_event list" where
  "parse_ics u tz text =
     (case unfold_lines text of
        None \<Rightarrow> []
      | Some lines \<Rightarrow>
          (case ics_loop u tz lines ics_init of
             None \<Rightarrow> []
           | Some st \<Rightarrow>
               if \<not> ics_seen_calendar st \<or> \<not> ics_closed_calendar st \<or> ics_stack st \<noteq> [] then []
               else ics_events st))"


section \<open>Durations: the overflow guards are exact\<close>

lemma max_duration_days_eq: "max_duration_days = 106751991167"
  by (simp add: max_duration_days_def max_int64_def)

lemma div_less_iff:
  fixes a b k :: int
  assumes "0 < k"
  shows "a div k < b \<longleftrightarrow> a < b * k"
proof -
  have "b * k \<le> a \<Longrightarrow> b \<le> a div k"
    using zdiv_mono1 [of "b * k" a k] assms by simp
  moreover have "b \<le> a div k \<Longrightarrow> b * k \<le> a"
    using mult_right_mono [of b "a div k" k] div_mult_mod_eq [of a k] pos_mod_sign [OF assms, of a] assms
    by linarith
  ultimately show ?thesis by linarith
qed

lemma add_clock_exact:
  assumes "\<forall>(a, u)\<in>set parts. 0 \<le> a \<and> 0 < u" "0 \<le> clock" "clock \<le> max_int64"
  shows "add_clock clock parts =
    (let t = clock + sum_list (map (\<lambda>(a, u). a * u) parts)
     in if t \<le> max_int64 then Some t else None)"
  using assms
proof (induction parts arbitrary: clock)
  case (Cons p parts)
  obtain a u where p: "p = (a, u)" by (cases p)
  have au: "0 \<le> a" "0 < u" using Cons.prems p by auto
  have rest: "0 \<le> sum_list (map (\<lambda>(a, u). a * u) parts)"
    using Cons.prems by (intro sum_list_nonneg) (auto intro: mult_nonneg_nonneg simp: split_beta)
  show ?case
  proof (cases "max_int64 < clock + a * u")
    case True
    then show ?thesis using rest au by (simp add: p div_less_iff Let_def)
  next
    case False
    have "0 \<le> clock + a * u" using Cons.prems au by simp
    then show ?thesis
      using Cons.IH [of "clock + a * u"] Cons.prems False au
      by (simp add: p div_less_iff Let_def add.assoc)
  qed
qed simp

definition duration_ok :: "duration \<Rightarrow> bool" where
  "duration_ok d \<longleftrightarrow> (du_sign d = 1 \<or> du_sign d = - 1) \<and> 0 \<le> du_weeks d \<and> 0 \<le> du_days d
     \<and> 0 \<le> du_hours d \<and> 0 \<le> du_minutes d \<and> 0 \<le> du_seconds d"

definition duration_days :: "duration \<Rightarrow> int" where
  "duration_days d = du_weeks d * 7 + du_days d"

definition duration_clock :: "duration \<Rightarrow> int" where
  "duration_clock d = du_hours d * 3600000000000 + du_minutes d * 60000000000 + du_seconds d * 1000000000"

lemma add_clock_parts:
  "duration_ok d \<Longrightarrow> add_clock 0 (clock_parts d) =
     (if duration_clock d \<le> max_int64 then Some (duration_clock d) else None)"
  by (subst add_clock_exact)
    (auto simp: clock_parts_def duration_ok_def duration_clock_def Let_def add.assoc max_int64_def)

lemma days_guard:
  assumes "duration_ok d"
  shows "max_duration_days div 7 < du_weeks d \<or> max_duration_days - du_weeks d * 7 < du_days d
    \<longleftrightarrow> max_duration_days < duration_days d"
  using assms div_less_iff [of 7 max_duration_days "du_weeks d"]
  by (auto simp: duration_ok_def duration_days_def)

lemma nanos_parts:
  assumes "0 \<le> t_nsec t" "t_nsec t < 1000000000"
  shows "t_nsec t mod 1000000 = nanos t mod 1000000"
    and "t_sec t * 1000 + t_nsec t div 1000000 = nanos t div 1000000"
proof -
  have "nanos t = t_nsec t + t_sec t * 1000 * 1000000" by (simp add: nanos_def)
  then show "t_nsec t mod 1000000 = nanos t mod 1000000"
    and "t_sec t * 1000 + t_nsec t div 1000000 = nanos t div 1000000"
    by (simp_all only: mod_mult_self1 div_mult_self1 zero_neq_numeral not_False_eq_True)
qed

lemma milli_roundtrip_nanos:
  assumes "0 \<le> t_nsec t" "t_nsec t < 1000000000"
  shows "same_instant (from_unix_milli (unix_milli t)) t \<longleftrightarrow>
    nanos t mod 1000000 = 0 \<and> in_int64 (nanos t div 1000000)"
  by (simp only: milli_roundtrip_iff [OF assms] nanos_parts [OF assms])

lemma add_duration_nsec: "0 \<le> t_nsec (add_duration k t)" "t_nsec (add_duration k t) < 1000000000"
  by (simp_all add: add_duration_def)

lemma nanos_add_days_utc: "t_loc t = utc \<Longrightarrow> nanos (add_days n t) = nanos t + n * 86400000000000"
  by (simp add: add_days_utc nanos_def algebra_simps)

lemma add_to_in_zone:
  assumes "duration_ok d"
  defines "t v \<equiv> nanos (add_days (du_sign d * duration_days d) v) + du_sign d * duration_clock d"
  shows "map_option nanos (add_to d v) =
    (if duration_days d \<le> max_duration_days \<and> duration_clock d \<le> max_int64
        \<and> t v mod 1000000 = 0 \<and> in_int64 (t v div 1000000)
     then Some (t v) else None)"
proof -
  let ?e = "add_duration (du_sign d * duration_clock d) (add_days (du_sign d * duration_days d) v)"
  have e: "nanos ?e = t v"
    by (simp add: nanos_add_duration t_def)
  show ?thesis
    using days_guard [OF assms(1)] add_clock_parts [OF assms(1)]
      milli_roundtrip_nanos [OF add_duration_nsec, of "du_sign d * duration_clock d"
        "add_days (du_sign d * duration_days d) v"] e
    by (auto simp: add_to_def Let_def duration_days_def [symmetric] split: option.splits)
qed


lemma atoi_nonneg_digits:
  assumes "atoi g = Some n" "g \<noteq> []" "\<forall>c\<in>set g. is_digit c"
  shows "0 \<le> n"
proof -
  have "hd g \<noteq> CHR ''-''" using assms(2,3) by (cases g) (auto simp: is_digit_def byte_def)
  then show ?thesis using assms(1) by (auto simp: atoi_def Let_def split: option.splits if_splits)
qed

lemma duration_fields_nonneg:
  "duration_fields gs = Some ns \<Longrightarrow> \<forall>g\<in>set gs. \<forall>c\<in>set g. is_digit c \<Longrightarrow> \<forall>n\<in>set ns. 0 \<le> n"
  by (induction gs arbitrary: ns) (auto split: if_splits option.splits dest: atoi_nonneg_digits)

lemma duration_group_digits: "duration_group l s = (ds, rest) \<Longrightarrow> \<forall>c\<in>set ds. is_digit c"
  by (auto simp: duration_group_def Let_def split: if_splits dest: set_takeWhileD)

lemma match_duration_digits:
  "match_duration s = Some (neg, gs) \<Longrightarrow> \<forall>g\<in>set gs. \<forall>c\<in>set g. is_digit c"
  by (auto simp: match_duration_def Let_def split: list.splits prod.splits if_splits
      dest!: duration_group_digits)

lemma parse_duration_ok: "parse_duration u value = Some d \<Longrightarrow> duration_ok d"
  by (auto simp: parse_duration_def duration_ok_def split: option.splits prod.splits list.splits if_splits
      dest!: match_duration_digits duration_fields_nonneg)

section \<open>The invariant of the parser\<close>

definition event_ok :: "parsed_event \<Rightarrow> bool" where
  "event_ok e \<longleftrightarrow> pe_uid e \<noteq> [] \<and> pe_method e \<noteq> [] \<and> 0 \<le> pe_sequence e \<and> pe_sequence e \<le> max_int64
     \<and> pe_status e \<noteq> Some [] \<and> pe_summary e \<noteq> Some [] \<and> in_int64 (pe_dtstart e)
     \<and> (\<forall>a\<in>set (pe_attendees e). at_address a \<noteq> [])
     \<and> (pe_all_day e \<longrightarrow> pe_dtend e \<noteq> None)"

lemma parse_sequence_bounds: "0 \<le> parse_sequence v \<and> parse_sequence v \<le> max_int64"
  using atoi_in_int64 by (auto simp: parse_sequence_def in_int64_def max_int64_def split: option.splits)

lemma mailto_nonempty: "mailto u v = Some a \<Longrightarrow> a \<noteq> []"
  by (auto simp: mailto_def Let_def split: if_splits)

lemma build_attendees_nonempty: "a \<in> set (build_attendees u ls) \<Longrightarrow> at_address a \<noteq> []"
  by (auto simp: build_attendees_def split: option.splits dest!: sym [of "Some _"] mailto_nonempty)

lemma unix_milli_in_int64 [simp]: "in_int64 (unix_milli t)"
  by (simp add: unix_milli_def)

lemma optional_upper_nonempty [simp]: "optional_upper u l \<noteq> Some []"
  by (simp add: optional_upper_def Let_def)

lemma optional_text_nonempty: "optional_text l = Some t \<Longrightarrow> t \<noteq> Some []"
  by (auto simp: optional_text_def split: if_splits)

lemma build_end_all_day: "build_end u tz b start True = Some t \<Longrightarrow> t \<noteq> None"
  by (auto simp: build_end_def split: option.splits)

lemma build_BuiltE:
  assumes "build u tz m b = Built e"
  obtains start where "pe_uid e \<noteq> []" "pe_method e = to_upper u m"
    "pe_sequence e = parse_sequence (cl_value (prop_line b ''SEQUENCE''))"
    "optional_text (prop_line b ''SUMMARY'') = Some (pe_summary e)"
    "pe_status e = optional_upper u (prop_line b ''STATUS'')"
    "pe_attendees e = build_attendees u (eb_attendees b)"
    "pe_dtstart e = unix_milli start"
    "build_end u tz b start (pe_all_day e) = Some (pe_dtend e)"
  using assms that
  by (simp add: build_def split: option.splits if_splits prod.splits) auto

lemma build_ok:
  assumes "build u tz m b = Built e" "m \<noteq> []"
  shows "event_ok e"
  using assms(1)
proof (rule build_BuiltE)
  fix start
  assume "pe_uid e \<noteq> []" "pe_method e = to_upper u m"
    "pe_sequence e = parse_sequence (cl_value (prop_line b ''SEQUENCE''))"
    "optional_text (prop_line b ''SUMMARY'') = Some (pe_summary e)"
    "pe_status e = optional_upper u (prop_line b ''STATUS'')"
    "pe_attendees e = build_attendees u (eb_attendees b)"
    "pe_dtstart e = unix_milli start"
    "build_end u tz b start (pe_all_day e) = Some (pe_dtend e)"
  then show ?thesis
    using assms(2) parse_sequence_bounds [of "cl_value (prop_line b ''SEQUENCE'')"]
    by (auto simp: event_ok_def dest: build_attendees_nonempty optional_text_nonempty build_end_all_day)
qed

text \<open>
  The stack is empty or starts with the one \<open>VCALENDAR\<close>; an event is under construction
  exactly while a \<open>VEVENT\<close> is open directly below it; once the calendar is closed nothing
  is open; every event counted is finished, dropped as incomplete, or under construction.
\<close>

definition ics_inv :: "ics_state \<Rightarrow> bool" where
  "ics_inv st \<longleftrightarrow>
     ics_method st \<noteq> [] \<and>
     (ics_stack st \<noteq> [] \<longrightarrow> hd (ics_stack st) = ''VCALENDAR'' \<and> ''VCALENDAR'' \<notin> set (tl (ics_stack st))
        \<and> ics_seen_calendar st) \<and>
     (ics_current st \<noteq> None \<longleftrightarrow> (\<exists>cs. ics_stack st = ''VCALENDAR'' # ''VEVENT'' # cs)) \<and>
     (''VEVENT'' \<in> set (ics_stack st) \<longrightarrow> ics_current st \<noteq> None \<and> ''VEVENT'' \<notin> set (drop 2 (ics_stack st))) \<and>
     (ics_closed_calendar st \<longrightarrow> ics_seen_calendar st \<and> ics_stack st = []) \<and>
     length (ics_events st) + (if ics_current st = None then 0 else 1) \<le> ics_event_count st \<and>
     ics_event_count st \<le> max_events_per_calendar \<and>
     (\<forall>e\<in>set (ics_events st). event_ok e)"

lemma ics_inv_init: "ics_inv ics_init"
  by (simp add: ics_inv_def ics_init_def method_publish_def)

lemma ics_inv_begin [inv_intros]:
  assumes "ics_inv st" "ics_begin u line st = Some st'"
  shows "ics_inv st'"
proof (cases "ics_stack st")
  case Nil
  then show ?thesis using assms
    by (auto simp: ics_begin_def Let_def ics_inv_def split: if_splits)
next
  case (Cons c cs)
  show ?thesis
  proof (cases cs)
    case Nil
    then show ?thesis using assms Cons
      by (auto simp: ics_begin_def Let_def ics_inv_def split: if_splits)
  next
    case (Cons d ds)
    then show ?thesis using assms \<open>ics_stack st = c # cs\<close>
      by (auto simp: ics_begin_def Let_def ics_inv_def split: if_splits)
  qed
qed

lemma ics_inv_property [inv_intros]:
  "ics_inv st \<Longrightarrow> ics_property u line st = Some st' \<Longrightarrow> ics_inv st'"
  by (auto simp: ics_property_def Let_def ics_inv_def split: if_splits option.splits)


text \<open>Leaving a component that is not the event: nothing but the stack and the closed flag changes.\<close>

lemma ics_inv_pop:
  assumes "ics_inv st" "ics_stack st = ''VCALENDAR'' # cs" "ics_current st = None \<or> 2 \<le> length cs"
    and "st' = st\<lparr>ics_stack := butlast (ics_stack st),
                  ics_closed_calendar := (ics_closed_calendar st \<or> cs = [])\<rparr>"
  shows "ics_inv st'"
proof (cases cs)
  case Nil
  then show ?thesis using assms by (simp add: ics_inv_def)
next
  case (Cons d ds)
  then show ?thesis using assms
    by (cases ds) (auto simp: ics_inv_def dest: in_set_butlastD)
qed

lemma ics_inv_end [inv_intros]:
  assumes inv: "ics_inv st" and step: "ics_end u tz line st = Some st'"
  shows "ics_inv st'"
proof -
  let ?c = "to_upper u (cl_value line)"
  from step have top: "ics_stack st \<noteq> []" "last (ics_stack st) = ?c"
    by (auto simp: ics_end_def Let_def split: if_splits)
  from top(1) inv obtain cs where cs: "ics_stack st = ''VCALENDAR'' # cs" "''VCALENDAR'' \<notin> set cs"
    by (cases "ics_stack st") (auto simp: ics_inv_def)
  have closed: "?c = ''VCALENDAR'' \<longleftrightarrow> cs = []"
    using top(2) cs by (metis last.simps last_in_set)
  show ?thesis
  proof (cases "\<exists>b. ics_current st = Some b \<and> ?c = ''VEVENT''")
    case False
    then have st': "st' = st\<lparr>ics_stack := butlast (ics_stack st),
        ics_closed_calendar := (ics_closed_calendar st \<or> cs = [])\<rparr>"
      using step closed by (auto simp: ics_end_def Let_def split: if_splits option.splits)
    have "ics_current st = None \<or> 2 \<le> length cs"
    proof (rule disjCI)
      assume "\<not> 2 \<le> length cs"
      then have "length cs < 2" by simp
      then show "ics_current st = None"
        using inv cs False top(2) by (cases cs) (auto simp: ics_inv_def)
    qed
    from ics_inv_pop [OF inv cs(1) this st'] show ?thesis .
  next
    case True
    then obtain b where b: "ics_current st = Some b" "?c = ''VEVENT''" by blast
    with inv cs(1) obtain ds where ds: "cs = ''VEVENT'' # ds" "''VEVENT'' \<notin> set ds"
      by (auto simp: ics_inv_def)
    have "last (''VEVENT'' # ds) = ''VEVENT''" using top(2) b(2) cs(1) ds(1) by simp
    with ds(2) have "ds = []" by (metis last.simps last_in_set)
    have m: "ics_method st \<noteq> []" using inv by (simp add: ics_inv_def)
    show ?thesis
      using step b inv cs ds \<open>ds = []\<close> build_ok [OF _ m, of u tz b]
      by (auto simp: ics_end_def Let_def ics_inv_def split: build_result.splits)
  qed
qed

lemma ics_inv_step: "ics_inv st \<Longrightarrow> ics_step u tz raw st = Some st' \<Longrightarrow> ics_inv st'"
  by (auto simp: ics_step_def split: if_splits option.splits intro: inv_intros)

lemma ics_inv_loop: "ics_inv st \<Longrightarrow> ics_loop u tz raws st = Some st' \<Longrightarrow> ics_inv st'"
  by (induction raws arbitrary: st) (auto split: option.splits dest: ics_inv_step)

section \<open>Properties\<close>

lemma parse_ics_bounded:
  "length (parse_ics u tz text) \<le> 1000 \<and> list_all event_ok (parse_ics u tz text)"
proof -
  have "ics_inv st" if "ics_loop u tz lines ics_init = Some st" for lines st
    using ics_inv_loop [OF ics_inv_init that] .
  then show ?thesis
    by (auto simp: parse_ics_def ics_inv_def max_events_per_calendar_def list_all_iff split: option.splits)
      (metis add_leD1 le_trans)+
qed

text \<open>
  C40. Whatever the text, \<open>ParseICS\<close> returns at most 1000 events, and each of them has a
  non-empty UID and method, a sequence number in \<open>0 .. 2^63-1\<close>, no empty status or summary,
  a start that fits 64 bits, an end when it lasts all day, and only attendees with an address.
\<close>

theorem parse_ics_events_ok:
  "length (parse_ics u tz text) \<le> 1000 \<and> list_all event_ok (parse_ics u tz text)"
  by (rule parse_ics_bounded)

text \<open>
  C19. The overflow guards of \<open>calendarDuration.addTo\<close> are exact: for a duration that
  \<open>parseDuration\<close> can return and a start in any zone, \<open>addTo\<close> computes the mathematical sum of the instant
  its calendar days lead to (\<open>AddDate\<close> in the zone of the start) and its clock part, and fails only if the days or the clock part leave their
  range, or the sum is not a whole number of milliseconds that fits 64 bits.  In UTC a calendar day is 24
  hours, so that the sum is that of the start and the whole duration.
\<close>

theorem add_to_exact:
  assumes "parse_duration u value = Some d"
  shows "let days = du_sign d * duration_days d;
             exact = nanos (add_days days v) + du_sign d * duration_clock d
         in map_option nanos (add_to d v) =
              (if duration_days d \<le> 106751991167 \<and> duration_clock d \<le> max_int64
                  \<and> exact mod 1000000 = 0 \<and> in_int64 (exact div 1000000)
               then Some exact else None)
            \<and> (t_loc v = utc \<longrightarrow> nanos (add_days days v) = nanos v + days * 86400000000000)"
  using add_to_in_zone [OF parse_duration_ok [OF assms], of v] nanos_add_days_utc [of v]
  by (simp add: Let_def max_duration_days_eq)

theorem add_to_exact_witness:
  "map_option nanos (add_to \<lparr>du_sign = - 1, du_weeks = 1, du_days = 0, du_hours = 2, du_minutes = 0,
      du_seconds = 0\<rparr> \<lparr>t_sec = 0, t_nsec = 0, t_loc = utc\<rparr>) = Some (- 612000000000000)"
proof -
  have "parse_duration plain_unicode ''-P1WT2H'' = Some \<lparr>du_sign = - 1, du_weeks = 1, du_days = 0,
      du_hours = 2, du_minutes = 0, du_seconds = 0\<rparr>"
    by (simp add: parse_duration_def match_duration_def duration_group_def ascii_eval number_eval)
  from add_to_exact [OF this, of "\<lparr>t_sec = 0, t_nsec = 0, t_loc = utc\<rparr>"] show ?thesis
    by (simp add: add_days_utc nanos_def duration_days_def duration_clock_def max_int64_def in_int64_def)
qed

end
