(* ===== verification/Snippet.thy ===== *)
theory Snippet
  imports Go_Strings "HOL-Library.Sublist"
begin

text \<open>
  The snippets of \<open>internal/store/store.go\<close>: removal of markup with the two regular
  expressions \<open>styleScript\<close> and \<open>tags\<close>, and the bounded whitespace normalisation.
\<close>

section \<open>Removal of markup\<close>

text \<open>The number of bytes \<open><[^>]+>\<close> matches at the front.\<close>

definition tag_length :: "bytes \<Rightarrow> nat option" where
  "tag_length s =
     (case s of
        [] \<Rightarrow> None
      | c # cs \<Rightarrow>
          if c \<noteq> CHR ''<'' then None
          else (case index_byte (\<lambda>d. d = CHR ''>'') cs of
                  None \<Rightarrow> None
                | Some k \<Rightarrow> if k = 0 then None else Some (k + 2)))"

text \<open>
  A name matched case-insensitively: beyond ASCII, only the long s (U+017F, two bytes)
  folds to a letter of the two names.
\<close>

fun match_name :: "bytes \<Rightarrow> bytes \<Rightarrow> bytes option" where
  "match_name [] s = Some s"
| "match_name (n # ns) s =
     (case s of
        [] \<Rightarrow> None
      | c # cs \<Rightarrow>
          if ascii_lower c = n then match_name ns cs
          else if n = CHR ''s'' \<and> has_prefix s [CHR 0xC5, CHR 0xBF] then match_name ns (drop 1 cs)
          else None)"

definition match_style_script :: "bytes \<Rightarrow> bytes option" where
  "match_style_script s =
     (case match_name ''style'' s of Some r \<Rightarrow> Some r | None \<Rightarrow> match_name ''script'' s)"

text \<open>The shortest way to a closing tag, and what follows it.\<close>

fun after_close :: "bytes \<Rightarrow> bytes option" where
  "after_close [] = None"
| "after_close (c # cs) =
     (case (if has_prefix (c # cs) ''</'' then match_style_script (drop 1 cs) else None) of
        Some (d # ds) \<Rightarrow> if d = CHR ''>'' then Some ds else after_close cs
      | _ \<Rightarrow> after_close cs)"

text \<open>\<open>styleScript\<close> at the front: the rest behind the match.\<close>

definition after_style_script :: "bytes \<Rightarrow> bytes option" where
  "after_style_script s =
     (if \<not> has_prefix s ''<'' then None
      else (case match_style_script (drop 1 s) of
              None \<Rightarrow> None
            | Some r \<Rightarrow>
                (case index_byte (\<lambda>d. d = CHR ''>'') r of
                   None \<Rightarrow> None
                 | Some k \<Rightarrow> after_close (drop (k + 1) r))))"

lemma match_name_length: "match_name n s = Some r \<Longrightarrow> length r + length n \<le> length s"
  by (induction n s arbitrary: r rule: match_name.induct)
    (fastforce split: list.splits if_splits)+

lemma match_style_script_length: "match_style_script s = Some r \<Longrightarrow> length r < length s"
  by (auto simp: match_style_script_def simp del: match_name.simps split: option.splits
      dest!: match_name_length)

lemma after_close_length: "after_close s = Some r \<Longrightarrow> length r < length s"
proof (induction s)
  case (Cons c cs)
  have "length (d # ds) < length (c # cs)"
    if "(if has_prefix (c # cs) ''</'' then match_style_script (drop 1 cs) else None) = Some (d # ds)" for d ds
    using that match_style_script_length [of "drop 1 cs" "d # ds"] by (auto split: if_splits)
  then show ?case
    using Cons by (force split: option.splits list.splits if_splits)
qed simp

lemma after_style_script_length:
  assumes "after_style_script s = Some r"
  shows "length r < length s"
proof -
  from assms obtain q k where "match_style_script (drop 1 s) = Some q"
      "after_close (drop (k + 1) q) = Some r"
    by (auto simp: after_style_script_def split: if_splits option.splits)
  from match_style_script_length [OF this(1)] after_close_length [OF this(2)]
  show ?thesis by simp
qed

function replace_style_script :: "bytes \<Rightarrow> bytes" where
  "replace_style_script s =
     (case s of
        [] \<Rightarrow> []
      | c # cs \<Rightarrow>
          (case after_style_script s of
             Some r \<Rightarrow> CHR '' '' # replace_style_script r
           | None \<Rightarrow> c # replace_style_script cs))"
  by pat_completeness auto
termination
  by (relation "measure length") (auto dest: after_style_script_length)

function replace_tags :: "bytes \<Rightarrow> bytes" where
  "replace_tags s =
     (case s of
        [] \<Rightarrow> []
      | c # cs \<Rightarrow>
          (case tag_length s of
             Some n \<Rightarrow> CHR '' '' # replace_tags (drop n s)
           | None \<Rightarrow> c # replace_tags cs))"
  by pat_completeness auto
termination
  by (relation "measure length") (auto simp: tag_length_def split: if_splits option.splits)

declare replace_style_script.simps [simp del] replace_tags.simps [simp del]

section \<open>Normalisation\<close>

definition snippet_limit :: nat where
  "snippet_limit = 140"

definition snippet_space :: "rune \<Rightarrow> bool" where
  "snippet_space r \<longleftrightarrow> r = 32 \<or> r = 9 \<or> r = 10 \<or> r = 13 \<or> r = 12"

text \<open>The loop of \<open>normalizeSnippet\<close>; what it writes, from a state \<open>(spacePending, written)\<close>.\<close>

fun snippet_loop :: "nat \<Rightarrow> bool \<Rightarrow> nat \<Rightarrow> rune list \<Rightarrow> rune list" where
  "snippet_loop limit pending written [] = []"
| "snippet_loop limit pending written (r # rs) =
     (if snippet_space r then snippet_loop limit (0 < written) written rs
      else if pending then
        (if written = limit then []
         else 32 # (if written + 1 = limit then []
                    else r # snippet_loop limit False (written + 2) rs))
      else if written = limit then []
      else r # snippet_loop limit False (written + 1) rs)"

definition normalize_snippet :: "bytes \<Rightarrow> nat \<Rightarrow> bytes" where
  "normalize_snippet source limit =
     (if source = [] \<or> limit = 0 then []
      else encode_runes (snippet_loop limit False 0 (runes source)))"

definition message_snippet :: "bytes option \<Rightarrow> bytes option \<Rightarrow> bytes" where
  "message_snippet text html =
     normalize_snippet
       (case text of
          Some t \<Rightarrow> t
        | None \<Rightarrow> (case html of None \<Rightarrow> [] | Some h \<Rightarrow> replace_tags (replace_style_script h)))
       snippet_limit"

section \<open>The reference: words joined by single spaces, cut at the limit\<close>

function rune_words :: "rune list \<Rightarrow> rune list list" where
  "rune_words rs =
     (let rs' = dropWhile snippet_space rs in
      if rs' = [] then []
      else takeWhile (\<lambda>r. \<not> snippet_space r) rs'
             # rune_words (dropWhile (\<lambda>r. \<not> snippet_space r) rs'))"
  by pat_completeness auto
termination
proof (relation "measure length")
  fix rs rs' :: "rune list"
  assume eq: "rs' = dropWhile snippet_space rs" and "rs' \<noteq> []"
  then obtain q qs where q: "rs' = q # qs" "\<not> snippet_space q"
    by (metis hd_dropWhile list.collapse)
  have "length (dropWhile (\<lambda>r. \<not> snippet_space r) qs) \<le> length qs" by (rule length_dropWhile_le)
  moreover have "length rs' \<le> length rs" using eq by (simp add: length_dropWhile_le)
  ultimately show "(dropWhile (\<lambda>r. \<not> snippet_space r) rs', rs) \<in> measure length"
    using q by simp
qed simp

declare rune_words.simps [simp del]

lemma rune_words_none: "dropWhile snippet_space rs = [] \<Longrightarrow> rune_words rs = []"
  by (subst rune_words.simps) simp

lemma rune_words_step:
  "dropWhile snippet_space rs \<noteq> [] \<Longrightarrow> rune_words rs =
     takeWhile (\<lambda>r. \<not> snippet_space r) (dropWhile snippet_space rs)
       # rune_words (dropWhile (\<lambda>r. \<not> snippet_space r) (dropWhile snippet_space rs))"
  by (subst rune_words.simps) (simp only: Let_def if_False)

fun unwords :: "rune list list \<Rightarrow> rune list" where
  "unwords [] = []"
| "unwords [w] = w"
| "unwords (w # ws) = w @ 32 # unwords ws"

lemma unwords_Cons: "unwords (w # ws) = w @ (if ws = [] then [] else 32 # unwords ws)"
  by (cases ws) auto

lemma rune_words_word: "w \<in> set (rune_words rs) \<Longrightarrow> w \<noteq> [] \<and> (\<forall>r\<in>set w. \<not> snippet_space r)"
proof (induction rs rule: rune_words.induct)
  case (1 rs)
  show ?case
  proof (cases "dropWhile snippet_space rs = []")
    case True
    then show ?thesis using "1.prems" by (simp only: rune_words_none) simp
  next
    case False
    let ?w = "takeWhile (\<lambda>r. \<not> snippet_space r) (dropWhile snippet_space rs)"
    let ?r = "dropWhile (\<lambda>r. \<not> snippet_space r) (dropWhile snippet_space rs)"
    have w: "?w \<noteq> [] \<and> (\<forall>r\<in>set ?w. \<not> snippet_space r)"
      using hd_dropWhile [OF False] False
      by (cases "dropWhile snippet_space rs") (simp_all, blast dest: set_takeWhileD)
    from "1.prems" consider "w = ?w" | "w \<in> set (rune_words ?r)"
      by (simp only: rune_words_step [OF False] list.set insert_iff) blast
    then show ?thesis
    proof cases
      case 1
      show ?thesis unfolding 1 by (rule w)
    next
      case 2
      show ?thesis by (rule "1.IH" [OF refl False 2])
    qed
  qed
qed

text \<open>The loop without a limit.\<close>

fun squeeze :: "bool \<Rightarrow> bool \<Rightarrow> rune list \<Rightarrow> rune list" where
  "squeeze pending started [] = []"
| "squeeze pending started (r # rs) =
     (if snippet_space r then squeeze started started rs
      else (if pending then [32] else []) @ r # squeeze False True rs)"

lemma squeeze_spaces:
  "squeeze pending started rs =
     squeeze (if rs \<noteq> [] \<and> snippet_space (hd rs) then started else pending) started
       (dropWhile snippet_space rs)"
proof (induction rs arbitrary: pending)
  case (Cons r rs)
  show ?case using Cons.IH [of started] by simp
qed simp

lemma squeeze_word:
  "rs \<noteq> [] \<Longrightarrow> \<not> snippet_space (hd rs) \<Longrightarrow>
   squeeze pending started rs = (if pending then [32] else []) @ takeWhile (\<lambda>r. \<not> snippet_space r) rs
     @ squeeze False True (dropWhile (\<lambda>r. \<not> snippet_space r) rs)"
proof (induction rs arbitrary: pending started)
  case (Cons r rs)
  then show ?case by (cases rs) auto
qed simp

lemma squeeze_unwords:
  "squeeze pending started rs =
     (if rune_words rs \<noteq> []
         \<and> (if rs \<noteq> [] \<and> snippet_space (hd rs) then started else pending) then [32] else [])
     @ unwords (rune_words rs)"
proof (induction rs arbitrary: pending started rule: rune_words.induct)
  case (1 rs)
  let ?rs = "dropWhile snippet_space rs"
  let ?rest = "dropWhile (\<lambda>r. \<not> snippet_space r) ?rs"
  show ?case
  proof (cases "?rs = []")
    case True
    then show ?thesis
      by (subst squeeze_spaces) (simp only: rune_words_none [OF True] True, simp)
  next
    case False
    have h: "\<not> snippet_space (hd ?rs)" using False by (rule hd_dropWhile)
    have ws: "rune_words rs = takeWhile (\<lambda>r. \<not> snippet_space r) ?rs # rune_words ?rest"
      by (rule rune_words_step [OF False])
    have r: "?rest \<noteq> [] \<and> snippet_space (hd ?rest)" if "rune_words ?rest \<noteq> []"
    proof -
      have "?rest \<noteq> []" using that rune_words_none [of "[]"] by (metis dropWhile.simps(1))
      then show ?thesis using hd_dropWhile [of "\<lambda>r. \<not> snippet_space r" ?rs] by blast
    qed
    show ?thesis
      using "1.IH" [OF refl False, of False True] r
      by (subst squeeze_spaces) (auto simp: squeeze_word [OF False h] ws unwords_Cons)
  qed
qed

lemma snippet_loop_take:
  "written \<le> limit \<Longrightarrow>
   snippet_loop limit pending written rs = take (limit - written) (squeeze pending (0 < written) rs)"
proof (induction limit pending written rs rule: snippet_loop.induct)
  case (2 limit pending written r rs)
  have "limit - written = Suc (limit - (written + 1))" if "written < limit"
    using that by simp
  moreover have "limit - (written + 1) = Suc (limit - (written + 2))" if "written + 1 < limit"
    using that by simp
  ultimately show ?case
    using 2 by (cases "written = limit"; cases "written + 1 = limit") auto
qed simp

lemma snippet_loop_words: "snippet_loop limit False 0 rs = take limit (unwords (rune_words rs))"
  by (simp add: snippet_loop_take squeeze_unwords Let_def)

lemma normalize_snippet_eq:
  "normalize_snippet source limit = encode_runes (take limit (unwords (rune_words (runes source))))"
  by (auto simp: normalize_snippet_def snippet_loop_words rune_words_none encode_runes_def)


section \<open>Properties\<close>

text \<open>
  The snippet of a source text is its words (maximal runs without space, tab, line feed,
  carriage return or form feed) joined by single spaces and cut after \<open>limit\<close> code points:
  the one-pass loop with its pending space and its counter computes the same as splitting,
  joining and cutting.
\<close>

theorem normalize_snippet_words:
  "normalize_snippet source limit =
     encode_runes (take limit (unwords (rune_words (runes source))))"
  by (rule normalize_snippet_eq)

lemma set_unwords: "set (unwords ws) \<subseteq> insert 32 (\<Union>w\<in>set ws. set w)"
  by (induction ws rule: unwords.induct) auto

lemma rune_words_runes: "w \<in> set (rune_words rs) \<Longrightarrow> set w \<subseteq> set rs"
proof (induction rs rule: rune_words.induct)
  case (1 rs)
  show ?case
  proof (cases "dropWhile snippet_space rs = []")
    case True
    then show ?thesis using "1.prems" by (simp only: rune_words_none) simp
  next
    case False
    then have "w = takeWhile (\<lambda>r. \<not> snippet_space r) (dropWhile snippet_space rs) \<or>
        set w \<subseteq> set (dropWhile (\<lambda>r. \<not> snippet_space r) (dropWhile snippet_space rs))"
      using "1.prems" "1.IH" [OF refl False] by (auto simp only: rune_words_step [OF False] list.set)
    then show ?thesis
      by (meson order_trans set_dropWhileD set_takeWhileD subsetI subset_iff)
  qed
qed

text \<open>
  A stored snippet is well-formed UTF-8 of at most 140 code points, with no whitespace
  but the space, whatever bytes the message's text or HTML contains.
\<close>

theorem message_snippet_bounded:
  "let s = runes (message_snippet text html)
   in length s \<le> 140 \<and> to_valid_utf8 (message_snippet text html) = message_snippet text html
      \<and> filter snippet_space s = filter (\<lambda>r. r = 32) s"
proof -
  obtain source where src: "message_snippet text html = normalize_snippet source 140"
    by (auto simp: message_snippet_def snippet_limit_def)
  let ?rs = "take 140 (unwords (rune_words (runes source)))"
  have sub: "set ?rs \<subseteq> insert 32 (\<Union>w\<in>set (rune_words (runes source)). set w)"
    by (rule order_trans [OF set_take_subset set_unwords])
  have valid: "\<forall>r\<in>set ?rs. valid_rune r"
    using sub rune_words_runes [of _ "runes source"] runes_valid [of _ source]
    by (fastforce simp: valid_rune_def [of 32])
  have "\<forall>r\<in>set ?rs. snippet_space r \<longrightarrow> r = 32"
    using sub rune_words_word [of _ "runes source"] by fastforce
  then have "filter snippet_space ?rs = filter (\<lambda>r. r = 32) ?rs"
    by (intro filter_cong) (auto simp: snippet_space_def)
  with valid show ?thesis
    by (simp add: src normalize_snippet_eq runes_encode_runes to_valid_encode_runes Let_def)
qed

end
