(* ===== verification/Store_Schema.thy ===== *)
theory Store_Schema
  imports Prelude Go_Strings Calendar Snippet Events "HOL-Library.Multiset"
begin

text \<open>
  \<open>internal/store/store.go\<close>, the schema: the four tables with their constraints and foreign
  keys, the SQL statements over them, and the schema invariant every statement keeps.

  A table is the list of its rows.  \<open>*_seq\<close> are the table's entries of
  \<open>sqlite_sequence\<close> (\<open>AUTOINCREMENT\<close>).  A \<open>*_json\<close> column holds the value its JSON text
  encodes; \<open>json.Marshal\<close> replaces ill-formed UTF-8, hence the \<open>json_*\<close> functions.
  SQLite itself is not part of the repository: what SQL leaves open (the order of rows without
  \<open>ORDER BY\<close>, the sequence number a conflicting upsert uses up) is the parameter
  \<open>engine\<close>.
\<close>

section \<open>Rows\<close>

record address_entry =
  ae_address :: bytes
  ae_name :: "bytes option"

record mailbox_row =
  mb_id :: int
  mb_address :: bytes
  mb_created_at :: int
  mb_last_message_at :: "int option"

record message_row =
  msg_id :: int
  msg_mailbox :: int
  msg_from_address :: "bytes option"
  msg_from_name :: "bytes option"
  msg_to :: "address_entry list"
  msg_cc :: "address_entry list"
  msg_subject :: "bytes option"
  msg_html :: "bytes option"
  msg_text :: "bytes option"
  msg_headers :: "(bytes \<times> bytes) list"
  msg_size :: int
  msg_is_read :: int
  msg_received_at :: int
  msg_ical :: "parsed_event list option"
  msg_raw :: bytes
  msg_snippet :: bytes

record attachment_row =
  att_id :: int
  att_message :: int
  att_filename :: "bytes option"
  att_content_type :: "bytes option"
  att_content_id :: "bytes option"
  att_size :: int
  att_content :: bytes

record calendar_row =
  cal_id :: int
  cal_mailbox :: int
  cal_uid :: bytes
  cal_sequence :: int
  cal_summary :: "bytes option"
  cal_description :: "bytes option"
  cal_location :: "bytes option"
  cal_status :: bytes
  cal_organizer_address :: "bytes option"
  cal_organizer_name :: "bytes option"
  cal_attendees :: "attendee list"
  cal_dtstart :: int
  cal_dtend :: "int option"
  cal_all_day :: int
  cal_last_message :: "int option"
  cal_updated_at :: int

record db =
  mailboxes :: "mailbox_row list"
  messages :: "message_row list"
  attachments :: "attachment_row list"
  calendar_events :: "calendar_row list"
  mailbox_seq :: int
  message_seq :: int
  attachment_seq :: int
  calendar_seq :: int

definition empty_db :: db where
  "empty_db = \<lparr>mailboxes = [], messages = [], attachments = [], calendar_events = [],
     mailbox_seq = 0, message_seq = 0, attachment_seq = 0, calendar_seq = 0\<rparr>"

text \<open>What the SQL of the store leaves to the engine.\<close>

record engine =
  conflict_seq :: "int \<Rightarrow> int"
  scan_ids :: "int list \<Rightarrow> int list"
  scan_mailboxes :: "mailbox_row list \<Rightarrow> mailbox_row list"
  scan_messages :: "message_row list \<Rightarrow> message_row list"
  scan_attachments :: "attachment_row list \<Rightarrow> attachment_row list"
  scan_calendar :: "calendar_row list \<Rightarrow> calendar_row list"

definition engine_ok :: "engine \<Rightarrow> bool" where
  "engine_ok E \<longleftrightarrow>
     (\<forall>s. s \<le> conflict_seq E s \<and> (s \<le> max_int64 \<longrightarrow> conflict_seq E s \<le> max_int64))
     \<and> (\<forall>xs. mset (scan_ids E xs) = mset xs)
     \<and> (\<forall>xs. mset (scan_mailboxes E xs) = mset xs)
     \<and> (\<forall>xs. mset (scan_messages E xs) = mset xs)
     \<and> (\<forall>xs. mset (scan_attachments E xs) = mset xs)
     \<and> (\<forall>xs. mset (scan_calendar E xs) = mset xs)"

definition rowid_engine :: engine where
  "rowid_engine = \<lparr>conflict_seq = id, scan_ids = id, scan_mailboxes = id, scan_messages = id,
     scan_attachments = id, scan_calendar = id\<rparr>"

lemma engine_conflict_seq:
  assumes "engine_ok E"
  shows "s \<le> conflict_seq E s" and "s \<le> max_int64 \<Longrightarrow> conflict_seq E s \<le> max_int64"
  using assms unfolding engine_ok_def by metis+

lemma rowid_engine_ok: "engine_ok rowid_engine"
  by (simp add: engine_ok_def rowid_engine_def)

section \<open>JSON columns\<close>

definition json_address :: "address_entry \<Rightarrow> address_entry" where
  "json_address a = \<lparr>ae_address = to_valid_utf8 (ae_address a),
     ae_name = map_option to_valid_utf8 (ae_name a)\<rparr>"

definition json_attendee :: "attendee \<Rightarrow> attendee" where
  "json_attendee a = \<lparr>at_address = to_valid_utf8 (at_address a),
     at_name = map_option to_valid_utf8 (at_name a),
     at_partstat = map_option to_valid_utf8 (at_partstat a),
     at_role = map_option to_valid_utf8 (at_role a)\<rparr>"

definition json_event :: "parsed_event \<Rightarrow> parsed_event" where
  "json_event e = \<lparr>pe_method = to_valid_utf8 (pe_method e), pe_uid = to_valid_utf8 (pe_uid e),
     pe_sequence = pe_sequence e, pe_summary = map_option to_valid_utf8 (pe_summary e),
     pe_description = map_option to_valid_utf8 (pe_description e),
     pe_location = map_option to_valid_utf8 (pe_location e),
     pe_status = map_option to_valid_utf8 (pe_status e),
     pe_organizer_address = map_option to_valid_utf8 (pe_organizer_address e),
     pe_organizer_name = map_option to_valid_utf8 (pe_organizer_name e),
     pe_attendees = map json_attendee (pe_attendees e),
     pe_dtstart = pe_dtstart e, pe_dtend = pe_dtend e, pe_all_day = pe_all_day e\<rparr>"

definition json_headers :: "(bytes \<times> bytes) list \<Rightarrow> (bytes \<times> bytes) list" where
  "json_headers hs = map (map_prod to_valid_utf8 to_valid_utf8) hs"

lemma json_attendee_idem [simp]: "json_attendee (json_attendee a) = json_attendee a"
  by (simp add: json_attendee_def option.map_comp comp_def)

section \<open>Identifiers\<close>

datatype store_err = Empty_Address | Canceled | Driver_Error | Constraint_Error | Full_Error

text \<open>\<open>AUTOINCREMENT\<close>: one more than every id the table has or had; a full table refuses.\<close>

definition new_id :: "int \<Rightarrow> int list \<Rightarrow> int option" where
  "new_id seq ids = (let k = max_list seq ids in if max_int64 \<le> k then None else Some (k + 1))"

lemma new_id_SomeD:
  assumes "new_id seq ids = Some i"
  shows "seq < i" "\<forall>k\<in>set ids. k < i" "i \<le> max_int64"
  using assms max_list_ge [of _ ids seq] max_list_floor [of seq ids]
  by (fastforce simp: new_id_def Let_def split: if_splits)+

lemma new_id_bounded: "\<forall>k\<in>set ids. k \<le> seq \<Longrightarrow> new_id seq ids = (if max_int64 \<le> seq then None else Some (seq + 1))"
  by (simp add: new_id_def max_list_bounded)

section \<open>Statements\<close>

type_synonym 'a stmt = "db \<Rightarrow> (store_err + 'a) \<times> db"

definition q_mailbox_id :: "bytes \<Rightarrow> int option stmt" where
  "q_mailbox_id address d =
     (Inr (map_option mb_id (find (\<lambda>m. mb_address m = address) (mailboxes d))), d)"

definition insert_mailbox :: "bytes \<Rightarrow> int \<Rightarrow> int option \<Rightarrow> int stmt" where
  "insert_mailbox address created latest d =
     (if address \<in> set (map mb_address (mailboxes d)) then (Inl Constraint_Error, d)
      else case new_id (mailbox_seq d) (map mb_id (mailboxes d)) of
        None \<Rightarrow> (Inl Full_Error, d)
      | Some i \<Rightarrow> (Inr i, d\<lparr>mailboxes := mailboxes d @ [\<lparr>mb_id = i, mb_address = address,
            mb_created_at = created, mb_last_message_at = latest\<rparr>], mailbox_seq := i\<rparr>))"

definition later :: "int option \<Rightarrow> int \<Rightarrow> int option" where
  "later prev now = (case prev of None \<Rightarrow> Some now | Some t \<Rightarrow> if now \<le> t then Some t else Some now)"

definition touch_mailbox :: "bytes \<Rightarrow> int \<Rightarrow> mailbox_row \<Rightarrow> mailbox_row" where
  "touch_mailbox address now m =
     (if mb_address m = address then m\<lparr>mb_last_message_at := later (mb_last_message_at m) now\<rparr> else m)"

text \<open>\<open>INSERT ... ON CONFLICT(address) DO UPDATE ... RETURNING id\<close>.\<close>

definition upsert_mailbox :: "engine \<Rightarrow> bytes \<Rightarrow> int \<Rightarrow> int stmt" where
  "upsert_mailbox E address now d =
     (case find (\<lambda>m. mb_address m = address) (mailboxes d) of
        Some m \<Rightarrow> (Inr (mb_id m), d\<lparr>mailboxes := map (touch_mailbox address now) (mailboxes d),
                      mailbox_seq := conflict_seq E (mailbox_seq d)\<rparr>)
      | None \<Rightarrow> insert_mailbox address now (Some now) d)"

definition insert_message :: "message_row \<Rightarrow> int stmt" where
  "insert_message row d =
     (if msg_mailbox row \<notin> set (map mb_id (mailboxes d)) then (Inl Constraint_Error, d)
      else case new_id (message_seq d) (map msg_id (messages d)) of
        None \<Rightarrow> (Inl Full_Error, d)
      | Some i \<Rightarrow> (Inr i, d\<lparr>messages := messages d @ [row\<lparr>msg_id := i\<rparr>], message_seq := i\<rparr>))"

definition insert_attachment :: "attachment_row \<Rightarrow> unit stmt" where
  "insert_attachment row d =
     (if att_message row \<notin> set (map msg_id (messages d)) then (Inl Constraint_Error, d)
      else case new_id (attachment_seq d) (map att_id (attachments d)) of
        None \<Rightarrow> (Inl Full_Error, d)
      | Some i \<Rightarrow> (Inr (), d\<lparr>attachments := attachments d @ [row\<lparr>att_id := i\<rparr>], attachment_seq := i\<rparr>))"

definition cal_key :: "calendar_row \<Rightarrow> int \<times> bytes" where
  "cal_key r = (cal_mailbox r, cal_uid r)"

definition q_calendar :: "int \<Rightarrow> bytes \<Rightarrow> calendar_row option stmt" where
  "q_calendar mb uid d = (Inr (find (\<lambda>r. cal_key r = (mb, uid)) (calendar_events d)), d)"

definition insert_calendar_row :: "calendar_row \<Rightarrow> unit stmt" where
  "insert_calendar_row row d =
     (if cal_mailbox row \<notin> set (map mb_id (mailboxes d)) \<or> cal_key row \<in> set (map cal_key (calendar_events d))
      then (Inl Constraint_Error, d)
      else case new_id (calendar_seq d) (map cal_id (calendar_events d)) of
        None \<Rightarrow> (Inl Full_Error, d)
      | Some i \<Rightarrow> (Inr (), d\<lparr>calendar_events := calendar_events d @ [row\<lparr>cal_id := i\<rparr>], calendar_seq := i\<rparr>))"

definition update_calendar :: "int \<Rightarrow> (calendar_row \<Rightarrow> calendar_row) \<Rightarrow> unit stmt" where
  "update_calendar i f d =
     (Inr (), d\<lparr>calendar_events := map (\<lambda>r. if cal_id r = i then f r else r) (calendar_events d)\<rparr>)"

text \<open>\<open>UPDATE messages SET is_read = ... WHERE ...\<close>; the result is the number of rows it changed.\<close>

definition update_is_read :: "(message_row \<Rightarrow> bool) \<Rightarrow> int \<Rightarrow> nat stmt" where
  "update_is_read P value d =
     (Inr (length (filter P (messages d))),
      d\<lparr>messages := map (\<lambda>m. if P m then m\<lparr>msg_is_read := value\<rparr> else m) (messages d)\<rparr>)"

text \<open>\<open>ON DELETE CASCADE\<close>.\<close>

definition delete_messages_where :: "(message_row \<Rightarrow> bool) \<Rightarrow> db \<Rightarrow> db" where
  "delete_messages_where P d =
     (let gone = set (map msg_id (filter P (messages d)))
      in d\<lparr>messages := filter (\<lambda>m. \<not> P m) (messages d),
           attachments := filter (\<lambda>a. att_message a \<notin> gone) (attachments d)\<rparr>)"

definition delete_mailboxes_where :: "(mailbox_row \<Rightarrow> bool) \<Rightarrow> db \<Rightarrow> db" where
  "delete_mailboxes_where P d =
     (let gone = set (map mb_id (filter P (mailboxes d)));
          d' = delete_messages_where (\<lambda>m. msg_mailbox m \<in> gone) d
      in d'\<lparr>mailboxes := filter (\<lambda>m. \<not> P m) (mailboxes d),
            calendar_events := filter (\<lambda>r. cal_mailbox r \<notin> gone) (calendar_events d)\<rparr>)"

definition delete_messages :: "int list \<Rightarrow> unit stmt" where
  "delete_messages ids d = (Inr (), delete_messages_where (\<lambda>m. msg_id m \<in> set ids) d)"

definition delete_mailbox_row :: "int \<Rightarrow> nat stmt" where
  "delete_mailbox_row i d =
     (Inr (length (filter (\<lambda>m. mb_id m = i) (mailboxes d))), delete_mailboxes_where (\<lambda>m. mb_id m = i) d)"

text \<open>\<open>SELECT DISTINCT mailbox_id FROM messages WHERE id IN (...)\<close>.\<close>

definition q_affected :: "engine \<Rightarrow> int list \<Rightarrow> int list stmt" where
  "q_affected E ids d =
     (Inr (scan_ids E (dedup_first {} (map msg_mailbox (filter (\<lambda>m. msg_id m \<in> set ids) (messages d))))), d)"

section \<open>The schema invariant\<close>

definition ids_ok :: "int \<Rightarrow> int list \<Rightarrow> bool" where
  "ids_ok seq ids \<longleftrightarrow> distinct ids \<and> (\<forall>i\<in>set ids. 0 < i \<and> i \<le> seq) \<and> 0 \<le> seq \<and> seq \<le> max_int64"

text \<open>Primary keys, uniqueness constraints, foreign keys and the range of \<open>is_read\<close>.\<close>

definition db_ok :: "db \<Rightarrow> bool" where
  "db_ok d \<longleftrightarrow>
     ids_ok (mailbox_seq d) (map mb_id (mailboxes d))
     \<and> ids_ok (message_seq d) (map msg_id (messages d))
     \<and> ids_ok (attachment_seq d) (map att_id (attachments d))
     \<and> ids_ok (calendar_seq d) (map cal_id (calendar_events d))
     \<and> distinct (map mb_address (mailboxes d)) \<and> [] \<notin> set (map mb_address (mailboxes d))
     \<and> distinct (map cal_key (calendar_events d))
     \<and> (\<forall>m\<in>set (messages d). msg_mailbox m \<in> set (map mb_id (mailboxes d)) \<and> msg_is_read m \<in> {0, 1})
     \<and> (\<forall>a\<in>set (attachments d). att_message a \<in> set (map msg_id (messages d)))
     \<and> (\<forall>r\<in>set (calendar_events d). cal_mailbox r \<in> set (map mb_id (mailboxes d)))"

lemma db_ok_empty [simp]: "db_ok empty_db"
  by (simp add: db_ok_def empty_db_def ids_ok_def max_int64_def)

lemma ids_ok_snoc:
  assumes "ids_ok seq ids" and "new_id seq ids = Some i"
  shows "ids_ok i (ids @ [i])"
  using assms new_id_SomeD [OF assms(2)] by (fastforce simp: ids_ok_def)

lemma ids_ok_filter: "ids_ok seq (map f xs) \<Longrightarrow> ids_ok seq (map f (filter P xs))"
  by (auto simp: ids_ok_def distinct_map_filter)

lemma ids_ok_weaken: "ids_ok seq ids \<Longrightarrow> seq \<le> seq' \<Longrightarrow> seq' \<le> max_int64 \<Longrightarrow> ids_ok seq' ids"
  by (fastforce simp: ids_ok_def)

lemma find_mailbox_SomeD: "find (\<lambda>m. mb_address m = a) xs = Some m \<Longrightarrow> m \<in> set xs \<and> mb_address m = a"
  by (auto simp: find_Some_iff)

lemma find_mailbox_None_iff:
  "find (\<lambda>m. mb_address m = a) xs = None \<longleftrightarrow> a \<notin> set (map mb_address xs)"
  by (auto simp: find_None_iff)

lemma insert_mailbox_ok:
  assumes "db_ok d" and "a \<noteq> []" and "insert_mailbox a c l d = (Inr i, d')"
  shows "db_ok d'"
proof -
  from assms(3) have new: "a \<notin> set (map mb_address (mailboxes d))"
      and i: "new_id (mailbox_seq d) (map mb_id (mailboxes d)) = Some i"
      and d': "d' = d\<lparr>mailboxes := mailboxes d @ [\<lparr>mb_id = i, mb_address = a, mb_created_at = c,
        mb_last_message_at = l\<rparr>], mailbox_seq := i\<rparr>"
    by (simp_all add: insert_mailbox_def split: if_splits option.splits)
  have "ids_ok i (map mb_id (mailboxes d) @ [i])"
    using assms(1) by (intro ids_ok_snoc [OF _ i]) (simp add: db_ok_def)
  then show ?thesis
    using assms(1,2) new by (simp add: db_ok_def d')
qed

lemma map_touch_mailbox [simp]:
  "map mb_id (map (touch_mailbox a now) xs) = map mb_id xs"
  "map mb_address (map (touch_mailbox a now) xs) = map mb_address xs"
  "map mb_created_at (map (touch_mailbox a now) xs) = map mb_created_at xs"
  by (simp_all add: touch_mailbox_def)

lemma upsert_mailbox_ok:
  assumes "engine_ok E" and "db_ok d" and "a \<noteq> []" and "upsert_mailbox E a now d = (Inr i, d')"
  shows "db_ok d'"
proof (cases "find (\<lambda>m. mb_address m = a) (mailboxes d)")
  case None
  with assms show ?thesis by (simp add: upsert_mailbox_def insert_mailbox_ok)
next
  case (Some m)
  have "ids_ok (conflict_seq E (mailbox_seq d)) (map mb_id (mailboxes d))"
  proof (rule ids_ok_weaken)
    show "ids_ok (mailbox_seq d) (map mb_id (mailboxes d))"
      using assms(2) by (simp add: db_ok_def)
    then show "conflict_seq E (mailbox_seq d) \<le> max_int64"
      by (intro engine_conflict_seq(2) [OF assms(1)]) (simp add: ids_ok_def)
  qed (rule engine_conflict_seq(1) [OF assms(1)])
  moreover have "d' = d\<lparr>mailboxes := map (touch_mailbox a now) (mailboxes d),
      mailbox_seq := conflict_seq E (mailbox_seq d)\<rparr>"
    using assms(4) Some by (simp add: upsert_mailbox_def)
  ultimately show ?thesis
    using assms(2) by (simp add: db_ok_def del: map_map set_map)
qed

lemma insert_message_ok:
  assumes "db_ok d" and "msg_is_read row \<in> {0, 1}" and "insert_message row d = (Inr i, d')"
  shows "db_ok d'"
proof -
  from assms(3) have fk: "msg_mailbox row \<in> set (map mb_id (mailboxes d))"
      and i: "new_id (message_seq d) (map msg_id (messages d)) = Some i"
      and d': "d' = d\<lparr>messages := messages d @ [row\<lparr>msg_id := i\<rparr>], message_seq := i\<rparr>"
    by (simp_all add: insert_message_def split: if_splits option.splits)
  have "ids_ok i (map msg_id (messages d) @ [i])"
    using assms(1) by (intro ids_ok_snoc [OF _ i]) (simp add: db_ok_def)
  then show ?thesis
    using assms(1,2) fk by (simp add: db_ok_def d')
qed

lemma insert_attachment_ok:
  assumes "db_ok d" and "insert_attachment row d = (Inr i, d')"
  shows "db_ok d'"
proof -
  from assms(2) obtain k where fk: "att_message row \<in> set (map msg_id (messages d))"
      and k: "new_id (attachment_seq d) (map att_id (attachments d)) = Some k"
      and d': "d' = d\<lparr>attachments := attachments d @ [row\<lparr>att_id := k\<rparr>], attachment_seq := k\<rparr>"
    by (simp add: insert_attachment_def split: if_splits option.splits)
  have "ids_ok k (map att_id (attachments d) @ [k])"
    using assms(1) by (intro ids_ok_snoc [OF _ k]) (simp add: db_ok_def)
  then show ?thesis
    using assms(1) fk by (simp add: db_ok_def d')
qed

lemma insert_calendar_row_ok:
  assumes "db_ok d" and "insert_calendar_row row d = (Inr i, d')"
  shows "db_ok d'"
proof -
  from assms(2) obtain k where fk: "cal_mailbox row \<in> set (map mb_id (mailboxes d))"
      and new: "cal_key row \<notin> set (map cal_key (calendar_events d))"
      and k: "new_id (calendar_seq d) (map cal_id (calendar_events d)) = Some k"
      and d': "d' = d\<lparr>calendar_events := calendar_events d @ [row\<lparr>cal_id := k\<rparr>], calendar_seq := k\<rparr>"
    by (simp add: insert_calendar_row_def split: if_splits option.splits)
  have "ids_ok k (map cal_id (calendar_events d) @ [k])"
    using assms(1) by (intro ids_ok_snoc [OF _ k]) (simp add: db_ok_def)
  moreover have "cal_key (row\<lparr>cal_id := k\<rparr>) = cal_key row" by (simp add: cal_key_def)
  ultimately show ?thesis
    using assms(1) fk new by (simp add: db_ok_def d')
qed

lemma update_calendar_ok:
  assumes "db_ok d" and "\<And>r. cal_id (f r) = cal_id r" and "\<And>r. cal_key (f r) = cal_key r"
    and "update_calendar i f d = (Inr x, d')"
  shows "db_ok d'"
proof -
  have d': "calendar_events d' = map (\<lambda>r. if cal_id r = i then f r else r) (calendar_events d)"
      "d' = d\<lparr>calendar_events := calendar_events d'\<rparr>"
    using assms(4) by (auto simp: update_calendar_def)
  have "map cal_id (calendar_events d') = map cal_id (calendar_events d)"
    using assms(2) by (auto simp: d'(1))
  moreover have "map cal_key (calendar_events d') = map cal_key (calendar_events d)"
    using assms(3) by (auto simp: d'(1))
  moreover have "cal_mailbox (f r) = cal_mailbox r" for r
    using assms(3) [of r] by (simp add: cal_key_def)
  ultimately show ?thesis
    using assms(1) by (subst d'(2)) (auto simp: db_ok_def d'(1) simp del: map_map)
qed

lemma update_is_read_ok:
  assumes "db_ok d" and "v \<in> {0, 1}" and "update_is_read P v d = (Inr n, d')"
  shows "db_ok d'"
proof -
  let ?ms = "map (\<lambda>m. if P m then m\<lparr>msg_is_read := v\<rparr> else m) (messages d)"
  have "map msg_id ?ms = map msg_id (messages d)" by auto
  moreover have "d' = d\<lparr>messages := ?ms\<rparr>" using assms(3) by (simp add: update_is_read_def)
  ultimately show ?thesis
    using assms(1,2) by (auto simp: db_ok_def simp del: map_map)
qed

lemma kept_reference:
  "k \<in> f ` set xs \<Longrightarrow> k \<notin> f ` {x \<in> set xs. P x} \<Longrightarrow> k \<in> f ` {x \<in> set xs. \<not> P x}"
  by blast

lemma delete_messages_where_ok: "db_ok d \<Longrightarrow> db_ok (delete_messages_where P d)"
  by (auto simp: db_ok_def delete_messages_where_def Let_def ids_ok_filter intro!: kept_reference)

lemma delete_mailboxes_where_ok: "db_ok d \<Longrightarrow> db_ok (delete_mailboxes_where P d)"
  by (auto simp: db_ok_def delete_mailboxes_where_def delete_messages_where_def Let_def
      ids_ok_filter distinct_map_filter intro!: kept_reference)

end
