(* ===== verification/Store_Tx.thy ===== *)
theory Store_Tx
  imports Store_Schema
begin

text \<open>
  Transactions of \<open>database/sql\<close> over the schema, with injected faults.  A computation takes the
  database and a schedule of faults, one entry per call that can fail (a statement, \<open>BEGIN\<close>,
  \<open>COMMIT\<close>, the acquisition of \<open>pop3Mu\<close> under a context): \<open>True\<close> makes that call fail, the empty
  schedule lets every further call succeed.  \<open>in_tx\<close> is the pattern of every transaction of the
  store, \<open>BeginTx; defer tx.Rollback(); ...; tx.Commit()\<close>: an error return and a return before the
  commit both leave the database as it was.

  \<open>valid P m Q\<close> is partial correctness of the successful runs, \<open>fault_free m\<close>-style lemmas of the
  components give the runs without faults.
\<close>

type_synonym faults = "bool list"
type_synonym 'a tx = "db \<Rightarrow> faults \<Rightarrow> (store_err + 'a) \<times> db \<times> faults"

definition faulty :: "faults \<Rightarrow> bool" where
  "faulty fs \<longleftrightarrow> fs \<noteq> [] \<and> hd fs"

definition stmt :: "(db \<Rightarrow> (store_err + 'a) \<times> db) \<Rightarrow> 'a tx" where
  "stmt f d fs = (if faulty fs then (Inl Driver_Error, d, tl fs) else (fst (f d), snd (f d), tl fs))"

definition return_tx :: "'a \<Rightarrow> 'a tx" where
  "return_tx x d fs = (Inr x, d, fs)"

definition bind_tx :: "'a tx \<Rightarrow> ('a \<Rightarrow> 'b tx) \<Rightarrow> 'b tx" where
  "bind_tx m k d fs =
     (case m d fs of
        (Inl e, d', fs') \<Rightarrow> (Inl e, d', fs')
      | (Inr x, d', fs') \<Rightarrow> k x d' fs')"

text \<open>\<open>result.LastInsertId()\<close> and \<open>result.RowsAffected()\<close>: driver calls that may fail.\<close>

definition driver_value :: "'a \<Rightarrow> 'a tx" where
  "driver_value x = stmt (\<lambda>d. (Inr x, d))"

text \<open>How a transaction body ends when it does not fail: before the commit, or with it.\<close>

datatype 'a ending = Roll_Back 'a | Commit 'a

definition in_tx :: "'a ending tx \<Rightarrow> 'a tx" where
  "in_tx body d fs =
     (if faulty fs then (Inl Driver_Error, d, tl fs)
      else case body d (tl fs) of
        (Inl e, d', fs') \<Rightarrow> (Inl e, d, fs')
      | (Inr (Roll_Back x), d', fs') \<Rightarrow> (Inr x, d, fs')
      | (Inr (Commit x), d', fs') \<Rightarrow>
          if faulty fs' then (Inl Driver_Error, d, tl fs') else (Inr x, d', tl fs'))"

lemma faulty_simps [simp]: "\<not> faulty []" "faulty (b # fs) \<longleftrightarrow> b"
  by (simp_all add: faulty_def)

lemma bind_stmt:
  "bind_tx (stmt f) k d fs =
     (if faulty fs then (Inl Driver_Error, d, tl fs)
      else case fst (f d) of Inl e \<Rightarrow> (Inl e, snd (f d), tl fs) | Inr x \<Rightarrow> k x (snd (f d)) (tl fs))"
  by (simp add: bind_tx_def stmt_def split: sum.split)

lemma driver_value_run:
  "driver_value x d fs = (if faulty fs then (Inl Driver_Error, d, tl fs) else (Inr x, d, tl fs))"
  by (simp add: driver_value_def stmt_def)

section \<open>Successful runs\<close>

lemma stmt_InrE:
  assumes "stmt f d fs = (Inr x, d', fs')"
  obtains "f d = (Inr x, d')" "fs' = tl fs"
  using assms by (auto simp: stmt_def prod_eq_iff split: if_splits)

lemma bind_tx_InrE:
  assumes "bind_tx m k d fs = (Inr y, d', fs')"
  obtains x d1 fs1 where "m d fs = (Inr x, d1, fs1)" "k x d1 fs1 = (Inr y, d', fs')"
  using assms by (auto simp: bind_tx_def split: prod.splits sum.splits)

lemma return_tx_InrE:
  assumes "return_tx x d fs = (Inr y, d', fs')"
  obtains "y = x" "d' = d" "fs' = fs"
  using assms by (auto simp: return_tx_def)

lemma driver_value_InrE:
  assumes "driver_value x d fs = (Inr y, d', fs')"
  obtains "y = x" "d' = d"
  using assms by (auto simp: driver_value_def elim: stmt_InrE)

lemma in_tx_Inl: "in_tx body d fs = (Inl e, d', fs') \<Longrightarrow> d' = d"
  by (auto simp: in_tx_def split: if_splits prod.splits sum.splits ending.splits)

lemma in_tx_Inr:
  assumes "in_tx body d fs = (Inr x, d', fs')"
  shows "(\<exists>d1. body d (tl fs) = (Inr (Roll_Back x), d1, fs') \<and> d' = d)
       \<or> (\<exists>fs1. body d (tl fs) = (Inr (Commit x), d', fs1))"
  using assms by (auto simp: in_tx_def split: if_splits prod.splits sum.splits ending.splits)

text \<open>
  \<open>valid P m Q\<close>: run in a database satisfying \<open>P\<close>, \<open>m\<close> never violates a constraint of the schema
  and, if it succeeds, \<open>Q\<close> holds of its result and of the database.
\<close>

definition valid :: "(db \<Rightarrow> bool) \<Rightarrow> 'a tx \<Rightarrow> ('a \<Rightarrow> db \<Rightarrow> bool) \<Rightarrow> bool" where
  "valid P m Q \<longleftrightarrow>
     (\<forall>d fs r d' fs'. P d \<longrightarrow> m d fs = (r, d', fs') \<longrightarrow>
        (case r of Inl e \<Rightarrow> e \<noteq> Constraint_Error | Inr x \<Rightarrow> Q x d'))"

lemma validI:
  assumes "\<And>d fs x d' fs'. P d \<Longrightarrow> m d fs = (Inr x, d', fs') \<Longrightarrow> Q x d'"
    and "\<And>d fs d' fs'. P d \<Longrightarrow> m d fs \<noteq> (Inl Constraint_Error, d', fs')"
  shows "valid P m Q"
  using assms by (auto simp: valid_def split: sum.split)

lemma validD: "valid P m Q \<Longrightarrow> m d fs = (Inr x, d', fs') \<Longrightarrow> P d \<Longrightarrow> Q x d'"
  unfolding valid_def by fastforce

lemma valid_noD: "valid P m Q \<Longrightarrow> P d \<Longrightarrow> m d fs \<noteq> (Inl Constraint_Error, d', fs')"
  unfolding valid_def by fastforce

lemma valid_stmt:
  assumes "\<And>d x d'. P d \<Longrightarrow> f d = (Inr x, d') \<Longrightarrow> Q x d'"
    and "\<And>d. P d \<Longrightarrow> fst (f d) \<noteq> Inl Constraint_Error"
  shows "valid P (stmt f) Q"
  using assms by (auto intro!: validI elim!: stmt_InrE simp: stmt_def split: if_splits)

lemma valid_query: "(\<And>d. P d \<Longrightarrow> Q (f d) d) \<Longrightarrow> valid P (stmt (\<lambda>d. (Inr (f d), d))) Q"
  by (rule valid_stmt) auto

lemma valid_return: "(\<And>d. P d \<Longrightarrow> Q x d) \<Longrightarrow> valid P (return_tx x) Q"
  by (rule validI) (auto simp: return_tx_def)

lemma valid_driver_value: "(\<And>d. P d \<Longrightarrow> Q x d) \<Longrightarrow> valid P (driver_value x) Q"
  unfolding driver_value_def by (rule valid_query)

lemma valid_bind: "valid P m R \<Longrightarrow> (\<And>x. valid (R x) (k x) Q) \<Longrightarrow> valid P (bind_tx m k) Q"
proof (rule validI)
  fix d fs x d' fs'
  assume "valid P m R" "\<And>x. valid (R x) (k x) Q" "P d" "bind_tx m k d fs = (Inr x, d', fs')"
  then show "Q x d'" by (blast elim: bind_tx_InrE dest: validD)
next
  fix d fs d' fs'
  assume v: "valid P m R" "\<And>x. valid (R x) (k x) Q" and "P d"
  then show "bind_tx m k d fs \<noteq> (Inl Constraint_Error, d', fs')"
    using valid_noD [OF v(1) \<open>P d\<close>] validD [OF v(1) _ \<open>P d\<close>] valid_noD [OF v(2)]
    by (fastforce simp: bind_tx_def split: prod.splits sum.splits)
qed

lemma valid_weaken:
  assumes "valid P m Q" and "\<And>d. P' d \<Longrightarrow> P d" and "\<And>x d. Q x d \<Longrightarrow> Q' x d"
  shows "valid P' m Q'"
  using assms validD [OF assms(1)] valid_noD [OF assms(1)] by (auto intro!: validI)

lemma valid_if: "(b \<Longrightarrow> valid P m Q) \<Longrightarrow> (\<not> b \<Longrightarrow> valid P m' Q) \<Longrightarrow> valid P (if b then m else m') Q"
  by simp

lemma valid_guard: "(P' \<Longrightarrow> valid P m Q) \<Longrightarrow> valid (\<lambda>d. P' \<and> P d) m Q"
  unfolding valid_def by blast

lemma in_tx_no_constraint:
  assumes "valid I body Q" and "I d"
  shows "fst (in_tx body d fs) \<noteq> Inl Constraint_Error"
proof -
  obtain r d' fs' where "body d (tl fs) = (r, d', fs')" by (metis prod_cases3)
  then show ?thesis
    using valid_noD [OF assms, of "tl fs" d' fs'] by (auto simp: in_tx_def split: sum.splits ending.splits)
qed

section \<open>What a computation keeps\<close>

text \<open>\<open>keeps I m\<close>: a successful run of \<open>m\<close> keeps \<open>I\<close>; unlike \<open>valid\<close> it says nothing of errors.\<close>

definition keeps :: "(db \<Rightarrow> bool) \<Rightarrow> 'a tx \<Rightarrow> bool" where
  "keeps I m \<longleftrightarrow> (\<forall>d fs x d' fs'. I d \<longrightarrow> m d fs = (Inr x, d', fs') \<longrightarrow> I d')"

lemma keepsD: "keeps I m \<Longrightarrow> m d fs = (Inr x, d', fs') \<Longrightarrow> I d \<Longrightarrow> I d'"
  unfolding keeps_def by blast

lemma keeps_stmt: "(\<And>d x d'. I d \<Longrightarrow> f d = (Inr x, d') \<Longrightarrow> I d') \<Longrightarrow> keeps I (stmt f)"
  unfolding keeps_def by (blast elim: stmt_InrE)

lemma keeps_return: "keeps I (return_tx x)"
  unfolding keeps_def by (blast elim: return_tx_InrE)

lemma keeps_driver_value: "keeps I (driver_value x)"
  unfolding keeps_def by (blast elim: driver_value_InrE)

lemma keeps_bind: "keeps I m \<Longrightarrow> (\<And>x. keeps I (k x)) \<Longrightarrow> keeps I (bind_tx m k)"
  unfolding keeps_def by (blast elim: bind_tx_InrE)

lemma keeps_if: "keeps I m \<Longrightarrow> keeps I m' \<Longrightarrow> keeps I (if b then m else m')"
  by simp

lemma keeps_option: "keeps I m \<Longrightarrow> (\<And>x. keeps I (k x)) \<Longrightarrow> keeps I (case r of None \<Rightarrow> m | Some x \<Rightarrow> k x)"
  by (cases r) simp_all

lemma keeps_pair: "(\<And>x y. keeps I (k x y)) \<Longrightarrow> keeps I (case p of (x, y) \<Rightarrow> k x y)"
  by (cases p) simp

lemmas keeps_rules = keeps_return keeps_driver_value keeps_bind keeps_if keeps_option keeps_pair

text \<open>The transaction invariant rule: a transaction whose body keeps \<open>I\<close> keeps \<open>I\<close>, whatever happens.\<close>

lemma keeps_in_tx:
  assumes "keeps I body" and "I d"
  shows "I (fst (snd (in_tx body d fs)))"
proof -
  obtain r d' fs' where eq: "in_tx body d fs = (r, d', fs')" by (metis prod_cases3)
  show ?thesis
  proof (cases r)
    case (Inl e)
    then show ?thesis using eq in_tx_Inl assms(2) by fastforce
  next
    case (Inr x)
    then have "in_tx body d fs = (Inr x, d', fs')" using eq by simp
    from in_tx_Inr [OF this] have "I d'" using assms(2) keepsD [OF assms(1)] by blast
    then show ?thesis by (simp add: eq)
  qed
qed

lemma valid_keeps: "valid I m (\<lambda>_. I) \<Longrightarrow> keeps I m"
  unfolding keeps_def by (blast dest: validD)

section \<open>Runs without faults\<close>

lemma stmt_nofault [simp]: "stmt f d [] = (fst (f d), snd (f d), [])"
  by (simp add: stmt_def)

lemma return_tx_simp [simp]: "return_tx x d fs = (Inr x, d, fs)"
  by (simp add: return_tx_def)

lemma driver_value_nofault [simp]: "driver_value x d [] = (Inr x, d, [])"
  by (simp add: driver_value_def)

lemma bind_tx_Inr: "m d fs = (Inr x, d', fs') \<Longrightarrow> bind_tx m k d fs = k x d' fs'"
  by (simp add: bind_tx_def)

lemma in_tx_commit: "body d [] = (Inr (Commit x), d', []) \<Longrightarrow> in_tx body d [] = (Inr x, d', [])"
  by (simp add: in_tx_def)

end
