(* ===== verification/Store_Calendar.thy ===== *)
theory Store_Calendar
  imports Store_Tx
begin

text \<open>
  \<open>internal/store/operations.go\<close>, \<open>applyCalendarEvents\<close>: reconciling the events of a received
  calendar with the rows of the mailbox, inside the transaction that stores the message.
  The specification \<open>reconcile\<close> says what one event does to the entry of its uid; the
  statements refine it.
\<close>

section \<open>The code\<close>

definition bool_int :: "bool \<Rightarrow> int" where
  "bool_int b = (if b then 1 else 0)"

definition calendar_row_of :: "int \<Rightarrow> int \<Rightarrow> int \<Rightarrow> bytes \<Rightarrow> parsed_event \<Rightarrow> calendar_row" where
  "calendar_row_of mb mid now status e =
     \<lparr>cal_id = 0, cal_mailbox = mb, cal_uid = pe_uid e, cal_sequence = pe_sequence e,
      cal_summary = pe_summary e, cal_description = pe_description e, cal_location = pe_location e,
      cal_status = status, cal_organizer_address = pe_organizer_address e,
      cal_organizer_name = pe_organizer_name e, cal_attendees = map json_attendee (pe_attendees e),
      cal_dtstart = pe_dtstart e, cal_dtend = pe_dtend e, cal_all_day = bool_int (pe_all_day e),
      cal_last_message = Some mid, cal_updated_at = now\<rparr>"

definition insert_calendar_event :: "int \<Rightarrow> int \<Rightarrow> int \<Rightarrow> bytes \<Rightarrow> parsed_event \<Rightarrow> unit tx" where
  "insert_calendar_event mb mid now status e = stmt (insert_calendar_row (calendar_row_of mb mid now status e))"

definition stamp :: "int \<Rightarrow> int \<Rightarrow> calendar_row \<Rightarrow> calendar_row" where
  "stamp mid now r = r\<lparr>cal_last_message := Some mid, cal_updated_at := now\<rparr>"

definition cancel_row :: "int \<Rightarrow> int \<Rightarrow> parsed_event \<Rightarrow> calendar_row \<Rightarrow> calendar_row" where
  "cancel_row mid now e r =
     stamp mid now (r\<lparr>cal_status := ''CANCELLED'', cal_sequence := max (cal_sequence r) (pe_sequence e)\<rparr>)"

definition revise_row :: "int \<Rightarrow> int \<Rightarrow> bytes \<Rightarrow> parsed_event \<Rightarrow> calendar_row \<Rightarrow> calendar_row" where
  "revise_row mid now status e r =
     stamp mid now (r\<lparr>cal_sequence := pe_sequence e, cal_summary := pe_summary e,
       cal_description := pe_description e, cal_location := pe_location e, cal_status := status,
       cal_organizer_address := pe_organizer_address e, cal_organizer_name := pe_organizer_name e,
       cal_attendees := map json_attendee (pe_attendees e), cal_dtstart := pe_dtstart e,
       cal_dtend := pe_dtend e, cal_all_day := bool_int (pe_all_day e)\<rparr>)"

text \<open>The inner loop of a reply: the first attendee with the address, or a new one at the end.\<close>

fun merge_reply :: "unicode \<Rightarrow> attendee \<Rightarrow> attendee list \<Rightarrow> attendee list" where
  "merge_reply u reply [] = [reply]"
| "merge_reply u reply (a # attendees) =
     (if equal_fold u (at_address a) (at_address reply)
      then a\<lparr>at_partstat := at_partstat reply\<rparr> # attendees
      else a # merge_reply u reply attendees)"

definition merge_replies :: "unicode \<Rightarrow> attendee list \<Rightarrow> attendee list \<Rightarrow> attendee list" where
  "merge_replies u replies attendees = fold (merge_reply u) replies attendees"

definition set_attendees :: "int \<Rightarrow> int \<Rightarrow> attendee list \<Rightarrow> calendar_row \<Rightarrow> calendar_row" where
  "set_attendees mid now attendees r = stamp mid now (r\<lparr>cal_attendees := map json_attendee attendees\<rparr>)"

definition event_status :: "parsed_event \<Rightarrow> bytes" where
  "event_status e =
     (case pe_status e of Some s \<Rightarrow> if s \<noteq> [] then s else ''CONFIRMED'' | None \<Rightarrow> ''CONFIRMED'')"

definition apply_calendar_event :: "unicode \<Rightarrow> int \<Rightarrow> int \<Rightarrow> int \<Rightarrow> parsed_event \<Rightarrow> unit tx" where
  "apply_calendar_event u mb mid now e =
     bind_tx (stmt (q_calendar mb (pe_uid e))) (\<lambda>row.
       if pe_method e = method_cancel then
         (case row of
            Some r \<Rightarrow> stmt (update_calendar (cal_id r) (cancel_row mid now e))
          | None \<Rightarrow> insert_calendar_event mb mid now ''CANCELLED'' e)
       else if pe_method e = method_reply then
         (case row of
            Some r \<Rightarrow>
              if pe_attendees e \<noteq> []
              then stmt (update_calendar (cal_id r)
                     (set_attendees mid now (merge_replies u (pe_attendees e) (cal_attendees r))))
              else return_tx ()
          | None \<Rightarrow> return_tx ())
       else
         (case row of
            Some r \<Rightarrow>
              if cal_sequence r \<le> pe_sequence e
              then stmt (update_calendar (cal_id r) (revise_row mid now (event_status e) e))
              else return_tx ()
          | None \<Rightarrow> insert_calendar_event mb mid now (event_status e) e))"

fun apply_calendar_events :: "unicode \<Rightarrow> int \<Rightarrow> int \<Rightarrow> int \<Rightarrow> parsed_event list \<Rightarrow> unit tx" where
  "apply_calendar_events u mb mid now [] = return_tx ()"
| "apply_calendar_events u mb mid now (e # es) =
     bind_tx (apply_calendar_event u mb mid now e) (\<lambda>_. apply_calendar_events u mb mid now es)"

section \<open>The schema invariant\<close>

lemma row_updates [simp]:
  "cal_id (stamp mid now r) = cal_id r" "cal_key (stamp mid now r) = cal_key r"
  "cal_id (cancel_row mid now e r) = cal_id r" "cal_key (cancel_row mid now e r) = cal_key r"
  "cal_id (revise_row mid now st e r) = cal_id r" "cal_key (revise_row mid now st e r) = cal_key r"
  "cal_id (set_attendees mid now as r) = cal_id r" "cal_key (set_attendees mid now as r) = cal_key r"
  by (simp_all add: stamp_def cancel_row_def revise_row_def set_attendees_def cal_key_def)

definition same_but_calendar :: "db \<Rightarrow> db \<Rightarrow> bool" where
  "same_but_calendar d d' \<longleftrightarrow>
     d' = d\<lparr>calendar_events := calendar_events d', calendar_seq := calendar_seq d'\<rparr>"

lemma same_but_calendar_refl [simp]: "same_but_calendar d d"
  by (simp add: same_but_calendar_def)

lemma same_but_calendar_trans: "same_but_calendar d d1 \<Longrightarrow> same_but_calendar d1 d2 \<Longrightarrow> same_but_calendar d d2"
  by (simp add: same_but_calendar_def) (metis (no_types, lifting) db.surjective db.update_convs(4,8))

text \<open>What one event does to the database, by the row of its uid.\<close>

definition event_update :: "unicode \<Rightarrow> int \<Rightarrow> int \<Rightarrow> parsed_event \<Rightarrow> calendar_row \<Rightarrow> calendar_row" where
  "event_update u mid now e r =
     (if pe_method e = method_cancel then cancel_row mid now e r
      else if pe_method e = method_reply then
        (if pe_attendees e = [] then r
         else set_attendees mid now (merge_replies u (pe_attendees e) (cal_attendees r)) r)
      else if cal_sequence r \<le> pe_sequence e then revise_row mid now (event_status e) e r
      else r)"

definition event_status_new :: "parsed_event \<Rightarrow> bytes" where
  "event_status_new e = (if pe_method e = method_cancel then ''CANCELLED'' else event_status e)"

lemma event_update_keys [simp]:
  "cal_id (event_update u mid now e r) = cal_id r" "cal_key (event_update u mid now e r) = cal_key r"
  by (simp_all add: event_update_def)

lemma update_row_at:
  assumes "distinct (map cal_id rows)" and "r \<in> set rows" and "f r = g r"
  shows "map (\<lambda>x. if cal_id x = cal_id r then f x else x) rows
       = map (\<lambda>x. if cal_id x = cal_id r then g x else x) rows"
  using assms by (auto simp: distinct_map inj_on_def)

lemma update_row_same: "map (\<lambda>x. if cal_id x = cal_id r then x else x) rows = rows"
  by simp

lemma apply_calendar_event_Some:
  assumes "db_ok d" and "find (\<lambda>r. cal_key r = (mb, pe_uid e)) (calendar_events d) = Some r"
    and "apply_calendar_event u mb mid now e d fs = (Inr x, d', fs')"
  shows "d' = d\<lparr>calendar_events :=
           map (\<lambda>x. if cal_id x = cal_id r then event_update u mid now e x else x) (calendar_events d)\<rparr>"
proof -
  have r: "r \<in> set (calendar_events d)" using assms(2) by (auto simp: find_Some_iff)
  have ids: "distinct (map cal_id (calendar_events d))" using assms(1) by (simp add: db_ok_def ids_ok_def)
  let ?d = "d\<lparr>calendar_events :=
      map (\<lambda>x. if cal_id x = cal_id r then event_update u mid now e x else x) (calendar_events d)\<rparr>"
  have at: "update_calendar (cal_id r) f d = (Inr (), ?d)" if "f r = event_update u mid now e r" for f
    using update_row_at [OF ids r, of f "event_update u mid now e"] that by (simp add: update_calendar_def)
  have same: "?d = d" if "event_update u mid now e r = r"
    using update_row_at [OF ids r, of "event_update u mid now e" "\<lambda>x. x"] that by simp
  show ?thesis
    using assms(3) at [of "cancel_row mid now e"] at [of "revise_row mid now (event_status e) e"]
      at [of "set_attendees mid now (merge_replies u (pe_attendees e) (cal_attendees r))"] same
    by (auto simp: apply_calendar_event_def q_calendar_def assms(2) event_update_def [of u mid now e r]
        elim!: bind_tx_InrE stmt_InrE return_tx_InrE split: if_splits)
qed


lemma methods_differ [simp]: "method_reply \<noteq> method_cancel" "method_cancel \<noteq> method_reply"
  by (simp_all add: method_reply_def method_cancel_def)

lemma apply_calendar_event_None:
  assumes "find (\<lambda>r. cal_key r = (mb, pe_uid e)) (calendar_events d) = None"
    and "apply_calendar_event u mb mid now e d fs = (Inr x, d', fs')"
  shows "if pe_method e = method_reply then d' = d
         else insert_calendar_row (calendar_row_of mb mid now (event_status_new e) e) d = (Inr (), d')"
  using assms(2)
  by (auto simp: apply_calendar_event_def q_calendar_def assms(1) insert_calendar_event_def
      event_status_new_def elim!: bind_tx_InrE stmt_InrE return_tx_InrE split: if_splits)

lemma insert_calendar_rowD:
  assumes "insert_calendar_row row d = (Inr x, d')"
  obtains i where "d' = d\<lparr>calendar_events := calendar_events d @ [row\<lparr>cal_id := i\<rparr>], calendar_seq := i\<rparr>"
    "cal_key row \<notin> set (map cal_key (calendar_events d))"
  using assms by (auto simp: insert_calendar_row_def split: if_splits option.splits)

lemma apply_calendar_event_frame:
  assumes "db_ok d" and "apply_calendar_event u mb mid now e d fs = (Inr x, d', fs')"
  shows "db_ok d'" and "same_but_calendar d d'"
proof -
  have "db_ok d' \<and> same_but_calendar d d'"
  proof (cases "find (\<lambda>r. cal_key r = (mb, pe_uid e)) (calendar_events d)")
    case None
    from apply_calendar_event_None [OF None assms(2)]
    consider "d' = d" | "insert_calendar_row (calendar_row_of mb mid now (event_status_new e) e) d = (Inr (), d')"
      by (auto split: if_splits)
    then show ?thesis
    proof cases
      case 2
      then show ?thesis
        using insert_calendar_row_ok [OF assms(1) 2]
        by (auto simp: same_but_calendar_def elim: insert_calendar_rowD)
    qed (simp add: assms(1))
  next
    case (Some r)
    note d' = apply_calendar_event_Some [OF assms(1) Some assms(2)]
    have "db_ok d'"
      by (rule update_calendar_ok [OF assms(1), of "event_update u mid now e" "cal_id r" "()"])
        (simp_all add: update_calendar_def d')
    then show ?thesis by (simp add: same_but_calendar_def d')
  qed
  then show "db_ok d'" "same_but_calendar d d'" by auto
qed

lemma apply_calendar_events_frame:
  "db_ok d \<Longrightarrow> apply_calendar_events u mb mid now es d fs = (Inr x, d', fs') \<Longrightarrow> db_ok d' \<and> same_but_calendar d d'"
proof (induction es arbitrary: d fs)
  case Nil
  then show ?case by simp
next
  case (Cons e es)
  from Cons.prems(2) obtain y d1 fs1 where one: "apply_calendar_event u mb mid now e d fs = (Inr y, d1, fs1)"
      and rest: "apply_calendar_events u mb mid now es d1 fs1 = (Inr x, d', fs')"
    by (auto elim: bind_tx_InrE)
  note f = apply_calendar_event_frame [OF Cons.prems(1) one]
  from Cons.IH [OF f(1) rest] f(2) show ?case by (blast intro: same_but_calendar_trans)
qed

section \<open>The specification\<close>

text \<open>
  The entry of a uid after one event: a cancellation marks it, or creates it cancelled; a reply
  updates attendees and never creates; anything else replaces it unless it is stale.
\<close>

definition reconcile ::
  "unicode \<Rightarrow> int \<Rightarrow> int \<Rightarrow> int \<Rightarrow> parsed_event \<Rightarrow> calendar_row option \<Rightarrow> calendar_row option" where
  "reconcile u mb mid now e entry =
     (case entry of
        Some r \<Rightarrow> Some (event_update u mid now e r)
      | None \<Rightarrow>
          if pe_method e = method_reply then None
          else Some (calendar_row_of mb mid now (event_status_new e) e))"

text \<open>The entry of a uid in a mailbox, without the row's id.\<close>

definition calendar_view :: "db \<Rightarrow> int \<Rightarrow> bytes \<Rightarrow> calendar_row option" where
  "calendar_view d mb uid =
     map_option (\<lambda>r. r\<lparr>cal_id := 0\<rparr>) (find (\<lambda>r. cal_key r = (mb, uid)) (calendar_events d))"

lemma find_map_keep: "(\<And>x. P (h x) = P x) \<Longrightarrow> find P (map h xs) = map_option h (find P xs)"
  by (induction xs) auto

lemma find_append: "find P (xs @ ys) = (case find P xs of None \<Rightarrow> find P ys | Some x \<Rightarrow> Some x)"
  by (induction xs) auto

lemma event_update_id:
  "event_update u mid now e (r\<lparr>cal_id := i\<rparr>) = (event_update u mid now e r)\<lparr>cal_id := i\<rparr>"
  by (simp add: event_update_def cancel_row_def set_attendees_def revise_row_def stamp_def)

lemma apply_calendar_event_view:
  assumes "db_ok d" and "apply_calendar_event u mb mid now e d fs = (Inr x, d', fs')"
  shows "calendar_view d' k uid =
    (if k = mb \<and> uid = pe_uid e then reconcile u mb mid now e (calendar_view d k uid) else calendar_view d k uid)"
proof (cases "find (\<lambda>r. cal_key r = (mb, pe_uid e)) (calendar_events d)")
  case None
  show ?thesis
  proof (cases "pe_method e = method_reply")
    case True
    with apply_calendar_event_None [OF None assms(2)] None show ?thesis
      by (simp add: calendar_view_def reconcile_def)
  next
    case False
    let ?row = "calendar_row_of mb mid now (event_status_new e) e"
    from apply_calendar_event_None [OF None assms(2)] False
    have "insert_calendar_row ?row d = (Inr (), d')" by (simp split: if_splits)
    then obtain i where "calendar_events d' = calendar_events d @ [?row\<lparr>cal_id := i\<rparr>]"
      by (auto elim: insert_calendar_rowD)
    with None False show ?thesis
      by (auto simp: calendar_view_def reconcile_def find_append cal_key_def calendar_row_of_def
          split: option.splits)
  qed
next
  case (Some r)
  let ?h = "\<lambda>x. if cal_id x = cal_id r then event_update u mid now e x else x"
  have r: "r \<in> set (calendar_events d)" "cal_key r = (mb, pe_uid e)"
    using Some by (auto simp: find_Some_iff)
  have ids: "x = r" if "x \<in> set (calendar_events d)" "cal_id x = cal_id r" for x
    using assms(1) that r(1) by (auto simp: db_ok_def ids_ok_def distinct_map inj_on_def)
  have view: "calendar_view d' k uid =
      map_option (\<lambda>x. (?h x)\<lparr>cal_id := 0\<rparr>) (find (\<lambda>r. cal_key r = (k, uid)) (calendar_events d))"
    unfolding calendar_view_def apply_calendar_event_Some [OF assms(1) Some assms(2)]
    by (simp add: find_map_keep option.map_comp comp_def)
  show ?thesis
  proof (cases "k = mb \<and> uid = pe_uid e")
    case True
    then show ?thesis
      using Some unfolding view by (simp add: calendar_view_def reconcile_def event_update_id)
  next
    case False
    have "?h x = x" if "find (\<lambda>r. cal_key r = (k, uid)) (calendar_events d) = Some x" for x
      using that ids [of x] r(2) False by (auto simp: find_Some_iff)
    then show ?thesis
      using False unfolding view
      by (cases "find (\<lambda>r. cal_key r = (k, uid)) (calendar_events d)") (auto simp: calendar_view_def)
  qed
qed

lemma apply_calendar_events_view:
  "db_ok d \<Longrightarrow> apply_calendar_events u mb mid now es d fs = (Inr x, d', fs') \<Longrightarrow>
   calendar_view d' k uid =
     (if k = mb then fold (reconcile u mb mid now) (filter (\<lambda>e. pe_uid e = uid) es) (calendar_view d k uid)
      else calendar_view d k uid)"
proof (induction es arbitrary: d fs)
  case Nil
  then show ?case by simp
next
  case (Cons e es)
  from Cons.prems(2) obtain y d1 fs1 where one: "apply_calendar_event u mb mid now e d fs = (Inr y, d1, fs1)"
      and rest: "apply_calendar_events u mb mid now es d1 fs1 = (Inr x, d', fs')"
    by (auto elim: bind_tx_InrE)
  note ok = apply_calendar_event_frame(1) [OF Cons.prems(1) one]
  show ?case
    using Cons.IH [OF ok rest] apply_calendar_event_view [OF Cons.prems(1) one, of k uid] by auto
qed

section \<open>Properties\<close>

lemma event_update_sequence:
  "cal_sequence (event_update u mid now e r) =
     (if pe_method e = method_reply then cal_sequence r
      else max (pe_sequence e) (cal_sequence r))"
  by (auto simp: event_update_def cancel_row_def set_attendees_def revise_row_def stamp_def)

text \<open>The events of a uid that carry a revision of it.\<close>

definition revisions :: "bytes \<Rightarrow> parsed_event list \<Rightarrow> parsed_event list" where
  "revisions uid es = filter (\<lambda>e. pe_uid e = uid \<and> pe_method e \<noteq> method_reply) es"

lemma fold_reconcile_sequence:
  "fold (reconcile u mb mid now) (filter (\<lambda>e. pe_uid e = uid) es) (Some r) = Some r' \<Longrightarrow>
   cal_sequence r' = fold max (map pe_sequence (revisions uid es)) (cal_sequence r)"
proof (induction es arbitrary: r)
  case Nil
  then show ?case by (simp add: revisions_def)
next
  case (Cons e es)
  show ?case
  proof (cases "pe_uid e = uid")
    case True
    with Cons.prems have "cal_sequence r' = fold max (map pe_sequence (revisions uid es))
        (cal_sequence (event_update u mid now e r))"
      by (intro Cons.IH) (simp add: reconcile_def)
    with True show ?thesis by (auto simp: event_update_sequence revisions_def)
  next
    case False
    with Cons show ?thesis by (simp add: revisions_def)
  qed
qed

lemma fold_reconcile_Some: "\<exists>r'. fold (reconcile u mb mid now) es (Some r) = Some r'"
  by (induction es arbitrary: r) (auto simp: reconcile_def)

text \<open>A mailbox with one entry, for the witnesses.\<close>

definition sample_event :: "bytes \<Rightarrow> int \<Rightarrow> parsed_event" where
  "sample_event method seq = \<lparr>pe_method = method, pe_uid = ''u'', pe_sequence = seq, pe_summary = None,
     pe_description = None, pe_location = None, pe_status = None, pe_organizer_address = None,
     pe_organizer_name = None, pe_attendees = [], pe_dtstart = 0, pe_dtend = None, pe_all_day = False\<rparr>"

definition sample_db :: db where
  "sample_db = empty_db\<lparr>mailboxes := [\<lparr>mb_id = 1, mb_address = ''a@b'', mb_created_at = 0,
       mb_last_message_at = None\<rparr>],
     calendar_events := [(calendar_row_of 1 1 0 ''CONFIRMED'' (sample_event method_request 1))\<lparr>cal_id := 1\<rparr>],
     mailbox_seq := 1, calendar_seq := 1\<rparr>"

lemma sample_db_ok: "db_ok sample_db"
  by (simp add: sample_db_def db_ok_def empty_db_def ids_ok_def max_int64_def calendar_row_of_def)

lemma sample_cancel:
  "apply_calendar_events plain_unicode 1 2 9 [sample_event method_cancel 3] sample_db [] =
     (Inr (), sample_db\<lparr>calendar_events :=
        [cancel_row 2 9 (sample_event method_cancel 3) (hd (calendar_events sample_db))]\<rparr>, [])"
  by (simp add: apply_calendar_event_def sample_db_def empty_db_def sample_event_def calendar_row_of_def
      bind_tx_def q_calendar_def update_calendar_def cal_key_def)

text \<open>
  C10. When the calendar events of a received message are applied without an error, the entry of
  every uid of the mailbox is the fold of \<open>reconcile\<close> over the events of that uid in order, and
  the entries of every other mailbox, the mailboxes, the messages and the attachments are
  untouched.
\<close>

theorem calendar_reconciliation:
  assumes "db_ok d" and "apply_calendar_events u mb mid now es d fs = (Inr x, d', fs')"
  shows "(\<forall>uid. calendar_view d' mb uid =
           fold (reconcile u mb mid now) (filter (\<lambda>e. pe_uid e = uid) es) (calendar_view d mb uid))
       \<and> (\<forall>k uid. k \<noteq> mb \<longrightarrow> calendar_view d' k uid = calendar_view d k uid)
       \<and> mailboxes d' = mailboxes d \<and> messages d' = messages d \<and> attachments d' = attachments d"
proof -
  from apply_calendar_events_frame [OF assms] obtain rows k
    where "d' = d\<lparr>calendar_events := rows, calendar_seq := k\<rparr>"
    unfolding same_but_calendar_def by blast
  then show ?thesis
    using apply_calendar_events_view [OF assms] by simp
qed

theorem calendar_reconciliation_witness:
  "let d' = fst (snd (apply_calendar_events plain_unicode 1 2 9 [sample_event method_cancel 3] sample_db []))
   in db_ok sample_db \<and> map_option cal_status (calendar_view d' 1 ''u'') = Some ''CANCELLED''"
  using calendar_reconciliation [OF sample_db_ok sample_cancel] sample_db_ok
  unfolding sample_cancel by (simp add: reconcile_def calendar_view_def sample_db_def sample_event_def cal_key_def
      calendar_row_of_def event_update_def cancel_row_def stamp_def empty_db_def)

text \<open>
  A calendar entry never goes back to an older revision: applying events keeps an existing
  entry, and its sequence number becomes the largest of its own and those of the requests,
  publications and cancellations of its uid; replies do not change it.
\<close>

theorem calendar_sequence_is_maximum:
  assumes "db_ok d" and "apply_calendar_events u mb mid now es d fs = (Inr x, d', fs')"
    and "calendar_view d mb uid = Some r"
  shows "\<exists>r'. calendar_view d' mb uid = Some r'
           \<and> cal_sequence r' = fold max (map pe_sequence (revisions uid es)) (cal_sequence r)"
  using apply_calendar_events_view [OF assms(1,2), of mb uid] assms(3)
    fold_reconcile_Some [of u mb mid now "filter (\<lambda>e. pe_uid e = uid) es" r]
    fold_reconcile_sequence [of u mb mid now uid es r]
  by auto


theorem calendar_sequence_is_maximum_witness:
  "let d' = fst (snd (apply_calendar_events plain_unicode 1 2 9 [sample_event method_cancel 3] sample_db []))
   in db_ok sample_db \<and> map_option cal_sequence (calendar_view d' 1 ''u'') = Some 3"
proof -
  have "calendar_view sample_db 1 ''u'' = Some ((hd (calendar_events sample_db))\<lparr>cal_id := 0\<rparr>)"
    by (simp add: calendar_view_def sample_db_def cal_key_def calendar_row_of_def sample_event_def empty_db_def)
  from calendar_sequence_is_maximum [OF sample_db_ok sample_cancel this] show ?thesis
    using sample_db_ok unfolding sample_cancel
    by (auto simp: revisions_def sample_event_def sample_db_def calendar_row_of_def empty_db_def)
qed

end
