(* ===== verification/Store.thy ===== *)
theory Store
  imports Store_Calendar
begin

text \<open>
  \<open>internal/store/operations.go\<close>: the operations of the store that change it.  Every one of them
  holds \<open>pop3Mu\<close> from its start to its end, so each is one step on the store, and emits its
  events after releasing the lock; its outcome is the result, the store and the events it
  emits.  The schedule of faults says which of its calls fail (the first entry is the
  acquisition of \<open>pop3Mu\<close>, which a cancelled context makes fail).
\<close>

section \<open>State and results\<close>

record store =
  sdb :: db
  generation :: uint64

type_synonym 'a outcome = "(store_err + 'a) \<times> store \<times> event list"

record attachment_input =
  ai_filename :: "bytes option"
  ai_content_type :: "bytes option"
  ai_content_id :: "bytes option"
  ai_content :: bytes

record message_input =
  in_recipients :: "bytes list"
  in_from_address :: "bytes option"
  in_from_name :: "bytes option"
  in_to :: "address_entry list"
  in_cc :: "address_entry list"
  in_subject :: "bytes option"
  in_html :: "bytes option"
  in_text :: "bytes option"
  in_headers :: "(bytes \<times> bytes) list"
  in_size :: int
  in_attachments :: "attachment_input list"
  in_ical :: "parsed_event list"
  in_raw :: bytes

record pop3_message =
  p3_id :: int
  p3_raw :: bytes

record pop3_snapshot =
  snap_messages :: "pop3_message list"
  snap_generation :: uint64

record message_detail =
  md_message :: message_row
  md_attachments :: "attachment_row list"
  md_generation :: uint64

text \<open>
  \<open>acquirePop3\<close> around the rest of an operation, and the end of an operation: on an error
  nothing is emitted, otherwise the events of the result are.
\<close>

definition with_pop3 :: "faults \<Rightarrow> store \<Rightarrow> (faults \<Rightarrow> 'a outcome) \<Rightarrow> 'a outcome" where
  "with_pop3 fs st k = (if faulty fs then (Inl Canceled, st, []) else k (tl fs))"

definition finish ::
  "store \<Rightarrow> ('a \<Rightarrow> event list) \<Rightarrow> ('a \<Rightarrow> 'b) \<Rightarrow> (store_err + 'a) \<times> db \<times> faults \<Rightarrow> 'b outcome" where
  "finish st evs out run =
     (case run of
        (Inl e, d, fs) \<Rightarrow> (Inl e, st\<lparr>sdb := d\<rparr>, [])
      | (Inr x, d, fs) \<Rightarrow> (Inr (out x), st\<lparr>sdb := d\<rparr>, evs x))"

definition normalize_address :: "unicode \<Rightarrow> bytes \<Rightarrow> bytes" where
  "normalize_address u raw = trim_space (to_lower u raw)"

section \<open>\<open>StoreMessage\<close>\<close>

definition message_row_of :: "message_input \<Rightarrow> int \<Rightarrow> int \<Rightarrow> message_row" where
  "message_row_of inp now mb =
     \<lparr>msg_id = 0, msg_mailbox = mb, msg_from_address = in_from_address inp,
      msg_from_name = in_from_name inp, msg_to = map json_address (in_to inp),
      msg_cc = map json_address (in_cc inp), msg_subject = in_subject inp, msg_html = in_html inp,
      msg_text = in_text inp, msg_headers = json_headers (in_headers inp), msg_size = in_size inp,
      msg_is_read = 0, msg_received_at = now,
      msg_ical = (if in_ical inp = [] then None else Some (map json_event (in_ical inp))),
      msg_raw = in_raw inp, msg_snippet = message_snippet (in_text inp) (in_html inp)\<rparr>"

definition attachment_row_of :: "int \<Rightarrow> attachment_input \<Rightarrow> attachment_row" where
  "attachment_row_of mid a =
     \<lparr>att_id = 0, att_message = mid, att_filename = ai_filename a, att_content_type = ai_content_type a,
      att_content_id = ai_content_id a, att_size = int (length (ai_content a)), att_content = ai_content a\<rparr>"

fun insert_attachments :: "int \<Rightarrow> attachment_input list \<Rightarrow> unit tx" where
  "insert_attachments mid [] = return_tx ()"
| "insert_attachments mid (a # as) =
     bind_tx (stmt (insert_attachment (attachment_row_of mid a))) (\<lambda>_. insert_attachments mid as)"

text \<open>One recipient: the events it adds to \<open>pending\<close>, and its copy of the message.\<close>

definition deliver ::
  "engine \<Rightarrow> unicode \<Rightarrow> int \<Rightarrow> message_input \<Rightarrow> bytes \<Rightarrow> (event list \<times> (int \<times> int)) tx" where
  "deliver E u now inp address =
     bind_tx (stmt (q_mailbox_id address)) (\<lambda>existing.
     bind_tx (stmt (upsert_mailbox E address now)) (\<lambda>mb.
     bind_tx (stmt (insert_message (message_row_of inp now mb))) (\<lambda>inserted.
     bind_tx (driver_value inserted) (\<lambda>mid.
     bind_tx (if in_ical inp = [] then return_tx ()
              else apply_calendar_events u mb mid now (in_ical inp)) (\<lambda>_.
     bind_tx (insert_attachments mid (in_attachments inp)) (\<lambda>_.
     return_tx
       ((if existing = None then [mailbox_new mb address] else [])
        @ (if in_ical inp = [] then [] else [calendar_changed mb])
        @ [message_new mb mid (in_subject inp) (in_from_address inp) (in_from_name inp)],
        (mb, mid))))))))"

fun deliver_all ::
  "engine \<Rightarrow> unicode \<Rightarrow> int \<Rightarrow> message_input \<Rightarrow> bytes list \<Rightarrow> (event list \<times> (int \<times> int) list) tx" where
  "deliver_all E u now inp [] = return_tx ([], [])"
| "deliver_all E u now inp (raw # raws) =
     (let address = normalize_address u raw in
      if address = [] then deliver_all E u now inp raws
      else bind_tx (deliver E u now inp address) (\<lambda>(evs, copy).
           bind_tx (deliver_all E u now inp raws) (\<lambda>(pending, stored).
           return_tx (evs @ pending, copy # stored))))"

definition store_message ::
  "engine \<Rightarrow> unicode \<Rightarrow> int \<Rightarrow> message_input \<Rightarrow> faults \<Rightarrow> store \<Rightarrow> (int \<times> int) list outcome" where
  "store_message E u now inp fs st =
     with_pop3 fs st (\<lambda>fs.
       finish st fst snd
         (in_tx (bind_tx (deliver_all E u now inp (in_recipients inp)) (\<lambda>r. return_tx (Commit r)))
            (sdb st) fs))"

section \<open>POP3\<close>

text \<open>The order \<open>ORDER BY received_at ASC, id ASC\<close> of a maildrop.\<close>

datatype maildrop_key = Maildrop_Key (key_received: int) (key_id: int)

instantiation maildrop_key :: linorder
begin

definition less_eq_maildrop_key :: "maildrop_key \<Rightarrow> maildrop_key \<Rightarrow> bool" where
  "less_eq_maildrop_key a b \<longleftrightarrow>
     key_received a < key_received b \<or> (key_received a = key_received b \<and> key_id a \<le> key_id b)"

definition less_maildrop_key :: "maildrop_key \<Rightarrow> maildrop_key \<Rightarrow> bool" where
  "less_maildrop_key a b \<longleftrightarrow>
     key_received a < key_received b \<or> (key_received a = key_received b \<and> key_id a < key_id b)"

instance
  by standard (auto simp: less_eq_maildrop_key_def less_maildrop_key_def maildrop_key.expand)

end

definition maildrop_key_of :: "message_row \<Rightarrow> maildrop_key" where
  "maildrop_key_of m = Maildrop_Key (msg_received_at m) (msg_id m)"

definition q_maildrop :: "int \<Rightarrow> pop3_message list stmt" where
  "q_maildrop mb d =
     (Inr (map (\<lambda>m. \<lparr>p3_id = msg_id m, p3_raw = msg_raw m\<rparr>)
        (sort_key maildrop_key_of (filter (\<lambda>m. msg_mailbox m = mb) (messages d)))), d)"

definition open_pop3_tx :: "int \<Rightarrow> bytes \<Rightarrow> (int \<times> bool \<times> pop3_message list) ending tx" where
  "open_pop3_tx now address =
     bind_tx (stmt (q_mailbox_id address)) (\<lambda>existing.
     bind_tx (case existing of
         Some mb \<Rightarrow> return_tx mb
       | None \<Rightarrow> bind_tx (stmt (insert_mailbox address now None)) driver_value) (\<lambda>mb.
     bind_tx (stmt (q_maildrop mb)) (\<lambda>msgs.
     return_tx (Commit (mb, existing = None, msgs)))))"

definition open_pop3_mailbox :: "unicode \<Rightarrow> int \<Rightarrow> bytes \<Rightarrow> faults \<Rightarrow> store \<Rightarrow> pop3_snapshot outcome" where
  "open_pop3_mailbox u now raw fs st =
     (let address = normalize_address u raw in
      if address = [] then (Inl Empty_Address, st, [])
      else with_pop3 fs st (\<lambda>fs.
        finish st (\<lambda>(mb, is_new, msgs). if is_new then [mailbox_new mb address] else [])
          (\<lambda>(mb, is_new, msgs). \<lparr>snap_messages = msgs, snap_generation = generation st\<rparr>)
          (in_tx (open_pop3_tx now address) (sdb st) fs)))"

definition delete_pop3_messages ::
  "engine \<Rightarrow> uint64 \<Rightarrow> int list \<Rightarrow> faults \<Rightarrow> store \<Rightarrow> int list outcome" where
  "delete_pop3_messages E gen ids fs st =
     with_pop3 fs st (\<lambda>fs.
       if gen \<noteq> generation st \<or> ids = [] then (Inr [], st, [])
       else finish st (map messages_changed) id
         (bind_tx (stmt (q_affected E ids)) (\<lambda>affected.
          bind_tx (stmt (delete_messages ids)) (\<lambda>_. return_tx affected)) (sdb st) fs))"

section \<open>Reading and marking\<close>

text \<open>The columns a detail query selects: all but \<open>raw\<close> and \<open>snippet\<close>, all but \<open>content\<close>.\<close>

definition detail_columns :: "message_row \<Rightarrow> message_row" where
  "detail_columns m = m\<lparr>msg_raw := [], msg_snippet := []\<rparr>"

definition attachment_info :: "attachment_row \<Rightarrow> attachment_row" where
  "attachment_info a = a\<lparr>att_content := []\<rparr>"

definition q_message :: "int \<Rightarrow> message_row option stmt" where
  "q_message i d = (Inr (find (\<lambda>m. msg_id m = i) (messages d)), d)"

definition q_attachments :: "engine \<Rightarrow> int \<Rightarrow> attachment_row list stmt" where
  "q_attachments E i d =
     (Inr (scan_attachments E (filter (\<lambda>a. att_message a = i) (attachments d))), d)"

definition read_message_detail ::
  "engine \<Rightarrow> int \<Rightarrow> (message_row \<times> attachment_row list) option tx" where
  "read_message_detail E i =
     bind_tx (stmt (q_message i)) (\<lambda>row.
       case row of
         None \<Rightarrow> return_tx None
       | Some m \<Rightarrow> bind_tx (stmt (q_attachments E i)) (\<lambda>as.
           return_tx (Some (detail_columns m, map attachment_info as))))"

definition detail_of :: "store \<Rightarrow> message_row \<times> attachment_row list \<Rightarrow> message_detail" where
  "detail_of st p = \<lparr>md_message = fst p, md_attachments = snd p, md_generation = generation st\<rparr>"

definition get_message :: "engine \<Rightarrow> int \<Rightarrow> faults \<Rightarrow> store \<Rightarrow> message_detail option outcome" where
  "get_message E i fs st =
     with_pop3 fs st (\<lambda>fs.
       finish st (\<lambda>_. []) (map_option (detail_of st))
         (in_tx (bind_tx (read_message_detail E i) (\<lambda>r.
            return_tx (if r = None then Roll_Back r else Commit r))) (sdb st) fs))"

text \<open>\<open>ReadMessage\<close> leaves the \<open>generation\<close> field of the detail at its zero value.\<close>

definition read_message_tx ::
  "engine \<Rightarrow> int \<Rightarrow> ((message_row \<times> attachment_row list) option \<times> bool) ending tx" where
  "read_message_tx E i =
     bind_tx (read_message_detail E i) (\<lambda>r.
       case r of
         None \<Rightarrow> return_tx (Roll_Back (None, False))
       | Some (m, as) \<Rightarrow>
           if msg_is_read m = 0
           then bind_tx (stmt (update_is_read (\<lambda>x. msg_id x = i) 1)) (\<lambda>_. return_tx (Commit (r, True)))
           else return_tx (Commit (r, False)))"

definition read_message :: "engine \<Rightarrow> int \<Rightarrow> faults \<Rightarrow> store \<Rightarrow> message_detail option outcome" where
  "read_message E i fs st =
     with_pop3 fs st (\<lambda>fs.
       finish st
         (\<lambda>(r, marked). case r of Some (m, as) \<Rightarrow> if marked then [messages_changed (msg_mailbox m)] else []
                                | None \<Rightarrow> [])
         (\<lambda>(r, marked). map_option (\<lambda>p. (detail_of st p)\<lparr>md_generation := 0\<rparr>) r)
         (in_tx (read_message_tx E i) (sdb st) fs))"

definition mark_read_detail :: "message_detail option \<Rightarrow> faults \<Rightarrow> store \<Rightarrow> unit outcome" where
  "mark_read_detail detail fs st =
     (case detail of
        None \<Rightarrow> (Inr (), st, [])
      | Some det \<Rightarrow>
          if msg_is_read (md_message det) \<noteq> 0 then (Inr (), st, [])
          else with_pop3 fs st (\<lambda>fs.
            if md_generation det \<noteq> generation st then (Inr (), st, [])
            else finish st
              (\<lambda>n. if n \<noteq> 0 then [messages_changed (msg_mailbox (md_message det))] else []) (\<lambda>_. ())
              (in_tx
                (bind_tx (stmt (update_is_read (\<lambda>m. msg_id m = msg_id (md_message det)
                    \<and> msg_mailbox m = msg_mailbox (md_message det)
                    \<and> msg_received_at m = msg_received_at (md_message det) \<and> msg_is_read m = 0) 1))
                  (\<lambda>n. bind_tx (driver_value n) (\<lambda>n. return_tx (Commit n)))) (sdb st) fs)))"

definition mark_read :: "int \<Rightarrow> int \<Rightarrow> int \<Rightarrow> faults \<Rightarrow> store \<Rightarrow> unit outcome" where
  "mark_read i mb was_read fs st =
     (if was_read \<noteq> 0 then (Inr (), st, [])
      else with_pop3 fs st (\<lambda>fs.
        finish st (\<lambda>n. if n \<noteq> 0 then [messages_changed mb] else []) (\<lambda>_. ())
          (bind_tx (stmt (update_is_read (\<lambda>m. msg_id m = i \<and> msg_mailbox m = mb \<and> msg_is_read m = 0) 1))
             driver_value (sdb st) fs)))"

definition set_read_state :: "engine \<Rightarrow> int list \<Rightarrow> bool \<Rightarrow> faults \<Rightarrow> store \<Rightarrow> int list outcome" where
  "set_read_state E ids is_read fs st =
     (if ids = [] then (Inr [], st, [])
      else with_pop3 fs st (\<lambda>fs.
        finish st (map messages_changed) id
          (in_tx
            (bind_tx (stmt (q_affected E ids)) (\<lambda>affected.
             bind_tx (stmt (update_is_read (\<lambda>m. msg_id m \<in> set ids) (if is_read then 1 else 0))) (\<lambda>_.
             return_tx (Commit affected)))) (sdb st) fs)))"

section \<open>Deleting\<close>

text \<open>\<open>DeleteMessages\<close>, \<open>DeleteMailbox\<close> and \<open>WipeAll\<close>.\<close>

definition remove_messages :: "engine \<Rightarrow> int list \<Rightarrow> faults \<Rightarrow> store \<Rightarrow> int list outcome" where
  "remove_messages E ids fs st =
     (if ids = [] then (Inr [], st, [])
      else with_pop3 fs st (\<lambda>fs.
        finish st (map messages_changed) id
          (in_tx
            (bind_tx (stmt (q_affected E ids)) (\<lambda>affected.
             bind_tx (stmt (delete_messages ids)) (\<lambda>_.
             return_tx (Commit affected)))) (sdb st) fs)))"

definition remove_mailbox :: "int \<Rightarrow> faults \<Rightarrow> store \<Rightarrow> bool outcome" where
  "remove_mailbox i fs st =
     with_pop3 fs st (\<lambda>fs.
       finish st (\<lambda>n. if n \<noteq> 0 then [mailbox_deleted i] else []) (\<lambda>n. n \<noteq> 0)
         (bind_tx (stmt (delete_mailbox_row i)) driver_value (sdb st) fs))"

definition wipe_statements :: "(db \<Rightarrow> db) list" where
  "wipe_statements =
     [\<lambda>d. d\<lparr>attachments := []\<rparr>,
      \<lambda>d. d\<lparr>calendar_events := []\<rparr>,
      delete_messages_where (\<lambda>_. True),
      delete_mailboxes_where (\<lambda>_. True),
      \<lambda>d. d\<lparr>mailbox_seq := 0, message_seq := 0, attachment_seq := 0, calendar_seq := 0\<rparr>]"

fun exec_all :: "(db \<Rightarrow> db) list \<Rightarrow> unit tx" where
  "exec_all [] = return_tx ()"
| "exec_all (f # fs) = bind_tx (stmt (\<lambda>d. (Inr (), f d))) (\<lambda>_. exec_all fs)"

definition wipe_all :: "faults \<Rightarrow> store \<Rightarrow> unit outcome" where
  "wipe_all fs st =
     with_pop3 fs st (\<lambda>fs.
       case finish st (\<lambda>_. [reset_event]) id
              (in_tx (bind_tx (exec_all wipe_statements) (\<lambda>_. return_tx (Commit ()))) (sdb st) fs) of
         (Inl e, st', evs) \<Rightarrow> (Inl e, st', evs)
       | (Inr x, st', evs) \<Rightarrow> (Inr x, st'\<lparr>generation := generation st' + 1\<rparr>, evs))"

end
