(* ===== verification/Store_Run.thy ===== *)
theory Store_Run
  imports Store
begin

text \<open>
  The store as a state machine: the requests its clients make, the invariant all of them keep
  under any schedule of faults, the atomicity of a failed request, and what stays true across
  the requests of others between two requests of one client.
\<close>

section \<open>Validity of the transaction bodies\<close>

abbreviation has_mailbox :: "int \<Rightarrow> db \<Rightarrow> bool" where
  "has_mailbox mb d \<equiv> mb \<in> set (map mb_id (mailboxes d))"

abbreviation has_message :: "int \<Rightarrow> db \<Rightarrow> bool" where
  "has_message mid d \<equiv> mid \<in> set (map msg_id (messages d))"

lemma insert_mailbox_no_constraint:
  "a \<notin> set (map mb_address (mailboxes d)) \<Longrightarrow> fst (insert_mailbox a c l d) \<noteq> Inl Constraint_Error"
  by (auto simp: insert_mailbox_def split: option.split)

lemma insert_mailbox_present: "insert_mailbox a c l d = (Inr i, d') \<Longrightarrow> has_mailbox i d'"
  by (auto simp: insert_mailbox_def split: if_splits option.splits)

lemma upsert_mailbox_no_constraint: "fst (upsert_mailbox E a now d) \<noteq> Inl Constraint_Error"
  using insert_mailbox_no_constraint [of a d now "Some now"]
  by (auto simp: upsert_mailbox_def find_None_iff split: option.split)

lemma upsert_mailbox_present:
  assumes "upsert_mailbox E a now d = (Inr i, d')"
  shows "has_mailbox i d'"
proof (cases "find (\<lambda>m. mb_address m = a) (mailboxes d)")
  case None
  with assms show ?thesis by (simp add: upsert_mailbox_def insert_mailbox_present del: set_map)
next
  case (Some m)
  then have "has_mailbox (mb_id m) d" by (auto simp: find_Some_iff)
  with assms Some show ?thesis by (auto simp: upsert_mailbox_def simp del: map_map set_map)
qed

lemma insert_messageD:
  assumes "insert_message row d = (Inr i, d')"
  shows "d' = d\<lparr>messages := messages d @ [row\<lparr>msg_id := i\<rparr>], message_seq := i\<rparr>"
    "new_id (message_seq d) (map msg_id (messages d)) = Some i"
  using assms by (simp_all add: insert_message_def split: if_splits option.splits)

lemma insert_attachmentD:
  assumes "insert_attachment row d = (Inr x, d')"
  obtains i where "d' = d\<lparr>attachments := attachments d @ [row\<lparr>att_id := i\<rparr>], attachment_seq := i\<rparr>"
  using assms by (auto simp: insert_attachment_def split: if_splits option.splits)

lemma valid_upsert_mailbox:
  assumes "engine_ok E" and "a \<noteq> []"
  shows "valid db_ok (stmt (upsert_mailbox E a now)) (\<lambda>mb d. db_ok d \<and> has_mailbox mb d)"
proof (rule valid_stmt)
  fix d x d'
  assume "db_ok d" and "upsert_mailbox E a now d = (Inr x, d')"
  then show "db_ok d' \<and> has_mailbox x d'"
    using upsert_mailbox_ok [OF assms(1) _ assms(2)] upsert_mailbox_present by blast
qed (rule upsert_mailbox_no_constraint)

lemma valid_insert_message:
  assumes "msg_is_read row = 0"
  shows "valid (\<lambda>d. db_ok d \<and> has_mailbox (msg_mailbox row) d) (stmt (insert_message row))
           (\<lambda>mid d. db_ok d \<and> has_mailbox (msg_mailbox row) d \<and> has_message mid d)"
proof (rule valid_stmt)
  fix d x d'
  assume "db_ok d \<and> has_mailbox (msg_mailbox row) d" and ins: "insert_message row d = (Inr x, d')"
  then show "db_ok d' \<and> has_mailbox (msg_mailbox row) d' \<and> has_message x d'"
    using insert_message_ok [OF _ _ ins] insert_messageD(1) [OF ins] assms by simp
next
  fix d
  assume "db_ok d \<and> has_mailbox (msg_mailbox row) d"
  then show "fst (insert_message row d) \<noteq> Inl Constraint_Error"
    by (auto simp: insert_message_def split: option.split)
qed

lemma apply_calendar_event_no_constraint:
  assumes "has_mailbox mb d"
  shows "fst (apply_calendar_event u mb mid now e d fs) \<noteq> Inl Constraint_Error"
proof -
  have "fst (insert_calendar_row (calendar_row_of mb mid now st e) d) \<noteq> Inl Constraint_Error"
    if "find (\<lambda>r. cal_key r = (mb, pe_uid e)) (calendar_events d) = None" for st
    using that assms by (auto simp: insert_calendar_row_def find_None_iff calendar_row_of_def cal_key_def
        split: option.split)
  then show ?thesis
    by (cases "find (\<lambda>r. cal_key r = (mb, pe_uid e)) (calendar_events d)")
      (auto simp: apply_calendar_event_def bind_tx_def stmt_def q_calendar_def update_calendar_def
        insert_calendar_event_def split: sum.splits)
qed

lemma valid_apply_calendar_event:
  "valid (\<lambda>d. db_ok d \<and> has_mailbox mb d \<and> has_message mid d) (apply_calendar_event u mb mid now e)
     (\<lambda>_ d. db_ok d \<and> has_mailbox mb d \<and> has_message mid d)"
proof (rule validI)
  fix d fs x d' fs'
  assume "db_ok d \<and> has_mailbox mb d \<and> has_message mid d"
    and run: "apply_calendar_event u mb mid now e d fs = (Inr x, d', fs')"
  moreover from this obtain rows k where "d' = d\<lparr>calendar_events := rows, calendar_seq := k\<rparr>"
    using apply_calendar_event_frame(2) [of d u mb mid now e fs x d' fs'] unfolding same_but_calendar_def by blast
  ultimately show "db_ok d' \<and> has_mailbox mb d' \<and> has_message mid d'"
    using apply_calendar_event_frame(1) [OF _ run] by simp
next
  fix d fs d' fs'
  assume "db_ok d \<and> has_mailbox mb d \<and> has_message mid d"
  then show "apply_calendar_event u mb mid now e d fs \<noteq> (Inl Constraint_Error, d', fs')"
    using apply_calendar_event_no_constraint [of mb d u mid now e fs] by auto
qed

lemma valid_apply_calendar_events:
  "valid (\<lambda>d. db_ok d \<and> has_mailbox mb d \<and> has_message mid d) (apply_calendar_events u mb mid now es)
     (\<lambda>_ d. db_ok d \<and> has_mailbox mb d \<and> has_message mid d)"
proof (induction es)
  case Nil
  show ?case by (simp only: apply_calendar_events.simps insert_attachments.simps) (rule valid_return)
next
  case (Cons e es)
  show ?case unfolding apply_calendar_events.simps by (rule valid_bind [OF valid_apply_calendar_event Cons.IH])
qed

lemma valid_insert_attachment:
  "valid (\<lambda>d. db_ok d \<and> has_message mid d) (stmt (insert_attachment (attachment_row_of mid a)))
     (\<lambda>_ d. db_ok d \<and> has_message mid d)"
proof (rule valid_stmt)
  fix d x d'
  assume "db_ok d \<and> has_message mid d" and ins: "insert_attachment (attachment_row_of mid a) d = (Inr x, d')"
  moreover have "messages d' = messages d" by (rule insert_attachmentD [OF ins]) simp
  ultimately show "db_ok d' \<and> has_message mid d'"
    using insert_attachment_ok [OF _ ins] by simp
next
  fix d
  assume "db_ok d \<and> has_message mid d"
  then show "fst (insert_attachment (attachment_row_of mid a) d) \<noteq> Inl Constraint_Error"
    by (auto simp: insert_attachment_def attachment_row_of_def split: option.split)
qed

lemma valid_insert_attachments:
  "valid (\<lambda>d. db_ok d \<and> has_message mid d) (insert_attachments mid as) (\<lambda>_ d. db_ok d \<and> has_message mid d)"
proof (induction "as")
  case Nil
  show ?case by (simp only: apply_calendar_events.simps insert_attachments.simps) (rule valid_return)
next
  case (Cons a "as")
  show ?case unfolding insert_attachments.simps by (rule valid_bind [OF valid_insert_attachment Cons.IH])
qed

lemma valid_deliver:
  assumes "engine_ok E" and "a \<noteq> []"
  shows "valid db_ok (deliver E u now inp a) (\<lambda>_. db_ok)"
proof -
  have cal: "valid (\<lambda>d. db_ok d \<and> has_mailbox mb d \<and> has_message mid d)
      (if in_ical inp = [] then return_tx () else apply_calendar_events u mb mid now (in_ical inp))
      (\<lambda>_ d. db_ok d \<and> has_message mid d)" for mb mid
    by (rule valid_if) (auto intro!: valid_return valid_weaken [OF valid_apply_calendar_events])
  have msg: "valid (\<lambda>d. db_ok d \<and> has_mailbox mb d) (stmt (insert_message (message_row_of inp now mb)))
      (\<lambda>mid d. db_ok d \<and> has_mailbox mb d \<and> has_message mid d)" for mb
    using valid_insert_message [of "message_row_of inp now mb"] by (simp add: message_row_of_def)
  show ?thesis
    unfolding deliver_def
    by (rule valid_bind [where R = "\<lambda>_. db_ok"], (rule valid_stmt; simp add: q_mailbox_id_def))
      (auto intro!: valid_bind [OF valid_upsert_mailbox [OF assms]] valid_bind [OF msg] valid_bind [OF cal]
        valid_bind [OF valid_driver_value [where P = "\<lambda>d. db_ok d \<and> has_mailbox mb d \<and> has_message mid d"
          and Q = "\<lambda>x d. x = mid \<and> db_ok d \<and> has_mailbox mb d \<and> has_message mid d" for mb mid]]
        valid_bind [OF valid_insert_attachments] valid_guard valid_return)
qed


lemma valid_deliver_all:
  assumes "engine_ok E"
  shows "valid db_ok (deliver_all E u now inp raws) (\<lambda>_. db_ok)"
proof (induction raws)
  case Nil
  show ?case by (simp only: deliver_all.simps) (rule valid_return)
next
  case (Cons raw raws)
  have rest: "valid db_ok (bind_tx (deliver_all E u now inp raws) (\<lambda>(pending, stored).
      return_tx (evs @ pending, copy # stored))) (\<lambda>_. db_ok)" for evs copy
    by (rule valid_bind [OF Cons.IH]) (auto simp: split_beta intro: valid_return)
  show ?case
  proof (cases "normalize_address u raw = []")
    case True
    then show ?thesis using Cons.IH by (simp add: Let_def)
  next
    case False
    have "valid db_ok (case r of (evs, copy) \<Rightarrow> bind_tx (deliver_all E u now inp raws) (\<lambda>(pending, stored).
        return_tx (evs @ pending, copy # stored))) (\<lambda>_. db_ok)" for r
      by (cases r) (simp only: prod.case rest)
    from valid_bind [OF valid_deliver [OF assms False] this] show ?thesis
      using False by (simp only: deliver_all.simps Let_def if_False)
  qed
qed

lemma valid_open_pop3:
  assumes "a \<noteq> []"
  shows "valid db_ok (open_pop3_tx now a) (\<lambda>_. db_ok)"
proof (rule validI)
  fix d fs x d' fs'
  assume "db_ok d" and "open_pop3_tx now a d fs = (Inr x, d', fs')"
  then show "db_ok d'"
    using insert_mailbox_ok [OF _ assms]
    by (auto simp: open_pop3_tx_def q_mailbox_id_def q_maildrop_def split: option.splits
        elim!: bind_tx_InrE stmt_InrE return_tx_InrE driver_value_InrE)
next
  fix d fs d' fs'
  assume "db_ok d"
  have "fst (insert_mailbox a now None d) \<noteq> Inl Constraint_Error" if "find (\<lambda>m. mb_address m = a) (mailboxes d) = None"
    using that by (intro insert_mailbox_no_constraint) (auto simp: find_None_iff)
  then show "open_pop3_tx now a d fs \<noteq> (Inl Constraint_Error, d', fs')"
    by (cases "find (\<lambda>m. mb_address m = a) (mailboxes d)")
      (auto simp: open_pop3_tx_def bind_tx_def stmt_def q_mailbox_id_def q_maildrop_def driver_value_def
        return_tx_def split: sum.splits if_splits prod.splits)
qed

section \<open>Requests\<close>

datatype request =
    Rq_Store_Message int message_input
  | Rq_Open_Pop3 int bytes
  | Rq_Delete_Pop3 uint64 "int list"
  | Rq_Get_Message int
  | Rq_Read_Message int
  | Rq_Mark_Detail "message_detail option"
  | Rq_Mark_Read int int int
  | Rq_Set_Read "int list" bool
  | Rq_Delete_Messages "int list"
  | Rq_Delete_Mailbox int
  | Rq_Wipe_All

definition forget :: "'a outcome \<Rightarrow> store_err option \<times> store \<times> event list" where
  "forget out = (case fst out of Inl e \<Rightarrow> Some e | Inr x \<Rightarrow> None, snd out)"

fun run_request ::
  "engine \<Rightarrow> unicode \<Rightarrow> request \<Rightarrow> faults \<Rightarrow> store \<Rightarrow> store_err option \<times> store \<times> event list" where
  "run_request E u (Rq_Store_Message now inp) fs st = forget (store_message E u now inp fs st)"
| "run_request E u (Rq_Open_Pop3 now raw) fs st = forget (open_pop3_mailbox u now raw fs st)"
| "run_request E u (Rq_Delete_Pop3 gen ids) fs st = forget (delete_pop3_messages E gen ids fs st)"
| "run_request E u (Rq_Get_Message i) fs st = forget (get_message E i fs st)"
| "run_request E u (Rq_Read_Message i) fs st = forget (read_message E i fs st)"
| "run_request E u (Rq_Mark_Detail det) fs st = forget (mark_read_detail det fs st)"
| "run_request E u (Rq_Mark_Read i mb was) fs st = forget (mark_read i mb was fs st)"
| "run_request E u (Rq_Set_Read ids r) fs st = forget (set_read_state E ids r fs st)"
| "run_request E u (Rq_Delete_Messages ids) fs st = forget (remove_messages E ids fs st)"
| "run_request E u (Rq_Delete_Mailbox i) fs st = forget (remove_mailbox i fs st)"
| "run_request E u Rq_Wipe_All fs st = forget (wipe_all fs st)"

section \<open>The invariant\<close>

definition sound :: "'a outcome \<Rightarrow> bool" where
  "sound out \<longleftrightarrow> db_ok (sdb (fst (snd out))) \<and> fst out \<noteq> Inl Constraint_Error"

lemma sound_done [intro]: "db_ok (sdb st) \<Longrightarrow> sound (Inr x, st, evs)"
  by (simp add: sound_def)

lemma sound_with_pop3 [intro]:
  "db_ok (sdb st) \<Longrightarrow> (\<And>fs. sound (k fs)) \<Longrightarrow> sound (with_pop3 fs st k)"
  by (auto simp: with_pop3_def sound_def)

lemma sound_finish:
  "db_ok (fst (snd run)) \<Longrightarrow> fst run \<noteq> Inl Constraint_Error \<Longrightarrow> sound (finish st evs out run)"
  by (auto simp: sound_def finish_def split: prod.splits sum.splits)

lemma sound_in_tx:
  assumes "valid db_ok body (\<lambda>_. db_ok)" and "db_ok (sdb st)"
  shows "sound (finish st evs out (in_tx body (sdb st) fs))"
  by (rule sound_finish [OF keeps_in_tx [OF valid_keeps [OF assms(1)] assms(2)] in_tx_no_constraint [OF assms]])

lemma valid_q_affected: "valid db_ok (stmt (q_affected E ids)) (\<lambda>_. db_ok)"
  by (rule valid_stmt) (auto simp: q_affected_def)

lemma valid_update_is_read: "v \<in> {0, 1} \<Longrightarrow> valid db_ok (stmt (update_is_read P v)) (\<lambda>_. db_ok)"
  by (rule valid_stmt) (erule update_is_read_ok, assumption, assumption, simp add: update_is_read_def)

lemma valid_delete_messages: "valid db_ok (stmt (delete_messages ids)) (\<lambda>_. db_ok)"
  by (rule valid_stmt) (auto simp: delete_messages_def delete_messages_where_ok)

lemma valid_read_message_detail: "valid db_ok (read_message_detail E i) (\<lambda>_. db_ok)"
  unfolding read_message_detail_def
proof (rule valid_bind [where R = "\<lambda>_. db_ok"])
  show "valid db_ok (stmt (q_message i)) (\<lambda>_. db_ok)"
    by (rule valid_stmt) (auto simp: q_message_def)
  have "valid db_ok (stmt (q_attachments E i)) (\<lambda>_. db_ok)"
    by (rule valid_stmt) (auto simp: q_attachments_def)
  then show "valid db_ok (case row of None \<Rightarrow> return_tx None | Some m \<Rightarrow>
      bind_tx (stmt (q_attachments E i)) (\<lambda>as. return_tx (Some (detail_columns m, map attachment_info as))))
      (\<lambda>_. db_ok)" for row
    by (cases row) (auto intro: valid_return valid_bind)
qed

lemma store_message_sound: "engine_ok E \<Longrightarrow> db_ok (sdb st) \<Longrightarrow> sound (store_message E u now inp fs st)"
  unfolding store_message_def
  by (intro sound_with_pop3 sound_in_tx valid_bind [OF valid_deliver_all] valid_return)

lemma open_pop3_sound: "db_ok (sdb st) \<Longrightarrow> sound (open_pop3_mailbox u now raw fs st)"
  unfolding open_pop3_mailbox_def Let_def
  by (cases "normalize_address u raw = []") (auto simp: sound_def [of "(Inl Empty_Address, st, [])"]
      intro!: sound_with_pop3 sound_in_tx valid_open_pop3)

lemma get_message_sound: "db_ok (sdb st) \<Longrightarrow> sound (get_message E i fs st)"
  unfolding get_message_def
  by (intro sound_with_pop3 sound_in_tx valid_bind [OF valid_read_message_detail] valid_return)

lemma valid_read_message_tx: "valid db_ok (read_message_tx E i) (\<lambda>_. db_ok)"
  unfolding read_message_tx_def
proof (rule valid_bind [OF valid_read_message_detail])
  fix r :: "(message_row \<times> attachment_row list) option"
  have "valid db_ok (bind_tx (stmt (update_is_read (\<lambda>x. msg_id x = i) 1)) (\<lambda>_. return_tx (Commit (r, True))))
      (\<lambda>_. db_ok)"
    by (rule valid_bind [OF valid_update_is_read]) (auto intro: valid_return)
  then show "valid db_ok (case r of None \<Rightarrow> return_tx (Roll_Back (None, False))
      | Some (m, as) \<Rightarrow> if msg_is_read m = 0
          then bind_tx (stmt (update_is_read (\<lambda>x. msg_id x = i) 1)) (\<lambda>_. return_tx (Commit (r, True)))
          else return_tx (Commit (r, False))) (\<lambda>_. db_ok)"
    by (auto split: option.split intro: valid_return)
qed

lemma read_message_sound: "db_ok (sdb st) \<Longrightarrow> sound (read_message E i fs st)"
  unfolding read_message_def by (intro sound_with_pop3 sound_in_tx valid_read_message_tx)

lemma mark_read_detail_sound: "db_ok (sdb st) \<Longrightarrow> sound (mark_read_detail det fs st)"
  unfolding mark_read_detail_def
  by (auto split: option.split intro!: sound_with_pop3 sound_in_tx valid_bind [OF valid_update_is_read]
      valid_bind [OF valid_driver_value [where Q = "\<lambda>_. db_ok"]] valid_return)

lemma set_read_state_sound: "db_ok (sdb st) \<Longrightarrow> sound (set_read_state E ids r fs st)"
  unfolding set_read_state_def
  by (auto intro!: sound_with_pop3 sound_in_tx valid_bind [OF valid_q_affected]
      valid_bind [OF valid_update_is_read] valid_return)

lemma remove_messages_sound: "db_ok (sdb st) \<Longrightarrow> sound (remove_messages E ids fs st)"
  unfolding remove_messages_def
  by (auto intro!: sound_with_pop3 sound_in_tx valid_bind [OF valid_q_affected]
      valid_bind [OF valid_delete_messages] valid_return)

text \<open>The operations that run single statements outside a transaction.\<close>

lemma delete_pop3_sound: "db_ok (sdb st) \<Longrightarrow> sound (delete_pop3_messages E gen ids fs st)"
  unfolding delete_pop3_messages_def
  by (auto intro!: sound_with_pop3 sound_finish simp: bind_stmt q_affected_def
      delete_messages_def delete_messages_where_ok)

lemma mark_read_sound:
  assumes "db_ok (sdb st)"
  shows "sound (mark_read i mb was fs st)"
proof -
  have "db_ok (snd (update_is_read P 1 (sdb st)))" for P
    by (rule update_is_read_ok [OF assms, of 1 P]) (auto simp: update_is_read_def)
  then show ?thesis
    unfolding mark_read_def using assms
    by (auto intro!: sound_with_pop3 sound_finish simp: bind_stmt driver_value_run
        update_is_read_def [of _ _ "sdb st"] split: if_splits)
qed

lemma remove_mailbox_sound: "db_ok (sdb st) \<Longrightarrow> sound (remove_mailbox i fs st)"
  unfolding remove_mailbox_def
  by (auto intro!: sound_with_pop3 sound_finish simp: bind_stmt driver_value_run
      delete_mailbox_row_def delete_mailboxes_where_ok split: if_splits)


lemma valid_exec_all:
  "\<forall>f\<in>set fs. \<forall>d. db_ok d \<longrightarrow> db_ok (f d) \<Longrightarrow> keeps db_ok (exec_all fs)"
  by (induction fs) (auto simp del: return_tx_simp intro!: keeps_bind keeps_stmt keeps_return)

text \<open>The statements of \<open>WipeAll\<close> keep foreign keys only in this order; the last one needs empty tables.\<close>

lemma wipe_run:
  assumes "in_tx (bind_tx (exec_all wipe_statements) (\<lambda>_. return_tx (Commit ()))) d fs = (r, d', fs')"
  shows "case r of Inl e \<Rightarrow> d' = d \<and> e = Driver_Error | Inr x \<Rightarrow> d' = empty_db"
  using assms
  by (auto simp: in_tx_def wipe_statements_def bind_tx_def stmt_def delete_messages_where_def
      delete_mailboxes_where_def empty_db_def Let_def split: if_splits)

lemma wipe_all_cases:
  "wipe_all fs st = (Inr (), \<lparr>sdb = empty_db, generation = generation st + 1\<rparr>, [reset_event])
   \<or> (\<exists>e. wipe_all fs st = (Inl e, st, []) \<and> e \<noteq> Constraint_Error)"
proof -
  obtain r d' fs' where run: "in_tx (bind_tx (exec_all wipe_statements) (\<lambda>_. return_tx (Commit ())))
      (sdb st) (tl fs) = (r, d', fs')" by (metis prod_cases3)
  from wipe_run [OF run] show ?thesis
    by (auto simp: wipe_all_def with_pop3_def finish_def run split: sum.splits)
qed

lemma wipe_all_sound: "db_ok (sdb st) \<Longrightarrow> sound (wipe_all fs st)"
  using wipe_all_cases [of fs st] by (auto simp: sound_def)

lemma run_request_sound:
  assumes "engine_ok E" and "db_ok (sdb st)" and "run_request E u r fs st = (err, st', evs)"
  shows "db_ok (sdb st') \<and> err \<noteq> Some Constraint_Error"
proof -
  have *: "sound out \<Longrightarrow> forget out = (err, st', evs) \<Longrightarrow> ?thesis" for out :: "'b outcome"
    by (auto simp: sound_def forget_def split: sum.splits)
  show ?thesis
    using assms(3)
    by (cases r) (auto dest!: * [rotated] intro!: store_message_sound open_pop3_sound delete_pop3_sound
        get_message_sound read_message_sound mark_read_detail_sound mark_read_sound set_read_state_sound
        remove_messages_sound remove_mailbox_sound wipe_all_sound assms(1,2))
qed

text \<open>A run of the store: requests of any clients, one after the other, with any faults.\<close>

inductive store_run ::
  "engine \<Rightarrow> unicode \<Rightarrow> store \<Rightarrow> (request \<times> store_err option \<times> event list) list \<Rightarrow> store \<Rightarrow> bool"
  for E :: engine and u :: unicode where
  store_run_refl: "store_run E u st [] st"
| store_run_step: "store_run E u st log st1 \<Longrightarrow> run_request E u r fs st1 = (err, st2, evs) \<Longrightarrow>
    store_run E u st (log @ [(r, err, evs)]) st2"

inductive_cases store_run_snocE: "store_run E u st (log @ [entry]) st'"


section \<open>Failed requests\<close>

definition no_effect :: "store \<Rightarrow> 'a outcome \<Rightarrow> bool" where
  "no_effect st out \<longleftrightarrow> (\<forall>e. fst out = Inl e \<longrightarrow> snd out = (st, []))"

lemma no_effect_Inr [simp]: "no_effect st (Inr x, p)"
  by (simp add: no_effect_def)

lemma no_effect_same [simp]: "no_effect st (r, st, [])"
  by (simp add: no_effect_def)

lemma no_effect_with_pop3: "(\<And>fs. no_effect st (k fs)) \<Longrightarrow> no_effect st (with_pop3 fs st k)"
  by (simp add: with_pop3_def)

lemma no_effect_in_tx: "no_effect st (finish st evs out (in_tx body (sdb st) fs))"
  using in_tx_Inl [of body "sdb st" fs]
  by (auto simp: no_effect_def finish_def split: prod.splits sum.splits)

lemma delete_pop3_no_effect: "no_effect st (delete_pop3_messages E gen ids fs st)"
  unfolding delete_pop3_messages_def
  by (rule no_effect_with_pop3)
    (auto simp: no_effect_def finish_def bind_stmt q_affected_def delete_messages_def split: if_splits)

lemma wipe_all_no_effect: "no_effect st (wipe_all fs st)"
  using wipe_all_cases [of fs st] by auto

lemmas no_effect_rules = no_effect_with_pop3 no_effect_in_tx no_effect_same no_effect_Inr

lemma request_no_effect:
  assumes "run_request E u r fs st = (Some e, st', evs)"
    and "\<And>i mb was. r \<noteq> Rq_Mark_Read i mb was" and "\<And>i. r \<noteq> Rq_Delete_Mailbox i"
  shows "st' = st \<and> evs = []"
proof -
  have *: "no_effect st out \<Longrightarrow> forget out = (Some e, st', evs) \<Longrightarrow> ?thesis" for out :: "'b outcome"
    by (auto simp: no_effect_def forget_def split: sum.splits)
  show ?thesis
    using assms
    by (cases r)
      (auto dest!: * [rotated] intro!: no_effect_rules delete_pop3_no_effect wipe_all_no_effect
        simp: store_message_def open_pop3_mailbox_def Let_def get_message_def read_message_def
          mark_read_detail_def set_read_state_def remove_messages_def split: option.splits if_splits)
qed

text \<open>The two requests that read \<open>RowsAffected\<close> after an autocommitted statement emit nothing on an error.\<close>

lemma finish_Inl_silent: "forget (finish st evs out run) = (Some e, st', ev) \<Longrightarrow> ev = []"
  by (auto simp: forget_def finish_def split: prod.splits sum.splits)

lemma request_silent:
  assumes "run_request E u r fs st = (Some e, st', evs)"
  shows "evs = []"
proof (cases "(\<exists>i mb was. r = Rq_Mark_Read i mb was) \<or> (\<exists>i. r = Rq_Delete_Mailbox i)")
  case True
  with assms show ?thesis
    by (auto simp: mark_read_def remove_mailbox_def with_pop3_def forget_def finish_def
        split: if_splits prod.splits sum.splits)
next
  case False
  with request_no_effect [OF assms] show ?thesis by blast
qed

text \<open>A statement that is committed on its own has its whole effect or none, though its rows cannot be counted.\<close>

lemma autocommitted_whole:
  assumes "run_request E u r fs st = (Some e, st', evs)"
    and "(\<exists>i mb was. r = Rq_Mark_Read i mb was) \<or> (\<exists>i. r = Rq_Delete_Mailbox i)"
  shows "st' = st \<or> (\<exists>evs'. run_request E u r [] st = (None, st', evs'))"
  using assms
  by (auto simp: mark_read_def remove_mailbox_def with_pop3_def forget_def finish_def bind_stmt driver_value_run
      update_is_read_def delete_mailbox_row_def split: if_splits)

section \<open>Message ids within a generation\<close>

definition same_message :: "message_row \<Rightarrow> message_row \<Rightarrow> bool" where
  "same_message m m' \<longleftrightarrow> m\<lparr>msg_is_read := 0\<rparr> = m'\<lparr>msg_is_read := 0\<rparr>"

lemma same_message_refl [simp]: "same_message m m"
  by (simp add: same_message_def)

lemma same_message_read [simp]: "same_message m (m'\<lparr>msg_is_read := v\<rparr>) \<longleftrightarrow> same_message m m'"
  by (simp add: same_message_def)

text \<open>Every message of \<open>d\<close> is one of \<open>d0\<close> or has an id \<open>d0\<close> never gave.\<close>

definition grows :: "db \<Rightarrow> db \<Rightarrow> bool" where
  "grows d0 d \<longleftrightarrow> message_seq d0 \<le> message_seq d
     \<and> (\<forall>m\<in>set (messages d). message_seq d0 < msg_id m \<or> (\<exists>m0\<in>set (messages d0). same_message m0 m))"

lemma grows_refl [simp]: "grows d d"
  unfolding grows_def using same_message_refl by blast

lemma grows_frame: "grows d0 d \<Longrightarrow> messages d' = messages d \<Longrightarrow> message_seq d' = message_seq d \<Longrightarrow> grows d0 d'"
  by (simp add: grows_def)

lemma grows_fewer:
  "grows d0 d \<Longrightarrow> set (messages d') \<subseteq> set (messages d) \<Longrightarrow> message_seq d' = message_seq d \<Longrightarrow> grows d0 d'"
  by (auto simp: grows_def)

lemma grows_insert_message: "grows d0 d \<Longrightarrow> insert_message row d = (Inr i, d') \<Longrightarrow> grows d0 d'"
  using insert_messageD [of row d i d'] new_id_SomeD(1) [of "message_seq d" "map msg_id (messages d)" i]
  by (force simp: grows_def)

lemma grows_update_is_read: "grows d0 d \<Longrightarrow> update_is_read P v d = (Inr n, d') \<Longrightarrow> grows d0 d'"
  unfolding grows_def update_is_read_def by force

lemma grows_delete_messages: "grows d0 d \<Longrightarrow> delete_messages ids d = (Inr x, d') \<Longrightarrow> grows d0 d'"
  by (erule grows_fewer) (auto simp: delete_messages_def delete_messages_where_def Let_def)

lemma grows_delete_mailbox: "grows d0 d \<Longrightarrow> delete_mailbox_row i d = (Inr x, d') \<Longrightarrow> grows d0 d'"
  by (erule grows_fewer)
    (auto simp: delete_mailbox_row_def delete_mailboxes_where_def delete_messages_where_def Let_def)

lemma grows_insert_mailbox: "grows d0 d \<Longrightarrow> insert_mailbox a c l d = (Inr x, d') \<Longrightarrow> grows d0 d'"
  by (erule grows_frame) (auto simp: insert_mailbox_def split: if_splits option.splits)

lemma grows_upsert_mailbox: "grows d0 d \<Longrightarrow> upsert_mailbox E a now d = (Inr x, d') \<Longrightarrow> grows d0 d'"
  by (erule grows_frame) (auto simp: upsert_mailbox_def insert_mailbox_def split: if_splits option.splits)

lemma grows_insert_attachment: "grows d0 d \<Longrightarrow> insert_attachment row d = (Inr x, d') \<Longrightarrow> grows d0 d'"
  by (erule grows_frame) (auto simp: insert_attachment_def split: if_splits option.splits)

lemma grows_insert_calendar: "grows d0 d \<Longrightarrow> insert_calendar_row row d = (Inr x, d') \<Longrightarrow> grows d0 d'"
  by (erule grows_frame) (auto simp: insert_calendar_row_def split: if_splits option.splits)

lemma grows_update_calendar: "grows d0 d \<Longrightarrow> update_calendar i f d = (Inr x, d') \<Longrightarrow> grows d0 d'"
  by (erule grows_frame) (auto simp: update_calendar_def)

lemma grows_queries:
  "grows d0 d \<Longrightarrow> q_mailbox_id a d = (Inr m, d') \<Longrightarrow> grows d0 d'"
  "grows d0 d \<Longrightarrow> q_calendar mb uid d = (Inr c, d') \<Longrightarrow> grows d0 d'"
  "grows d0 d \<Longrightarrow> q_maildrop mb d = (Inr ms, d') \<Longrightarrow> grows d0 d'"
  "grows d0 d \<Longrightarrow> q_affected E ids d = (Inr is, d') \<Longrightarrow> grows d0 d'"
  "grows d0 d \<Longrightarrow> q_message i d = (Inr row, d') \<Longrightarrow> grows d0 d'"
  "grows d0 d \<Longrightarrow> q_attachments E i d = (Inr as, d') \<Longrightarrow> grows d0 d'"
  by (auto simp: q_mailbox_id_def q_calendar_def q_maildrop_def q_affected_def q_message_def q_attachments_def)

lemmas grows_stmts = grows_insert_message grows_update_is_read grows_delete_messages grows_delete_mailbox
  grows_insert_mailbox grows_upsert_mailbox grows_insert_attachment grows_insert_calendar
  grows_update_calendar grows_queries

lemma keeps_grows:
  "keeps (grows d0) (stmt (insert_message row))"
  "keeps (grows d0) (stmt (update_is_read P v))"
  "keeps (grows d0) (stmt (delete_messages ids))"
  "keeps (grows d0) (stmt (delete_mailbox_row i))"
  "keeps (grows d0) (stmt (insert_mailbox a c l))"
  "keeps (grows d0) (stmt (upsert_mailbox E a now))"
  "keeps (grows d0) (stmt (insert_attachment att))"
  "keeps (grows d0) (stmt (insert_calendar_row cal))"
  "keeps (grows d0) (stmt (update_calendar i f))"
  "keeps (grows d0) (stmt (q_mailbox_id a))"
  "keeps (grows d0) (stmt (q_calendar mb uid))"
  "keeps (grows d0) (stmt (q_maildrop mb))"
  "keeps (grows d0) (stmt (q_affected E ids))"
  "keeps (grows d0) (stmt (q_message i))"
  "keeps (grows d0) (stmt (q_attachments E i))"
  by (rule keeps_stmt; erule (1) grows_stmts)+

lemma keeps_apply_calendar_events: "keeps (grows d0) (apply_calendar_events u mb mid now es)"
  by (induction es) (auto simp only: apply_calendar_events.simps apply_calendar_event_def
      insert_calendar_event_def intro!: keeps_rules keeps_grows)

lemma keeps_insert_attachments: "keeps (grows d0) (insert_attachments mid as)"
  by (induction "as") (auto simp only: insert_attachments.simps intro!: keeps_rules keeps_grows)

lemma keeps_deliver_all: "keeps (grows d0) (deliver_all E u now inp raws)"
  by (induction raws)
    (auto simp only: deliver_all.simps deliver_def Let_def
      intro!: keeps_rules keeps_grows keeps_apply_calendar_events keeps_insert_attachments)

lemma keeps_read_message_detail: "keeps (grows d0) (read_message_detail E i)"
  unfolding read_message_detail_def by (intro keeps_rules keeps_grows)


definition steady :: "store \<Rightarrow> 'a outcome \<Rightarrow> bool" where
  "steady st out \<longleftrightarrow> grows (sdb st) (sdb (fst (snd out))) \<and> generation (fst (snd out)) = generation st"

lemma steady_same [simp]: "steady st (r, st, evs)"
  by (simp add: steady_def)

lemma steady_with_pop3: "(\<And>fs. steady st (k fs)) \<Longrightarrow> steady st (with_pop3 fs st k)"
  by (simp add: with_pop3_def)

lemma steady_finish: "grows (sdb st) (fst (snd run)) \<Longrightarrow> steady st (finish st evs out run)"
  by (auto simp: steady_def finish_def split: prod.splits sum.splits)

lemma steady_in_tx:
  "keeps (grows (sdb st)) body \<Longrightarrow> steady st (finish st evs out (in_tx body (sdb st) fs))"
  by (rule steady_finish) (auto intro: keeps_in_tx)

lemma steady_if: "steady st x \<Longrightarrow> steady st y \<Longrightarrow> steady st (if b then x else y)"
  by simp

lemmas steady_rules = steady_if steady_same steady_with_pop3 steady_in_tx keeps_rules keeps_grows
  keeps_deliver_all keeps_read_message_detail

lemma store_message_steady: "steady st (store_message E u now inp fs st)"
  unfolding store_message_def by (intro steady_rules)

lemma open_pop3_steady: "steady st (open_pop3_mailbox u now raw fs st)"
  unfolding open_pop3_mailbox_def Let_def open_pop3_tx_def by (intro steady_rules)

lemma get_message_steady: "steady st (get_message E i fs st)"
  unfolding get_message_def by (intro steady_rules)

lemma read_message_steady: "steady st (read_message E i fs st)"
  unfolding read_message_def read_message_tx_def by (intro steady_rules)

lemma mark_read_detail_steady: "steady st (mark_read_detail det fs st)"
  unfolding mark_read_detail_def by (cases det) (simp_all only: option.case, (intro steady_rules)+)

lemma set_read_state_steady: "steady st (set_read_state E ids r fs st)"
  unfolding set_read_state_def by (intro steady_rules)

lemma remove_messages_steady: "steady st (remove_messages E ids fs st)"
  unfolding remove_messages_def by (intro steady_rules)

lemma grows_effects:
  "grows d (snd (update_is_read P v d))" "grows d (snd (delete_messages ids d))"
  "grows d (snd (delete_mailbox_row i d))"
  by (rule grows_update_is_read [OF grows_refl], simp add: update_is_read_def)
    (rule grows_delete_messages [OF grows_refl], simp add: delete_messages_def,
     rule grows_delete_mailbox [OF grows_refl], simp add: delete_mailbox_row_def)

lemma delete_pop3_steady: "steady st (delete_pop3_messages E gen ids fs st)"
  unfolding delete_pop3_messages_def
  by (intro steady_if steady_same steady_with_pop3 steady_finish)
    (use grows_effects(2) in \<open>auto simp: bind_stmt q_affected_def delete_messages_def\<close>)

lemma mark_read_steady: "steady st (mark_read i mb was fs st)"
  unfolding mark_read_def
  by (intro steady_if steady_same steady_with_pop3 steady_finish)
    (use grows_effects(1) in \<open>auto simp: bind_stmt driver_value_run update_is_read_def\<close>)

lemma remove_mailbox_steady: "steady st (remove_mailbox i fs st)"
  unfolding remove_mailbox_def
  by (intro steady_with_pop3 steady_finish)
    (use grows_effects(3) in \<open>auto simp: bind_stmt driver_value_run delete_mailbox_row_def\<close>)

lemmas steady_ops = store_message_steady open_pop3_steady delete_pop3_steady get_message_steady
  read_message_steady mark_read_detail_steady mark_read_steady set_read_state_steady
  remove_messages_steady remove_mailbox_steady

lemma request_steady:
  assumes "run_request E u r fs st = (err, st', evs)"
  shows "if r = Rq_Wipe_All \<and> err = None then generation st' = generation st + 1
         else grows (sdb st) (sdb st') \<and> generation st' = generation st"
proof -
  have *: "steady st out \<Longrightarrow> forget out = (err, st', evs) \<Longrightarrow> grows (sdb st) (sdb st') \<and> generation st' = generation st"
    for out :: "'b outcome"
    by (auto simp: steady_def forget_def split: sum.splits)
  show ?thesis
  proof (cases "r = Rq_Wipe_All")
    case True
    with assms wipe_all_cases [of fs st] show ?thesis by (auto simp: forget_def)
  next
    case False
    then show ?thesis using assms by (cases r) (auto dest: * [OF steady_ops(1)] * [OF steady_ops(2)]
        * [OF steady_ops(3)] * [OF steady_ops(4)] * [OF steady_ops(5)] * [OF steady_ops(6)]
        * [OF steady_ops(7)] * [OF steady_ops(8)] * [OF steady_ops(9)] * [OF steady_ops(10)])
  qed
qed


lemma grows_trans: "grows d0 d1 \<Longrightarrow> grows d1 d2 \<Longrightarrow> grows d0 d2"
proof -
  assume a: "grows d0 d1" and b: "grows d1 d2"
  have "message_seq d0 < msg_id m \<or> (\<exists>m0\<in>set (messages d0). same_message m0 m)" if "m \<in> set (messages d2)" for m
  proof (cases "message_seq d1 < msg_id m")
    case True
    then show ?thesis using a by (auto simp: grows_def)
  next
    case False
    moreover have "message_seq d1 < msg_id m \<or> (\<exists>m1\<in>set (messages d1). same_message m1 m)"
      using b that by (simp add: grows_def)
    ultimately obtain m1 where m1: "m1 \<in> set (messages d1)" "same_message m1 m" by blast
    then have "msg_id m1 = msg_id m"
      unfolding same_message_def by (metis message_row.select_convs(1) message_row.surjective message_row.update_convs(12))
    with m1 a show ?thesis unfolding grows_def same_message_def by metis
  qed
  with a b show ?thesis by (simp add: grows_def)
qed

definition wipes :: "(request \<times> store_err option \<times> event list) list \<Rightarrow> nat" where
  "wipes log = length (filter (\<lambda>(r, err, evs). r = Rq_Wipe_All \<and> err = None) log)"

lemma wipes_simps [simp]:
  "wipes [] = 0"
  "wipes (log @ [(r, err, evs)]) = wipes log + (if r = Rq_Wipe_All \<and> err = None then 1 else 0)"
  by (simp_all add: wipes_def)

lemma run_generation:
  "store_run E u st log st' \<Longrightarrow>
     generation st' = generation st + of_nat (wipes log) \<and> (wipes log = 0 \<longrightarrow> grows (sdb st) (sdb st'))"
proof (induction rule: store_run.induct)
  case (store_run_refl st)
  then show ?case by simp
next
  case (store_run_step st log st1 r fs err st2 evs)
  with request_steady [OF store_run_step.hyps(2)] show ?case
    by (auto intro: grows_trans split: if_splits)
qed

lemma run_sound:
  "store_run E u st log st' \<Longrightarrow> engine_ok E \<Longrightarrow> db_ok (sdb st) \<Longrightarrow>
     db_ok (sdb st') \<and> (\<forall>r err evs. (r, err, evs) \<in> set log \<longrightarrow> err \<noteq> Some Constraint_Error)"
proof (induction rule: store_run.induct)
  case (store_run_refl st)
  then show ?case by simp
next
  case (store_run_step st log st1 r fs err st2 evs)
  then show ?case using run_request_sound [OF _ _ store_run_step.hyps(2)] by auto
qed

text \<open>Equal generations with fewer than \<open>2 ^ 64\<close> wipes in between mean no wipe at all.\<close>

lemma same_generation_no_wipe:
  assumes "generation st' = generation st + of_nat n" and "generation st' = generation st" and "n < 2 ^ 64"
  shows "n = 0"
proof -
  have "(of_nat n :: uint64) = 0" using assms(1,2) by simp
  then have "2 ^ 64 dvd n" by (simp add: word_of_nat_eq_0_iff)
  with assms(3) show ?thesis using nat_dvd_not_less by blast
qed

lemma request_messages_pop3:
  assumes "delete_pop3_messages E gen ids fs st = (res, st', evs)"
  shows "messages (sdb st') = messages (sdb st) \<or>
    (gen = generation st \<and> messages (sdb st') = filter (\<lambda>m. msg_id m \<notin> set ids) (messages (sdb st)))"
  using assms
  by (auto simp: delete_pop3_messages_def with_pop3_def finish_def bind_stmt q_affected_def delete_messages_def
      delete_messages_where_def Let_def split: if_splits)

definition address_of :: "db \<Rightarrow> int \<Rightarrow> bytes \<Rightarrow> bool" where
  "address_of d mb a \<longleftrightarrow> (\<exists>m\<in>set (mailboxes d). mb_id m = mb \<and> mb_address m = a)"

lemma open_pop3_snapshot:
  assumes "open_pop3_mailbox u now raw fs st = (Inr snap, st', evs)"
  shows "snap_generation snap = generation st' \<and>
    (\<exists>mb. address_of (sdb st') mb (normalize_address u raw)
      \<and> snap_messages snap = map (\<lambda>m. \<lparr>p3_id = msg_id m, p3_raw = msg_raw m\<rparr>)
          (sort_key maildrop_key_of (filter (\<lambda>m. msg_mailbox m = mb) (messages (sdb st')))))"
proof -
  let ?a = "normalize_address u raw"
  from assms obtain mb new msgs d fs' where run:
      "in_tx (open_pop3_tx now ?a) (sdb st) (tl fs) = (Inr (mb, new, msgs), d, fs')"
    and snap: "snap = \<lparr>snap_messages = msgs, snap_generation = generation st\<rparr>" and st': "st' = st\<lparr>sdb := d\<rparr>"
    by (auto simp: open_pop3_mailbox_def Let_def with_pop3_def finish_def split: if_splits prod.splits sum.splits)
  have "open_pop3_tx now ?a (sdb st) fs0 = (Inr (Roll_Back x), d1, fs1) \<Longrightarrow> False" for fs0 x d1 fs1
    by (auto simp: open_pop3_tx_def elim!: bind_tx_InrE return_tx_InrE split: option.splits)
  with in_tx_Inr [OF run] obtain fs1 where
    body: "open_pop3_tx now ?a (sdb st) (tl (tl fs)) = (Inr (Commit (mb, new, msgs)), d, fs1)" by blast
  then have "address_of d mb ?a \<and>
      msgs = map (\<lambda>m. \<lparr>p3_id = msg_id m, p3_raw = msg_raw m\<rparr>)
          (sort_key maildrop_key_of (filter (\<lambda>m. msg_mailbox m = mb) (messages d)))"
    by (auto simp: open_pop3_tx_def q_mailbox_id_def q_maildrop_def insert_mailbox_def
        dest!: find_mailbox_SomeD elim!: bind_tx_InrE stmt_InrE return_tx_InrE driver_value_InrE
        split: option.splits if_splits simp: address_of_def)
  then show ?thesis by (auto simp: snap st')
qed

end
