(* ===== verification/Store_Props.thy ===== *)
theory Store_Props
  imports Store_Run
begin

text \<open>
  What the store guarantees its clients: one copy of a message per recipient, the events that
  announce it, atomicity, the schema invariant, and the safety of a deletion by a POP3 session
  whose snapshot is old.
\<close>

section \<open>What a delivery does\<close>

definition copy_of :: "message_input \<Rightarrow> int \<Rightarrow> int \<times> int \<Rightarrow> message_row" where
  "copy_of inp now p = (message_row_of inp now (fst p))\<lparr>msg_id := snd p\<rparr>"

definition attachment_copies :: "message_input \<Rightarrow> int \<times> int \<Rightarrow> attachment_row list" where
  "attachment_copies inp p = map (attachment_row_of (snd p)) (in_attachments inp)"

definition without_id :: "attachment_row \<Rightarrow> attachment_row" where
  "without_id a = a\<lparr>att_id := 0\<rparr>"

definition delivery_events :: "message_input \<Rightarrow> int \<times> int \<Rightarrow> event list" where
  "delivery_events inp p =
     (if in_ical inp = [] then [] else [calendar_changed (fst p)])
     @ [message_new (fst p) (snd p) (in_subject inp) (in_from_address inp) (in_from_name inp)]"

text \<open>The mailboxes of a database: addresses and ids, in order of creation.\<close>

definition directory :: "db \<Rightarrow> (bytes \<times> int) list" where
  "directory d = map (\<lambda>m. (mb_address m, mb_id m)) (mailboxes d)"

lemma fst_directory: "fst ` set (directory d) = mb_address ` set (mailboxes d)"
  by (simp add: directory_def image_image)

lemma directory_touch: "map (\<lambda>m. (mb_address m, mb_id m)) (map (touch_mailbox a now) ms)
    = map (\<lambda>m. (mb_address m, mb_id m)) ms"
  by (simp add: touch_mailbox_def)

lemma upsert_directory:
  assumes "upsert_mailbox E a now d = (Inr mb, d')"
  shows "directory d' = directory d @ (if a \<in> fst ` set (directory d) then [] else [(a, mb)])"
    and "(a, mb) \<in> set (directory d')"
    and "messages d' = messages d" "attachments d' = attachments d"
proof -
  have "directory d' = directory d @ (if a \<in> fst ` set (directory d) then [] else [(a, mb)])
      \<and> (a, mb) \<in> set (directory d') \<and> messages d' = messages d \<and> attachments d' = attachments d"
  proof (cases "find (\<lambda>m. mb_address m = a) (mailboxes d)")
    case None
    then have "a \<notin> fst ` set (directory d)" by (auto simp: find_None_iff directory_def)
    with assms None show ?thesis
      by (auto simp: upsert_mailbox_def insert_mailbox_def directory_def split: if_splits option.splits)
  next
    case (Some m)
    then have m: "m \<in> set (mailboxes d)" "mb_address m = a" by (auto dest: find_mailbox_SomeD)
    then have "(a, mb_id m) \<in> set (directory d)" by (force simp: directory_def)
    moreover from this have "a \<in> fst ` set (directory d)" by force
    moreover have "d' = d\<lparr>mailboxes := map (touch_mailbox a now) (mailboxes d), mailbox_seq := conflict_seq E (mailbox_seq d)\<rparr>"
        "mb = mb_id m"
      using assms Some by (simp_all add: upsert_mailbox_def)
    moreover from this have "directory d' = directory d" by (simp add: directory_def directory_touch del: map_map)
    ultimately show ?thesis by simp
  qed
  then show "directory d' = directory d @ (if a \<in> fst ` set (directory d) then [] else [(a, mb)])"
    "(a, mb) \<in> set (directory d')" "messages d' = messages d" "attachments d' = attachments d" by blast+
qed

lemma insert_attachments_Inr:
  "insert_attachments mid as d fs = (Inr x, d', fs') \<Longrightarrow>
     mailboxes d' = mailboxes d \<and> messages d' = messages d
     \<and> map without_id (attachments d') = map without_id (attachments d) @ map (attachment_row_of mid) as"
proof (induction "as" arbitrary: d fs)
  case Nil
  then show ?case by simp
next
  case (Cons a "as")
  from Cons.prems obtain y d1 fs1 where one: "stmt (insert_attachment (attachment_row_of mid a)) d fs = (Inr y, d1, fs1)"
      and rest: "insert_attachments mid as d1 fs1 = (Inr x, d', fs')"
    by (auto elim: bind_tx_InrE)
  from one obtain i where
    "d1 = d\<lparr>attachments := attachments d @ [(attachment_row_of mid a)\<lparr>att_id := i\<rparr>], attachment_seq := i\<rparr>"
    by (auto elim!: stmt_InrE insert_attachmentD)
  with Cons.IH [OF rest] show ?case by (simp add: without_id_def attachment_row_of_def)
qed

text \<open>One recipient.\<close>

lemma deliver_Inr:
  assumes "engine_ok E" and "db_ok d" and "a \<noteq> []"
    and run: "deliver E u now inp a d fs = (Inr (evs, p), d', fs')"
  shows "messages d' = messages d @ [copy_of inp now p]
    \<and> directory d' = directory d @ (if a \<in> fst ` set (directory d) then [] else [(a, fst p)])
    \<and> (a, fst p) \<in> set (directory d')
    \<and> map without_id (attachments d') = map without_id (attachments d) @ attachment_copies inp p
    \<and> evs = (if a \<in> fst ` set (directory d) then [] else [mailbox_new (fst p) a]) @ delivery_events inp p"
proof -
  from run obtain existing mb mid d1 d2 d3 d4 fs1 fs2 fs3 x y
    where ex: "existing = map_option mb_id (find (\<lambda>m. mb_address m = a) (mailboxes d))"
      and up: "upsert_mailbox E a now d = (Inr mb, d1)"
      and ins: "insert_message (message_row_of inp now mb) d1 = (Inr mid, d2)"
      and cal: "(if in_ical inp = [] then return_tx ()
                 else apply_calendar_events u mb mid now (in_ical inp)) d2 fs1 = (Inr x, d3, fs2)"
      and att: "insert_attachments mid (in_attachments inp) d3 fs2 = (Inr y, d', fs3)"
      and evs: "evs = (if existing = None then [mailbox_new mb a] else []) @ delivery_events inp (mb, mid)"
      and p: "p = (mb, mid)"
    by (auto simp: deliver_def q_mailbox_id_def delivery_events_def
        elim!: bind_tx_InrE stmt_InrE driver_value_InrE return_tx_InrE)
  have ok1: "db_ok d1" by (rule upsert_mailbox_ok [OF assms(1-3) up])
  have ok2: "db_ok d2" by (rule insert_message_ok [OF ok1 _ ins]) (simp add: message_row_of_def)
  have d3: "messages d3 = messages d2 \<and> mailboxes d3 = mailboxes d2 \<and> attachments d3 = attachments d2"
  proof (cases "in_ical inp = []")
    case True
    with cal show ?thesis by simp
  next
    case False
    with cal have "same_but_calendar d2 d3"
      using apply_calendar_events_frame [OF ok2] by simp
    then obtain rows k where "d3 = d2\<lparr>calendar_events := rows, calendar_seq := k\<rparr>"
      unfolding same_but_calendar_def by blast
    then show ?thesis by simp
  qed
  have d2: "messages d2 = messages d1 @ [copy_of inp now p]" "mailboxes d2 = mailboxes d1"
      "attachments d2 = attachments d1"
    using insert_messageD(1) [OF ins] by (simp_all add: copy_of_def p)
  have ex': "existing = None \<longleftrightarrow> a \<notin> fst ` set (directory d)"
    by (auto simp: ex find_None_iff fst_directory)
  have dir: "directory d' = directory d1"
    using insert_attachments_Inr [OF att] d3 d2(2) by (simp add: directory_def)
  show ?thesis
    using upsert_directory [OF up] insert_attachments_Inr [OF att] d3 d2 dir
    by (auto simp: p evs ex' attachment_copies_def)
qed


definition delivery_addresses :: "unicode \<Rightarrow> message_input \<Rightarrow> bytes list" where
  "delivery_addresses u inp = filter (\<lambda>a. a \<noteq> []) (map (normalize_address u) (in_recipients inp))"

definition creates :: "event \<Rightarrow> bool" where
  "creates e \<longleftrightarrow> ev_type e = MailboxNewT"

definition creation_event :: "bytes \<times> int \<Rightarrow> event" where
  "creation_event p = mailbox_new (snd p) (fst p)"

definition delivered ::
  "message_input \<Rightarrow> int \<Rightarrow> bytes list \<Rightarrow> db \<Rightarrow> event list \<Rightarrow> (int \<times> int) list \<Rightarrow> db \<Rightarrow> bool" where
  "delivered inp now addrs d evs stored d' \<longleftrightarrow>
     list_all2 (\<lambda>a p. (a, fst p) \<in> set (directory d')) addrs stored
     \<and> messages d' = messages d @ map (copy_of inp now) stored
     \<and> map without_id (attachments d') = map without_id (attachments d) @ concat (map (attachment_copies inp) stored)
     \<and> filter (\<lambda>e. \<not> creates e) evs = concat (map (delivery_events inp) stored)
     \<and> (\<exists>created. directory d' = directory d @ created
          \<and> map fst created = dedup_first (fst ` set (directory d)) addrs
          \<and> filter creates evs = map creation_event created)"

lemma delivery_events_filter [simp]:
  "filter (\<lambda>e. \<not> creates e) (delivery_events inp p) = delivery_events inp p"
  "filter creates (delivery_events inp p) = []"
  by (simp_all add: delivery_events_def creates_def calendar_changed_def mailbox_event_def message_new_def)

lemma creates_mailbox_new [simp]: "creates (mailbox_new i a)"
  by (simp add: creates_def mailbox_new_def)

lemma delivered_Nil: "delivered inp now [] d [] [] d"
  by (simp add: delivered_def)

lemma delivered_Cons:
  assumes one: "messages d1 = messages d @ [copy_of inp now p]"
      "directory d1 = directory d @ (if a \<in> fst ` set (directory d) then [] else [(a, fst p)])"
      "(a, fst p) \<in> set (directory d1)"
      "map without_id (attachments d1) = map without_id (attachments d) @ attachment_copies inp p"
      "evs = (if a \<in> fst ` set (directory d) then [] else [mailbox_new (fst p) a]) @ delivery_events inp p"
    and rest: "delivered inp now addrs d1 evs' stored d'"
  shows "delivered inp now (a # addrs) d (evs @ evs') (p # stored) d'"
proof -
  from rest obtain created where created: "directory d' = directory d1 @ created"
      "map fst created = dedup_first (fst ` set (directory d1)) addrs"
      "filter creates evs' = map creation_event created"
    by (auto simp: delivered_def)
  let ?new = "if a \<in> fst ` set (directory d) then [] else [(a, fst p)]"
  have "directory d' = directory d @ (?new @ created)
      \<and> map fst (?new @ created) = dedup_first (fst ` set (directory d)) (a # addrs)
      \<and> filter creates (evs @ evs') = map creation_event (?new @ created)"
    using created by (auto simp: one(2) one(5) creation_event_def insert_absorb)
  moreover have "(a, fst p) \<in> set (directory d')" using one(3) created(1) by simp
  moreover have "filter (\<lambda>e. \<not> creates e) evs = delivery_events inp p" by (simp add: one(5))
  ultimately show ?thesis
    using rest one(1,4) by (auto simp: delivered_def)
qed

lemma deliver_all_Inr:
  "engine_ok E \<Longrightarrow> db_ok d \<Longrightarrow> deliver_all E u now inp raws d fs = (Inr (evs, stored), d', fs') \<Longrightarrow>
     delivered inp now (filter (\<lambda>a. a \<noteq> []) (map (normalize_address u) raws)) d evs stored d'"
proof (induction raws arbitrary: d fs evs stored)
  case Nil
  then show ?case by (simp add: delivered_Nil)
next
  case (Cons raw raws)
  let ?a = "normalize_address u raw"
  show ?case
  proof (cases "?a = []")
    case True
    with Cons show ?thesis by (simp add: Let_def)
  next
    case False
    from Cons.prems(3) False obtain evs1 p d1 fs1 pend rest
      where one: "deliver E u now inp ?a d fs = (Inr (evs1, p), d1, fs1)"
        and more: "deliver_all E u now inp raws d1 fs1 = (Inr (pend, rest), d', fs')"
        and eq: "evs = evs1 @ pend" "stored = p # rest"
      by (auto simp: Let_def elim!: bind_tx_InrE return_tx_InrE split: prod.splits)
    have ok: "db_ok d1"
      using validD [OF valid_deliver [OF Cons.prems(1) False] one] Cons.prems(2) by simp
    note d1 = deliver_Inr [OF Cons.prems(1,2) False one]
    have "delivered inp now (?a # filter (\<lambda>a. a \<noteq> []) (map (normalize_address u) raws)) d (evs1 @ pend) (p # rest) d'"
      by (rule delivered_Cons [OF _ _ _ _ _ Cons.IH [OF Cons.prems(1) ok more]]) (use d1 in blast)+
    with False show ?thesis by (simp add: eq)
  qed
qed

lemma store_message_Inr:
  assumes "engine_ok E" and "db_ok (sdb st)"
    and "store_message E u now inp fs st = (Inr stored, st', evs)"
  shows "delivered inp now (delivery_addresses u inp) (sdb st) evs stored (sdb st')"
    and "generation st' = generation st"
proof -
  let ?body = "bind_tx (deliver_all E u now inp (in_recipients inp)) (\<lambda>r. return_tx (Commit r))"
  from assms(3) obtain d fs' where run: "in_tx ?body (sdb st) (tl fs) = (Inr (evs, stored), d, fs')"
      and st': "st' = st\<lparr>sdb := d\<rparr>"
    by (auto simp: store_message_def with_pop3_def finish_def split: if_splits prod.splits sum.splits)
  have "?body (sdb st) fs0 = (Inr (Roll_Back x), d1, fs1) \<Longrightarrow> False" for fs0 x d1 fs1
    by (auto elim!: bind_tx_InrE return_tx_InrE)
  with in_tx_Inr [OF run] obtain fs1 where "?body (sdb st) (tl (tl fs)) = (Inr (Commit (evs, stored)), d, fs1)"
    by blast
  then obtain fs2 where "deliver_all E u now inp (in_recipients inp) (sdb st) (tl (tl fs)) = (Inr (evs, stored), d, fs2)"
    by (auto elim!: bind_tx_InrE return_tx_InrE)
  from deliver_all_Inr [OF assms(1,2) this]
  show "delivered inp now (delivery_addresses u inp) (sdb st) evs stored (sdb st')"
    by (simp add: delivery_addresses_def st')
  show "generation st' = generation st" by (simp add: st')
qed


section \<open>Changes and the events that announce them\<close>

definition concerns :: "int \<Rightarrow> event \<Rightarrow> bool" where
  "concerns mb e \<longleftrightarrow> ev_type e = ResetT
     \<or> (ev_type e \<in> {MessageNewT, MessagesChangedT, MailboxDeletedT} \<and> ev_mailbox_id e = Some mb)"

definition untouched :: "int \<Rightarrow> db \<Rightarrow> db \<Rightarrow> bool" where
  "untouched mb d d' \<longleftrightarrow>
     filter (\<lambda>m. msg_mailbox m = mb) (messages d') = filter (\<lambda>m. msg_mailbox m = mb) (messages d)"

definition announced :: "store \<Rightarrow> 'a outcome \<Rightarrow> bool" where
  "announced st out \<longleftrightarrow>
     (\<forall>x st' evs mb. out = (Inr x, st', evs) \<longrightarrow>
        untouched mb (sdb st) (sdb st') \<or> (\<exists>e\<in>set evs. concerns mb e))"

lemma concerns_simps [simp]:
  "concerns mb (messages_changed i) \<longleftrightarrow> i = mb"
  "concerns mb (mailbox_deleted i) \<longleftrightarrow> i = mb"
  "concerns mb (message_new i k a b c) \<longleftrightarrow> i = mb"
  "concerns mb reset_event"
  by (auto simp: concerns_def messages_changed_def mailbox_deleted_def mailbox_event_def message_new_def
      reset_event_def)

lemma untouched_refl [simp]: "untouched mb d d"
  by (simp add: untouched_def)

lemma untouched_messages: "messages d' = messages d \<Longrightarrow> untouched mb d d'"
  by (simp add: untouched_def)

lemma filter_marked:
  "\<forall>m\<in>set ms. P m \<longrightarrow> msg_mailbox m \<noteq> mb \<Longrightarrow>
   filter (\<lambda>m. msg_mailbox m = mb) (map (\<lambda>m. if P m then m\<lparr>msg_is_read := v\<rparr> else m) ms)
     = filter (\<lambda>m. msg_mailbox m = mb) ms"
  by (induction ms) auto

lemma filter_deleted:
  "\<forall>m\<in>set ms. P m \<longrightarrow> msg_mailbox m \<noteq> mb \<Longrightarrow>
   filter (\<lambda>m. msg_mailbox m = mb) (filter (\<lambda>m. \<not> P m) ms) = filter (\<lambda>m. msg_mailbox m = mb) ms"
  by (induction ms) auto

lemma untouched_update:
  assumes "update_is_read P v d = (Inr n, d')" and "\<forall>m\<in>set (messages d). P m \<longrightarrow> msg_mailbox m \<noteq> mb"
  shows "untouched mb d d'"
  using assms filter_marked [OF assms(2), of v] by (auto simp: untouched_def update_is_read_def)

lemma untouched_delete:
  assumes "\<forall>m\<in>set (messages d). P m \<longrightarrow> msg_mailbox m \<noteq> mb"
  shows "untouched mb d (delete_messages_where P d)"
  using filter_deleted [OF assms] by (simp add: untouched_def delete_messages_where_def Let_def)

lemma set_scan_ids: "engine_ok E \<Longrightarrow> set (scan_ids E xs) = set xs"
  unfolding engine_ok_def by (metis set_mset_mset)

lemma q_affected_set:
  assumes "engine_ok E" and "q_affected E ids d = (Inr affected, d')"
  shows "set affected = msg_mailbox ` {m \<in> set (messages d). msg_id m \<in> set ids}" and "d' = d"
  using assms by (auto simp: q_affected_def set_scan_ids set_dedup_first)

lemma announced_with_pop3: "(\<And>fs. announced st (k fs)) \<Longrightarrow> announced st (with_pop3 fs st k)"
  by (auto simp: announced_def with_pop3_def)

lemma announced_same [simp]: "announced st (r, st, evs)"
  by (simp add: announced_def)

lemma announced_if: "announced st x \<Longrightarrow> announced st y \<Longrightarrow> announced st (if b then x else y)"
  by simp

lemma announced_finish:
  assumes "\<And>x d fs mb. run = (Inr x, d, fs) \<Longrightarrow> untouched mb (sdb st) d \<or> (\<exists>e\<in>set (evs x). concerns mb e)"
  shows "announced st (finish st evs out run)"
  using assms by (auto simp: announced_def finish_def split: prod.splits sum.splits)

lemma announced_in_tx:
  assumes "\<And>x d fs0 fs1 mb. body (sdb st) fs0 = (Inr (Commit x), d, fs1) \<Longrightarrow>
      untouched mb (sdb st) d \<or> (\<exists>e\<in>set (evs x). concerns mb e)"
  shows "announced st (finish st evs out (in_tx body (sdb st) fs))"
proof (rule announced_finish)
  fix x d fs' mb
  assume "in_tx body (sdb st) fs = (Inr x, d, fs')"
  from in_tx_Inr [OF this] consider "d = sdb st" | fs1 where "body (sdb st) (tl fs) = (Inr (Commit x), d, fs1)"
    by blast
  then show "untouched mb (sdb st) d \<or> (\<exists>e\<in>set (evs x). concerns mb e)"
    by cases (simp, rule assms)
qed

lemma store_message_announced:
  assumes "engine_ok E" and "db_ok (sdb st)"
  shows "announced st (store_message E u now inp fs st)"
  unfolding announced_def
proof (intro allI impI)
  fix stored st' evs mb
  assume "store_message E u now inp fs st = (Inr stored, st', evs)"
  note del = store_message_Inr(1) [OF assms this]
  show "untouched mb (sdb st) (sdb st') \<or> (\<exists>e\<in>set evs. concerns mb e)"
  proof (cases "mb \<in> fst ` set stored")
    case True
    then obtain p where p: "p \<in> set stored" "fst p = mb" by auto
    let ?e = "message_new mb (snd p) (in_subject inp) (in_from_address inp) (in_from_name inp)"
    have "?e \<in> set (concat (map (delivery_events inp) stored))"
      using p by (auto simp: delivery_events_def intro!: bexI [of _ p])
    then have "?e \<in> set (filter (\<lambda>e. \<not> creates e) evs)" using del by (simp add: delivered_def)
    then show ?thesis by (intro disjI2 bexI [of _ ?e]) simp_all
  next
    case False
    then have "filter (\<lambda>m. msg_mailbox m = mb) (map (copy_of inp now) stored) = []"
      by (auto simp: filter_empty_conv copy_of_def message_row_of_def)
    then show ?thesis using del by (simp add: delivered_def untouched_def)
  qed
qed

lemma open_pop3_announced: "announced st (open_pop3_mailbox u now raw fs st)"
proof -
  have "messages d = messages (sdb st)"
    if "open_pop3_tx now a (sdb st) fs0 = (Inr (Commit x), d, fs1)" for a fs0 x d fs1
    using that by (auto simp: open_pop3_tx_def q_mailbox_id_def q_maildrop_def insert_mailbox_def
        elim!: bind_tx_InrE stmt_InrE return_tx_InrE driver_value_InrE split: option.splits if_splits)
  then show ?thesis
    unfolding open_pop3_mailbox_def Let_def
    by (auto intro!: announced_with_pop3 announced_in_tx untouched_messages)
qed

text \<open>Queries the affected mailboxes, then changes only the rows with the given ids.\<close>

definition touches_only :: "int list \<Rightarrow> 'a stmt \<Rightarrow> bool" where
  "touches_only ids f \<longleftrightarrow> (\<forall>d x d' mb. f d = (Inr x, d') \<longrightarrow>
     (\<forall>m\<in>set (messages d). msg_id m \<in> set ids \<longrightarrow> msg_mailbox m \<noteq> mb) \<longrightarrow> untouched mb d d')"

lemma touches_only_delete: "touches_only ids (delete_messages ids)"
  unfolding touches_only_def delete_messages_def by (clarsimp, rule untouched_delete, blast)

lemma touches_only_update: "touches_only ids (update_is_read (\<lambda>m. msg_id m \<in> set ids) v)"
  unfolding touches_only_def by (intro allI impI, rule untouched_update) assumption+

lemma announced_affected:
  assumes "engine_ok E" and "touches_only ids f"
    and "bind_tx (stmt (q_affected E ids)) (\<lambda>affected. bind_tx (stmt f) (\<lambda>_. return_tx (g affected))) d fs
           = (Inr y, d', fs')"
  shows "\<exists>affected. y = g affected
    \<and> (untouched mb d d' \<or> (\<exists>e\<in>set (map messages_changed affected). concerns mb e))"
proof -
  from assms(3) obtain affected d1 x where q: "q_affected E ids d = (Inr affected, d1)"
      and f: "f d1 = (Inr x, d')" and y: "y = g affected"
    by (auto elim!: bind_tx_InrE stmt_InrE return_tx_InrE)
  have "untouched mb d d'" if "mb \<notin> set affected"
  proof -
    have "\<forall>m\<in>set (messages d). msg_id m \<in> set ids \<longrightarrow> msg_mailbox m \<noteq> mb"
      using that q_affected_set(1) [OF assms(1) q] by auto
    moreover have "f d = (Inr x, d')" using f q_affected_set(2) [OF assms(1) q] by simp
    ultimately show ?thesis using assms(2) unfolding touches_only_def by blast
  qed
  then show ?thesis by (auto simp: y)
qed

lemma delete_pop3_announced:
  assumes "engine_ok E"
  shows "announced st (delete_pop3_messages E gen ids fs st)"
  unfolding delete_pop3_messages_def
  by (intro announced_if announced_same announced_with_pop3 announced_finish)
    (drule announced_affected [OF assms touches_only_delete, where g = "\<lambda>x. x"], blast)

lemma set_read_state_announced:
  assumes "engine_ok E"
  shows "announced st (set_read_state E ids r fs st)"
  unfolding set_read_state_def
  by (intro announced_if announced_same announced_with_pop3 announced_in_tx)
    (drule announced_affected [OF assms touches_only_update, where g = Commit], blast)

lemma remove_messages_announced:
  assumes "engine_ok E"
  shows "announced st (remove_messages E ids fs st)"
  unfolding remove_messages_def
  by (intro announced_if announced_same announced_with_pop3 announced_in_tx)
    (drule announced_affected [OF assms touches_only_delete, where g = Commit], blast)


lemma get_message_announced: "announced st (get_message E i fs st)"
proof -
  have "messages d = messages (sdb st)"
    if "bind_tx (read_message_detail E i) (\<lambda>r. return_tx (if r = None then Roll_Back r else Commit r))
          (sdb st) fs0 = (Inr (Commit x), d, fs1)" for fs0 x d fs1
    using that by (auto simp: read_message_detail_def q_message_def q_attachments_def
        elim!: bind_tx_InrE stmt_InrE return_tx_InrE split: option.splits if_splits)
  then show ?thesis
    unfolding get_message_def by (auto intro!: announced_with_pop3 announced_in_tx untouched_messages)
qed

lemma find_message_unique:
  assumes "db_ok d" and "find (\<lambda>m. msg_id m = i) (messages d) = Some m" and "x \<in> set (messages d)" and "msg_id x = i"
  shows "x = m"
proof -
  have "distinct (map msg_id (messages d))" using assms(1) by (simp add: db_ok_def ids_ok_def)
  from find_Some_iff_distinct [OF this, of i m] assms(2) have "m \<in> set (messages d)" "msg_id m = i" by auto
  with \<open>distinct _\<close> assms(3,4) show ?thesis by (auto simp: distinct_map inj_on_def)
qed

lemma read_message_announced:
  assumes "db_ok (sdb st)"
  shows "announced st (read_message E i fs st)"
proof -
  have "untouched mb (sdb st) d \<or> (\<exists>e\<in>set (case x of (r, marked) \<Rightarrow> case r of
      Some (m, as) \<Rightarrow> if marked then [messages_changed (msg_mailbox m)] else [] | None \<Rightarrow> []). concerns mb e)"
    if run: "read_message_tx E i (sdb st) fs0 = (Inr (Commit x), d, fs1)" for fs0 x d fs1 mb
  proof -
    from run obtain m as where m: "find (\<lambda>m. msg_id m = i) (messages (sdb st)) = Some m"
      and x: "x = (Some (detail_columns m, as), msg_is_read m = 0)"
      and d: "d = (if msg_is_read m = 0 then snd (update_is_read (\<lambda>x. msg_id x = i) 1 (sdb st)) else sdb st)"
      by (auto simp: read_message_tx_def read_message_detail_def q_message_def q_attachments_def detail_columns_def
          update_is_read_def elim!: bind_tx_InrE stmt_InrE return_tx_InrE split: option.splits if_splits)
    have "untouched mb (sdb st) d" if "msg_mailbox m \<noteq> mb"
    proof (cases "msg_is_read m = 0")
      case True
      have "\<forall>y\<in>set (messages (sdb st)). msg_id y = i \<longrightarrow> msg_mailbox y \<noteq> mb"
        using find_message_unique [OF assms m] that by blast
      from untouched_update [OF _ this, of 1 _ d] True show ?thesis by (simp add: d update_is_read_def)
    qed (simp add: d)
    moreover have "untouched mb (sdb st) d" if "msg_is_read m \<noteq> 0" using that by (simp add: d)
    ultimately show ?thesis by (auto simp: x detail_columns_def)
  qed
  then show ?thesis
    unfolding read_message_def by (intro announced_with_pop3 announced_in_tx)
qed

lemma update_none: "update_is_read P v d = (Inr 0, d') \<Longrightarrow> untouched mb d d'"
  by (rule untouched_update) (auto simp: update_is_read_def filter_empty_conv)

lemma update_one_mailbox:
  assumes "update_is_read P 1 d = (Inr n, d')" and "\<And>m. P m \<Longrightarrow> msg_mailbox m = i"
  shows "untouched mb d d' \<or> (\<exists>e\<in>set (if n \<noteq> 0 then [messages_changed i] else []). concerns mb e)"
  using update_none [of P 1 d d' mb] untouched_update [OF assms(1), of mb] assms by (cases "n = 0") auto

lemma mark_read_detail_announced: "announced st (mark_read_detail det fs st)"
proof (cases det)
  case (Some p)
  show ?thesis
    unfolding mark_read_detail_def Some option.case
    by (intro announced_if announced_same announced_with_pop3 announced_in_tx)
      (elim bind_tx_InrE stmt_InrE driver_value_InrE return_tx_InrE, simp only: ending.inject,
       rule update_one_mailbox, assumption, blast)
qed (simp add: mark_read_detail_def)

lemma mark_read_announced: "announced st (mark_read i mb was fs st)"
  unfolding mark_read_def
  by (intro announced_if announced_same announced_with_pop3 announced_finish)
    (elim bind_tx_InrE stmt_InrE driver_value_InrE, simp only:, rule update_one_mailbox, assumption, blast)

lemma remove_mailbox_announced:
  assumes "db_ok (sdb st)"
  shows "announced st (remove_mailbox i fs st)"
proof -
  have "untouched mb (sdb st) d \<or> (\<exists>e\<in>set (if n \<noteq> 0 then [mailbox_deleted i] else []). concerns mb e)"
    if del: "delete_mailbox_row i (sdb st) = (Inr n, d)" for n d mb
  proof (cases "n \<noteq> 0 \<and> i = mb")
    case False
    have none: "\<not> has_mailbox i (sdb st)" if "n = 0"
      using del that by (auto simp: delete_mailbox_row_def filter_empty_conv)
    have "\<forall>m\<in>set (messages (sdb st)). msg_mailbox m \<in> set (map mb_id (filter (\<lambda>m. mb_id m = i) (mailboxes (sdb st))))
        \<longrightarrow> msg_mailbox m \<noteq> mb"
    proof (cases "i = mb")
      case True
      with False none have "\<not> has_mailbox mb (sdb st)" by simp
      then show ?thesis using assms by (auto simp: db_ok_def)
    qed auto
    from untouched_delete [OF this] have "untouched mb (sdb st) d"
      using del by (auto simp: delete_mailbox_row_def delete_mailboxes_where_def untouched_def Let_def)
    then show ?thesis ..
  qed auto
  then show ?thesis
    unfolding remove_mailbox_def
    by (intro announced_with_pop3 announced_finish) (elim bind_tx_InrE stmt_InrE driver_value_InrE, blast)
qed

lemma wipe_all_announced: "announced st (wipe_all fs st)"
  using wipe_all_cases [of fs st] by (auto simp: announced_def)

lemma request_announced:
  assumes "engine_ok E" and "db_ok (sdb st)" and "run_request E u r fs st = (None, st', evs)"
  shows "untouched mb (sdb st) (sdb st') \<or> (\<exists>e\<in>set evs. concerns mb e)"
proof -
  have *: "announced st out \<Longrightarrow> forget out = (None, st', evs) \<Longrightarrow> ?thesis" for out :: "'b outcome"
    unfolding announced_def forget_def by (cases out) (fastforce split: sum.splits)
  show ?thesis
    using assms(3)
    by (cases r) (auto dest!: * [rotated] intro!: store_message_announced open_pop3_announced
        delete_pop3_announced get_message_announced read_message_announced mark_read_detail_announced
        mark_read_announced set_read_state_announced remove_messages_announced remove_mailbox_announced
        wipe_all_announced assms(1,2))
qed


section \<open>A concrete store\<close>

definition sample_input :: message_input where
  "sample_input = \<lparr>in_recipients = [''A@B''], in_from_address = None, in_from_name = None, in_to = [],
     in_cc = [], in_subject = Some ''hi'', in_html = None, in_text = None, in_headers = [], in_size = 2,
     in_attachments = [], in_ical = [], in_raw = ''hi''\<rparr>"

definition sample_store :: store where
  "sample_store = \<lparr>sdb = empty_db, generation = 0\<rparr>"

definition delivered_store :: store where
  "delivered_store = \<lparr>sdb = empty_db\<lparr>
     mailboxes := [\<lparr>mb_id = 1, mb_address = ''a@b'', mb_created_at = 5, mb_last_message_at = Some 5\<rparr>],
     messages := [copy_of sample_input 5 (1, 1)], mailbox_seq := 1, message_seq := 1\<rparr>, generation = 0\<rparr>"

lemma sample_address: "normalize_address plain_unicode ''A@B'' = ''a@b''"
  by (simp add: normalize_address_def ascii_eval trim_space_id graphic_def)

lemma sample_deliver:
  "deliver rowid_engine plain_unicode 5 sample_input ''a@b'' empty_db [] =
     (Inr ([mailbox_new 1 ''a@b'', message_new 1 1 (Some ''hi'') None None], (1, 1)), sdb delivered_store, [])"
  by (simp add: deliver_def sample_input_def bind_stmt bind_tx_def q_mailbox_id_def upsert_mailbox_def
      insert_mailbox_def new_id_def max_list_def max_int64_def empty_db_def insert_message_def
      message_row_of_def delivered_store_def copy_of_def)

lemma sample_deliver_all:
  "deliver_all rowid_engine plain_unicode 5 sample_input (in_recipients sample_input) empty_db [] =
     (Inr ([mailbox_new 1 ''a@b'', message_new 1 1 (Some ''hi'') None None], [(1, 1)]), sdb delivered_store, [])"
  by (simp add: sample_input_def [THEN arg_cong, of in_recipients] sample_address bind_tx_def sample_deliver)

lemma sample_store_message:
  "store_message rowid_engine plain_unicode 5 sample_input [] sample_store =
     (Inr [(1, 1)], delivered_store, [mailbox_new 1 ''a@b'', message_new 1 1 (Some ''hi'') None None])"
  by (simp add: store_message_def with_pop3_def finish_def in_tx_def sample_store_def bind_tx_def
      sample_deliver_all) (simp add: delivered_store_def)


lemma sample_open:
  "open_pop3_mailbox plain_unicode 6 ''A@B'' [] delivered_store =
     (Inr \<lparr>snap_messages = [\<lparr>p3_id = 1, p3_raw = ''hi''\<rparr>], snap_generation = 0\<rparr>, delivered_store, [])"
  by (simp add: open_pop3_mailbox_def sample_address with_pop3_def finish_def in_tx_def open_pop3_tx_def
      bind_stmt bind_tx_def delivered_store_def q_mailbox_id_def q_maildrop_def empty_db_def copy_of_def
      message_row_of_def sample_input_def)

lemma sample_run:
  "store_run rowid_engine plain_unicode sample_store
     [(Rq_Store_Message 5 sample_input, None, [mailbox_new 1 ''a@b'', message_new 1 1 (Some ''hi'') None None])]
     delivered_store"
proof -
  have req: "run_request rowid_engine plain_unicode (Rq_Store_Message 5 sample_input) [] sample_store
      = (None, delivered_store, [mailbox_new 1 ''a@b'', message_new 1 1 (Some ''hi'') None None])"
    by (simp add: sample_store_message forget_def)
  from store_run_step [OF store_run_refl req] show ?thesis by simp
qed

lemma sample_store_ok [simp]: "db_ok (sdb sample_store)"
  by (simp add: sample_store_def)

lemma delivered_store_ok: "db_ok (sdb delivered_store)"
  using run_sound [OF sample_run rowid_engine_ok sample_store_ok] by simp

text \<open>The third statement of a delivery fails.\<close>

lemma sample_failing_deliver:
  "\<exists>d. deliver rowid_engine plain_unicode 5 sample_input ''a@b'' empty_db [False, False, True]
     = (Inl Driver_Error, d, [])"
  by (simp add: deliver_def bind_stmt q_mailbox_id_def upsert_mailbox_def insert_mailbox_def new_id_def
      max_list_def max_int64_def empty_db_def)

definition failed_db :: db where
  "failed_db = fst (snd (deliver rowid_engine plain_unicode 5 sample_input ''a@b'' empty_db [False, False, True]))"

lemma sample_failing_delivery:
  "deliver_all rowid_engine plain_unicode 5 sample_input (in_recipients sample_input) empty_db
     [False, False, True] = (Inl Driver_Error, failed_db, [])"
  using sample_failing_deliver
  by (auto simp: sample_input_def [THEN arg_cong, of in_recipients] sample_address bind_tx_def failed_db_def)

section \<open>Properties\<close>

text \<open>
  C1. A message accepted by the store is stored once per non-empty recipient address, in order:
  the i-th copy is in the mailbox of the i-th address, carries the message, is unread and has all
  its attachments; nothing stored before is changed or lost; each address without a mailbox gets
  one mailbox, announced once, and every copy is announced.
\<close>

theorem store_message_one_copy_per_recipient:
  assumes "engine_ok E" and "db_ok (sdb st)"
    and "store_message E u now inp fs st = (Inr stored, st', evs)"
  shows "let d = sdb st; d' = sdb st'; addrs = delivery_addresses u inp in
    list_all2 (\<lambda>a p. (a, fst p) \<in> set (directory d')) addrs stored
    \<and> messages d' = messages d @ map (copy_of inp now) stored
    \<and> map without_id (attachments d') = map without_id (attachments d) @ concat (map (attachment_copies inp) stored)
    \<and> filter (\<lambda>e. \<not> creates e) evs = concat (map (delivery_events inp) stored)
    \<and> (\<exists>created. directory d' = directory d @ created
         \<and> map fst created = dedup_first (fst ` set (directory d)) addrs
         \<and> filter creates evs = map creation_event created)"
  using store_message_Inr(1) [OF assms] by (simp add: delivered_def Let_def)

theorem store_message_one_copy_per_recipient_witness:
  "messages (sdb delivered_store) = [copy_of sample_input 5 (1, 1)]"
  using store_message_one_copy_per_recipient [OF rowid_engine_ok sample_store_ok sample_store_message]
  by (simp add: Let_def sample_store_def empty_db_def)

text \<open>
  C12. Whatever requests the clients of the store make, in any order and with any driver calls
  failing, the schema invariant holds in every state reached (primary keys and uniqueness,
  foreign keys, sequence numbers above every id), and no request ever runs into a constraint.
\<close>

theorem store_run_keeps_schema:
  assumes "engine_ok E" and "db_ok (sdb st)" and "store_run E u st log st'"
  shows "db_ok (sdb st') \<and> (\<forall>r err evs. (r, err, evs) \<in> set log \<longrightarrow> err \<noteq> Some Constraint_Error)"
  by (rule run_sound [OF assms(3,1,2)])

theorem store_run_keeps_schema_witness: "db_ok (sdb delivered_store)"
  using store_run_keeps_schema [OF rowid_engine_ok sample_store_ok sample_run] by simp

text \<open>
  C11. A request that fails emits no event, and it is all or nothing: it leaves the store exactly as it was;
  only the two requests that read the number of affected rows after an autocommitted statement (\<open>MarkRead\<close>,
  \<open>DeleteMailbox\<close>) may fail after it, and then the store is the one the same request leaves when it succeeds.
\<close>

theorem failed_request_has_no_effect:
  assumes "run_request E u r fs st = (Some e, st', evs)"
  shows "evs = [] \<and> (st' = st
     \<or> ((\<exists>i mb was. r = Rq_Mark_Read i mb was) \<or> (\<exists>i. r = Rq_Delete_Mailbox i))
        \<and> (\<exists>evs'. run_request E u r [] st = (None, st', evs')))"
  using request_no_effect [OF assms] request_silent [OF assms] autocommitted_whole [OF assms] by blast

theorem failed_request_has_no_effect_witness:
  "snd (run_request rowid_engine plain_unicode (Rq_Store_Message 5 sample_input)
     [False, False, False, False, True] sample_store) = (sample_store, [])"
proof -
  have "run_request rowid_engine plain_unicode (Rq_Store_Message 5 sample_input)
     [False, False, False, False, True] sample_store = (Some Driver_Error, sample_store, [])"
    by (simp add: store_message_def with_pop3_def finish_def in_tx_def bind_tx_def sample_failing_delivery
        sample_store_def forget_def)
  from failed_request_has_no_effect [OF this] this show ?thesis by simp
qed

text \<open>
  C38. No change of a successful request is silent: when a request succeeds and the messages of a mailbox
  differ afterwards in any column, in number or in order, an event naming that mailbox (or a reset) is among those it
  emits.
\<close>

theorem successful_change_is_announced:
  assumes "engine_ok E" and "db_ok (sdb st)" and "run_request E u r fs st = (None, st', evs)"
    and "filter (\<lambda>m. msg_mailbox m = mb) (messages (sdb st')) \<noteq> filter (\<lambda>m. msg_mailbox m = mb) (messages (sdb st))"
  shows "\<exists>e\<in>set evs. concerns mb e"
  using request_announced [OF assms(1-3), of mb] assms(4) by (simp add: untouched_def)

theorem successful_change_is_announced_witness:
  "\<exists>e\<in>set [mailbox_new 1 ''a@b'', message_new 1 1 (Some ''hi'') None None]. concerns 1 e"
proof -
  have "run_request rowid_engine plain_unicode (Rq_Store_Message 5 sample_input) [] sample_store
      = (None, delivered_store, [mailbox_new 1 ''a@b'', message_new 1 1 (Some ''hi'') None None])"
    by (simp add: sample_store_message forget_def)
  from successful_change_is_announced [OF rowid_engine_ok sample_store_ok this, of 1] show ?thesis
    by (simp add: delivered_store_def sample_store_def empty_db_def copy_of_def message_row_of_def)
qed

text \<open>
  C2. Deleting the messages a POP3 session marked removes exactly messages of its snapshot:
  whatever requests ran since the mailbox was opened, with fewer than \<open>2 ^ 64\<close> wipes among them,
  every message the deletion removes has the id and the bytes of a snapshot entry whose id was
  asked for.  (Ids restart after a wipe; the generation keeps them apart.)
\<close>

theorem pop3_deletes_only_snapshot_messages:
  assumes "engine_ok E" and "db_ok (sdb st0)"
    and "open_pop3_mailbox u now raw fs st0 = (Inr snap, st1, evs1)"
    and "store_run E u st1 log st2" and "wipes log < 2 ^ 64"
    and "set ids \<subseteq> set (map p3_id (snap_messages snap))"
    and "delete_pop3_messages E (snap_generation snap) ids fs' st2 = (res, st3, evs3)"
    and "m \<in> set (messages (sdb st2))" and "m \<notin> set (messages (sdb st3))"
  shows "\<exists>p\<in>set (snap_messages snap). p3_id p = msg_id m \<and> p3_raw p = msg_raw m \<and> p3_id p \<in> set ids"
proof -
  have ok1: "db_ok (sdb st1)"
    using open_pop3_sound [OF assms(2), of u now raw fs] assms(3) by (simp add: sound_def)
  from open_pop3_snapshot [OF assms(3)] obtain mb where gen: "snap_generation snap = generation st1"
    and msgs: "snap_messages snap = map (\<lambda>m. \<lparr>p3_id = msg_id m, p3_raw = msg_raw m\<rparr>)
        (sort_key maildrop_key_of (filter (\<lambda>m. msg_mailbox m = mb) (messages (sdb st1))))" by blast
  from request_messages_pop3 [OF assms(7)] assms(8,9)
  have same_gen: "generation st2 = generation st1" and mid: "msg_id m \<in> set ids" by (auto simp: gen)
  note run = run_generation [OF assms(4)]
  have "wipes log = 0"
    using same_generation_no_wipe [of st2 st1 "wipes log"] run same_gen assms(5) by blast
  with run have g: "grows (sdb st1) (sdb st2)" by simp
  from mid assms(6) obtain m1 where m1: "m1 \<in> set (messages (sdb st1))" "msg_id m1 = msg_id m"
      "\<lparr>p3_id = msg_id m1, p3_raw = msg_raw m1\<rparr> \<in> set (snap_messages snap)"
    by (auto simp: msgs)
  have "msg_id m \<le> message_seq (sdb st1)"
    using ok1 m1(1,2) by (auto simp: db_ok_def ids_ok_def)
  with g assms(8) obtain m0 where m0: "m0 \<in> set (messages (sdb st1))" "same_message m0 m"
    by (force simp: grows_def)
  have cols: "msg_id m0 = msg_id m" "msg_raw m0 = msg_raw m"
    using m0(2) unfolding same_message_def
    by (metis message_row.select_convs(1) message_row.surjective message_row.update_convs(12),
        metis message_row.select_convs(15) message_row.surjective message_row.update_convs(12))
  have "m0 = m1"
    using ok1 m0(1) m1(1,2) cols(1) by (auto simp: db_ok_def ids_ok_def distinct_map inj_on_def)
  then show ?thesis using m1(3) cols mid by (intro bexI [OF _ m1(3)]) auto
qed

theorem pop3_deletes_only_snapshot_messages_witness:
  "\<exists>p\<in>set [\<lparr>p3_id = 1, p3_raw = ''hi''\<rparr>]. p3_id p = msg_id (copy_of sample_input 5 (1, 1)) \<and>
     p3_raw p = msg_raw (copy_of sample_input 5 (1, 1)) \<and> p3_id p \<in> set [1]"
proof -
  let ?snap = "\<lparr>snap_messages = [\<lparr>p3_id = 1, p3_raw = ''hi''\<rparr>], snap_generation = 0\<rparr>"
  have del: "delete_pop3_messages rowid_engine (snap_generation ?snap) [1] [] delivered_store
      = (Inr [1], delivered_store\<lparr>sdb := (sdb delivered_store)\<lparr>messages := []\<rparr>\<rparr>, [messages_changed 1])"
    by (simp add: delete_pop3_messages_def with_pop3_def finish_def bind_stmt delivered_store_def q_affected_def
        rowid_engine_def delete_messages_def delete_messages_where_def empty_db_def copy_of_def
        message_row_of_def)
  have "\<exists>p\<in>set (snap_messages ?snap). p3_id p = msg_id (copy_of sample_input 5 (1, 1)) \<and>
      p3_raw p = msg_raw (copy_of sample_input 5 (1, 1)) \<and> p3_id p \<in> set [1]"
    by (rule pop3_deletes_only_snapshot_messages [OF rowid_engine_ok delivered_store_ok sample_open
          store_run_refl _ _ del]) (simp_all add: delivered_store_def)
  then show ?thesis by simp
qed

end
