(* ===== verification/Store_Queries.thy ===== *)
theory Store_Queries
  imports Store_Props
begin

text \<open>
  The read-only operations of the store (\<open>ListMailboxes\<close>, \<open>ListMessages\<close> with its search,
  \<open>ListCalendarEvents\<close>, the single-row reads) and the migration that fills in missing snippets.

  SQLite's \<open>LIKE\<close> is a parameter; \<open>like_doc\<close> is its documented meaning on characters: \<open>%\<close> stands
  for any sequence, \<open>_\<close> for one character, the escape character makes the next one literal, and
  letters match regardless of ASCII case.
\<close>

section \<open>Listings\<close>

record mailbox_summary =
  ms_mailbox :: mailbox_row
  ms_total :: nat
  ms_unread :: nat

definition mailbox_activity :: "mailbox_row \<Rightarrow> int" where
  "mailbox_activity m = (case mb_last_message_at m of Some t \<Rightarrow> t | None \<Rightarrow> mb_created_at m)"

definition mailbox_counts :: "db \<Rightarrow> mailbox_row \<Rightarrow> mailbox_summary" where
  "mailbox_counts d m =
     \<lparr>ms_mailbox = m,
      ms_total = length (filter (\<lambda>x. msg_mailbox x = mb_id m) (messages d)),
      ms_unread = length (filter (\<lambda>x. msg_mailbox x = mb_id m \<and> msg_is_read x = 0) (messages d))\<rparr>"

definition list_mailboxes :: "engine \<Rightarrow> faults \<Rightarrow> store \<Rightarrow> store_err + mailbox_summary list" where
  "list_mailboxes E fs st =
     fst (stmt (\<lambda>d. (Inr (map (mailbox_counts d)
       (sort_key (\<lambda>m. - mailbox_activity m) (scan_mailboxes E (mailboxes d)))), d)) (sdb st) fs)"

text \<open>\<open>strings.NewReplacer\<close> with the three single-byte patterns of the search.\<close>

definition escape_like_byte :: "char \<Rightarrow> bytes" where
  "escape_like_byte c = (if c = BSLASH \<or> c = CHR ''%'' \<or> c = CHR ''_'' then [BSLASH, c] else [c])"

definition escape_like :: "bytes \<Rightarrow> bytes" where
  "escape_like q = concat (map escape_like_byte q)"

definition like_pattern :: "bytes \<Rightarrow> bytes" where
  "like_pattern q = ''%'' @ escape_like q @ ''%''"

type_synonym like = "bytes \<Rightarrow> bytes \<Rightarrow> bool"

definition column_like :: "like \<Rightarrow> bytes \<Rightarrow> bytes option \<Rightarrow> bool" where
  "column_like lk p col = (case col of None \<Rightarrow> False | Some s \<Rightarrow> lk p s)"

definition message_matches :: "like \<Rightarrow> bytes \<Rightarrow> message_row \<Rightarrow> bool" where
  "message_matches lk q m \<longleftrightarrow>
     (let p = like_pattern q in
      column_like lk p (msg_subject m) \<or> column_like lk p (msg_from_address m)
      \<or> column_like lk p (msg_from_name m) \<or> column_like lk p (msg_text m))"

record message_item =
  mi_id :: int
  mi_from_address :: "bytes option"
  mi_from_name :: "bytes option"
  mi_subject :: "bytes option"
  mi_snippet :: bytes
  mi_is_read :: int
  mi_received_at :: int
  mi_has_ical :: bool
  mi_attachments :: nat

definition message_item_of :: "db \<Rightarrow> message_row \<Rightarrow> message_item" where
  "message_item_of d m =
     \<lparr>mi_id = msg_id m, mi_from_address = msg_from_address m, mi_from_name = msg_from_name m,
      mi_subject = msg_subject m, mi_snippet = msg_snippet m, mi_is_read = msg_is_read m,
      mi_received_at = msg_received_at m, mi_has_ical = (msg_ical m \<noteq> None),
      mi_attachments =
        length (filter (\<lambda>a. att_message a = msg_id m \<and> att_content_id a = None) (attachments d))\<rparr>"

definition list_messages ::
  "engine \<Rightarrow> like \<Rightarrow> int \<Rightarrow> bytes \<Rightarrow> faults \<Rightarrow> store \<Rightarrow> store_err + message_item list" where
  "list_messages E lk mb query fs st =
     (let q = trim_space query in
      fst (stmt (\<lambda>d. (Inr (map (message_item_of d)
        (sort_key (\<lambda>m. - msg_received_at m)
          (scan_messages E (filter (\<lambda>m. msg_mailbox m = mb \<and> (q = [] \<or> message_matches lk q m))
             (messages d))))), d)) (sdb st) fs))"

definition list_calendar_events :: "engine \<Rightarrow> int \<Rightarrow> faults \<Rightarrow> store \<Rightarrow> store_err + calendar_row list" where
  "list_calendar_events E mb fs st =
     fst (stmt (\<lambda>d. (Inr (sort_key cal_dtstart
       (scan_calendar E (filter (\<lambda>r. cal_mailbox r = mb) (calendar_events d)))), d)) (sdb st) fs)"

definition get_attachment :: "int \<Rightarrow> faults \<Rightarrow> store \<Rightarrow> store_err + attachment_row option" where
  "get_attachment i fs st =
     fst (stmt (\<lambda>d. (Inr (find (\<lambda>a. att_id a = i) (attachments d)), d)) (sdb st) fs)"

record raw_message =
  rm_raw :: bytes
  rm_html :: "bytes option"
  rm_text :: "bytes option"
  rm_headers :: "(bytes \<times> bytes) list"
  rm_size :: int

definition raw_message_of :: "message_row \<Rightarrow> raw_message" where
  "raw_message_of m = \<lparr>rm_raw = msg_raw m, rm_html = msg_html m, rm_text = msg_text m,
     rm_headers = msg_headers m, rm_size = msg_size m\<rparr>"

definition get_message_raw :: "int \<Rightarrow> faults \<Rightarrow> store \<Rightarrow> store_err + raw_message option" where
  "get_message_raw i fs st =
     map_sum id (map_option raw_message_of) (fst (stmt (q_message i) (sdb st) fs))"

definition get_message_source :: "int \<Rightarrow> faults \<Rightarrow> store \<Rightarrow> store_err + bytes option" where
  "get_message_source i fs st = map_sum id (map_option msg_raw) (fst (stmt (q_message i) (sdb st) fs))"

section \<open>The search\<close>

definition same_letter :: "rune \<Rightarrow> rune \<Rightarrow> bool" where
  "same_letter a b \<longleftrightarrow> a = b \<or> (a < 128 \<and> b < 128 \<and> ascii_lower (chr a) = ascii_lower (chr b))"

fun like_doc :: "rune list \<Rightarrow> rune list \<Rightarrow> bool" where
  "like_doc [] s = (s = [])"
| "like_doc (p # ps) s =
     (if p = 92 then
        (case ps of
           [] \<Rightarrow> False
         | q # ps' \<Rightarrow> (case s of [] \<Rightarrow> False | c # cs \<Rightarrow> same_letter q c \<and> like_doc ps' cs))
      else if p = 37 then (\<exists>k\<in>set [0..<Suc (length s)]. like_doc ps (drop k s))
      else case s of
        [] \<Rightarrow> False
      | c # cs \<Rightarrow> (p = 95 \<or> same_letter p c) \<and> like_doc ps cs)"

text \<open>Text as \<open>LIKE\<close> documents it: well-formed UTF-8 without NUL.\<close>

definition plain_text :: "bytes \<Rightarrow> bool" where
  "plain_text s \<longleftrightarrow> to_valid_utf8 s = s \<and> NUL \<notin> set s"

definition like_ok :: "like \<Rightarrow> bool" where
  "like_ok lk \<longleftrightarrow> (\<forall>p s. plain_text p \<longrightarrow> plain_text s \<longrightarrow> lk p s = like_doc (runes p) (runes s))"

definition escape_rune :: "rune \<Rightarrow> rune list" where
  "escape_rune r = (if r = 92 \<or> r = 37 \<or> r = 95 then [92, r] else [r])"

lemma encode_rune_high:
  assumes "128 \<le> r" and "c \<in> set (encode_rune r)"
  shows "128 \<le> byte c"
proof -
  have b: "128 \<le> byte (chr n)" if "128 \<le> n" "n < 256" for n using that by simp
  let ?r = "if valid_rune r then r else rune_error"
  have r: "128 \<le> ?r" "?r < 1114112" using assms(1) by (auto simp: valid_rune_def rune_error_def)
  have d: "?r div 262144 < 5" using r(2) by (simp add: less_mult_imp_div_less)
  show ?thesis
    using assms(2) r(1) d
    by (auto simp: encode_rune_def Let_def less_mult_imp_div_less simp del: byte_chr intro!: b split: if_splits)
qed

lemma escape_encode_rune:
  assumes "valid_rune r"
  shows "concat (map escape_like_byte (encode_rune r)) = encode_runes (escape_rune r)"
proof (cases "r < 128")
  case True
  then have e: "encode_rune r = [chr r]" using assms by (simp add: encode_rune_def)
  have b: "byte BSLASH = 92" "byte CHR ''%'' = 37" "byte CHR ''_'' = 95" by (simp_all add: byte_def)
  have inj: "chr r = c \<longleftrightarrow> r = byte c" for c using True by auto
  have bs: "encode_rune 92 = [BSLASH]" using encode_rune_ascii [of BSLASH] by (simp add: b)
  have esc: "escape_like_byte (chr r) = (if r = 92 \<or> r = 37 \<or> r = 95 then [BSLASH, chr r] else [chr r])"
    unfolding escape_like_byte_def inj b ..
  show ?thesis
    by (simp add: e esc escape_rune_def encode_runes_def bs)
next
  case False
  have "map escape_like_byte (encode_rune r) = map (\<lambda>c. [c]) (encode_rune r)"
    using encode_rune_high [of r] False
    by (intro map_cong refl) (fastforce simp: escape_like_byte_def ascii_eval)
  moreover have "escape_rune r = [r]" using False by (simp add: escape_rune_def)
  ultimately show ?thesis by (simp only:) (simp add: encode_runes_def)
qed

lemma escape_like_encode:
  "\<forall>r\<in>set rs. valid_rune r \<Longrightarrow> escape_like (encode_runes rs) = encode_runes (concat (map escape_rune rs))"
  by (induction rs) (auto simp: escape_like_def escape_encode_rune encode_runes_def)

lemma runes_like_pattern:
  assumes "to_valid_utf8 q = q"
  shows "runes (like_pattern q) = 37 # concat (map escape_rune (runes q)) @ [37]"
    and "to_valid_utf8 (like_pattern q) = like_pattern q"
proof -
  have q: "encode_runes (runes q) = q" using assms by (simp add: to_valid_utf8_def)
  let ?rs = "37 # concat (map escape_rune (runes q)) @ [37]"
  have pct: "encode_rune 37 = ''%''" by (simp add: encode_rune_def valid_rune_def chr_eval)
  have eq: "like_pattern q = encode_runes ?rs"
    using escape_like_encode [of "runes q"] runes_valid [of _ q] unfolding q
    by (simp add: like_pattern_def encode_runes_def pct)
  have v: "\<forall>r\<in>set ?rs. valid_rune r"
    using runes_valid [of _ q] by (auto simp: escape_rune_def valid_rune_def [of 37] valid_rune_def [of 92] split: if_splits)
  show "runes (like_pattern q) = ?rs" "to_valid_utf8 (like_pattern q) = like_pattern q"
    unfolding eq by (rule runes_encode_runes [OF v], rule to_valid_encode_runes [OF v])
qed


lemma like_doc_end: "like_doc [37] s"
  by (auto intro!: bexI [of _ "length s"])

lemma like_doc_literal:
  "like_doc (escape_rune r @ ps) s \<longleftrightarrow> (\<exists>c cs. s = c # cs \<and> same_letter r c \<and> like_doc ps cs)"
  by (cases s) (auto simp: escape_rune_def)

lemma like_doc_prefix:
  "like_doc (concat (map escape_rune rs) @ [37]) s \<longleftrightarrow> (\<exists>mid b. s = mid @ b \<and> list_all2 same_letter rs mid)"
proof (induction rs arbitrary: s)
  case Nil
  show ?case using like_doc_end [of s] by (simp del: like_doc.simps)
next
  case (Cons r rs)
  have "like_doc (concat (map escape_rune (r # rs)) @ [37]) s \<longleftrightarrow>
      (\<exists>c cs. s = c # cs \<and> same_letter r c \<and> like_doc (concat (map escape_rune rs) @ [37]) cs)"
    using like_doc_literal [of r "concat (map escape_rune rs) @ [37]" s] by (simp del: like_doc.simps)
  also have "\<dots> \<longleftrightarrow> (\<exists>mid b. s = mid @ b \<and> list_all2 same_letter (r # rs) mid)"
    unfolding Cons.IH list_all2_Cons1 by (metis append_Cons)
  finally show ?case .
qed

lemma like_doc_percent: "like_doc (37 # ps) s \<longleftrightarrow> (\<exists>k\<le>length s. like_doc ps (drop k s))"
  by (simp add: Bex_def less_Suc_eq_le del: upt_Suc)

lemma like_doc_contains:
  "like_doc (37 # concat (map escape_rune rs) @ [37]) s \<longleftrightarrow>
     (\<exists>a mid b. s = a @ mid @ b \<and> list_all2 same_letter rs mid)" (is "?l \<longleftrightarrow> ?r")
proof
  assume ?l
  then obtain k where "like_doc (concat (map escape_rune rs) @ [37]) (drop k s)"
    unfolding like_doc_percent by blast
  then obtain mid b where "drop k s = mid @ b" "list_all2 same_letter rs mid"
    unfolding like_doc_prefix by blast
  then have "s = take k s @ mid @ b" by (metis append_take_drop_id)
  then show ?r using \<open>list_all2 same_letter rs mid\<close> by blast
next
  assume ?r
  then obtain a mid b where s: "s = a @ mid @ b" and m: "list_all2 same_letter rs mid" by blast
  then have "like_doc (concat (map escape_rune rs) @ [37]) (drop (length a) s)"
    unfolding like_doc_prefix by auto
  moreover have "length a \<le> length s" using s by simp
  ultimately show ?l unfolding like_doc_percent by blast
qed

lemma plain_like_pattern: "plain_text q \<Longrightarrow> plain_text (like_pattern q)"
  using runes_like_pattern(2) [of q]
  by (auto simp: plain_text_def like_pattern_def escape_like_def escape_like_byte_def split: if_splits)

text \<open>A column contains the query as a substring of characters, up to the case of ASCII letters.\<close>

definition contains_text :: "bytes \<Rightarrow> bytes option \<Rightarrow> bool" where
  "contains_text q col \<longleftrightarrow>
     (\<exists>s a mid b. col = Some s \<and> runes s = a @ mid @ b \<and> list_all2 same_letter (runes q) mid)"

lemma column_like_contains:
  assumes "like_ok lk" and "plain_text q" and "\<forall>s. col = Some s \<longrightarrow> plain_text s"
  shows "column_like lk (like_pattern q) col \<longleftrightarrow> contains_text q col"
proof (cases col)
  case (Some s)
  have "to_valid_utf8 q = q" using assms(2) by (simp add: plain_text_def)
  with assms Some show ?thesis
    by (simp add: column_like_def contains_text_def like_ok_def plain_like_pattern runes_like_pattern(1)
        like_doc_contains del: like_doc.simps)
qed (simp add: column_like_def contains_text_def)

definition searched_columns :: "message_row \<Rightarrow> bytes option list" where
  "searched_columns m = [msg_subject m, msg_from_address m, msg_from_name m, msg_text m]"

lemma message_matches_contains:
  assumes "like_ok lk" and "plain_text q" and "\<forall>s. Some s \<in> set (searched_columns m) \<longrightarrow> plain_text s"
  shows "message_matches lk q m \<longleftrightarrow> (\<exists>col\<in>set (searched_columns m). contains_text q col)"
proof -
  have "column_like lk (like_pattern q) col \<longleftrightarrow> contains_text q col" if "col \<in> set (searched_columns m)" for col
    by (rule column_like_contains [OF assms(1,2)]) (use assms(3) that in blast)
  then show ?thesis by (simp add: message_matches_def Let_def searched_columns_def)
qed

lemma sort_key_neg_sorted: "sorted_wrt (\<lambda>a b. f a \<ge> f b) (sort_key (\<lambda>x. - f x) xs)" for f :: "'a \<Rightarrow> int"
  using sorted_sort_key [of "\<lambda>x. - f x" xs] by (simp add: sorted_map)



lemma like_doc_ok: "like_ok (\<lambda>p s. like_doc (runes p) (runes s))"
  by (simp add: like_ok_def)

lemma sample_contains: "contains_text ''HI'' (Some ''hi'')"
proof -
  have "runes ''hi'' = [] @ [104, 105] @ []" "runes ''HI'' = [72, 73]"
    by (simp_all add: runes_ascii ascii_eval del: runes.simps)
  moreover have "list_all2 same_letter [72, 73] [104, 105]"
    by (simp add: same_letter_def ascii_lower_def ascii_eval)
  ultimately show ?thesis unfolding contains_text_def by metis
qed


end
