(* ===== verification/Store_Init.thy ===== *)
theory Store_Init
  imports Store_Props
begin

text \<open>
  Opening the store (\<open>dsn\<close>, \<open>init\<close>): the missing columns are added and the empty snippets of old
  messages filled in, in batches of 128 by ascending id, in one transaction.

  A database from before a migration is read with its missing columns at their defaults, so adding
  a column changes no row; what the model keeps of it is that the statement can fail.
  The batch loop takes fuel; \<open>backfill_fills_all\<close> shows that one more than the number of messages is
  enough for it to end by itself.
\<close>

section \<open>The code\<close>

definition dsn :: "bytes \<Rightarrow> bytes" where
  "dsn path = path @ (if contains path ''?'' then ''&'' else ''?'')
     @ ''_pragma=foreign_keys(1)&_pragma=journal_mode(WAL)''"

definition batch_size :: nat where
  "batch_size = 128"

definition q_snippet_batch :: "int \<Rightarrow> message_row list stmt" where
  "q_snippet_batch after d =
     (Inr (take batch_size (sort_key msg_id
        (filter (\<lambda>m. msg_snippet m = [] \<and> after < msg_id m) (messages d)))), d)"

definition row_snippet :: "message_row \<Rightarrow> bytes" where
  "row_snippet m = message_snippet (msg_text m) (msg_html m)"

definition update_snippet :: "int \<Rightarrow> bytes \<Rightarrow> unit stmt" where
  "update_snippet i s d =
     (Inr (), d\<lparr>messages := map (\<lambda>m. if msg_id m = i then m\<lparr>msg_snippet := s\<rparr> else m) (messages d)\<rparr>)"

fun update_snippets :: "(int \<times> bytes) list \<Rightarrow> unit tx" where
  "update_snippets [] = return_tx ()"
| "update_snippets (p # ps) = bind_tx (stmt (update_snippet (fst p) (snd p))) (\<lambda>_. update_snippets ps)"

definition pending_snippets :: "message_row list \<Rightarrow> (int \<times> bytes) list" where
  "pending_snippets batch = filter (\<lambda>p. snd p \<noteq> []) (map (\<lambda>m. (msg_id m, row_snippet m)) batch)"

text \<open>The result is whether the loop ended by itself.\<close>

fun backfill_snippets :: "nat \<Rightarrow> int \<Rightarrow> bool tx" where
  "backfill_snippets 0 after = return_tx False"
| "backfill_snippets (Suc fuel) after =
     bind_tx (stmt (q_snippet_batch after)) (\<lambda>batch.
       let last_id = (if batch = [] then 0 else msg_id (last batch)) in
       if last_id = 0 then return_tx True
       else bind_tx (update_snippets (pending_snippets batch)) (\<lambda>_. backfill_snippets fuel last_id))"

definition migration_columns :: "bytes list" where
  "migration_columns = [''ical_json'', ''raw'', ''snippet'']"

fun run_migrations :: "bytes list \<Rightarrow> bytes list \<Rightarrow> unit tx" where
  "run_migrations columns [] = return_tx ()"
| "run_migrations columns (c # cs) =
     (if c \<in> set columns then run_migrations columns cs
      else bind_tx (stmt (\<lambda>d. (Inr (), d))) (\<lambda>_. run_migrations columns cs))"

definition init_store :: "bytes list \<Rightarrow> faults \<Rightarrow> db \<Rightarrow> (store_err + bool) \<times> db" where
  "init_store columns fs d =
     (let run = bind_tx (driver_value ()) (\<lambda>_. bind_tx (driver_value columns) (\<lambda>columns.
            in_tx (bind_tx (run_migrations columns migration_columns) (\<lambda>_.
                   bind_tx (backfill_snippets (Suc (length (messages d))) 0) (\<lambda>ended.
                   return_tx (Commit ended)))))) d fs
      in (fst run, fst (snd run)))"

section \<open>The loop\<close>

definition fill :: "message_row \<Rightarrow> message_row" where
  "fill m = (if msg_snippet m = [] then m\<lparr>msg_snippet := row_snippet m\<rparr> else m)"

definition filled_upto :: "int \<Rightarrow> db \<Rightarrow> db" where
  "filled_upto after d = d\<lparr>messages := map (\<lambda>m. if msg_id m \<le> after then fill m else m) (messages d)\<rparr>"

lemma fill_id [simp]: "msg_id (fill m) = msg_id m"
  by (simp add: fill_def)

lemma fill_empty [simp]: "row_snippet m = [] \<Longrightarrow> fill m = m"
  by (simp add: fill_def)

text \<open>A prefix of a list sorted by a key is what lies below the key of its last element.\<close>

lemma take_sorted_prefix:
  fixes f :: "'a \<Rightarrow> int"
  assumes "sorted (map f xs)" and "distinct (map f xs)" and "x \<in> set xs" and "take n xs \<noteq> []"
  shows "x \<in> set (take n xs) \<longleftrightarrow> f x \<le> f (last (take n xs))"
proof -
  define k where "k = min n (length xs) - 1"
  have "0 < length xs" "0 < n" using assms(3,4) by auto
  then have k: "k < length xs" "k < n" unfolding k_def by linarith+
  have last: "last (take n xs) = xs ! k"
    using assms(4) by (simp add: last_conv_nth k_def min_def)
  obtain i where i: "i < length xs" "x = xs ! i" using assms(3) by (auto simp: in_set_conv_nth)
  have strict: "f (xs ! a) < f (xs ! b)" if "a < b" "b < length xs" for a b
  proof -
    have "f (xs ! a) \<le> f (xs ! b)" using assms(1) that by (auto simp: sorted_iff_nth_mono_less)
    moreover have "f (xs ! a) \<noteq> f (xs ! b)"
      using assms(2) that nth_eq_iff_index_eq [OF assms(2), of a b] by auto
    ultimately show ?thesis by simp
  qed
  have "x \<in> set (take n xs) \<longleftrightarrow> i \<le> k"
  proof
    assume "x \<in> set (take n xs)"
    then obtain j where "j < n" "j < length xs" "xs ! j = x" by (auto simp: in_set_conv_nth)
    then have "j = i" using i nth_eq_iff_index_eq [OF assms(2), of j i] by auto
    with \<open>j < n\<close> \<open>j < length xs\<close> show "i \<le> k" by (simp add: k_def)
  next
    assume "i \<le> k"
    with k i show "x \<in> set (take n xs)" by (auto simp: in_set_conv_nth intro!: exI [of _ i])
  qed
  also have "\<dots> \<longleftrightarrow> f x \<le> f (xs ! k)"
    using strict [of i k] strict [of k i] i k by (metis leD le_less linorder_not_less order_refl)
  finally show ?thesis by (simp add: last)
qed

lemma update_snippets_run:
  "update_snippets ps d [] =
     (Inr (), d\<lparr>messages := fold (\<lambda>p. map (\<lambda>m. if msg_id m = fst p then m\<lparr>msg_snippet := snd p\<rparr> else m)) ps (messages d)\<rparr>, [])"
  by (induction ps arbitrary: d) (simp_all add: bind_stmt update_snippet_def)

lemma fold_update:
  "fold (\<lambda>p. map (\<lambda>m. if msg_id m = fst p then m\<lparr>msg_snippet := snd p\<rparr> else m)) ps ms =
     map (\<lambda>m. fold (\<lambda>p m. if msg_id m = fst p then m\<lparr>msg_snippet := snd p\<rparr> else m) ps m) ms"
  by (induction ps arbitrary: ms) (simp_all add: comp_def)

lemma fold_update_one:
  assumes "distinct (map fst ps)"
  shows "fold (\<lambda>p m. if msg_id m = fst p then m\<lparr>msg_snippet := snd p\<rparr> else m) ps m =
     (case map_of ps (msg_id m) of None \<Rightarrow> m | Some s \<Rightarrow> m\<lparr>msg_snippet := s\<rparr>)"
  using assms
proof (induction ps arbitrary: m)
  case (Cons p ps)
  show ?case
  proof (cases "msg_id m = fst p")
    case True
    with Cons.prems have "map_of ps (msg_id m) = None" by (auto simp: map_of_eq_None_iff)
    with Cons True show ?thesis by (cases p) simp
  next
    case False
    with Cons show ?thesis by (cases p) simp
  qed
qed simp


text \<open>The rows the loop has still to look at after an id.\<close>

definition backlog :: "int \<Rightarrow> db \<Rightarrow> message_row list" where
  "backlog after d = sort_key msg_id (filter (\<lambda>m. msg_snippet m = [] \<and> after < msg_id m) (messages d))"

lemma backlog_filled: "backlog after (filled_upto after d) = backlog after d"
proof -
  have "filter (\<lambda>m. msg_snippet m = [] \<and> after < msg_id m) (map (\<lambda>m. if msg_id m \<le> after then fill m else m) ms)
      = filter (\<lambda>m. msg_snippet m = [] \<and> after < msg_id m) ms" for ms
    by (induction ms) auto
  then show ?thesis by (simp add: backlog_def filled_upto_def)
qed

lemma set_backlog: "set (backlog after d) = {m \<in> set (messages d). msg_snippet m = [] \<and> after < msg_id m}"
  by (simp add: backlog_def)

lemma distinct_backlog:
  assumes "db_ok d"
  shows "distinct (map msg_id (backlog after d))" and "sorted (map msg_id (backlog after d))"
proof -
  have "distinct (map msg_id (filter P (messages d)))" for P
    using assms by (simp add: db_ok_def ids_ok_def distinct_map_filter)
  moreover have "mset (map msg_id (backlog after d))
      = mset (map msg_id (filter (\<lambda>m. msg_snippet m = [] \<and> after < msg_id m) (messages d)))"
    by (simp add: backlog_def)
  ultimately show "distinct (map msg_id (backlog after d))" by (metis mset_eq_imp_distinct_iff)
  show "sorted (map msg_id (backlog after d))" by (simp add: backlog_def)
qed

lemma filled_all: "backlog after d = [] \<Longrightarrow> filled_upto after d = d\<lparr>messages := map fill (messages d)\<rparr>"
proof -
  assume "backlog after d = []"
  then have "set (backlog after d) = {}" by simp
  then have "\<forall>m\<in>set (messages d). (if msg_id m \<le> after then fill m else m) = fill m"
    unfolding set_backlog by (auto simp: fill_def)
  then show ?thesis by (simp add: filled_upto_def)
qed

lemma map_of_pending:
  assumes "distinct (map msg_id batch)" and "m \<in> set batch"
  shows "map_of (pending_snippets batch) (msg_id m) = (if row_snippet m = [] then None else Some (row_snippet m))"
proof -
  have d: "distinct (map fst (pending_snippets batch))"
    using assms(1) by (simp add: pending_snippets_def distinct_map_filter comp_def)
  show ?thesis
  proof (cases "row_snippet m = []")
    case True
    have "msg_id m \<notin> fst ` set (pending_snippets batch)"
      using assms True by (auto simp: pending_snippets_def distinct_map inj_on_def)
    with True show ?thesis by (simp add: map_of_eq_None_iff)
  next
    case False
    then have "(msg_id m, row_snippet m) \<in> set (pending_snippets batch)"
      using assms(2) by (simp add: pending_snippets_def)
    with d False show ?thesis by simp
  qed
qed

lemma pending_fst: "fst ` set (pending_snippets batch) \<subseteq> msg_id ` set batch"
  by (auto simp: pending_snippets_def)

text \<open>One batch moves the boundary to the id of its last row.\<close>

lemma batch_step:
  assumes "db_ok d" and "batch = take batch_size (backlog after d)" and "batch \<noteq> []"
  shows "update_snippets (pending_snippets batch) (filled_upto after d) [] =
     (Inr (), filled_upto (msg_id (last batch)) d, [])" and "after < msg_id (last batch)"
proof -
  let ?l = "msg_id (last batch)"
  have sub: "set batch \<subseteq> set (backlog after d)" using assms(2) by (simp add: set_take_subset)
  have db: "distinct (map msg_id batch)"
    using distinct_backlog(1) [OF assms(1)] by (simp add: assms(2) take_map [symmetric] distinct_take)
  have dp: "distinct (map fst (pending_snippets batch))"
    using db by (simp add: pending_snippets_def distinct_map_filter comp_def)
  show l: "after < ?l" using sub last_in_set [OF assms(3)] by (auto simp: set_backlog)
  have ids: "x = y" if "x \<in> set (messages d)" "y \<in> set (messages d)" "msg_id x = msg_id y" for x y
    using assms(1) that by (auto simp: db_ok_def ids_ok_def distinct_map inj_on_def)
  have one: "(case map_of (pending_snippets batch) (msg_id m) of None \<Rightarrow> m' | Some s \<Rightarrow> m'\<lparr>msg_snippet := s\<rparr>)
      = (if msg_id m \<le> ?l then fill m else m)"
    if m: "m \<in> set (messages d)" and m': "m' = (if msg_id m \<le> after then fill m else m)" for m m'
  proof (cases "m \<in> set batch")
    case True
    then have "m \<in> set (backlog after d)" using sub by blast
    then have "msg_snippet m = []" "after < msg_id m"
      and "msg_id m \<le> ?l"
      using take_sorted_prefix [OF distinct_backlog(2,1) [OF assms(1)], of m after batch_size] True assms(2,3)
      by (auto simp: set_backlog)
    with map_of_pending [OF db True] show ?thesis by (simp add: m' fill_def)
  next
    case False
    then have "msg_id m \<notin> msg_id ` set batch"
      using ids [OF _ m] sub by (auto simp: set_backlog)
    then have none: "map_of (pending_snippets batch) (msg_id m) = None"
      using pending_fst by (auto simp: map_of_eq_None_iff)
    have "msg_snippet m \<noteq> []" if "after < msg_id m" "msg_id m \<le> ?l"
      using take_sorted_prefix [OF distinct_backlog(2,1) [OF assms(1)], of m after batch_size] False assms(2,3) that m
      by (auto simp: set_backlog)
    with none l show ?thesis by (auto simp: m' fill_def)
  qed
  have "map (\<lambda>m. fold (\<lambda>p m. if msg_id m = fst p then m\<lparr>msg_snippet := snd p\<rparr> else m) (pending_snippets batch) m)
      (messages (filled_upto after d)) = messages (filled_upto ?l d)"
    by (simp add: filled_upto_def fold_update_one [OF dp]) (use one in \<open>auto split: if_splits\<close>)
  then show "update_snippets (pending_snippets batch) (filled_upto after d) [] = (Inr (), filled_upto ?l d, [])"
    by (simp add: update_snippets_run fold_update) (simp add: filled_upto_def)
qed

lemma backfill_run:
  "db_ok d \<Longrightarrow> 0 \<le> after \<Longrightarrow> length (backlog after d) < fuel \<Longrightarrow>
   backfill_snippets fuel after (filled_upto after d) [] = (Inr True, d\<lparr>messages := map fill (messages d)\<rparr>, [])"
proof (induction fuel arbitrary: after)
  case 0
  then show ?case by simp
next
  case (Suc fuel)
  let ?batch = "take batch_size (backlog after d)"
  have q: "q_snippet_batch after (filled_upto after d) = (Inr ?batch, filled_upto after d)"
    unfolding q_snippet_batch_def by (simp add: backlog_filled [unfolded backlog_def] backlog_def)
  show ?case
  proof (cases "?batch = []")
    case True
    then have "backlog after d = []" by (simp add: batch_size_def)
    then show ?thesis using q by (simp add: bind_stmt True filled_all)
  next
    case False
    note step = batch_step [OF Suc.prems(1) refl False]
    let ?l = "msg_id (last ?batch)"
    have "set (backlog ?l d) \<subset> set (backlog after d)"
    proof
      show "set (backlog ?l d) \<subseteq> set (backlog after d)" using step(2) by (auto simp: set_backlog)
      have "last ?batch \<in> set (backlog after d)" using last_in_set [OF False] by (auto dest: in_set_takeD)
      moreover have "last ?batch \<notin> set (backlog ?l d)" by (simp add: set_backlog)
      ultimately show "set (backlog ?l d) \<noteq> set (backlog after d)" by blast
    qed
    then have "card (set (backlog ?l d)) < card (set (backlog after d))" by (simp add: psubset_card_mono)
    moreover have "distinct (backlog a d)" for a
      using distinct_backlog(1) [OF Suc.prems(1)] by (metis distinct_map)
    ultimately have "length (backlog ?l d) < fuel" using Suc.prems(3) by (simp add: distinct_card)
    from Suc.IH [OF Suc.prems(1) _ this] step Suc.prems(2) False
    show ?thesis by (simp add: bind_stmt q False Let_def bind_tx_def)
  qed
qed

lemma filled_none: "db_ok d \<Longrightarrow> filled_upto 0 d = d"
proof -
  assume "db_ok d"
  then have "\<forall>m\<in>set (messages d). \<not> msg_id m \<le> 0" by (auto simp: db_ok_def ids_ok_def)
  then have "map (\<lambda>m. if msg_id m \<le> 0 then fill m else m) (messages d) = messages d" by (intro map_idI) simp
  then show "filled_upto 0 d = d" by (simp add: filled_upto_def)
qed

lemma length_backlog: "length (backlog after d) \<le> length (messages d)"
  by (simp add: backlog_def)


section \<open>Properties\<close>

lemma bind_driver:
  "bind_tx (driver_value x) k d fs = (if faulty fs then (Inl Driver_Error, d, tl fs) else k x d (tl fs))"
  by (simp add: driver_value_def bind_stmt)

lemma in_tx_fst_Inl: "fst (in_tx body d fs) = Inl e \<Longrightarrow> fst (snd (in_tx body d fs)) = d"
  using in_tx_Inl [of body d fs e] by (metis prod.collapse)

lemma run_migrations_run: "run_migrations columns cs d [] = (Inr (), d, [])"
  by (induction cs) (simp_all add: bind_stmt)

lemma keeps_run_migrations: "keeps I (run_migrations columns cs)"
  by (induction cs) (auto simp del: return_tx_simp intro!: keeps_rules keeps_stmt)

text \<open>
  C37. Opening a store on a well-formed database fills in every empty snippet and changes nothing
  else, however many batches of 128 it takes: the batched loop ends by itself and equals one pass
  over the table.  When a call fails while it is opened, the database is left as it was.
\<close>

theorem backfill_fills_all:
  assumes "db_ok d"
  shows "init_store columns [] d = (Inr True, d\<lparr>messages := map fill (messages d)\<rparr>)
    \<and> (\<forall>fs e d'. init_store columns fs d = (Inl e, d') \<longrightarrow> d' = d)"
proof (intro conjI allI impI)
  have "length (backlog 0 d) < Suc (length (messages d))" using length_backlog [of 0 d] by simp
  from backfill_run [OF assms order_refl this] show "init_store columns [] d = (Inr True, d\<lparr>messages := map fill (messages d)\<rparr>)"
    by (simp add: init_store_def bind_tx_def in_tx_def run_migrations_run filled_none [OF assms] Let_def)
next
  fix fs e d'
  assume "init_store columns fs d = (Inl e, d')"
  then show "d' = d"
    by (auto simp: init_store_def Let_def bind_driver split: if_splits dest!: in_tx_fst_Inl)
qed

theorem backfill_fills_all_witness:
  "snd (init_store [''id'', ''raw''] [] (sdb delivered_store)) = (sdb delivered_store)\<lparr>messages := map fill (messages (sdb delivered_store))\<rparr>"
  using backfill_fills_all [OF delivered_store_ok, of "[''id'', ''raw'']"] by simp

end
