(* ===== verification/Go_Mime.thy ===== *)
theory Go_Mime
  imports Go_Strings
begin

text \<open>
  What the program uses of Go's package \<open>mime\<close>: \<open>ParseMediaType\<close> with its RFC 2045 tokens and
  quoted strings and its RFC 2231 continuations.  A map of parameters is an association list with
  distinct keys.
\<close>

type_synonym params = "(bytes \<times> bytes) list"

text \<open>Indexing a Go map of strings: the empty string for a missing key.\<close>

definition param :: "params \<Rightarrow> bytes \<Rightarrow> bytes" where
  "param ps k = (case map_of ps k of None \<Rightarrow> [] | Some v \<Rightarrow> v)"

section \<open>Tokens and quoted strings\<close>

definition is_tspecial :: "char \<Rightarrow> bool" where
  "is_tspecial c \<longleftrightarrow> c \<in> set (''()<>@,;:/[]?='' @ [BSLASH, DQUOTE])"

definition is_token_char :: "char \<Rightarrow> bool" where
  "is_token_char c \<longleftrightarrow> 32 < byte c \<and> byte c < 127 \<and> \<not> is_tspecial c"

definition consume_token :: "bytes \<Rightarrow> bytes \<times> bytes" where
  "consume_token v = (takeWhile is_token_char v, dropWhile is_token_char v)"

text \<open>The characters after the opening quote, with what was read so far; \<open>None\<close> when no quote closes them.\<close>

fun quoted_loop :: "bytes \<Rightarrow> bytes \<Rightarrow> (bytes \<times> bytes) option" where
  "quoted_loop acc [] = None"
| "quoted_loop acc (r # v) =
     (if r = DQUOTE then Some (acc, v)
      else if r = BSLASH \<and> v \<noteq> [] \<and> is_tspecial (hd v) then quoted_loop (acc @ [hd v]) (tl v)
      else if r = CR \<or> r = LF then None
      else quoted_loop (acc @ [r]) v)"

definition consume_value :: "bytes \<Rightarrow> bytes \<times> bytes" where
  "consume_value v =
     (if v = [] then ([], [])
      else if hd v \<noteq> DQUOTE then consume_token v
      else case quoted_loop [] (tl v) of None \<Rightarrow> ([], v) | Some r \<Rightarrow> r)"

definition consume_media_param :: "unicode \<Rightarrow> bytes \<Rightarrow> bytes \<times> bytes \<times> bytes" where
  "consume_media_param u v =
     (let rest = trim_left v in
      if \<not> has_prefix rest '';'' then ([], [], v)
      else
        (let (name, rest) = consume_token (trim_left (tl rest)); name = to_lower u name in
         if name = [] then ([], [], v)
         else
           (let rest = trim_left rest in
            if \<not> has_prefix rest ''='' then ([], [], v)
            else
              (let rest = trim_left (tl rest); (val, rest2) = consume_value rest in
               if val = [] \<and> rest2 = rest then ([], [], v) else (name, val, rest2)))))"

section \<open>Continuations\<close>

definition hex_val :: "char \<Rightarrow> nat option" where
  "hex_val c =
     (if is_digit c then Some (byte c - 48)
      else if 97 \<le> byte c \<and> byte c \<le> 102 then Some (byte c - 87)
      else if 65 \<le> byte c \<and> byte c \<le> 70 then Some (byte c - 55)
      else None)"

fun percent_unescape :: "bytes \<Rightarrow> bytes option" where
  "percent_unescape [] = Some []"
| "percent_unescape (c # s) =
     (if c \<noteq> CHR ''%'' then map_option ((#) c) (percent_unescape s)
      else
        (case s of
           a # b # s' \<Rightarrow>
             (case (hex_val a, hex_val b) of
                (Some x, Some y) \<Rightarrow> map_option ((#) (chr (16 * x + y))) (percent_unescape s')
              | _ \<Rightarrow> None)
         | _ \<Rightarrow> None))"

definition decode_2231 :: "unicode \<Rightarrow> bytes \<Rightarrow> bytes option" where
  "decode_2231 u v =
     (case index_byte (\<lambda>c. c = CHR 0x27) v of
        None \<Rightarrow> None
      | Some i \<Rightarrow>
          (case index_byte (\<lambda>c. c = CHR 0x27) (drop (Suc i) v) of
             None \<Rightarrow> None
           | Some j \<Rightarrow>
               if to_lower u (take i v) \<in> {''us-ascii'', ''utf-8''}
               then percent_unescape (drop (Suc j) (drop (Suc i) v)) else None))"

text \<open>
  The pieces \<open>name*0\<close>, \<open>name*1\<close>, ... up to the first number that has none; each number is a key of
  its own, so no more than \<open>length pieces\<close> of them are present.
\<close>

definition piece :: "unicode \<Rightarrow> bytes \<Rightarrow> params \<Rightarrow> nat \<Rightarrow> bytes option" where
  "piece u name pieces n =
     (let simple = name @ ''*'' @ itoa (int n) in
      case map_of pieces simple of
        Some v \<Rightarrow> Some v
      | None \<Rightarrow>
          (case map_of pieces (simple @ ''*'') of
             None \<Rightarrow> None
           | Some v \<Rightarrow>
               Some (case (if n = 0 then decode_2231 u v else percent_unescape v) of None \<Rightarrow> [] | Some d \<Rightarrow> d)))"

definition stitch :: "unicode \<Rightarrow> bytes \<Rightarrow> params \<Rightarrow> bytes option" where
  "stitch u name pieces =
     (case map_of pieces (name @ ''*'') of
        Some v \<Rightarrow> decode_2231 u v
      | None \<Rightarrow>
          (let found = takeWhile (\<lambda>p. p \<noteq> None) (map (piece u name pieces) [0..<length pieces])
           in if found = [] then None else Some (concat (map the found))))"

definition stitch_all :: "unicode \<Rightarrow> (bytes \<times> params) list \<Rightarrow> params \<Rightarrow> params" where
  "stitch_all u continuation ps =
     foldl (\<lambda>ps (name, pieces). case stitch u name pieces of None \<Rightarrow> ps | Some v \<Rightarrow> map_put name v ps)
       ps continuation"

section \<open>\<open>ParseMediaType\<close>\<close>

definition media_type_ok :: "bytes \<Rightarrow> bool" where
  "media_type_ok s =
     (let (typ, rest) = consume_token s in
      typ \<noteq> [] \<and>
      (rest = [] \<or>
       (hd rest = CHR ''/'' \<and>
        (let (sub, rest) = consume_token (tl rest) in sub \<noteq> [] \<and> rest = []))))"

lemma trim_left_length: "length (trim_left s) \<le> length s"
  using trim_left_suffix [of s] by (metis le_add2 length_append)

lemma consume_token_length: "consume_token v = (t, r) \<Longrightarrow> length r \<le> length v"
  by (auto simp: consume_token_def length_dropWhile_le)

lemma quoted_loop_length: "quoted_loop acc v = Some (t, r) \<Longrightarrow> length r \<le> length v"
  by (induction acc v rule: quoted_loop.induct) (fastforce split: if_splits)+

lemma consume_value_length: "consume_value v = (t, r) \<Longrightarrow> length r \<le> length v"
  by (auto simp: consume_value_def dest!: quoted_loop_length consume_token_length
      split: if_splits option.splits)

lemma has_prefix_nonempty: "has_prefix s [c] \<Longrightarrow> s \<noteq> []"
  by (auto simp: has_prefix_def)

lemma consume_media_param_shorter:
  assumes "consume_media_param u v = (name, val, rest)" and "name \<noteq> []"
  shows "length rest < length v"
proof -
  let ?a = "trim_left v"
  obtain t b where t: "consume_token (trim_left (tl ?a)) = (t, b)" by fastforce
  obtain w c where w: "consume_value (trim_left (tl (trim_left b))) = (w, c)" by fastforce
  have sc: "has_prefix ?a '';''" "c = rest"
    using assms t w by (auto simp: consume_media_param_def Let_def split: if_splits)
  have "length c \<le> length (trim_left (tl (trim_left b)))" by (rule consume_value_length [OF w])
  also have "\<dots> \<le> length b"
    using trim_left_length [of "tl (trim_left b)"] trim_left_length [of b] by simp
  also have "\<dots> \<le> length (tl ?a)"
    using consume_token_length [OF t] trim_left_length [of "tl ?a"] by simp
  also have "\<dots> < length ?a" using has_prefix_nonempty [OF sc(1)] by simp
  also have "\<dots> \<le> length v" by (rule trim_left_length)
  finally show ?thesis using sc(2) by simp
qed

text \<open>The loop over the parameters; \<open>Inl True\<close> is a duplicate name, \<open>Inl False\<close> a malformed parameter.\<close>

function media_loop ::
  "unicode \<Rightarrow> bytes \<Rightarrow> params \<Rightarrow> (bytes \<times> params) list \<Rightarrow> bool + (params \<times> (bytes \<times> params) list)" where
  "media_loop u v ps conts =
     (let v = trim_left v in
      if v = [] then Inr (ps, conts)
      else
        (let (key, val, rest) = consume_media_param u v in
         if key = [] then (if trim_space rest = '';'' then Inr (ps, conts) else Inl False)
         else
           (case index_byte (\<lambda>c. c = CHR ''*'') key of
              None \<Rightarrow>
                if map_of ps key \<noteq> None \<and> map_of ps key \<noteq> Some val then Inl True
                else media_loop u rest (map_put key val ps) conts
            | Some i \<Rightarrow>
                (let base = take i key;
                     pieces = (case map_of conts base of None \<Rightarrow> [] | Some m \<Rightarrow> m) in
                 if map_of pieces key \<noteq> None \<and> map_of pieces key \<noteq> Some val then Inl True
                 else media_loop u rest ps (map_put base (map_put key val pieces) conts)))))"
  by pat_completeness auto
termination
proof (relation "measure (\<lambda>(u, v, ps, conts). length v)", goal_cases)
  case (2 u v ps conts t p key q val rest)
  then have "length rest < length (trim_left v)"
    using consume_media_param_shorter [of u "trim_left v" key val rest] by simp
  then show ?case using trim_left_length [of v] by simp
next
  case (3 u v ps conts t p key q val rest)
  then have "length rest < length (trim_left v)"
    using consume_media_param_shorter [of u "trim_left v" key val rest] by simp
  then show ?case using trim_left_length [of v] by simp
qed simp

declare media_loop.simps [simp del]

text \<open>The media type, its parameters, and whether there was no error.\<close>

definition parse_media_type :: "unicode \<Rightarrow> bytes \<Rightarrow> bytes \<times> params \<times> bool" where
  "parse_media_type u v =
     (let base = takeWhile (\<lambda>c. c \<noteq> CHR '';'') v; typ = trim_space (to_lower u base) in
      if \<not> media_type_ok typ then ([], [], False)
      else case media_loop u (drop (length base) v) [] [] of
        Inl True \<Rightarrow> ([], [], False)
      | Inl False \<Rightarrow> (typ, [], False)
      | Inr (ps, conts) \<Rightarrow> (typ, stitch_all u conts ps, True))"

lemma parse_media_type_no_params:
  assumes "CHR '';'' \<notin> set v"
  shows "parse_media_type u v =
    (let typ = trim_space (to_lower u v) in if media_type_ok typ then (typ, [], True) else ([], [], False))"
proof -
  have tw: "takeWhile (\<lambda>c. c \<noteq> CHR '';'') v = v" using assms by (simp add: takeWhile_eq_all_conv) blast
  have ml: "media_loop u [] [] [] = Inr ([], [])" by (subst media_loop.simps) simp
  show ?thesis
    unfolding parse_media_type_def Let_def tw by (simp add: ml stitch_all_def)
qed

end
