(* ===== verification/Http_Text.thy ===== *)
theory Http_Text
  imports Go_Mime
begin

text \<open>
  The text functions of \<open>internal/httpserver/httpserver.go\<close>: numbers in paths, the size of a search
  pattern, the content type, the name and the disposition of an attachment, and the cleaning of
  paths (\<open>path.Base\<close>, and \<open>path.Clean\<close> of a rooted path).
\<close>

definition slash :: char where
  "slash = CHR ''/''"

text \<open>\<open>strconv.ParseInt\<close> in base 10 for 64 bits is what \<open>Atoi\<close> does where \<open>int\<close> has 64 bits.\<close>

definition parse_id :: "bytes \<Rightarrow> int option" where
  "parse_id v = atoi v"

definition max_search_pattern_bytes :: nat where
  "max_search_pattern_bytes = 1024"

definition search_pattern_bytes :: "bytes \<Rightarrow> nat" where
  "search_pattern_bytes q =
     length q + count_list q BSLASH + count_list q (CHR ''%'') + count_list q (CHR ''_'')"

section \<open>Paths\<close>

text \<open>\<open>path.Base\<close>: trailing slashes removed, then what follows the last slash.\<close>

definition path_base :: "bytes \<Rightarrow> bytes" where
  "path_base p =
     (if p = [] then ''.''
      else
        (let p = rev (dropWhile (\<lambda>c. c = slash) (rev p)); b = rev (takeWhile (\<lambda>c. c \<noteq> slash) (rev p)) in
         if b = [] then ''/'' else b))"

text \<open>\<open>path.Clean\<close> of a path that starts with a slash, without that slash: the elements that stay.\<close>

fun clean_elements :: "bytes list \<Rightarrow> bytes list \<Rightarrow> bytes list" where
  "clean_elements out [] = out"
| "clean_elements out (e # es) =
     (if e = [] \<or> e = ''.'' then clean_elements out es
      else if e = ''..'' then clean_elements (butlast out) es
      else clean_elements (out @ [e]) es)"

fun join_slash :: "bytes list \<Rightarrow> bytes" where
  "join_slash [] = []"
| "join_slash [e] = e"
| "join_slash (e # es) = e @ slash # join_slash es"

definition clean_rooted :: "bytes \<Rightarrow> bytes" where
  "clean_rooted p = join_slash (clean_elements [] (split_byte slash p))"

section \<open>Attachments\<close>

definition octet_stream :: bytes where
  "octet_stream = ''application/octet-stream''"

definition normalize_attachment_content_type :: "unicode \<Rightarrow> bytes option \<Rightarrow> bytes" where
  "normalize_attachment_content_type u v =
     (case v of
        None \<Rightarrow> octet_stream
      | Some s \<Rightarrow>
          (let raw = trim_space s in
           if raw = [] then octet_stream
           else
             (case parse_media_type u raw of
                (media_type, ps, ok) \<Rightarrow>
                  if \<not> ok then octet_stream
                  else
                    (let media_type = to_lower u (trim_space media_type) in
                     if media_type = [] then octet_stream
                     else
                       (case parse_media_type u media_type of
                          (parsed, ps, ok) \<Rightarrow>
                            if \<not> ok \<or> parsed \<noteq> media_type then octet_stream else media_type)))))"

text \<open>\<open>unicode.IsControl\<close>.\<close>

definition is_control :: "rune \<Rightarrow> bool" where
  "is_control r \<longleftrightarrow> r < 32 \<or> (127 \<le> r \<and> r < 160)"

definition clean_name :: "bytes \<Rightarrow> bytes" where
  "clean_name name =
     encode_runes (filter (\<lambda>r. \<not> is_control r \<and> r \<noteq> byte slash \<and> r \<noteq> byte BSLASH) (runes name))"

definition fallback_name :: "int \<Rightarrow> bytes" where
  "fallback_name i = ''attachment-'' @ itoa i"

definition sanitize_attachment_filename :: "bytes option \<Rightarrow> int \<Rightarrow> bytes" where
  "sanitize_attachment_filename v i =
     (case v of
        None \<Rightarrow> fallback_name i
      | Some s \<Rightarrow>
          if s = [] then fallback_name i
          else
            (let name = clean_name (path_base (map (\<lambda>c. if c = BSLASH then slash else c) s)) in
             if name = [] \<or> name = ''.'' \<or> name = ''..'' then fallback_name i else name))"

text \<open>The loop of \<open>formatAttachmentDisposition\<close>: the ASCII name; a run of other characters is one underscore.\<close>

fun ascii_name :: "bool \<Rightarrow> rune list \<Rightarrow> bytes" where
  "ascii_name replacing [] = []"
| "ascii_name replacing (r # rs) =
     (if 127 < r then (if replacing then [] else ''_'') @ ascii_name True rs
      else if r = byte DQUOTE \<or> r = byte BSLASH then ascii_name False rs
      else encode_rune r @ ascii_name False rs)"

definition hex_digit :: "nat \<Rightarrow> char" where
  "hex_digit n = ''0123456789ABCDEF'' ! n"

definition attr_char :: "char \<Rightarrow> bool" where
  "attr_char c \<longleftrightarrow>
     (97 \<le> byte c \<and> byte c \<le> 122) \<or> (65 \<le> byte c \<and> byte c \<le> 90) \<or> (48 \<le> byte c \<and> byte c \<le> 57)
     \<or> c \<in> set ''!#$&+-.^_`|~''"

definition encode_rfc5987 :: "bytes \<Rightarrow> bytes" where
  "encode_rfc5987 v =
     concat (map (\<lambda>c. if attr_char c then [c]
       else [CHR ''%'', hex_digit (byte c div 16), hex_digit (byte c mod 16)]) v)"

definition format_attachment_disposition :: "bytes \<Rightarrow> bytes \<Rightarrow> bytes" where
  "format_attachment_disposition disposition name =
     (let ascii = ascii_name False (runes name);
          quoted = (if ascii = [] then ''attachment'' else ascii);
          header = disposition @ ''; filename='' @ [DQUOTE] @ quoted @ [DQUOTE] in
      if list_ex (\<lambda>r. 127 < r) (runes name)
      then header @ ''; filename*=UTF-8'' @ [CHR 0x27, CHR 0x27] @ encode_rfc5987 name
      else header)"

section \<open>Reading a disposition back\<close>

lemma hex_digits: "list_all (\<lambda>n. hex_val (hex_digit n) = Some n \<and> is_token_char (hex_digit n)) [0..<16]"
  by code_simp

lemma hex_digit_facts: "n < 16 \<Longrightarrow> hex_val (hex_digit n) = Some n" "n < 16 \<Longrightarrow> is_token_char (hex_digit n)"
  using hex_digits by (auto simp: list_all_iff)

lemma nibbles: "byte c div 16 < 16" "byte c mod 16 < 16" "chr (16 * (byte c div 16) + byte c mod 16) = c"
  using byte_less [of c] by (simp_all add: div_less_iff_less_mult)

lemma attr_not_percent: "attr_char c \<Longrightarrow> c \<noteq> CHR ''%''"
  by (auto simp: attr_char_def byte_def)

lemma percent_unescape_encode: "percent_unescape (encode_rfc5987 v) = Some v"
proof (induction v)
  case (Cons c v)
  show ?case
    using Cons nibbles [of c] attr_not_percent [of c] by (simp add: encode_rfc5987_def hex_digit_facts(1))
qed (simp add: encode_rfc5987_def)

lemma attr_token: "attr_char c \<Longrightarrow> is_token_char c"
  by (auto simp: attr_char_def is_token_char_def is_tspecial_def byte_def)

lemma encode_token: "list_all is_token_char (encode_rfc5987 v)"
proof (induction v)
  case (Cons c v)
  moreover have "is_token_char (CHR ''%'')" by (simp add: is_token_char_def is_tspecial_def byte_def)
  ultimately show ?case using nibbles [of c] attr_token [of c] by (simp add: encode_rfc5987_def hex_digit_facts(2))
qed (simp add: encode_rfc5987_def)

end
