(* ===== verification/Store_Open.thy ===== *)
theory Store_Open
  imports Store_Init Http_Text
begin

text \<open>
  \<open>Open\<close> of \<open>internal/store/store.go\<close>: the directory of the database is created, the database opened with the
  pragmas of its connections, and the store initialised.  Creating a directory and opening a database are
  parameters; the outcome of the second depends on the data source name.
\<close>

section \<open>Directory of a path\<close>

text \<open>\<open>filepath.Clean\<close> for slashes: the elements in reverse, without empty ones and dots.\<close>

fun clean_path_elements :: "bool \<Rightarrow> bytes list \<Rightarrow> bytes list \<Rightarrow> bytes list" where
  "clean_path_elements rooted out [] = rev out"
| "clean_path_elements rooted out (e # es) =
     (if e = [] \<or> e = ''.'' then clean_path_elements rooted out es
      else if e = ''..'' then
        (case out of
           [] \<Rightarrow> clean_path_elements rooted (if rooted then [] else [e]) es
         | up # below \<Rightarrow> if up = ''..'' then clean_path_elements rooted (e # out) es else clean_path_elements rooted below es)
      else clean_path_elements rooted (e # out) es)"

definition clean_path :: "bytes \<Rightarrow> bytes" where
  "clean_path p =
     (let rooted = has_prefix p ''/'';
          cleaned = (if rooted then ''/'' else []) @ join_slash (clean_path_elements rooted [] (split_byte slash p)) in
      if cleaned = [] then ''.'' else cleaned)"

text \<open>\<open>filepath.Dir\<close>: what precedes the last slash, with it, cleaned.\<close>

definition directory_of :: "bytes \<Rightarrow> bytes" where
  "directory_of p = clean_path (rev (dropWhile (\<lambda>c. c \<noteq> slash) (rev p)))"

section \<open>Opening\<close>

record 'e files =
  fl_make_all :: "bytes \<Rightarrow> 'e option"
  fl_open :: "bytes \<Rightarrow> 'e option"

datatype 'e open_err = Empty_Path | Directory_Failed 'e | Database_Failed 'e | Init_Failed store_err

definition needs_directory :: "bytes \<Rightarrow> bool" where
  "needs_directory path \<longleftrightarrow> path \<noteq> '':memory:'' \<and> \<not> has_prefix path ''file:''"

text \<open>
  The result with the directories asked for and the data source names opened; \<open>columns\<close> are those of the table of
  messages in the file, and \<open>d\<close> is what it holds.
\<close>

definition open_store ::
  "'e files \<Rightarrow> bytes list \<Rightarrow> faults \<Rightarrow> db \<Rightarrow> bytes \<Rightarrow> ('e open_err + bool) \<times> db \<times> bytes list \<times> bytes list" where
  "open_store os columns fs d path =
     (if path = [] then (Inl Empty_Path, d, [], [])
      else
        (let dirs = (if needs_directory path then [directory_of path] else []) in
         case (if needs_directory path then fl_make_all os (directory_of path) else None) of
           Some e \<Rightarrow> (Inl (Directory_Failed e), d, dirs, [])
         | None \<Rightarrow>
             (case fl_open os (dsn path) of
                Some e \<Rightarrow> (Inl (Database_Failed e), d, dirs, [dsn path])
              | None \<Rightarrow>
                  (case init_store columns fs d of
                     (Inl e, d') \<Rightarrow> (Inl (Init_Failed e), d', dirs, [dsn path])
                   | (Inr ended, d') \<Rightarrow> (Inr ended, d', dirs, [dsn path])))))"

section \<open>Properties\<close>

lemma directory_examples:
  "directory_of ''data/hoomail.db'' = ''data''"
  "directory_of ''hoomail.db'' = ''.''"
  "directory_of ''/hoomail.db'' = ''/''"
  "directory_of ''/var//lib/../db/./mail/hoomail.db'' = ''/var/db/mail''"
  "directory_of ''../x/hoomail.db'' = ''../x''"
  by code_simp+

lemma init_store_Inl: "init_store columns fs d = (Inl e, d') \<Longrightarrow> d' = d"
  by (auto simp: init_store_def Let_def bind_driver split: if_splits dest!: in_tx_fst_Inl)

text \<open>A database that cannot be opened is left as it was, and one directory is asked for at most.\<close>

lemma open_failure_changes_nothing:
  assumes "open_store os columns fs d path = (Inl e, d', dirs, names)"
  shows "d' = d" and "length dirs \<le> 1" and "dirs \<noteq> [] \<Longrightarrow> dirs = [directory_of path]"
  using assms
  by (auto simp: open_store_def Let_def split: if_splits option.splits sum.splits prod.splits dest: init_store_Inl)

text \<open>The data source name always carries the pragmas, after the parameters the path has.\<close>

lemma dsn_parameters:
  "\<exists>base. dsn path = base @ ''_pragma=foreign_keys(1)&_pragma=journal_mode(WAL)'' \<and> last base \<in> {CHR ''?'', CHR ''&''}"
  by (auto simp: dsn_def)

end
