(* ===== verification/Pop3_Wire.thy ===== *)
theory Pop3_Wire
  imports Go_Strings
begin

text \<open>
  \<open>internal/pop3server/pop3server.go\<close>, the wire format: response lines, byte-stuffed multi-line
  responses, and the part of a message \<open>TOP\<close> sends.  The client side of RFC 1939 (reading lines up
  to the final dot and removing the stuffing) is the reference the encoder is proved against.
\<close>

section \<open>The code\<close>

definition write_line :: "bytes \<Rightarrow> bytes" where
  "write_line line = line @ CRLF"

text \<open>The loop of \<open>writeMultiline\<close>, by whether it is at the start of a line.\<close>

fun write_multiline_loop :: "bool \<Rightarrow> bytes \<Rightarrow> bytes" where
  "write_multiline_loop line_start [] = (if line_start then [] else CRLF) @ ''.'' @ CRLF"
| "write_multiline_loop line_start (c # cs) =
     (if line_start \<and> c = CHR ''.'' then ''.'' else [])
     @ (if c = CR then
          CRLF @ (case cs of
                    [] \<Rightarrow> write_multiline_loop True []
                  | d # ds \<Rightarrow> if d = LF then write_multiline_loop True ds else write_multiline_loop True cs)
        else if c = LF then CRLF @ write_multiline_loop True cs
        else c # write_multiline_loop False cs)"

definition write_multiline :: "bytes \<Rightarrow> bytes" where
  "write_multiline data = write_multiline_loop True data"

text \<open>\<open>headerBoundary\<close>: where the header ends and the length of the separator.\<close>

definition header_boundary :: "bytes \<Rightarrow> (nat \<times> nat) option" where
  "header_boundary raw =
     (case index_of raw (CRLF @ CRLF) of
        Some c \<Rightarrow>
          (case index_of raw [LF, LF] of
             None \<Rightarrow> Some (c, 4)
           | Some l \<Rightarrow> if c < l then Some (c, 4) else Some (l, 2))
      | None \<Rightarrow> map_option (\<lambda>l. (l, 2)) (index_of raw [LF, LF]))"

text \<open>The inner loop of \<open>topBytes\<close>: one line with its terminator, and the rest.\<close>

fun cut_line :: "bytes \<Rightarrow> bytes \<times> bytes" where
  "cut_line [] = ([], [])"
| "cut_line (c # cs) =
     (if c = CR then (case cs of
                        [] \<Rightarrow> ([c], [])
                      | d # ds \<Rightarrow> if d = LF then ([c, d], ds) else ([c], cs))
      else if c = LF then ([c], cs)
      else (let (line, rest) = cut_line cs in (c # line, rest)))"

fun take_lines :: "nat \<Rightarrow> bytes \<Rightarrow> bytes" where
  "take_lines 0 body = []"
| "take_lines (Suc n) body =
     (if body = [] then [] else fst (cut_line body) @ take_lines n (snd (cut_line body)))"

definition top_bytes :: "bytes \<Rightarrow> nat \<Rightarrow> bytes" where
  "top_bytes raw body_lines =
     (case header_boundary raw of
        None \<Rightarrow> raw
      | Some (e, n) \<Rightarrow> take (e + n) raw @ take_lines body_lines (drop (e + n) raw))"

section \<open>The reference: lines\<close>

definition is_eol :: "char \<Rightarrow> bool" where
  "is_eol c \<longleftrightarrow> c = CR \<or> c = LF"

lemma cut_line_simps:
  "\<not> is_eol c \<Longrightarrow> cut_line (c # cs) = (c # fst (cut_line cs), snd (cut_line cs))"
  "cut_line (LF # cs) = ([LF], cs)"
  "cut_line (CR # LF # ds) = (CRLF, ds)"
  "cs = [] \<or> hd cs \<noteq> LF \<Longrightarrow> cut_line (CR # cs) = ([CR], cs)"
  by (auto simp: is_eol_def split_beta Let_def split: list.split)

declare cut_line.simps(2) [simp del]

lemma eol_cases:
  obtains "s = []" | c cs where "s = c # cs" "\<not> is_eol c" | cs where "s = LF # cs"
  | ds where "s = CR # LF # ds" | cs where "s = CR # cs" "cs = [] \<or> hd cs \<noteq> LF"
  by (cases s; cases "tl s") (auto simp: is_eol_def)

lemma cut_line_append: "fst (cut_line s) @ snd (cut_line s) = s"
proof (induction s)
  case (Cons c cs)
  then show ?case by (cases "c # cs" rule: eol_cases) (auto simp: cut_line_simps)
qed simp

lemma cut_line_nonempty: "s \<noteq> [] \<Longrightarrow> fst (cut_line s) \<noteq> []"
  by (cases s rule: eol_cases) (auto simp: cut_line_simps)

lemma cut_line_shorter: "s \<noteq> [] \<Longrightarrow> length (snd (cut_line s)) < length s"
  using cut_line_append [of s] cut_line_nonempty [of s]
  by (metis add_less_cancel_right add_0 length_append length_greater_0_conv)

text \<open>The lines of a text, without their terminators (carriage return line feed, or either alone).\<close>

definition line_text :: "bytes \<Rightarrow> bytes" where
  "line_text l = takeWhile (\<lambda>c. \<not> is_eol c) l"

function text_lines :: "bytes \<Rightarrow> bytes list" where
  "text_lines s = (if s = [] then [] else line_text (fst (cut_line s)) # text_lines (snd (cut_line s)))"
  by pat_completeness auto
termination
  by (relation "measure length") (auto simp: cut_line_shorter)

declare text_lines.simps [simp del]

lemma text_lines_Nil [simp]: "text_lines [] = []"
  by (simp add: text_lines.simps)

lemma text_lines_Cons: "s \<noteq> [] \<Longrightarrow> text_lines s = line_text (fst (cut_line s)) # text_lines (snd (cut_line s))"
  by (simp add: text_lines.simps)

lemma line_text_plain: "c \<in> set (line_text l) \<Longrightarrow> \<not> is_eol c"
  by (auto simp: line_text_def dest: set_takeWhileD)

text \<open>A client: one line up to its CRLF; then lines up to the one that is a single dot.\<close>

fun read_line :: "bytes \<Rightarrow> (bytes \<times> bytes) option" where
  "read_line [] = None"
| "read_line (c # cs) =
     (if c = CR \<and> cs \<noteq> [] \<and> hd cs = LF then Some ([], tl cs)
      else map_option (\<lambda>(l, r). (c # l, r)) (read_line cs))"

lemma read_line_shorter: "read_line s = Some (l, r) \<Longrightarrow> length r < length s"
  by (induction s arbitrary: l) (auto split: if_splits)

definition unstuff :: "bytes \<Rightarrow> bytes" where
  "unstuff l = (case l of [] \<Rightarrow> [] | c # cs \<Rightarrow> if c = CHR ''.'' then cs else l)"

function client_read :: "bytes \<Rightarrow> (bytes list \<times> bytes) option" where
  "client_read s =
     (case read_line s of
        None \<Rightarrow> None
      | Some (l, r) \<Rightarrow>
          if l = ''.'' then Some ([], r)
          else map_option (\<lambda>(ls, rest). (unstuff l # ls, rest)) (client_read r))"
  by pat_completeness auto
termination
  by (relation "measure length") (auto dest: read_line_shorter)

declare client_read.simps [simp del]

lemma read_line_plain: "\<forall>c\<in>set l. \<not> is_eol c \<Longrightarrow> read_line (l @ CRLF @ r) = Some (l, r)"
  by (induction l) (auto simp: is_eol_def)

text \<open>The encoder, line by line.\<close>

definition stuff :: "bytes \<Rightarrow> bytes" where
  "stuff l = (case l of [] \<Rightarrow> [] | c # cs \<Rightarrow> if c = CHR ''.'' then CHR ''.'' # l else l)"

lemma write_loop_cut:
  "s \<noteq> [] \<Longrightarrow> write_multiline_loop False s =
     line_text (fst (cut_line s)) @ CRLF @ write_multiline_loop True (snd (cut_line s))"
proof (induction s)
  case (Cons c cs)
  show ?case
  proof (cases "c # cs" rule: eol_cases)
    case (2 c' cs')
    with Cons.IH show ?thesis
      by (cases "cs = []") (auto simp: cut_line_simps line_text_def is_eol_def)
  next
    case (5 cs')
    then show ?thesis by (cases cs) (auto simp: cut_line_simps line_text_def is_eol_def)
  qed (auto simp: cut_line_simps line_text_def is_eol_def)
qed simp

lemma write_loop_line:
  assumes "s \<noteq> []"
  shows "write_multiline_loop True s =
     stuff (line_text (fst (cut_line s))) @ CRLF @ write_multiline_loop True (snd (cut_line s))"
proof (cases s)
  case (Cons c cs)
  have "write_multiline_loop True s = (if c = CHR ''.'' then ''.'' else []) @ write_multiline_loop False s"
    by (auto simp: Cons)
  moreover have "stuff (line_text (fst (cut_line s))) =
      (if c = CHR ''.'' then ''.'' else []) @ line_text (fst (cut_line s))"
    by (cases s rule: eol_cases) (auto simp: Cons cut_line_simps stuff_def line_text_def is_eol_def)
  ultimately show ?thesis using write_loop_cut [OF assms] by simp
qed (use assms in simp)

lemma write_multiline_lines:
  "write_multiline_loop True s = concat (map (\<lambda>l. stuff l @ CRLF) (text_lines s)) @ ''.'' @ CRLF"
proof (induction s rule: text_lines.induct)
  case (1 s)
  show ?case
  proof (cases "s = []")
    case False
    with 1 [OF False] show ?thesis by (simp only: write_loop_line [OF False] text_lines_Cons [OF False]) simp
  qed simp
qed

lemma stuff_plain: "\<forall>c\<in>set l. \<not> is_eol c \<Longrightarrow> \<forall>c\<in>set (stuff l). \<not> is_eol c"
  by (auto simp: stuff_def is_eol_def split: list.splits if_splits)

lemma stuff_not_dot: "stuff l \<noteq> ''.''"
  by (auto simp: stuff_def split: list.splits if_splits)

lemma unstuff_stuff [simp]: "unstuff (stuff l) = l"
  by (auto simp: stuff_def unstuff_def split: list.splits if_splits)

lemma client_read_lines:
  "\<forall>l\<in>set ls. \<forall>c\<in>set l. \<not> is_eol c \<Longrightarrow>
   client_read (concat (map (\<lambda>l. stuff l @ CRLF) ls) @ ''.'' @ CRLF @ rest) = Some (ls, rest)"
proof (induction ls)
  case Nil
  have "read_line (''.'' @ CRLF @ rest) = Some (''.'', rest)" by (rule read_line_plain) (simp add: is_eol_def)
  then show ?case by (subst client_read.simps) simp
next
  case (Cons l ls)
  have "read_line (stuff l @ CRLF @ r) = Some (stuff l, r)" for r
    by (rule read_line_plain) (use Cons.prems stuff_plain [of l] in simp)
  with Cons show ?case
    by (subst client_read.simps) (simp add: stuff_not_dot)
qed

lemma text_lines_plain: "l \<in> set (text_lines s) \<Longrightarrow> c \<in> set l \<Longrightarrow> \<not> is_eol c"
proof (induction s rule: text_lines.induct)
  case (1 s)
  then show ?case
    by (cases "s = []") (auto simp: text_lines_Cons dest: line_text_plain)
qed

lemma client_reads: "client_read (write_multiline data @ rest) = Some (text_lines data, rest)"
  using client_read_lines [of "text_lines data" rest] text_lines_plain [of _ data]
  by (simp add: write_multiline_def write_multiline_lines)

section \<open>Properties\<close>

text \<open>
  C8. A client that follows RFC 1939 reads back from a multi-line response exactly the lines of
  the data, whatever bytes they contain (leading dots, a line that is a single dot, bare carriage
  returns or line feeds, no final line end), and is left at the first byte after the response.
\<close>

theorem multiline_roundtrip: "client_read (write_multiline data @ rest) = Some (text_lines data, rest)"
  by (rule client_reads)

lemma take_lines_prefix: "\<exists>t. s = take_lines n s @ t"
proof (induction n arbitrary: s)
  case (Suc n)
  then obtain t where "snd (cut_line s) = take_lines n (snd (cut_line s)) @ t" by blast
  then have "s = fst (cut_line s) @ take_lines n (snd (cut_line s)) @ t" using cut_line_append [of s] by metis
  then show ?case by (cases "s = []") auto
qed simp

text \<open>Cutting a text after whole lines leaves those lines as they are.\<close>

lemma cut_line_prefix:
  "s \<noteq> [] \<Longrightarrow> snd (cut_line s) = t @ t' \<Longrightarrow> cut_line (fst (cut_line s) @ t) = (fst (cut_line s), t)"
proof (induction s)
  case (Cons c cs)
  show ?case
  proof (cases "c # cs" rule: eol_cases)
    case (2 c' cs')
    show ?thesis
    proof (cases "cs = []")
      case True
      with 2 Cons.prems show ?thesis by (simp add: cut_line_simps)
    next
      case False
      with 2 Cons show ?thesis by (simp add: cut_line_simps)
    qed
  next
    case (5 cs')
    then have "t = [] \<or> hd t \<noteq> LF" using Cons.prems by (auto simp: cut_line_simps)
    with 5 show ?thesis by (simp add: cut_line_simps)
  qed (use Cons.prems in \<open>auto simp: cut_line_simps\<close>)
qed simp

lemma take_lines_text: "text_lines (take_lines n s) = take n (text_lines s)"
proof (induction n arbitrary: s)
  case (Suc n)
  show ?case
  proof (cases "s = []")
    case False
    obtain t where t: "snd (cut_line s) = take_lines n (snd (cut_line s)) @ t" using take_lines_prefix by blast
    have "cut_line (fst (cut_line s) @ take_lines n (snd (cut_line s))) =
        (fst (cut_line s), take_lines n (snd (cut_line s)))"
      by (rule cut_line_prefix [OF False t])
    with False Suc.IH cut_line_nonempty [OF False] show ?thesis by (simp add: text_lines_Cons)
  qed simp
qed simp

lemma contains_take:
  assumes "contains (take m raw) p"
  obtains i where "index_of raw p = Some i" "i + length p \<le> m"
proof -
  from assms obtain a b where ab: "take m raw = a @ p @ b" by (auto simp: contains_iff)
  then have raw: "raw = a @ p @ b @ drop m raw" by (metis append.assoc append_take_drop_id)
  have "take (length p) (drop (length a) raw) = p" "length a + length p \<le> length raw"
    by (subst raw, simp)+
  from index_of_Some_le [OF this] obtain i where "i \<le> length a" "index_of raw p = Some i" by blast
  moreover have "length a + length p \<le> m" using arg_cong [OF ab, of length] by simp
  ultimately show thesis using that by simp
qed

lemma header_boundary_Some:
  assumes "header_boundary raw = Some (e, k)"
  shows "take k (drop e raw) \<in> {CRLF @ CRLF, [LF, LF]}"
    "\<not> contains (take (e + 1) raw) [LF, LF]" "\<not> contains (take (e + 3) raw) (CRLF @ CRLF)"
proof -
  show "take k (drop e raw) \<in> {CRLF @ CRLF, [LF, LF]}"
    using assms index_of_SomeD [of raw "CRLF @ CRLF"] index_of_SomeD [of raw "[LF, LF]"]
    by (auto simp: header_boundary_def numeral_eq_Suc split: option.splits if_splits)
  show "\<not> contains (take (e + 1) raw) [LF, LF]"
    using assms by (auto simp: header_boundary_def elim!: contains_take split: option.splits if_splits)
  show "\<not> contains (take (e + 3) raw) (CRLF @ CRLF)"
    using assms by (auto simp: header_boundary_def elim!: contains_take split: option.splits if_splits)
qed

text \<open>
  \<open>TOP\<close> sends the header with its blank line and then the first \<open>n\<close> lines of the body,
  as a prefix of the stored message; with no blank line in the message it sends the message.
\<close>

theorem top_bytes_lines:
  "case header_boundary raw of
     None \<Rightarrow> top_bytes raw n = raw \<and> \<not> contains raw (CRLF @ CRLF) \<and> \<not> contains raw [LF, LF]
   | Some (e, k) \<Rightarrow>
       take k (drop e raw) \<in> {CRLF @ CRLF, [LF, LF]}
       \<and> \<not> contains (take (e + 1) raw) [LF, LF] \<and> \<not> contains (take (e + 3) raw) (CRLF @ CRLF)
       \<and> (\<exists>body. top_bytes raw n = take (e + k) raw @ body
            \<and> text_lines body = take n (text_lines (drop (e + k) raw))
            \<and> (\<exists>rest. raw = top_bytes raw n @ rest))"
proof (cases "header_boundary raw")
  case None
  then show ?thesis
    by (auto simp: top_bytes_def header_boundary_def contains_def split: option.splits if_splits)
next
  case (Some p)
  then obtain e k where p: "header_boundary raw = Some (e, k)" by (cases p) auto
  let ?body = "take_lines n (drop (e + k) raw)"
  obtain t where "drop (e + k) raw = ?body @ t" using take_lines_prefix by blast
  then have "raw = (take (e + k) raw @ ?body) @ t" by (metis append.assoc append_take_drop_id)
  moreover have "top_bytes raw n = take (e + k) raw @ ?body" by (simp add: top_bytes_def p)
  ultimately have "\<exists>body. top_bytes raw n = take (e + k) raw @ body
      \<and> text_lines body = take n (text_lines (drop (e + k) raw)) \<and> (\<exists>rest. raw = top_bytes raw n @ rest)"
    using take_lines_text by metis
  with header_boundary_Some [OF p] show ?thesis by (simp add: p)
qed

end
