(* ===== verification/Pop3_Session.thy ===== *)
theory Pop3_Session
  imports Pop3_Wire Store Go_Text
begin

text \<open>
  \<open>internal/pop3server/pop3server.go\<close>: the POP3 session (\<open>session.execute\<close> and what it calls),
  reading commands, and the loop of \<open>serveConn\<close> over one connection.

  The Go interface \<open>Store\<close> the session is written against is the record \<open>pop3_store\<close>; its
  functions take a value that decides what the store cannot (the clock, failing calls).  The
  contract of that interface is the locale \<open>pop3_backend\<close>: the session's safety is proved once
  inside it, for any number of sessions and other clients running in between.
\<close>

section \<open>Commands\<close>

definition max_command_bytes :: nat where
  "max_command_bytes = 4096"

text \<open>How the input ends when no more bytes come.\<close>

datatype read_err = Eof | Timeout | Malformed

definition read_command :: "read_err \<Rightarrow> bytes \<Rightarrow> read_err + (bytes \<times> bytes)" where
  "read_command ending input =
     (case index_byte (\<lambda>c. c = LF) (take max_command_bytes input) of
        None \<Rightarrow> if max_command_bytes \<le> length input then Inl Malformed else Inl ending
      | Some i \<Rightarrow>
          (let line = take (Suc i) input in
           if max_command_bytes < length line then Inl Malformed
           else
             (let command = trim_suffix (trim_suffix line [LF]) [CR] in
              if CR \<in> set command then Inl Malformed
              else if NUL \<in> set command then Inl Malformed
              else Inr (command, drop (Suc i) input))))"

definition parse_command :: "unicode \<Rightarrow> bytes \<Rightarrow> bytes \<times> bytes \<times> bool" where
  "parse_command u line =
     (let line = trim_space line in
      if line = [] then ([], [], False)
      else case index_byte (\<lambda>c. c \<in> {CHR '' '', TAB}) line of
        None \<Rightarrow> (to_upper u line, [], False)
      | Some i \<Rightarrow>
          (let argument = trim_space (drop i line)
           in (to_upper u (take i line), argument, argument \<noteq> [])))"

section \<open>The session\<close>

datatype pop3_state = Authorization | Transaction

record session =
  ses_state :: pop3_state
  ses_user :: bytes
  ses_messages :: "pop3_message list"
  ses_generation :: uint64
  ses_deleted :: "int set"

definition new_session :: session where
  "new_session = \<lparr>ses_state = Authorization, ses_user = [], ses_messages = [], ses_generation = 0, ses_deleted = {}\<rparr>"

record ('f, 's) pop3_store =
  ps_open :: "'f \<Rightarrow> bytes \<Rightarrow> 's \<Rightarrow> (store_err + pop3_snapshot) \<times> 's"
  ps_delete :: "'f \<Rightarrow> uint64 \<Rightarrow> int list \<Rightarrow> 's \<Rightarrow> (store_err + int list) \<times> 's"

definition available :: "session \<Rightarrow> int \<Rightarrow> bool" where
  "available ses number \<longleftrightarrow> 1 \<le> number \<and> number \<le> int (length (ses_messages ses)) \<and> number \<notin> ses_deleted ses"

definition message_number :: "session \<Rightarrow> bytes \<Rightarrow> bool \<Rightarrow> int option" where
  "message_number ses argument has_argument =
     (if \<not> has_argument \<or> contains_any [CHR '' '', TAB] argument then None
      else case atoi argument of
        None \<Rightarrow> None
      | Some number \<Rightarrow> if available ses number then Some number else None)"

definition message_at :: "session \<Rightarrow> int \<Rightarrow> pop3_message" where
  "message_at ses number = ses_messages ses ! nat (number - 1)"

text \<open>The messages with their numbers, and those not marked as deleted.\<close>

definition numbered :: "session \<Rightarrow> (int \<times> pop3_message) list" where
  "numbered ses = zip (map int [1..<Suc (length (ses_messages ses))]) (ses_messages ses)"

definition kept :: "session \<Rightarrow> (int \<times> pop3_message) list" where
  "kept ses = filter (\<lambda>p. fst p \<notin> ses_deleted ses) (numbered ses)"

definition maildrop_stats :: "session \<Rightarrow> int \<times> int" where
  "maildrop_stats ses =
     foldl (\<lambda>(count, octets) p. (count + 1, octets + int (length (p3_raw (snd p))))) (0, 0) (kept ses)"

definition deleted_ids :: "session \<Rightarrow> int list" where
  "deleted_ids ses = map (\<lambda>p. p3_id (snd p)) (filter (\<lambda>p. fst p \<in> ses_deleted ses) (numbered ses))"

definition octets_text :: "int \<times> int \<Rightarrow> bytes" where
  "octets_text stats = itoa (fst stats) @ '' messages ('' @ itoa (snd stats) @ '' octets)''"

definition bad_syntax :: bytes where
  "bad_syntax = write_line ''-ERR malformed command''"

definition wrong_state :: bytes where
  "wrong_state = write_line ''-ERR command not valid in this state''"

definition no_message :: bytes where
  "no_message = write_line ''-ERR no such message''"

definition listing :: "session \<Rightarrow> (pop3_message \<Rightarrow> int) \<Rightarrow> bytes" where
  "listing ses f = concat (map (\<lambda>p. itoa (fst p) @ '' '' @ itoa (f (snd p)) @ CRLF) (kept ses))"

definition list_command :: "session \<Rightarrow> bytes \<Rightarrow> bool \<Rightarrow> bytes" where
  "list_command ses argument has_argument =
     (if has_argument then
        (case message_number ses argument True of
           None \<Rightarrow> no_message
         | Some n \<Rightarrow> write_line (''+OK '' @ itoa n @ '' '' @ itoa (int (length (p3_raw (message_at ses n))))))
      else write_line (''+OK '' @ octets_text (maildrop_stats ses))
           @ write_multiline (listing ses (\<lambda>m. int (length (p3_raw m)))))"

definition uidl_command :: "session \<Rightarrow> bytes \<Rightarrow> bool \<Rightarrow> bytes" where
  "uidl_command ses argument has_argument =
     (if has_argument then
        (case message_number ses argument True of
           None \<Rightarrow> no_message
         | Some n \<Rightarrow> write_line (''+OK '' @ itoa n @ '' '' @ itoa (p3_id (message_at ses n))))
      else write_line ''+OK unique-id listing follows'' @ write_multiline (listing ses p3_id))"

definition top_command :: "session \<Rightarrow> bytes \<Rightarrow> bool \<Rightarrow> bytes" where
  "top_command ses argument has_argument =
     (case (has_argument, string_fields argument) of
        (True, [a, b]) \<Rightarrow>
          (case (atoi a, atoi b) of
             (Some number, Some line_count) \<Rightarrow>
               if line_count < 0 \<or> \<not> available ses number
               then write_line ''-ERR no such message or invalid line count''
               else write_line ''+OK top of message follows''
                    @ write_multiline (top_bytes (p3_raw (message_at ses number)) (nat line_count))
           | _ \<Rightarrow> write_line ''-ERR no such message or invalid line count'')
      | _ \<Rightarrow> bad_syntax)"

definition execute_transaction :: "session \<Rightarrow> bytes \<Rightarrow> bytes \<Rightarrow> bool \<Rightarrow> bytes \<times> session" where
  "execute_transaction ses command argument has_argument =
     (if command = ''STAT'' then
        (if has_argument then bad_syntax
         else write_line (''+OK '' @ itoa (fst (maildrop_stats ses)) @ '' '' @ itoa (snd (maildrop_stats ses))), ses)
      else if command = ''LIST'' then (list_command ses argument has_argument, ses)
      else if command = ''UIDL'' then (uidl_command ses argument has_argument, ses)
      else if command = ''RETR'' then
        (case message_number ses argument has_argument of
           None \<Rightarrow> no_message
         | Some n \<Rightarrow> write_line (''+OK '' @ itoa (int (length (p3_raw (message_at ses n)))) @ '' octets'')
                     @ write_multiline (p3_raw (message_at ses n)), ses)
      else if command = ''TOP'' then (top_command ses argument has_argument, ses)
      else if command = ''DELE'' then
        (case message_number ses argument has_argument of
           None \<Rightarrow> (no_message, ses)
         | Some n \<Rightarrow> (write_line ''+OK message deleted'', ses\<lparr>ses_deleted := insert n (ses_deleted ses)\<rparr>))
      else if command = ''RSET'' then
        (if has_argument then (bad_syntax, ses)
         else (let ses' = ses\<lparr>ses_deleted := {}\<rparr>
               in (write_line (''+OK '' @ octets_text (maildrop_stats ses')), ses')))
      else if command = ''NOOP'' then (if has_argument then bad_syntax else write_line ''+OK'', ses)
      else (write_line ''-ERR unknown command'', ses))"

text \<open>\<open>session.execute\<close>: the output, whether the connection is closed, the session and the store.\<close>

definition execute ::
  "('f, 's) pop3_store \<Rightarrow> 'f \<Rightarrow> unicode \<Rightarrow> bytes \<Rightarrow> session \<Rightarrow> 's \<Rightarrow> bytes \<times> bool \<times> session \<times> 's" where
  "execute S f u line ses st =
     (let (command, argument, has_argument) = parse_command u line in
      if command = [] then (write_line ''-ERR malformed command'', False, ses, st)
      else if command = ''CAPA'' then
        (if has_argument then bad_syntax
         else write_line ''+OK Capability list follows''
              @ write_multiline (''USER'' @ CRLF @ ''UIDL'' @ CRLF @ ''TOP'' @ CRLF), False, ses, st)
      else if command = ''QUIT'' then
        (if has_argument then (bad_syntax, False, ses, st)
         else if ses_state ses = Transaction \<and> deleted_ids ses \<noteq> [] then
           (case ps_delete S f (ses_generation ses) (deleted_ids ses) st of
              (Inl e, st') \<Rightarrow> (write_line ''-ERR unable to delete messages'', True, ses, st')
            | (Inr affected, st') \<Rightarrow> (write_line ''+OK goodbye'', True, ses, st'))
         else (write_line ''+OK goodbye'', True, ses, st))
      else if command = ''USER'' then
        (if ses_state ses \<noteq> Authorization then (wrong_state, False, ses, st)
         else if \<not> has_argument \<or> trim_space argument = [] \<or> contains_any [CHR '' '', TAB] argument
         then (bad_syntax, False, ses, st)
         else (write_line ''+OK user accepted'', False, ses\<lparr>ses_user := argument\<rparr>, st))
      else if command = ''PASS'' then
        (if ses_state ses \<noteq> Authorization then (wrong_state, False, ses, st)
         else if ses_user ses = [] \<or> \<not> has_argument then (bad_syntax, False, ses, st)
         else case ps_open S f (ses_user ses) st of
             (Inl e, st') \<Rightarrow> (write_line ''-ERR unable to open mailbox'', False, ses, st')
           | (Inr snap, st') \<Rightarrow>
               (write_line (''+OK mailbox locked and ready, '' @ itoa (int (length (snap_messages snap))) @ '' messages''),
                False,
                ses\<lparr>ses_messages := snap_messages snap, ses_generation := snap_generation snap,
                  ses_deleted := {}, ses_state := Transaction\<rparr>, st'))
      else if ses_state ses \<noteq> Transaction then (wrong_state, False, ses, st)
      else (let (out, ses') = execute_transaction ses command argument has_argument
            in (out, False, ses', st)))"


text \<open>
  The loop of \<open>serveConn\<close> over the bytes a client sends; \<open>flush_fails k\<close> says whether flushing the
  k-th response fails.
\<close>

function serve_loop ::
  "('f, 's) pop3_store \<Rightarrow> unicode \<Rightarrow> read_err \<Rightarrow> (nat \<Rightarrow> 'f) \<Rightarrow> (nat \<Rightarrow> bool) \<Rightarrow> nat \<Rightarrow> session \<Rightarrow> 's \<Rightarrow> bytes
     \<Rightarrow> bytes \<times> session \<times> 's" where
  "serve_loop S u ending f flush_fails k ses st input =
     (case read_command ending input of
        Inl e \<Rightarrow> (if e = Malformed then write_line ''-ERR malformed command'' else [], ses, st)
      | Inr (line, rest) \<Rightarrow>
          (case execute S (f k) u line ses st of
             (out, close, ses', st') \<Rightarrow>
               if flush_fails k \<or> close then (out, ses', st')
               else (case serve_loop S u ending f flush_fails (Suc k) ses' st' rest of
                       (outs, ses'', st'') \<Rightarrow> (out @ outs, ses'', st''))))"
  by pat_completeness auto

lemma trim_suffix_snoc: "trim_suffix (s @ [c]) [c] = s"
  by (simp add: trim_suffix_def has_suffix_def)

lemma read_command_Inr:
  assumes "read_command ending input = Inr (command, rest)"
  shows "length rest < length input" and "length command < max_command_bytes"
    and "CR \<notin> set command" and "NUL \<notin> set command" and "LF \<notin> set command"
    and "input = command @ LF # rest \<or> input = command @ CRLF @ rest"
proof -
  from assms obtain i where i: "index_byte (\<lambda>c. c = LF) (take max_command_bytes input) = Some i"
      and rest: "rest = drop (Suc i) input"
      and cmd: "command = trim_suffix (trim_suffix (take (Suc i) input) [LF]) [CR]"
      and no: "CR \<notin> set command" "NUL \<notin> set command"
    by (auto simp: read_command_def Let_def split: option.splits if_splits)
  note found = index_byte_SomeD [OF i]
  have lt: "i < length input" "i < max_command_bytes" using found by simp_all
  have at: "input ! i = LF" using found lt by simp
  have "take i (take max_command_bytes input) = take i input" using lt by (simp add: min_def)
  then have before: "LF \<notin> set (take i input)" using found by metis
  have line: "take (Suc i) input = take i input @ [LF]" using lt at by (simp add: take_Suc_conv_app_nth)
  have cmd': "command = trim_suffix (take i input) [CR]"
    unfolding cmd line trim_suffix_snoc ..
  have split: "take i input = command \<or> take i input = command @ [CR]"
  proof (cases "has_suffix (take i input) [CR]")
    case True
    then have "drop (length (take i input) - 1) (take i input) = [CR]" by (simp add: has_suffix_def)
    then have "take i input = take (length (take i input) - 1) (take i input) @ [CR]"
      using append_take_drop_id [of "length (take i input) - 1" "take i input"] by simp
    with True show ?thesis by (simp add: cmd' trim_suffix_def)
  qed (simp add: cmd' trim_suffix_def)
  have input: "input = take i input @ LF # rest" using lt at rest by (metis id_take_nth_drop)
  show "length rest < length input" using rest lt by simp
  have "length command \<le> length (take i input)" using split by (metis le_add1 length_append order_refl)
  then show "length command < max_command_bytes" using lt by simp
  show "CR \<notin> set command" "NUL \<notin> set command" by (fact no)+
  show "LF \<notin> set command" using split before by (metis UnI1 set_append)
  show "input = command @ LF # rest \<or> input = command @ CRLF @ rest"
    using split input by auto
qed

termination serve_loop
  by (relation "measure (\<lambda>(_, _, _, _, _, _, _, _, input). length input)") (auto dest: read_command_Inr(1))

declare serve_loop.simps [simp del]

definition serve_conn ::
  "('f, 's) pop3_store option \<Rightarrow> unicode \<Rightarrow> read_err \<Rightarrow> (nat \<Rightarrow> 'f) \<Rightarrow> (nat \<Rightarrow> bool) \<Rightarrow> 's \<Rightarrow> bytes \<Rightarrow> bytes \<times> 's" where
  "serve_conn store u ending f flush_fails st input =
     (case store of
        None \<Rightarrow> (write_line ''-ERR server unavailable'', st)
      | Some S \<Rightarrow>
          if flush_fails 0 then (write_line ''+OK Hoomail POP3 ready'', st)
          else (case serve_loop S u ending f flush_fails 1 new_session st input of
                  (out, ses, st') \<Rightarrow> (write_line ''+OK Hoomail POP3 ready'' @ out, st')))"

section \<open>What a command does\<close>

lemma numbered_nth: "numbered ses = map (\<lambda>i. (int (Suc i), ses_messages ses ! i)) [0..<length (ses_messages ses)]"
  by (rule nth_equalityI) (auto simp: numbered_def simp del: upt_Suc)

lemma in_numbered_iff:
  "(n, m) \<in> set (numbered ses) \<longleftrightarrow> 1 \<le> n \<and> n \<le> int (length (ses_messages ses)) \<and> m = message_at ses n"
  by (auto simp: numbered_nth message_at_def image_iff intro!: bexI [of _ "nat (n - 1)"])

lemma set_deleted_ids:
  "set (deleted_ids ses) = {p3_id (message_at ses n) | n. n \<in> ses_deleted ses \<and> 1 \<le> n \<and> n \<le> int (length (ses_messages ses))}"
  by (auto simp: deleted_ids_def in_numbered_iff image_iff Bex_def)

lemma message_number_Some:
  "message_number ses a b = Some n \<Longrightarrow> available ses n \<and> b \<and> atoi a = Some n"
  by (auto simp: message_number_def split: if_splits option.splits)

text \<open>Every command but \<open>QUIT\<close> and \<open>PASS\<close> leaves the store alone, and only \<open>PASS\<close> changes the maildrop.\<close>

definition session_ok :: "session \<Rightarrow> bool" where
  "session_ok ses \<longleftrightarrow> ses_deleted ses \<subseteq> {1..int (length (ses_messages ses))}
     \<and> (ses_state ses = Authorization \<longrightarrow> ses_messages ses = [])"

lemma new_session_ok [simp]: "session_ok new_session"
  by (simp add: session_ok_def new_session_def)

lemma execute_transaction_session:
  assumes "execute_transaction ses command argument has_argument = (out, ses')"
  shows "ses' = ses\<lparr>ses_deleted := ses_deleted ses'\<rparr>"
    and "session_ok ses \<Longrightarrow> ses_deleted ses' \<subseteq> {1..int (length (ses_messages ses))}"
  using assms
  by (auto simp: execute_transaction_def session_ok_def available_def Let_def
      dest!: message_number_Some split: if_splits option.splits)

lemma execute_cases:
  assumes "execute S f u line ses st = (out, close, ses', st')" and "session_ok ses"
  obtains
    (quiet) "st' = st" "ses_messages ses' = ses_messages ses" "ses_generation ses' = ses_generation ses"
      "ses_state ses' = ses_state ses" "session_ok ses'"
  | (failed_open) e where "ps_open S f (ses_user ses) st = (Inl e, st')" "ses' = ses" "ses_state ses = Authorization"
  | (opened) snap where "ps_open S f (ses_user ses) st = (Inr snap, st')" "ses_state ses = Authorization"
      "ses_messages ses' = snap_messages snap" "ses_generation ses' = snap_generation snap"
      "ses_deleted ses' = {}" "ses_state ses' = Transaction"
  | (quit) r where "ps_delete S f (ses_generation ses) (deleted_ids ses) st = (r, st')"
      "ses_state ses = Transaction" "ses' = ses" "close" "fst (parse_command u line) = ''QUIT''"
proof -
  obtain command argument has where cmd: "parse_command u line = (command, argument, has)" by (metis prod_cases3)
  consider "command = ''QUIT''" | "command = ''PASS''" | "command \<noteq> ''QUIT''" "command \<noteq> ''PASS''" by blast
  then show thesis
  proof cases
    case 1
    with assms cmd show thesis
      by (auto simp: execute_def Let_def intro: quiet quit split: if_splits prod.splits sum.splits)
  next
    case 2
    with assms cmd show thesis
      by (auto simp: execute_def Let_def intro: quiet failed_open opened split: if_splits prod.splits sum.splits)
  next
    case 3
    show thesis
    proof (cases "ses_state ses = Transaction \<and> command \<notin> {[], ''CAPA'', ''USER''}")
      case True
      with assms 3 cmd have "execute_transaction ses command argument has = (out, ses')" "st' = st"
        by (auto simp: execute_def Let_def split: prod.splits)
      moreover from execute_transaction_session(1) [OF this(1)] obtain D where "ses' = ses\<lparr>ses_deleted := D\<rparr>" by blast
      ultimately show thesis
        using execute_transaction_session(2) [of ses command argument has out ses'] True assms(2)
        by (intro quiet) (auto simp: session_ok_def)
    next
      case False
      with assms 3 cmd show thesis
        by (intro quiet) (auto simp: execute_def Let_def session_ok_def split: if_splits)
    qed
  qed
qed


section \<open>The contract of the store interface\<close>

text \<open>
  What a session relies on: \<open>stored\<close> are all messages of the backend (id and bytes), \<open>good\<close> its
  invariant, \<open>others\<close> the steps other clients can make, and \<open>holds snap s\<close> says that a snapshot taken
  earlier still identifies messages in \<open>s\<close>.  Opening a maildrop gives such a snapshot; neither the
  requests of others nor a session's own make it wrong; and a deletion removes nothing but what
  was asked for and what the snapshot, if it holds, identifies.
\<close>

locale pop3_backend =
  fixes S :: "('f, 's) pop3_store"
    and good :: "'s \<Rightarrow> bool"
    and stored :: "'s \<Rightarrow> pop3_message set"
    and holds :: "pop3_message list \<Rightarrow> uint64 \<Rightarrow> 's \<Rightarrow> bool"
    and others :: "'s \<Rightarrow> 's \<Rightarrow> bool"
  assumes open_good: "good s \<Longrightarrow> ps_open S f a s = (r, s') \<Longrightarrow> good s' \<and> stored s \<subseteq> stored s'"
    and open_holds: "good s \<Longrightarrow> ps_open S f a s = (Inr snap, s') \<Longrightarrow>
          holds (snap_messages snap) (snap_generation snap) s'"
    and delete_good: "good s \<Longrightarrow> ps_delete S f g ids s = (res, s') \<Longrightarrow> good s'"
    and delete_holds: "good s \<Longrightarrow> ps_delete S f g ids s = (res, s') \<Longrightarrow> holds ms g' s \<Longrightarrow> holds ms g' s'"
    and delete_only: "good s \<Longrightarrow> ps_delete S f g ids s = (res, s') \<Longrightarrow> holds ms g s \<Longrightarrow>
          p \<in> stored s \<Longrightarrow> p \<notin> stored s' \<Longrightarrow> set ids \<subseteq> p3_id ` set ms \<Longrightarrow>
          p \<in> set ms \<and> p3_id p \<in> set ids"
    and others_good: "good s \<Longrightarrow> others s s' \<Longrightarrow> good s'"
    and others_holds: "good s \<Longrightarrow> others s s' \<Longrightarrow> holds ms g s \<Longrightarrow> holds ms g s'"
begin

definition tracked :: "session \<Rightarrow> 's \<Rightarrow> bool" where
  "tracked ses s \<longleftrightarrow> good s \<and> session_ok ses
     \<and> (ses_state ses = Transaction \<longrightarrow> holds (ses_messages ses) (ses_generation ses) s)"

lemma tracked_new: "good s \<Longrightarrow> tracked new_session s"
  by (simp add: tracked_def) (simp add: new_session_def)

lemma tracked_others: "tracked ses s \<Longrightarrow> others s s' \<Longrightarrow> tracked ses s'"
  by (auto simp: tracked_def intro: others_good others_holds)

lemma tracked_execute:
  assumes "tracked ses s" and run: "execute S f u line ses s = (out, close, ses', s')"
  shows "tracked ses' s'"
proof -
  have ok: "session_ok ses" and g: "good s" using assms(1) by (simp_all add: tracked_def)
  from run ok show ?thesis
  proof (cases rule: execute_cases)
    case quiet
    then show ?thesis using assms(1) by (simp add: tracked_def)
  next
    case (failed_open e)
    then show ?thesis using ok open_good [OF g] by (auto simp: tracked_def)
  next
    case (opened snap)
    then show ?thesis using open_good [OF g] open_holds [OF g] by (auto simp: tracked_def session_ok_def)
  next
    case (quit r)
    then show ?thesis using assms(1) ok delete_good [OF g] delete_holds [OF g] by (auto simp: tracked_def)
  qed
qed

lemma execute_removes:
  assumes "tracked ses s" and run: "execute S f u line ses s = (out, close, ses', s')"
    and "p \<in> stored s" and "p \<notin> stored s'"
  shows "ses_state ses = Transaction \<and> close \<and> fst (parse_command u line) = ''QUIT''
    \<and> p \<in> set (ses_messages ses)
    \<and> (\<exists>n\<in>ses_deleted ses. p3_id (message_at ses n) = p3_id p)"
proof -
  have ok: "session_ok ses" and g: "good s" using assms(1) by (simp_all add: tracked_def)
  from run ok show ?thesis
  proof (cases rule: execute_cases)
    case quiet
    then show ?thesis using assms(3,4) by simp
  next
    case (failed_open e)
    then show ?thesis using open_good [OF g] assms(3,4) by blast
  next
    case (opened snap)
    then show ?thesis using open_good [OF g] assms(3,4) by blast
  next
    case (quit r)
    have h: "holds (ses_messages ses) (ses_generation ses) s"
      using assms(1) quit(2) by (simp add: tracked_def)
    have sub: "set (deleted_ids ses) \<subseteq> p3_id ` set (ses_messages ses)"
      by (auto simp: set_deleted_ids message_at_def)
    from delete_only [OF g quit(1) h assms(3,4) sub]
    have "p \<in> set (ses_messages ses)" "p3_id p \<in> set (deleted_ids ses)" by auto
    then show ?thesis using quit by (auto simp: set_deleted_ids)
  qed
qed

end

end
