(* ===== verification/Pop3_Backend.thy ===== *)
theory Pop3_Backend
  imports Pop3_Session Store_Props
begin

text \<open>
  The mail store as the backend of the POP3 server: the contract \<open>pop3_backend\<close> is discharged on the
  model of the store, with the requests of all its other clients as the steps in between.
  The state carries, beside the store, the number of wipes so far; the 64-bit generation
  identifies a snapshot as long as that number stays below \<open>2 ^ 64\<close>.
\<close>

type_synonym store_env = "engine \<times> int \<times> faults"

definition store_pop3 :: "unicode \<Rightarrow> (store_env, store \<times> nat) pop3_store" where
  "store_pop3 u =
     \<lparr>ps_open = \<lambda>(E, now, fs) a (st, n).
        (case open_pop3_mailbox u now a fs st of (r, st', evs) \<Rightarrow> (r, (st', n))),
      ps_delete = \<lambda>(E, now, fs) g ids (st, n).
        (case delete_pop3_messages E g ids fs st of (r, st', evs) \<Rightarrow> (r, (st', n)))\<rparr>"

definition as_pop3 :: "message_row \<Rightarrow> pop3_message" where
  "as_pop3 m = \<lparr>p3_id = msg_id m, p3_raw = msg_raw m\<rparr>"

definition store_messages :: "store \<times> nat \<Rightarrow> pop3_message set" where
  "store_messages s = as_pop3 ` set (messages (sdb (fst s)))"

definition store_good :: "store \<times> nat \<Rightarrow> bool" where
  "store_good s \<longleftrightarrow> db_ok (sdb (fst s)) \<and> snd s < 2 ^ 64"

text \<open>A snapshot with generation \<open>g\<close> was taken of some earlier state of the store.\<close>

definition store_holds :: "pop3_message list \<Rightarrow> uint64 \<Rightarrow> store \<times> nat \<Rightarrow> bool" where
  "store_holds ms g s \<longleftrightarrow>
     (\<exists>(st1 :: store) n1. n1 \<le> snd s \<and> db_ok (sdb st1) \<and> g = generation st1
        \<and> generation (fst s) = generation st1 + of_nat (snd s - n1)
        \<and> (n1 = snd s \<longrightarrow> grows (sdb st1) (sdb (fst s)))
        \<and> set ms \<subseteq> as_pop3 ` set (messages (sdb st1)))"

definition store_others :: "store \<times> nat \<Rightarrow> store \<times> nat \<Rightarrow> bool" where
  "store_others s s' \<longleftrightarrow>
     (\<exists>E u r fs err evs. engine_ok E \<and> run_request E u r fs (fst s) = (err, fst s', evs)
        \<and> snd s' = snd s + (if r = Rq_Wipe_All \<and> err = None then 1 else 0) \<and> snd s' < 2 ^ 64)"

lemma keeps_open_pop3_messages: "keeps (\<lambda>d. messages d = ms) (open_pop3_tx now a)"
  unfolding open_pop3_tx_def
  by (intro keeps_rules; rule keeps_stmt)
    (auto simp: q_mailbox_id_def insert_mailbox_def q_maildrop_def split: if_splits option.splits)

lemma open_pop3_messages:
  assumes "open_pop3_mailbox u now raw fs st = (r, st', evs)"
  shows "messages (sdb st') = messages (sdb st)"
proof -
  have "messages (fst (snd (in_tx (open_pop3_tx now a) (sdb st) fs))) = messages (sdb st)" for a fs
    by (rule keeps_in_tx [OF keeps_open_pop3_messages]) simp
  then show ?thesis
    using assms
    by (auto simp: open_pop3_mailbox_def Let_def with_pop3_def finish_def split: if_splits prod.splits sum.splits)
      (metis fst_conv snd_conv)+
qed

text \<open>A step that keeps the generation, or one that counts a wipe, keeps what a snapshot means.\<close>

lemma holds_step:
  assumes "store_holds ms g (st, n)"
    and "if w then generation st' = generation st + 1 else grows (sdb st) (sdb st') \<and> generation st' = generation st"
  shows "store_holds ms g (st', n + (if w then 1 else 0))"
proof -
  from assms(1) obtain st1 :: store and n1 where h: "n1 \<le> n" "db_ok (sdb st1)" "g = generation st1"
      "generation st = generation st1 + of_nat (n - n1)" "n1 = n \<longrightarrow> grows (sdb st1) (sdb st)"
      "set ms \<subseteq> as_pop3 ` set (messages (sdb st1))"
    unfolding store_holds_def fst_conv snd_conv by blast
  show ?thesis
  proof (cases w)
    case True
    then have "generation st' = generation st1 + of_nat (Suc n - n1)"
      using assms(2) h(1,4) by (simp add: Suc_diff_le)
    with True h show ?thesis unfolding store_holds_def by (intro exI [of _ st1] exI [of _ n1]) auto
  next
    case False
    with assms(2) h show ?thesis
      unfolding store_holds_def by (intro exI [of _ st1] exI [of _ n1]) (auto intro: grows_trans)
  qed
qed

lemma steady_step: "steady st (r, st', evs) \<Longrightarrow> grows (sdb st) (sdb st') \<and> generation st' = generation st"
  by (simp add: steady_def)

lemma store_open_holds:
  assumes "db_ok (sdb st)" and "open_pop3_mailbox u now a fs st = (Inr snap, st', evs)"
  shows "store_holds (snap_messages snap) (snap_generation snap) (st', n)"
proof -
  have "db_ok (sdb st')" using open_pop3_sound [OF assms(1), of u now a fs] assms(2) by (simp add: sound_def)
  moreover from open_pop3_snapshot [OF assms(2)]
  have "snap_generation snap = generation st'" "set (snap_messages snap) \<subseteq> as_pop3 ` set (messages (sdb st'))"
    by (auto simp: as_pop3_def)
  ultimately show ?thesis
    unfolding store_holds_def by (intro exI [of _ st'] exI [of _ n]) simp
qed

lemma same_message_pop3: "same_message m m' \<Longrightarrow> as_pop3 m = as_pop3 m'"
  unfolding same_message_def as_pop3_def
  by (metis message_row.select_convs(1,15) message_row.surjective message_row.update_convs(12))

lemma store_delete_only:
  assumes "snd s < 2 ^ 64" and "delete_pop3_messages E g ids fs (fst s) = (r, st', evs)"
    and "store_holds ms g s" and "p \<in> store_messages s" and "p \<notin> store_messages (st', n)"
    and "set ids \<subseteq> p3_id ` set ms"
  shows "p \<in> set ms \<and> p3_id p \<in> set ids"
proof -
  from assms(3) obtain st1 :: store and n1 where h: "n1 \<le> snd s" "db_ok (sdb st1)" "g = generation st1"
      "generation (fst s) = generation st1 + of_nat (snd s - n1)" "n1 = snd s \<longrightarrow> grows (sdb st1) (sdb (fst s))"
      "set ms \<subseteq> as_pop3 ` set (messages (sdb st1))"
    unfolding store_holds_def fst_conv snd_conv by blast
  from assms(4) obtain m where m: "m \<in> set (messages (sdb (fst s)))" "p = as_pop3 m"
    by (auto simp: store_messages_def)
  have gone: "m \<notin> set (messages (sdb st'))" using assms(5) m(2) by (auto simp: store_messages_def)
  from request_messages_pop3 [OF assms(2)] m(1) gone
  have gen: "g = generation (fst s)" and mid: "msg_id m \<in> set ids" by auto
  have "snd s - n1 = 0"
    by (rule same_generation_no_wipe [of "fst s" st1]) (use h gen assms(1) in auto)
  then have g: "grows (sdb st1) (sdb (fst s))" using h(1,5) by simp
  from mid assms(6) obtain q where q: "q \<in> set ms" "p3_id q = msg_id m" by auto
  with h(6) obtain m1 where m1: "m1 \<in> set (messages (sdb st1))" "q = as_pop3 m1" by blast
  have id1: "msg_id m1 = msg_id m" using q(2) m1(2) by (simp add: as_pop3_def)
  have "msg_id m \<le> message_seq (sdb st1)" using h(2) m1(1) id1 by (auto simp: db_ok_def ids_ok_def)
  with g m(1) obtain m0 where m0: "m0 \<in> set (messages (sdb st1))" "same_message m0 m"
    by (force simp: grows_def)
  have "msg_id m0 = msg_id m" using same_message_pop3 [OF m0(2)] by (simp add: as_pop3_def)
  then have "m0 = m1" using h(2) m0(1) m1(1) id1 by (auto simp: db_ok_def ids_ok_def distinct_map inj_on_def)
  then have "p = q" using same_message_pop3 [OF m0(2)] m(2) m1(2) by simp
  then show ?thesis using q mid by simp
qed

interpretation store_backend: pop3_backend "store_pop3 u" store_good store_messages store_holds store_others
  for u
proof
  fix s :: "store \<times> nat" and f a r s'
  assume g: "store_good s" and run: "ps_open (store_pop3 u) f a s = (r, s')"
  obtain st n E now fs where s: "s = (st, n)" "f = (E, now, fs)" by (metis prod_cases3 surj_pair)
  from run obtain evs where op: "open_pop3_mailbox u now a fs st = (r, fst s', evs)" and n: "snd s' = n"
    by (auto simp: store_pop3_def s split: prod.splits)
  show "store_good s' \<and> store_messages s \<subseteq> store_messages s'"
    using g open_pop3_sound [of st u now a fs] open_pop3_messages [OF op]
    by (auto simp: store_good_def store_messages_def s n op sound_def)
next
  fix s :: "store \<times> nat" and f a snap s'
  assume g: "store_good s" and run: "ps_open (store_pop3 u) f a s = (Inr snap, s')"
  obtain st n E now fs where s: "s = (st, n)" "f = (E, now, fs)" by (metis prod_cases3 surj_pair)
  from run obtain evs where op: "open_pop3_mailbox u now a fs st = (Inr snap, fst s', evs)" and n: "snd s' = n"
    by (auto simp: store_pop3_def s split: prod.splits)
  from store_open_holds [OF _ op, of n] g n show "store_holds (snap_messages snap) (snap_generation snap) s'"
    by (simp add: store_good_def s) (metis prod.collapse)
next
  fix s :: "store \<times> nat" and f g ids and res :: "store_err + int list" and s'
  assume good: "store_good s" and run: "ps_delete (store_pop3 u) f g ids s = (res, s')"
  obtain st n E now fs where s: "s = (st, n)" "f = (E, now, fs)" by (metis prod_cases3 surj_pair)
  from run obtain evs where op: "delete_pop3_messages E g ids fs st = (res, fst s', evs)" and n: "snd s' = n"
    by (auto simp: store_pop3_def s split: prod.splits)
  show "store_good s'"
    using good delete_pop3_sound [of st E g ids fs] by (auto simp: store_good_def s n op sound_def)
  fix ms g'
  assume h: "store_holds ms g' s"
  have "grows (sdb st) (sdb (fst s')) \<and> generation (fst s') = generation st"
    using steady_step [of st res "fst s'" evs] delete_pop3_steady [of st E g ids fs] by (simp add: op)
  with holds_step [of ms g' st n False "fst s'"] h n show "store_holds ms g' s'"
    by (simp add: s) (metis prod.collapse)
next
  fix s :: "store \<times> nat" and f g ids and res :: "store_err + int list" and s' ms p
  assume good: "store_good s" and run: "ps_delete (store_pop3 u) f g ids s = (res, s')"
    and h: "store_holds ms g s" "p \<in> store_messages s" "p \<notin> store_messages s'" "set ids \<subseteq> p3_id ` set ms"
  obtain st n E now fs where s: "s = (st, n)" "f = (E, now, fs)" by (metis prod_cases3 surj_pair)
  from run obtain evs where "delete_pop3_messages E g ids fs (fst s) = (res, fst s', evs)"
    by (auto simp: store_pop3_def s split: prod.splits)
  from store_delete_only [OF _ this h(1,2) _ h(4), of "snd s'"] good h(3)
  show "p \<in> set ms \<and> p3_id p \<in> set ids" by (simp add: store_good_def)
next
  fix s s' :: "store \<times> nat"
  assume good: "store_good s" and "store_others s s'"
  then obtain E u r fs err evs where E: "engine_ok E" and run: "run_request E u r fs (fst s) = (err, fst s', evs)"
      and n: "snd s' = snd s + (if r = Rq_Wipe_All \<and> err = None then 1 else 0)" "snd s' < 2 ^ 64"
    by (auto simp: store_others_def)
  show "store_good s'" using run_request_sound [OF E _ run] good n by (simp add: store_good_def)
  fix ms g
  assume h: "store_holds ms g s"
  from holds_step [of ms g "fst s" "snd s" "r = Rq_Wipe_All \<and> err = None" "fst s'"] h request_steady [OF run] n(1)
  show "store_holds ms g s'" by (metis prod.collapse)
qed


section \<open>Sessions in the presence of other clients\<close>

text \<open>
  A session and the store it works on: commands of the session, each with some clock and failing
  calls, interleaved with requests of other clients (other sessions, SMTP, the web interface).
\<close>

inductive session_run :: "unicode \<Rightarrow> session \<times> store \<times> nat \<Rightarrow> session \<times> store \<times> nat \<Rightarrow> bool" for u where
  run_start: "session_run u x x"
| run_command: "session_run u x (ses, s) \<Longrightarrow> execute (store_pop3 u) f u line ses s = (out, close, ses', s') \<Longrightarrow>
    session_run u x (ses', s')"
| run_others: "session_run u x (ses, s) \<Longrightarrow> store_others s s' \<Longrightarrow> session_run u x (ses, s')"

lemma session_run_tracked:
  "session_run u x y \<Longrightarrow> store_backend.tracked (fst x) (snd x) \<Longrightarrow> store_backend.tracked (fst y) (snd y)"
proof (induction rule: session_run.induct)
  case (run_start x)
  then show ?case .
next
  case (run_command x ses s f line out close ses' s')
  then show ?case using store_backend.tracked_execute by simp
next
  case (run_others x ses s s')
  then show ?case using store_backend.tracked_others by simp
qed

text \<open>
  C5. The deletion of messages by a POP3 session is safe and deliberate: in any run of a session
  started on a well-formed store, interleaved with any requests of other clients, the only command
  that removes a message is \<open>QUIT\<close> in the transaction state; what it removes is a message of the
  session's own snapshot (the same id and the same bytes) that the client marked with \<open>DELE\<close> and did
  not reset, even when the store was wiped and refilled in the meantime and ids were used again.
\<close>

theorem session_removes_only_marked:
  assumes "db_ok (sdb st0)" and "session_run u (new_session, st0, 0) (ses, s)"
    and "execute (store_pop3 u) f u line ses s = (out, close, ses', s')"
    and "p \<in> store_messages s" and "p \<notin> store_messages s'"
  shows "ses_state ses = Transaction \<and> close \<and> fst (parse_command u line) = ''QUIT''
    \<and> p \<in> set (ses_messages ses) \<and> (\<exists>n\<in>ses_deleted ses. p3_id (message_at ses n) = p3_id p)"
proof -
  have "store_backend.tracked new_session (st0, 0)"
    by (rule store_backend.tracked_new) (simp add: store_good_def assms(1))
  with session_run_tracked [OF assms(2)] have "store_backend.tracked ses s" by simp
  from store_backend.execute_removes [OF this assms(3-5)] show ?thesis .
qed


text \<open>A concrete session: \<open>USER\<close>, \<open>PASS\<close>, \<open>DELE 1\<close>, \<open>QUIT\<close>.\<close>

lemma sample_commands:
  "parse_command plain_unicode ''USER A@B'' = (''USER'', ''A@B'', True)"
  "parse_command plain_unicode ''PASS x'' = (''PASS'', ''x'', True)"
  "parse_command plain_unicode ''DELE 1'' = (''DELE'', ''1'', True)"
  "parse_command plain_unicode ''QUIT'' = (''QUIT'', [], False)"
proof -
  have sp: "trim_space (CHR '' '' # s) = trim_space s" for s
    unfolding trim_space_def by (subst trim_left_space) (simp_all add: is_space_def decode_rune_ascii byte_def)
  show "parse_command plain_unicode ''USER A@B'' = (''USER'', ''A@B'', True)"
    "parse_command plain_unicode ''PASS x'' = (''PASS'', ''x'', True)"
    "parse_command plain_unicode ''DELE 1'' = (''DELE'', ''1'', True)"
    "parse_command plain_unicode ''QUIT'' = (''QUIT'', [], False)"
    by (simp_all add: parse_command_def trim_space_id graphic_def ascii_eval sp Let_def)
qed

definition sample_session :: session where
  "sample_session = \<lparr>ses_state = Transaction, ses_user = ''A@B'', ses_messages = [\<lparr>p3_id = 1, p3_raw = ''hi''\<rparr>],
     ses_generation = 0, ses_deleted = {1}\<rparr>"

lemma sample_user:
  "\<exists>out. execute (store_pop3 plain_unicode) f plain_unicode ''USER A@B'' new_session s =
     (out, False, new_session\<lparr>ses_user := ''A@B''\<rparr>, s)"
  by (simp add: execute_def sample_commands new_session_def trim_space_id graphic_def ascii_eval contains_any_def)

lemma sample_pass:
  "\<exists>out. execute (store_pop3 plain_unicode) (rowid_engine, 6, []) plain_unicode ''PASS x''
       (new_session\<lparr>ses_user := ''A@B''\<rparr>) (delivered_store, 0) =
     (out, False, sample_session\<lparr>ses_deleted := {}\<rparr>, (delivered_store, 0))"
  by (simp add: execute_def sample_commands new_session_def store_pop3_def sample_open sample_session_def)

lemma sample_dele:
  "\<exists>out. execute (store_pop3 plain_unicode) f plain_unicode ''DELE 1'' (sample_session\<lparr>ses_deleted := {}\<rparr>) s =
     (out, False, sample_session, s)"
  by (simp add: execute_def sample_commands sample_session_def execute_transaction_def message_number_def
      contains_any_def number_eval ascii_eval available_def)

lemma sample_session_run:
  "session_run plain_unicode (new_session, delivered_store, 0) (sample_session, delivered_store, 0)"
  using sample_user [of "(rowid_engine, 6, [])" "(delivered_store, 0)"] sample_pass
    sample_dele [of "(rowid_engine, 6, [])" "(delivered_store, 0)"]
  by (metis run_start run_command)

lemma sample_quit:
  "execute (store_pop3 plain_unicode) (rowid_engine, 6, []) plain_unicode ''QUIT'' sample_session (delivered_store, 0) =
     (write_line ''+OK goodbye'', True, sample_session,
      (delivered_store\<lparr>sdb := (sdb delivered_store)\<lparr>messages := []\<rparr>\<rparr>, 0))"
  by (simp add: execute_def sample_commands sample_session_def deleted_ids_def numbered_def store_pop3_def
      delete_pop3_messages_def with_pop3_def finish_def bind_stmt delivered_store_def q_affected_def
      rowid_engine_def delete_messages_def delete_messages_where_def empty_db_def copy_of_def message_row_of_def)

theorem session_removes_only_marked_witness:
  "\<lparr>p3_id = 1, p3_raw = ''hi''\<rparr> \<in> set (ses_messages sample_session) \<and> ses_state sample_session = Transaction"
  using session_removes_only_marked [OF delivered_store_ok sample_session_run sample_quit,
      of "\<lparr>p3_id = 1, p3_raw = ''hi''\<rparr>"]
  by (simp add: store_messages_def delivered_store_def as_pop3_def copy_of_def message_row_of_def sample_input_def)

end
