(* ===== verification/Pop3_Props.thy ===== *)
theory Pop3_Props
  imports Pop3_Session
begin

text \<open>What a POP3 client sees: one well-formed response per command, and listings that agree.\<close>

section \<open>Plain lines\<close>

abbreviation plain :: "bytes \<Rightarrow> bool" where
  "plain l \<equiv> \<forall>c\<in>set l. \<not> is_eol c"

lemma plain_itoa [simp]: "plain (itoa i)"
  using itoa_graphic [of i] by (auto simp: is_eol_def is_digit_def byte_def)

lemma cut_plain_line: "plain l \<Longrightarrow> cut_line (l @ CRLF @ r) = (l @ CRLF, r)"
  by (induction l) (simp_all add: cut_line_simps)

lemma line_text_plain_line: "plain l \<Longrightarrow> line_text (l @ CRLF) = l"
  by (induction l) (simp_all add: line_text_def is_eol_def)

lemma text_lines_joined: "\<forall>l\<in>set ls. plain l \<Longrightarrow> text_lines (concat (map (\<lambda>l. l @ CRLF) ls)) = ls"
proof (induction ls)
  case (Cons l ls)
  have "cut_line (concat (map (\<lambda>l. l @ CRLF) (l # ls))) = (l @ CRLF, concat (map (\<lambda>l. l @ CRLF) ls))"
    using cut_plain_line [of l "concat (map (\<lambda>l. l @ CRLF) ls)"] Cons.prems by simp
  with Cons show ?case by (simp add: text_lines_Cons line_text_plain_line)
qed simp

section \<open>Responses\<close>

text \<open>
  A response is one line, or, to a command that asks for a listing, a line of success and one multi-line body;
  a failure is always one line.
\<close>

definition response :: "bool \<Rightarrow> bytes \<Rightarrow> bool" where
  "response multi out \<longleftrightarrow>
     (\<exists>status. plain status
        \<and> (out = write_line status \<and> (has_prefix status ''-ERR'' \<or> \<not> multi \<and> has_prefix status ''+OK'')
           \<or> multi \<and> has_prefix status ''+OK'' \<and> (\<exists>data. out = write_line status @ write_multiline data)))"

lemma response_error: "plain text \<Longrightarrow> response multi (write_line (''-ERR'' @ text))"
  unfolding response_def by (intro exI [of _ "''-ERR'' @ text"]) (simp add: is_eol_def has_prefix_def)

lemma response_line: "plain text \<Longrightarrow> response False (write_line (''+OK'' @ text))"
  unfolding response_def by (intro exI [of _ "''+OK'' @ text"]) (simp add: is_eol_def has_prefix_def)

lemma response_body: "plain text \<Longrightarrow> response True (write_line (''+OK'' @ text) @ write_multiline data)"
  unfolding response_def by (intro exI [of _ "''+OK'' @ text"]) (auto simp: is_eol_def has_prefix_def)

lemma plain_literals [simp]: "\<not> is_eol (CHR ''+'')" "\<not> is_eol (CHR '' '')"
  by (simp_all add: is_eol_def)

lemma plain_octets_text: "plain (octets_text stats)"
  using plain_itoa [of "fst stats"] plain_itoa [of "snd stats"] by (auto simp: octets_text_def is_eol_def)

lemma response_errors [simp]: "response multi bad_syntax" "response multi wrong_state" "response multi no_message"
  using response_error [of "'' malformed command''" multi] response_error [of "'' command not valid in this state''" multi]
    response_error [of "'' no such message''" multi]
  by (simp_all add: bad_syntax_def wrong_state_def no_message_def is_eol_def)

lemma plain_pair: "plain (CHR '' '' # itoa a @ CHR '' '' # itoa b)"
  using plain_itoa [of a] plain_itoa [of b] by (auto simp: is_eol_def)

lemma plain_octets: "plain (CHR '' '' # itoa n @ '' octets'')"
  using plain_itoa [of n] by (auto simp: is_eol_def)

lemma plain_ready: "plain ('' mailbox locked and ready, '' @ itoa n @ '' messages'')"
  using plain_itoa [of n] by (auto simp: is_eol_def)

lemma list_command_response: "response (\<not> has) (list_command ses argument has)"
  using response_line [OF plain_pair] response_body [of "CHR '' '' # octets_text (maildrop_stats ses)"]
    plain_octets_text [of "maildrop_stats ses"]
  by (auto simp: list_command_def split: option.split)

lemma uidl_command_response: "response (\<not> has) (uidl_command ses argument has)"
  using response_line [OF plain_pair] response_body [of "'' unique-id listing follows''"]
  by (auto simp: uidl_command_def is_eol_def split: option.split)

lemma top_command_response: "response True (top_command ses argument has)"
  using response_body [of "'' top of message follows''"] response_error [of "'' no such message or invalid line count''" True]
  by (auto simp: top_command_def is_eol_def split: bool.split list.split option.split)

text \<open>The commands whose success has a body: RFC 1939 and RFC 2449.\<close>

definition multiline :: "bytes \<Rightarrow> bool \<Rightarrow> bool" where
  "multiline command has \<longleftrightarrow> command \<in> {''CAPA'', ''RETR'', ''TOP''} \<or> command \<in> {''LIST'', ''UIDL''} \<and> \<not> has"

lemma execute_transaction_response:
  assumes "command \<noteq> ''CAPA''"
  shows "response (multiline command has) (fst (execute_transaction ses command argument has))"
proof -
  have lit: "response False (write_line ''+OK message deleted'')" "response False (write_line ''+OK'')"
      "response multi (write_line ''-ERR unknown command'')" for multi
    using response_line [of "'' message deleted''"] response_line [of "[]"] response_error [of "'' unknown command''" multi]
    by (simp_all add: is_eol_def)
  have pair: "response False (write_line (''+OK '' @ itoa a @ '' '' @ itoa b))" for a b
    using response_line [OF plain_pair [of a b]] by simp
  have stats: "response False (write_line (''+OK '' @ octets_text x))" for x
    using response_line [of "CHR '' '' # octets_text x"] plain_octets_text [of x] by simp
  have body: "response True (write_line (''+OK '' @ itoa n @ '' octets'') @ write_multiline data)" for n data
    using response_body [OF plain_octets [of n]] by simp
  have retr: "response (multiline ''RETR'' has) (fst (execute_transaction ses ''RETR'' argument has))"
    using body by (cases "message_number ses argument has") (simp_all add: execute_transaction_def multiline_def del: append.simps)
  consider "command = ''LIST''" | "command = ''UIDL''" | "command = ''TOP''" | "command = ''RETR''"
    | "command \<notin> {''LIST'', ''UIDL'', ''TOP'', ''RETR''}" by blast
  then show ?thesis
  proof cases
    case 1
    then show ?thesis using list_command_response [of has ses argument] by (simp add: execute_transaction_def multiline_def)
  next
    case 2
    then show ?thesis using uidl_command_response [of has ses argument] by (simp add: execute_transaction_def multiline_def)
  next
    case 3
    then show ?thesis using top_command_response [of ses argument has] by (simp add: execute_transaction_def multiline_def)
  next
    case 4
    then show ?thesis using retr by simp
  next
    case 5
    then have single: "multiline command has = False" using assms by (simp add: multiline_def)
    show ?thesis
      unfolding single using 5 by (simp add: execute_transaction_def Let_def lit pair [simplified] stats [simplified] split: option.split)
  qed
qed

definition multiline_command :: "unicode \<Rightarrow> bytes \<Rightarrow> bool" where
  "multiline_command u line = (case parse_command u line of (command, argument, has) \<Rightarrow> multiline command has)"

lemma execute_response: "response (multiline_command u line) (fst (execute S f u line ses st))"
proof -
  have lit: "response multi (write_line ''-ERR malformed command'')" "response multi (write_line ''-ERR unable to delete messages'')"
      "response False (write_line ''+OK goodbye'')" "response False (write_line ''+OK user accepted'')"
      "response multi (write_line ''-ERR unable to open mailbox'')"
      "response True (write_line ''+OK Capability list follows'' @ write_multiline data)" for multi data
    using response_error [of "'' malformed command''" multi] response_error [of "'' unable to delete messages''" multi]
      response_line [of "'' goodbye''"] response_line [of "'' user accepted''"]
      response_error [of "'' unable to open mailbox''" multi] response_body [of "'' Capability list follows''" data]
    by (simp_all add: is_eol_def)
  obtain command argument has where cmd: "parse_command u line = (command, argument, has)" by (metis prod_cases3)
  have multi: "multiline_command u line = multiline command has" by (simp add: multiline_command_def cmd)
  show ?thesis
  proof (cases "command \<in> {[], ''CAPA'', ''QUIT'', ''USER'', ''PASS''}")
    case True
    then show ?thesis
      unfolding multi using lit response_line [OF plain_ready]
      by (auto simp: execute_def cmd multiline_def Let_def split: prod.split sum.split)
  next
    case False
    then have "fst (execute S f u line ses st) =
        (if ses_state ses \<noteq> Transaction then wrong_state else fst (execute_transaction ses command argument has))"
      by (simp add: execute_def cmd split_beta)
    then show ?thesis
      unfolding multi using execute_transaction_response [of command has ses argument] False by simp
  qed
qed

text \<open>A client knows from its command whether a success has a body.\<close>

definition client_response :: "bool \<Rightarrow> bytes \<Rightarrow> (bytes \<times> bytes list \<times> bytes) option" where
  "client_response multi s =
     (case read_line s of
        None \<Rightarrow> None
      | Some (status, rest) \<Rightarrow>
          if multi \<and> has_prefix status ''+OK'' then map_option (\<lambda>(ls, rest). (status, ls, rest)) (client_read rest)
          else Some (status, [], rest))"

lemma client_reads_response:
  assumes "response multi out"
  shows "\<exists>status ls. (has_prefix status ''+OK'' \<or> has_prefix status ''-ERR'')
    \<and> (\<forall>more. client_response multi (out @ more) = Some (status, ls, more))"
proof -
  obtain status where status: "plain status" and kinds:
    "out = write_line status \<and> (has_prefix status ''-ERR'' \<or> \<not> multi \<and> has_prefix status ''+OK'')
     \<or> multi \<and> has_prefix status ''+OK'' \<and> (\<exists>data. out = write_line status @ write_multiline data)"
    using assms by (auto simp: response_def)
  have first: "read_line (write_line status @ r) = Some (status, r)" for r
    using read_line_plain [OF status] by (simp add: write_line_def)
  have no: "\<not> has_prefix status ''+OK''" if "has_prefix status ''-ERR''"
    using that by (cases status) (auto simp: has_prefix_def)
  from kinds show ?thesis
  proof
    assume line: "out = write_line status \<and> (has_prefix status ''-ERR'' \<or> \<not> multi \<and> has_prefix status ''+OK'')"
    then have "client_response multi (out @ more) = Some (status, [], more)" for more
      using first [of more] no by (auto simp: client_response_def)
    then show ?thesis using line by blast
  next
    assume body: "multi \<and> has_prefix status ''+OK'' \<and> (\<exists>data. out = write_line status @ write_multiline data)"
    then obtain data where out: "out = write_line status @ write_multiline data" by blast
    have "client_response multi (out @ more) = Some (status, text_lines data, more)" for more
      using first [of "write_multiline data @ more"] body by (simp add: out client_response_def client_reads)
    then show ?thesis using body by blast
  qed
qed

section \<open>Listings\<close>

lemma fold_stats:
  "foldl (\<lambda>(count, octets) p. (count + 1, octets + int (length (p3_raw (snd p))))) (c, n) ps
     = (c + int (length ps), n + sum_list (map (\<lambda>p. int (length (p3_raw (snd p)))) ps))"
  by (induction ps arbitrary: c n) auto

lemma maildrop_stats_eq:
  "maildrop_stats ses = (int (length (kept ses)), sum_list (map (\<lambda>p. int (length (p3_raw (snd p)))) (kept ses)))"
  by (simp add: maildrop_stats_def fold_stats)

definition entry :: "int \<Rightarrow> int \<Rightarrow> bytes" where
  "entry n k = itoa n @ '' '' @ itoa k"

lemma plain_entry: "plain (entry n k)"
  using plain_itoa [of n] plain_itoa [of k] by (auto simp: entry_def is_eol_def)

lemma text_lines_listing: "text_lines (listing ses f) = map (\<lambda>p. entry (fst p) (f (snd p))) (kept ses)"
proof -
  have "listing ses f = concat (map (\<lambda>l. l @ CRLF) (map (\<lambda>p. entry (fst p) (f (snd p))) (kept ses)))"
    by (simp add: listing_def entry_def comp_def)
  moreover have "text_lines (concat (map (\<lambda>l. l @ CRLF) (map (\<lambda>p. entry (fst p) (f (snd p))) (kept ses))))
      = map (\<lambda>p. entry (fst p) (f (snd p))) (kept ses)"
    by (rule text_lines_joined) (use plain_entry in auto)
  ultimately show ?thesis by simp
qed

section \<open>Properties\<close>

text \<open>
  C39. Every command line, in every state of the session and whatever the store answers, gets exactly one
  response: a client that reads a line of \<open>+OK\<close> or \<open>-ERR\<close>, and after a success of \<open>CAPA\<close>, \<open>RETR\<close>, \<open>TOP\<close> or a \<open>LIST\<close> or \<open>UIDL\<close>
  without an argument one multi-line body, is left at the first byte that follows the response, whatever
  that is.
\<close>

theorem every_command_is_answered:
  "\<exists>status ls. (has_prefix status ''+OK'' \<or> has_prefix status ''-ERR'')
     \<and> (\<forall>more. client_response (multiline_command u line) (fst (execute S f u line ses st) @ more) = Some (status, ls, more))"
  by (rule client_reads_response [OF execute_response])

text \<open>
  \<open>STAT\<close>, \<open>LIST\<close> and \<open>UIDL\<close> agree: what a client reads from a listing is one line per message
  not marked as deleted, with its number and its size or its unique id, in the order of the
  maildrop; the counts of \<open>STAT\<close> and of the first line of \<open>LIST\<close> are the number of those lines and
  the sum of the sizes.
\<close>

theorem listings_agree:
  "let n = int (length (kept ses)); octets = sum_list (map (\<lambda>p. int (length (p3_raw (snd p)))) (kept ses)) in
   fst (execute_transaction ses ''STAT'' [] False) = write_line (''+OK '' @ itoa n @ '' '' @ itoa octets)
   \<and> (\<exists>body. fst (execute_transaction ses ''LIST'' [] False)
          = write_line (''+OK '' @ itoa n @ '' messages ('' @ itoa octets @ '' octets)'') @ body
        \<and> client_read body = Some (map (\<lambda>p. entry (fst p) (int (length (p3_raw (snd p))))) (kept ses), []))
   \<and> (\<exists>body. fst (execute_transaction ses ''UIDL'' [] False) = write_line ''+OK unique-id listing follows'' @ body
        \<and> client_read body = Some (map (\<lambda>p. entry (fst p) (p3_id (snd p))) (kept ses), []))"
  using client_reads [of "listing ses (\<lambda>m. int (length (p3_raw m)))" "[]"] client_reads [of "listing ses p3_id" "[]"]
  by (simp add: Let_def execute_transaction_def maildrop_stats_eq list_command_def uidl_command_def octets_text_def
      text_lines_listing)

text \<open>
  \<open>DELE\<close> followed by \<open>RSET\<close> restores the maildrop; \<open>DELE n\<close> hides exactly message \<open>n\<close> from it;
  and the ids \<open>QUIT\<close> sends to the store are those of the marked messages, in order.
\<close>

theorem dele_and_rset:
  assumes "message_number ses argument has = Some n"
  shows "let ses' = snd (execute_transaction ses ''DELE'' argument has) in
    kept ses' = filter (\<lambda>p. fst p \<noteq> n) (kept ses)
    \<and> (n, message_at ses n) \<in> set (kept ses)
    \<and> set (deleted_ids ses') = insert (p3_id (message_at ses n)) (set (deleted_ids ses))
    \<and> kept (snd (execute_transaction ses' ''RSET'' [] False)) = numbered ses"
proof -
  from message_number_Some [OF assms] have n: "available ses n" by simp
  have num: "numbered (ses\<lparr>ses_deleted := D\<rparr>) = numbered ses" for D by (simp add: numbered_def)
  have at: "message_at (ses\<lparr>ses_deleted := D\<rparr>) k = message_at ses k" for D k by (simp add: message_at_def)
  have keep: "kept (ses\<lparr>ses_deleted := insert n (ses_deleted ses)\<rparr>) = filter (\<lambda>p. fst p \<noteq> n) (kept ses)"
    by (auto simp: kept_def num intro!: filter_cong)
  have ids: "set (deleted_ids (ses\<lparr>ses_deleted := insert n (ses_deleted ses)\<rparr>))
      = insert (p3_id (message_at ses n)) (set (deleted_ids ses))"
    using n by (auto simp: set_deleted_ids at available_def)
  have "(n, message_at ses n) \<in> set (kept ses)"
    using n by (simp add: kept_def in_numbered_iff available_def)
  with keep ids show ?thesis
    by (simp add: execute_transaction_def assms Let_def kept_def [of "ses\<lparr>ses_deleted := {}\<rparr>"] num)
qed

theorem dele_and_rset_witness:
  "let ses = new_session\<lparr>ses_state := Transaction, ses_messages := [\<lparr>p3_id = 7, p3_raw = ''hi''\<rparr>]\<rparr>
   in message_number ses ''1'' True = Some 1
      \<and> set (deleted_ids (snd (execute_transaction ses ''DELE'' ''1'' True))) = {7}"
proof -
  let ?ses = "new_session\<lparr>ses_state := Transaction, ses_messages := [\<lparr>p3_id = 7, p3_raw = ''hi''\<rparr>]\<rparr>"
  have n: "message_number ?ses ''1'' True = Some 1"
    by (simp add: message_number_def contains_any_def number_eval ascii_eval available_def new_session_def)
  show ?thesis
    using dele_and_rset [OF n] n
    by (simp add: Let_def message_at_def new_session_def deleted_ids_def)
qed

text \<open>
  A command read from a connection is at most 4095 bytes long without line feed, carriage
  return or NUL, and is the input up to its line end; a line that does not fit the buffer or has a
  stray carriage return or NUL ends the connection.
\<close>

theorem commands_are_bounded:
  assumes "read_command ending input = Inr (command, rest)"
  shows "length command < 4096 \<and> CR \<notin> set command \<and> NUL \<notin> set command \<and> LF \<notin> set command
    \<and> (input = command @ LF # rest \<or> input = command @ CRLF @ rest)"
  using read_command_Inr [OF assms] by (simp add: max_command_bytes_def)

theorem commands_are_bounded_witness:
  "read_command Eof (''NOOP'' @ CRLF) = Inr (''NOOP'', []) \<and> length ''NOOP'' < 4096"
proof -
  have "read_command Eof (''NOOP'' @ CRLF) = Inr (''NOOP'', [])"
    by (simp add: read_command_def max_command_bytes_def trim_suffix_def has_suffix_def)
  with commands_are_bounded [OF this] show ?thesis by simp
qed

end
