(* ===== verification/Pop3_Service.thy ===== *)
theory Pop3_Service
  imports Prelude
begin

text \<open>
  \<open>internal/pop3server/pop3server.go\<close>, the service: accepting connections, serving each in a
  goroutine of its own, and shutting down.  A step is what one goroutine does between two points
  where others can run: one critical section of \<open>service.mu\<close>, one call of the network library, one
  operation of the wait group.  Connections are numbered in the order they are accepted.
\<close>

section \<open>State\<close>

datatype serve_error = Server_Closed | Already_Serving | Accept_Error

text \<open>A call of \<open>Serve\<close>: in \<open>Accept\<close>, holding a connection it has not registered yet, or leaving.\<close>

datatype serve_pc = Accepting nat | Holding nat nat | Leaving nat serve_error | Returned serve_error

text \<open>A call of \<open>Shutdown\<close>: closing the listener and the connections it copied, waiting, or done.\<close>

datatype shutdown_pc = Closing "nat option" "nat set" | Waiting | Finished | Gave_Up

record service =
  sv_listener :: "nat option"
  sv_conns :: "nat set"
  sv_closing :: bool
  sv_wg :: nat
  sv_cancelled :: bool
  sv_serving :: "nat set"
  sv_done :: "nat set"
  sv_closed :: "nat set"
  sv_closed_listeners :: "nat set"
  sv_accepted :: nat
  sv_serves :: "nat \<rightharpoonup> serve_pc"
  sv_shutdowns :: "nat \<rightharpoonup> shutdown_pc"

definition new_service :: service where
  "new_service = \<lparr>sv_listener = None, sv_conns = {}, sv_closing = False, sv_wg = 0, sv_cancelled = False,
     sv_serving = {}, sv_done = {}, sv_closed = {}, sv_closed_listeners = {}, sv_accepted = 0,
     sv_serves = Map.empty, sv_shutdowns = Map.empty\<rparr>"

section \<open>The critical sections\<close>

text \<open>\<open>Serve\<close>: entering, registering an accepted connection, and the deferred section.\<close>

definition serve_enter :: "nat \<Rightarrow> nat \<Rightarrow> service \<Rightarrow> service" where
  "serve_enter t l s =
     (if sv_closing s then
        s\<lparr>sv_closed_listeners := insert l (sv_closed_listeners s), sv_serves := (sv_serves s)(t \<mapsto> Returned Server_Closed)\<rparr>
      else if sv_listener s \<noteq> None then s\<lparr>sv_serves := (sv_serves s)(t \<mapsto> Returned Already_Serving)\<rparr>
      else s\<lparr>sv_listener := Some l, sv_serves := (sv_serves s)(t \<mapsto> Accepting l)\<rparr>)"

definition serve_accept :: "nat \<Rightarrow> nat \<Rightarrow> service \<Rightarrow> service" where
  "serve_accept t l s =
     s\<lparr>sv_accepted := Suc (sv_accepted s), sv_serves := (sv_serves s)(t \<mapsto> Holding l (sv_accepted s))\<rparr>"

definition serve_accept_error :: "nat \<Rightarrow> nat \<Rightarrow> bool \<Rightarrow> service \<Rightarrow> service" where
  "serve_accept_error t l listener_closed s =
     s\<lparr>sv_serves := (sv_serves s)(t \<mapsto>
        Leaving l (if sv_closing s \<or> listener_closed then Server_Closed else Accept_Error))\<rparr>"

definition serve_register :: "nat \<Rightarrow> nat \<Rightarrow> nat \<Rightarrow> service \<Rightarrow> service" where
  "serve_register t l c s =
     (if sv_closing s then
        s\<lparr>sv_closed := insert c (sv_closed s), sv_serves := (sv_serves s)(t \<mapsto> Leaving l Server_Closed)\<rparr>
      else s\<lparr>sv_conns := insert c (sv_conns s), sv_wg := Suc (sv_wg s), sv_serving := insert c (sv_serving s),
             sv_serves := (sv_serves s)(t \<mapsto> Accepting l)\<rparr>)"

definition serve_leave :: "nat \<Rightarrow> nat \<Rightarrow> serve_error \<Rightarrow> service \<Rightarrow> service" where
  "serve_leave t l e s =
     s\<lparr>sv_listener := (if sv_listener s = Some l then None else sv_listener s),
       sv_serves := (sv_serves s)(t \<mapsto> Returned e)\<rparr>"

text \<open>\<open>serveConn\<close>: the deferred function closes the connection and removes it, then \<open>wg.Done\<close>.\<close>

definition conn_remove :: "nat \<Rightarrow> service \<Rightarrow> service" where
  "conn_remove c s =
     s\<lparr>sv_closed := insert c (sv_closed s), sv_conns := sv_conns s - {c}, sv_serving := sv_serving s - {c},
       sv_done := insert c (sv_done s)\<rparr>"

definition conn_done :: "nat \<Rightarrow> service \<Rightarrow> service" where
  "conn_done c s = s\<lparr>sv_done := sv_done s - {c}, sv_wg := sv_wg s - 1\<rparr>"

text \<open>\<open>Shutdown\<close>: the critical section, closing what it copied, cancelling, and the wait.\<close>

definition shutdown_enter :: "nat \<Rightarrow> service \<Rightarrow> service" where
  "shutdown_enter t s =
     s\<lparr>sv_closing := True, sv_shutdowns := (sv_shutdowns s)(t \<mapsto> Closing (sv_listener s) (sv_conns s))\<rparr>"

definition shutdown_close_listener :: "nat \<Rightarrow> nat \<Rightarrow> nat set \<Rightarrow> service \<Rightarrow> service" where
  "shutdown_close_listener t l cs s =
     s\<lparr>sv_closed_listeners := insert l (sv_closed_listeners s),
       sv_shutdowns := (sv_shutdowns s)(t \<mapsto> Closing None cs)\<rparr>"

definition shutdown_close_conn :: "nat \<Rightarrow> nat \<Rightarrow> nat set \<Rightarrow> service \<Rightarrow> service" where
  "shutdown_close_conn t c cs s =
     s\<lparr>sv_closed := insert c (sv_closed s), sv_shutdowns := (sv_shutdowns s)(t \<mapsto> Closing None (cs - {c}))\<rparr>"

definition shutdown_cancel :: "nat \<Rightarrow> service \<Rightarrow> service" where
  "shutdown_cancel t s = s\<lparr>sv_cancelled := True, sv_shutdowns := (sv_shutdowns s)(t \<mapsto> Waiting)\<rparr>"

definition shutdown_end :: "nat \<Rightarrow> shutdown_pc \<Rightarrow> service \<Rightarrow> service" where
  "shutdown_end t pc s = s\<lparr>sv_shutdowns := (sv_shutdowns s)(t \<mapsto> pc)\<rparr>"

inductive service_step :: "service \<Rightarrow> service \<Rightarrow> bool" where
  step_enter: "sv_serves s t = None \<Longrightarrow> service_step s (serve_enter t l s)"
| step_accept: "sv_serves s t = Some (Accepting l) \<Longrightarrow> service_step s (serve_accept t l s)"
| step_accept_error: "sv_serves s t = Some (Accepting l) \<Longrightarrow>
    service_step s (serve_accept_error t l (l \<in> sv_closed_listeners s) s)"
| step_register: "sv_serves s t = Some (Holding l c) \<Longrightarrow> service_step s (serve_register t l c s)"
| step_leave: "sv_serves s t = Some (Leaving l e) \<Longrightarrow> service_step s (serve_leave t l e s)"
| step_remove: "c \<in> sv_serving s \<Longrightarrow> service_step s (conn_remove c s)"
| step_done: "c \<in> sv_done s \<Longrightarrow> service_step s (conn_done c s)"
| step_shutdown: "sv_shutdowns s t = None \<Longrightarrow> service_step s (shutdown_enter t s)"
| step_close_listener: "sv_shutdowns s t = Some (Closing (Some l) cs) \<Longrightarrow>
    service_step s (shutdown_close_listener t l cs s)"
| step_close_conn: "sv_shutdowns s t = Some (Closing None cs) \<Longrightarrow> c \<in> cs \<Longrightarrow>
    service_step s (shutdown_close_conn t c cs s)"
| step_cancel: "sv_shutdowns s t = Some (Closing None {}) \<Longrightarrow> service_step s (shutdown_cancel t s)"
| step_finished: "sv_shutdowns s t = Some Waiting \<Longrightarrow> sv_wg s = 0 \<Longrightarrow> service_step s (shutdown_end t Finished s)"
| step_gave_up: "sv_shutdowns s t = Some Waiting \<Longrightarrow> service_step s (shutdown_end t Gave_Up s)"

inductive service_run :: "service \<Rightarrow> service \<Rightarrow> bool" where
  service_run_refl: "service_run s s"
| service_run_step: "service_run s s1 \<Longrightarrow> service_step s1 s2 \<Longrightarrow> service_run s s2"

section \<open>The invariant\<close>

text \<open>
  The wait group counts the goroutines that have not called \<open>Done\<close>; the registered connections are
  those still served; every connection accepted is held by exactly one \<open>Serve\<close>, served, or closed;
  and a \<open>Shutdown\<close> past its critical section has copied every connection that can still be served.
\<close>

definition held :: "service \<Rightarrow> nat set" where
  "held s = {c. \<exists>t l. sv_serves s t = Some (Holding l c)}"

definition count_inv :: "service \<Rightarrow> bool" where
  "count_inv s \<longleftrightarrow>
     finite (sv_serving s) \<and> finite (sv_done s) \<and> sv_serving s \<inter> sv_done s = {}
     \<and> sv_wg s = card (sv_serving s) + card (sv_done s) \<and> sv_conns s = sv_serving s"

definition accept_inv :: "service \<Rightarrow> bool" where
  "accept_inv s \<longleftrightarrow>
     sv_done s \<subseteq> sv_closed s
     \<and> sv_serving s \<union> sv_closed s \<union> held s = {..<sv_accepted s}
     \<and> held s \<inter> (sv_serving s \<union> sv_closed s) = {}
     \<and> (\<forall>t t' l l' c. sv_serves s t = Some (Holding l c) \<longrightarrow> sv_serves s t' = Some (Holding l' c) \<longrightarrow> t = t')"

fun shutdown_ok :: "service \<Rightarrow> shutdown_pc \<Rightarrow> bool" where
  "shutdown_ok s (Closing l cs) \<longleftrightarrow>
     sv_serving s \<subseteq> cs \<union> sv_closed s \<and> cs \<subseteq> sv_serving s \<union> sv_closed s"
| "shutdown_ok s Finished \<longleftrightarrow> sv_serving s = {} \<and> sv_done s = {}"
| "shutdown_ok s Waiting \<longleftrightarrow> sv_serving s \<subseteq> sv_closed s"
| "shutdown_ok s Gave_Up \<longleftrightarrow> sv_serving s \<subseteq> sv_closed s"

definition shutdown_inv :: "service \<Rightarrow> bool" where
  "shutdown_inv s \<longleftrightarrow> (\<forall>t pc. sv_shutdowns s t = Some pc \<longrightarrow> sv_closing s \<and> shutdown_ok s pc)"

definition service_inv :: "service \<Rightarrow> bool" where
  "service_inv s \<longleftrightarrow> count_inv s \<and> accept_inv s \<and> shutdown_inv s"

lemma shutdown_invD: "shutdown_inv s \<Longrightarrow> sv_shutdowns s t = Some pc \<Longrightarrow> sv_closing s \<and> shutdown_ok s pc"
  by (simp add: shutdown_inv_def)

lemmas service_step_defs = serve_enter_def serve_accept_def serve_accept_error_def serve_register_def
  serve_leave_def conn_remove_def conn_done_def shutdown_enter_def shutdown_close_listener_def
  shutdown_close_conn_def shutdown_cancel_def shutdown_end_def

lemma held_update:
  assumes "sv_serves s t = pc" and "\<forall>l c. pc \<noteq> Some (Holding l c)" and "\<forall>l c. pc' \<noteq> Holding l c"
    and "sv_serves s' = (sv_serves s)(t \<mapsto> pc')"
  shows "held s' = held s"
proof -
  have "(sv_serves s' x = Some (Holding l c)) = (sv_serves s x = Some (Holding l c))" for x l c
    using assms by (cases "x = t") auto
  then show ?thesis by (simp add: held_def)
qed

lemma held_accept:
  assumes "sv_serves s t = Some (Accepting l)" and "sv_serves s' = (sv_serves s)(t \<mapsto> Holding l c)"
  shows "held s' = insert c (held s)"
proof -
  have "(sv_serves s' x = Some (Holding l' c')) = (x = t \<and> l' = l \<and> c' = c \<or> sv_serves s x = Some (Holding l' c'))"
    for x l' c'
    using assms by (cases "x = t") auto
  then show ?thesis by (auto simp: held_def)
qed

lemma held_release:
  assumes "sv_serves s t = Some (Holding l c)" and "\<forall>l c. pc' \<noteq> Holding l c"
    and "sv_serves s' = (sv_serves s)(t \<mapsto> pc')"
    and "\<forall>t t' l l' c. sv_serves s t = Some (Holding l c) \<longrightarrow> sv_serves s t' = Some (Holding l' c) \<longrightarrow> t = t'"
  shows "held s' = held s - {c}"
proof -
  have "(sv_serves s' x = Some (Holding l' c')) = (c' \<noteq> c \<and> sv_serves s x = Some (Holding l' c'))" for x l' c'
    using assms by (cases "x = t") auto
  then show ?thesis by (auto simp: held_def)
qed

lemma held_same: "sv_serves s' = sv_serves s \<Longrightarrow> held s' = held s"
  by (simp add: held_def)

lemma register_fresh:
  "service_inv s \<Longrightarrow> sv_serves s t = Some (Holding l c) \<Longrightarrow> c \<notin> sv_serving s \<and> c \<notin> sv_done s \<and> c \<notin> sv_closed s"
proof -
  assume "service_inv s" and "sv_serves s t = Some (Holding l c)"
  then have "c \<in> held s" "held s \<inter> (sv_serving s \<union> sv_closed s) = {}" "sv_done s \<subseteq> sv_closed s"
    by (auto simp: held_def service_inv_def accept_inv_def)
  then show ?thesis by blast
qed

lemma step_count_inv:
  assumes "service_step s s'" and "service_inv s"
  shows "count_inv s'"
  using assms
proof (cases rule: service_step.cases)
  case (step_register t l c)
  then show ?thesis
    using register_fresh [OF assms(2)] assms(2) by (auto simp: service_inv_def count_inv_def serve_register_def)
next
  case (step_remove c)
  have c: "count_inv s" using assms(2) by (simp add: service_inv_def)
  then have "c \<notin> sv_done s" "finite (sv_done s)" using step_remove by (auto simp: count_inv_def)
  moreover have "card (sv_serving s) = Suc (card (sv_serving s - {c}))"
    using c step_remove by (metis card_Suc_Diff1 count_inv_def)
  ultimately show ?thesis
    using c step_remove by (auto simp: count_inv_def conn_remove_def)
next
  case (step_done c)
  have c: "count_inv s" using assms(2) by (simp add: service_inv_def)
  have "card (sv_done s) = Suc (card (sv_done s - {c}))"
    using c step_done by (metis card_Suc_Diff1 count_inv_def)
  then show ?thesis using c step_done by (auto simp: count_inv_def conn_done_def)
qed (use assms(2) in \<open>auto simp: service_inv_def count_inv_def service_step_defs\<close>)


lemma step_accept_inv:
  assumes "service_step s s'" and "service_inv s"
  shows "accept_inv s'"
proof -
  have a: "accept_inv s" and d: "shutdown_inv s" using assms(2) by (simp_all add: service_inv_def)
  have uniq: "\<forall>t t' l l' c. sv_serves s t = Some (Holding l c) \<longrightarrow> sv_serves s t' = Some (Holding l' c) \<longrightarrow> t = t'"
    using a by (simp add: accept_inv_def)
  from assms(1) show ?thesis
  proof (cases rule: service_step.cases)
    case (step_enter t l)
    have "held s' = held s"
      unfolding step_enter by (rule held_update [of s t None "case sv_serves s' t of Some pc \<Rightarrow> pc"])
        (use step_enter in \<open>auto simp: serve_enter_def\<close>)
    with a step_enter show ?thesis by (auto simp: accept_inv_def serve_enter_def split: if_splits)
  next
    case (step_accept t l)
    have h: "held s' = insert (sv_accepted s) (held s)"
      by (rule held_accept [OF step_accept(2)]) (simp add: step_accept(1) serve_accept_def)
    have fresh: "sv_serves s x \<noteq> Some (Holding k (sv_accepted s))" for x k
      using a by (auto simp: accept_inv_def held_def)
    show ?thesis
      using a h fresh step_accept by (auto simp: accept_inv_def serve_accept_def lessThan_Suc split: if_splits)
  next
    case (step_accept_error t l)
    have "held s' = held s"
      by (rule held_update [OF step_accept_error(2), where pc' = "case sv_serves s' t of Some pc \<Rightarrow> pc"])
        (simp_all add: step_accept_error(1) serve_accept_error_def)
    with a step_accept_error show ?thesis by (auto simp: accept_inv_def serve_accept_error_def split: if_splits)
  next
    case (step_register t l c)
    have "held s' = held s - {c}"
      by (rule held_release [OF step_register(2), where pc' = "case sv_serves s' t of Some pc \<Rightarrow> pc"])
        (simp_all add: step_register(1) serve_register_def uniq)
    moreover have "c \<in> held s" using step_register by (auto simp: held_def)
    ultimately show ?thesis
      using a step_register register_fresh [OF assms(2) step_register(2)]
      by (auto simp: accept_inv_def serve_register_def split: if_splits)
  next
    case (step_leave t l e)
    have "held s' = held s"
      by (rule held_update [OF step_leave(2), where pc' = "Returned e"])
        (simp_all add: step_leave(1) serve_leave_def)
    with a step_leave show ?thesis by (auto simp: accept_inv_def serve_leave_def split: if_splits)
  next
    case (step_remove c)
    then have "held s' = held s" by (intro held_same) (simp add: conn_remove_def)
    with step_remove show ?thesis using a by (auto simp: accept_inv_def conn_remove_def)
  next
    case (step_done c)
    then have "held s' = held s" by (intro held_same) (simp add: conn_done_def)
    with step_done show ?thesis using a by (auto simp: accept_inv_def conn_done_def)
  next
    case (step_close_conn t cs c)
    then have "shutdown_ok s (Closing None cs)" using shutdown_invD [OF d] by blast
    then have "c \<in> sv_serving s \<union> sv_closed s" using step_close_conn by auto
    moreover have "held s' = held s" using step_close_conn by (intro held_same) (simp add: shutdown_close_conn_def)
    ultimately show ?thesis using a step_close_conn by (auto simp: accept_inv_def shutdown_close_conn_def)
  qed (use a held_same [of s' s] in \<open>simp_all add: accept_inv_def service_step_defs\<close>)
qed

text \<open>While the service is closing, what is served only shrinks and what is closed only grows.\<close>

definition drains :: "service \<Rightarrow> service \<Rightarrow> bool" where
  "drains s s' \<longleftrightarrow> sv_closing s' \<and> sv_serving s' \<subseteq> sv_serving s \<and> sv_closed s \<subseteq> sv_closed s'
     \<and> sv_serving s' \<union> sv_done s' \<subseteq> sv_serving s \<union> sv_done s
     \<and> sv_serving s \<union> sv_closed s \<subseteq> sv_serving s' \<union> sv_closed s'"

lemma drains_ok: "drains s s' \<Longrightarrow> shutdown_ok s pc \<Longrightarrow> shutdown_ok s' pc"
  unfolding drains_def by (cases pc) (simp_all, blast+)

lemma step_drains: "service_step s s' \<Longrightarrow> sv_closing s \<Longrightarrow> drains s s'"
  by (cases rule: service_step.cases) (auto simp: drains_def service_step_defs)

lemma shutdown_inv_step:
  assumes "shutdown_inv s" and "sv_closing s \<Longrightarrow> drains s s'" and "sv_closing s \<or> (\<forall>t. sv_shutdowns s t = None)"
    and "sv_shutdowns s' = sv_shutdowns s \<or> (\<exists>t pc. sv_shutdowns s' = (sv_shutdowns s)(t \<mapsto> pc) \<and> shutdown_ok s' pc \<and> sv_closing s')"
  shows "shutdown_inv s'"
  using assms drains_ok [of s s'] unfolding shutdown_inv_def
  by (fastforce simp: drains_def split: if_splits)

lemma step_shutdown_inv:
  assumes "service_step s s'" and "service_inv s"
  shows "shutdown_inv s'"
proof -
  have c: "count_inv s" and d: "shutdown_inv s" using assms(2) by (simp_all add: service_inv_def)
  have none: "sv_closing s \<or> (\<forall>t. sv_shutdowns s t = None)" using d by (auto simp: shutdown_inv_def)
  have keep: "sv_shutdowns s' = sv_shutdowns s \<or>
      (\<exists>t pc. sv_shutdowns s' = (sv_shutdowns s)(t \<mapsto> pc) \<and> shutdown_ok s' pc \<and> sv_closing s') \<Longrightarrow> shutdown_inv s'"
    by (rule shutdown_inv_step [OF d step_drains [OF assms(1)] none])
  have ok: "shutdown_ok s pc \<and> sv_closing s" if "sv_shutdowns s t = Some pc" for t pc
    using shutdown_invD [OF d that] by blast
  from assms(1) show ?thesis
  proof (cases rule: service_step.cases)
    case (step_shutdown t)
    with c show ?thesis
      by (intro keep disjI2 exI [of _ t] exI [of _ "Closing (sv_listener s) (sv_conns s)"])
        (auto simp: shutdown_enter_def count_inv_def)
  next
    case (step_close_listener t l cs)
    with ok [OF step_close_listener(2)] show ?thesis
      by (intro keep disjI2 exI [of _ t] exI [of _ "Closing None cs"]) (auto simp: shutdown_close_listener_def)
  next
    case (step_close_conn t cs k)
    with ok [OF step_close_conn(2)] show ?thesis
      by (intro keep disjI2 exI [of _ t] exI [of _ "Closing None (cs - {k})"])
        (auto simp: shutdown_close_conn_def)
  next
    case (step_cancel t)
    with ok [OF step_cancel(2)] show ?thesis
      by (intro keep disjI2 exI [of _ t] exI [of _ Waiting]) (auto simp: shutdown_cancel_def)
  next
    case (step_finished t)
    with ok [OF step_finished(2)] c show ?thesis
      by (intro keep disjI2 exI [of _ t] exI [of _ Finished]) (auto simp: shutdown_end_def count_inv_def)
  next
    case (step_gave_up t)
    with ok [OF step_gave_up(2)] show ?thesis
      by (intro keep disjI2 exI [of _ t] exI [of _ Gave_Up]) (auto simp: shutdown_end_def)
  qed (use keep [OF disjI1] in \<open>simp_all add: service_step_defs split: if_splits\<close>)
qed

lemma step_service_inv: "service_step s s' \<Longrightarrow> service_inv s \<Longrightarrow> service_inv s'"
  using step_count_inv step_accept_inv step_shutdown_inv by (simp add: service_inv_def)

lemma new_service_inv: "service_inv new_service"
  by (simp add: service_inv_def count_inv_def accept_inv_def shutdown_inv_def new_service_def held_def)

lemma run_service_inv: "service_run s s' \<Longrightarrow> service_inv s \<Longrightarrow> service_inv s'"
  by (induction rule: service_run.induct) (auto intro: step_service_inv)


section \<open>Properties\<close>

lemma finished_stable:
  "service_run s s' \<Longrightarrow> service_inv s \<Longrightarrow> sv_shutdowns s t = Some Finished \<Longrightarrow> sv_shutdowns s' t = Some Finished"
proof (induction rule: service_run.induct)
  case (service_run_step s s1 s2)
  then have "sv_shutdowns s1 t = Some Finished" by blast
  with service_run_step.hyps(2) show ?case
    by (cases rule: service_step.cases) (auto simp: service_step_defs)
qed

lemma finished_empty:
  assumes "service_inv s" and "sv_shutdowns s t = Some Finished"
  shows "sv_serving s = {} \<and> sv_done s = {} \<and> sv_conns s = {} \<and> sv_wg s = 0 \<and> sv_closing s
    \<and> {..<sv_accepted s} = sv_closed s \<union> held s"
proof -
  have "shutdown_ok s Finished" "sv_closing s" using assms shutdown_invD [of s t Finished] unfolding service_inv_def by blast+
  then show ?thesis using assms(1) by (auto simp: service_inv_def count_inv_def accept_inv_def)
qed

text \<open>
  C13. When \<open>Shutdown\<close> reports that it is done, no goroutine serves a connection any more and none is
  registered, and this stays so whatever happens afterwards.  Every connection the service ever accepted is
  closed, but for one that a \<open>Serve\<close> call accepted and has not looked at yet: the next step of that call closes it
  without serving it.  Once no call of \<open>Serve\<close> holds a connection, all are closed.
\<close>

theorem shutdown_leaves_nothing_running:
  assumes "service_run new_service s" and "sv_shutdowns s t = Some Finished" and "service_run s s'"
  shows "sv_serving s' = {} \<and> sv_conns s' = {} \<and> sv_wg s' = 0 \<and> sv_closing s'
    \<and> {..<sv_accepted s'} = sv_closed s' \<union> held s'
    \<and> (\<forall>t l c. sv_serves s' t = Some (Holding l c) \<longrightarrow>
         service_step s' (serve_register t l c s') \<and> c \<in> sv_closed (serve_register t l c s')
         \<and> sv_serving (serve_register t l c s') = {} \<and> sv_serves (serve_register t l c s') t = Some (Leaving l Server_Closed))
    \<and> (held s' = {} \<longrightarrow> sv_closed s' = {..<sv_accepted s'})"
proof -
  have inv: "service_inv s" by (rule run_service_inv [OF assms(1) new_service_inv])
  from finished_empty [OF run_service_inv [OF assms(3) inv] finished_stable [OF assms(3) inv assms(2)]]
  have quiet: "sv_serving s' = {} \<and> sv_conns s' = {} \<and> sv_wg s' = 0 \<and> sv_closing s'
    \<and> {..<sv_accepted s'} = sv_closed s' \<union> held s'" by blast
  moreover have "service_step s' (serve_register t l c s') \<and> c \<in> sv_closed (serve_register t l c s')
      \<and> sv_serving (serve_register t l c s') = {} \<and> sv_serves (serve_register t l c s') t = Some (Leaving l Server_Closed)"
    if "sv_serves s' t = Some (Holding l c)" for t l c
    using step_register [of s' t l c, OF that] quiet by (simp add: serve_register_def)
  moreover have "held s' = {} \<longrightarrow> sv_closed s' = {..<sv_accepted s'}" using quiet by auto
  ultimately show ?thesis by blast
qed

text \<open>
  In every reachable state the wait group counts exactly the goroutines that have not
  finished, the registered connections are those being served, no two \<open>Serve\<close> calls hold the same
  connection, and once \<open>Shutdown\<close> is waiting every connection still served has been closed, so that
  its goroutine ends at its next read or write.
\<close>

theorem service_is_consistent:
  assumes "service_run new_service s"
  shows "sv_wg s = card (sv_serving s) + card (sv_done s) \<and> sv_conns s = sv_serving s
    \<and> (\<forall>t t' l l' c. sv_serves s t = Some (Holding l c) \<longrightarrow> sv_serves s t' = Some (Holding l' c) \<longrightarrow> t = t')
    \<and> (\<forall>t. sv_shutdowns s t = Some Waiting \<longrightarrow> sv_serving s \<subseteq> sv_closed s)"
proof -
  have inv: "service_inv s" by (rule run_service_inv [OF assms new_service_inv])
  then have "sv_shutdowns s t = Some Waiting \<Longrightarrow> sv_serving s \<subseteq> sv_closed s" for t
    using shutdown_invD [of s t Waiting] by (simp add: service_inv_def)
  moreover have "count_inv s" "accept_inv s" using inv by (simp_all add: service_inv_def)
  ultimately show ?thesis unfolding count_inv_def accept_inv_def by blast
qed

text \<open>A run: a connection is accepted and registered, then \<open>Shutdown\<close> closes it and waits for its end.\<close>

definition sample_service :: service where
  "sample_service = shutdown_end 0 Finished (conn_done 0 (conn_remove 0 (shutdown_cancel 0
     (shutdown_close_conn 0 0 {0} (shutdown_close_listener 0 9 {0} (shutdown_enter 0
     (serve_register 0 9 0 (serve_accept 0 9 (serve_enter 0 9 new_service)))))))))"

lemma sample_service_run: "service_run new_service sample_service"
  unfolding sample_service_def
  by (rule service_run_step [OF _ step_finished] service_run_step [OF _ step_done]
        service_run_step [OF _ step_remove] service_run_step [OF _ step_cancel]
        service_run_step [OF _ step_close_conn] service_run_step [OF _ step_close_listener]
        service_run_step [OF _ step_shutdown] service_run_step [OF _ step_register]
        service_run_step [OF _ step_accept] service_run_step [OF _ step_enter] service_run_refl)+
     (simp_all add: service_step_defs new_service_def)

lemma sample_finished: "sv_shutdowns sample_service 0 = Some Finished"
  by (simp add: sample_service_def shutdown_end_def)

theorem shutdown_leaves_nothing_running_witness:
  "sv_wg sample_service = 0"
  using shutdown_leaves_nothing_running [OF sample_service_run sample_finished service_run_refl] by simp

theorem service_is_consistent_witness:
  "sv_conns sample_service = sv_serving sample_service"
  using service_is_consistent [OF sample_service_run] by simp

end
