(* ===== verification/Mime_Types.thy ===== *)
theory Mime_Types
  imports Go_Mime
begin

text \<open>
  \<open>internal/mimeparse/types.go\<close>: limits, ranges, header fields, physical lines, the tree of MIME
  parts, and the document.

  The message library \<open>go-message\<close> is outside the repository.  Its header type is the parameter
  \<open>'h\<close>, its errors are \<open>'e\<close>, and what the parser calls of it is the record \<open>mime_lib\<close>.  An entity
  is the value its readers yield: its header, the bytes of its body with the error that ended them,
  and the results of \<open>NextPart\<close> up to \<open>io.EOF\<close> when it has a multipart reader.

  A node is its own data and its children.  The map \<open>rawIndex.meta\<close>, which holds one flag per indexed
  node, is a field of the node.
\<close>

record limits =
  max_raw_bytes :: int
  max_depth :: int
  max_parts :: int
  max_header_fields :: int
  max_header_bytes :: int
  max_physical_lines :: int

definition no_limits :: limits where
  "no_limits = \<lparr>max_raw_bytes = 0, max_depth = 0, max_parts = 0, max_header_fields = 0,
     max_header_bytes = 0, max_physical_lines = 0\<rparr>"

definition inspection_limits :: limits where
  "inspection_limits = \<lparr>max_raw_bytes = 26214400, max_depth = 64, max_parts = 4096, max_header_fields = 4096,
     max_header_bytes = 1048576, max_physical_lines = 200000\<rparr>"

record byte_range =
  br_start :: int
  br_end :: int

definition range_of :: "int \<Rightarrow> int \<Rightarrow> byte_range" where
  "range_of a b = \<lparr>br_start = a, br_end = b\<rparr>"

lemma range_of_simps [simp]: "br_start (range_of a b) = a" "br_end (range_of a b) = b"
  by (simp_all add: range_of_def)

record header_field =
  hf_name :: bytes
  hf_raw_field :: byte_range
  hf_raw_value :: byte_range
  hf_first_line :: int
  hf_last_line :: int

record physical_line =
  pl_raw :: byte_range
  pl_terminator :: bytes

record ('h, 'e) node_info =
  nd_path :: bytes
  nd_header :: 'h
  nd_header_fields :: "header_field list"
  nd_raw_header :: byte_range
  nd_raw_body :: byte_range
  nd_decoded_raw :: "bytes option"
  nd_boundary_delimiters :: "byte_range list"
  nd_media_type :: bytes
  nd_media_params :: params
  nd_transfer_encoding :: bytes
  nd_disposition :: bytes
  nd_disposition_params :: params
  nd_decoded_body :: bytes
  nd_decode_error :: "'e option"
  nd_malformed_content_type :: bool
  nd_malformed_disposition :: bool
  nd_boundary_closed :: bool
  nd_complete :: bool

datatype ('h, 'e) node = Node (info: "('h, 'e) node_info") (children: "('h, 'e) node list")

text \<open>A node with nothing but a path and a header.\<close>

definition blank_info :: "bytes \<Rightarrow> 'h \<Rightarrow> ('h, 'e) node_info" where
  "blank_info path h = \<lparr>nd_path = path, nd_header = h, nd_header_fields = [], nd_raw_header = range_of 0 0,
     nd_raw_body = range_of 0 0, nd_decoded_raw = None, nd_boundary_delimiters = [], nd_media_type = [],
     nd_media_params = [], nd_transfer_encoding = [], nd_disposition = [], nd_disposition_params = [],
     nd_decoded_body = [], nd_decode_error = None, nd_malformed_content_type = False,
     nd_malformed_disposition = False, nd_boundary_closed = False, nd_complete = False\<rparr>"

text \<open>All nodes of a tree, a node before its children and the children in order.\<close>

fun nodes :: "('h, 'e) node \<Rightarrow> ('h, 'e) node list" where
  "nodes (Node i cs) = Node i cs # concat (map nodes cs)"

fun height :: "('h, 'e) node \<Rightarrow> nat" where
  "height (Node i cs) = Suc (fold max (map height cs) 0)"

lemma nodes_self [simp]: "n \<in> set (nodes n)"
  by (cases n) simp

lemma nodes_child: "c \<in> set (children n) \<Longrightarrow> set (nodes c) \<subseteq> set (nodes n)"
  by (cases n) auto

lemma size_child [termination_simp]: "c \<in> set (children n) \<Longrightarrow> size c < size n"
  by (cases n) (auto simp: less_Suc_eq_le size_list_estimation')

record ('h, 'e) attachment_candidate =
  ac_node :: "('h, 'e) node"
  ac_expose_content_id :: bool

record ('h, 'e) presentation =
  pr_text :: "('h, 'e) node option"
  pr_html :: "('h, 'e) node option"
  pr_attachments :: "('h, 'e) attachment_candidate list"
  pr_supported :: bool

definition no_presentation :: "('h, 'e) presentation" where
  "no_presentation = \<lparr>pr_text = None, pr_html = None, pr_attachments = [], pr_supported = False\<rparr>"

text \<open>Errors: those of the library, and those the parser makes.\<close>

datatype 'e mime_err =
    Library 'e
  | Incomplete_Header
  | Nil_Entity
  | Nil_Encapsulated
  | Too_Deep bytes
  | Incomplete_Multipart bytes
  | Incomplete_Part bytes nat

datatype invariant_err =
    Path_Mismatch bytes bytes
  | Type_Mismatch bytes bytes bytes
  | Count_Mismatch nat nat bytes
  | No_Raw_Node nat bytes

record ('h, 'e) document =
  doc_raw :: bytes
  doc_lines :: "physical_line list"
  doc_root :: "('h, 'e) node option"
  doc_presentation :: "('h, 'e) presentation"
  doc_semantic_error :: "'e mime_err option"
  doc_parsed_through :: "bytes option"
  doc_truncated :: bool
  doc_causes :: "bytes list"
  doc_semantic_skipped :: bool

section \<open>The message library\<close>

datatype ('h, 'e) entity =
  Entity (ent_header: 'h) (ent_body: bytes) (ent_body_error: "'e option")
    (ent_parts: "(('h, 'e) entity option \<times> 'e option) list option")

record ('h, 'e) mime_lib =
  ml_unicode :: unicode
  ml_words :: "bytes \<Rightarrow> bytes option"
  ml_zero_header :: 'h
  ml_get :: "'h \<Rightarrow> bytes \<Rightarrow> bytes"
  ml_content_type :: "'h \<Rightarrow> bytes \<times> params \<times> bool"
  ml_content_disposition :: "'h \<Rightarrow> bytes \<times> params \<times> bool"
  ml_unknown_charset :: "'e \<Rightarrow> bool"
  ml_unknown_encoding :: "'e \<Rightarrow> bool"
  ml_read :: "bytes \<Rightarrow> int \<Rightarrow> ('h, 'e) entity option \<times> 'e option"

text \<open>\<open>message.IsUnknownEncoding(err)\<close> and an error that is neither of the two, for a nilable error.\<close>

definition unsupported_encoding :: "('h, 'e) mime_lib \<Rightarrow> 'e option \<Rightarrow> bool" where
  "unsupported_encoding L e \<longleftrightarrow> (case e of None \<Rightarrow> False | Some x \<Rightarrow> ml_unknown_encoding L x)"

definition fatal :: "('h, 'e) mime_lib \<Rightarrow> 'e option \<Rightarrow> bool" where
  "fatal L e \<longleftrightarrow>
     (case e of None \<Rightarrow> False | Some x \<Rightarrow> \<not> ml_unknown_charset L x \<and> \<not> ml_unknown_encoding L x)"

section \<open>Media types\<close>

text \<open>\<open>isEncapsulatedMessage\<close> and \<open>isIdentityTransferEncoding\<close> of \<open>parse.go\<close>.\<close>

definition is_encapsulated :: "unicode \<Rightarrow> bytes \<Rightarrow> bool" where
  "is_encapsulated u media_type \<longleftrightarrow>
     equal_fold u media_type ''message/rfc822'' \<or> equal_fold u media_type ''message/global''"

definition is_identity_encoding :: "unicode \<Rightarrow> bytes \<Rightarrow> bool" where
  "is_identity_encoding u encoding \<longleftrightarrow>
     to_lower u (trim_space encoding) \<in> {[], ''7bit'', ''8bit'', ''binary''}"

text \<open>\<open>itoa\<close> of \<open>index.go\<close>: the digits of a part number, filled in from the last.\<close>

function part_digits :: "nat \<Rightarrow> bytes \<Rightarrow> bytes" where
  "part_digits v buffer = (if v = 0 then buffer else part_digits (v div 10) (chr (48 + v mod 10) # buffer))"
  by pat_completeness auto
termination
  by (relation "measure fst") auto

declare part_digits.simps [simp del]

definition part_number :: "nat \<Rightarrow> bytes" where
  "part_number v = (if v = 0 then ''0'' else part_digits v [])"

lemma part_digits_eq: "0 < v \<Longrightarrow> part_digits v buffer = nat_digits v @ buffer"
proof (induction v arbitrary: buffer rule: less_induct)
  case (less v)
  show ?case
  proof (cases "v < 10")
    case True
    with less.prems show ?thesis by (simp add: part_digits.simps [of v] part_digits.simps [of 0] nat_digits.simps [of v])
  next
    case False
    have "part_digits v buffer = part_digits (v div 10) (chr (48 + v mod 10) # buffer)"
      using less.prems by (simp add: part_digits.simps [of v])
    also have "\<dots> = nat_digits (v div 10) @ chr (48 + v mod 10) # buffer"
      using False less.IH [of "v div 10"] by simp
    finally show ?thesis using False by (simp add: nat_digits.simps [of v])
  qed
qed

lemma part_number_itoa: "part_number v = itoa (int v)"
  by (cases "v = 0") (simp_all add: part_number_def part_digits_eq itoa_def nat_digits.simps [of 0] chr_eval)

lemma part_number_inject: "part_number a = part_number b \<longleftrightarrow> a = b"
  by (metis part_number_itoa itoa_def nat_int of_nat_less_0_iff parse_nat_digits option.inject)

end
