(* ===== verification/Mime_Index.thy ===== *)
theory Mime_Index
  imports Mime_Types
begin

text \<open>
  \<open>internal/mimeparse/index.go\<close>: the index of the raw bytes of a message.  Physical lines, then the
  tree of entities found by looking for blank lines and boundary lines, under the limits.

  The immutable part of \<open>rawIndex\<close> (the bytes, the lines, how far they were indexed, the limits) is
  \<open>raw_index\<close>; the counters and the set of causes are \<open>index_state\<close> and are threaded through, so
  that indexing a decoded message continues the counters of the message that encloses it.
\<close>

record raw_index =
  ri_raw :: bytes
  ri_lines :: "physical_line list"
  ri_indexed_end :: int
  ri_complete :: bool
  ri_limits :: limits

record index_state =
  ist_header_fields :: int
  ist_header_bytes :: int
  ist_parts :: int
  ist_decoded_lines :: int
  ist_causes :: "bytes set"

definition new_index_state :: index_state where
  "new_index_state = \<lparr>ist_header_fields = 0, ist_header_bytes = 0, ist_parts = 0, ist_decoded_lines = 0,
     ist_causes = {}\<rparr>"

definition add_cause :: "bytes \<Rightarrow> index_state \<Rightarrow> index_state" where
  "add_cause c st = st\<lparr>ist_causes := insert c (ist_causes st)\<rparr>"

definition slice :: "bytes \<Rightarrow> int \<Rightarrow> int \<Rightarrow> bytes" where
  "slice s a b = take (nat (b - a)) (drop (nat a) s)"

section \<open>Physical lines\<close>

lemma dropWhile_pred_shorter: "s \<noteq> [] \<Longrightarrow> length (dropWhile P s) - Suc 0 < length s"
  using length_dropWhile_le [of P s] by (cases s) (auto intro: le_less_trans)

text \<open>
  The loop of \<open>scanLines\<close> over the bytes from \<open>position\<close> on: the lines, the end of the indexed
  prefix, and whether the limit on lines stopped it.
\<close>

function scan_loop ::
  "int \<Rightarrow> bool \<Rightarrow> int \<Rightarrow> bytes \<Rightarrow> physical_line list \<Rightarrow> int \<Rightarrow> physical_line list \<times> int \<times> bool" where
  "scan_loop limit eof position rest lines indexed =
     (if rest = [] then (lines, indexed, False)
      else if 0 < limit \<and> limit \<le> int (length lines) then (lines, indexed, True)
      else
        (let content = takeWhile (\<lambda>c. c \<noteq> LF) rest;
             after = dropWhile (\<lambda>c. c \<noteq> LF) rest;
             lf = position + int (length content) in
         if after = [] then
           (if \<not> eof then (lines, indexed, False)
            else (lines @ [\<lparr>pl_raw = range_of position lf, pl_terminator = ''EOF''\<rparr>], lf, False))
         else if content \<noteq> [] \<and> last content = CR then
           scan_loop limit eof (lf + 1) (tl after)
             (lines @ [\<lparr>pl_raw = range_of position (lf - 1), pl_terminator = ''CRLF''\<rparr>]) (lf + 1)
         else
           scan_loop limit eof (lf + 1) (tl after)
             (lines @ [\<lparr>pl_raw = range_of position lf, pl_terminator = ''LF''\<rparr>]) (lf + 1)))"
  by pat_completeness auto
termination
  by (relation "measure (\<lambda>(l, e, p, rest, ls, i). length rest)") (auto simp: dropWhile_pred_shorter)

declare scan_loop.simps [simp del]

definition scan_lines :: "limits \<Rightarrow> bytes \<Rightarrow> int \<Rightarrow> bool \<Rightarrow> physical_line list \<times> int \<times> bool" where
  "scan_lines lim raw end' eof = scan_loop (max_physical_lines lim) eof 0 (take (nat end') raw) [] 0"

text \<open>\<open>lineAtOrAfter\<close>: a binary search.\<close>

function line_search :: "physical_line list \<Rightarrow> int \<Rightarrow> nat \<Rightarrow> nat \<Rightarrow> nat" where
  "line_search lines offset low high =
     (if low < high then
        (let middle = low + (high - low) div 2 in
         if br_start (pl_raw (lines ! middle)) < offset then line_search lines offset (middle + 1) high
         else line_search lines offset low middle)
      else low)"
  by pat_completeness auto
termination
  by (relation "measure (\<lambda>(ls, off, low, high). high - low)") auto

declare line_search.simps [simp del]

definition line_at_or_after :: "raw_index \<Rightarrow> int \<Rightarrow> nat" where
  "line_at_or_after ix offset = line_search (ri_lines ix) offset 0 (length (ri_lines ix))"

definition line_start :: "raw_index \<Rightarrow> nat \<Rightarrow> int" where
  "line_start ix n = br_start (pl_raw (ri_lines ix ! n))"

definition line_stop :: "raw_index \<Rightarrow> nat \<Rightarrow> int" where
  "line_stop ix n = br_end (pl_raw (ri_lines ix ! n))"

definition full_line_end :: "raw_index \<Rightarrow> nat \<Rightarrow> int" where
  "full_line_end ix n =
     (if n + 1 < length (ri_lines ix) then line_start ix (n + 1) else ri_indexed_end ix)"

definition line_content :: "raw_index \<Rightarrow> nat \<Rightarrow> bytes" where
  "line_content ix n = slice (ri_raw ix) (line_start ix n) (line_stop ix n)"

text \<open>The line numbers of a loop that starts at an offset.\<close>

definition lines_from :: "raw_index \<Rightarrow> int \<Rightarrow> nat list" where
  "lines_from ix start = [line_at_or_after ix start..<length (ri_lines ix)]"

section \<open>Headers\<close>

text \<open>The first blank line before \<open>end\<close>: where the header ends and where the body starts.\<close>

fun header_end_loop :: "raw_index \<Rightarrow> int \<Rightarrow> nat list \<Rightarrow> (int \<times> int) option" where
  "header_end_loop ix end' [] = None"
| "header_end_loop ix end' (n # ns) =
     (if end' \<le> line_start ix n then None
      else if line_stop ix n = line_start ix n then Some (line_start ix n, full_line_end ix n)
      else header_end_loop ix end' ns)"

definition extend_last :: "int \<Rightarrow> nat \<Rightarrow> header_field list \<Rightarrow> header_field list" where
  "extend_last stop n fs =
     (if fs = [] then []
      else butlast fs @
        [(last fs)\<lparr>hf_raw_field := range_of (br_start (hf_raw_field (last fs))) stop,
                   hf_raw_value := range_of (br_start (hf_raw_value (last fs))) stop,
                   hf_last_line := int n + 1\<rparr>])"

fun header_fields_loop :: "raw_index \<Rightarrow> int \<Rightarrow> nat list \<Rightarrow> header_field list \<Rightarrow> header_field list" where
  "header_fields_loop ix header_end [] fs = fs"
| "header_fields_loop ix header_end (n # ns) fs =
     (if header_end \<le> line_start ix n then fs
      else
        (let content = line_content ix n; stop = full_line_end ix n in
         if content \<noteq> [] \<and> hd content \<in> {CHR '' '', TAB} then
           header_fields_loop ix header_end ns (extend_last stop n fs)
         else
           (case index_byte (\<lambda>c. c = CHR '':'') content of
              None \<Rightarrow> header_fields_loop ix header_end ns fs
            | Some colon \<Rightarrow>
                header_fields_loop ix header_end ns
                  (fs @ [\<lparr>hf_name = take colon content,
                          hf_raw_field = range_of (line_start ix n) stop,
                          hf_raw_value = range_of (line_start ix n + int colon + 1) stop,
                          hf_first_line = int n + 1, hf_last_line = int n + 1\<rparr>]))))"

definition header_fields_in :: "raw_index \<Rightarrow> int \<Rightarrow> int \<Rightarrow> header_field list" where
  "header_fields_in ix start header_end = header_fields_loop ix header_end (lines_from ix start) []"

fun unfold_value :: "bytes \<Rightarrow> bytes \<Rightarrow> bytes" where
  "unfold_value [] val = val"
| "unfold_value (b # raw) val =
     (if b = CR \<or> b = LF then
        unfold_value raw (if val = [] \<or> last val \<noteq> CHR '' '' then val @ '' '' else val)
      else unfold_value raw (val @ [b]))"

definition unfolded_header_value :: "raw_index \<Rightarrow> header_field \<Rightarrow> bytes" where
  "unfolded_header_value ix field =
     (let raw = trim_right_set [CR, LF]
                  (slice (ri_raw ix) (br_start (hf_raw_value field)) (br_end (hf_raw_value field))) in
      if \<not> contains_any [CR, LF] raw then trim_space raw else trim_space (unfold_value raw []))"

text \<open>The first value of each of the three headers the index reads.\<close>

record header_values =
  hv_content_type :: "bytes option"
  hv_disposition :: "bytes option"
  hv_transfer_encoding :: "bytes option"

definition read_header_field ::
  "unicode \<Rightarrow> raw_index \<Rightarrow> header_field \<Rightarrow> header_values \<Rightarrow> header_values" where
  "read_header_field u ix field hv =
     (let name = trim_space (hf_name field) in
      if hv_content_type hv = None \<and> equal_fold u name ''content-type''
      then hv\<lparr>hv_content_type := Some (unfolded_header_value ix field)\<rparr>
      else if hv_disposition hv = None \<and> equal_fold u name ''content-disposition''
      then hv\<lparr>hv_disposition := Some (unfolded_header_value ix field)\<rparr>
      else if hv_transfer_encoding hv = None \<and> equal_fold u name ''content-transfer-encoding''
      then hv\<lparr>hv_transfer_encoding := Some (unfolded_header_value ix field)\<rparr>
      else hv)"

fun entity_header_loop :: "unicode \<Rightarrow> raw_index \<Rightarrow> header_field list \<Rightarrow> header_values \<Rightarrow> header_values" where
  "entity_header_loop u ix [] hv = hv"
| "entity_header_loop u ix (f # fs) hv =
     (let hv = read_header_field u ix f hv in
      if hv_content_type hv \<noteq> None \<and> hv_disposition hv \<noteq> None \<and> hv_transfer_encoding hv \<noteq> None then hv
      else entity_header_loop u ix fs hv)"

definition entity_header_values :: "unicode \<Rightarrow> raw_index \<Rightarrow> header_field list \<Rightarrow> header_values" where
  "entity_header_values u ix fs =
     entity_header_loop u ix fs \<lparr>hv_content_type = None, hv_disposition = None, hv_transfer_encoding = None\<rparr>"

definition decode_header_value :: "('h, 'e) mime_lib \<Rightarrow> bytes \<Rightarrow> bytes" where
  "decode_header_value L val = (case ml_words L val of None \<Rightarrow> val | Some d \<Rightarrow> d)"

section \<open>Boundaries\<close>

text \<open>Whether a line is a boundary line, and if so whether it is the closing one.\<close>

definition boundary_line :: "bytes \<Rightarrow> bytes \<Rightarrow> bool option" where
  "boundary_line boundary content =
     (let prefix = ''--'' @ boundary in
      if \<not> has_prefix content prefix then None
      else
        (let rest = drop (length prefix) content;
             closing = has_prefix rest ''--'';
             rest = (if closing then drop 2 rest else rest) in
         if trim_set [CHR '' '', TAB] rest \<noteq> [] then None else Some closing))"

fun boundary_loop :: "raw_index \<Rightarrow> int \<Rightarrow> bytes \<Rightarrow> nat list \<Rightarrow> (nat \<times> bool) list" where
  "boundary_loop ix end' boundary [] = []"
| "boundary_loop ix end' boundary (n # ns) =
     (if end' \<le> line_start ix n then []
      else
        (case boundary_line boundary (line_content ix n) of
           None \<Rightarrow> boundary_loop ix end' boundary ns
         | Some closing \<Rightarrow> (n, closing) # boundary_loop ix end' boundary ns))"

definition boundary_lines :: "raw_index \<Rightarrow> int \<Rightarrow> int \<Rightarrow> bytes \<Rightarrow> (nat \<times> bool) list" where
  "boundary_lines ix start end' boundary = boundary_loop ix end' boundary (lines_from ix start)"

definition trim_boundary_prefix :: "bytes \<Rightarrow> int \<Rightarrow> int \<Rightarrow> int" where
  "trim_boundary_prefix raw start end' =
     (if start + 2 \<le> end' \<and> raw ! nat (end' - 2) = CR \<and> raw ! nat (end' - 1) = LF then end' - 2
      else if start < end' \<and> (raw ! nat (end' - 1) = CR \<or> raw ! nat (end' - 1) = LF) then end' - 1
      else end')"

section \<open>Entities\<close>

text \<open>The parsed \<open>Content-Type\<close> and \<open>Content-Disposition\<close>, with defaults for absent or malformed ones.\<close>

definition index_content_type ::
  "('h, 'e) mime_lib \<Rightarrow> bool \<Rightarrow> bytes option \<Rightarrow> bytes \<times> params \<times> bool" where
  "index_content_type L digest_child val =
     (let default = (if digest_child then ''message/rfc822'' else ''text/plain'') in
      case val of
        None \<Rightarrow> (default, [], False)
      | Some v \<Rightarrow>
          (let (typ, ps, ok) = parse_media_type (ml_unicode L) v in
           if \<not> ok then (default, [], True)
           else (to_lower (ml_unicode L) typ, map (\<lambda>(k, v). (k, decode_header_value L v)) ps, False)))"

definition index_disposition :: "unicode \<Rightarrow> bytes option \<Rightarrow> bytes \<times> params \<times> bool" where
  "index_disposition u val =
     (case val of
        None \<Rightarrow> ([], [], False)
      | Some v \<Rightarrow>
          (let (typ, ps, ok) = parse_media_type u v in
           if \<not> ok then (to_lower u typ, [], True) else (to_lower u typ, ps, False)))"

text \<open>The node without its children, boundaries and completeness.\<close>

definition index_info ::
  "('h, 'e) mime_lib \<Rightarrow> raw_index \<Rightarrow> bytes \<Rightarrow> bool \<Rightarrow> header_field list \<Rightarrow> byte_range \<Rightarrow> byte_range
     \<Rightarrow> ('h, 'e) node_info" where
  "index_info L ix path digest_child fs header body =
     (let u = ml_unicode L; hv = entity_header_values u ix fs;
          (media_type, media_params, bad_type) = index_content_type L digest_child (hv_content_type hv);
          (disposition, disposition_params, bad_disposition) = index_disposition u (hv_disposition hv);
          encoding = (case hv_transfer_encoding hv of None \<Rightarrow> [] | Some v \<Rightarrow> v) in
      (blank_info path (ml_zero_header L))
        \<lparr>nd_header_fields := fs, nd_raw_header := header, nd_raw_body := body,
         nd_media_type := media_type, nd_media_params := media_params,
         nd_transfer_encoding := to_lower u (trim_space encoding),
         nd_disposition := disposition, nd_disposition_params := disposition_params,
         nd_malformed_content_type := bad_type, nd_malformed_disposition := bad_disposition\<rparr>)"

text \<open>
  The result of \<open>parseEntity\<close>: the node, if there is one, and whether it is complete.  The outer
  option is \<open>None\<close> when the depth of the recursion exceeds the fuel.
\<close>

type_synonym ('h, 'e) entity_result = "((('h, 'e) node option \<times> bool) \<times> index_state) option"

type_synonym ('h, 'e) entity_parser =
  "int \<Rightarrow> int \<Rightarrow> bytes \<Rightarrow> int \<Rightarrow> bool \<Rightarrow> index_state \<Rightarrow> ('h, 'e) entity_result"

text \<open>The loop over the boundary lines; \<open>parse\<close> is the recursive call.\<close>

fun parse_parts ::
  "('h, 'e) entity_parser \<Rightarrow> raw_index \<Rightarrow> int \<Rightarrow> bytes \<Rightarrow> int \<Rightarrow> bool \<Rightarrow> (nat \<times> bool) list \<Rightarrow> nat
     \<Rightarrow> index_state \<Rightarrow> ((('h, 'e) node list \<times> bool) \<times> index_state) option" where
  "parse_parts parse ix end' path depth digest [] k st = Some (([], True), st)"
| "parse_parts parse ix end' path depth digest ((n, closing) # ds) k st =
     (if closing then Some (([], True), st)
      else
        (let child_start = full_line_end ix n;
             child_end =
               (case ds of
                  [] \<Rightarrow> end'
                | d # _ \<Rightarrow> trim_boundary_prefix (ri_raw ix) child_start (line_start ix (fst d))) in
         case parse child_start child_end (path @ ''.'' @ part_number (Suc k)) (depth + 1) digest st of
           None \<Rightarrow> None
         | Some ((None, _), st') \<Rightarrow> Some (([], False), st')
         | Some ((Some c, complete), st') \<Rightarrow>
             if \<not> complete then Some (([c], False), st')
             else
               (case parse_parts parse ix end' path depth digest ds (Suc k) st' of
                  None \<Rightarrow> None
                | Some ((cs, complete), st'') \<Rightarrow> Some ((c # cs, complete), st''))))"

text \<open>The multipart block: the boundary ranges, the children, and whether all of it is there.\<close>

definition parse_multipart ::
  "('h, 'e) entity_parser \<Rightarrow> raw_index \<Rightarrow> ('h, 'e) node_info \<Rightarrow> int \<Rightarrow> int \<Rightarrow> int \<Rightarrow> index_state
     \<Rightarrow> ((('h, 'e) node_info \<times> ('h, 'e) node list \<times> bool) \<times> index_state) option" where
  "parse_multipart parse ix i body_start end' depth st =
     (let boundary = param (nd_media_params i) ''boundary'' in
      if \<not> has_prefix (nd_media_type i) ''multipart/'' \<or> boundary = [] then Some ((i, [], True), st)
      else
        (let ds = boundary_lines ix body_start end' boundary;
             i = i\<lparr>nd_boundary_delimiters := map (\<lambda>d. range_of (line_start ix (fst d)) (full_line_end ix (fst d))) ds,
                   nd_boundary_closed := list_ex snd ds\<rparr> in
         case parse_parts parse ix end' (nd_path i) depth (nd_media_type i = ''multipart/digest'') ds 0 st of
           None \<Rightarrow> None
         | Some ((cs, complete), st) \<Rightarrow>
             Some ((i, cs, complete \<and> ds \<noteq> [] \<and> nd_boundary_closed i), st)))"

text \<open>The encapsulated message of a part whose bytes are not encoded.\<close>

definition parse_encapsulated ::
  "unicode \<Rightarrow> ('h, 'e) entity_parser \<Rightarrow> ('h, 'e) node_info \<Rightarrow> int \<Rightarrow> int \<Rightarrow> int \<Rightarrow> index_state
     \<Rightarrow> ((('h, 'e) node list \<times> bool) \<times> index_state) option" where
  "parse_encapsulated u parse i body_start end' depth st =
     (if is_encapsulated u (nd_media_type i) \<and> is_identity_encoding u (nd_transfer_encoding i) then
        (case parse body_start end' (nd_path i @ ''.1'') (depth + 1) False st of
           None \<Rightarrow> None
         | Some ((None, _), st') \<Rightarrow> Some (([], False), st')
         | Some ((Some c, complete), st') \<Rightarrow> Some (([c], complete), st'))
      else Some (([], True), st))"

text \<open>The limits that are checked once the header is found; \<open>None\<close> when it fits.\<close>

definition header_over_limit :: "limits \<Rightarrow> index_state \<Rightarrow> int \<Rightarrow> int \<Rightarrow> bytes option" where
  "header_over_limit lim st block_bytes n_fields =
     (if 0 < max_header_bytes lim \<and> max_header_bytes lim < ist_header_bytes st + block_bytes
      then Some ''header bytes''
      else if 0 < max_header_fields lim \<and> max_header_fields lim < ist_header_fields st + n_fields
      then Some ''header fields''
      else None)"

definition account :: "int \<Rightarrow> int \<Rightarrow> index_state \<Rightarrow> index_state" where
  "account block_bytes n_fields st =
     st\<lparr>ist_header_bytes := ist_header_bytes st + block_bytes,
        ist_header_fields := ist_header_fields st + n_fields,
        ist_parts := ist_parts st + 1\<rparr>"

primrec parse_entity :: "nat \<Rightarrow> ('h, 'e) mime_lib \<Rightarrow> raw_index \<Rightarrow> ('h, 'e) entity_parser" where
  "parse_entity 0 L ix = (\<lambda>start end' path depth digest_child st. None)"
| "parse_entity (Suc fuel) L ix =
     (\<lambda>start end' path depth digest_child st.
       let lim = ri_limits ix in
       if 0 < max_depth lim \<and> max_depth lim < depth then Some ((None, False), add_cause ''MIME depth'' st)
       else if 0 < max_parts lim \<and> max_parts lim \<le> ist_parts st
       then Some ((None, False), add_cause ''MIME parts'' st)
       else
         (case header_end_loop ix end' (lines_from ix start) of
            None \<Rightarrow> Some ((None, False), st)
          | Some (header_end, body_start) \<Rightarrow>
              if end' < body_start then Some ((None, False), st)
              else
                (let fs = header_fields_in ix start header_end in
                 case header_over_limit lim st (body_start - start) (int (length fs)) of
                   Some cause \<Rightarrow> Some ((None, False), add_cause cause st)
                 | None \<Rightarrow>
                     (let st = account (body_start - start) (int (length fs)) st;
                          i = index_info L ix path digest_child fs (range_of start header_end)
                                (range_of body_start end');
                          here = end' \<le> ri_indexed_end ix \<and> (ri_complete ix \<or> end' < ri_indexed_end ix) in
                      case parse_multipart (parse_entity fuel L ix) ix i body_start end' depth st of
                        None \<Rightarrow> None
                      | Some ((i, parts, all_parts), st) \<Rightarrow>
                          (case parse_encapsulated (ml_unicode L) (parse_entity fuel L ix) i body_start end' depth st of
                             None \<Rightarrow> None
                           | Some ((inner, all_inner), st) \<Rightarrow>
                               (let complete = here \<and> all_parts \<and> all_inner in
                                Some ((Some (Node (i\<lparr>nd_complete := complete\<rparr>) (parts @ inner)), complete), st)))))))"

section \<open>Building the index\<close>

text \<open>
  A depth of \<open>Suc (length raw)\<close> is enough: an entity inside another starts after a blank line of it.
\<close>

definition index_root ::
  "('h, 'e) mime_lib \<Rightarrow> raw_index \<Rightarrow> bytes \<Rightarrow> int \<Rightarrow> index_state \<Rightarrow> (('h, 'e) node option \<times> index_state) option" where
  "index_root L ix path depth st =
     map_option (\<lambda>((root, complete), st). (root, st))
       (parse_entity (Suc (length (ri_raw ix))) L ix 0 (ri_indexed_end ix) path depth False st)"

definition mark_root :: "bool \<Rightarrow> ('h, 'e) node \<Rightarrow> ('h, 'e) node" where
  "mark_root complete n = Node ((info n)\<lparr>nd_complete := complete \<and> nd_complete (info n)\<rparr>) (children n)"

definition build_raw_index ::
  "('h, 'e) mime_lib \<Rightarrow> bytes \<Rightarrow> limits \<Rightarrow> (raw_index \<times> ('h, 'e) node option \<times> index_state) option" where
  "build_raw_index L raw lim =
     (let cut = 0 < max_raw_bytes lim \<and> max_raw_bytes lim < int (length raw);
          end' = (if cut then max_raw_bytes lim else int (length raw));
          (lines, indexed, over) = scan_lines lim raw end' (\<not> cut);
          st = (if cut then add_cause ''raw bytes'' new_index_state else new_index_state);
          st = (if over then add_cause ''physical lines'' st else st);
          ix = \<lparr>ri_raw = raw, ri_lines = lines, ri_indexed_end = indexed,
                ri_complete = (\<not> cut \<and> indexed = int (length raw)), ri_limits = lim\<rparr> in
      if cut \<or> raw = [] \<or> indexed = 0 then Some (ix, None, st)
      else map_option (\<lambda>(root, st). (ix, map_option (mark_root (ri_complete ix)) root, st)) (index_root L ix ''1'' 1 st))"

text \<open>\<open>node.DecodedRaw = raw\<close> for every node of a decoded message.\<close>

fun set_decoded_raw :: "bytes \<Rightarrow> ('h, 'e) node \<Rightarrow> ('h, 'e) node" where
  "set_decoded_raw raw (Node i cs) = Node (i\<lparr>nd_decoded_raw := Some raw\<rparr>) (map (set_decoded_raw raw) cs)"

text \<open>
  \<open>indexDecodedMessage\<close>: the counters continue those of the enclosing message (\<open>n_lines\<close> physical
  lines there), and what is left of the limit on lines is the limit of the decoded message.
\<close>

definition index_decoded_message ::
  "('h, 'e) mime_lib \<Rightarrow> limits \<Rightarrow> int \<Rightarrow> bytes \<Rightarrow> bytes \<Rightarrow> int \<Rightarrow> index_state
     \<Rightarrow> (raw_index \<times> ('h, 'e) node option \<times> index_state) option" where
  "index_decoded_message L lim n_lines raw path depth st =
     (let remaining = max_physical_lines lim - n_lines - ist_decoded_lines st;
          none = \<lparr>ri_raw = raw, ri_lines = [], ri_indexed_end = 0, ri_complete = False, ri_limits = lim\<rparr> in
      if 0 < max_physical_lines lim \<and> remaining \<le> 0
      then Some (none, None, add_cause ''physical lines'' st)
      else
        (let lim = (if 0 < max_physical_lines lim then lim\<lparr>max_physical_lines := remaining\<rparr> else lim);
             (lines, indexed, over) = scan_lines lim raw (int (length raw)) True;
             st' = (if over then add_cause ''physical lines'' st else st);
             ix = \<lparr>ri_raw = raw, ri_lines = lines, ri_indexed_end = indexed,
                   ri_complete = (indexed = int (length raw)), ri_limits = lim\<rparr>;
             counted = (\<lambda>st. st\<lparr>ist_decoded_lines := ist_decoded_lines st + int (length lines)\<rparr>) in
         if indexed = 0 then Some (ix, None, counted st')
         else
           map_option (\<lambda>(root, st). (ix, map_option (set_decoded_raw raw) root, counted st))
             (index_root L ix path depth st')))"

end
