(* ===== verification/Mime_Lines.thy ===== *)
theory Mime_Lines
  imports Mime_Index
begin

text \<open>
  The physical lines of the index: they are consecutive, they hold the bytes of the message, and the
  binary search finds the first line at or after an offset.
\<close>

section \<open>Lines are consecutive\<close>

definition terminator_bytes :: "bytes \<Rightarrow> bytes" where
  "terminator_bytes t = (if t = ''CRLF'' then CRLF else if t = ''LF'' then [LF] else [])"

definition line_limit :: "physical_line \<Rightarrow> int" where
  "line_limit l = br_end (pl_raw l) + int (length (terminator_bytes (pl_terminator l)))"

definition line_bytes :: "bytes \<Rightarrow> physical_line \<Rightarrow> bytes" where
  "line_bytes raw l = slice raw (br_start (pl_raw l)) (br_end (pl_raw l)) @ terminator_bytes (pl_terminator l)"

definition line_ok :: "bytes \<Rightarrow> physical_line \<Rightarrow> bool" where
  "line_ok raw l \<longleftrightarrow>
     (let a = br_start (pl_raw l); b = br_end (pl_raw l) in
      0 \<le> a \<and> a \<le> b \<and> a < line_limit l \<and> line_limit l \<le> int (length raw)
      \<and> slice raw a (line_limit l) = line_bytes raw l \<and> LF \<notin> set (slice raw a b)
      \<and> (pl_terminator l = ''EOF'' \<or> pl_terminator l = ''LF'' \<or> pl_terminator l = ''CRLF''))"

fun chain :: "bytes \<Rightarrow> int \<Rightarrow> physical_line list \<Rightarrow> int \<Rightarrow> bool" where
  "chain raw a [] b \<longleftrightarrow> a = b"
| "chain raw a (l # ls) b \<longleftrightarrow> br_start (pl_raw l) = a \<and> line_ok raw l \<and> chain raw (line_limit l) ls b"

lemma chain_append: "chain raw a (xs @ ys) b \<longleftrightarrow> (\<exists>m. chain raw a xs m \<and> chain raw m ys b)"
  by (induction xs arbitrary: a) auto

lemma chain_end: "chain raw a ls b \<Longrightarrow> ls \<noteq> [] \<Longrightarrow> b = line_limit (last ls) \<and> a < b"
proof (induction ls arbitrary: a)
  case (Cons l ls)
  show ?case
  proof (cases "ls = []")
    case False
    with Cons have "b = line_limit (last ls)" "line_limit l < b" by auto
    moreover have "a < line_limit l" using Cons.prems by (auto simp: line_ok_def Let_def)
    ultimately show ?thesis using False by simp
  qed (use Cons in \<open>auto simp: line_ok_def Let_def\<close>)
qed simp

lemma slice_at: "drop p raw = s @ t \<Longrightarrow> slice raw (int p) (int (p + length s)) = s"
  by (simp add: slice_def nat_add_distrib)

lemma line_ok_scanned:
  assumes "drop p raw = content @ terminator_bytes t @ suf" and "content @ terminator_bytes t \<noteq> []"
    and "LF \<notin> set content" and "t = ''EOF'' \<or> t = ''LF'' \<or> t = ''CRLF''"
  shows "line_ok raw \<lparr>pl_raw = range_of (int p) (int p + int (length content)), pl_terminator = t\<rparr>"
proof -
  have len: "length raw - p = length (content @ terminator_bytes t @ suf)" using assms(1) by (metis length_drop)
  moreover have pos: "0 < length content + length (terminator_bytes t)"
    using assms(2) by (metis length_append length_greater_0_conv)
  ultimately have "p + length content + length (terminator_bytes t) \<le> length raw"
    unfolding length_append by linarith
  moreover have "slice raw (int p) (int p + int (length content) + int (length (terminator_bytes t)))
      = content @ terminator_bytes t"
    using slice_at [of p raw "content @ terminator_bytes t" suf] assms(1) by (simp add: add.assoc)
  moreover have "slice raw (int p) (int p + int (length content)) = content"
    using slice_at [of p raw content "terminator_bytes t @ suf"] assms(1) by simp
  moreover have "0 < int (length content) + int (length (terminator_bytes t))" using pos by linarith
  ultimately show ?thesis
    using assms(3,4) unfolding line_ok_def line_limit_def line_bytes_def Let_def
    by (simp del: length_greater_0_conv add: add_pos_nonneg)
qed

lemma split_at_LF:
  assumes "dropWhile (\<lambda>c. c \<noteq> LF) s \<noteq> []"
  shows "s = takeWhile (\<lambda>c. c \<noteq> LF) s @ LF # tl (dropWhile (\<lambda>c. c \<noteq> LF) s)"
proof -
  have "hd (dropWhile (\<lambda>c. c \<noteq> LF) s) = LF" using hd_dropWhile [OF assms] by simp
  then have "dropWhile (\<lambda>c. c \<noteq> LF) s = LF # tl (dropWhile (\<lambda>c. c \<noteq> LF) s)"
    using assms by (metis list.collapse)
  then show ?thesis by (metis takeWhile_dropWhile_id)
qed

lemma scan_loop_crlf:
  assumes "rest \<noteq> []" and "\<not> (0 < limit \<and> limit \<le> int (length lines))" and "dropWhile (\<lambda>c. c \<noteq> LF) rest \<noteq> []"
    and "takeWhile (\<lambda>c. c \<noteq> LF) rest = content @ [CR]"
  shows "scan_loop limit eof p rest lines i =
    scan_loop limit eof (p + int (length content) + 2) (tl (dropWhile (\<lambda>c. c \<noteq> LF) rest))
      (lines @ [\<lparr>pl_raw = range_of p (p + int (length content)), pl_terminator = ''CRLF''\<rparr>])
      (p + int (length content) + 2)"
  by (subst scan_loop.simps) (simp add: assms(1,4) if_not_P [OF assms(2)] if_not_P [OF assms(3)] Let_def ac_simps del: dropWhile_eq_Nil_conv)

lemma scan_loop_lf:
  assumes "rest \<noteq> []" and "\<not> (0 < limit \<and> limit \<le> int (length lines))" and "dropWhile (\<lambda>c. c \<noteq> LF) rest \<noteq> []"
    and "takeWhile (\<lambda>c. c \<noteq> LF) rest = content" and "\<not> (content \<noteq> [] \<and> last content = CR)"
  shows "scan_loop limit eof p rest lines i =
    scan_loop limit eof (p + int (length content) + 1) (tl (dropWhile (\<lambda>c. c \<noteq> LF) rest))
      (lines @ [\<lparr>pl_raw = range_of p (p + int (length content)), pl_terminator = ''LF''\<rparr>])
      (p + int (length content) + 1)"
  by (subst scan_loop.simps)
    (simp add: assms(1,4) if_not_P [OF assms(2)] if_not_P [OF assms(3)] if_not_P [OF assms(5)] Let_def
      del: dropWhile_eq_Nil_conv)

text \<open>One step of the loop, when the line is terminated.\<close>

lemma scan_step:
  assumes "rest \<noteq> []" and "\<not> (0 < limit \<and> limit \<le> int (length lines))"
    and "dropWhile (\<lambda>c. c \<noteq> LF) rest \<noteq> []" and "drop p raw = rest @ suf"
  obtains l q rest' where "line_ok raw l" "br_start (pl_raw l) = int p" "line_limit l = int q"
    "drop q raw = rest' @ suf" "length rest' < length rest" "q + length rest' = p + length rest"
    "scan_loop limit eof (int p) rest lines i = scan_loop limit eof (int q) rest' (lines @ [l]) (int q)"
proof -
  let ?content = "takeWhile (\<lambda>c. c \<noteq> LF) rest" and ?rest = "tl (dropWhile (\<lambda>c. c \<noteq> LF) rest)"
  have nolf: "LF \<notin> set ?content" using set_takeWhileD by fastforce
  have split: "rest = ?content @ LF # ?rest" by (rule split_at_LF [OF assms(3)])
  define q where "q = p + length ?content + 1"
  have len: "length rest = length ?content + 1 + length ?rest" using split by (metis One_nat_def length_append list.size(4) add.assoc add.commute)
  have "drop q raw = drop (length ?content + 1) (drop p raw)"
    by (simp add: q_def add.commute add.left_commute)
  also have "\<dots> = drop (length ?content + 1) (rest @ suf)" by (simp only: assms(4))
  also have "\<dots> = ?rest @ suf" by (subst split) simp
  finally have q: "drop q raw = ?rest @ suf" .
  show thesis
  proof (cases "?content \<noteq> [] \<and> last ?content = CR")
    case True
    let ?l = "\<lparr>pl_raw = range_of (int p) (int p + int (length (butlast ?content))), pl_terminator = ''CRLF''\<rparr>"
    have c: "?content = butlast ?content @ [CR]" using True by (metis append_butlast_last_id)
    have "line_ok raw ?l"
    proof (rule line_ok_scanned [where suf = "?rest @ suf"])
      have "rest @ suf = butlast ?content @ CRLF @ ?rest @ suf" using split c
        by (metis append.assoc append_Cons append_Nil)
      then show "drop p raw = butlast ?content @ terminator_bytes ''CRLF'' @ ?rest @ suf"
        using assms(4) by (simp add: terminator_bytes_def)
      show "LF \<notin> set (butlast ?content)" using nolf by (meson in_set_butlastD)
    qed (simp_all add: terminator_bytes_def)
    moreover have pos: "int p + int (length (butlast ?content)) + 2 = int q"
      using arg_cong [OF c, of length] by (simp add: q_def)
    then have "line_limit ?l = int q" by (simp add: line_limit_def terminator_bytes_def)
    moreover have "scan_loop limit eof (int p) rest lines i = scan_loop limit eof (int q) ?rest (lines @ [?l]) (int q)"
      using scan_loop_crlf [OF assms(1-3) c, of eof "int p" i] unfolding pos .
    ultimately show ?thesis using that [of ?l q ?rest] q len by (simp add: q_def)
  next
    case False
    let ?l = "\<lparr>pl_raw = range_of (int p) (int p + int (length ?content)), pl_terminator = ''LF''\<rparr>"
    have "line_ok raw ?l"
    proof (rule line_ok_scanned [where suf = "?rest @ suf"])
      have "rest @ suf = ?content @ [LF] @ ?rest @ suf" using split by (metis append.assoc append_Cons append_Nil)
      then show "drop p raw = ?content @ terminator_bytes ''LF'' @ ?rest @ suf"
        using assms(4) by (simp add: terminator_bytes_def)
    qed (use nolf in \<open>simp_all add: terminator_bytes_def\<close>)
    moreover have pos: "int p + int (length ?content) + 1 = int q" by (simp add: q_def)
    then have "line_limit ?l = int q" by (simp add: line_limit_def terminator_bytes_def)
    moreover have "scan_loop limit eof (int p) rest lines i = scan_loop limit eof (int q) ?rest (lines @ [?l]) (int q)"
      using scan_loop_lf [OF assms(1-3) refl False, of eof "int p" i] unfolding pos .
    ultimately show ?thesis using that [of ?l q ?rest] q len by (simp add: q_def)
  qed
qed


lemma scan_loop_stop:
  assumes "rest = [] \<or> (0 < limit \<and> limit \<le> int (length lines))"
  shows "scan_loop limit eof p rest lines i = (lines, i, rest \<noteq> [])"
  using assms by (subst scan_loop.simps) auto

lemma scan_loop_last:
  assumes "rest \<noteq> []" and "\<not> (0 < limit \<and> limit \<le> int (length lines))" and "dropWhile (\<lambda>c. c \<noteq> LF) rest = []"
  shows "scan_loop limit eof p rest lines i =
    (if eof then (lines @ [\<lparr>pl_raw = range_of p (p + int (length rest)), pl_terminator = ''EOF''\<rparr>],
       p + int (length rest), False)
     else (lines, i, False))"
proof -
  have "takeWhile (\<lambda>c. c \<noteq> LF) rest = rest"
    using assms(3) by (metis append_Nil2 takeWhile_dropWhile_id)
  note tw = this
  show ?thesis
    by (subst scan_loop.simps)
      (simp add: assms(1,3) tw if_not_P [OF assms(2)] Let_def del: dropWhile_eq_Nil_conv takeWhile_eq_all_conv)
qed

text \<open>What the loop adds, from any position: consecutive lines, and all of them unless it was stopped.\<close>

definition scan_result ::
  "bytes \<Rightarrow> int \<Rightarrow> bool \<Rightarrow> nat \<Rightarrow> nat \<Rightarrow> physical_line list \<Rightarrow> physical_line list \<times> int \<times> bool \<Rightarrow> bool" where
  "scan_result raw limit eof p stop lines r \<longleftrightarrow>
     (\<exists>new. fst r = lines @ new \<and> chain raw (int p) new (fst (snd r)) \<and> fst (snd r) \<le> int stop
        \<and> (snd (snd r) \<or> \<not> eof \<or> fst (snd r) = int stop)
        \<and> (limit \<le> 0 \<or> int (length (lines @ new)) \<le> max limit (int (length lines))))"

lemma scan_loop_result:
  assumes "drop p raw = rest @ suf"
  shows "scan_result raw limit eof p (p + length rest) lines (scan_loop limit eof (int p) rest lines (int p))"
  using assms
proof (induction "length rest" arbitrary: p rest lines rule: less_induct)
  case less
  show ?case
  proof (cases "rest = [] \<or> (0 < limit \<and> limit \<le> int (length lines))")
    case True
    then show ?thesis by (simp add: scan_loop_stop scan_result_def)
  next
    case False
    then have go: "rest \<noteq> []" "\<not> (0 < limit \<and> limit \<le> int (length lines))" by auto
    show ?thesis
    proof (cases "dropWhile (\<lambda>c. c \<noteq> LF) rest = []")
      case True
      then have "LF \<notin> set rest" by (simp add: dropWhile_eq_Nil_conv) blast
      then have ok: "line_ok raw \<lparr>pl_raw = range_of (int p) (int p + int (length rest)), pl_terminator = ''EOF''\<rparr>"
        using less.prems go(1) by (intro line_ok_scanned [where suf = suf]) (simp_all add: terminator_bytes_def)
      then have "chain raw (int p) [\<lparr>pl_raw = range_of (int p) (int p + int (length rest)), pl_terminator = ''EOF''\<rparr>]
          (int (p + length rest))"
        by (simp add: line_limit_def terminator_bytes_def)
      then show ?thesis using go(2)
        by (cases eof) (auto simp: scan_loop_last [OF go True] scan_result_def)
    next
      case cut: False
      obtain l q rest' where st: "line_ok raw l" "br_start (pl_raw l) = int p" "line_limit l = int q"
          "drop q raw = rest' @ suf" "length rest' < length rest" "q + length rest' = p + length rest"
          "scan_loop limit eof (int p) rest lines (int p) = scan_loop limit eof (int q) rest' (lines @ [l]) (int q)"
        using scan_step [OF go cut less.prems, of eof "int p"] .
      have "scan_result raw limit eof q (p + length rest) (lines @ [l]) (scan_loop limit eof (int p) rest lines (int p))"
        using less.hyps [OF st(5,4), of "lines @ [l]"] unfolding st(6,7) .
      then obtain new where new: "fst (scan_loop limit eof (int p) rest lines (int p)) = (lines @ [l]) @ new"
          "chain raw (int q) new (fst (snd (scan_loop limit eof (int p) rest lines (int p))))"
          "fst (snd (scan_loop limit eof (int p) rest lines (int p))) \<le> int (p + length rest)"
          "snd (snd (scan_loop limit eof (int p) rest lines (int p))) \<or> \<not> eof
            \<or> fst (snd (scan_loop limit eof (int p) rest lines (int p))) = int (p + length rest)"
          "limit \<le> 0 \<or> int (length ((lines @ [l]) @ new)) \<le> max limit (int (length (lines @ [l])))"
        unfolding scan_result_def by blast
      have "limit \<le> 0 \<or> int (length (lines @ l # new)) \<le> max limit (int (length lines))"
        using new(5) go(2) by auto
      moreover have "chain raw (int p) (l # new) (fst (snd (scan_loop limit eof (int p) rest lines (int p))))"
        using new(2) st by simp
      ultimately show ?thesis
        unfolding scan_result_def using new(1,3,4) by (intro exI [of _ "l # new"]) simp
    qed
  qed
qed

text \<open>The bytes of consecutive lines are the bytes of the message.\<close>

lemma slice_split: "0 \<le> a \<Longrightarrow> a \<le> b \<Longrightarrow> b \<le> c \<Longrightarrow> slice raw a b @ slice raw b c = slice raw a c"
proof -
  assume a: "0 \<le> a" "a \<le> b" "b \<le> c"
  have "slice raw a c = take (nat (b - a) + nat (c - b)) (drop (nat a) raw)"
    using a by (simp add: slice_def flip: nat_add_distrib)
  also have "\<dots> = slice raw a b @ take (nat (c - b)) (drop (nat (b - a)) (drop (nat a) raw))"
    by (simp add: take_add slice_def)
  also have "drop (nat (b - a)) (drop (nat a) raw) = drop (nat b) raw"
    using a by (simp flip: nat_add_distrib)
  finally show ?thesis by (simp add: slice_def)
qed

lemma chain_order: "chain raw a ls b \<Longrightarrow> 0 \<le> a \<Longrightarrow> a \<le> b \<and> b \<le> max a (int (length raw))"
proof (induction ls arbitrary: a)
  case (Cons l ls)
  then have "line_ok raw l" "br_start (pl_raw l) = a" "chain raw (line_limit l) ls b" by auto
  moreover from this have "0 \<le> line_limit l" by (simp add: line_ok_def Let_def)
  ultimately show ?case using Cons.IH [of "line_limit l"] by (auto simp: line_ok_def Let_def)
qed simp

lemma chain_bytes:
  "chain raw a ls b \<Longrightarrow> 0 \<le> a \<Longrightarrow> concat (map (line_bytes raw) ls) = slice raw a b"
proof (induction ls arbitrary: a)
  case (Cons l ls)
  then have l: "line_ok raw l" "br_start (pl_raw l) = a" "chain raw (line_limit l) ls b" by auto
  then have "0 \<le> line_limit l" "a \<le> line_limit l" "line_bytes raw l = slice raw a (line_limit l)"
    by (auto simp: line_ok_def Let_def)
  then show ?case
    using Cons.IH [OF l(3)] chain_order [OF l(3)] Cons.prems(2) by (simp add: slice_split)
qed (simp add: slice_def)

section \<open>Well-formed indices\<close>

definition index_ok :: "raw_index \<Rightarrow> bool" where
  "index_ok ix \<longleftrightarrow> chain (ri_raw ix) 0 (ri_lines ix) (ri_indexed_end ix)"

lemma scan_lines_ok:
  assumes "scan_lines lim raw end' eof = (lines, indexed, over)" and "0 \<le> end'" "end' \<le> int (length raw)"
  shows "chain raw 0 lines indexed \<and> indexed \<le> end' \<and> (over \<or> \<not> eof \<or> indexed = end')
    \<and> (max_physical_lines lim \<le> 0 \<or> int (length lines) \<le> max_physical_lines lim)"
proof -
  have "scan_result raw (max_physical_lines lim) eof 0 (0 + length (take (nat end') raw)) []
      (scan_loop (max_physical_lines lim) eof (int 0) (take (nat end') raw) [] (int 0))"
    by (rule scan_loop_result [where suf = "drop (nat end') raw"]) simp
  then show ?thesis using assms by (auto simp: scan_lines_def scan_result_def)
qed

lemma chain_nth:
  assumes "chain raw a ls b" and "n < length ls"
  shows "line_ok raw (ls ! n) \<and> line_limit (ls ! n) = (if n + 1 < length ls then br_start (pl_raw (ls ! (n + 1))) else b)"
  using assms
proof (induction ls arbitrary: a n)
  case (Cons l ls)
  then show ?case by (cases n; cases ls) auto
qed simp

lemma line_facts:
  assumes "index_ok ix" and "n < length (ri_lines ix)"
  shows "0 \<le> line_start ix n" "line_start ix n \<le> line_stop ix n" "line_stop ix n \<le> full_line_end ix n"
    "line_start ix n < full_line_end ix n" "full_line_end ix n \<le> int (length (ri_raw ix))"
    "full_line_end ix n \<le> ri_indexed_end ix"
proof -
  have ok: "line_ok (ri_raw ix) (ri_lines ix ! n)" and lim: "line_limit (ri_lines ix ! n) = full_line_end ix n"
    using chain_nth [OF assms(1) [unfolded index_ok_def] assms(2)] by (auto simp: full_line_end_def line_start_def)
  show "0 \<le> line_start ix n" "line_start ix n \<le> line_stop ix n" "line_start ix n < full_line_end ix n"
    "full_line_end ix n \<le> int (length (ri_raw ix))"
    using ok by (auto simp: line_ok_def line_start_def line_stop_def Let_def lim)
  show "line_stop ix n \<le> full_line_end ix n" unfolding lim [symmetric] by (simp add: line_limit_def line_stop_def)
  from assms(1) have "chain (ri_raw ix) 0 (take (Suc n) (ri_lines ix) @ drop (Suc n) (ri_lines ix)) (ri_indexed_end ix)"
    by (simp add: index_ok_def)
  then obtain m where m: "chain (ri_raw ix) 0 (take (Suc n) (ri_lines ix)) m"
      "chain (ri_raw ix) m (drop (Suc n) (ri_lines ix)) (ri_indexed_end ix)"
    unfolding chain_append by blast
  have "m = line_limit (ri_lines ix ! n)"
    using chain_end [OF m(1)] assms(2) by (simp add: take_Suc_conv_app_nth)
  moreover have "0 \<le> m" using chain_order [OF m(1)] by simp
  ultimately show "full_line_end ix n \<le> ri_indexed_end ix" using chain_order [OF m(2)] lim by simp
qed

end
