(* ===== verification/Mime_Paths.thy ===== *)
theory Mime_Paths
  imports Mime_Types
begin

text \<open>
  The paths of MIME parts: the path of a child is its parent's path, a dot and its number.  In a tree
  with such paths a path identifies its part.  The raw index and the parser both build such trees.
\<close>

definition path_of :: "('h, 'e) node \<Rightarrow> bytes" where
  "path_of n = nd_path (info n)"

lemma path_of_Node [simp]: "path_of (Node i cs) = nd_path i"
  by (simp add: path_of_def)

fun paths_ok :: "bytes \<Rightarrow> ('h, 'e) node \<Rightarrow> bool"
  and numbered_from :: "bytes \<Rightarrow> nat \<Rightarrow> ('h, 'e) node list \<Rightarrow> bool" where
  "paths_ok path (Node i cs) \<longleftrightarrow> nd_path i = path \<and> numbered_from path 0 cs"
| "numbered_from path k [] \<longleftrightarrow> True"
| "numbered_from path k (c # cs) \<longleftrightarrow>
     paths_ok (path @ ''.'' @ part_number (Suc k)) c \<and> numbered_from path (Suc k) cs"

lemma numbered_from_snoc:
  "numbered_from path k (cs @ [c]) \<longleftrightarrow>
   numbered_from path k cs \<and> paths_ok (path @ ''.'' @ part_number (Suc (k + length cs))) c"
  by (induction cs arbitrary: k) auto

lemma part_number_1: "part_number (Suc 0) = ''1''"
  by (simp add: part_number_def part_digits.simps [of "Suc 0"] part_digits.simps [of 0] chr_eval)

lemma numbered_single [simp]: "numbered_from path 0 [c] \<longleftrightarrow> paths_ok (path @ ''.1'') c"
  by (simp add: part_number_1)

section \<open>A path identifies its part\<close>

definition under :: "bytes \<Rightarrow> bytes \<Rightarrow> bool" where
  "under p s \<longleftrightarrow> s = p \<or> (\<exists>q. s = p @ ''.'' @ q)"

lemma under_refl [simp]: "under p p"
  by (simp add: under_def)

lemma under_trans: "under p q \<Longrightarrow> under q s \<Longrightarrow> under p s"
  by (auto simp: under_def)

lemma under_child: "under p (p @ ''.'' @ q)"
  by (auto simp: under_def)

lemma part_number_digits: "CHR ''.'' \<notin> set (part_number k)"
  using itoa_graphic [of "int k"] by (auto simp: part_number_itoa is_digit_def byte_def)

lemma takeWhile_number: "under (part_number k) s \<Longrightarrow> takeWhile (\<lambda>c. c \<noteq> CHR ''.'') s = part_number k"
  using part_number_digits [of k] by (auto simp: under_def takeWhile_append)

lemma under_siblings:
  assumes "under (p @ ''.'' @ part_number k) s" and "under (p @ ''.'' @ part_number l) s"
  shows "k = l"
proof -
  from assms(1) obtain x where x: "s = p @ ''.'' @ x" "under (part_number k) x" by (auto simp: under_def)
  from assms(2) obtain y where y: "s = p @ ''.'' @ y" "under (part_number l) y" by (auto simp: under_def)
  from x y have "x = y" by simp
  with x(2) y(2) have "part_number k = part_number l" by (metis takeWhile_number)
  then show ?thesis by (simp add: part_number_inject)
qed

lemma under_not_child: "\<not> under (p @ ''.'' @ q) p"
  by (auto simp: under_def dest: arg_cong [where f = length])

lemma paths_ok_under:
  fixes n :: "('h, 'e) node" and cs :: "('h, 'e) node list"
  shows "paths_ok path n \<Longrightarrow> (\<forall>m\<in>set (nodes n). under path (path_of m)) \<and> distinct (map path_of (nodes n))"
  "numbered_from path k cs \<Longrightarrow>
     (\<forall>m\<in>set (concat (map nodes cs)). \<exists>j\<ge>k. under (path @ ''.'' @ part_number (Suc j)) (path_of m))
     \<and> distinct (map path_of (concat (map nodes cs)))"
proof (induction path n and path k cs rule: paths_ok_numbered_from.induct)
  case (1 path i cs)
  then have i: "nd_path i = path"
    and cs: "\<forall>m\<in>set (concat (map nodes cs)). \<exists>j. under (path @ ''.'' @ part_number (Suc j)) (path_of m)"
      "distinct (map path_of (concat (map nodes cs)))" by auto
  have "\<forall>m\<in>set (concat (map nodes cs)). under path (path_of m)"
    using cs(1) under_trans [OF under_child] by blast
  moreover have "\<forall>m\<in>set (concat (map nodes cs)). path_of m \<noteq> path"
    using cs(1) under_not_child by metis
  then have "path \<notin> path_of ` set (concat (map nodes cs))" by blast
  ultimately show ?case using cs(2) i by simp
next
  case (3 path k c cs)
  then have c: "\<forall>m\<in>set (nodes c). under (path @ ''.'' @ part_number (Suc k)) (path_of m)" "distinct (map path_of (nodes c))"
    and cs: "\<forall>m\<in>set (concat (map nodes cs)). \<exists>j\<ge>Suc k. under (path @ ''.'' @ part_number (Suc j)) (path_of m)"
      "distinct (map path_of (concat (map nodes cs)))" by auto
  have "path_of m \<noteq> path_of m'" if m: "m \<in> set (nodes c)" and m': "m' \<in> set (concat (map nodes cs))" for m m'
  proof
    assume eq: "path_of m = path_of m'"
    obtain j where j: "Suc k \<le> j" "under (path @ ''.'' @ part_number (Suc j)) (path_of m')" using cs(1) m' by blast
    have "under (path @ ''.'' @ part_number (Suc k)) (path_of m')" using c(1) m eq by metis
    from under_siblings [OF this j(2)] j(1) show False by simp
  qed
  then have "path_of ` set (nodes c) \<inter> path_of ` set (concat (map nodes cs)) = {}" by blast
  moreover have "\<forall>m\<in>set (concat (map nodes (c # cs))). \<exists>j\<ge>k. under (path @ ''.'' @ part_number (Suc j)) (path_of m)"
  proof
    fix m
    assume "m \<in> set (concat (map nodes (c # cs)))"
    then consider "m \<in> set (nodes c)" | "m \<in> set (concat (map nodes cs))" by auto
    then show "\<exists>j\<ge>k. under (path @ ''.'' @ part_number (Suc j)) (path_of m)"
    proof cases
      case 2
      with cs(1) show ?thesis by (meson Suc_leD)
    qed (use c(1) in blast)
  qed
  ultimately show ?case using c(2) cs(2) by simp
qed simp_all

lemmas paths_distinct = paths_ok_under(1) [THEN conjunct2]

section \<open>Height\<close>

lemma fold_max_le: "fold max hs m \<le> M \<longleftrightarrow> m \<le> M \<and> (\<forall>h\<in>set hs. h \<le> M)" for m M :: nat
  by (induction hs arbitrary: m) auto

lemma height_Node_le: "height (Node i cs) \<le> Suc m \<longleftrightarrow> (\<forall>c\<in>set cs. height c \<le> m)"
  by (simp add: fold_max_le)

lemma height_pos: "0 < height n"
  by (cases n) simp

end
