(* ===== verification/Mime_Tree.thy ===== *)
theory Mime_Tree
  imports Mime_Lines Mime_Paths
begin

text \<open>
  The tree of the raw index: \<open>parseEntity\<close> returns, its nodes have ranges nested in their parents',
  paths that number the children, and the counters count exactly the nodes of the tree, so that the
  limits bound it.
\<close>

section \<open>The binary search\<close>

text \<open>A linear search for the first line at or after the offset.\<close>

definition first_line_from :: "raw_index \<Rightarrow> int \<Rightarrow> nat" where
  "first_line_from ix offset = length (takeWhile (\<lambda>l. br_start (pl_raw l) < offset) (ri_lines ix))"

lemma chain_sorted: "chain raw a ls b \<Longrightarrow> sorted (map (\<lambda>l. br_start (pl_raw l)) ls) \<and> (\<forall>l\<in>set ls. a \<le> br_start (pl_raw l))"
proof (induction ls arbitrary: a)
  case (Cons l ls)
  then have "line_ok raw l" "br_start (pl_raw l) = a" "chain raw (line_limit l) ls b" by auto
  with Cons.IH [of "line_limit l"] show ?case by (force simp: line_ok_def Let_def)
qed simp

lemma takeWhile_sorted:
  assumes "sorted (map f xs)" and "n < length xs"
  shows "f (xs ! n) < (k :: int) \<longleftrightarrow> n < length (takeWhile (\<lambda>x. f x < k) xs)"
  using assms
proof (induction xs arbitrary: n)
  case (Cons x xs)
  show ?case
  proof (cases n)
    case (Suc m)
    have le: "f x \<le> f (xs ! m)" using Cons.prems Suc by simp
    have "f (xs ! m) < k \<longleftrightarrow> m < length (takeWhile (\<lambda>x. f x < k) xs)" using Cons.IH [of m] Cons.prems Suc by simp
    with le show ?thesis unfolding Suc by (cases "f x < k") simp_all
  qed simp
qed simp

lemma line_search_takeWhile:
  assumes "sorted (map (\<lambda>l. br_start (pl_raw l)) lines)"
    and "low \<le> length (takeWhile (\<lambda>l. br_start (pl_raw l) < offset) lines)"
    and "length (takeWhile (\<lambda>l. br_start (pl_raw l) < offset) lines) \<le> high" and "high \<le> length lines"
  shows "line_search lines offset low high = length (takeWhile (\<lambda>l. br_start (pl_raw l) < offset) lines)"
  using assms
proof (induction lines offset low high rule: line_search.induct)
  case (1 lines offset low high)
  let ?k = "length (takeWhile (\<lambda>l. br_start (pl_raw l) < offset) lines)"
  let ?m = "low + (high - low) div 2"
  show ?case
  proof (cases "low < high")
    case True
    then have "?m < length lines" using 1(6) by simp
    note at = takeWhile_sorted [OF 1(3) this, of offset]
    show ?thesis
    proof (cases "br_start (pl_raw (lines ! ?m)) < offset")
      case True': True
      then show ?thesis using 1(1) [OF True refl True' 1(3)] at 1(4-6) True
        by (subst line_search.simps) (simp add: Let_def)
    next
      case False
      then show ?thesis using 1(2) [OF True refl False 1(3)] at 1(4-6) True
        by (subst line_search.simps) (simp add: Let_def)
    qed
  next
    case False
    then show ?thesis using 1(4,5) by (subst line_search.simps) simp
  qed
qed

lemma index_sorted: "index_ok ix \<Longrightarrow> sorted (map (\<lambda>l. br_start (pl_raw l)) (ri_lines ix))"
  using chain_sorted by (auto simp: index_ok_def)

lemma line_at_or_after_eq: "index_ok ix \<Longrightarrow> line_at_or_after ix offset = first_line_from ix offset"
  unfolding line_at_or_after_def first_line_from_def
  by (rule line_search_takeWhile) (auto simp: index_sorted length_takeWhile_le)

lemma lines_from_iff:
  assumes "index_ok ix"
  shows "n \<in> set (lines_from ix start) \<longleftrightarrow> n < length (ri_lines ix) \<and> start \<le> line_start ix n"
proof (cases "n < length (ri_lines ix)")
  case True
  from takeWhile_sorted [OF index_sorted [OF assms] True, of start] True show ?thesis
    by (auto simp: lines_from_def line_at_or_after_eq [OF assms] first_line_from_def line_start_def)
qed (simp add: lines_from_def)

section \<open>Where headers and boundaries are\<close>

lemma header_end_loopD:
  "header_end_loop ix end' ns = Some (h, b) \<Longrightarrow>
   \<exists>n\<in>set ns. h = line_start ix n \<and> b = full_line_end ix n \<and> line_stop ix n = line_start ix n \<and> h < end'"
  by (induction ns) (auto split: if_splits)

lemma header_end_at:
  assumes "index_ok ix" and "header_end_loop ix end' (lines_from ix start) = Some (h, b)"
  shows "start \<le> h" "h < b" "h < end'" "b \<le> ri_indexed_end ix"
proof -
  obtain n where n: "n \<in> set (lines_from ix start)" "h = line_start ix n" "b = full_line_end ix n" "h < end'"
    using header_end_loopD [OF assms(2)] by blast
  then have "n < length (ri_lines ix)" "start \<le> line_start ix n" by (auto simp: lines_from_iff [OF assms(1)])
  then show "start \<le> h" "h < b" "h < end'" "b \<le> ri_indexed_end ix"
    using n line_facts [OF assms(1)] by auto
qed

lemma boundary_loop_sub:
  "\<lbrakk>(n, c) \<in> set (boundary_loop ix end' boundary ns)\<rbrakk> \<Longrightarrow> n \<in> set ns \<and> line_start ix n < end'"
  by (induction ns) (auto split: if_splits option.splits)

lemma boundary_loop_sorted: "sorted_wrt (<) ns \<Longrightarrow> sorted_wrt (\<lambda>d e. fst d < fst e) (boundary_loop ix end' boundary ns)"
proof (induction ns)
  case (Cons n ns)
  then show ?case
    by (auto split: option.splits dest: boundary_loop_sub)
qed simp

definition boundaries_ok :: "raw_index \<Rightarrow> int \<Rightarrow> int \<Rightarrow> (nat \<times> bool) list \<Rightarrow> bool" where
  "boundaries_ok ix lo hi ds \<longleftrightarrow>
     sorted_wrt (\<lambda>d e. fst d < fst e) ds
     \<and> (\<forall>d\<in>set ds. fst d < length (ri_lines ix) \<and> lo \<le> line_start ix (fst d) \<and> line_start ix (fst d) < hi)"

lemma boundary_lines_ok: "index_ok ix \<Longrightarrow> boundaries_ok ix lo hi (boundary_lines ix lo hi boundary)"
  using boundary_loop_sorted [of "lines_from ix lo" ix hi boundary] boundary_loop_sub [of _ _ ix hi boundary "lines_from ix lo"]
  by (auto simp: boundaries_ok_def boundary_lines_def lines_from_iff) (simp add: lines_from_def sorted_wrt_upt)

lemma boundaries_ok_Cons:
  assumes "index_ok ix" and "boundaries_ok ix lo hi (d # ds)"
  shows "boundaries_ok ix (full_line_end ix (fst d)) hi ds" "lo < full_line_end ix (fst d)"
    "0 \<le> full_line_end ix (fst d)" "ds \<noteq> [] \<Longrightarrow> full_line_end ix (fst d) \<le> line_start ix (fst (hd ds)) \<and> line_start ix (fst (hd ds)) < hi"
proof -
  have d: "fst d < length (ri_lines ix)" "lo \<le> line_start ix (fst d)" using assms(2) by (auto simp: boundaries_ok_def)
  have le: "full_line_end ix n \<le> line_start ix m" if "n < m" "m < length (ri_lines ix)" for n m
  proof -
    have "line_start ix (n + 1) \<le> line_start ix m"
      using sorted_nth_mono [OF index_sorted [OF assms(1)], of "n + 1" m] that by (simp add: line_start_def)
    then show ?thesis using that by (simp add: full_line_end_def)
  qed
  show "boundaries_ok ix (full_line_end ix (fst d)) hi ds"
    using assms(2) le by (auto simp: boundaries_ok_def)
  show "lo < full_line_end ix (fst d)" "0 \<le> full_line_end ix (fst d)" using d line_facts [OF assms(1) d(1)] by auto
  show "ds \<noteq> [] \<Longrightarrow> full_line_end ix (fst d) \<le> line_start ix (fst (hd ds)) \<and> line_start ix (fst (hd ds)) < hi"
    using assms(2) le by (cases ds) (auto simp: boundaries_ok_def)
qed

lemma trim_boundary_prefix_le: "trim_boundary_prefix raw a b \<le> b"
  by (simp add: trim_boundary_prefix_def)

lemma trim_boundary_prefix_ge: "a \<le> b \<Longrightarrow> a \<le> trim_boundary_prefix raw a b"
  by (simp add: trim_boundary_prefix_def)


section \<open>Termination\<close>

text \<open>The recursive calls of an entity in \<open>start .. end\<close> lie strictly inside it.\<close>

definition returns_inside :: "('h, 'e) entity_parser \<Rightarrow> int \<Rightarrow> int \<Rightarrow> bool" where
  "returns_inside parse start end' \<longleftrightarrow>
     (\<forall>a b path depth digest st. start < a \<longrightarrow> b \<le> end' \<longrightarrow> parse a b path depth digest st \<noteq> None)"

lemma returns_insideD: "returns_inside parse start end' \<Longrightarrow> start < a \<Longrightarrow> b \<le> end' \<Longrightarrow> parse a b path depth digest st \<noteq> None"
  unfolding returns_inside_def by blast

lemma part_end_le:
  assumes "index_ok ix" and "boundaries_ok ix lo end' (d # ds)"
  shows "(case ds of [] \<Rightarrow> end' | d' # _ \<Rightarrow> trim_boundary_prefix raw (full_line_end ix (fst d)) (line_start ix (fst d'))) \<le> end'"
proof (cases ds)
  case (Cons e es)
  have "line_start ix (fst e) < end'" using boundaries_ok_Cons(4) [OF assms] Cons by simp
  then show ?thesis
    using trim_boundary_prefix_le [of raw "full_line_end ix (fst d)" "line_start ix (fst e)"] Cons by simp
qed simp

lemma parse_parts_returns:
  assumes "index_ok ix" and "boundaries_ok ix lo end' ds" and "start < lo" and "returns_inside parse start end'"
  shows "parse_parts parse ix end' path depth digest ds k st \<noteq> None"
  using assms(2,3)
proof (induction ds arbitrary: lo k st)
  case (Cons d ds)
  obtain n closing where d: "d = (n, closing)" by (cases d)
  note rest = boundaries_ok_Cons [OF assms(1) Cons.prems(1)]
  let ?stop = "case ds of [] \<Rightarrow> end' | d' # _ \<Rightarrow> trim_boundary_prefix (ri_raw ix) (full_line_end ix n) (line_start ix (fst d'))"
  have "start < full_line_end ix n" using rest(2) Cons.prems(2) by (simp add: d)
  moreover have "?stop \<le> end'" using part_end_le [OF assms(1) Cons.prems(1), of "ri_raw ix"] unfolding d fst_conv .
  ultimately have "parse (full_line_end ix n) ?stop (path @ CHR ''.'' # part_number (Suc k)) (depth + 1) digest st \<noteq> None"
    by (rule returns_insideD [OF assms(4)])
  note first = this
  have more: "parse_parts parse ix end' path depth digest ds (Suc k) st' \<noteq> None" for st'
    using Cons.IH [OF rest(1)] \<open>start < full_line_end ix n\<close> by (simp add: d)
  show ?case by (auto simp: d Let_def first more split: option.splits simp del: not_None_eq)
qed simp

lemma parse_multipart_returns:
  assumes "index_ok ix" and "start < body_start" and "returns_inside parse start end'"
  shows "parse_multipart parse ix i body_start end' depth st \<noteq> None"
proof -
  let ?ds = "boundary_lines ix body_start end' (param (nd_media_params i) ''boundary'')"
  obtain cs complete st' where
    "parse_parts parse ix end' (nd_path i) depth (nd_media_type i = ''multipart/digest'') ?ds 0 st = Some ((cs, complete), st')"
    using parse_parts_returns [OF assms(1) boundary_lines_ok [OF assms(1)] assms(2,3)] by (metis not_None_eq surj_pair)
  then show ?thesis by (auto simp: parse_multipart_def Let_def)
qed

lemma parse_encapsulated_returns:
  assumes "start < body_start" and "returns_inside parse start end'"
  shows "parse_encapsulated u parse i body_start end' depth st \<noteq> None"
proof -
  obtain res complete st' where "parse body_start end' (nd_path i @ ''.1'') (depth + 1) False st = Some ((res, complete), st')"
    using returns_insideD [OF assms(2,1) order_refl] by (metis not_None_eq surj_pair)
  then show ?thesis by (auto simp: parse_encapsulated_def split: option.splits)
qed

lemma parse_entity_returns:
  assumes "index_ok ix" and "nat (end' - start) < fuel"
  shows "parse_entity fuel L ix start end' path depth digest st \<noteq> None"
  using assms(2)
proof (induction fuel arbitrary: start end' path depth digest st)
  case (Suc fuel)
  show ?case
  proof (cases "header_end_loop ix end' (lines_from ix start)")
    case (Some hb)
    then obtain h b where hb: "header_end_loop ix end' (lines_from ix start) = Some (h, b)" by (cases hb) auto
    note at = header_end_at [OF assms(1) hb]
    have "nat (y - x) < fuel" if "start < x" "y \<le> end'" for x y
      using Suc.prems that at by linarith
    then have inside: "returns_inside (parse_entity fuel L ix) start end'"
      using Suc.IH unfolding returns_inside_def by blast
    have "start < b" using at by linarith
    then show ?thesis
      by (auto simp: hb Let_def parse_multipart_returns [OF assms(1) _ inside]
          parse_encapsulated_returns [OF _ inside] split: option.splits)
  qed (auto simp: Let_def)
qed simp


section \<open>The tree\<close>

definition node_start :: "('h, 'e) node \<Rightarrow> int" where
  "node_start n = br_start (nd_raw_header (info n))"

definition node_stop :: "('h, 'e) node \<Rightarrow> int" where
  "node_stop n = br_end (nd_raw_body (info n))"

definition header_block :: "('h, 'e) node \<Rightarrow> int" where
  "header_block n = br_start (nd_raw_body (info n)) - br_start (nd_raw_header (info n))"

text \<open>
  A well-formed tree at a path and a depth: header and body ranges in order, children inside the
  body one after the other, numbered from one.
\<close>

fun node_ok :: "limits \<Rightarrow> bytes \<Rightarrow> int \<Rightarrow> ('h, 'e) node \<Rightarrow> bool"
  and nodes_ok :: "limits \<Rightarrow> bytes \<Rightarrow> nat \<Rightarrow> int \<Rightarrow> int \<Rightarrow> int \<Rightarrow> ('h, 'e) node list \<Rightarrow> bool" where
  "node_ok lim path depth (Node i cs) \<longleftrightarrow>
     nd_path i = path \<and> (max_depth lim \<le> 0 \<or> depth \<le> max_depth lim)
     \<and> 0 \<le> br_start (nd_raw_header i) \<and> br_start (nd_raw_header i) \<le> br_end (nd_raw_header i)
     \<and> br_end (nd_raw_header i) < br_start (nd_raw_body i) \<and> br_start (nd_raw_body i) \<le> br_end (nd_raw_body i)
     \<and> nodes_ok lim path 0 (depth + 1) (br_start (nd_raw_body i)) (br_end (nd_raw_body i)) cs"
| "nodes_ok lim path k depth lo hi [] \<longleftrightarrow> True"
| "nodes_ok lim path k depth lo hi (c # cs) \<longleftrightarrow>
     lo \<le> node_start c \<and> node_stop c \<le> hi \<and> node_ok lim (path @ ''.'' @ part_number (Suc k)) depth c
     \<and> nodes_ok lim path (Suc k) depth (node_stop c) hi cs"

lemma nodes_ok_mono: "nodes_ok lim path k depth lo hi cs \<Longrightarrow> lo' \<le> lo \<Longrightarrow> nodes_ok lim path k depth lo' hi cs"
  by (cases cs) auto

text \<open>The counters advance by what the nodes hold.\<close>

definition accounts :: "index_state \<Rightarrow> index_state \<Rightarrow> ('h, 'e) node list \<Rightarrow> bool" where
  "accounts st st' ns \<longleftrightarrow>
     ist_parts st' = ist_parts st + int (length ns)
     \<and> ist_header_fields st' = ist_header_fields st + sum_list (map (\<lambda>n. int (length (nd_header_fields (info n)))) ns)
     \<and> ist_header_bytes st' = ist_header_bytes st + sum_list (map header_block ns)
     \<and> ist_decoded_lines st' = ist_decoded_lines st \<and> ist_causes st \<subseteq> ist_causes st'"

lemma accounts_refl [simp]: "accounts st st []"
  by (simp add: accounts_def)

lemma accounts_cause [simp]: "accounts st (add_cause c st) []"
  by (auto simp: accounts_def add_cause_def)

lemma accounts_trans: "accounts st st1 xs \<Longrightarrow> accounts st1 st2 ys \<Longrightarrow> accounts st st2 (xs @ ys)"
  by (auto simp: accounts_def)

definition within :: "limits \<Rightarrow> index_state \<Rightarrow> bool" where
  "within lim st \<longleftrightarrow>
     (max_parts lim \<le> 0 \<or> ist_parts st \<le> max_parts lim)
     \<and> (max_header_fields lim \<le> 0 \<or> ist_header_fields st \<le> max_header_fields lim)
     \<and> (max_header_bytes lim \<le> 0 \<or> ist_header_bytes st \<le> max_header_bytes lim)"

lemma within_cause [simp]: "within lim (add_cause c st) = within lim st"
  by (simp add: within_def add_cause_def)

lemma within_account:
  assumes "within lim st" and "\<not> (0 < max_parts lim \<and> max_parts lim \<le> ist_parts st)"
    and "header_over_limit lim st nb nf = None"
  shows "within lim (account nb nf st)"
  using assms by (auto simp: within_def account_def header_over_limit_def split: if_splits)

definition parser_ok :: "raw_index \<Rightarrow> ('h, 'e) entity_parser \<Rightarrow> bool" where
  "parser_ok ix parse \<longleftrightarrow>
     (\<forall>a b path depth digest st res complete st'. 0 \<le> a \<longrightarrow> b \<le> ri_indexed_end ix \<longrightarrow> within (ri_limits ix) st
        \<longrightarrow> parse a b path depth digest st = Some ((res, complete), st')
        \<longrightarrow> within (ri_limits ix) st' \<and> accounts st st' (case res of None \<Rightarrow> [] | Some n \<Rightarrow> nodes n)
            \<and> (\<forall>n. res = Some n \<longrightarrow> node_ok (ri_limits ix) path depth n \<and> node_start n = a \<and> node_stop n = b))"

lemma parser_okD:
  assumes "parser_ok ix parse" "0 \<le> a" "b \<le> ri_indexed_end ix" "within (ri_limits ix) st"
    and "parse a b path depth digest st = Some ((res, complete), st')"
  shows "within (ri_limits ix) st'" "accounts st st' (case res of None \<Rightarrow> [] | Some n \<Rightarrow> nodes n)"
    "\<And>n. res = Some n \<Longrightarrow> node_ok (ri_limits ix) path depth n \<and> node_start n = a \<and> node_stop n = b"
  using assms unfolding parser_ok_def by blast+

definition forest_ok ::
  "raw_index \<Rightarrow> bytes \<Rightarrow> nat \<Rightarrow> int \<Rightarrow> int \<Rightarrow> int \<Rightarrow> index_state \<Rightarrow> index_state \<Rightarrow> ('h, 'e) node list \<Rightarrow> bool" where
  "forest_ok ix path k depth lo hi st st' cs \<longleftrightarrow>
     within (ri_limits ix) st' \<and> accounts st st' (concat (map nodes cs))
     \<and> nodes_ok (ri_limits ix) path k depth lo hi cs"

lemma forest_ok_Nil:
  "within (ri_limits ix) st' \<Longrightarrow> accounts st st' ([] :: ('h, 'e) node list)
    \<Longrightarrow> forest_ok ix path k depth lo hi st st' ([] :: ('h, 'e) node list)"
  by (simp add: forest_ok_def)

lemma parse_parts_ok:
  assumes "index_ok ix" and "parser_ok ix parse" and "hi \<le> ri_indexed_end ix"
  shows "boundaries_ok ix lo hi ds \<Longrightarrow> within (ri_limits ix) st
    \<Longrightarrow> parse_parts parse ix hi path depth digest ds k st = Some ((cs, complete), st')
    \<Longrightarrow> forest_ok ix path k (depth + 1) lo hi st st' cs"
proof (induction ds arbitrary: lo k st cs complete)
  case (Cons d ds)
  obtain n closing where d: "d = (n, closing)" by (cases d)
  note b = boundaries_ok_Cons [OF assms(1) Cons.prems(1)]
  let ?a = "full_line_end ix n"
  let ?b = "case ds of [] \<Rightarrow> hi | d' # _ \<Rightarrow> trim_boundary_prefix (ri_raw ix) ?a (line_start ix (fst d'))"
  have hi: "?b \<le> hi" using part_end_le [OF assms(1) Cons.prems(1), of "ri_raw ix"] unfolding d fst_conv .
  show ?case
  proof (cases closing)
    case True
    then show ?thesis using Cons.prems by (auto simp: d intro: forest_ok_Nil)
  next
    case False
    then obtain res c1 st1 where p: "parse ?a ?b (path @ ''.'' @ part_number (Suc k)) (depth + 1) digest st = Some ((res, c1), st1)"
      using Cons.prems(3) by (auto simp: d Let_def split: option.splits)
    have a0: "0 \<le> ?a" and b0: "?b \<le> ri_indexed_end ix" using b(3) hi assms(3) by (auto simp: d)
    note one = parser_okD [OF assms(2) a0 b0 Cons.prems(2) p]
    show ?thesis
    proof (cases res)
      case None
      then show ?thesis using Cons.prems(3) False p one(1,2) by (auto simp: d Let_def intro: forest_ok_Nil)
    next
      case (Some c)
      have c: "node_ok (ri_limits ix) (path @ ''.'' @ part_number (Suc k)) (depth + 1) c" "node_start c = ?a" "node_stop c = ?b"
        using one(3) [OF Some] by auto
      have lo: "lo \<le> node_start c" using b(2) c(2) by (simp add: d)
      have acc: "accounts st st1 (nodes c)" using one(2) Some by simp
      show ?thesis
      proof (cases c1)
        case False': False
        then have "cs = [c]" "st' = st1" using Cons.prems(3) False p Some by (auto simp: d Let_def)
        then show ?thesis using one(1) acc c lo hi by (simp add: forest_ok_def)
      next
        case True
        then obtain cs' c2 where rest: "parse_parts parse ix hi path depth digest ds (Suc k) st1 = Some ((cs', c2), st')" "cs = c # cs'"
          using Cons.prems(3) False p Some by (auto simp: d Let_def split: option.splits)
        have "forest_ok ix path (Suc k) (depth + 1) ?b hi st1 st' cs'"
        proof (cases ds)
          case (Cons e es)
          have "boundaries_ok ix (line_start ix (fst e)) hi ds"
            using b(1) index_sorted [OF assms(1)] unfolding Cons boundaries_ok_def line_start_def
            by (auto intro: sorted_nth_mono dest: less_imp_le simp: sorted_map sorted_iff_nth_mono)
          from Cons.IH [OF this one(1) rest(1)] have "forest_ok ix path (Suc k) (depth + 1) (line_start ix (fst e)) hi st1 st' cs'" .
          moreover have "?b \<le> line_start ix (fst e)" by (simp add: Cons trim_boundary_prefix_le)
          ultimately show ?thesis by (auto simp: forest_ok_def intro: nodes_ok_mono)
        qed (use rest(1) one(1) in \<open>auto intro: forest_ok_Nil\<close>)
        then show ?thesis
          using acc c lo hi rest(2) accounts_trans [OF acc, of st' "concat (map nodes cs')"] by (simp add: forest_ok_def)
      qed
    qed
  qed
qed (auto intro: forest_ok_Nil)


lemma multipart_not_encapsulated:
  assumes "has_prefix t ''multipart/''"
  shows "\<not> is_encapsulated u t"
proof -
  obtain r where t: "t = ''mu'' @ r" using assms by (auto simp: has_prefix_def intro: that [of "drop 2 t"])
     (metis append_take_drop_id append_Cons append_Nil)
  have "runes t = 109 # 117 # runes r" unfolding t
    using runes_ascii_Cons [of "CHR ''m''"] runes_ascii_Cons [of "CHR ''u''"] by (simp add: byte_def)
  moreover have "runes ''message/rfc822'' = map byte ''message/rfc822''" "runes ''message/global'' = map byte ''message/global''"
    by (rule runes_ascii, simp add: ascii_def byte_def)+
  ultimately show ?thesis
    by (simp add: is_encapsulated_def equal_fold_def byte_def fold_rune_def)
qed

lemma parse_multipart_ok:
  assumes "index_ok ix" and "parser_ok ix parse" and "end' \<le> ri_indexed_end ix" and "within (ri_limits ix) st"
    and "parse_multipart parse ix i lo end' depth st = Some ((i', cs, complete), st')"
  shows "forest_ok ix (nd_path i) 0 (depth + 1) lo end' st st' cs"
    "nd_path i' = nd_path i" "nd_raw_header i' = nd_raw_header i" "nd_raw_body i' = nd_raw_body i"
    "nd_header_fields i' = nd_header_fields i" "nd_media_type i' = nd_media_type i"
    "cs = [] \<or> has_prefix (nd_media_type i) ''multipart/''"
proof -
  let ?ds = "boundary_lines ix lo end' (param (nd_media_params i) ''boundary'')"
  note parts = parse_parts_ok [OF assms(1-3) boundary_lines_ok [OF assms(1)] assms(4)]
  show "forest_ok ix (nd_path i) 0 (depth + 1) lo end' st st' cs"
    using assms(4,5) by (auto simp: parse_multipart_def Let_def intro: forest_ok_Nil dest: parts split: if_splits option.splits)
qed (use assms(5) in \<open>auto simp: parse_multipart_def Let_def split: if_splits option.splits\<close>)

lemma parse_encapsulated_ok:
  assumes "parser_ok ix parse" and "0 \<le> lo" and "end' \<le> ri_indexed_end ix" and "within (ri_limits ix) st"
    and "parse_encapsulated u parse i lo end' depth st = Some ((cs, complete), st')"
  shows "forest_ok ix (nd_path i) 0 (depth + 1) lo end' st st' cs" "cs = [] \<or> is_encapsulated u (nd_media_type i)"
proof -
  show "cs = [] \<or> is_encapsulated u (nd_media_type i)"
    using assms(5) by (auto simp: parse_encapsulated_def split: if_splits option.splits)
  show "forest_ok ix (nd_path i) 0 (depth + 1) lo end' st st' cs"
  proof (cases "is_encapsulated u (nd_media_type i) \<and> is_identity_encoding u (nd_transfer_encoding i)")
    case True
    then obtain res c st1 where p: "parse lo end' (nd_path i @ ''.1'') (depth + 1) False st = Some ((res, c), st1)"
      using assms(5) by (auto simp: parse_encapsulated_def split: option.splits)
    note one = parser_okD [OF assms(1-4) p]
    show ?thesis
    proof (cases res)
      case None
      then show ?thesis using assms(5) True p one by (auto simp: parse_encapsulated_def intro: forest_ok_Nil)
    next
      case (Some n)
      then have "cs = [n]" "st' = st1" using assms(5) True p by (auto simp: parse_encapsulated_def)
      moreover have "node_ok (ri_limits ix) (nd_path i @ ''.1'') (depth + 1) n" "node_start n = lo" "node_stop n = end'"
        using one(3) [OF Some] by auto
      ultimately show ?thesis using one(1,2) Some by (simp add: forest_ok_def part_number_1)
    qed
  next
    case False
    then have "cs = []" "st' = st" using assms(5) by (auto simp: parse_encapsulated_def)
    then show ?thesis using assms(4) by (simp add: forest_ok_def)
  qed
qed

lemma index_info_simps [simp]:
  "nd_path (index_info L ix path digest fs h b) = path"
  "nd_raw_header (index_info L ix path digest fs h b) = h"
  "nd_raw_body (index_info L ix path digest fs h b) = b"
  "nd_header_fields (index_info L ix path digest fs h b) = fs"
  by (simp_all add: index_info_def Let_def blank_info_def split_beta)

lemma parse_entity_step:
  assumes "parse_entity (Suc fuel) L ix start end' path depth digest st = Some ((res, complete), st')"
  obtains (refused) "res = None" "st' = st \<or> (\<exists>c. st' = add_cause c st)"
  | (entity) h b fs i parts all_parts st1 inner all_inner where
      "\<not> (0 < max_depth (ri_limits ix) \<and> max_depth (ri_limits ix) < depth)"
      "\<not> (0 < max_parts (ri_limits ix) \<and> max_parts (ri_limits ix) \<le> ist_parts st)"
      "header_end_loop ix end' (lines_from ix start) = Some (h, b)" "b \<le> end'"
      "fs = header_fields_in ix start h" "header_over_limit (ri_limits ix) st (b - start) (int (length fs)) = None"
      "parse_multipart (parse_entity fuel L ix) ix
         (index_info L ix path digest fs (range_of start h) (range_of b end')) b end' depth
         (account (b - start) (int (length fs)) st) = Some ((i, parts, all_parts), st1)"
      "parse_encapsulated (ml_unicode L) (parse_entity fuel L ix) i b end' depth st1 = Some ((inner, all_inner), st')"
      "res = Some (Node (i\<lparr>nd_complete := complete\<rparr>) (parts @ inner))"
proof (cases "(0 < max_depth (ri_limits ix) \<and> max_depth (ri_limits ix) < depth)
    \<or> (0 < max_parts (ri_limits ix) \<and> max_parts (ri_limits ix) \<le> ist_parts st)")
  case True
  then show thesis using assms refused by (auto simp: Let_def split: if_splits)
next
  case False
  then have ok: "\<not> (0 < max_depth (ri_limits ix) \<and> max_depth (ri_limits ix) < depth)"
      "\<not> (0 < max_parts (ri_limits ix) \<and> max_parts (ri_limits ix) \<le> ist_parts st)" by auto
  note run = assms [unfolded parse_entity.simps Let_def, simplified if_not_P [OF ok(1)] if_not_P [OF ok(2)]]
  show thesis
  proof (cases "header_end_loop ix end' (lines_from ix start)")
    case None
    then show thesis using run refused by simp
  next
    case (Some hb)
    obtain h b where hb: "hb = (h, b)" by (cases hb)
    show thesis
    proof (cases "end' < b \<or> header_over_limit (ri_limits ix) st (b - start) (int (length (header_fields_in ix start h))) \<noteq> None")
      case True
      then show thesis using run refused Some hb by (auto split: if_splits) blast
    next
      case go: False
      then show thesis
        using run entity [OF ok, of h b] Some hb by (auto split: option.splits prod.splits)
    qed
  qed
qed

lemma parse_entity_ok:
  assumes "index_ok ix"
  shows "parser_ok ix (parse_entity fuel L ix)"
proof (induction fuel)
  case (Suc fuel)
  show ?case
    unfolding parser_ok_def
  proof (intro allI impI)
    fix start end' path depth digest st res complete st'
    assume start: "0 \<le> start" and end': "end' \<le> ri_indexed_end ix" and st: "within (ri_limits ix) st"
      and run: "parse_entity (Suc fuel) L ix start end' path depth digest st = Some ((res, complete), st')"
    from run show "within (ri_limits ix) st' \<and> accounts st st' (case res of None \<Rightarrow> [] | Some n \<Rightarrow> nodes n)
        \<and> (\<forall>n. res = Some n \<longrightarrow> node_ok (ri_limits ix) path depth n \<and> node_start n = start \<and> node_stop n = end')"
    proof (cases rule: parse_entity_step)
      case refused
      then show ?thesis using st by auto
    next
      case (entity h b fs i parts all_parts st1 inner all_inner)
      note at = header_end_at [OF assms entity(3)]
      let ?st0 = "account (b - start) (int (length fs)) st"
      have st0: "within (ri_limits ix) ?st0" by (rule within_account [OF st entity(2,6)])
      note m = parse_multipart_ok [OF assms Suc.IH end' st0 entity(7)]
      have st1: "within (ri_limits ix) st1" "accounts ?st0 st1 (concat (map nodes parts))"
        using m(1) by (auto simp: forest_ok_def)
      have b0: "0 \<le> b" using start at by simp
      note e = parse_encapsulated_ok [OF Suc.IH b0 end' st1(1) entity(8)]
      have excl: "parts = [] \<or> inner = []"
        using m(6,7) e(2) multipart_not_encapsulated [of "nd_media_type i" "ml_unicode L"] by auto
      have cs: "nodes_ok (ri_limits ix) path 0 (depth + 1) b end' (parts @ inner)"
        using m(1,2) e(1) excl by (auto simp: forest_ok_def)
      have acc: "accounts ?st0 st' (concat (map nodes (parts @ inner)))"
        using accounts_trans [OF st1(2), of st' "concat (map nodes inner)"] e(1) by (simp add: forest_ok_def)
      have "node_ok (ri_limits ix) path depth (Node (i\<lparr>nd_complete := complete\<rparr>) (parts @ inner))"
        using cs m(2-4) at start entity(1,4) by auto
      moreover have "accounts st st' (nodes (Node (i\<lparr>nd_complete := complete\<rparr>) (parts @ inner)))"
        using acc m(3-5) by (auto simp: accounts_def account_def header_block_def)
      ultimately show ?thesis
        using e(1) entity(9) m(3,4) by (auto simp: forest_ok_def node_start_def node_stop_def)
    qed
  qed
qed (simp add: parser_ok_def)

end
