(* ===== verification/Mime_Index_Props.thy ===== *)
theory Mime_Index_Props
  imports Mime_Tree
begin

text \<open>
  What \<open>buildRawIndex\<close> and \<open>indexDecodedMessage\<close> promise: they always return, the tree is well
  formed and inside the limits, its paths identify its parts, and the lines hold the bytes.
\<close>

section \<open>Trees\<close>

lemma nodes_ok_height:
  fixes n :: "('h, 'e) node" and cs :: "('h, 'e) node list"
  shows "node_ok lim path depth n \<Longrightarrow> max_depth lim \<le> 0 \<or> depth + int (height n) \<le> max_depth lim + 1"
  "nodes_ok lim path k depth lo hi cs \<Longrightarrow> max_depth lim \<le> 0 \<or> (\<forall>c\<in>set cs. depth + int (height c) \<le> max_depth lim + 1)"
proof (induction lim path depth n and lim path k depth lo hi cs rule: node_ok_nodes_ok.induct)
  case (1 lim path depth i cs)
  show ?case
  proof (cases "max_depth lim \<le> 0")
    case False
    then have d: "depth \<le> max_depth lim" and "\<forall>c\<in>set cs. height c \<le> nat (max_depth lim - depth)"
      using 1 by auto
    then have "height (Node i cs) \<le> Suc (nat (max_depth lim - depth))" by (simp only: height_Node_le)
    then show ?thesis using d by linarith
  qed simp
qed auto

lemma node_ok_paths:
  fixes n :: "('h, 'e) node" and cs :: "('h, 'e) node list"
  shows "node_ok lim path depth n \<Longrightarrow> paths_ok path n"
    "nodes_ok lim path k depth lo hi cs \<Longrightarrow> numbered_from path k cs"
  by (induction lim path depth n and lim path k depth lo hi cs rule: node_ok_nodes_ok.induct) auto

section \<open>The index of a message\<close>

lemma scan_index_ok:
  assumes "scan_lines lim raw end' eof = (lines, indexed, over)" "0 \<le> end'" "end' \<le> int (length raw)"
    "ri_raw ix = raw" "ri_lines ix = lines" "ri_indexed_end ix = indexed"
  shows "index_ok ix" "0 \<le> indexed" "indexed \<le> int (length raw)"
  using scan_lines_ok [OF assms(1-3)] chain_order [of raw 0 lines indexed] assms(3-6) by (auto simp: index_ok_def)

lemma index_root_spec:
  assumes "index_ok ix" and "0 \<le> ri_indexed_end ix" "ri_indexed_end ix \<le> int (length (ri_raw ix))"
    and "within (ri_limits ix) st"
  obtains root st' where "index_root L ix path depth st = Some (root, st')" "within (ri_limits ix) st'"
    "accounts st st' (case root of None \<Rightarrow> [] | Some n \<Rightarrow> nodes n)"
    "\<And>n. root = Some n \<Longrightarrow> node_ok (ri_limits ix) path depth n \<and> node_start n = 0 \<and> node_stop n = ri_indexed_end ix"
proof -
  have "nat (ri_indexed_end ix - 0) < Suc (length (ri_raw ix))" using assms(3) by simp
  from parse_entity_returns [OF assms(1) this]
  obtain root complete st' where run:
    "parse_entity (Suc (length (ri_raw ix))) L ix 0 (ri_indexed_end ix) path depth False st = Some ((root, complete), st')"
    by (metis not_None_eq surj_pair)
  note ok = parser_okD [OF parse_entity_ok [OF assms(1)] order_refl order_refl assms(4) run]
  have "index_root L ix path depth st = Some (root, st')" unfolding index_root_def run by simp
  then show thesis using that ok by blast
qed

lemma info_mark_root [simp]:
  "node_start (mark_root c n) = node_start n" "node_stop (mark_root c n) = node_stop n"
  "node_ok lim path depth (mark_root c n) = node_ok lim path depth n"
  "height (mark_root c n) = height n" "length (nodes (mark_root c n)) = length (nodes n)"
  by (cases n; simp add: mark_root_def node_start_def node_stop_def)+

lemma mark_root_path [simp]: "path_of (mark_root c n) = path_of n"
  by (cases n) (simp add: mark_root_def path_of_def)

text \<open>The nodes of a forest agree on what the counters and the well-formedness look at.\<close>

lemma accounts_mark_root [simp]: "accounts st st' (nodes (mark_root c n)) = accounts st st' (nodes n)"
  by (cases n) (simp add: mark_root_def accounts_def header_block_def)

lemma set_decoded_raw_info [simp]:
  "node_start (set_decoded_raw raw n) = node_start n" "node_stop (set_decoded_raw raw n) = node_stop n"
  "header_block (set_decoded_raw raw n) = header_block n"
  "nd_header_fields (info (set_decoded_raw raw n)) = nd_header_fields (info n)"
  by (cases n; simp add: node_start_def node_stop_def header_block_def)+

lemma nodes_set_decoded_raw: "nodes (set_decoded_raw raw n) = map (set_decoded_raw raw) (nodes n)"
  by (induction n rule: nodes.induct) (auto simp: map_concat o_def cong: map_cong)

lemma accounts_set_decoded_raw [simp]:
  "accounts st st' (nodes (set_decoded_raw raw n)) = accounts st st' (nodes n)"
  by (simp add: accounts_def nodes_set_decoded_raw o_def)

lemma node_ok_set_decoded_raw:
  fixes n :: "('h, 'e) node" and cs :: "('h, 'e) node list"
  shows "node_ok lim path depth n \<Longrightarrow> node_ok lim path depth (set_decoded_raw raw n)"
  "nodes_ok lim path k depth lo hi cs \<Longrightarrow> nodes_ok lim path k depth lo hi (map (set_decoded_raw raw) cs)"
  by (induction lim path depth n and lim path k depth lo hi cs rule: node_ok_nodes_ok.induct) auto

lemma node_ok_cong:
  fixes n :: "('h, 'e) node" and cs :: "('h, 'e) node list"
  shows "max_depth lim = max_depth lim' \<Longrightarrow> node_ok lim path depth n = node_ok lim' path depth n"
    "max_depth lim = max_depth lim' \<Longrightarrow> nodes_ok lim path k depth lo hi cs = nodes_ok lim' path k depth lo hi cs"
  by (induction lim path depth n and lim path k depth lo hi cs rule: node_ok_nodes_ok.induct) auto

definition tree_spec :: "limits \<Rightarrow> bytes \<Rightarrow> int \<Rightarrow> raw_index \<Rightarrow> index_state \<Rightarrow> index_state \<Rightarrow> ('h, 'e) node option \<Rightarrow> bool" where
  "tree_spec lim path depth ix st st' root \<longleftrightarrow>
     accounts st st' (case root of None \<Rightarrow> [] | Some n \<Rightarrow> nodes n)
     \<and> (case root of None \<Rightarrow> True
        | Some n \<Rightarrow> node_ok lim path depth n \<and> node_start n = 0 \<and> node_stop n = ri_indexed_end ix)"

lemma build_raw_index_spec:
  obtains ix root st st0 where "build_raw_index L raw lim = Some (ix, root, st)" "index_ok ix" "ri_raw ix = raw"
    "ri_limits ix = lim" "ri_indexed_end ix \<le> int (length raw)" "within lim st"
    "ist_parts st0 = 0" "ist_header_fields st0 = 0" "ist_header_bytes st0 = 0" "ist_decoded_lines st0 = 0"
    "tree_spec lim ''1'' 1 ix st0 st root"
    "max_physical_lines lim \<le> 0 \<or> int (length (ri_lines ix)) \<le> max_physical_lines lim"
proof -
  define cut where "cut \<longleftrightarrow> 0 < max_raw_bytes lim \<and> max_raw_bytes lim < int (length raw)"
  define end' where "end' = (if cut then max_raw_bytes lim else int (length raw))"
  obtain lines indexed over where scan: "scan_lines lim raw end' (\<not> cut) = (lines, indexed, over)" by (metis surj_pair)
  define st1 where "st1 = (if cut then add_cause ''raw bytes'' new_index_state else new_index_state)"
  define st0 where "st0 = (if over then add_cause ''physical lines'' st1 else st1)"
  define ix where "ix = \<lparr>ri_raw = raw, ri_lines = lines, ri_indexed_end = indexed,
    ri_complete = (\<not> cut \<and> indexed = int (length raw)), ri_limits = lim\<rparr>"
  have e: "0 \<le> end'" "end' \<le> int (length raw)" by (auto simp: end'_def cut_def)
  note ok = scan_index_ok [OF scan e, of ix]
  have counts: "ist_parts st0 = 0" "ist_header_fields st0 = 0" "ist_header_bytes st0 = 0" "ist_decoded_lines st0 = 0"
    by (simp_all add: st0_def st1_def new_index_state_def add_cause_def)
  then have w: "within lim st0" by (auto simp: within_def)
  have lim: "max_physical_lines lim \<le> 0 \<or> int (length (ri_lines ix)) \<le> max_physical_lines lim"
    using scan_lines_ok [OF scan e] by (auto simp: ix_def)
  note build = build_raw_index_def [of L raw lim, unfolded Let_def, folded cut_def, folded end'_def, unfolded scan,
      simplified prod.case, folded st1_def, folded st0_def, folded ix_def]
  show thesis
  proof (cases "cut \<or> raw = [] \<or> indexed = 0")
    case True
    then have "build_raw_index L raw lim = Some (ix, None, st0)" unfolding build by simp
    then show thesis
      using that [of ix None st0 st0] ok counts w lim by (simp add: ix_def tree_spec_def)
  next
    case False
    obtain root st' where root: "index_root L ix ''1'' 1 st0 = Some (root, st')" "within (ri_limits ix) st'"
        "accounts st0 st' (case root of None \<Rightarrow> [] | Some n \<Rightarrow> nodes n)"
        "\<And>n. root = Some n \<Longrightarrow> node_ok (ri_limits ix) ''1'' 1 n \<and> node_start n = 0 \<and> node_stop n = ri_indexed_end ix"
      using index_root_spec [of ix st0 L "''1''" 1] ok w by (auto simp: ix_def)
    have "build_raw_index L raw lim = Some (ix, map_option (mark_root (ri_complete ix)) root, st')"
      using False unfolding build by (simp add: root(1))
    moreover have "tree_spec lim ''1'' 1 ix st0 st' (map_option (mark_root (ri_complete ix)) root)"
      using root(3,4) by (cases root) (auto simp: tree_spec_def ix_def)
    ultimately show thesis
      using that [of ix _ st' st0] ok counts root(2) lim by (simp add: ix_def)
  qed
qed


lemma index_decoded_spec:
  assumes "within lim st"
  obtains ix root st' where "index_decoded_message L lim n_lines raw path depth st = Some (ix, root, st')"
    "within lim st'" "ist_causes st \<subseteq> ist_causes st'" "ist_parts st \<le> ist_parts st'"
    "max_depth (ri_limits ix) = max_depth lim"
    "case root of None \<Rightarrow> True
     | Some n \<Rightarrow> node_ok lim path depth n \<and> node_start n = 0 \<and> node_stop n = ri_indexed_end ix
         \<and> ist_parts st' = ist_parts st + int (length (nodes n))"
proof -
  let ?remaining = "max_physical_lines lim - n_lines - ist_decoded_lines st"
  show thesis
  proof (cases "0 < max_physical_lines lim \<and> ?remaining \<le> 0")
    case True
    then show thesis using assms that by (auto simp: index_decoded_message_def Let_def add_cause_def within_def)
  next
    case False
    define lim1 where "lim1 = (if 0 < max_physical_lines lim then lim\<lparr>max_physical_lines := ?remaining\<rparr> else lim)"
    obtain lines indexed over where scan: "scan_lines lim1 raw (int (length raw)) True = (lines, indexed, over)"
      by (metis surj_pair)
    define st0 where "st0 = (if over then add_cause ''physical lines'' st else st)"
    define ix where "ix = \<lparr>ri_raw = raw, ri_lines = lines, ri_indexed_end = indexed,
      ri_complete = (indexed = int (length raw)), ri_limits = lim1\<rparr>"
    define counted where "counted = (\<lambda>st :: index_state. st\<lparr>ist_decoded_lines := ist_decoded_lines st + int (length lines)\<rparr>)"
    have counted: "within lim (counted t) = within lim t" "ist_parts (counted t) = ist_parts t"
      "ist_causes (counted t) = ist_causes t" for t
      by (simp_all add: counted_def within_def)
    have lim1: "max_depth lim1 = max_depth lim" "within lim1 t = within lim t" for t
      by (simp_all add: lim1_def within_def)
    have st0: "within lim st0" "ist_causes st \<subseteq> ist_causes st0" "ist_parts st0 = ist_parts st"
      using assms by (auto simp: st0_def add_cause_def within_def)
    have node_ok_lim1: "node_ok lim1 p d n = node_ok lim p d n" for p d and n :: "('a, 'b) node"
      using node_ok_cong [of lim1 lim] by (simp add: lim1(1))
    note run = index_decoded_message_def [of L lim n_lines raw path depth st, unfolded Let_def,
        simplified if_not_P [OF False], folded lim1_def, unfolded scan, simplified prod.case,
        folded st0_def, folded ix_def, folded counted_def]
    note ok = scan_index_ok [OF scan _ order_refl, of ix]
    show thesis
    proof (cases "indexed = 0")
      case True
      have "index_decoded_message L lim n_lines raw path depth st = Some (ix, None, counted st0)"
        using True unfolding run by (simp add: counted_def)
      then show thesis using that [of ix None "counted st0"] st0 counted lim1 by (simp add: ix_def)
    next
      case nz: False
      obtain root st' where root: "index_root L ix path depth st0 = Some (root, st')" "within (ri_limits ix) st'"
          "accounts st0 st' (case root of None \<Rightarrow> [] | Some n \<Rightarrow> nodes n)"
          "\<And>n. root = Some n \<Longrightarrow> node_ok (ri_limits ix) path depth n \<and> node_start n = 0 \<and> node_stop n = ri_indexed_end ix"
        using index_root_spec [of ix st0 L path depth] ok st0(1) by (auto simp: ix_def lim1)
      have "index_decoded_message L lim n_lines raw path depth st
          = Some (ix, map_option (set_decoded_raw raw) root, counted st')"
        using nz unfolding run by (simp add: root(1) counted_def)
      moreover have "ist_causes st \<subseteq> ist_causes st'"
        using order_trans [OF st0(2)] root(3) by (auto simp: accounts_def)
      ultimately show thesis
        using that root st0 counted lim1
        by (cases root) (auto simp: ix_def accounts_def node_ok_lim1 nodes_set_decoded_raw
            intro: node_ok_set_decoded_raw(1))
    qed
  qed
qed


section \<open>Properties\<close>

text \<open>
  C7. \<open>buildRawIndex\<close> returns on every input: the recursion of \<open>parseEntity\<close>, whose depth the
  limits need not bound, ends because every part starts after a blank line of the part around it.
  The counters it returns are within the limits, and are exactly what the tree holds: as many parts
  as nodes, and their header fields and header bytes; the tree is no deeper than the limit on depth,
  and there are no more lines than the limit on lines.
\<close>

theorem raw_index_within_limits:
  "\<exists>ix root st. build_raw_index L raw lim = Some (ix, root, st) \<and> within lim st
     \<and> (max_physical_lines lim \<le> 0 \<or> int (length (ri_lines ix)) \<le> max_physical_lines lim)
     \<and> (case root of None \<Rightarrow> ist_parts st = 0
        | Some n \<Rightarrow> ist_parts st = int (length (nodes n))
            \<and> ist_header_fields st = sum_list (map (\<lambda>m. int (length (nd_header_fields (info m)))) (nodes n))
            \<and> ist_header_bytes st = sum_list (map header_block (nodes n))
            \<and> (max_depth lim \<le> 0 \<or> int (height n) \<le> max_depth lim))"
proof -
  obtain ix root st st0 where b: "build_raw_index L raw lim = Some (ix, root, st)" "within lim st"
    "ist_parts st0 = 0" "ist_header_fields st0 = 0" "ist_header_bytes st0 = 0" "tree_spec lim ''1'' 1 ix st0 st root"
    "max_physical_lines lim \<le> 0 \<or> int (length (ri_lines ix)) \<le> max_physical_lines lim"
    by (rule build_raw_index_spec [of L raw lim])
  have "max_depth lim \<le> 0 \<or> int (height n) \<le> max_depth lim" if "root = Some n" for n
    using b(6) that nodes_ok_height(1) [of lim "''1''" 1 n] by (auto simp: tree_spec_def)
  then show ?thesis
    using b by (intro exI [of _ ix] exI [of _ root] exI [of _ st]) (cases root; auto simp: tree_spec_def accounts_def)
qed

text \<open>
  C18. The tree of the index is well formed: the root spans the indexed bytes; in every node the
  header comes before the body; the children lie inside the body, one after the other; each child's
  path is its parent's path and its number from one.  So a path names at most one part.
\<close>

theorem raw_index_tree:
  "case build_raw_index L raw lim of
     None \<Rightarrow> False
   | Some (ix, None, st) \<Rightarrow> True
   | Some (ix, Some n, st) \<Rightarrow>
       node_ok lim ''1'' 1 n \<and> node_start n = 0 \<and> node_stop n = ri_indexed_end ix
       \<and> ri_indexed_end ix \<le> int (length raw) \<and> distinct (map path_of (nodes n))"
proof -
  obtain ix root st st0 where b: "build_raw_index L raw lim = Some (ix, root, st)"
    "ri_indexed_end ix \<le> int (length raw)" "tree_spec lim ''1'' 1 ix st0 st root"
    by (rule build_raw_index_spec [of L raw lim])
  then show ?thesis
    by (cases root) (auto simp: tree_spec_def intro: paths_distinct node_ok_paths(1))
qed

text \<open>
  \<open>scanLines\<close> loses nothing: the lines with their terminators, put together again, are the
  indexed bytes, which are all of them unless the limit on lines stopped the scan.
\<close>

theorem scan_lines_roundtrip:
  "let (lines, indexed, over) = scan_lines lim raw (int (length raw)) True in
   concat (map (line_bytes raw) lines) = take (nat indexed) raw \<and> (over \<or> indexed = int (length raw))
   \<and> list_all (\<lambda>l. LF \<notin> set (slice raw (br_start (pl_raw l)) (br_end (pl_raw l)))) lines"
proof -
  obtain lines indexed over where scan: "scan_lines lim raw (int (length raw)) True = (lines, indexed, over)"
    by (metis surj_pair)
  note ok = scan_lines_ok [OF scan _ order_refl]
  have c: "chain raw 0 lines indexed" using ok by simp
  have "LF \<notin> set (slice raw (br_start (pl_raw l)) (br_end (pl_raw l)))" if "l \<in> set lines" for l
    using chain_nth [OF c] that by (auto simp: in_set_conv_nth line_ok_def Let_def)
  then show ?thesis
    using ok chain_bytes [OF c] by (auto simp: scan slice_def list_all_iff)
qed

text \<open>The binary search \<open>lineAtOrAfter\<close> finds what a linear search over the lines of the index finds.\<close>

theorem line_search_is_linear_search:
  "\<exists>ix root st. build_raw_index L raw lim = Some (ix, root, st) \<and> line_at_or_after ix offset = first_line_from ix offset"
proof -
  obtain ix root st st0 where "build_raw_index L raw lim = Some (ix, root, st)" "index_ok ix"
    by (rule build_raw_index_spec [of L raw lim])
  then show ?thesis using line_at_or_after_eq by blast
qed

end
