(* ===== verification/Mime_Presentation.thy ===== *)
theory Mime_Presentation
  imports Mime_Types "HOL-Library.Multiset"
begin

text \<open>
  \<open>internal/mimeparse/presentation.go\<close>: which parts of a message are its text and its HTML body,
  and which are attachments.
\<close>

section \<open>Names\<close>

definition filename :: "('h, 'e) node \<Rightarrow> bytes" where
  "filename n =
     (if param (nd_disposition_params (info n)) ''filename'' \<noteq> []
      then param (nd_disposition_params (info n)) ''filename''
      else param (nd_media_params (info n)) ''name'')"

definition normalize_content_id :: "unicode \<Rightarrow> bytes \<Rightarrow> bytes" where
  "normalize_content_id u val =
     (let val = trim_space val;
          val = (if 4 \<le> length val \<and> equal_fold u (take 4 val) ''cid:'' then drop 4 val else val) in
      trim_set [CHR ''<'', CHR ''>''] (trim_space val))"

definition calendar_media_type :: "unicode \<Rightarrow> bytes \<Rightarrow> bytes \<Rightarrow> bool" where
  "calendar_media_type u content_type name \<longleftrightarrow>
     contains (to_lower u content_type) ''text/calendar'' \<or> contains (to_lower u content_type) ''application/ics''
     \<or> has_suffix (to_lower u name) ''.ics''"

text \<open>Content that cannot be read: a malformed type or an unknown transfer encoding.\<close>

definition unreadable :: "('h, 'e) mime_lib \<Rightarrow> ('h, 'e) node \<Rightarrow> bool" where
  "unreadable L n \<longleftrightarrow> nd_malformed_content_type (info n) \<or> unsupported_encoding L (nd_decode_error (info n))"

section \<open>Attachments\<close>

definition candidate :: "('h, 'e) node \<Rightarrow> bool \<Rightarrow> ('h, 'e) attachment_candidate" where
  "candidate n expose = \<lparr>ac_node = n, ac_expose_content_id = expose\<rparr>"

text \<open>\<open>appendAttachments\<close>; \<open>related\<close> is the mode \<open>attachmentCollectionSelectedRelated\<close>.\<close>

fun append_attachments ::
  "unicode \<Rightarrow> bool \<Rightarrow> ('h, 'e) attachment_candidate list \<Rightarrow> ('h, 'e) node \<Rightarrow> ('h, 'e) attachment_candidate list"
  and append_attachments_list ::
  "unicode \<Rightarrow> bool \<Rightarrow> ('h, 'e) attachment_candidate list \<Rightarrow> ('h, 'e) node list \<Rightarrow> ('h, 'e) attachment_candidate list" where
  "append_attachments u related atts (Node i cs) =
     (if is_encapsulated u (nd_media_type i) then atts @ [candidate (Node i cs) related]
      else if cs \<noteq> [] then append_attachments_list u related atts cs
      else atts @ [candidate (Node i cs) (related \<or> equal_fold u (nd_disposition i) ''inline'')])"
| "append_attachments_list u related atts [] = atts"
| "append_attachments_list u related atts (c # cs) =
     append_attachments_list u related (append_attachments u related atts c) cs"

definition same_calendar :: "('h, 'e) node \<Rightarrow> ('h, 'e) node \<Rightarrow> bool" where
  "same_calendar l r \<longleftrightarrow>
     filename l = filename r \<and> nd_media_type (info l) = nd_media_type (info r)
     \<and> nd_decoded_body (info l) = nd_decoded_body (info r)"

definition calendar_leaf :: "('h, 'e) mime_lib \<Rightarrow> ('h, 'e) node \<Rightarrow> bool" where
  "calendar_leaf L n \<longleftrightarrow>
     \<not> unreadable L n \<and> calendar_media_type (ml_unicode L) (nd_media_type (info n)) (filename n)"

fun append_calendar ::
  "('h, 'e) mime_lib \<Rightarrow> ('h, 'e) attachment_candidate list \<Rightarrow> ('h, 'e) node \<Rightarrow> ('h, 'e) attachment_candidate list"
  and append_calendar_list ::
  "('h, 'e) mime_lib \<Rightarrow> ('h, 'e) attachment_candidate list \<Rightarrow> ('h, 'e) node list \<Rightarrow> ('h, 'e) attachment_candidate list" where
  "append_calendar L atts (Node i cs) =
     (if cs \<noteq> [] then append_calendar_list L atts cs
      else if \<not> calendar_leaf L (Node i cs) then atts
      else if list_ex (\<lambda>a. same_calendar (ac_node a) (Node i cs)) atts then atts
      else atts @ [candidate (Node i cs) False])"
| "append_calendar_list L atts [] = atts"
| "append_calendar_list L atts (c # cs) = append_calendar_list L (append_calendar L atts c) cs"

section \<open>Selection\<close>

definition select_leaf :: "('h, 'e) mime_lib \<Rightarrow> ('h, 'e) node \<Rightarrow> ('h, 'e) presentation" where
  "select_leaf L n =
     (if unreadable L n then no_presentation
      else
        (let attachment = equal_fold (ml_unicode L) (nd_disposition (info n)) ''attachment'' \<or> filename n \<noteq> [] in
         if \<not> attachment \<and> nd_media_type (info n) = ''text/plain''
         then no_presentation\<lparr>pr_text := Some n, pr_supported := True\<rparr>
         else if \<not> attachment \<and> nd_media_type (info n) = ''text/html''
         then no_presentation\<lparr>pr_html := Some n, pr_supported := True\<rparr>
         else no_presentation))"

text \<open>
  The first loop of \<open>selectAlternative\<close> over the numbered candidates: the last supported one, its
  index, the nearest plain text before it, and the nearest plain text so far.
\<close>

record ('h, 'e) alternative =
  al_selected :: "('h, 'e) presentation"
  al_index :: "nat option"
  al_fallback :: "('h, 'e) node option"
  al_nearest :: "('h, 'e) node option"

definition alternative_step ::
  "nat \<times> ('h, 'e) presentation \<Rightarrow> ('h, 'e) alternative \<Rightarrow> ('h, 'e) alternative" where
  "alternative_step c a =
     (if \<not> pr_supported (snd c) then a
      else
        (let a = a\<lparr>al_selected := snd c, al_index := Some (fst c), al_fallback := al_nearest a\<rparr> in
         if pr_text (snd c) \<noteq> None \<and> pr_html (snd c) = None then a\<lparr>al_nearest := pr_text (snd c)\<rparr> else a))"

definition alternatives :: "('h, 'e) presentation list \<Rightarrow> ('h, 'e) alternative" where
  "alternatives ps =
     fold alternative_step (enumerate 0 ps)
       \<lparr>al_selected = no_presentation, al_index = None, al_fallback = None, al_nearest = None\<rparr>"

text \<open>The children other than the one with a given index.\<close>

definition others :: "nat option \<Rightarrow> 'a list \<Rightarrow> 'a list" where
  "others k xs = map snd (filter (\<lambda>p. Some (fst p) \<noteq> k) (enumerate 0 xs))"

definition select_alternative ::
  "('h, 'e) mime_lib \<Rightarrow> ('h, 'e) node list \<Rightarrow> ('h, 'e) presentation list \<Rightarrow> ('h, 'e) presentation" where
  "select_alternative L cs ps =
     (let a = alternatives ps; p = al_selected a;
          p = (if pr_html p \<noteq> None \<and> pr_text p = None then p\<lparr>pr_text := al_fallback a\<rparr> else p) in
      p\<lparr>pr_attachments := append_calendar_list L (pr_attachments p) (others (al_index a) cs)\<rparr>)"

text \<open>\<open>selectMixed\<close>: the first supported candidate is shown, everything else is attached.\<close>

fun mixed_loop ::
  "unicode \<Rightarrow> (('h, 'e) node \<times> ('h, 'e) presentation) list \<Rightarrow> ('h, 'e) presentation
     \<Rightarrow> ('h, 'e) attachment_candidate list \<Rightarrow> ('h, 'e) presentation" where
  "mixed_loop u [] selected atts = selected\<lparr>pr_attachments := pr_attachments selected @ atts\<rparr>"
| "mixed_loop u ((c, p) # cps) selected atts =
     (if \<not> pr_supported selected \<and> pr_supported p then mixed_loop u cps p atts
      else mixed_loop u cps selected (append_attachments u False atts c))"

definition select_mixed ::
  "unicode \<Rightarrow> ('h, 'e) node list \<Rightarrow> ('h, 'e) presentation list \<Rightarrow> ('h, 'e) presentation" where
  "select_mixed u cs ps = mixed_loop u (zip cs ps) no_presentation []"

text \<open>\<open>selectRelated\<close>: the part named by \<open>start\<close>, or the first; the others are attached to it.\<close>

definition related_root ::
  "('h, 'e) mime_lib \<Rightarrow> ('h, 'e) node_info \<Rightarrow> ('h, 'e) node list \<Rightarrow> nat option" where
  "related_root L i cs =
     (let u = ml_unicode L; start = normalize_content_id u (param (nd_media_params i) ''start'') in
      if start = [] then Some 0
      else map_option fst
             (find (\<lambda>p. normalize_content_id u (ml_get L (nd_header (info (snd p))) ''Content-Id'') = start)
                (enumerate 0 cs)))"

definition select_related ::
  "('h, 'e) mime_lib \<Rightarrow> ('h, 'e) node_info \<Rightarrow> ('h, 'e) node list \<Rightarrow> ('h, 'e) presentation list
     \<Rightarrow> ('h, 'e) presentation" where
  "select_related L i cs ps =
     (if cs = [] then no_presentation
      else
        (case related_root L i cs of
           None \<Rightarrow> no_presentation
         | Some k \<Rightarrow>
             (let p = ps ! k in
              if \<not> pr_supported p then no_presentation
              else p\<lparr>pr_attachments :=
                append_attachments_list (ml_unicode L) True (pr_attachments p) (others (Some k) cs)\<rparr>)))"

fun select_presentation :: "('h, 'e) mime_lib \<Rightarrow> ('h, 'e) node \<Rightarrow> ('h, 'e) presentation" where
  "select_presentation L (Node i cs) =
     (let ps = map (select_presentation L) cs in
      if cs = [] then select_leaf L (Node i cs)
      else if is_encapsulated (ml_unicode L) (nd_media_type i) then no_presentation
      else if nd_media_type i = ''multipart/alternative'' then select_alternative L cs ps
      else if nd_media_type i = ''multipart/related'' then select_related L i cs ps
      else select_mixed (ml_unicode L) cs ps)"

text \<open>\<open>SelectPresentation\<close>, for a node that may be missing.\<close>

definition select_presentation_opt :: "('h, 'e) mime_lib \<Rightarrow> ('h, 'e) node option \<Rightarrow> ('h, 'e) presentation" where
  "select_presentation_opt L n = (case n of None \<Rightarrow> no_presentation | Some n \<Rightarrow> select_presentation L n)"

end
