(* ===== verification/Mime_Presentation_Props.thy ===== *)
theory Mime_Presentation_Props
  imports Mime_Presentation
begin

text \<open>
  What the selection promises: the bodies are readable leaves of the right type, no part is shown
  twice, and outside alternatives and related parts none is lost.
\<close>

section \<open>Leaves\<close>

fun leaves :: "('h, 'e) node \<Rightarrow> ('h, 'e) node list" where
  "leaves (Node i cs) = (if cs = [] then [Node i cs] else concat (map leaves cs))"

definition att_leaves :: "('h, 'e) attachment_candidate list \<Rightarrow> ('h, 'e) node list" where
  "att_leaves atts = concat (map (\<lambda>a. leaves (ac_node a)) atts)"

definition presented :: "('h, 'e) presentation \<Rightarrow> ('h, 'e) node multiset" where
  "presented p = mset (att_leaves (pr_attachments p))
     + (case pr_text p of None \<Rightarrow> {#} | Some t \<Rightarrow> {#t#}) + (case pr_html p of None \<Rightarrow> {#} | Some t \<Rightarrow> {#t#})"

definition forest_leaves :: "('h, 'e) node list \<Rightarrow> ('h, 'e) node multiset" where
  "forest_leaves cs = mset (concat (map leaves cs))"

lemma forest_leaves_simps [simp]:
  "forest_leaves [] = {#}" "forest_leaves (c # cs) = mset (leaves c) + forest_leaves cs"
  "forest_leaves (xs @ ys) = forest_leaves xs + forest_leaves ys"
  by (simp_all add: forest_leaves_def)

lemma leaves_in_nodes: "set (leaves n) \<subseteq> set (nodes n)"
proof (induction n rule: leaves.induct)
  case (1 i cs)
  then show ?case by (cases "cs = []") (simp, simp, blast)
qed

lemma att_leaves_simps [simp]:
  "att_leaves [] = []" "att_leaves (xs @ ys) = att_leaves xs @ att_leaves ys"
  "att_leaves [candidate n e] = leaves n"
  by (simp_all add: att_leaves_def candidate_def)

lemma presented_none [simp]: "presented no_presentation = {#}"
  by (simp add: presented_def no_presentation_def)

lemma append_attachments_leaves:
  fixes n :: "('h, 'e) node" and cs :: "('h, 'e) node list"
  shows "att_leaves (append_attachments u r atts n) = att_leaves atts @ leaves n"
    "att_leaves (append_attachments_list u r atts cs) = att_leaves atts @ concat (map leaves cs)"
  by (induction u r atts n and u r atts cs rule: append_attachments_append_attachments_list.induct) auto

lemma filter_leaf_append:
  "mset a \<subseteq># filter_mset P (mset x) \<Longrightarrow> mset b \<subseteq># filter_mset P (mset y) \<Longrightarrow> mset (a @ b) \<subseteq># filter_mset P (mset (x @ y))"
  by (simp add: subset_mset.add_mono)

lemma append_calendar_leaves:
  fixes n :: "('h, 'e) node" and cs :: "('h, 'e) node list"
  shows "\<exists>new. att_leaves (append_calendar L atts n) = att_leaves atts @ new
      \<and> mset new \<subseteq># filter_mset (calendar_leaf L) (mset (leaves n))"
    "\<exists>new. att_leaves (append_calendar_list L atts cs) = att_leaves atts @ new
      \<and> mset new \<subseteq># filter_mset (calendar_leaf L) (mset (concat (map leaves cs)))"
proof (induction L atts n and L atts cs rule: append_calendar_append_calendar_list.induct)
  case (1 L atts i cs)
  show ?case
  proof (cases "cs = []")
    case True
    then show ?thesis by (auto intro: exI [of _ "[Node i []]"])
  qed (use 1 in simp)
next
  case (3 L atts c cs)
  obtain a where a: "att_leaves (append_calendar L atts c) = att_leaves atts @ a"
      "mset a \<subseteq># filter_mset (calendar_leaf L) (mset (leaves c))" using 3(1) by blast
  obtain b where b: "att_leaves (append_calendar_list L (append_calendar L atts c) cs) = att_leaves (append_calendar L atts c) @ b"
      "mset b \<subseteq># filter_mset (calendar_leaf L) (mset (concat (map leaves cs)))" using 3(2) by blast
  have "mset (a @ b) \<subseteq># filter_mset (calendar_leaf L) (mset (leaves c @ concat (map leaves cs)))"
    by (rule filter_leaf_append [OF a(2) b(2)])
  then show ?case using a(1) b(1) by (intro exI [of _ "a @ b"]) simp
qed simp

section \<open>Children without one\<close>

lemma enumerate_others:
  "map snd (filter (\<lambda>p. Some (fst p) \<noteq> Some k) (enumerate n xs)) =
   (if n \<le> k \<and> k < n + length xs then take (k - n) xs @ drop (Suc (k - n)) xs else xs)"
proof (induction xs arbitrary: n)
  case (Cons x xs)
  show ?case
  proof (cases "n = k")
    case True
    then show ?thesis using Cons.IH [of "Suc n"] by simp
  next
    case False
    then have "n \<le> k \<Longrightarrow> k - n = Suc (k - Suc n)" by simp
    then show ?thesis using Cons.IH [of "Suc n"] False by (cases "n \<le> k") auto
  qed
qed simp

lemma others_Some: "k < length xs \<Longrightarrow> others (Some k) xs = take k xs @ drop (Suc k) xs"
  using enumerate_others [of k 0 xs] by (simp add: others_def)

lemma others_None [simp]: "others None xs = xs"
  by (simp add: others_def)

lemma forest_leaves_split:
  assumes "k < length cs"
  shows "forest_leaves cs = mset (leaves (cs ! k)) + forest_leaves (others (Some k) cs)"
proof -
  have "cs = take k cs @ cs ! k # drop (Suc k) cs" by (rule id_take_nth_drop [OF assms])
  then have "forest_leaves cs = forest_leaves (take k cs @ cs ! k # drop (Suc k) cs)" by simp
  then show ?thesis by (simp add: others_Some [OF assms])
qed

lemma others_earlier: "j < k \<Longrightarrow> k < length cs \<Longrightarrow> cs ! j \<in> set (others (Some k) cs)"
  by (auto simp: others_Some in_set_conv_nth intro!: disjI1 exI [of _ j])

section \<open>Bodies\<close>

definition body_leaf :: "('h, 'e) mime_lib \<Rightarrow> bytes \<Rightarrow> ('h, 'e) node \<Rightarrow> bool" where
  "body_leaf L media_type n \<longleftrightarrow>
     children n = [] \<and> \<not> unreadable L n \<and> nd_media_type (info n) = media_type \<and> filename n = []
     \<and> \<not> equal_fold (ml_unicode L) (nd_disposition (info n)) ''attachment''"

definition bodies_ok :: "('h, 'e) mime_lib \<Rightarrow> ('h, 'e) node list \<Rightarrow> ('h, 'e) presentation \<Rightarrow> bool" where
  "bodies_ok L ns p \<longleftrightarrow>
     pr_supported p = (pr_text p \<noteq> None \<or> pr_html p \<noteq> None)
     \<and> (\<forall>t. pr_text p = Some t \<longrightarrow> t \<in> set ns \<and> body_leaf L ''text/plain'' t)
     \<and> (\<forall>t. pr_html p = Some t \<longrightarrow> t \<in> set ns \<and> body_leaf L ''text/html'' t)"

lemma bodies_ok_mono: "bodies_ok L ns p \<Longrightarrow> set ns \<subseteq> set ms \<Longrightarrow> bodies_ok L ms p"
  by (auto simp: bodies_ok_def)

lemma bodies_ok_none [simp]: "bodies_ok L ns no_presentation"
  by (simp add: bodies_ok_def no_presentation_def)

lemma bodies_ok_attachments [simp]: "bodies_ok L ns (p\<lparr>pr_attachments := atts\<rparr>) = bodies_ok L ns p"
  by (simp add: bodies_ok_def)

lemma presented_attachments:
  "presented (p\<lparr>pr_attachments := pr_attachments p @ atts\<rparr>) = presented p + mset (att_leaves atts)"
  by (simp add: presented_def)

lemma plain_text_not_calendar: "body_leaf L ''text/plain'' t \<Longrightarrow> \<not> calendar_leaf L t"
  by (simp add: body_leaf_def calendar_leaf_def calendar_media_type_def ascii_eval search_eval)

lemma select_leaf_ok:
  "bodies_ok L [Node i []] (select_leaf L (Node i [])) \<and> presented (select_leaf L (Node i [])) \<subseteq># {#Node i []#}"
  by (auto simp: select_leaf_def Let_def bodies_ok_def body_leaf_def no_presentation_def presented_def)

lemma select_leaf_shows: "pr_supported (select_leaf L (Node i [])) \<Longrightarrow> presented (select_leaf L (Node i [])) = {#Node i []#}"
  by (auto simp: select_leaf_def Let_def no_presentation_def presented_def split: if_splits)

section \<open>Alternatives\<close>

lemma alternatives_snoc: "alternatives (ps @ [p]) = alternative_step (length ps, p) (alternatives ps)"
  by (simp add: alternatives_def enumerate_append_eq)

lemma alternatives_spec:
  "(case al_index (alternatives ps) of
      None \<Rightarrow> al_selected (alternatives ps) = no_presentation \<and> al_fallback (alternatives ps) = None
    | Some k \<Rightarrow> k < length ps \<and> al_selected (alternatives ps) = ps ! k \<and> pr_supported (ps ! k)
        \<and> (\<forall>t. al_fallback (alternatives ps) = Some t \<longrightarrow> (\<exists>j<k. pr_text (ps ! j) = Some t)))
   \<and> (\<forall>t. al_nearest (alternatives ps) = Some t \<longrightarrow> (\<exists>j<length ps. pr_text (ps ! j) = Some t))"
proof (induction ps rule: rev_induct)
  case Nil
  then show ?case by (simp add: alternatives_def)
next
  case (snoc p ps)
  have near: "\<exists>j<length ps. pr_text ((ps @ [p]) ! j) = Some t" if "al_nearest (alternatives ps) = Some t" for t
    using snoc that by (auto simp: nth_append)
  show ?case
  proof (cases "pr_supported p")
    case True
    then show ?thesis using near
      by (auto simp: alternatives_snoc alternative_step_def Let_def less_Suc_eq)
  next
    case False
    then have "alternatives (ps @ [p]) = alternatives ps" by (simp add: alternatives_snoc alternative_step_def)
    then show ?thesis using snoc near by (fastforce simp: nth_append less_Suc_eq split: option.splits)
  qed
qed


text \<open>What is known of every candidate of a list of children.\<close>

definition candidates_ok ::
  "('h, 'e) mime_lib \<Rightarrow> ('h, 'e) node list \<Rightarrow> ('h, 'e) presentation list \<Rightarrow> bool" where
  "candidates_ok L cs ps \<longleftrightarrow>
     length ps = length cs
     \<and> (\<forall>k<length cs. bodies_ok L (leaves (cs ! k)) (ps ! k) \<and> presented (ps ! k) \<subseteq># mset (leaves (cs ! k)))"

lemma leaves_child: "k < length cs \<Longrightarrow> set (leaves (cs ! k)) \<subseteq> set (concat (map leaves cs))"
  by (auto intro!: bexI [of _ "cs ! k"])

lemma presented_text:
  "pr_text p = None \<Longrightarrow> presented (p\<lparr>pr_text := Some t\<rparr>) = presented p + {#t#}"
  by (simp add: presented_def)

lemma calendar_attachments_sub:
  fixes L :: "('h, 'e) mime_lib" and p :: "('h, 'e) presentation"
  shows "presented (p\<lparr>pr_attachments := append_calendar_list L (pr_attachments p) cs\<rparr>)
    \<subseteq># presented p + filter_mset (calendar_leaf L) (forest_leaves cs)"
proof -
  obtain new where "att_leaves (append_calendar_list L (pr_attachments p) cs) = att_leaves (pr_attachments p) @ new"
      "mset new \<subseteq># filter_mset (calendar_leaf L) (forest_leaves cs)"
    using append_calendar_leaves(2) [of L "pr_attachments p" cs] unfolding forest_leaves_def by blast
  then show ?thesis by (simp add: presented_def)
qed

lemma select_alternative_ok:
  assumes "candidates_ok L cs ps"
  shows "bodies_ok L (concat (map leaves cs)) (select_alternative L cs ps)
    \<and> presented (select_alternative L cs ps) \<subseteq># forest_leaves cs"
proof (cases "al_index (alternatives ps)")
  case None
  then have "al_selected (alternatives ps) = no_presentation" using alternatives_spec [of ps] by simp
  then have eq: "select_alternative L cs ps
      = no_presentation\<lparr>pr_attachments := append_calendar_list L (pr_attachments no_presentation) cs\<rparr>"
    using None by (simp add: select_alternative_def Let_def no_presentation_def)
  have "presented (select_alternative L cs ps) \<subseteq># filter_mset (calendar_leaf L) (forest_leaves cs)"
    unfolding eq using calendar_attachments_sub [of L no_presentation cs] by simp
  also have "\<dots> \<subseteq># forest_leaves cs" by (rule multiset_filter_subset)
  finally show ?thesis by (simp add: eq)
next
  case (Some k)
  let ?rest = "others (Some k) cs"
  have k: "k < length cs" "al_selected (alternatives ps) = ps ! k" "pr_supported (ps ! k)"
    and fb: "\<And>t. al_fallback (alternatives ps) = Some t \<Longrightarrow> \<exists>j<k. pr_text (ps ! j) = Some t"
    using alternatives_spec [of ps] Some assms by (auto simp: candidates_ok_def)
  have sel: "bodies_ok L (leaves (cs ! k)) (ps ! k)" "presented (ps ! k) \<subseteq># mset (leaves (cs ! k))"
    using assms k(1) by (auto simp: candidates_ok_def)
  have all: "bodies_ok L (concat (map leaves cs)) (ps ! k)"
    by (rule bodies_ok_mono [OF sel(1) leaves_child [OF k(1)]])
  note split = forest_leaves_split [OF k(1)]
  define p where "p = (if pr_html (ps ! k) \<noteq> None \<and> pr_text (ps ! k) = None
      then (ps ! k)\<lparr>pr_text := al_fallback (alternatives ps)\<rparr> else ps ! k)"
  have eq: "select_alternative L cs ps = p\<lparr>pr_attachments := append_calendar_list L (pr_attachments p) ?rest\<rparr>"
    by (simp add: select_alternative_def Let_def k(2) Some p_def)
  have "bodies_ok L (concat (map leaves cs)) p
    \<and> presented p + filter_mset (calendar_leaf L) (forest_leaves ?rest) \<subseteq># mset (leaves (cs ! k)) + forest_leaves ?rest"
  proof (cases "pr_html (ps ! k) \<noteq> None \<and> pr_text (ps ! k) = None \<and> al_fallback (alternatives ps) \<noteq> None")
    case True
    then obtain t j where t: "al_fallback (alternatives ps) = Some t" "j < k" "pr_text (ps ! j) = Some t" using fb by blast
    have j: "bodies_ok L (leaves (cs ! j)) (ps ! j)" using assms t(2) k(1) by (auto simp: candidates_ok_def)
    then have body: "t \<in> set (leaves (cs ! j))" "body_leaf L ''text/plain'' t" using t(3) by (auto simp: bodies_ok_def)
    have "t \<in># forest_leaves ?rest"
      using body(1) others_earlier [OF t(2) k(1)] by (auto simp: forest_leaves_def)
    then have "{#t#} \<subseteq># filter_mset (\<lambda>n. \<not> calendar_leaf L n) (forest_leaves ?rest)"
      using plain_text_not_calendar [OF body(2)] by simp
    then have "{#t#} + filter_mset (calendar_leaf L) (forest_leaves ?rest)
        \<subseteq># filter_mset (\<lambda>n. \<not> calendar_leaf L n) (forest_leaves ?rest) + filter_mset (calendar_leaf L) (forest_leaves ?rest)"
      by (rule subset_mset.add_right_mono)
    also have "\<dots> = forest_leaves ?rest" by (metis multiset_partition add.commute)
    finally have "{#t#} + filter_mset (calendar_leaf L) (forest_leaves ?rest) \<subseteq># forest_leaves ?rest" .
    moreover have p: "p = (ps ! k)\<lparr>pr_text := Some t\<rparr>" using True t(1) by (simp add: p_def)
    moreover have "presented p = presented (ps ! k) + {#t#}" unfolding p using True by (simp add: presented_text)
    moreover have "t \<in> set (concat (map leaves cs))" using body(1) t(2) k(1) by auto
    ultimately show ?thesis
      using all k(3) body(2) subset_mset.add_mono [OF sel(2), of "{#t#} + filter_mset (calendar_leaf L) (forest_leaves ?rest)"]
      by (auto simp: bodies_ok_def ac_simps)
  next
    case False
    then have p: "p = ps ! k" by (auto simp: p_def)
    then show ?thesis
      using all subset_mset.add_mono [OF sel(2) multiset_filter_subset, of "calendar_leaf L"] by simp
  qed
  then show ?thesis
    using calendar_attachments_sub [of L p ?rest] split unfolding eq by (auto intro: subset_mset.order_trans)
qed

section \<open>Related parts\<close>

lemma find_enumerate: "find P (enumerate n xs) = Some (k, x) \<Longrightarrow> n \<le> k \<and> k < n + length xs"
  by (induction xs arbitrary: n) (fastforce split: if_splits)+

lemma related_root_bound: "related_root L i cs = Some k \<Longrightarrow> cs \<noteq> [] \<Longrightarrow> k < length cs"
  by (auto simp: related_root_def Let_def split: if_splits dest!: find_enumerate)

lemma select_related_ok:
  assumes "candidates_ok L cs ps"
  shows "bodies_ok L (concat (map leaves cs)) (select_related L i cs ps)
    \<and> presented (select_related L i cs ps) \<subseteq># forest_leaves cs"
proof (cases "\<exists>k. cs \<noteq> [] \<and> related_root L i cs = Some k \<and> pr_supported (ps ! k)")
  case True
  then obtain k where k: "cs \<noteq> []" "related_root L i cs = Some k" "pr_supported (ps ! k)" by blast
  have lt: "k < length cs" by (rule related_root_bound [OF k(2,1)])
  have sel: "bodies_ok L (leaves (cs ! k)) (ps ! k)" "presented (ps ! k) \<subseteq># mset (leaves (cs ! k))"
    using assms lt by (auto simp: candidates_ok_def)
  have eq: "select_related L i cs ps
      = (ps ! k)\<lparr>pr_attachments := append_attachments_list (ml_unicode L) True (pr_attachments (ps ! k)) (others (Some k) cs)\<rparr>"
    using k by (simp add: select_related_def Let_def)
  have "presented (select_related L i cs ps) = presented (ps ! k) + forest_leaves (others (Some k) cs)"
    unfolding eq by (simp add: presented_def append_attachments_leaves(2) forest_leaves_def)
  also have "\<dots> \<subseteq># forest_leaves cs"
    unfolding forest_leaves_split [OF lt] by (rule subset_mset.add_right_mono [OF sel(2)])
  finally show ?thesis using bodies_ok_mono [OF sel(1) leaves_child [OF lt]] by (simp add: eq)
next
  case False
  then have "select_related L i cs ps = no_presentation"
    by (auto simp: select_related_def Let_def split: option.splits)
  then show ?thesis by simp
qed

section \<open>Mixed parts\<close>

text \<open>
  The loop attaches what it does not show.  \<open>R\<close> is how much of a shown child its own candidate
  presents: a part of it, or all of it.
\<close>

lemma mixed_loop_presents:
  fixes R :: "('h, 'e) node multiset \<Rightarrow> ('h, 'e) node multiset \<Rightarrow> bool"
  assumes refl: "\<And>a. R a a" and trans: "\<And>a b c. R a b \<Longrightarrow> R b c \<Longrightarrow> R a c" and add: "\<And>a b c. R a b \<Longrightarrow> R (a + c) (b + c)"
    and each: "\<forall>(c, p)\<in>set cps. pr_supported p \<longrightarrow> R (presented p) (mset (leaves c))"
    and start: "pr_supported selected \<or> selected = no_presentation"
  shows "R (presented (mixed_loop u cps selected atts))
    (presented selected + mset (att_leaves atts) + forest_leaves (map fst cps))"
  using each start
proof (induction u cps selected atts rule: mixed_loop.induct)
  case (1 u selected atts)
  then show ?case using refl by (simp add: presented_attachments)
next
  case (2 u c p cps selected atts)
  show ?case
  proof (cases "\<not> pr_supported selected \<and> pr_supported p")
    case True
    then have "R (presented (mixed_loop u cps p atts)) (presented p + mset (att_leaves atts) + forest_leaves (map fst cps))"
      using 2 by simp
    moreover have "R (presented p + (mset (att_leaves atts) + forest_leaves (map fst cps)))
        (mset (leaves c) + (mset (att_leaves atts) + forest_leaves (map fst cps)))"
      using 2(3) True by (intro add) simp
    moreover have "selected = no_presentation" using 2(4) True by simp
    ultimately show ?thesis using True trans by (simp add: ac_simps)
  next
    case False
    then have "R (presented (mixed_loop u cps selected (append_attachments u False atts c)))
        (presented selected + mset (att_leaves (append_attachments u False atts c)) + forest_leaves (map fst cps))"
      using 2 by simp
    then show ?thesis using False by (auto simp: append_attachments_leaves(1) ac_simps)
  qed
qed

lemma mixed_loop_bodies:
  "\<forall>(c, p)\<in>set cps. bodies_ok L ns p \<Longrightarrow> bodies_ok L ns selected \<Longrightarrow> bodies_ok L ns (mixed_loop u cps selected atts)"
  by (induction u cps selected atts rule: mixed_loop.induct) auto

lemma select_mixed_ok:
  assumes "candidates_ok L cs ps"
  shows "bodies_ok L (concat (map leaves cs)) (select_mixed u cs ps) \<and> presented (select_mixed u cs ps) \<subseteq># forest_leaves cs"
proof -
  have len: "length ps = length cs" using assms by (simp add: candidates_ok_def)
  have each: "bodies_ok L (concat (map leaves cs)) p \<and> presented p \<subseteq># mset (leaves c)"
    if cp: "(c, p) \<in> set (zip cs ps)" for c p
  proof -
    obtain k where k: "k < length cs" "c = cs ! k" "p = ps ! k" using cp len by (auto simp: set_zip)
    then have "bodies_ok L (leaves (cs ! k)) p" "presented p \<subseteq># mset (leaves c)" using assms by (auto simp: candidates_ok_def)
    then show ?thesis using bodies_ok_mono [OF _ leaves_child [OF k(1)]] by blast
  qed
  then have "\<forall>(c, p)\<in>set (zip cs ps). bodies_ok L (concat (map leaves cs)) p" by blast
  from mixed_loop_bodies [OF this bodies_ok_none]
  have "bodies_ok L (concat (map leaves cs)) (select_mixed u cs ps)" by (simp add: select_mixed_def)
  moreover have "presented (mixed_loop u (zip cs ps) no_presentation [])
      \<subseteq># presented no_presentation + mset (att_leaves []) + forest_leaves (map fst (zip cs ps))"
    by (rule mixed_loop_presents) (use each in \<open>auto intro: subset_mset.order_trans subset_mset.add_right_mono\<close>)
  ultimately show ?thesis by (simp add: select_mixed_def map_fst_zip len)
qed

section \<open>Properties\<close>

lemma select_presentation_ok:
  "bodies_ok L (leaves n) (select_presentation L n) \<and> presented (select_presentation L n) \<subseteq># mset (leaves n)"
proof (induction n)
  case (Node i cs)
  have c: "candidates_ok L cs (map (select_presentation L) cs)"
    using Node.IH by (simp add: candidates_ok_def)
  show ?case
    using select_leaf_ok [of L i] select_alternative_ok [OF c] select_related_ok [OF c, of i] select_mixed_ok [OF c]
    by (auto simp: Let_def forest_leaves_def)
qed


text \<open>
  C16. The selection of a message: it is supported exactly when it has a text or an HTML body; a body
  is a readable leaf of the right media type that is neither named nor marked as an attachment; and
  no part is presented twice: the bodies together with the leaves under the attachments are among
  the leaves of the message, with multiplicity.
\<close>

theorem presentation_shows_each_part_once:
  "let p = select_presentation L n in
   pr_supported p = (\<not> (pr_text p = None \<and> pr_html p = None))
   \<and> list_all (body_leaf L ''text/plain'') (case pr_text p of None \<Rightarrow> [] | Some t \<Rightarrow> [t])
   \<and> list_all (body_leaf L ''text/html'') (case pr_html p of None \<Rightarrow> [] | Some t \<Rightarrow> [t])
   \<and> presented p \<subseteq># mset (leaves n)"
  using select_presentation_ok [of L n] by (auto simp: bodies_ok_def Let_def split: option.splits)

text \<open>
  A message without \<open>multipart/alternative\<close> and \<open>multipart/related\<close> parts.
\<close>

definition plain_mixed :: "('h, 'e) node \<Rightarrow> bool" where
  "plain_mixed n \<longleftrightarrow> list_all (\<lambda>m. nd_media_type (info m) \<notin> {''multipart/alternative'', ''multipart/related''}) (nodes n)"

lemma plain_mixed_child: "plain_mixed (Node i cs) \<Longrightarrow> c \<in> set cs \<Longrightarrow> plain_mixed c"
  by (auto simp: plain_mixed_def list_all_iff)

lemma mixed_presents_all:
  assumes "plain_mixed n"
  shows "presented (select_presentation L n) =
    (if pr_supported (select_presentation L n) \<or> children n \<noteq> [] \<and> \<not> is_encapsulated (ml_unicode L) (nd_media_type (info n))
     then mset (leaves n) else {#})"
  using assms
proof (induction n)
  case (Node i cs)
  show ?case
  proof (cases "cs = []")
    case True
    have "presented (select_leaf L (Node i [])) = {#}" if "\<not> pr_supported (select_leaf L (Node i []))"
      using that by (auto simp: select_leaf_def no_presentation_def presented_def Let_def split: if_splits)
    then show ?thesis using True select_leaf_shows [of L i] by auto
  next
    case False
    have mt: "nd_media_type i \<noteq> ''multipart/alternative''" "nd_media_type i \<noteq> ''multipart/related''"
      using Node.prems by (auto simp: plain_mixed_def)
    show ?thesis
    proof (cases "is_encapsulated (ml_unicode L) (nd_media_type i)")
      case True
      then show ?thesis using False by (simp add: no_presentation_def presented_def)
    next
      case enc: False
      have each: "presented p = mset (leaves c)" if "(c, p) \<in> set (zip cs (map (select_presentation L) cs))" "pr_supported p" for c p
        using that Node.IH plain_mixed_child [OF Node.prems] by (auto simp: set_zip)
      have "presented (mixed_loop (ml_unicode L) (zip cs (map (select_presentation L) cs)) no_presentation [])
          = presented no_presentation + mset (att_leaves []) + forest_leaves (map fst (zip cs (map (select_presentation L) cs)))"
        by (rule mixed_loop_presents [where R = "(=)"]) (use each in auto)
      then show ?thesis
        using False enc mt by (simp add: select_mixed_def map_fst_zip forest_leaves_def)
    qed
  qed
qed

text \<open>
  The leaves outside encapsulated messages, where the bodies of a message are looked for, and a leaf that
  can be a body.
\<close>

fun own_leaves :: "unicode \<Rightarrow> ('h, 'e) node \<Rightarrow> ('h, 'e) node list" where
  "own_leaves u (Node i cs) =
     (if cs = [] then [Node i cs] else if is_encapsulated u (nd_media_type i) then [] else concat (map (own_leaves u) cs))"

definition any_body :: "('h, 'e) mime_lib \<Rightarrow> ('h, 'e) node \<Rightarrow> bool" where
  "any_body L n \<longleftrightarrow> body_leaf L ''text/plain'' n \<or> body_leaf L ''text/html'' n"

lemma mixed_loop_supported:
  "pr_supported (mixed_loop u cps selected atts) \<longleftrightarrow> pr_supported selected \<or> list_ex (\<lambda>cp. pr_supported (snd cp)) cps"
  by (induction u cps selected atts rule: mixed_loop.induct) auto

lemma mixed_supported:
  "plain_mixed n \<Longrightarrow> pr_supported (select_presentation L n) \<longleftrightarrow> list_ex (any_body L) (own_leaves (ml_unicode L) n)"
proof (induction n)
  case (Node i cs)
  have mt: "nd_media_type i \<noteq> ''multipart/alternative''" "nd_media_type i \<noteq> ''multipart/related''"
    using Node.prems by (auto simp: plain_mixed_def)
  have each: "pr_supported (select_presentation L c) \<longleftrightarrow> list_ex (any_body L) (own_leaves (ml_unicode L) c)" if "c \<in> set cs" for c
    using Node.IH [OF that plain_mixed_child [OF Node.prems that]] .
  show ?case
  proof (cases "cs = []")
    case True
    then show ?thesis by (auto simp: select_leaf_def any_body_def body_leaf_def no_presentation_def Let_def)
  next
    case False
    have "zip cs (map (select_presentation L) cs) = map (\<lambda>c. (c, select_presentation L c)) cs"
      by (simp add: zip_map2 zip_same_conv_map)
    then have "set (zip cs (map (select_presentation L) cs)) = (\<lambda>c. (c, select_presentation L c)) ` set cs" by simp
    then have "list_ex (\<lambda>cp. pr_supported (snd cp)) (zip cs (map (select_presentation L) cs))
        \<longleftrightarrow> (\<exists>c\<in>set cs. pr_supported (select_presentation L c))"
      by (simp add: list_ex_iff)
    then show ?thesis
      using False mt each by (auto simp: select_mixed_def mixed_loop_supported list_ex_iff no_presentation_def)
  qed
qed

text \<open>
  C14. In a message without alternative and related parts every leaf is presented exactly once: one body that
  is readable is shown, and what is not shown is attached, whatever its media type.  There is a body exactly when some leaf outside
  encapsulated messages can be one; without a body a multipart still presents all its leaves, and a message
  that is a single part or an encapsulated message presents none.
\<close>

theorem mixed_presentation_is_complete:
  assumes "plain_mixed n"
  shows "let p = select_presentation L n in
     pr_supported p = list_ex (any_body L) (own_leaves (ml_unicode L) n)
     \<and> presented p =
         (if pr_supported p \<or> children n \<noteq> [] \<and> \<not> is_encapsulated (ml_unicode L) (nd_media_type (info n))
          then mset (leaves n) else {#})"
  using mixed_supported [OF assms, of L] mixed_presents_all [OF assms, of L] by (simp add: Let_def)

text \<open>A message with a text and a file.\<close>

definition sample_lib :: "(unit, unit) mime_lib" where
  "sample_lib = \<lparr>ml_unicode = plain_unicode, ml_words = Some, ml_zero_header = (), ml_get = (\<lambda>h k. []),
     ml_content_type = (\<lambda>h. ([], [], True)), ml_content_disposition = (\<lambda>h. ([], [], True)),
     ml_unknown_charset = (\<lambda>e. False), ml_unknown_encoding = (\<lambda>e. False), ml_read = (\<lambda>s n. (None, None))\<rparr>"

definition sample_part :: "bytes \<Rightarrow> bytes \<Rightarrow> (unit, unit) node list \<Rightarrow> (unit, unit) node" where
  "sample_part media_type name cs =
     Node ((blank_info ''1'' ())\<lparr>nd_media_type := media_type, nd_media_params := [(''name'', name)]\<rparr>) cs"

definition sample_mixed :: "(unit, unit) node" where
  "sample_mixed = sample_part ''multipart/mixed'' [] [sample_part ''text/plain'' [] [], sample_part ''image/png'' ''a'' []]"

lemmas sample_part_simps = sample_part_def blank_info_def param_def filename_def unreadable_def
  unsupported_encoding_def sample_lib_def

lemma sample_mixed_shown:
  "select_presentation sample_lib sample_mixed =
   \<lparr>pr_text = Some (sample_part ''text/plain'' [] []), pr_html = None,
    pr_attachments = [candidate (sample_part ''image/png'' ''a'' []) False], pr_supported = True\<rparr>"
proof -
  have "runes s = map byte s" if "s \<in> {[], ''message/rfc822'', ''message/global'', ''multipart/mixed'', ''image/png'', ''attachment'', ''inline''}" for s
    using that by (auto intro!: runes_ascii simp: ascii_def byte_def)
  then show ?thesis
    by (simp add: sample_mixed_def sample_part_simps is_encapsulated_def equal_fold_def select_mixed_def
        select_leaf_def Let_def no_presentation_def byte_def fold_rune_def del: runes.simps)
qed

theorem mixed_presentation_is_complete_witness:
  "presented (select_presentation sample_lib sample_mixed)
   = mset [sample_part ''text/plain'' [] [], sample_part ''image/png'' ''a'' []]"
proof -
  have "plain_mixed sample_mixed"
    by (simp add: plain_mixed_def sample_mixed_def sample_part_def blank_info_def)
  moreover have "pr_supported (select_presentation sample_lib sample_mixed)" by (simp add: sample_mixed_shown)
  ultimately show ?thesis
    using mixed_presentation_is_complete [of sample_mixed sample_lib] by (simp add: sample_mixed_def sample_part_def)
qed

end
