(* ===== verification/Mime_Parse.thy ===== *)
theory Mime_Parse
  imports Mime_Index Mime_Presentation
begin

text \<open>
  \<open>internal/mimeparse/parse.go\<close>: reading a message with the message library, matched against the
  raw index when there is one.

  The index a part is matched against is a pair of the limits and the number of physical lines of
  the outermost message (\<open>rawIndex.budget\<close>); its counters and causes are the threaded state, which
  an index of a decoded message shares.  \<open>readSemanticNode\<close> recurses on the levels that are left up
  to the fixed maximum depth of 64, level 0 being the refusal.
\<close>

type_synonym index_context = "(limits \<times> int) option"

text \<open>The node, the error and the path of the last complete part, or a broken invariant.\<close>

type_synonym ('h, 'e) semantic =
  "(invariant_err + (('h, 'e) node option \<times> 'e mime_err option \<times> bytes)) \<times> index_state"

type_synonym ('h, 'e) semantic_reader =
  "('h, 'e) entity option \<Rightarrow> 'e option \<Rightarrow> bytes \<Rightarrow> ('h, 'e) node option \<Rightarrow> index_context \<Rightarrow> bool
     \<Rightarrow> index_state \<Rightarrow> ('h, 'e) semantic"

section \<open>The last complete part\<close>

function complete_loop :: "('h, 'e) node list \<Rightarrow> bytes \<Rightarrow> bytes" where
  "complete_loop [] found = found"
| "complete_loop (Node i cs # stack) found =
     complete_loop (cs @ stack) (if nd_complete i then nd_path i else found)"
  by pat_completeness auto
termination
  by (relation "measure (\<lambda>(stack, found). size_list size stack)") (auto simp: size_list_append)

definition last_complete_path :: "('h, 'e) node option \<Rightarrow> bytes option" where
  "last_complete_path root =
     (case root of
        None \<Rightarrow> None
      | Some n \<Rightarrow> (let p = complete_loop [n] [] in if p = [] then None else Some p))"

section \<open>The data of a node\<close>

definition header_encoding :: "('h, 'e) mime_lib \<Rightarrow> 'h \<Rightarrow> bytes" where
  "header_encoding L h = to_lower (ml_unicode L) (trim_space (ml_get L h ''Content-Transfer-Encoding''))"

definition digest_info :: "('h, 'e) mime_lib \<Rightarrow> 'h \<Rightarrow> 'e option \<Rightarrow> bytes \<Rightarrow> ('h, 'e) node_info" where
  "digest_info L h err path =
     (let (disposition, disposition_params, ok) = ml_content_disposition L h in
      (blank_info path h)
        \<lparr>nd_media_type := ''message/rfc822'', nd_transfer_encoding := header_encoding L h,
         nd_disposition := to_lower (ml_unicode L) disposition, nd_disposition_params := disposition_params,
         nd_decode_error := err\<rparr>)"

definition header_info :: "('h, 'e) mime_lib \<Rightarrow> 'h \<Rightarrow> 'e option \<Rightarrow> bytes \<Rightarrow> bool \<Rightarrow> ('h, 'e) node_info" where
  "header_info L h err path digest =
     (let u = ml_unicode L;
          (media_type, media_params, type_ok) = ml_content_type L h;
          (disposition, disposition_params, disposition_ok) = ml_content_disposition L h;
          media_type = (if digest \<and> ml_get L h ''Content-Type'' = [] then ''message/rfc822'' else media_type) in
      (blank_info path h)
        \<lparr>nd_media_type := to_lower u media_type, nd_media_params := media_params,
         nd_transfer_encoding := header_encoding L h,
         nd_disposition := to_lower u disposition, nd_disposition_params := disposition_params,
         nd_decode_error := err,
         nd_malformed_content_type := (ml_get L h ''Content-Type'' \<noteq> [] \<and> \<not> type_ok),
         nd_malformed_disposition := (ml_get L h ''Content-Disposition'' \<noteq> [] \<and> \<not> disposition_ok)\<rparr>)"

text \<open>What the raw node of the same part says takes precedence.\<close>

definition merge_raw ::
  "('h, 'e) mime_lib \<Rightarrow> 'h \<Rightarrow> bytes \<Rightarrow> ('h, 'e) node option \<Rightarrow> ('h, 'e) node_info \<Rightarrow> invariant_err + ('h, 'e) node_info" where
  "merge_raw L h path raw i =
     (case raw of
        None \<Rightarrow> Inr i
      | Some n \<Rightarrow>
          (let r = info n in
           if nd_path r \<noteq> path then Inl (Path_Mismatch (nd_path r) path)
           else
             (let i = i\<lparr>nd_header_fields := nd_header_fields r, nd_raw_header := nd_raw_header r,
                    nd_raw_body := nd_raw_body r, nd_decoded_raw := nd_decoded_raw r,
                    nd_boundary_delimiters := nd_boundary_delimiters r, nd_boundary_closed := nd_boundary_closed r,
                    nd_transfer_encoding := nd_transfer_encoding r\<rparr>;
                  i = (if nd_malformed_disposition i
                       then i\<lparr>nd_disposition := nd_disposition r, nd_disposition_params := nd_disposition_params r\<rparr>
                       else i);
                  i = i\<lparr>nd_malformed_content_type := nd_malformed_content_type r,
                    nd_malformed_disposition := nd_malformed_disposition r\<rparr> in
              if nd_malformed_content_type r
              then Inr (i\<lparr>nd_media_type := nd_media_type r, nd_media_params := nd_media_params r\<rparr>)
              else if nd_media_type r \<noteq> [] \<and> \<not> equal_fold (ml_unicode L) (nd_media_type r) (nd_media_type i) then
                (if nd_media_type r = ''message/rfc822'' \<and> nd_media_type i = ''text/plain''
                    \<and> ml_get L h ''Content-Type'' = []
                 then Inr (i\<lparr>nd_media_type := nd_media_type r\<rparr>)
                 else Inl (Type_Mismatch (nd_media_type r) (nd_media_type i) path))
              else Inr i)))"

section \<open>Encapsulated messages\<close>

text \<open>The part whose text could not be read as a message.\<close>

definition unparsed_child :: "bytes \<Rightarrow> 'h \<Rightarrow> bytes \<Rightarrow> bool \<Rightarrow> ('h, 'e) node" where
  "unparsed_child path h body indexed =
     (let i = (blank_info path h)\<lparr>nd_media_type := ''text/plain'', nd_decoded_body := body\<rparr> in
      Node (if indexed
            then i\<lparr>nd_decoded_raw := Some body, nd_raw_header := range_of (- 1) (- 1), nd_raw_body := range_of (- 1) (- 1)\<rparr>
            else i) [])"

text \<open>Reading the body of an encapsulated message; \<open>read\<close> is the recursive call one level deeper.\<close>

definition read_encapsulated ::
  "('h, 'e) mime_lib \<Rightarrow> ('h, 'e) semantic_reader \<Rightarrow> ('h, 'e) node_info \<Rightarrow> bytes \<Rightarrow> bytes \<Rightarrow> 'h
     \<Rightarrow> ('h, 'e) node option \<Rightarrow> index_context \<Rightarrow> bool \<Rightarrow> index_state \<Rightarrow> ('h, 'e) semantic" where
  "read_encapsulated L read i body path h raw_child ctx indexed st =
     (let (child_entity, child_err) = ml_read L body (- 1) in
      if fatal L child_err then
        (Inr (Some (Node i [unparsed_child (path @ ''.1'') h body indexed]), None, path @ ''.1''), st)
      else if child_entity = None then
        (Inr (Some (Node i []), Some (case child_err of None \<Rightarrow> Nil_Encapsulated | Some e \<Rightarrow> Library e), []), st)
      else
        (case read child_entity child_err (path @ ''.1'') raw_child ctx False st of
           (Inl e, st') \<Rightarrow> (Inl e, st')
         | (Inr (child, err, complete), st') \<Rightarrow>
             (Inr (Some (Node i (case child of None \<Rightarrow> [] | Some c \<Rightarrow> [c])), err, complete), st')))"

text \<open>The index of a message that was transfer-encoded; \<open>index_decoded_message\<close> always returns.\<close>

definition decoded_root ::
  "('h, 'e) mime_lib \<Rightarrow> limits \<times> int \<Rightarrow> bytes \<Rightarrow> bytes \<Rightarrow> int \<Rightarrow> index_state \<Rightarrow> ('h, 'e) node option \<times> index_state" where
  "decoded_root L ctx body path depth st =
     (case index_decoded_message L (fst ctx) (snd ctx) body path depth st of
        None \<Rightarrow> (None, st)
      | Some (ix, root, st) \<Rightarrow> (root, st))"

definition read_message_part ::
  "('h, 'e) mime_lib \<Rightarrow> ('h, 'e) semantic_reader \<Rightarrow> int \<Rightarrow> ('h, 'e) entity \<Rightarrow> ('h, 'e) node_info \<Rightarrow> bytes
     \<Rightarrow> ('h, 'e) node option \<Rightarrow> index_context \<Rightarrow> index_state \<Rightarrow> ('h, 'e) semantic" where
  "read_message_part L read depth e i path raw ctx st =
     (case ent_body_error e of
        Some err \<Rightarrow> (Inr (Some (Node (i\<lparr>nd_decode_error := Some err\<rparr>) []), Some (Library err), []), st)
      | None \<Rightarrow>
          (let body = ent_body e; i = i\<lparr>nd_decoded_body := body\<rparr>;
               raw_child = (case raw of None \<Rightarrow> None | Some r \<Rightarrow> (case children r of [] \<Rightarrow> None | c # cs \<Rightarrow> Some c));
               encoded = (raw_child = None \<and> ctx \<noteq> None
                 \<and> \<not> is_identity_encoding (ml_unicode L) (nd_transfer_encoding i));
               (raw_child, st) =
                 (if encoded then decoded_root L (the ctx) body (path @ ''.1'') (depth + 1) st else (raw_child, st)) in
           if encoded \<and> ist_causes st \<noteq> {} then
             (Inr (Some (Node i (case raw_child of None \<Rightarrow> [] | Some c \<Rightarrow> [c])), None,
                   case last_complete_path raw_child of None \<Rightarrow> [] | Some p \<Rightarrow> p), st)
           else if raw_child = None \<and> ctx \<noteq> None \<and> 0 < max_depth (fst (the ctx)) \<and> max_depth (fst (the ctx)) \<le> depth
           then (Inr (Some (Node i []), None, path), st)
           else read_encapsulated L read i body path (ent_header e) raw_child ctx (ctx \<noteq> None) st))"

text \<open>A part of a digest without a type of its own and without an index.\<close>

definition read_digest_part ::
  "('h, 'e) mime_lib \<Rightarrow> ('h, 'e) semantic_reader \<Rightarrow> ('h, 'e) entity \<Rightarrow> 'e option \<Rightarrow> bytes \<Rightarrow> index_context
     \<Rightarrow> index_state \<Rightarrow> ('h, 'e) semantic" where
  "read_digest_part L read e err path ctx st =
     (let i = digest_info L (ent_header e) err path in
      case ent_body_error e of
        Some b \<Rightarrow> (Inr (Some (Node (i\<lparr>nd_decode_error := Some b\<rparr>) []), Some (Library b), []), st)
      | None \<Rightarrow>
          read_encapsulated L read (i\<lparr>nd_decoded_body := ent_body e\<rparr>) (ent_body e) path (ent_header e) None ctx False st)"

section \<open>Multipart bodies\<close>

fun read_parts ::
  "('h, 'e) mime_lib \<Rightarrow> ('h, 'e) semantic_reader \<Rightarrow> ('h, 'e) node_info \<Rightarrow> bytes \<Rightarrow> ('h, 'e) node option
     \<Rightarrow> index_context \<Rightarrow> (('h, 'e) entity option \<times> 'e option) list \<Rightarrow> ('h, 'e) node list \<Rightarrow> nat \<Rightarrow> bytes
     \<Rightarrow> index_state \<Rightarrow> ('h, 'e) semantic" where
  "read_parts L read i path raw ctx [] cs k found st =
     (case raw of
        Some r \<Rightarrow>
          if k \<noteq> length (children r) then
            (if ctx \<noteq> None \<and> \<not> nd_complete (info r)
             then (Inr (Some (Node i cs), Some (Incomplete_Multipart path), found), st)
             else (Inl (Count_Mismatch (length (children r)) k path), st))
          else (Inr (Some (Node i cs), None, found), st)
      | None \<Rightarrow> (Inr (Some (Node i cs), None, found), st))"
| "read_parts L read i path raw ctx ((part, part_err) # ps) cs k found st =
     (if fatal L part_err \<or> part = None
      then (Inr (Some (Node i cs), map_option Library part_err, found), st)
      else if raw \<noteq> None \<and> length (children (the raw)) < Suc k then
        (if ctx \<noteq> None \<and> \<not> nd_complete (info (the raw))
         then (Inr (Some (Node i cs), Some (Incomplete_Part path (Suc k)), found), st)
         else (Inl (No_Raw_Node (Suc k) path), st))
      else
        (let raw_child = (case raw of None \<Rightarrow> None | Some r \<Rightarrow> Some (children r ! k)) in
         case read part part_err (path @ ''.'' @ part_number (Suc k)) raw_child ctx
                (equal_fold (ml_unicode L) (nd_media_type i) ''multipart/digest'') st of
           (Inl e, st') \<Rightarrow> (Inl e, st')
         | (Inr (child, err, complete), st') \<Rightarrow>
             (let cs' = cs @ (case child of None \<Rightarrow> [] | Some c \<Rightarrow> [c]);
                  found = (if complete \<noteq> [] then complete else found) in
              if err \<noteq> None then (Inr (Some (Node i cs'), err, found), st')
              else if ctx \<noteq> None \<and> ist_causes st' \<noteq> {} then (Inr (Some (Node i cs'), None, found), st')
              else read_parts L read i path raw ctx ps cs' (Suc k) found st')))"

section \<open>Reading a node\<close>

definition read_content ::
  "('h, 'e) mime_lib \<Rightarrow> ('h, 'e) semantic_reader \<Rightarrow> int \<Rightarrow> ('h, 'e) entity \<Rightarrow> ('h, 'e) node_info \<Rightarrow> bytes
     \<Rightarrow> ('h, 'e) node option \<Rightarrow> index_context \<Rightarrow> index_state \<Rightarrow> ('h, 'e) semantic" where
  "read_content L read depth e i path raw ctx st =
     (if is_encapsulated (ml_unicode L) (nd_media_type i) then read_message_part L read depth e i path raw ctx st
      else
        (case (ent_parts e, nd_malformed_content_type i) of
           (Some parts, False) \<Rightarrow> read_parts L read i path raw ctx parts [] 0 [] st
         | _ \<Rightarrow>
             (case ent_body_error e of
                Some b \<Rightarrow> (Inr (Some (Node (i\<lparr>nd_decode_error := Some b\<rparr>) []), Some (Library b), []), st)
              | None \<Rightarrow> (Inr (Some (Node (i\<lparr>nd_decoded_body := ent_body e\<rparr>) []), None, path), st))))"

primrec read_node :: "nat \<Rightarrow> ('h, 'e) mime_lib \<Rightarrow> ('h, 'e) semantic_reader" where
  "read_node 0 L = (\<lambda>entity err path raw ctx digest st.
     (Inr (None, (case entity of None \<Rightarrow> map_option Library err | Some e \<Rightarrow> Some (Too_Deep path)), []), st))"
| "read_node (Suc levels) L = (\<lambda>entity err path raw ctx digest st.
     case entity of
       None \<Rightarrow> (Inr (None, map_option Library err, []), st)
     | Some e \<Rightarrow>
         if digest \<and> raw = None \<and> ml_get L (ent_header e) ''Content-Type'' = []
         then read_digest_part L (read_node levels L) e err path ctx st
         else
           (case merge_raw L (ent_header e) path raw (header_info L (ent_header e) err path digest) of
              Inl x \<Rightarrow> (Inl x, st)
            | Inr i \<Rightarrow>
                read_content L (read_node levels L) (max_depth inspection_limits - int levels) e i path raw ctx st))"

section \<open>\<open>Parse\<close>\<close>

definition truncation_cause_order :: "bytes list" where
  "truncation_cause_order =
     [''raw bytes'', ''MIME depth'', ''MIME parts'', ''header fields'', ''header bytes'', ''physical lines'']"

definition causes_of :: "index_state \<Rightarrow> bytes list" where
  "causes_of st = filter (\<lambda>c. c \<in> ist_causes st) truncation_cause_order"

definition new_document :: "bytes \<Rightarrow> ('h, 'e) document" where
  "new_document raw = \<lparr>doc_raw = raw, doc_lines = [], doc_root = None, doc_presentation = no_presentation,
     doc_semantic_error = None, doc_parsed_through = None, doc_truncated = False, doc_causes = [],
     doc_semantic_skipped = False\<rparr>"

definition non_empty :: "bytes \<Rightarrow> bytes option" where
  "non_empty s = (if s = [] then None else Some s)"

text \<open>The semantic pass over a message that was not truncated; \<open>raw_root\<close> and \<open>ctx\<close> are the index.\<close>

definition parse_semantic ::
  "('h, 'e) mime_lib \<Rightarrow> ('h, 'e) document \<Rightarrow> ('h, 'e) node option \<Rightarrow> index_context \<Rightarrow> index_state
     \<Rightarrow> invariant_err + ('h, 'e) document" where
  "parse_semantic L d raw_root ctx st =
     (let (entity, err) = ml_read L (doc_raw d) (if ctx = None then 1048576 else - 1) in
      if fatal L err then Inr (d\<lparr>doc_semantic_error := map_option Library err\<rparr>)
      else if entity = None then
        Inr (d\<lparr>doc_semantic_error := Some (case err of None \<Rightarrow> Nil_Entity | Some e \<Rightarrow> Library e)\<rparr>)
      else if ctx \<noteq> None \<and> raw_root = None then Inr (d\<lparr>doc_semantic_error := Some Incomplete_Header\<rparr>)
      else
        (case read_node (nat (max_depth inspection_limits)) L entity err ''1'' raw_root ctx False st of
           (Inl x, st') \<Rightarrow> Inl x
         | (Inr (root, sem_err, complete), st') \<Rightarrow>
             (let causes = (if ctx = None then [] else causes_of st'); truncated = (causes \<noteq> []) in
              Inr (d\<lparr>doc_root := root, doc_semantic_error := sem_err, doc_truncated := truncated, doc_causes := causes,
                    doc_parsed_through := (if sem_err \<noteq> None \<or> truncated then non_empty complete else None),
                    doc_presentation :=
                      (if truncated then no_presentation else select_presentation_opt L root)\<rparr>))))"

definition parse_indexed ::
  "('h, 'e) mime_lib \<Rightarrow> bytes \<Rightarrow> limits \<Rightarrow> raw_index \<Rightarrow> ('h, 'e) node option \<Rightarrow> index_state
     \<Rightarrow> invariant_err + ('h, 'e) document" where
  "parse_indexed L raw lim ix root st =
     (let causes = causes_of st; truncated = (causes \<noteq> []);
          d = (new_document raw)\<lparr>doc_lines := ri_lines ix, doc_truncated := truncated, doc_causes := causes\<rparr> in
      if ''raw bytes'' \<in> ist_causes st \<or> raw = [] then Inr (d\<lparr>doc_semantic_skipped := True\<rparr>)
      else if root = None then
        (if truncated then Inr (d\<lparr>doc_semantic_skipped := True\<rparr>)
         else Inr (d\<lparr>doc_semantic_error := Some Incomplete_Header\<rparr>))
      else if truncated then
        Inr (d\<lparr>doc_root := root, doc_parsed_through := last_complete_path root, doc_semantic_skipped := True\<rparr>)
      else parse_semantic L d root (Some (lim, int (length (ri_lines ix)))) st)"

text \<open>The index is built only under limits; \<open>build_raw_index\<close> always returns.\<close>

definition mime_parse :: "('h, 'e) mime_lib \<Rightarrow> bytes \<Rightarrow> limits \<Rightarrow> invariant_err + ('h, 'e) document" where
  "mime_parse L raw lim =
     (if lim = no_limits then
        (if raw = [] then Inr (new_document raw)
         else parse_semantic L (new_document raw) None None new_index_state)
      else
        (case build_raw_index L raw lim of
           None \<Rightarrow> Inr (new_document raw)
         | Some (ix, root, st) \<Rightarrow> parse_indexed L raw lim ix root st))"

end
