(* ===== verification/Mime_Parse_Props.thy ===== *)
theory Mime_Parse_Props
  imports Mime_Parse Mime_Index_Props Mime_Presentation_Props
begin

text \<open>
  What \<open>Parse\<close> promises: the tree it returns is bounded whatever the nesting of the message, its
  paths identify its parts, the path it reports as parsed is the path of a part, and the counters of
  the index stay within the limits through every decoded message.
\<close>

section \<open>The last complete part\<close>

lemma complete_loop_nodes:
  "complete_loop stack found \<in> insert found (path_of ` set (concat (map nodes stack)))"
  by (induction stack found rule: complete_loop.induct) (auto split: if_splits)

lemma last_complete_in_tree:
  "last_complete_path root = Some p \<Longrightarrow> \<exists>n. root = Some n \<and> p \<in> path_of ` set (nodes n) \<and> p \<noteq> []"
  using complete_loop_nodes [of "[n]" "[]" for n] by (fastforce simp: last_complete_path_def Let_def split: option.splits if_splits)

section \<open>The invariant of reading\<close>

definition ctx_within :: "index_context \<Rightarrow> index_state \<Rightarrow> bool" where
  "ctx_within ctx st \<longleftrightarrow> (case ctx of None \<Rightarrow> True | Some (lim, n) \<Rightarrow> within lim st)"

text \<open>The tree below a node: numbered children, a bounded height without an index, a path that exists.\<close>

definition tree_ok :: "index_context \<Rightarrow> nat \<Rightarrow> bytes \<Rightarrow> ('h, 'e) node \<Rightarrow> bytes \<Rightarrow> bool" where
  "tree_ok ctx m path n found \<longleftrightarrow>
     paths_ok path n \<and> (ctx \<noteq> None \<or> height n \<le> m) \<and> (found = [] \<or> found \<in> path_of ` set (nodes n))"

definition result_ok :: "index_context \<Rightarrow> nat \<Rightarrow> bytes \<Rightarrow> ('h, 'e) semantic \<Rightarrow> bool" where
  "result_ok ctx m path r \<longleftrightarrow>
     ctx_within ctx (snd r) \<and>
     (case fst r of
        Inl x \<Rightarrow> True
      | Inr (None, err, found) \<Rightarrow> found = []
      | Inr (Some n, err, found) \<Rightarrow> tree_ok ctx m path n found)"

text \<open>A result without a node has an error.\<close>

definition explained :: "('h, 'e) semantic \<Rightarrow> bool" where
  "explained r \<longleftrightarrow> (case fst r of Inr (None, err, found) \<Rightarrow> err \<noteq> None | _ \<Rightarrow> True)"

lemma explained_simps [simp]: "explained (Inr (Some n, err, found), st)" "explained (Inl x, st)"
  by (simp_all add: explained_def)

lemma explained_if: "explained (if P then a else b) = (if P then explained a else explained b)"
  by simp

definition reader_ok :: "index_context \<Rightarrow> nat \<Rightarrow> ('h, 'e) semantic_reader \<Rightarrow> bool" where
  "reader_ok ctx m read \<longleftrightarrow>
     (\<forall>entity err path raw digest st. ctx_within ctx st \<longrightarrow> result_ok ctx m path (read entity err path raw ctx digest st)
        \<and> (entity = None \<or> explained (read entity err path raw ctx digest st)))"

lemma reader_okD: "reader_ok ctx m read \<Longrightarrow> ctx_within ctx st \<Longrightarrow> result_ok ctx m path (read entity err path raw ctx digest st)"
  by (simp add: reader_ok_def)

lemma reader_explained:
  "reader_ok ctx m read \<Longrightarrow> ctx_within ctx st \<Longrightarrow> explained (read (Some e) err path raw ctx digest st)"
  unfolding reader_ok_def by blast

text \<open>A node whose children are given, with the path found so far.\<close>

definition children_ok :: "index_context \<Rightarrow> nat \<Rightarrow> bytes \<Rightarrow> ('h, 'e) node list \<Rightarrow> bytes \<Rightarrow> bool" where
  "children_ok ctx m path cs found \<longleftrightarrow>
     numbered_from path 0 cs \<and> (ctx \<noteq> None \<or> (\<forall>c\<in>set cs. height c \<le> m))
     \<and> (found = [] \<or> found \<in> path_of ` set (concat (map nodes cs)))"

lemma children_tree: "nd_path i = path \<Longrightarrow> children_ok ctx m path cs found \<Longrightarrow> tree_ok ctx (Suc m) path (Node i cs) found"
  unfolding tree_ok_def children_ok_def height_Node_le by auto

lemma leaf_tree: "nd_path i = path \<Longrightarrow> found = [] \<or> found = path \<Longrightarrow> tree_ok ctx (Suc m) path (Node i []) found"
  by (auto simp: tree_ok_def)

lemma children_ok_Nil [simp]: "children_ok ctx m path [] []"
  by (simp add: children_ok_def)

lemma children_snoc:
  assumes "children_ok ctx m path cs found" and "tree_ok ctx m (path @ ''.'' @ part_number (Suc (length cs))) c found'"
  shows "children_ok ctx m path (cs @ [c]) (if found' \<noteq> [] then found' else found)"
  using assms unfolding children_ok_def tree_ok_def by (auto simp: numbered_from_snoc)

lemma child_single:
  "tree_ok ctx m (path @ ''.1'') c found \<Longrightarrow> children_ok ctx m path [c] found"
  unfolding children_ok_def tree_ok_def by (simp add: part_number_1)

lemma unparsed_child_ok:
  "children_ok ctx (Suc m) path [unparsed_child (path @ ''.1'') h body indexed] (path @ ''.1'')"
  by (intro child_single) (simp add: tree_ok_def unparsed_child_def Let_def blank_info_def)

lemma child_option_ok:
  assumes "result_ok ctx m (path @ ''.1'') (Inr (child, err, found), st)"
  shows "children_ok ctx m path (case child of None \<Rightarrow> [] | Some c \<Rightarrow> [c]) found"
  using assms by (cases child) (auto simp: result_ok_def intro: child_single)

lemma result_okI:
  "ctx_within ctx st \<Longrightarrow> tree_ok ctx m path n found \<Longrightarrow> result_ok ctx m path (Inr (Some n, err, found), st)"
  by (simp add: result_ok_def)

lemma result_ok_Inl: "ctx_within ctx st \<Longrightarrow> result_ok ctx m path (Inl x, st)"
  by (simp add: result_ok_def)

lemma result_ok_within: "result_ok ctx m path (r, st) \<Longrightarrow> ctx_within ctx st"
  by (simp add: result_ok_def)

section \<open>Each kind of part\<close>

lemma read_encapsulated_ok:
  assumes "reader_ok ctx m read" and "ctx_within ctx st" and "nd_path i = path" and "0 < m"
  shows "result_ok ctx (Suc m) path (read_encapsulated L read i body path h raw_child ctx indexed st)"
proof -
  obtain ce cerr where entity: "ml_read L body (- 1) = (ce, cerr)" by (metis surj_pair)
  obtain r st' where run: "read ce cerr (path @ ''.1'') raw_child ctx False st = (r, st')" by (metis surj_pair)
  have ok: "result_ok ctx m (path @ ''.1'') (r, st')"
    using reader_okD [OF assms(1,2), of "path @ ''.1''" ce cerr raw_child False] by (simp add: run)
  show ?thesis
  proof (cases "fatal L cerr")
    case True
    then have "read_encapsulated L read i body path h raw_child ctx indexed st =
      (Inr (Some (Node i [unparsed_child (path @ ''.1'') h body indexed]), None, path @ ''.1''), st)"
      by (simp add: read_encapsulated_def entity)
    with unparsed_child_ok [of ctx _ path h body indexed] assms show ?thesis
      by (cases m) (auto intro!: result_okI children_tree)
  next
    case readable: False
    show ?thesis
    proof (cases ce)
      case None
      then show ?thesis
        using assms(2,3) readable by (simp add: read_encapsulated_def entity result_okI leaf_tree)
    next
      case (Some y)
      then have step: "read_encapsulated L read i body path h raw_child ctx indexed st =
          (case r of Inl e \<Rightarrow> (Inl e, st')
           | Inr (child, err, complete) \<Rightarrow>
               (Inr (Some (Node i (case child of None \<Rightarrow> [] | Some c \<Rightarrow> [c])), err, complete), st'))"
        using readable run by (simp add: read_encapsulated_def entity split: sum.split)
      show ?thesis
      proof (cases r)
        case (Inl x)
        then show ?thesis using step result_ok_within [OF ok] by (simp add: result_ok_Inl)
      next
        case (Inr x)
        obtain child err found where x: "x = (child, err, found)" by (cases x)
        have "result_ok ctx m (path @ ''.1'') (Inr (child, err, found), st')" using ok Inr x by simp
        from children_tree [OF assms(3) child_option_ok [OF this]] Inr x result_ok_within [OF ok]
        show ?thesis by (simp add: step result_okI)
      qed
    qed
  qed
qed

lemma decoded_root_ok:
  assumes "within (fst c) st" and "decoded_root L c body path depth st = (root, st')"
  shows "within (fst c) st'" "case root of None \<Rightarrow> True | Some n \<Rightarrow> paths_ok path n"
proof -
  obtain ix root1 st1 where "index_decoded_message L (fst c) (snd c) body path depth st = Some (ix, root1, st1)"
      "within (fst c) st1"
      "case root1 of None \<Rightarrow> True
       | Some n \<Rightarrow> node_ok (fst c) path depth n \<and> node_start n = 0 \<and> node_stop n = ri_indexed_end ix
           \<and> ist_parts st1 = ist_parts st + int (length (nodes n))"
    by (rule index_decoded_spec [OF assms(1), of L "snd c" body path depth])
  then show "within (fst c) st'" "case root of None \<Rightarrow> True | Some n \<Rightarrow> paths_ok path n"
    using assms(2) by (auto simp: decoded_root_def intro: node_ok_paths(1) split: option.splits)
qed

lemma read_message_part_ok:
  assumes "reader_ok ctx m read" and "ctx_within ctx st" and "nd_path i = path" and "0 < m"
  shows "result_ok ctx (Suc m) path (read_message_part L read depth e i path raw ctx st)"
proof (cases "ent_body_error e")
  case (Some err)
  then show ?thesis using assms(2,3) by (auto simp: read_message_part_def intro!: result_okI leaf_tree)
next
  case None
  define body where "body = ent_body e"
  define i' where "i' = i\<lparr>nd_decoded_body := body\<rparr>"
  define first where "first = (case raw of None \<Rightarrow> None | Some r \<Rightarrow> (case children r of [] \<Rightarrow> None | c # cs \<Rightarrow> Some c))"
  define encoded where "encoded \<longleftrightarrow> first = None \<and> ctx \<noteq> None
    \<and> \<not> is_identity_encoding (ml_unicode L) (nd_transfer_encoding i')"
  obtain raw_child st' where dec: "(if encoded then decoded_root L (the ctx) body (path @ ''.1'') (depth + 1) st else (first, st))
      = (raw_child, st')" by (metis surj_pair)
  have p: "nd_path i' = path" using assms(3) by (simp add: i'_def)
  have st': "ctx_within ctx st'" and roots: "encoded \<Longrightarrow> case raw_child of None \<Rightarrow> True | Some n \<Rightarrow> paths_ok (path @ ''.1'') n"
  proof -
    have "ctx_within ctx st' \<and> (encoded \<longrightarrow> (case raw_child of None \<Rightarrow> True | Some n \<Rightarrow> paths_ok (path @ ''.1'') n))"
    proof (cases encoded)
      case True
      then obtain c where c: "ctx = Some c" by (auto simp: encoded_def)
      have "within (fst c) st" using assms(2) c by (simp add: ctx_within_def split_beta)
      moreover have "decoded_root L c body (path @ ''.1'') (depth + 1) st = (raw_child, st')" using dec True c by simp
      ultimately have "within (fst c) st'" "case raw_child of None \<Rightarrow> True | Some n \<Rightarrow> paths_ok (path @ ''.1'') n"
        by (rule decoded_root_ok)+
      then show ?thesis using c by (simp add: ctx_within_def split_beta)
    qed (use dec assms(2) in simp)
    then show "ctx_within ctx st'" "encoded \<Longrightarrow> case raw_child of None \<Rightarrow> True | Some n \<Rightarrow> paths_ok (path @ ''.1'') n"
      by blast+
  qed
  have run: "read_message_part L read depth e i path raw ctx st =
     (if encoded \<and> ist_causes st' \<noteq> {} then
        (Inr (Some (Node i' (case raw_child of None \<Rightarrow> [] | Some c \<Rightarrow> [c])), None,
              case last_complete_path raw_child of None \<Rightarrow> [] | Some p \<Rightarrow> p), st')
      else if raw_child = None \<and> ctx \<noteq> None \<and> 0 < max_depth (fst (the ctx)) \<and> max_depth (fst (the ctx)) \<le> depth
      then (Inr (Some (Node i' []), None, path), st')
      else read_encapsulated L read i' body path (ent_header e) raw_child ctx (ctx \<noteq> None) st')"
    using dec unfolding read_message_part_def None Let_def first_def encoded_def i'_def body_def by simp
  have "children_ok ctx m path (case raw_child of None \<Rightarrow> [] | Some c \<Rightarrow> [c])
      (case last_complete_path raw_child of None \<Rightarrow> [] | Some p \<Rightarrow> p)" if encoded
  proof (cases raw_child)
    case None
    then show ?thesis by (simp add: last_complete_path_def)
  next
    case (Some n)
    then have "tree_ok ctx m (path @ ''.1'') n (case last_complete_path raw_child of None \<Rightarrow> [] | Some p \<Rightarrow> p)"
      using roots [OF that] that last_complete_in_tree [of raw_child]
      by (auto simp: tree_ok_def encoded_def split: option.splits)
    from child_single [OF this] Some show ?thesis by simp
  qed
  note kids = this
  show ?thesis
  proof (cases "encoded \<and> ist_causes st' \<noteq> {}")
    case True
    then have "read_message_part L read depth e i path raw ctx st =
        (Inr (Some (Node i' (case raw_child of None \<Rightarrow> [] | Some c \<Rightarrow> [c])), None,
              case last_complete_path raw_child of None \<Rightarrow> [] | Some p \<Rightarrow> p), st')"
      unfolding run by (rule if_P)
    with True st' children_tree [OF p kids] show ?thesis by (simp add: result_okI)
  next
    case False
    show ?thesis
    proof (cases "raw_child = None \<and> ctx \<noteq> None \<and> 0 < max_depth (fst (the ctx)) \<and> max_depth (fst (the ctx)) \<le> depth")
      case True
      then have "read_message_part L read depth e i path raw ctx st = (Inr (Some (Node i' []), None, path), st')"
        unfolding run if_not_P [OF False] by (rule if_P)
      with st' p show ?thesis by (simp add: result_okI leaf_tree)
    next
      case shallow: False
      show ?thesis
        unfolding run if_not_P [OF False] if_not_P [OF shallow] by (rule read_encapsulated_ok [OF assms(1) st' p assms(4)])
    qed
  qed
qed

lemma read_digest_part_ok:
  assumes "reader_ok ctx m read" and "ctx_within ctx st" and "0 < m"
  shows "result_ok ctx (Suc m) path (read_digest_part L read e err path ctx st)"
proof -
  have p: "nd_path (digest_info L (ent_header e) err path) = path"
    by (simp add: digest_info_def blank_info_def split_beta)
  then show ?thesis
    using assms(2) read_encapsulated_ok [OF assms(1,2) _ assms(3)]
    by (auto simp: read_digest_part_def Let_def intro!: result_okI leaf_tree split: option.splits)
qed

lemma read_parts_ok:
  assumes "reader_ok ctx m read" and "nd_path i = path"
  shows "ctx_within ctx st \<Longrightarrow> children_ok ctx m path cs found \<Longrightarrow> k = length cs
    \<Longrightarrow> result_ok ctx (Suc m) path (read_parts L read i path raw ctx parts cs k found st)"
proof (induction parts arbitrary: cs k found st)
  case Nil
  note node = children_tree [OF assms(2) Nil.prems(2)]
  show ?case
    using node Nil.prems(1) by (auto intro!: result_okI result_ok_Inl split: option.splits)
next
  case (Cons q parts)
  obtain part part_err where q: "q = (part, part_err)" by (cases q)
  note node = children_tree [OF assms(2) Cons.prems(2)]
  let ?path = "path @ ''.'' @ part_number (Suc k)"
  let ?raw = "case raw of None \<Rightarrow> None | Some r \<Rightarrow> Some (children r ! k)"
  let ?digest = "equal_fold (ml_unicode L) (nd_media_type i) ''multipart/digest''"
  obtain r st' where run: "read part part_err ?path ?raw ctx ?digest st = (r, st')" by (metis surj_pair)
  have ok: "result_ok ctx m ?path (r, st')"
    using reader_okD [OF assms(1) Cons.prems(1), of ?path part part_err ?raw ?digest] by (simp only: run)
  note st' = result_ok_within [OF ok]
  show ?case
  proof (cases "fatal L part_err \<or> part = None \<or> (raw \<noteq> None \<and> length (children (the raw)) < Suc k)")
    case True
    then show ?thesis
      using node Cons.prems(1) unfolding q read_parts.simps
      by (auto intro!: result_okI result_ok_Inl)
  next
    case False
    then have go: "\<not> (fatal L part_err \<or> part = None)" "\<not> (raw \<noteq> None \<and> length (children (the raw)) < Suc k)" by auto
    show ?thesis
    proof (cases r)
      case (Inl x)
      then show ?thesis using st' run unfolding q read_parts.simps if_not_P [OF go(1)] if_not_P [OF go(2)] Let_def
        by (simp add: result_ok_Inl)
    next
      case (Inr x)
      obtain child err complete where x: "x = (child, err, complete)" by (cases x)
      let ?cs = "cs @ (case child of None \<Rightarrow> [] | Some c \<Rightarrow> [c])"
      let ?found = "if complete \<noteq> [] then complete else found"
      have kids: "children_ok ctx m path ?cs ?found"
      proof (cases child)
        case None
        then show ?thesis using ok Cons.prems(2) Inr x by (simp add: result_ok_def)
      next
        case (Some c)
        then have "tree_ok ctx m ?path c complete" using ok Inr x by (simp add: result_ok_def)
        from children_snoc [OF Cons.prems(2) this [unfolded Cons.prems(3)]] Some show ?thesis by simp
      qed
      have step: "read_parts L read i path raw ctx (q # parts) cs k found st =
         (if err \<noteq> None then (Inr (Some (Node i ?cs), err, ?found), st')
          else if ctx \<noteq> None \<and> ist_causes st' \<noteq> {} then (Inr (Some (Node i ?cs), None, ?found), st')
          else read_parts L read i path raw ctx parts ?cs (Suc k) ?found st')"
        unfolding q read_parts.simps if_not_P [OF go(1)] if_not_P [OF go(2)] Let_def run by (simp add: Inr x)
      show ?thesis
      proof (cases "child = None \<and> err = None")
        case False
        then have "err = None \<Longrightarrow> length ?cs = Suc k" using Cons.prems(3) by auto
        then show ?thesis
          unfolding step by (simp add: result_okI [OF st' children_tree [OF assms(2) kids]] Cons.IH [OF st' kids])
      next
        case True
        obtain e where "part = Some e" using go(1) by (cases part) auto
        then have "explained (r, st')"
          using reader_explained [OF assms(1) Cons.prems(1), of e part_err ?path ?raw ?digest] run by simp
        with True Inr x have False by (simp add: explained_def)
        then show ?thesis ..
      qed
    qed
  qed
qed

lemma header_info_path: "nd_path (header_info L h err path digest) = path"
  by (simp add: header_info_def blank_info_def Let_def split_beta)

lemma merge_raw_path: "nd_path i = path \<Longrightarrow> merge_raw L h path raw i = Inr i' \<Longrightarrow> nd_path i' = path"
  by (auto simp: merge_raw_def Let_def split: option.splits if_splits)

lemma read_content_ok:
  assumes "reader_ok ctx m read" and "ctx_within ctx st" and "nd_path i = path" and "0 < m"
  shows "result_ok ctx (Suc m) path (read_content L read depth e i path raw ctx st)"
proof -
  have body: "result_ok ctx (Suc m) path
      (case ent_body_error e of
         Some b \<Rightarrow> (Inr (Some (Node (i\<lparr>nd_decode_error := Some b\<rparr>) []), Some (Library b), []), st)
       | None \<Rightarrow> (Inr (Some (Node (i\<lparr>nd_decoded_body := ent_body e\<rparr>) []), None, path), st))"
    using assms(2,3) by (auto intro!: result_okI leaf_tree split: option.split)
  show ?thesis
  proof (cases "is_encapsulated (ml_unicode L) (nd_media_type i)")
    case True
    then show ?thesis unfolding read_content_def by (simp only: if_True read_message_part_ok [OF assms])
  next
    case False
    show ?thesis
    proof (cases "ent_parts e = None \<or> nd_malformed_content_type i")
      case True
      with body False show ?thesis by (auto simp: read_content_def split: option.split)
    next
      case multi: False
      then obtain parts where "ent_parts e = Some parts" by (cases "ent_parts e") auto
      with False multi have "read_content L read depth e i path raw ctx st = read_parts L read i path raw ctx parts [] 0 [] st"
        by (simp add: read_content_def)
      with read_parts_ok [OF assms(1,3,2) children_ok_Nil] show ?thesis by simp
    qed
  qed
qed

text \<open>A node is always read when there is an entity and a level left.\<close>

lemma read_encapsulated_explained: "explained (read_encapsulated L read i body path h raw_child ctx indexed st)"
  by (simp add: explained_def read_encapsulated_def split: prod.split sum.split)

lemma read_digest_part_explained: "explained (read_digest_part L read e err path ctx st)"
  by (simp add: read_digest_part_def Let_def read_encapsulated_explained split: option.split)

lemma read_parts_explained: "explained (read_parts L read i path raw ctx parts cs k found st)"
proof (induction parts arbitrary: cs k found st)
  case Nil
  show ?case by (simp add: explained_def split: option.split)
next
  case (Cons q parts)
  obtain part part_err where q: "q = (part, part_err)" by (cases q)
  obtain res st' where run: "read part part_err (path @ ''.'' @ part_number (Suc k))
      (case raw of None \<Rightarrow> None | Some r \<Rightarrow> Some (children r ! k)) ctx
      (equal_fold (ml_unicode L) (nd_media_type i) ''multipart/digest'') st = (res, st')"
    by (metis surj_pair)
  show ?case
    unfolding q read_parts.simps run Let_def by (cases res) (simp_all only: prod.case sum.case fst_conv snd_conv split_beta Cons.IH explained_simps explained_if if_cancel)
qed

lemma read_content_explained: "explained (read_content L read depth e i path raw ctx st)"
proof -
  have "explained (read_message_part L read depth e i path raw ctx st)"
    by (simp add: read_message_part_def Let_def read_encapsulated_explained split: option.split prod.split)
  then show ?thesis
    by (simp add: read_content_def read_parts_explained split: option.split bool.split)
qed

lemma read_node_ok: "reader_ok ctx (Suc levels) (read_node levels L)"
proof (induction levels)
  case 0
  show ?case by (auto simp: reader_ok_def result_ok_def explained_def split: option.split)
next
  case (Suc levels)
  show ?case
    unfolding reader_ok_def
  proof (intro allI impI conjI)
    fix entity :: "('a, 'b) entity option" and err path raw digest and st :: index_state
    assume st: "ctx_within ctx st"
    let ?node = "read_node (Suc levels) L entity err path raw ctx digest st"
    have "result_ok ctx (Suc (Suc levels)) path ?node \<and> (entity = None \<or> explained ?node)"
    proof (cases entity)
      case None
      then show ?thesis using st by (simp add: result_ok_def)
    next
      case (Some e)
      show ?thesis
      proof (cases "digest \<and> raw = None \<and> ml_get L (ent_header e) ''Content-Type'' = []")
        case True
        then have "?node = read_digest_part L (read_node levels L) e err path ctx st" using Some by simp
        then show ?thesis
          by (simp only: read_digest_part_ok [OF Suc.IH st zero_less_Suc] read_digest_part_explained simp_thms)
      next
        case False
        have step: "?node = (case merge_raw L (ent_header e) path raw (header_info L (ent_header e) err path digest) of
              Inl x \<Rightarrow> (Inl x, st)
            | Inr i \<Rightarrow>
                read_content L (read_node levels L) (max_depth inspection_limits - int levels) e i path raw ctx st)"
          unfolding Some read_node.simps option.case if_not_P [OF False] ..
        show ?thesis
        proof (cases "merge_raw L (ent_header e) path raw (header_info L (ent_header e) err path digest)")
          case (Inl x)
          then show ?thesis using st unfolding step by (simp add: result_ok_Inl explained_def)
        next
          case (Inr i)
          from read_content_ok [OF Suc.IH st merge_raw_path [OF header_info_path Inr]] Inr
          show ?thesis unfolding step by (simp add: read_content_explained)
        qed
      qed
    qed
    then show "result_ok ctx (Suc (Suc levels)) path ?node" "entity = None \<or> explained ?node" by blast+
  qed
qed

section \<open>Without an index\<close>

text \<open>Without limits there is no index, and no invariant between the two passes to break.\<close>

definition unindexed :: "('h, 'e) semantic_reader \<Rightarrow> bool" where
  "unindexed read \<longleftrightarrow> (\<forall>entity err path digest st. \<not> isl (fst (read entity err path None None digest st)))"

lemma unindexedD: "unindexed read \<Longrightarrow> \<not> isl (fst (read entity err path None None digest st))"
  by (simp add: unindexed_def)

lemma read_encapsulated_unindexed:
  "unindexed read \<Longrightarrow> \<not> isl (fst (read_encapsulated L read i body path h None None indexed st))"
  using unindexedD [of read "fst (ml_read L body (- 1))" "snd (ml_read L body (- 1))" "path @ ''.1''" False st]
  by (auto simp: read_encapsulated_def split_beta split: sum.split)

lemma read_parts_unindexed:
  "unindexed read \<Longrightarrow> \<not> isl (fst (read_parts L read i path None None parts cs k found st))"
proof (induction parts arbitrary: cs k found st)
  case (Cons q parts)
  obtain part part_err where q: "q = (part, part_err)" by (cases q)
  obtain res st' where run: "read part part_err (path @ ''.'' @ part_number (Suc k)) None None
      (equal_fold (ml_unicode L) (nd_media_type i) ''multipart/digest'') st = (res, st')"
    by (metis surj_pair)
  have "\<not> isl res" using unindexedD [OF Cons.prems, of part part_err "path @ ''.'' @ part_number (Suc k)"] by (metis run fst_conv)
  then obtain r where r: "res = Inr r" by (cases res) auto
  show ?case
    unfolding q read_parts.simps option.case run r Let_def prod.case sum.case
    by (simp add: Cons.IH [OF Cons.prems] split: prod.split)
qed simp

lemma read_content_unindexed:
  assumes "unindexed read"
  shows "\<not> isl (fst (read_content L read depth e i path None None st))"
  using read_encapsulated_unindexed [OF assms] read_parts_unindexed [OF assms]
  by (simp add: read_content_def read_message_part_def Let_def split: option.split bool.split)

lemma read_node_unindexed: "unindexed (read_node levels L)"
proof (induction levels)
  case (Suc levels)
  then show ?case
    using read_content_unindexed [OF Suc.IH] read_encapsulated_unindexed [OF Suc.IH]
    by (simp add: unindexed_def merge_raw_def read_digest_part_def Let_def split: option.split)
qed (simp add: unindexed_def split: option.split)

section \<open>Properties\<close>

definition root_ok :: "('h, 'e) node option \<Rightarrow> bytes option \<Rightarrow> bool" where
  "root_ok root through \<longleftrightarrow>
     (case root of None \<Rightarrow> True | Some n \<Rightarrow> paths_ok ''1'' n)
     \<and> (case through of None \<Rightarrow> True | Some p \<Rightarrow> \<exists>n. root = Some n \<and> p \<in> path_of ` set (nodes n))"

lemma filter_once: "distinct (map f xs) \<Longrightarrow> x \<in> set xs \<Longrightarrow> f x = p \<Longrightarrow> filter (\<lambda>x. f x = p) xs = [x]"
proof (induction xs)
  case (Cons y ys)
  show ?case
  proof (cases "x = y")
    case True
    then have "filter (\<lambda>x. f x = p) ys = []" using Cons.prems by (auto simp: filter_empty_conv image_iff)
    with True Cons.prems show ?thesis by simp
  next
    case False
    then have "f y \<noteq> p" using Cons.prems by force
    with False Cons show ?thesis by simp
  qed
qed simp

lemma path_once:
  assumes "root_ok root through"
  shows "case through of None \<Rightarrow> True
    | Some p \<Rightarrow> \<exists>n m. root = Some n \<and> filter (\<lambda>m. path_of m = p) (nodes n) = [m]"
proof (cases through)
  case (Some p)
  then obtain n m where n: "root = Some n" "m \<in> set (nodes n)" "path_of m = p" "paths_ok ''1'' n"
    using assms by (auto simp: root_ok_def)
  then have d: "distinct (map path_of (nodes n))" by (simp add: paths_distinct)
  have "filter (\<lambda>m. path_of m = p) (nodes n) = [m]"
    using d n(2,3) by (rule filter_once)
  with n(1) Some show ?thesis by simp
qed simp

lemma semantic_root_ok:
  assumes "result_ok ctx m ''1'' (Inr (root, err, complete), st)"
  shows "root_ok root (non_empty complete)" "root_ok root None" "ctx = None \<Longrightarrow> (case root of None \<Rightarrow> True | Some n \<Rightarrow> height n \<le> m)"
  using assms by (auto simp: result_ok_def root_ok_def tree_ok_def non_empty_def split: option.splits)

text \<open>What \<open>Parse\<close> returns after its semantic pass, with and without an index.\<close>

definition document_ok :: "bytes \<Rightarrow> ('h, 'e) document \<Rightarrow> bool" where
  "document_ok raw d \<longleftrightarrow>
     doc_raw d = raw \<and> root_ok (doc_root d) (doc_parsed_through d)
     \<and> doc_truncated d = (doc_causes d \<noteq> [])
     \<and> \<not> (doc_truncated d \<and> pr_supported (doc_presentation d))
     \<and> \<not> (doc_semantic_skipped d \<and> doc_semantic_error d \<noteq> None)"

lemma parse_semantic_ok:
  assumes "document_ok raw d" and "\<not> doc_truncated d" and "\<not> doc_semantic_skipped d" and "ctx_within ctx st"
    and "doc_root d = None" and "doc_parsed_through d = None"
  shows "case parse_semantic L d raw_root ctx st of Inl x \<Rightarrow> True | Inr d' \<Rightarrow> document_ok raw d'"
proof -
  obtain entity err where entity: "ml_read L (doc_raw d) (if ctx = None then 1048576 else - 1) = (entity, err)"
    by (metis surj_pair)
  obtain r st' where run: "read_node (nat (max_depth inspection_limits)) L entity err ''1'' raw_root ctx False st = (r, st')"
    by (metis surj_pair)
  have ok: "result_ok ctx (Suc (nat (max_depth inspection_limits))) ''1'' (r, st')"
    using reader_okD [OF read_node_ok assms(4), of "nat (max_depth inspection_limits)" "''1''" L entity err raw_root False]
    by (simp only: run)
  show ?thesis
  proof (cases r)
    case (Inl x)
    then show ?thesis
      using assms unfolding parse_semantic_def entity run Let_def prod.case sum.case by (simp add: document_ok_def)
  next
    case (Inr x)
    obtain root sem_err complete where x: "x = (root, sem_err, complete)" by (cases x)
    note roots = semantic_root_ok(1,2) [OF ok [unfolded Inr x]]
    show ?thesis
      using assms roots unfolding parse_semantic_def entity run Inr x Let_def prod.case sum.case
      by (simp add: document_ok_def no_presentation_def)
  qed
qed

lemma last_complete_root: "root_ok root None \<Longrightarrow> root_ok root (last_complete_path root)"
  using last_complete_in_tree [of root] by (cases "last_complete_path root") (auto simp: root_ok_def)

lemma new_document_ok: "document_ok raw (new_document raw)"
  by (simp add: document_ok_def new_document_def root_ok_def no_presentation_def)

lemma mime_parse_ok: "case mime_parse L raw lim of Inl x \<Rightarrow> True | Inr d \<Rightarrow> document_ok raw d"
proof (cases "lim = no_limits")
  case True
  then show ?thesis
    using parse_semantic_ok [OF new_document_ok, of raw None new_index_state L None]
    by (simp add: mime_parse_def new_document_ok) (simp add: new_document_def ctx_within_def)
next
  case False
  obtain ix root st st0 where b: "build_raw_index L raw lim = Some (ix, root, st)" "within lim st"
    "tree_spec lim ''1'' 1 ix st0 st root"
    by (rule build_raw_index_spec [of L raw lim])
  have roots: "root_ok root None"
    using b(3) by (auto simp: root_ok_def tree_spec_def intro: node_ok_paths(1) split: option.splits)
  let ?d = "(new_document raw)\<lparr>doc_lines := ri_lines ix, doc_truncated := causes_of st \<noteq> [], doc_causes := causes_of st\<rparr>"
  have d: "document_ok raw (?d :: ('a, 'b) document)"
    by (simp add: document_ok_def new_document_def root_ok_def no_presentation_def)
  have w: "ctx_within (Some (lim, n)) st" for n using b(2) by (simp add: ctx_within_def)
  have parsed: "mime_parse L raw lim = parse_indexed L raw lim ix root st"
    using False b(1) by (simp add: mime_parse_def)
  show ?thesis
  proof (cases "''raw bytes'' \<in> ist_causes st \<or> raw = [] \<or> root = None \<or> causes_of st \<noteq> []")
    case True
    then show ?thesis
      using d last_complete_root [OF roots] roots unfolding parsed
      by (auto simp: parse_indexed_def Let_def document_ok_def new_document_def no_presentation_def root_ok_def)
  next
    case whole: False
    then have "mime_parse L raw lim = parse_semantic L ?d root (Some (lim, int (length (ri_lines ix)))) st"
      unfolding parsed by (auto simp: parse_indexed_def Let_def)
    then show ?thesis
      using parse_semantic_ok [OF d _ _ w, of L root] whole by (simp add: new_document_def)
  qed
qed

lemma unindexed_parse:
  "\<exists>d. mime_parse L raw no_limits = Inr d
     \<and> (case doc_root d of None \<Rightarrow> True | Some n \<Rightarrow> height n \<le> 65)
     \<and> \<not> doc_truncated d \<and> doc_causes d = [] \<and> doc_lines d = []"
proof (cases "raw = []")
  case True
  then show ?thesis by (simp add: mime_parse_def new_document_def)
next
  case False
  obtain entity err where entity: "ml_read L raw 1048576 = (entity, err)" by (metis surj_pair)
  obtain r st' where run: "read_node (nat (max_depth inspection_limits)) L entity err ''1'' None None False new_index_state = (r, st')"
    by (metis surj_pair)
  have ok: "result_ok None (Suc (nat (max_depth inspection_limits))) ''1'' (r, st')"
    using reader_okD [OF read_node_ok, of None new_index_state "nat (max_depth inspection_limits)" "''1''" L entity err None False]
    by (simp only: run ctx_within_def option.case)
  have "\<not> isl r"
    using unindexedD [OF read_node_unindexed, of "nat (max_depth inspection_limits)" L entity err "''1''" False new_index_state]
    by (simp only: run fst_conv not_False_eq_True)
  then obtain root sem_err complete where r: "r = Inr (root, sem_err, complete)" by (cases r) auto
  have "case root of None \<Rightarrow> True | Some n \<Rightarrow> height n \<le> 65"
    using semantic_root_ok(3) [OF ok [unfolded r] refl] by (cases root) (simp_all add: inspection_limits_def)
  then show ?thesis
    using False unfolding mime_parse_def parse_semantic_def Let_def
    by (simp add: entity run r new_document_def)
qed

text \<open>
  C17. What \<open>Parse\<close> returns, whatever the limits and whatever the message library does: the document
  holds the bytes it was given; the parts of its tree have distinct paths, and the path it reports
  as parsed through is the path of exactly one of them; it is marked as truncated exactly when it
  lists a cause, and then nothing is presented; a document whose semantic pass was skipped has no
  semantic error.  Without limits there is no error at all.
\<close>

theorem parse_document:
  "case mime_parse L raw lim of
     Inl x \<Rightarrow> lim \<noteq> no_limits
   | Inr d \<Rightarrow>
       doc_raw d = raw
       \<and> distinct (map path_of (case doc_root d of None \<Rightarrow> [] | Some n \<Rightarrow> nodes n))
       \<and> (case doc_parsed_through d of None \<Rightarrow> True
          | Some p \<Rightarrow> \<exists>n m. doc_root d = Some n \<and> filter (\<lambda>m. path_of m = p) (nodes n) = [m])
       \<and> doc_truncated d = (doc_causes d \<noteq> [])
       \<and> \<not> (doc_truncated d \<and> pr_supported (doc_presentation d))
       \<and> \<not> (doc_semantic_skipped d \<and> doc_semantic_error d \<noteq> None)"
proof (cases "mime_parse L raw lim")
  case (Inl x)
  have "lim \<noteq> no_limits"
  proof
    assume "lim = no_limits"
    with Inl unindexed_parse [of L raw] show False by simp
  qed
  with Inl show ?thesis by simp
next
  case (Inr d)
  then have d: "document_ok raw d" using mime_parse_ok [of raw L lim] by simp
  then have "distinct (map path_of (case doc_root d of None \<Rightarrow> [] | Some n \<Rightarrow> nodes n))"
    by (auto simp: document_ok_def root_ok_def intro: paths_distinct split: option.splits)
  with d Inr path_once [of "doc_root d" "doc_parsed_through d"] show ?thesis
    by (auto simp: document_ok_def)
qed

text \<open>
  Without limits, as the SMTP server parses, the tree is bounded all the same: the depth guard
  of \<open>readSemanticNode\<close> stops at 64 levels, and the text of an encapsulated message that cannot be read
  adds one; nothing is truncated.
\<close>

theorem parse_without_limits_bounded:
  "\<exists>d. mime_parse L raw no_limits = Inr d
     \<and> (case doc_root d of None \<Rightarrow> True | Some n \<Rightarrow> height n \<le> 65)
     \<and> \<not> doc_truncated d \<and> doc_causes d = [] \<and> doc_lines d = []"
  by (rule unindexed_parse)

end
