(* ===== verification/Smtp_Parse.thy ===== *)
theory Smtp_Parse
  imports Calendar Store Mime_Parse
begin

text \<open>
  \<open>internal/smtpserver/parser.go\<close> and \<open>normalizedRecipients\<close>: from the bytes of a message and its
  envelope to what the store is given.

  The mail headers of \<open>go-message/mail\<close> are outside the repository: \<open>mail_lib\<close> is what is called of
  them, beside \<open>mime_lib\<close>.  \<open>AddressList\<close> yields nilable addresses of an address and a name, \<open>Fields\<close>
  the header lines in order, each with its raw bytes or an error.
\<close>

record 'e header_line =
  hl_key :: bytes
  hl_value :: bytes
  hl_raw :: "'e + bytes"

record ('h, 'e) mail_lib =
  mh_address_list :: "'h \<Rightarrow> bytes \<Rightarrow> 'e + (bytes \<times> bytes) option list"
  mh_subject :: "'h \<Rightarrow> bytes \<times> 'e option"
  mh_fields :: "'h \<Rightarrow> 'e header_line list"

datatype 'e smtp_parse_err =
    Broken_Parse invariant_err
  | Semantic_Err "'e mime_err"
  | No_Root
  | Bad_Addresses 'e
  | Bad_Subject 'e

definition nullable :: "bytes \<Rightarrow> bytes option" where
  "nullable s = (if s = [] then None else Some s)"

section \<open>Headers\<close>

fun address_entries :: "(bytes \<times> bytes) option list \<Rightarrow> address_entry list" where
  "address_entries [] = []"
| "address_entries (None # as) = address_entries as"
| "address_entries (Some (address, name) # as) =
     (if address = [] then address_entries as
      else \<lparr>ae_address = address, ae_name = nullable name\<rparr> # address_entries as)"

definition addresses :: "('h, 'e) mail_lib \<Rightarrow> 'h \<Rightarrow> bytes \<Rightarrow> 'e smtp_parse_err + address_entry list" where
  "addresses M h key =
     (case mh_address_list M h key of Inl e \<Rightarrow> Inl (Bad_Addresses e) | Inr parsed \<Rightarrow> Inr (address_entries parsed))"

definition header_line_text :: "'e header_line \<Rightarrow> bytes" where
  "header_line_text f =
     (case hl_raw f of Inr raw \<Rightarrow> trim_right_set CRLF raw | Inl e \<Rightarrow> hl_key f @ '': '' @ hl_value f)"

definition header_lines :: "unicode \<Rightarrow> ('h, 'e) mail_lib \<Rightarrow> 'h \<Rightarrow> (bytes \<times> bytes) list" where
  "header_lines u M h =
     fold (\<lambda>f. map_put (to_lower u (hl_key f)) (header_line_text f)) (mh_fields M h) []"

section \<open>Recipients\<close>

fun recipients_loop :: "unicode \<Rightarrow> bytes set \<Rightarrow> bytes list \<Rightarrow> bytes list" where
  "recipients_loop u seen [] = []"
| "recipients_loop u seen (a # as) =
     (let address = to_lower u (trim_space a) in
      if address = [] then recipients_loop u seen as
      else if address \<in> seen then recipients_loop u seen as
      else address # recipients_loop u (insert address seen) as)"

definition normalized_recipients :: "unicode \<Rightarrow> bytes list \<Rightarrow> address_entry list \<Rightarrow> bytes list" where
  "normalized_recipients u envelope fallback =
     recipients_loop u {} (if envelope = [] then map ae_address fallback else envelope)"

section \<open>Attachments\<close>

text \<open>The stack of \<open>collectAllLeaves\<close>, its top first; the children are pushed from the last.\<close>

function leaves_loop :: "('h, 'e) node list \<Rightarrow> ('h, 'e) attachment_candidate list \<Rightarrow> ('h, 'e) attachment_candidate list" where
  "leaves_loop [] found = found"
| "leaves_loop (Node i cs # stack) found =
     (if cs = [] \<or> nd_media_type i = ''message/rfc822'' \<or> nd_media_type i = ''message/global''
      then leaves_loop stack (found @ [candidate (Node i cs) False])
      else leaves_loop (cs @ stack) found)"
  by pat_completeness auto
termination
  by (relation "measure (\<lambda>(stack, found). size_list size stack)") (auto simp: size_list_append)

definition collect_all_leaves :: "('h, 'e) node option \<Rightarrow> ('h, 'e) attachment_candidate list" where
  "collect_all_leaves root = (case root of None \<Rightarrow> [] | Some n \<Rightarrow> leaves_loop [n] [])"

definition project_attachment :: "('h, 'e) mime_lib \<Rightarrow> ('h, 'e) attachment_candidate \<Rightarrow> attachment_input" where
  "project_attachment L c =
     (let n = ac_node c;
          content_type =
            (if unreadable L n \<or> nd_media_type (info n) = [] then ''application/octet-stream''
             else nd_media_type (info n)) in
      \<lparr>ai_filename = nullable (filename n), ai_content_type = nullable content_type,
       ai_content_id =
         (if ac_expose_content_id c
          then nullable (normalize_content_id (ml_unicode L) (ml_get L (nd_header (info n)) ''Content-Id''))
          else None),
       ai_content = nd_decoded_body (info n)\<rparr>)"

definition project_attachments :: "('h, 'e) mime_lib \<Rightarrow> ('h, 'e) attachment_candidate list \<Rightarrow> attachment_input list" where
  "project_attachments L cs = map (project_attachment L) cs"

section \<open>Calendar events\<close>

definition text_of :: "bytes option \<Rightarrow> bytes" where
  "text_of v = (case v of None \<Rightarrow> [] | Some s \<Rightarrow> s)"

text \<open>The two loops: over the events of one attachment, and over the attachments.\<close>

fun new_events :: "bytes set \<Rightarrow> parsed_event list \<Rightarrow> parsed_event list \<times> bytes set" where
  "new_events seen [] = ([], seen)"
| "new_events seen (e # es) =
     (if dedup_key e \<in> seen then new_events seen es
      else (let (fresh, seen) = new_events (insert (dedup_key e) seen) es in (e # fresh, seen)))"

fun calendar_events_loop ::
  "unicode \<Rightarrow> tz_env \<Rightarrow> bytes set \<Rightarrow> attachment_input list \<Rightarrow> parsed_event list" where
  "calendar_events_loop u tz seen [] = []"
| "calendar_events_loop u tz seen (a # as) =
     (if \<not> is_calendar_part u (text_of (ai_content_type a)) (text_of (ai_filename a))
      then calendar_events_loop u tz seen as
      else
        (let (fresh, seen) = new_events seen (parse_ics u tz (ai_content a)) in
         fresh @ calendar_events_loop u tz seen as))"

section \<open>\<open>Parse\<close>\<close>

definition sender_of :: "address_entry list \<Rightarrow> bytes \<Rightarrow> bytes option \<times> bytes option" where
  "sender_of from envelope_from =
     (case from of
        a # _ \<Rightarrow> (Some (ae_address a), ae_name a)
      | [] \<Rightarrow> (if trim_space envelope_from \<noteq> [] then Some envelope_from else None, None))"

text \<open>The attachments of a document: those of its presentation, or every leaf.\<close>

definition document_attachments :: "('h, 'e) mime_lib \<Rightarrow> ('h, 'e) document \<Rightarrow> attachment_input list" where
  "document_attachments L d =
     project_attachments L
       (if pr_supported (doc_presentation d) then pr_attachments (doc_presentation d)
        else collect_all_leaves (doc_root d))"

definition body_text :: "('h, 'e) document \<Rightarrow> ('h, 'e) node option \<Rightarrow> bytes option" where
  "body_text d n =
     (if pr_supported (doc_presentation d) then map_option (\<lambda>n. nd_decoded_body (info n)) n else None)"

definition message_of_document ::
  "('h, 'e) mime_lib \<Rightarrow> ('h, 'e) mail_lib \<Rightarrow> tz_env \<Rightarrow> ('h, 'e) document \<Rightarrow> 'h \<Rightarrow> bytes \<Rightarrow> bytes \<Rightarrow> bytes list
     \<Rightarrow> address_entry list \<Rightarrow> address_entry list \<Rightarrow> address_entry list \<Rightarrow> bytes \<Rightarrow> message_input" where
  "message_of_document L M tz d h raw envelope_from envelope to cc from subject =
     (let u = ml_unicode L; attachments = document_attachments L d;
          (from_address, from_name) = sender_of from envelope_from in
      \<lparr>in_recipients = normalized_recipients u envelope (to @ cc),
       in_from_address = from_address, in_from_name = from_name, in_to = to, in_cc = cc,
       in_subject = nullable subject,
       in_html = body_text d (pr_html (doc_presentation d)),
       in_text = body_text d (pr_text (doc_presentation d)),
       in_headers = header_lines u M h, in_size = int (length raw),
       in_attachments = attachments, in_ical = calendar_events_loop u tz {} attachments,
       in_raw = raw\<rparr>)"

definition bad_subject :: "('h, 'e) mime_lib \<Rightarrow> 'e option \<Rightarrow> bool" where
  "bad_subject L e \<longleftrightarrow> (case e of None \<Rightarrow> False | Some x \<Rightarrow> \<not> ml_unknown_charset L x)"

definition smtp_parse ::
  "('h, 'e) mime_lib \<Rightarrow> ('h, 'e) mail_lib \<Rightarrow> tz_env \<Rightarrow> bytes \<Rightarrow> bytes \<Rightarrow> bytes list
     \<Rightarrow> 'e smtp_parse_err + message_input" where
  "smtp_parse L M tz raw envelope_from envelope =
     (case mime_parse L raw no_limits of
        Inl x \<Rightarrow> Inl (Broken_Parse x)
      | Inr d \<Rightarrow>
          (case doc_semantic_error d of
             Some e \<Rightarrow> Inl (Semantic_Err e)
           | None \<Rightarrow>
               (case doc_root d of
                  None \<Rightarrow> Inl No_Root
                | Some root \<Rightarrow>
                    (let h = nd_header (info root) in
                     case addresses M h ''To'' of
                       Inl e \<Rightarrow> Inl e
                     | Inr to \<Rightarrow>
                         (case addresses M h ''Cc'' of
                            Inl e \<Rightarrow> Inl e
                          | Inr cc \<Rightarrow>
                              (case addresses M h ''From'' of
                                 Inl e \<Rightarrow> Inl e
                               | Inr from \<Rightarrow>
                                   (case mh_subject M h of
                                      (subject, err) \<Rightarrow>
                                        if bad_subject L err
                                        then Inl (case err of Some e \<Rightarrow> Bad_Subject e | None \<Rightarrow> No_Root)
                                        else Inr (message_of_document L M tz d h raw envelope_from envelope
                                               to cc from subject))))))))"

end
