(* ===== verification/Smtp_Session.thy ===== *)
theory Smtp_Session
  imports Smtp_Parse
begin

text \<open>
  The session and the service of \<open>internal/smtpserver/smtpserver.go\<close>.

  The protocol library calls the methods of a session in the order of the client's commands; a
  method is a function on the session.  What \<open>Data\<close> reads is the bytes its reader yields and how
  they end.  The store is the parameter \<open>put\<close>: it is told whether the context of the session is
  canceled, and answers whether \<open>StoreMessage\<close> succeeded; \<open>'c\<close> is what else decides a call (the
  clock, failing driver calls, the timeout of 30 seconds).
\<close>

section \<open>Sessions\<close>

definition max_message_bytes :: nat where
  "max_message_bytes = 26214400"

definition max_recipients :: nat where
  "max_recipients = 100"

record smtp_session =
  ss_from :: bytes
  ss_recipients :: "bytes list"
  ss_canceled :: bool

text \<open>\<open>NewSession\<close> with a store: the context of the session is below that of the service.\<close>

definition new_smtp_session :: "bool \<Rightarrow> smtp_session" where
  "new_smtp_session base_canceled = \<lparr>ss_from = [], ss_recipients = [], ss_canceled = base_canceled\<rparr>"

datatype 'r read_end = End_Of_Data | Size_Exceeded | Broken 'r

datatype 'r smtp_reply =
    Accepted
  | Data_Too_Large
  | Read_Failed 'r
  | Processing_Failed
  | Temporary_Failure

definition smtp_mail :: "bytes \<Rightarrow> smtp_session \<Rightarrow> smtp_session" where
  "smtp_mail from s = s\<lparr>ss_from := from, ss_recipients := []\<rparr>"

definition smtp_rcpt :: "bytes \<Rightarrow> smtp_session \<Rightarrow> smtp_session" where
  "smtp_rcpt to s = s\<lparr>ss_recipients := ss_recipients s @ [to]\<rparr>"

definition smtp_reset :: "smtp_session \<Rightarrow> smtp_session" where
  "smtp_reset s = s\<lparr>ss_from := [], ss_recipients := []\<rparr>"

definition smtp_logout :: "smtp_session \<Rightarrow> smtp_session" where
  "smtp_logout s = (smtp_reset s)\<lparr>ss_canceled := True\<rparr>"

text \<open>
  Reading at most one byte more than allowed: the end of the reader is seen only when it comes
  before that.
\<close>

definition read_data :: "bytes \<Rightarrow> 'r read_end \<Rightarrow> 'r smtp_reply + bytes" where
  "read_data content ending =
     (let raw = take (max_message_bytes + 1) content in
      case (if length content \<le> max_message_bytes then ending else End_Of_Data) of
        Size_Exceeded \<Rightarrow> Inl Data_Too_Large
      | Broken e \<Rightarrow> Inl (Read_Failed e)
      | End_Of_Data \<Rightarrow> if max_message_bytes < length raw then Inl Data_Too_Large else Inr raw)"

type_synonym ('c, 'w) put = "bool \<Rightarrow> 'c \<Rightarrow> message_input \<Rightarrow> 'w \<Rightarrow> bool \<times> 'w"

definition smtp_data ::
  "('h, 'e) mime_lib \<Rightarrow> ('h, 'e) mail_lib \<Rightarrow> tz_env \<Rightarrow> ('c, 'w) put \<Rightarrow> 'c \<Rightarrow> bytes \<Rightarrow> 'r read_end
     \<Rightarrow> smtp_session \<Rightarrow> 'w \<Rightarrow> 'r smtp_reply \<times> 'w" where
  "smtp_data L M tz put c content ending s w =
     (case read_data content ending of
        Inl reply \<Rightarrow> (reply, w)
      | Inr raw \<Rightarrow>
          (case smtp_parse L M tz raw (ss_from s) (ss_recipients s) of
             Inl e \<Rightarrow> (Processing_Failed, w)
           | Inr inp \<Rightarrow>
               (case put (ss_canceled s) c inp w of
                  (ok, w') \<Rightarrow> (if ok then Accepted else Temporary_Failure, w'))))"

section \<open>The commands of a session\<close>

text \<open>The last of them is the service entering its terminal state, which cancels every session.\<close>

datatype ('c, 'r) smtp_op =
    Op_Mail bytes
  | Op_Rcpt bytes
  | Op_Data 'c bytes "'r read_end"
  | Op_Reset
  | Op_Logout
  | Op_Base_Cancel

fun smtp_step ::
  "('h, 'e) mime_lib \<Rightarrow> ('h, 'e) mail_lib \<Rightarrow> tz_env \<Rightarrow> ('c, 'w) put \<Rightarrow> ('c, 'r) smtp_op \<Rightarrow> smtp_session \<Rightarrow> 'w
     \<Rightarrow> 'r smtp_reply option \<times> smtp_session \<times> 'w" where
  "smtp_step L M tz put (Op_Mail from) s w = (None, smtp_mail from s, w)"
| "smtp_step L M tz put (Op_Rcpt to) s w = (None, smtp_rcpt to s, w)"
| "smtp_step L M tz put (Op_Data c content ending) s w =
     (case smtp_data L M tz put c content ending s w of (reply, w') \<Rightarrow> (Some reply, s, w'))"
| "smtp_step L M tz put Op_Reset s w = (None, smtp_reset s, w)"
| "smtp_step L M tz put Op_Logout s w = (None, smtp_logout s, w)"
| "smtp_step L M tz put Op_Base_Cancel s w = (None, s\<lparr>ss_canceled := True\<rparr>, w)"

fun smtp_run ::
  "('h, 'e) mime_lib \<Rightarrow> ('h, 'e) mail_lib \<Rightarrow> tz_env \<Rightarrow> ('c, 'w) put \<Rightarrow> ('c, 'r) smtp_op list \<Rightarrow> smtp_session \<Rightarrow> 'w
     \<Rightarrow> 'r smtp_reply option list \<times> smtp_session \<times> 'w" where
  "smtp_run L M tz put [] s w = ([], s, w)"
| "smtp_run L M tz put (op # ops) s w =
     (case smtp_step L M tz put op s w of
        (reply, s, w) \<Rightarrow>
          (case smtp_run L M tz put ops s w of (replies, s, w) \<Rightarrow> (reply # replies, s, w)))"

section \<open>The service\<close>

text \<open>
  The service around the protocol server: a listener (a number) while it serves, and whether it is
  closing, which also tells that the base context is canceled.  \<open>sm_closed\<close> collects the listeners
  the service has closed, \<open>sm_serving\<close> those for which the protocol server runs.
\<close>

record smtp_service =
  sm_listener :: "nat option"
  sm_closing :: bool
  sm_canceled :: bool
  sm_closed :: "nat set"
  sm_serving :: "nat set"

definition new_smtp_service :: smtp_service where
  "new_smtp_service = \<lparr>sm_listener = None, sm_closing = False, sm_canceled = False, sm_closed = {}, sm_serving = {}\<rparr>"

datatype smtp_serve_result = Nil_Listener | Server_Closed | Already_Serving | Serving

definition smtp_serve_enter :: "nat option \<Rightarrow> smtp_service \<Rightarrow> smtp_serve_result \<times> smtp_service" where
  "smtp_serve_enter listener v =
     (case listener of
        None \<Rightarrow> (Nil_Listener, v)
      | Some l \<Rightarrow>
          if sm_closing v then (Server_Closed, v\<lparr>sm_closed := insert l (sm_closed v)\<rparr>)
          else if sm_listener v \<noteq> None then (Already_Serving, v)
          else (Serving, v\<lparr>sm_listener := Some l, sm_serving := insert l (sm_serving v)\<rparr>))"

text \<open>The protocol server has returned: the deferred function.\<close>

definition smtp_serve_leave :: "nat \<Rightarrow> smtp_service \<Rightarrow> smtp_service" where
  "smtp_serve_leave l v =
     (let v = v\<lparr>sm_serving := sm_serving v - {l}\<rparr> in
      if sm_listener v = Some l then v\<lparr>sm_listener := None\<rparr> else v)"

definition enter_terminal :: "smtp_service \<Rightarrow> nat option \<times> smtp_service" where
  "enter_terminal v =
     (let first = \<not> sm_closing v; v' = v\<lparr>sm_closing := True\<rparr> in
      (sm_listener v, if first then v'\<lparr>sm_canceled := True\<rparr> else v'))"

definition close_listener :: "nat option \<Rightarrow> smtp_service \<Rightarrow> smtp_service" where
  "close_listener listener v =
     (case listener of None \<Rightarrow> v | Some l \<Rightarrow> v\<lparr>sm_closed := insert l (sm_closed v)\<rparr>)"

text \<open>\<open>Shutdown\<close> and \<open>Close\<close> differ in the method of the protocol server they call, and return its result.\<close>

definition smtp_shutdown :: "(smtp_service \<Rightarrow> 'r) \<Rightarrow> smtp_service \<Rightarrow> 'r \<times> smtp_service" where
  "smtp_shutdown stop v =
     (let (listener, v) = enter_terminal v; err = stop v in (err, close_listener listener v))"

text \<open>\<open>NewSession\<close> with a nil store refuses.\<close>

definition smtp_new_session :: "bool \<Rightarrow> smtp_service \<Rightarrow> smtp_session option" where
  "smtp_new_session has_store v = (if has_store then Some (new_smtp_session (sm_canceled v)) else None)"

end
