(* ===== verification/Smtp_Backend.thy ===== *)
theory Smtp_Backend
  imports Smtp_Session Store_Props
begin

text \<open>
  What a session needs of the store, as a contract; what it then promises; and the contract
  discharged on the model of the store.
\<close>

section \<open>The contract\<close>

text \<open>The session after a command, whatever the store did.\<close>

fun session_after :: "('c, 'r) smtp_op \<Rightarrow> smtp_session \<Rightarrow> smtp_session" where
  "session_after (Op_Mail from) s = smtp_mail from s"
| "session_after (Op_Rcpt to) s = smtp_rcpt to s"
| "session_after (Op_Data c content ending) s = s"
| "session_after Op_Reset s = smtp_reset s"
| "session_after Op_Logout s = smtp_logout s"
| "session_after Op_Base_Cancel s = s\<lparr>ss_canceled := True\<rparr>"

lemma smtp_step_session: "fst (snd (smtp_step L M tz put op s w)) = session_after op s"
  by (cases op) (simp_all split: prod.split)

text \<open>What a message adds to the mail: its bytes for every address.\<close>

definition copies :: "(message_input \<Rightarrow> bytes list) \<Rightarrow> message_input \<Rightarrow> (bytes \<times> bytes) list" where
  "copies addrs inp = map (\<lambda>a. (a, in_raw inp)) (addrs inp)"

text \<open>The mail that the replies acknowledge: the messages of the accepted \<open>DATA\<close> commands.\<close>

definition acknowledged ::
  "('h, 'e) mime_lib \<Rightarrow> ('h, 'e) mail_lib \<Rightarrow> tz_env \<Rightarrow> (message_input \<Rightarrow> bytes list) \<Rightarrow> ('c, 'r) smtp_op
     \<Rightarrow> 'r smtp_reply option \<Rightarrow> smtp_session \<Rightarrow> (bytes \<times> bytes) list" where
  "acknowledged L M tz addrs op reply s =
     (case op of
        Op_Data c content ending \<Rightarrow>
          (case reply of
             Some Accepted \<Rightarrow>
               (case smtp_parse L M tz content (ss_from s) (ss_recipients s) of
                  Inl e \<Rightarrow> [] | Inr inp \<Rightarrow> copies addrs inp)
           | _ \<Rightarrow> [])
      | _ \<Rightarrow> [])"

fun acknowledged_run ::
  "('h, 'e) mime_lib \<Rightarrow> ('h, 'e) mail_lib \<Rightarrow> tz_env \<Rightarrow> (message_input \<Rightarrow> bytes list) \<Rightarrow> ('c, 'r) smtp_op list
     \<Rightarrow> 'r smtp_reply option list \<Rightarrow> smtp_session \<Rightarrow> (bytes \<times> bytes) list" where
  "acknowledged_run L M tz addrs (op # ops) (reply # replies) s =
     acknowledged L M tz addrs op reply s @ acknowledged_run L M tz addrs ops replies (session_after op s)"
| "acknowledged_run L M tz addrs _ _ s = []"

locale message_store =
  fixes put :: "('c, 'w) put" and env_ok :: "'c \<Rightarrow> bool" and good :: "'w \<Rightarrow> bool"
    and mail :: "'w \<Rightarrow> (bytes \<times> bytes) list" and addrs :: "message_input \<Rightarrow> bytes list"
  assumes put_stores: "good w \<Longrightarrow> env_ok c \<Longrightarrow> put canceled c inp w = (True, w')
      \<Longrightarrow> good w' \<and> mail w' = mail w @ copies addrs inp"
    and put_fails: "put canceled c inp w = (False, w') \<Longrightarrow> w' = w"
    and put_canceled: "put True c inp w = (ok, w') \<Longrightarrow> \<not> ok"

lemma read_data_Inr:
  assumes "read_data content ending = Inr raw"
  shows "raw = content \<and> length content \<le> max_message_bytes \<and> ending = End_Of_Data"
proof -
  have "length content \<le> max_message_bytes"
  proof (rule ccontr)
    assume "\<not> length content \<le> max_message_bytes"
    then have "read_data content ending = Inl Data_Too_Large" by (simp add: read_data_def Let_def)
    with assms show False by simp
  qed
  with assms show ?thesis by (cases ending) (simp_all add: read_data_def Let_def)
qed

lemma smtp_parse_raw: "smtp_parse L M tz raw from envelope = Inr inp \<Longrightarrow> in_raw inp = raw"
  by (simp add: smtp_parse_def message_of_document_def Let_def split_beta
      split: sum.splits option.splits if_splits) auto

context message_store
begin

lemma data_stores:
  assumes "good w" and "env_ok c" and "smtp_data L M tz put c content ending s w = (reply, w')"
  shows "good w' \<and> mail w' = mail w @ acknowledged L M tz addrs (Op_Data c content ending) (Some reply) s"
proof (cases "read_data content ending")
  case (Inl r)
  then have "r \<noteq> Accepted"
    by (auto simp: read_data_def Let_def split: read_end.splits if_splits)
  with Inl assms show ?thesis by (auto simp: smtp_data_def acknowledged_def split: smtp_reply.split)
next
  case (Inr raw)
  then have raw: "raw = content" using read_data_Inr by blast
  show ?thesis
  proof (cases "smtp_parse L M tz raw (ss_from s) (ss_recipients s)")
    case (Inl e)
    then show ?thesis using assms Inr by (auto simp: smtp_data_def acknowledged_def)
  next
    case parsed: (Inr inp)
    obtain ok v where put: "put (ss_canceled s) c inp w = (ok, v)" by (metis surj_pair)
    have run: "reply = (if ok then Accepted else Temporary_Failure)" "w' = v"
      using assms(3) Inr parsed put by (auto simp: smtp_data_def)
    show ?thesis
    proof (cases ok)
      case True
      with put_stores [OF assms(1,2)] put have "good v \<and> mail v = mail w @ copies addrs inp" by simp
      then show ?thesis using True run parsed raw by (simp add: acknowledged_def)
    next
      case False
      with put_fails [of "ss_canceled s" c inp w v] put have "v = w" by simp
      then show ?thesis using False run assms(1) by (simp add: acknowledged_def)
    qed
  qed
qed

lemma step_stores:
  assumes "good w" and "\<And>c content ending. op = Op_Data c content ending \<Longrightarrow> env_ok c"
    and "smtp_step L M tz put op s w = (reply, s', w')"
  shows "good w' \<and> mail w' = mail w @ acknowledged L M tz addrs op reply s"
proof (cases op)
  case (Op_Data c content ending)
  obtain r v where run: "smtp_data L M tz put c content ending s w = (r, v)" by (metis surj_pair)
  from data_stores [OF assms(1) assms(2) [OF Op_Data] run] assms(3) show ?thesis by (simp add: Op_Data run)
qed (use assms in \<open>auto simp: acknowledged_def\<close>)

lemma run_stores:
  assumes "good w" and "\<And>c content ending. Op_Data c content ending \<in> set ops \<Longrightarrow> env_ok c"
    and "smtp_run L M tz put ops s w = (replies, s', w')"
  shows "good w' \<and> mail w' = mail w @ acknowledged_run L M tz addrs ops replies s"
  using assms
proof (induction ops arbitrary: s w replies)
  case (Cons op ops)
  obtain reply s1 w1 where step: "smtp_step L M tz put op s w = (reply, s1, w1)" by (metis prod_cases3)
  obtain replies1 where rest: "smtp_run L M tz put ops s1 w1 = (replies1, s', w')" "replies = reply # replies1"
    using Cons.prems(3) step by (auto split: prod.splits)
  have s1: "s1 = session_after op s" using smtp_step_session [of L M tz put op s w] step by simp
  have "good w1 \<and> mail w1 = mail w @ acknowledged L M tz addrs op reply s"
    by (rule step_stores [OF Cons.prems(1) _ step]) (use Cons.prems(2) in auto)
  with Cons.IH [OF _ _ rest(1)] Cons.prems(2) show ?case by (auto simp: rest(2) s1)
qed simp

text \<open>A canceled session stores nothing more.\<close>

lemma canceled_after: "ss_canceled s \<Longrightarrow> ss_canceled (session_after op s)"
  by (cases op) (simp_all add: smtp_mail_def smtp_rcpt_def smtp_reset_def smtp_logout_def)

lemma canceled_step:
  assumes "ss_canceled s" and "smtp_step L M tz put op s w = (reply, s', w')"
  shows "w' = w \<and> reply \<noteq> Some Accepted"
proof (cases op)
  case (Op_Data c content ending)
  have "put True c inp w = (False, w)" for inp
    using put_canceled put_fails by (metis surj_pair)
  moreover have "read_data content ending \<noteq> Inl Accepted"
    by (auto simp: read_data_def Let_def split: read_end.splits)
  ultimately show ?thesis
    using assms Op_Data by (auto simp: smtp_data_def split: sum.splits prod.splits)
qed (use assms in auto)

lemma canceled_run:
  "ss_canceled s \<Longrightarrow> smtp_run L M tz put ops s w = (replies, s', w') \<Longrightarrow> w' = w \<and> Some Accepted \<notin> set replies"
proof (induction ops arbitrary: s w replies)
  case (Cons op ops)
  obtain reply s1 w1 where step: "smtp_step L M tz put op s w = (reply, s1, w1)" by (metis prod_cases3)
  obtain replies1 where rest: "smtp_run L M tz put ops s1 w1 = (replies1, s', w')" "replies = reply # replies1"
    using Cons.prems(2) step by (auto split: prod.splits)
  have "ss_canceled s1" using smtp_step_session [of L M tz put op s w] step canceled_after [OF Cons.prems(1)] by simp
  with Cons.IH rest canceled_step [OF Cons.prems(1) step] show ?case by auto
qed simp

end

section \<open>The store\<close>

text \<open>
  A canceled context makes the first call of the store that takes it fail.  The engine, the clock
  and the failing driver calls of each request are its environment.
\<close>

definition store_put :: "unicode \<Rightarrow> (engine \<times> int \<times> faults, store) put" where
  "store_put u canceled c inp st =
     (case c of (E, now, fs) \<Rightarrow>
        (case store_message E u now inp (if canceled then [True] else fs) st of
           (r, st', evs) \<Rightarrow> (\<not> isl r, st')))"

definition engine_of_ok :: "engine \<times> int \<times> faults \<Rightarrow> bool" where
  "engine_of_ok c = engine_ok (fst c)"

definition store_ok :: "store \<Rightarrow> bool" where
  "store_ok st = db_ok (sdb st)"

text \<open>The mail of a store: the address of the mailbox and the bytes of every message.\<close>

definition owner_address :: "db \<Rightarrow> int \<Rightarrow> bytes option" where
  "owner_address d i = map_option mb_address (find (\<lambda>m. mb_id m = i) (mailboxes d))"

definition mail_of :: "store \<Rightarrow> (bytes \<times> bytes) list" where
  "mail_of st = map (\<lambda>m. (the (owner_address (sdb st) (msg_mailbox m)), msg_raw m)) (messages (sdb st))"

lemma owner_address_directory:
  assumes "db_ok d"
  shows "owner_address d i = Some a \<longleftrightarrow> (a, i) \<in> set (directory d)"
proof
  assume "owner_address d i = Some a"
  then obtain m where "find (\<lambda>m. mb_id m = i) (mailboxes d) = Some m" "a = mb_address m"
    by (auto simp: owner_address_def)
  then show "(a, i) \<in> set (directory d)" by (auto simp: directory_def find_Some_iff)
next
  assume "(a, i) \<in> set (directory d)"
  then obtain m where m: "m \<in> set (mailboxes d)" "mb_address m = a" "mb_id m = i" by (auto simp: directory_def)
  have "distinct (map mb_id (mailboxes d))" using assms by (simp add: db_ok_def ids_ok_def)
  with m have "find (\<lambda>m. mb_id m = i) (mailboxes d) = Some m"
    using find_Some_iff_distinct [of mb_id "mailboxes d" i m] by simp
  with m show "owner_address d i = Some a" by (simp add: owner_address_def)
qed

lemma delivered_mail:
  assumes ok: "db_ok (sdb st)" "db_ok (sdb st')"
    and del: "delivered inp now addrs (sdb st) evs stored (sdb st')"
  shows "mail_of st' = mail_of st @ map (\<lambda>a. (a, in_raw inp)) addrs"
proof -
  let ?d = "sdb st" and ?d' = "sdb st'"
  from del obtain created where dir: "directory ?d' = directory ?d @ created"
    and msgs: "messages ?d' = messages ?d @ map (copy_of inp now) stored"
    and addrs: "list_all2 (\<lambda>a p. (a, fst p) \<in> set (directory ?d')) addrs stored"
    unfolding delivered_def by blast
  have "owner_address ?d' (msg_mailbox m) = owner_address ?d (msg_mailbox m)" if "m \<in> set (messages ?d)" for m
  proof -
    have "msg_mailbox m \<in> set (map mb_id (mailboxes ?d))" using ok(1) that by (auto simp: db_ok_def)
    then obtain a where "(a, msg_mailbox m) \<in> set (directory ?d)" by (auto simp: directory_def)
    then have "owner_address ?d (msg_mailbox m) = Some a" "owner_address ?d' (msg_mailbox m) = Some a"
      unfolding owner_address_directory [OF ok(1)] owner_address_directory [OF ok(2)] by (simp_all add: dir)
    then show ?thesis by simp
  qed
  moreover have "map (\<lambda>m. (the (owner_address ?d' (msg_mailbox m)), msg_raw m)) (map (copy_of inp now) stored)
      = map (\<lambda>a. (a, in_raw inp)) addrs"
    using addrs
  proof (induction rule: list_all2_induct)
    case (Cons a as p ps)
    then show ?case
      using owner_address_directory [OF ok(2), of "fst p" a] by (simp add: copy_of_def message_row_of_def)
  qed simp
  ultimately show ?thesis unfolding mail_of_def msgs by simp
qed

interpretation smtp_store: message_store "store_put u" engine_of_ok store_ok mail_of "delivery_addresses u"
  for u
proof
  fix st st' :: store and c canceled inp
  assume good: "store_ok st" "engine_of_ok c" and run: "store_put u canceled c inp st = (True, st')"
  obtain E now fs where c: "c = (E, now, fs)" by (metis prod_cases3)
  let ?fs = "if canceled then [True] else fs"
  obtain r v evs where res: "store_message E u now inp ?fs st = (r, v, evs)" by (metis prod_cases3)
  have "\<not> isl r" "v = st'" using run res by (simp_all add: store_put_def c)
  then obtain stored where put: "store_message E u now inp ?fs st = (Inr stored, st', evs)"
    using res by (cases r) auto
  have E: "engine_ok E" and d: "db_ok (sdb st)" using good by (simp_all add: c engine_of_ok_def store_ok_def)
  have d': "db_ok (sdb st')" using store_message_sound [OF E d, of u now inp ?fs] put by (simp add: sound_def)
  from delivered_mail [OF d d' store_message_Inr(1) [OF E d put]] d'
  show "store_ok st' \<and> mail_of st' = mail_of st @ copies (delivery_addresses u) inp"
    by (simp add: store_ok_def copies_def)
next
  fix st st' :: store and c canceled inp
  assume run: "store_put u canceled c inp st = (False, st')"
  obtain E now fs where c: "c = (E, now, fs)" by (metis prod_cases3)
  obtain e evs where "store_message E u now inp (if canceled then [True] else fs) st = (Inl e, st', evs)"
    using run by (auto simp: store_put_def c isl_def split: prod.splits)
  then show "st' = st"
    using request_no_effect [of E u "Rq_Store_Message now inp" "if canceled then [True] else fs" st e st' evs]
    by (simp add: forget_def)
next
  fix st st' :: store and c inp ok
  assume "store_put u True c inp st = (ok, st')"
  then show "\<not> ok" by (auto simp: store_put_def store_message_def with_pop3_def faulty_def split: prod.splits)
qed

end
