(* ===== verification/Smtp_Props.thy ===== *)
theory Smtp_Props
  imports Smtp_Backend Mime_Parse_Props
begin

text \<open>
  What the SMTP server promises: what it derives from a message and its envelope, that no leaf of
  the message is lost, and that the mail of the store grows by exactly what was acknowledged.
\<close>

section \<open>Recipients\<close>

lemma recipients_loop_eq:
  "recipients_loop u seen as = dedup_first seen (filter (\<lambda>a. a \<noteq> []) (map (\<lambda>a. to_lower u (trim_space a)) as))"
  by (induction as arbitrary: seen) (simp_all add: Let_def)

section \<open>Calendar events\<close>

lemma new_events_eq:
  "new_events seen es = (fresh, seen') \<Longrightarrow>
     map dedup_key fresh = dedup_first seen (map dedup_key es) \<and> seen' = seen \<union> dedup_key ` set es \<and> set fresh \<subseteq> set es"
  by (induction es arbitrary: seen fresh)
    (fastforce simp: Let_def insert_absorb split: prod.splits if_splits)+

lemma dedup_first_append:
  "dedup_first seen (xs @ ys) = dedup_first seen xs @ dedup_first (seen \<union> set xs) ys"
  by (induction xs arbitrary: seen) (auto simp: insert_absorb)

text \<open>The events of the calendar attachments, in order.\<close>

definition calendar_events :: "unicode \<Rightarrow> tz_env \<Rightarrow> attachment_input list \<Rightarrow> parsed_event list" where
  "calendar_events u tz as =
     concat (map (\<lambda>a. parse_ics u tz (ai_content a))
       (filter (\<lambda>a. is_calendar_part u (text_of (ai_content_type a)) (text_of (ai_filename a))) as))"

lemma calendar_events_loop_eq:
  "map dedup_key (calendar_events_loop u tz seen as) = dedup_first seen (map dedup_key (calendar_events u tz as))
   \<and> set (calendar_events_loop u tz seen as) \<subseteq> set (calendar_events u tz as)"
proof (induction as arbitrary: seen)
  case (Cons a as)
  show ?case
  proof (cases "is_calendar_part u (text_of (ai_content_type a)) (text_of (ai_filename a))")
    case True
    obtain fresh seen' where new: "new_events seen (parse_ics u tz (ai_content a)) = (fresh, seen')" by (metis surj_pair)
    from True new_events_eq [OF new] Cons.IH [of seen'] show ?thesis
      by (auto simp: calendar_events_def new dedup_first_append)
  next
    case False
    with Cons.IH [of seen] show ?thesis by (simp add: calendar_events_def)
  qed
qed (simp add: calendar_events_def)

lemma calendar_events_bounded:
  "length (calendar_events u tz as) \<le> 1000 * length as" "list_all event_ok (calendar_events u tz as)"
proof -
  show "length (calendar_events u tz as) \<le> 1000 * length as"
    unfolding calendar_events_def
    by (induction as) (use parse_ics_bounded in \<open>auto intro: add_mono le_SucI simp: add_increasing\<close>)
  show "list_all event_ok (calendar_events u tz as)"
    using parse_ics_bounded [of u tz] by (auto simp: calendar_events_def list_all_iff)
qed

text \<open>
  The key of an event is not unambiguous: a UID and a method may contain the separator.  The second
  of these events is taken for the first.
\<close>

definition sample_event :: "bytes \<Rightarrow> int \<Rightarrow> bytes \<Rightarrow> parsed_event" where
  "sample_event uid sequence method = \<lparr>pe_method = method, pe_uid = uid, pe_sequence = sequence, pe_summary = None,
     pe_description = None, pe_location = None, pe_status = None, pe_organizer_address = None,
     pe_organizer_name = None, pe_attendees = [], pe_dtstart = 0, pe_dtend = None, pe_all_day = False\<rparr>"

lemma dedup_key_drops_other_event:
  "let e = sample_event ''a'' 1 ''2|REQUEST''; f = sample_event ''a|1'' 2 ''REQUEST'' in
   event_ok e \<and> event_ok f \<and> pe_uid e \<noteq> pe_uid f \<and> fst (new_events {} [e, f]) = [e]"
  by (simp add: Let_def sample_event_def event_ok_def dedup_key_def itoa_def nat_digits.simps [of "Suc 0"]
      nat_digits.simps [of 2] chr_eval in_int64_def max_int64_def)

section \<open>Leaves\<close>

lemma leaves_loop_leaves:
  "att_leaves (leaves_loop stack found) = att_leaves found @ concat (map leaves stack)"
  by (induction stack found rule: leaves_loop.induct) (auto split: if_splits)

lemma collect_all_leaves_leaves: "att_leaves (collect_all_leaves (Some n)) = leaves n"
  by (simp add: collect_all_leaves_def leaves_loop_leaves)

section \<open>What a message becomes\<close>

lemma smtp_parse_Inr:
  assumes "smtp_parse L M tz raw from envelope = Inr inp"
  shows "\<exists>d to cc.
     mime_parse L raw no_limits = Inr d \<and> doc_root d \<noteq> None \<and> in_raw inp = raw \<and> in_size inp = int (length raw)
     \<and> in_recipients inp = normalized_recipients (ml_unicode L) envelope (to @ cc)
     \<and> in_to inp = to \<and> in_cc inp = cc
     \<and> in_attachments inp = document_attachments L d
     \<and> in_text inp = body_text d (pr_text (doc_presentation d))
     \<and> in_html inp = body_text d (pr_html (doc_presentation d))
     \<and> in_ical inp = calendar_events_loop (ml_unicode L) tz {} (in_attachments inp)"
  using assms
  by (auto simp: smtp_parse_def message_of_document_def Let_def split_beta
      split: sum.splits option.splits if_splits)

text \<open>Without limits, the presentation of a parsed document is the selection of its root.\<close>

lemma unlimited_presentation:
  assumes "mime_parse L raw no_limits = Inr d" and "doc_root d = Some n"
  shows "doc_presentation d = select_presentation L n"
  using assms
  by (auto simp: mime_parse_def parse_semantic_def Let_def split_beta new_document_def select_presentation_opt_def
      split: sum.splits option.splits if_splits)

lemma document_attachments_all:
  assumes "mime_parse L raw no_limits = Inr d" and "doc_root d = Some n" and "plain_mixed n"
  shows "\<exists>p. document_attachments L d = project_attachments L (pr_attachments p)
     \<and> body_text d (pr_text (doc_presentation d)) = map_option (\<lambda>n. nd_decoded_body (info n)) (pr_text p)
     \<and> body_text d (pr_html (doc_presentation d)) = map_option (\<lambda>n. nd_decoded_body (info n)) (pr_html p)
     \<and> presented p = mset (leaves n)"
proof -
  note pres = unlimited_presentation [OF assms(1,2)]
  show ?thesis
  proof (cases "pr_supported (doc_presentation d)")
    case True
    then show ?thesis
      using mixed_presents_all [OF assms(3), of L]
      by (intro exI [of _ "select_presentation L n"]) (simp add: pres document_attachments_def body_text_def)
  next
    case False
    then show ?thesis
      by (intro exI [of _ "no_presentation\<lparr>pr_attachments := collect_all_leaves (Some n)\<rparr>"])
        (simp add: document_attachments_def body_text_def no_presentation_def presented_def assms(2)
          collect_all_leaves_leaves)
  qed
qed

lemma read_data_bounded: "length content \<le> max_message_bytes \<or> read_data content ending = Inl Data_Too_Large"
  by (simp add: read_data_def Let_def)

lemma accepted_data:
  assumes "smtp_data L M tz put c content ending s w = (Accepted, w')"
  shows "length content \<le> max_message_bytes"
  using assms read_data_bounded [of content ending] by (auto simp: smtp_data_def)

lemma copies_bounded: "length (in_raw inp) \<le> k \<Longrightarrow> list_all (\<lambda>p. length (snd p) \<le> k) (copies addrs inp)"
  by (simp add: copies_def list_all_iff)

lemma acknowledged_bounded:
  assumes "smtp_step L M tz put op s w = (reply, s', w')"
  shows "list_all (\<lambda>p. length (snd p) \<le> max_message_bytes) (acknowledged L M tz addrs op reply s)"
proof (cases op)
  case (Op_Data c content ending)
  obtain r v where run: "smtp_data L M tz put c content ending s w = (r, v)" by (metis surj_pair)
  have reply: "reply = Some r" using assms by (simp add: Op_Data run)
  show ?thesis
  proof (cases "r = Accepted")
    case True
    then have "length content \<le> max_message_bytes"
      using accepted_data [of L M tz put c content ending s w v] run by simp
    then show ?thesis
      by (auto simp: acknowledged_def Op_Data reply True dest!: smtp_parse_raw intro!: copies_bounded split: sum.split)
  qed (auto simp: acknowledged_def Op_Data reply split: smtp_reply.split)
qed (simp_all add: acknowledged_def)

lemma acknowledged_run_bounded:
  "smtp_run L M tz put ops s w = (replies, s', w') \<Longrightarrow>
     list_all (\<lambda>p. length (snd p) \<le> max_message_bytes) (acknowledged_run L M tz addrs ops replies s)"
proof (induction ops arbitrary: s w replies)
  case (Cons op ops)
  obtain reply s1 w1 where step: "smtp_step L M tz put op s w = (reply, s1, w1)" by (metis prod_cases3)
  obtain replies1 where rest: "smtp_run L M tz put ops s1 w1 = (replies1, s', w')" "replies = reply # replies1"
    using Cons.prems step by (auto split: prod.splits)
  have "s1 = session_after op s" using smtp_step_session [of L M tz put op s w] step by simp
  with Cons.IH [OF rest(1)] acknowledged_bounded [OF step] show ?case by (simp add: rest(2))
qed simp

section \<open>Properties\<close>


section \<open>A concrete message\<close>

text \<open>A library that reads every message as a plain text without headers.\<close>

definition plain_lib :: "(unit, unit) mime_lib" where
  "plain_lib = sample_lib\<lparr>ml_content_type := \<lambda>h. (''text/plain'', [], True),
     ml_read := \<lambda>s n. (Some (Entity () s None None), None)\<rparr>"

definition plain_mail :: "(unit, unit) mail_lib" where
  "plain_mail = \<lparr>mh_address_list = \<lambda>h k. Inr [], mh_subject = \<lambda>h. ([], None), mh_fields = \<lambda>h. []\<rparr>"

definition plain_node_of :: "bytes \<Rightarrow> (unit, unit) node" where
  "plain_node_of body = Node ((blank_info ''1'' ())\<lparr>nd_media_type := ''text/plain'', nd_decoded_body := body\<rparr>) []"

abbreviation plain_node :: "(unit, unit) node" where
  "plain_node \<equiv> plain_node_of ''hi''"

lemmas plain_lib_simps = plain_lib_def sample_lib_def

lemma plain_strings:
  "to_lower u ''text/plain'' = ''text/plain''" "to_lower u [] = []"
  "\<not> is_encapsulated u ''text/plain''"
proof -
  have "runes s = map byte s" if "s \<in> {''text/plain'', ''message/rfc822'', ''message/global''}" for s
    using that by (auto intro!: runes_ascii simp: ascii_def byte_def)
  then show "\<not> is_encapsulated u ''text/plain''"
    by (simp add: is_encapsulated_def equal_fold_def byte_def fold_rune_def del: runes.simps)
qed (simp_all add: ascii_eval)

lemma plain_read: "read_node (Suc k) plain_lib (Some (Entity () body None None)) None ''1'' None None False st
    = (Inr (Some (plain_node_of body), None, ''1''), st)"
  by (simp add: merge_raw_def header_info_def header_encoding_def read_content_def plain_lib_simps plain_strings
      plain_node_of_def blank_info_def)

lemma plain_parse:
  assumes "raw \<noteq> []"
  shows "\<exists>d. mime_parse plain_lib raw no_limits = Inr d \<and> doc_root d = Some (plain_node_of raw) \<and> doc_semantic_error d = None"
proof -
  have read: "ml_read plain_lib raw 1048576 = (Some (Entity () raw None None), None)"
    by (simp add: plain_lib_simps)
  have n: "nat (max_depth inspection_limits) = Suc 63" by (simp add: inspection_limits_def)
  have node: "read_node (nat (max_depth inspection_limits)) plain_lib (Some (Entity () raw None None)) None ''1''
      None None False new_index_state = (Inr (Some (plain_node_of raw), None, ''1''), new_index_state)"
    unfolding n by (rule plain_read)
  show ?thesis
    using assms by (simp add: mime_parse_def parse_semantic_def new_document_def read node fatal_def del: read_node.simps)
qed

lemma plain_presentation:
  "select_presentation plain_lib (plain_node_of body) = no_presentation\<lparr>pr_text := Some (plain_node_of body), pr_supported := True\<rparr>"
proof -
  have "runes s = map byte s" if "s \<in> {[], ''attachment''}" for s
    using that by (auto intro!: runes_ascii simp: ascii_def byte_def)
  then have "\<not> equal_fold u [] ''attachment''" for u by (simp add: equal_fold_def del: runes.simps)
  then show ?thesis
    by (simp add: plain_node_of_def select_leaf_def unreadable_def unsupported_encoding_def filename_def param_def
        blank_info_def plain_lib_simps Let_def)
qed

definition plain_input_of :: "bytes option \<Rightarrow> bytes \<Rightarrow> message_input" where
  "plain_input_of from raw = \<lparr>in_recipients = [''a@b''], in_from_address = from, in_from_name = None, in_to = [], in_cc = [],
     in_subject = None, in_html = None, in_text = Some raw, in_headers = [], in_size = int (length raw), in_attachments = [],
     in_ical = [], in_raw = raw\<rparr>"

abbreviation plain_input :: message_input where
  "plain_input \<equiv> plain_input_of None ''hi''"

lemma plain_address: "to_lower u (trim_space ''A@b '') = ''a@b''"
proof -
  have "trim_space ''A@b '' = ''A@b''"
  proof -
    have "trim_left ''A@b '' = ''A@b ''" by (simp add: trim_left.simps decode_rune_ascii is_space_def byte_def)
    moreover have "trim_right ''A@b '' = ''A@b''"
      by (simp add: trim_right.simps [of "''A@b ''"] trim_right.simps [of "''A@b''"] decode_last_rune_def is_space_def byte_def)
    ultimately show ?thesis by (simp add: trim_space_def)
  qed
  then show ?thesis by (simp add: ascii_eval)
qed

lemma plain_smtp_parse_of:
  assumes "raw \<noteq> []" and "to_lower plain_unicode (trim_space to) = ''a@b''" and "sender_of [] sender = (from, None)"
  shows "smtp_parse plain_lib plain_mail tz raw sender [to] = Inr (plain_input_of from raw)"
proof -
  from plain_parse [OF assms(1)] obtain d where d: "mime_parse plain_lib raw no_limits = Inr d" "doc_root d = Some (plain_node_of raw)"
    "doc_semantic_error d = None" by blast
  note pres = unlimited_presentation [OF d(1,2), unfolded plain_presentation]
  have u: "ml_unicode plain_lib = plain_unicode" by (simp add: plain_lib_simps)
  have some: "trim_space to \<noteq> []"
  proof
    assume "trim_space to = []"
    then show False using assms(2) by (simp add: plain_strings)
  qed
  show ?thesis
    by (simp add: smtp_parse_def d addresses_def plain_mail_def bad_subject_def message_of_document_def Let_def
        document_attachments_def project_attachments_def pres no_presentation_def body_text_def assms(2,3) u some
        normalized_recipients_def nullable_def header_lines_def plain_input_of_def)
      (simp add: plain_node_of_def)
qed

lemma plain_smtp_parse: "smtp_parse plain_lib plain_mail tz ''hi'' [] [''A@b ''] = Inr plain_input"
  by (rule plain_smtp_parse_of) (simp_all add: plain_address sender_of_def)

lemma plain_deliver:
  "\<exists>evs d. deliver rowid_engine u now (plain_input_of from raw) ''a@b'' empty_db [] = (Inr (evs, (1, 1)), d, [])"
  by (simp add: deliver_def plain_input_of_def bind_stmt bind_tx_def q_mailbox_id_def upsert_mailbox_def
      insert_mailbox_def new_id_def max_list_def max_int64_def empty_db_def insert_message_def
      message_row_of_def copy_of_def)

lemma plain_store_message_of:
  "\<exists>st evs. store_message rowid_engine plain_unicode now (plain_input_of from raw) [] sample_store = (Inr [(1, 1)], st, evs)"
proof -
  obtain evs d where run: "deliver rowid_engine plain_unicode now (plain_input_of from raw) ''a@b'' empty_db [] = (Inr (evs, (1, 1)), d, [])"
    using plain_deliver by blast
  have "normalize_address plain_unicode ''a@b'' = ''a@b''"
    by (simp add: normalize_address_def ascii_eval trim_space_id graphic_def)
  then have "deliver_all rowid_engine plain_unicode now (plain_input_of from raw) (in_recipients (plain_input_of from raw)) empty_db []
      = (Inr (evs @ [], [(1, 1)]), d, [])"
    by (simp add: plain_input_of_def [THEN arg_cong, of in_recipients] bind_tx_def run)
  then show ?thesis
    by (auto simp: store_message_def with_pop3_def finish_def in_tx_def sample_store_def bind_tx_def)
qed

lemma plain_store_message:
  "\<exists>st evs. store_message rowid_engine plain_unicode 5 plain_input [] sample_store = (Inr [(1, 1)], st, evs)"
  by (rule plain_store_message_of)

definition utc_env :: tz_env where
  "utc_env = \<lparr>tz_local = utc, tz_load = \<lambda>name. None\<rparr>"

definition plain_commands :: "(engine \<times> int \<times> faults, unit) smtp_op list" where
  "plain_commands = [Op_Mail [], Op_Rcpt ''A@b '', Op_Data (rowid_engine, 5, []) ''hi'' End_Of_Data, Op_Logout]"

lemma plain_run:
  "\<exists>s st. smtp_run plain_lib plain_mail utc_env (store_put plain_unicode) plain_commands (new_smtp_session False) sample_store
     = ([None, None, Some Accepted, None], s, st)"
proof -
  obtain st evs where put: "store_message rowid_engine plain_unicode 5 plain_input [] sample_store = (Inr [(1, 1)], st, evs)"
    using plain_store_message by blast
  have "read_data ''hi'' (End_Of_Data :: unit read_end) = Inr ''hi''" by (simp add: read_data_def max_message_bytes_def)
  then show ?thesis
    by (simp add: plain_commands_def new_smtp_session_def smtp_mail_def smtp_rcpt_def smtp_data_def plain_smtp_parse
        store_put_def put)
qed

section \<open>Properties of messages and sessions\<close>

text \<open>
  C15. No leaf of a message is lost: in a message without alternative and related parts, what the
  store is given holds every leaf exactly once, as the text, as the HTML or inside an attachment;
  when there is no readable body every leaf is an attachment.
\<close>

theorem smtp_parse_keeps_leaves:
  assumes "smtp_parse L M tz raw from envelope = Inr inp" and "mime_parse L raw no_limits = Inr d"
    and "doc_root d = Some n" and "plain_mixed n"
  shows "\<exists>p. presented p = mset (leaves n)
     \<and> in_text inp = map_option (\<lambda>n. nd_decoded_body (info n)) (pr_text p)
     \<and> in_html inp = map_option (\<lambda>n. nd_decoded_body (info n)) (pr_html p)
     \<and> in_attachments inp = map (project_attachment L) (pr_attachments p)"
  using document_attachments_all [OF assms(2-4)] smtp_parse_Inr [OF assms(1)] assms(2)
  by (auto simp: project_attachments_def)

theorem smtp_parse_keeps_leaves_witness:
  "\<exists>p. presented p = {#plain_node#} \<and> Some ''hi'' = map_option (\<lambda>n. nd_decoded_body (info n)) (pr_text p)
     \<and> [] = map (project_attachment plain_lib) (pr_attachments p)"
proof -
  obtain d where d: "mime_parse plain_lib ''hi'' no_limits = Inr d" "doc_root d = Some plain_node"
    using plain_parse [of "''hi''"] by auto
  have "plain_mixed plain_node" by (simp add: plain_mixed_def plain_node_of_def blank_info_def)
  from smtp_parse_keeps_leaves [OF plain_smtp_parse d this] show ?thesis
    by (auto simp: plain_input_of_def plain_node_of_def)
qed

text \<open>
  C3. The mail of the store grows by exactly what a session acknowledged: after any sequence of
  commands, with any driver calls failing, it holds what it held before and then, for every message
  answered with success and in that order, the bytes received, once per address; none of them is
  longer than 25 MiB.  A refused message leaves nothing, and neither does any message of a session
  that was logged out or whose service was shut down.
\<close>

theorem smtp_session_stores_acknowledged:
  assumes "db_ok (sdb st)" and "\<And>E now fs content ending. Op_Data (E, now, fs) content ending \<in> set ops \<Longrightarrow> engine_ok E"
    and "smtp_run L M tz (store_put u) ops s st = (replies, s', st')"
  shows "db_ok (sdb st')
     \<and> mail_of st' = mail_of st @ acknowledged_run L M tz (delivery_addresses u) ops replies s
     \<and> list_all (\<lambda>p. length (snd p) \<le> max_message_bytes)
         (acknowledged_run L M tz (delivery_addresses u) ops replies s)
     \<and> (ss_canceled s \<longrightarrow> st' = st \<and> Some Accepted \<notin> set replies)"
proof -
  have "engine_of_ok c" if "Op_Data c content ending \<in> set ops" for c content ending
    using that assms(2) by (cases c) (auto simp: engine_of_ok_def)
  moreover have "store_ok st" using assms(1) by (simp add: store_ok_def)
  ultimately show ?thesis
    using smtp_store.run_stores [OF _ _ assms(3)] smtp_store.canceled_run [OF _ assms(3)]
      acknowledged_run_bounded [OF assms(3)]
    by (auto simp: store_ok_def)
qed

theorem smtp_session_stores_acknowledged_witness:
  "\<exists>s st. smtp_run plain_lib plain_mail utc_env (store_put plain_unicode) plain_commands (new_smtp_session False) sample_store
     = ([None, None, Some Accepted, None], s, st) \<and> mail_of st = [(''a@b'', ''hi'')]"
proof -
  obtain s st where run: "smtp_run plain_lib plain_mail utc_env (store_put plain_unicode) plain_commands
      (new_smtp_session False) sample_store = ([None, None, Some Accepted, None], s, st)"
    using plain_run by blast
  have a: "normalize_address plain_unicode ''a@b'' = ''a@b''"
    by (simp add: normalize_address_def ascii_eval trim_space_id graphic_def)
  have "mail_of st = mail_of sample_store @ acknowledged_run plain_lib plain_mail utc_env
      (delivery_addresses plain_unicode) plain_commands [None, None, Some Accepted, None] (new_smtp_session False)"
    using smtp_session_stores_acknowledged [OF sample_store_ok _ run]
    by (auto simp: plain_commands_def rowid_engine_ok)
  then show ?thesis
    using run by (simp add: plain_commands_def acknowledged_def new_smtp_session_def smtp_mail_def smtp_rcpt_def
        plain_smtp_parse copies_def delivery_addresses_def plain_input_of_def a mail_of_def sample_store_def empty_db_def)
qed

end
