(* ===== verification/Smtp_Service.thy ===== *)
theory Smtp_Service
  imports Smtp_Session
begin

text \<open>
  The service of the SMTP server over time: calls of \<open>Serve\<close>, \<open>Shutdown\<close> and \<open>Close\<close> from any
  goroutines, in any order, and what their terminal state guarantees.
\<close>

section \<open>Steps\<close>

text \<open>
  Every critical section is a step.  \<open>Shutdown\<close> and \<open>Close\<close> enter the terminal state and close the
  listener they found there in a later step, with other steps in between.
\<close>

inductive smtp_service_step :: "smtp_service \<Rightarrow> smtp_service \<Rightarrow> bool" where
  serve: "smtp_service_step v (snd (smtp_serve_enter listener v))"
| leave: "l \<in> sm_serving v \<Longrightarrow> smtp_service_step v (smtp_serve_leave l v)"
| terminal: "smtp_service_step v (snd (enter_terminal v))"
| close: "sm_closing v \<Longrightarrow> smtp_service_step v (close_listener listener v)"

inductive_cases smtp_service_stepE: "smtp_service_step v v'"

abbreviation smtp_service_runs :: "smtp_service \<Rightarrow> smtp_service \<Rightarrow> bool" where
  "smtp_service_runs \<equiv> smtp_service_step\<^sup>*\<^sup>*"

text \<open>One listener at most is served, the one recorded; canceled means closing.\<close>

definition smtp_service_inv :: "smtp_service \<Rightarrow> bool" where
  "smtp_service_inv v \<longleftrightarrow>
     sm_serving v = set_option (sm_listener v) \<and> sm_canceled v = sm_closing v"

lemma smtp_service_inv_new: "smtp_service_inv new_smtp_service"
  by (simp add: smtp_service_inv_def new_smtp_service_def)

lemma smtp_service_inv_step: "smtp_service_step v v' \<Longrightarrow> smtp_service_inv v \<Longrightarrow> smtp_service_inv v'"
  by (erule smtp_service_stepE)
    (auto simp: smtp_service_inv_def smtp_serve_enter_def smtp_serve_leave_def enter_terminal_def
      close_listener_def Let_def split: option.split)

lemma smtp_service_inv_run: "smtp_service_runs v v' \<Longrightarrow> smtp_service_inv v \<Longrightarrow> smtp_service_inv v'"
  by (induction rule: rtranclp_induct) (auto intro: smtp_service_inv_step)

text \<open>What never changes back.\<close>

lemma closing_step:
  "smtp_service_step v v' \<Longrightarrow> sm_closing v \<Longrightarrow>
     sm_closing v' \<and> sm_serving v' \<subseteq> sm_serving v \<and> sm_closed v \<subseteq> sm_closed v'"
  by (erule smtp_service_stepE)
    (auto simp: smtp_serve_enter_def smtp_serve_leave_def enter_terminal_def close_listener_def Let_def
      split: option.split)

lemma closing_run:
  "smtp_service_runs v v' \<Longrightarrow> sm_closing v \<Longrightarrow>
     sm_closing v' \<and> sm_serving v' \<subseteq> sm_serving v \<and> sm_closed v \<subseteq> sm_closed v'"
proof (induction rule: rtranclp_induct)
  case (step v' v'')
  with closing_step [OF step(2)] show ?case by blast
qed simp

section \<open>Properties\<close>

text \<open>
  \<open>Shutdown\<close> and \<open>Close\<close> are final.  Whatever calls ran before, at most one listener was being
  served; entering the terminal state hands out exactly that listener to be closed.  Whatever calls run afterwards, the
  service stays closing and serves nothing new; a new session is canceled from the start; and
  a further call of \<open>Serve\<close> with a listener reports that the server is closed, and closes it.
\<close>

theorem smtp_service_terminal:
  assumes "smtp_service_runs new_smtp_service v" and "enter_terminal v = (listener, v1)"
    and "smtp_service_runs v1 v2"
  shows "sm_serving v = set_option listener \<and> sm_closing v2 \<and> sm_serving v2 \<subseteq> set_option listener
     \<and> map_option ss_canceled (smtp_new_session True v2) = Some True
     \<and> smtp_serve_enter (Some l) v2 = (Server_Closed, close_listener (Some l) v2)"
proof -
  have inv: "smtp_service_inv v" by (rule smtp_service_inv_run [OF assms(1) smtp_service_inv_new])
  have v1: "v1 = snd (enter_terminal v)" and listener: "listener = sm_listener v"
    using assms(2) by (simp_all add: enter_terminal_def Let_def)
  have "smtp_service_runs v v2" using terminal [of v] assms(3) unfolding v1 by (rule converse_rtranclp_into_rtranclp)
  then have inv2: "smtp_service_inv v2" using inv by (rule smtp_service_inv_run)
  have "sm_closing v1" "sm_serving v1 = sm_serving v" by (simp_all add: v1 enter_terminal_def Let_def)
  with closing_run [OF assms(3)] have closing: "sm_closing v2" "sm_serving v2 \<subseteq> sm_serving v" by auto
  then show ?thesis
    using inv inv2 listener
    by (simp add: smtp_service_inv_def smtp_new_session_def new_smtp_session_def smtp_serve_enter_def close_listener_def)
qed

theorem smtp_service_terminal_witness:
  "let v = snd (smtp_serve_enter (Some 7) new_smtp_service); v2 = snd (enter_terminal v) in
   sm_serving v = {7} \<and> smtp_serve_enter (Some 8) v2 = (Server_Closed, close_listener (Some 8) v2)"
proof -
  let ?v = "snd (smtp_serve_enter (Some 7) new_smtp_service)"
  have run: "smtp_service_runs new_smtp_service ?v" by (intro r_into_rtranclp serve)
  have enter: "enter_terminal ?v = (Some 7, snd (enter_terminal ?v))"
    by (simp add: enter_terminal_def smtp_serve_enter_def new_smtp_service_def)
  from smtp_service_terminal [OF run enter, of "snd (enter_terminal ?v)" 8] show ?thesis by (simp add: Let_def)
qed

end
