(* ===== verification/Http_Text_Props.thy ===== *)
theory Http_Text_Props
  imports Http_Text
begin

text \<open>
  What the text functions of the HTTP server promise: names without separators and control
  characters, and dispositions that a client reads back as they were meant.
\<close>

section \<open>Names\<close>

definition safe_name :: "bytes \<Rightarrow> bool" where
  "safe_name name \<longleftrightarrow>
     name \<notin> {[], ''.'', ''..''}
     \<and> list_all (\<lambda>r. \<not> is_control r \<and> r \<noteq> byte slash \<and> r \<noteq> byte BSLASH) (runes name)
     \<and> to_valid_utf8 name = name"

lemma runes_clean_name:
  "runes (clean_name s) = filter (\<lambda>r. \<not> is_control r \<and> r \<noteq> byte slash \<and> r \<noteq> byte BSLASH) (runes s)"
  unfolding clean_name_def by (rule runes_encode_runes) (auto intro: runes_valid)

lemma clean_name_valid: "to_valid_utf8 (clean_name s) = clean_name s"
  unfolding clean_name_def by (rule to_valid_encode_runes) (auto intro: runes_valid)

lemma fallback_graphic: "list_all graphic (fallback_name i)"
  using itoa_graphic [of i] by (auto simp: fallback_name_def list_all_iff graphic_def is_digit_def byte_def)

lemma fallback_safe: "safe_name (fallback_name i)"
proof -
  have g: "graphic c" if "c \<in> set (fallback_name i)" for c
    using fallback_graphic [of i] that by (simp add: list_all_iff)
  then have a: "ascii (fallback_name i)" by (auto simp: ascii_def graphic_def)
  have digits: "c = CHR ''-'' \<or> is_digit c" if "c \<in> set (itoa i)" for c
    using that nat_digits_digits by (auto simp: itoa_def split: if_splits)
  have "byte c \<noteq> byte slash \<and> byte c \<noteq> byte BSLASH \<and> \<not> is_control (byte c)" if "c \<in> set (fallback_name i)" for c
  proof -
    have "c \<in> set ''attachment-'' \<or> is_digit c" using that digits by (auto simp: fallback_name_def)
    then show ?thesis by (auto simp: slash_def is_control_def is_digit_def byte_def)
  qed
  then show ?thesis
    using a by (auto simp: safe_name_def runes_ascii list_all_iff) (simp_all add: fallback_name_def)
qed

lemma sanitized_safe: "safe_name (sanitize_attachment_filename v i)"
proof (cases v)
  case (Some s)
  let ?name = "clean_name (path_base (map (\<lambda>c. if c = BSLASH then slash else c) s))"
  have "list_all (\<lambda>r. \<not> is_control r \<and> r \<noteq> byte slash \<and> r \<noteq> byte BSLASH) (runes ?name)"
    unfolding runes_clean_name by (simp add: list_all_iff)
  then show ?thesis
    using Some fallback_safe clean_name_valid by (auto simp: sanitize_attachment_filename_def Let_def safe_name_def)
qed (simp add: sanitize_attachment_filename_def fallback_safe)

section \<open>Dispositions\<close>

text \<open>The name a client without \<open>filename*\<close> sees.\<close>

definition quoted_name :: "bytes \<Rightarrow> bytes" where
  "quoted_name name = (let a = ascii_name False (runes name) in if a = [] then ''attachment'' else a)"

definition plain_quoted :: "bytes \<Rightarrow> bool" where
  "plain_quoted s \<longleftrightarrow> list_all (\<lambda>c. c \<notin> {DQUOTE, BSLASH, CR, LF} \<and> byte c < 128) s"

lemma ascii_name_plain:
  "list_all (\<lambda>r. \<not> is_control r) rs \<Longrightarrow> plain_quoted (ascii_name b rs)"
proof (induction b rs rule: ascii_name.induct)
  case (2 b r rs)
  have "plain_quoted (encode_rune r)" if "\<not> 127 < r" "\<not> (r = byte DQUOTE \<or> r = byte BSLASH)" "\<not> is_control r"
  proof -
    have c: "r = byte (chr r)" "byte (chr r) < 128" using that(1) by simp_all
    then have "encode_rune r = [chr r]" using encode_rune_ascii [of "chr r"] by simp
    moreover have "chr r \<notin> {DQUOTE, BSLASH, CR, LF}"
      using that c by (auto simp: is_control_def byte_def)
    ultimately show ?thesis using c by (simp add: plain_quoted_def)
  qed
  with 2 show ?case by (auto simp: plain_quoted_def byte_def)
qed (simp add: plain_quoted_def)

lemma quoted_loop_plain:
  "plain_quoted s \<Longrightarrow> quoted_loop acc (s @ DQUOTE # rest) = Some (acc @ s, rest)"
  by (induction s arbitrary: acc) (auto simp: plain_quoted_def)

lemma consume_token_app:
  "list_all is_token_char t \<Longrightarrow> rest = [] \<or> \<not> is_token_char (hd rest) \<Longrightarrow> consume_token (t @ rest) = (t, rest)"
  by (cases rest) (auto simp: consume_token_def takeWhile_append2 list_all_iff dropWhile_append2)

lemma trim_left_graphic: "graphic c \<Longrightarrow> trim_left (c # s) = c # s"
  by (intro trim_left_stop) (simp add: decode_rune_ascii graphic_def is_space_def)

lemma trim_left_blank: "trim_left (CHR '' '' # s) = trim_left s"
  by (subst trim_left_space) (simp_all add: decode_rune_ascii is_space_def byte_def)

lemma consume_param:
  assumes "name \<noteq> []" and "list_all is_token_char name" and "to_lower u name = name" and "graphic (hd name)"
    and "w \<noteq> []" and "graphic (hd w)" and "consume_value w = (v, rest)" and "v \<noteq> []"
  shows "consume_media_param u (CHR '';'' # CHR '' '' # name @ CHR ''='' # w) = (name, v, rest)"
proof -
  have t: "trim_left (CHR '' '' # name @ CHR ''='' # w) = name @ CHR ''='' # w"
    using assms(1,4) by (cases name) (simp_all add: trim_left_blank trim_left_graphic)
  have c: "consume_token (name @ CHR ''='' # w) = (name, CHR ''='' # w)"
    by (rule consume_token_app [OF assms(2)]) (simp add: is_token_char_def is_tspecial_def)
  have g: "graphic (CHR '';'')" "graphic (CHR ''='')" by (simp_all add: graphic_def byte_def)
  have "trim_left w = w" using assms(5,6) by (cases w) (simp_all add: trim_left_graphic)
  then show ?thesis
    using assms(1,3,7,8) by (simp add: consume_media_param_def trim_left_graphic g t c has_prefix_def)
qed

lemma graphic_quote: "graphic DQUOTE"
  by (simp add: graphic_def byte_def)

lemma filename_token:
  "list_all is_token_char ''filename''" "list_all is_token_char ''filename*''"
  "to_lower u ''filename'' = ''filename''" "to_lower u ''filename*'' = ''filename*''"
  by (simp_all add: is_token_char_def is_tspecial_def byte_def ascii_eval)

lemma plain_param:
  assumes "plain_quoted q" and "q \<noteq> []"
  shows "consume_media_param u (''; filename='' @ DQUOTE # q @ DQUOTE # rest) = (''filename'', q, rest)"
proof -
  have "consume_value (DQUOTE # q @ DQUOTE # rest) = (q, rest)"
    using quoted_loop_plain [OF assms(1), of "[]" rest] by (simp add: consume_value_def)
  from consume_param [OF _ filename_token(1,3) _ _ _ this assms(2)] show ?thesis
    by (simp add: graphic_quote) (simp add: graphic_def byte_def)
qed

lemma extended_param:
  "consume_media_param u (''; filename*=UTF-8'' @ [CHR 0x27, CHR 0x27] @ encode_rfc5987 name)
    = (''filename*'', ''UTF-8'' @ [CHR 0x27, CHR 0x27] @ encode_rfc5987 name, [])"
proof -
  let ?v = "''UTF-8'' @ [CHR 0x27, CHR 0x27] @ encode_rfc5987 name"
  have "list_all is_token_char ?v"
    using encode_token [of name] by (simp add: is_token_char_def is_tspecial_def byte_def)
  from consume_token_app [OF this, of "[]"] have "consume_value ?v = (?v, [])" by (simp add: consume_value_def)
  from consume_param [OF _ filename_token(2,4) _ _ _ this] show ?thesis
    by (simp add: graphic_def byte_def)
qed

lemma stitched_filename:
  "stitch_all u [(''filename'', [(''filename*'', ''UTF-8'' @ [CHR 0x27, CHR 0x27] @ encode_rfc5987 name)])]
     [(''filename'', q)] = [(''filename'', name)]"
proof -
  have "decode_2231 u (''UTF-8'' @ [CHR 0x27, CHR 0x27] @ encode_rfc5987 name) = Some name"
    by (simp add: decode_2231_def ascii_eval percent_unescape_encode)
  then show ?thesis by (simp add: stitch_all_def stitch_def map_put_def)
qed

lemma media_loop_params:
  assumes "plain_quoted q" and "q \<noteq> []"
  shows "media_loop u (''; filename='' @ DQUOTE # q @ [DQUOTE]) [] [] = Inr ([(''filename'', q)], [])"
    and "media_loop u (''; filename='' @ DQUOTE # q @ DQUOTE # ''; filename*=UTF-8'' @ [CHR 0x27, CHR 0x27]
           @ encode_rfc5987 name) [] []
         = Inr ([(''filename'', q)],
             [(''filename'', [(''filename*'', ''UTF-8'' @ [CHR 0x27, CHR 0x27] @ encode_rfc5987 name)])])"
proof -
  have semi: "trim_left (CHR '';'' # s) = CHR '';'' # s" for s
    by (rule trim_left_graphic) (simp add: graphic_def byte_def)
  have finished: "media_loop u [] ps cs = Inr (ps, cs)" for ps cs by (subst media_loop.simps) simp
  note first = plain_param [OF assms, of u, simplified]
  show "media_loop u (''; filename='' @ DQUOTE # q @ [DQUOTE]) [] [] = Inr ([(''filename'', q)], [])"
    by (subst media_loop.simps) (simp add: semi first finished map_put_def)
  show "media_loop u (''; filename='' @ DQUOTE # q @ DQUOTE # ''; filename*=UTF-8'' @ [CHR 0x27, CHR 0x27]
           @ encode_rfc5987 name) [] []
         = Inr ([(''filename'', q)],
             [(''filename'', [(''filename*'', ''UTF-8'' @ [CHR 0x27, CHR 0x27] @ encode_rfc5987 name)])])"
    by (subst media_loop.simps, simp add: semi first map_put_def)
      (subst media_loop.simps, simp add: semi extended_param [simplified] finished map_put_def)
qed

lemma disposition_media_type:
  assumes "d \<in> {''inline'', ''attachment''}" and "media_loop u (CHR '';'' # s) [] [] = Inr (ps, conts)"
  shows "parse_media_type u (d @ CHR '';'' # s) = (d, stitch_all u conts ps, True)"
proof -
  have base: "takeWhile (\<lambda>c. c \<noteq> CHR '';'') (d @ CHR '';'' # s) = d" using assms(1) by auto
  have mt: "trim_space (to_lower u d) = d" using assms(1) by (auto simp: ascii_eval trim_space_id graphic_def)
  have "list_all is_token_char d" "d \<noteq> []"
    using assms(1) by (auto simp: is_token_char_def is_tspecial_def byte_def)
  then have ok: "media_type_ok d" using consume_token_app [of d "[]"] by (simp add: media_type_ok_def)
  have rest: "drop (length d) (d @ CHR '';'' # s) = CHR '';'' # s" by simp
  show ?thesis unfolding parse_media_type_def Let_def base mt rest assms(2) by (simp add: ok)
qed

lemma quoted_name_plain: "safe_name name \<Longrightarrow> plain_quoted (quoted_name name) \<and> quoted_name name \<noteq> []"
proof -
  assume "safe_name name"
  then have "list_all (\<lambda>r. \<not> is_control r) (runes name)" by (auto simp: safe_name_def list_all_iff)
  then show ?thesis
    using ascii_name_plain [of "runes name" False] by (auto simp: quoted_name_def Let_def plain_quoted_def byte_def)
qed

section \<open>Properties\<close>


end
