(* ===== verification/Http_Server.thy ===== *)
theory Http_Server
  imports Http_Text Calendar Events Store_Queries
begin

text \<open>
  The handlers and the routes of \<open>internal/httpserver/httpserver.go\<close> and \<open>docs.go\<close>.

  A response is what the handler sets and writes: the status, the headers and the body.  A JSON body
  is the value that is encoded; \<open>encoding/json\<close>, \<open>net/url\<close>, the file system, \<open>http.ServeContent\<close> and
  \<open>mime.TypeByExtension\<close> are the standard library, and the inspector (\<open>internal/inspect\<close>) and the test
  sender are parameters.  The JSON columns of the store hold the values they encode, so the checks that
  they are valid JSON have no branch here.
\<close>

section \<open>Requests and responses\<close>

datatype json =
    JNull
  | JBool bool
  | JNumber bytes
  | JString bytes
  | JArray "json list"
  | JObject "(bytes \<times> json) list"

text \<open>
  The body of a request: the first value the decoder yields, unless there is an error, and whether the
  end of the input follows.
\<close>

record http_request =
  rq_method :: bytes
  rq_path :: bytes
  rq_query :: "(bytes \<times> bytes) list"
  rq_value :: "json option"
  rq_at_end :: bool

datatype 'r http_body =
    No_Body
  | Text bytes
  | Raw bytes
  | File bytes bytes
  | Ok_Json
  | Error_Json bytes
  | Mailboxes_Json "mailbox_summary list"
  | Messages_Json "message_item list"
  | Calendar_Json "calendar_row list"
  | Message_Json message_row "attachment_row list"
  | Report_Json 'r

record 'r http_response =
  rs_status :: nat
  rs_headers :: "(bytes \<times> bytes) list"
  rs_body :: "'r http_body"

record send_test_request =
  str_to :: bytes
  str_subject :: bytes
  str_kind :: bytes

text \<open>
  What the handlers use beside the store: the parameters of the store, which calls of its driver fail
  in the first and in the second request a handler makes, the inspector, the sender and the files.
\<close>

record 'r http_env =
  he_engine :: engine
  he_unicode :: unicode
  he_like :: like
  he_faults :: faults
  he_faults2 :: faults
  he_sanitize_html :: "bytes \<Rightarrow> (bytes \<times> int) list \<Rightarrow> bytes"
  he_sanitize_svg :: "bytes \<Rightarrow> bytes option"
  he_analyze :: "raw_message \<Rightarrow> 'r option"
  he_client_gone :: bool
  he_sender :: "(send_test_request \<Rightarrow> bool) option"
  he_files :: "(bytes \<Rightarrow> bytes option) option"
  he_index :: bytes
  he_type_of :: "bytes \<Rightarrow> bytes"
  he_openapi :: bytes

type_synonym 'r handled = "'r http_response \<times> store \<times> event list"

definition query_get :: "bytes \<Rightarrow> http_request \<Rightarrow> bytes" where
  "query_get k rq = (case map_of (rq_query rq) k of None \<Rightarrow> [] | Some v \<Rightarrow> v)"

definition write_json :: "(bytes \<times> bytes) list \<Rightarrow> nat \<Rightarrow> 'r http_body \<Rightarrow> 'r http_response" where
  "write_json hs status body =
     \<lparr>rs_status = status, rs_headers = map_put ''Content-Type'' ''application/json'' hs, rs_body = body\<rparr>"

definition write_error :: "(bytes \<times> bytes) list \<Rightarrow> nat \<Rightarrow> bytes \<Rightarrow> 'r http_response" where
  "write_error hs status message = write_json hs status (Error_Json message)"

text \<open>\<open>http.Error\<close>.\<close>

definition http_error :: "(bytes \<times> bytes) list \<Rightarrow> nat \<Rightarrow> bytes \<Rightarrow> 'r http_response" where
  "http_error hs status message =
     \<lparr>rs_status = status,
      rs_headers = map_put ''X-Content-Type-Options'' ''nosniff''
        (map_put ''Content-Type'' ''text/plain; charset=utf-8'' hs),
      rs_body = Text (message @ [LF])\<rparr>"

definition internal_error :: "(bytes \<times> bytes) list \<Rightarrow> 'r http_response" where
  "internal_error hs = http_error hs 500 ''Internal Server Error''"

definition not_found :: "'r http_response" where
  "not_found = http_error [] 404 ''404 page not found''"

section \<open>Mailboxes\<close>

definition h_list_mailboxes :: "'r http_env \<Rightarrow> store \<Rightarrow> 'r handled" where
  "h_list_mailboxes env st =
     (case list_mailboxes (he_engine env) (he_faults env) st of
        Inl e \<Rightarrow> (internal_error [], st, [])
      | Inr ms \<Rightarrow> (write_json [] 200 (Mailboxes_Json ms), st, []))"

definition h_delete_mailbox :: "'r http_env \<Rightarrow> bytes \<Rightarrow> store \<Rightarrow> 'r handled" where
  "h_delete_mailbox env raw_id st =
     (case parse_id raw_id of
        None \<Rightarrow> (write_error [] 400 ''Invalid mailbox id'', st, [])
      | Some i \<Rightarrow>
          (case remove_mailbox i (he_faults env) st of
             (Inl e, st', evs) \<Rightarrow> (internal_error [], st', evs)
           | (Inr deleted, st', evs) \<Rightarrow>
               (if \<not> deleted then write_error [] 404 ''Mailbox not found'' else write_json [] 200 Ok_Json,
                st', evs)))"

definition h_list_messages :: "'r http_env \<Rightarrow> http_request \<Rightarrow> bytes \<Rightarrow> store \<Rightarrow> 'r handled" where
  "h_list_messages env rq raw_id st =
     (case parse_id raw_id of
        None \<Rightarrow> (write_error [] 400 ''Invalid mailbox id'', st, [])
      | Some i \<Rightarrow>
          (let query = query_get ''q'' rq in
           if max_search_pattern_bytes < search_pattern_bytes query
           then (write_error [] 400 ''Search query too long'', st, [])
           else
             (case list_messages (he_engine env) (he_like env) i query (he_faults env) st of
                Inl e \<Rightarrow> (internal_error [], st, [])
              | Inr ms \<Rightarrow> (write_json [] 200 (Messages_Json ms), st, []))))"

definition h_list_calendar_events :: "'r http_env \<Rightarrow> bytes \<Rightarrow> store \<Rightarrow> 'r handled" where
  "h_list_calendar_events env raw_id st =
     (case parse_id raw_id of
        None \<Rightarrow> (write_error [] 400 ''Invalid mailbox id'', st, [])
      | Some i \<Rightarrow>
          (case list_calendar_events (he_engine env) i (he_faults env) st of
             Inl e \<Rightarrow> (internal_error [], st, [])
           | Inr rows \<Rightarrow> (write_json [] 200 (Calendar_Json rows), st, [])))"

section \<open>Messages\<close>

text \<open>The map of content ids: a later attachment with the same id replaces an earlier one.\<close>

definition cid_map :: "attachment_row list \<Rightarrow> (bytes \<times> int) list" where
  "cid_map as =
     fold (\<lambda>a. case att_content_id a of None \<Rightarrow> id | Some c \<Rightarrow> map_put c (att_id a)) as []"

definition optional_bytes :: "bytes option \<Rightarrow> bytes" where
  "optional_bytes v = (case v of None \<Rightarrow> [] | Some s \<Rightarrow> s)"

definition listed_attachment :: "unicode \<Rightarrow> message_row \<Rightarrow> attachment_row \<Rightarrow> bool" where
  "listed_attachment u m a \<longleftrightarrow>
     att_content_id a = None
     \<and> \<not> (msg_ical m \<noteq> None
         \<and> is_calendar_part u (optional_bytes (att_content_type a)) (optional_bytes (att_filename a)))"

definition h_get_message :: "'r http_env \<Rightarrow> bytes \<Rightarrow> store \<Rightarrow> 'r handled" where
  "h_get_message env raw_id st =
     (case parse_id raw_id of
        None \<Rightarrow> (write_error [] 400 ''Invalid message id'', st, [])
      | Some i \<Rightarrow>
          (case get_message (he_engine env) i (he_faults env) st of
             (Inl e, st1, evs1) \<Rightarrow> (internal_error [], st1, evs1)
           | (Inr None, st1, evs1) \<Rightarrow> (write_error [] 404 ''Message not found'', st1, evs1)
           | (Inr (Some det), st1, evs1) \<Rightarrow>
               (let m = md_message det;
                    html = map_option (\<lambda>h. he_sanitize_html env h (cid_map (md_attachments det))) (msg_html m);
                    listed = filter (listed_attachment (he_unicode env) m) (md_attachments det) in
                case mark_read_detail (Some det) (he_faults2 env) st1 of
                  (Inl e, st2, evs2) \<Rightarrow> (internal_error [], st2, evs1 @ evs2)
                | (Inr _, st2, evs2) \<Rightarrow>
                    (write_json [] 200 (Message_Json (m\<lparr>msg_html := html\<rparr>) listed), st2, evs1 @ evs2))))"

definition h_get_message_source :: "'r http_env \<Rightarrow> bytes \<Rightarrow> store \<Rightarrow> 'r handled" where
  "h_get_message_source env raw_id st =
     (case parse_id raw_id of
        None \<Rightarrow> (write_error [] 400 ''Invalid message id'', st, [])
      | Some i \<Rightarrow>
          (case get_message_source i (he_faults env) st of
             Inl e \<Rightarrow> (internal_error [], st, [])
           | Inr None \<Rightarrow> (write_error [] 404 ''Message not found'', st, [])
           | Inr (Some raw) \<Rightarrow>
               (\<lparr>rs_status = 200,
                 rs_headers = [(''Cache-Control'', ''private, no-store''), (''Content-Type'', ''message/rfc822''),
                   (''X-Content-Type-Options'', ''nosniff'')],
                 rs_body = Raw raw\<rparr>, st, [])))"

text \<open>When the client has gone nothing is written: the handler returns with the default status.\<close>

definition h_inspect_message :: "'r http_env \<Rightarrow> bytes \<Rightarrow> store \<Rightarrow> 'r handled" where
  "h_inspect_message env raw_id st =
     (case parse_id raw_id of
        None \<Rightarrow> (write_error [] 400 ''Invalid message id'', st, [])
      | Some i \<Rightarrow>
          (case get_message_raw i (he_faults env) st of
             Inl e \<Rightarrow> (internal_error [], st, [])
           | Inr None \<Rightarrow> (write_error [] 404 ''Message not found'', st, [])
           | Inr (Some row) \<Rightarrow>
               (case he_analyze env row of
                  None \<Rightarrow>
                    (if he_client_gone env then (\<lparr>rs_status = 200, rs_headers = [], rs_body = No_Body\<rparr>, st, [])
                     else (internal_error [], st, []))
                | Some report \<Rightarrow> (write_json [] 200 (Report_Json report), st, []))))"

section \<open>Actions on messages\<close>

definition max_message_action_ids :: nat where
  "max_message_action_ids = 10000"

definition decode_body :: "http_request \<Rightarrow> json option" where
  "decode_body rq = (case rq_value rq of None \<Rightarrow> None | Some v \<Rightarrow> if rq_at_end rq then Some v else None)"

definition json_field :: "json option \<Rightarrow> bytes \<Rightarrow> json" where
  "json_field v k =
     (case v of
        Some (JObject fs) \<Rightarrow> (case map_of fs k of None \<Rightarrow> JNull | Some x \<Rightarrow> x)
      | _ \<Rightarrow> JNull)"

definition json_string :: "json \<Rightarrow> bytes" where
  "json_string v = (case v of JString s \<Rightarrow> s | _ \<Rightarrow> [])"

fun valid_ids_loop :: "int set \<Rightarrow> nat \<Rightarrow> json list \<Rightarrow> int list" where
  "valid_ids_loop seen n [] = []"
| "valid_ids_loop seen n (v # vs) =
     (case v of
        JNumber s \<Rightarrow>
          (case parse_id s of
             None \<Rightarrow> valid_ids_loop seen n vs
           | Some i \<Rightarrow>
               if i \<in> seen then valid_ids_loop seen n vs
               else if max_message_action_ids < Suc n then [i]
               else i # valid_ids_loop (insert i seen) (Suc n) vs)
      | _ \<Rightarrow> valid_ids_loop seen n vs)"

definition valid_ids :: "json \<Rightarrow> int list" where
  "valid_ids v = (case v of JArray vs \<Rightarrow> valid_ids_loop {} 0 vs | _ \<Rightarrow> [])"

definition action_done :: "'a outcome \<Rightarrow> 'r handled" where
  "action_done out =
     (case out of
        (Inl e, st', evs) \<Rightarrow> (internal_error [], st', evs)
      | (Inr x, st', evs) \<Rightarrow> (write_json [] 200 Ok_Json, st', evs))"

definition h_message_actions :: "'r http_env \<Rightarrow> http_request \<Rightarrow> store \<Rightarrow> 'r handled" where
  "h_message_actions env rq st =
     (case decode_body rq of
        None \<Rightarrow> (write_error [] 400 ''Invalid JSON body'', st, [])
      | Some body \<Rightarrow>
          (let ids = valid_ids (json_field (Some body) ''ids'') in
           if ids = [] then (write_error [] 400 ''No valid message ids provided'', st, [])
           else if max_message_action_ids < length ids
           then (write_error [] 400 ''Too many message ids provided; maximum is 10000'', st, [])
           else
             (let action = json_string (json_field (Some body) ''action'') in
              if action = ''delete'' then action_done (remove_messages (he_engine env) ids (he_faults env) st)
              else if action = ''read'' then action_done (set_read_state (he_engine env) ids True (he_faults env) st)
              else if action = ''unread'' then action_done (set_read_state (he_engine env) ids False (he_faults env) st)
              else (write_error [] 400 ''Unknown action'', st, []))))"

definition h_reset :: "'r http_env \<Rightarrow> store \<Rightarrow> 'r handled" where
  "h_reset env st = action_done (wipe_all (he_faults env) st)"

section \<open>Attachments\<close>

definition inline_attachment_types :: "bytes list" where
  "inline_attachment_types =
     [''image/gif'', ''image/jpeg'', ''image/png'', ''image/webp'', ''text/csv'', ''text/plain'']"

definition svg_type :: bytes where
  "svg_type = ''image/svg+xml''"

definition svg_policy :: bytes where
  "svg_policy = ''default-src '' @ [CHR 0x27] @ ''none'' @ [CHR 0x27] @ ''; script-src '' @ [CHR 0x27] @ ''none'' @ [CHR 0x27]
     @ ''; style-src '' @ [CHR 0x27] @ ''none'' @ [CHR 0x27] @ ''; img-src '' @ [CHR 0x27] @ ''none'' @ [CHR 0x27]
     @ ''; object-src '' @ [CHR 0x27] @ ''none'' @ [CHR 0x27] @ ''; base-uri '' @ [CHR 0x27] @ ''none'' @ [CHR 0x27]"

definition attachment_headers :: "(bytes \<times> bytes) list" where
  "attachment_headers = [(''X-Content-Type-Options'', ''nosniff''), (''Cache-Control'', ''private, no-store'')]"

definition send_attachment ::
  "(bytes \<times> bytes) list \<Rightarrow> bytes \<Rightarrow> bytes \<Rightarrow> bytes \<Rightarrow> bytes \<Rightarrow> 'r http_response" where
  "send_attachment hs content_type disposition name content =
     \<lparr>rs_status = 200,
      rs_headers =
        map_put ''Content-Disposition'' (format_attachment_disposition disposition name)
          (map_put ''Content-Length'' (itoa (int (length content))) (map_put ''Content-Type'' content_type hs)),
      rs_body = Raw content\<rparr>"

definition attachment_response :: "'r http_env \<Rightarrow> http_request \<Rightarrow> attachment_row \<Rightarrow> 'r http_response" where
  "attachment_response env rq a =
     (let content_type = normalize_attachment_content_type (he_unicode env) (att_content_type a);
          name = sanitize_attachment_filename (att_filename a) (att_id a);
          download = (query_get ''download'' rq = ''1'');
          hs = (if content_type = svg_type then map_put ''Content-Security-Policy'' svg_policy attachment_headers
                else attachment_headers) in
      if query_get ''inline'' rq = ''cid'' \<and> content_type = svg_type \<and> \<not> download then
        (case he_sanitize_svg env (att_content a) of
           None \<Rightarrow> write_error hs 422 ''SVG attachment is not safe to render inline''
         | Some clean \<Rightarrow> send_attachment hs content_type ''inline'' name clean)
      else if \<not> download \<and> content_type \<in> set inline_attachment_types
      then send_attachment hs content_type ''inline'' name (att_content a)
      else send_attachment hs content_type ''attachment'' name (att_content a))"

definition h_get_attachment :: "'r http_env \<Rightarrow> http_request \<Rightarrow> bytes \<Rightarrow> store \<Rightarrow> 'r handled" where
  "h_get_attachment env rq raw_id st =
     (case parse_id raw_id of
        None \<Rightarrow> (write_error attachment_headers 400 ''Invalid attachment id'', st, [])
      | Some i \<Rightarrow>
          (case get_attachment i (he_faults env) st of
             Inl e \<Rightarrow> (internal_error attachment_headers, st, [])
           | Inr None \<Rightarrow> (write_error attachment_headers 404 ''Attachment not found'', st, [])
           | Inr (Some a) \<Rightarrow> (attachment_response env rq a, st, [])))"

section \<open>Test messages\<close>

definition go_re_space :: "char \<Rightarrow> bool" where
  "go_re_space c \<longleftrightarrow> c \<in> {CHR '' '', CHR 0x09, LF, CHR 0x0C, CR}"

text \<open>\<open>recipientPattern\<close>: one at sign, no white space, and a dot inside the part after it.\<close>

definition recipient_matches :: "bytes \<Rightarrow> bool" where
  "recipient_matches to \<longleftrightarrow>
     (case split_byte (CHR ''@'') to of
        [name, domain] \<Rightarrow>
          name \<noteq> [] \<and> \<not> list_ex go_re_space to \<and> CHR ''.'' \<in> set (butlast (tl domain))
      | _ \<Rightarrow> False)"

definition h_send_test :: "'r http_env \<Rightarrow> http_request \<Rightarrow> store \<Rightarrow> 'r handled" where
  "h_send_test env rq st =
     (let body = decode_body rq;
          to = to_lower (he_unicode env) (trim_space (json_string (json_field body ''to'')));
          to = (if to = [] then ''test@hoomail.local'' else to) in
      if \<not> recipient_matches to then (write_error [] 400 ''Invalid recipient address'', st, [])
      else
        (let kind = json_string (json_field body ''kind'');
             kind = (if kind \<in> {''plain'', ''invite'', ''update'', ''cancellation''} then kind else ''plain'');
             subject = trim_space (json_string (json_field body ''subject''));
             sent = (case he_sender env of
                       None \<Rightarrow> False
                     | Some send \<Rightarrow> send \<lparr>str_to = to, str_subject = subject, str_kind = kind\<rparr>) in
         if \<not> sent then (write_error [] 502 ''Could not reach the SMTP server. Is it running?'', st, [])
         else (write_json [] 200 Ok_Json, st, [])))"

section \<open>Files\<close>

definition serve_static :: "'r http_env \<Rightarrow> http_request \<Rightarrow> 'r http_response" where
  "serve_static env rq =
     (case he_files env of
        None \<Rightarrow> not_found
      | Some read \<Rightarrow>
          if rq_method rq \<notin> {''GET'', ''HEAD''} then not_found
          else
            (let name = clean_rooted (slash # rq_path rq);
                 name = (if name = ''.'' \<or> name = [] then he_index env else name);
                 (data, name) =
                   (case read name of Some d \<Rightarrow> (Some d, name) | None \<Rightarrow> (read (he_index env), he_index env)) in
             case data of
               None \<Rightarrow> not_found
             | Some d \<Rightarrow>
                 (let typ = he_type_of env name;
                      hs = (if typ \<noteq> [] then map_put ''Content-Type'' typ [] else []);
                      hs = map_put ''Cache-Control''
                        (if has_prefix name ''assets/'' then ''public, max-age=31536000, immutable'' else ''no-cache'') hs in
                  \<lparr>rs_status = 200, rs_headers = hs, rs_body = File name d\<rparr>)))"

text \<open>\<open>docs.go\<close>.\<close>

definition serve_openapi :: "'r http_env \<Rightarrow> http_request \<Rightarrow> 'r http_response" where
  "serve_openapi env rq =
     \<lparr>rs_status = 200,
      rs_headers = [(''Cache-Control'', ''public, max-age=3600''), (''Content-Type'', ''application/json''),
        (''X-Content-Type-Options'', ''nosniff'')],
      rs_body = (if rq_method rq \<noteq> ''HEAD'' then Raw (he_openapi env) else No_Body)\<rparr>"

section \<open>The event stream\<close>

text \<open>
  What the loop of \<open>eventStream\<close> selects, each with whether the write that follows succeeds, and what it
  writes; \<open>render\<close> is the JSON of an event.
\<close>

datatype stream_input = Client_Done | Stream_Event event | Stream_End | Heartbeat

definition connected_chunk :: bytes where
  "connected_chunk = ''data: {'' @ [DQUOTE] @ ''type'' @ [DQUOTE] @ '':'' @ [DQUOTE] @ ''connected'' @ [DQUOTE] @ ''}'' @ [LF, LF]"

fun event_stream_loop :: "(event \<Rightarrow> bytes option) \<Rightarrow> (stream_input \<times> bool) list \<Rightarrow> bytes list" where
  "event_stream_loop render [] = []"
| "event_stream_loop render ((Client_Done, ok) # inputs) = []"
| "event_stream_loop render ((Stream_End, ok) # inputs) = []"
| "event_stream_loop render ((Stream_Event e, ok) # inputs) =
     (case render e of
        None \<Rightarrow> event_stream_loop render inputs
      | Some body \<Rightarrow>
          if \<not> ok then [] else (''data: '' @ body @ [LF, LF]) # event_stream_loop render inputs)"
| "event_stream_loop render ((Heartbeat, ok) # inputs) =
     (if \<not> ok then [] else ('': ping'' @ [LF, LF]) # event_stream_loop render inputs)"

definition event_stream :: "(event \<Rightarrow> bytes option) \<Rightarrow> (stream_input \<times> bool) list \<Rightarrow> bytes list" where
  "event_stream render inputs = connected_chunk # event_stream_loop render inputs"

section \<open>Routes\<close>

definition last_element :: "bytes \<Rightarrow> bytes \<Rightarrow> bool" where
  "last_element route p \<longleftrightarrow> has_prefix route p \<and> \<not> contains (trim_prefix route p) ''/''"

datatype route =
    R_Openapi | R_Openapi_Method | R_Mailboxes | R_Delete_Mailbox bytes | R_Messages bytes | R_Calendar bytes
  | R_Actions | R_Source bytes | R_Inspect bytes | R_Message bytes | R_Attachment bytes | R_Events | R_Reset
  | R_Send_Test | R_Unknown_Api | R_Static

definition route_of :: "http_request \<Rightarrow> route" where
  "route_of rq =
     (let route = rq_path rq; get = (rq_method rq = ''GET''); post = (rq_method rq = ''POST'') in
      if (get \<or> rq_method rq = ''HEAD'') \<and> route = ''/openapi.json'' then R_Openapi
      else if route = ''/openapi.json'' then R_Openapi_Method
      else if get \<and> route = ''/api/mailboxes'' then R_Mailboxes
      else if rq_method rq = ''DELETE'' \<and> last_element route ''/api/mailboxes/''
      then R_Delete_Mailbox (trim_prefix route ''/api/mailboxes/'')
      else if get \<and> has_prefix route ''/api/mailboxes/'' \<and> has_suffix route ''/messages''
      then R_Messages (trim_suffix (trim_prefix route ''/api/mailboxes/'') ''/messages'')
      else if get \<and> has_prefix route ''/api/mailboxes/'' \<and> has_suffix route ''/events''
      then R_Calendar (trim_suffix (trim_prefix route ''/api/mailboxes/'') ''/events'')
      else if post \<and> route = ''/api/messages/actions'' then R_Actions
      else if get \<and> has_prefix route ''/api/messages/'' \<and> has_suffix route ''/source''
      then R_Source (trim_suffix (trim_prefix route ''/api/messages/'') ''/source'')
      else if get \<and> has_prefix route ''/api/messages/'' \<and> has_suffix route ''/inspect''
      then R_Inspect (trim_suffix (trim_prefix route ''/api/messages/'') ''/inspect'')
      else if get \<and> last_element route ''/api/messages/'' then R_Message (trim_prefix route ''/api/messages/'')
      else if get \<and> last_element route ''/api/attachments/''
      then R_Attachment (trim_prefix route ''/api/attachments/'')
      else if get \<and> route = ''/api/events'' then R_Events
      else if post \<and> route = ''/api/reset'' then R_Reset
      else if post \<and> route = ''/api/send-test'' then R_Send_Test
      else if has_prefix route ''/api/'' then R_Unknown_Api
      else R_Static)"

text \<open>The answer to a request; that of the event stream is only its head.\<close>

definition stream_head :: "'r http_response" where
  "stream_head = \<lparr>rs_status = 200,
     rs_headers = [(''Content-Type'', ''text/event-stream''), (''Cache-Control'', ''no-cache, no-transform''),
       (''Connection'', ''keep-alive'')],
     rs_body = Raw connected_chunk\<rparr>"

definition serve_http :: "'r http_env \<Rightarrow> http_request \<Rightarrow> store \<Rightarrow> 'r handled" where
  "serve_http env rq st =
     (case route_of rq of
        R_Openapi \<Rightarrow> (serve_openapi env rq, st, [])
      | R_Openapi_Method \<Rightarrow> (http_error [(''Allow'', ''GET, HEAD'')] 405 ''Method Not Allowed'', st, [])
      | R_Mailboxes \<Rightarrow> h_list_mailboxes env st
      | R_Delete_Mailbox i \<Rightarrow> h_delete_mailbox env i st
      | R_Messages i \<Rightarrow> h_list_messages env rq i st
      | R_Calendar i \<Rightarrow> h_list_calendar_events env i st
      | R_Actions \<Rightarrow> h_message_actions env rq st
      | R_Source i \<Rightarrow> h_get_message_source env i st
      | R_Inspect i \<Rightarrow> h_inspect_message env i st
      | R_Message i \<Rightarrow> h_get_message env i st
      | R_Attachment i \<Rightarrow> h_get_attachment env rq i st
      | R_Events \<Rightarrow> (stream_head, st, [])
      | R_Reset \<Rightarrow> h_reset env st
      | R_Send_Test \<Rightarrow> h_send_test env rq st
      | R_Unknown_Api \<Rightarrow> (not_found, st, [])
      | R_Static \<Rightarrow> (serve_static env rq, st, []))"

end
