(* ===== verification/Http_Props.thy ===== *)
theory Http_Props
  imports Http_Server Http_Text_Props
begin

text \<open>
  What the HTTP server promises: it acts on the store only by the requests of its routes, a client can
  only read with GET, the ids of an action are bounded, and attachments are shown inline only when
  that is safe.
\<close>

section \<open>The ids of an action\<close>

text \<open>The numbers of a JSON array that are 64-bit integers.\<close>

fun json_ids :: "json list \<Rightarrow> int list" where
  "json_ids [] = []"
| "json_ids (v # vs) =
     (case v of JNumber s \<Rightarrow> (case parse_id s of None \<Rightarrow> json_ids vs | Some i \<Rightarrow> i # json_ids vs) | _ \<Rightarrow> json_ids vs)"

lemma valid_ids_loop_eq:
  "n \<le> max_message_action_ids \<Longrightarrow>
     valid_ids_loop seen n vs = take (Suc max_message_action_ids - n) (dedup_first seen (json_ids vs))"
proof (induction vs arbitrary: seen n)
  case (Cons v vs)
  show ?case
  proof (cases "\<exists>s i. v = JNumber s \<and> parse_id s = Some i \<and> i \<notin> seen")
    case True
    then obtain s i where v: "v = JNumber s" "parse_id s = Some i" "i \<notin> seen" by blast
    show ?thesis
    proof (cases "max_message_action_ids < Suc n")
      case True
      then have "n = max_message_action_ids" using Cons.prems by simp
      then show ?thesis by (simp add: v)
    next
      case False
      then have "Suc max_message_action_ids - n = Suc (Suc max_message_action_ids - Suc n)" by simp
      then show ?thesis using False Cons.IH [of "Suc n" "insert i seen"] by (simp add: v)
    qed
  next
    case False
    then show ?thesis using Cons.IH [OF Cons.prems] by (cases v) (auto split: option.split)
  qed
qed simp

section \<open>Reading\<close>

text \<open>Two stores that differ at most in which messages are read.\<close>

definition unread :: "db \<Rightarrow> db" where
  "unread d = d\<lparr>messages := map (\<lambda>m. m\<lparr>msg_is_read := 0\<rparr>) (messages d)\<rparr>"

definition only_read :: "store \<Rightarrow> store \<Rightarrow> bool" where
  "only_read st st' \<longleftrightarrow> unread (sdb st') = unread (sdb st) \<and> generation st' = generation st"

lemma only_read_refl [simp]: "only_read st st"
  by (simp add: only_read_def)

lemma only_read_trans: "only_read a b \<Longrightarrow> only_read b c \<Longrightarrow> only_read a c"
  by (simp add: only_read_def)

lemma keeps_unread_detail: "keeps (\<lambda>d. unread d = d0) (read_message_detail E i)"
  unfolding read_message_detail_def
  by (intro keeps_rules; rule keeps_stmt) (auto simp: q_message_def q_attachments_def)

lemma unread_update: "unread (snd (update_is_read P v d)) = unread d"
  by (simp add: update_is_read_def unread_def)

lemma finish_in_tx_unread:
  assumes "keeps (\<lambda>d. unread d = unread (sdb st)) body" and "finish st evs out (in_tx body (sdb st) fs) = (r, st', e)"
  shows "only_read st st'"
proof -
  have "unread (fst (snd (in_tx body (sdb st) fs))) = unread (sdb st)"
    by (rule keeps_in_tx [OF assms(1)]) simp
  then show ?thesis
    using assms(2) by (auto simp: only_read_def finish_def split: prod.splits sum.splits)
qed

lemma get_message_only_read: "get_message E i fs st = (r, st', evs) \<Longrightarrow> only_read st st'"
  unfolding get_message_def with_pop3_def
  by (auto split: if_splits elim!: finish_in_tx_unread [rotated]
      intro!: keeps_bind keeps_unread_detail keeps_return keeps_if)

lemma mark_read_detail_only_read: "mark_read_detail det fs st = (r, st', evs) \<Longrightarrow> only_read st st'"
proof -
  assume run: "mark_read_detail det fs st = (r, st', evs)"
  have "keeps (\<lambda>d. unread d = d0) (bind_tx (stmt (update_is_read P 1))
      (\<lambda>n. bind_tx (driver_value n) (\<lambda>n. return_tx (Commit n))))" for d0 P
    by (intro keeps_rules; rule keeps_stmt) (metis unread_update snd_conv)
  with run show ?thesis
    unfolding mark_read_detail_def with_pop3_def
    by (auto split: if_splits option.splits elim!: finish_in_tx_unread [rotated])
qed

lemma get_message_id:
  assumes "get_message E i fs st = (Inr (Some det), st', evs)"
  shows "msg_id (md_message det) = i"
proof -
  have "msg_id (fst p) = i"
    if "bind_tx (read_message_detail E i) (\<lambda>r. return_tx (if r = None then Roll_Back r else Commit r)) d fs0
          = (Inr (Commit (Some p)), d', fs1)" for p d d' fs0 fs1
    using that by (auto simp: read_message_detail_def q_message_def q_attachments_def detail_columns_def find_Some_iff
        elim!: bind_tx_InrE stmt_InrE return_tx_InrE split: option.splits if_splits)
  moreover have "bind_tx (read_message_detail E i) (\<lambda>r. return_tx (if r = None then Roll_Back r else Commit r)) d fs0
          \<noteq> (Inr (Roll_Back (Some p)), d', fs1)" for p d d' fs0 fs1
    by (auto elim!: bind_tx_InrE return_tx_InrE split: if_splits)
  ultimately show ?thesis
    using assms
    by (auto simp: get_message_def with_pop3_def finish_def in_tx_def detail_of_def
        split: if_splits prod.splits sum.splits ending.splits option.splits)
qed

section \<open>Handlers\<close>

text \<open>A handler acts by the requests of a log; an answer with status 200 means that all of them succeeded.\<close>

definition acts ::
  "engine \<Rightarrow> unicode \<Rightarrow> store \<Rightarrow> (request \<Rightarrow> bool) \<Rightarrow> 'r handled \<Rightarrow> bool" where
  "acts E u st P out \<longleftrightarrow>
     (\<exists>log. store_run E u st log (fst (snd out)) \<and> snd (snd out) = concat (map (\<lambda>(r, err, evs). evs) log)
        \<and> list_all (\<lambda>(r, err, evs). P r) log
        \<and> (rs_status (fst out) = 200 \<longrightarrow> list_all (\<lambda>(r, err, evs). err = None) log))"

lemma acts_nothing [simp]: "acts E u st P (resp, st, [])"
  unfolding acts_def by (intro exI [of _ "[]"]) (auto intro: store_run_refl)

lemma acts_one:
  assumes "run_request E u r fs st = (err, st', evs)" and "P r" and "rs_status resp = 200 \<Longrightarrow> err = None"
  shows "acts E u st P (resp, st', evs)"
  unfolding acts_def
  using store_run_step [OF store_run_refl assms(1)] assms(2,3) by (intro exI [of _ "[(r, err, evs)]"]) auto

lemma acts_two:
  assumes "run_request E u r fs st = (err, st1, evs1)" and "run_request E u r' fs' st1 = (err', st2, evs2)"
    and "P r" and "P r'" and "rs_status resp = 200 \<Longrightarrow> err = None \<and> err' = None"
  shows "acts E u st P (resp, st2, evs1 @ evs2)"
  unfolding acts_def
  using store_run_step [OF store_run_step [OF store_run_refl assms(1)] assms(2)] assms(3-)
  by (intro exI [of _ "[(r, err, evs1), (r', err', evs2)]"]) auto

lemma status_simps [simp]:
  "rs_status (write_json hs n b) = n" "rs_status (write_error hs n m) = n" "rs_status (http_error hs n m) = n"
  "rs_status (internal_error hs) = 500" "rs_status not_found = 404"
  by (simp_all add: write_json_def write_error_def http_error_def internal_error_def not_found_def)

lemma acts_done:
  assumes "run_request E u r fs st = forget out" and "P r"
  shows "acts E u st P (action_done out)"
proof -
  obtain x st' evs where out: "out = (x, st', evs)" by (cases out)
  have req: "run_request E u r fs st = (case x of Inl e \<Rightarrow> Some e | Inr y \<Rightarrow> None, st', evs)"
    using assms(1) by (simp add: out forget_def)
  show ?thesis
    unfolding action_done_def out
    by (cases x) (auto intro!: acts_one [where P = P, OF req assms(2)])
qed

lemma delete_mailbox_acts:
  assumes "\<And>i. parse_id raw = Some i \<Longrightarrow> P (Rq_Delete_Mailbox i)"
  shows "acts (he_engine env) (he_unicode env) st P (h_delete_mailbox env raw st)"
proof (cases "parse_id raw")
  case (Some i)
  obtain x st' evs where run: "remove_mailbox i (he_faults env) st = (x, st', evs)" by (metis prod_cases3)
  have "run_request (he_engine env) (he_unicode env) (Rq_Delete_Mailbox i) (he_faults env) st
      = (case x of Inl e \<Rightarrow> Some e | Inr y \<Rightarrow> None, st', evs)" by (simp add: run forget_def)
  note one = acts_one [where P = P, OF this assms [OF Some]]
  show ?thesis
    by (cases x) (auto simp: h_delete_mailbox_def run Some intro!: one)
qed (simp add: h_delete_mailbox_def)

lemma get_message_acts:
  assumes "\<And>i. parse_id raw = Some i \<Longrightarrow> P (Rq_Get_Message i)"
    and "\<And>det. parse_id raw = Some (msg_id (md_message det)) \<Longrightarrow> P (Rq_Mark_Detail (Some det))"
  shows "acts (he_engine env) (he_unicode env) st P (h_get_message env raw st)"
proof (cases "parse_id raw")
  case (Some i)
  obtain x st1 evs1 where get: "get_message (he_engine env) i (he_faults env) st = (x, st1, evs1)" by (metis prod_cases3)
  have req: "run_request (he_engine env) (he_unicode env) (Rq_Get_Message i) (he_faults env) st
      = (case x of Inl e \<Rightarrow> Some e | Inr y \<Rightarrow> None, st1, evs1)" by (simp add: get forget_def)
  show ?thesis
  proof (cases "\<exists>det. x = Inr (Some det)")
    case False
    then have x: "(\<exists>e. x = Inl e) \<or> x = Inr None" by (cases x) auto
    note one = acts_one [where P = P, OF req assms(1) [OF Some]]
    from x show ?thesis
    proof (elim disjE exE)
      show ?thesis if "x = Inl e" for e using that by (auto simp: h_get_message_def Some get intro!: one)
      show ?thesis if "x = Inr None" using that by (auto simp: h_get_message_def Some get intro!: one)
    qed
  next
    case True
    then obtain det where x: "x = Inr (Some det)" by blast
    have i: "msg_id (md_message det) = i" using get_message_id get unfolding x by blast
    obtain y st2 evs2 where mark: "mark_read_detail (Some det) (he_faults2 env) st1 = (y, st2, evs2)" by (metis prod_cases3)
    have req2: "run_request (he_engine env) (he_unicode env) (Rq_Mark_Detail (Some det)) (he_faults2 env) st1
        = (case y of Inl e \<Rightarrow> Some e | Inr z \<Rightarrow> None, st2, evs2)" by (simp add: mark forget_def)
    have "P (Rq_Mark_Detail (Some det))" by (rule assms(2)) (simp add: i Some)
    note two = acts_two [where P = P, OF req req2 assms(1) [OF Some] this]
    show ?thesis
      by (cases y) (auto simp: h_get_message_def Some get x mark Let_def intro!: two)
  qed
qed (simp add: h_get_message_def)

text \<open>The requests a route may make.\<close>

definition allowed_request :: "http_request \<Rightarrow> request \<Rightarrow> bool" where
  "allowed_request rq r \<longleftrightarrow>
     (case route_of rq of
        R_Delete_Mailbox raw \<Rightarrow> (case r of Rq_Delete_Mailbox i \<Rightarrow> parse_id raw = Some i | _ \<Rightarrow> False)
      | R_Message raw \<Rightarrow>
          (case r of
             Rq_Get_Message i \<Rightarrow> parse_id raw = Some i
           | Rq_Mark_Detail (Some det) \<Rightarrow> parse_id raw = Some (msg_id (md_message det))
           | _ \<Rightarrow> False)
      | R_Actions \<Rightarrow>
          (case r of
             Rq_Delete_Messages ids \<Rightarrow> ids = valid_ids (json_field (decode_body rq) ''ids'') \<and> length ids \<le> 10000
           | Rq_Set_Read ids b \<Rightarrow> ids = valid_ids (json_field (decode_body rq) ''ids'') \<and> length ids \<le> 10000
           | _ \<Rightarrow> False)
      | R_Reset \<Rightarrow> r = Rq_Wipe_All
      | _ \<Rightarrow> False)"

lemma actions_acts:
  assumes "route_of rq = R_Actions"
  shows "acts (he_engine env) (he_unicode env) st (allowed_request rq) (h_message_actions env rq st)"
proof (cases "decode_body rq")
  case (Some body)
  let ?E = "he_engine env" and ?u = "he_unicode env" and ?fs = "he_faults env"
  define ids where "ids = valid_ids (json_field (decode_body rq) ''ids'')"
  have run: "run_request ?E ?u (Rq_Delete_Messages ids) ?fs st = forget (remove_messages ?E ids ?fs st)"
    "run_request ?E ?u (Rq_Set_Read ids b) ?fs st = forget (set_read_state ?E ids b ?fs st)" for b by simp_all
  note done_delete = acts_done [where P = "allowed_request rq", OF run(1)]
    and done_read = acts_done [where P = "allowed_request rq", OF run(2)]
  have ids': "valid_ids (json_field (Some body) ''ids'') = ids" by (simp add: ids_def Some)
  have ok: "allowed_request rq (Rq_Delete_Messages ids)" "allowed_request rq (Rq_Set_Read ids b)"
    if "length ids \<le> 10000" for b using that by (simp_all add: allowed_request_def assms ids_def)
  show ?thesis
    unfolding h_message_actions_def Some option.case Let_def ids'
    by (auto intro!: done_delete done_read ok simp: max_message_action_ids_def)
qed (simp add: h_message_actions_def)

lemma serve_http_acts: "acts (he_engine env) (he_unicode env) st (allowed_request rq) (serve_http env rq st)"
proof (cases "route_of rq")
  case (R_Delete_Mailbox raw)
  show ?thesis
    unfolding serve_http_def R_Delete_Mailbox route.case
    by (rule delete_mailbox_acts) (simp add: allowed_request_def R_Delete_Mailbox)
next
  case (R_Message raw)
  show ?thesis
    unfolding serve_http_def R_Message route.case
    by (rule get_message_acts) (simp_all add: allowed_request_def R_Message)
next
  case R_Actions
  then show ?thesis using actions_acts by (simp add: serve_http_def)
next
  case R_Reset
  have "run_request (he_engine env) (he_unicode env) Rq_Wipe_All (he_faults env) st = forget (wipe_all (he_faults env) st)"
    by simp
  note acts_done [where P = "allowed_request rq", OF this]
  then show ?thesis using R_Reset by (simp add: serve_http_def h_reset_def allowed_request_def)
qed (auto simp: serve_http_def h_list_mailboxes_def h_list_messages_def h_list_calendar_events_def
      h_get_message_source_def h_inspect_message_def h_get_attachment_def h_send_test_def Let_def
      split: sum.split option.split)

lemma allowed_with_get:
  assumes "rq_method rq = ''GET''" and "allowed_request rq r"
  shows "(\<exists>i. r = Rq_Get_Message i) \<or> (\<exists>det. r = Rq_Mark_Detail det)"
  using assms by (auto simp: allowed_request_def route_of_def Let_def split: if_splits request.splits option.splits)

lemma reading_run:
  assumes "store_run E u st log st'"
    and "list_all (\<lambda>(r, err, evs). (\<exists>i. r = Rq_Get_Message i) \<or> (\<exists>det. r = Rq_Mark_Detail det)) log"
  shows "only_read st st'"
  using assms
proof (induction rule: store_run.induct)
  case (store_run_step st log st1 r fs err st2 evs)
  then have "only_read st st1" "(\<exists>i. r = Rq_Get_Message i) \<or> (\<exists>det. r = Rq_Mark_Detail det)" by auto
  moreover have "only_read st1 st2"
    using store_run_step.hyps(2) calculation(2)
    by (auto simp: forget_def split: prod.splits) (metis get_message_only_read mark_read_detail_only_read prod.collapse)+
  ultimately show ?case using only_read_trans by blast
qed simp

lemma distinct_valid_ids: "distinct (valid_ids v)"
  by (cases v) (simp_all add: valid_ids_def valid_ids_loop_eq max_message_action_ids_def distinct_dedup_first)

section \<open>Properties\<close>

text \<open>
  C6. The HTTP server acts on the store only by requests of its routes, one or two of them: the ones
  its path and its body name, and for an action on messages with at most 10000 distinct ids.  It
  gives the hub exactly their events; an answer with status 200 means that every one of them succeeded;
  the schema invariant is kept; and a request with GET changes nothing but which messages are read.
\<close>

theorem http_acts_by_requests:
  assumes "engine_ok (he_engine env)" and "db_ok (sdb st)" and "serve_http env rq st = (resp, st', evs)"
  shows "\<exists>log. store_run (he_engine env) (he_unicode env) st log st'
     \<and> evs = concat (map (\<lambda>(r, err, evs). evs) log)
     \<and> list_all (\<lambda>(r, err, evs). allowed_request rq r) log
     \<and> (rs_status resp = 200 \<longrightarrow> list_all (\<lambda>(r, err, evs). err = None) log)
     \<and> db_ok (sdb st') \<and> (rq_method rq = ''GET'' \<longrightarrow> only_read st st')
     \<and> distinct (valid_ids (json_field (decode_body rq) ''ids''))"
proof -
  from serve_http_acts [of env st rq] obtain log where log:
    "store_run (he_engine env) (he_unicode env) st log st'" "evs = concat (map (\<lambda>(r, err, evs). evs) log)"
    "list_all (\<lambda>(r, err, evs). allowed_request rq r) log"
    "rs_status resp = 200 \<longrightarrow> list_all (\<lambda>(r, err, evs). err = None) log"
    unfolding assms(3) acts_def by auto
  have "only_read st st'" if "rq_method rq = ''GET''"
  proof (rule reading_run [OF log(1)])
    show "list_all (\<lambda>(r, err, evs). (\<exists>i. r = Rq_Get_Message i) \<or> (\<exists>det. r = Rq_Mark_Detail det)) log"
      using log(3) by (rule list.pred_mono_strong) (use allowed_with_get [OF that] in force)
  qed
  with log run_sound [OF log(1) assms(1,2)] distinct_valid_ids show ?thesis by blast
qed

text \<open>Deleting the message of the sample store over HTTP.\<close>

definition sample_env :: "unit http_env" where
  "sample_env = \<lparr>he_engine = rowid_engine, he_unicode = plain_unicode, he_like = (\<lambda>p s. False), he_faults = [],
     he_faults2 = [], he_sanitize_html = (\<lambda>h m. h), he_sanitize_svg = (\<lambda>s. None), he_analyze = (\<lambda>m. None),
     he_client_gone = False, he_sender = None, he_files = None, he_index = ''index.html'', he_type_of = (\<lambda>n. []),
     he_openapi = []\<rparr>"

definition sample_delete :: http_request where
  "sample_delete = \<lparr>rq_method = ''POST'', rq_path = ''/api/messages/actions'', rq_query = [],
     rq_value = Some (JObject [(''ids'', JArray [JNumber ''1'', JNull, JNumber ''1'']), (''action'', JString ''delete'')]),
     rq_at_end = True\<rparr>"

lemma sample_delete_route: "route_of sample_delete = R_Actions"
  by (simp add: route_of_def sample_delete_def)

lemma sample_delete_ids: "valid_ids (json_field (decode_body sample_delete) ''ids'') = [1]"
  by (simp add: sample_delete_def decode_body_def json_field_def valid_ids_def max_message_action_ids_def
      parse_id_def atoi_def is_digit_def digit_val_def byte_def in_int64_def max_int64_def)

lemma sample_remove:
  "remove_messages rowid_engine [1] [] delivered_store
     = (Inr [1], delivered_store\<lparr>sdb := (sdb delivered_store)\<lparr>messages := []\<rparr>\<rparr>, [messages_changed 1])"
  by (simp add: remove_messages_def with_pop3_def finish_def in_tx_def bind_stmt bind_tx_def delivered_store_def
      q_affected_def rowid_engine_def delete_messages_def delete_messages_where_def empty_db_def copy_of_def
      message_row_of_def)

theorem http_acts_by_requests_witness:
  "db_ok ((sdb delivered_store)\<lparr>messages := []\<rparr>)
   \<and> (\<exists>log. store_run rowid_engine plain_unicode delivered_store log
        (delivered_store\<lparr>sdb := (sdb delivered_store)\<lparr>messages := []\<rparr>\<rparr>)
        \<and> list_all (\<lambda>(r, err, evs). allowed_request sample_delete r \<and> err = None) log)"
proof -
  have body: "decode_body sample_delete
      = Some (JObject [(''ids'', JArray [JNumber ''1'', JNull, JNumber ''1'']), (''action'', JString ''delete'')])"
    by (simp add: decode_body_def sample_delete_def)
  have ids: "valid_ids (json_field (Some (JObject [(''ids'', JArray [JNumber ''1'', JNull, JNumber ''1'']),
      (''action'', JString ''delete'')])) ''ids'') = [1]"
    using sample_delete_ids by (simp only: body)
  have serve: "serve_http sample_env sample_delete delivered_store
      = (write_json [] 200 Ok_Json, delivered_store\<lparr>sdb := (sdb delivered_store)\<lparr>messages := []\<rparr>\<rparr>, [messages_changed 1])"
    by (simp add: serve_http_def sample_delete_route h_message_actions_def body ids max_message_action_ids_def
        json_string_def sample_env_def sample_remove action_done_def) (simp add: json_field_def sample_remove action_done_def)
  have E: "engine_ok (he_engine sample_env)" by (simp add: sample_env_def rowid_engine_ok)
  from http_acts_by_requests [OF E delivered_store_ok serve] obtain log where
    "store_run rowid_engine plain_unicode delivered_store log (delivered_store\<lparr>sdb := (sdb delivered_store)\<lparr>messages := []\<rparr>\<rparr>)"
    "list_all (\<lambda>(r, err, evs). allowed_request sample_delete r) log" "list_all (\<lambda>(r, err, evs). err = None) log"
    "db_ok ((sdb delivered_store)\<lparr>messages := []\<rparr>)"
    by (auto simp: sample_env_def)
  then show ?thesis by (intro conjI exI [of _ log]) (auto simp: list_all_iff)
qed

section \<open>Attachments\<close>

lemma map_of_put_other: "k \<noteq> k' \<Longrightarrow> map_of (map_put k v m) k' = map_of m k'"
  by simp

lemma attachment_header_values:
  "map_of attachment_headers ''X-Content-Type-Options'' = Some ''nosniff''"
  by (simp add: attachment_headers_def)

text \<open>
  C23. What a download shows inline: for every stored attachment and every query, the answer forbids
  sniffing; and it is either refused, or it offers the stored bytes as a download, or it shows
  the stored bytes inline under one of the six harmless types, or it shows inline what the
  sanitizer made of an SVG, under a policy that allows no script.  The type that is sent is the
  normalized one, the length is the length of what is sent.
\<close>

theorem attachment_inline_only_when_safe:
  "let r = attachment_response env rq a; hs = map_of (rs_headers r);
       ct = normalize_attachment_content_type (he_unicode env) (att_content_type a);
       name = sanitize_attachment_filename (att_filename a) (att_id a) in
   hs ''X-Content-Type-Options'' = Some ''nosniff''
   \<and> (case rs_body r of
        Raw content \<Rightarrow>
          hs ''Content-Type'' = Some ct \<and> hs ''Content-Length'' = Some (itoa (int (length content)))
          \<and> ((content = att_content a
                \<and> hs ''Content-Disposition'' = Some (format_attachment_disposition ''attachment'' name))
             \<or> (content = att_content a \<and> ct \<in> set inline_attachment_types
                \<and> hs ''Content-Disposition'' = Some (format_attachment_disposition ''inline'' name))
             \<or> (he_sanitize_svg env (att_content a) = Some content \<and> ct = svg_type
                \<and> hs ''Content-Security-Policy'' = Some svg_policy
                \<and> hs ''Content-Disposition'' = Some (format_attachment_disposition ''inline'' name)))
      | Error_Json message \<Rightarrow> rs_status r = 422 \<and> he_sanitize_svg env (att_content a) = None
      | _ \<Rightarrow> False)"
proof -
  have headers: "map_of (rs_headers (send_attachment hs ct d name content)) k =
      (if k = ''Content-Disposition'' then Some (format_attachment_disposition d name)
       else if k = ''Content-Length'' then Some (itoa (int (length content)))
       else if k = ''Content-Type'' then Some ct else map_of hs k)"
    "rs_body (send_attachment hs ct d name content) = Raw content" for hs ct d name content k
    by (simp_all add: send_attachment_def)
  have sniff: "map_of (map_put ''Content-Security-Policy'' svg_policy attachment_headers) ''X-Content-Type-Options'' = Some ''nosniff''"
    by (simp add: attachment_header_values)
  show ?thesis
    unfolding attachment_response_def Let_def
    by (auto simp: headers attachment_header_values sniff write_error_def write_json_def split: option.split)
qed

end
