(* ===== verification/Go_Regexp.thy ===== *)
theory Go_Regexp
  imports Go_Text
begin

text \<open>
  What the program uses of Go's package \<open>regexp\<close> where a pattern is anchored at both ends: such a
  pattern is an expression over runes, and \<open>MatchString\<close> asks whether the runes of the string are in
  its language.  Matching is by derivatives; it is proved to be membership in the language, and the
  runes of every match lie in the classes of the pattern.
\<close>

section \<open>Expressions\<close>

type_synonym ranges = "(rune \<times> rune) list"

definition in_ranges :: "ranges \<Rightarrow> rune \<Rightarrow> bool" where
  "in_ranges rs r \<longleftrightarrow> list_ex (\<lambda>(a, b). a \<le> r \<and> r \<le> b) rs"

datatype re =
    Re_None
  | Re_Empty
  | Re_Chars ranges
  | Re_Alt re re
  | Re_Cat re re
  | Re_Many re

text \<open>The language.\<close>

inductive re_lang :: "re \<Rightarrow> rune list \<Rightarrow> bool" where
  lang_empty: "re_lang Re_Empty []"
| lang_chars: "in_ranges rs r \<Longrightarrow> re_lang (Re_Chars rs) [r]"
| lang_left: "re_lang r w \<Longrightarrow> re_lang (Re_Alt r s) w"
| lang_right: "re_lang s w \<Longrightarrow> re_lang (Re_Alt r s) w"
| lang_cat: "re_lang r v \<Longrightarrow> re_lang s w \<Longrightarrow> re_lang (Re_Cat r s) (v @ w)"
| lang_done: "re_lang (Re_Many r) []"
| lang_more: "re_lang r v \<Longrightarrow> v \<noteq> [] \<Longrightarrow> re_lang (Re_Many r) w \<Longrightarrow> re_lang (Re_Many r) (v @ w)"

inductive_simps re_lang_simps [simp]:
  "re_lang Re_None w" "re_lang Re_Empty w" "re_lang (Re_Chars rs) w" "re_lang (Re_Alt r s) w"

inductive_simps re_lang_cat: "re_lang (Re_Cat r s) w"

inductive_simps re_lang_many: "re_lang (Re_Many r) w"

section \<open>Matching\<close>

fun re_nullable :: "re \<Rightarrow> bool" where
  "re_nullable Re_None = False"
| "re_nullable Re_Empty = True"
| "re_nullable (Re_Chars rs) = False"
| "re_nullable (Re_Alt r s) = (re_nullable r \<or> re_nullable s)"
| "re_nullable (Re_Cat r s) = (re_nullable r \<and> re_nullable s)"
| "re_nullable (Re_Many r) = True"

text \<open>Concatenation and alternative without the parts that match nothing.\<close>

fun re_cat :: "re \<Rightarrow> re \<Rightarrow> re" where
  "re_cat Re_None s = Re_None"
| "re_cat Re_Empty s = s"
| "re_cat r s = Re_Cat r s"

fun re_alt :: "re \<Rightarrow> re \<Rightarrow> re" where
  "re_alt Re_None s = s"
| "re_alt r s = (if s = Re_None then r else Re_Alt r s)"

fun re_deriv :: "rune \<Rightarrow> re \<Rightarrow> re" where
  "re_deriv c Re_None = Re_None"
| "re_deriv c Re_Empty = Re_None"
| "re_deriv c (Re_Chars rs) = (if in_ranges rs c then Re_Empty else Re_None)"
| "re_deriv c (Re_Alt r s) = re_alt (re_deriv c r) (re_deriv c s)"
| "re_deriv c (Re_Cat r s) =
     (let d = re_cat (re_deriv c r) s in if re_nullable r then re_alt d (re_deriv c s) else d)"
| "re_deriv c (Re_Many r) = re_cat (re_deriv c r) (Re_Many r)"

fun re_match :: "re \<Rightarrow> rune list \<Rightarrow> bool" where
  "re_match r [] = re_nullable r"
| "re_match r (c # w) = re_match (re_deriv c r) w"

definition match_string :: "re \<Rightarrow> bytes \<Rightarrow> bool" where
  "match_string r s \<longleftrightarrow> re_match r (runes s)"

lemma re_lang_re_cat [simp]: "re_lang (re_cat r s) w \<longleftrightarrow> re_lang (Re_Cat r s) w"
  by (cases r) (auto simp: re_lang_cat)

lemma re_lang_re_alt [simp]: "re_lang (re_alt r s) w \<longleftrightarrow> re_lang r w \<or> re_lang s w"
  by (cases r) auto

lemma re_lang_cat_Nil [simp]: "re_lang (Re_Cat r s) [] \<longleftrightarrow> re_lang r [] \<and> re_lang s []"
  by (simp add: re_lang_cat)

lemma re_nullable_lang: "re_nullable r \<longleftrightarrow> re_lang r []"
  by (induction r) (auto intro: lang_done)

lemma re_lang_many_Cons:
  "re_lang (Re_Many r) (c # w) \<longleftrightarrow> (\<exists>u v. w = u @ v \<and> re_lang r (c # u) \<and> re_lang (Re_Many r) v)"
proof
  assume "re_lang (Re_Many r) (c # w)"
  then obtain u v where uv: "c # w = u @ v" "re_lang r u" "u \<noteq> []" "re_lang (Re_Many r) v"
    by (subst (asm) re_lang_many) auto
  then obtain u' where "u = c # u'" by (cases u) auto
  with uv show "\<exists>u v. w = u @ v \<and> re_lang r (c # u) \<and> re_lang (Re_Many r) v" by auto
next
  assume "\<exists>u v. w = u @ v \<and> re_lang r (c # u) \<and> re_lang (Re_Many r) v"
  then obtain u v where "w = u @ v" "re_lang r (c # u)" "re_lang (Re_Many r) v" by blast
  then show "re_lang (Re_Many r) (c # w)" using lang_more [of r "c # u" v] by simp
qed

lemma re_lang_cat_Cons:
  "re_lang (Re_Cat r s) (c # w) \<longleftrightarrow>
     (\<exists>u v. w = u @ v \<and> re_lang r (c # u) \<and> re_lang s v) \<or> (re_lang r [] \<and> re_lang s (c # w))"
  by (subst re_lang_cat) (auto simp: Cons_eq_append_conv)

lemma re_deriv_lang: "re_lang (re_deriv c r) w \<longleftrightarrow> re_lang r (c # w)"
proof (induction r arbitrary: w)
  case (Re_Cat r s)
  then show ?case
    by (auto simp: Let_def re_nullable_lang re_lang_cat_Cons) (auto simp: re_lang_cat)
next
  case (Re_Many r)
  then show ?case by (simp add: re_lang_many_Cons) (auto simp: re_lang_cat)
qed auto

theorem re_match_lang: "re_match r w \<longleftrightarrow> re_lang r w"
  by (induction w arbitrary: r) (simp_all add: re_nullable_lang re_deriv_lang)

section \<open>What matches can hold\<close>

fun re_ranges :: "re \<Rightarrow> ranges" where
  "re_ranges (Re_Chars rs) = rs"
| "re_ranges (Re_Alt r s) = re_ranges r @ re_ranges s"
| "re_ranges (Re_Cat r s) = re_ranges r @ re_ranges s"
| "re_ranges (Re_Many r) = re_ranges r"
| "re_ranges _ = []"

lemma in_ranges_append [simp]: "in_ranges (rs @ rs') r \<longleftrightarrow> in_ranges rs r \<or> in_ranges rs' r"
  by (auto simp: in_ranges_def)

lemma re_lang_ranges: "re_lang r w \<Longrightarrow> c \<in> set w \<Longrightarrow> in_ranges (re_ranges r) c"
  by (induction r w rule: re_lang.induct) auto

text \<open>Every range of the first list lies in one of the second.\<close>

definition ranges_within :: "ranges \<Rightarrow> ranges \<Rightarrow> bool" where
  "ranges_within rs rs' \<longleftrightarrow> list_all (\<lambda>(a, b). list_ex (\<lambda>(c, d). c \<le> a \<and> b \<le> d) rs') rs"

lemma ranges_withinD: "ranges_within rs rs' \<Longrightarrow> in_ranges rs r \<Longrightarrow> in_ranges rs' r"
  unfolding ranges_within_def in_ranges_def list_all_iff list_ex_iff
  by (auto split: prod.splits) (metis (no_types, lifting) case_prodD case_prodE order_trans)

lemma match_string_ranges:
  "match_string r s \<Longrightarrow> ranges_within (re_ranges r) rs \<Longrightarrow> list_all (in_ranges rs) (runes s)"
  unfolding match_string_def re_match_lang list_all_iff using re_lang_ranges ranges_withinD by blast

section \<open>Abbreviations of the pattern syntax\<close>

definition re_char :: "char \<Rightarrow> re" where
  "re_char c = Re_Chars [(byte c, byte c)]"

fun re_lit :: "bytes \<Rightarrow> re" where
  "re_lit [] = Re_Empty"
| "re_lit (c # s) = Re_Cat (re_char c) (re_lit s)"

text \<open>
  The flag \<open>(?i)\<close> folds by Unicode's simple case folding: the letters \<open>k\<close> and \<open>s\<close> also stand for the
  Kelvin sign and the long s.
\<close>

definition fold_ranges :: "char \<Rightarrow> ranges" where
  "fold_ranges c =
     (if 97 \<le> byte c \<and> byte c \<le> 122
      then [(byte c, byte c), (byte c - 32, byte c - 32)]
        @ (if c = CHR ''k'' then [(8490, 8490)] else if c = CHR ''s'' then [(383, 383)] else [])
      else [(byte c, byte c)])"

definition letters_ci :: ranges where
  "letters_ci = [(97, 122), (65, 90), (383, 383), (8490, 8490)]"

definition letters :: ranges where
  "letters = [(97, 122), (65, 90)]"

definition digits :: ranges where
  "digits = [(48, 57)]"

definition chars_of :: "bytes \<Rightarrow> ranges" where
  "chars_of s = map (\<lambda>c. (byte c, byte c)) s"

text \<open>The class \<open>\s\<close>.\<close>

definition re_space :: ranges where
  "re_space = [(9, 10), (12, 13), (32, 32)]"

text \<open>The complement of a class that is given as a list of disjoint ranges in ascending order.\<close>

fun ranges_outside :: "nat \<Rightarrow> ranges \<Rightarrow> ranges" where
  "ranges_outside n [] = [(n, 1114111)]"
| "ranges_outside n ((a, b) # rs) = (if n < a then [(n, a - 1)] else []) @ ranges_outside (Suc b) rs"

fun re_lit_ci :: "bytes \<Rightarrow> re" where
  "re_lit_ci [] = Re_Empty"
| "re_lit_ci (c # s) = Re_Cat (Re_Chars (fold_ranges c)) (re_lit_ci s)"

definition re_opt :: "re \<Rightarrow> re" where
  "re_opt r = Re_Alt r Re_Empty"

definition re_some :: "re \<Rightarrow> re" where
  "re_some r = Re_Cat r (Re_Many r)"

fun re_alts :: "re list \<Rightarrow> re" where
  "re_alts [] = Re_None"
| "re_alts [r] = r"
| "re_alts (r # rs) = Re_Alt r (re_alts rs)"

fun re_cats :: "re list \<Rightarrow> re" where
  "re_cats [] = Re_Empty"
| "re_cats [r] = r"
| "re_cats (r # rs) = Re_Cat r (re_cats rs)"

text \<open>\<open>r{0,n}\<close> and \<open>r{m,m+n}\<close>.\<close>

fun re_upto :: "nat \<Rightarrow> re \<Rightarrow> re" where
  "re_upto 0 r = Re_Empty"
| "re_upto (Suc n) r = re_opt (Re_Cat r (re_upto n r))"

fun re_repeat :: "nat \<Rightarrow> nat \<Rightarrow> re \<Rightarrow> re" where
  "re_repeat 0 n r = re_upto n r"
| "re_repeat (Suc m) n r = Re_Cat r (re_repeat m n r)"

lemma re_ranges_upto: "in_ranges (re_ranges (re_upto n r)) c \<Longrightarrow> in_ranges (re_ranges r) c"
  by (induction n) (auto simp: re_opt_def, auto simp: in_ranges_def)

lemma re_ranges_repeat: "in_ranges (re_ranges (re_repeat m n r)) c \<Longrightarrow> in_ranges (re_ranges r) c"
  by (induction m) (auto dest: re_ranges_upto)

lemma re_lang_upto: "re_lang (re_upto n r) w \<Longrightarrow> re_lang (Re_Many r) w"
proof (induction n arbitrary: w)
  case (Suc n)
  show ?case
  proof (cases "w = []")
    case False
    with Suc.prems obtain u v where uv: "w = u @ v" "re_lang r u" "re_lang (re_upto n r) v"
      by (auto simp: re_opt_def re_lang_cat)
    with Suc.IH have "re_lang (Re_Many r) v" by blast
    with uv show ?thesis by (cases "u = []") (auto intro: lang_more)
  qed (simp add: lang_done)
qed (simp add: lang_done)

lemma re_lang_lit [simp]: "re_lang (re_lit s) w \<longleftrightarrow> w = map byte s"
proof (induction s arbitrary: w)
  case (Cons c s)
  then show ?case by (auto simp: re_lang_cat re_char_def in_ranges_def)
qed simp

end
