(* ===== verification/Go_Base64.thy ===== *)
theory Go_Base64
  imports Go_Text
begin

text \<open>
  Go's \<open>base64.StdEncoding\<close>: encoding with padding, and decoding, which skips line breaks and in
  its strict form refuses bits that are no part of the value.  Strict decoding is the inverse of
  encoding, in both directions.
\<close>

section \<open>The alphabet\<close>

definition b64_alphabet :: bytes where
  "b64_alphabet = ''ABCDEFGHIJKLMNOPQRSTUVWXYZabcdefghijklmnopqrstuvwxyz0123456789+/''"

definition b64_char :: "nat \<Rightarrow> char" where
  "b64_char n = b64_alphabet ! n"

definition b64_val :: "char \<Rightarrow> nat option" where
  "b64_val c = index_byte (\<lambda>d. d = c) b64_alphabet"

definition pad :: char where
  "pad = CHR ''=''"

lemma b64_alphabet_facts: "length b64_alphabet = 64" "distinct b64_alphabet" "pad \<notin> set b64_alphabet"
  "CR \<notin> set b64_alphabet" "LF \<notin> set b64_alphabet" "pad \<noteq> CR" "pad \<noteq> LF"
  by (simp_all add: b64_alphabet_def pad_def)

lemma index_byte_distinct: "distinct s \<Longrightarrow> i < length s \<Longrightarrow> index_byte (\<lambda>d. d = s ! i) s = Some i"
proof (induction s arbitrary: i)
  case (Cons c s)
  then show ?case by (cases i) auto
qed simp

lemma b64_val_char [simp]: "n < 64 \<Longrightarrow> b64_val (b64_char n) = Some n"
  by (simp add: b64_val_def b64_char_def index_byte_distinct b64_alphabet_facts)

lemma b64_val_SomeD: "b64_val c = Some n \<Longrightarrow> n < 64 \<and> c = b64_char n"
  unfolding b64_val_def using index_byte_SomeD [of "\<lambda>d. d = c" b64_alphabet n]
  by (simp add: b64_char_def b64_alphabet_facts)

lemma b64_char_in: "n < 64 \<Longrightarrow> b64_char n \<in> set b64_alphabet"
  by (simp add: b64_char_def b64_alphabet_facts)

lemma b64_char_other [simp]: "n < 64 \<Longrightarrow> b64_char n \<noteq> pad" "n < 64 \<Longrightarrow> b64_char n \<noteq> CR" "n < 64 \<Longrightarrow> b64_char n \<noteq> LF"
  using b64_char_in [of n] b64_alphabet_facts by metis+

lemma b64_val_pad [simp]: "b64_val pad = None"
  using b64_val_SomeD [of pad] b64_char_other(1) by (metis option.exhaust)

section \<open>Encoding and decoding\<close>

fun b64_encode :: "bytes \<Rightarrow> bytes" where
  "b64_encode [] = []"
| "b64_encode [a] = [b64_char (byte a div 4), b64_char (byte a mod 4 * 16), pad, pad]"
| "b64_encode [a, b] =
     [b64_char (byte a div 4), b64_char (byte a mod 4 * 16 + byte b div 16), b64_char (byte b mod 16 * 4), pad]"
| "b64_encode (a # b # c # s) =
     b64_char (byte a div 4) # b64_char (byte a mod 4 * 16 + byte b div 16)
     # b64_char (byte b mod 16 * 4 + byte c div 64) # b64_char (byte c mod 64) # b64_encode s"

fun b64_groups :: "bool \<Rightarrow> bytes \<Rightarrow> bytes option" where
  "b64_groups strict [] = Some []"
| "b64_groups strict (c0 # c1 # c2 # c3 # s) =
     (case (b64_val c0, b64_val c1) of
        (Some v0, Some v1) \<Rightarrow>
          if c3 = pad then
            (if s \<noteq> [] then None
             else if c2 = pad then
               (if strict \<and> v1 mod 16 \<noteq> 0 then None else Some [chr (v0 * 4 + v1 div 16)])
             else
               (case b64_val c2 of
                  None \<Rightarrow> None
                | Some v2 \<Rightarrow>
                    if strict \<and> v2 mod 4 \<noteq> 0 then None
                    else Some [chr (v0 * 4 + v1 div 16), chr (v1 mod 16 * 16 + v2 div 4)]))
          else
            (case (b64_val c2, b64_val c3) of
               (Some v2, Some v3) \<Rightarrow>
                 map_option (\<lambda>t. chr (v0 * 4 + v1 div 16) # chr (v1 mod 16 * 16 + v2 div 4) # chr (v2 mod 4 * 64 + v3) # t)
                   (b64_groups strict s)
             | _ \<Rightarrow> None)
      | _ \<Rightarrow> None)"
| "b64_groups strict _ = None"

definition no_breaks :: "bytes \<Rightarrow> bytes" where
  "no_breaks s = filter (\<lambda>c. c \<noteq> CR \<and> c \<noteq> LF) s"

definition b64_decode :: "bool \<Rightarrow> bytes \<Rightarrow> bytes option" where
  "b64_decode strict s = b64_groups strict (no_breaks s)"

text \<open>\<open>StdEncoding.DecodedLen\<close>.\<close>

definition b64_decoded_len :: "nat \<Rightarrow> nat" where
  "b64_decoded_len n = n div 4 * 3"

section \<open>The two are inverse\<close>

lemma sextets:
  fixes a b c :: nat
  assumes "a < 256" "b < 256" "c < 256"
  shows "a div 4 < 64" "a mod 4 * 16 < 64" "a mod 4 * 16 + b div 16 < 64" "b mod 16 * 4 < 64"
    "b mod 16 * 4 + c div 64 < 64" "c mod 64 < 64"
    "a div 4 * 4 + a mod 4 * 16 div 16 = a" "a div 4 * 4 + (a mod 4 * 16 + b div 16) div 16 = a"
    "(a mod 4 * 16 + b div 16) mod 16 * 16 + b mod 16 * 4 div 4 = b"
    "(a mod 4 * 16 + b div 16) mod 16 * 16 + (b mod 16 * 4 + c div 64) div 4 = b"
    "(b mod 16 * 4 + c div 64) mod 4 * 64 + c mod 64 = c"
  using assms by (simp_all add: div_mult2_eq mod_mult2_eq)

lemma octets:
  fixes p q r s :: nat
  assumes "p < 64" "q < 64" "r < 64" "s < 64"
  shows "p * 4 + q div 16 < 256" "q mod 16 * 16 + r div 4 < 256" "r mod 4 * 64 + s < 256"
    "(p * 4 + q div 16) div 4 = p" "(p * 4 + q div 16) mod 4 * 16 + (q mod 16 * 16 + r div 4) div 16 = q"
    "(q mod 16 * 16 + r div 4) mod 16 * 4 + (r mod 4 * 64 + s) div 64 = r" "(r mod 4 * 64 + s) mod 64 = s"
    "q mod 16 = 0 \<Longrightarrow> (p * 4 + q div 16) mod 4 * 16 = q"
    "r mod 4 = 0 \<Longrightarrow> (q mod 16 * 16 + r div 4) mod 16 * 4 = r"
proof -
  define q1 q0 r1 r0 where split: "q1 = q div 16" "q0 = q mod 16" "r1 = r div 4" "r0 = r mod 4"
  have q: "q = 16 * q1 + q0" "q0 < 16" "q1 < 4" and r: "r = 4 * r1 + r0" "r0 < 4" "r1 < 16"
    using assms by (simp_all add: split less_mult_imp_div_less)
  have parts: "q div 16 = q1" "q mod 16 = q0" "r div 4 = r1" "r mod 4 = r0" by (simp_all add: split)
  have sums: "(p * 4 + q1) div 4 = p" "(p * 4 + q1) mod 4 = q1" "(q0 * 16 + r1) div 16 = q0" "(q0 * 16 + r1) mod 16 = r1"
    "(r0 * 64 + s) div 64 = r0" "(r0 * 64 + s) mod 64 = s"
    using q r assms by simp_all
  show "p * 4 + q div 16 < 256" "q mod 16 * 16 + r div 4 < 256" "r mod 4 * 64 + s < 256"
    "(p * 4 + q div 16) div 4 = p" "(p * 4 + q div 16) mod 4 * 16 + (q mod 16 * 16 + r div 4) div 16 = q"
    "(q mod 16 * 16 + r div 4) mod 16 * 4 + (r mod 4 * 64 + s) div 64 = r" "(r mod 4 * 64 + s) mod 64 = s"
    unfolding parts sums using assms q r by simp_all
  show "q mod 16 = 0 \<Longrightarrow> (p * 4 + q div 16) mod 4 * 16 = q" "r mod 4 = 0 \<Longrightarrow> (q mod 16 * 16 + r div 4) mod 16 * 4 = r"
    unfolding parts sums using q r by simp_all
qed

lemma no_breaks_encode: "no_breaks (b64_encode s) = b64_encode s"
proof (induction s rule: b64_encode.induct)
  case (2 a)
  note v = sextets [OF byte_less [of a] byte_less byte_less]
  show ?case using v b64_alphabet_facts by (simp add: no_breaks_def)
next
  case (3 a b)
  note v = sextets [OF byte_less [of a] byte_less [of b] byte_less]
  show ?case using v b64_alphabet_facts by (simp add: no_breaks_def)
next
  case (4 a b c s)
  note v = sextets [OF byte_less [of a] byte_less [of b] byte_less [of c]]
  show ?case using v 4 by (simp add: no_breaks_def)
qed (simp add: no_breaks_def)

lemma groups_encode: "b64_groups strict (b64_encode s) = Some s"
proof (induction s rule: b64_encode.induct)
  case (2 a)
  note v = sextets [OF byte_less [of a] byte_less byte_less]
  show ?case using v by simp
next
  case (3 a b)
  note v = sextets [OF byte_less [of a] byte_less [of b] byte_less]
  show ?case using v by simp
next
  case (4 a b c s)
  note v = sextets [OF byte_less [of a] byte_less [of b] byte_less [of c]]
  show ?case using v 4 by simp
qed simp

theorem b64_decode_encode: "b64_decode strict (b64_encode s) = Some s"
  by (simp add: b64_decode_def no_breaks_encode groups_encode)

lemma groups_strict: "b64_groups True e = Some s \<Longrightarrow> e = b64_encode s"
proof (induction True e arbitrary: s rule: b64_groups.induct)
  case (2 c0 c1 c2 c3 e)
  from 2(2) obtain v0 v1 where v: "b64_val c0 = Some v0" "b64_val c1 = Some v1" by (auto split: option.splits)
  note v01 = v [THEN b64_val_SomeD]
  show ?case
  proof (cases "c3 = pad")
    case True
    show ?thesis
    proof (cases "c2 = pad")
      case c2: True
      then show ?thesis using 2(2) v v01 True octets [of v0 v1 0 0] by (auto split: if_splits)
    next
      case False
      with 2(2) v True obtain v2 where v2: "b64_val c2 = Some v2" by (auto split: option.splits if_splits)
      note v2' = b64_val_SomeD [OF v2]
      show ?thesis using 2(2) v v01 v2 v2' True False octets [of v0 v1 v2 0] by (auto split: if_splits)
    qed
  next
    case False
    with 2(2) v obtain v2 v3 t where w: "b64_val c2 = Some v2" "b64_val c3 = Some v3" "b64_groups True e = Some t"
      "s = chr (v0 * 4 + v1 div 16) # chr (v1 mod 16 * 16 + v2 div 4) # chr (v2 mod 4 * 64 + v3) # t"
      by (auto split: option.splits)
    note w' = w(1,2) [THEN b64_val_SomeD]
    have "e = b64_encode t" using 2(1) [OF refl v(1) v(2) False refl w(1) w(2) w(3)] .
    then show ?thesis using v01 w' w(4) octets [of v0 v1 v2 v3] by simp
  qed
qed auto

theorem b64_strict_canonical: "b64_decode True e = Some s \<Longrightarrow> no_breaks e = b64_encode s"
  by (simp add: b64_decode_def groups_strict)

lemma b64_encode_Nil_iff [simp]: "b64_encode s = [] \<longleftrightarrow> s = []"
  by (cases s rule: b64_encode.cases) simp_all

end
