(* ===== verification/Inspect_Css.thy ===== *)
theory Inspect_Css
  imports Go_Regexp
begin

text \<open>
  The style declarations that \<open>internal/inspect/inspect.go\<close> accepts in the HTML of a message
  (\<open>safeEmailCSSValue\<close> and its helpers).  \<open>strconv.ParseFloat\<close> is a parameter: whether it accepts
  a string.
\<close>

section \<open>Patterns\<close>

definition hex_ci :: ranges where
  "hex_ci = [(48, 57), (97, 102), (65, 70)]"

definition color_args :: ranges where
  "color_args = digits @ chars_of ''.,% +-''"

definition css_color_pattern :: re where
  "css_color_pattern =
     re_alts
       [re_lit_ci ''transparent'', re_lit_ci ''currentcolor'',
        Re_Cat (re_char (CHR ''#'')) (re_repeat 3 5 (Re_Chars hex_ci)),
        re_repeat 1 31 (Re_Chars letters_ci),
        re_cats [re_lit_ci ''rgb'', re_opt (re_lit_ci ''a''), re_char (CHR ''(''), re_some (Re_Chars color_args), re_char (CHR '')'')],
        re_cats [re_lit_ci ''hsl'', re_opt (re_lit_ci ''a''), re_char (CHR ''(''), re_some (Re_Chars color_args), re_char (CHR '')'')]]"

definition css_font_family_pattern :: re where
  "css_font_family_pattern =
     Re_Cat (Re_Chars (letters_ci @ digits))
       (re_upto 159 (Re_Chars (letters_ci @ digits @ chars_of ('' ,.'' @ [CHR 0x27, DQUOTE] @ ''_-''))))"

definition css_number :: re where
  "css_number =
     (let many = re_some (Re_Chars digits) in
      Re_Alt (Re_Cat many (re_opt (Re_Cat (re_char (CHR ''.'')) many))) (Re_Cat (re_char (CHR ''.'')) many))"

definition css_unit :: re where
  "css_unit = re_alts (map re_lit_ci [''px'', ''pt'', ''pc'', ''in'', ''cm'', ''mm'', ''em'', ''rem'', ''ex'', ''ch'', ''%''])"

definition css_length_pattern :: re where
  "css_length_pattern =
     re_alts [re_lit_ci ''auto'', re_lit ''0'', re_cats [re_opt (Re_Chars (chars_of ''+-'')), css_number, css_unit]]"

definition css_unsigned_length_pattern :: re where
  "css_unsigned_length_pattern = re_alts [re_lit_ci ''auto'', re_lit ''0'', Re_Cat css_number css_unit]"

section \<open>Lists of values\<close>

definition keywords_only :: "bytes \<Rightarrow> bytes list \<Rightarrow> bool" where
  "keywords_only v allowed =
     (let parts = string_fields v in
      if parts = [] \<or> 4 < length parts then False else list_all (\<lambda>p. p \<in> set allowed) parts)"

definition length_list :: "bytes \<Rightarrow> bool \<Rightarrow> nat \<Rightarrow> bool" where
  "length_list v no_sign maximum =
     (let parts = string_fields v in
      if parts = [] \<or> maximum < length parts then False
      else list_all (match_string (if no_sign then css_unsigned_length_pattern else css_length_pattern)) parts)"

definition border_widths :: "bytes list" where
  "border_widths = [''thin'', ''medium'', ''thick'']"

definition border_styles :: "bytes list" where
  "border_styles = [''none'', ''hidden'', ''dotted'', ''dashed'', ''solid'', ''double'', ''groove'', ''ridge'', ''inset'', ''outset'']"

definition border_width_list :: "bytes \<Rightarrow> bool" where
  "border_width_list v =
     (let parts = string_fields v in
      if parts = [] \<or> 4 < length parts then False
      else list_all (\<lambda>p. match_string css_unsigned_length_pattern p \<or> p \<in> set border_widths) parts)"

fun border_loop :: "bool \<Rightarrow> bool \<Rightarrow> bool \<Rightarrow> bytes list \<Rightarrow> bool" where
  "border_loop seen_width seen_style seen_color [] = True"
| "border_loop seen_width seen_style seen_color (p # ps) =
     (if \<not> seen_width \<and> (match_string css_unsigned_length_pattern p \<or> p \<in> set border_widths)
      then border_loop True seen_style seen_color ps
      else if \<not> seen_style \<and> p \<in> set border_styles then border_loop seen_width True seen_color ps
      else if \<not> seen_color \<and> match_string css_color_pattern p then border_loop seen_width seen_style True ps
      else False)"

definition safe_border :: "bytes \<Rightarrow> bool" where
  "safe_border v =
     (let parts = string_fields v in
      if parts = [] \<or> 3 < length parts then False else border_loop False False False parts)"

section \<open>The switch on the property\<close>

definition sides :: "bytes \<Rightarrow> bytes \<Rightarrow> bytes list" where
  "sides p s = map (\<lambda>side. p @ side @ s) [''-top'', ''-right'', ''-bottom'', ''-left'']"

definition css_rule :: "(bytes \<Rightarrow> bool) \<Rightarrow> bytes \<Rightarrow> bytes \<Rightarrow> bool" where
  "css_rule parse_float property v =
     (let nonneg = match_string css_unsigned_length_pattern v in
      if property \<in> set ([''color'', ''background'', ''background-color'', ''text-decoration-color'', ''border-color'']
           @ sides ''border'' ''-color'')
      then match_string css_color_pattern v
      else if property = ''font-family'' then match_string css_font_family_pattern v
      else if property = ''font-size''
      then nonneg \<or> v \<in> set [''xx-small'', ''x-small'', ''small'', ''medium'', ''large'', ''x-large'', ''xx-large'', ''smaller'', ''larger'']
      else if property = ''font-style'' then v \<in> set [''normal'', ''italic'', ''oblique'']
      else if property = ''font-weight''
      then v \<in> set [''normal'', ''bold'', ''bolder'', ''lighter'', ''100'', ''200'', ''300'', ''400'', ''500'', ''600'', ''700'', ''800'', ''900'']
      else if property = ''line-height''
      then (if v = ''normal'' \<or> nonneg then True else parse_float v \<and> \<not> has_prefix v ''-'')
      else if property = ''text-align'' then v \<in> set [''left'', ''right'', ''center'', ''justify'', ''start'', ''end'']
      else if property = ''text-decoration'' then keywords_only v [''none'', ''underline'', ''overline'', ''line-through'']
      else if property = ''text-decoration-style'' then v \<in> set [''solid'', ''double'', ''dotted'', ''dashed'', ''wavy'']
      else if property = ''text-transform'' then v \<in> set [''none'', ''capitalize'', ''uppercase'', ''lowercase'']
      else if property \<in> set [''letter-spacing'', ''word-spacing''] then v = ''normal'' \<or> match_string css_length_pattern v
      else if property = ''white-space''
      then v \<in> set [''normal'', ''nowrap'', ''pre'', ''pre-wrap'', ''pre-line'', ''break-spaces'']
      else if property = ''vertical-align''
      then match_string css_length_pattern v
        \<or> v \<in> set [''baseline'', ''sub'', ''super'', ''text-top'', ''text-bottom'', ''middle'', ''top'', ''bottom'']
      else if property = ''direction'' then v = ''ltr'' \<or> v = ''rtl''
      else if property = ''display''
      then v \<in> set [''none'', ''block'', ''inline'', ''inline-block'', ''table'', ''inline-table'', ''table-row'', ''table-cell'',
             ''table-header-group'', ''table-footer-group'', ''table-row-group'', ''list-item'']
      else if property \<in> set [''float'', ''clear''] then v \<in> set [''none'', ''left'', ''right'', ''both'']
      else if property = ''position'' then v = ''static'' \<or> v = ''relative''
      else if property = ''box-sizing'' then v = ''content-box'' \<or> v = ''border-box''
      else if property \<in> set [''width'', ''min-width'', ''height'', ''min-height''] then nonneg
      else if property \<in> set [''max-width'', ''max-height''] then v = ''none'' \<or> nonneg
      else if property \<in> set (''margin'' # sides ''margin'' []) then length_list v False 4
      else if property \<in> set (''padding'' # sides ''padding'' [] @ [''border-radius'', ''border-spacing''])
      then length_list v True 4
      else if property \<in> set (''border'' # sides ''border'' []) then safe_border v
      else if property \<in> set (''border-width'' # sides ''border'' ''-width'') then border_width_list v
      else if property \<in> set (''border-style'' # sides ''border'' ''-style'') then keywords_only v border_styles
      else if property = ''border-collapse'' then v = ''collapse'' \<or> v = ''separate''
      else if property = ''table-layout'' then v = ''auto'' \<or> v = ''fixed''
      else if property = ''list-style-type''
      then v \<in> set [''none'', ''disc'', ''circle'', ''square'', ''decimal'', ''decimal-leading-zero'', ''lower-roman'', ''upper-roman'',
             ''lower-alpha'', ''upper-alpha'']
      else if property = ''overflow-wrap'' then v \<in> set [''normal'', ''break-word'', ''anywhere'']
      else if property = ''word-break'' then v \<in> set [''normal'', ''break-all'', ''keep-all'', ''break-word'']
      else False)"

definition css_primitives :: "bytes list" where
  "css_primitives = [''url('', ''image-set('', ''expression('', ''behavior'', ''binding'', ''import'', ''font-face'', ''src('', ''var('',
     ''javascript:'', ''data:'']"

definition normalized_css :: "unicode \<Rightarrow> bytes \<Rightarrow> bytes" where
  "normalized_css u v = trim_space (to_lower u v)"

definition safe_email_css_value :: "unicode \<Rightarrow> (bytes \<Rightarrow> bool) \<Rightarrow> bytes \<Rightarrow> bytes \<Rightarrow> bool" where
  "safe_email_css_value u parse_float property v =
     (let v = normalized_css u v in
      if v = [] \<or> 256 < length v \<or> contains_any ([BSLASH] @ ''/@;{}<>'') v then False
      else
        (let compact = filter (\<lambda>c. c \<notin> {CHR '' '', TAB, CR, LF}) v in
         if list_ex (contains compact) css_primitives then False else css_rule parse_float property v))"

section \<open>Harmless values\<close>

text \<open>What a value can hold that opens no function, and the names of the functions a value can call.\<close>

definition plain_ranges :: ranges where
  "plain_ranges = letters_ci @ digits @ chars_of (''#.,%+-_ '' @ [CHR 0x27, DQUOTE])"

definition css_plain :: "rune list \<Rightarrow> bool" where
  "css_plain = list_all (\<lambda>r. in_ranges plain_ranges r \<or> is_space r)"

definition css_function :: re where
  "css_function = Re_Alt (Re_Cat (re_lit_ci ''rgb'') (re_opt (re_lit_ci ''a''))) (Re_Cat (re_lit_ci ''hsl'') (re_opt (re_lit_ci ''a'')))"

definition css_harmless :: "rune list \<Rightarrow> bool" where
  "css_harmless v \<longleftrightarrow>
     list_all (\<lambda>r. in_ranges (plain_ranges @ chars_of ''()'') r \<or> is_space r) v
     \<and> (\<forall>a b. v = a @ byte (CHR ''('') # b \<longrightarrow> (\<exists>c f. a = c @ f \<and> re_match css_function f))"

lemma ranges_mono: "ranges_within rs rs' \<Longrightarrow> list_all (in_ranges rs) w \<Longrightarrow> list_all (in_ranges rs') w"
  by (auto simp: list_all_iff dest: ranges_withinD)

lemma paren_not_plain: "\<not> in_ranges plain_ranges (byte (CHR ''(''))" "\<not> is_space (byte (CHR ''(''))"
  by (simp_all add: plain_ranges_def in_ranges_def letters_ci_def digits_def chars_of_def byte_def is_space_def)

lemma css_plain_harmless: "css_plain v \<Longrightarrow> css_harmless v"
  unfolding css_harmless_def css_plain_def using paren_not_plain by (auto simp: list_all_iff)

lemma pattern_plain:
  "match_string r v \<Longrightarrow> (\<And>c. in_ranges (re_ranges r) c \<Longrightarrow> in_ranges plain_ranges c) \<Longrightarrow> css_harmless (runes v)"
  unfolding match_string_def re_match_lang
  by (intro css_plain_harmless) (auto simp: css_plain_def list_all_iff dest: re_lang_ranges)

lemma ranges_of_constructs:
  "re_ranges (re_some r) = re_ranges r @ re_ranges r" "re_ranges (re_opt r) = re_ranges r"
  "re_ranges (re_char c) = [(byte c, byte c)]"
  by (simp_all add: re_some_def re_opt_def re_char_def)

lemmas range_eval = ranges_within_def plain_ranges_def letters_ci_def digits_def chars_of_def hex_ci_def color_args_def
  fold_ranges_def byte_def re_some_def re_opt_def re_char_def

lemma length_patterns_plain:
  "ranges_within (re_ranges css_length_pattern) plain_ranges"
  "ranges_within (re_ranges css_unsigned_length_pattern) plain_ranges"
  by (simp_all add: range_eval css_length_pattern_def css_unsigned_length_pattern_def css_number_def css_unit_def Let_def)

lemma font_family_plain: "in_ranges (re_ranges css_font_family_pattern) c \<Longrightarrow> in_ranges plain_ranges c"
proof -
  let ?r = "letters_ci @ digits @ chars_of ('' ,.'' @ [CHR 0x27, DQUOTE] @ ''_-'')"
  have "ranges_within ?r plain_ranges" by (simp add: range_eval)
  moreover assume "in_ranges (re_ranges css_font_family_pattern) c"
  then have "in_ranges ?r c"
    unfolding css_font_family_pattern_def by (auto dest!: re_ranges_upto)
  ultimately show ?thesis by (rule ranges_withinD)
qed

lemma length_harmless:
  "match_string css_length_pattern v \<Longrightarrow> css_harmless (runes v)"
  "match_string css_unsigned_length_pattern v \<Longrightarrow> css_harmless (runes v)"
  using length_patterns_plain by (auto intro: pattern_plain ranges_withinD)

lemma font_family_harmless: "match_string css_font_family_pattern v \<Longrightarrow> css_harmless (runes v)"
  by (rule pattern_plain) (auto intro: font_family_plain)

text \<open>A colour: only its function opens a parenthesis.\<close>

lemma color_function_harmless:
  assumes "re_lang (re_cats [f, g, re_char (CHR ''(''), re_some (Re_Chars color_args), re_char (CHR '')'')]) w"
    and "\<And>n. re_lang (Re_Cat f g) n \<Longrightarrow> re_lang css_function n"
    and "ranges_within (re_ranges (Re_Cat f g)) plain_ranges"
  shows "css_harmless w"
proof -
  from assms(1) obtain n m where w: "w = n @ byte (CHR ''('') # m @ [byte (CHR '')'')]"
    and n: "re_lang (Re_Cat f g) n" and m: "re_lang (re_some (Re_Chars color_args)) m"
    by (auto simp: re_lang_cat re_char_def in_ranges_def) (metis append_assoc)
  have "ranges_within (re_ranges (re_some (Re_Chars color_args))) plain_ranges" by (simp add: range_eval)
  with m assms(3) n have plain: "list_all (in_ranges plain_ranges) n" "list_all (in_ranges plain_ranges) m"
    unfolding list_all_iff using re_lang_ranges ranges_withinD by blast+
  have "a = n" if "w = a @ byte (CHR ''('') # b" for a b
  proof -
    have "byte (CHR ''('') \<notin> set n" "byte (CHR ''('') \<notin> set (m @ [byte (CHR '')'')])"
      using plain paren_not_plain by (auto simp: list_all_iff)
    with that w show ?thesis by (simp add: append_Cons_eq_iff)
  qed
  moreover have "list_all (\<lambda>r. in_ranges (plain_ranges @ chars_of ''()'') r \<or> is_space r) w"
    using plain unfolding w by (auto simp: list_all_iff chars_of_def in_ranges_def)
  ultimately show ?thesis
    unfolding css_harmless_def using assms(2) [OF n] by (metis append_Nil re_match_lang)
qed

lemma color_harmless: "match_string css_color_pattern v \<Longrightarrow> css_harmless (runes v)"
proof -
  assume "match_string css_color_pattern v"
  then have v: "re_lang css_color_pattern (runes v)" by (simp add: match_string_def re_match_lang)
  let ?args = "[re_opt (re_lit_ci ''a''), re_char (CHR ''(''), re_some (Re_Chars color_args), re_char (CHR '')'')]"
  let ?words = "re_alts [re_lit_ci ''transparent'', re_lit_ci ''currentcolor'',
    Re_Cat (re_char (CHR ''#'')) (re_repeat 3 5 (Re_Chars hex_ci)), re_repeat 1 31 (Re_Chars letters_ci)]"
  from v consider "re_lang ?words (runes v)" | "re_lang (re_cats (re_lit_ci ''rgb'' # ?args)) (runes v)"
    | "re_lang (re_cats (re_lit_ci ''hsl'' # ?args)) (runes v)"
    unfolding css_color_pattern_def by (simp del: re_cats.simps re_lit_ci.simps) blast
  then show ?thesis
  proof cases
    case 1
    have plain: "ranges_within (re_ranges (re_lit_ci ''transparent'')) plain_ranges"
      "ranges_within (re_ranges (re_lit_ci ''currentcolor'')) plain_ranges"
      "ranges_within (re_ranges (re_char (CHR ''#''))) plain_ranges"
      "ranges_within hex_ci plain_ranges" "ranges_within letters_ci plain_ranges"
      by (simp_all add: range_eval)
    show ?thesis
    proof (rule pattern_plain)
      show "match_string ?words v" using 1 by (simp add: match_string_def re_match_lang)
      fix c assume "in_ranges (re_ranges ?words) c"
      then consider "in_ranges (re_ranges (re_lit_ci ''transparent'')) c"
        | "in_ranges (re_ranges (re_lit_ci ''currentcolor'')) c" | "in_ranges (re_ranges (re_char (CHR ''#''))) c"
        | "in_ranges (re_ranges (re_repeat 3 5 (Re_Chars hex_ci))) c"
        | "in_ranges (re_ranges (re_repeat 1 31 (Re_Chars letters_ci))) c"
        unfolding re_alts.simps re_ranges.simps(2,3) in_ranges_append by blast
      then show "in_ranges plain_ranges c"
      proof cases
        case 4
        from re_ranges_repeat [OF this] show ?thesis by (simp add: ranges_withinD [OF plain(4)])
      next
        case 5
        from re_ranges_repeat [OF this] show ?thesis by (simp add: ranges_withinD [OF plain(5)])
      qed (fact plain(1-3) [THEN ranges_withinD])+
    qed
  next
    case 2
    show ?thesis
      by (rule color_function_harmless [OF 2]) (simp_all add: css_function_def range_eval)
  next
    case 3
    show ?thesis
      by (rule color_function_harmless [OF 3]) (simp_all add: css_function_def range_eval)
  qed
qed

lemma fields_harmless:
  assumes "list_all (\<lambda>w. css_harmless (runes w)) (string_fields v)"
  shows "css_harmless (runes v)"
proof -
  have "in_ranges (plain_ranges @ chars_of ''()'') r" if "r \<in> set (runes v)" "\<not> is_space r" for r
  proof -
    from that(1) obtain a b where "runes v = a @ r # b" by (meson split_list)
    from rune_in_field [OF this that(2)] obtain w where "w \<in> set (string_fields v)" "r \<in> set (runes w)" by auto
    with assms that(2) show ?thesis by (auto simp: list_all_iff css_harmless_def)
  qed
  moreover have "\<exists>c f. a = c @ f \<and> re_match css_function f" if "runes v = a @ byte (CHR ''('') # b" for a b
  proof -
    from rune_in_field [OF that paren_not_plain(2)] obtain w a1 a2 b1 where
      w: "w \<in> set (string_fields v)" "a = a1 @ a2" "runes w = a2 @ byte (CHR ''('') # b1" by blast
    with assms obtain c f where "a2 = c @ f" "re_match css_function f"
      by (auto simp: list_all_iff css_harmless_def) blast
    with w(2) show ?thesis by (intro exI [of _ "a1 @ c"] exI [of _ f]) auto
  qed
  ultimately show ?thesis unfolding css_harmless_def list_all_iff by blast
qed

text \<open>Keywords.\<close>

definition keyword :: "bytes \<Rightarrow> bool" where
  "keyword w \<longleftrightarrow> list_all (\<lambda>c. byte c < 128 \<and> in_ranges plain_ranges (byte c)) w"

lemma keyword_harmless: "keyword w \<Longrightarrow> css_harmless (runes w)"
  by (rule css_plain_harmless) (auto simp: keyword_def css_plain_def list_all_iff ascii_def runes_ascii)

lemma keywords_harmless: "list_all keyword ws \<Longrightarrow> v \<in> set ws \<Longrightarrow> css_harmless (runes v)"
  by (auto simp: list_all_iff intro: keyword_harmless)

lemma keywords_only_harmless: "keywords_only v ws \<Longrightarrow> list_all keyword ws \<Longrightarrow> css_harmless (runes v)"
  by (rule fields_harmless)
    (auto simp: keywords_only_def Let_def list_all_iff intro: keyword_harmless split: if_splits)

lemma length_list_harmless: "length_list v b n \<Longrightarrow> css_harmless (runes v)"
  by (rule fields_harmless)
    (auto simp: length_list_def Let_def list_all_iff intro: length_harmless split: if_splits)

lemma border_words: "list_all keyword border_widths" "list_all keyword border_styles"
  by (simp_all add: border_widths_def border_styles_def keyword_def range_eval in_ranges_def)

lemma border_width_list_harmless: "border_width_list v \<Longrightarrow> css_harmless (runes v)"
  by (rule fields_harmless)
    (auto simp: border_width_list_def Let_def list_all_iff
      intro: length_harmless keywords_harmless [OF border_words(1)] split: if_splits)

lemma border_loop_harmless: "border_loop a b c ps \<Longrightarrow> list_all (\<lambda>w. css_harmless (runes w)) ps"
proof (induction a b c ps rule: border_loop.induct)
  case (2 a b c p ps)
  note part = length_harmless(2) [of p] keywords_harmless [OF border_words(1), of p]
    keywords_harmless [OF border_words(2), of p] color_harmless [of p]
  consider "\<not> a \<and> (match_string css_unsigned_length_pattern p \<or> p \<in> set border_widths)"
    | "\<not> (\<not> a \<and> (match_string css_unsigned_length_pattern p \<or> p \<in> set border_widths))"
      "\<not> b \<and> p \<in> set border_styles"
    | "\<not> (\<not> a \<and> (match_string css_unsigned_length_pattern p \<or> p \<in> set border_widths))"
      "\<not> (\<not> b \<and> p \<in> set border_styles)" "\<not> c \<and> match_string css_color_pattern p"
    using 2(4) by (fastforce simp del: match_string_def split: if_splits)
  then show ?case
  proof cases
    case 1
    then show ?thesis using 2(1) 2(4) part by auto
  next
    case 2
    then show ?thesis using "2.IH"(2) "2.prems" part by auto
  next
    case 3
    then show ?thesis using "2.IH"(3) "2.prems" part by auto
  qed
qed simp

lemma safe_border_harmless: "safe_border v \<Longrightarrow> css_harmless (runes v)"
  by (rule fields_harmless) (auto simp: safe_border_def Let_def intro: border_loop_harmless split: if_splits)

section \<open>Every accepted value is harmless\<close>

lemma keyword_lists:
  "list_all keyword [''xx-small'', ''x-small'', ''small'', ''medium'', ''large'', ''x-large'', ''xx-large'', ''smaller'', ''larger'']"
  "list_all keyword [''normal'', ''italic'', ''oblique'']"
  "list_all keyword [''normal'', ''bold'', ''bolder'', ''lighter'', ''100'', ''200'', ''300'', ''400'', ''500'', ''600'', ''700'', ''800'', ''900'']"
  "list_all keyword [''left'', ''right'', ''center'', ''justify'', ''start'', ''end'']"
  "list_all keyword [''none'', ''underline'', ''overline'', ''line-through'']"
  "list_all keyword [''solid'', ''double'', ''dotted'', ''dashed'', ''wavy'']"
  "list_all keyword [''none'', ''capitalize'', ''uppercase'', ''lowercase'']"
  "list_all keyword [''normal'', ''nowrap'', ''pre'', ''pre-wrap'', ''pre-line'', ''break-spaces'']"
  "list_all keyword [''baseline'', ''sub'', ''super'', ''text-top'', ''text-bottom'', ''middle'', ''top'', ''bottom'']"
  "list_all keyword [''none'', ''block'', ''inline'', ''inline-block'', ''table'', ''inline-table'', ''table-row'', ''table-cell'',
     ''table-header-group'', ''table-footer-group'', ''table-row-group'', ''list-item'']"
  "list_all keyword [''none'', ''left'', ''right'', ''both'']"
  "list_all keyword [''none'', ''disc'', ''circle'', ''square'', ''decimal'', ''decimal-leading-zero'', ''lower-roman'', ''upper-roman'',
     ''lower-alpha'', ''upper-alpha'']"
  "list_all keyword [''normal'', ''break-word'', ''anywhere'']"
  "list_all keyword [''normal'', ''break-all'', ''keep-all'', ''break-word'']"
  by (simp_all add: keyword_def range_eval in_ranges_def)

lemma keyword_words:
  "keyword ''normal''" "keyword ''ltr''" "keyword ''rtl''" "keyword ''static''" "keyword ''relative''" "keyword ''content-box''"
  "keyword ''border-box''" "keyword ''none''" "keyword ''collapse''" "keyword ''separate''" "keyword ''auto''" "keyword ''fixed''"
  by (simp_all add: keyword_def range_eval in_ranges_def)

lemma word_harmless: "keyword w \<Longrightarrow> v = w \<Longrightarrow> css_harmless (runes v)"
  by (simp add: keyword_harmless)

lemma if_chainE: "(if c then a else b) \<Longrightarrow> (c \<Longrightarrow> a \<Longrightarrow> P) \<Longrightarrow> (\<not> c \<Longrightarrow> b \<Longrightarrow> P) \<Longrightarrow> P"
  by (simp split: if_splits)

lemma css_rule_harmless:
  assumes "\<And>s. parse_float s \<Longrightarrow> css_plain (runes s)" and "css_rule parse_float property v"
  shows "css_harmless (runes v)"
proof -
  note words = keyword_lists [THEN keywords_harmless] keyword_words [THEN word_harmless]
    keywords_only_harmless [OF _ border_words(2)] keywords_only_harmless [OF _ keyword_lists(5)]
  note other = color_harmless font_family_harmless length_harmless length_list_harmless safe_border_harmless
    border_width_list_harmless css_plain_harmless [OF assms(1)]
  show ?thesis
    using assms(2) unfolding css_rule_def Let_def
    by - (elim if_chainE conjE disjE FalseE; (erule words | erule other))
qed

text \<open>
  C34. Every style declaration that is let through is harmless, for every property and every text of
  the sender: the value in lower case has only letters, digits, white space and a few signs; a
  parenthesis opens only the argument of a colour function; no byte ends the declaration, starts a
  comment, an escape or an at-rule; the value is bounded.  (\<open>ParseFloat\<close> is assumed to accept only numerals:
  digits, letters, signs, dots and underscores.)
\<close>

theorem css_value_is_harmless:
  assumes "\<And>s. parse_float s \<Longrightarrow> css_plain (runes s)" and "safe_email_css_value u parse_float property v"
  shows "css_harmless (runes (normalized_css u v)) \<and> length (normalized_css u v) \<le> 256
    \<and> \<not> contains_any ([BSLASH] @ ''/@;{}<>'') (normalized_css u v)"
proof -
  from assms(2) have "css_rule parse_float property (normalized_css u v)" "length (normalized_css u v) \<le> 256"
    "\<not> contains_any ([BSLASH] @ ''/@;{}<>'') (normalized_css u v)"
    unfolding safe_email_css_value_def Let_def by (auto simp del: append_Cons append_Nil split: if_splits)
  with css_rule_harmless [OF assms(1)] show ?thesis by blast
qed

definition only_half :: "bytes \<Rightarrow> bool" where
  "only_half s \<longleftrightarrow> s = ''0.5''"

theorem css_value_is_harmless_witness:
  "css_harmless (runes (normalized_css plain_unicode ''1.5EM''))"
proof (rule css_value_is_harmless [of only_half _ "''width''", THEN conjunct1])
  show "css_plain (runes s)" if "only_half s" for s
  proof -
    have "keyword s" using that by (simp add: only_half_def keyword_def range_eval in_ranges_def)
    then show ?thesis
      by (auto simp: keyword_def css_plain_def list_all_iff ascii_def runes_ascii)
  qed
  have norm: "normalized_css plain_unicode ''1.5EM'' = ''1.5em''"
    by (simp add: normalized_css_def ascii_eval trim_space_id graphic_def)
  have "runes ''1.5em'' = map byte ''1.5em''" by (rule runes_ascii) (simp add: ascii_def byte_def)
  then have "match_string css_unsigned_length_pattern ''1.5em''"
    by (simp add: match_string_def css_unsigned_length_pattern_def css_number_def css_unit_def range_eval in_ranges_def
        Let_def)
  then show "safe_email_css_value plain_unicode only_half ''width'' ''1.5EM''"
    by (simp add: safe_email_css_value_def norm contains_any_def css_primitives_def search_eval css_rule_def sides_def)
qed

end
