(* ===== verification/Inspect_Svg.thy ===== *)
theory Inspect_Svg
  imports Go_Regexp
begin

text \<open>
  \<open>internal/inspect/svg.go\<close>: the sanitizer of SVG attachments and embedded images.

  Package \<open>encoding/xml\<close> is the standard library.  What its decoder yields is the list of tokens up to the
  end of the input or an error.  Of its encoder the sanitizer uses \<open>EncodeToken\<close>: it keeps the names of the
  open elements and refuses an end that is not that of the innermost one; the text that a list of
  tokens is written as is a parameter where it matters.
\<close>

section \<open>Tokens\<close>

record xml_name =
  xn_space :: bytes
  xn_local :: bytes

record xml_attr =
  xa_name :: xml_name
  xa_value :: bytes

datatype xml_token =
    Xml_Start xml_name "xml_attr list"
  | Xml_End xml_name
  | Xml_Text bytes
  | Xml_Comment bytes
  | Xml_Proc bytes bytes
  | Xml_Directive bytes

definition local_name :: "bytes \<Rightarrow> xml_name" where
  "local_name n = \<lparr>xn_space = [], xn_local = n\<rparr>"

record xml_encoder =
  enc_open :: "xml_name list"
  enc_out :: "xml_token list"

definition encode_token :: "xml_token \<Rightarrow> xml_encoder \<Rightarrow> xml_encoder option" where
  "encode_token t e =
     (case t of
        Xml_Start n as \<Rightarrow>
          if xn_local n = [] then None else Some \<lparr>enc_open = n # enc_open e, enc_out = enc_out e @ [t]\<rparr>
      | Xml_End n \<Rightarrow>
          (case enc_open e of
             [] \<Rightarrow> None
           | m # ms \<Rightarrow> if xn_local n = [] \<or> m \<noteq> n then None else Some \<lparr>enc_open = ms, enc_out = enc_out e @ [t]\<rparr>)
      | _ \<Rightarrow> Some (e\<lparr>enc_out := enc_out e @ [t]\<rparr>))"

section \<open>What is allowed\<close>

definition svg_namespace :: bytes where
  "svg_namespace = ''http://www.w3.org/2000/svg''"

definition xlink_namespace :: bytes where
  "xlink_namespace = ''http://www.w3.org/1999/xlink''"

definition svg_elements :: "bytes list" where
  "svg_elements =
     [''svg'', ''g'', ''defs'', ''symbol'', ''use'', ''path'', ''rect'', ''circle'', ''ellipse'', ''line'',
      ''polyline'', ''polygon'', ''text'', ''tspan'', ''textPath'', ''title'', ''desc'', ''clipPath'', ''mask'',
      ''pattern'', ''linearGradient'', ''radialGradient'', ''stop'', ''marker'', ''filter'', ''feBlend'',
      ''feColorMatrix'', ''feComponentTransfer'', ''feComposite'', ''feConvolveMatrix'', ''feDiffuseLighting'',
      ''feDisplacementMap'', ''feDistantLight'', ''feDropShadow'', ''feFlood'', ''feFuncA'', ''feFuncB'',
      ''feFuncG'', ''feFuncR'', ''feGaussianBlur'', ''feMerge'', ''feMergeNode'', ''feMorphology'', ''feOffset'',
      ''fePointLight'', ''feSpecularLighting'', ''feSpotLight'', ''feTile'', ''feTurbulence'']"

definition svg_attributes :: "bytes list" where
  "svg_attributes =
     [''id'', ''class'', ''lang'', ''dir'', ''tabindex'', ''focusable'', ''role'', ''aria-label'',
      ''aria-labelledby'', ''aria-describedby'', ''x'', ''y'', ''x1'', ''y1'', ''x2'', ''y2'', ''cx'', ''cy'',
      ''r'', ''rx'', ''ry'', ''width'', ''height'', ''viewBox'', ''preserveAspectRatio'', ''d'', ''pathLength'',
      ''points'', ''transform'', ''gradientTransform'', ''patternTransform'', ''markerWidth'', ''markerHeight'',
      ''markerUnits'', ''refX'', ''refY'', ''orient'', ''patternUnits'', ''patternContentUnits'',
      ''gradientUnits'', ''spreadMethod'', ''offset'', ''fill'', ''fill-opacity'', ''fill-rule'', ''stroke'',
      ''stroke-width'', ''stroke-opacity'', ''stroke-linecap'', ''stroke-linejoin'', ''stroke-miterlimit'',
      ''stroke-dasharray'', ''stroke-dashoffset'', ''opacity'', ''color'', ''color-interpolation'',
      ''color-interpolation-filters'', ''color-rendering'', ''shape-rendering'', ''text-rendering'',
      ''image-rendering'', ''visibility'', ''display'', ''overflow'', ''clip'', ''clip-path'', ''clip-rule'',
      ''mask'', ''filter'', ''marker-start'', ''marker-mid'', ''marker-end'', ''font-family'', ''font-size'',
      ''font-style'', ''font-weight'', ''text-anchor'', ''dominant-baseline'', ''alignment-baseline'',
      ''baseline-shift'', ''letter-spacing'', ''word-spacing'', ''text-decoration'', ''paint-order'',
      ''vector-effect'', ''stop-color'', ''stop-opacity'', ''flood-color'', ''flood-opacity'', ''lighting-color'',
      ''unicode-bidi'', ''writing-mode'', ''direction'', ''href'', ''result'', ''in'', ''in2'', ''mode'', ''type'',
      ''values'', ''operator'', ''k1'', ''k2'', ''k3'', ''k4'', ''order'', ''kernelMatrix'', ''divisor'', ''bias'',
      ''targetX'', ''targetY'', ''edgeMode'', ''kernelUnitLength'', ''preserveAlpha'', ''scale'',
      ''xChannelSelector'', ''yChannelSelector'', ''stdDeviation'', ''radius'', ''baseFrequency'', ''numOctaves'',
      ''seed'', ''stitchTiles'', ''surfaceScale'', ''diffuseConstant'', ''specularConstant'', ''specularExponent'',
      ''limitingConeAngle'', ''azimuth'', ''elevation'', ''pointsAtX'', ''pointsAtY'', ''pointsAtZ'', ''z'',
      ''dx'', ''dy'', ''rotate'', ''lengthAdjust'', ''textLength'']"

definition re_quote :: re where
  "re_quote = re_opt (Re_Chars (chars_of [CHR 0x27, DQUOTE]))"

definition name_chars :: ranges where
  "name_chars = letters @ digits @ chars_of ''_.:-''"

definition svg_fragment_pattern :: re where
  "svg_fragment_pattern =
     re_cats [re_char (CHR ''#''), Re_Chars (letters @ chars_of ''_''), Re_Many (Re_Chars name_chars)]"

definition svg_fragment_url_pattern :: re where
  "svg_fragment_url_pattern =
     re_cats [re_lit_ci ''url'', re_char (CHR ''(''), Re_Many (Re_Chars re_space), re_quote, re_char (CHR ''#''),
       Re_Chars (letters_ci @ chars_of ''_''), Re_Many (Re_Chars (letters_ci @ digits @ chars_of ''_.:-'')), re_quote,
       Re_Many (Re_Chars re_space), re_char (CHR '')'')]"

text \<open>A word in double or in single quotes.\<close>

definition re_quoted :: "bytes list \<Rightarrow> re" where
  "re_quoted ws =
     re_alts (map (\<lambda>w. re_cats [re_char DQUOTE, re_lit w, re_char DQUOTE]) ws
       @ map (\<lambda>w. re_cats [re_char (CHR 0x27), re_lit w, re_char (CHR 0x27)]) ws)"

definition svg_xml_declaration_pattern :: re where
  "svg_xml_declaration_pattern =
     (let gap = Re_Many (Re_Chars re_space);
          equals = re_cats [gap, re_char (CHR ''=''), gap] in
      re_cats
        [gap, re_lit ''version'', equals, re_quoted [''1.0''],
         re_opt (re_cats [re_some (Re_Chars re_space), re_lit ''encoding'', equals, re_quoted [''UTF-8'', ''utf-8'']]),
         re_opt (re_cats [re_some (Re_Chars re_space), re_lit ''standalone'', equals, re_quoted [''yes'', ''no'']]),
         gap])"

definition safe_svg_element :: "xml_name \<Rightarrow> nat \<Rightarrow> bool \<Rightarrow> bool" where
  "safe_svg_element n depth seen_root =
     (if xn_space n \<noteq> [] \<and> xn_space n \<noteq> svg_namespace then False
      else if depth = 1 then \<not> seen_root \<and> xn_local n = ''svg''
      else xn_local n \<in> set svg_elements)"

section \<open>Attributes\<close>

definition sanitize_svg_attribute :: "unicode \<Rightarrow> xml_attr \<Rightarrow> xml_attr option" where
  "sanitize_svg_attribute u a =
     (let name = xn_local (xa_name a); lower_name = to_lower u name in
      if has_prefix lower_name ''on'' \<or> lower_name = ''style'' \<or> name \<notin> set svg_attributes then None
      else if xn_space (xa_name a) \<noteq> [] \<and> (xn_space (xa_name a) \<noteq> xlink_namespace \<or> name \<noteq> ''href'') then None
      else
        (let v = trim_space (xa_value a) in
         if v = [] \<or> contains_any [NUL, CR, LF, BSLASH] v \<or> contains v ''/*'' \<or> contains v ''*/'' then None
         else if name = ''href'' \<and> \<not> match_string svg_fragment_pattern v then None
         else if contains (to_lower u v) ''url('' \<and> \<not> match_string svg_fragment_url_pattern v then None
         else Some \<lparr>xa_name = local_name name, xa_value = v\<rparr>))"

definition sanitize_svg_attributes :: "unicode \<Rightarrow> xml_attr list \<Rightarrow> xml_attr list" where
  "sanitize_svg_attributes u as = List.map_filter (sanitize_svg_attribute u) as"

section \<open>The loop over the tokens\<close>

datatype 'e svg_err =
    Svg_Parse 'e
  | Svg_Directive
  | Svg_Proc
  | Svg_Root
  | Svg_Closing
  | Svg_Encode
  | Svg_Incomplete

record svg_state =
  sv_depth :: nat
  sv_dropped :: nat
  sv_seen_root :: bool
  sv_closed_root :: bool
  sv_encoder :: xml_encoder

definition new_svg_state :: svg_state where
  "new_svg_state = \<lparr>sv_depth = 0, sv_dropped = 0, sv_seen_root = False, sv_closed_root = False,
     sv_encoder = \<lparr>enc_open = [], enc_out = []\<rparr>\<rparr>"

definition xmlns_attr :: xml_attr where
  "xmlns_attr = \<lparr>xa_name = local_name ''xmlns'', xa_value = svg_namespace\<rparr>"

definition svg_start :: "unicode \<Rightarrow> xml_name \<Rightarrow> xml_attr list \<Rightarrow> svg_state \<Rightarrow> 'e svg_err + svg_state" where
  "svg_start u n as st =
     (let st = st\<lparr>sv_depth := Suc (sv_depth st)\<rparr> in
      if sv_dropped st \<noteq> 0 then Inr st
      else if sv_closed_root st \<or> \<not> safe_svg_element n (sv_depth st) (sv_seen_root st)
      then (if sv_depth st = 1 then Inl Svg_Root else Inr (st\<lparr>sv_dropped := sv_depth st\<rparr>))
      else
        (let root = (sv_depth st = 1);
             as = (if root then sanitize_svg_attributes u as @ [xmlns_attr] else sanitize_svg_attributes u as);
             st = (if root then st\<lparr>sv_seen_root := True\<rparr> else st) in
         case encode_token (Xml_Start (local_name (xn_local n)) as) (sv_encoder st) of
           None \<Rightarrow> Inl Svg_Encode
         | Some e \<Rightarrow> Inr (st\<lparr>sv_encoder := e\<rparr>)))"

definition svg_end :: "xml_name \<Rightarrow> svg_state \<Rightarrow> 'e svg_err + svg_state" where
  "svg_end n st =
     (if sv_dropped st \<noteq> 0
      then Inr (st\<lparr>sv_dropped := (if sv_depth st = sv_dropped st then 0 else sv_dropped st), sv_depth := sv_depth st - 1\<rparr>)
      else if sv_depth st = 0 then Inl Svg_Closing
      else
        (case encode_token (Xml_End (local_name (xn_local n))) (sv_encoder st) of
           None \<Rightarrow> Inl Svg_Encode
         | Some e \<Rightarrow>
             Inr (st\<lparr>sv_encoder := e, sv_depth := sv_depth st - 1,
               sv_closed_root := (sv_depth st - 1 = 0 \<or> sv_closed_root st)\<rparr>)))"

definition svg_step :: "unicode \<Rightarrow> xml_token \<Rightarrow> svg_state \<Rightarrow> 'e svg_err + svg_state" where
  "svg_step u t st =
     (case t of
        Xml_Directive d \<Rightarrow> Inl Svg_Directive
      | Xml_Proc target inst \<Rightarrow>
          if target \<noteq> ''xml'' \<or> sv_seen_root st \<or> sv_closed_root st \<or> sv_depth st \<noteq> 0
            \<or> \<not> match_string svg_xml_declaration_pattern inst
          then Inl Svg_Proc else Inr st
      | Xml_Start n as \<Rightarrow> svg_start u n as st
      | Xml_End n \<Rightarrow> svg_end n st
      | Xml_Text s \<Rightarrow>
          if sv_dropped st = 0 \<and> 0 < sv_depth st then
            (case encode_token (Xml_Text s) (sv_encoder st) of
               None \<Rightarrow> Inl Svg_Encode
             | Some e \<Rightarrow> Inr (st\<lparr>sv_encoder := e\<rparr>))
          else Inr st
      | Xml_Comment c \<Rightarrow> Inr st)"

fun svg_loop :: "unicode \<Rightarrow> xml_token list \<Rightarrow> 'e option \<Rightarrow> svg_state \<Rightarrow> 'e svg_err + svg_state" where
  "svg_loop u [] None st = Inr st"
| "svg_loop u [] (Some e) st = Inl (Svg_Parse e)"
| "svg_loop u (t # ts) end_err st = (case svg_step u t st of Inl e \<Rightarrow> Inl e | Inr st' \<Rightarrow> svg_loop u ts end_err st')"

text \<open>The tokens of the document that is written.\<close>

definition sanitize_svg_tokens :: "unicode \<Rightarrow> xml_token list \<times> 'e option \<Rightarrow> 'e svg_err + xml_token list" where
  "sanitize_svg_tokens u input =
     (case svg_loop u (fst input) (snd input) new_svg_state of
        Inl e \<Rightarrow> Inl e
      | Inr st \<Rightarrow>
          if \<not> sv_seen_root st \<or> \<not> sv_closed_root st \<or> sv_depth st \<noteq> 0 then Inl Svg_Incomplete
          else Inr (enc_out (sv_encoder st)))"

text \<open>The decoder and the writing of tokens.\<close>

record 'e xml_lib =
  xl_decode :: "bytes \<Rightarrow> xml_token list \<times> 'e option"
  xl_render :: "xml_token list \<Rightarrow> bytes"

definition sanitize_svg :: "unicode \<Rightarrow> 'e xml_lib \<Rightarrow> bytes \<Rightarrow> 'e svg_err + bytes" where
  "sanitize_svg u xl raw =
     (case sanitize_svg_tokens u (xl_decode xl raw) of Inl e \<Rightarrow> Inl e | Inr ts \<Rightarrow> Inr (xl_render xl ts))"

section \<open>The shape of what is written\<close>

text \<open>An attribute that cannot run a script, leave the document or hide what it says.\<close>

definition static_attribute :: "unicode \<Rightarrow> xml_attr \<Rightarrow> bool" where
  "static_attribute u a \<longleftrightarrow>
     xn_space (xa_name a) = [] \<and> xn_local (xa_name a) \<in> set svg_attributes
     \<and> \<not> has_prefix (to_lower u (xn_local (xa_name a))) ''on'' \<and> xa_value a \<noteq> []
     \<and> \<not> contains_any [NUL, CR, LF, BSLASH] (xa_value a) \<and> \<not> contains (xa_value a) ''/*'' \<and> \<not> contains (xa_value a) ''*/''
     \<and> (xn_local (xa_name a) \<noteq> ''href'' \<or> match_string svg_fragment_pattern (xa_value a))
     \<and> (contains (to_lower u (xa_value a)) ''url('' \<longrightarrow> match_string svg_fragment_url_pattern (xa_value a))"

lemma sanitized_attribute: "sanitize_svg_attribute u a = Some b \<Longrightarrow> static_attribute u b"
  by (auto simp: sanitize_svg_attribute_def static_attribute_def Let_def local_name_def split: if_splits)

lemma sanitized_attributes: "list_all (static_attribute u) (sanitize_svg_attributes u as)"
  by (auto simp: sanitize_svg_attributes_def list_all_iff map_filter_def sanitized_attribute)

text \<open>Text and elements, each closed by its own end.\<close>

inductive svg_content :: "unicode \<Rightarrow> xml_token list \<Rightarrow> bool" for u where
  content_nil: "svg_content u []"
| content_text: "svg_content u ts \<Longrightarrow> svg_content u (Xml_Text s # ts)"
| content_element: "n \<in> set svg_elements \<Longrightarrow> list_all (static_attribute u) as \<Longrightarrow> svg_content u inner \<Longrightarrow> svg_content u ts \<Longrightarrow>
     svg_content u (Xml_Start (local_name n) as # inner @ Xml_End (local_name n) # ts)"

lemma svg_content_append: "svg_content u a \<Longrightarrow> svg_content u b \<Longrightarrow> svg_content u (a @ b)"
  by (induction a rule: svg_content.induct) (auto intro: svg_content.intros)

lemma svg_content_text: "svg_content u ts \<Longrightarrow> svg_content u (ts @ [Xml_Text s])"
  by (auto intro: svg_content_append svg_content.intros)

lemma svg_content_close:
  assumes "svg_content u ts" "n \<in> set svg_elements" "list_all (static_attribute u) as" "svg_content u inner"
  shows "svg_content u (ts @ Xml_Start (local_name n) as # inner @ [Xml_End (local_name n)])"
  using svg_content_append [OF assms(1) content_element [OF assms(2-4) content_nil]] by simp

text \<open>What has been written while the elements of the list are open, the innermost first.\<close>

inductive svg_open :: "unicode \<Rightarrow> xml_name list \<Rightarrow> xml_token list \<Rightarrow> bool" for u where
  open_root: "list_all (static_attribute u) as \<Longrightarrow> svg_content u inner \<Longrightarrow>
     svg_open u [local_name ''svg''] (Xml_Start (local_name ''svg'') (as @ [xmlns_attr]) # inner)"
| open_more: "svg_open u ms ts \<Longrightarrow> n \<in> set svg_elements \<Longrightarrow> list_all (static_attribute u) as \<Longrightarrow> svg_content u inner \<Longrightarrow>
     svg_open u (local_name n # ms) (ts @ Xml_Start (local_name n) as # inner)"

inductive_simps svg_open_Cons: "svg_open u (m # ms) ts"

inductive_simps svg_open_Nil [simp]: "svg_open u [] ts"

lemma svg_open_content: "svg_open u ms ts \<Longrightarrow> svg_content u c \<Longrightarrow> svg_open u ms (ts @ c)"
  by (induction ms ts rule: svg_open.induct) (auto intro: svg_open.intros svg_content_append)

definition svg_document :: "unicode \<Rightarrow> xml_token list \<Rightarrow> bool" where
  "svg_document u ts \<longleftrightarrow>
     (\<exists>as inner. ts = Xml_Start (local_name ''svg'') (as @ [xmlns_attr]) # inner @ [Xml_End (local_name ''svg'')]
        \<and> list_all (static_attribute u) as \<and> svg_content u inner)"

lemma svg_open_close:
  assumes "svg_open u (m # ms) ts"
  shows "if ms = [] then svg_document u (ts @ [Xml_End m]) else svg_open u ms (ts @ [Xml_End m])"
proof -
  from assms consider (root) xs inner where "ms = []" "m = local_name ''svg''"
      "ts = Xml_Start m (xs @ [xmlns_attr]) # inner" "list_all (static_attribute u) xs" "svg_content u inner"
    | (more) ts' n xs inner where "m = local_name n" "ts = ts' @ Xml_Start m xs # inner" "svg_open u ms ts'"
      "n \<in> set svg_elements" "list_all (static_attribute u) xs" "svg_content u inner"
    by (auto simp: svg_open_Cons)
  then show ?thesis
  proof cases
    case root
    then show ?thesis by (auto simp: svg_document_def)
  next
    case more
    then have "ms \<noteq> []" by auto
    moreover have "svg_content u (Xml_Start m xs # inner @ [Xml_End m])"
      using svg_content_close [OF content_nil more(4-6)] more(1) by simp
    ultimately show ?thesis using svg_open_content [OF more(3)] more(2) by fastforce
  qed
qed

section \<open>The invariant of the loop\<close>

definition svg_inv :: "unicode \<Rightarrow> svg_state \<Rightarrow> bool" where
  "svg_inv u st \<longleftrightarrow>
     (let ms = enc_open (sv_encoder st); out = enc_out (sv_encoder st) in
      (if sv_dropped st = 0 then sv_depth st = length ms else sv_dropped st = Suc (length ms) \<and> sv_dropped st \<le> sv_depth st \<and> ms \<noteq> [])
      \<and> (sv_closed_root st \<longleftrightarrow> sv_seen_root st \<and> ms = [])
      \<and> (if \<not> sv_seen_root st then ms = [] \<and> out = []
         else if ms = [] then svg_document u out else svg_open u ms out))"

lemma svg_inv_new: "svg_inv u new_svg_state"
  by (simp add: svg_inv_def new_svg_state_def)

lemma svg_inv_start:
  assumes inv: "svg_inv u st" and step: "svg_start u n as st = Inr st'"
  shows "svg_inv u st'"
proof -
  let ?ms = "enc_open (sv_encoder st)" and ?out = "enc_out (sv_encoder st)"
  consider (inside) "sv_dropped st \<noteq> 0" "st' = st\<lparr>sv_depth := Suc (sv_depth st)\<rparr>"
    | (drop) "sv_dropped st = 0" "sv_depth st \<noteq> 0" "st' = st\<lparr>sv_depth := Suc (sv_depth st), sv_dropped := Suc (sv_depth st)\<rparr>"
    | (root) "sv_dropped st = 0" "sv_depth st = 0" "\<not> sv_seen_root st" "xn_local n = ''svg''"
      "st' = st\<lparr>sv_depth := 1, sv_seen_root := True, sv_encoder := \<lparr>enc_open = local_name ''svg'' # ?ms,
         enc_out = ?out @ [Xml_Start (local_name ''svg'') (sanitize_svg_attributes u as @ [xmlns_attr])]\<rparr>\<rparr>"
    | (more) "sv_dropped st = 0" "sv_depth st \<noteq> 0" "xn_local n \<in> set svg_elements"
      "st' = st\<lparr>sv_depth := Suc (sv_depth st), sv_encoder := \<lparr>enc_open = local_name (xn_local n) # ?ms,
         enc_out = ?out @ [Xml_Start (local_name (xn_local n)) (sanitize_svg_attributes u as)]\<rparr>\<rparr>"
    using step by (auto simp: svg_start_def Let_def encode_token_def safe_svg_element_def split: if_splits)
  then show ?thesis
  proof cases
    case root
    then have "?ms = []" "?out = []" using inv by (auto simp: svg_inv_def Let_def)
    then show ?thesis
      using root inv open_root [OF sanitized_attributes [of u as] content_nil] by (simp add: svg_inv_def)
  next
    case more
    then have "?ms \<noteq> []" "sv_seen_root st" "svg_open u ?ms ?out" "sv_depth st = length ?ms"
      using inv by (auto simp: svg_inv_def Let_def split: if_splits)
    then show ?thesis
      using more inv open_more [OF _ more(3) sanitized_attributes [of u as] content_nil] by (auto simp: svg_inv_def Let_def)
  qed (use inv in \<open>auto simp: svg_inv_def Let_def split: if_splits\<close>)
qed

lemma svg_inv_end:
  assumes inv: "svg_inv u st" and step: "svg_end n st = Inr st'"
  shows "svg_inv u st'"
proof -
  let ?ms = "enc_open (sv_encoder st)" and ?out = "enc_out (sv_encoder st)" and ?m = "local_name (xn_local n)"
  consider (inside) "sv_dropped st \<noteq> 0"
      "st' = st\<lparr>sv_dropped := (if sv_depth st = sv_dropped st then 0 else sv_dropped st), sv_depth := sv_depth st - 1\<rparr>"
    | (finish) ms where "sv_dropped st = 0" "?ms = ?m # ms"
      "st' = st\<lparr>sv_encoder := \<lparr>enc_open = ms, enc_out = ?out @ [Xml_End ?m]\<rparr>, sv_depth := sv_depth st - 1,
         sv_closed_root := (sv_depth st - 1 = 0 \<or> sv_closed_root st)\<rparr>"
    using step by (auto simp: svg_end_def encode_token_def split: if_splits option.splits list.splits)
  then show ?thesis
  proof cases
    case inside
    have "enc_open (sv_encoder st') = ?ms" "enc_out (sv_encoder st') = ?out" "sv_seen_root st' = sv_seen_root st"
      "sv_closed_root st' = sv_closed_root st"
      using inside(2) by simp_all
    with inv inside show ?thesis by (auto simp: svg_inv_def Let_def split: if_splits)
  next
    case finish
    with inv have "sv_seen_root st" "svg_open u (?m # ms) ?out" "sv_depth st = Suc (length ms)" "\<not> sv_closed_root st"
      by (auto simp: svg_inv_def Let_def split: if_splits)
    with finish svg_open_close [OF this(2)] show ?thesis by (cases ms) (simp_all add: svg_inv_def)
  qed
qed

lemma svg_inv_step:
  assumes inv: "svg_inv u st" and step: "svg_step u t st = (Inr st' :: 'e svg_err + svg_state)"
  shows "svg_inv u st'"
proof -
  consider (start) n xs where "svg_start u n xs st = (Inr st' :: 'e svg_err + svg_state)"
    | (finish) n where "svg_end n st = (Inr st' :: 'e svg_err + svg_state)"
    | (same) "st' = st"
    | (chars) s where "sv_dropped st = 0" "sv_depth st \<noteq> 0"
      "st' = st\<lparr>sv_encoder := (sv_encoder st)\<lparr>enc_out := enc_out (sv_encoder st) @ [Xml_Text s]\<rparr>\<rparr>"
  proof (cases t)
    case (Xml_Start n xs)
    with step show ?thesis by (intro that(1) [of n xs]) (simp add: svg_step_def)
  next
    case (Xml_End n)
    with step show ?thesis by (intro that(2) [of n]) (simp add: svg_step_def)
  next
    case (Xml_Text s)
    with step show ?thesis
      by (cases "sv_dropped st = 0 \<and> 0 < sv_depth st")
        (auto intro: that(3) that(4) [of s] simp: svg_step_def encode_token_def)
  next
    case (Xml_Proc target inst)
    have same: "(if b then Inl Svg_Proc else Inr st) = (Inr st' :: 'e svg_err + svg_state) \<Longrightarrow> st' = st" for b
      by (simp split: if_splits)
    from step have "st' = st" unfolding Xml_Proc svg_step_def xml_token.case by (rule same)
    then show ?thesis by (rule that(3))
  next
    case (Xml_Comment c)
    with step have "st' = st" by (simp add: svg_step_def)
    then show ?thesis by (rule that(3))
  next
    case (Xml_Directive d)
    with step show ?thesis by (simp add: svg_step_def)
  qed
  then show ?thesis
  proof cases
    case start
    with inv show ?thesis by (rule svg_inv_start)
  next
    case finish
    with inv show ?thesis by (rule svg_inv_end)
  next
    case same
    with inv show ?thesis by simp
  next
    case chars
    with inv have "svg_open u (enc_open (sv_encoder st)) (enc_out (sv_encoder st))" "enc_open (sv_encoder st) \<noteq> []"
      "sv_seen_root st"
      by (auto simp: svg_inv_def Let_def split: if_splits)
    with inv chars svg_open_content [OF this(1) content_text [OF content_nil]] show ?thesis
      by (simp add: svg_inv_def Let_def)
  qed
qed

lemma svg_inv_loop: "svg_loop u ts end_err st = Inr st' \<Longrightarrow> svg_inv u st \<Longrightarrow> svg_inv u st'"
  by (induction u ts end_err st rule: svg_loop.induct) (auto split: sum.splits dest: svg_inv_step)

section \<open>The output is a static document\<close>

lemma sanitized_document:
  assumes "sanitize_svg_tokens u input = Inr out"
  shows "svg_document u out"
proof -
  from assms obtain st where st: "svg_loop u (fst input) (snd input) new_svg_state = Inr st"
    "sv_seen_root st" "sv_closed_root st" "out = enc_out (sv_encoder st)"
    by (auto simp: sanitize_svg_tokens_def split: sum.splits if_splits)
  from svg_inv_loop [OF st(1) svg_inv_new] st(2-4) show ?thesis by (simp add: svg_inv_def Let_def)
qed

text \<open>
  C22. Whatever tokens an attachment has, the document that the sanitizer writes is one \<open>svg\<close> element in
  the SVG namespace that contains text and properly nested elements of the list of drawing elements
  only; every attribute is on the list, is no event handler and no style, and names nothing but a
  fragment of the document itself; whatever is open is closed, and nothing stands outside the root.
\<close>

theorem svg_output_is_static:
  assumes "sanitize_svg_tokens u input = Inr out"
  shows "svg_document u out"
  using assms by (rule sanitized_document)

definition sample_svg :: "xml_token list" where
  "sample_svg =
     [Xml_Comment ''x'', Xml_Start \<lparr>xn_space = svg_namespace, xn_local = ''svg''\<rparr> [],
      Xml_Start \<lparr>xn_space = svg_namespace, xn_local = ''script''\<rparr> [], Xml_Text ''alert(1)'',
      Xml_End \<lparr>xn_space = svg_namespace, xn_local = ''script''\<rparr>,
      Xml_Start \<lparr>xn_space = svg_namespace, xn_local = ''g''\<rparr> [\<lparr>xa_name = local_name ''onload'', xa_value = ''x''\<rparr>,
        \<lparr>xa_name = local_name ''id'', xa_value = ''a''\<rparr>],
      Xml_End \<lparr>xn_space = svg_namespace, xn_local = ''g''\<rparr>, Xml_End \<lparr>xn_space = svg_namespace, xn_local = ''svg''\<rparr>]"

lemmas svg_eval = svg_step_def svg_start_def svg_end_def encode_token_def safe_svg_element_def svg_elements_def
  sanitize_svg_attributes_def sanitize_svg_attribute_def svg_attributes_def map_filter_simps local_name_def

lemma sample_svg_output:
  "sanitize_svg_tokens plain_unicode (sample_svg, None :: unit option)
     = Inr [Xml_Start (local_name ''svg'') [xmlns_attr],
         Xml_Start (local_name ''g'') [\<lparr>xa_name = local_name ''id'', xa_value = ''a''\<rparr>], Xml_End (local_name ''g''),
         Xml_End (local_name ''svg'')]"
  by (simp add: sanitize_svg_tokens_def sample_svg_def new_svg_state_def svg_eval Let_def ascii_eval search_eval
      trim_space_id graphic_def contains_any_def)

theorem svg_output_is_static_witness:
  "svg_document plain_unicode [Xml_Start (local_name ''svg'') [xmlns_attr],
     Xml_Start (local_name ''g'') [\<lparr>xa_name = local_name ''id'', xa_value = ''a''\<rparr>], Xml_End (local_name ''g''),
     Xml_End (local_name ''svg'')]"
  by (rule svg_output_is_static [OF sample_svg_output])

text \<open>
  A document that gives a reference both ways, as is common for older viewers, is written with the
  attribute \<open>href\<close> twice, which XML does not allow.
\<close>

lemma href_twice:
  "sanitize_svg_attributes plain_unicode
     [\<lparr>xa_name = \<lparr>xn_space = xlink_namespace, xn_local = ''href''\<rparr>, xa_value = ''#a''\<rparr>,
      \<lparr>xa_name = local_name ''href'', xa_value = ''#a''\<rparr>]
   = [\<lparr>xa_name = local_name ''href'', xa_value = ''#a''\<rparr>, \<lparr>xa_name = local_name ''href'', xa_value = ''#a''\<rparr>]"
proof -
  have "match_string svg_fragment_pattern ''#a''"
    using runes_ascii [of "''#a''"]
    by (simp add: match_string_def svg_fragment_pattern_def re_char_def letters_def name_chars_def digits_def chars_of_def
        in_ranges_def ascii_def byte_def del: runes.simps)
  then show ?thesis
    by (simp add: svg_eval Let_def ascii_eval search_eval trim_space_id graphic_def contains_any_def)
qed

end
