(* ===== verification/Inspect_Data_Image.thy ===== *)
theory Inspect_Data_Image
  imports Inspect_Svg Go_Base64
begin

text \<open>
  \<open>internal/inspect/data_image.go\<close>: images that a message carries in a data URL.
\<close>

definition max_embedded_data_image_bytes :: nat where
  "max_embedded_data_image_bytes = 26214400"

definition png_magic :: bytes where
  "png_magic = [CHR 0x89] @ ''PNG'' @ [CR, LF, CHR 0x1A, LF]"

text \<open>The first bytes of a raster image of the type.\<close>

definition raster_magic :: "bytes \<Rightarrow> bytes \<Rightarrow> bool" where
  "raster_magic content_type b \<longleftrightarrow>
     (if content_type = ''image/png'' then has_prefix b png_magic
      else if content_type = ''image/jpeg'' then has_prefix b [CHR 0xFF, CHR 0xD8, CHR 0xFF]
      else if content_type = ''image/gif'' then has_prefix b ''GIF87a'' \<or> has_prefix b ''GIF89a''
      else if content_type = ''image/webp''
      then 12 \<le> length b \<and> take 4 b = ''RIFF'' \<and> take 4 (drop 8 b) = ''WEBP''
      else False)"

definition safe_image :: "unicode \<Rightarrow> 'e xml_lib \<Rightarrow> bytes \<Rightarrow> bytes \<Rightarrow> bytes option" where
  "safe_image u xl content_type decoded =
     (if content_type = ''image/svg+xml''
      then (case sanitize_svg u xl decoded of Inl e \<Rightarrow> None | Inr b \<Rightarrow> Some b)
      else if raster_magic content_type decoded then Some decoded
      else None)"

definition data_url :: "bytes \<Rightarrow> bytes \<Rightarrow> bytes" where
  "data_url content_type b = ''data:'' @ content_type @ '';base64,'' @ b64_encode b"

definition sanitize_embedded_image_data_url :: "unicode \<Rightarrow> 'e xml_lib \<Rightarrow> bytes \<Rightarrow> bytes option" where
  "sanitize_embedded_image_data_url u xl source =
     (if length source < 6 \<or> \<not> equal_fold u (take 5 source) ''data:'' then None
      else
        (case index_byte (\<lambda>c. c = CHR '','') source of
           None \<Rightarrow> None
         | Some comma \<Rightarrow>
             (case split_byte (CHR '';'') (drop 5 (take comma source)) of
                [media, coding] \<Rightarrow>
                  if \<not> equal_fold u (trim_space coding) ''base64'' then None
                  else
                    (let content_type = to_lower u (trim_space media);
                         content_type = (if content_type = ''image/jpg'' then ''image/jpeg'' else content_type);
                         encoded = drop (Suc comma) source in
                     if encoded = [] \<or> max_embedded_data_image_bytes < b64_decoded_len (length encoded) then None
                     else
                       (case b64_decode True encoded of
                          None \<Rightarrow> None
                        | Some decoded \<Rightarrow> map_option (data_url content_type) (safe_image u xl content_type decoded)))
              | _ \<Rightarrow> None)))"

definition embedded_types :: "bytes list" where
  "embedded_types = [''image/png'', ''image/jpeg'', ''image/gif'', ''image/webp'', ''image/svg+xml'']"

fun normalized_loop :: "bytes list \<Rightarrow> bytes \<Rightarrow> bool" where
  "normalized_loop [] opaque_part = False"
| "normalized_loop (p # ps) opaque_part =
     (if has_prefix opaque_part p then length p < length opaque_part else normalized_loop ps opaque_part)"

definition is_normalized_embedded_image :: "bytes \<Rightarrow> bool" where
  "is_normalized_embedded_image opaque_part = normalized_loop (map (\<lambda>t. t @ '';base64,'') embedded_types) opaque_part"

section \<open>What comes out\<close>

lemma has_prefix_append [simp]: "has_prefix (p @ s) p"
  by (simp add: has_prefix_def)

lemma raster_types: "raster_magic t b \<Longrightarrow> t \<in> set embedded_types \<and> t \<noteq> ''image/svg+xml'' \<and> b \<noteq> []"
  by (auto simp: raster_magic_def embedded_types_def has_prefix_def png_magic_def split: if_splits)

lemma normalized_types:
  "t \<in> set embedded_types \<Longrightarrow> is_normalized_embedded_image (t @ '';base64,'' @ b64_encode b) \<longleftrightarrow> b \<noteq> []"
  unfolding embedded_types_def is_normalized_embedded_image_def by (auto simp: has_prefix_def)

lemma sanitize_embedded_SomeD:
  assumes "sanitize_embedded_image_data_url u xl source = Some out"
  obtains t encoded decoded b where "out = data_url t b" "b64_decode True encoded = Some decoded"
    "safe_image u xl t decoded = Some b" "b64_decoded_len (length encoded) \<le> max_embedded_data_image_bytes"
  using assms unfolding sanitize_embedded_image_data_url_def Let_def
  by (auto split: if_splits option.splits list.splits)

lemma index_comma:
  "t \<in> set embedded_types \<Longrightarrow> index_byte (\<lambda>c. c = CHR '','') (data_url t b) = Some (length t + 12)"
  unfolding embedded_types_def by (auto simp: data_url_def)

lemma metadata_parts:
  "t \<in> set embedded_types \<Longrightarrow> split_byte (CHR '';'') (drop 5 (take (length t + 12) (data_url t b))) = [t, ''base64'']"
  unfolding embedded_types_def by (auto simp: data_url_def)

lemma type_normal: "t \<in> set embedded_types \<Longrightarrow> to_lower u (trim_space t) = t \<and> t \<noteq> ''image/jpg''"
  unfolding embedded_types_def by (auto simp: ascii_eval trim_space_id graphic_def)

lemma sanitize_data_url:
  assumes "t \<in> set embedded_types" and "b \<noteq> []" and "b64_decoded_len (length (b64_encode b)) \<le> max_embedded_data_image_bytes"
  shows "sanitize_embedded_image_data_url u xl (data_url t b) = map_option (data_url t) (safe_image u xl t b)"
proof -
  have "take 5 (data_url t b) = ''data:''" "\<not> length (data_url t b) < 6" by (simp_all add: data_url_def)
  moreover have "drop (Suc (length t + 12)) (data_url t b) = b64_encode b"
  proof -
    have url: "data_url t b = (''data:'' @ t @ '';base64,'') @ b64_encode b" by (simp add: data_url_def)
    have "length (''data:'' @ t @ '';base64,'') = Suc (length t + 12)" by simp
    then show ?thesis unfolding url by (metis append_eq_conv_conj)
  qed
  moreover have "trim_space ''base64'' = ''base64''" by (simp add: trim_space_id graphic_def byte_def)
  ultimately show ?thesis
    using assms(2,3) type_normal [OF assms(1)]
    by (simp add: sanitize_embedded_image_data_url_def index_comma [OF assms(1)] metadata_parts [OF assms(1)] Let_def
        b64_decode_encode not_less)
qed

lemma b64_length_strict: "b64_decode True e = Some b \<Longrightarrow> length (b64_encode b) \<le> length e"
  using b64_strict_canonical [of e b] by (metis length_filter_le no_breaks_def)

text \<open>
  C31. What an embedded image becomes: a data URL of one of five image types whose payload is the
  canonical encoding of some bytes, from which a strict decoder gets them back.  For the raster types
  these are the bytes of the message and they begin as that type begins, so that nothing else
  is passed off as an image; and sanitizing the result again changes nothing.  For SVG they are
  a static document.  The URL is recognised by the check of the final pass unless the payload is empty.
\<close>

theorem embedded_image_roundtrip:
  assumes "sanitize_embedded_image_data_url u xl source = Some out"
  shows "\<exists>t b. t \<in> set embedded_types \<and> out = ''data:'' @ t @ '';base64,'' @ b64_encode b
    \<and> b64_decode True (b64_encode b) = Some b
    \<and> (if t = ''image/svg+xml'' then \<exists>ts. svg_document u ts \<and> b = xl_render xl ts
       else raster_magic t b \<and> sanitize_embedded_image_data_url u xl out = Some out)
    \<and> (is_normalized_embedded_image (drop 5 out) \<longleftrightarrow> b \<noteq> [])"
proof -
  from assms obtain t encoded decoded b where out: "out = data_url t b" and decode: "b64_decode True encoded = Some decoded"
    and safe: "safe_image u xl t decoded = Some b"
    and small: "b64_decoded_len (length encoded) \<le> max_embedded_data_image_bytes"
    by (rule sanitize_embedded_SomeD)
  have kind: "t \<in> set embedded_types \<and>
      (if t = ''image/svg+xml'' then \<exists>ts. svg_document u ts \<and> b = xl_render xl ts else raster_magic t b \<and> b = decoded)"
  proof (cases "t = ''image/svg+xml''")
    case True
    from safe True obtain ts where "sanitize_svg_tokens u (xl_decode xl decoded) = Inr ts" "b = xl_render xl ts"
      by (auto simp: safe_image_def sanitize_svg_def split: sum.splits)
    with True show ?thesis by (auto simp: embedded_types_def dest: sanitized_document)
  next
    case False
    with safe show ?thesis by (auto simp: safe_image_def dest: raster_types split: if_splits)
  qed
  have again: "sanitize_embedded_image_data_url u xl out = Some out" if "t \<noteq> ''image/svg+xml''"
  proof -
    from kind that have b: "raster_magic t b" "b = decoded" by auto
    then have "b64_decoded_len (length (b64_encode b)) \<le> b64_decoded_len (length encoded)"
      unfolding b64_decoded_len_def using b64_length_strict [OF decode] by (simp add: div_le_mono)
    with small kind raster_types [OF b(1)] safe b(2) show ?thesis
      unfolding out by (subst sanitize_data_url) simp_all
  qed
  have "drop 5 out = t @ '';base64,'' @ b64_encode b" by (simp add: out data_url_def)
  then have "is_normalized_embedded_image (drop 5 out) \<longleftrightarrow> b \<noteq> []" using normalized_types kind by metis
  with kind again show ?thesis
    by - (rule exI [of _ t], rule exI [of _ b], auto simp: out data_url_def b64_decode_encode)
qed

definition sample_xml :: "unit xml_lib" where
  "sample_xml = \<lparr>xl_decode = (\<lambda>s. ([], None)), xl_render = (\<lambda>ts. [])\<rparr>"

lemma sample_gif:
  "sanitize_embedded_image_data_url plain_unicode sample_xml ''DATA:image/GIF; base64,R0lGODlh''
     = Some ''data:image/gif;base64,R0lGODlh''"
proof -
  have trim: "trim_space '' base64'' = ''base64''"
  proof -
    have "trim_left '' base64'' = ''base64''"
      by (subst trim_left_space, simp_all add: decode_rune_ascii is_space_def byte_def)
        (rule trim_left_stop, simp add: decode_rune_ascii is_space_def byte_def)
    then show ?thesis
      using trim_space_id [of "''base64''"] by (simp add: trim_space_def graphic_def byte_def trim_left_stop
          decode_rune_ascii is_space_def)
  qed
  have "runes ''DATA:'' = map byte ''DATA:''" "runes ''data:'' = map byte ''data:''"
    by (simp_all add: runes_ascii ascii_def byte_def del: runes.simps)
  then have fold: "equal_fold plain_unicode ''DATA:'' ''data:''"
    by (simp add: equal_fold_def fold_rune_def byte_def del: runes.simps)
  show ?thesis
    by (simp add: sanitize_embedded_image_data_url_def trim fold ascii_eval trim_space_id graphic_def Let_def b64_decoded_len_def max_embedded_data_image_bytes_def b64_decode_def no_breaks_def
        b64_val_def b64_alphabet_def pad_def safe_image_def raster_magic_def has_prefix_def data_url_def b64_char_def)
qed

theorem embedded_image_roundtrip_witness:
  "\<exists>t b. t \<in> set embedded_types \<and> ''data:image/gif;base64,R0lGODlh'' = ''data:'' @ t @ '';base64,'' @ b64_encode b"
  using embedded_image_roundtrip [OF sample_gif] by blast

end
