(* ===== verification/Inspect_Sanitize.thy ===== *)
theory Inspect_Sanitize
  imports Inspect_Css Inspect_Data_Image Go_Mime
begin

text \<open>
  \<open>internal/inspect/inspect.go\<close>: rewriting the HTML of a message before the final allow-list.

  The tokenizer \<open>golang.org/x/net/html\<close>, the policy engine \<open>bluemonday\<close> and \<open>net/url\<close> are parameters:
  a tokenizer is a state from which \<open>Next\<close> yields a token and a state, or an end; the engine is a
  function of the policy that the code builds and of the text.  The slice \<open>open\<close> of the code is
  shortened and extended again over the same array, so it is modelled with its array.
\<close>

section \<open>Tokens, URLs and slices\<close>

datatype token_type = Text_Token | Start_Tag | End_Tag | Self_Closing_Tag | Comment_Token | Doctype_Token

record html_attr =
  ha_key :: bytes
  ha_val :: bytes

record html_token =
  ht_type :: token_type
  ht_data :: bytes
  ht_attr :: "html_attr list"

text \<open>What \<open>url.Parse\<close> yields and what its method \<open>String\<close> returns.\<close>

record url =
  ur_scheme :: bytes
  ur_opaque :: bytes
  ur_host :: bytes
  ur_path :: bytes
  ur_raw_query :: bytes
  ur_fragment :: bytes
  ur_text :: bytes

record 'a slice =
  sl_array :: "'a list"
  sl_len :: nat

definition nil_slice :: "'a slice" where
  "nil_slice = \<lparr>sl_array = [], sl_len = 0\<rparr>"

definition elements :: "'a slice \<Rightarrow> 'a list" where
  "elements s = take (sl_len s) (sl_array s)"

text \<open>\<open>s[:n]\<close>; \<open>None\<close> is the panic when \<open>n\<close> exceeds the capacity.\<close>

definition slice_to :: "nat \<Rightarrow> 'a slice \<Rightarrow> 'a slice option" where
  "slice_to n s = (if n \<le> length (sl_array s) then Some (s\<lparr>sl_len := n\<rparr>) else None)"

text \<open>\<open>append(s, x)\<close>: \<open>grow n\<close> is the capacity the runtime chooses when \<open>n\<close> elements fill the array.\<close>

definition slice_append :: "(nat \<Rightarrow> nat) \<Rightarrow> 'a \<Rightarrow> 'a \<Rightarrow> 'a slice \<Rightarrow> 'a slice" where
  "slice_append grow zero x s =
     (let n = sl_len s in
      if n < length (sl_array s) then \<lparr>sl_array = (sl_array s)[n := x], sl_len = Suc n\<rparr>
      else \<lparr>sl_array = sl_array s @ x # replicate (grow n - Suc n) zero, sl_len = Suc n\<rparr>)"

record ('t, 'e, 'x) html_lib =
  hl_unicode :: unicode
  hl_new :: "bytes \<Rightarrow> 't"
  hl_next :: "'t \<Rightarrow> 'e option + (html_token \<times> 't)"
  hl_not_raw :: "'t \<Rightarrow> 't"
  hl_string :: "html_token \<Rightarrow> bytes"
  hl_parse_url :: "bytes \<Rightarrow> url option"
  hl_parse_float :: "bytes \<Rightarrow> bool"
  hl_grow :: "nat \<Rightarrow> nat"
  hl_xml :: "'x xml_lib"

section \<open>Kinds of elements\<close>

definition active_content_elements :: "bytes list" where
  "active_content_elements =
     [''applet'', ''embed'', ''form'', ''iframe'', ''math'', ''noembed'', ''noframes'', ''object'', ''plaintext'', ''script'',
      ''style'', ''svg'', ''template'', ''textarea'', ''title'', ''xmp'']"

definition is_active_content_element :: "bytes \<Rightarrow> bool" where
  "is_active_content_element n \<longleftrightarrow> n \<in> set active_content_elements"

definition is_raw_text_element :: "bytes \<Rightarrow> bool" where
  "is_raw_text_element n \<longleftrightarrow>
     n \<in> set [''iframe'', ''noembed'', ''noframes'', ''plaintext'', ''script'', ''style'', ''textarea'', ''title'', ''xmp'']"

definition is_active_recovery_element :: "bytes \<Rightarrow> bool" where
  "is_active_recovery_element n \<longleftrightarrow>
     n \<in> set [''address'', ''article'', ''aside'', ''blockquote'', ''center'', ''div'', ''dl'', ''footer'', ''h1'', ''h2'', ''h3'',
        ''h4'', ''h5'', ''h6'', ''header'', ''hr'', ''main'', ''nav'', ''ol'', ''p'', ''pre'', ''section'', ''table'', ''ul'']"

definition is_void_element :: "bytes \<Rightarrow> bool" where
  "is_void_element n \<longleftrightarrow>
     n \<in> set [''area'', ''base'', ''br'', ''col'', ''embed'', ''hr'', ''img'', ''input'', ''link'', ''meta'', ''param'', ''source'',
        ''track'', ''wbr'']"

text \<open>The index of the last element that has the property, as the loops from the end find it.\<close>

definition last_index :: "('a \<Rightarrow> bool) \<Rightarrow> 'a list \<Rightarrow> nat option" where
  "last_index P xs = (case filter (\<lambda>i. P (xs ! i)) [0..<length xs] of [] \<Rightarrow> None | is \<Rightarrow> Some (last is))"

definition last_element_index :: "bytes list \<Rightarrow> bytes \<Rightarrow> nat option" where
  "last_element_index es name = last_index (\<lambda>e. e = name) es"

lemma last_index_SomeD: "last_index P xs = Some i \<Longrightarrow> i < length xs \<and> P (xs ! i)"
proof -
  assume i: "last_index P xs = Some i"
  let ?is = "filter (\<lambda>i. P (xs ! i)) [0..<length xs]"
  from i have "?is \<noteq> []" "i = last ?is" by (auto simp: last_index_def split: list.splits)
  then have "i \<in> set ?is" by (metis last_in_set)
  then show ?thesis by simp
qed

section \<open>Dropping active content\<close>

record drop_state =
  ds_containers :: "(bytes \<times> nat) list"
  ds_open :: "bytes slice"
  ds_malformed :: bool

definition new_drop_state :: drop_state where
  "new_drop_state = \<lparr>ds_containers = [], ds_open = nil_slice, ds_malformed = False\<rparr>"

definition push_container :: "bytes \<Rightarrow> drop_state \<Rightarrow> drop_state" where
  "push_container name st = st\<lparr>ds_containers := ds_containers st @ [(name, sl_len (ds_open st))]\<rparr>"

definition container_index :: "drop_state \<Rightarrow> bytes \<Rightarrow> nat option" where
  "container_index st name = last_index (\<lambda>c. fst c = name) (ds_containers st)"

definition reset_drop :: "drop_state \<Rightarrow> drop_state" where
  "reset_drop st = st\<lparr>ds_containers := [], ds_open := (ds_open st)\<lparr>sl_len := 0\<rparr>, ds_malformed := False\<rparr>"

definition consume_start :: "(nat \<Rightarrow> nat) \<Rightarrow> token_type \<Rightarrow> bytes \<Rightarrow> drop_state \<Rightarrow> bool \<times> drop_state" where
  "consume_start grow kind name st =
     (if is_active_content_element name then
        (let st = st\<lparr>ds_malformed := True\<rparr> in
         (True, if kind = Start_Tag \<and> \<not> is_void_element name then push_container name st else st))
      else if ds_malformed st \<and> sl_len (ds_open st) = 0 \<and> is_active_recovery_element name then (False, reset_drop st)
      else
        (True,
         if kind = Start_Tag \<and> \<not> is_void_element name
         then st\<lparr>ds_open := slice_append grow [] name (ds_open st)\<rparr> else st))"

definition consume_end :: "bytes \<Rightarrow> bytes list \<Rightarrow> drop_state \<Rightarrow> (bool \<times> drop_state) option" where
  "consume_end name emitted st =
     (case last_element_index (elements (ds_open st)) name of
        Some i \<Rightarrow> map_option (\<lambda>s. (True, st\<lparr>ds_open := s\<rparr>)) (slice_to i (ds_open st))
      | None \<Rightarrow>
          (case container_index st name of
             Some i \<Rightarrow>
               (case slice_to (snd (ds_containers st ! i)) (ds_open st) of
                  None \<Rightarrow> None
                | Some s \<Rightarrow>
                    (let st = st\<lparr>ds_containers := take i (ds_containers st), ds_open := s\<rparr> in
                     Some (True, if ds_containers st = [] then reset_drop st else st)))
           | None \<Rightarrow>
               if last_element_index emitted name \<noteq> None then Some (False, reset_drop st) else Some (True, st)))"

text \<open>Whether the token is dropped, and the state; \<open>None\<close> is a panic.\<close>

definition drop_consume ::
  "(nat \<Rightarrow> nat) \<Rightarrow> token_type \<Rightarrow> bytes \<Rightarrow> bytes list \<Rightarrow> drop_state \<Rightarrow> (bool \<times> drop_state) option" where
  "drop_consume grow kind name emitted st =
     (if ds_containers st = [] then
        (if kind \<notin> {Start_Tag, Self_Closing_Tag} \<or> \<not> is_active_content_element name then Some (False, st)
         else Some (True, push_container name st))
      else
        (case kind of
           Start_Tag \<Rightarrow> Some (consume_start grow kind name st)
         | Self_Closing_Tag \<Rightarrow> Some (consume_start grow kind name st)
         | End_Tag \<Rightarrow> consume_end name emitted st
         | _ \<Rightarrow> Some (True, st)))"

definition update_open_elements :: "bytes list \<Rightarrow> token_type \<Rightarrow> bytes \<Rightarrow> bytes list" where
  "update_open_elements es kind name =
     (case kind of
        Start_Tag \<Rightarrow> if \<not> is_void_element name then es @ [name] else es
      | End_Tag \<Rightarrow> (case last_element_index es name of Some i \<Rightarrow> take i es | None \<Rightarrow> es)
      | _ \<Rightarrow> es)"

section \<open>Attributes\<close>

definition safe_anchor_url :: "unicode \<Rightarrow> (bytes \<Rightarrow> url option) \<Rightarrow> bytes \<Rightarrow> bytes option" where
  "safe_anchor_url u parse raw =
     (let raw = trim_space raw in
      if raw = [] \<or> contains_any [NUL, CR, LF, TAB] raw then None
      else
        (case parse raw of
           None \<Rightarrow> None
         | Some p \<Rightarrow>
             (let scheme = to_lower u (ur_scheme p) in
              if scheme = ''http'' \<or> scheme = ''https'' then (if ur_host p = [] then None else Some (ur_text p))
              else if scheme = ''mailto''
              then (if ur_opaque p = [] \<and> ur_path p = [] then None else Some (ur_text p))
              else None)))"

fun anchor_loop :: "unicode \<Rightarrow> html_attr list \<Rightarrow> bytes \<Rightarrow> html_attr list \<Rightarrow> bytes \<times> html_attr list" where
  "anchor_loop u [] href out = (href, out)"
| "anchor_loop u (a # as) href out =
     (let key = to_lower u (ha_key a) in
      if key = ''href'' then anchor_loop u as (if href = [] then ha_val a else href) out
      else if key = ''target'' \<or> key = ''rel'' then anchor_loop u as href out
      else anchor_loop u as href (out @ [a]))"

definition attribute :: "bytes \<Rightarrow> bytes \<Rightarrow> html_attr" where
  "attribute k v = \<lparr>ha_key = k, ha_val = v\<rparr>"

definition rewrite_anchor_attrs :: "unicode \<Rightarrow> (bytes \<Rightarrow> url option) \<Rightarrow> html_token \<Rightarrow> html_token" where
  "rewrite_anchor_attrs u parse t =
     (let (href, attrs) = anchor_loop u (ht_attr t) [] [] in
      t\<lparr>ht_attr :=
        (case safe_anchor_url u parse href of
           None \<Rightarrow> attrs
         | Some h \<Rightarrow> attrs @ [attribute ''href'' h, attribute ''target'' ''_blank'', attribute ''rel'' ''noopener noreferrer''])\<rparr>)"

definition normalize_cid :: "bytes \<Rightarrow> bytes" where
  "normalize_cid v =
     (let v = trim_space v in
      if 2 \<le> length v \<and> hd v = CHR ''<'' \<and> last v = CHR ''>'' then butlast (tl v) else v)"

fun first_attachment :: "(bytes \<times> int) list \<Rightarrow> bytes list \<Rightarrow> int option" where
  "first_attachment cids [] = None"
| "first_attachment cids (c # cs) =
     (case map_of cids c of
        Some i \<Rightarrow> if 0 < i then Some i else first_attachment cids cs
      | None \<Rightarrow> first_attachment cids cs)"

definition cid_attachment_id :: "unicode \<Rightarrow> bytes \<Rightarrow> (bytes \<times> int) list \<Rightarrow> int option" where
  "cid_attachment_id u source cids =
     (if length source < 4 \<or> \<not> equal_fold u (take 4 source) ''cid:'' then None
      else
        (case percent_unescape (drop 4 source) of
           None \<Rightarrow> None
         | Some decoded \<Rightarrow>
             first_attachment cids [normalize_cid decoded, decoded, normalize_cid (drop 4 source), drop 4 source]))"

fun image_loop :: "unicode \<Rightarrow> bool \<Rightarrow> html_attr list \<Rightarrow> bytes \<Rightarrow> html_attr list \<Rightarrow> bytes \<times> html_attr list" where
  "image_loop u enforce [] source out = (source, out)"
| "image_loop u enforce (a # as) source out =
     (let key = to_lower u (ha_key a) in
      if key = ''src'' then image_loop u enforce as (if source = [] then trim_space (ha_val a) else source) out
      else if key = ''srcset'' then image_loop u enforce as source (if \<not> enforce then out @ [a] else out)
      else image_loop u enforce as source (out @ [a]))"

definition attachment_path :: "int \<Rightarrow> bytes" where
  "attachment_path i = ''/api/attachments/'' @ itoa i"

definition attachment_url :: "int \<Rightarrow> bytes" where
  "attachment_url i = ''attachment:'' @ itoa i @ ''?inline=cid''"

definition rewrite_image_attrs ::
  "unicode \<Rightarrow> 'x xml_lib \<Rightarrow> (bytes \<times> int) list \<Rightarrow> bool \<Rightarrow> html_token \<Rightarrow> html_token" where
  "rewrite_image_attrs u xl cids enforce t =
     (let (source, attrs) = image_loop u enforce (ht_attr t) [] [] in
      t\<lparr>ht_attr :=
        (case cid_attachment_id u source cids of
           Some i \<Rightarrow> attrs @ [attribute ''src'' (if enforce then attachment_url i else attachment_path i)]
         | None \<Rightarrow>
             (case (enforce, sanitize_embedded_image_data_url u xl source) of
                (True, Some e) \<Rightarrow> attrs @ [attribute ''src'' (''embedded:'' @ trim_prefix e ''data:'')]
              | _ \<Rightarrow> if \<not> enforce \<and> source \<noteq> [] then attrs @ [attribute ''src'' source] else attrs))\<rparr>)"

section \<open>The loop\<close>

datatype 'e rewrite = Rewritten "html_token list" | Tokenizer_Error 'e | Panicked | Out_Of_Fuel

definition rewrite_token :: "('t, 'e, 'x) html_lib \<Rightarrow> (bytes \<times> int) list \<Rightarrow> bool \<Rightarrow> html_token \<Rightarrow> html_token" where
  "rewrite_token lib cids enforce t =
     (let u = hl_unicode lib; name = to_lower u (ht_data t) in
      if ht_type t \<in> {Start_Tag, Self_Closing_Tag} then
        (if name = ''a'' then (if enforce then rewrite_anchor_attrs u (hl_parse_url lib) t else t)
         else if name = ''img'' then rewrite_image_attrs u (hl_xml lib) cids enforce t
         else t)
      else t)"

fun rewrite_loop ::
  "('t, 'e, 'x) html_lib \<Rightarrow> (bytes \<times> int) list \<Rightarrow> bool \<Rightarrow> nat \<Rightarrow> 't \<Rightarrow> bytes list \<Rightarrow> drop_state \<Rightarrow> html_token list \<Rightarrow> 'e rewrite"
where
  "rewrite_loop lib cids enforce 0 tk emitted st out = Out_Of_Fuel"
| "rewrite_loop lib cids enforce (Suc fuel) tk emitted st out =
     (case hl_next lib tk of
        Inl None \<Rightarrow> Rewritten out
      | Inl (Some e) \<Rightarrow> Tokenizer_Error e
      | Inr (t, tk') \<Rightarrow>
          (let name = to_lower (hl_unicode lib) (ht_data t) in
           case (if enforce then drop_consume (hl_grow lib) (ht_type t) name emitted st else Some (False, st)) of
             None \<Rightarrow> Panicked
           | Some (True, st') \<Rightarrow>
               rewrite_loop lib cids enforce fuel
                 (if ht_type t = Start_Tag \<and> is_raw_text_element name then hl_not_raw lib tk' else tk') emitted st' out
           | Some (False, st') \<Rightarrow>
               rewrite_loop lib cids enforce fuel tk'
                 (if enforce then update_open_elements emitted (ht_type t) name else emitted) st'
                 (out @ [rewrite_token lib cids enforce t])))"

text \<open>The fuel is one more than the bytes of the text, of which every token takes at least one.\<close>

definition rewrite_email_urls :: "('t, 'e, 'x) html_lib \<Rightarrow> bytes \<Rightarrow> (bytes \<times> int) list \<Rightarrow> bool \<Rightarrow> 'e rewrite" where
  "rewrite_email_urls lib raw cids enforce =
     rewrite_loop lib cids enforce (Suc (length raw)) (hl_new lib raw) [] new_drop_state []"

definition html_text :: "('t, 'e, 'x) html_lib \<Rightarrow> html_token list \<Rightarrow> bytes" where
  "html_text lib ts = concat (map (hl_string lib) ts)"

definition rewrite_cid_urls :: "('t, 'e, 'x) html_lib \<Rightarrow> bytes \<Rightarrow> (bytes \<times> int) list \<Rightarrow> bytes" where
  "rewrite_cid_urls lib raw cids =
     (case rewrite_email_urls lib raw cids False of Rewritten ts \<Rightarrow> html_text lib ts | _ \<Rightarrow> raw)"

end
