(* ===== verification/Inspect_Sanitize_Props.thy ===== *)
theory Inspect_Sanitize_Props
  imports Inspect_Sanitize
begin

text \<open>
  What the rewriting of the HTML of a message promises: no active element and no unsafe link or
  image is written, the loop ends without a panic, and a message without active content loses
  nothing.
\<close>

section \<open>The state of the dropping\<close>

definition drop_inv :: "drop_state \<Rightarrow> bool" where
  "drop_inv st \<longleftrightarrow>
     sl_len (ds_open st) \<le> length (sl_array (ds_open st))
     \<and> list_all (\<lambda>(n, d). d \<le> length (sl_array (ds_open st))) (ds_containers st)"

lemma drop_inv_new: "drop_inv new_drop_state"
  by (simp add: drop_inv_def new_drop_state_def nil_slice_def)

lemma drop_inv_reset [simp]: "drop_inv (reset_drop st)"
  by (simp add: drop_inv_def reset_drop_def)

lemma drop_inv_push: "drop_inv st \<Longrightarrow> drop_inv (push_container name st)"
  by (simp add: drop_inv_def push_container_def)

lemma length_slice_append: "length (sl_array s) \<le> length (sl_array (slice_append grow z x s))"
  by (simp add: slice_append_def Let_def)

lemma len_slice_append: "sl_len s \<le> length (sl_array s) \<Longrightarrow>
  sl_len (slice_append grow z x s) \<le> length (sl_array (slice_append grow z x s))"
  by (auto simp: slice_append_def Let_def)

lemma drop_inv_append:
  assumes "drop_inv st"
  shows "drop_inv (st\<lparr>ds_open := slice_append grow z x (ds_open st)\<rparr>)"
  using assms len_slice_append [of "ds_open st"] length_slice_append [of "ds_open st"]
  unfolding drop_inv_def by (auto simp: list_all_iff intro: order_trans)

lemma drop_inv_start: "drop_inv st \<Longrightarrow> drop_inv (snd (consume_start grow kind name st))"
proof -
  assume inv: "drop_inv st"
  then have "drop_inv (st\<lparr>ds_malformed := True\<rparr>)" by (simp add: drop_inv_def)
  with inv show ?thesis by (simp add: consume_start_def Let_def drop_inv_push drop_inv_append)
qed

lemma slice_to_open: "i \<le> length (sl_array (ds_open st)) \<Longrightarrow> drop_inv st \<Longrightarrow>
  \<exists>s. slice_to i (ds_open st) = Some s \<and> drop_inv (st\<lparr>ds_open := s\<rparr>)"
  by (simp add: slice_to_def drop_inv_def)

lemma drop_inv_end:
  assumes inv: "drop_inv st"
  shows "\<exists>b st'. consume_end name emitted st = Some (b, st') \<and> drop_inv st'"
proof (cases "last_element_index (elements (ds_open st)) name")
  case (Some i)
  then have "i < length (elements (ds_open st))" by (auto simp: last_element_index_def dest: last_index_SomeD)
  then have "i \<le> length (sl_array (ds_open st))" by (simp add: elements_def)
  from slice_to_open [OF this inv] Some show ?thesis by (auto simp: consume_end_def)
next
  case open_none: None
  show ?thesis
  proof (cases "container_index st name")
    case (Some i)
    then have i: "i < length (ds_containers st)" by (auto simp: container_index_def dest: last_index_SomeD)
    then have "ds_containers st ! i \<in> set (ds_containers st)" by simp
    with inv have "snd (ds_containers st ! i) \<le> length (sl_array (ds_open st))"
      by (auto simp: drop_inv_def list_all_iff split_beta)
    then obtain s where s: "slice_to (snd (ds_containers st ! i)) (ds_open st) = Some s"
      and "drop_inv (st\<lparr>ds_open := s\<rparr>)" using slice_to_open inv by blast
    then have "drop_inv (st\<lparr>ds_containers := take i (ds_containers st), ds_open := s\<rparr>)"
      by (auto simp: drop_inv_def list_all_iff dest: in_set_takeD)
    then show ?thesis by (auto simp: consume_end_def open_none Some s Let_def)
  next
    case None
    show ?thesis using inv by (auto simp: consume_end_def open_none None)
  qed
qed

lemma drop_consume_total:
  assumes "drop_inv st"
  shows "\<exists>b st'. drop_consume grow kind name emitted st = Some (b, st') \<and> drop_inv st'"
proof (cases "ds_containers st = []")
  case True
  then show ?thesis using assms by (auto simp: drop_consume_def drop_inv_push)
next
  case False
  then show ?thesis
    using assms drop_inv_start [OF assms, of grow kind name] drop_inv_end [OF assms, of name emitted]
    by (cases kind) (auto simp: drop_consume_def split_beta intro: prod.collapse [symmetric])
qed

text \<open>A tag that is kept opens no active element.\<close>

lemma kept_not_active:
  assumes "drop_consume grow kind name emitted st = Some (False, st')" and "kind \<in> {Start_Tag, Self_Closing_Tag}"
  shows "\<not> is_active_content_element name"
  using assms by (auto simp: drop_consume_def consume_start_def Let_def split: if_splits)

section \<open>Links and images\<close>

definition safe_href :: "unicode \<Rightarrow> (bytes \<Rightarrow> url option) \<Rightarrow> bytes \<Rightarrow> bool" where
  "safe_href u parse h \<longleftrightarrow>
     (\<exists>raw p. parse raw = Some p \<and> h = ur_text p
        \<and> (to_lower u (ur_scheme p) \<in> {''http'', ''https''} \<and> ur_host p \<noteq> []
           \<or> to_lower u (ur_scheme p) = ''mailto'' \<and> (ur_opaque p \<noteq> [] \<or> ur_path p \<noteq> [])))"

lemma safe_anchor_url_safe: "safe_anchor_url u parse raw = Some h \<Longrightarrow> safe_href u parse h"
  unfolding safe_anchor_url_def safe_href_def Let_def by (auto split: if_splits option.splits)

definition keys_among :: "unicode \<Rightarrow> bytes list \<Rightarrow> html_attr list \<Rightarrow> html_attr list" where
  "keys_among u ks as = filter (\<lambda>a. to_lower u (ha_key a) \<in> set ks) as"

lemma anchor_loop_keys:
  "keys_among u [''href'', ''target'', ''rel''] out = [] \<Longrightarrow>
     keys_among u [''href'', ''target'', ''rel''] (snd (anchor_loop u as href out)) = []"
  by (induction u as href out rule: anchor_loop.induct) (auto simp: keys_among_def Let_def)

lemma image_loop_keys:
  "keys_among u [''src'', ''srcset''] out = [] \<Longrightarrow> keys_among u [''src'', ''srcset''] (snd (image_loop u True as source out)) = []"
  by (induction u True as source out rule: image_loop.induct) (auto simp: keys_among_def Let_def)

definition safe_link :: "('t, 'e, 'x) html_lib \<Rightarrow> html_attr list \<Rightarrow> bool" where
  "safe_link lib as \<longleftrightarrow>
     (let ks = keys_among (hl_unicode lib) [''href'', ''target'', ''rel''] as in
      ks = []
      \<or> (\<exists>h. safe_href (hl_unicode lib) (hl_parse_url lib) h
           \<and> ks = [attribute ''href'' h, attribute ''target'' ''_blank'', attribute ''rel'' ''noopener noreferrer'']))"

definition safe_source :: "('t, 'e, 'x) html_lib \<Rightarrow> (bytes \<times> int) list \<Rightarrow> bytes \<Rightarrow> bool" where
  "safe_source lib cids v \<longleftrightarrow>
     (\<exists>i c. v = attachment_url i \<and> 0 < i \<and> map_of cids c = Some i)
     \<or> (\<exists>raw e. v = ''embedded:'' @ trim_prefix e ''data:''
          \<and> sanitize_embedded_image_data_url (hl_unicode lib) (hl_xml lib) raw = Some e)"

definition safe_image_attrs :: "('t, 'e, 'x) html_lib \<Rightarrow> (bytes \<times> int) list \<Rightarrow> html_attr list \<Rightarrow> bool" where
  "safe_image_attrs lib cids as \<longleftrightarrow>
     (let ks = keys_among (hl_unicode lib) [''src'', ''srcset''] as in
      ks = [] \<or> (\<exists>v. safe_source lib cids v \<and> ks = [attribute ''src'' v]))"

lemma lower_keys [simp]:
  "to_lower u ''href'' = ''href''" "to_lower u ''target'' = ''target''" "to_lower u ''rel'' = ''rel''"
  "to_lower u ''src'' = ''src''"
  by (simp_all add: ascii_eval)

lemma anchor_safe: "safe_link lib (ht_attr (rewrite_anchor_attrs (hl_unicode lib) (hl_parse_url lib) t))"
  using anchor_loop_keys [of "hl_unicode lib" "[]" "ht_attr t" "[]"] safe_anchor_url_safe
  by (auto simp: rewrite_anchor_attrs_def safe_link_def split_beta Let_def keys_among_def attribute_def
      split: option.split)

lemma first_attachment_SomeD: "first_attachment cids cs = Some i \<Longrightarrow> 0 < i \<and> (\<exists>c. map_of cids c = Some i)"
  by (induction cs) (auto split: option.splits if_splits)

lemma cid_attachment_SomeD: "cid_attachment_id u source cids = Some i \<Longrightarrow> 0 < i \<and> (\<exists>c. map_of cids c = Some i)"
  by (auto simp: cid_attachment_id_def simp del: first_attachment.simps dest!: first_attachment_SomeD
      split: if_splits option.splits)

lemma image_safe: "safe_image_attrs lib cids (ht_attr (rewrite_image_attrs (hl_unicode lib) (hl_xml lib) cids True t))"
proof -
  let ?u = "hl_unicode lib"
  define source attrs where sa: "source = fst (image_loop ?u True (ht_attr t) [] [])" "attrs = snd (image_loop ?u True (ht_attr t) [] [])"
  have none: "keys_among ?u [''src'', ''srcset''] attrs = []" unfolding sa by (rule image_loop_keys) (simp add: keys_among_def)
  have one: "keys_among ?u [''src'', ''srcset''] (attrs @ [attribute ''src'' v]) = [attribute ''src'' v]" for v
    using none by (simp add: keys_among_def attribute_def)
  have attr: "ht_attr (rewrite_image_attrs ?u (hl_xml lib) cids True t) =
      (case cid_attachment_id ?u source cids of
         Some i \<Rightarrow> attrs @ [attribute ''src'' (attachment_url i)]
       | None \<Rightarrow>
           (case sanitize_embedded_image_data_url ?u (hl_xml lib) source of
              Some e \<Rightarrow> attrs @ [attribute ''src'' (''embedded:'' @ trim_prefix e ''data:'')] | None \<Rightarrow> attrs))"
    unfolding sa by (simp add: rewrite_image_attrs_def split_beta split: option.split)
  have result: "safe_image_attrs lib cids (attrs @ [attribute ''src'' v])" if "safe_source lib cids v" for v
    using that one [of v] unfolding safe_image_attrs_def Let_def by blast
  have unchanged: "safe_image_attrs lib cids attrs" using none unfolding safe_image_attrs_def Let_def by blast
  show ?thesis
  proof (cases "cid_attachment_id ?u source cids")
    case (Some i)
    with cid_attachment_SomeD [OF Some] have "safe_source lib cids (attachment_url i)"
      unfolding safe_source_def by blast
    with Some show ?thesis by (simp add: attr result)
  next
    case cid_none: None
    show ?thesis
    proof (cases "sanitize_embedded_image_data_url ?u (hl_xml lib) source")
      case None
      with cid_none show ?thesis by (simp add: attr unchanged)
    next
      case (Some e)
      then have "safe_source lib cids (''embedded:'' @ trim_prefix e ''data:'')" unfolding safe_source_def by blast
      with cid_none Some show ?thesis unfolding attr by (simp only: option.case result)
    qed
  qed
qed

section \<open>The loop\<close>

text \<open>A tag that opens something must be harmless; an end tag opens nothing.\<close>

definition inert_token :: "('t, 'e, 'x) html_lib \<Rightarrow> (bytes \<times> int) list \<Rightarrow> html_token \<Rightarrow> bool" where
  "inert_token lib cids t \<longleftrightarrow>
     (if ht_type t \<in> {Start_Tag, Self_Closing_Tag} then
        (let name = to_lower (hl_unicode lib) (ht_data t) in
         \<not> is_active_content_element name
         \<and> (if name = ''a'' then safe_link lib (ht_attr t)
            else if name = ''img'' then safe_image_attrs lib cids (ht_attr t) else True))
      else True)"

lemma rewrite_token_kind [simp]:
  "ht_type (rewrite_token lib cids b t) = ht_type t" "ht_data (rewrite_token lib cids b t) = ht_data t"
  by (simp_all add: rewrite_token_def Let_def rewrite_anchor_attrs_def rewrite_image_attrs_def split_beta)

lemma rewrite_token_inert:
  assumes "ht_type t \<in> {Start_Tag, Self_Closing_Tag} \<Longrightarrow> \<not> is_active_content_element (to_lower (hl_unicode lib) (ht_data t))"
  shows "inert_token lib cids (rewrite_token lib cids True t)"
  using assms anchor_safe [of lib t] image_safe [of lib cids t]
  by (auto simp: inert_token_def Let_def) (simp_all add: rewrite_token_def)

lemma rewrite_loop_inert:
  "rewrite_loop lib cids True fuel tk emitted st out = Rewritten ts \<Longrightarrow> list_all (inert_token lib cids) out \<Longrightarrow>
     list_all (inert_token lib cids) ts"
proof (induction fuel arbitrary: tk emitted st out)
  case (Suc fuel)
  show ?case
  proof (cases "hl_next lib tk")
    case (Inl e)
    then show ?thesis using Suc.prems by (cases e) simp_all
  next
    case (Inr nx)
    obtain t tk' where t: "nx = (t, tk')" by (cases nx)
    let ?name = "to_lower (hl_unicode lib) (ht_data t)"
    show ?thesis
    proof (cases "drop_consume (hl_grow lib) (ht_type t) ?name emitted st")
      case None
      then show ?thesis using Suc.prems(1) Inr t by simp
    next
      case (Some r)
      obtain b st' where r: "r = (b, st')" by (cases r)
      show ?thesis
      proof (cases b)
        case True
        then show ?thesis using Suc.IH Suc.prems Inr t Some r by simp
      next
        case False
        have "inert_token lib cids (rewrite_token lib cids True t)"
          by (rule rewrite_token_inert, rule kept_not_active) (use Some r False in simp_all)
        then show ?thesis using Suc.IH Suc.prems Inr t Some r False by simp
      qed
    qed
  qed
qed simp

text \<open>
  C21. Whatever a sender writes and however the tokenizer cuts it: no start tag and no self-closing tag of an active
  element (scripts, styles, forms, frames, objects, SVG, MathML, templates) is written, so that none can open
  (an end tag without a start is passed on, and closes nothing); every link that is written has a safe
  scheme with a host or an address, and opens a new page without an opener; every image that is
  written shows an attachment of the message itself or an embedded image that was sanitized, and
  has no other source.
\<close>

theorem rewritten_html_is_inert:
  assumes "rewrite_email_urls lib raw cids True = Rewritten ts"
  shows "list_all (inert_token lib cids) ts"
  using assms unfolding rewrite_email_urls_def by (rule rewrite_loop_inert) simp

section \<open>Termination\<close>

lemma rewrite_loop_ends:
  assumes "\<And>tk t tk'. hl_next lib tk = Inr (t, tk') \<Longrightarrow> left tk' < left tk"
    and "\<And>tk. left (hl_not_raw lib tk) \<le> (left tk :: nat)"
  shows "left tk < fuel \<Longrightarrow> drop_inv st \<Longrightarrow> 
     (\<exists>ts. rewrite_loop lib cids enforce fuel tk emitted st out = Rewritten ts)
     \<or> (\<exists>e. rewrite_loop lib cids enforce fuel tk emitted st out = Tokenizer_Error e)"
proof (induction fuel arbitrary: tk emitted st out)
  case (Suc fuel)
  show ?case
  proof (cases "hl_next lib tk")
    case (Inl e)
    then show ?thesis by (cases e) auto
  next
    case (Inr nx)
    obtain t tk' where t: "nx = (t, tk')" by (cases nx)
    have "left tk' < left tk" using assms(1) Inr t by simp
    then have small: "left tk' < fuel" "left (hl_not_raw lib tk') < fuel"
      using Suc.prems(1) assms(2) [of tk'] by simp_all
    let ?name = "to_lower (hl_unicode lib) (ht_data t)"
    obtain b st' where consume: "(if enforce then drop_consume (hl_grow lib) (ht_type t) ?name emitted st else Some (False, st)) = Some (b, st')"
      "drop_inv st'"
      using drop_consume_total [OF Suc.prems(2)] Suc.prems(2) by (cases enforce) fastforce+
    show ?thesis
      using Suc.IH [OF small(1) consume(2)] Suc.IH [OF small(2) consume(2)] consume(1) Inr t
      by (cases b) (simp_all add: Let_def)
  qed
qed simp

text \<open>
  C35. Rewriting always returns: when every token takes a byte of the text or more, the loop ends within
  the fuel, and no slice expression of it panics (although the list of open elements is extended
  again over what was cut off).
\<close>

theorem rewriting_returns:
  assumes "\<And>tk t tk'. hl_next lib tk = Inr (t, tk') \<Longrightarrow> left tk' < left tk"
    and "\<And>tk. left (hl_not_raw lib tk) \<le> left tk" and "left (hl_new lib raw) \<le> length raw"
  shows "(\<exists>ts. rewrite_email_urls lib raw cids enforce = Rewritten ts)
    \<or> (\<exists>e. rewrite_email_urls lib raw cids enforce = Tokenizer_Error e)"
  unfolding rewrite_email_urls_def
  by (rule rewrite_loop_ends [where left = left, OF assms(1,2) _ drop_inv_new]) (use assms(3) in simp_all)

section \<open>Nothing else is lost\<close>

text \<open>The tokens of a text in which no switch to other rules is asked for.\<close>

inductive yields :: "('t, 'e, 'x) html_lib \<Rightarrow> 't \<Rightarrow> html_token list \<Rightarrow> bool" for lib where
  yields_end: "hl_next lib tk = Inl None \<Longrightarrow> yields lib tk []"
| yields_token: "hl_next lib tk = Inr (t, tk') \<Longrightarrow> yields lib tk' ts \<Longrightarrow> yields lib tk (t # ts)"

definition opens_active :: "('t, 'e, 'x) html_lib \<Rightarrow> html_token \<Rightarrow> bool" where
  "opens_active lib t \<longleftrightarrow>
     ht_type t \<in> {Start_Tag, Self_Closing_Tag} \<and> is_active_content_element (to_lower (hl_unicode lib) (ht_data t))"

lemma rewrite_loop_keeps:
  "yields lib tk ts \<Longrightarrow> list_all (\<lambda>t. \<not> opens_active lib t) ts \<Longrightarrow> length ts < fuel \<Longrightarrow> ds_containers st = [] \<Longrightarrow>
     rewrite_loop lib cids True fuel tk emitted st out = Rewritten (out @ map (rewrite_token lib cids True) ts)"
proof (induction tk ts arbitrary: fuel emitted out rule: yields.induct)
  case (yields_end tk)
  then show ?case by (cases fuel) simp_all
next
  case (yields_token tk t tk' ts)
  then obtain n where n: "fuel = Suc n" "length ts < n" by (cases fuel) auto
  have "drop_consume (hl_grow lib) (ht_type t) (to_lower (hl_unicode lib) (ht_data t)) emitted st = Some (False, st)"
    using yields_token.prems by (auto simp: drop_consume_def opens_active_def)
  then show ?case using yields_token n by (simp add: Let_def)
qed

text \<open>
  Rewriting takes away nothing but active content: when no token of the text opens an active element, every
  token is written, in order, and only the attributes of links and images are changed.
\<close>

theorem harmless_html_is_kept:
  assumes "yields lib (hl_new lib raw) ts" and "list_all (\<lambda>t. \<not> opens_active lib t) ts" and "length ts \<le> length raw"
  shows "rewrite_email_urls lib raw cids True = Rewritten (map (rewrite_token lib cids True) ts)"
  using rewrite_loop_keeps [OF assms(1,2), of "Suc (length raw)" new_drop_state cids "[]" "[]"] assms(3)
  by (simp add: rewrite_email_urls_def new_drop_state_def)

section \<open>A concrete tokenizer\<close>

text \<open>Three tokens: a link, a script and an image, with the attributes a sender may choose.\<close>

definition sample_tokens :: "html_token list" where
  "sample_tokens =
     [\<lparr>ht_type = Start_Tag, ht_data = ''a'', ht_attr = [attribute ''href'' ''javascript:x'', attribute ''rel'' ''opener'']\<rparr>,
      \<lparr>ht_type = Start_Tag, ht_data = ''script'', ht_attr = []\<rparr>,
      \<lparr>ht_type = Text_Token, ht_data = ''x()'', ht_attr = []\<rparr>,
      \<lparr>ht_type = End_Tag, ht_data = ''script'', ht_attr = []\<rparr>,
      \<lparr>ht_type = Self_Closing_Tag, ht_data = ''img'', ht_attr = [attribute ''src'' ''cid:logo'']\<rparr>]"

definition sample_lib :: "html_token list \<Rightarrow> (html_token list, unit, unit) html_lib" where
  "sample_lib ts = \<lparr>hl_unicode = plain_unicode, hl_new = (\<lambda>raw. take (length raw) ts),
     hl_next = (\<lambda>tk. case tk of [] \<Rightarrow> Inl None | t # tk' \<Rightarrow> Inr (t, tk')), hl_not_raw = (\<lambda>tk. tk), hl_string = ht_data,
     hl_parse_url = (\<lambda>s. None), hl_parse_float = (\<lambda>s. False), hl_grow = (\<lambda>n. 2 * n), hl_xml = sample_xml\<rparr>"

definition sample_written :: "html_token list" where
  "sample_written =
     [\<lparr>ht_type = Start_Tag, ht_data = ''a'', ht_attr = []\<rparr>,
      \<lparr>ht_type = Self_Closing_Tag, ht_data = ''img'', ht_attr = [attribute ''src'' ''attachment:7?inline=cid'']\<rparr>]"

lemma cid_folds: "equal_fold u ''cid:'' ''cid:''"
  by simp

lemma sample_rewriting:
  "rewrite_email_urls (sample_lib sample_tokens) ''12345'' [(''logo'', 7)] True = Rewritten sample_written"
proof -
  have cid: "cid_attachment_id plain_unicode ''cid:logo'' [(''logo'', 7)] = Some 7"
    by (simp add: cid_attachment_id_def normalize_cid_def trim_space_id graphic_def byte_def)
  have url: "attachment_url 7 = ''attachment:7?inline=cid''"
    by (simp add: attachment_url_def itoa_def nat_digits.simps [of 7] chr_eval)
  have unfold: "hl_next (sample_lib ts) = (\<lambda>tk. case tk of [] \<Rightarrow> Inl None | t # tk' \<Rightarrow> Inr (t, tk'))"
    "hl_unicode (sample_lib ts) = plain_unicode" "hl_not_raw (sample_lib ts) = (\<lambda>tk. tk)"
    "hl_new (sample_lib ts) raw = take (length raw) ts" "hl_parse_url (sample_lib ts) = (\<lambda>s. None)" for ts raw
    by (simp_all add: sample_lib_def)
  have lower: "to_lower plain_unicode s = s" if "s \<in> {''a'', ''script'', ''img'', ''x()'', ''src'', ''href'', ''rel''}" for s
    using that by (auto simp: ascii_eval)
  have trim: "trim_space ''javascript:x'' = ''javascript:x''" "trim_space ''cid:logo'' = ''cid:logo''"
    by (simp_all add: trim_space_id graphic_def byte_def)
  show ?thesis
    by (simp add: rewrite_email_urls_def unfold sample_tokens_def sample_written_def lower drop_consume_def new_drop_state_def
        nil_slice_def is_active_content_element_def active_content_elements_def push_container_def consume_end_def
        elements_def last_element_index_def last_index_def container_index_def slice_to_def reset_drop_def
        rewrite_token_def rewrite_anchor_attrs_def rewrite_image_attrs_def attribute_def trim cid url safe_anchor_url_def
        contains_any_def update_open_elements_def Let_def)
qed

theorem rewritten_html_is_inert_witness:
  "list_all (inert_token (sample_lib sample_tokens) [(''logo'', 7)]) sample_written"
  by (rule rewritten_html_is_inert [OF sample_rewriting])

theorem rewriting_returns_witness:
  "(\<exists>ts. rewrite_email_urls (sample_lib sample_tokens) ''12345'' [] True = Rewritten ts)
    \<or> (\<exists>e. rewrite_email_urls (sample_lib sample_tokens) ''12345'' [] True = Tokenizer_Error e)"
  by (rule rewriting_returns [of _ length]) (auto simp: sample_lib_def split: list.splits)

theorem harmless_html_is_kept_witness:
  "rewrite_email_urls (sample_lib [\<lparr>ht_type = Text_Token, ht_data = ''hi'', ht_attr = []\<rparr>]) ''hi'' [] True
     = Rewritten [\<lparr>ht_type = Text_Token, ht_data = ''hi'', ht_attr = []\<rparr>]"
proof -
  let ?t = "\<lparr>ht_type = Text_Token, ht_data = ''hi'', ht_attr = []\<rparr>"
  have "yields (sample_lib [?t]) (hl_new (sample_lib [?t]) ''hi'') [?t]"
    by (intro yields_token [where tk' = "[]"] yields_end) (simp_all add: sample_lib_def)
  from harmless_html_is_kept [OF this] show ?thesis by (simp add: opens_active_def rewrite_token_def)
qed

text \<open>
  The list of open elements is cut at an end tag and then extended over the same array when a
  container ends: an element that was closed is open again.  After
  \<open><svg><g><script></g></script>\<close> the paragraph that follows is still taken for content of the drawing.
\<close>

definition resurrecting_tokens :: "html_token list" where
  "resurrecting_tokens =
     map (\<lambda>(k, n). \<lparr>ht_type = k, ht_data = n, ht_attr = []\<rparr>)
       [(Start_Tag, ''svg''), (Start_Tag, ''g''), (Start_Tag, ''script''), (End_Tag, ''g''), (End_Tag, ''script''),
        (Start_Tag, ''p'')]"

lemma closed_element_is_open_again:
  "rewrite_email_urls (sample_lib resurrecting_tokens) ''123456'' [] True = Rewritten []"
proof -
  have unfold: "hl_next (sample_lib ts) = (\<lambda>tk. case tk of [] \<Rightarrow> Inl None | t # tk' \<Rightarrow> Inr (t, tk'))"
    "hl_unicode (sample_lib ts) = plain_unicode" "hl_not_raw (sample_lib ts) = (\<lambda>tk. tk)"
    "hl_new (sample_lib ts) raw = take (length raw) ts" "hl_grow (sample_lib ts) = (\<lambda>n. 2 * n)" for ts raw
    by (simp_all add: sample_lib_def)
  have lower: "to_lower plain_unicode s = s" if "s \<in> {''svg'', ''g'', ''script'', ''p''}" for s
    using that by (auto simp: ascii_eval)
  show ?thesis
    by (simp add: rewrite_email_urls_def unfold resurrecting_tokens_def lower drop_consume_def new_drop_state_def
        nil_slice_def is_active_content_element_def active_content_elements_def push_container_def consume_end_def
        consume_start_def elements_def last_element_index_def last_index_def container_index_def slice_to_def
        slice_append_def is_active_recovery_element_def is_void_element_def Let_def)
qed

end
