(* ===== verification/Inspect_Policy.thy ===== *)
theory Inspect_Policy
  imports Inspect_Sanitize
begin

text \<open>
  \<open>internal/inspect/inspect.go\<close>: the allow-list for the HTML of a message (\<open>newEmailHTMLPolicy\<close>,
  \<open>configureEmailStyles\<close>) as the settings it gives to the engine \<open>bluemonday\<close>, and \<open>SanitizeEmailHTML\<close>.
\<close>

section \<open>The policy\<close>

record attr_rule =
  ar_attrs :: "bytes list"
  ar_pattern :: "re option"
  ar_elements :: "bytes list"

record email_policy =
  po_elements :: "bytes list"
  po_no_attrs :: "bytes list"
  po_global_attrs :: "bytes list"
  po_rules :: "attr_rule list"
  po_parseable_urls :: bool
  po_schemes :: "bytes list"
  po_custom_schemes :: "(bytes \<times> (url \<Rightarrow> bool)) list"
  po_rewrite_src :: "url \<Rightarrow> url"
  po_styles :: "(bytes \<times> (bytes \<Rightarrow> bool)) list"

definition words_ci :: "bytes list \<Rightarrow> re" where
  "words_ci ws = re_alts (map re_lit_ci ws)"

definition legacy_color_pattern :: re where
  "legacy_color_pattern =
     Re_Alt (Re_Cat (re_char (CHR ''#'')) (re_repeat 3 5 (Re_Chars hex_ci))) (re_repeat 1 31 (Re_Chars letters_ci))"

definition legacy_dimension_pattern :: re where
  "legacy_dimension_pattern =
     Re_Cat (Re_Alt (re_lit ''0'') (Re_Cat (Re_Chars [(49, 57)]) (re_upto 4 (Re_Chars digits)))) (re_opt (words_ci [''px'', ''%'']))"

definition legacy_spacing_pattern :: re where
  "legacy_spacing_pattern = Re_Alt (re_lit ''0'') (Re_Cat (Re_Chars [(49, 57)]) (re_upto 3 (Re_Chars digits)))"

definition size_pattern :: re where
  "size_pattern = Re_Alt (Re_Chars [(49, 55)]) (Re_Cat (Re_Chars (chars_of ''+-'')) (Re_Chars [(49, 55)]))"

definition span_pattern :: re where
  "span_pattern = Re_Cat (Re_Chars [(49, 57)]) (re_upto 2 (Re_Chars digits))"

definition rule :: "bytes list \<Rightarrow> re option \<Rightarrow> bytes list \<Rightarrow> attr_rule" where
  "rule as p es = \<lparr>ar_attrs = as, ar_pattern = p, ar_elements = es\<rparr>"

definition email_rules :: "attr_rule list" where
  "email_rules =
     [rule [''href''] None [''a''],
      rule [''target''] (Some (re_lit ''_blank'')) [''a''],
      rule [''rel''] (Some (Re_Alt (re_lit ''noopener noreferrer'') (re_lit ''noreferrer noopener''))) [''a''],
      rule [''src'', ''alt'', ''title''] None [''img''],
      rule [''width'', ''height''] (Some legacy_dimension_pattern) [''img'', ''table'', ''td'', ''th'', ''col'', ''colgroup''],
      rule [''align''] (Some (words_ci [''left'', ''center'', ''right'', ''justify'', ''char'']))
        [''p'', ''div'', ''table'', ''caption'', ''tr'', ''td'', ''th'', ''img'', ''h1'', ''h2'', ''h3'', ''h4'', ''h5'', ''h6''],
      rule [''valign''] (Some (words_ci [''top'', ''middle'', ''bottom'', ''baseline''])) [''tr'', ''td'', ''th'', ''img''],
      rule [''bgcolor''] (Some legacy_color_pattern) [''body'', ''table'', ''tr'', ''td'', ''th''],
      rule [''color''] (Some legacy_color_pattern) [''font'', ''hr''],
      rule [''face''] (Some css_font_family_pattern) [''font''],
      rule [''size''] (Some size_pattern) [''font''],
      rule [''border'', ''cellpadding'', ''cellspacing''] (Some legacy_spacing_pattern) [''table''],
      rule [''colspan'', ''rowspan'', ''span''] (Some span_pattern) [''td'', ''th'', ''col'', ''colgroup''],
      rule [''scope''] (Some (words_ci [''row'', ''col'', ''rowgroup'', ''colgroup''])) [''th''],
      rule [''role''] (Some (re_lit_ci ''presentation'')) [''table''],
      rule [''start'', ''reversed'', ''type''] None [''ol'', ''ul''],
      rule [''compact'', ''nowrap''] None [''table'', ''tr'', ''td'', ''th'', ''ol'', ''ul'', ''dl''],
      rule [''hspace'', ''vspace'', ''border''] (Some legacy_spacing_pattern) [''img'']]"

definition email_elements :: "bytes list" where
  "email_elements =
     [''html'', ''head'', ''body'', ''address'', ''article'', ''aside'', ''footer'', ''header'', ''main'', ''nav'', ''section'',
      ''div'', ''span'', ''p'', ''br'', ''hr'', ''wbr'', ''h1'', ''h2'', ''h3'', ''h4'', ''h5'', ''h6'',
      ''blockquote'', ''pre'', ''code'', ''kbd'', ''samp'', ''var'', ''b'', ''strong'', ''i'', ''em'', ''u'', ''s'', ''strike'', ''small'',
      ''big'', ''sub'', ''sup'', ''mark'', ''abbr'', ''bdi'', ''bdo'', ''cite'', ''dfn'', ''q'', ''ins'', ''del'', ''time'',
      ''ul'', ''ol'', ''li'', ''dl'', ''dt'', ''dd'', ''table'', ''caption'', ''colgroup'', ''col'', ''thead'', ''tbody'', ''tfoot'', ''tr'',
      ''th'', ''td'', ''figure'', ''figcaption'', ''ruby'', ''rp'', ''rt'', ''center'', ''font'', ''a'', ''img'']"

definition positive_decimal :: "bytes \<Rightarrow> bool" where
  "positive_decimal v = (case atoi v of None \<Rightarrow> False | Some n \<Rightarrow> 0 < n)"

definition attachment_url_ok :: "url \<Rightarrow> bool" where
  "attachment_url_ok p \<longleftrightarrow> ur_opaque p \<noteq> [] \<and> positive_decimal (ur_opaque p)"

definition embedded_url_ok :: "url \<Rightarrow> bool" where
  "embedded_url_ok p \<longleftrightarrow>
     ur_opaque p \<noteq> [] \<and> ur_raw_query p = [] \<and> ur_fragment p = [] \<and> is_normalized_embedded_image (ur_opaque p)"

definition rewrite_src :: "url \<Rightarrow> url" where
  "rewrite_src p =
     (if ur_scheme p = ''attachment'' \<and> positive_decimal (ur_opaque p)
      then p\<lparr>ur_scheme := [], ur_path := ''/api/attachments/'' @ ur_opaque p, ur_opaque := [],
             ur_raw_query := (if ur_raw_query p \<noteq> ''inline=cid'' then [] else ur_raw_query p), ur_fragment := []\<rparr>
      else if ur_scheme p = ''embedded'' \<and> is_normalized_embedded_image (ur_opaque p) then p\<lparr>ur_scheme := ''data''\<rparr>
      else p)"

definition email_style_properties :: "bytes list" where
  "email_style_properties =
     [''color'', ''background-color'', ''background'',
      ''font-family'', ''font-size'', ''font-style'', ''font-weight'', ''line-height'',
      ''text-align'', ''text-decoration'', ''text-decoration-color'', ''text-decoration-style'', ''text-transform'',
      ''letter-spacing'', ''word-spacing'', ''white-space'', ''vertical-align'', ''direction'',
      ''display'', ''float'', ''clear'', ''position'', ''box-sizing'',
      ''width'', ''min-width'', ''max-width'', ''height'', ''min-height'', ''max-height'']
     @ ''margin'' # sides ''margin'' [] @ ''padding'' # sides ''padding'' [] @ ''border'' # sides ''border'' []
     @ ''border-width'' # sides ''border'' ''-width'' @ ''border-style'' # sides ''border'' ''-style''
     @ ''border-color'' # sides ''border'' ''-color''
     @ [''border-radius'', ''border-collapse'', ''border-spacing'', ''table-layout'',
        ''list-style-type'', ''overflow-wrap'', ''word-break'']"

definition email_styles :: "unicode \<Rightarrow> (bytes \<Rightarrow> bool) \<Rightarrow> (bytes \<times> (bytes \<Rightarrow> bool)) list" where
  "email_styles u parse_float = map (\<lambda>p. (p, safe_email_css_value u parse_float p)) email_style_properties"

definition email_html_policy :: "unicode \<Rightarrow> (bytes \<Rightarrow> bool) \<Rightarrow> email_policy" where
  "email_html_policy u parse_float =
     \<lparr>po_elements = email_elements, po_no_attrs = [''a''], po_global_attrs = [''title'', ''lang'', ''dir''], po_rules = email_rules,
      po_parseable_urls = True, po_schemes = [''http'', ''https'', ''mailto''],
      po_custom_schemes = [(''attachment'', attachment_url_ok), (''embedded'', embedded_url_ok)],
      po_rewrite_src = rewrite_src, po_styles = email_styles u parse_float\<rparr>"

definition sanitize_email_html ::
  "(email_policy \<Rightarrow> bytes \<Rightarrow> bytes) \<Rightarrow> ('t, 'e, 'x) html_lib \<Rightarrow> bytes \<Rightarrow> (bytes \<times> int) list \<Rightarrow> bytes" where
  "sanitize_email_html engine lib raw cids =
     (case rewrite_email_urls lib raw cids True of
        Rewritten ts \<Rightarrow> engine (email_html_policy (hl_unicode lib) (hl_parse_float lib)) (html_text lib ts)
      | _ \<Rightarrow> [])"

section \<open>The two passes agree\<close>

text \<open>The allow-list has no active element, and no style property without a rule of its own.\<close>

lemma no_active_element_allowed: "list_all (\<lambda>e. \<not> is_active_content_element e) email_elements"
  by (simp add: email_elements_def is_active_content_element_def active_content_elements_def)

text \<open>
  How \<open>url.Parse\<close> reads the two kinds of source that the first pass writes: what follows the colon is
  opaque up to a query.
\<close>

definition reads_sources :: "(bytes \<Rightarrow> url option) \<Rightarrow> bool" where
  "reads_sources parse \<longleftrightarrow>
     (\<forall>i. 0 < i \<longrightarrow> (\<exists>p. parse (attachment_url i) = Some p \<and> ur_scheme p = ''attachment'' \<and> ur_opaque p = itoa i
        \<and> ur_raw_query p = ''inline=cid''))
     \<and> (\<forall>t b. t \<in> set embedded_types \<longrightarrow>
        (\<exists>p. parse (''embedded:'' @ t @ '';base64,'' @ b64_encode b) = Some p \<and> ur_scheme p = ''embedded''
           \<and> ur_opaque p = t @ '';base64,'' @ b64_encode b \<and> ur_raw_query p = [] \<and> ur_fragment p = []))"

lemma attachment_source_survives:
  assumes "reads_sources parse" and "0 < i" and "in_int64 i"
  shows "\<exists>p. parse (attachment_url i) = Some p \<and> attachment_url_ok p \<and> ur_scheme (rewrite_src p) = []
    \<and> ur_opaque (rewrite_src p) = [] \<and> ur_path (rewrite_src p) = attachment_path i \<and> ur_raw_query (rewrite_src p) = ''inline=cid''"
proof -
  from assms(1,2) obtain p where p: "parse (attachment_url i) = Some p" "ur_scheme p = ''attachment''" "ur_opaque p = itoa i"
    "ur_raw_query p = ''inline=cid''"
    unfolding reads_sources_def by blast
  have "positive_decimal (itoa i)" using assms(2,3) by (simp add: positive_decimal_def atoi_itoa)
  moreover from this have "itoa i \<noteq> []" by (auto simp: positive_decimal_def atoi_def)
  ultimately show ?thesis using p by (simp add: attachment_url_ok_def rewrite_src_def attachment_path_def)
qed

lemma embedded_source_survives:
  assumes "reads_sources parse" and "t \<in> set embedded_types" and "b \<noteq> []"
  shows "\<exists>p. parse (''embedded:'' @ t @ '';base64,'' @ b64_encode b) = Some p \<and> embedded_url_ok p
    \<and> ur_scheme (rewrite_src p) = ''data'' \<and> ur_opaque (rewrite_src p) = t @ '';base64,'' @ b64_encode b"
proof -
  from assms(1,2) obtain p where p: "parse (''embedded:'' @ t @ '';base64,'' @ b64_encode b) = Some p" "ur_scheme p = ''embedded''"
    "ur_opaque p = t @ '';base64,'' @ b64_encode b" "ur_raw_query p = []" "ur_fragment p = []"
    unfolding reads_sources_def by blast
  have "is_normalized_embedded_image (ur_opaque p)" using normalized_types [OF assms(2)] assms(3) p(3) by metis
  moreover from this have "ur_opaque p \<noteq> []" using p(3) by auto
  ultimately show ?thesis using p by (simp add: embedded_url_ok_def rewrite_src_def)
qed

end
