(* ===== verification/Inspect_Policy_Props.thy ===== *)
theory Inspect_Policy_Props
  imports Inspect_Policy Inspect_Sanitize_Props Http_Server
begin

text \<open>
  From the HTML of a message to the HTTP server: what the first pass writes as the source of an image is
  accepted by the allow-list, rewritten, and answered by the handler of that attachment.
\<close>

lemma digit_not_slash: "c \<in> set (itoa i) \<Longrightarrow> c \<noteq> CHR ''/''"
  using itoa_graphic [of i] by (auto simp: is_digit_def byte_def)

lemma no_slash_contains: "CHR ''/'' \<notin> set s \<Longrightarrow> \<not> contains s ''/''"
  by (auto simp: contains_iff)

lemma route_attachment:
  assumes "rq_method rq = ''GET''" and "rq_path rq = attachment_path i"
  shows "route_of rq = R_Attachment (itoa i)"
proof -
  have no: "\<not> contains (itoa i) ''/''" using digit_not_slash by (intro no_slash_contains) auto
  have pre: "has_prefix (attachment_path i) ''/api/attachments/''" "\<not> has_prefix (attachment_path i) ''/api/mailboxes/''"
    "\<not> has_prefix (attachment_path i) ''/api/messages/''" "trim_prefix (attachment_path i) ''/api/attachments/'' = itoa i"
    by (simp_all add: attachment_path_def has_prefix_def trim_prefix_def)
  have other: "attachment_path i \<noteq> ''/openapi.json''" "attachment_path i \<noteq> ''/api/mailboxes''"
    by (simp_all add: attachment_path_def)
  show ?thesis
    unfolding route_of_def Let_def last_element_def assms by (simp add: pre other no)
qed

text \<open>
  The pictures of a message reach the reader: for every source that the first pass writes for an image,
  the check of its scheme in the allow-list accepts it and the rewriting turns it into a path of this
  server that is routed to the handler of an attachment the message maps a content id to, with
  the query that asks for safe inline display; or into a data URL with the sanitized bytes.
\<close>

theorem image_sources_resolve:
  assumes "reads_sources parse" and "safe_source lib cids v" and "\<forall>i\<in>set (map snd cids). in_int64 i"
  shows "\<exists>p. parse v = Some p \<and>
    ((\<exists>i c rq. attachment_url_ok p \<and> map_of cids c = Some i \<and> rq_method rq = ''GET'' \<and> rq_path rq = ur_path (rewrite_src p)
        \<and> ur_scheme (rewrite_src p) = [] \<and> ur_raw_query (rewrite_src p) = ''inline=cid''
        \<and> route_of rq = R_Attachment (itoa i) \<and> parse_id (itoa i) = Some i)
     \<or> (\<exists>t b. t \<in> set embedded_types \<and> ur_opaque p = t @ '';base64,'' @ b64_encode b
        \<and> (b = [] \<or> embedded_url_ok p \<and> ur_scheme (rewrite_src p) = ''data'' \<and> ur_opaque (rewrite_src p) = ur_opaque p)))"
proof -
  from assms(2) consider (attachment) i c where "v = attachment_url i" "0 < i" "map_of cids c = Some i"
    | (embedded) raw e where "v = ''embedded:'' @ trim_prefix e ''data:''"
      "sanitize_embedded_image_data_url (hl_unicode lib) (hl_xml lib) raw = Some e"
    unfolding safe_source_def by blast
  then show ?thesis
  proof cases
    case attachment
    have "in_int64 i" using assms(3) map_of_SomeD [OF attachment(3)] by force
    from attachment_source_survives [OF assms(1) attachment(2) this] obtain p where
      p: "parse (attachment_url i) = Some p" "attachment_url_ok p" "ur_scheme (rewrite_src p) = []"
      "ur_path (rewrite_src p) = attachment_path i" "ur_raw_query (rewrite_src p) = ''inline=cid''" by blast
    define rq where "rq = \<lparr>rq_method = ''GET'', rq_path = attachment_path i, rq_query = [], rq_value = None, rq_at_end = True\<rparr>"
    have "route_of rq = R_Attachment (itoa i)" by (rule route_attachment) (simp_all add: rq_def)
    moreover have "parse_id (itoa i) = Some i" using \<open>in_int64 i\<close> by (simp add: parse_id_def atoi_itoa)
    moreover have "rq_method rq = ''GET''" "rq_path rq = ur_path (rewrite_src p)" by (simp_all add: rq_def p)
    ultimately show ?thesis using p attachment(1,3) by blast
  next
    case embedded
    from embedded(2) obtain t encoded decoded b where e: "e = data_url t b" "safe_image (hl_unicode lib) (hl_xml lib) t decoded = Some b"
      by (rule sanitize_embedded_SomeD)
    have t: "t \<in> set embedded_types"
      using e(2) by (auto simp: safe_image_def embedded_types_def dest: raster_types split: if_splits)
    have v: "v = ''embedded:'' @ t @ '';base64,'' @ b64_encode b"
      by (simp add: embedded(1) e(1) data_url_def trim_prefix_def has_prefix_def)
    from assms(1) t obtain p where p: "parse v = Some p" "ur_opaque p = t @ '';base64,'' @ b64_encode b"
      unfolding reads_sources_def v by blast
    have "b = [] \<or> embedded_url_ok p \<and> ur_scheme (rewrite_src p) = ''data'' \<and> ur_opaque (rewrite_src p) = ur_opaque p"
      using embedded_source_survives [OF assms(1) t, of b] p unfolding v by auto
    with p t show ?thesis by blast
  qed
qed

text \<open>A reader of the two kinds of source.\<close>

definition sample_parse :: "bytes \<Rightarrow> url option" where
  "sample_parse s =
     (case index_byte (\<lambda>c. c = CHR '':'') s of
        None \<Rightarrow> None
      | Some i \<Rightarrow>
          (let rest = drop (Suc i) s; q = takeWhile (\<lambda>c. c \<noteq> CHR ''?'') rest in
           Some \<lparr>ur_scheme = take i s, ur_opaque = q, ur_host = [], ur_path = [], ur_raw_query = drop (Suc (length q)) rest,
             ur_fragment = [], ur_text = s\<rparr>))"

lemma b64_encode_chars: "c \<in> set (b64_encode b) \<Longrightarrow> c = pad \<or> c \<in> set b64_alphabet"
proof (induction b rule: b64_encode.induct)
  case (2 a)
  then show ?case using sextets [OF byte_less [of a] byte_less byte_less] by (auto intro: b64_char_in)
next
  case (3 a b)
  then show ?case using sextets [OF byte_less [of a] byte_less [of b] byte_less] by (auto intro: b64_char_in)
next
  case (4 a b c s)
  then show ?case using sextets [OF byte_less [of a] byte_less [of b] byte_less [of c]] by (auto intro: b64_char_in)
qed simp

lemma sample_parse_reads: "reads_sources sample_parse"
proof -
  have digits: "CHR ''?'' \<notin> set (itoa i)" for i
    using itoa_graphic [of i] by (auto simp: is_digit_def byte_def)
  have first: "takeWhile (\<lambda>c. c \<noteq> CHR ''?'') (itoa i @ ''?inline=cid'') = itoa i" for i
    using digits [of i] by (subst takeWhile_append2) auto
  have second: "takeWhile (\<lambda>c. c \<noteq> CHR ''?'') (t @ '';base64,'' @ b64_encode b) = t @ '';base64,'' @ b64_encode b"
    if "t \<in> set embedded_types" for t b
  proof -
    have "CHR ''?'' \<notin> set (t @ '';base64,'' @ b64_encode b)"
      using that b64_encode_chars [of "CHR ''?''" b] by (auto simp: embedded_types_def b64_alphabet_def pad_def)
    then show ?thesis by (auto intro!: takeWhile_eq_all_conv [THEN iffD2])
  qed
  have "\<exists>p. sample_parse (attachment_url i) = Some p \<and> ur_scheme p = ''attachment'' \<and> ur_opaque p = itoa i
      \<and> ur_raw_query p = ''inline=cid''" for i
    using first [of i] by (simp add: sample_parse_def attachment_url_def Let_def)
  moreover have "\<exists>p. sample_parse (''embedded:'' @ t @ '';base64,'' @ b64_encode b) = Some p \<and> ur_scheme p = ''embedded''
      \<and> ur_opaque p = t @ '';base64,'' @ b64_encode b \<and> ur_raw_query p = [] \<and> ur_fragment p = []"
    if "t \<in> set embedded_types" for t b
  proof -
    let ?rest = "t @ '';base64,'' @ b64_encode b"
    have "sample_parse (''embedded:'' @ s) = (let q = takeWhile (\<lambda>c. c \<noteq> CHR ''?'') s in
        Some \<lparr>ur_scheme = ''embedded'', ur_opaque = q, ur_host = [], ur_path = [], ur_raw_query = drop (Suc (length q)) s,
          ur_fragment = [], ur_text = ''embedded:'' @ s\<rparr>)" for s
      by (simp add: sample_parse_def)
    from this [of ?rest] have "sample_parse (''embedded:'' @ ?rest) = Some \<lparr>ur_scheme = ''embedded'', ur_opaque = ?rest,
        ur_host = [], ur_path = [], ur_raw_query = [], ur_fragment = [], ur_text = ''embedded:'' @ ?rest\<rparr>"
      unfolding Let_def second [OF that] by (simp only: drop_all le_SucI order_refl)
    then show ?thesis by simp
  qed
  ultimately show ?thesis unfolding reads_sources_def by blast
qed

theorem image_sources_resolve_witness:
  "\<exists>p. sample_parse (attachment_url 7) = Some p \<and>
    ((\<exists>i c rq. attachment_url_ok p \<and> map_of [(''logo'', 7)] c = Some i \<and> rq_method rq = ''GET'' \<and> rq_path rq = ur_path (rewrite_src p)
        \<and> ur_scheme (rewrite_src p) = [] \<and> ur_raw_query (rewrite_src p) = ''inline=cid''
        \<and> route_of rq = R_Attachment (itoa i) \<and> parse_id (itoa i) = Some i)
     \<or> (\<exists>t b. t \<in> set embedded_types \<and> ur_opaque p = t @ '';base64,'' @ b64_encode b
        \<and> (b = [] \<or> embedded_url_ok p \<and> ur_scheme (rewrite_src p) = ''data'' \<and> ur_opaque (rewrite_src p) = ur_opaque p)))"
proof (rule image_sources_resolve [OF sample_parse_reads])
  show "safe_source (sample_lib []) [(''logo'', 7)] (attachment_url 7)"
    unfolding safe_source_def by (intro disjI1 exI [of _ 7] exI [of _ "''logo''"]) simp
  show "\<forall>i\<in>set (map snd [(''logo'', 7)]). in_int64 i" by (simp add: in_int64_def max_int64_def)
qed

end
