(* ===== verification/Go_Quoted.thy ===== *)
theory Go_Quoted
  imports Go_Mime
begin

text \<open>
  Go's \<open>quotedprintable.Reader\<close> read to its end.  The reader takes one line at a time from a buffer of
  4096 bytes; \<open>None\<close> is any error of \<open>io.ReadAll\<close>.  Hexadecimal digits are those of \<open>Go_Mime\<close>.
\<close>

section \<open>Lines\<close>

text \<open>The text cut after every line feed: what \<open>ReadSlice\<close> yields.\<close>

fun cut_lines :: "bytes \<Rightarrow> bytes list" where
  "cut_lines [] = []"
| "cut_lines (c # s) =
     (if c = LF then [c] # cut_lines s
      else (case cut_lines s of [] \<Rightarrow> [[c]] | l # ls \<Rightarrow> (c # l) # ls))"

lemma concat_cut_lines: "concat (cut_lines s) = s"
  by (induction s) (auto split: list.splits)

definition qp_buffer :: nat where
  "qp_buffer = 4096"

definition qp_white :: bytes where
  "qp_white = [LF, CR, CHR '' '', TAB]"

section \<open>One line\<close>

text \<open>The bytes of a line after the reader has taken off its end.\<close>

fun qp_bytes :: "bytes \<Rightarrow> bytes option" where
  "qp_bytes [] = Some []"
| "qp_bytes (c # s) =
     (if c = CHR ''='' then
        (case s of
           a # b # t \<Rightarrow>
             (case (hex_val a, hex_val b) of
                (Some x, Some y) \<Rightarrow> map_option (Cons (chr (16 * x + y))) (qp_bytes t)
              | _ \<Rightarrow> if a \<noteq> CR \<and> a \<noteq> LF then map_option (Cons c) (qp_bytes s) else None)
         | _ \<Rightarrow> None)
      else if c \<in> {TAB, CR, LF} \<or> 128 \<le> byte c \<or> (32 \<le> byte c \<and> byte c \<le> 126)
      then map_option (Cons c) (qp_bytes s)
      else None)"

text \<open>A line and whether it is the last; a soft line break must be followed by the end of the line.\<close>

definition qp_line :: "bool \<Rightarrow> bytes \<Rightarrow> bytes option" where
  "qp_line at_end whole =
     (let line = trim_right_set qp_white whole; stripped = drop (length line) whole in
      if qp_buffer \<le> length (trim_suffix whole [LF]) then None
      else if has_suffix line ''='' then
        (if has_prefix stripped [LF] \<or> has_prefix stripped CRLF
            \<or> (stripped = [] \<and> butlast line \<noteq> [] \<and> at_end)
         then qp_bytes (butlast line) else None)
      else if has_suffix whole [LF] then
        qp_bytes (line @ (if has_suffix whole CRLF then CRLF else [LF]))
      else qp_bytes line)"

fun qp_read_lines :: "bytes list \<Rightarrow> bytes option" where
  "qp_read_lines [] = Some []"
| "qp_read_lines (l # ls) =
     (case qp_line (ls = []) l of
        None \<Rightarrow> None
      | Some s \<Rightarrow> map_option (append s) (qp_read_lines ls))"

definition qp_read :: "bytes \<Rightarrow> bytes option" where
  "qp_read s = qp_read_lines (cut_lines s)"

section \<open>Plain lines are read as they are\<close>

lemma qp_bytes_plain:
  "\<forall>c\<in>set s. c \<noteq> CHR ''='' \<and> (c \<in> {TAB, CR, LF} \<or> (32 \<le> byte c \<and> byte c \<le> 126)) \<Longrightarrow> qp_bytes s = Some s"
  by (induction s) auto

lemma qp_read_examples:
  "qp_read ''caf=C3=A9'' = Some (''caf'' @ [CHR 0xC3, CHR 0xA9])"
  "qp_read (''a='' @ CRLF @ ''b'') = Some ''ab''"
  "qp_read (''a='') = Some ''a''" "qp_read (''a=4'') = None" "qp_read [CHR 0x01] = None"
  by (simp_all add: qp_read_def qp_line_def qp_buffer_def qp_white_def trim_right_set_def trim_suffix_def
      has_suffix_def has_prefix_def hex_val_def is_digit_def Let_def chr_eval byte_def)

end
