(* ===== verification/Go_Float.thy ===== *)
theory Go_Float
  imports Prelude
begin

text \<open>
  The values of \<open>float64\<close> that the program computes: none is negative, infinite or not a number, and none is
  so small or large that the exponent matters.  A value is \<open>Float m e\<close>, which stands for \<open>m * 2 ^ e\<close>; a
  result is rounded to 53 binary digits, to the nearest and on a tie to the even mantissa, as IEEE 754
  asks of every operation.
\<close>

datatype float64 = Float (mantissa: int) (exponent: int)

definition float_zero :: float64 where
  "float_zero = Float 0 0"

text \<open>The number of binary digits.\<close>

function bit_count :: "int \<Rightarrow> int" where
  "bit_count n = (if n \<le> 0 then 0 else 1 + bit_count (n div 2))"
  by pat_completeness auto
termination
  by (relation "measure nat") auto

declare bit_count.simps [simp del]

text \<open>The quotient rounded to the nearest integer, on a tie to the even one.\<close>

definition round_half_even :: "int \<Rightarrow> int \<Rightarrow> int" where
  "round_half_even n d =
     (let q = n div d; r = n mod d in
      if 2 * r < d \<or> (2 * r = d \<and> even q) then q else q + 1)"

text \<open>\<open>n / d * 2 ^ e\<close> rounded to 53 digits.\<close>

definition scale :: "int \<Rightarrow> int \<Rightarrow> int" where
  "scale n e = (if e \<le> 0 then n else n * 2 ^ nat e)"

definition round_ratio :: "int \<Rightarrow> int \<Rightarrow> int \<Rightarrow> float64" where
  "round_ratio n d e =
     (if n = 0 then float_zero
      else
        (let s = bit_count n - bit_count d - 53;
             s = (if 2 ^ 53 * scale d s \<le> scale n (- s) then s + 1 else s) in
         Float (round_half_even (scale n (- s)) (scale d s)) (e + s)))"

definition float_of_int :: "int \<Rightarrow> float64" where
  "float_of_int n = round_ratio n 1 0"

definition float_div :: "float64 \<Rightarrow> float64 \<Rightarrow> float64" where
  "float_div a b = round_ratio (mantissa a) (mantissa b) (exponent a - exponent b)"

definition float_mul :: "float64 \<Rightarrow> float64 \<Rightarrow> float64" where
  "float_mul a b = round_ratio (mantissa a * mantissa b) 1 (exponent a + exponent b)"

text \<open>Both mantissas at the smaller exponent.\<close>

definition align :: "float64 \<Rightarrow> float64 \<Rightarrow> int \<times> int \<times> int" where
  "align a b =
     (let e = min (exponent a) (exponent b) in
      (scale (mantissa a) (exponent a - e), scale (mantissa b) (exponent b - e), e))"

definition float_less :: "float64 \<Rightarrow> float64 \<Rightarrow> bool" where
  "float_less a b = (let (x, y, e) = align a b in x < y)"

definition float_add :: "float64 \<Rightarrow> float64 \<Rightarrow> float64" where
  "float_add a b = (let (x, y, e) = align a b in round_ratio (x + y) 1 e)"

text \<open>The difference of a value and one that is not greater.\<close>

definition float_sub :: "float64 \<Rightarrow> float64 \<Rightarrow> float64" where
  "float_sub a b = (let (x, y, e) = align a b in round_ratio (x - y) 1 e)"

definition float_max :: "float64 \<Rightarrow> float64 \<Rightarrow> float64" where
  "float_max a b = (if float_less a b then b else a)"

lemma float_examples:
  "float_of_int 3 = Float 6755399441055744 (- 51)"
  "float_div (float_of_int 1) (float_of_int 3) = Float 6004799503160661 (- 54)"
  "float_less (float_of_int 1) (float_of_int 2)" "\<not> float_less (float_of_int 2) (float_of_int 2)"
  by (simp_all add: float_of_int_def float_div_def round_ratio_def round_half_even_def scale_def bit_count.simps
      float_less_def align_def Let_def)

end
