(* ===== verification/Go_Search.thy ===== *)
theory Go_Search
  imports Go_Regexp
begin

text \<open>
  What the program uses of Go's package \<open>regexp\<close> where a pattern is searched for in a text: expressions
  with the assertions \<open>^\<close>, \<open>$\<close> and \<open>\b\<close>, and the leftmost match that a backtracking search with
  greedy repetition finds first.  A place in a text is the rune before it and the runes after it.

  The search is proved to find a match exactly when there is one, in the sense of the inductive relation
  \<open>rx_path\<close> between places.
\<close>

section \<open>Expressions and places\<close>

datatype rx =
    Rx_Chars ranges
  | Rx_Empty
  | Rx_Begin
  | Rx_End
  | Rx_Word
  | Rx_Seq rx rx
  | Rx_Alt rx rx
  | Rx_Star rx

type_synonym place = "rune option \<times> rune list"

definition word_rune :: "rune \<Rightarrow> bool" where
  "word_rune r \<longleftrightarrow> 48 \<le> r \<and> r \<le> 57 \<or> 65 \<le> r \<and> r \<le> 90 \<or> 97 \<le> r \<and> r \<le> 122 \<or> r = 95"

text \<open>An assertion at a place.\<close>

definition word_boundary :: "place \<Rightarrow> bool" where
  "word_boundary p \<longleftrightarrow>
     (case fst p of None \<Rightarrow> False | Some r \<Rightarrow> word_rune r) \<noteq> (case snd p of [] \<Rightarrow> False | r # rs \<Rightarrow> word_rune r)"

inductive rx_path :: "rx \<Rightarrow> place \<Rightarrow> place \<Rightarrow> bool" where
  path_chars: "in_ranges rs r \<Longrightarrow> rx_path (Rx_Chars rs) (prev, r # rest) (Some r, rest)"
| path_empty: "rx_path Rx_Empty p p"
| path_begin: "fst p = None \<Longrightarrow> rx_path Rx_Begin p p"
| path_end: "snd p = [] \<Longrightarrow> rx_path Rx_End p p"
| path_word: "word_boundary p \<Longrightarrow> rx_path Rx_Word p p"
| path_seq: "rx_path a p q \<Longrightarrow> rx_path b q r \<Longrightarrow> rx_path (Rx_Seq a b) p r"
| path_left: "rx_path a p q \<Longrightarrow> rx_path (Rx_Alt a b) p q"
| path_right: "rx_path b p q \<Longrightarrow> rx_path (Rx_Alt a b) p q"
| path_stop: "rx_path (Rx_Star a) p p"
| path_more: "rx_path a p q \<Longrightarrow> length (snd q) < length (snd p) \<Longrightarrow> rx_path (Rx_Star a) q r \<Longrightarrow> rx_path (Rx_Star a) p r"

inductive_simps rx_path_simps [simp]:
  "rx_path (Rx_Chars rs) p q" "rx_path Rx_Empty p q" "rx_path Rx_Begin p q" "rx_path Rx_End p q" "rx_path Rx_Word p q"
  "rx_path (Rx_Seq a b) p q" "rx_path (Rx_Alt a b) p q"

inductive_simps rx_path_star: "rx_path (Rx_Star a) p q"

section \<open>Backtracking\<close>

text \<open>The ends of repetitions in the order of the search, the longest first; \<open>n\<close> bounds the rounds.\<close>

fun star_ends :: "(place \<Rightarrow> place list) \<Rightarrow> nat \<Rightarrow> place \<Rightarrow> place list" where
  "star_ends f 0 p = [p]"
| "star_ends f (Suc n) p =
     concat (map (star_ends f n) (filter (\<lambda>q. length (snd q) < length (snd p)) (f p))) @ [p]"

fun rx_ends :: "rx \<Rightarrow> place \<Rightarrow> place list" where
  "rx_ends (Rx_Chars rs) p =
     (case snd p of [] \<Rightarrow> [] | r # rest \<Rightarrow> if in_ranges rs r then [(Some r, rest)] else [])"
| "rx_ends Rx_Empty p = [p]"
| "rx_ends Rx_Begin p = (if fst p = None then [p] else [])"
| "rx_ends Rx_End p = (if snd p = [] then [p] else [])"
| "rx_ends Rx_Word p = (if word_boundary p then [p] else [])"
| "rx_ends (Rx_Seq a b) p = concat (map (rx_ends b) (rx_ends a p))"
| "rx_ends (Rx_Alt a b) p = rx_ends a p @ rx_ends b p"
| "rx_ends (Rx_Star a) p = star_ends (rx_ends a) (length (snd p)) p"

definition rx_first :: "rx \<Rightarrow> place \<Rightarrow> place option" where
  "rx_first r p = (case rx_ends r p of [] \<Rightarrow> None | q # qs \<Rightarrow> Some q)"

text \<open>\<open>MatchString\<close>.\<close>

fun search_from :: "rx \<Rightarrow> rune option \<Rightarrow> rune list \<Rightarrow> bool" where
  "search_from r prev [] = (rx_ends r (prev, []) \<noteq> [])"
| "search_from r prev (c # cs) = (rx_ends r (prev, c # cs) \<noteq> [] \<or> search_from r (Some c) cs)"

definition rx_search :: "rx \<Rightarrow> bytes \<Rightarrow> bool" where
  "rx_search r s = search_from r None (runes s)"

text \<open>
  The number of matches that \<open>FindAllString\<close> lists for a pattern whose matches are not empty: each is the
  leftmost one after the one before.
\<close>

function count_from :: "rx \<Rightarrow> place \<Rightarrow> nat" where
  "count_from r p =
     (case snd p of
        [] \<Rightarrow> 0
      | c # cs \<Rightarrow>
          (case rx_first r p of
             Some q \<Rightarrow> if length (snd q) < length (snd p) then Suc (count_from r q) else count_from r (Some c, cs)
           | None \<Rightarrow> count_from r (Some c, cs)))"
  by pat_completeness auto
termination
  by (relation "measure (\<lambda>(r, p). length (snd p))") auto

declare count_from.simps [simp del]

definition rx_count :: "rx \<Rightarrow> bytes \<Rightarrow> nat" where
  "rx_count r s = count_from r (None, runes s)"

section \<open>The search finds what there is\<close>

lemma star_ends_iff:
  assumes "\<And>p q. q \<in> set (f p) \<longleftrightarrow> rx_path a p q"
  shows "length (snd p) \<le> n \<Longrightarrow> q \<in> set (star_ends f n p) \<longleftrightarrow> rx_path (Rx_Star a) p q"
proof (induction n arbitrary: p)
  case 0
  then show ?case by (subst rx_path_star) auto
next
  case (Suc n)
  have IH: "q \<in> set (star_ends f n p') \<longleftrightarrow> rx_path (Rx_Star a) p' q" if "length (snd p') < length (snd p)" for p'
    using Suc that by simp
  show ?case by (subst rx_path_star) (auto simp: assms IH)
qed

theorem rx_ends_iff: "q \<in> set (rx_ends r p) \<longleftrightarrow> rx_path r p q"
proof (induction r arbitrary: p q)
  case (Rx_Chars rs)
  then show ?case by (cases p; cases "snd p") auto
next
  case (Rx_Seq r1 r2)
  have "q \<in> set (rx_ends (Rx_Seq r1 r2) p) \<longleftrightarrow> (\<exists>m\<in>set (rx_ends r1 p). q \<in> set (rx_ends r2 m))" by auto
  then show ?case by (simp only: Rx_Seq rx_path_simps Bex_def split_paired_Ex)
next
  case (Rx_Star r)
  then show ?case by (simp add: star_ends_iff)
qed auto

lemma rx_ends_some: "rx_ends r p \<noteq> [] \<longleftrightarrow> (\<exists>q. rx_path r p q)"
  using rx_ends_iff [of _ r p] by (metis list.set_sel(1) empty_iff empty_set)

text \<open>A place inside a text.\<close>

definition place_at :: "rune option \<Rightarrow> rune list \<Rightarrow> place \<Rightarrow> bool" where
  "place_at prev cs p \<longleftrightarrow> (\<exists>u. cs = u @ snd p \<and> fst p = (if u = [] then prev else Some (last u)))"

lemma place_at_Cons: "place_at prev (c # cs) p \<longleftrightarrow> p = (prev, c # cs) \<or> place_at (Some c) cs p"
proof
  assume "place_at prev (c # cs) p"
  then obtain u where u: "c # cs = u @ snd p" "fst p = (if u = [] then prev else Some (last u))"
    by (auto simp: place_at_def)
  show "p = (prev, c # cs) \<or> place_at (Some c) cs p"
  proof (cases u)
    case Nil
    then show ?thesis using u by (cases p) simp
  next
    case (Cons d v)
    then show ?thesis using u by (auto simp: place_at_def)
  qed
next
  assume "p = (prev, c # cs) \<or> place_at (Some c) cs p"
  then show "place_at prev (c # cs) p"
  proof
    assume "p = (prev, c # cs)"
    then show ?thesis by (simp add: place_at_def)
  next
    assume "place_at (Some c) cs p"
    then obtain v where v: "cs = v @ snd p" "fst p = (if v = [] then Some c else Some (last v))"
      by (auto simp: place_at_def)
    then have "c # cs = (c # v) @ snd p" "fst p = Some (last (c # v))" by auto
    then show ?thesis unfolding place_at_def by (metis list.distinct(1))
  qed
qed

lemma search_from_iff: "search_from r prev cs \<longleftrightarrow> (\<exists>p q. place_at prev cs p \<and> rx_path r p q)"
proof (induction cs arbitrary: prev)
  case Nil
  have "place_at prev [] p \<longleftrightarrow> p = (prev, [])" for p by (cases p) (auto simp: place_at_def)
  then show ?case by (simp add: rx_ends_some)
next
  case (Cons c cs)
  have "search_from r prev (c # cs) \<longleftrightarrow>
      (\<exists>q. rx_path r (prev, c # cs) q) \<or> (\<exists>p q. place_at (Some c) cs p \<and> rx_path r p q)"
    using Cons by (simp add: rx_ends_some)
  then show ?case unfolding place_at_Cons by blast
qed

theorem rx_search_iff: "rx_search r s \<longleftrightarrow> (\<exists>p q. place_at None (runes s) p \<and> rx_path r p q)"
  unfolding rx_search_def by (rule search_from_iff)

section \<open>Abbreviations of the pattern syntax\<close>

fun rx_seq :: "rx list \<Rightarrow> rx" where
  "rx_seq [] = Rx_Empty"
| "rx_seq [r] = r"
| "rx_seq (r # rs) = Rx_Seq r (rx_seq rs)"

definition rx_lit :: "bytes \<Rightarrow> rx" where
  "rx_lit s = rx_seq (map (\<lambda>c. Rx_Chars [(byte c, byte c)]) s)"

definition rx_lit_ci :: "bytes \<Rightarrow> rx" where
  "rx_lit_ci s = rx_seq (map (\<lambda>c. Rx_Chars (fold_ranges c)) s)"

definition rx_some :: "rx \<Rightarrow> rx" where
  "rx_some r = Rx_Seq r (Rx_Star r)"

definition rx_opt :: "rx \<Rightarrow> rx" where
  "rx_opt r = Rx_Alt r Rx_Empty"

end
