(* ===== verification/Inspect_Syntax.thy ===== *)
theory Inspect_Syntax
  imports Go_Quoted Go_Regexp Go_Base64 Inspect_Sanitize
begin

text \<open>
  \<open>internal/inspect/analyze.go\<close>, lines 1358 to 2029: the syntax checks of the inspector, which have no
  state.  Header texts are taken apart rune by rune, with the byte position of each rune.

  An \<open>error\<close> that the callers only compare with nil is a constructor of its own; the texts of the errors
  of a tag list are shown in the report.  Addresses are parsed by \<open>net/mail\<close> and URLs by \<open>net/url\<close>, which
  are arguments: how many addresses a list has, or an error.
\<close>

section \<open>Ranging over a string\<close>

text \<open>\<open>for i, r := range s\<close>.\<close>

function ranged_from :: "nat \<Rightarrow> bytes \<Rightarrow> (nat \<times> rune) list" where
  "ranged_from i s =
     (if s = [] then []
      else (let (r, n) = decode_rune s in (i, r) # ranged_from (i + n) (drop n s)))"
  by pat_completeness auto
termination
proof (relation "measure (\<lambda>(i, s). length s)")
  fix i s x r n
  assume "s \<noteq> []" "x = decode_rune s" "(r, n) = x"
  then show "((i + n, drop n s), (i, s)) \<in> measure (\<lambda>(i, s). length s)"
    using decode_rune_width(1) [of s] by (metis case_prod_conv diff_less in_measure length_drop length_greater_0_conv snd_conv)
qed simp

declare ranged_from.simps [simp del]

definition ranged :: "bytes \<Rightarrow> (nat \<times> rune) list" where
  "ranged s = ranged_from 0 s"

text \<open>\<open>s[a:b]\<close>.\<close>

definition substring :: "bytes \<Rightarrow> nat \<Rightarrow> nat \<Rightarrow> bytes" where
  "substring s a b = take (b - a) (drop a s)"

abbreviation rune_of :: "char \<Rightarrow> rune" where
  "rune_of c \<equiv> byte c"

section \<open>Texts\<close>

definition is_ascii :: "bytes \<Rightarrow> bool" where
  "is_ascii s \<longleftrightarrow> list_all (\<lambda>c. byte c < 128) s"

text \<open>\<open>utf8.RuneStart\<close>, and cutting a text at a rune boundary.\<close>

definition rune_start :: "char \<Rightarrow> bool" where
  "rune_start c \<longleftrightarrow> \<not> cont 128 191 (byte c)"

fun back_to_start :: "bytes \<Rightarrow> nat \<Rightarrow> nat" where
  "back_to_start s 0 = 0"
| "back_to_start s (Suc n) = (if rune_start (s ! Suc n) then Suc n else back_to_start s n)"

definition truncate_utf8 :: "bytes \<Rightarrow> nat \<Rightarrow> bytes" where
  "truncate_utf8 s limit = (if length s \<le> limit then s else take (back_to_start s limit) s)"

definition evidence_value :: "bytes \<Rightarrow> bytes" where
  "evidence_value s = truncate_utf8 (join '' '' (string_fields s)) 200"

definition max_searchable_header_bytes :: nat where
  "max_searchable_header_bytes = 8192"

text \<open>The mark \<open> \<dots> [truncated]\<close>, with the ellipsis in UTF-8.\<close>

definition truncation_mark :: bytes where
  "truncation_mark = '' '' @ [CHR 0xE2, CHR 0x80, CHR 0xA6] @ '' [truncated]''"

definition searchable_header_value :: "bytes \<Rightarrow> bytes" where
  "searchable_header_value s =
     (if length s \<le> max_searchable_header_bytes then s
      else truncate_utf8 s (max_searchable_header_bytes - length truncation_mark) @ truncation_mark)"

definition unfold_header_value :: "bytes \<Rightarrow> bytes" where
  "unfold_header_value s =
     trim_space (replace_all [LF, CHR '' ''] '' '' (replace_all [LF, TAB] '' ''
       (replace_all [CR, LF, CHR '' ''] '' '' (replace_all [CR, LF, TAB] '' '' s))))"

definition contains_fold :: "unicode \<Rightarrow> bytes list \<Rightarrow> bytes \<Rightarrow> bool" where
  "contains_fold u values target \<longleftrightarrow> list_ex (\<lambda>v. equal_fold u (trim_space v) target) values"

section \<open>Patterns\<close>

definition field_name_pattern :: re where
  "field_name_pattern = re_some (Re_Chars [(33, 57), (59, 126)])"

definition token_pattern :: re where
  "token_pattern =
     re_some (Re_Chars (chars_of ''!#$%&'' @ [(39, 39)] @ chars_of ''*+-.^_`|~'' @ digits @ letters))"

definition dkim_base64_pattern :: re where
  "dkim_base64_pattern =
     Re_Cat (Re_Many (Re_Chars (letters @ digits @ chars_of ''+/''))) (re_upto 2 (re_char (CHR ''='')))"

definition msg_id_pattern :: re where
  "msg_id_pattern =
     re_cats
       [re_char (CHR ''<''),
        re_some (Re_Chars (ranges_outside 0 [(9, 10), (12, 13), (32, 32), (60, 60), (62, 62), (64, 64)])),
        re_char (CHR ''@''),
        Re_Alt
          (re_some (Re_Chars (ranges_outside 0 [(9, 10), (12, 13), (32, 32), (60, 60), (62, 62)])))
          (re_cats [re_char (CHR ''[''), re_some (Re_Chars (ranges_outside 0 [(10, 10), (13, 13), (93, 93)])), re_char (CHR '']'')]),
        re_char (CHR ''>'')]"

definition is_token :: "bytes \<Rightarrow> bool" where
  "is_token s \<longleftrightarrow> match_string token_pattern s"

section \<open>Comments and message identifiers\<close>

fun strip_loop :: "nat \<Rightarrow> bool \<Rightarrow> rune list \<Rightarrow> rune list" where
  "strip_loop depth escaped [] = []"
| "strip_loop depth escaped (r # rs) =
     (if escaped then (if depth = 0 then [r] else []) @ strip_loop depth False rs
      else if r = rune_of BSLASH then strip_loop depth True rs
      else if r = rune_of (CHR ''('') then strip_loop (Suc depth) False rs
      else if r = rune_of (CHR '')'') \<and> 0 < depth then strip_loop (depth - 1) False rs
      else (if depth = 0 then [r] else []) @ strip_loop depth False rs)"

definition strip_comments :: "bytes \<Rightarrow> bytes" where
  "strip_comments s = encode_runes (strip_loop 0 False (runes s))"

definition valid_message_id :: "bytes \<Rightarrow> bool" where
  "valid_message_id s \<longleftrightarrow> match_string msg_id_pattern (trim_space (strip_comments s))"

lemma length_trim_space: "length (trim_space s) \<le> length s"
proof -
  obtain p q where "s = p @ trim_space s @ q" using trim_space_infix by blast
  then show ?thesis by (metis length_append le_add1 le_add2 order_trans)
qed

text \<open>The loop of \<open>validMessageIDList\<close>: whether the rest is a list, and how many it holds.\<close>

function message_id_loop :: "bytes \<Rightarrow> nat \<Rightarrow> bool" where
  "message_id_loop s count =
     (if s = [] then 0 < count
      else
        (case index_byte (\<lambda>c. c = CHR ''<'') s of
           None \<Rightarrow> False
         | Some start \<Rightarrow>
             if trim_space (take start s) \<noteq> [] then False
             else
               (case index_byte (\<lambda>c. c = CHR ''>'') (drop start s) of
                  None \<Rightarrow> False
                | Some stop \<Rightarrow>
                    if \<not> valid_message_id (take (Suc stop) (drop start s)) then False
                    else message_id_loop (trim_space (drop (Suc (start + stop)) s)) (Suc count))))"
  by pat_completeness auto
termination
proof (relation "measure (\<lambda>(s, count). length s)")
  fix s :: bytes and count start stop :: nat
  assume "s \<noteq> []"
  then have "length (drop (Suc (start + stop)) s) < length s" by simp
  then show "((trim_space (drop (Suc (start + stop)) s), Suc count), (s, count)) \<in> measure (\<lambda>(s, count). length s)"
    using length_trim_space [of "drop (Suc (start + stop)) s"] by simp
qed simp

declare message_id_loop.simps [simp del]

definition valid_message_id_list :: "bytes \<Rightarrow> bool" where
  "valid_message_id_list s = message_id_loop (trim_space (strip_comments s)) 0"

section \<open>Addresses\<close>

datatype address_err =
  Unexpected_Angle | Nested_Group | Empty_Group_Name | Unterminated_Address | Empty_Address_List | Address_Syntax

record address_scan =
  as_out :: "bytes list"
  as_start :: "nat option"
  as_group :: "nat option"
  as_quote :: bool
  as_escape :: bool
  as_angle :: nat
  as_comment :: nat
  as_groups :: bool

definition new_address_scan :: address_scan where
  "new_address_scan = \<lparr>as_out = [], as_start = None, as_group = None, as_quote = False, as_escape = False,
     as_angle = 0, as_comment = 0, as_groups = False\<rparr>"

text \<open>The \<open>switch\<close> on a rune outside comments and quotes.\<close>

definition address_switch :: "bytes \<Rightarrow> nat \<Rightarrow> rune \<Rightarrow> address_scan \<Rightarrow> bool \<times> (address_err + address_scan)" where
  "address_switch s i r a =
     (if r = rune_of (CHR ''<'') then (as_groups a, Inr (a\<lparr>as_angle := Suc (as_angle a)\<rparr>))
      else if r = rune_of (CHR ''>'') then
        (if as_angle a = 0 then (as_groups a, Inl Unexpected_Angle)
         else (as_groups a, Inr (a\<lparr>as_angle := as_angle a - 1\<rparr>)))
      else if r = rune_of (CHR '':'') \<and> as_angle a = 0 then
        (if as_group a \<noteq> None then (as_groups a, Inl Nested_Group)
         else if as_start a = None \<and> trim_space (take i s) = [] then (True, Inl Empty_Group_Name)
         else (True, Inr (a\<lparr>as_groups := True, as_group := Some (i + 1)\<rparr>)))
      else if r = rune_of (CHR '';'') \<and> as_angle a = 0 \<and> as_group a \<noteq> None then
        (as_groups a, Inr (a\<lparr>as_out := as_out a @ [substring s (the (as_group a)) i], as_group := None, as_start := Some (i + 1)\<rparr>))
      else if r = rune_of (CHR '','') \<and> as_angle a = 0 \<and> as_group a = None then
        (as_groups a,
         Inr (a\<lparr>as_out := as_out a @ [substring s (case as_start a of None \<Rightarrow> 0 | Some n \<Rightarrow> n) i], as_start := Some (i + 1)\<rparr>))
      else (as_groups a, Inr a))"

definition address_step :: "bytes \<Rightarrow> nat \<Rightarrow> rune \<Rightarrow> address_scan \<Rightarrow> bool \<times> (address_err + address_scan)" where
  "address_step s i r a =
     (if as_escape a then (as_groups a, Inr (a\<lparr>as_escape := False\<rparr>))
      else if r = rune_of BSLASH \<and> (as_quote a \<or> 0 < as_comment a) then (as_groups a, Inr (a\<lparr>as_escape := True\<rparr>))
      else if 0 < as_comment a then
        (as_groups a,
         Inr (if r = rune_of (CHR ''('') then a\<lparr>as_comment := Suc (as_comment a)\<rparr>
              else if r = rune_of (CHR '')'') then a\<lparr>as_comment := as_comment a - 1\<rparr> else a))
      else if r = rune_of (CHR ''('') \<and> \<not> as_quote a then (as_groups a, Inr (a\<lparr>as_comment := 1\<rparr>))
      else if r = rune_of DQUOTE \<and> as_angle a = 0 then (as_groups a, Inr (a\<lparr>as_quote := \<not> as_quote a\<rparr>))
      else if as_quote a then (as_groups a, Inr a)
      else address_switch s i r a)"

fun address_loop :: "bytes \<Rightarrow> (nat \<times> rune) list \<Rightarrow> address_scan \<Rightarrow> bool \<times> (address_err + address_scan)" where
  "address_loop s [] a = (as_groups a, Inr a)"
| "address_loop s ((i, r) # rs) a =
     (case address_step s i r a of
        (g, Inl e) \<Rightarrow> (g, Inl e)
      | (g, Inr a') \<Rightarrow> address_loop s rs a')"

text \<open>Whether there are groups, and the segments.\<close>

definition split_address_groups :: "bytes \<Rightarrow> bool \<times> (address_err + bytes list)" where
  "split_address_groups s =
     (case address_loop s (ranged s) new_address_scan of
        (g, Inl e) \<Rightarrow> (g, Inl e)
      | (g, Inr a) \<Rightarrow>
          if as_quote a \<or> as_comment a \<noteq> 0 \<or> as_angle a \<noteq> 0 \<or> as_group a \<noteq> None then (g, Inl Unterminated_Address)
          else
            (let start = (case as_start a of None \<Rightarrow> 0 | Some n \<Rightarrow> n) in
             (g, Inr (as_out a @ (if start < length s then [drop start s] else [])))))"

fun count_addresses :: "(bytes \<Rightarrow> nat option) \<Rightarrow> bytes list \<Rightarrow> nat \<Rightarrow> nat \<times> bool" where
  "count_addresses parse [] count = (count, True)"
| "count_addresses parse (s # ss) count =
     (let s = trim_space s in
      if s = [] then count_addresses parse ss count
      else
        (case parse s of
           None \<Rightarrow> (count, False)
         | Some n \<Rightarrow> count_addresses parse ss (count + n)))"

text \<open>How many addresses, whether there are groups, and the error.\<close>

definition parse_address_field :: "(bytes \<Rightarrow> nat option) \<Rightarrow> bytes \<Rightarrow> bool \<Rightarrow> nat \<times> bool \<times> address_err option" where
  "parse_address_field parse s allow_empty =
     (let s = trim_space s in
      if s = [] \<and> allow_empty then (0, False, None)
      else
        (case split_address_groups s of
           (groups, Inl e) \<Rightarrow> (0, groups, Some e)
         | (groups, Inr segments) \<Rightarrow>
             (case count_addresses parse segments 0 of
                (count, False) \<Rightarrow> (count, groups, Some Address_Syntax)
              | (count, True) \<Rightarrow>
                  if count = 0 \<and> \<not> groups then (0, groups, Some Empty_Address_List)
                  else (count, groups, None))))"

section \<open>Transfer encodings\<close>

definition invalid_base64 :: "bytes \<Rightarrow> bool" where
  "invalid_base64 body =
     (let clean = filter (\<lambda>c. c \<notin> set [CR, LF, CHR '' '', TAB]) body in
      if \<not> match_string dkim_base64_pattern clean \<or> length clean mod 4 \<noteq> 0 then True
      else b64_decode False clean = None)"

definition is_hex :: "char \<Rightarrow> bool" where
  "is_hex c \<longleftrightarrow> 48 \<le> byte c \<and> byte c \<le> 57 \<or> 65 \<le> byte c \<and> byte c \<le> 70 \<or> 97 \<le> byte c \<and> byte c \<le> 102"

fun bad_escape :: "bytes \<Rightarrow> bool" where
  "bad_escape [] = False"
| "bad_escape (c # s) =
     (if c \<noteq> CHR ''='' then bad_escape s
      else
        (case s of
           a # b # t \<Rightarrow>
             if a = CR \<and> b = LF then bad_escape t
             else if \<not> is_hex a \<or> \<not> is_hex b then True
             else bad_escape t
         | _ \<Rightarrow> True))"

definition invalid_quoted_printable :: "bytes \<Rightarrow> bool" where
  "invalid_quoted_printable body = (if bad_escape body then True else qp_read body = None)"

function encoded_line_over :: "bytes \<Rightarrow> nat \<Rightarrow> bool" where
  "encoded_line_over body limit =
     (if body = [] then False
      else
        (let stop = (case index_byte (\<lambda>c. c = LF) body of None \<Rightarrow> length body | Some i \<Rightarrow> i);
             line = trim_suffix (take stop body) [CR] in
         if limit < length line then True else encoded_line_over (drop (stop + 1) body) limit))"
  by pat_completeness auto
termination
  by (relation "measure (\<lambda>(body, limit). length body)") (auto simp: Let_def)

declare encoded_line_over.simps [simp del]

text \<open>A line feed without a carriage return before it.\<close>

fun bare_newline :: "bool \<Rightarrow> bytes \<Rightarrow> bool" where
  "bare_newline after_cr [] = False"
| "bare_newline after_cr (c # s) = ((c = LF \<and> \<not> after_cr) \<or> bare_newline (c = CR) s)"

definition transfer_domain_contradiction :: "bytes \<Rightarrow> bytes \<Rightarrow> bytes" where
  "transfer_domain_contradiction body encoding =
     (if NUL \<in> set body then ''The raw body contains NUL octets that contradict the declared transfer domain.''
      else if encoding = ''7bit'' \<and> \<not> is_ascii body then
        ''The raw body contains high octets that contradict declared 7bit content.''
      else if LF \<in> set body \<and> bare_newline False body then
        ''The raw body uses non-CRLF line breaks that contradict the declared transfer domain.''
      else if encoded_line_over body 998 then
        ''The raw body contains a line over 998 octets that contradicts the declared transfer domain.''
      else [])"

section \<open>File names and content identifiers\<close>

text \<open>\<open>unicode.IsLetter\<close> of a rune below 256.\<close>

definition is_latin_letter :: "nat \<Rightarrow> bool" where
  "is_latin_letter n \<longleftrightarrow>
     65 \<le> n \<and> n \<le> 90 \<or> 97 \<le> n \<and> n \<le> 122 \<or> n = 170 \<or> n = 181 \<or> n = 186
     \<or> 192 \<le> n \<and> n \<le> 214 \<or> 216 \<le> n \<and> n \<le> 246 \<or> 248 \<le> n \<and> n \<le> 255"

definition dangerous_filename :: "unicode \<Rightarrow> bytes \<Rightarrow> bool" where
  "dangerous_filename u s =
     (let lower = to_lower u (trim_space s) in
      NUL \<in> set s \<or> contains_any [CHR ''/'', BSLASH] s
      \<or> (2 \<le> length s \<and> s ! 1 = CHR '':'' \<and> is_latin_letter (byte (s ! 0)))
      \<or> lower = ''.'' \<or> lower = ''..'' \<or> has_suffix lower ''/.'' \<or> has_suffix lower ''/..'')"

definition inspect_content_id :: "unicode \<Rightarrow> bytes \<Rightarrow> bytes" where
  "inspect_content_id u s =
     (let s = trim_space s;
          s = (if 4 \<le> length s \<and> equal_fold u (take 4 s) ''cid:'' then drop 4 s else s) in
      trim_set ''<>'' (trim_space s))"

section \<open>Authentication results\<close>

record field_scan =
  fs_fields :: "bytes list"
  fs_start :: "nat option"
  fs_comment :: nat
  fs_quote :: bool
  fs_escape :: bool

definition new_field_scan :: field_scan where
  "new_field_scan = \<lparr>fs_fields = [], fs_start = None, fs_comment = 0, fs_quote = False, fs_escape = False\<rparr>"

text \<open>A rune that is not escaped; \<open>None\<close> is a closing parenthesis that nothing opened.\<close>

definition field_rune :: "bytes \<Rightarrow> nat \<Rightarrow> rune \<Rightarrow> field_scan \<Rightarrow> field_scan option" where
  "field_rune s i r f =
     (if \<not> fs_quote f \<and> r = rune_of (CHR '')'') \<and> fs_comment f = 0 then None
      else
        (let f = (if fs_quote f then f
                  else if r = rune_of (CHR ''('') then f\<lparr>fs_comment := Suc (fs_comment f)\<rparr>
                  else if r = rune_of (CHR '')'') then f\<lparr>fs_comment := fs_comment f - 1\<rparr> else f);
             f = (if fs_comment f = 0 \<and> r = rune_of DQUOTE then f\<lparr>fs_quote := \<not> fs_quote f\<rparr> else f) in
         Some
           (if fs_comment f = 0 \<and> \<not> fs_quote f \<and> is_space r then
              (case fs_start f of
                 None \<Rightarrow> f
               | Some start \<Rightarrow> f\<lparr>fs_fields := fs_fields f @ [substring s start i], fs_start := None\<rparr>)
            else if fs_start f = None \<and> fs_comment f = 0 then f\<lparr>fs_start := Some i\<rparr>
            else f)))"

fun field_loop :: "bytes \<Rightarrow> (nat \<times> rune) list \<Rightarrow> field_scan \<Rightarrow> field_scan option" where
  "field_loop s [] f = Some f"
| "field_loop s ((i, r) # rs) f =
     (if fs_escape f then field_loop s rs (f\<lparr>fs_escape := False\<rparr>)
      else if r = rune_of BSLASH \<and> (fs_quote f \<or> 0 < fs_comment f) then field_loop s rs (f\<lparr>fs_escape := True\<rparr>)
      else (case field_rune s i r f of None \<Rightarrow> None | Some f' \<Rightarrow> field_loop s rs f'))"

definition split_auth_fields :: "bytes \<Rightarrow> bytes list option" where
  "split_auth_fields s =
     (case field_loop s (ranged s) new_field_scan of
        None \<Rightarrow> None
      | Some f \<Rightarrow>
          if fs_quote f \<or> fs_comment f \<noteq> 0 \<or> fs_escape f then None
          else Some (fs_fields f @ (case fs_start f of None \<Rightarrow> [] | Some start \<Rightarrow> [drop start s])))"

text \<open>Cutting at the semicolons outside comments and quotes.\<close>

fun semicolon_loop ::
  "bytes \<Rightarrow> (nat \<times> rune) list \<Rightarrow> nat \<Rightarrow> nat \<Rightarrow> bool \<Rightarrow> bool \<Rightarrow> bytes list \<Rightarrow> bytes list" where
  "semicolon_loop s [] start comment quote escape out = out @ [drop start s]"
| "semicolon_loop s ((i, r) # rs) start comment quote escape out =
     (if escape then semicolon_loop s rs start comment quote False out
      else if r = rune_of BSLASH then semicolon_loop s rs start comment quote True out
      else
        (let comment = (if quote then comment
                        else if r = rune_of (CHR ''('') then Suc comment
                        else if r = rune_of (CHR '')'') \<and> 0 < comment then comment - 1 else comment);
             quote = (if comment = 0 \<and> r = rune_of DQUOTE then \<not> quote else quote) in
         if comment = 0 \<and> \<not> quote \<and> r = rune_of (CHR '';'')
         then semicolon_loop s rs (i + 1) comment quote False (out @ [substring s start i])
         else semicolon_loop s rs start comment quote False out))"

definition split_semicolon :: "bytes \<Rightarrow> bytes list" where
  "split_semicolon s = semicolon_loop s (ranged s) 0 0 False False []"

definition valid_authserv_id :: "bytes \<Rightarrow> bool" where
  "valid_authserv_id s \<longleftrightarrow> s \<noteq> [] \<and> \<not> contains_any ('' '' @ [TAB] @ '';()'') s"

definition property_ok :: "bytes \<Rightarrow> bool" where
  "property_ok p =
     (case split_two (CHR ''='') p of
        [name, v] \<Rightarrow> trim_space v \<noteq> [] \<and> is_token (hd (split_two (CHR ''.'') name))
      | _ \<Rightarrow> False)"

definition clause_ok :: "bytes \<Rightarrow> bool" where
  "clause_ok clause =
     (let clause = trim_space clause in
      if clause = [] then True
      else
        (case split_auth_fields clause of
           Some (f # fs) \<Rightarrow>
             (case split_two (CHR ''='') f of
                [name, v] \<Rightarrow>
                  is_token (hd (split_two (CHR ''/'') name)) \<and> is_token v \<and> list_all property_ok fs
              | _ \<Rightarrow> False)
         | _ \<Rightarrow> False))"

definition parse_authentication_results :: "bytes \<Rightarrow> bytes option" where
  "parse_authentication_results s =
     (let parts = split_semicolon s in
      case parts of
        [] \<Rightarrow> None
      | p # ps \<Rightarrow>
          (case string_fields (strip_comments p) of
             [] \<Rightarrow> None
           | h # hs \<Rightarrow>
               if valid_authserv_id (trim_suffix h ''.0'') \<and> list_all clause_ok ps then Some h else None))"

section \<open>Tag lists: DKIM and ARC\<close>

datatype tag_err =
    Tag_Lacks_Equals
  | Invalid_Tag_Name
  | Duplicate_Tag bytes
  | Missing_Tag bytes
  | Version_Not_One
  | Invalid_Base64_Tag
  | H_Omits_From
  | Invalid_T
  | Invalid_X
  | X_Not_After_T
  | Invalid_Seal_Tag bytes
  | Invalid_Seal_Base64
  | Invalid_Cv

definition tag_err_text :: "tag_err \<Rightarrow> bytes" where
  "tag_err_text e =
     (case e of
        Tag_Lacks_Equals \<Rightarrow> ''tag lacks equals''
      | Invalid_Tag_Name \<Rightarrow> ''invalid tag name''
      | Duplicate_Tag name \<Rightarrow> ''duplicate tag '' @ name
      | Missing_Tag name \<Rightarrow> ''missing '' @ name
      | Version_Not_One \<Rightarrow> ''v must be 1''
      | Invalid_Base64_Tag \<Rightarrow> ''invalid base64 tag''
      | H_Omits_From \<Rightarrow> ''h omits From''
      | Invalid_T \<Rightarrow> ''invalid t''
      | Invalid_X \<Rightarrow> ''invalid x''
      | X_Not_After_T \<Rightarrow> ''x must exceed t''
      | Invalid_Seal_Tag name \<Rightarrow> ''invalid ARC-Seal tag '' @ name
      | Invalid_Seal_Base64 \<Rightarrow> ''invalid base64''
      | Invalid_Cv \<Rightarrow> ''invalid cv'')"

type_synonym tags = params

definition parse_tag :: "unicode \<Rightarrow> tags \<Rightarrow> bytes \<Rightarrow> tag_err + tags" where
  "parse_tag u tags part =
     (let part = trim_space part in
      if part = [] then Inr tags
      else
        (case split_two (CHR ''='') part of
           [n, v] \<Rightarrow>
             (let name = to_lower u (trim_space n) in
              if \<not> is_token name then Inl Invalid_Tag_Name
              else if map_of tags name \<noteq> None then Inl (Duplicate_Tag name)
              else Inr (tags @ [(name, trim_space v)]))
         | _ \<Rightarrow> Inl Tag_Lacks_Equals))"

fun parse_tag_parts :: "unicode \<Rightarrow> tags \<Rightarrow> bytes list \<Rightarrow> tag_err + tags" where
  "parse_tag_parts u tags [] = Inr tags"
| "parse_tag_parts u tags (p # ps) =
     (case parse_tag u tags p of Inl e \<Rightarrow> Inl e | Inr tags' \<Rightarrow> parse_tag_parts u tags' ps)"

definition parse_tag_list :: "unicode \<Rightarrow> bytes \<Rightarrow> tag_err + tags" where
  "parse_tag_list u s = parse_tag_parts u [] (split_semicolon s)"

definition valid_dkim_base64 :: "bytes \<Rightarrow> bool" where
  "valid_dkim_base64 s \<longleftrightarrow> (let v = concat (string_fields s) in v \<noteq> [] \<and> match_string dkim_base64_pattern v)"

definition validate_timestamp :: "tags \<Rightarrow> tag_err option" where
  "validate_timestamp tags =
     (let t = param tags ''t''; x = param tags ''x'' in
      if t \<noteq> [] \<and> atoi t = None then Some Invalid_T
      else if x \<noteq> [] then
        (case atoi x of
           None \<Rightarrow> Some Invalid_X
         | Some v \<Rightarrow> if t \<noteq> [] \<and> v \<le> the (atoi t) then Some X_Not_After_T else None)
      else None)"

definition validate_dkim :: "unicode \<Rightarrow> tags \<Rightarrow> bool \<Rightarrow> tag_err option" where
  "validate_dkim u tags arc =
     (let required = [''a'', ''b'', ''bh'', ''d'', ''h'', ''s''] @ (if arc then [''i''] else [''v'']) in
      case find (\<lambda>name. trim_space (param tags name) = []) required of
        Some name \<Rightarrow> Some (Missing_Tag name)
      | None \<Rightarrow>
          if \<not> arc \<and> param tags ''v'' \<noteq> ''1'' then Some Version_Not_One
          else if \<not> valid_dkim_base64 (param tags ''b'') \<or> \<not> valid_dkim_base64 (param tags ''bh'') then Some Invalid_Base64_Tag
          else if param tags ''h'' = [] \<or> \<not> contains_fold u (split_byte (CHR '':'') (param tags ''h'')) ''from''
          then Some H_Omits_From
          else validate_timestamp tags)"

definition seal_tags :: "bytes list" where
  "seal_tags = [''i'', ''a'', ''b'', ''d'', ''s'', ''cv'', ''t'']"

text \<open>Which of several foreign tags the error names depends on the order of Go's map; no caller reads it.\<close>

definition validate_arc_seal :: "unicode \<Rightarrow> tags \<Rightarrow> tag_err option" where
  "validate_arc_seal u tags =
     (case find (\<lambda>name. name \<notin> set seal_tags) (map fst tags) of
        Some name \<Rightarrow> Some (Invalid_Seal_Tag name)
      | None \<Rightarrow>
          (case find (\<lambda>name. param tags name = []) [''i'', ''a'', ''b'', ''d'', ''s'', ''cv''] of
             Some name \<Rightarrow> Some (Missing_Tag name)
           | None \<Rightarrow>
               if \<not> valid_dkim_base64 (param tags ''b'') then Some Invalid_Seal_Base64
               else if to_lower u (param tags ''cv'') \<notin> {''none'', ''pass'', ''fail''} then Some Invalid_Cv
               else validate_timestamp tags))"

text \<open>\<open>i, _ = strconv.Atoi(s)\<close> compared with 1 and 50: with an error the value is 0 or a bound of \<open>int\<close>.\<close>

definition instance_of :: "bytes \<Rightarrow> int option" where
  "instance_of s = (case atoi s of None \<Rightarrow> None | Some i \<Rightarrow> if 1 \<le> i \<and> i \<le> 50 then Some i else None)"

definition arc_instance_tag :: "unicode \<Rightarrow> bytes \<Rightarrow> int option" where
  "arc_instance_tag u segment =
     (case string_fields segment of
        [tag] \<Rightarrow> if length tag < 3 \<or> \<not> equal_fold u (take 2 tag) ''i='' then None else atoi (drop 2 tag)
      | _ \<Rightarrow> None)"

fun arc_head_loop :: "unicode \<Rightarrow> bytes list \<Rightarrow> int option \<Rightarrow> bytes \<Rightarrow> int option \<times> bytes" where
  "arc_head_loop u [] i authserv = (i, authserv)"
| "arc_head_loop u (p # ps) i authserv =
     (let lower = to_lower u p in
      if has_prefix lower ''i='' then arc_head_loop u ps (instance_of (trim_prefix lower ''i='')) authserv
      else arc_head_loop u ps i p)"

text \<open>The instance when it is between 1 and 50 and the rest is well formed.\<close>

definition parse_arc_instance :: "unicode \<Rightarrow> bytes \<Rightarrow> int option" where
  "parse_arc_instance u s =
     (case split_two (CHR '';'') (trim_space s) of
        [segment, rest] \<Rightarrow>
          (case arc_instance_tag u segment of
             Some i \<Rightarrow>
               if parse_authentication_results (trim_space rest) \<noteq> None \<and> 1 \<le> i \<and> i \<le> 50 then Some i else None
           | None \<Rightarrow>
               (let head = string_fields segment in
                if length head < 2 then None
                else
                  (let (i, authserv) = arc_head_loop u head None [] in
                   if parse_authentication_results (authserv @ '';'' @ rest) \<noteq> None then i else None)))
      | _ \<Rightarrow> None)"

section \<open>Unsubscribe fields\<close>

fun angle_loop :: "bytes \<Rightarrow> (nat \<times> rune) list \<Rightarrow> nat \<Rightarrow> bool \<Rightarrow> bytes list \<Rightarrow> bytes list option" where
  "angle_loop s [] start inside parts = (if inside then None else Some (parts @ [drop start s]))"
| "angle_loop s ((i, r) # rs) start inside parts =
     (if r = rune_of (CHR ''<'') then (if inside then None else angle_loop s rs start True parts)
      else if r = rune_of (CHR ''>'') then (if inside then angle_loop s rs start False parts else None)
      else if r = rune_of (CHR '','') \<and> \<not> inside then angle_loop s rs (i + 1) inside (parts @ [substring s start i])
      else angle_loop s rs start inside parts)"

definition split_angle_list :: "bytes \<Rightarrow> bytes list option" where
  "split_angle_list s = angle_loop s (ranged s) 0 False []"

definition unsubscribe_uri :: "unicode \<Rightarrow> (bytes \<Rightarrow> url option) \<Rightarrow> bytes \<Rightarrow> url option" where
  "unsubscribe_uri u parse part =
     (let part = trim_space part in
      if length part < 3 \<or> hd part \<noteq> CHR ''<'' \<or> last part \<noteq> CHR ''>'' then None
      else
        (let inside = butlast (tl part) in
         case parse inside of
           None \<Rightarrow> None
         | Some v \<Rightarrow>
             if ur_scheme v = [] \<or> contains_any (''<>'' @ CRLF) inside then None
             else
               (let scheme = to_lower u (ur_scheme v) in
                if scheme = ''http'' \<or> scheme = ''https'' then
                  (if ur_host v = [] \<or> \<not> has_prefix (to_lower u inside) (scheme @ ''://'') then None else Some v)
                else if scheme = ''mailto'' \<and> ur_opaque v = [] \<and> ur_path v = [] then None
                else Some v)))"

fun collect_all :: "('a \<Rightarrow> 'b option) \<Rightarrow> 'a list \<Rightarrow> 'b list option" where
  "collect_all f [] = Some []"
| "collect_all f (x # xs) =
     (case f x of None \<Rightarrow> None | Some y \<Rightarrow> map_option (Cons y) (collect_all f xs))"

text \<open>The values of the fields, of which there must be one; \<open>None\<close> is a malformed field.\<close>

definition parse_list_unsubscribe :: "unicode \<Rightarrow> (bytes \<Rightarrow> url option) \<Rightarrow> bytes list \<Rightarrow> url list option" where
  "parse_list_unsubscribe u parse values =
     (case values of
        [v] \<Rightarrow>
          (let v = trim_space v in
           if v = [] then None
           else
             (case split_angle_list v of
                None \<Rightarrow> None
              | Some parts \<Rightarrow> collect_all (unsubscribe_uri u parse) parts))
      | _ \<Rightarrow> None)"

section \<open>Links in plain text\<close>

text \<open>The pattern \<open>textResourceRE\<close>, \<open>(?i)https?://[^\s<>"')\]]+\<close>, found from left to right.\<close>

fun match_classes :: "ranges list \<Rightarrow> bytes \<Rightarrow> bytes option" where
  "match_classes [] s = Some s"
| "match_classes (r # rs) s =
     (if s \<noteq> [] \<and> in_ranges r (fst (decode_rune s)) then match_classes rs (drop (snd (decode_rune s)) s) else None)"

definition link_scheme :: "bytes \<Rightarrow> bytes option" where
  "link_scheme s =
     (case match_classes (map fold_ranges ''http'') s of
        None \<Rightarrow> None
      | Some r \<Rightarrow>
          (case match_classes (map fold_ranges ''s://'') r of
             Some r' \<Rightarrow> Some r'
           | None \<Rightarrow> match_classes (map fold_ranges ''://'') r))"

definition link_stop :: "rune \<Rightarrow> bool" where
  "link_stop r \<longleftrightarrow> in_ranges (re_space @ chars_of (''<>'' @ [DQUOTE, CHR 0x27] @ '')]'')) r"

function link_rest :: "bytes \<Rightarrow> bytes" where
  "link_rest s = (if s = [] \<or> link_stop (fst (decode_rune s)) then s else link_rest (drop (snd (decode_rune s)) s))"
  by pat_completeness auto
termination
  by (relation "measure length") (auto simp: decode_rune_width)

declare link_rest.simps [simp del]

text \<open>What follows a match at the front.\<close>

definition match_link :: "bytes \<Rightarrow> bytes option" where
  "match_link s =
     (case link_scheme s of
        None \<Rightarrow> None
      | Some r \<Rightarrow> if length (link_rest r) < length r then Some (link_rest r) else None)"

lemma match_classes_suffix: "match_classes rs s = Some t \<Longrightarrow> length t \<le> length s"
  by (induction rs s rule: match_classes.induct) (fastforce split: if_splits)+

lemma link_scheme_suffix: "link_scheme s = Some t \<Longrightarrow> length t \<le> length s"
  unfolding link_scheme_def by (auto split: option.splits dest!: match_classes_suffix simp del: match_classes.simps)

lemma match_link_shorter: "match_link s = Some t \<Longrightarrow> length t < length s"
  by (auto simp: match_link_def dest: link_scheme_suffix split: option.splits if_splits)

function find_links :: "bytes \<Rightarrow> bytes list" where
  "find_links [] = []"
| "find_links (c # s) =
     (case match_link (c # s) of
        Some rest \<Rightarrow> take (length (c # s) - length rest) (c # s) # find_links rest
      | None \<Rightarrow> find_links s)"
  by pat_completeness auto
termination
  by (relation "measure length") (auto dest: match_link_shorter)

end
