(* ===== verification/Inspect_Report.thy ===== *)
theory Inspect_Report
  imports Go_Float Inspect_Syntax Mime_Types
begin

text \<open>
  \<open>internal/inspect/report.go\<close> and the part of \<open>analyze.go\<close> that collects a report: findings and
  resources under their limits, the causes of truncation, the order of findings, the summary, the tree of
  MIME parts and the trimming of a report whose JSON text is too long.

  The slices and maps of the analyzer are lists and sets; \<open>nil\<close> and empty evidence are the same, since
  \<open>addFinding\<close> replaces the one by the other.  The length of the JSON text of a report and the checksums are
  parameters.
\<close>

section \<open>The report\<close>

definition max_html_nodes :: nat where "max_html_nodes = 100000"
definition max_resources :: nat where "max_resources = 2000"
definition max_findings :: nat where "max_findings = 2000"
definition max_evidence :: nat where "max_evidence = 20"
definition max_report_bytes :: nat where "max_report_bytes = 4194304"

record reference =
  rf_label :: bytes
  rf_url :: bytes

record evidence =
  ev_source :: bytes
  ev_path :: "bytes option"
  ev_field :: "bytes option"
  ev_occurrence :: "int option"
  ev_line :: "int option"
  ev_value :: "bytes option"

definition evidence_of :: "bytes \<Rightarrow> evidence" where
  "evidence_of source = \<lparr>ev_source = source, ev_path = None, ev_field = None, ev_occurrence = None,
     ev_line = None, ev_value = None\<rparr>"

record finding =
  fd_id :: bytes
  fd_category :: bytes
  fd_outcome :: bytes
  fd_severity :: bytes
  fd_basis :: bytes
  fd_applicability :: bytes
  fd_label :: bytes
  fd_detail :: bytes
  fd_evidence :: "evidence list"
  fd_evidence_truncated :: bool
  fd_reference :: "reference option"

definition new_finding ::
  "bytes \<Rightarrow> bytes \<Rightarrow> bytes \<Rightarrow> bytes \<Rightarrow> bytes \<Rightarrow> bytes \<Rightarrow> bytes \<Rightarrow> bytes \<Rightarrow> evidence list \<Rightarrow> reference option \<Rightarrow> finding" where
  "new_finding ident category outcome severity basis applicability label detail evidence ref =
     \<lparr>fd_id = ident, fd_category = category, fd_outcome = outcome, fd_severity = severity, fd_basis = basis,
      fd_applicability = applicability, fd_label = label, fd_detail = detail, fd_evidence = evidence,
      fd_evidence_truncated = False, fd_reference = ref\<rparr>"

definition rfc :: "bytes \<Rightarrow> bytes \<Rightarrow> reference option" where
  "rfc label url = Some \<lparr>rf_label = label, rf_url = url\<rparr>"

text \<open>The section sign in UTF-8, and the address of an RFC.\<close>

definition section_sign :: bytes where
  "section_sign = [CHR 0xC2, CHR 0xA7]"

record resource =
  rs_kind :: bytes
  rs_path :: "bytes option"
  rs_url :: bytes
  rs_text :: bytes
  rs_count :: int

record header =
  rh_name :: bytes
  rh_value :: bytes
  rh_occurrence :: int
  rh_line :: int

record checksums =
  cs_md5 :: bytes
  cs_sha1 :: bytes
  cs_sha256 :: bytes

record mime_entry =
  me_path :: bytes
  me_content_type :: bytes
  me_charset :: "bytes option"
  me_encoding :: "bytes option"
  me_disposition :: "bytes option"
  me_filename :: "bytes option"
  me_content_id :: "bytes option"
  me_raw_size :: "int option"
  me_decoded_size :: "int option"
  me_checksums :: "checksums option"

datatype mime_node = Mime_Node (entry: mime_entry) (parts: "mime_node list")

text \<open>The compatibility part of a report; its scores are of type \<open>float64\<close>.\<close>

record compatibility_score =
  sc_supported :: float64
  sc_partial :: float64
  sc_unsupported :: float64

record compatibility_client =
  cl_name :: bytes
  cl_family :: bytes
  cl_platform :: bytes
  cl_version :: bytes
  cl_support :: bytes
  cl_note :: "bytes option"

record compatibility_warning =
  cw_slug :: bytes
  cw_title :: bytes
  cw_category :: bytes
  cw_description :: bytes
  cw_url :: bytes
  cw_occurrences :: int
  cw_score :: compatibility_score
  cw_clients :: "compatibility_client list"

record compatibility_platform =
  cp_family :: bytes
  cp_platform :: bytes
  cp_label :: bytes

record html_compatibility =
  hc_data_version :: bytes
  hc_data_updated :: bytes
  hc_nodes :: int
  hc_tests :: int
  hc_score :: compatibility_score
  hc_platforms :: "compatibility_platform list"
  hc_warnings :: "compatibility_warning list"
  hc_warnings_truncated :: bool
  hc_clients_truncated :: bool
  hc_truncated :: bool
  hc_truncation_cause :: bytes

record analysis =
  an_version :: int
  an_state :: bytes
  an_parsed_through :: "bytes option"
  an_unavailable :: "bytes list"
  an_truncated :: bool

record summary =
  sm_fail :: int
  sm_warning :: int
  sm_advisory :: int
  sm_observed :: int
  sm_pass :: int
  sm_not_evaluated :: int

record report =
  rp_analysis :: analysis
  rp_summary :: summary
  rp_findings :: "finding list"
  rp_headers :: "header list"
  rp_resources :: "resource list"
  rp_mime_tree :: "mime_node option"
  rp_compatibility :: "html_compatibility option"

section \<open>What is collected\<close>

record collector =
  co_findings :: "finding list"
  co_resources :: "resource list"
  co_index :: "(bytes \<times> nat) list"
  co_causes :: "bytes set"
  co_unavailable :: "bytes set"

definition new_collector :: collector where
  "new_collector = \<lparr>co_findings = [], co_resources = [], co_index = [], co_causes = {}, co_unavailable = {}\<rparr>"

definition truncation_order :: "bytes list" where
  "truncation_order =
     [''raw bytes'', ''MIME depth'', ''MIME parts'', ''header fields'', ''header bytes'', ''physical lines'',
      ''legacy body bytes'', ''HTML nodes'', ''HTML token bytes'', ''style bytes'', ''compatibility warnings'',
      ''resource values'', ''resources'', ''findings'', ''evidence'', ''report bytes'']"

definition unavailable_order :: "bytes list" where
  "unavailable_order =
     [''message'', ''mime'', ''authentication'', ''unsubscribe'', ''content'', ''privacy'', ''compatibility'']"

definition note_cause :: "bytes \<Rightarrow> collector \<Rightarrow> collector" where
  "note_cause cause c = (if cause = [] then c else c\<lparr>co_causes := insert cause (co_causes c)\<rparr>)"

definition add_unavailable :: "bytes list \<Rightarrow> collector \<Rightarrow> collector" where
  "add_unavailable values c = c\<lparr>co_unavailable := co_unavailable c \<union> set values\<rparr>"

definition unavailable_families :: "collector \<Rightarrow> bytes list" where
  "unavailable_families c = filter (\<lambda>v. v \<in> co_unavailable c) unavailable_order"

definition ordered_causes :: "collector \<Rightarrow> bytes list" where
  "ordered_causes c = filter (\<lambda>v. v \<in> co_causes c) truncation_order"

definition normalize_cause :: "unicode \<Rightarrow> bytes \<Rightarrow> bytes" where
  "normalize_cause u v =
     (let lower = to_lower u (trim_space v) in
      case find (\<lambda>known. to_lower u known = lower) truncation_order of
        Some known \<Rightarrow> known
      | None \<Rightarrow>
          if lower \<in> {''depth'', ''maxdepth''} then ''MIME depth''
          else if lower \<in> {''parts'', ''maxparts''} then ''MIME parts''
          else if lower \<in> {''headers'', ''fields''} then ''header fields''
          else if lower = ''lines'' then ''physical lines''
          else v)"

definition bound_value :: "evidence \<Rightarrow> evidence" where
  "bound_value e = e\<lparr>ev_value := map_option evidence_value (ev_value e)\<rparr>"

definition add_finding :: "finding \<Rightarrow> collector \<Rightarrow> collector" where
  "add_finding f c =
     (let over = max_evidence < length (fd_evidence f);
          f = (if over then f\<lparr>fd_evidence := take max_evidence (fd_evidence f), fd_evidence_truncated := True\<rparr> else f);
          c = (if over then note_cause ''evidence'' c else c);
          f = f\<lparr>fd_evidence := map bound_value (fd_evidence f)\<rparr> in
      c\<lparr>co_findings := co_findings c @ [f]\<rparr>)"

definition add_html_finding :: "finding \<Rightarrow> nat \<Rightarrow> nat \<Rightarrow> collector \<Rightarrow> collector" where
  "add_html_finding f occurrences retained c =
     (if retained < occurrences
      then add_finding (f\<lparr>fd_evidence_truncated := True\<rparr>) (note_cause ''evidence'' c)
      else add_finding f c)"

definition pointer_value :: "bytes option \<Rightarrow> bytes" where
  "pointer_value p = (case p of None \<Rightarrow> [] | Some v \<Rightarrow> v)"

definition resource_key :: "bytes \<Rightarrow> bytes option \<Rightarrow> bytes \<Rightarrow> bytes" where
  "resource_key kind path url = kind @ [NUL] @ pointer_value path @ [NUL] @ url"

text \<open>\<open>addResourceCounted\<close>; \<open>addResource\<close> bounds the values first and counts one.\<close>

definition put_resource :: "bytes \<Rightarrow> bytes option \<Rightarrow> bytes \<Rightarrow> bytes \<Rightarrow> int \<Rightarrow> collector \<Rightarrow> collector" where
  "put_resource kind path url txt n c =
     (let key = resource_key kind path url in
      case map_of (co_index c) key of
        Some i \<Rightarrow>
          (let r = co_resources c ! i;
               r = r\<lparr>rs_count := rs_count r + n, rs_text := (if rs_text r = [] \<and> txt \<noteq> [] then txt else rs_text r)\<rparr> in
           c\<lparr>co_resources := (co_resources c)[i := r]\<rparr>)
      | None \<Rightarrow>
          if max_resources \<le> length (co_resources c) then note_cause ''resources'' c
          else
            c\<lparr>co_index := (key, length (co_resources c)) # co_index c,
              co_resources := co_resources c @ [\<lparr>rs_kind = kind, rs_path = path, rs_url = url, rs_text = txt, rs_count = n\<rparr>]\<rparr>)"

definition add_resource_counted :: "bytes \<Rightarrow> bytes option \<Rightarrow> bytes \<Rightarrow> bytes \<Rightarrow> int \<Rightarrow> collector \<Rightarrow> collector" where
  "add_resource_counted kind path url txt n c = (if n \<le> 0 then c else put_resource kind path url txt n c)"

definition add_resource :: "bytes \<Rightarrow> bytes option \<Rightarrow> bytes \<Rightarrow> bytes \<Rightarrow> collector \<Rightarrow> collector" where
  "add_resource kind path url txt c =
     (if 2048 < length url \<or> 2048 < length txt then note_cause ''resource values'' c
      else put_resource kind path url txt 1 c)"

section \<open>The marker of truncation\<close>

definition truncated_id :: bytes where
  "truncated_id = ''analysis.truncated''"

definition truncation_detail :: "collector \<Rightarrow> bytes" where
  "truncation_detail c =
     ''Analysis limits reached: '' @ join '', '' (ordered_causes c)
       @ ''. Only the deterministic completed prefix is reported.''"

fun set_first_detail :: "bytes \<Rightarrow> finding list \<Rightarrow> finding list" where
  "set_first_detail detail [] = []"
| "set_first_detail detail (f # fs) =
     (if fd_id f = truncated_id then f\<lparr>fd_detail := detail\<rparr> # fs else f # set_first_detail detail fs)"

text \<open>The list without its last element that is not the marker.\<close>

definition drop_last_other :: "finding list \<Rightarrow> finding list" where
  "drop_last_other fs =
     (case last_index (\<lambda>f. fd_id f \<noteq> truncated_id) fs of None \<Rightarrow> fs | Some i \<Rightarrow> take i fs @ drop (Suc i) fs)"

definition ensure_truncation_finding :: "collector \<Rightarrow> collector" where
  "ensure_truncation_finding c =
     (let detail = truncation_detail c in
      if list_ex (\<lambda>f. fd_id f = truncated_id) (co_findings c)
      then c\<lparr>co_findings := set_first_detail detail (co_findings c)\<rparr>
      else
        (let marker = new_finding truncated_id ''analysis'' ''observed'' ''none'' ''evidence'' ''all'' ''Analysis truncated'' detail [] None;
             fs = (if max_findings \<le> length (co_findings c) then drop_last_other (co_findings c) else co_findings c) in
         c\<lparr>co_findings := fs @ [marker]\<rparr>))"

section \<open>Order and summary\<close>

text \<open>A category that is no key of \<open>categoryOrder\<close> counts as 0.\<close>

definition category_rank :: "bytes \<Rightarrow> nat" where
  "category_rank category =
     (if category = ''message'' then 1 else if category = ''mime'' then 2 else if category = ''authentication'' then 3
      else if category = ''unsubscribe'' then 4 else if category = ''content'' then 5
      else if category = ''privacy'' then 6 else if category = ''compatibility'' then 7 else 0)"

definition finding_rank :: "finding \<Rightarrow> nat" where
  "finding_rank f =
     (if fd_outcome f = ''fail'' \<and> fd_severity f = ''error'' then 0
      else if fd_outcome f = ''pass'' \<and> fd_severity f = ''warning'' then 1
      else if fd_outcome f = ''pass'' \<and> fd_severity f = ''advisory'' then 2
      else if fd_outcome f = ''not-evaluated'' then 3
      else if fd_outcome f = ''observed'' then 4
      else 5)"

text \<open>Go compares strings byte by byte.\<close>

fun bytes_less :: "bytes \<Rightarrow> bytes \<Rightarrow> bool" where
  "bytes_less s [] = False"
| "bytes_less [] (d # t) = True"
| "bytes_less (c # s) (d # t) = (byte c < byte d \<or> (c = d \<and> bytes_less s t))"

definition finding_less :: "finding \<Rightarrow> finding \<Rightarrow> bool" where
  "finding_less a b =
     (if category_rank (fd_category a) \<noteq> category_rank (fd_category b)
      then category_rank (fd_category a) < category_rank (fd_category b)
      else if finding_rank a \<noteq> finding_rank b then finding_rank a < finding_rank b
      else bytes_less (fd_id a) (fd_id b))"

text \<open>\<open>sort.SliceStable\<close> yields the one stable order, which insertion from the right computes.\<close>

fun insert_by :: "('a \<Rightarrow> 'a \<Rightarrow> bool) \<Rightarrow> 'a \<Rightarrow> 'a list \<Rightarrow> 'a list" where
  "insert_by lt x [] = [x]"
| "insert_by lt x (y # ys) = (if lt y x then y # insert_by lt x ys else x # y # ys)"

definition sort_by :: "('a \<Rightarrow> 'a \<Rightarrow> bool) \<Rightarrow> 'a list \<Rightarrow> 'a list" where
  "sort_by lt xs = foldr (insert_by lt) xs []"

definition sort_findings :: "finding list \<Rightarrow> finding list" where
  "sort_findings fs = sort_by finding_less fs"

definition no_summary :: summary where
  "no_summary = \<lparr>sm_fail = 0, sm_warning = 0, sm_advisory = 0, sm_observed = 0, sm_pass = 0, sm_not_evaluated = 0\<rparr>"

definition count_finding :: "finding \<Rightarrow> summary \<Rightarrow> summary" where
  "count_finding f s =
     (if fd_outcome f = ''fail'' then s\<lparr>sm_fail := sm_fail s + 1\<rparr>
      else if fd_outcome f = ''pass'' \<and> fd_severity f = ''warning'' then s\<lparr>sm_warning := sm_warning s + 1\<rparr>
      else if fd_outcome f = ''pass'' \<and> fd_severity f = ''advisory'' then s\<lparr>sm_advisory := sm_advisory s + 1\<rparr>
      else if fd_outcome f = ''observed'' then s\<lparr>sm_observed := sm_observed s + 1\<rparr>
      else if fd_outcome f = ''not-evaluated'' then s\<lparr>sm_not_evaluated := sm_not_evaluated s + 1\<rparr>
      else if fd_outcome f = ''pass'' \<and> fd_severity f = ''none'' then s\<lparr>sm_pass := sm_pass s + 1\<rparr>
      else s)"

definition summarize :: "finding list \<Rightarrow> summary" where
  "summarize fs = fold count_finding fs no_summary"

section \<open>What the inspector calls\<close>

text \<open>Where \<open>Analyze\<close> asks its context whether it is cancelled.\<close>

datatype checkpoint =
    At_Start | After_Parse | After_Analysis_Rules | After_Mime_Rules | After_Unsubscribe_Rules
  | In_Html nat | After_Privacy_Rules | After_Resources | Before_Sort | After_Sort

text \<open>
  The message library, the text of an error, \<open>url.Parse\<close>, \<open>mail.ParseAddressList\<close> (the number of
  addresses), whether \<open>Header.Date\<close> and \<open>language.Parse\<close> give no error, whether \<open>strconv.ParseFloat\<close>
  gives a number of at most 1, the tokens of \<open>html.NewTokenizer\<close> with its buffer limit and whether they end
  with an error other than \<open>io.EOF\<close>, how much more capacity than needed \<open>append\<close> takes, the length of \<open>json.Marshal\<close>, checksums, and the context.
\<close>

record ('h, 'e, 'c) inspect_lib =
  il_mime :: "('h, 'e) mime_lib"
  il_error_text :: "'e mime_err \<Rightarrow> bytes"
  il_parse_url :: "bytes \<Rightarrow> url option"
  il_parse_addresses :: "bytes \<Rightarrow> nat option"
  il_date_ok :: "'h \<Rightarrow> bool"
  il_language_ok :: "bytes \<Rightarrow> bool"
  il_at_most_one :: "bytes \<Rightarrow> bool"
  il_tokens :: "bytes \<Rightarrow> html_token list \<times> bool"
  il_growth :: "nat \<Rightarrow> nat"
  il_json_size :: "report \<Rightarrow> nat"
  il_md5 :: "bytes \<Rightarrow> bytes"
  il_sha1 :: "bytes \<Rightarrow> bytes"
  il_sha256 :: "bytes \<Rightarrow> bytes"
  il_context :: "checkpoint \<Rightarrow> 'c option"

abbreviation il_unicode :: "('h, 'e, 'c, 'x) inspect_lib_scheme \<Rightarrow> unicode" where
  "il_unicode E \<equiv> ml_unicode (il_mime E)"

section \<open>Tables with an index\<close>

text \<open>The map from keys to positions that accompanies a list whose elements have these keys.\<close>

definition indexed :: "('k \<times> nat) list \<Rightarrow> 'k list \<Rightarrow> bool" where
  "indexed idx ks \<longleftrightarrow> (\<forall>k i. map_of idx k = Some i \<longleftrightarrow> i < length ks \<and> ks ! i = k)"

lemma indexed_Nil [simp]: "indexed [] []"
  by (simp add: indexed_def)

lemma indexedD: "indexed idx ks \<Longrightarrow> map_of idx k = Some i \<Longrightarrow> i < length ks \<and> ks ! i = k"
  by (simp add: indexed_def)

lemma indexed_None: "indexed idx ks \<Longrightarrow> map_of idx k = None \<longleftrightarrow> k \<notin> set ks"
  unfolding indexed_def in_set_conv_nth by (metis not_None_eq option.distinct(1))

lemma indexed_snoc:
  assumes "indexed idx ks" and "map_of idx k = None"
  shows "indexed ((k, length ks) # idx) (ks @ [k])"
  using assms indexed_None [OF assms(1), of k]
  unfolding indexed_def by (auto simp: nth_append less_Suc_eq in_set_conv_nth)

lemma indexed_distinct: "indexed idx ks \<Longrightarrow> distinct ks"
  unfolding indexed_def distinct_conv_nth by (metis option.inject)

text \<open>A text cut at a rune boundary is a prefix within the limit.\<close>

lemma back_to_start_le: "back_to_start s n \<le> n"
  by (induction n) auto

lemma length_truncate_utf8: "length (truncate_utf8 s limit) \<le> limit"
  using back_to_start_le [of s limit] by (auto simp: truncate_utf8_def)

lemma length_evidence_value: "length (evidence_value s) \<le> 200"
  by (simp add: evidence_value_def length_truncate_utf8)

end
