(* ===== verification/Inspect_Html.thy ===== *)
theory Inspect_Html
  imports Inspect_Report
begin

text \<open>
  \<open>internal/inspect/html_analysis.go\<close>: one pass over the tokens of the HTML body that counts images and
  links, collects the resources they name and finds the accessible names of links.

  Element positions index the stack of open elements, as in the code; where the code would panic on an
  index, a nil pointer or a \<open>strings.Builder\<close> that was moved, the model yields \<open>Html_Panic\<close>.  The lemmas show that the
  first two never happen, and that the third does happen in deeply nested messages.
\<close>

section \<open>Facts\<close>

record html_resource =
  hr_kind :: bytes
  hr_path :: "bytes option"
  hr_url :: bytes
  hr_text :: bytes
  hr_count :: int

record html_facts =
  ft_explicit_root :: bool
  ft_lang :: bytes
  ft_lang_invalid :: bool
  ft_images :: nat
  ft_missing_alt :: nat
  ft_anchors :: nat
  ft_unnamed :: nat
  ft_external :: nat
  ft_tracking :: nat
  ft_insecure :: nat
  ft_truncated :: bool
  ft_resources :: "html_resource list"
  ft_missing_alt_evidence :: "evidence list"
  ft_unnamed_evidence :: "evidence list"
  ft_external_evidence :: "evidence list"
  ft_tracking_evidence :: "evidence list"
  ft_insecure_evidence :: "evidence list"
  ft_resources_capped :: bool
  ft_values_dropped :: bool

definition no_facts :: html_facts where
  "no_facts = \<lparr>ft_explicit_root = False, ft_lang = [], ft_lang_invalid = False, ft_images = 0, ft_missing_alt = 0,
     ft_anchors = 0, ft_unnamed = 0, ft_external = 0, ft_tracking = 0, ft_insecure = 0, ft_truncated = False,
     ft_resources = [], ft_missing_alt_evidence = [], ft_unnamed_evidence = [], ft_external_evidence = [],
     ft_tracking_evidence = [], ft_insecure_evidence = [], ft_resources_capped = False, ft_values_dropped = False\<rparr>"

record html_link =
  lk_href :: bytes
  lk_aria :: bytes
  lk_labelled :: "bytes list"
  lk_title :: bytes
  lk_text :: bytes
  lk_image_alt :: bytes

text \<open>
  The text of an element is a \<open>strings.Builder\<close>, which keeps the address it had when it was first written to and
  panics when it is written to at another address.  The elements are the cells of a slice: \<open>append\<close> moves them
  to a new array when the capacity is used up.  \<open>el_array\<close> is the number of the array the builder was first
  written in.
\<close>

record html_element =
  el_name :: bytes
  el_id :: bytes
  el_text :: bytes
  el_array :: "nat option"
  el_link :: "html_link option"
  el_hidden :: bool

record html_scan =
  hs_facts :: html_facts
  hs_index :: "(bytes \<times> nat) list"
  hs_stack :: "html_element list"
  hs_pending :: "html_link list"
  hs_ids :: "(bytes \<times> bytes) list"
  hs_nodes :: nat
  hs_open :: "bytes \<Rightarrow> nat list"
  hs_active :: "nat list"
  hs_history :: "nat list"
  hs_nearest :: "nat option"
  hs_array :: nat
  hs_cap :: nat

definition new_html_scan :: html_scan where
  "new_html_scan = \<lparr>hs_facts = no_facts, hs_index = [], hs_stack = [], hs_pending = [], hs_ids = [], hs_nodes = 0,
     hs_open = (\<lambda>_. []), hs_active = [], hs_history = [], hs_nearest = None, hs_array = 0, hs_cap = 32\<rparr>"

section \<open>Texts and attributes\<close>

definition normalize_html_text :: "bytes \<Rightarrow> bytes" where
  "normalize_html_text s = join '' '' (string_fields s)"

definition append_bounded :: "bytes \<Rightarrow> bytes \<Rightarrow> nat \<Rightarrow> bytes" where
  "append_bounded b s limit =
     (if limit \<le> length b then b
      else
        (let s = normalize_html_text s in
         if s = [] then b
         else
           (let b = (if b \<noteq> [] then b @ '' '' else b); remaining = limit - length b in
            b @ (if remaining < length s then truncate_utf8 s remaining else s))))"

definition html_attrs :: "unicode \<Rightarrow> html_attr list \<Rightarrow> (bytes \<times> bytes) list" where
  "html_attrs u as = map (\<lambda>a. (to_lower u (ha_key a), ha_val a)) as"

definition hidden_html :: "unicode \<Rightarrow> (bytes \<times> bytes) list \<Rightarrow> bool" where
  "hidden_html u as =
     (if map_of as ''hidden'' \<noteq> None then True
      else
        (let style = to_lower u (replace_all '' '' [] (param as ''style'')) in
         contains style ''display:none'' \<or> contains style ''visibility:hidden'' \<or> contains style ''opacity:0''))"

definition dimension_at_most_one :: "('h, 'e, 'c) inspect_lib \<Rightarrow> bytes \<Rightarrow> bool" where
  "dimension_at_most_one E v =
     (let v = trim_suffix (trim_space (to_lower (il_unicode E) v)) ''px'' in
      if v = [] \<or> has_suffix v ''%'' then False else il_at_most_one E v)"

definition style_dimension_at_most_one :: "('h, 'e, 'c) inspect_lib \<Rightarrow> bytes \<Rightarrow> bytes \<Rightarrow> bool" where
  "style_dimension_at_most_one E style property =
     list_ex
       (\<lambda>declaration.
          (case split_two (CHR '':'') declaration of
             [name, v] \<Rightarrow>
               equal_fold (il_unicode E) (trim_space name) property \<and> dimension_at_most_one E (trim_space v)
           | _ \<Rightarrow> False))
       (split_byte (CHR '';'') style)"

text \<open>The kind, which is empty for what is no image source, and whether it is external.\<close>

definition classify_image_source :: "('h, 'e, 'c) inspect_lib \<Rightarrow> bytes \<Rightarrow> bytes \<times> bool" where
  "classify_image_source E source =
     (let lower = to_lower (il_unicode E) source in
      if has_prefix lower ''cid:'' then (''cid'', False)
      else if has_prefix lower ''data:'' then (''data'', False)
      else
        (case il_parse_url E source of
           None \<Rightarrow> ([], False)
         | Some p \<Rightarrow>
             if ur_host p = [] \<or> ur_scheme p \<noteq> ''http'' \<and> ur_scheme p \<noteq> ''https'' then ([], False)
             else (''image'', True)))"

definition inspection_anchor_url :: "('h, 'e, 'c) inspect_lib \<Rightarrow> bytes \<Rightarrow> bytes option" where
  "inspection_anchor_url E v =
     (let v = trim_space v in
      if v = [] \<or> contains_any [NUL, CR, LF, TAB] v then None
      else
        (case il_parse_url E v of
           None \<Rightarrow> None
         | Some p \<Rightarrow>
             (let scheme = to_lower (il_unicode E) (ur_scheme p) in
              if scheme = ''http'' \<or> scheme = ''https'' then (if ur_host p = [] then None else Some v)
              else if scheme = ''mailto'' then (if ur_opaque p = [] \<and> ur_path p = [] then None else Some v)
              else None)))"

definition inspection_http_url :: "('h, 'e, 'c) inspect_lib \<Rightarrow> bytes \<Rightarrow> bytes option" where
  "inspection_http_url E v =
     (case inspection_anchor_url E v of
        None \<Rightarrow> None
      | Some safe \<Rightarrow>
          (case il_parse_url E safe of
             None \<Rightarrow> None
           | Some p \<Rightarrow>
               if equal_fold (il_unicode E) (ur_scheme p) ''http'' \<or> equal_fold (il_unicode E) (ur_scheme p) ''https''
               then Some safe else None))"

definition contains_html_token :: "unicode \<Rightarrow> bytes \<Rightarrow> bytes \<Rightarrow> bool" where
  "contains_html_token u v expected = list_ex (\<lambda>t. equal_fold u t expected) (string_fields v)"

section \<open>Recording\<close>

definition add_html_evidence :: "bytes option \<Rightarrow> bytes \<Rightarrow> evidence list \<Rightarrow> evidence list" where
  "add_html_evidence path v es =
     (if max_evidence \<le> length es then es
      else es @ [(evidence_of ''html'')\<lparr>ev_path := path, ev_value := Some (evidence_value v)\<rparr>])"

definition collect_html_resource :: "bytes \<Rightarrow> bytes option \<Rightarrow> bytes \<Rightarrow> bytes \<Rightarrow> html_scan \<Rightarrow> html_scan" where
  "collect_html_resource kind path url txt st =
     (let ft = hs_facts st in
      if 2048 < length url \<or> 2048 < length txt then st\<lparr>hs_facts := ft\<lparr>ft_values_dropped := True\<rparr>\<rparr>
      else
        (let key = resource_key kind path url in
         case map_of (hs_index st) key of
           Some i \<Rightarrow>
             (let r = ft_resources ft ! i;
                  r = r\<lparr>hr_count := hr_count r + 1, hr_text := (if hr_text r = [] \<and> txt \<noteq> [] then txt else hr_text r)\<rparr> in
              st\<lparr>hs_facts := ft\<lparr>ft_resources := (ft_resources ft)[i := r]\<rparr>\<rparr>)
         | None \<Rightarrow>
             if max_resources \<le> length (ft_resources ft) then st\<lparr>hs_facts := ft\<lparr>ft_resources_capped := True\<rparr>\<rparr>
             else
               st\<lparr>hs_index := (key, length (ft_resources ft)) # hs_index st,
                  hs_facts := ft\<lparr>ft_resources := ft_resources ft
                    @ [\<lparr>hr_kind = kind, hr_path = path, hr_url = url, hr_text = txt, hr_count = 1\<rparr>]\<rparr>\<rparr>))"

definition note_insecure :: "unicode \<Rightarrow> bytes option \<Rightarrow> bytes \<Rightarrow> html_scan \<Rightarrow> html_scan" where
  "note_insecure u path url st =
     (if has_prefix (to_lower u url) ''http://''
      then st\<lparr>hs_facts := (hs_facts st)
             \<lparr>ft_insecure := Suc (ft_insecure (hs_facts st)),
              ft_insecure_evidence := add_html_evidence path url (ft_insecure_evidence (hs_facts st))\<rparr>\<rparr>
      else st)"

section \<open>Start tags\<close>

definition update_facts :: "(html_facts \<Rightarrow> html_facts) \<Rightarrow> html_scan \<Rightarrow> html_scan" where
  "update_facts f st = st\<lparr>hs_facts := f (hs_facts st)\<rparr>"

text \<open>An update of the link that the element at a position holds; \<open>None\<close> is the panic when there is none.\<close>

definition update_link :: "(html_link \<Rightarrow> html_link) \<Rightarrow> nat \<Rightarrow> html_scan \<Rightarrow> html_scan option" where
  "update_link f pos st =
     (if pos < length (hs_stack st) then
        (case el_link (hs_stack st ! pos) of
           None \<Rightarrow> None
         | Some l \<Rightarrow> Some (st\<lparr>hs_stack := (hs_stack st)[pos := (hs_stack st ! pos)\<lparr>el_link := Some (f l)\<rparr>]\<rparr>))
      else None)"

definition note_root_element :: "('h, 'e, 'c) inspect_lib \<Rightarrow> bytes \<Rightarrow> (bytes \<times> bytes) list \<Rightarrow> html_scan \<Rightarrow> html_scan" where
  "note_root_element E name attrs st =
     (if name = ''html'' \<and> hs_stack st = [] then
        (let lang = trim_space (param attrs ''lang'') in
         update_facts
           (\<lambda>ft. ft\<lparr>ft_explicit_root := True, ft_lang := lang,
              ft_lang_invalid := (if lang \<noteq> [] then \<not> il_language_ok E lang else ft_lang_invalid ft)\<rparr>) st)
      else st)"

definition link_of :: "(bytes \<times> bytes) list \<Rightarrow> html_link" where
  "link_of attrs = \<lparr>lk_href = trim_space (param attrs ''href''), lk_aria = trim_space (param attrs ''aria-label''),
     lk_labelled = string_fields (param attrs ''aria-labelledby''), lk_title = trim_space (param attrs ''title''),
     lk_text = [], lk_image_alt = []\<rparr>"

definition scan_stylesheet ::
  "('h, 'e, 'c) inspect_lib \<Rightarrow> bytes option \<Rightarrow> bytes \<Rightarrow> (bytes \<times> bytes) list \<Rightarrow> html_scan \<Rightarrow> html_scan" where
  "scan_stylesheet E path name attrs st =
     (if name = ''link'' \<and> contains_html_token (il_unicode E) (param attrs ''rel'') ''stylesheet'' then
        (case inspection_http_url E (param attrs ''href'') of
           None \<Rightarrow> st
         | Some url \<Rightarrow>
             note_insecure (il_unicode E) path url (collect_html_resource ''link'' path url ''stylesheet'' st))
      else st)"

definition tracking_image :: "('h, 'e, 'c) inspect_lib \<Rightarrow> bool \<Rightarrow> (bytes \<times> bytes) list \<Rightarrow> bool" where
  "tracking_image E hidden attrs \<longleftrightarrow>
     hidden \<or> dimension_at_most_one E (param attrs ''width'') \<or> dimension_at_most_one E (param attrs ''height'')
     \<or> style_dimension_at_most_one E (param attrs ''style'') ''width''
     \<or> style_dimension_at_most_one E (param attrs ''style'') ''height''"

definition scan_image_source ::
  "('h, 'e, 'c) inspect_lib \<Rightarrow> bytes option \<Rightarrow> bool \<Rightarrow> (bytes \<times> bytes) list \<Rightarrow> html_scan \<Rightarrow> html_scan" where
  "scan_image_source E path hidden attrs st =
     (let source = trim_space (param attrs ''src''); (kind, external) = classify_image_source E source in
      if source = [] \<or> kind = [] then st
      else
        (let tracking = (external \<and> tracking_image E hidden attrs);
             st = (if tracking
                   then update_facts (\<lambda>ft. ft\<lparr>ft_tracking := Suc (ft_tracking ft),
                          ft_tracking_evidence := add_html_evidence path source (ft_tracking_evidence ft)\<rparr>) st
                   else st);
             st = (if external
                   then update_facts (\<lambda>ft. ft\<lparr>ft_external := Suc (ft_external ft),
                          ft_external_evidence := add_html_evidence path source (ft_external_evidence ft)\<rparr>) st
                   else st);
             st = note_insecure (il_unicode E) path source st in
         collect_html_resource (if tracking then ''tracking-pixel'' else kind) path source
           (normalize_html_text (param attrs ''alt'')) st))"

text \<open>An image: \<open>None\<close> is the panic of \<open>stack[nearestAnchor].anchor\<close>.\<close>

definition scan_image ::
  "('h, 'e, 'c) inspect_lib \<Rightarrow> bytes option \<Rightarrow> bytes \<Rightarrow> bool \<Rightarrow> (bytes \<times> bytes) list \<Rightarrow> html_scan \<Rightarrow> html_scan option" where
  "scan_image E path name hidden attrs st =
     (if name \<noteq> ''img'' then Some st
      else
        (let st = update_facts (\<lambda>ft. ft\<lparr>ft_images := Suc (ft_images ft)\<rparr>) st;
             st = (if map_of attrs ''alt'' = None
                   then update_facts (\<lambda>ft. ft\<lparr>ft_missing_alt := Suc (ft_missing_alt ft),
                          ft_missing_alt_evidence := add_html_evidence path ''img without alt'' (ft_missing_alt_evidence ft)\<rparr>) st
                   else st) in
         map_option (scan_image_source E path hidden attrs)
           (case hs_nearest st of
              Some pos \<Rightarrow>
                if hidden then Some st
                else update_link (\<lambda>l. l\<lparr>lk_image_alt := append_bounded (lk_image_alt l) (param attrs ''alt'') 512\<rparr>) pos st
            | None \<Rightarrow> Some st)))"

definition element_id :: "(bytes \<times> bytes) list \<Rightarrow> html_scan \<Rightarrow> bytes" where
  "element_id attrs st =
     (let i = trim_space (param attrs ''id''); i = (if i = [] then trim_space (param attrs ''name'') else i) in
      if i \<noteq> [] \<and> max_html_nodes \<le> length (hs_ids st) then [] else i)"

text \<open>\<open>append\<close> to the stack; how far the capacity grows is not specified.\<close>

definition push_element ::
  "('h, 'e, 'c) inspect_lib \<Rightarrow> bytes \<Rightarrow> bytes \<Rightarrow> html_link option \<Rightarrow> bool \<Rightarrow> html_scan \<Rightarrow> html_scan" where
  "push_element E name i link hidden st =
     (let pos = length (hs_stack st); full = (hs_cap st \<le> pos) in
      st\<lparr>hs_stack := hs_stack st
           @ [\<lparr>el_name = name, el_id = i, el_text = [], el_array = None, el_link = link, el_hidden = hidden\<rparr>],
         hs_array := (if full then Suc (hs_array st) else hs_array st),
         hs_cap := (if full then Suc pos + il_growth E pos else hs_cap st),
         hs_open := (hs_open st)(name := hs_open st name @ [pos]),
         hs_nearest := (if link \<noteq> None then Some pos else hs_nearest st),
         hs_history := (if link \<noteq> None then hs_history st @ [pos] else hs_history st),
         hs_active := (if i \<noteq> [] then hs_active st @ [pos] else hs_active st)\<rparr>)"

definition html_start ::
  "('h, 'e, 'c) inspect_lib \<Rightarrow> bytes option \<Rightarrow> html_token \<Rightarrow> html_scan \<Rightarrow> html_scan option" where
  "html_start E path t st =
     (let u = il_unicode E; name = to_lower u (ht_data t); attrs = html_attrs u (ht_attr t);
          hidden = (hidden_html u attrs \<or> equal_fold u (trim_space (param attrs ''aria-hidden'')) ''true''
            \<or> (hs_stack st \<noteq> [] \<and> el_hidden (last (hs_stack st))));
          st = note_root_element E name attrs st;
          link = (if name = ''a'' then Some (link_of attrs) else None);
          st = (if name = ''a'' then update_facts (\<lambda>ft. ft\<lparr>ft_anchors := Suc (ft_anchors ft)\<rparr>) st else st);
          st = scan_stylesheet E path name attrs st in
      map_option
        (\<lambda>st.
           let i = element_id attrs st in
           if ht_type t = Start_Tag \<and> \<not> is_void_element name then push_element E name i link hidden st
           else (case link of None \<Rightarrow> st | Some l \<Rightarrow> st\<lparr>hs_pending := hs_pending st @ [l]\<rparr>))
        (scan_image E path name hidden attrs st))"

section \<open>Texts and end tags\<close>

text \<open>Writing to the text of an element, which lies in the current array; \<open>None\<close> is the panic of \<open>copyCheck\<close>.\<close>

definition write_text :: "nat \<Rightarrow> bytes \<Rightarrow> html_element \<Rightarrow> html_element option" where
  "write_text array txt e =
     (if 512 \<le> length (el_text e) \<or> normalize_html_text txt = [] then Some e
      else if el_array e \<noteq> None \<and> el_array e \<noteq> Some array then None
      else Some (e\<lparr>el_text := append_bounded (el_text e) txt 512, el_array := Some array\<rparr>))"

text \<open>The text goes to the open elements that have an identifier and are not full.\<close>

fun feed_active :: "nat \<Rightarrow> bytes \<Rightarrow> nat list \<Rightarrow> html_element list \<Rightarrow> (nat list \<times> html_element list) option" where
  "feed_active array txt [] stack = Some ([], stack)"
| "feed_active array txt (pos # ps) stack =
     (if length stack \<le> pos then feed_active array txt ps stack
      else
        (case write_text array txt (stack ! pos) of
           None \<Rightarrow> None
         | Some e \<Rightarrow>
             map_option (\<lambda>(alive, stack). (if length (el_text e) < 512 then pos # alive else alive, stack))
               (feed_active array txt ps (stack[pos := e]))))"

definition html_text_token :: "html_token \<Rightarrow> html_scan \<Rightarrow> html_scan option" where
  "html_text_token t st =
     (let txt = normalize_html_text (ht_data t) in
      if txt = [] then Some st
      else
        (case feed_active (hs_array st) txt (hs_active st) (hs_stack st) of
           None \<Rightarrow> None
         | Some (alive, stack) \<Rightarrow>
             (let st = st\<lparr>hs_active := alive, hs_stack := stack\<rparr> in
              if stack = [] \<or> \<not> el_hidden (last stack) then
                (case hs_nearest st of
                   None \<Rightarrow> Some st
                 | Some pos \<Rightarrow> update_link (\<lambda>l. l\<lparr>lk_text := append_bounded (lk_text l) txt 512\<rparr>) pos st)
              else Some st)))"

definition note_id :: "html_element \<Rightarrow> html_scan \<Rightarrow> html_scan" where
  "note_id e st =
     (if el_id e \<noteq> [] then st\<lparr>hs_ids := map_put (el_id e) (normalize_html_text (el_text e)) (hs_ids st)\<rparr> else st)"

definition note_link :: "html_element \<Rightarrow> html_scan \<Rightarrow> html_scan" where
  "note_link e st = (case el_link e of None \<Rightarrow> st | Some l \<Rightarrow> st\<lparr>hs_pending := hs_pending st @ [l]\<rparr>)"

text \<open>Closing the element at a position.\<close>

definition close_element :: "nat \<Rightarrow> html_scan \<Rightarrow> html_scan" where
  "close_element pos st =
     (let e = hs_stack st ! pos; owned = hs_open st (el_name e);
          st = (if owned \<noteq> [] \<and> last owned = pos then st\<lparr>hs_open := (hs_open st)(el_name e := butlast owned)\<rparr> else st) in
      note_link e (note_id e st))"

definition html_end :: "('h, 'e, 'c) inspect_lib \<Rightarrow> html_token \<Rightarrow> html_scan \<Rightarrow> html_scan" where
  "html_end E t st =
     (let name = to_lower (il_unicode E) (ht_data t); positions = hs_open st name in
      if positions = [] then st
      else
        (let index = last positions;
             st = st\<lparr>hs_open := (hs_open st)(name := butlast positions)\<rparr>;
             st = fold close_element (rev [index..<length (hs_stack st)]) st;
             history = rev (dropWhile (\<lambda>p. index \<le> p) (rev (hs_history st))) in
         st\<lparr>hs_stack := take index (hs_stack st), hs_history := history,
            hs_nearest := (if history = [] then None else Some (last history))\<rparr>))"

section \<open>The pass\<close>

datatype 'c html_result = Html_Facts html_facts "bytes list" | Html_Cancelled 'c | Html_Panic

definition link_label :: "(bytes \<times> bytes) list \<Rightarrow> html_link \<Rightarrow> bytes" where
  "link_label ids l =
     (let label = normalize_html_text (lk_aria l);
          label = (if label = [] \<and> lk_labelled l \<noteq> []
                   then normalize_html_text (fold (\<lambda>i b. append_bounded b (param ids i) 512) (lk_labelled l) [])
                   else label);
          label = (if label = [] then normalize_html_text (lk_text l) else label) in
      if label = [] then normalize_html_text (lk_image_alt l) else label)"

definition finish_link :: "('h, 'e, 'c) inspect_lib \<Rightarrow> bytes option \<Rightarrow> html_link \<Rightarrow> html_scan \<Rightarrow> html_scan" where
  "finish_link E path l st =
     (let label = link_label (hs_ids st) l;
          st = (if label = []
                then update_facts
                  (\<lambda>ft. ft\<lparr>ft_unnamed := Suc (ft_unnamed ft),
                     ft_unnamed_evidence := add_html_evidence path
                       (''anchor without conservative static name'' @ (if lk_title l \<noteq> [] then ''; title='' @ lk_title l else []))
                       (ft_unnamed_evidence ft)\<rparr>) st
                else st) in
      case inspection_anchor_url E (lk_href l) of
        None \<Rightarrow> st
      | Some safe \<Rightarrow>
          note_insecure (il_unicode E) path safe (collect_html_resource ''link'' path safe label st))"

definition finish_html :: "('h, 'e, 'c) inspect_lib \<Rightarrow> bytes option \<Rightarrow> html_scan \<Rightarrow> html_facts" where
  "finish_html E path st =
     (let st = fold note_id (hs_stack st) st; st = fold note_link (hs_stack st) st in
      hs_facts (fold (finish_link E path) (hs_pending st) st))"

fun html_loop ::
  "('h, 'e, 'c) inspect_lib \<Rightarrow> bytes option \<Rightarrow> bool \<Rightarrow> html_token list \<Rightarrow> html_scan \<Rightarrow> 'c html_result" where
  "html_loop E path failed [] st =
     Html_Facts (finish_html E path (if failed then update_facts (\<lambda>ft. ft\<lparr>ft_truncated := True\<rparr>) st else st))
       (if failed then [''HTML token bytes''] else [])"
| "html_loop E path failed (t # ts) st =
     (if ht_type t = Start_Tag \<or> ht_type t = Self_Closing_Tag then
        (let st = st\<lparr>hs_nodes := Suc (hs_nodes st)\<rparr> in
         if max_html_nodes < hs_nodes st then Html_Facts ((hs_facts st)\<lparr>ft_truncated := True\<rparr>) [''HTML nodes'']
         else
           (case if hs_nodes st mod 1024 = 0 then il_context E (In_Html (hs_nodes st)) else None of
              Some c \<Rightarrow> Html_Cancelled c
            | None \<Rightarrow>
                (case html_start E path t st of None \<Rightarrow> Html_Panic | Some st \<Rightarrow> html_loop E path failed ts st)))
      else if ht_type t = Text_Token then
        (case html_text_token t st of None \<Rightarrow> Html_Panic | Some st \<Rightarrow> html_loop E path failed ts st)
      else if ht_type t = End_Tag then html_loop E path failed ts (html_end E t st)
      else html_loop E path failed ts st)"

definition analyze_html :: "('h, 'e, 'c) inspect_lib \<Rightarrow> bytes \<Rightarrow> bytes option \<Rightarrow> 'c html_result" where
  "analyze_html E raw path =
     (let (ts, failed) = il_tokens E raw in html_loop E path failed ts new_html_scan)"

end
