(* ===== verification/Inspect_Html_Props.thy ===== *)
theory Inspect_Html_Props
  imports Inspect_Html Mime_Presentation_Props
begin

text \<open>
  The pass over the HTML tokens never panics on an index or a nil pointer: the positions it keeps of open tags
  and of links are exactly those of the stack.  It panics on a moved \<open>strings.Builder\<close>, but only when the stack outgrows its
  first array.  What it collects stays within the limits.
\<close>

section \<open>Positions\<close>

definition positions :: "('a \<Rightarrow> bool) \<Rightarrow> 'a list \<Rightarrow> nat list" where
  "positions P xs = filter (\<lambda>p. P (xs ! p)) [0..<length xs]"

lemma positions_snoc: "positions P (xs @ [x]) = positions P xs @ (if P x then [length xs] else [])"
proof -
  have "filter (\<lambda>p. P ((xs @ [x]) ! p)) [0..<length xs] = filter (\<lambda>p. P (xs ! p)) [0..<length xs]"
    by (rule filter_cong) (auto simp: nth_append)
  then show ?thesis by (simp add: positions_def)
qed

lemma positions_Nil [simp]: "positions P [] = []"
  by (simp add: positions_def)

lemma set_positions: "set (positions P xs) = {p. p < length xs \<and> P (xs ! p)}"
  by (auto simp: positions_def)

lemma sorted_positions: "sorted_wrt (<) (positions P xs)"
  unfolding positions_def by (rule sorted_wrt_filter) simp

lemma positions_take:
  assumes "k \<le> length xs"
  shows "positions P (take k xs) = filter (\<lambda>p. p < k) (positions P xs)"
proof -
  have "[0..<length xs] = [0..<k] @ [k..<length xs]" using assms by (metis le0 le_add_diff_inverse upt_add_eq_append)
  moreover have "filter (\<lambda>p. P (xs ! p) \<and> p < k) [k..<length xs] = []" by (auto simp: filter_empty_conv)
  moreover have "filter (\<lambda>p. P (xs ! p) \<and> p < k) [0..<k] = filter (\<lambda>p. P (xs ! p)) [0..<k]"
    by (rule filter_cong) auto
  moreover have "filter (\<lambda>p. P (take k xs ! p)) [0..<k] = filter (\<lambda>p. P (xs ! p)) [0..<k]"
    by (rule filter_cong) auto
  ultimately show ?thesis using assms by (simp add: positions_def min_absorb2)
qed

lemma sorted_drop_from:
  fixes ps :: "nat list"
  assumes "sorted_wrt (<) ps"
  shows "rev (dropWhile (\<lambda>p. k \<le> p) (rev ps)) = filter (\<lambda>p. p < k) ps"
  using assms
proof (induction ps rule: rev_induct)
  case (snoc p ps)
  then have IH: "rev (dropWhile (\<lambda>p. k \<le> p) (rev ps)) = filter (\<lambda>p. p < k) ps"
    and less: "\<forall>q\<in>set ps. q < p" by (auto simp: sorted_wrt_append)
  show ?case
  proof (cases "k \<le> p")
    case False
    with less have "filter (\<lambda>p. p < k) ps = ps" by (auto intro!: filter_True)
    with False show ?thesis by simp
  qed (simp add: IH)
qed simp

lemma sorted_butlast:
  fixes ps :: "nat list"
  assumes "sorted_wrt (<) ps" and "ps \<noteq> []"
  shows "butlast ps = filter (\<lambda>p. p < last ps) ps"
  using assms
proof (induction ps rule: rev_induct)
  case (snoc p ps)
  then have "filter (\<lambda>q. q < p) ps = ps" by (auto simp: sorted_wrt_append intro!: filter_True)
  then show ?case by simp
qed simp

section \<open>The stack\<close>

definition shape :: "html_scan \<Rightarrow> (bytes \<times> bool) list" where
  "shape st = map (\<lambda>e. (el_name e, el_link e \<noteq> None)) (hs_stack st)"

definition scan_inv :: "html_scan \<Rightarrow> bool" where
  "scan_inv st \<longleftrightarrow>
     (\<forall>n. hs_open st n = positions (\<lambda>s. fst s = n) (shape st))
     \<and> hs_history st = positions snd (shape st)
     \<and> hs_nearest st = (if hs_history st = [] then None else Some (last (hs_history st)))"

lemma length_shape [simp]: "length (shape st) = length (hs_stack st)"
  by (simp add: shape_def)

lemma shape_nth: "p < length (hs_stack st) \<Longrightarrow> shape st ! p = (el_name (hs_stack st ! p), el_link (hs_stack st ! p) \<noteq> None)"
  by (simp add: shape_def)

lemma scan_inv_new: "scan_inv new_html_scan"
  by (simp add: scan_inv_def new_html_scan_def shape_def)

text \<open>A step that leaves the shape and the positions alone keeps the invariant.\<close>

lemma scan_inv_cong:
  assumes "scan_inv st" "shape st' = shape st" "hs_open st' = hs_open st" "hs_history st' = hs_history st"
    "hs_nearest st' = hs_nearest st"
  shows "scan_inv st'"
  using assms by (simp add: scan_inv_def)

definition same_stack :: "html_scan \<Rightarrow> html_scan \<Rightarrow> bool" where
  "same_stack st st' \<longleftrightarrow> hs_stack st' = hs_stack st \<and> hs_open st' = hs_open st \<and> hs_history st' = hs_history st
     \<and> hs_nearest st' = hs_nearest st \<and> hs_array st' = hs_array st \<and> hs_cap st' = hs_cap st"

text \<open>
  The arrays the texts of the elements were written in, the current array and its capacity.  They \<open>stay\<close> when \<open>n\<close> more
  elements fit into the current array and no text was written in another one.
\<close>

definition footing :: "html_scan \<Rightarrow> nat option list \<times> nat \<times> nat" where
  "footing st = (map el_array (hs_stack st), hs_array st, hs_cap st)"

definition stays :: "nat \<Rightarrow> nat option list \<times> nat \<times> nat \<Rightarrow> bool" where
  "stays n f \<longleftrightarrow> (case f of (as, array, cap) \<Rightarrow> length as + n \<le> cap \<and> (\<forall>a\<in>set as. a = None \<or> a = Some array))"

lemma stays_less: "stays m f \<Longrightarrow> n \<le> m \<Longrightarrow> stays n f"
  by (auto simp: stays_def)

lemma same_stack_refl [simp]: "same_stack st st"
  by (simp add: same_stack_def)

lemma same_stack_trans: "same_stack a b \<Longrightarrow> same_stack b c \<Longrightarrow> same_stack a c"
  by (simp add: same_stack_def)

lemma scan_inv_same: "scan_inv st \<Longrightarrow> same_stack st st' \<Longrightarrow> scan_inv st'"
  by (rule scan_inv_cong) (auto simp: same_stack_def shape_def)

lemma footing_same: "same_stack st st' \<Longrightarrow> footing st' = footing st"
  by (simp add: same_stack_def footing_def)

lemma same_stack_steps [simp]:
  "same_stack st (update_facts f st)"
  "same_stack st (collect_html_resource kind path url txt st)"
  "same_stack st (note_insecure u path url st)"
  "same_stack st (note_root_element E name attrs st)"
  by (simp_all add: same_stack_def update_facts_def collect_html_resource_def note_insecure_def
      note_root_element_def Let_def split: option.split)

lemma nearest_has_link:
  assumes "scan_inv st" and "hs_nearest st = Some pos"
  obtains l where "pos < length (hs_stack st)" "el_link (hs_stack st ! pos) = Some l"
proof -
  from assms have "hs_history st \<noteq> []" "pos = last (hs_history st)"
    by (auto simp: scan_inv_def split: if_splits)
  then have "pos \<in> set (positions snd (shape st))" using assms(1) by (simp add: scan_inv_def)
  then show thesis using that by (auto simp: set_positions shape_nth)
qed

lemma update_link_inv:
  assumes "scan_inv st" and "hs_nearest st = Some pos"
  obtains st' where "update_link f pos st = Some st'" "scan_inv st'" "footing st' = footing st"
    "hs_facts st' = hs_facts st" "hs_index st' = hs_index st"
proof -
  obtain l where l: "pos < length (hs_stack st)" "el_link (hs_stack st ! pos) = Some l"
    using assms by (rule nearest_has_link)
  let ?st = "st\<lparr>hs_stack := (hs_stack st)[pos := (hs_stack st ! pos)\<lparr>el_link := Some (f l)\<rparr>]\<rparr>"
  have "shape ?st = shape st"
    using l by (intro nth_equalityI) (auto simp: shape_def nth_list_update)
  then have "scan_inv ?st" using assms(1) by (intro scan_inv_cong [OF assms(1)]) auto
  moreover have "footing ?st = footing st"
    using l unfolding footing_def by (auto intro!: nth_equalityI simp: nth_list_update)
  ultimately show thesis using that l by (auto simp: update_link_def)
qed

lemma same_stack_update [simp]: "same_stack st (update_facts f st') \<longleftrightarrow> same_stack st st'"
  by (simp add: same_stack_def update_facts_def)

lemma same_stack_insecure [simp]: "same_stack st (note_insecure u path url st') \<longleftrightarrow> same_stack st st'"
  by (simp add: same_stack_def note_insecure_def)

lemma same_stack_collect [simp]: "same_stack st (collect_html_resource kind path url txt st') \<longleftrightarrow> same_stack st st'"
  by (simp add: same_stack_def collect_html_resource_def Let_def split: option.split)

lemma same_stack_stylesheet: "same_stack st (scan_stylesheet E path name attrs st)"
  by (simp add: scan_stylesheet_def split: option.split)

lemma same_stack_source: "same_stack st (scan_image_source E path hidden attrs st)"
  by (simp add: scan_image_source_def Let_def split_beta)

lemma scan_image_inv:
  assumes "scan_inv st"
  obtains st' where "scan_image E path name hidden attrs st = Some st'" "scan_inv st'" "footing st' = footing st"
proof (cases "name = ''img''")
  case False
  then show thesis using that assms by (simp add: scan_image_def)
next
  case True
  define st1 where "st1 = update_facts (\<lambda>ft. ft\<lparr>ft_images := Suc (ft_images ft)\<rparr>) st"
  define st2 where "st2 =
    (if map_of attrs ''alt'' = None
     then update_facts (\<lambda>ft. ft\<lparr>ft_missing_alt := Suc (ft_missing_alt ft),
       ft_missing_alt_evidence := add_html_evidence path ''img without alt'' (ft_missing_alt_evidence ft)\<rparr>) st1
     else st1)"
  define f where "f = (\<lambda>l :: html_link. l\<lparr>lk_image_alt := append_bounded (lk_image_alt l) (param attrs ''alt'') 512\<rparr>)"
  have "same_stack st st2" by (simp add: st2_def st1_def)
  then have inv: "scan_inv st2" by (rule scan_inv_same [OF assms])
  have "\<exists>st3. (case hs_nearest st2 of Some pos \<Rightarrow> if hidden then Some st2 else update_link f pos st2 | None \<Rightarrow> Some st2) = Some st3
      \<and> scan_inv st3 \<and> footing st3 = footing st2"
    using inv by (auto split: option.split elim: update_link_inv)
  then obtain st3 where st3: "(case hs_nearest st2 of Some pos \<Rightarrow> if hidden then Some st2 else update_link f pos st2
      | None \<Rightarrow> Some st2) = Some st3" "scan_inv st3" "footing st3 = footing st2" by blast
  have "scan_image E path name hidden attrs st = map_option (scan_image_source E path hidden attrs)
      (case hs_nearest st2 of Some pos \<Rightarrow> if hidden then Some st2 else update_link f pos st2 | None \<Rightarrow> Some st2)"
    unfolding scan_image_def Let_def st1_def st2_def f_def using True by (simp only: simp_thms if_False)
  then have "scan_image E path name hidden attrs st = Some (scan_image_source E path hidden attrs st3)"
    by (simp only: st3(1) option.map)
  moreover have "scan_inv (scan_image_source E path hidden attrs st3)"
    by (rule scan_inv_same [OF st3(2) same_stack_source])
  moreover have "footing (scan_image_source E path hidden attrs st3) = footing st"
    using footing_same [OF same_stack_source, of E path hidden attrs st3] footing_same [OF \<open>same_stack st st2\<close>] st3(3) by simp
  ultimately show thesis using that by blast
qed

lemma push_element_inv: "scan_inv st \<Longrightarrow> scan_inv (push_element E name i link hidden st)"
  by (auto simp: scan_inv_def push_element_def shape_def Let_def positions_snoc)

lemma push_element_stays: "stays (Suc n) (footing st) \<Longrightarrow> stays n (footing (push_element E name i link hidden st))"
  by (auto simp: stays_def footing_def push_element_def Let_def)

text \<open>The number of elements a list of tokens can open.\<close>

definition opens :: "html_token list \<Rightarrow> nat" where
  "opens ts = length (filter (\<lambda>t. ht_type t = Start_Tag) ts)"

lemma opens_simps [simp]: "opens [] = 0" "opens (t # ts) = (if ht_type t = Start_Tag then Suc (opens ts) else opens ts)"
  by (simp_all add: opens_def)

lemma html_start_inv:
  assumes "scan_inv st"
  obtains st' where "html_start E path t st = Some st'" "scan_inv st'"
    "\<And>ts. stays (opens (t # ts)) (footing st) \<Longrightarrow> stays (opens ts) (footing st')"
proof -
  define name where "name = to_lower (il_unicode E) (ht_data t)"
  define attrs where "attrs = html_attrs (il_unicode E) (ht_attr t)"
  define hidden where "hidden = (hidden_html (il_unicode E) attrs
    \<or> equal_fold (il_unicode E) (trim_space (param attrs ''aria-hidden'')) ''true''
    \<or> (hs_stack st \<noteq> [] \<and> el_hidden (last (hs_stack st))))"
  define link where "link = (if name = ''a'' then Some (link_of attrs) else None)"
  define st1 where "st1 = (if name = ''a'' then update_facts (\<lambda>ft. ft\<lparr>ft_anchors := Suc (ft_anchors ft)\<rparr>)
      (note_root_element E name attrs st) else note_root_element E name attrs st)"
  define st2 where "st2 = scan_stylesheet E path name attrs st1"
  have "same_stack st st1" by (simp add: st1_def)
  then have same: "same_stack st st2" unfolding st2_def by (rule same_stack_trans [OF _ same_stack_stylesheet])
  then have "scan_inv st2" by (rule scan_inv_same [OF assms])
  then obtain st3 where st3: "scan_image E path name hidden attrs st2 = Some st3" "scan_inv st3" "footing st3 = footing st2"
    by (rule scan_image_inv)
  have foot: "footing st3 = footing st" using st3(3) footing_same [OF same] by simp
  define st4 where "st4 =
    (if ht_type t = Start_Tag \<and> \<not> is_void_element name then push_element E name (element_id attrs st3) link hidden st3
     else (case link of None \<Rightarrow> st3 | Some l \<Rightarrow> st3\<lparr>hs_pending := hs_pending st3 @ [l]\<rparr>))"
  have start: "html_start E path t st = Some st4"
    unfolding html_start_def Let_def st4_def
    by (simp only: st3(1) option.map flip: name_def attrs_def hidden_def link_def st1_def st2_def)
  have pending: "scan_inv (st3\<lparr>hs_pending := ps\<rparr>)" "footing (st3\<lparr>hs_pending := ps\<rparr>) = footing st" for ps
    using scan_inv_same [OF st3(2)] foot by (auto simp: same_stack_def footing_def)
  have inv: "scan_inv st4"
    using pending st3(2) by (simp add: st4_def push_element_inv [OF st3(2)] split: option.split)
  have "stays (opens ts) (footing st4)" if "stays (opens (t # ts)) (footing st)" for ts
  proof (cases "ht_type t = Start_Tag \<and> \<not> is_void_element name")
    case True
    then have "stays (Suc (opens ts)) (footing st3)" using that foot by simp
    from push_element_stays [OF this] True show ?thesis by (simp add: st4_def)
  next
    case False
    have "stays (opens ts) (footing st)" by (rule stays_less [OF that]) simp
    moreover have "footing st4 = footing st"
      unfolding st4_def if_not_P [OF False] using pending(2) foot by (simp split: option.split)
    ultimately show ?thesis by simp
  qed
  with start inv show thesis using that by blast
qed

text \<open>Writing texts never fails as long as they stay in the current array.\<close>

lemma write_text_returns:
  assumes "el_array e = None \<or> el_array e = Some array"
  obtains e' where "write_text array txt e = Some e'" "el_name e' = el_name e" "el_link e' = el_link e"
    "el_array e' = None \<or> el_array e' = Some array"
proof (cases "512 \<le> length (el_text e) \<or> normalize_html_text txt = []")
  case True
  then show thesis using that [of e] assms by (simp add: write_text_def)
next
  case False
  then show thesis
    using that [of "e\<lparr>el_text := append_bounded (el_text e) txt 512, el_array := Some array\<rparr>"] assms
    by (auto simp: write_text_def)
qed

lemma feed_active_returns:
  assumes "\<forall>e\<in>set stack. el_array e = None \<or> el_array e = Some array"
  obtains alive stack' where "feed_active array txt ps stack = Some (alive, stack')"
    "map (\<lambda>e. (el_name e, el_link e \<noteq> None)) stack' = map (\<lambda>e. (el_name e, el_link e \<noteq> None)) stack"
    "\<forall>e\<in>set stack'. el_array e = None \<or> el_array e = Some array"
proof -
  have "\<exists>alive stack'. feed_active array txt ps stack = Some (alive, stack')
      \<and> map (\<lambda>e. (el_name e, el_link e \<noteq> None)) stack' = map (\<lambda>e. (el_name e, el_link e \<noteq> None)) stack
      \<and> (\<forall>e\<in>set stack'. el_array e = None \<or> el_array e = Some array)"
    using assms
  proof (induction ps arbitrary: stack)
    case (Cons p ps)
    show ?case
    proof (cases "length stack \<le> p")
      case False
      then have p: "p < length stack" by simp
      then have old: "el_array (stack ! p) = None \<or> el_array (stack ! p) = Some array" using Cons.prems by simp
      obtain e where e: "write_text array txt (stack ! p) = Some e" "el_name e = el_name (stack ! p)"
        "el_link e = el_link (stack ! p)" "el_array e = None \<or> el_array e = Some array"
        using write_text_returns [OF old] .
      have shape: "map (\<lambda>e. (el_name e, el_link e \<noteq> None)) (stack[p := e]) = map (\<lambda>e. (el_name e, el_link e \<noteq> None)) stack"
        using p e by (intro nth_equalityI) (auto simp: nth_list_update)
      have "\<forall>e\<in>set (stack[p := e]). el_array e = None \<or> el_array e = Some array"
        using Cons.prems e(4) set_update_subset_insert [of stack p e] by blast
      from Cons.IH [OF this] obtain alive stack' where fed: "feed_active array txt ps (stack[p := e]) = Some (alive, stack')"
        "map (\<lambda>e. (el_name e, el_link e \<noteq> None)) stack' = map (\<lambda>e. (el_name e, el_link e \<noteq> None)) (stack[p := e])"
        "\<forall>e\<in>set stack'. el_array e = None \<or> el_array e = Some array" by blast
      have "feed_active array txt (p # ps) stack = Some (if length (el_text e) < 512 then p # alive else alive, stack')"
        using False e(1) fed(1) by simp
      with fed(2,3) shape show ?thesis by (intro exI conjI) auto
    qed (use Cons in simp)
  qed simp
  then show thesis using that by blast
qed

lemma html_text_inv:
  assumes "scan_inv st" and "stays n (footing st)"
  obtains st' where "html_text_token t st = Some st'" "scan_inv st'" "stays n (footing st')"
proof -
  have "\<forall>e\<in>set (hs_stack st). el_array e = None \<or> el_array e = Some (hs_array st)"
    using assms(2) by (auto simp: stays_def footing_def)
  from feed_active_returns [OF this, of "normalize_html_text (ht_data t)" "hs_active st"] obtain alive stack
    where fed: "feed_active (hs_array st) (normalize_html_text (ht_data t)) (hs_active st) (hs_stack st) = Some (alive, stack)"
      "map (\<lambda>e. (el_name e, el_link e \<noteq> None)) stack = shape st"
      "\<forall>e\<in>set stack. el_array e = None \<or> el_array e = Some (hs_array st)" unfolding shape_def .
  let ?st = "st\<lparr>hs_active := alive, hs_stack := stack\<rparr>"
  have "shape ?st = shape st" using fed(2) by (simp add: shape_def)
  then have inv: "scan_inv ?st" by (intro scan_inv_cong [OF assms(1)]) auto
  have "length stack = length (hs_stack st)" using arg_cong [OF fed(2), of length] by simp
  then have stays: "stays n (footing ?st)" using assms(2) fed(3) by (auto simp: stays_def footing_def)
  let ?f = "\<lambda>l. l\<lparr>lk_text := append_bounded (lk_text l) (normalize_html_text (ht_data t)) 512\<rparr>"
  have eq: "html_text_token t st =
    (if normalize_html_text (ht_data t) = [] then Some st
     else if stack = [] \<or> \<not> el_hidden (last stack) then
       (case hs_nearest st of None \<Rightarrow> Some ?st | Some pos \<Rightarrow> update_link ?f pos ?st)
     else Some ?st)"
    by (simp add: html_text_token_def Let_def fed(1))
  show thesis
  proof (cases "hs_nearest st")
    case None
    then show thesis using that [of st] that [of ?st] assms inv stays eq by (auto split: if_splits)
  next
    case (Some pos)
    then have "hs_nearest ?st = Some pos" by simp
    from update_link_inv [OF inv this, of ?f] obtain st' where st': "update_link ?f pos ?st
        = Some st'" "scan_inv st'" "footing st' = footing ?st" .
    show thesis
      using that [of st] that [of ?st] that [of st'] st' assms inv stays Some eq by (auto split: if_splits)
  qed
qed

section \<open>End tags\<close>

lemma close_element_simps [simp]:
  "hs_stack (close_element p st) = hs_stack st" "hs_history (close_element p st) = hs_history st"
  "hs_facts (close_element p st) = hs_facts st" "hs_index (close_element p st) = hs_index st"
  "hs_array (close_element p st) = hs_array st" "hs_cap (close_element p st) = hs_cap st"
  by (simp_all add: close_element_def note_id_def note_link_def Let_def split: option.split)

lemma fold_close_simps [simp]:
  "hs_stack (fold close_element ps st) = hs_stack st" "hs_history (fold close_element ps st) = hs_history st"
  "hs_facts (fold close_element ps st) = hs_facts st" "hs_index (fold close_element ps st) = hs_index st"
  "hs_array (fold close_element ps st) = hs_array st" "hs_cap (fold close_element ps st) = hs_cap st"
  by (induction ps arbitrary: st) simp_all

lemma open_close_element:
  "hs_open (close_element p st) =
     (let e = hs_stack st ! p; owned = hs_open st (el_name e) in
      if owned \<noteq> [] \<and> last owned = p then (hs_open st)(el_name e := butlast owned) else hs_open st)"
  by (simp add: close_element_def note_id_def note_link_def Let_def split: option.split)

abbreviation of_name :: "bytes \<Rightarrow> bytes \<times> bool \<Rightarrow> bool" where
  "of_name n \<equiv> \<lambda>s. fst s = n"

lemma close_loop:
  assumes "index \<le> k" "k \<le> length (hs_stack st)" "\<forall>q\<in>set Q. q < index"
    and "\<And>p. index < p \<Longrightarrow> p < length (hs_stack st) \<Longrightarrow> el_name (hs_stack st ! p) \<noteq> name"
    and "hs_open st = (\<lambda>n. if n = name then Q else positions (of_name n) (take k (shape st)))"
  shows "hs_open (fold close_element (rev [index..<k]) st) =
    (\<lambda>n. if n = name then Q else positions (of_name n) (take index (shape st)))"
  using assms
proof (induction "k - index" arbitrary: k st)
  case 0
  then have "k = index" by simp
  with 0(6) have "hs_open st = (\<lambda>n. if n = name then Q else positions (of_name n) (take index (shape st)))"
    by (simp only:)
  then show ?case using \<open>k = index\<close> by simp
next
  case (Suc d)
  then obtain k' where k: "k = Suc k'" "index \<le> k'" by (cases k) auto
  let ?e = "hs_stack st ! k'" and ?st = "close_element k' st"
  have k'_len: "k' < length (hs_stack st)" using Suc.prems(2) k by simp
  have take: "take k (shape st) = take k' (shape st) @ [shape st ! k']"
    using k'_len k by (simp add: take_Suc_conv_app_nth)
  have pos: "positions (of_name n) (take k (shape st)) =
      positions (of_name n) (take k' (shape st)) @ (if el_name ?e = n then [k'] else [])" for n
    unfolding take positions_snoc using k'_len by (simp add: shape_nth min_absorb2)
  have "hs_open ?st = (\<lambda>n. if n = name then Q else positions (of_name n) (take k' (shape st)))"
  proof (cases "el_name ?e = name")
    case True
    then have "k' = index" using Suc.prems(4) [of k'] k k'_len by (cases "k' = index") auto
    then have "hs_open st (el_name ?e) = [] \<or> last (hs_open st (el_name ?e)) \<noteq> k'"
      using Suc.prems(3,5) True last_in_set [of Q] by auto
    then have "hs_open ?st = hs_open st" by (auto simp: open_close_element Let_def)
    then show ?thesis using Suc.prems(5) pos True by (auto simp: fun_eq_iff)
  next
    case False
    then have "hs_open st (el_name ?e) = positions (of_name (el_name ?e)) (take k' (shape st)) @ [k']"
      using Suc.prems(5) pos by simp
    then show ?thesis using Suc.prems(5) pos False by (auto simp: open_close_element Let_def fun_eq_iff)
  qed
  moreover have shape: "shape ?st = shape st" by (simp add: shape_def)
  ultimately have "hs_open (fold close_element (rev [index..<k']) ?st) =
      (\<lambda>n. if n = name then Q else positions (of_name n) (take index (shape ?st)))"
    using Suc.hyps(2) Suc.prems(3,4) k k'_len by (intro Suc.hyps(1)) auto
  from this [unfolded shape] show ?case using k by simp
qed

text \<open>The last open tag of a name lies in the stack, so the code never extends the stack by reslicing.\<close>

lemma last_open_in_stack:
  assumes "scan_inv st" and "hs_open st name \<noteq> []"
  shows "last (hs_open st name) < length (hs_stack st)"
proof -
  have "last (hs_open st name) \<in> set (positions (of_name name) (shape st))"
    using assms last_in_set by (metis scan_inv_def)
  then show ?thesis by (simp add: set_positions)
qed

lemma html_end_inv:
  assumes "scan_inv st"
  shows "scan_inv (html_end E t st)"
proof -
  define name where "name = to_lower (il_unicode E) (ht_data t)"
  define ps where "ps = hs_open st name"
  show ?thesis
  proof (cases "ps = []")
    case True
    then show ?thesis using assms by (simp add: html_end_def Let_def flip: name_def ps_def)
  next
    case False
    define index where "index = last ps"
    have ps: "ps = positions (of_name name) (shape st)" using assms by (simp add: ps_def scan_inv_def)
    have len: "index < length (hs_stack st)"
      using last_open_in_stack [OF assms] False by (simp add: index_def ps_def)
    have butlast: "butlast ps = filter (\<lambda>p. p < index) ps"
      unfolding index_def using False sorted_positions ps by (metis sorted_butlast)
    have later: "el_name (hs_stack st ! p) \<noteq> name" if "index < p" "p < length (hs_stack st)" for p
    proof
      assume "el_name (hs_stack st ! p) = name"
      then have "p \<in> set ps" using that by (simp add: ps set_positions shape_nth)
      then have "p \<in> set (butlast ps) \<or> p = index"
        using False by (metis append_butlast_last_id index_def rotate1.simps(2) set_ConsD set_rotate1)
      then show False using butlast that(1) by auto
    qed
    define st1 where "st1 = st\<lparr>hs_open := (hs_open st)(name := butlast ps)\<rparr>"
    define st2 where "st2 = fold close_element (rev [index..<length (hs_stack st1)]) st1"
    have shape1: "shape st1 = shape st" "hs_stack st1 = hs_stack st" "hs_history st1 = hs_history st"
      by (simp_all add: st1_def shape_def)
    have "hs_open st2 = (\<lambda>n. if n = name then butlast ps else positions (of_name n) (take index (shape st1)))"
      unfolding st2_def
    proof (rule close_loop)
      show "\<forall>q\<in>set (butlast ps). q < index" by (simp add: butlast)
      show "hs_open st1 = (\<lambda>n. if n = name then butlast ps
          else positions (of_name n) (take (length (hs_stack st1)) (shape st1)))"
        using assms by (auto simp: st1_def scan_inv_def shape_def fun_eq_iff)
    qed (use len later shape1 in auto)
    then have open2: "hs_open st2 n = positions (of_name n) (take index (shape st))" for n
      using len positions_take [of index "shape st" "of_name name"] by (simp add: shape1 butlast [unfolded ps] ps)
    have hist: "rev (dropWhile (\<lambda>p. index \<le> p) (rev (hs_history st))) = positions snd (take index (shape st))"
      using assms sorted_drop_from [OF sorted_positions [of snd "shape st"], of index] positions_take [of index "shape st" snd] len
      by (simp add: scan_inv_def)
    have eq: "html_end E t st = st2\<lparr>hs_stack := take index (hs_stack st2),
        hs_history := rev (dropWhile (\<lambda>p. index \<le> p) (rev (hs_history st))),
        hs_nearest := (if rev (dropWhile (\<lambda>p. index \<le> p) (rev (hs_history st))) = [] then None
          else Some (last (rev (dropWhile (\<lambda>p. index \<le> p) (rev (hs_history st))))))\<rparr>"
      using False by (simp add: html_end_def Let_def index_def st1_def st2_def flip: name_def ps_def)
    have "hs_stack st2 = hs_stack st" by (simp add: st2_def shape1)
    then have "shape (html_end E t st) = take index (shape st)" by (simp add: eq shape_def take_map)
    then show ?thesis using open2 hist by (simp add: scan_inv_def eq)
  qed
qed

lemma html_end_stays: "stays n (footing st) \<Longrightarrow> stays n (footing (html_end E t st))"
  by (auto simp: stays_def footing_def html_end_def Let_def dest: in_set_takeD)

text \<open>The pass returns when all elements of the message fit into the first array.\<close>

theorem html_loop_returns:
  "scan_inv st \<Longrightarrow> stays (opens ts) (footing st) \<Longrightarrow> html_loop E path failed ts st \<noteq> Html_Panic"
proof (induction E path failed ts st rule: html_loop.induct)
  case (2 E path failed t ts st)
  let ?st = "st\<lparr>hs_nodes := Suc (hs_nodes st)\<rparr>"
  have same: "same_stack st ?st" by (simp add: same_stack_def)
  have inv: "scan_inv ?st" by (rule scan_inv_same [OF 2(5) same])
  have less: "stays (opens ts) (footing st)" by (rule stays_less [OF 2(6)]) simp
  from html_start_inv [OF inv, of E path t] obtain st1 where st1: "html_start E path t ?st = Some st1" "scan_inv st1"
    "stays (opens ts) (footing st1)" using 2(6) footing_same [OF same] by metis
  from html_text_inv [OF 2(5) less, of t] obtain st2 where st2: "html_text_token t st = Some st2" "scan_inv st2"
    "stays (opens ts) (footing st2)" .
  consider (start) "ht_type t = Start_Tag \<or> ht_type t = Self_Closing_Tag" | (words) "ht_type t = Text_Token"
    | (stop) "ht_type t = End_Tag" | (other) "ht_type t = Comment_Token \<or> ht_type t = Doctype_Token"
    by (cases "ht_type t") auto
  then show ?case
  proof cases
    case start
    then show ?thesis using 2(1) [OF _ refl _ _ st1] st1(1) by (auto simp: Let_def split: option.split)
  next
    case words
    then show ?thesis using 2(2) [OF _ _ st2] st2(1) by simp
  next
    case stop
    then show ?thesis using 2(3) html_end_inv [OF 2(5), of E t] html_end_stays [OF less, of E t] by simp
  next
    case other
    then show ?thesis using 2(4) 2(5) less by auto
  qed
qed simp

section \<open>Bounds of what is collected\<close>

text \<open>The evidence of \<open>n\<close> occurrences is that of the first ones up to the limit.\<close>

definition evidence_kept :: "nat \<Rightarrow> evidence list \<Rightarrow> bool" where
  "evidence_kept n es \<longleftrightarrow> length es = min n max_evidence
     \<and> (\<forall>e\<in>set es. ev_source e = ''html'' \<and> (\<exists>v. ev_value e = Some v \<and> length v \<le> 200))"

lemma evidence_kept_add: "evidence_kept n es \<Longrightarrow> evidence_kept (Suc n) (add_html_evidence path v es)"
  by (auto simp: evidence_kept_def add_html_evidence_def evidence_of_def length_evidence_value)

lemma evidence_kept_0: "evidence_kept 0 []"
  by (simp add: evidence_kept_def)

definition resource_ok :: "html_resource \<Rightarrow> bool" where
  "resource_ok r \<longleftrightarrow> length (hr_url r) \<le> 2048 \<and> length (hr_text r) \<le> 2048 \<and> 1 \<le> hr_count r"

definition html_key :: "html_resource \<Rightarrow> bytes" where
  "html_key r = resource_key (hr_kind r) (hr_path r) (hr_url r)"

definition facts_ok :: "html_facts \<Rightarrow> bool" where
  "facts_ok ft \<longleftrightarrow> evidence_kept (ft_missing_alt ft) (ft_missing_alt_evidence ft)
     \<and> evidence_kept (ft_unnamed ft) (ft_unnamed_evidence ft) \<and> evidence_kept (ft_external ft) (ft_external_evidence ft)
     \<and> evidence_kept (ft_tracking ft) (ft_tracking_evidence ft) \<and> evidence_kept (ft_insecure ft) (ft_insecure_evidence ft)
     \<and> length (ft_resources ft) \<le> max_resources \<and> list_all resource_ok (ft_resources ft)
     \<and> distinct (map html_key (ft_resources ft))"

definition facts_inv :: "html_scan \<Rightarrow> bool" where
  "facts_inv st \<longleftrightarrow> facts_ok (hs_facts st) \<and> indexed (hs_index st) (map html_key (ft_resources (hs_facts st)))"

lemma facts_inv_new: "facts_inv new_html_scan"
  by (simp add: facts_inv_def facts_ok_def new_html_scan_def no_facts_def evidence_kept_0)

lemma facts_inv_cong: "facts_inv st \<Longrightarrow> hs_facts st' = hs_facts st \<Longrightarrow> hs_index st' = hs_index st \<Longrightarrow> facts_inv st'"
  by (simp add: facts_inv_def)

lemma collect_inv:
  assumes "facts_inv st"
  shows "facts_inv (collect_html_resource kind path url txt st)"
proof -
  let ?ft = "hs_facts st" and ?key = "resource_key kind path url"
  have ix: "indexed (hs_index st) (map html_key (ft_resources ?ft))" and ok: "facts_ok ?ft"
    using assms by (simp_all add: facts_inv_def)
  consider (dropped) "2048 < length url \<or> 2048 < length txt"
    | (known) i where "length url \<le> 2048" "length txt \<le> 2048" "map_of (hs_index st) ?key = Some i"
    | (new) "length url \<le> 2048" "length txt \<le> 2048" "map_of (hs_index st) ?key = None"
    by fastforce
  then show ?thesis
  proof cases
    case dropped
    then show ?thesis using assms by (simp add: collect_html_resource_def facts_inv_def facts_ok_def)
  next
    case known
    let ?r = "ft_resources ?ft ! i"
    let ?r' = "?r\<lparr>hr_count := hr_count ?r + 1, hr_text := (if hr_text ?r = [] \<and> txt \<noteq> [] then txt else hr_text ?r)\<rparr>"
    have i: "i < length (ft_resources ?ft)" using indexedD [OF ix known(3)] by simp
    then have "resource_ok ?r" using ok by (simp add: facts_ok_def list_all_length)
    then have "resource_ok ?r'" using known(2) by (simp add: resource_ok_def)
    then have all: "list_all resource_ok ((ft_resources ?ft)[i := ?r'])"
      using ok set_update_subset_insert [of "ft_resources ?ft" i ?r'] by (auto simp: facts_ok_def list_all_iff)
    have keys: "map html_key ((ft_resources ?ft)[i := ?r']) = map html_key (ft_resources ?ft)"
      using i by (intro nth_equalityI) (auto simp: nth_list_update html_key_def)
    show ?thesis
      using known ok ix all keys
      by (simp add: collect_html_resource_def facts_inv_def facts_ok_def Let_def not_less)
  next
    case new
    have "?key \<notin> html_key ` set (ft_resources ?ft)" using indexed_None [OF ix] new(3) by (metis list.set_map)
    moreover have "indexed ((?key, length (ft_resources ?ft)) # hs_index st) (map html_key (ft_resources ?ft) @ [?key])"
      using indexed_snoc [OF ix new(3)] by simp
    ultimately show ?thesis
      using new ok ix
      by (simp add: collect_html_resource_def facts_inv_def facts_ok_def Let_def not_less resource_ok_def html_key_def)
  qed
qed

lemma insecure_inv: "facts_inv st \<Longrightarrow> facts_inv (note_insecure u path url st)"
  by (simp add: note_insecure_def facts_inv_def facts_ok_def evidence_kept_add)

lemma root_inv: "facts_inv st \<Longrightarrow> facts_inv (note_root_element E name attrs st)"
  by (simp add: note_root_element_def update_facts_def facts_inv_def facts_ok_def Let_def)

lemma stylesheet_inv: "facts_inv st \<Longrightarrow> facts_inv (scan_stylesheet E path name attrs st)"
  by (auto simp: scan_stylesheet_def intro!: insecure_inv collect_inv split: option.split)

lemma count_invs:
  assumes "facts_inv st"
  shows "facts_inv (update_facts (\<lambda>ft. ft\<lparr>ft_anchors := n\<rparr>) st)"
    and "facts_inv (update_facts (\<lambda>ft. ft\<lparr>ft_anchors := Suc (ft_anchors ft)\<rparr>) st)"
    and "facts_inv (update_facts (\<lambda>ft. ft\<lparr>ft_images := Suc (ft_images ft)\<rparr>) st)"
    and "facts_inv (update_facts (\<lambda>ft. ft\<lparr>ft_truncated := True\<rparr>) st)"
    and "facts_inv (update_facts (\<lambda>ft. ft\<lparr>ft_missing_alt := Suc (ft_missing_alt ft),
           ft_missing_alt_evidence := add_html_evidence path v (ft_missing_alt_evidence ft)\<rparr>) st)"
    and "facts_inv (update_facts (\<lambda>ft. ft\<lparr>ft_tracking := Suc (ft_tracking ft),
           ft_tracking_evidence := add_html_evidence path v (ft_tracking_evidence ft)\<rparr>) st)"
    and "facts_inv (update_facts (\<lambda>ft. ft\<lparr>ft_external := Suc (ft_external ft),
           ft_external_evidence := add_html_evidence path v (ft_external_evidence ft)\<rparr>) st)"
    and "facts_inv (update_facts (\<lambda>ft. ft\<lparr>ft_unnamed := Suc (ft_unnamed ft),
           ft_unnamed_evidence := add_html_evidence path v (ft_unnamed_evidence ft)\<rparr>) st)"
  using assms by (simp_all add: facts_inv_def facts_ok_def update_facts_def evidence_kept_add)

lemma image_source_inv: "facts_inv st \<Longrightarrow> facts_inv (scan_image_source E path hidden attrs st)"
  by (simp add: scan_image_source_def Let_def split_beta count_invs insecure_inv collect_inv)

lemma update_link_facts: "update_link f pos st = Some st' \<Longrightarrow> facts_inv st \<Longrightarrow> facts_inv st'"
  by (auto simp: update_link_def facts_inv_def split: if_splits option.splits)

lemma scan_image_facts: "scan_image E path name hidden attrs st = Some st' \<Longrightarrow> facts_inv st \<Longrightarrow> facts_inv st'"
  unfolding scan_image_def Let_def
  by (auto simp: count_invs intro!: image_source_inv split: if_splits option.splits elim!: update_link_facts)

lemma push_facts: "facts_inv (push_element E name i link hidden st) \<longleftrightarrow> facts_inv st"
  by (simp add: push_element_def facts_inv_def Let_def)

lemma html_start_facts: "html_start E path t st = Some st' \<Longrightarrow> facts_inv st \<Longrightarrow> facts_inv st'"
  unfolding html_start_def Let_def
  by (auto simp: push_facts count_invs root_inv split: option.splits if_splits
      intro: facts_inv_cong dest!: scan_image_facts [OF _ stylesheet_inv])

lemma html_text_facts: "html_text_token t st = Some st' \<Longrightarrow> facts_inv st \<Longrightarrow> facts_inv st'"
  unfolding html_text_token_def Let_def
  by (auto simp: split_beta split: if_splits option.splits elim!: update_link_facts intro: facts_inv_cong)

lemma html_end_facts: "facts_inv st \<Longrightarrow> facts_inv (html_end E t st)"
  by (erule facts_inv_cong) (simp_all add: html_end_def Let_def)

lemma finish_link_facts: "facts_inv st \<Longrightarrow> facts_inv (finish_link E path l st)"
  by (auto simp: finish_link_def Let_def count_invs intro!: insecure_inv collect_inv split: option.split)

lemma finish_html_facts:
  assumes "facts_inv st"
  shows "facts_ok (finish_html E path st)"
proof -
  have noted: "facts_inv (fold note_id es st)" "facts_inv (fold note_link es st)" if "facts_inv st" for es st
    using that by (induction es arbitrary: st)
      (auto simp: note_id_def note_link_def facts_inv_def split: option.splits)
  have "facts_inv (fold (finish_link E path) ls st)" if "facts_inv st" for ls st
    using that by (induction ls arbitrary: st) (auto simp: finish_link_facts)
  with noted assms show ?thesis unfolding finish_html_def Let_def by (metis facts_inv_def)
qed

theorem html_loop_bounded: "html_loop E path failed ts st = Html_Facts ft causes \<Longrightarrow> facts_inv st \<Longrightarrow> facts_ok ft"
proof (induction E path failed ts st rule: html_loop.induct)
  case (1 E path failed st)
  then show ?case using finish_html_facts count_invs(4) by (auto split: if_splits)
next
  case (2 E path failed t ts st)
  let ?st = "st\<lparr>hs_nodes := Suc (hs_nodes st)\<rparr>"
  have inv: "facts_inv ?st" by (rule facts_inv_cong [OF 2(6)]) simp_all
  consider (tag) "ht_type t = Start_Tag \<or> ht_type t = Self_Closing_Tag" | (words) "ht_type t = Text_Token"
    | (stop) "ht_type t = End_Tag" | (other) "ht_type t = Comment_Token \<or> ht_type t = Doctype_Token"
    by (cases "ht_type t") auto
  then show ?case
  proof cases
    case tag
    show ?thesis
    proof (cases "max_html_nodes < hs_nodes ?st")
      case True
      then have "ft = (hs_facts st)\<lparr>ft_truncated := True\<rparr>" using 2(5) tag by (auto simp: Let_def)
      then show ?thesis using 2(6) by (simp add: facts_inv_def facts_ok_def)
    next
      case False
      then obtain st1 where st1: "html_start E path t ?st = Some st1" "html_loop E path failed ts st1 = Html_Facts ft causes"
        "(if hs_nodes ?st mod 1024 = 0 then il_context E (In_Html (hs_nodes ?st)) else None) = None"
        using 2(5) tag by (auto simp: Let_def split: option.splits)
      from 2(1) [OF tag refl False st1(3,1,2) html_start_facts [OF st1(1) inv]] show ?thesis .
    qed
  next
    case words
    then obtain st1 where st1: "html_text_token t st = Some st1" "html_loop E path failed ts st1 = Html_Facts ft causes"
      using 2(5) by (auto split: option.splits)
    from 2(2) [OF _ words st1 html_text_facts [OF st1(1) 2(6)]] words show ?thesis by simp
  next
    case stop
    then show ?thesis using 2(3) 2(5) html_end_facts [OF 2(6), of E t] by simp
  next
    case other
    then show ?thesis using 2(4-6) by auto
  qed
qed

lemma new_scan_stays: "stays n (footing new_html_scan) \<longleftrightarrow> n \<le> 32"
  by (simp add: stays_def footing_def new_html_scan_def)

lemma html_pass_bounded:
  "case analyze_html E raw path of
     Html_Facts ft causes \<Rightarrow> facts_ok ft
   | Html_Cancelled c \<Rightarrow> True
   | Html_Panic \<Rightarrow> 32 < opens (fst (il_tokens E raw))"
  using html_loop_returns [OF scan_inv_new, of "fst (il_tokens E raw)" E path "snd (il_tokens E raw)"]
    html_loop_bounded [OF _ facts_inv_new, of E path "snd (il_tokens E raw)" "fst (il_tokens E raw)"]
  unfolding new_scan_stays
  by (cases "opens (fst (il_tokens E raw)) \<le> 32") (auto simp: analyze_html_def split_beta split: html_result.split)

text \<open>
  C26. The pass over the HTML of a message is cancelled by the context, or it returns, or it panics, and
  it can panic only when the message has more than 32 start tags, so that its stack can outgrow the array it begins
  with; no index is out of range and no pointer is nil.  What it returns is bounded: at most 2000 resources, each
  once, with at least one occurrence and values of at most 2048 bytes, and for every count of occurrences the
  evidence of the first 20, in at most 200 bytes each.
\<close>

theorem html_pass_is_bounded:
  "case analyze_html E raw path of
     Html_Facts ft causes \<Rightarrow> facts_ok ft
   | Html_Cancelled c \<Rightarrow> True
   | Html_Panic \<Rightarrow> 32 < length (filter (\<lambda>t. ht_type t = Start_Tag) (fst (il_tokens E raw)))"
  using html_pass_bounded [of E raw path] unfolding opens_def .

section \<open>A message that makes the inspector panic\<close>

text \<open>Opening an element without attributes.\<close>

definition open_b :: html_token where
  "open_b = \<lparr>ht_type = Start_Tag, ht_data = ''b'', ht_attr = []\<rparr>"

abbreviation words_token :: "bytes \<Rightarrow> html_token" where
  "words_token txt \<equiv> \<lparr>ht_type = Text_Token, ht_data = txt, ht_attr = []\<rparr>"

text \<open>An element with an identifier and a text, 32 elements in it, and another text in the innermost one.\<close>

definition nested_tokens :: "html_token list" where
  "nested_tokens =
     \<lparr>ht_type = Start_Tag, ht_data = ''p'', ht_attr = [\<lparr>ha_key = ''id'', ha_val = ''x''\<rparr>]\<rparr>
     # words_token ''a'' # replicate 32 open_b @ [words_token ''c'']"

lemma lower_letters: "to_lower u ''b'' = ''b''" "to_lower u ''p'' = ''p''" "to_lower u ''id'' = ''id''"
  by (simp_all add: to_lower_ascii ascii_def byte_def ascii_lower_def chr_eval)

lemma no_attributes:
  "\<not> hidden_html u [(''id'', v)]" "\<not> hidden_html u []" "\<not> equal_fold u [] ''true''"
proof -
  have lower: "to_lower u [] = []" by simp
  have "runes ''true'' \<noteq> []" by (simp only: runes_Nil_iff list.distinct not_False_eq_True)
  then show "\<not> hidden_html u [(''id'', v)]" "\<not> hidden_html u []" "\<not> equal_fold u [] ''true''"
    by (simp_all add: lower hidden_html_def param_def replace_all.simps contains_def index_of.simps equal_fold_def Let_def del: runes.simps(2))
qed

lemma start_b:
  "html_start E path open_b st =
     Some (push_element E ''b'' [] None (hs_stack st \<noteq> [] \<and> el_hidden (last (hs_stack st))) st)"
  by (simp add: html_start_def open_b_def html_attrs_def lower_letters no_attributes note_root_element_def scan_stylesheet_def
      scan_image_def element_id_def param_def is_void_element_def Let_def)

definition nest :: "('h, 'e, 'c) inspect_lib \<Rightarrow> html_scan \<Rightarrow> html_scan" where
  "nest E st = push_element E ''b'' [] None (hs_stack st \<noteq> [] \<and> el_hidden (last (hs_stack st)))
     (st\<lparr>hs_nodes := Suc (hs_nodes st)\<rparr>)"

lemma nest_simps [simp]:
  "length (hs_stack (nest E st)) = Suc (length (hs_stack st))" "hs_nodes (nest E st) = Suc (hs_nodes st)"
  "hs_active (nest E st) = hs_active st"
  "hs_array (nest E st) = (if hs_cap st \<le> length (hs_stack st) then Suc (hs_array st) else hs_array st)"
  "hs_stack st \<noteq> [] \<Longrightarrow> hs_stack (nest E st) ! 0 = hs_stack st ! 0"
  by (simp_all add: nest_def push_element_def Let_def nth_append)

lemma nest_cap [simp]: "length (hs_stack st) < hs_cap st \<Longrightarrow> hs_cap (nest E st) = hs_cap st"
  by (simp add: nest_def push_element_def Let_def)

lemma nested_loop:
  "hs_nodes st + n < 1024 \<Longrightarrow>
   html_loop E path failed (replicate n open_b @ ts) st = html_loop E path failed ts ((nest E ^^ n) st)"
proof (induction n arbitrary: st)
  case (Suc n)
  have "html_loop E path failed (open_b # us) st = html_loop E path failed us (nest E st)" for us
    using Suc.prems start_b [of E path "st\<lparr>hs_nodes := Suc (hs_nodes st)\<rparr>"]
    by (simp add: nest_def max_html_nodes_def open_b_def Let_def)
  then show ?case using Suc.IH [of "nest E st"] Suc.prems by (simp add: funpow_swap1)
qed simp

lemma nested_state:
  assumes "hs_stack st = [e]" "hs_cap st = 32" "hs_array st = 0"
  shows "n \<le> 31 \<Longrightarrow> length (hs_stack ((nest E ^^ n) st)) = Suc n \<and> hs_cap ((nest E ^^ n) st) = 32
     \<and> hs_array ((nest E ^^ n) st) = 0 \<and> hs_active ((nest E ^^ n) st) = hs_active st \<and> hs_stack ((nest E ^^ n) st) ! 0 = e"
proof (induction n)
  case (Suc n)
  let ?s = "(nest E ^^ n) st"
  have s: "length (hs_stack ?s) = Suc n" "hs_cap ?s = 32" "hs_array ?s = 0" "hs_active ?s = hs_active st" "hs_stack ?s ! 0 = e"
    using Suc by simp_all
  then have "hs_stack ?s \<noteq> []" "length (hs_stack ?s) < hs_cap ?s" using Suc.prems by auto
  then show ?case using s Suc.prems by simp
qed (use assms in simp)

lemma normal_letters: "normalize_html_text ''a'' = ''a''" "normalize_html_text ''c'' = ''c''"
  by (simp_all add: normalize_html_text_def string_fields.simps field_span.simps decode_rune_def trim_left.simps is_space_def
      byte_def chr_eval Let_def)

lemma nested_panics: "html_loop E path failed nested_tokens new_html_scan = Html_Panic"
proof -
  define e where "e = \<lparr>el_name = ''p'', el_id = ''x'', el_text = ''a'', el_array = Some 0, el_link = None, el_hidden = False\<rparr>"
  define st1 where "st1 = push_element E ''p'' ''x'' None False (new_html_scan\<lparr>hs_nodes := 1\<rparr>)"
  define st2 where "st2 = st1\<lparr>hs_active := [0], hs_stack := [e]\<rparr>"
  have x: "trim_space ''x'' = ''x''" by (rule trim_space_id) (simp_all add: graphic_def byte_def chr_eval)
  have start: "html_start E path \<lparr>ht_type = Start_Tag, ht_data = ''p'', ht_attr = [\<lparr>ha_key = ''id'', ha_val = ''x''\<rparr>]\<rparr>
      (new_html_scan\<lparr>hs_nodes := 1\<rparr>) = Some st1"
    by (simp add: html_start_def html_attrs_def lower_letters no_attributes note_root_element_def scan_stylesheet_def
        scan_image_def element_id_def param_def is_void_element_def Let_def x st1_def new_html_scan_def max_html_nodes_def)
  have first: "html_text_token (words_token ''a'') st1 = Some st2"
    by (simp add: st1_def st2_def e_def html_text_token_def push_element_def new_html_scan_def write_text_def normal_letters
        append_bounded_def Let_def)
  have "html_loop E path failed nested_tokens new_html_scan =
      html_loop E path failed (replicate 32 open_b @ [words_token ''c'']) st2"
    using start first by (simp add: nested_tokens_def max_html_nodes_def new_html_scan_def Let_def)
  also have "\<dots> = html_loop E path failed [words_token ''c''] ((nest E ^^ 32) st2)"
    by (rule nested_loop) (simp add: st2_def st1_def push_element_def new_html_scan_def Let_def)
  also have "\<dots> = Html_Panic"
  proof -
    let ?s = "(nest E ^^ 31) st2"
    have s: "length (hs_stack ?s) = 32" "hs_cap ?s = 32" "hs_array ?s = 0" "hs_active ?s = [0]" "hs_stack ?s ! 0 = e"
      using nested_state [of st2 e 31 E]
      by (simp_all add: st2_def st1_def push_element_def new_html_scan_def Let_def)
    then have ne: "hs_stack ?s \<noteq> []" by auto
    have "(nest E ^^ 32) st2 = nest E ?s" by (simp add: numeral_eq_Suc)
    moreover have "html_text_token (words_token ''c'') (nest E ?s) = None"
      using s ne by (simp add: html_text_token_def normal_letters Let_def write_text_def e_def)
    ultimately show ?thesis by simp
  qed
  finally show ?thesis .
qed

lemma nested_html_panics:
  "il_tokens E raw = (nested_tokens, failed) \<Longrightarrow> analyze_html E raw path = Html_Panic"
  by (simp add: analyze_html_def nested_panics)

section \<open>A text counted twice\<close>

text \<open>
  The list of elements that collect text for their identifier is not shortened when an element is closed.
  When another element with an identifier is opened at the same position before any text, the position is
  in the list twice, and the text goes into the second element twice.
\<close>

definition plain_inspect_lib :: "(unit, unit, unit) inspect_lib" where
  "plain_inspect_lib = \<lparr>il_mime = sample_lib, il_error_text = (\<lambda>_. ''error''), il_parse_url = (\<lambda>_. None),
     il_parse_addresses = (\<lambda>s. if CHR ''@'' \<in> set s then Some 1 else None), il_date_ok = (\<lambda>_. True), il_language_ok = (\<lambda>_. True),
     il_at_most_one = (\<lambda>s. s = ''1''), il_tokens = (\<lambda>_. ([], False)), il_growth = (\<lambda>n. n), il_json_size = (\<lambda>_. 0), il_md5 = (\<lambda>s. s),
     il_sha1 = (\<lambda>s. s), il_sha256 = (\<lambda>s. s), il_context = (\<lambda>_. None)\<rparr>"

definition twice_state :: html_scan where
  "twice_state = push_element plain_inspect_lib ''p'' ''b'' None False
     (html_end plain_inspect_lib
       \<lparr>ht_type = End_Tag, ht_data = ''p'', ht_attr = []\<rparr> (push_element plain_inspect_lib ''p'' ''a'' None False new_html_scan))"

lemma text_counted_twice:
  "map_option (\<lambda>st. map el_text (hs_stack st))
     (html_text_token \<lparr>ht_type = Text_Token, ht_data = ''Buy'', ht_attr = []\<rparr> twice_state) = Some [''Buy Buy'']"
  by (simp add: twice_state_def plain_inspect_lib_def sample_lib_def push_element_def html_end_def new_html_scan_def html_text_token_def close_element_def note_id_def note_link_def
     to_lower_ascii ascii_def byte_def ascii_lower_def chr_eval normalize_html_text_def write_text_def string_fields.simps field_span.simps decode_rune_def trim_left.simps append_bounded_def is_space_def Let_def)

end
