(* ===== verification/Inspect_Context.thy ===== *)
theory Inspect_Context
  imports Inspect_Html Mime_Parse
begin

text \<open>
  \<open>internal/inspect/analyze.go\<close>: what the rules of the inspector look at.  The struct \<open>analyzer\<close> is
  two records: what is set before a rule runs (\<open>inspected\<close>), and what the rules collect (\<open>collector\<close>).
  A node of the MIME tree is read through its header fields, whose positions refer to the raw message or to
  the decoded text of the encapsulated message it comes from.
\<close>

section \<open>Input and state\<close>

record inspect_input =
  ii_raw :: bytes
  ii_legacy_html :: "bytes option"
  ii_legacy_text :: "bytes option"
  ii_stored_size :: int

record ('h, 'e) inspected =
  in_input :: inspect_input
  in_doc :: "('h, 'e) document"
  in_raw_present :: bool
  in_whole_raw :: bool
  in_semantic_ok :: bool
  in_html :: "bytes option"
  in_text :: "bytes option"
  in_html_path :: "bytes option"
  in_text_path :: "bytes option"
  in_fallback :: bool
  in_facts :: "html_facts option"

section \<open>Header fields\<close>

record occurrence =
  oc_name :: bytes
  oc_value :: bytes
  oc_line :: int
  oc_occurrence :: int
  oc_field :: header_field
  oc_decoded :: bool

definition valid_range :: "byte_range \<Rightarrow> int \<Rightarrow> bool" where
  "valid_range r n \<longleftrightarrow> 0 \<le> br_start r \<and> br_start r \<le> br_end r \<and> br_end r \<le> n"

text \<open>The bytes the ranges of a node refer to.\<close>

definition node_raw :: "bytes \<Rightarrow> ('h, 'e) node \<Rightarrow> bytes" where
  "node_raw raw n = (case nd_decoded_raw (info n) of None \<Rightarrow> raw | Some d \<Rightarrow> d)"

definition range_bytes :: "bytes \<Rightarrow> byte_range \<Rightarrow> bytes" where
  "range_bytes raw r = slice raw (br_start r) (br_end r)"

definition raw_body :: "bytes \<Rightarrow> ('h, 'e) node \<Rightarrow> bytes option" where
  "raw_body raw n =
     (let raw = node_raw raw n in
      if valid_range (nd_raw_body (info n)) (int (length raw)) then Some (range_bytes raw (nd_raw_body (info n))) else None)"

fun occurrence_loop ::
  "unicode \<Rightarrow> bytes \<Rightarrow> bool \<Rightarrow> header_field list \<Rightarrow> (bytes \<Rightarrow> int) \<Rightarrow> occurrence list" where
  "occurrence_loop u raw decoded [] counts = []"
| "occurrence_loop u raw decoded (f # fs) counts =
     (let lower = to_lower u (hf_name f); n = counts lower + 1;
          v = (if valid_range (hf_raw_value f) (int (length raw))
               then unfold_header_value (range_bytes raw (hf_raw_value f)) else []) in
      \<lparr>oc_name = hf_name f, oc_value = v, oc_line = hf_first_line f, oc_occurrence = n, oc_field = f, oc_decoded = decoded\<rparr>
      # occurrence_loop u raw decoded fs (counts(lower := n)))"

definition header_occurrences :: "unicode \<Rightarrow> bytes \<Rightarrow> ('h, 'e) node \<Rightarrow> occurrence list" where
  "header_occurrences u raw n =
     occurrence_loop u (node_raw raw n) (nd_decoded_raw (info n) \<noteq> None) (nd_header_fields (info n)) (\<lambda>_. 0)"

definition fields_named :: "unicode \<Rightarrow> occurrence list \<Rightarrow> bytes \<Rightarrow> occurrence list" where
  "fields_named u os name = filter (\<lambda>oc. equal_fold u (oc_name oc) name) os"

definition occurrence_evidence :: "bytes \<Rightarrow> bytes option \<Rightarrow> occurrence \<Rightarrow> evidence" where
  "occurrence_evidence name path oc =
     \<lparr>ev_source = (if oc_decoded oc then ''mime-part'' else ''raw-header''), ev_path = path, ev_field = Some name,
      ev_occurrence = Some (oc_occurrence oc), ev_line = (if oc_decoded oc then None else Some (oc_line oc)),
      ev_value = Some (evidence_value (oc_value oc))\<rparr>"

definition occurrences_evidence :: "occurrence list \<Rightarrow> bytes \<Rightarrow> bytes option \<Rightarrow> evidence list" where
  "occurrences_evidence os name path = map (occurrence_evidence name path) os"

text \<open>Evidence that names a MIME part.\<close>

definition part_evidence :: "bytes option \<Rightarrow> evidence" where
  "part_evidence path = (evidence_of ''mime-part'')\<lparr>ev_path := path\<rparr>"

definition searchable_headers :: "unicode \<Rightarrow> ('h, 'e) inspected \<Rightarrow> header list" where
  "searchable_headers u a =
     (case doc_root (in_doc a) of
        None \<Rightarrow> []
      | Some rt \<Rightarrow>
          if \<not> in_raw_present a then []
          else
            map (\<lambda>oc. \<lparr>rh_name = oc_name oc, rh_value = searchable_header_value (oc_value oc),
                 rh_occurrence = oc_occurrence oc, rh_line = oc_line oc\<rparr>)
              (filter (\<lambda>oc. valid_range (hf_raw_value (oc_field oc)) (int (length (doc_raw (in_doc a)))))
                (header_occurrences u (doc_raw (in_doc a)) rt)))"

section \<open>Bodies\<close>

definition bounded_legacy_body :: "bytes option \<Rightarrow> collector \<Rightarrow> bytes option \<times> collector" where
  "bounded_legacy_body v c =
     (case v of
        None \<Rightarrow> (None, c)
      | Some s \<Rightarrow>
          (let limit = nat (max_raw_bytes inspection_limits) in
           if 0 < limit \<and> limit < length s
           then (Some (take (back_to_start s limit) s), note_cause ''legacy body bytes'' c)
           else (Some s, c)))"

definition readable_body :: "('h, 'e) node option \<Rightarrow> (bytes \<times> bytes) option" where
  "readable_body n =
     (case n of
        None \<Rightarrow> None
      | Some n \<Rightarrow> if nd_decode_error (info n) = None then Some (nd_decoded_body (info n), nd_path (info n)) else None)"

definition select_bodies :: "('h, 'e) inspected \<Rightarrow> collector \<Rightarrow> ('h, 'e) inspected \<times> collector" where
  "select_bodies a c =
     (let p = doc_presentation (in_doc a) in
      if in_semantic_ok a \<and> pr_supported p then
        (a\<lparr>in_html := map_option fst (readable_body (pr_html p)), in_html_path := map_option snd (readable_body (pr_html p)),
           in_text := map_option fst (readable_body (pr_text p)), in_text_path := map_option snd (readable_body (pr_text p))\<rparr>, c)
      else
        (let (html, c) = bounded_legacy_body (ii_legacy_html (in_input a)) c;
             (plain, c) = bounded_legacy_body (ii_legacy_text (in_input a)) c in
         (a\<lparr>in_fallback := True, in_html := html, in_text := plain\<rparr>, c)))"

section \<open>Rules about the analysis\<close>

definition run_analysis_rules :: "('h, 'e, 'c) inspect_lib \<Rightarrow> ('h, 'e) inspected \<Rightarrow> collector \<Rightarrow> collector" where
  "run_analysis_rules E a c =
     (let d = in_doc a; raw_families = [''message'', ''mime'', ''authentication'', ''unsubscribe''] in
      if \<not> in_raw_present a then
        add_finding
          (new_finding ''analysis.parse'' ''analysis'' ''not-evaluated'' ''none'' ''evidence'' ''all'' ''MIME parsing''
             ''Semantic MIME parsing was skipped because raw message bytes are unavailable.''
             [] None)
          (add_finding
            (new_finding ''analysis.raw-unavailable'' ''analysis'' ''observed'' ''none'' ''evidence'' ''all'' ''Raw message unavailable''
               ''Raw headers, MIME structure, authentication evidence, and unsubscribe syntax cannot be evaluated; stored selected bodies are legacy fallbacks.''
               [] None)
            (add_unavailable raw_families c))
      else if ''raw bytes'' \<in> co_causes c then
        add_finding
          (new_finding ''analysis.parse'' ''analysis'' ''not-evaluated'' ''none'' ''evidence'' ''all'' ''MIME parsing''
             ''Semantic MIME parsing was deliberately skipped because the raw message exceeds the offline inspection byte limit.''
             [] None)
          (add_unavailable raw_families c)
      else if doc_semantic_skipped d then
        add_finding
          (new_finding ''analysis.parse'' ''analysis'' ''not-evaluated'' ''none'' ''evidence'' ''all'' ''MIME parsing''
             ''Semantic MIME parsing was skipped because bounded inspection limits stopped raw indexing before the semantic parser could run; raw evidence remains available.''
             [] None)
          (add_unavailable [''mime''] c)
      else
        (case doc_semantic_error d of
           None \<Rightarrow>
             if doc_truncated d then
               add_finding
                 (new_finding ''analysis.parse'' ''analysis'' ''not-evaluated'' ''none'' ''evidence'' ''all'' ''MIME parsing''
                    ''Semantic MIME parsing stopped because bounded inspection limits were reached while indexing a decoded encapsulated message; completed evidence remains available.''
                    [] None)
                 (add_unavailable [''mime''] c)
             else
               add_finding
                 (new_finding ''analysis.parse'' ''analysis'' ''observed'' ''none'' ''evidence'' ''all'' ''MIME parsing''
                    ''Semantic MIME parsing completed. This is static offline analysis and does not establish transport or delivery conformance.''
                    [] None)
                 c
         | Some e \<Rightarrow>
             add_finding
               (new_finding ''analysis.parse'' ''analysis'' ''fail'' ''error'' ''standard'' ''all'' ''MIME parsing''
                  ''Semantic MIME parsing stopped at a sender-supplied syntax or decoding defect; completed raw evidence remains available.''
                  [(part_evidence (doc_parsed_through d))\<lparr>ev_value := Some (evidence_value (il_error_text E e))\<rparr>] (rfc ''RFC 2045'' ''https://www.rfc-editor.org/rfc/rfc2045''))
               (add_unavailable [''mime''] c)))"

end
