(* ===== verification/Inspect_Message.thy ===== *)
theory Inspect_Message
  imports Inspect_Context
begin

text \<open>
  \<open>internal/inspect/analyze.go\<close>: the rules about the message format (\<open>runMessageRules\<close>).  A rule adds
  its findings to the collector; \<open>complete\<close> says that the whole message was indexed and parsed, without
  which a rule does not claim that something is in order.
\<close>

section \<open>Lines\<close>

definition bare_line_evidence :: "physical_line list \<Rightarrow> evidence list" where
  "bare_line_evidence ls =
     map (\<lambda>(i, l). (evidence_of ''raw-line'')\<lparr>ev_line := Some (int i + 1), ev_value := Some (pl_terminator l)\<rparr>)
       (filter (\<lambda>(i, l). pl_terminator l = ''LF'') (enumerate 0 ls))"

definition rule_line_endings :: "('h, 'e) inspected \<Rightarrow> bool \<Rightarrow> collector \<Rightarrow> collector" where
  "rule_line_endings a complete c =
     (let evidence = bare_line_evidence (doc_lines (in_doc a)) in
      if evidence \<noteq> [] then
        add_finding
          (new_finding ''message.line-endings'' ''message'' ''fail'' ''error'' ''standard'' ''all'' ''Line endings''
             ''Bare LF line endings were found; Internet Message Format requires CRLF line endings.''
             evidence (rfc (''RFC 5322 '' @ section_sign @ ''2.3'') ''https://www.rfc-editor.org/rfc/rfc5322#section-2.3''))
          c
      else if complete then
        add_finding
          (new_finding ''message.line-endings'' ''message'' ''pass'' ''none'' ''standard'' ''all'' ''Line endings''
             ''All indexed physical lines use CRLF termination or the final EOF boundary.''
             [] (rfc (''RFC 5322 '' @ section_sign @ ''2.3'') ''https://www.rfc-editor.org/rfc/rfc5322#section-2.3''))
          c
      else c)"

text \<open>The longest line and the longest line in characters, with their numbers; a range outside the message is skipped.\<close>

record line_maxima =
  lm_octets :: nat
  lm_octets_line :: nat
  lm_chars :: nat
  lm_chars_line :: nat

text \<open>\<open>utf8.Valid\<close>: every rune is well formed; a replacement character of the text itself has three bytes.\<close>

function valid_utf8 :: "bytes \<Rightarrow> bool" where
  "valid_utf8 s =
     (if s = [] then True
      else if decode_rune s = (rune_error, 1) then False else valid_utf8 (drop (snd (decode_rune s)) s))"
  by pat_completeness auto
termination
  by (relation "measure length") (auto simp: decode_rune_width)

declare valid_utf8.simps [simp del]

definition measure_line :: "nat \<Rightarrow> bytes \<Rightarrow> line_maxima \<Rightarrow> line_maxima" where
  "measure_line number v m =
     (let m = (if lm_octets m < length v then m\<lparr>lm_octets := length v, lm_octets_line := number\<rparr> else m) in
      if valid_utf8 v \<and> lm_chars m < length (runes v)
      then m\<lparr>lm_chars := length (runes v), lm_chars_line := number\<rparr> else m)"

fun measure_lines :: "bytes \<Rightarrow> physical_line list \<Rightarrow> nat \<Rightarrow> line_maxima \<Rightarrow> line_maxima" where
  "measure_lines raw [] i m = m"
| "measure_lines raw (l # ls) i m =
     measure_lines raw ls (Suc i)
       (if valid_range (pl_raw l) (int (length raw)) then measure_line (Suc i) (range_bytes raw (pl_raw l)) m else m)"

definition no_maxima :: line_maxima where
  "no_maxima = \<lparr>lm_octets = 0, lm_octets_line = 0, lm_chars = 0, lm_chars_line = 0\<rparr>"

definition line_evidence :: "nat option \<Rightarrow> bytes \<Rightarrow> evidence" where
  "line_evidence line v = (evidence_of ''raw-line'')\<lparr>ev_line := map_option int line, ev_value := Some v\<rparr>"

definition rule_line_length :: "('h, 'e) inspected \<Rightarrow> bool \<Rightarrow> collector \<Rightarrow> collector" where
  "rule_line_length a complete c =
     (let m = measure_lines (doc_raw (in_doc a)) (doc_lines (in_doc a)) 0 no_maxima in
      if 998 < lm_octets m then
        add_finding
          (new_finding ''message.line-length'' ''message'' ''fail'' ''error'' ''standard'' ''all'' ''Line length''
             ''At least one physical line exceeds the 998-octet maximum.''
             [line_evidence (Some (lm_octets_line m)) (itoa (int (lm_octets m)) @ '' octets'')] (rfc (''RFC 5322 '' @ section_sign @ ''2.1.1'') ''https://www.rfc-editor.org/rfc/rfc5322#section-2.1.1''))
          c
      else if 78 < lm_octets m \<or> 78 < lm_chars m then
        add_finding
          (new_finding ''message.line-length'' ''message'' ''pass'' ''warning'' ''recommendation'' ''all'' ''Line length''
             ''At least one physical line exceeds the recommended 78-character line length.''
             [line_evidence (Some (if 78 < lm_chars m then lm_chars_line m else lm_octets_line m)) (''maximum '' @ itoa (int (lm_octets m)) @ '' octets; '' @ itoa (int (lm_chars m)) @ '' Unicode characters'')] (rfc (''RFC 5322 '' @ section_sign @ ''2.1.1'') ''https://www.rfc-editor.org/rfc/rfc5322#section-2.1.1''))
          c
      else if complete then
        add_finding
          (new_finding ''message.line-length'' ''message'' ''pass'' ''none'' ''standard'' ''all'' ''Line length''
             ''All indexed physical lines are within the standard maximum and recommendation.''
             [line_evidence None (''maximum '' @ itoa (int (lm_octets m)) @ '' octets'')] (rfc (''RFC 5322 '' @ section_sign @ ''2.1.1'') ''https://www.rfc-editor.org/rfc/rfc5322#section-2.1.1''))
          c
      else c)"

section \<open>The header block\<close>

text \<open>What is wrong with a header block, the number of the line, and the text to show.\<close>

type_synonym header_defect = "bytes \<times> int \<times> bytes"

definition no_defect :: header_defect where
  "no_defect = ([], 0, [])"

definition has_control :: "bytes \<Rightarrow> bool" where
  "has_control line \<longleftrightarrow> list_ex (\<lambda>c. byte c < 32 \<and> c \<noteq> TAB) line"

text \<open>One line; \<open>Inr\<close> is whether a field has begun.\<close>

definition inspect_header_line :: "bytes \<Rightarrow> int \<Rightarrow> bool \<Rightarrow> header_defect + bool" where
  "inspect_header_line line number seen =
     (if hd line = CHR '' '' \<or> hd line = TAB then
        (if \<not> seen then Inl (''An orphan header continuation line was found.'', number, line)
         else if has_control line then Inl (''A prohibited control byte was found in a header field.'', number, line)
         else Inr seen)
      else
        (case index_byte (\<lambda>c. c = CHR '':'') line of
           None \<Rightarrow> Inl (''A header field line is missing its colon separator.'', number, line)
         | Some colon \<Rightarrow>
             (let name = take colon line in
              if name = [] \<or> \<not> match_string field_name_pattern name \<or> \<not> is_ascii name
              then Inl (''A header field name is empty or contains invalid characters.'', number, name)
              else if has_control line then Inl (''A prohibited control byte was found in a header field.'', number, line)
              else Inr True)))"

function header_block_loop :: "bytes \<Rightarrow> int \<Rightarrow> bool \<Rightarrow> header_defect" where
  "header_block_loop block number seen =
     (if block = [] then no_defect
      else
        (let stop = (case index_byte (\<lambda>c. c = LF) block of None \<Rightarrow> length block | Some i \<Rightarrow> i);
             line = take stop block;
             line = (if stop < length block then trim_suffix line [CR] else line) in
         if line = [] then no_defect
         else
           (case inspect_header_line line (number + 1) seen of
              Inl defect \<Rightarrow> defect
            | Inr seen \<Rightarrow>
                if length block \<le> stop then no_defect
                else header_block_loop (drop (Suc stop) block) (number + 1) seen)))"
  by pat_completeness auto
termination
  by (relation "measure (\<lambda>(block, number, seen). length block)") (auto simp: Let_def)

declare header_block_loop.simps [simp del]

definition inspect_header_block :: "bytes \<Rightarrow> ('h, 'e) node \<Rightarrow> header_defect" where
  "inspect_header_block raw n =
     (let raw = node_raw raw n; i = info n; start = br_start (nd_raw_header i) in
      if \<not> valid_range (nd_raw_header i) (int (length raw)) then no_defect
      else
        (let number =
               (case nd_header_fields i of
                  [] \<Rightarrow> 0
                | f # fs \<Rightarrow>
                    (let field_start = br_start (hf_raw_field f) in
                     if start \<le> field_start \<and> field_start \<le> br_end (nd_raw_header i)
                     then hf_first_line f - 1 - int (length (filter (\<lambda>c. c = LF) (slice raw start field_start)))
                     else 0)) in
         header_block_loop (range_bytes raw (nd_raw_header i)) number False))"

definition rule_header_syntax ::
  "('h, 'e) inspected \<Rightarrow> ('h, 'e) node \<Rightarrow> bytes \<Rightarrow> bytes \<Rightarrow> bool \<Rightarrow> bool \<Rightarrow> collector \<Rightarrow> collector" where
  "rule_header_syntax a n ident label complete nested c =
     (let (defect, line, v) = inspect_header_block (doc_raw (in_doc a)) n;
          decoded = (nd_decoded_raw (info n) \<noteq> None);
          category = (if nested then ''mime'' else ''message'');
          evidence =
            \<lparr>ev_source = (if nested \<and> decoded then ''mime-part'' else ''raw-header''),
             ev_path = (if nested then Some (nd_path (info n)) else None), ev_field = None, ev_occurrence = None,
             ev_line = (if 0 < line \<and> \<not> decoded then Some line else None),
             ev_value = (if v \<noteq> [] then Some (evidence_value v) else None)\<rparr> in
      if defect \<noteq> [] then
        add_finding
          (new_finding ident category ''fail'' ''error'' ''standard'' ''all'' label
             defect
             [evidence] (rfc (''RFC 5322 '' @ section_sign @ ''2.2'') ''https://www.rfc-editor.org/rfc/rfc5322#section-2.2''))
          c
      else if complete then
        add_finding
          (new_finding ident category ''pass'' ''none'' ''standard'' ''all'' label
             ''The completed header block has valid field-line structure.''
             [] (rfc (''RFC 5322 '' @ section_sign @ ''2.2'') ''https://www.rfc-editor.org/rfc/rfc5322#section-2.2''))
          c
      else c)"

section \<open>Originator and date\<close>

definition rule_date :: "('h, 'e, 'c) inspect_lib \<Rightarrow> 'h \<Rightarrow> occurrence list \<Rightarrow> bool \<Rightarrow> collector \<Rightarrow> collector" where
  "rule_date E header os complete c =
     (let values = fields_named (il_unicode E) os ''Date'' in
      if length values \<noteq> 1 then
        add_finding
          (new_finding ''message.date'' ''message'' ''fail'' ''error'' ''standard'' ''all'' ''Date''
             ''Exactly one Date field is required.''
             (occurrences_evidence values ''Date'' None) (rfc (''RFC 5322 '' @ section_sign @ ''3.6'') ''https://www.rfc-editor.org/rfc/rfc5322#section-3.6''))
          c
      else if \<not> il_date_ok E header then
        add_finding
          (new_finding ''message.date'' ''message'' ''fail'' ''error'' ''standard'' ''all'' ''Date''
             ''The Date field is not a complete valid date-time.''
             (occurrences_evidence values ''Date'' None) (rfc (''RFC 5322 '' @ section_sign @ ''3.3'') ''https://www.rfc-editor.org/rfc/rfc5322#section-3.3''))
          c
      else if complete then
        add_finding
          (new_finding ''message.date'' ''message'' ''pass'' ''none'' ''standard'' ''all'' ''Date''
             ''Exactly one syntactically valid Date field is present.''
             [] (rfc (''RFC 5322 '' @ section_sign @ ''3.6'') ''https://www.rfc-editor.org/rfc/rfc5322#section-3.6''))
          c
      else c)"

text \<open>How many mailboxes, whether there are groups, and whether the field is valid, with what is collected.\<close>

definition rule_from :: "('h, 'e, 'c) inspect_lib \<Rightarrow> occurrence list \<Rightarrow> collector \<Rightarrow> (nat \<times> bool \<times> bool) \<times> collector" where
  "rule_from E os c =
     (let values = fields_named (il_unicode E) os ''From'' in
      if length values \<noteq> 1 then
        ((0, False, False),
         add_finding
          (new_finding ''message.from'' ''message'' ''fail'' ''error'' ''standard'' ''all'' ''From''
             ''Exactly one From field is required.''
             (occurrences_evidence values ''From'' None) (rfc (''RFC 5322 '' @ section_sign @ ''3.6.2'') ''https://www.rfc-editor.org/rfc/rfc5322#section-3.6.2''))
          c)
      else
        (let (count, groups, err) = parse_address_field (il_parse_addresses E) (oc_value (hd values)) False in
         if err \<noteq> None \<or> (count = 0 \<and> \<not> groups) then
           ((count, groups, False),
            add_finding
             (new_finding ''message.from'' ''message'' ''fail'' ''error'' ''standard'' ''all'' ''From''
                ''The From field is not a complete valid originator address list.''
                (occurrences_evidence values ''From'' None) (rfc ''RFC 6854'' ''https://www.rfc-editor.org/rfc/rfc6854''))
             c)
         else
           (let (severity, basis, detail) =
                  (if groups
                   then (''warning'', ''recommendation'',
                     ''The From field uses group syntax; RFC 6854 recommends limiting this form for interoperability.'')
                   else (''none'', ''standard'', ''The From field contains a valid mailbox list.'')) in
            ((count, groups, True),
             add_finding
              (new_finding ''message.from'' ''message'' ''pass'' severity basis ''all'' ''From''
                 detail
                 [] (rfc ''RFC 6854'' ''https://www.rfc-editor.org/rfc/rfc6854''))
              c))))"

definition rule_sender ::
  "('h, 'e, 'c) inspect_lib \<Rightarrow> occurrence list \<Rightarrow> nat \<Rightarrow> bool \<Rightarrow> bool \<Rightarrow> collector \<Rightarrow> collector" where
  "rule_sender E os from_count from_groups from_valid c =
     (let values = fields_named (il_unicode E) os ''Sender''; required = (from_valid \<and> 1 < from_count) in
      if values = [] \<and> \<not> required then c
      else if length values \<noteq> 1 then
        add_finding
          (new_finding ''message.sender'' ''message'' ''fail'' ''error'' ''standard'' ''all'' ''Sender''
             ''Sender is required when From identifies multiple mailboxes and must occur exactly once.''
             (occurrences_evidence values ''Sender'' None) (rfc (''RFC 5322 '' @ section_sign @ ''3.6.2'') ''https://www.rfc-editor.org/rfc/rfc5322#section-3.6.2''))
          c
      else
        (let (count, groups, err) = parse_address_field (il_parse_addresses E) (oc_value (hd values)) False in
         if err \<noteq> None \<or> count \<noteq> 1 then
           add_finding
             (new_finding ''message.sender'' ''message'' ''fail'' ''error'' ''standard'' ''all'' ''Sender''
                ''Sender must contain exactly one valid mailbox.''
                (occurrences_evidence values ''Sender'' None) (rfc (''RFC 5322 '' @ section_sign @ ''3.6.2'') ''https://www.rfc-editor.org/rfc/rfc5322#section-3.6.2''))
             c
         else if groups then
           add_finding
             (new_finding ''message.sender'' ''message'' ''pass'' ''warning'' ''recommendation'' ''all'' ''Sender''
                ''Sender uses a single-mailbox group form; direct mailbox form is more interoperable.''
                [] (rfc ''RFC 6854'' ''https://www.rfc-editor.org/rfc/rfc6854''))
             c
         else if \<not> required \<and> from_count = 1 \<and> \<not> from_groups then
           add_finding
             (new_finding ''message.sender'' ''message'' ''pass'' ''warning'' ''recommendation'' ''all'' ''Sender''
                ''Sender is syntactically valid but unnecessary for a single-mailbox From field.''
                [] (rfc (''RFC 5322 '' @ section_sign @ ''3.6.2'') ''https://www.rfc-editor.org/rfc/rfc5322#section-3.6.2''))
             c
         else
           add_finding
             (new_finding ''message.sender'' ''message'' ''pass'' ''none'' ''standard'' ''all'' ''Sender''
                ''The required Sender field contains exactly one valid mailbox.''
                [] (rfc (''RFC 5322 '' @ section_sign @ ''3.6.2'') ''https://www.rfc-editor.org/rfc/rfc5322#section-3.6.2''))
             c))"

section \<open>Identifiers, duplicates and address lists\<close>

definition rule_message_id :: "unicode \<Rightarrow> occurrence list \<Rightarrow> collector \<Rightarrow> collector" where
  "rule_message_id u os c =
     (let values = fields_named u os ''Message-ID'' in
      if values = [] then
        add_finding
          (new_finding ''message.message-id'' ''message'' ''pass'' ''warning'' ''recommendation'' ''all'' ''Message-ID''
             ''No Message-ID field is present; including one improves threading and interoperability.''
             [] (rfc (''RFC 5322 '' @ section_sign @ ''3.6.4'') ''https://www.rfc-editor.org/rfc/rfc5322#section-3.6.4''))
          c
      else if length values \<noteq> 1 \<or> \<not> valid_message_id (oc_value (hd values)) then
        add_finding
          (new_finding ''message.message-id'' ''message'' ''fail'' ''error'' ''standard'' ''all'' ''Message-ID''
             ''Message-ID, when present, must occur once with one complete msg-id value.''
             (occurrences_evidence values ''Message-ID'' None) (rfc (''RFC 5322 '' @ section_sign @ ''3.6.4'') ''https://www.rfc-editor.org/rfc/rfc5322#section-3.6.4''))
          c
      else
        add_finding
          (new_finding ''message.message-id'' ''message'' ''pass'' ''none'' ''standard'' ''all'' ''Message-ID''
             ''One syntactically valid Message-ID is present.''
             [] (rfc (''RFC 5322 '' @ section_sign @ ''3.6.4'') ''https://www.rfc-editor.org/rfc/rfc5322#section-3.6.4''))
          c)"

definition singleton_fields :: "bytes list" where
  "singleton_fields = [''Reply-To'', ''To'', ''Cc'', ''Bcc'', ''In-Reply-To'', ''References'', ''Subject'']"

definition duplicate_evidence :: "unicode \<Rightarrow> occurrence list \<Rightarrow> bytes \<Rightarrow> evidence list" where
  "duplicate_evidence u os name =
     (let values = fields_named u os name in if 1 < length values then occurrences_evidence values name None else [])"

definition rule_singletons :: "unicode \<Rightarrow> occurrence list \<Rightarrow> collector \<Rightarrow> collector" where
  "rule_singletons u os c =
     (let duplicates = concat (map (duplicate_evidence u os) singleton_fields) in
      if duplicates \<noteq> [] then
        add_finding
          (new_finding ''message.singletons'' ''message'' ''fail'' ''error'' ''standard'' ''all'' ''Singleton fields''
             ''One or more fields that may occur at most once are duplicated.''
             duplicates (rfc (''RFC 5322 '' @ section_sign @ ''3.6'') ''https://www.rfc-editor.org/rfc/rfc5322#section-3.6''))
          c
      else
        add_finding
          (new_finding ''message.singletons'' ''message'' ''pass'' ''none'' ''standard'' ''all'' ''Singleton fields''
             ''No duplicate singleton destination, threading, or subject fields were found.''
             [] (rfc (''RFC 5322 '' @ section_sign @ ''3.6'') ''https://www.rfc-editor.org/rfc/rfc5322#section-3.6''))
          c)"

definition rule_address_field :: "('h, 'e, 'c) inspect_lib \<Rightarrow> occurrence list \<Rightarrow> bytes \<Rightarrow> collector \<Rightarrow> collector" where
  "rule_address_field E os name c =
     (let values = fields_named (il_unicode E) os name in
      if values = [] then c
      else
        (let (count, groups, err) =
               parse_address_field (il_parse_addresses E) (oc_value (hd values)) (equal_fold (il_unicode E) name ''Bcc'');
             ident = ''message.address-fields.'' @ to_lower (il_unicode E) name in
         if 1 < length values \<or> err \<noteq> None then
           add_finding
             (new_finding ident ''message'' ''fail'' ''error'' ''standard'' ''all'' (name @ '' addresses'')
                ''The field does not contain one complete valid address list.''
                (occurrences_evidence values name None) (rfc (''RFC 5322 '' @ section_sign @ ''3.6.3'') ''https://www.rfc-editor.org/rfc/rfc5322#section-3.6.3''))
             c
         else
           add_finding
             (new_finding ident ''message'' ''pass'' ''none'' ''standard'' ''all'' (name @ '' addresses'')
                ''The address-list syntax is valid.''
                [] (rfc (''RFC 5322 '' @ section_sign @ ''3.6.3'') ''https://www.rfc-editor.org/rfc/rfc5322#section-3.6.3''))
             c))"

definition rule_threading :: "unicode \<Rightarrow> occurrence list \<Rightarrow> bytes \<Rightarrow> collector \<Rightarrow> collector" where
  "rule_threading u os name c =
     (let values = fields_named u os name; ident = ''message.threading.'' @ to_lower u name in
      if values = [] then c
      else if \<not> (length values = 1 \<and> valid_message_id_list (oc_value (hd values))) then
        add_finding
          (new_finding ident ''message'' ''fail'' ''error'' ''standard'' ''all'' name
             ''The field must contain one or more complete msg-id values separated only by comments or folding whitespace.''
             (occurrences_evidence values name None) (rfc (''RFC 5322 '' @ section_sign @ ''3.6.4'') ''https://www.rfc-editor.org/rfc/rfc5322#section-3.6.4''))
          c
      else
        add_finding
          (new_finding ident ''message'' ''pass'' ''none'' ''standard'' ''all'' name
             ''The threading field contains complete msg-id values.''
             [] (rfc (''RFC 5322 '' @ section_sign @ ''3.6.4'') ''https://www.rfc-editor.org/rfc/rfc5322#section-3.6.4''))
          c)"

section \<open>Internationalized headers\<close>

text \<open>The fields of one node whose bodies are not UTF-8, and those that are but are not ASCII.\<close>

fun international_fields ::
  "unicode \<Rightarrow> bytes \<Rightarrow> bool \<Rightarrow> bytes \<Rightarrow> header_field list \<Rightarrow> (bytes \<Rightarrow> int) \<Rightarrow> evidence list \<times> evidence list" where
  "international_fields u raw decoded path [] counts = ([], [])"
| "international_fields u raw decoded path (f # fs) counts =
     (if \<not> valid_range (hf_raw_value f) (int (length raw)) then international_fields u raw decoded path fs counts
      else
        (let v = range_bytes raw (hf_raw_value f); lower = to_lower u (hf_name f); n = counts lower + 1;
             e = \<lparr>ev_source = (if decoded then ''mime-part'' else ''raw-header''), ev_path = Some path,
                  ev_field = Some (hf_name f), ev_occurrence = Some n, ev_line = None, ev_value = None\<rparr>;
             (invalid, direct) = international_fields u raw decoded path fs (counts(lower := n)) in
         if \<not> valid_utf8 v then (e # invalid, direct)
         else if \<not> is_ascii v then (invalid, e # direct)
         else (invalid, direct)))"

definition node_international :: "unicode \<Rightarrow> bytes \<Rightarrow> ('h, 'e) node \<Rightarrow> evidence list \<times> evidence list" where
  "node_international u raw n =
     international_fields u (node_raw raw n) (nd_decoded_raw (info n) \<noteq> None) (nd_path (info n))
       (nd_header_fields (info n)) (\<lambda>_. 0)"

text \<open>The stack of the code visits a node before its children and these in order: the list \<open>nodes\<close>.\<close>

definition rule_internationalized_headers :: "unicode \<Rightarrow> ('h, 'e) inspected \<Rightarrow> ('h, 'e) node \<Rightarrow> collector \<Rightarrow> collector" where
  "rule_internationalized_headers u a n c =
     (let found = map (node_international u (doc_raw (in_doc a))) (nodes n);
          invalid = concat (map fst found); direct = concat (map snd found) in
      if invalid \<noteq> [] then
        add_finding
          (new_finding ''message.internationalized-headers'' ''message'' ''fail'' ''error'' ''standard'' ''all'' ''Internationalized headers''
             ''At least one raw header field body is not valid UTF-8.''
             invalid (rfc ''RFC 6532'' ''https://www.rfc-editor.org/rfc/rfc6532''))
          c
      else if direct \<noteq> [] then
        add_finding
          (new_finding ''message.internationalized-headers'' ''message'' ''observed'' ''none'' ''evidence'' ''all'' ''Internationalized headers''
             ''RFC 6532 syntax observed; SMTPUTF8 transport authorization not available in stored data.''
             direct (rfc ''RFC 6532'' ''https://www.rfc-editor.org/rfc/rfc6532''))
          c
      else if in_whole_raw a then
        add_finding
          (new_finding ''message.internationalized-headers'' ''message'' ''pass'' ''none'' ''standard'' ''all'' ''Internationalized headers''
             ''All indexed header field bodies are ASCII or use encoded-word syntax.''
             [] (rfc ''RFC 6532'' ''https://www.rfc-editor.org/rfc/rfc6532''))
          c
      else c)"

section \<open>All of them\<close>

definition run_message_rules ::
  "('h, 'e, 'c) inspect_lib \<Rightarrow> ('h, 'e) inspected \<Rightarrow> ('h, 'e) node \<Rightarrow> collector \<Rightarrow> collector" where
  "run_message_rules E a n c =
     (let u = il_unicode E; os = header_occurrences u (doc_raw (in_doc a)) n;
          complete = (in_whole_raw a \<and> doc_semantic_error (in_doc a) = None);
          c = rule_line_endings a complete c;
          c = rule_header_syntax a n ''message.header-syntax'' ''Message header syntax'' complete False c;
          c = rule_line_length a complete c;
          c = rule_date E (nd_header (info n)) os complete c;
          ((count, groups, valid), c) = rule_from E os c;
          c = rule_sender E os count groups valid c;
          c = rule_message_id u os c;
          c = rule_singletons u os c;
          c = fold (rule_address_field E os) [''Reply-To'', ''To'', ''Cc'', ''Bcc''] c;
          c = fold (rule_threading u os) [''In-Reply-To'', ''References''] c in
      rule_internationalized_headers u a n c)"

end
