(* ===== verification/Inspect_Mime.thy ===== *)
theory Inspect_Mime
  imports Inspect_Message
begin

text \<open>
  \<open>internal/inspect/analyze.go\<close>: the rules about the MIME structure (\<open>runMIMERules\<close>), for the message
  and then for every part, a part before the parts inside it.
\<close>

section \<open>Structure\<close>

text \<open>The stack of \<open>structuralDefect\<close>: the last child of a part is visited first.\<close>

lemma size_list_rev: "size_list f (rev xs) = size_list f xs"
  by (induction xs) (simp_all add: size_list_append)

function defect_loop :: "('h, 'e) node list \<Rightarrow> bytes" where
  "defect_loop [] = []"
| "defect_loop (Node i cs # stack) =
     (if has_prefix (nd_media_type i) ''multipart/'' \<and> trim_space (param (nd_media_params i) ''boundary'') = []
      then ''A multipart entity is missing a valid boundary parameter.''
      else if has_prefix (nd_media_type i) ''multipart/'' \<and> \<not> nd_boundary_closed i
      then ''A multipart entity has no closing boundary delimiter.''
      else defect_loop (rev cs @ stack))"
  by pat_completeness auto
termination
  by (relation "measure (size_list size)") (auto simp: size_list_append size_list_rev)

definition structural_defect :: "('h, 'e) node \<Rightarrow> bytes" where
  "structural_defect n = defect_loop [n]"

definition node_occurrences :: "unicode \<Rightarrow> ('h, 'e) inspected \<Rightarrow> ('h, 'e) node \<Rightarrow> bytes \<Rightarrow> occurrence list" where
  "node_occurrences u a n name = fields_named u (header_occurrences u (doc_raw (in_doc a)) n) name"

section \<open>Content type and transfer encoding\<close>

definition rule_mime_content_type :: "unicode \<Rightarrow> ('h, 'e) inspected \<Rightarrow> ('h, 'e) node \<Rightarrow> collector \<Rightarrow> collector" where
  "rule_mime_content_type u a n c =
     (let values = node_occurrences u a n ''Content-Type''; i = info n; path = nd_path i;
          bad = (1 < length values \<or> nd_malformed_content_type i
            \<or> (has_prefix (nd_media_type i) ''multipart/'' \<and> trim_space (param (nd_media_params i) ''boundary'') = []));
          ident = ''mime.content-type.'' @ path in
      if bad then
        add_finding
          (new_finding ident ''mime'' ''fail'' ''error'' ''standard'' ''all'' (''Content-Type '' @ path)
             ''The effective media type has malformed syntax, a duplicate field, or a multipart boundary defect.''
             (occurrences_evidence values ''Content-Type'' (Some path)) (rfc (''RFC 2045 '' @ section_sign @ ''5'') ''https://www.rfc-editor.org/rfc/rfc2045#section-5''))
          c
      else
        add_finding
          (new_finding ident ''mime'' ''pass'' ''none'' ''standard'' ''all'' (''Content-Type '' @ path)
             ''The explicit Content-Type or applicable RFC default is syntactically valid.''
             [(part_evidence (Some path))\<lparr>ev_value := Some (nd_media_type i)\<rparr>] (rfc (''RFC 2045 '' @ section_sign @ ''5'') ''https://www.rfc-editor.org/rfc/rfc2045#section-5''))
          c)"

definition rule_mime_transfer :: "unicode \<Rightarrow> ('h, 'e) inspected \<Rightarrow> ('h, 'e) node \<Rightarrow> collector \<Rightarrow> collector" where
  "rule_mime_transfer u a n c =
     (let values = node_occurrences u a n ''Content-Transfer-Encoding''; i = info n; path = nd_path i;
          ident = ''mime.transfer-encoding.'' @ path; label = ''Transfer encoding '' @ path;
          declared = to_lower u (trim_space (nd_transfer_encoding i));
          encoding = (if declared = [] then ''7bit'' else declared);
          body = raw_body (doc_raw (in_doc a)) n;
          here = [part_evidence (Some path)];
          contradiction = (case body of None \<Rightarrow> [] | Some b \<Rightarrow> transfer_domain_contradiction b encoding) in
      if 1 < length values \<or> \<not> is_token encoding then
        add_finding
          (new_finding ident ''mime'' ''fail'' ''error'' ''standard'' ''all'' label
             ''Content-Transfer-Encoding is duplicated or is not a valid token.''
             (occurrences_evidence values ''Content-Transfer-Encoding'' (Some path)) (rfc (''RFC 2045 '' @ section_sign @ ''6'') ''https://www.rfc-editor.org/rfc/rfc2045#section-6''))
          c
      else if children n \<noteq> [] \<and> encoding \<notin> {''7bit'', ''8bit'', ''binary''} then
        add_finding
          (new_finding ident ''mime'' ''fail'' ''error'' ''standard'' ''all'' label
             ''Composite MIME entities may only use 7bit, 8bit, or binary transfer encoding.''
             (occurrences_evidence values ''Content-Transfer-Encoding'' (Some path)) (rfc (''RFC 2045 '' @ section_sign @ ''6.4'') ''https://www.rfc-editor.org/rfc/rfc2045#section-6.4''))
          c
      else if encoding = ''base64'' \<and> body \<noteq> None \<and> (invalid_base64 (the body) \<or> encoded_line_over (the body) 76) then
        add_finding
          (new_finding ident ''mime'' ''fail'' ''error'' ''standard'' ''all'' label
             ''The base64 payload is malformed or has an encoded line longer than 76 characters.''
             here (rfc (''RFC 2045 '' @ section_sign @ ''6.8'') ''https://www.rfc-editor.org/rfc/rfc2045#section-6.8''))
          c
      else if encoding = ''quoted-printable'' \<and> body \<noteq> None
          \<and> (invalid_quoted_printable (the body) \<or> encoded_line_over (the body) 76) then
        add_finding
          (new_finding ident ''mime'' ''fail'' ''error'' ''standard'' ''all'' label
             ''The quoted-printable payload is malformed or has an encoded line longer than 76 characters.''
             here (rfc (''RFC 2045 '' @ section_sign @ ''6.7'') ''https://www.rfc-editor.org/rfc/rfc2045#section-6.7''))
          c
      else if encoding \<in> {''7bit'', ''8bit''} \<and> contradiction \<noteq> [] then
        add_finding
          (new_finding ident ''mime'' ''observed'' ''none'' ''evidence'' ''all'' label
             (contradiction @ '' Hoomail does not retain BODY or 8BITMIME transport metadata.'')
             here (rfc (''RFC 2045 '' @ section_sign @ ''6'') ''https://www.rfc-editor.org/rfc/rfc2045#section-6''))
          c
      else if encoding \<notin> {''7bit'', ''8bit'', ''binary'', ''base64'', ''quoted-printable''} then
        add_finding
          (new_finding ident ''mime'' ''observed'' ''none'' ''evidence'' ''all'' label
             ''A syntactically valid but unsupported transfer encoding was observed; content remains opaque.''
             [(part_evidence (Some path))\<lparr>ev_value := Some encoding\<rparr>] (rfc (''RFC 2045 '' @ section_sign @ ''6'') ''https://www.rfc-editor.org/rfc/rfc2045#section-6''))
          c
      else
        add_finding
          (new_finding ident ''mime'' ''pass'' ''none'' ''standard'' ''all'' label
             ''The transfer-encoding declaration and available raw payload checks are syntactically valid.''
             [] (rfc (''RFC 2045 '' @ section_sign @ ''6'') ''https://www.rfc-editor.org/rfc/rfc2045#section-6''))
          c)"

section \<open>Character set, disposition and identifier\<close>

definition rule_mime_charset :: "('h, 'e, 'c) inspect_lib \<Rightarrow> ('h, 'e) node \<Rightarrow> collector \<Rightarrow> collector" where
  "rule_mime_charset E n c =
     (let i = info n; path = nd_path i; ident = ''mime.charset.'' @ path; label = ''Charset '' @ path;
          charset = trim_space (param (nd_media_params i) ''charset'') in
      if \<not> has_prefix (to_lower (il_unicode E) (nd_media_type i)) ''text/'' then c
      else
        (case nd_decode_error i of
           None \<Rightarrow>
             if charset = [] \<and> \<not> is_ascii (nd_decoded_body i) then
               add_finding
                 (new_finding ident ''mime'' ''fail'' ''error'' ''standard'' ''all'' label
                    ''Non-ASCII decoded text relies on the US-ASCII default charset.''
                    [part_evidence (Some path)] (rfc (''RFC 2045 '' @ section_sign @ ''5.2'') ''https://www.rfc-editor.org/rfc/rfc2045#section-5.2''))
                 c
             else
               add_finding
                 (new_finding ident ''mime'' ''pass'' ''none'' ''standard'' ''all'' label
                    ''Text charset conversion completed or the US-ASCII default is safe for the decoded content.''
                    [] (rfc (''RFC 2045 '' @ section_sign @ ''5'') ''https://www.rfc-editor.org/rfc/rfc2045#section-5''))
                 c
         | Some e \<Rightarrow>
             add_finding
               (new_finding ident ''mime'' ''pass'' ''warning'' ''recommendation'' ''all'' label
                  ''The declared charset or text decoder failed; recipients may not display the part interoperably.''
                  [(part_evidence (Some path))\<lparr>ev_value := Some (evidence_value (il_error_text E (Library e)))\<rparr>] (rfc (''RFC 2045 '' @ section_sign @ ''5'') ''https://www.rfc-editor.org/rfc/rfc2045#section-5''))
               c))"

definition rule_mime_disposition :: "unicode \<Rightarrow> ('h, 'e) inspected \<Rightarrow> ('h, 'e) node \<Rightarrow> collector \<Rightarrow> collector" where
  "rule_mime_disposition u a n c =
     (let values = node_occurrences u a n ''Content-Disposition''; i = info n; path = nd_path i;
          ident = ''mime.disposition.'' @ path; label = ''Disposition '' @ path;
          evidence = occurrences_evidence values ''Content-Disposition'' (Some path);
          disposition = to_lower u (trim_space (nd_disposition i)) in
      if values = [] then c
      else if 1 < length values \<or> nd_malformed_disposition i then
        add_finding
          (new_finding ident ''mime'' ''fail'' ''error'' ''standard'' ''all'' label
             ''Content-Disposition is duplicated or malformed.''
             evidence (rfc ''RFC 2183'' ''https://www.rfc-editor.org/rfc/rfc2183''))
          c
      else if dangerous_filename u (param (nd_disposition_params i) ''filename'') then
        add_finding
          (new_finding ident ''mime'' ''pass'' ''warning'' ''recommendation'' ''all'' label
             ''The filename contains dangerous path or terminal components and should be sanitized by recipients.''
             evidence (rfc (''RFC 2183 '' @ section_sign @ ''2.3'') ''https://www.rfc-editor.org/rfc/rfc2183#section-2.3''))
          c
      else if disposition \<noteq> ''inline'' \<and> disposition \<noteq> ''attachment'' then
        add_finding
          (new_finding ident ''mime'' ''observed'' ''none'' ''evidence'' ''all'' label
             ''An unrecognized disposition token was observed; recipients are expected to treat it as attachment.''
             [(part_evidence (Some path))\<lparr>ev_value := Some disposition\<rparr>] (rfc (''RFC 2183 '' @ section_sign @ ''2.8'') ''https://www.rfc-editor.org/rfc/rfc2183#section-2.8''))
          c
      else
        add_finding
          (new_finding ident ''mime'' ''pass'' ''none'' ''standard'' ''all'' label
             ''Content-Disposition syntax and any filename are safe for static presentation.''
             [] (rfc ''RFC 2183'' ''https://www.rfc-editor.org/rfc/rfc2183''))
          c)"

definition rule_mime_content_id :: "unicode \<Rightarrow> ('h, 'e) inspected \<Rightarrow> ('h, 'e) node \<Rightarrow> collector \<Rightarrow> collector" where
  "rule_mime_content_id u a n c =
     (let values = node_occurrences u a n ''Content-ID''; path = nd_path (info n);
          ident = ''mime.content-id.'' @ path; label = ''Content-ID '' @ path in
      if values = [] then c
      else if 1 < length values \<or> \<not> valid_message_id (oc_value (hd values)) then
        add_finding
          (new_finding ident ''mime'' ''fail'' ''error'' ''standard'' ''all'' label
             ''Content-ID is duplicated or is not a complete msg-id.''
             (occurrences_evidence values ''Content-ID'' (Some path)) (rfc (''RFC 2045 '' @ section_sign @ ''7'') ''https://www.rfc-editor.org/rfc/rfc2045#section-7''))
          c
      else
        add_finding
          (new_finding ident ''mime'' ''pass'' ''none'' ''standard'' ''all'' label
             ''The Content-ID field contains one complete msg-id.''
             [] (rfc (''RFC 2045 '' @ section_sign @ ''7'') ''https://www.rfc-editor.org/rfc/rfc2045#section-7''))
          c)"

section \<open>Multipart related and alternative\<close>

text \<open>The last child with the identifier that \<open>start\<close> names, and how many there are.\<close>

definition related_matches :: "('h, 'e) mime_lib \<Rightarrow> bytes \<Rightarrow> ('h, 'e) node list \<Rightarrow> ('h, 'e) node list" where
  "related_matches L start cs =
     filter (\<lambda>ch. inspect_content_id (ml_unicode L) (ml_get L (nd_header (info ch)) ''Content-ID'') = start) cs"

definition rule_related :: "('h, 'e) mime_lib \<Rightarrow> ('h, 'e) node \<Rightarrow> collector \<Rightarrow> collector" where
  "rule_related L n c =
     (let u = ml_unicode L; i = info n; path = nd_path i; ident = ''mime.related.'' @ path;
          label = ''Related structure '' @ path; here = [part_evidence (Some path)];
          type_param = trim_space (param (nd_media_params i) ''type'');
          start = inspect_content_id u (param (nd_media_params i) ''start'');
          matches = related_matches L start (children n) in
      if children n = [] \<or> type_param = [] then
        add_finding
          (new_finding ident ''mime'' ''fail'' ''error'' ''standard'' ''all'' label
             ''multipart/related requires children and a valid type parameter.''
             here (rfc ''RFC 2387'' ''https://www.rfc-editor.org/rfc/rfc2387''))
          c
      else if start \<noteq> [] \<and> length matches \<noteq> 1 then
        add_finding
          (new_finding ident ''mime'' ''fail'' ''error'' ''standard'' ''all'' label
             ''The start parameter must resolve to exactly one direct child.''
             here (rfc (''RFC 2387 '' @ section_sign @ ''3'') ''https://www.rfc-editor.org/rfc/rfc2387#section-3''))
          c
      else if \<not> equal_fold u type_param (nd_media_type (info (if start \<noteq> [] then last matches else hd (children n)))) then
        add_finding
          (new_finding ident ''mime'' ''fail'' ''error'' ''standard'' ''all'' label
             ''The multipart/related type parameter does not match the selected root media type.''
             here (rfc (''RFC 2387 '' @ section_sign @ ''3'') ''https://www.rfc-editor.org/rfc/rfc2387#section-3''))
          c
      else
        add_finding
          (new_finding ident ''mime'' ''pass'' ''none'' ''standard'' ''all'' label
             ''The related root, type, and optional start reference are internally consistent.''
             [] (rfc ''RFC 2387'' ''https://www.rfc-editor.org/rfc/rfc2387''))
          c)"

text \<open>The last child that is presented as HTML, and the last that is presented as text only.\<close>

definition rule_alternative :: "('h, 'e) mime_lib \<Rightarrow> ('h, 'e) node \<Rightarrow> collector \<Rightarrow> collector" where
  "rule_alternative L n c =
     (let path = nd_path (info n); ident = ''mime.alternative.'' @ path; label = ''Alternative ordering '' @ path;
          ps = map (select_presentation L) (children n);
          html = last_index (\<lambda>p. pr_supported p \<and> pr_html p \<noteq> None) ps;
          plain = last_index (\<lambda>p. pr_supported p \<and> pr_text p \<noteq> None \<and> pr_html p = None) ps in
      if html \<noteq> None \<and> plain = None then
        add_finding
          (new_finding ident ''mime'' ''pass'' ''warning'' ''recommendation'' ''all'' label
             ''HTML is available without a plain-text alternative; including both improves interoperability and accessibility.''
             [] (rfc (''RFC 2046 '' @ section_sign @ ''5.1.4'') ''https://www.rfc-editor.org/rfc/rfc2046#section-5.1.4''))
          c
      else if html \<noteq> None \<and> the html < the plain then
        add_finding
          (new_finding ident ''mime'' ''pass'' ''warning'' ''recommendation'' ''all'' label
             ''A later supported plain-text child makes plain text preferred over the earlier HTML child.''
             [] (rfc (''RFC 2046 '' @ section_sign @ ''5.1.4'') ''https://www.rfc-editor.org/rfc/rfc2046#section-5.1.4''))
          c
      else
        add_finding
          (new_finding ident ''mime'' ''pass'' ''none'' ''recommendation'' ''all'' label
             ''Supported alternatives are ordered from plain text toward richer HTML presentation.''
             [] (rfc (''RFC 2046 '' @ section_sign @ ''5.1.4'') ''https://www.rfc-editor.org/rfc/rfc2046#section-5.1.4''))
          c)"

section \<open>All of them\<close>

definition run_part_rules ::
  "('h, 'e, 'c) inspect_lib \<Rightarrow> ('h, 'e) inspected \<Rightarrow> bool \<Rightarrow> ('h, 'e) node \<Rightarrow> collector \<Rightarrow> collector" where
  "run_part_rules E a is_root n c =
     (let u = il_unicode E; L = il_mime E;
          c = rule_mime_content_type u a n c;
          c = (if \<not> is_root
               then rule_header_syntax a n (''mime.header-syntax.'' @ nd_path (info n)) ''MIME part header syntax''
                 (in_whole_raw a \<and> \<not> doc_truncated (in_doc a)) True c
               else c);
          c = rule_mime_transfer u a n c;
          c = rule_mime_charset E n c;
          c = rule_mime_disposition u a n c;
          c = rule_mime_content_id u a n c;
          c = (if equal_fold u (nd_media_type (info n)) ''multipart/related'' then rule_related L n c else c) in
      if equal_fold u (nd_media_type (info n)) ''multipart/alternative'' then rule_alternative L n c else c)"

definition rule_mime_version :: "unicode \<Rightarrow> ('h, 'e) inspected \<Rightarrow> ('h, 'e) node \<Rightarrow> collector \<Rightarrow> collector" where
  "rule_mime_version u a n c =
     (let named = node_occurrences u a n; values = named ''MIME-Version''; media = nd_media_type (info n) in
      if named ''Content-Type'' = [] \<and> named ''Content-Transfer-Encoding'' = [] \<and> values = []
         \<and> \<not> has_prefix media ''multipart/'' \<and> \<not> has_prefix media ''message/''
      then c
      else if length values = 1 \<and> trim_space (strip_comments (oc_value (hd values))) = ''1.0'' then
        add_finding
          (new_finding ''mime.version'' ''mime'' ''pass'' ''none'' ''standard'' ''all'' ''MIME-Version''
             ''Exactly one MIME-Version: 1.0 field is present.''
             [] (rfc (''RFC 2045 '' @ section_sign @ ''4'') ''https://www.rfc-editor.org/rfc/rfc2045#section-4''))
          c
      else
        add_finding
          (new_finding ''mime.version'' ''mime'' ''fail'' ''error'' ''standard'' ''all'' ''MIME-Version''
             ''MIME content requires exactly one comment-normalized MIME-Version: 1.0 field.''
             (occurrences_evidence values ''MIME-Version'' None) (rfc (''RFC 2045 '' @ section_sign @ ''4'') ''https://www.rfc-editor.org/rfc/rfc2045#section-4''))
          c)"

text \<open>The root is the first of \<open>nodes\<close>; the rules compare pointers to leave it out.\<close>

definition run_mime_rules ::
  "('h, 'e, 'c) inspect_lib \<Rightarrow> ('h, 'e) inspected \<Rightarrow> ('h, 'e) node \<Rightarrow> collector \<Rightarrow> collector" where
  "run_mime_rules E a n c =
     (let c = rule_mime_version (il_unicode E) a n c in
      if doc_semantic_error (in_doc a) \<noteq> None \<or> doc_truncated (in_doc a) then
        add_finding
          (new_finding ''mime.structure'' ''mime'' ''observed'' ''none'' ''evidence'' ''all'' ''MIME structure''
             ''Only the completed MIME prefix is reported; analysis.parse or analysis.truncated owns the partial condition.''
             [] (rfc ''RFC 2046'' ''https://www.rfc-editor.org/rfc/rfc2046''))
          c
      else
        (let detail = structural_defect n;
             c = (if detail \<noteq> [] then
                    add_finding
                      (new_finding ''mime.structure'' ''mime'' ''fail'' ''error'' ''standard'' ''all'' ''MIME structure''
                         detail
                         [] (rfc ''RFC 2046'' ''https://www.rfc-editor.org/rfc/rfc2046''))
                      c
                  else
                    add_finding
                      (new_finding ''mime.structure'' ''mime'' ''pass'' ''none'' ''standard'' ''all'' ''MIME structure''
                         ''Multipart boundaries and completed MIME structure are internally consistent.''
                         [] (rfc ''RFC 2046'' ''https://www.rfc-editor.org/rfc/rfc2046''))
                      c) in
         fold (run_part_rules E a False) (tl (nodes n)) (run_part_rules E a True n c)))"

end
