(* ===== verification/Inspect_Auth.thy ===== *)
theory Inspect_Auth
  imports Inspect_Context
begin

text \<open>
  \<open>internal/inspect/analyze.go\<close>: the rules about authentication fields, the ARC chain and unsubscribe
  fields.  Nothing is verified cryptographically; the rules are about the syntax of the fields.
\<close>

section \<open>The ARC chain\<close>

record arc_set =
  ar_results :: bool
  ar_signature :: bool
  ar_seal :: bool
  ar_cv :: bytes

definition no_arc_set :: arc_set where
  "no_arc_set = \<lparr>ar_results = False, ar_signature = False, ar_seal = False, ar_cv = []\<rparr>"

type_synonym arc_sets = "(int \<times> arc_set) list"

definition arc_get :: "arc_sets \<Rightarrow> int \<Rightarrow> arc_set" where
  "arc_get sets i = (case map_of sets i of None \<Rightarrow> no_arc_set | Some s \<Rightarrow> s)"

text \<open>The three loops over the fields; \<open>Inl\<close> is the text of the failure.\<close>

fun arc_results_loop :: "unicode \<Rightarrow> bytes list \<Rightarrow> arc_sets \<Rightarrow> bytes + arc_sets" where
  "arc_results_loop u [] sets = Inr sets"
| "arc_results_loop u (v # vs) sets =
     (case parse_arc_instance u v of
        None \<Rightarrow> Inl ''ARC-Authentication-Results has malformed syntax or a missing instance.''
      | Some i \<Rightarrow>
          if ar_results (arc_get sets i) then Inl ''An ARC instance repeats ARC-Authentication-Results.''
          else arc_results_loop u vs (map_put i ((arc_get sets i)\<lparr>ar_results := True\<rparr>) sets))"

definition checked_tags :: "unicode \<Rightarrow> (tags \<Rightarrow> tag_err option) \<Rightarrow> bytes \<Rightarrow> tag_err + tags" where
  "checked_tags u check v =
     (case parse_tag_list u v of
        Inl e \<Rightarrow> Inl e
      | Inr tags \<Rightarrow> (case check tags of Some e \<Rightarrow> Inl e | None \<Rightarrow> Inr tags))"

definition arc_instance :: "tag_err + tags \<Rightarrow> (int \<times> tags) option" where
  "arc_instance r =
     (case r of
        Inl e \<Rightarrow> None
      | Inr tags \<Rightarrow> (case instance_of (param tags ''i'') of None \<Rightarrow> None | Some i \<Rightarrow> Some (i, tags)))"

fun arc_signature_loop :: "unicode \<Rightarrow> bytes list \<Rightarrow> arc_sets \<Rightarrow> bytes + arc_sets" where
  "arc_signature_loop u [] sets = Inr sets"
| "arc_signature_loop u (v # vs) sets =
     (case arc_instance (checked_tags u (\<lambda>tags. validate_dkim u tags True) v) of
        None \<Rightarrow> Inl ''ARC-Message-Signature has malformed static syntax.''
      | Some (i, tags) \<Rightarrow>
          if ar_signature (arc_get sets i) then Inl ''An ARC instance repeats ARC-Message-Signature.''
          else arc_signature_loop u vs (map_put i ((arc_get sets i)\<lparr>ar_signature := True\<rparr>) sets))"

fun arc_seal_loop :: "unicode \<Rightarrow> bytes list \<Rightarrow> arc_sets \<Rightarrow> bytes + arc_sets" where
  "arc_seal_loop u [] sets = Inr sets"
| "arc_seal_loop u (v # vs) sets =
     (case arc_instance (checked_tags u (validate_arc_seal u) v) of
        None \<Rightarrow> Inl ''ARC-Seal has malformed static syntax.''
      | Some (i, tags) \<Rightarrow>
          if ar_seal (arc_get sets i) then Inl ''An ARC instance repeats ARC-Seal.''
          else
            arc_seal_loop u vs
              (map_put i ((arc_get sets i)\<lparr>ar_seal := True, ar_cv := to_lower u (param tags ''cv'')\<rparr>) sets))"

text \<open>The loop over the instances from \<open>i\<close> to the number of sets.\<close>

fun arc_order_loop :: "arc_sets \<Rightarrow> int list \<Rightarrow> bytes" where
  "arc_order_loop sets [] = []"
| "arc_order_loop sets (i # is) =
     (let s = arc_get sets i in
      if map_of sets i = None \<or> \<not> ar_results s \<or> \<not> ar_signature s \<or> \<not> ar_seal s
      then ''ARC instances have a gap or an incomplete set.''
      else if (i = 1 \<and> ar_cv s \<noteq> ''none'') \<or> (1 < i \<and> ar_cv s \<noteq> ''pass'')
      then ''ARC-Seal cv values do not follow the static none/pass sequence.''
      else arc_order_loop sets is)"

definition arc_failure :: "unicode \<Rightarrow> bytes list \<Rightarrow> bytes list \<Rightarrow> bytes list \<Rightarrow> bytes" where
  "arc_failure u results signatures seals =
     (case arc_results_loop u results [] of
        Inl failed \<Rightarrow> failed
      | Inr sets \<Rightarrow>
          (case arc_signature_loop u signatures sets of
             Inl failed \<Rightarrow> failed
           | Inr sets \<Rightarrow>
               (case arc_seal_loop u seals sets of
                  Inl failed \<Rightarrow> failed
                | Inr sets \<Rightarrow> arc_order_loop sets [1..int (length sets)])))"

definition field_values :: "unicode \<Rightarrow> occurrence list \<Rightarrow> bytes \<Rightarrow> bytes list" where
  "field_values u os name = map oc_value (fields_named u os name)"

definition run_arc_rule :: "unicode \<Rightarrow> occurrence list \<Rightarrow> collector \<Rightarrow> collector" where
  "run_arc_rule u os c =
     (let results = field_values u os ''ARC-Authentication-Results'';
          signatures = field_values u os ''ARC-Message-Signature''; seals = field_values u os ''ARC-Seal'';
          failed = arc_failure u results signatures seals in
      if results = [] \<and> signatures = [] \<and> seals = [] then c
      else if failed \<noteq> [] then
        add_finding
          (new_finding ''authentication.arc'' ''authentication'' ''fail'' ''error'' ''standard'' ''all'' ''ARC chain''
             (failed @ '' Chain signatures and custody were not cryptographically validated.'')
             [] (rfc ''RFC 8617'' ''https://www.rfc-editor.org/rfc/rfc8617''))
          c
      else
        add_finding
          (new_finding ''authentication.arc'' ''authentication'' ''observed'' ''none'' ''evidence'' ''all'' ''ARC chain''
             ''ARC set structure observed; chain signatures and custody were not cryptographically validated.''
             [] (rfc ''RFC 8617'' ''https://www.rfc-editor.org/rfc/rfc8617''))
          c)"

section \<open>Authentication results and DKIM\<close>

definition rule_authentication_results :: "nat \<Rightarrow> occurrence \<Rightarrow> collector \<Rightarrow> collector" where
  "rule_authentication_results k oc c =
     (let ident = ''authentication.results.'' @ itoa (int k + 1);
          evidence = occurrences_evidence [oc] ''Authentication-Results'' None in
      case parse_authentication_results (oc_value oc) of
        None \<Rightarrow>
          add_finding
            (new_finding ident ''authentication'' ''fail'' ''error'' ''standard'' ''all'' ''Authentication-Results''
               ''The Authentication-Results field has malformed static syntax.''
               evidence (rfc ''RFC 8601'' ''https://www.rfc-editor.org/rfc/rfc8601''))
            c
      | Some authserv \<Rightarrow>
          add_finding
            (new_finding ident ''authentication'' ''observed'' ''none'' ''evidence'' ''all'' ''Authentication-Results''
               (''Observed assertion from '' @ authserv @ ''; trust not established.'')
               evidence (rfc (''RFC 8601 '' @ section_sign @ ''5'') ''https://www.rfc-editor.org/rfc/rfc8601#section-5''))
            c)"

text \<open>One DKIM field, with the tags of those that are well formed.\<close>

definition rule_dkim :: "unicode \<Rightarrow> nat \<Rightarrow> occurrence \<Rightarrow> collector \<times> tags list \<Rightarrow> collector \<times> tags list" where
  "rule_dkim u k oc cs =
     (let (c, claims) = cs; ident = ''authentication.dkim.'' @ itoa (int k + 1);
          evidence = occurrences_evidence [oc] ''DKIM-Signature'' None in
      case checked_tags u (\<lambda>tags. validate_dkim u tags False) (oc_value oc) of
        Inl e \<Rightarrow>
          (add_finding
            (new_finding ident ''authentication'' ''fail'' ''error'' ''standard'' ''all'' ''DKIM signature''
               ''The DKIM-Signature field is structurally malformed. Signature and body hash were not cryptographically verified.''
               (evidence @ [(evidence_of ''raw-header'')\<lparr>ev_field := Some ''DKIM-Signature'', ev_value := Some (evidence_value (tag_err_text e))\<rparr>]) (rfc ''RFC 6376'' ''https://www.rfc-editor.org/rfc/rfc6376''))
            c, claims)
      | Inr tags \<Rightarrow>
          (let algorithm = to_lower u (param tags ''a'') in
           (if algorithm = ''rsa-sha1'' \<or> param tags ''l'' \<noteq> [] then
              add_finding
                (new_finding ident ''authentication'' ''pass'' ''warning'' ''recommendation'' ''all'' ''DKIM signature''
                   ''The signature uses obsolete rsa-sha1 or the risky l= body-length tag. Signature and body hash were not cryptographically verified.''
                   evidence (rfc ''RFC 8301'' ''https://www.rfc-editor.org/rfc/rfc8301''))
                c
            else if algorithm \<noteq> ''rsa-sha256'' \<and> algorithm \<noteq> ''ed25519-sha256'' then
              add_finding
                (new_finding ident ''authentication'' ''observed'' ''none'' ''evidence'' ''all'' ''DKIM signature''
                   ''A syntactically valid unrecognized algorithm was observed. Signature and body hash were not cryptographically verified.''
                   evidence (rfc ''RFC 6376'' ''https://www.rfc-editor.org/rfc/rfc6376''))
                c
            else
              add_finding
                (new_finding ident ''authentication'' ''observed'' ''none'' ''evidence'' ''all'' ''DKIM signature''
                   ''A structurally valid DKIM signature was observed. Signature and body hash were not cryptographically verified.''
                   evidence (rfc ''RFC 6376'' ''https://www.rfc-editor.org/rfc/rfc6376''))
                c, claims @ [tags])))"

section \<open>Unsubscribe fields\<close>

definition covers_unsubscribe :: "unicode \<Rightarrow> tags \<Rightarrow> bool" where
  "covers_unsubscribe u tags \<longleftrightarrow>
     (let headers = split_byte (CHR '':'') (to_lower u (param tags ''h'')) in
      contains_fold u headers ''list-unsubscribe'' \<and> contains_fold u headers ''list-unsubscribe-post'')"

definition coverage_evidence :: "nat \<Rightarrow> evidence" where
  "coverage_evidence k =
     (evidence_of ''raw-header'')\<lparr>ev_field := Some ''DKIM-Signature'', ev_occurrence := Some (int k + 1),
       ev_value := Some ''DKIM h= claims both unsubscribe fields''\<rparr>"

definition run_dkim_coverage :: "unicode \<Rightarrow> occurrence list \<Rightarrow> tags list \<Rightarrow> collector \<Rightarrow> collector" where
  "run_dkim_coverage u os claims c =
     (let evidence = map (\<lambda>(k, tags). coverage_evidence k) (filter (\<lambda>(k, tags). covers_unsubscribe u tags) (enumerate 0 claims)) in
      if fields_named u os ''List-Unsubscribe-Post'' = [] then c
      else if evidence \<noteq> [] then
        add_finding
          (new_finding ''unsubscribe.dkim-coverage'' ''unsubscribe'' ''observed'' ''none'' ''evidence'' ''one-click-claim'' ''Claimed DKIM coverage''
             ''Structurally valid DKIM h= lists claim both one-click fields; cryptographic coverage was not verified.''
             evidence (rfc (''RFC 8058 '' @ section_sign @ ''3.1'') ''https://www.rfc-editor.org/rfc/rfc8058#section-3.1''))
          c
      else
        add_finding
          (new_finding ''unsubscribe.dkim-coverage'' ''unsubscribe'' ''pass'' ''warning'' ''recommendation'' ''one-click-claim'' ''Claimed DKIM coverage''
             ''No structurally valid DKIM h= list claims both one-click fields; DKIM validity itself is not verified.''
             [] (rfc (''RFC 8058 '' @ section_sign @ ''3.1'') ''https://www.rfc-editor.org/rfc/rfc8058#section-3.1''))
          c)"

definition run_authentication_rules ::
  "('h, 'e, 'c) inspect_lib \<Rightarrow> ('h, 'e) inspected \<Rightarrow> ('h, 'e) node \<Rightarrow> collector \<Rightarrow> collector" where
  "run_authentication_rules E a n c =
     (let u = il_unicode E; os = header_occurrences u (doc_raw (in_doc a)) n;
          c = fold (\<lambda>(k, oc). rule_authentication_results k oc) (enumerate 0 (fields_named u os ''Authentication-Results'')) c;
          (c, claims) = fold (\<lambda>(k, oc). rule_dkim u k oc) (enumerate 0 (fields_named u os ''DKIM-Signature'')) (c, []);
          c = run_arc_rule u os c in
      run_dkim_coverage u os claims c)"

definition one_click_valid :: "unicode \<Rightarrow> url list option \<Rightarrow> bytes list \<Rightarrow> bool" where
  "one_click_valid u uris post \<longleftrightarrow>
     length post = 1 \<and> trim_space (hd post) = ''List-Unsubscribe=One-Click'' \<and> uris \<noteq> None
     \<and> length (filter (\<lambda>v. equal_fold u (ur_scheme v) ''https'') (the uris)) = 1"

definition run_unsubscribe_rules ::
  "('h, 'e, 'c) inspect_lib \<Rightarrow> ('h, 'e) inspected \<Rightarrow> ('h, 'e) node \<Rightarrow> collector \<Rightarrow> collector" where
  "run_unsubscribe_rules E a n c =
     (let u = il_unicode E; os = header_occurrences u (doc_raw (in_doc a)) n;
          unsub = fields_named u os ''List-Unsubscribe''; post = fields_named u os ''List-Unsubscribe-Post'';
          uris = parse_list_unsubscribe u (il_parse_url E) (map oc_value unsub);
          evidence = occurrences_evidence unsub ''List-Unsubscribe'' None;
          both = evidence @ occurrences_evidence post ''List-Unsubscribe-Post'' None;
          c = (if unsub = [] then
                 add_finding
                   (new_finding ''unsubscribe.list'' ''unsubscribe'' ''not-evaluated'' ''none'' ''evidence'' ''unknown'' ''List-Unsubscribe''
                      ''No List-Unsubscribe field is present; stored bytes do not establish whether this transactional or mailing-list guidance applies.''
                      [] (rfc (''RFC 2369 '' @ section_sign @ ''4'') ''https://www.rfc-editor.org/rfc/rfc2369#section-4''))
                   c
               else if uris = None then
                 add_finding
                   (new_finding ''unsubscribe.list'' ''unsubscribe'' ''fail'' ''error'' ''standard'' ''mailing-list'' ''List-Unsubscribe''
                      ''List-Unsubscribe is duplicated or has invalid angle-bracket, comma, or URI syntax.''
                      evidence (rfc (''RFC 2369 '' @ section_sign @ ''4'') ''https://www.rfc-editor.org/rfc/rfc2369#section-4''))
                   c
               else
                 add_finding
                   (new_finding ''unsubscribe.list'' ''unsubscribe'' ''pass'' ''none'' ''standard'' ''mailing-list'' ''List-Unsubscribe''
                      ''One syntactically valid List-Unsubscribe field is present.''
                      evidence (rfc (''RFC 2369 '' @ section_sign @ ''4'') ''https://www.rfc-editor.org/rfc/rfc2369#section-4''))
                   c);
          c = (if post = [] then c
               else if one_click_valid u uris (map oc_value post) then
                 add_finding
                   (new_finding ''unsubscribe.one-click-pairing'' ''unsubscribe'' ''pass'' ''none'' ''standard'' ''one-click-claim'' ''One-click unsubscribe pairing''
                      ''The static RFC 8058 header pair is valid. DKIM validity, endpoint behavior, recipient binding, and operational eligibility are unverified.''
                      both (rfc ''RFC 8058'' ''https://www.rfc-editor.org/rfc/rfc8058''))
                   c
               else
                 add_finding
                   (new_finding ''unsubscribe.one-click-pairing'' ''unsubscribe'' ''fail'' ''error'' ''standard'' ''one-click-claim'' ''One-click unsubscribe pairing''
                      ''The one-click claim requires exactly one post field with List-Unsubscribe=One-Click and exactly one HTTPS unsubscribe URI. Endpoint behavior is unverified.''
                      both (rfc ''RFC 8058'' ''https://www.rfc-editor.org/rfc/rfc8058''))
                   c) in
      if unsub = [] \<and> post = [] then c
      else
        add_finding
          (new_finding ''unsubscribe.bulk-guidance'' ''unsubscribe'' ''observed'' ''none'' ''evidence'' ''bulk-marketing'' ''Bulk-sender guidance''
             ''Gmail and Yahoo one-click requirements are conditional provider guidance; Hoomail cannot determine sender volume or message class from stored bytes.''
             [] (Some \<lparr>rf_label = ''Google Email sender guidelines'', rf_url = ''https://support.google.com/a/answer/81126''\<rparr>))
          c)"

end
