(* ===== verification/Inspect_Compat.thy ===== *)
theory Inspect_Compat
  imports Go_Search Inspect_Report
begin

text \<open>
  \<open>internal/inspect/compatibility.go\<close> and \<open>compatibility_rules.go\<close>: which features of HTML and CSS the
  body uses, looked up in the data of caniemail.com.  The data is an embedded file and a parameter
  (\<open>caniemail\<close>); its maps are association lists with distinct keys, and the support of a client is
  \<open>None\<close> where it is no JSON string.  Counts are kept by the name of the feature.
\<close>

section \<open>Rules\<close>

definition rx_space :: rx where
  "rx_space = Rx_Chars re_space"

text \<open>The patterns \<open>(^|\s|;)\<close>, \<open>($|\s|;)\<close> and \<open>(\s|:)\<close>.\<close>

definition rx_declaration_start :: rx where
  "rx_declaration_start = Rx_Alt Rx_Begin (Rx_Alt rx_space (rx_lit '';''))"

definition rx_declaration_end :: rx where
  "rx_declaration_end = Rx_Alt Rx_End (Rx_Alt rx_space (rx_lit '';''))"

definition rx_space_or_colon :: rx where
  "rx_space_or_colon = Rx_Alt rx_space (rx_lit '':'')"

text \<open>\<open>(?i)(^|\s|;)name(\s+)?:\<close>, and with \<open>(start|end)\<close> after the name.\<close>

definition css_property :: "bytes \<Rightarrow> rx" where
  "css_property name = rx_seq [rx_declaration_start, rx_lit_ci name, rx_opt (rx_some rx_space), rx_lit_ci '':'']"

definition css_start_end :: "bytes \<Rightarrow> rx" where
  "css_start_end name =
     rx_seq [rx_declaration_start, rx_lit_ci name, Rx_Alt (rx_lit_ci ''start'') (rx_lit_ci ''end''),
       rx_opt (rx_some rx_space), rx_lit_ci '':'']"

text \<open>\<open>\b\d+unit\b\<close> and \<open>(?i)\.suffix$\<close>.\<close>

definition css_unit_rx :: "bytes \<Rightarrow> rx" where
  "css_unit_rx name = rx_seq [Rx_Word, rx_some (Rx_Chars digits), rx_lit name, Rx_Word]"

definition image_suffix :: "bytes \<Rightarrow> rx" where
  "image_suffix name = rx_seq [rx_lit_ci (''.'' @ name), Rx_End]"

definition html_tests :: "(bytes \<times> bytes) list" where
  "html_tests =
     [(''html-body'', ''body''),
      (''html-object'', ''object, embed, image, pdf''),
      (''html-link'', ''link''),
      (''html-hr'', ''hr''),
      (''html-dialog'', ''dialog''),
      (''html-srcset'', ''[srcset]''),
      (''html-picture'', ''picture''),
      (''html-svg'', ''svg''),
      (''html-progress'', ''progress''),
      (''html-required'', ''[required]''),
      (''html-meter'', ''meter''),
      (''html-audio'', ''audio''),
      (''html-form'', ''form''),
      (''html-input-submit'', ''submit''),
      (''html-button-reset'', (''button[type='' @ [DQUOTE] @ ''reset'' @ [DQUOTE] @ '']'')),
      (''html-button-submit'', (''submit, button[type='' @ [DQUOTE] @ ''submit'' @ [DQUOTE] @ '']'')),
      (''html-base'', ''base''),
      (''html-input-checkbox'', ''checkbox''),
      (''html-input-hidden'', (''[type='' @ [DQUOTE] @ ''hidden'' @ [DQUOTE] @ '']'')),
      (''html-input-radio'', ''radio''),
      (''html-input-text'', (''input[type='' @ [DQUOTE] @ ''text'' @ [DQUOTE] @ '']'')),
      (''html-video'', ''video''),
      (''html-semantics'', ''article, aside, details, figcaption, figure, footer, header, main, mark, nav, section, summary, time''),
      (''html-select'', ''select''),
      (''html-textarea'', ''textarea''),
      (''html-anchor-links'', (''a[href^='' @ [DQUOTE] @ ''#'' @ [DQUOTE] @ '']'')),
      (''html-style'', ''style''),
      (''html-image-maps'', ''map, img[usemap]'')]"

definition image_tests :: "(bytes \<times> rx) list" where
  "image_tests =
     [(''image-apng'', image_suffix ''apng''),
      (''image-avif'', image_suffix ''avif''),
      (''image-base64'', rx_seq [Rx_Begin, rx_lit_ci ''data:image/'']),
      (''image-bmp'', image_suffix ''bmp''),
      (''image-gif'', image_suffix ''gif''),
      (''image-hdr'', image_suffix ''hdr''),
      (''image-heif'', image_suffix ''heif''),
      (''image-ico'', image_suffix ''ico''),
      (''image-mp4'', image_suffix ''mp4''),
      (''image-ppm'', image_suffix ''ppm''),
      (''image-svg'', image_suffix ''svg''),
      (''image-tiff'', rx_seq [rx_lit_ci ''.tif'', rx_opt (rx_lit_ci ''f''), Rx_End]),
      (''image-webp'', image_suffix ''webp'')]"

definition style_attributes :: "(bytes \<times> bytes) list" where
  "style_attributes =
     [(''css-background-color'', ''[bgcolor]''),
      (''css-background'', ''[background]''),
      (''css-border'', ''[border]''),
      (''css-height'', ''[height]''),
      (''css-padding'', ''[padding]''),
      (''css-width'', ''[width]'')]"

definition css_inline_tests :: "(bytes \<times> rx) list" where
  "css_inline_tests =
     [(''css-accent-color'', css_property ''accent-color''),
      (''css-align-items'', css_property ''align-items''),
      (''css-aspect-ratio'', css_property ''aspect-ratio''),
      (''css-background-blend-mode'', css_property ''background-blend-mode''),
      (''css-background-clip'', css_property ''background-clip''),
      (''css-background-color'', css_property ''background-color''),
      (''css-background-image'', css_property ''background-image''),
      (''css-background-origin'', css_property ''background-origin''),
      (''css-background-position'', css_property ''background-position''),
      (''css-background-repeat'', css_property ''background-repeat''),
      (''css-background-size'', css_property ''background-size''),
      (''css-background'', css_property ''background''),
      (''css-block-inline-size'', css_property ''block-inline-size''),
      (''css-border-image'', css_property ''border-image''),
      (''css-border-inline-block-individual'', css_property ''border-inline''),
      (''css-border-radius'', css_property ''border-radius''),
      (''css-border'', css_property ''border''),
      (''css-box-shadow'', css_property ''box-shadow''),
      (''css-box-sizing'', css_property ''box-sizing''),
      (''css-caption-side'', css_property ''caption-side''),
      (''css-clip-path'', css_property ''clip-path''),
      (''css-column-count'', css_property ''column-count''),
      (''css-column-layout-properties'', css_property ''column-layout-properties''),
      (''css-conic-gradient'', css_property ''conic-gradient''),
      (''css-direction'', css_property ''direction''),
      (''css-display-flex'', rx_seq [rx_declaration_start, rx_lit_ci ''display'', rx_opt (rx_some rx_space), rx_lit_ci '':'', rx_opt (rx_some rx_space), rx_lit_ci ''flex'', rx_declaration_end]),
      (''css-display-grid'', rx_seq [rx_declaration_start, rx_lit_ci ''display:grid'']),
      (''css-display-none'', rx_seq [rx_declaration_start, rx_lit_ci ''display:none'']),
      (''css-display'', css_property ''display''),
      (''css-filter'', css_property ''filter''),
      (''css-flex-direction'', css_property ''flex-direction''),
      (''css-flex-wrap'', css_property ''flex-wrap''),
      (''css-float'', css_property ''float''),
      (''css-font-kerning'', css_property ''font-kerning''),
      (''css-font-weight'', css_property ''font-weight''),
      (''css-font'', css_property ''font''),
      (''css-gap'', css_property ''gap''),
      (''css-grid-template'', css_property ''grid-template''),
      (''css-height'', css_property ''height''),
      (''css-hyphens'', css_property ''hyphens''),
      (''css-important'', rx_seq [rx_lit_ci ''!important'', rx_declaration_end]),
      (''css-inline-size'', css_property ''inline-size''),
      (''css-intrinsic-size'', css_property ''intrinsic-size''),
      (''css-justify-content'', css_property ''justify-content''),
      (''css-letter-spacing'', css_property ''letter-spacing''),
      (''css-line-height'', css_property ''line-height''),
      (''css-list-style-image'', css_property ''list-style-image''),
      (''css-list-style-position'', css_property ''list-style-position''),
      (''css-list-style'', css_property ''list-style''),
      (''css-margin-block-start-end'', css_start_end ''margin-block-''),
      (''css-margin-inline-block'', css_property ''margin-inline-block''),
      (''css-margin-inline-start-end'', css_start_end ''margin-inline-''),
      (''css-margin-inline'', css_property ''margin-inline''),
      (''css-margin'', css_property ''margin''),
      (''css-max-block-size'', css_property ''max-block-size''),
      (''css-max-height'', css_property ''max-height''),
      (''css-max-width'', css_property ''max-width''),
      (''css-min-height'', css_property ''min-height''),
      (''css-min-inline-size'', css_property ''min-inline-size''),
      (''css-min-width'', css_property ''min-width''),
      (''css-mix-blend-mode'', css_property ''mix-blend-mode''),
      (''css-modern-color'', css_property ''modern-color''),
      (''css-object-fit'', css_property ''object-fit''),
      (''css-object-position'', css_property ''object-position''),
      (''css-opacity'', css_property ''opacity''),
      (''css-outline-offset'', css_property ''outline-offset''),
      (''css-outline'', css_property ''outline''),
      (''css-overflow-wrap'', css_property ''overflow-wrap''),
      (''css-overflow'', css_property ''overflow''),
      (''css-padding-block-start-end'', css_start_end ''padding-block-''),
      (''css-padding-inline-block'', css_property ''padding-inline-block''),
      (''css-padding-inline-start-end'', css_start_end ''padding-inline-''),
      (''css-padding'', css_property ''padding''),
      (''css-position'', css_property ''position''),
      (''css-radial-gradient'', css_property ''radial-gradient''),
      (''css-rgb'', rx_seq [rx_space_or_colon, rx_lit_ci ''rgb('']),
      (''css-rgba'', rx_seq [rx_space_or_colon, rx_lit_ci ''rgba('']),
      (''css-scroll-snap'', css_property ''roll-snap''),
      (''css-tab-size'', css_property ''tab-size''),
      (''css-table-layout'', css_property ''table-layout''),
      (''css-text-align-last'', css_property ''text-align-last''),
      (''css-text-align'', css_property ''text-align''),
      (''css-text-decoration-color'', css_property ''text-decoration-color''),
      (''css-text-decoration-thickness'', css_property ''text-decoration-thickness''),
      (''css-text-decoration'', css_property ''text-decoration''),
      (''css-text-emphasis-position'', css_property ''text-emphasis-position''),
      (''css-text-emphasis'', css_property ''text-emphasis''),
      (''css-text-indent'', css_property ''text-indent''),
      (''css-text-overflow'', css_property ''text-overflow''),
      (''css-text-shadow'', css_property ''text-shadow''),
      (''css-text-transform'', css_property ''text-transform''),
      (''css-text-underline-offset'', css_property ''text-underline-offset''),
      (''css-transform'', css_property ''transform''),
      (''css-unit-calc'', rx_seq [rx_space_or_colon, rx_lit_ci ''calc('']),
      (''css-variables'', css_property ''variables''),
      (''css-visibility'', css_property ''visibility''),
      (''css-white-space'', css_property ''white-space''),
      (''css-width'', css_property ''width''),
      (''css-word-break'', css_property ''word-break''),
      (''css-writing-mode'', css_property ''writing-mode''),
      (''css-z-index'', css_property ''z-index'')]"

definition css_text_tests :: "(bytes \<times> rx) list" where
  "css_text_tests =
     [(''css-at-font-face'', rx_seq [rx_lit_ci ''@font-face'', rx_some rx_space, rx_lit_ci ''{'']),
      (''css-at-import'', rx_seq [rx_lit_ci ''@import'', rx_space]),
      (''css-at-keyframes'', rx_seq [rx_lit_ci ''@keyframes'', rx_space]),
      (''css-at-media'', rx_seq [rx_lit_ci ''@media'', rx_opt rx_space, rx_lit_ci ''('']),
      (''css-at-supports'', rx_seq [rx_lit_ci ''@supports'', rx_opt rx_space, rx_lit_ci ''('']),
      (''css-pseudo-class-active'', rx_lit '':active''),
      (''css-pseudo-class-checked'', rx_lit '':checked''),
      (''css-pseudo-class-first-child'', rx_lit '':first-child''),
      (''css-pseudo-class-first-of-type'', rx_lit '':first-of-type''),
      (''css-pseudo-class-focus'', rx_lit '':focus''),
      (''css-pseudo-class-has'', rx_lit '':has''),
      (''css-pseudo-class-hover'', rx_lit '':hover''),
      (''css-pseudo-class-lang'', rx_seq [rx_lit '':lang'', rx_opt rx_space, rx_lit ''('']),
      (''css-pseudo-class-last-child'', rx_lit '':last-child''),
      (''css-pseudo-class-last-of-type'', rx_lit '':last-of-type''),
      (''css-pseudo-class-link'', rx_lit '':link''),
      (''css-pseudo-class-not'', rx_seq [rx_lit '':not'', rx_opt (rx_some rx_space), rx_lit ''('']),
      (''css-pseudo-class-nth-child'', rx_seq [rx_lit '':nth-child'', rx_opt (rx_some rx_space), rx_lit ''('']),
      (''css-pseudo-class-nth-last-child'', rx_seq [rx_lit '':nth-last-child'', rx_opt (rx_some rx_space), rx_lit ''('']),
      (''css-pseudo-class-nth-last-of-type'', rx_seq [rx_lit '':nth-last-of-type'', rx_opt (rx_some rx_space), rx_lit ''('']),
      (''css-pseudo-class-nth-of-type'', rx_seq [rx_lit '':nth-of-type'', rx_opt (rx_some rx_space), rx_lit ''('']),
      (''css-pseudo-class-only-child'', rx_seq [rx_lit '':only-child'', rx_opt (rx_some rx_space), rx_lit ''('']),
      (''css-pseudo-class-only-of-type'', rx_seq [rx_lit '':only-of-type'', rx_opt (rx_some rx_space), rx_lit ''('']),
      (''css-pseudo-class-target'', rx_lit '':target''),
      (''css-pseudo-class-visited'', rx_lit '':visited''),
      (''css-pseudo-element-after'', rx_lit '':after''),
      (''css-pseudo-element-before'', rx_lit '':before''),
      (''css-pseudo-element-first-letter'', rx_lit ''::first-letter''),
      (''css-pseudo-element-first-line'', rx_lit ''::first-line''),
      (''css-pseudo-element-marker'', rx_lit ''::marker''),
      (''css-pseudo-element-placeholder'', rx_lit ''::placeholder'')]"

definition css_unit_tests :: "(bytes \<times> rx) list" where
  "css_unit_tests =
     [(''css-unit-ch'', css_unit_rx ''ch''),
      (''css-unit-initial'', rx_seq [rx_lit '':'', rx_opt rx_space, rx_lit ''initial'', Rx_Word]),
      (''css-unit-rem'', css_unit_rx ''rem''),
      (''css-unit-vh'', css_unit_rx ''vh''),
      (''css-unit-vmax'', css_unit_rx ''vmax''),
      (''css-unit-vmin'', css_unit_rx ''vmin''),
      (''css-unit-vw'', css_unit_rx ''vw'')]"

section \<open>Data\<close>

definition max_compat_warnings :: nat where "max_compat_warnings = 128"
definition max_compat_clients :: nat where "max_compat_clients = 256"
definition max_compat_platforms :: nat where "max_compat_platforms = 128"
definition max_compat_occurrences :: nat where "max_compat_occurrences = max_html_nodes"
definition max_token_bytes :: nat where "max_token_bytes = 1048576"

record caniemail_feature =
  cf_slug :: bytes
  cf_title :: bytes
  cf_description :: bytes
  cf_url :: bytes
  cf_category :: bytes
  cf_stats :: "(bytes \<times> (bytes \<times> (bytes \<times> bytes option) list) list) list"
  cf_notes :: params

record caniemail =
  ce_api_version :: bytes
  ce_last_update :: bytes
  ce_family_names :: params
  ce_platform_names :: params
  ce_data :: "caniemail_feature list"

text \<open>The map from slugs to features: a later feature replaces an earlier one.\<close>

definition feature_of :: "caniemail \<Rightarrow> bytes \<Rightarrow> caniemail_feature option" where
  "feature_of d slug = map_of (rev (map (\<lambda>f. (cf_slug f, f)) (ce_data d))) slug"

section \<open>Counting\<close>

record compat_scan =
  cx_counts :: "(bytes \<times> int) list"
  cx_nodes :: int
  cx_in_style :: bool
  cx_styles :: bytes
  cx_styles_truncated :: bool

definition new_compat_scan :: compat_scan where
  "new_compat_scan = \<lparr>cx_counts = [], cx_nodes = 0, cx_in_style = False, cx_styles = [], cx_styles_truncated = False\<rparr>"

definition count_of :: "(bytes \<times> int) list \<Rightarrow> bytes \<Rightarrow> int" where
  "count_of counts slug = (case map_of counts slug of None \<Rightarrow> 0 | Some n \<Rightarrow> n)"

definition bump :: "nat \<Rightarrow> bytes \<Rightarrow> (bytes \<times> int) list \<Rightarrow> (bytes \<times> int) list" where
  "bump n slug counts = map_put slug (count_of counts slug + int n) counts"

text \<open>One more for every pattern of a table that occurs, and as many as there are matches.\<close>

definition bump_matching :: "(bytes \<times> rx) list \<Rightarrow> bytes \<Rightarrow> (bytes \<times> int) list \<Rightarrow> (bytes \<times> int) list" where
  "bump_matching table s counts = fold (\<lambda>(slug, r). if rx_search r s then bump 1 slug else (\<lambda>m. m)) table counts"

definition bump_all :: "(bytes \<times> rx) list \<Rightarrow> bytes \<Rightarrow> (bytes \<times> int) list \<Rightarrow> (bytes \<times> int) list" where
  "bump_all table s counts = fold (\<lambda>(slug, r). bump (min (rx_count r s) max_compat_occurrences) slug) table counts"

definition html_match :: "unicode \<Rightarrow> bytes \<Rightarrow> bytes \<Rightarrow> params \<Rightarrow> bool" where
  "html_match u slug name attrs =
     (let kind = (\<lambda>element v. name = element \<and> equal_fold u (param attrs ''type'') v); selector = param html_tests slug in
      if slug = ''html-body'' then name = ''body''
      else if slug = ''html-object'' then name \<in> {''object'', ''embed'', ''image'', ''pdf''}
      else if slug = ''html-link'' then name = ''link''
      else if slug = ''html-srcset'' then map_of attrs ''srcset'' \<noteq> None
      else if slug = ''html-required'' then map_of attrs ''required'' \<noteq> None
      else if slug = ''html-image-maps'' then name = ''map'' \<or> (name = ''img'' \<and> param attrs ''usemap'' \<noteq> [])
      else if slug = ''html-anchor-links'' then name = ''a'' \<and> has_prefix (param attrs ''href'') ''#''
      else if slug \<in> {''html-input-checkbox'', ''html-input-radio'', ''html-input-text''}
      then kind ''input'' (trim_prefix slug ''html-input-'')
      else if slug = ''html-input-hidden'' then kind ''input'' ''hidden''
      else if slug = ''html-input-submit'' then kind ''input'' ''submit''
      else if slug = ''html-button-reset'' then kind ''button'' ''reset''
      else if slug = ''html-button-submit'' then kind ''button'' ''submit''
      else if list_ex (\<lambda>x. trim_space x = name) (split_byte (CHR '','') selector) then True
      else if has_prefix selector ''['' then map_of attrs (trim_set ''[]'' selector) \<noteq> None
      else False)"

definition bump_html :: "unicode \<Rightarrow> bool \<Rightarrow> bytes \<Rightarrow> params \<Rightarrow> (bytes \<times> int) list \<Rightarrow> (bytes \<times> int) list" where
  "bump_html u full name attrs counts =
     fold (\<lambda>(slug, selector).
         if (slug \<noteq> ''html-body'' \<or> full) \<and> html_match u slug name attrs then bump 1 slug else (\<lambda>m. m))
       html_tests counts"

definition bump_attributes :: "params \<Rightarrow> (bytes \<times> int) list \<Rightarrow> (bytes \<times> int) list" where
  "bump_attributes attrs counts =
     fold (\<lambda>(slug, selector). if map_of attrs (trim_set ''[]'' selector) \<noteq> None then bump 1 slug else (\<lambda>m. m))
       style_attributes counts"

text \<open>A start tag that is within the limit of nodes.\<close>

definition compat_element :: "unicode \<Rightarrow> bool \<Rightarrow> token_type \<Rightarrow> bytes \<Rightarrow> params \<Rightarrow> compat_scan \<Rightarrow> compat_scan" where
  "compat_element u full tag name attrs st =
     (let counts = bump_html u full name attrs (cx_counts st);
          counts = (if name = ''script'' \<and> \<not> equal_fold u (param attrs ''type'') ''application/ld+json''
              \<and> \<not> equal_fold u (param attrs ''type'') ''application/json'' then bump 1 ''html-script'' counts else counts);
          counts = (if name = ''img'' then bump_matching image_tests (to_lower u (trim_space (param attrs ''src''))) counts else counts);
          style = param attrs ''style'';
          counts = (if style \<noteq> [] then bump_all css_unit_tests style (bump_matching css_inline_tests style counts) else counts);
          counts = bump_attributes attrs counts in
      st\<lparr>cx_counts := counts, cx_in_style := (if name = ''style'' \<and> tag = Start_Tag then True else cx_in_style st)\<rparr>)"

definition compat_text :: "bytes \<Rightarrow> compat_scan \<Rightarrow> compat_scan" where
  "compat_text txt st =
     (if \<not> cx_in_style st then st
      else if length (cx_styles st) < max_token_bytes then
        (let remaining = max_token_bytes - length (cx_styles st) in
         st\<lparr>cx_styles := cx_styles st @ take remaining txt,
            cx_styles_truncated := (cx_styles_truncated st \<or> remaining < length txt)\<rparr>)
      else st\<lparr>cx_styles_truncated := True\<rparr>)"

text \<open>The pass, with the cause of truncation, which is empty where there is none.\<close>

fun compat_loop :: "unicode \<Rightarrow> bool \<Rightarrow> bool \<Rightarrow> html_token list \<Rightarrow> compat_scan \<Rightarrow> compat_scan \<times> bytes" where
  "compat_loop u full failed [] st = (st, if failed then ''HTML token bytes'' else [])"
| "compat_loop u full failed (t # ts) st =
     (if ht_type t = Start_Tag \<or> ht_type t = Self_Closing_Tag then
        (let name = to_lower u (ht_data t); attrs = map (\<lambda>a. (to_lower u (ha_key a), ha_val a)) (ht_attr t);
             counted = (\<not> full \<or> name \<notin> {''html'', ''head'', ''meta'', ''body''}) in
         if counted \<and> int max_html_nodes \<le> cx_nodes st
         then (st\<lparr>cx_nodes := int max_html_nodes\<rparr>, ''HTML nodes'')
         else
           compat_loop u full failed ts
             (compat_element u full (ht_type t) name attrs
               (if counted then st\<lparr>cx_nodes := cx_nodes st + 1\<rparr> else st)))
      else if ht_type t = Text_Token then compat_loop u full failed ts (compat_text (ht_data t) st)
      else if ht_type t = End_Tag \<and> equal_fold u (ht_data t) ''style''
      then compat_loop u full failed ts (st\<lparr>cx_in_style := False\<rparr>)
      else compat_loop u full failed ts st)"

text \<open>The bodies of the rules of a style sheet: the pattern \<open>(?s)\{([^{}]*)\}\<close>.\<close>

function css_blocks :: "bytes \<Rightarrow> bytes list" where
  "css_blocks [] = []"
| "css_blocks (c # s) =
     (if c \<noteq> CHR ''{'' then css_blocks s
      else
        (let body = takeWhile (\<lambda>d. d \<noteq> CHR ''{'' \<and> d \<noteq> CHR ''}'') s; rest = drop (length body) s in
         if rest \<noteq> [] \<and> hd rest = CHR ''}'' then body # css_blocks (tl rest) else css_blocks s))"
  by pat_completeness auto
termination
  by (relation "measure length") (auto simp: Let_def less_Suc_eq_le)

definition bump_styles :: "bytes \<Rightarrow> (bytes \<times> int) list \<Rightarrow> (bytes \<times> int) list" where
  "bump_styles css counts =
     bump_all css_text_tests css
       (fold (\<lambda>block m. bump_all css_unit_tests block (bump_matching css_inline_tests block m))
         (take max_compat_occurrences (css_blocks css)) counts)"

section \<open>Support and score\<close>

definition compat_support :: "bytes option \<Rightarrow> params \<Rightarrow> bytes \<times> bytes option" where
  "compat_support v notes =
     (case v of
        None \<Rightarrow> (''partial'', None)
      | Some s \<Rightarrow>
          if s = ''y'' then (''yes'', None)
          else if s = ''n'' then (''no'', None)
          else
            (let marks = filter (\<lambda>w. has_prefix w ''#'') (string_fields s);
                 texts = filter (\<lambda>t. t \<noteq> []) (map (\<lambda>w. param notes (trim_prefix w ''#'')) marks) in
             if texts \<noteq> [] then (''partial'', Some (join [LF] texts)) else (''partial'', None)))"

definition hundred :: float64 where
  "hundred = float_of_int 100"

definition total_score :: "float64 \<Rightarrow> float64 \<Rightarrow> compatibility_score" where
  "total_score partial unsupported =
     (let partial = (if float_less partial float_zero then float_zero else partial);
          unsupported = (if float_less unsupported float_zero then float_zero else unsupported);
          partial = (if float_less hundred partial then hundred else partial);
          unsupported = (if float_less (float_sub hundred partial) unsupported then float_sub hundred partial else unsupported) in
      \<lparr>sc_supported = float_sub (float_sub hundred partial) unsupported, sc_partial = partial, sc_unsupported = unsupported\<rparr>)"

section \<open>Warnings\<close>

text \<open>A nice name, or the name itself where there is none.\<close>

definition label_of :: "params \<Rightarrow> bytes \<Rightarrow> bytes" where
  "label_of names name = (if param names name = [] then name else param names name)"

definition feature_clients :: "caniemail \<Rightarrow> caniemail_feature \<Rightarrow> compatibility_client list" where
  "feature_clients d f =
     concat (map (\<lambda>(family, platforms).
       concat (map (\<lambda>(platform, versions).
         map (\<lambda>(version, v).
           (let (support, note) = compat_support v (cf_notes f) in
            \<lparr>cl_name = label_of (ce_family_names d) family @ '' '' @ label_of (ce_platform_names d) platform
               @ '' ('' @ version @ '')'',
             cl_family = family, cl_platform = platform, cl_version = version, cl_support = support, cl_note = note\<rparr>))
           versions) platforms)) (cf_stats f))"

definition client_less :: "compatibility_client \<Rightarrow> compatibility_client \<Rightarrow> bool" where
  "client_less a b =
     (if cl_family a \<noteq> cl_family b then bytes_less (cl_family a) (cl_family b)
      else if cl_platform a \<noteq> cl_platform b then bytes_less (cl_platform a) (cl_platform b)
      else bytes_less (cl_version a) (cl_version b))"

definition support_count :: "bytes \<Rightarrow> compatibility_client list \<Rightarrow> int" where
  "support_count support cs = int (length (filter (\<lambda>c. cl_support c = support) cs))"

text \<open>The counts of clients are exact; their quotients by the total are rounded, and so is the product.\<close>

definition feature_score :: "compatibility_client list \<Rightarrow> compatibility_score" where
  "feature_score cs =
     (let counts = (\<lambda>support. float_of_int (support_count support cs));
          total = float_add (float_add (counts ''yes'') (counts ''partial'')) (counts ''no'');
          share = (\<lambda>n. if float_less float_zero total then float_mul (float_div n total) hundred else n) in
      \<lparr>sc_supported = share (counts ''yes''), sc_partial = share (counts ''partial''), sc_unsupported = share (counts ''no'')\<rparr>)"

definition compat_warning :: "caniemail \<Rightarrow> (bytes \<times> int) list \<Rightarrow> caniemail_feature \<Rightarrow> bytes \<Rightarrow> compatibility_warning" where
  "compat_warning d counts f slug =
     (let clients = feature_clients d f in
      \<lparr>cw_slug = slug, cw_title = cf_title f, cw_category = cf_category f, cw_description = cf_description f,
       cw_url = cf_url f, cw_occurrences = count_of counts slug, cw_score = feature_score clients,
       cw_clients = sort_by client_less clients\<rparr>)"

record compat_state =
  cs_warnings :: "compatibility_warning list"
  cs_platforms :: "(bytes \<times> compatibility_platform) list"
  cs_clients_truncated :: bool
  cs_partial :: float64
  cs_unsupported :: float64

definition new_compat_state :: compat_state where
  "new_compat_state = \<lparr>cs_warnings = [], cs_platforms = [], cs_clients_truncated = False, cs_partial = float_zero,
     cs_unsupported = float_zero\<rparr>"

definition weigh :: "int \<Rightarrow> compatibility_warning \<Rightarrow> compat_state \<Rightarrow> compat_state" where
  "weigh n w st =
     (if 0 < n then
        (let weight = float_div (float_of_int (cw_occurrences w)) (float_of_int n) in
         st\<lparr>cs_partial := float_max (cs_partial st) (float_mul (sc_partial (cw_score w)) weight),
            cs_unsupported := float_max (cs_unsupported st) (float_mul (sc_unsupported (cw_score w)) weight)\<rparr>)
      else st)"

definition note_platform :: "caniemail \<Rightarrow> compatibility_client \<Rightarrow> compat_state \<Rightarrow> compat_state" where
  "note_platform d c st =
     st\<lparr>cs_platforms := map_put (cl_family c @ [NUL] @ cl_platform c)
       \<lparr>cp_family = cl_family c, cp_platform = cl_platform c, cp_label = label_of (ce_platform_names d) (cl_platform c)\<rparr>
       (cs_platforms st)\<rparr>"

definition add_warning :: "caniemail \<Rightarrow> int \<Rightarrow> nat \<Rightarrow> compatibility_warning \<Rightarrow> compat_state \<Rightarrow> compat_state" where
  "add_warning d n index w st =
     (let st = weigh n w st in
      if max_compat_warnings \<le> index then st
      else
        (let over = (max_compat_clients < length (cw_clients w));
             w = (if over then w\<lparr>cw_clients := take max_compat_clients (cw_clients w)\<rparr> else w);
             st = (if over then st\<lparr>cs_clients_truncated := True\<rparr> else st);
             st = fold (note_platform d) (cw_clients w) st in
         st\<lparr>cs_warnings := cs_warnings st @ [w]\<rparr>))"

fun add_warnings :: "caniemail \<Rightarrow> int \<Rightarrow> (bytes \<times> int) list \<Rightarrow> nat \<Rightarrow> bytes list \<Rightarrow> compat_state \<Rightarrow> compat_state" where
  "add_warnings d n counts index [] st = st"
| "add_warnings d n counts index (slug # slugs) st =
     add_warnings d n counts (Suc index) slugs
       (case feature_of d slug of
          None \<Rightarrow> st
        | Some f \<Rightarrow> add_warning d n index (compat_warning d counts f slug) st)"

definition platform_less :: "compatibility_platform \<Rightarrow> compatibility_platform \<Rightarrow> bool" where
  "platform_less a b =
     (if cp_family a \<noteq> cp_family b then bytes_less (cp_family a) (cp_family b)
      else bytes_less (cp_platform a) (cp_platform b))"

text \<open>The counts cut off at the limit, and the slugs that are counted and known, in order.\<close>

definition cut_counts :: "(bytes \<times> int) list \<Rightarrow> (bytes \<times> int) list" where
  "cut_counts counts = map (\<lambda>(slug, n). (slug, min n (int max_compat_occurrences))) counts"

definition known_slugs :: "caniemail \<Rightarrow> (bytes \<times> int) list \<Rightarrow> bytes list" where
  "known_slugs d counts =
     sort_by bytes_less (map fst (filter (\<lambda>(slug, n). 0 < n \<and> feature_of d slug \<noteq> None) counts))"

definition tests_run :: nat where
  "tests_run = 1 + length html_tests + length image_tests + length css_inline_tests + length style_attributes
     + length css_unit_tests + length css_text_tests"

text \<open>\<open>(?i)</body\s*>\<close>: whether the text is a whole document.\<close>

definition body_end :: rx where
  "body_end = rx_seq [rx_lit_ci ''</body'', Rx_Star rx_space, rx_lit_ci ''>'']"

definition analyze_compatibility ::
  "unicode \<Rightarrow> (bytes \<Rightarrow> html_token list \<times> bool) \<Rightarrow> caniemail \<Rightarrow> bytes \<Rightarrow> html_compatibility option" where
  "analyze_compatibility u tokens d raw =
     (if raw = [] then None
      else
        (let (ts, failed) = tokens raw;
             (st, cause) = compat_loop u (rx_search body_end raw) failed ts new_compat_scan;
             counts = cut_counts (bump_styles (cx_styles st) (cx_counts st));
             slugs = known_slugs d counts;
             cs = add_warnings d (cx_nodes st) counts 0 slugs new_compat_state;
             platforms = (if cs_clients_truncated cs then [] else sort_by platform_less (map snd (cs_platforms cs)));
             over = (max_compat_platforms < length platforms) in
         Some
           \<lparr>hc_data_version = ce_api_version d, hc_data_updated = ce_last_update d, hc_nodes = cx_nodes st,
            hc_tests = int tests_run, hc_score = total_score (cs_partial cs) (cs_unsupported cs),
            hc_platforms = (if over then [] else platforms), hc_warnings = cs_warnings cs,
            hc_warnings_truncated = (max_compat_warnings < length slugs),
            hc_clients_truncated = (cs_clients_truncated cs \<or> over),
            hc_truncated = (cause \<noteq> [] \<or> cx_styles_truncated st),
            hc_truncation_cause = (if cause = [] \<and> cx_styles_truncated st then ''style bytes'' else cause)\<rparr>))"

end
