(* ===== verification/Inspect_Finish.thy ===== *)
theory Inspect_Finish
  imports Inspect_Context Inspect_Compat
begin

text \<open>
  \<open>internal/inspect/analyze.go\<close>: the tree of MIME parts in a report, the trimming of a report whose JSON
  text exceeds 4 MiB, and \<open>finishReport\<close>.  \<open>json.Marshal\<close> is a parameter of which only the length of the
  text matters.
\<close>

section \<open>The tree of parts\<close>

definition nonblank :: "bytes \<Rightarrow> bytes option" where
  "nonblank s = (if s = [] then None else Some s)"

fun mime_node_of ::
  "('h, 'e, 'c) inspect_lib \<Rightarrow> bytes \<Rightarrow> bool \<Rightarrow> ('h, 'e) node \<Rightarrow> mime_node" where
  "mime_node_of E raw decoded (Node i cs) =
     (let u = il_unicode E; n = Node i cs;
          content = (if decoded \<and> cs = [] \<and> nd_decode_error i = None then Some (nd_decoded_body i) else None) in
      Mime_Node
        \<lparr>me_path = nd_path i, me_content_type = nd_media_type i,
         me_charset = nonblank (trim_space (param (nd_media_params i) ''charset'')),
         me_encoding = map_option (to_lower u) (nonblank (trim_space (nd_transfer_encoding i))),
         me_disposition = map_option (to_lower u) (nonblank (trim_space (nd_disposition i))),
         me_filename = nonblank (filename n),
         me_content_id = nonblank (inspect_content_id u (ml_get (il_mime E) (nd_header i) ''Content-ID'')),
         me_raw_size = (if nd_decoded_raw i = None then map_option (\<lambda>b. int (length b)) (raw_body raw n) else None),
         me_decoded_size = map_option (\<lambda>b. int (length b)) content,
         me_checksums = map_option (\<lambda>b. \<lparr>cs_md5 = il_md5 E b, cs_sha1 = il_sha1 E b, cs_sha256 = il_sha256 E b\<rparr>) content\<rparr>
        (map (mime_node_of E raw decoded) cs))"

definition build_mime_tree :: "('h, 'e, 'c) inspect_lib \<Rightarrow> ('h, 'e) node option \<Rightarrow> bytes \<Rightarrow> bool \<Rightarrow> mime_node option" where
  "build_mime_tree E n raw decoded = map_option (mime_node_of E raw decoded) n"

section \<open>Trimming\<close>

definition max_metadata_bytes :: nat where
  "max_metadata_bytes = 256"

definition bound_metadata :: "bytes \<Rightarrow> bytes" where
  "bound_metadata v =
     (if length v \<le> max_metadata_bytes then v
      else truncate_utf8 v (max_metadata_bytes - length truncation_mark) @ truncation_mark)"

fun trim_mime_tree :: "mime_node \<Rightarrow> mime_node" where
  "trim_mime_tree (Mime_Node e ps) =
     Mime_Node
       (e\<lparr>me_content_type := bound_metadata (me_content_type e), me_charset := map_option bound_metadata (me_charset e),
          me_encoding := map_option bound_metadata (me_encoding e),
          me_disposition := map_option bound_metadata (me_disposition e),
          me_filename := map_option bound_metadata (me_filename e),
          me_content_id := map_option bound_metadata (me_content_id e)\<rparr>)
       (map trim_mime_tree ps)"

definition drop_clients :: "report \<Rightarrow> report" where
  "drop_clients r =
     r\<lparr>rp_compatibility := map_option
       (\<lambda>h. h\<lparr>hc_warnings := map (\<lambda>w. w\<lparr>cw_clients := []\<rparr>) (hc_warnings h), hc_clients_truncated := True, hc_platforms := []\<rparr>)
       (rp_compatibility r)\<rparr>"

text \<open>Halving the headers until the report fits or none is left.\<close>

function trim_headers :: "(report \<Rightarrow> nat) \<Rightarrow> report \<Rightarrow> report" where
  "trim_headers json r =
     (if json r \<le> max_report_bytes \<or> rp_headers r = [] then r
      else if length (rp_headers r) = 1 then r\<lparr>rp_headers := []\<rparr>
      else trim_headers json (r\<lparr>rp_headers := take (length (rp_headers r) div 2) (rp_headers r)\<rparr>))"
  by pat_completeness auto
termination
  by (relation "measure (\<lambda>(json, r). length (rp_headers r))") (auto simp: min_def neq_Nil_conv)

declare trim_headers.simps [simp del]

definition drop_evidence :: "finding \<Rightarrow> finding" where
  "drop_evidence f = (if fd_evidence f = [] then f else f\<lparr>fd_evidence := [], fd_evidence_truncated := True\<rparr>)"

text \<open>Removing findings from the end, but not the marker of truncation; a list of one is kept.\<close>

function trim_findings :: "(report \<Rightarrow> nat) \<Rightarrow> report \<Rightarrow> report" where
  "trim_findings json r =
     (let fs = rp_findings r; last_i = length fs - 1;
          i = (if fd_id (fs ! last_i) = truncated_id then last_i - 1 else last_i) in
      if json r \<le> max_report_bytes \<or> length fs \<le> 1 then r
      else if fd_id (fs ! i) = truncated_id then r
      else trim_findings json (r\<lparr>rp_findings := take i fs @ drop (Suc i) fs\<rparr>))"
  by pat_completeness auto
termination
  by (relation "measure (\<lambda>(json, r). length (rp_findings r))") (auto simp: Let_def split: if_splits)

declare trim_findings.simps [simp del]

definition summed :: "report \<Rightarrow> report" where
  "summed r = r\<lparr>rp_summary := summarize (rp_findings r)\<rparr>"

definition trim_report :: "(report \<Rightarrow> nat) \<Rightarrow> report \<Rightarrow> report" where
  "trim_report json r0 =
     (let fits = (\<lambda>r. json r \<le> max_report_bytes);
          r1 = drop_clients r0;
          r2 = r1\<lparr>rp_resources := []\<rparr>;
          r3 = trim_headers json r2;
          r4 = r3\<lparr>rp_mime_tree := map_option trim_mime_tree (rp_mime_tree r3)\<rparr>;
          r5 = trim_findings json (r4\<lparr>rp_findings := map drop_evidence (rp_findings r4)\<rparr>) in
      if fits r0 then r0
      else if fits r1 then summed r1
      else if fits r2 then summed r2
      else if fits r3 then summed r3
      else if fits r4 then summed r4
      else summed (if fits r5 then r5 else r5\<lparr>rp_mime_tree := None\<rparr>))"

section \<open>\<open>finishReport\<close>\<close>

datatype 'c inspect_err = Cancelled 'c | Parse_Failed invariant_err | Report_Too_Long

definition truncated_state :: "bool \<Rightarrow> bytes" where
  "truncated_state partial = (if partial then ''partial'' else ''complete'')"

definition first_report ::
  "('h, 'e, 'c) inspect_lib \<Rightarrow> ('h, 'e) inspected \<Rightarrow> html_compatibility option \<Rightarrow> collector \<Rightarrow> report" where
  "first_report E a hc c =
     (let d = in_doc a; partial = (\<not> in_raw_present a \<or> doc_semantic_error d \<noteq> None \<or> co_causes c \<noteq> {});
          skipped = (''raw bytes'' \<in> co_causes c) in
      \<lparr>rp_analysis = \<lparr>an_version = 1, an_state = truncated_state partial,
         an_parsed_through = (if partial then doc_parsed_through d else None),
         an_unavailable = unavailable_families c, an_truncated = (co_causes c \<noteq> {})\<rparr>,
       rp_summary = summarize (co_findings c),
       rp_findings = co_findings c,
       rp_headers = searchable_headers (il_unicode E) a,
       rp_resources = co_resources c,
       rp_mime_tree =
         (if \<not> in_raw_present a \<or> doc_root d = None \<or> skipped then None
          else build_mime_tree E (doc_root d) (doc_raw d) (\<not> doc_truncated d \<or> skipped)),
       rp_compatibility = hc\<rparr>)"

text \<open>The second attempt, after the report was too long.\<close>

definition shorter_report :: "(report \<Rightarrow> nat) \<Rightarrow> collector \<Rightarrow> report \<Rightarrow> report" where
  "shorter_report json c r =
     (let c = ensure_truncation_finding (note_cause ''report bytes'' c); fs = sort_findings (co_findings c) in
      trim_report json
        (r\<lparr>rp_findings := fs,
           rp_analysis := (rp_analysis r)\<lparr>an_state := ''partial'', an_truncated := True, an_unavailable := unavailable_families c\<rparr>,
           rp_resources := co_resources c, rp_summary := summarize fs\<rparr>))"

text \<open>What the compatibility data adds to the causes.\<close>

definition note_compatibility :: "html_compatibility option \<Rightarrow> collector \<Rightarrow> collector" where
  "note_compatibility hc c =
     (case hc of
        None \<Rightarrow> c
      | Some h \<Rightarrow>
          (let c = (if hc_truncated h
                    then add_unavailable [''compatibility'']
                      (note_cause (if hc_truncation_cause h = [] then ''HTML token bytes'' else hc_truncation_cause h) c)
                    else c) in
           if hc_warnings_truncated h then add_unavailable [''compatibility''] (note_cause ''compatibility warnings'' c)
           else c))"

definition cut_findings :: "collector \<Rightarrow> collector" where
  "cut_findings c =
     (if max_findings \<le> length (co_findings c)
      then note_cause ''findings'' (c\<lparr>co_findings := take (max_findings - 1) (co_findings c)\<rparr>) else c)"

definition finish_report ::
  "('h, 'e, 'c) inspect_lib \<Rightarrow> caniemail \<Rightarrow> ('h, 'e) inspected \<Rightarrow> collector \<Rightarrow> 'c inspect_err + report" where
  "finish_report E data a c =
     (case il_context E Before_Sort of
        Some x \<Rightarrow> Inl (Cancelled x)
      | None \<Rightarrow>
          (let c = cut_findings c;
               hc = analyze_compatibility (il_unicode E) (il_tokens E) data (case in_html a of None \<Rightarrow> [] | Some h \<Rightarrow> h);
               c = note_compatibility hc c;
               c = (if co_causes c \<noteq> {} then ensure_truncation_finding c else c);
               c = c\<lparr>co_findings := sort_findings (co_findings c)\<rparr> in
           case il_context E After_Sort of
             Some x \<Rightarrow> Inl (Cancelled x)
           | None \<Rightarrow>
               (let r = first_report E a hc c;
                    r = (if max_report_bytes < il_json_size E r then shorter_report (il_json_size E) c r else r) in
                if max_report_bytes < il_json_size E r then Inl Report_Too_Long else Inr r)))"

end
