(* ===== verification/Inspect_Analyze.thy ===== *)
theory Inspect_Analyze
  imports Inspect_Mime Inspect_Auth Inspect_Finish
begin

text \<open>
  \<open>internal/inspect/analyze.go\<close>: the rules about content, privacy and size, the attachments, and
  \<open>Analyze\<close> itself, which runs all rules in their order between the points where it asks its context.
\<close>

section \<open>Looking at the body\<close>

definition add_html_resources :: "html_resource list \<Rightarrow> collector \<Rightarrow> collector" where
  "add_html_resources rs c =
     fold (\<lambda>r. add_resource_counted (hr_kind r) (hr_path r) (hr_url r) (hr_text r) (hr_count r)) rs c"

definition add_text_link :: "('h, 'e, 'c) inspect_lib \<Rightarrow> bytes option \<Rightarrow> bytes \<Rightarrow> collector \<Rightarrow> collector" where
  "add_text_link E path m c =
     (if 2048 < length m then note_cause ''resource values'' c
      else
        (case il_parse_url E m of
           None \<Rightarrow> c
         | Some v \<Rightarrow>
             if (ur_scheme v = ''http'' \<or> ur_scheme v = ''https'') \<and> ur_host v \<noteq> []
             then add_resource ''link'' path m [] c else c))"

datatype 'c content_result = Content "html_facts option" collector | Content_Cancelled 'c | Content_Panic

definition analyze_content :: "('h, 'e, 'c) inspect_lib \<Rightarrow> ('h, 'e) inspected \<Rightarrow> collector \<Rightarrow> 'c content_result" where
  "analyze_content E a c =
     (case in_html a of
        Some html \<Rightarrow>
          (case analyze_html E html (in_html_path a) of
             Html_Panic \<Rightarrow> Content_Panic
           | Html_Cancelled x \<Rightarrow> Content_Cancelled x
           | Html_Facts ft causes \<Rightarrow>
               (let c = fold note_cause causes c;
                    c = add_html_resources (ft_resources ft) c;
                    c = (if ft_values_dropped ft then note_cause ''resource values'' c else c);
                    c = (if ft_resources_capped ft then note_cause ''resources'' c else c) in
                Content (Some ft) c))
      | None \<Rightarrow>
          (case in_text a of
             Some plain \<Rightarrow> Content None (fold (add_text_link E (in_text_path a)) (find_links plain) c)
           | None \<Rightarrow> Content None c))"

definition body_bytes :: "bytes option \<Rightarrow> bytes" where
  "body_bytes b = (case b of None \<Rightarrow> [] | Some s \<Rightarrow> s)"

section \<open>Content\<close>

definition rule_bodies :: "('h, 'e) inspected \<Rightarrow> collector \<Rightarrow> collector" where
  "rule_bodies a c =
     (let html = body_bytes (in_html a); plain = body_bytes (in_text a) in
      if in_fallback a then
        add_finding
          (new_finding ''content.alternative'' ''content'' ''not-evaluated'' ''none'' ''evidence'' ''all'' ''Body alternatives''
             ''Stored fallback bodies cannot prove MIME alternative selection or ordering.''
             [] None)
          (add_finding
            (new_finding ''content.body'' ''content'' ''not-evaluated'' ''none'' ''evidence'' ''all'' ''Message body''
               (if html = [] \<and> plain = [] then ''Stored fallback bodies were inspected, but MIME presentation selection could not be reconstructed; fallback content is empty.'' else ''Stored fallback bodies were inspected, but MIME presentation selection could not be reconstructed; fallback content is non-empty.'')
               [] None)
            c)
      else
        (let c = (if html = [] \<and> plain = [] then
                    add_finding
                      (new_finding ''content.body'' ''content'' ''pass'' ''warning'' ''recommendation'' ''all'' ''Message body''
                         ''The authoritative selected text and HTML bodies are both empty.''
                         [] (rfc ''RFC 2046'' ''https://www.rfc-editor.org/rfc/rfc2046''))
                      c
                  else
                    add_finding
                      (new_finding ''content.body'' ''content'' ''pass'' ''none'' ''recommendation'' ''all'' ''Message body''
                         ''At least one authoritative selected body is non-empty.''
                         [] None)
                      c) in
         if html \<noteq> [] \<and> plain = [] then
           add_finding
             (new_finding ''content.alternative'' ''content'' ''pass'' ''warning'' ''recommendation'' ''all'' ''Body alternatives''
                ''Authoritative HTML is selected without a plain-text fallback.''
                [] (rfc (''RFC 2046 '' @ section_sign @ ''5.1.4'') ''https://www.rfc-editor.org/rfc/rfc2046#section-5.1.4''))
             c
         else if html \<noteq> [] \<and> plain \<noteq> [] then
           add_finding
             (new_finding ''content.alternative'' ''content'' ''pass'' ''none'' ''recommendation'' ''all'' ''Body alternatives''
                ''Authoritative HTML and plain-text representations are available.''
                [] (rfc (''RFC 2046 '' @ section_sign @ ''5.1.4'') ''https://www.rfc-editor.org/rfc/rfc2046#section-5.1.4''))
             c
         else if plain \<noteq> [] then
           add_finding
             (new_finding ''content.alternative'' ''content'' ''observed'' ''none'' ''evidence'' ''all'' ''Body alternatives''
                ''The authoritative selected presentation is plain text only.''
                [] None)
             c
         else c))"

definition rule_image_alt :: "bytes \<Rightarrow> html_facts \<Rightarrow> collector \<Rightarrow> collector" where
  "rule_image_alt fallback_label ft c =
     (if ft_images ft = 0 then c
      else if 0 < ft_missing_alt ft then
        add_html_finding
          (new_finding ''content.image-alt'' ''content'' ''pass'' ''advisory'' ''heuristic'' ''html'' ''Image alt attributes''
             (itoa (int (ft_missing_alt ft)) @ '' image occurrence(s)'' @ fallback_label @ '' omit the alt attribute; empty alt is treated as present.'')
             (ft_missing_alt_evidence ft) None)
          (ft_missing_alt ft) (length (ft_missing_alt_evidence ft)) c
      else if \<not> ft_truncated ft then
        add_finding
          (new_finding ''content.image-alt'' ''content'' ''pass'' ''none'' ''heuristic'' ''html'' ''Image alt attributes''
             ''Every inspected image declares an alt attribute.''
             [] None)
          c
      else c)"

definition rule_link_name :: "bytes \<Rightarrow> html_facts \<Rightarrow> collector \<Rightarrow> collector" where
  "rule_link_name fallback_label ft c =
     (if ft_anchors ft = 0 then c
      else if 0 < ft_unnamed ft then
        add_html_finding
          (new_finding ''content.link-name'' ''content'' ''pass'' ''advisory'' ''heuristic'' ''html'' ''Link names''
             (itoa (int (ft_unnamed ft)) @ '' anchor occurrence(s)'' @ fallback_label @ '' have no conservative static accessible name.'')
             (ft_unnamed_evidence ft) None)
          (ft_unnamed ft) (length (ft_unnamed_evidence ft)) c
      else if \<not> ft_truncated ft then
        add_finding
          (new_finding ''content.link-name'' ''content'' ''pass'' ''none'' ''heuristic'' ''html'' ''Link names''
             ''Every inspected anchor has a conservative static accessible name.''
             [] None)
          c
      else c)"

definition rule_document_language :: "html_facts \<Rightarrow> collector \<Rightarrow> collector" where
  "rule_document_language ft c =
     (if \<not> ft_explicit_root ft then c
      else if ft_lang ft = [] \<or> ft_lang_invalid ft then
        add_finding
          (new_finding ''content.document-language'' ''content'' ''pass'' ''advisory'' ''heuristic'' ''html'' ''Document language''
             ''The explicit source html root is missing a valid lang value.''
             [] None)
          c
      else if \<not> ft_truncated ft then
        add_finding
          (new_finding ''content.document-language'' ''content'' ''pass'' ''none'' ''heuristic'' ''html'' ''Document language''
             ''The explicit source html root declares a parseable language tag.''
             [] None)
          c
      else c)"

definition run_content_rules :: "('h, 'e) inspected \<Rightarrow> collector \<Rightarrow> collector" where
  "run_content_rules a c =
     (let c = rule_bodies a c; label = (if in_fallback a then '' in the stored fallback HTML'' else []) in
      case in_facts a of
        None \<Rightarrow> c
      | Some ft \<Rightarrow> rule_document_language ft (rule_link_name label ft (rule_image_alt label ft c)))"

section \<open>Privacy\<close>

definition rule_external_images :: "html_facts \<Rightarrow> collector \<Rightarrow> collector" where
  "rule_external_images ft c =
     (if 0 < ft_external ft then
        add_html_finding
          (new_finding ''privacy.external-images'' ''privacy'' ''pass'' ''advisory'' ''heuristic'' ''html'' ''External images''
             (itoa (int (ft_external ft)) @ '' external image occurrence(s) were found. Inspection is offline and did not fetch them.'')
             (ft_external_evidence ft) None)
          (ft_external ft) (length (ft_external_evidence ft)) c
      else if \<not> ft_truncated ft then
        add_finding
          (new_finding ''privacy.external-images'' ''privacy'' ''pass'' ''none'' ''heuristic'' ''html'' ''External images''
             ''No external HTTP(S) image source was found. Inspection made no network requests.''
             [] None)
          c
      else c)"

definition rule_tracking_pixels :: "html_facts \<Rightarrow> collector \<Rightarrow> collector" where
  "rule_tracking_pixels ft c =
     (if 0 < ft_tracking ft then
        add_html_finding
          (new_finding ''privacy.tracking-pixels'' ''privacy'' ''pass'' ''advisory'' ''heuristic'' ''html'' ''Tracking pixels''
             (itoa (int (ft_tracking ft)) @ '' hidden or at-most-one-pixel image candidate(s) were found; false positives and negatives are possible.'')
             (ft_tracking_evidence ft) None)
          (ft_tracking ft) (length (ft_tracking_evidence ft)) c
      else if \<not> ft_truncated ft then
        add_finding
          (new_finding ''privacy.tracking-pixels'' ''privacy'' ''pass'' ''none'' ''heuristic'' ''html'' ''Tracking pixels''
             ''No hidden or at-most-one-pixel image candidate was found; this heuristic is not exhaustive.''
             [] None)
          c
      else c)"

definition rule_insecure_links :: "html_facts \<Rightarrow> collector \<Rightarrow> collector" where
  "rule_insecure_links ft c =
     (if 0 < ft_insecure ft then
        add_html_finding
          (new_finding ''privacy.insecure-links'' ''privacy'' ''pass'' ''advisory'' ''heuristic'' ''html'' ''Insecure resources''
             (itoa (int (ft_insecure ft)) @ '' HTTP resource occurrence(s) use plaintext transport syntax.'')
             (ft_insecure_evidence ft) None)
          (ft_insecure ft) (length (ft_insecure_evidence ft)) c
      else if \<not> ft_truncated ft then
        add_finding
          (new_finding ''privacy.insecure-links'' ''privacy'' ''pass'' ''none'' ''heuristic'' ''html'' ''Insecure resources''
             ''No inspected link or external image uses an http:// destination.''
             [] None)
          c
      else c)"

definition run_privacy_rules :: "('h, 'e) inspected \<Rightarrow> collector \<Rightarrow> collector" where
  "run_privacy_rules a c =
     (case in_facts a of
        None \<Rightarrow> c
      | Some ft \<Rightarrow> rule_insecure_links ft (rule_tracking_pixels ft (rule_external_images ft c)))"

section \<open>Sizes\<close>

definition encoded_size_text :: "bytes \<Rightarrow> bytes \<Rightarrow> ('h, 'e) node option \<Rightarrow> bytes" where
  "encoded_size_text raw what n =
     (case n of
        None \<Rightarrow> []
      | Some n \<Rightarrow>
          (case raw_body raw n of
             None \<Rightarrow> []
           | Some body \<Rightarrow> ''; encoded selected '' @ what @ '' part bytes: '' @ itoa (int (length body))))"

definition run_compatibility_rules :: "('h, 'e) inspected \<Rightarrow> collector \<Rightarrow> collector" where
  "run_compatibility_rules a c =
     (let html = int (length (body_bytes (in_html a))); plain = int (length (body_bytes (in_text a)));
          raw = doc_raw (in_doc a); p = doc_presentation (in_doc a);
          evidence = [(evidence_of ''html'')\<lparr>ev_path := in_html_path a, ev_value := Some (itoa html @ '' decoded HTML bytes'')\<rparr>];
          c = (if in_html a = None then c
               else if 102 * 1024 < html then
                 add_finding
                   (new_finding ''compatibility.html-size'' ''compatibility'' ''pass'' ''advisory'' ''heuristic'' ''html'' ''HTML size''
                      (''Selected decoded HTML is '' @ itoa html @ '' bytes. Commonly observed Gmail clipping risk; provider behavior can change.'')
                      evidence None)
                   c
               else
                 add_finding
                   (new_finding ''compatibility.html-size'' ''compatibility'' ''observed'' ''none'' ''evidence'' ''html'' ''HTML size''
                      (''Selected decoded HTML is '' @ itoa html @ '' bytes, at or below the 102 KiB observation threshold.'')
                      evidence None)
                   c);
          detail =
            (if in_raw_present a then
               ''Raw message bytes: '' @ itoa (int (length (ii_raw (in_input a)))) @ ''; selected decoded HTML bytes: '' @ itoa html
                 @ ''; selected decoded text bytes: '' @ itoa plain @ encoded_size_text raw ''HTML'' (pr_html p)
                 @ encoded_size_text raw ''text'' (pr_text p)
             else
               ''Persisted fallback size: '' @ itoa (ii_stored_size (in_input a)) @ ''; stored fallback HTML bytes: '' @ itoa html
                 @ ''; stored fallback text bytes: '' @ itoa plain @ ''. These are not raw or encoded MIME byte counts.'') in
      add_finding
        (new_finding ''compatibility.body-sizes'' ''compatibility'' ''observed'' ''none'' ''evidence'' ''all'' ''Body sizes''
           detail
           [] None)
        c)"

section \<open>Attachments\<close>

text \<open>The stack of \<open>collectLeafAttachments\<close> visits the parts in order and does not enter messages.\<close>

fun leaf_attachments :: "('h, 'e) node \<Rightarrow> ('h, 'e) node list" where
  "leaf_attachments (Node i cs) =
     (if cs = [] \<or> nd_media_type i = ''message/rfc822'' \<or> nd_media_type i = ''message/global'' then [Node i cs]
      else concat (map leaf_attachments cs))"

definition add_attachment_resources :: "('h, 'e) document \<Rightarrow> collector \<Rightarrow> collector" where
  "add_attachment_resources d c =
     (let listed = map ac_node (pr_attachments (doc_presentation d));
          found = (case doc_root d of
                     Some n \<Rightarrow> if \<not> pr_supported (doc_presentation d) then listed @ leaf_attachments n else listed
                   | None \<Rightarrow> listed) in
      fold (\<lambda>n. add_resource ''attachment'' (Some (nd_path (info n))) [] (filename n)) found c)"

section \<open>\<open>Analyze\<close>\<close>

datatype 'c analyze_result = Report report | Failed "'c inspect_err" | Panic

definition inspected_of :: "inspect_input \<Rightarrow> ('h, 'e) document \<Rightarrow> collector \<Rightarrow> ('h, 'e) inspected" where
  "inspected_of input d c =
     (let present = (ii_raw input \<noteq> []) in
      \<lparr>in_input = input, in_doc = d, in_raw_present = present, in_whole_raw = (present \<and> \<not> doc_truncated d),
       in_semantic_ok = (present \<and> doc_root d \<noteq> None \<and> doc_semantic_error d = None \<and> ''raw bytes'' \<notin> co_causes c),
       in_html = None, in_text = None, in_html_path = None, in_text_path = None, in_fallback = False, in_facts = None\<rparr>)"

definition document_causes :: "unicode \<Rightarrow> ('h, 'e) document \<Rightarrow> collector" where
  "document_causes u d =
     (let c = fold (\<lambda>cause. note_cause (normalize_cause u cause)) (doc_causes d) new_collector in
      if doc_truncated d \<and> doc_causes d = [] then note_cause ''MIME parts'' c else c)"

text \<open>The rules that need the raw message; \<open>Inl\<close> is the cancellation.\<close>

definition run_raw_rules ::
  "('h, 'e, 'c) inspect_lib \<Rightarrow> ('h, 'e) inspected \<Rightarrow> collector \<Rightarrow> 'c + collector" where
  "run_raw_rules E a c =
     (case doc_root (in_doc a) of
        None \<Rightarrow> Inr c
      | Some n \<Rightarrow>
          if \<not> in_raw_present a \<or> ''raw bytes'' \<in> co_causes c then Inr c
          else
            (let c = (if doc_truncated (in_doc a) then add_unavailable [''mime''] c else c);
                 c = run_mime_rules E a n (run_message_rules E a n c) in
             case il_context E After_Mime_Rules of
               Some x \<Rightarrow> Inl x
             | None \<Rightarrow>
                 (let c = run_unsubscribe_rules E a n (run_authentication_rules E a n c) in
                  case il_context E After_Unsubscribe_Rules of Some x \<Rightarrow> Inl x | None \<Rightarrow> Inr c)))"

definition finish_analysis ::
  "('h, 'e, 'c) inspect_lib \<Rightarrow> caniemail \<Rightarrow> ('h, 'e) inspected \<Rightarrow> collector \<Rightarrow> 'c analyze_result" where
  "finish_analysis E data a c =
     (let c = run_privacy_rules a (run_content_rules a c) in
      case il_context E After_Privacy_Rules of
        Some x \<Rightarrow> Failed (Cancelled x)
      | None \<Rightarrow>
          (let c = add_attachment_resources (in_doc a) (run_compatibility_rules a c) in
           case il_context E After_Resources of
             Some x \<Rightarrow> Failed (Cancelled x)
           | None \<Rightarrow> (case finish_report E data a c of Inl e \<Rightarrow> Failed e | Inr r \<Rightarrow> Report r)))"

definition analyze_document ::
  "('h, 'e, 'c) inspect_lib \<Rightarrow> caniemail \<Rightarrow> inspect_input \<Rightarrow> ('h, 'e) document \<Rightarrow> 'c analyze_result" where
  "analyze_document E data input d =
     (let c = document_causes (il_unicode E) d;
          (a, c) = select_bodies (inspected_of input d c) c;
          c = run_analysis_rules E a c in
      case il_context E After_Analysis_Rules of
        Some x \<Rightarrow> Failed (Cancelled x)
      | None \<Rightarrow>
          (case run_raw_rules E a c of
             Inl x \<Rightarrow> Failed (Cancelled x)
           | Inr c \<Rightarrow>
               (case analyze_content E a c of
                  Content_Panic \<Rightarrow> Panic
                | Content_Cancelled x \<Rightarrow> Failed (Cancelled x)
                | Content facts c \<Rightarrow> finish_analysis E data (a\<lparr>in_facts := facts\<rparr>) c)))"

definition analyze :: "('h, 'e, 'c) inspect_lib \<Rightarrow> caniemail \<Rightarrow> inspect_input \<Rightarrow> 'c analyze_result" where
  "analyze E data input =
     (case il_context E At_Start of
        Some x \<Rightarrow> Failed (Cancelled x)
      | None \<Rightarrow>
          (case mime_parse (il_mime E) (ii_raw input) inspection_limits of
             Inl e \<Rightarrow> Failed (Parse_Failed e)
           | Inr d \<Rightarrow>
               (case il_context E After_Parse of
                  Some x \<Rightarrow> Failed (Cancelled x)
                | None \<Rightarrow> analyze_document E data input d)))"

end
