(* ===== verification/Inspect_Collect_Props.thy ===== *)
theory Inspect_Collect_Props
  imports Inspect_Analyze Inspect_Html_Props
begin

text \<open>
  What every rule keeps of the collector: findings are of a known kind and their evidence is bounded,
  resources are within the limit and listed once, and causes and families are known ones.
\<close>

section \<open>The invariant of the collector\<close>

definition categories :: "bytes list" where
  "categories =
     [''analysis'', ''message'', ''mime'', ''authentication'', ''unsubscribe'', ''content'', ''privacy'', ''compatibility'']"

text \<open>The outcomes with the severities they have.\<close>

definition kinds :: "(bytes \<times> bytes) list" where
  "kinds = [(''fail'', ''error''), (''pass'', ''warning''), (''pass'', ''advisory''), (''observed'', ''none''),
     (''not-evaluated'', ''none''), (''pass'', ''none'')]"

definition kind_ok :: "finding \<Rightarrow> bool" where
  "kind_ok f \<longleftrightarrow> fd_category f \<in> set categories \<and> (fd_outcome f, fd_severity f) \<in> set kinds"

definition evidence_bounded :: "finding \<Rightarrow> bool" where
  "evidence_bounded f \<longleftrightarrow> length (fd_evidence f) \<le> max_evidence
     \<and> (\<forall>e\<in>set (fd_evidence f). case ev_value e of None \<Rightarrow> True | Some v \<Rightarrow> length v \<le> 200)"

definition finding_ok :: "finding \<Rightarrow> bool" where
  "finding_ok f \<longleftrightarrow> kind_ok f \<and> evidence_bounded f"

definition resource_bounded :: "resource \<Rightarrow> bool" where
  "resource_bounded r \<longleftrightarrow> length (rs_url r) \<le> 2048 \<and> length (rs_text r) \<le> 2048 \<and> 1 \<le> rs_count r"

definition rs_key :: "resource \<Rightarrow> bytes" where
  "rs_key r = resource_key (rs_kind r) (rs_path r) (rs_url r)"

definition collector_ok :: "collector \<Rightarrow> bool" where
  "collector_ok c \<longleftrightarrow>
     list_all (\<lambda>f. finding_ok f \<and> fd_id f \<noteq> truncated_id) (co_findings c)
     \<and> length (co_resources c) \<le> max_resources \<and> list_all resource_bounded (co_resources c)
     \<and> indexed (co_index c) (map rs_key (co_resources c))
     \<and> co_causes c \<subseteq> set truncation_order \<and> co_unavailable c \<subseteq> set unavailable_order"

lemma collector_ok_new: "collector_ok new_collector"
  by (simp add: collector_ok_def new_collector_def)

lemma note_cause_ok [simp]: "cause \<in> set truncation_order \<Longrightarrow> collector_ok c \<Longrightarrow> collector_ok (note_cause cause c)"
  by (simp add: collector_ok_def note_cause_def)

lemma note_cause_nil [simp]: "note_cause [] c = c"
  by (simp add: note_cause_def)

lemma add_unavailable_ok [simp]:
  "set values \<subseteq> set unavailable_order \<Longrightarrow> collector_ok c \<Longrightarrow> collector_ok (add_unavailable values c)"
  by (auto simp: collector_ok_def add_unavailable_def)

lemma known_causes [simp]:
  "''raw bytes'' \<in> set truncation_order" "''MIME parts'' \<in> set truncation_order" "''evidence'' \<in> set truncation_order"
  "''resource values'' \<in> set truncation_order" "''resources'' \<in> set truncation_order" "''findings'' \<in> set truncation_order"
  "''legacy body bytes'' \<in> set truncation_order" "''HTML nodes'' \<in> set truncation_order"
  "''HTML token bytes'' \<in> set truncation_order" "''style bytes'' \<in> set truncation_order"
  "''compatibility warnings'' \<in> set truncation_order" "''report bytes'' \<in> set truncation_order"
  "''MIME depth'' \<in> set truncation_order" "''header fields'' \<in> set truncation_order"
  "''header bytes'' \<in> set truncation_order" "''physical lines'' \<in> set truncation_order"
  by (simp_all add: truncation_order_def)

text \<open>A finding of the code, whatever its evidence is.\<close>

definition plain :: "finding \<Rightarrow> bool" where
  "plain f \<longleftrightarrow> kind_ok f \<and> fd_id f \<noteq> truncated_id"

lemma plain_finding:
  "cat \<in> set categories \<Longrightarrow> (outcome, severity) \<in> set kinds \<Longrightarrow> i \<noteq> truncated_id \<Longrightarrow>
     plain (new_finding i cat outcome severity basis applies label detail es ref)"
  by (simp add: plain_def kind_ok_def new_finding_def)

lemma add_finding_ok:
  assumes "collector_ok c" and "plain f"
  shows "collector_ok (add_finding f c)"
proof -
  let ?f = "if max_evidence < length (fd_evidence f)
    then f\<lparr>fd_evidence := take max_evidence (fd_evidence f), fd_evidence_truncated := True\<rparr> else f"
  let ?g = "?f\<lparr>fd_evidence := map bound_value (fd_evidence ?f)\<rparr>"
  have "finding_ok ?g" "fd_id ?g \<noteq> truncated_id"
    using assms(2)
    by (auto simp: finding_ok_def plain_def kind_ok_def evidence_bounded_def bound_value_def length_evidence_value
        split: option.split)
  then show ?thesis
    using assms(1) by (simp add: add_finding_def Let_def collector_ok_def note_cause_def known_causes)
qed

lemma add_html_finding_ok:
  "collector_ok c \<Longrightarrow> plain f \<Longrightarrow> collector_ok (add_html_finding f n k c)"
  by (auto simp: add_html_finding_def plain_def kind_ok_def intro!: add_finding_ok)

lemma put_resource_ok:
  assumes "collector_ok c" "length url \<le> 2048" "length txt \<le> 2048" "1 \<le> n"
  shows "collector_ok (put_resource kind path url txt n c)"
proof (cases "map_of (co_index c) (resource_key kind path url)")
  case None
  let ?key = "resource_key kind path url"
  have "indexed ((?key, length (co_resources c)) # co_index c) (map rs_key (co_resources c) @ [?key])"
    using assms(1) indexed_snoc [OF _ None, of "map rs_key (co_resources c)"] by (simp add: collector_ok_def)
  then show ?thesis
    using assms None by (simp add: put_resource_def collector_ok_def note_cause_def resource_bounded_def rs_key_def)
next
  case (Some i)
  let ?r = "co_resources c ! i"
  let ?r' = "?r\<lparr>rs_count := rs_count ?r + n, rs_text := (if rs_text ?r = [] \<and> txt \<noteq> [] then txt else rs_text ?r)\<rparr>"
  have i: "i < length (co_resources c)" using assms(1) indexedD [OF _ Some, of "map rs_key (co_resources c)"] by (auto simp: collector_ok_def)
  then have "resource_bounded ?r" using assms(1) by (simp add: collector_ok_def list_all_length)
  then have "resource_bounded ?r'" using assms by (simp add: resource_bounded_def)
  then have all: "list_all resource_bounded ((co_resources c)[i := ?r'])"
    using assms(1) set_update_subset_insert [of "co_resources c" i ?r'] by (auto simp: collector_ok_def list_all_iff)
  have "map rs_key ((co_resources c)[i := ?r']) = map rs_key (co_resources c)"
    using i by (intro nth_equalityI) (auto simp: nth_list_update rs_key_def)
  with all show ?thesis using assms(1) Some by (simp add: put_resource_def collector_ok_def Let_def)
qed

lemma add_resource_ok: "collector_ok c \<Longrightarrow> collector_ok (add_resource kind path url txt c)"
  by (auto simp: add_resource_def intro!: put_resource_ok)

lemma add_resource_counted_ok:
  "collector_ok c \<Longrightarrow> length url \<le> 2048 \<Longrightarrow> length txt \<le> 2048 \<Longrightarrow> collector_ok (add_resource_counted kind path url txt n c)"
  by (auto simp: add_resource_counted_def intro!: put_resource_ok)

lemma fold_ok: "(\<And>x c. x \<in> set xs \<Longrightarrow> P c \<Longrightarrow> P (f x c)) \<Longrightarrow> P c \<Longrightarrow> P (fold f xs c)"
  by (induction xs arbitrary: c) auto

section \<open>Every rule keeps it\<close>

named_theorems rule_ok

lemmas add_ok = add_finding_ok [OF _ plain_finding] add_html_finding_ok [OF _ plain_finding]

lemma analysis_rules_ok [rule_ok]: "collector_ok c \<Longrightarrow> collector_ok (run_analysis_rules E a c)"
  by (simp add: run_analysis_rules_def Let_def add_ok categories_def kinds_def truncated_id_def unavailable_order_def
      split: option.split)

lemma line_endings_ok [rule_ok]: "collector_ok c \<Longrightarrow> collector_ok (rule_line_endings a complete c)"
  by (simp add: rule_line_endings_def Let_def add_ok categories_def kinds_def truncated_id_def)

lemma header_syntax_ok [rule_ok]:
  "collector_ok c \<Longrightarrow> ident \<noteq> truncated_id \<Longrightarrow> collector_ok (rule_header_syntax a n ident label complete nested c)"
  by (simp add: rule_header_syntax_def Let_def split_beta add_ok categories_def kinds_def)

lemma line_length_ok [rule_ok]: "collector_ok c \<Longrightarrow> collector_ok (rule_line_length a complete c)"
  by (simp add: rule_line_length_def Let_def add_ok categories_def kinds_def truncated_id_def)

lemma date_ok [rule_ok]: "collector_ok c \<Longrightarrow> collector_ok (rule_date E h os complete c)"
  by (simp add: rule_date_def Let_def add_ok categories_def kinds_def truncated_id_def)

lemma from_ok [rule_ok]: "collector_ok c \<Longrightarrow> collector_ok (snd (rule_from E os c))"
  by (simp add: rule_from_def Let_def split_beta add_ok categories_def kinds_def truncated_id_def)

lemma sender_ok [rule_ok]: "collector_ok c \<Longrightarrow> collector_ok (rule_sender E os n g v c)"
  by (simp add: rule_sender_def Let_def split_beta add_ok categories_def kinds_def truncated_id_def)

lemma message_id_ok [rule_ok]: "collector_ok c \<Longrightarrow> collector_ok (rule_message_id u os c)"
  by (simp add: rule_message_id_def Let_def add_ok categories_def kinds_def truncated_id_def)

lemma singletons_ok [rule_ok]: "collector_ok c \<Longrightarrow> collector_ok (rule_singletons u os c)"
  unfolding rule_singletons_def Let_def
  by (simp add: add_ok categories_def kinds_def truncated_id_def del: concat_eq_Nil_conv)

lemma address_field_ok [rule_ok]: "collector_ok c \<Longrightarrow> collector_ok (rule_address_field E os name c)"
  by (simp add: rule_address_field_def Let_def split_beta add_ok categories_def kinds_def truncated_id_def)

lemma threading_ok [rule_ok]: "collector_ok c \<Longrightarrow> collector_ok (rule_threading u os name c)"
  by (simp add: rule_threading_def Let_def add_ok categories_def kinds_def truncated_id_def)

lemma international_ok [rule_ok]: "collector_ok c \<Longrightarrow> collector_ok (rule_internationalized_headers u a n c)"
  unfolding rule_internationalized_headers_def Let_def
  by (simp add: add_ok categories_def kinds_def truncated_id_def del: concat_eq_Nil_conv)

lemma message_rules_ok [rule_ok]: "collector_ok c \<Longrightarrow> collector_ok (run_message_rules E a n c)"
  unfolding run_message_rules_def Let_def split_beta
  by (intro rule_ok fold_ok [where P = collector_ok]) (simp_all add: truncated_id_def)

lemma content_type_ok [rule_ok]: "collector_ok c \<Longrightarrow> collector_ok (rule_mime_content_type u a n c)"
  by (simp add: rule_mime_content_type_def Let_def add_ok categories_def kinds_def truncated_id_def)

lemma transfer_ok [rule_ok]: "collector_ok c \<Longrightarrow> collector_ok (rule_mime_transfer u a n c)"
  unfolding rule_mime_transfer_def Let_def
  by (simp add: add_ok categories_def kinds_def truncated_id_def)

lemma charset_ok [rule_ok]: "collector_ok c \<Longrightarrow> collector_ok (rule_mime_charset E n c)"
  by (simp add: rule_mime_charset_def Let_def add_ok categories_def kinds_def truncated_id_def split: option.split)

lemma disposition_ok [rule_ok]: "collector_ok c \<Longrightarrow> collector_ok (rule_mime_disposition u a n c)"
  by (simp add: rule_mime_disposition_def Let_def add_ok categories_def kinds_def truncated_id_def)

lemma content_id_ok [rule_ok]: "collector_ok c \<Longrightarrow> collector_ok (rule_mime_content_id u a n c)"
  by (simp add: rule_mime_content_id_def Let_def add_ok categories_def kinds_def truncated_id_def)

lemma related_ok [rule_ok]: "collector_ok c \<Longrightarrow> collector_ok (rule_related L n c)"
  by (simp add: rule_related_def Let_def add_ok categories_def kinds_def truncated_id_def)

lemma alternative_ok [rule_ok]: "collector_ok c \<Longrightarrow> collector_ok (rule_alternative L n c)"
  by (simp add: rule_alternative_def Let_def add_ok categories_def kinds_def truncated_id_def)

lemma part_rules_ok [rule_ok]: "collector_ok c \<Longrightarrow> collector_ok (run_part_rules E a is_root n c)"
  unfolding run_part_rules_def Let_def by (simp add: rule_ok truncated_id_def)

lemma mime_version_ok [rule_ok]: "collector_ok c \<Longrightarrow> collector_ok (rule_mime_version u a n c)"
  by (simp add: rule_mime_version_def Let_def add_ok categories_def kinds_def truncated_id_def)

lemma mime_rules_ok [rule_ok]: "collector_ok c \<Longrightarrow> collector_ok (run_mime_rules E a n c)"
  unfolding run_mime_rules_def Let_def
  by (simp add: rule_ok add_ok categories_def kinds_def truncated_id_def fold_ok [where P = collector_ok])

lemma arc_ok [rule_ok]: "collector_ok c \<Longrightarrow> collector_ok (run_arc_rule u os c)"
  by (simp add: run_arc_rule_def Let_def add_ok categories_def kinds_def truncated_id_def)

lemma results_ok [rule_ok]: "collector_ok c \<Longrightarrow> collector_ok (rule_authentication_results k oc c)"
  by (simp add: rule_authentication_results_def Let_def add_ok categories_def kinds_def truncated_id_def split: option.split)

lemma dkim_ok [rule_ok]: "collector_ok (fst cs) \<Longrightarrow> collector_ok (fst (rule_dkim u k oc cs))"
  by (simp add: rule_dkim_def Let_def split_beta add_ok categories_def kinds_def truncated_id_def split: sum.split)

lemma coverage_ok [rule_ok]: "collector_ok c \<Longrightarrow> collector_ok (run_dkim_coverage u os claims c)"
  unfolding run_dkim_coverage_def Let_def
  by (simp add: add_ok categories_def kinds_def truncated_id_def)

lemma authentication_rules_ok [rule_ok]:
  assumes "collector_ok c"
  shows "collector_ok (run_authentication_rules E a n c)"
proof -
  have results: "collector_ok (fold (\<lambda>(k, oc). rule_authentication_results k oc) xs c)" for xs
    using assms by (intro fold_ok [where P = collector_ok]) (auto simp: rule_ok)
  have "collector_ok (fst (fold (\<lambda>(k, oc). rule_dkim u k oc) xs (c, [])))" if "collector_ok c" for u xs c
    using that by (intro fold_ok [where P = "\<lambda>cs. collector_ok (fst cs)"]) (auto simp: rule_ok)
  with results show ?thesis unfolding run_authentication_rules_def Let_def
    by (auto simp: split_beta intro!: coverage_ok arc_ok)
qed

lemma unsubscribe_ok [rule_ok]: "collector_ok c \<Longrightarrow> collector_ok (run_unsubscribe_rules E a n c)"
  unfolding run_unsubscribe_rules_def Let_def
  by (simp add: add_ok categories_def kinds_def truncated_id_def)

section \<open>The rest of the analysis\<close>

lemma text_links_ok [rule_ok]: "collector_ok c \<Longrightarrow> collector_ok (add_text_link E path m c)"
  by (simp add: add_text_link_def add_resource_ok split: option.split)

lemma html_resources_ok: "list_all resource_ok rs \<Longrightarrow> collector_ok c \<Longrightarrow> collector_ok (add_html_resources rs c)"
  unfolding add_html_resources_def
  by (intro fold_ok [where P = collector_ok]) (auto simp: list_all_iff resource_ok_def intro!: add_resource_counted_ok)

lemma html_causes:
  "html_loop E path failed ts st = Html_Facts ft causes \<Longrightarrow> set causes \<subseteq> set truncation_order"
  by (induction E path failed ts st rule: html_loop.induct)
    (auto simp: Let_def split: if_splits option.splits)

lemma content_ok:
  assumes "collector_ok c" and "analyze_content E a c = Content facts c'"
  shows "collector_ok c'"
proof (cases "in_html a")
  case None
  show ?thesis
  proof (cases "in_text a")
    case no_text: None
    then show ?thesis using assms None by (simp add: analyze_content_def)
  next
    case (Some body)
    then have "c' = fold (add_text_link E (in_text_path a)) (find_links body) c"
      using assms(2) None by (simp add: analyze_content_def)
    then show ?thesis using assms(1) by (auto intro!: fold_ok [where P = collector_ok] rule_ok)
  qed
next
  case (Some html)
  then obtain ft causes where ft: "analyze_html E html (in_html_path a) = Html_Facts ft causes"
    and c': "c' = (let c = add_html_resources (ft_resources ft) (fold note_cause causes c);
        c = (if ft_values_dropped ft then note_cause ''resource values'' c else c) in
        if ft_resources_capped ft then note_cause ''resources'' c else c)"
    using assms(2) by (auto simp: analyze_content_def Let_def split: html_result.splits)
  have "facts_ok ft" using html_pass_bounded [of E html "in_html_path a"] ft by simp
  then have rs: "list_all resource_ok (ft_resources ft)" by (simp add: facts_ok_def)
  have "html_loop E (in_html_path a) (snd (il_tokens E html)) (fst (il_tokens E html)) new_html_scan = Html_Facts ft causes"
    using ft by (simp add: analyze_html_def split_beta)
  then have "set causes \<subseteq> set truncation_order" by (rule html_causes)
  then have "collector_ok (fold note_cause causes c)"
    using assms(1) by (intro fold_ok [where P = collector_ok]) auto
  then show ?thesis unfolding c' Let_def by (simp add: html_resources_ok rs)
qed

text \<open>The pass panics only on a body with more than 32 start tags.\<close>

lemma content_panics:
  assumes "analyze_content E a c = Content_Panic"
  obtains html where "in_html a = Some html" "32 < opens (fst (il_tokens E html))"
proof (cases "in_html a")
  case None
  then show thesis using assms by (simp add: analyze_content_def split: option.splits)
next
  case (Some html)
  then have "analyze_html E html (in_html_path a) = Html_Panic"
    using assms by (simp add: analyze_content_def Let_def split: html_result.splits)
  then show thesis using that [OF Some] html_pass_bounded [of E html "in_html_path a"] by simp
qed

lemma bodies_ok [rule_ok]: "collector_ok c \<Longrightarrow> collector_ok (rule_bodies a c)"
  by (simp add: rule_bodies_def Let_def add_ok categories_def kinds_def truncated_id_def)

lemma image_alt_ok [rule_ok]: "collector_ok c \<Longrightarrow> collector_ok (rule_image_alt l ft c)"
  by (simp add: rule_image_alt_def add_ok categories_def kinds_def truncated_id_def)

lemma link_name_ok [rule_ok]: "collector_ok c \<Longrightarrow> collector_ok (rule_link_name l ft c)"
  by (simp add: rule_link_name_def add_ok categories_def kinds_def truncated_id_def)

lemma language_ok [rule_ok]: "collector_ok c \<Longrightarrow> collector_ok (rule_document_language ft c)"
  by (simp add: rule_document_language_def add_ok categories_def kinds_def truncated_id_def)

lemma external_ok [rule_ok]: "collector_ok c \<Longrightarrow> collector_ok (rule_external_images ft c)"
  by (simp add: rule_external_images_def add_ok categories_def kinds_def truncated_id_def)

lemma tracking_ok [rule_ok]: "collector_ok c \<Longrightarrow> collector_ok (rule_tracking_pixels ft c)"
  by (simp add: rule_tracking_pixels_def add_ok categories_def kinds_def truncated_id_def)

lemma insecure_ok [rule_ok]: "collector_ok c \<Longrightarrow> collector_ok (rule_insecure_links ft c)"
  by (simp add: rule_insecure_links_def add_ok categories_def kinds_def truncated_id_def)

lemma content_rules_ok [rule_ok]: "collector_ok c \<Longrightarrow> collector_ok (run_content_rules a c)"
  by (simp add: run_content_rules_def Let_def rule_ok split: option.split)

lemma privacy_rules_ok [rule_ok]: "collector_ok c \<Longrightarrow> collector_ok (run_privacy_rules a c)"
  by (simp add: run_privacy_rules_def Let_def rule_ok split: option.split)

lemma compatibility_rules_ok [rule_ok]: "collector_ok c \<Longrightarrow> collector_ok (run_compatibility_rules a c)"
  unfolding run_compatibility_rules_def Let_def
  by (simp add: add_ok categories_def kinds_def truncated_id_def)

lemma attachments_ok [rule_ok]: "collector_ok c \<Longrightarrow> collector_ok (add_attachment_resources d c)"
  unfolding add_attachment_resources_def Let_def
  by (intro fold_ok [where P = collector_ok]) (auto simp: add_resource_ok)

lemma raw_rules_ok: "collector_ok c \<Longrightarrow> run_raw_rules E a c = Inr c' \<Longrightarrow> collector_ok c'"
  by (auto simp: run_raw_rules_def Let_def rule_ok unavailable_order_def split: option.splits if_splits)

end
