(* ===== verification/Inspect_Report_Props.thy ===== *)
theory Inspect_Report_Props
  imports Inspect_Collect_Props "HOL-Library.Sublist"
begin

text \<open>
  Reports: the order of findings, the summary, what trimming keeps, and the theorem about every report that
  \<open>Analyze\<close> returns.  The order of findings is an instance of the interface \<open>weak_order\<close>, whose lemmas are
  about stable insertion sort.
\<close>

section \<open>Sorting by a weak order\<close>

locale weak_order =
  fixes lt :: "'a \<Rightarrow> 'a \<Rightarrow> bool"
  assumes lt_asym: "lt x y \<Longrightarrow> \<not> lt y x"
    and lt_gap: "lt x z \<Longrightarrow> lt x y \<or> lt y z"
begin

lemma le_trans: "\<not> lt y x \<Longrightarrow> \<not> lt z y \<Longrightarrow> \<not> lt z x"
  using lt_gap by blast

lemma insert_mset: "mset (insert_by lt x ys) = add_mset x (mset ys)"
  by (induction ys) auto

lemma sort_mset: "mset (sort_by lt xs) = mset xs"
  by (induction xs) (simp_all add: sort_by_def insert_mset)

lemma insert_sorted: "sorted_wrt (\<lambda>x y. \<not> lt y x) ys \<Longrightarrow> sorted_wrt (\<lambda>x y. \<not> lt y x) (insert_by lt x ys)"
proof (induction ys)
  case (Cons y ys)
  have set: "set (insert_by lt x ys) = insert x (set ys)" using insert_mset [of x ys] by (metis set_mset_add_mset_insert set_mset_mset)
  show ?case
  proof (cases "lt y x")
    case True
    then show ?thesis using Cons lt_asym by (auto simp: set)
  next
    case False
    then show ?thesis using Cons.prems le_trans by auto
  qed
qed simp

lemma sort_sorted: "sorted_wrt (\<lambda>x y. \<not> lt y x) (sort_by lt xs)"
  by (induction xs) (simp_all add: sort_by_def insert_sorted)

lemma insert_stable:
  "sorted_wrt (\<lambda>x y. \<not> lt y x) ys \<Longrightarrow>
   filter (\<lambda>y. \<not> lt y z \<and> \<not> lt z y) (insert_by lt x ys) =
   (if \<not> lt x z \<and> \<not> lt z x then x # filter (\<lambda>y. \<not> lt y z \<and> \<not> lt z y) ys else filter (\<lambda>y. \<not> lt y z \<and> \<not> lt z y) ys)"
proof (induction ys)
  case (Cons y ys)
  show ?case
  proof (cases "lt y x")
    case True
    then have "\<not> lt x z \<and> \<not> lt z x \<Longrightarrow> lt y z \<or> lt z y" using lt_gap by blast
    then show ?thesis using Cons True by auto
  qed simp
qed simp

text \<open>Elements that are not ordered keep the order they had.\<close>

lemma sort_stable: "filter (\<lambda>y. \<not> lt y z \<and> \<not> lt z y) (sort_by lt xs) = filter (\<lambda>y. \<not> lt y z \<and> \<not> lt z y) xs"
proof (induction xs)
  case (Cons x xs)
  have "sort_by lt (x # xs) = insert_by lt x (sort_by lt xs)" by (simp add: sort_by_def)
  then show ?case using Cons insert_stable [OF sort_sorted] by simp
qed (simp add: sort_by_def)

end

lemma bytes_less_asym: "bytes_less s t \<Longrightarrow> \<not> bytes_less t s"
  by (induction s t rule: bytes_less.induct) auto

lemma bytes_less_gap: "bytes_less s t \<Longrightarrow> bytes_less s v \<or> bytes_less v t"
proof (induction s t arbitrary: v rule: bytes_less.induct)
  case (2 d t)
  then show ?case by (cases v) auto
next
  case (3 c s d t)
  show ?case
  proof (cases v)
    case Nil
    then show ?thesis by simp
  next
    case (Cons e w)
    consider "byte e < byte c" | "e = c" | "byte c < byte e" using byte_inject linorder_neqE_nat by blast
    then show ?thesis using 3 Cons by cases auto
  qed
qed simp

interpretation byte_order: weak_order bytes_less
  by unfold_locales (auto dest: bytes_less_asym bytes_less_gap)

lemma finding_less_asym: "finding_less a b \<Longrightarrow> \<not> finding_less b a"
  by (auto simp: finding_less_def dest: bytes_less_asym split: if_splits)

lemma finding_less_gap: "finding_less a b \<Longrightarrow> finding_less a c \<or> finding_less c b"
  using bytes_less_gap by (auto simp: finding_less_def split: if_splits)

interpretation finding_order: weak_order finding_less
  by unfold_locales (auto dest: finding_less_asym finding_less_gap)

section \<open>The summary counts every finding once\<close>

definition summary_total :: "summary \<Rightarrow> int" where
  "summary_total s = sm_fail s + sm_warning s + sm_advisory s + sm_observed s + sm_pass s + sm_not_evaluated s"

lemma count_finding_total: "kind_ok f \<Longrightarrow> summary_total (count_finding f s) = summary_total s + 1"
  by (auto simp: kind_ok_def kinds_def count_finding_def summary_total_def)

lemma summarize_total: "list_all finding_ok fs \<Longrightarrow> summary_total (summarize fs) = int (length fs)"
proof -
  have "summary_total (fold count_finding fs s) = summary_total s + int (length fs)" if "list_all finding_ok fs" for fs s
    using that by (induction fs arbitrary: s) (auto simp: count_finding_total finding_ok_def)
  then show "list_all finding_ok fs \<Longrightarrow> summary_total (summarize fs) = int (length fs)"
    by (simp add: summarize_def) (simp add: summary_total_def no_summary_def)
qed

section \<open>Lists of findings\<close>

abbreviation marker :: "finding \<Rightarrow> bool" where
  "marker f \<equiv> fd_id f = truncated_id"

abbreviation in_order :: "finding list \<Rightarrow> bool" where
  "in_order \<equiv> sorted_wrt (\<lambda>x y. \<not> finding_less y x)"

text \<open>Well-formed findings within the limit, at most one of them the marker, which has a place left.\<close>

definition findings_ok :: "finding list \<Rightarrow> bool" where
  "findings_ok fs \<longleftrightarrow> list_all finding_ok fs \<and> length fs \<le> max_findings \<and> length (filter marker fs) \<le> 1
     \<and> (filter marker fs = [] \<longrightarrow> length fs < max_findings)"

definition marked :: "finding list \<Rightarrow> bool" where
  "marked fs \<longleftrightarrow> list_ex marker fs"

lemma marked_filter: "marked fs \<longleftrightarrow> filter marker fs \<noteq> []"
  by (auto simp: marked_def list_ex_iff filter_empty_conv)

lemma findings_ok_mset:
  assumes "mset fs = mset gs"
  shows "findings_ok fs \<longleftrightarrow> findings_ok gs" and "marked fs \<longleftrightarrow> marked gs"
proof -
  have set: "set fs = set gs" using assms by (rule mset_eq_setD)
  have len: "length fs = length gs" using assms by (rule mset_eq_length)
  have m: "mset (filter marker fs) = mset (filter marker gs)" using assms by simp
  have "filter marker fs = [] \<longleftrightarrow> filter marker gs = []" using m by (metis mset_zero_iff)
  then show "findings_ok fs \<longleftrightarrow> findings_ok gs" "marked fs \<longleftrightarrow> marked gs"
    unfolding findings_ok_def marked_filter list_all_iff set len mset_eq_length [OF m] by (rule refl | simp only:)+
qed

lemma sort_findings_mset: "mset (sort_findings fs) = mset fs"
  by (simp add: sort_findings_def finding_order.sort_mset)

lemma sort_findings_ok [simp]:
  "findings_ok (sort_findings fs) \<longleftrightarrow> findings_ok fs" "marked (sort_findings fs) \<longleftrightarrow> marked fs"
  using findings_ok_mset [OF sort_findings_mset] by auto

lemma sort_findings_in_order: "in_order (sort_findings fs)"
  by (simp add: sort_findings_def finding_order.sort_sorted)

text \<open>Removing a finding that is not the marker.\<close>

lemma remove_at:
  assumes "i < length fs" "\<not> marker (fs ! i)"
  shows "findings_ok fs \<Longrightarrow> findings_ok (take i fs @ drop (Suc i) fs)"
    and "in_order fs \<Longrightarrow> in_order (take i fs @ drop (Suc i) fs)"
    and "marked (take i fs @ drop (Suc i) fs) \<longleftrightarrow> marked fs"
proof -
  have fs: "fs = take i fs @ fs ! i # drop (Suc i) fs" using assms(1) by (rule id_take_nth_drop)
  have "filter marker (take i fs @ fs ! i # drop (Suc i) fs) = filter marker (take i fs @ drop (Suc i) fs)"
    using assms(2) by (simp only: filter_append filter.simps if_False)
  then have f: "filter marker fs = filter marker (take i fs @ drop (Suc i) fs)"
    by (simp only: fs [symmetric])
  have len: "length (take i fs @ drop (Suc i) fs) < length fs" using assms(1) by simp
  have sub: "set (take i fs @ drop (Suc i) fs) \<subseteq> set fs"
    by (simp add: set_take_subset set_drop_subset)
  show "marked (take i fs @ drop (Suc i) fs) \<longleftrightarrow> marked fs" by (simp only: marked_filter f [symmetric])
  show "findings_ok fs \<Longrightarrow> findings_ok (take i fs @ drop (Suc i) fs)"
  proof -
    assume ok: "findings_ok fs"
    then have "list_all finding_ok (take i fs @ drop (Suc i) fs)"
      using subsetD [OF sub] unfolding findings_ok_def list_all_iff by auto
    with ok len show ?thesis
      unfolding findings_ok_def f [symmetric] by linarith
  qed
  assume "in_order fs"
  then have "in_order (take i fs @ fs ! i # drop (Suc i) fs)" by (simp only: fs [symmetric])
  then show "in_order (take i fs @ drop (Suc i) fs)" by (auto simp: sorted_wrt_append)
qed

text \<open>Changes that leave the kind and the identifier of every finding alone.\<close>

lemma findings_ok_map:
  assumes "\<And>f. fd_id (g f) = fd_id f" "\<And>f. finding_ok f \<Longrightarrow> finding_ok (g f)"
  shows "findings_ok fs \<Longrightarrow> findings_ok (map g fs)" and "marked (map g fs) \<longleftrightarrow> marked fs"
proof -
  have f: "filter marker (map g fs) = map g (filter marker fs)" by (induction fs) (auto simp: assms(1))
  then show "marked (map g fs) \<longleftrightarrow> marked fs" by (simp add: marked_filter)
  have "list_all finding_ok fs \<Longrightarrow> list_all finding_ok (map g fs)" by (induction fs) (auto simp: assms(2))
  then show "findings_ok fs \<Longrightarrow> findings_ok (map g fs)" unfolding findings_ok_def f by simp
qed

lemma in_order_map:
  assumes "\<And>a b. finding_less (g a) (g b) = finding_less a b"
  shows "in_order (map g fs) = in_order fs"
  by (induction fs) (auto simp: assms)

lemma drop_evidence_simps [simp]:
  "fd_id (drop_evidence f) = fd_id f" "finding_ok f \<Longrightarrow> finding_ok (drop_evidence f)"
  by (auto simp: drop_evidence_def finding_ok_def kind_ok_def evidence_bounded_def)

lemma drop_evidence_less: "finding_less (drop_evidence a) (drop_evidence b) = finding_less a b"
proof -
  have "fd_category (drop_evidence f) = fd_category f" "finding_rank (drop_evidence f) = finding_rank f" for f
    by (simp_all add: drop_evidence_def finding_rank_def)
  then show ?thesis by (simp only: finding_less_def drop_evidence_simps(1))
qed

text \<open>Setting the text of the marker.\<close>

lemma set_first_detail_ok:
  "list_all finding_ok fs \<Longrightarrow> list_all finding_ok (set_first_detail d fs)"
  by (induction fs) (auto simp: finding_ok_def kind_ok_def evidence_bounded_def)

lemma set_first_detail_length [simp]: "length (set_first_detail d fs) = length fs"
  by (induction fs) auto

lemma set_first_detail_marker: "length (filter marker (set_first_detail d fs)) = length (filter marker fs)"
  by (induction fs) auto

lemma set_first_detail_findings:
  shows "findings_ok fs \<Longrightarrow> findings_ok (set_first_detail d fs)" and "marked (set_first_detail d fs) \<longleftrightarrow> marked fs"
proof -
  have e: "filter marker (set_first_detail d fs) = [] \<longleftrightarrow> filter marker fs = []"
    using set_first_detail_marker [of d fs] by (metis length_0_conv)
  show "marked (set_first_detail d fs) \<longleftrightarrow> marked fs" by (simp only: marked_filter e)
  show "findings_ok fs \<Longrightarrow> findings_ok (set_first_detail d fs)"
    unfolding findings_ok_def e set_first_detail_marker set_first_detail_length by (blast intro: set_first_detail_ok)
qed

lemma ensure_ok:
  assumes "findings_ok (co_findings c)"
  shows "findings_ok (co_findings (ensure_truncation_finding c))" and "marked (co_findings (ensure_truncation_finding c))"
proof -
  let ?m = "new_finding truncated_id ''analysis'' ''observed'' ''none'' ''evidence'' ''all'' ''Analysis truncated'' (truncation_detail c) [] None"
  have m: "finding_ok ?m" "fd_id ?m = truncated_id"
    by (simp_all add: new_finding_def finding_ok_def kind_ok_def categories_def kinds_def evidence_bounded_def)
  have "findings_ok (co_findings (ensure_truncation_finding c)) \<and> marked (co_findings (ensure_truncation_finding c))"
  proof (cases "marked (co_findings c)")
    case True
    then show ?thesis using assms
      by (simp add: ensure_truncation_finding_def set_first_detail_findings flip: marked_def)
  next
    case False
    then have none: "filter marker (co_findings c) = []" by (simp add: marked_filter)
    then have len: "length (co_findings c) < max_findings" using assms by (simp add: findings_ok_def)
    then have "co_findings (ensure_truncation_finding c) = co_findings c @ [?m]"
      using False by (simp add: ensure_truncation_finding_def Let_def flip: marked_def)
    then show ?thesis
      using assms none m len by (simp add: findings_ok_def marked_def)
  qed
  then show "findings_ok (co_findings (ensure_truncation_finding c))" "marked (co_findings (ensure_truncation_finding c))"
    by auto
qed

section \<open>Trimming\<close>

text \<open>What a list of findings keeps: it is well formed and in order, and the marker stays or stays away.\<close>

definition list_ok :: "bool \<Rightarrow> finding list \<Rightarrow> bool" where
  "list_ok truncated fs \<longleftrightarrow> findings_ok fs \<and> in_order fs \<and> (marked fs \<longleftrightarrow> truncated)"

lemma list_ok_drop_evidence: "list_ok t fs \<Longrightarrow> list_ok t (map drop_evidence fs)"
  using findings_ok_map [of drop_evidence fs] in_order_map [of drop_evidence fs, OF drop_evidence_less]
  by (simp add: list_ok_def)

lemma list_ok_sort: "findings_ok fs \<Longrightarrow> (marked fs \<longleftrightarrow> t) \<Longrightarrow> list_ok t (sort_findings fs)"
  by (simp add: list_ok_def sort_findings_in_order)

lemma list_ok_remove_at:
  "i < length fs \<Longrightarrow> \<not> marker (fs ! i) \<Longrightarrow> list_ok t fs \<Longrightarrow> list_ok t (take i fs @ drop (Suc i) fs)"
  using remove_at [of i fs] by (simp add: list_ok_def)

lemma trim_headers_only:
  "\<exists>hs. trim_headers json r = r\<lparr>rp_headers := hs\<rparr> \<and> prefix hs (rp_headers r)
     \<and> (max_report_bytes < json (trim_headers json r) \<longrightarrow> hs = [])"
proof (induction json r rule: trim_headers.induct)
  case (1 json r)
  note simps = trim_headers.simps [of json r]
  show ?case
  proof (cases "json r \<le> max_report_bytes \<or> rp_headers r = []")
    case True
    then show ?thesis using simps by (intro exI [of _ "rp_headers r"]) auto
  next
    case False
    show ?thesis
    proof (cases "length (rp_headers r) = 1")
      case True
      then show ?thesis using False simps by (intro exI [of _ "[]"]) auto
    next
      case more: False
      let ?r = "r\<lparr>rp_headers := take (length (rp_headers r) div 2) (rp_headers r)\<rparr>"
      obtain hs where hs: "trim_headers json ?r = ?r\<lparr>rp_headers := hs\<rparr>" "prefix hs (rp_headers ?r)"
        "max_report_bytes < json (trim_headers json ?r) \<longrightarrow> hs = []"
        using 1 [OF False more] by blast
      have "trim_headers json r = trim_headers json ?r" using False more simps by simp
      moreover have "prefix hs (rp_headers r)"
        using hs(2) take_is_prefix [of _ "rp_headers r"] prefix_order.trans by fastforce
      ultimately show ?thesis using hs by (intro exI [of _ hs]) auto
    qed
  qed
qed

text \<open>The place of the finding that is removed: the last one that is not the marker.\<close>

definition last_removable :: "finding list \<Rightarrow> nat" where
  "last_removable fs = (if marker (fs ! (length fs - 1)) then length fs - 1 - 1 else length fs - 1)"

lemma last_removable_less: "1 < length fs \<Longrightarrow> last_removable fs < length fs"
  by (auto simp: last_removable_def)

lemma last_removable_other:
  assumes "1 < length fs" and "length (filter marker fs) \<le> 1"
  shows "\<not> marker (fs ! last_removable fs)"
proof
  assume m: "marker (fs ! last_removable fs)"
  then have last: "marker (fs ! (length fs - 1))" by (auto simp: last_removable_def split: if_splits)
  have at: "marker (fs ! (length fs - 2))" using m last by (simp add: last_removable_def numeral_2_eq_2)
  have ne: "length fs - 2 \<noteq> length fs - 1" using assms(1) by simp
  have "{length fs - 2, length fs - 1} \<subseteq> {i. i < length fs \<and> marker (fs ! i)}"
    using last at assms(1) by auto
  then have "card {length fs - 2, length fs - 1} \<le> length (filter marker fs)"
    unfolding length_filter_conv_card by (intro card_mono) auto
  then show False using assms(2) ne by simp
qed

lemma trim_findings_step:
  "trim_findings json r =
     (if json r \<le> max_report_bytes \<or> length (rp_findings r) \<le> 1 \<or> marker (rp_findings r ! last_removable (rp_findings r)) then r
      else trim_findings json
        (r\<lparr>rp_findings := take (last_removable (rp_findings r)) (rp_findings r)
            @ drop (Suc (last_removable (rp_findings r))) (rp_findings r)\<rparr>))"
  by (subst trim_findings.simps) (simp add: last_removable_def Let_def)

text \<open>Findings are removed one by one, and all but one before the trimming gives up.\<close>

lemma trim_findings_only:
  "\<exists>fs. trim_findings json r = r\<lparr>rp_findings := fs\<rparr> \<and> subseq fs (rp_findings r)
     \<and> (list_ok t (rp_findings r) \<longrightarrow> list_ok t fs \<and> (max_report_bytes < json (trim_findings json r) \<longrightarrow> length fs \<le> 1))"
proof (induction "length (rp_findings r)" arbitrary: r rule: less_induct)
  case less
  let ?fs = "rp_findings r"
  let ?i = "last_removable ?fs"
  let ?gs = "take ?i ?fs @ drop (Suc ?i) ?fs"
  let ?r = "r\<lparr>rp_findings := ?gs\<rparr>"
  show ?case
  proof (cases "json r \<le> max_report_bytes \<or> length ?fs \<le> 1 \<or> marker (?fs ! ?i)")
    case True
    have "length ?fs \<le> 1" if "list_ok t ?fs" "max_report_bytes < json r"
      using True that last_removable_other [of ?fs]
      by (cases "length ?fs \<le> 1") (auto simp: list_ok_def findings_ok_def)
    then show ?thesis using True trim_findings_step [of json r] by (intro exI [of _ ?fs]) auto
  next
    case False
    then have i: "?i < length ?fs" "\<not> marker (?fs ! ?i)" using last_removable_less [of ?fs] by simp_all
    then have lt: "length (rp_findings ?r) < length ?fs" by simp
    have sel: "rp_findings ?r = ?gs" by simp
    obtain fs where fs: "trim_findings json ?r = ?r\<lparr>rp_findings := fs\<rparr>" "subseq fs ?gs"
      "list_ok t ?gs \<longrightarrow> list_ok t fs \<and> (max_report_bytes < json (trim_findings json ?r) \<longrightarrow> length fs \<le> 1)"
      using less [OF lt, unfolded sel] by blast
    have "trim_findings json r = trim_findings json ?r" using False trim_findings_step [of json r] by simp
    moreover have "subseq ?gs ?fs"
    proof -
      have "subseq (take ?i ?fs @ drop (Suc ?i) ?fs) (take ?i ?fs @ drop ?i ?fs)"
        using i(1) by (intro list_emb_append_mono) (simp_all add: Cons_nth_drop_Suc [symmetric] list_emb_Cons)
      then show ?thesis by simp
    qed
    ultimately show ?thesis
      using fs list_ok_remove_at [OF i] subseq_order.trans [OF fs(2)] by (intro exI [of _ fs]) auto
  qed
qed

lemma drop_clients_simps [simp]:
  "rp_analysis (drop_clients r) = rp_analysis r" "rp_resources (drop_clients r) = rp_resources r"
  "rp_headers (drop_clients r) = rp_headers r" "rp_findings (drop_clients r) = rp_findings r"
  "rp_summary (drop_clients r) = rp_summary r"
  by (simp_all add: drop_clients_def)

lemma summed_simps [simp]:
  "rp_analysis (summed r) = rp_analysis r" "rp_resources (summed r) = rp_resources r"
  "rp_headers (summed r) = rp_headers r" "rp_findings (summed r) = rp_findings r"
  "rp_summary (summed r) = summarize (rp_findings r)" "rp_mime_tree (summed r) = rp_mime_tree r"
  by (simp_all add: summed_def)

text \<open>A summary that is computed again does not change.\<close>

lemma summed_same: "rp_summary r = summarize (rp_findings r) \<Longrightarrow> summed r = r"
  by (simp add: summed_def)

text \<open>How a trimmed report compares with the one before, and what is gone from it when it is still too long.\<close>

definition trim_ok :: "(report \<Rightarrow> nat) \<Rightarrow> report \<Rightarrow> report \<Rightarrow> bool" where
  "trim_ok json r0 r \<longleftrightarrow>
     rp_analysis r = rp_analysis r0
     \<and> (rp_resources r = rp_resources r0 \<or> rp_resources r = [])
     \<and> prefix (rp_headers r) (rp_headers r0)
     \<and> subseq (map fd_id (rp_findings r)) (map fd_id (rp_findings r0))
     \<and> (rp_headers r \<noteq> rp_headers r0 \<longrightarrow> rp_resources r = [])
     \<and> (rp_findings r \<noteq> rp_findings r0 \<longrightarrow> rp_resources r = [] \<and> rp_headers r = [])
     \<and> rp_summary r = summarize (rp_findings r)
     \<and> list_ok (marked (rp_findings r0)) (rp_findings r)
     \<and> (max_report_bytes < json r \<longrightarrow>
          rp_resources r = [] \<and> rp_headers r = [] \<and> (\<forall>f\<in>set (rp_findings r). fd_evidence f = [])
          \<and> (json (r\<lparr>rp_summary := rp_summary r0\<rparr>) \<le> max_report_bytes
             \<or> length (rp_findings r) \<le> 1 \<and> rp_mime_tree r = None))"

text \<open>The last stage, on a report without resources and headers.\<close>

lemma trim_last_stage:
  fixes json :: "report \<Rightarrow> nat"
  assumes "list_ok t (rp_findings r)" and "rp_resources r = []" and "rp_headers r = []"
  defines "r5 \<equiv> trim_findings json (r\<lparr>rp_findings := map drop_evidence (rp_findings r)\<rparr>)"
  defines "r' \<equiv> summed (if json r5 \<le> max_report_bytes then r5 else r5\<lparr>rp_mime_tree := None\<rparr>)"
  shows "rp_analysis r' = rp_analysis r" "rp_resources r' = []" "rp_headers r' = []"
    "subseq (map fd_id (rp_findings r')) (map fd_id (rp_findings r))" "list_ok t (rp_findings r')"
    "\<forall>f\<in>set (rp_findings r'). fd_evidence f = []"
    "json (r'\<lparr>rp_summary := rp_summary r\<rparr>) \<le> max_report_bytes \<or> length (rp_findings r') \<le> 1 \<and> rp_mime_tree r' = None"
proof -
  let ?gs = "map drop_evidence (rp_findings r)"
  have sel: "rp_findings (r\<lparr>rp_findings := ?gs\<rparr>) = ?gs" by simp
  obtain fs where r5: "r5 = r\<lparr>rp_findings := ?gs\<rparr>\<lparr>rp_findings := fs\<rparr>" and sub: "subseq fs ?gs"
    and ok: "list_ok t ?gs \<longrightarrow> list_ok t fs \<and> (max_report_bytes < json r5 \<longrightarrow> length fs \<le> 1)"
    using trim_findings_only [of json "r\<lparr>rp_findings := ?gs\<rparr>" t, unfolded sel] unfolding r5_def by blast
  have fs: "rp_findings r' = fs" by (simp add: r'_def r5)
  have ok: "list_ok t fs" "max_report_bytes < json r5 \<longrightarrow> length fs \<le> 1"
    using ok list_ok_drop_evidence [OF assms(1)] by blast+
  show "rp_analysis r' = rp_analysis r" "rp_resources r' = []" "rp_headers r' = []"
    using assms(2,3) by (simp_all add: r'_def r5)
  have ids: "map fd_id ?gs = map fd_id (rp_findings r)" by simp
  show "subseq (map fd_id (rp_findings r')) (map fd_id (rp_findings r))"
    using subseq_map [OF sub, of fd_id] unfolding fs ids .
  show "list_ok t (rp_findings r')" unfolding fs by (rule ok)
  show "\<forall>f\<in>set (rp_findings r'). fd_evidence f = []"
  proof
    fix f
    assume "f \<in> set (rp_findings r')"
    then have "f \<in> set ?gs" using list_emb_set [OF sub] fs by metis
    then show "fd_evidence f = []" by (auto simp: drop_evidence_def)
  qed
  have "r5\<lparr>rp_summary := rp_summary r\<rparr> = r5" by (simp add: r5)
  then have "json (r'\<lparr>rp_summary := rp_summary r\<rparr>) \<le> max_report_bytes" if "json r5 \<le> max_report_bytes"
    using that by (simp add: r'_def summed_def)
  moreover have "rp_mime_tree r' = None" if "\<not> json r5 \<le> max_report_bytes" using that by (simp add: r'_def)
  ultimately show "json (r'\<lparr>rp_summary := rp_summary r\<rparr>) \<le> max_report_bytes \<or> length (rp_findings r') \<le> 1 \<and> rp_mime_tree r' = None"
    using ok(2) fs by (cases "json r5 \<le> max_report_bytes") auto
qed

lemma trim_report_ok:
  assumes "findings_ok (rp_findings r)" "in_order (rp_findings r)" and sum: "rp_summary r = summarize (rp_findings r)"
  shows "trim_ok json r (trim_report json r)"
proof -
  define r1 where "r1 = drop_clients r"
  define r2 where "r2 = r1\<lparr>rp_resources := []\<rparr>"
  define r3 where "r3 = trim_headers json r2"
  define r4 where "r4 = r3\<lparr>rp_mime_tree := map_option trim_mime_tree (rp_mime_tree r3)\<rparr>"
  define r5 where "r5 = trim_findings json (r4\<lparr>rp_findings := map drop_evidence (rp_findings r4)\<rparr>)"
  define r6 where "r6 = summed (if json r5 \<le> max_report_bytes then r5 else r5\<lparr>rp_mime_tree := None\<rparr>)"
  have ok: "list_ok (marked (rp_findings r)) (rp_findings r)" using assms(1,2) by (simp add: list_ok_def)
  obtain hs where hs: "r3 = r2\<lparr>rp_headers := hs\<rparr>" "prefix hs (rp_headers r2)" "max_report_bytes < json r3 \<longrightarrow> hs = []"
    using trim_headers_only [of json r2] unfolding r3_def by blast
  have kept: "rp_findings q = rp_findings r" "rp_summary q = rp_summary r" "rp_analysis q = rp_analysis r" "summed q = q"
    if "q \<in> {r, r1, r2, r3, r4}" for q
    using that sum by (auto simp: r1_def r2_def r4_def hs(1) summed_def)
  have early: "trim_ok json r q" if "q \<in> {r, r1, r2, r3, r4}" "json q \<le> max_report_bytes"
    "rp_resources q = rp_resources r \<and> rp_headers q = rp_headers r \<or> rp_resources q = [] \<and> prefix (rp_headers q) (rp_headers r)" for q
    using that(2,3) kept [OF that(1)] ok sum unfolding trim_ok_def by (auto simp: leD)
  have late: "trim_ok json r r6" if "max_report_bytes < json r3"
  proof -
    have h: "rp_headers r4 = []" "rp_resources r4 = []" "rp_findings r4 = rp_findings r" "rp_summary r4 = rp_summary r"
      "rp_analysis r4 = rp_analysis r"
      using hs(3) that kept [of r4] by (simp_all add: r4_def hs(1) r2_def)
    note last = trim_last_stage [of "marked (rp_findings r)" r4 json, folded r5_def, folded r6_def, unfolded h, OF ok refl refl]
    then show ?thesis unfolding trim_ok_def by (simp add: r6_def)
  qed
  have p: "prefix hs (rp_headers r)" using hs(2) by (simp add: r2_def r1_def)
  have "trim_report json r =
      (if json r \<le> max_report_bytes then r else if json r1 \<le> max_report_bytes then r1
       else if json r2 \<le> max_report_bytes then r2 else if json r3 \<le> max_report_bytes then r3
       else if json r4 \<le> max_report_bytes then r4 else r6)"
    unfolding trim_report_def Let_def by (simp add: kept(4) r6_def flip: r1_def r2_def r3_def r4_def r5_def)
  moreover have "trim_ok json r q" if "q \<in> {r, r1, r2, r3, r4}" "json q \<le> max_report_bytes" for q
    using that(1) p by (intro early [OF that]) (auto simp: r1_def r2_def r4_def hs(1))
  ultimately show ?thesis using late by auto
qed

text \<open>The parts are given up in their order, and each only when giving up those before it was not enough.\<close>

lemma remove_last_other:
  assumes "1 < length fs"
  shows "\<not> marker (fs ! last_removable fs) \<Longrightarrow>
    prefix (filter (\<lambda>f. \<not> marker f) (take (last_removable fs) fs @ drop (Suc (last_removable fs)) fs)) (filter (\<lambda>f. \<not> marker f) fs)"
proof -
  let ?i = "last_removable fs"
  assume "\<not> marker (fs ! ?i)"
  have "list_all marker (drop (Suc ?i) fs)"
  proof (cases "marker (fs ! (length fs - 1))")
    case True
    then have i: "Suc ?i = length fs - 1" using assms by (simp add: last_removable_def)
    have "drop (length fs - 1) fs = [fs ! (length fs - 1)]"
      using assms Cons_nth_drop_Suc [of "length fs - 1" fs] by simp
    then show ?thesis using True i by simp
  qed (use assms in \<open>simp add: last_removable_def\<close>)
  then have "filter (\<lambda>f. \<not> marker f) (drop (Suc ?i) fs) = []" by (simp add: filter_empty_conv list_all_iff)
  moreover have "filter (\<lambda>f. \<not> marker f) fs = filter (\<lambda>f. \<not> marker f) (take ?i fs) @ filter (\<lambda>f. \<not> marker f) (drop ?i fs)"
    by (metis append_take_drop_id filter_append)
  ultimately show ?thesis by simp
qed

lemma trim_findings_prefix:
  "prefix (filter (\<lambda>f. \<not> marker f) (rp_findings (trim_findings json r))) (filter (\<lambda>f. \<not> marker f) (rp_findings r))"
proof (induction "length (rp_findings r)" arbitrary: r rule: less_induct)
  case less
  let ?fs = "rp_findings r"
  let ?i = "last_removable ?fs"
  show ?case
  proof (cases "json r \<le> max_report_bytes \<or> length ?fs \<le> 1 \<or> marker (?fs ! ?i)")
    case True
    then show ?thesis using trim_findings_step [of json r] by auto
  next
    case False
    let ?r = "r\<lparr>rp_findings := take ?i ?fs @ drop (Suc ?i) ?fs\<rparr>"
    have "?i < length ?fs" using False last_removable_less [of ?fs] by simp
    then have "length (rp_findings ?r) < length ?fs" by simp
    from less [OF this] have "prefix (filter (\<lambda>f. \<not> marker f) (rp_findings (trim_findings json ?r)))
        (filter (\<lambda>f. \<not> marker f) (take ?i ?fs @ drop (Suc ?i) ?fs))" by simp
    moreover have "prefix (filter (\<lambda>f. \<not> marker f) (take ?i ?fs @ drop (Suc ?i) ?fs)) (filter (\<lambda>f. \<not> marker f) ?fs)"
      using False by (intro remove_last_other) auto
    moreover have "trim_findings json r = trim_findings json ?r" using False trim_findings_step [of json r] by simp
    ultimately show ?thesis by (metis (no_types, lifting) prefix_order.trans)
  qed
qed

lemma trim_findings_fits: "json r \<le> max_report_bytes \<Longrightarrow> trim_findings json r = r"
  using trim_findings_step [of json r] by simp

lemma trim_headers_fits: "json r \<le> max_report_bytes \<Longrightarrow> trim_headers json r = r"
  using trim_headers.simps [of json r] by simp

text \<open>The report without the answers of clients, without resources too, and without headers and long texts of the tree too.\<close>

definition without_resources :: "report \<Rightarrow> report" where
  "without_resources r = (drop_clients r)\<lparr>rp_resources := []\<rparr>"

definition without_headers :: "report \<Rightarrow> report" where
  "without_headers r =
     (without_resources r)\<lparr>rp_headers := [], rp_mime_tree := map_option trim_mime_tree (rp_mime_tree r)\<rparr>"

definition without_evidence :: "report \<Rightarrow> report" where
  "without_evidence r = (without_headers r)\<lparr>rp_findings := map drop_evidence (rp_findings r)\<rparr>"

definition given_up_in_order :: "(report \<Rightarrow> nat) \<Rightarrow> report \<Rightarrow> report \<Rightarrow> bool" where
  "given_up_in_order json r s \<longleftrightarrow>
     (json r \<le> max_report_bytes \<longrightarrow> s = r)
     \<and> (rp_resources s \<noteq> rp_resources r \<longrightarrow> max_report_bytes < json (drop_clients r))
     \<and> (rp_headers s \<noteq> rp_headers r \<longrightarrow> max_report_bytes < json (without_resources r))
     \<and> (rp_findings s \<noteq> rp_findings r \<longrightarrow> max_report_bytes < json (without_headers r))
     \<and> (length (rp_findings s) < length (rp_findings r) \<longrightarrow>
          max_report_bytes < json (without_evidence r) \<and> list_all (\<lambda>f. fd_evidence f = []) (rp_findings s))
     \<and> prefix (filter (\<lambda>i. i \<noteq> truncated_id) (map fd_id (rp_findings s)))
         (filter (\<lambda>i. i \<noteq> truncated_id) (map fd_id (rp_findings r)))
     \<and> (rp_mime_tree s = None \<longrightarrow> rp_mime_tree r = None \<or> length (rp_findings s) \<le> 1)"

lemma trim_given_up:
  assumes "findings_ok (rp_findings r)" "in_order (rp_findings r)" and sum: "rp_summary r = summarize (rp_findings r)"
  shows "given_up_in_order json r (trim_report json r)"
proof -
  define r3 where "r3 = trim_headers json (without_resources r)"
  define r4 where "r4 = r3\<lparr>rp_mime_tree := map_option trim_mime_tree (rp_mime_tree r3)\<rparr>"
  define r5 where "r5 = trim_findings json (r4\<lparr>rp_findings := map drop_evidence (rp_findings r4)\<rparr>)"
  define r6 where "r6 = summed (if json r5 \<le> max_report_bytes then r5 else r5\<lparr>rp_mime_tree := None\<rparr>)"
  obtain hs where hs: "r3 = (without_resources r)\<lparr>rp_headers := hs\<rparr>" "max_report_bytes < json r3 \<longrightarrow> hs = []"
    using trim_headers_only [of json "without_resources r"] unfolding r3_def by blast
  have tree: "rp_mime_tree (drop_clients r) = rp_mime_tree r" by (simp add: drop_clients_def)
  have same: "summed q = q" if "q \<in> {r, drop_clients r, without_resources r, r3, r4}" for q
    using that sum by (auto simp: without_resources_def r4_def hs(1) summed_def)
  have chain: "trim_report json r =
      (if json r \<le> max_report_bytes then r else if json (drop_clients r) \<le> max_report_bytes then drop_clients r
       else if json (without_resources r) \<le> max_report_bytes then without_resources r
       else if json r3 \<le> max_report_bytes then r3 else if json r4 \<le> max_report_bytes then r4 else r6)"
    unfolding trim_report_def Let_def
    by (simp add: same r6_def flip: without_resources_def r3_def r4_def r5_def)
  show ?thesis
  proof (cases "json r3 \<le> max_report_bytes \<or> json r4 \<le> max_report_bytes \<or> json (without_resources r) \<le> max_report_bytes
      \<or> json (drop_clients r) \<le> max_report_bytes \<or> json r \<le> max_report_bytes")
    case True
    then show ?thesis
      unfolding chain given_up_in_order_def
      by (auto simp: without_resources_def r4_def hs(1) tree)
  next
    case False
    then have long: "max_report_bytes < json r" "max_report_bytes < json (drop_clients r)"
      "max_report_bytes < json (without_resources r)" "max_report_bytes < json r4" "hs = []"
      using hs(2) by auto
    have r4: "r4 = without_headers r" using long(5) by (simp add: r4_def hs(1) without_headers_def without_resources_def tree)
    have bare: "r4\<lparr>rp_findings := map drop_evidence (rp_findings r4)\<rparr> = without_evidence r"
      by (simp add: r4 without_evidence_def without_headers_def without_resources_def)
    have five: "r5 = trim_findings json (without_evidence r)" by (simp add: r5_def bare)
    obtain fs where fs: "r5 = (without_evidence r)\<lparr>rp_findings := fs\<rparr>" "subseq fs (map drop_evidence (rp_findings r))"
      "max_report_bytes < json r5 \<longrightarrow> length fs \<le> 1"
    proof -
      have ok: "list_ok (marked (rp_findings r)) (rp_findings (without_evidence r))"
        using list_ok_drop_evidence [of "marked (rp_findings r)" "rp_findings r"] assms(1,2)
        by (simp add: list_ok_def without_evidence_def)
      have sel: "rp_findings (without_evidence r) = map drop_evidence (rp_findings r)" by (simp add: without_evidence_def)
      show thesis
        using trim_findings_only [of json "without_evidence r" "marked (rp_findings r)", folded five] ok that unfolding sel by blast
    qed
    have six: "rp_findings r6 = fs" by (simp add: r6_def fs(1))
    have "length fs = length (rp_findings r)" if "json (without_evidence r) \<le> max_report_bytes"
    proof -
      have "rp_findings r5 = rp_findings (without_evidence r)" using trim_findings_fits [of json "without_evidence r"] that five by simp
      then show ?thesis by (simp add: fs(1)) (simp add: without_evidence_def)
    qed
    then have "length fs < length (rp_findings r) \<Longrightarrow> max_report_bytes < json (without_evidence r)" by fastforce
    moreover have "list_all (\<lambda>f. fd_evidence f = []) fs"
      unfolding list_all_iff
    proof
      fix f
      assume "f \<in> set fs"
      then have "f \<in> set (map drop_evidence (rp_findings r))" using list_emb_set [OF fs(2)] by metis
      then show "fd_evidence f = []" by (auto simp: drop_evidence_def)
    qed
    moreover have "prefix (filter (\<lambda>i. i \<noteq> truncated_id) (map fd_id fs)) (filter (\<lambda>i. i \<noteq> truncated_id) (map fd_id (rp_findings r)))"
    proof -
      have "prefix (filter (\<lambda>f. \<not> marker f) fs) (filter (\<lambda>f. \<not> marker f) (map drop_evidence (rp_findings r)))"
        using trim_findings_prefix [of json "without_evidence r", folded five] by (simp add: fs(1) without_evidence_def)
      then have "prefix (map fd_id (filter (\<lambda>f. \<not> marker f) fs)) (map fd_id (filter (\<lambda>f. \<not> marker f) (map drop_evidence (rp_findings r))))"
        by (rule map_mono_prefix)
      then show ?thesis by (simp add: filter_map comp_def)
    qed
    moreover have "rp_mime_tree r6 = None \<longrightarrow> rp_mime_tree r = None \<or> length fs \<le> 1"
      using fs(1,3) by (auto simp: r6_def without_evidence_def without_headers_def)
    moreover have "trim_report json r = r6" using False chain by simp
    ultimately show ?thesis using long six by (simp add: given_up_in_order_def r4)
  qed
qed

section \<open>Causes of truncation\<close>

lemma document_causes_known:
  "mime_parse L raw lim = Inr d \<Longrightarrow> set (doc_causes d) \<subseteq> set truncation_cause_order"
  by (auto simp: mime_parse_def parse_indexed_def parse_semantic_def new_document_def causes_of_def Let_def
      split: if_splits option.splits sum.splits prod.splits)

lemma normalize_known: "v \<in> set truncation_cause_order \<Longrightarrow> normalize_cause u v \<in> set truncation_order"
proof -
  assume v: "v \<in> set truncation_cause_order"
  then have "v \<noteq> [] \<and> graphic (hd v) \<and> graphic (last v) \<and> v \<in> set truncation_order"
    unfolding truncation_cause_order_def truncation_order_def by (auto simp: graphic_def byte_def chr_eval)
  then have "trim_space v = v \<and> v \<in> set truncation_order" using trim_space_id [of v] by simp
  then have "find (\<lambda>known. to_lower u known = to_lower u (trim_space v)) truncation_order \<noteq> None"
    by (auto simp: find_None_iff)
  then obtain k where k: "find (\<lambda>known. to_lower u known = to_lower u (trim_space v)) truncation_order = Some k" by blast
  then have "k \<in> set truncation_order" by (auto simp: find_Some_iff)
  then show ?thesis using k by (simp add: normalize_cause_def Let_def)
qed

lemma document_causes_ok: "mime_parse L raw lim = Inr d \<Longrightarrow> collector_ok (document_causes u d)"
proof -
  assume "mime_parse L raw lim = Inr d"
  then have "set (doc_causes d) \<subseteq> set truncation_cause_order" by (rule document_causes_known)
  then have "collector_ok (fold (\<lambda>cause. note_cause (normalize_cause u cause)) (doc_causes d) new_collector)"
    by (intro fold_ok [where P = collector_ok]) (auto simp: collector_ok_new normalize_known)
  then show ?thesis using collector_ok_new by (simp add: document_causes_def Let_def)
qed

lemma select_bodies_ok: "collector_ok c \<Longrightarrow> collector_ok (snd (select_bodies a c))"
proof -
  have "collector_ok (snd (bounded_legacy_body v c))" if "collector_ok c" for v c
    using that by (auto simp: bounded_legacy_body_def Let_def split: option.split)
  then show "collector_ok c \<Longrightarrow> collector_ok (snd (select_bodies a c))"
    by (simp add: select_bodies_def Let_def split_beta)
qed

lemma compat_cause:
  "compat_loop u full failed ts st = (st', cause) \<Longrightarrow> cause \<in> {[], ''HTML token bytes'', ''HTML nodes''}"
  by (induction u full failed ts st rule: compat_loop.induct) (auto simp: Let_def split: if_splits)

lemma note_compatibility_ok:
  assumes "collector_ok c"
  shows "collector_ok (note_compatibility (analyze_compatibility u tokens data raw) c)"
proof -
  have "hc_truncation_cause h \<in> {[], ''style bytes'', ''HTML token bytes'', ''HTML nodes''}"
    if "analyze_compatibility u tokens data raw = Some h" for h
    using that compat_cause by (force simp: analyze_compatibility_def Let_def split: if_splits prod.splits)
  then show ?thesis
    using assms by (auto simp: note_compatibility_def Let_def unavailable_order_def split: option.split)
qed

section \<open>The report of a collector\<close>

lemma cut_findings_ok:
  assumes "collector_ok c"
  shows "collector_ok (cut_findings c)" and "length (co_findings (cut_findings c)) < max_findings"
proof -
  have pos: "0 < max_findings" by (simp add: max_findings_def)
  have "list_all P (take n xs)" if "list_all P xs" for P :: "finding \<Rightarrow> bool" and n xs
    using that set_take_subset [of n xs] by (auto simp: list_all_iff)
  then show "collector_ok (cut_findings c)"
    using assms by (auto simp: cut_findings_def collector_ok_def note_cause_def)
  show "length (co_findings (cut_findings c)) < max_findings"
    using pos by (simp add: cut_findings_def note_cause_def)
qed

lemma note_compatibility_findings [simp]: "co_findings (note_compatibility hc c) = co_findings c"
  by (simp add: note_compatibility_def note_cause_def add_unavailable_def Let_def split: option.split)

lemma ensure_keeps [simp]:
  "co_resources (ensure_truncation_finding c) = co_resources c" "co_causes (ensure_truncation_finding c) = co_causes c"
  "co_unavailable (ensure_truncation_finding c) = co_unavailable c"
  by (simp_all add: ensure_truncation_finding_def Let_def)

text \<open>The resources of a report, which a trimmed report may have lost, and its families without evidence.\<close>

definition resources_ok :: "resource list \<Rightarrow> bool" where
  "resources_ok rs \<longleftrightarrow> length rs \<le> max_resources \<and> list_all resource_bounded rs \<and> distinct (map rs_key rs)"

definition analysis_ok :: "analysis \<Rightarrow> bool" where
  "analysis_ok an \<longleftrightarrow> subseq (an_unavailable an) unavailable_order \<and> (an_truncated an \<longrightarrow> an_state an = ''partial'')"

text \<open>What is left of a report that could not be made short enough.\<close>

definition bare :: "report \<Rightarrow> bool" where
  "bare r \<longleftrightarrow> rp_resources r = [] \<and> rp_headers r = [] \<and> list_all (\<lambda>f. fd_evidence f = []) (rp_findings r)"

text \<open>What a reader of a report may rely on.\<close>

definition report_ok :: "report \<Rightarrow> bool" where
  "report_ok r \<longleftrightarrow>
     list_all finding_ok (rp_findings r) \<and> length (rp_findings r) \<le> max_findings
     \<and> sorted_wrt (\<lambda>f g. \<not> finding_less g f) (rp_findings r)
     \<and> length (filter (\<lambda>f. fd_id f = truncated_id) (rp_findings r)) = (if an_truncated (rp_analysis r) then 1 else 0)
     \<and> rp_summary r = summarize (rp_findings r)
     \<and> summary_total (rp_summary r) = int (length (rp_findings r))
     \<and> resources_ok (rp_resources r) \<and> analysis_ok (rp_analysis r)"

lemma report_okI:
  assumes "list_ok (an_truncated (rp_analysis r)) (rp_findings r)" "rp_summary r = summarize (rp_findings r)"
    "resources_ok (rp_resources r)" "analysis_ok (rp_analysis r)"
  shows "report_ok r"
proof -
  have f: "list_all finding_ok (rp_findings r)" "length (rp_findings r) \<le> max_findings" "in_order (rp_findings r)"
    "length (filter marker (rp_findings r)) \<le> 1" "filter marker (rp_findings r) \<noteq> [] \<longleftrightarrow> an_truncated (rp_analysis r)"
    using assms(1) by (simp_all add: list_ok_def findings_ok_def marked_filter)
  have "length (filter marker (rp_findings r)) = (if an_truncated (rp_analysis r) then 1 else 0)"
    using f(4,5) by (cases "filter marker (rp_findings r)") auto
  then show ?thesis using f assms(2-4) summarize_total [OF f(1)] by (simp add: report_ok_def)
qed

lemma resources_ok_collector: "collector_ok c \<Longrightarrow> resources_ok (co_resources c)"
  using indexed_distinct [of "co_index c" "map rs_key (co_resources c)"] by (simp add: collector_ok_def resources_ok_def)

lemma resources_ok_Nil: "resources_ok []"
  by (simp add: resources_ok_def)

text \<open>What is known of the collector once its findings are cut off, marked and sorted.\<close>

definition collected :: "collector \<Rightarrow> bool" where
  "collected c \<longleftrightarrow> list_ok (co_causes c \<noteq> {}) (co_findings c) \<and> resources_ok (co_resources c)"

lemma collected_finish:
  assumes "collector_ok c" and "length (co_findings c) < max_findings"
  defines "c' \<equiv> if co_causes c \<noteq> {} then ensure_truncation_finding c else c"
  shows "collected (c'\<lparr>co_findings := sort_findings (co_findings c')\<rparr>)"
proof -
  have "filter marker (co_findings c) = []" and all: "list_all finding_ok (co_findings c)"
    using assms(1) by (auto simp: collector_ok_def list_all_iff filter_empty_conv)
  then have ok: "findings_ok (co_findings c)" and m: "\<not> marked (co_findings c)"
    using assms(2) by (simp_all add: findings_ok_def marked_filter)
  have "findings_ok (co_findings c')" "marked (co_findings c') \<longleftrightarrow> co_causes c' \<noteq> {}"
    using ok m ensure_ok [OF ok] by (auto simp: c'_def)
  then show ?thesis
    using resources_ok_collector [OF assms(1)] by (simp add: collected_def list_ok_sort c'_def)
qed

lemma unavailable_families_subseq: "subseq (unavailable_families c) unavailable_order"
  by (simp add: unavailable_families_def subseq_filter_left)

lemma first_report_simps:
  "rp_findings (first_report E a hc c) = co_findings c" "rp_summary (first_report E a hc c) = summarize (co_findings c)"
  "rp_resources (first_report E a hc c) = co_resources c"
  "an_truncated (rp_analysis (first_report E a hc c)) \<longleftrightarrow> co_causes c \<noteq> {}"
  "analysis_ok (rp_analysis (first_report E a hc c))"
  by (simp_all add: first_report_def Let_def analysis_ok_def truncated_state_def unavailable_families_subseq)

lemma first_report_ok: "collected c \<Longrightarrow> report_ok (first_report E a hc c)"
  by (rule report_okI) (simp_all add: first_report_simps collected_def)

lemma shorter_report_ok:
  fixes json :: "report \<Rightarrow> nat" and E :: "('h, 'e, 'c) inspect_lib" and a :: "('h, 'e) inspected"
    and hc :: "html_compatibility option"
  assumes "collected c"
  defines "s \<equiv> shorter_report json c (first_report E a hc c)"
  shows "report_ok s" and "max_report_bytes < json s \<Longrightarrow> bare s"
proof -
  define c' where "c' = ensure_truncation_finding (note_cause ''report bytes'' c)"
  define r where "r = (first_report E a hc c)\<lparr>rp_findings := sort_findings (co_findings c'),
    rp_analysis := (rp_analysis (first_report E a hc c))\<lparr>an_state := ''partial'', an_truncated := True,
      an_unavailable := unavailable_families c'\<rparr>,
    rp_resources := co_resources c', rp_summary := summarize (sort_findings (co_findings c'))\<rparr>"
  have shorter: "s = trim_report json r"
    by (simp add: s_def shorter_report_def Let_def r_def c'_def)
  have "findings_ok (co_findings (note_cause ''report bytes'' c))"
    using assms by (simp add: collected_def list_ok_def note_cause_def)
  then have ok: "findings_ok (co_findings c')" "marked (co_findings c')"
    unfolding c'_def by (rule ensure_ok)+
  have res: "resources_ok (rp_resources r)"
    using assms by (simp add: r_def c'_def collected_def note_cause_def)
  have an: "analysis_ok (rp_analysis r)" "an_truncated (rp_analysis r)"
    by (simp_all add: r_def analysis_ok_def unavailable_families_subseq)
  have "findings_ok (rp_findings r)" "in_order (rp_findings r)" "rp_summary r = summarize (rp_findings r)" "marked (rp_findings r)"
    using ok by (simp_all add: r_def sort_findings_in_order)
  then have t: "trim_ok json r (trim_report json r)" "marked (rp_findings r)" using trim_report_ok by blast+
  show "max_report_bytes < json s \<Longrightarrow> bare s"
    using t(1) unfolding shorter by (simp add: trim_ok_def bare_def list_all_iff)
  show "report_ok s" unfolding shorter
  proof (rule report_okI)
    show "list_ok (an_truncated (rp_analysis (trim_report json r))) (rp_findings (trim_report json r))"
      using t an(2) by (simp add: trim_ok_def)
    show "resources_ok (rp_resources (trim_report json r))"
      using t(1) res resources_ok_Nil unfolding trim_ok_def by metis
  qed (use t(1) an(1) in \<open>simp_all add: trim_ok_def\<close>)
qed

lemma finish_report_ok:
  assumes "collector_ok c"
  shows "case finish_report E data a c of
     Inr r \<Rightarrow> report_ok r \<and> il_json_size E r \<le> max_report_bytes
   | Inl (Cancelled x) \<Rightarrow> \<exists>p. il_context E p = Some x
   | Inl (Parse_Failed e) \<Rightarrow> False
   | Inl Report_Too_Long \<Rightarrow> \<exists>r. bare r \<and> max_report_bytes < il_json_size E r"
proof (cases "il_context E Before_Sort")
  case (Some x)
  then show ?thesis by (auto simp: finish_report_def)
next
  case None
  define hc where "hc = analyze_compatibility (il_unicode E) (il_tokens E) data (case in_html a of None \<Rightarrow> [] | Some h \<Rightarrow> h)"
  define c1 where "c1 = note_compatibility hc (cut_findings c)"
  define c2 where "c2 = (if co_causes c1 \<noteq> {} then ensure_truncation_finding c1 else c1)"
  define c3 where "c3 = c2\<lparr>co_findings := sort_findings (co_findings c2)\<rparr>"
  have "collector_ok c1" unfolding c1_def hc_def by (intro note_compatibility_ok cut_findings_ok assms)
  moreover have "length (co_findings c1) < max_findings" using cut_findings_ok(2) [OF assms] by (simp add: c1_def)
  ultimately have c3: "collected c3" unfolding c3_def c2_def by (rule collected_finish)
  define r where "r = first_report E a hc c3"
  define r' where "r' = (if max_report_bytes < il_json_size E r then shorter_report (il_json_size E) c3 r else r)"
  have "report_ok r'" "max_report_bytes < il_json_size E r' \<Longrightarrow> bare r'"
    using first_report_ok [OF c3, of E a hc] shorter_report_ok [OF c3, of "il_json_size E" E a hc]
    by (auto simp: r'_def r_def split: if_splits)
  moreover have "finish_report E data a c =
      (case il_context E After_Sort of
         Some x \<Rightarrow> Inl (Cancelled x)
       | None \<Rightarrow> if max_report_bytes < il_json_size E r' then Inl Report_Too_Long else Inr r')"
    unfolding finish_report_def None option.case Let_def
    by (simp only: flip: hc_def c1_def c2_def c3_def r_def r'_def)
  ultimately show ?thesis by (auto split: option.split)
qed

section \<open>Every analysis\<close>

lemma html_cancelled: "html_loop E path failed ts st = Html_Cancelled x \<Longrightarrow> \<exists>p. il_context E p = Some x"
  by (induction E path failed ts st rule: html_loop.induct) (auto simp: Let_def split: if_splits option.splits)

lemma content_cancelled: "analyze_content E a c = Content_Cancelled x \<Longrightarrow> \<exists>p. il_context E p = Some x"
  by (auto simp: analyze_content_def analyze_html_def Let_def split_beta split: option.splits html_result.splits
      dest: html_cancelled)

lemma raw_cancelled: "run_raw_rules E a c = Inl x \<Longrightarrow> \<exists>p. il_context E p = Some x"
  by (auto simp: run_raw_rules_def Let_def split: option.splits if_splits)

text \<open>The HTML body that is inspected.\<close>

definition selected_html :: "('h, 'e, 'c) inspect_lib \<Rightarrow> inspect_input \<Rightarrow> ('h, 'e) document \<Rightarrow> bytes option" where
  "selected_html E input d =
     (let c = document_causes (il_unicode E) d in in_html (fst (select_bodies (inspected_of input d c) c)))"

text \<open>The outcome of an analysis; \<open>parsed\<close> is what the parser returned.\<close>

definition outcome_ok ::
  "('h, 'e, 'c) inspect_lib \<Rightarrow> invariant_err + ('h, 'e) document \<Rightarrow> inspect_input \<Rightarrow> 'c analyze_result \<Rightarrow> bool" where
  "outcome_ok E parsed input res =
     (case res of
        Report r \<Rightarrow> report_ok r \<and> il_json_size E r \<le> max_report_bytes
      | Failed (Cancelled x) \<Rightarrow> \<exists>p. il_context E p = Some x
      | Failed (Parse_Failed e) \<Rightarrow> parsed = Inl e
      | Failed Report_Too_Long \<Rightarrow> \<exists>r. bare r \<and> max_report_bytes < il_json_size E r
      | Panic \<Rightarrow> \<exists>d html. parsed = Inr d \<and> selected_html E input d = Some html \<and> 32 < opens (fst (il_tokens E html)))"

lemma outcome_cancelled: "il_context E p = Some x \<Longrightarrow> outcome_ok E parsed input (Failed (Cancelled x))"
  by (auto simp: outcome_ok_def)

lemma finish_outcome:
  assumes "collector_ok c"
  shows "outcome_ok E parsed input (finish_analysis E data a c)"
proof -
  define c1 where "c1 = run_privacy_rules a (run_content_rules a c)"
  define c2 where "c2 = add_attachment_resources (in_doc a) (run_compatibility_rules a c1)"
  have c2: "collector_ok c2" unfolding c2_def c1_def by (intro rule_ok assms)
  have "outcome_ok E parsed input (case finish_report E data a c2 of Inl e \<Rightarrow> Failed e | Inr r \<Rightarrow> Report r)"
    using finish_report_ok [OF c2, of E data a]
    by (cases "finish_report E data a c2" rule: sum.exhaust) (auto simp: outcome_ok_def split: inspect_err.splits)
  then show ?thesis
    unfolding finish_analysis_def Let_def
    by (auto simp flip: c1_def c2_def intro: outcome_cancelled split: option.split)
qed

lemma document_outcome:
  assumes "mime_parse L raw lim = Inr d"
  shows "outcome_ok E (Inr d) input (analyze_document E data input d)"
proof -
  define c0 where "c0 = document_causes (il_unicode E) d"
  define a where "a = fst (select_bodies (inspected_of input d c0) c0)"
  define c1 where "c1 = run_analysis_rules E a (snd (select_bodies (inspected_of input d c0) c0))"
  have c1: "collector_ok c1"
    unfolding c1_def c0_def by (intro rule_ok select_bodies_ok document_causes_ok [OF assms])
  have html: "selected_html E input d = in_html a" by (simp add: selected_html_def a_def c0_def Let_def)
  have content: "outcome_ok E (Inr d) input
      (case analyze_content E a c of
         Content_Panic \<Rightarrow> Panic
       | Content_Cancelled x \<Rightarrow> Failed (Cancelled x)
       | Content facts c \<Rightarrow> finish_analysis E data (a\<lparr>in_facts := facts\<rparr>) c)"
    if c: "collector_ok c" for c
  proof (cases "analyze_content E a c")
    case (Content facts c')
    then show ?thesis using finish_outcome [OF content_ok [OF c Content]] by simp
  next
    case (Content_Cancelled x)
    then show ?thesis using content_cancelled [OF Content_Cancelled] by (auto intro: outcome_cancelled)
  next
    case Content_Panic
    then show ?thesis by (rule content_panics) (simp add: Content_Panic outcome_ok_def html)
  qed
  have raw: "outcome_ok E (Inr d) input
      (case run_raw_rules E a c1 of
         Inl x \<Rightarrow> Failed (Cancelled x)
       | Inr c \<Rightarrow>
           (case analyze_content E a c of
              Content_Panic \<Rightarrow> Panic
            | Content_Cancelled x \<Rightarrow> Failed (Cancelled x)
            | Content facts c \<Rightarrow> finish_analysis E data (a\<lparr>in_facts := facts\<rparr>) c))"
  proof (cases "run_raw_rules E a c1")
    case (Inl x)
    then show ?thesis using raw_cancelled [OF Inl] by (auto intro: outcome_cancelled)
  next
    case (Inr c)
    then show ?thesis using content [OF raw_rules_ok [OF c1 Inr]] by simp
  qed
  show ?thesis
    unfolding analyze_document_def Let_def split_beta
    unfolding c0_def [symmetric] unfolding a_def [symmetric] unfolding c1_def [symmetric]
    using raw by (auto intro: outcome_cancelled split: option.split)
qed

text \<open>
  C24. What \<open>Analyze\<close> returns, for every message, every library, every tokenizer and every behaviour of the
  context.  An error is the cancellation the context reported, the error of the MIME parser, or a report that is too
  long without resources, headers and evidence; a panic needs an HTML body with more than 32 start tags.
  A report is at most 4 MiB long and is well formed: at most 2000 findings in their order, of the known categories and
  outcomes, with at most 20 pieces of evidence of 200 bytes each; the marker of truncation is there exactly once
  when the analysis is truncated, and then the state is partial; the summary counts every finding once; at most
  2000 distinct resources.
\<close>

theorem analysis_is_well_formed:
  "case analyze E data input of
     Report r \<Rightarrow> report_ok r \<and> il_json_size E r \<le> max_report_bytes
   | Failed (Cancelled x) \<Rightarrow> \<exists>p. il_context E p = Some x
   | Failed (Parse_Failed e) \<Rightarrow> mime_parse (il_mime E) (ii_raw input) inspection_limits = Inl e
   | Failed Report_Too_Long \<Rightarrow> \<exists>r. bare r \<and> max_report_bytes < il_json_size E r
   | Panic \<Rightarrow>
       \<exists>d html. mime_parse (il_mime E) (ii_raw input) inspection_limits = Inr d \<and> selected_html E input d = Some html
         \<and> 32 < length (filter (\<lambda>t. ht_type t = Start_Tag) (fst (il_tokens E html)))"
proof -
  have "outcome_ok E (mime_parse (il_mime E) (ii_raw input) inspection_limits) input (analyze E data input)"
  proof (cases "mime_parse (il_mime E) (ii_raw input) inspection_limits")
    case (Inl e)
    then show ?thesis by (auto simp: analyze_def intro: outcome_cancelled split: option.split) (simp add: outcome_ok_def)
  next
    case (Inr d)
    then show ?thesis using document_outcome [OF Inr] by (auto simp: analyze_def intro: outcome_cancelled split: option.split)
  qed
  then show ?thesis by (simp add: outcome_ok_def opens_def split: analyze_result.splits inspect_err.splits)
qed

section \<open>A message that cannot be inspected\<close>

lemma empty_message_parses: "\<exists>d. mime_parse L [] lim = Inr d"
  by (auto simp: mime_parse_def parse_indexed_def Let_def split: option.split prod.split)

text \<open>
  C33. An HTML body can make \<open>Analyze\<close> panic: an element with an identifier and a text, 32 nested elements in it and
  another text are enough, whatever capacity \<open>append\<close> chooses.  The second text is written to the builder of
  the first element, which \<open>append\<close> has moved to another array.
\<close>

theorem nested_message_panics:
  "analyze (E\<lparr>il_tokens := \<lambda>_. (nested_tokens, failed), il_context := \<lambda>_. None\<rparr>) data
     (input\<lparr>ii_raw := [], ii_legacy_html := Some html\<rparr>) = Panic"
proof -
  let ?E = "E\<lparr>il_tokens := \<lambda>_. (nested_tokens, failed), il_context := \<lambda>_. None\<rparr>"
  let ?in = "input\<lparr>ii_raw := [], ii_legacy_html := Some html\<rparr>"
  obtain d where d: "mime_parse (il_mime E) [] inspection_limits = Inr d" using empty_message_parses by blast
  let ?c = "document_causes (il_unicode E) d"
  obtain a c where sel: "select_bodies (inspected_of ?in d ?c) ?c = (a, c)" by (metis surj_pair)
  have a: "\<not> in_raw_present a" "in_html a \<noteq> None"
    using sel by (auto simp: select_bodies_def inspected_of_def bounded_legacy_body_def Let_def split: if_splits prod.splits)
  then obtain h where h: "in_html a = Some h" by blast
  have "run_raw_rules ?E a c' = Inr c'" for c' using a(1) by (simp add: run_raw_rules_def split: option.split)
  moreover have "analyze_content ?E a c' = Content_Panic" for c'
    using h nested_html_panics [of ?E h failed] by (simp add: analyze_content_def)
  ultimately show ?thesis using d sel by (simp add: analyze_def analyze_document_def Let_def)
qed

section \<open>What trimming gives up first\<close>


text \<open>A report whose resources make it too long.\<close>

definition sample_report :: report where
  "sample_report =
     (let fs = [new_finding truncated_id ''analysis'' ''observed'' ''none'' ''evidence'' ''all'' ''Analysis truncated'' [] [] None] in
      \<lparr>rp_analysis = \<lparr>an_version = 1, an_state = ''partial'', an_parsed_through = None, an_unavailable = [], an_truncated = True\<rparr>,
       rp_summary = summarize fs, rp_findings = fs, rp_headers = [],
       rp_resources = [\<lparr>rs_kind = ''link'', rs_path = None, rs_url = ''https://example.com'', rs_text = [], rs_count = 1\<rparr>],
       rp_mime_tree = None, rp_compatibility = None\<rparr>)"


end
