(* ===== verification/Inspect_Auth_Props.thy ===== *)
theory Inspect_Auth_Props
  imports Inspect_Auth "HOL-Library.Multiset"
begin

text \<open>
  The ARC chain: the three loops of \<open>runARCRule\<close> with their table of sets accept exactly the permutations of a
  complete chain.  The loops are instances of one loop, which the interface \<open>arc_field\<close> is about.
\<close>

section \<open>The table of sets\<close>

lemma arc_get_put: "arc_get (map_put i s m) j = (if i = j then s else arc_get m j)"
  by (simp add: arc_get_def map_of_map_put)

text \<open>Claiming an instance for a kind of field, unless it is claimed already.\<close>

fun claim_loop ::
  "('v \<Rightarrow> (int \<times> 'x) option) \<Rightarrow> (arc_set \<Rightarrow> bool) \<Rightarrow> ('x \<Rightarrow> arc_set \<Rightarrow> arc_set) \<Rightarrow> 'v list \<Rightarrow> arc_sets \<Rightarrow> arc_sets option" where
  "claim_loop parse seen put [] sets = Some sets"
| "claim_loop parse seen put (v # vs) sets =
     (case parse v of
        None \<Rightarrow> None
      | Some (i, x) \<Rightarrow>
          if seen (arc_get sets i) then None
          else claim_loop parse seen put vs (map_put i (put x (arc_get sets i)) sets))"

definition claim_all :: "('x \<Rightarrow> arc_set \<Rightarrow> arc_set) \<Rightarrow> (int \<times> 'x) list \<Rightarrow> arc_sets \<Rightarrow> arc_sets" where
  "claim_all put ps sets = fold (\<lambda>(i, x) m. map_put i (put x (arc_get m i)) m) ps sets"

lemma claim_all_simps [simp]:
  "claim_all put [] sets = sets"
  "claim_all put ((i, x) # ps) sets = claim_all put ps (map_put i (put x (arc_get sets i)) sets)"
  by (simp_all add: claim_all_def)

lemma claim_all_keys:
  "distinct (map fst sets) \<Longrightarrow> distinct (map fst (claim_all put ps sets))"
  "fst ` set (claim_all put ps sets) = fst ` set sets \<union> fst ` set ps"
proof -
  have keys: "fst ` set (map_put i s m) = insert i (fst ` set m)" for i s and m :: arc_sets
    using map_of_map_put [of i s m] by (auto simp: dom_map_of_conv_image_fst [symmetric] dom_def)
  show "distinct (map fst sets) \<Longrightarrow> distinct (map fst (claim_all put ps sets))"
    by (induction ps arbitrary: sets) (auto simp: distinct_map_put)
  show "fst ` set (claim_all put ps sets) = fst ` set sets \<union> fst ` set ps"
  proof (induction ps arbitrary: sets)
    case (Cons p ps)
    then show ?case by (cases p) (simp add: keys)
  qed simp
qed

lemma claim_all_get:
  "distinct (map fst ps) \<Longrightarrow>
   arc_get (claim_all put ps sets) i = (case map_of ps i of None \<Rightarrow> arc_get sets i | Some x \<Rightarrow> put x (arc_get sets i))"
proof (induction ps arbitrary: sets)
  case (Cons p ps)
  obtain j x where p: "p = (j, x)" by (cases p)
  have "map_of ps j = None" using Cons.prems p by (simp add: map_of_eq_None_iff)
  then show ?case using Cons by (auto simp: p arc_get_put split: option.split)
qed simp

locale arc_field =
  fixes seen :: "arc_set \<Rightarrow> bool" and put :: "'x \<Rightarrow> arc_set \<Rightarrow> arc_set"
  assumes seen_put: "seen (put x s)"
begin

text \<open>The loop succeeds when every field parses and no instance is claimed twice.\<close>

lemma claim_iff:
  "claim_loop parse seen put vs sets = Some sets' \<longleftrightarrow>
   (\<exists>ps. map parse vs = map Some ps \<and> distinct (map fst ps) \<and> (\<forall>i\<in>fst ` set ps. \<not> seen (arc_get sets i))
      \<and> sets' = claim_all put ps sets)"
proof (induction vs arbitrary: sets)
  case Nil
  then show ?case by auto
next
  case (Cons v vs)
  show ?case
  proof (cases "parse v")
    case None
    then show ?thesis by (auto simp: Cons_eq_map_conv)
  next
    case (Some p)
    obtain i x where p: "p = (i, x)" by (cases p)
    let ?sets = "map_put i (put x (arc_get sets i)) sets"
    have "(\<exists>ps. map parse (v # vs) = map Some ps \<and> distinct (map fst ps) \<and> (\<forall>i\<in>fst ` set ps. \<not> seen (arc_get sets i))
        \<and> sets' = claim_all put ps sets) \<longleftrightarrow>
      \<not> seen (arc_get sets i) \<and>
      (\<exists>ps. map parse vs = map Some ps \<and> distinct (map fst ps) \<and> i \<notin> fst ` set ps
        \<and> (\<forall>j\<in>fst ` set ps. \<not> seen (arc_get sets j)) \<and> sets' = claim_all put ps ?sets)"
      (is "?l \<longleftrightarrow> ?r")
    proof
      assume ?l
      then obtain qs where qs: "map parse (v # vs) = map Some qs" "distinct (map fst qs)"
        "\<forall>i\<in>fst ` set qs. \<not> seen (arc_get sets i)" "sets' = claim_all put qs sets" by blast
      then obtain ps where "qs = (i, x) # ps" using Some p by (auto simp: Cons_eq_map_conv)
      then show ?r using qs by (auto intro!: exI [of _ ps])
    next
      assume ?r
      then obtain ps where "\<not> seen (arc_get sets i)" "map parse vs = map Some ps" "distinct (map fst ps)" "i \<notin> fst ` set ps"
        "\<forall>j\<in>fst ` set ps. \<not> seen (arc_get sets j)" "sets' = claim_all put ps ?sets" by blast
      then show ?l using Some p by (intro exI [of _ "(i, x) # ps"]) auto
    qed
    moreover have "(\<forall>j\<in>fst ` set ps. \<not> seen (arc_get ?sets j)) \<longleftrightarrow>
        i \<notin> fst ` set ps \<and> (\<forall>j\<in>fst ` set ps. \<not> seen (arc_get sets j))" for ps :: "(int \<times> 'x) list"
      by (auto simp: arc_get_put seen_put)
    ultimately show ?thesis using Some p Cons.IH [of ?sets] by simp
  qed
qed

end

definition put_results :: "unit \<Rightarrow> arc_set \<Rightarrow> arc_set" where "put_results x s = s\<lparr>ar_results := True\<rparr>"
definition put_signature :: "unit \<Rightarrow> arc_set \<Rightarrow> arc_set" where "put_signature x s = s\<lparr>ar_signature := True\<rparr>"
definition put_seal :: "bytes \<Rightarrow> arc_set \<Rightarrow> arc_set" where "put_seal cv s = s\<lparr>ar_seal := True, ar_cv := cv\<rparr>"

interpretation arc_results: arc_field ar_results put_results
  by unfold_locales (simp add: put_results_def)

interpretation arc_signature: arc_field ar_signature put_signature
  by unfold_locales (simp add: put_signature_def)

interpretation arc_seal: arc_field ar_seal put_seal
  by unfold_locales (simp add: put_seal_def)

section \<open>What the fields claim\<close>

definition results_claim :: "unicode \<Rightarrow> bytes \<Rightarrow> (int \<times> unit) option" where
  "results_claim u v = map_option (\<lambda>i. (i, ())) (parse_arc_instance u v)"

definition signature_claim :: "unicode \<Rightarrow> bytes \<Rightarrow> (int \<times> unit) option" where
  "signature_claim u v =
     map_option (\<lambda>(i, tags). (i, ())) (arc_instance (checked_tags u (\<lambda>tags. validate_dkim u tags True) v))"

definition seal_claim :: "unicode \<Rightarrow> bytes \<Rightarrow> (int \<times> bytes) option" where
  "seal_claim u v =
     map_option (\<lambda>(i, tags). (i, to_lower u (param tags ''cv''))) (arc_instance (checked_tags u (validate_arc_seal u) v))"

definition claims :: "bytes + arc_sets \<Rightarrow> arc_sets option" where
  "claims r = (case r of Inl failed \<Rightarrow> None | Inr sets \<Rightarrow> Some sets)"

lemma claims_if [simp]: "claims (if b then Inl f else r) = (if b then None else claims r)" "claims (Inl f) = None" "claims (Inr m) = Some m"
  by (simp_all add: claims_def)

lemma results_loop: "claims (arc_results_loop u vs sets) = claim_loop (results_claim u) ar_results put_results vs sets"
  by (induction vs arbitrary: sets) (simp_all add: results_claim_def put_results_def split: option.split)

lemma signature_loop: "claims (arc_signature_loop u vs sets) = claim_loop (signature_claim u) ar_signature put_signature vs sets"
  by (induction vs arbitrary: sets) (simp_all add: signature_claim_def put_signature_def split: option.split)

lemma seal_loop: "claims (arc_seal_loop u vs sets) = claim_loop (seal_claim u) ar_seal put_seal vs sets"
  by (induction vs arbitrary: sets) (simp_all add: seal_claim_def put_seal_def split: option.split)

lemma loops_fail:
  "arc_results_loop u vs sets = Inl f \<Longrightarrow> f \<noteq> []"
  "arc_signature_loop u vs sets = Inl f \<Longrightarrow> f \<noteq> []"
  "arc_seal_loop u vs sets = Inl f \<Longrightarrow> f \<noteq> []"
  by (induction vs arbitrary: sets; auto split: option.splits if_splits prod.splits)+

section \<open>The accepted chains\<close>

text \<open>The value of \<open>cv\<close> an instance has to have.\<close>

definition chain_cv :: "int \<Rightarrow> bytes" where
  "chain_cv i = (if i = 1 then ''none'' else ''pass'')"

lemma order_loop:
  "(\<forall>i\<in>set is. 1 \<le> i) \<Longrightarrow>
   arc_order_loop sets is = [] \<longleftrightarrow>
     (\<forall>i\<in>set is. i \<in> fst ` set sets \<and> ar_results (arc_get sets i) \<and> ar_signature (arc_get sets i)
        \<and> ar_seal (arc_get sets i) \<and> ar_cv (arc_get sets i) = chain_cv i)"
  by (induction "is") (auto simp: chain_cv_def Let_def map_of_eq_None_iff)

text \<open>The fields of three kinds with what they claim, and the table they make.\<close>

definition arc_table :: "(int \<times> unit) list \<Rightarrow> (int \<times> unit) list \<Rightarrow> (int \<times> bytes) list \<Rightarrow> arc_sets" where
  "arc_table rp sp lp = claim_all put_seal lp (claim_all put_signature sp (claim_all put_results rp []))"

lemma arc_table_keys:
  "distinct (map fst (arc_table rp sp lp))"
  "fst ` set (arc_table rp sp lp) = fst ` set rp \<union> fst ` set sp \<union> fst ` set lp"
  by (simp_all add: arc_table_def claim_all_keys)

lemma arc_get_Nil: "arc_get [] i = no_arc_set"
  by (simp add: arc_get_def)

lemma in_keys: "i \<in> fst ` set ps \<longleftrightarrow> map_of ps i \<noteq> None"
  by (simp add: map_of_eq_None_iff)

lemmas arc_flags = arc_get_Nil no_arc_set_def put_results_def put_signature_def put_seal_def

lemma arc_table_get:
  assumes "distinct (map fst rp)" "distinct (map fst sp)" "distinct (map fst lp)"
  shows "ar_results (arc_get (arc_table rp sp lp) i) \<longleftrightarrow> i \<in> fst ` set rp"
    and "ar_signature (arc_get (arc_table rp sp lp) i) \<longleftrightarrow> i \<in> fst ` set sp"
    and "ar_seal (arc_get (arc_table rp sp lp) i) \<longleftrightarrow> i \<in> fst ` set lp"
    and "map_of lp i = Some cv \<Longrightarrow> ar_cv (arc_get (arc_table rp sp lp) i) = cv"
proof -
  show "ar_results (arc_get (arc_table rp sp lp) i) \<longleftrightarrow> i \<in> fst ` set rp"
    "ar_signature (arc_get (arc_table rp sp lp) i) \<longleftrightarrow> i \<in> fst ` set sp"
    "ar_seal (arc_get (arc_table rp sp lp) i) \<longleftrightarrow> i \<in> fst ` set lp"
    "map_of lp i = Some cv \<Longrightarrow> ar_cv (arc_get (arc_table rp sp lp) i) = cv"
    using assms unfolding in_keys arc_table_def
    by (simp_all add: claim_all_get arc_flags del: map_of_eq_None_iff map_of_eq_Some_iff split: option.split)
qed

lemma arc_failure_iff:
  "arc_failure u rs ss ls = [] \<longleftrightarrow>
   (\<exists>rp sp lp. map (results_claim u) rs = map Some rp \<and> map (signature_claim u) ss = map Some sp
      \<and> map (seal_claim u) ls = map Some lp
      \<and> distinct (map fst rp) \<and> distinct (map fst sp) \<and> distinct (map fst lp)
      \<and> arc_order_loop (arc_table rp sp lp) [1..int (length (arc_table rp sp lp))] = [])"
proof -
  have loops: "(case r of Inl failed \<Rightarrow> failed | Inr m \<Rightarrow> f m) = [] \<longleftrightarrow> (\<exists>m. claims r = Some m \<and> f m = [])"
    if "\<And>failed. r = Inl failed \<Longrightarrow> failed \<noteq> []" for r :: "bytes + arc_sets" and f
    using that by (cases r) auto
  have first: "(\<exists>m. claims (arc_results_loop u rs []) = Some m \<and> P m) \<longleftrightarrow>
      (\<exists>rp. map (results_claim u) rs = map Some rp \<and> distinct (map fst rp) \<and> P (claim_all put_results rp []))" for P
    unfolding results_loop arc_results.claim_iff by (auto simp: arc_flags)
  have second: "(\<exists>m. claims (arc_signature_loop u ss (claim_all put_results rp [])) = Some m \<and> P m) \<longleftrightarrow>
      (\<exists>sp. map (signature_claim u) ss = map Some sp \<and> distinct (map fst sp)
         \<and> P (claim_all put_signature sp (claim_all put_results rp [])))" if "distinct (map fst rp)" for P rp
    unfolding signature_loop arc_signature.claim_iff
    using that by (simp add: claim_all_get arc_flags split: option.split) blast
  have third: "(\<exists>m. claims (arc_seal_loop u ls (claim_all put_signature sp (claim_all put_results rp []))) = Some m \<and> P m) \<longleftrightarrow>
      (\<exists>lp. map (seal_claim u) ls = map Some lp \<and> distinct (map fst lp) \<and> P (arc_table rp sp lp))"
    if "distinct (map fst rp)" "distinct (map fst sp)" for P rp sp
    unfolding seal_loop arc_seal.claim_iff arc_table_def
    using that by (simp add: claim_all_get arc_flags split: option.split) blast
  show ?thesis
    unfolding arc_failure_def
    by (simp add: loops loops_fail first second third cong: conj_cong) blast
qed

text \<open>The claims of a complete chain, in any order.\<close>

definition permutes_chain :: "(int \<Rightarrow> 'x) \<Rightarrow> nat \<Rightarrow> (int \<times> 'x) list \<Rightarrow> bool" where
  "permutes_chain c n ps \<longleftrightarrow> mset ps = mset (map (\<lambda>i. (i, c i)) [1..int n])"

lemma permutes_chain_iff:
  "permutes_chain c n ps \<longleftrightarrow>
     distinct (map fst ps) \<and> fst ` set ps = {1..int n} \<and> (\<forall>i x. map_of ps i = Some x \<longrightarrow> x = c i)"
proof
  assume "permutes_chain c n ps"
  then have m: "mset ps = mset (map (\<lambda>i. (i, c i)) [1..int n])" unfolding permutes_chain_def .
  have "mset (map fst ps) = mset (map fst (map (\<lambda>i. (i, c i)) [1..int n]))" by (simp only: mset_map [of fst] m)
  then have fst: "mset (map fst ps) = mset [1..int n]" by (simp add: comp_def)
  have "distinct (map fst ps)" using fst by (metis distinct_upto mset_eq_imp_distinct_iff)
  moreover have "fst ` set ps = {1..int n}" using mset_eq_setD [OF fst] by simp
  moreover have "x = c i" if "map_of ps i = Some x" for i x
    using map_of_SomeD [OF that] mset_eq_setD [OF m] by auto
  ultimately show "distinct (map fst ps) \<and> fst ` set ps = {1..int n} \<and> (\<forall>i x. map_of ps i = Some x \<longrightarrow> x = c i)" by blast
next
  assume a: "distinct (map fst ps) \<and> fst ` set ps = {1..int n} \<and> (\<forall>i x. map_of ps i = Some x \<longrightarrow> x = c i)"
  then have m: "mset (map fst ps) = mset [1..int n]" by (intro set_eq_iff_mset_eq_distinct [THEN iffD1]) simp_all
  have "p = (fst p, c (fst p))" if "p \<in> set ps" for p
    using a that by (cases p) auto
  then have "map (\<lambda>i. (i, c i)) (map fst ps) = ps" by (simp add: map_idI)
  then have "mset ps = image_mset (\<lambda>i. (i, c i)) (mset (map fst ps))" by (simp only: mset_map [symmetric])
  then show "permutes_chain c n ps" unfolding permutes_chain_def m by (simp only: mset_map [symmetric])
qed

lemma claims_permute:
  fixes f :: "'v \<Rightarrow> 'a option"
  shows "(\<exists>ps. map f vs = map Some ps \<and> mset ps = mset qs) \<longleftrightarrow> mset (map f vs) = mset (map Some qs)"
proof
  assume "\<exists>ps. map f vs = map Some ps \<and> mset ps = mset qs"
  then show "mset (map f vs) = mset (map Some qs)" by (metis mset_map)
next
  assume m: "mset (map f vs) = mset (map Some qs)"
  have "f v \<noteq> None" if "v \<in> set vs" for v
  proof -
    have "f v \<in> set (map f vs)" using that by simp
    then have "f v \<in> set (map Some qs)" by (simp only: mset_eq_setD [OF m])
    then show ?thesis by auto
  qed
  then have ps: "map f vs = map Some (map (the \<circ> f) vs)" by simp
  have the: "image_mset the (mset (map Some xs)) = mset xs" for xs :: "'a list"
    unfolding mset_map [symmetric] by (simp add: comp_def)
  have "mset (map (the \<circ> f) vs) = mset qs"
    using the [of "map (the \<circ> f) vs"] the [of qs] m unfolding ps by (simp only:)
  with ps show "\<exists>ps. map f vs = map Some ps \<and> mset ps = mset qs" by blast
qed

lemma order_chain:
  assumes d: "distinct (map fst rp)" "distinct (map fst sp)" "distinct (map fst lp)"
  shows "arc_order_loop (arc_table rp sp lp) [1..int (length (arc_table rp sp lp))] = [] \<longleftrightarrow>
    (\<exists>n. permutes_chain (\<lambda>_. ()) n rp \<and> permutes_chain (\<lambda>_. ()) n sp \<and> permutes_chain chain_cv n lp)"
proof -
  let ?m = "arc_table rp sp lp"
  let ?n = "length ?m"
  have card: "card (fst ` set ?m) = ?n" using distinct_card [OF arc_table_keys(1), of rp sp lp] by simp
  have order: "arc_order_loop ?m [1..int ?n] = [] \<longleftrightarrow>
      (\<forall>i\<in>{1..int ?n}. i \<in> fst ` set rp \<and> i \<in> fst ` set sp \<and> i \<in> fst ` set lp \<and> ar_cv (arc_get ?m i) = chain_cv i)"
    by (subst order_loop) (auto simp: arc_table_get [OF d] arc_table_keys(2))
  show ?thesis
  proof
    assume "arc_order_loop ?m [1..int ?n] = []"
    then have all: "i \<in> fst ` set rp \<and> i \<in> fst ` set sp \<and> i \<in> fst ` set lp \<and> ar_cv (arc_get ?m i) = chain_cv i"
      if "i \<in> {1..int ?n}" for i using that order by blast
    then have "{1..int ?n} \<subseteq> fst ` set ?m" unfolding arc_table_keys(2) by blast
    then have keys: "fst ` set ?m = {1..int ?n}" using card by (intro card_subset_eq [symmetric]) auto
    have sets: "fst ` set rp = {1..int ?n}" "fst ` set sp = {1..int ?n}" "fst ` set lp = {1..int ?n}"
      using all keys unfolding arc_table_keys(2) by blast+
    have "x = chain_cv i" if "map_of lp i = Some x" for i x
    proof -
      have "i \<in> fst ` set lp" using that by (simp add: in_keys)
      then show ?thesis using all [of i] arc_table_get(4) [OF d that] unfolding sets(3) by simp
    qed
    then have "permutes_chain (\<lambda>_. ()) ?n rp \<and> permutes_chain (\<lambda>_. ()) ?n sp \<and> permutes_chain chain_cv ?n lp"
      unfolding permutes_chain_iff using d sets by simp
    then show "\<exists>n. permutes_chain (\<lambda>_. ()) n rp \<and> permutes_chain (\<lambda>_. ()) n sp \<and> permutes_chain chain_cv n lp" ..
  next
    assume "\<exists>n. permutes_chain (\<lambda>_. ()) n rp \<and> permutes_chain (\<lambda>_. ()) n sp \<and> permutes_chain chain_cv n lp"
    then obtain n where "permutes_chain (\<lambda>_. ()) n rp" "permutes_chain (\<lambda>_. ()) n sp" "permutes_chain chain_cv n lp"
      by (elim exE conjE)
    then have n: "fst ` set rp = {1..int n}" "fst ` set sp = {1..int n}" "fst ` set lp = {1..int n}"
      "\<And>i x. map_of lp i = Some x \<Longrightarrow> x = chain_cv i" by (simp_all only: permutes_chain_iff)
    then have "?n = n" using card by (simp add: arc_table_keys(2))
    moreover have "ar_cv (arc_get ?m i) = chain_cv i" if "i \<in> fst ` set lp" for i
    proof -
      obtain x where x: "map_of lp i = Some x" using \<open>i \<in> fst ` set lp\<close> unfolding in_keys by blast
      then show ?thesis using arc_table_get(4) [OF d x] n(4) by simp
    qed
    ultimately show "arc_order_loop ?m [1..int ?n] = []" unfolding order using n(1-3) by simp
  qed
qed

lemma order_iff:
  "distinct (map fst rp) \<and> distinct (map fst sp) \<and> distinct (map fst lp)
     \<and> arc_order_loop (arc_table rp sp lp) [1..int (length (arc_table rp sp lp))] = [] \<longleftrightarrow>
   (\<exists>n. permutes_chain (\<lambda>_. ()) n rp \<and> permutes_chain (\<lambda>_. ()) n sp \<and> permutes_chain chain_cv n lp)"
proof (cases "distinct (map fst rp) \<and> distinct (map fst sp) \<and> distinct (map fst lp)")
  case True
  then show ?thesis using order_chain [of rp sp lp] by simp
next
  case False
  then show ?thesis unfolding permutes_chain_iff by blast
qed

text \<open>
  C25. The static check of an ARC chain passes exactly when the fields of the message are, in any order, a
  complete chain: for some \<open>n\<close>, the instances of the results fields, of the signatures and of the seals are \<open>1\<close> to
  \<open>n\<close>, each once and each in a field that parses, and the first seal says \<open>cv=none\<close> and every other \<open>cv=pass\<close>.
\<close>

theorem arc_check_is_complete_chain:
  "arc_failure u results signatures seals = [] \<longleftrightarrow>
   (\<exists>n. mset (map (parse_arc_instance u) results) = mset (map Some [1..int n])
      \<and> mset (map (signature_claim u) signatures) = mset (map (\<lambda>i. Some (i, ())) [1..int n])
      \<and> mset (map (seal_claim u) seals) = mset (map (\<lambda>i. Some (i, if i = 1 then ''none'' else ''pass'')) [1..int n]))"
proof -
  have results: "mset (map (results_claim u) results) = mset (map (\<lambda>i. Some (i, ())) [1..int n]) \<longleftrightarrow>
      mset (map (parse_arc_instance u) results) = mset (map Some [1..int n])" (is "?l \<longleftrightarrow> ?r") for n
  proof
    assume ?l
    then have "mset (map (map_option fst) (map (results_claim u) results)) = mset (map (map_option fst) (map (\<lambda>i. Some (i, ())) [1..int n]))"
      by (simp only: mset_map [of "map_option fst"])
    then show ?r by (simp add: comp_def results_claim_def option.map_comp option.map_ident)
  next
    assume ?r
    then have "mset (map (map_option (\<lambda>i. (i, ()))) (map (parse_arc_instance u) results)) = mset (map (map_option (\<lambda>i. (i, ()))) (map Some [1..int n]))"
      by (simp only: mset_map [of "map_option (\<lambda>i. (i, ()))"])
    then show ?l by (simp add: comp_def results_claim_def [abs_def])
  qed
  have "arc_failure u results signatures seals = [] \<longleftrightarrow>
      (\<exists>n. (\<exists>rp. map (results_claim u) results = map Some rp \<and> permutes_chain (\<lambda>_. ()) n rp)
         \<and> (\<exists>sp. map (signature_claim u) signatures = map Some sp \<and> permutes_chain (\<lambda>_. ()) n sp)
         \<and> (\<exists>lp. map (seal_claim u) seals = map Some lp \<and> permutes_chain chain_cv n lp))"
    unfolding arc_failure_iff order_iff by blast
  then show ?thesis unfolding permutes_chain_def claims_permute results [symmetric] by (simp add: comp_def chain_cv_def)
qed

end
