(* ===== verification/Inspect_Syntax_Props.thy ===== *)
theory Inspect_Syntax_Props
  imports Inspect_Syntax
begin

text \<open>
  The syntax checks of the inspector against what they stand for: the transfer domain of a body, base64 bodies, and
  authentication results.
\<close>

section \<open>Transfer domains\<close>

lemma index_byte_split:
  "index_byte (\<lambda>c. c = sep) s = None \<Longrightarrow> split_byte sep s = [s]"
  "index_byte (\<lambda>c. c = sep) s = Some i \<Longrightarrow> split_byte sep s = take i s # split_byte sep (drop (Suc i) s)"
  by (induction s arbitrary: i) (auto split: if_splits)

lemma line_over_iff:
  "encoded_line_over body limit \<longleftrightarrow> list_ex (\<lambda>l. limit < length (trim_suffix l [CR])) (split_byte LF body)"
proof (induction body limit rule: encoded_line_over.induct)
  case (1 body limit)
  show ?case
  proof (cases "body = []")
    case True
    then show ?thesis by (simp add: encoded_line_over.simps trim_suffix_def)
  next
    case False
    show ?thesis
    proof (cases "index_byte (\<lambda>c. c = LF) body")
      case None
      then show ?thesis using False index_byte_split(1) [OF None] 
        by (simp add: encoded_line_over.simps [of body] encoded_line_over.simps [of "[]"] Let_def)
    next
      case (Some i)
      then show ?thesis using False index_byte_split(2) [OF Some] 1 [OF False refl refl]
        by (subst encoded_line_over.simps) (simp add: Let_def)
    qed
  qed
qed

text \<open>A line feed that does not follow a carriage return.\<close>

definition bare_line_feed :: "bytes \<Rightarrow> nat \<Rightarrow> bool" where
  "bare_line_feed s i \<longleftrightarrow> i < length s \<and> s ! i = LF \<and> (i = 0 \<or> s ! (i - 1) \<noteq> CR)"

lemma bare_newline_iff:
  "bare_newline after s \<longleftrightarrow> (\<exists>i<length s. s ! i = LF \<and> (if i = 0 then \<not> after else s ! (i - 1) \<noteq> CR))"
proof (induction after s rule: bare_newline.induct)
  case (2 after c s)
  have ex: "(\<exists>i<length (c # s). P i) \<longleftrightarrow> P 0 \<or> (\<exists>i<length s. P (Suc i))" for P
    by (auto simp: less_Suc_eq_0_disj)
  have prev: "(c # s) ! (Suc i - 1) = (if i = 0 then c else s ! (i - 1))" for i by (cases i) simp_all
  show ?case unfolding ex prev using 2 by (auto split: if_splits)
qed simp

text \<open>
  The check of a body against its declared transfer domain finds no contradiction exactly when the body has
  no NUL, is ASCII if it is declared as \<open>7bit\<close>, breaks every line with CRLF, and has no line of more than 998 octets.
\<close>

theorem transfer_check_exact:
  "transfer_domain_contradiction body encoding = [] \<longleftrightarrow>
     NUL \<notin> set body \<and> (encoding = ''7bit'' \<longrightarrow> list_all (\<lambda>c. byte c < 128) body)
     \<and> (\<nexists>i. bare_line_feed body i)
     \<and> list_all (\<lambda>l. length (trim_suffix l [CR]) \<le> 998) (split_byte LF body)"
proof -
  have "bare_newline False body \<longleftrightarrow> (\<exists>i. bare_line_feed body i)"
    unfolding bare_newline_iff bare_line_feed_def by (rule ex_cong1) (simp split: if_split)
  moreover have "bare_line_feed body i \<Longrightarrow> LF \<in> set body" for i
    unfolding bare_line_feed_def by (metis nth_mem)
  ultimately have "(LF \<in> set body \<and> bare_newline False body) \<longleftrightarrow> (\<exists>i. bare_line_feed body i)" by blast
  moreover have "encoded_line_over body 998 \<longleftrightarrow> \<not> list_all (\<lambda>l. length (trim_suffix l [CR]) \<le> 998) (split_byte LF body)"
    unfolding line_over_iff by (auto simp: list_ex_iff list_all_iff not_le)
  ultimately show ?thesis unfolding transfer_domain_contradiction_def is_ascii_def
    by (cases "NUL \<in> set body"; cases "encoding = ''7bit''") simp_all
qed

theorem transfer_check_exact_witness:
  "transfer_domain_contradiction [CHR ''a'', CR, LF] ''7bit'' = []
     \<and> transfer_domain_contradiction [CHR ''a'', LF] ''7bit'' \<noteq> []"
proof -
  have "\<nexists>i. bare_line_feed [CHR ''a'', CR, LF] i" by (auto simp: bare_line_feed_def less_Suc_eq nth_Cons')
  moreover have "bare_line_feed [CHR ''a'', LF] 1" by (simp add: bare_line_feed_def)
  then have "\<exists>i. bare_line_feed [CHR ''a'', LF] i" by blast
  ultimately show ?thesis
    unfolding transfer_check_exact by (simp add: trim_suffix_def has_suffix_def byte_def chr_eval)
qed

section \<open>Authentication results\<close>

text \<open>
  RFC 8601 lets a server say \<open>none\<close> when it did no authentication; the inspector reports the field as malformed.
\<close>

lemma none_is_no_clause: "\<not> clause_ok '' none''"
proof -
  have n: "trim_left ''none'' = ''none''" by (rule trim_left_stop) (simp add: decode_rune_def is_space_def byte_def chr_eval)
  have "trim_left '' none'' = trim_left ''none''"
    by (subst trim_left.simps) (simp add: decode_rune_def is_space_def byte_def chr_eval)
  moreover have "trim_right ''none'' = ''none''"
    using trim_space_id [of "''none''"] n by (simp add: trim_space_def graphic_def byte_def chr_eval)
  ultimately have "trim_space '' none'' = ''none''" using n by (simp add: trim_space_def)
  moreover have "split_auth_fields ''none'' = Some [''none'']"
    by (simp add: split_auth_fields_def ranged_def ranged_from.simps decode_rune_def new_field_scan_def field_rune_def is_space_def
        byte_def chr_eval Let_def)
  moreover have "split_two (CHR ''='') ''none'' = [''none'']" by (simp add: split_two_def)
  ultimately show ?thesis by (simp add: clause_ok_def Let_def)
qed

lemma no_result_is_rejected: "parse_authentication_results ''a.b; none'' = None"
  by (simp add: parse_authentication_results_def split_semicolon_def ranged_def ranged_from.simps decode_rune_def byte_def chr_eval
      none_is_no_clause split: list.split)

end
