(* ===== verification/Go_Quoted_Writer.thy ===== *)
theory Go_Quoted_Writer
  imports Go_Quoted Http_Text Go_Text
begin

text \<open>
  Go's \<open>quotedprintable.Writer\<close> for text: the line it fills, whether the last byte was a carriage return, and
  what it wrote.  What it writes is read back by the \<open>Reader\<close> of \<open>Go_Quoted\<close>, with CRLF for every line break.
\<close>

section \<open>The writer\<close>

record qp_writer =
  qw_line :: bytes
  qw_cr :: bool
  qw_out :: bytes

definition new_qp_writer :: qp_writer where
  "new_qp_writer = \<lparr>qw_line = [], qw_cr = False, qw_out = []\<rparr>"

definition qp_line_max :: nat where
  "qp_line_max = 76"

definition qw_insert_crlf :: "qp_writer \<Rightarrow> qp_writer" where
  "qw_insert_crlf w = w\<lparr>qw_out := qw_out w @ qw_line w @ CRLF, qw_line := []\<rparr>"

definition qw_soft_break :: "qp_writer \<Rightarrow> qp_writer" where
  "qw_soft_break w = qw_insert_crlf (w\<lparr>qw_line := qw_line w @ ''=''\<rparr>)"

definition qp_code :: "char \<Rightarrow> bytes" where
  "qp_code c = [CHR ''='', hex_digit (byte c div 16), hex_digit (byte c mod 16)]"

definition qw_encode :: "char \<Rightarrow> qp_writer \<Rightarrow> qp_writer" where
  "qw_encode c w =
     (let w = (if qp_line_max - 1 < length (qw_line w) + 3 then qw_soft_break w else w) in
      w\<lparr>qw_line := qw_line w @ qp_code c\<rparr>)"

definition qp_space :: "char \<Rightarrow> bool" where
  "qp_space c \<longleftrightarrow> c = CHR '' '' \<or> c = TAB"

text \<open>A space at the end of a line is encoded.\<close>

definition qw_check_last :: "qp_writer \<Rightarrow> qp_writer" where
  "qw_check_last w =
     (if qw_line w \<noteq> [] \<and> qp_space (last (qw_line w))
      then qw_encode (last (qw_line w)) (w\<lparr>qw_line := butlast (qw_line w)\<rparr>) else w)"

definition qw_write :: "char \<Rightarrow> qp_writer \<Rightarrow> qp_writer" where
  "qw_write c w =
     (if c = CR \<or> c = LF then
        (if qw_cr w \<and> c = LF then w\<lparr>qw_cr := False\<rparr>
         else
           (let w = qw_insert_crlf (qw_check_last w) in
            if c = CR then w\<lparr>qw_cr := True\<rparr> else w))
      else
        (let w = (if length (qw_line w) = qp_line_max - 1 then qw_soft_break w else w) in
         w\<lparr>qw_line := qw_line w @ [c], qw_cr := False\<rparr>))"

definition qp_plain :: "char \<Rightarrow> bool" where
  "qp_plain c \<longleftrightarrow> (33 \<le> byte c \<and> byte c \<le> 126 \<and> c \<noteq> CHR ''='') \<or> qp_space c"

definition qw_put :: "char \<Rightarrow> qp_writer \<Rightarrow> qp_writer" where
  "qw_put c w = (if qp_plain c \<or> c = CR \<or> c = LF then qw_write c w else qw_encode c w)"

definition qp_write :: "bytes \<Rightarrow> bytes" where
  "qp_write s = (let w = qw_check_last (fold qw_put s new_qp_writer) in qw_out w @ qw_line w)"

section \<open>Coded lines\<close>

inductive coded :: "bytes \<Rightarrow> bytes \<Rightarrow> bool" where
  coded_nil: "coded [] []"
| coded_plain: "coded l s \<Longrightarrow> qp_plain c \<Longrightarrow> coded (l @ [c]) (s @ [c])"
| coded_code: "coded l s \<Longrightarrow> coded (l @ qp_code c) (s @ [c])"

lemma qp_bytes_code: "qp_bytes (qp_code c @ t) = map_option (Cons c) (qp_bytes t)"
  using nibbles [of c] by (simp add: qp_code_def hex_digit_facts)

lemma qp_bytes_plain_Cons: "qp_plain c \<Longrightarrow> qp_bytes (c # t) = map_option (Cons c) (qp_bytes t)"
  by (auto simp: qp_plain_def qp_space_def byte_def)

lemma qp_bytes_coded: "coded l s \<Longrightarrow> qp_bytes (l @ t) = map_option (append s) (qp_bytes t)"
proof (induction arbitrary: t rule: coded.induct)
  case coded_nil
  then show ?case by (cases "qp_bytes t") simp_all
next
  case (coded_plain l s c)
  then show ?case by (cases "qp_bytes t") (simp_all add: qp_bytes_plain_Cons del: qp_bytes.simps)
next
  case (coded_code l s c)
  then show ?case by (cases "qp_bytes t") (simp_all add: qp_bytes_code del: qp_bytes.simps)
qed

lemma hex_digit_graphic: "n < 16 \<Longrightarrow> hex_digit n \<notin> {CHR ''='', CHR '' '', TAB, CR, LF}"
  using hex_digit_facts(1) [of n] by (auto simp: hex_val_def is_digit_def byte_def)

lemma qp_code_last: "last (qp_code c) \<notin> {CHR ''='', CHR '' '', TAB, CR, LF}"
  using hex_digit_graphic [of "byte c mod 16"] by (simp add: qp_code_def)

lemma coded_last: "coded l s \<Longrightarrow> l \<noteq> [] \<Longrightarrow> last l \<notin> {CHR ''='', CR, LF}"
proof (induction rule: coded.induct)
  case (coded_code l s c)
  then show ?case using qp_code_last [of c] by (simp add: qp_code_def)
qed (auto simp: qp_plain_def qp_space_def byte_def)

lemma coded_no_newline: "coded l s \<Longrightarrow> CR \<notin> set l \<and> LF \<notin> set l"
proof (induction rule: coded.induct)
  case (coded_code l s c)
  then show ?case using nibbles(1) [of c]
    hex_digit_graphic [of "byte c mod 16"] hex_digit_graphic [of "byte c div 16"]
    by (auto simp: qp_code_def)
qed (auto simp: qp_plain_def qp_space_def byte_def)

lemma coded_space:
  assumes "coded l s" "l \<noteq> []" "qp_space (last l)"
  shows "\<exists>s'. s = s' @ [last l] \<and> coded (butlast l) s'"
  using assms
proof cases
  case (coded_code l' s' c)
  then show ?thesis using assms(3) qp_code_last [of c] by (auto simp: qp_code_def qp_space_def)
qed auto

section \<open>What the reader makes of it\<close>

lemma cut_lines_line: "LF \<notin> set l \<Longrightarrow> cut_lines (l @ LF # t) = (l @ [LF]) # cut_lines t"
  by (induction l) auto

lemma cut_lines_one: "LF \<notin> set l \<Longrightarrow> cut_lines l = (if l = [] then [] else [l])"
  by (induction l) auto

lemma trim_right_set_stop: "s = [] \<or> last s \<notin> set cs \<Longrightarrow> trim_right_set cs s = s"
  by (cases s rule: rev_cases) (auto simp: trim_right_set_def)

lemma trim_right_set_white:
  "set t \<subseteq> set cs \<Longrightarrow> trim_right_set cs (s @ t) = trim_right_set cs s"
  by (induction t rule: rev_induct) (auto simp: trim_right_set_def simp flip: append_assoc)

definition fits :: "bytes \<Rightarrow> bool" where
  "fits l \<longleftrightarrow> length l \<le> qp_line_max \<and> (l = [] \<or> \<not> qp_space (last l))"

lemma last_not_white:
  assumes "coded l s" "fits l"
  shows "trim_right_set qp_white l = l"
  using assms coded_last [OF assms(1)]
  by (intro trim_right_set_stop) (auto simp: fits_def qp_white_def qp_space_def)

lemma not_soft:
  assumes "coded l s"
  shows "\<not> has_suffix l ''=''"
  using coded_last [OF assms] by (cases l rule: rev_cases) (auto simp: has_suffix_def)

lemma read_hard_line:
  assumes "coded l s" "fits l"
  shows "qp_read (l @ CRLF @ t) = map_option (append (s @ CRLF)) (qp_read t)"
proof -
  have cut: "cut_lines (l @ CRLF @ t) = (l @ CRLF) # cut_lines t"
    using cut_lines_line [of "l @ [CR]" t] coded_no_newline [OF assms(1)] by simp
  have trim: "trim_right_set qp_white (l @ CRLF) = l"
    using trim_right_set_white [of CRLF qp_white l] last_not_white [OF assms] by (simp add: qp_white_def)
  have len: "\<not> qp_buffer \<le> length (trim_suffix (l @ CRLF) [LF])"
    using assms(2) by (simp add: fits_def qp_buffer_def qp_line_max_def trim_suffix_def)
  have suffix: "has_suffix (l @ CRLF) [LF]" "has_suffix (l @ CRLF) CRLF" by (simp_all add: has_suffix_def)
  have "qp_bytes (l @ CRLF) = Some (s @ CRLF)"
    unfolding qp_bytes_coded [OF assms(1)] by simp
  then have "qp_line e (l @ CRLF) = Some (s @ CRLF)" for e
    using trim len suffix not_soft [OF assms(1)] by (simp add: qp_line_def Let_def)
  then show ?thesis unfolding qp_read_def cut by simp
qed

lemma read_soft_line:
  assumes "coded l s" "length l < qp_line_max"
  shows "qp_read (l @ ''='' @ CRLF @ t) = map_option (append s) (qp_read t)"
proof -
  have cut: "cut_lines (l @ ''='' @ CRLF @ t) = (l @ ''='' @ CRLF) # cut_lines t"
    using cut_lines_line [of "l @ ''='' @ [CR]" t] coded_no_newline [OF assms(1)] by simp
  have "trim_right_set qp_white (l @ ''='') = l @ ''=''"
    by (intro trim_right_set_stop) (simp add: qp_white_def)
  then have trim: "trim_right_set qp_white (l @ ''='' @ CRLF) = l @ ''=''"
    using trim_right_set_white [of CRLF qp_white "l @ ''=''"] by (simp add: qp_white_def)
  have len: "\<not> qp_buffer \<le> length (trim_suffix (l @ ''='' @ CRLF) [LF])"
    using assms(2) by (simp add: qp_buffer_def qp_line_max_def trim_suffix_def)
  have suffix: "has_suffix (l @ ''='') ''=''" by (simp add: has_suffix_def)
  have "qp_bytes l = Some s"
    using qp_bytes_coded [OF assms(1), of "[]"] by simp
  then have "qp_line e (l @ ''='' @ CRLF) = Some s" for e
    using trim len suffix by (simp add: qp_line_def Let_def has_prefix_def)
  then show ?thesis unfolding qp_read_def cut by simp
qed

lemma read_last_line:
  assumes "coded l s" "fits l"
  shows "qp_read l = Some s"
proof (cases "l = []")
  case True
  then show ?thesis using qp_bytes_coded [OF assms(1), of "[]"] by (simp add: qp_read_def)
next
  case False
  have "\<not> has_suffix l [LF]"
    using coded_no_newline [OF assms(1)] False by (cases l rule: rev_cases) (auto simp: has_suffix_def)
  moreover have "\<not> qp_buffer \<le> length (trim_suffix l [LF])"
    using assms(2) calculation by (simp add: fits_def qp_buffer_def qp_line_max_def trim_suffix_def)
  moreover have "qp_bytes l = Some s"
    using qp_bytes_coded [OF assms(1), of "[]"] by simp
  ultimately show ?thesis
    using False last_not_white [OF assms] not_soft [OF assms(1)] coded_no_newline [OF assms(1)]
    by (simp add: qp_read_def cut_lines_one qp_line_def Let_def)
qed

section \<open>What the writer keeps\<close>

text \<open>Reading what was written yields \<open>d\<close> and then what follows.\<close>

definition reads :: "bytes \<Rightarrow> bytes \<Rightarrow> bool" where
  "reads out d \<longleftrightarrow> (\<forall>t. qp_read (out @ t) = map_option (append d) (qp_read t))"

definition wrote :: "qp_writer \<Rightarrow> bytes \<Rightarrow> bool" where
  "wrote w p \<longleftrightarrow>
     (\<exists>d s. reads (qw_out w) d \<and> coded (qw_line w) s \<and> length (qw_line w) < qp_line_max \<and> p = d @ s)"

lemma reads_append: "reads out d \<Longrightarrow> reads l e \<Longrightarrow> reads (out @ l) (d @ e)"
  unfolding reads_def by (auto simp: map_option_case split: option.split)

lemma reads_hard: "coded l s \<Longrightarrow> fits l \<Longrightarrow> reads (l @ CRLF) (s @ CRLF)"
  unfolding reads_def using read_hard_line by simp

lemma reads_soft: "coded l s \<Longrightarrow> length l < qp_line_max \<Longrightarrow> reads (l @ ''='' @ CRLF) s"
  unfolding reads_def using read_soft_line by simp

lemma wrote_new: "wrote new_qp_writer []"
proof -
  have "reads [] []"
    unfolding reads_def by (metis append_Nil option.map_ident_strong)
  then show ?thesis
    using coded_nil by (auto simp: wrote_def new_qp_writer_def qp_line_max_def)
qed

lemma wrote_soft: "wrote w p \<Longrightarrow> wrote (qw_soft_break w) p"
proof -
  assume "wrote w p"
  then obtain d s where "reads (qw_out w) d" "coded (qw_line w) s" "length (qw_line w) < qp_line_max" "p = d @ s"
    by (auto simp: wrote_def)
  then have "reads (qw_out w @ qw_line w @ ''='' @ CRLF) p" using reads_append reads_soft by blast
  then show ?thesis using coded_nil by (auto simp: wrote_def qw_soft_break_def qw_insert_crlf_def qp_line_max_def)
qed

lemma soft_line [simp]: "qw_line (qw_soft_break w) = []" "qw_cr (qw_soft_break w) = qw_cr w"
  by (simp_all add: qw_soft_break_def qw_insert_crlf_def)

lemma wrote_add:
  assumes "wrote w p" "\<And>l s. coded l s \<Longrightarrow> coded (l @ u) (s @ [c])"
    and "length (qw_line w) + length u < qp_line_max"
  shows "wrote (w\<lparr>qw_line := qw_line w @ u\<rparr>) (p @ [c])"
  using assms coded_nil unfolding wrote_def by fastforce

lemma length_qp_code [simp]: "length (qp_code c) = 3"
  by (simp add: qp_code_def)

lemma wrote_encode: "wrote w p \<Longrightarrow> wrote (qw_encode c w) (p @ [c])"
  unfolding qw_encode_def Let_def
  by (rule wrote_add) (auto intro: wrote_soft coded_code simp: qp_line_max_def)

lemma encode_fits: "fits (qw_line (qw_encode c w))" if "length (qw_line w) < qp_line_max"
  using that qp_code_last [of c]
  by (auto simp: fits_def qw_encode_def Let_def qp_code_def qp_line_max_def qp_space_def)

lemma wrote_check:
  assumes "wrote w p"
  shows "wrote (qw_check_last w) p" "fits (qw_line (qw_check_last w))"
proof -
  obtain d s where w: "reads (qw_out w) d" "coded (qw_line w) s" "length (qw_line w) < qp_line_max" "p = d @ s"
    using assms by (auto simp: wrote_def)
  show "wrote (qw_check_last w) p"
  proof (cases "qw_line w \<noteq> [] \<and> qp_space (last (qw_line w))")
    case True
    then obtain s' where s': "s = s' @ [last (qw_line w)]" "coded (butlast (qw_line w)) s'"
      using coded_space [OF w(2)] by blast
    have "wrote (w\<lparr>qw_line := butlast (qw_line w)\<rparr>) (d @ s')"
      using w s' unfolding wrote_def by fastforce
    from wrote_encode [OF this, of "last (qw_line w)"] show ?thesis
      using True by (simp add: qw_check_last_def w(4) s'(1))
  qed (use assms in \<open>auto simp: qw_check_last_def\<close>)
  show "fits (qw_line (qw_check_last w))"
    using w(3) by (auto simp: qw_check_last_def fits_def [of "qw_line w"] intro!: encode_fits)
qed

lemma wrote_newline: "wrote w p \<Longrightarrow> fits (qw_line w) \<Longrightarrow> wrote (qw_insert_crlf w) (p @ CRLF)"
proof -
  assume "wrote w p" and fit: "fits (qw_line w)"
  then obtain d s where "reads (qw_out w) d" "coded (qw_line w) s" "p = d @ s" by (auto simp: wrote_def)
  then have "reads (qw_out w @ qw_line w @ CRLF) (p @ CRLF)"
    using reads_append [OF _ reads_hard [OF _ fit]] by fastforce
  then show ?thesis using coded_nil by (auto simp: wrote_def qw_insert_crlf_def qp_line_max_def)
qed

lemma wrote_cr: "wrote (w\<lparr>qw_cr := b\<rparr>) p \<longleftrightarrow> wrote w p"
  by (simp add: wrote_def)

text \<open>The text with CRLF for every line break; \<open>cr\<close> says that a line feed belongs to the break before it.\<close>

fun qp_text :: "bool \<Rightarrow> bytes \<Rightarrow> bytes" where
  "qp_text cr [] = []"
| "qp_text cr (c # s) =
     (if c = CR \<or> c = LF then (if cr \<and> c = LF then qp_text False s else CRLF @ qp_text (c = CR \<or> cr) s)
      else c # qp_text (cr \<and> \<not> qp_plain c) s)"

lemma check_cr [simp]: "qw_cr (qw_check_last w) = qw_cr w" "qw_cr (qw_encode c w) = qw_cr w"
  by (simp_all add: qw_check_last_def qw_encode_def Let_def)

lemma insert_cr [simp]: "qw_cr (qw_insert_crlf w) = qw_cr w"
  by (simp add: qw_insert_crlf_def)

lemma wrote_put:
  assumes "wrote w p"
  shows "\<exists>q. wrote (qw_put c w) q \<and> p @ qp_text (qw_cr w) (c # s) = q @ qp_text (qw_cr (qw_put c w)) s"
proof -
  consider "c = LF" "qw_cr w" | "c = CR \<or> c = LF" "\<not> (qw_cr w \<and> c = LF)"
    | "c \<noteq> CR" "c \<noteq> LF" "qp_plain c" | "c \<noteq> CR" "c \<noteq> LF" "\<not> qp_plain c" by blast
  then show ?thesis
  proof cases
    case 1
    then show ?thesis using assms by (auto simp: qw_put_def qw_write_def wrote_cr)
  next
    case 2
    have "wrote (qw_insert_crlf (qw_check_last w)) (p @ CRLF)"
      by (intro wrote_newline wrote_check [OF assms])
    then show ?thesis
      using 2 by (intro exI [of _ "p @ CRLF"]) (auto simp: qw_put_def qw_write_def Let_def wrote_cr)
  next
    case 3
    have "wrote (qw_put c w) (p @ [c])"
    proof -
      let ?w = "if length (qw_line w) = qp_line_max - 1 then qw_soft_break w else w"
      have "wrote (?w\<lparr>qw_line := qw_line ?w @ [c]\<rparr>) (p @ [c])"
      proof (rule wrote_add)
        show "wrote ?w p" using assms wrote_soft by simp
        show "length (qw_line ?w) + length [c] < qp_line_max"
          using assms by (auto simp: wrote_def qp_line_max_def)
      qed (use 3 in \<open>auto intro: coded_plain\<close>)
      moreover have "qw_put c w = ?w\<lparr>qw_line := qw_line ?w @ [c]\<rparr>\<lparr>qw_cr := False\<rparr>"
        using 3 by (simp add: qw_put_def qw_write_def Let_def)
      ultimately show ?thesis by (simp only: wrote_cr)
    qed
    moreover have "\<not> qw_cr (qw_put c w)" using 3 by (simp add: qw_put_def qw_write_def Let_def)
    ultimately show ?thesis using 3 by (intro exI [of _ "p @ [c]"]) simp
  next
    case 4
    then show ?thesis using wrote_encode [OF assms, of c] by (intro exI [of _ "p @ [c]"]) (simp add: qw_put_def)
  qed
qed

lemma wrote_fold: "wrote w p \<Longrightarrow> wrote (fold qw_put s w) (p @ qp_text (qw_cr w) s)"
proof (induction s arbitrary: w p)
  case (Cons c s)
  obtain q where "wrote (qw_put c w) q" "p @ qp_text (qw_cr w) (c # s) = q @ qp_text (qw_cr (qw_put c w)) s"
    using wrote_put [OF Cons.prems] by blast
  with Cons.IH show ?case by (metis fold_simps(2))
qed simp

lemma qp_read_write: "qp_read (qp_write s) = Some (qp_text False s)"
proof -
  let ?w = "fold qw_put s new_qp_writer"
  have "wrote ?w (qp_text False s)" using wrote_fold [OF wrote_new] by (simp add: new_qp_writer_def)
  note w = wrote_check [OF this]
  then obtain d t where "reads (qw_out (qw_check_last ?w)) d" "coded (qw_line (qw_check_last ?w)) t" "qp_text False s = d @ t"
    by (auto simp: wrote_def)
  then show ?thesis using read_last_line w(2) by (simp add: qp_write_def Let_def reads_def)
qed

lemma qp_text_line:
  "\<forall>c\<in>set l. c \<noteq> CR \<and> c \<noteq> LF \<Longrightarrow> qp_text False (l @ t) = l @ qp_text False t"
  by (induction l) auto

lemma qp_text_join:
  "\<forall>l\<in>set ls. \<forall>c\<in>set l. c \<noteq> CR \<and> c \<noteq> LF \<Longrightarrow> qp_text False (join CRLF ls) = join CRLF ls"
proof (induction CRLF ls rule: join.induct)
  case (2 w)
  then show ?case using qp_text_line [of w "[]"] by simp
next
  case (3 w v ws)
  then have "qp_text False (CRLF @ join CRLF (v # ws)) = CRLF @ join CRLF (v # ws)" by simp
  then show ?case using 3(2) qp_text_line [of w "CRLF @ join CRLF (v # ws)"] by simp
qed simp

end
