(* ===== verification/Go_Format.thy ===== *)
theory Go_Format
  imports Go_Time Go_Quoted_Writer
begin

text \<open>
  What the program uses of Go to write texts: the civil date of an instant and its layouts, \<open>strconv.Quote\<close>,
  \<open>html.EscapeString\<close>, the Q encoding of \<open>mime.WordEncoder\<close> and \<open>mail.Address.String\<close> without a name.
\<close>

section \<open>The civil date\<close>

text \<open>Year and day of the year, counted from 0, of a day counted from 1 January of year 1; \<open>absDate\<close> of Go.\<close>

definition year_day :: "int \<Rightarrow> int \<times> int" where
  "year_day n =
     (let a = n div 146097; r = n mod 146097;
          b = min 3 (r div 36524); r = r - b * 36524;
          c = r div 1461; r = r mod 1461;
          e = min 3 (r div 365) in
      (400 * a + 100 * b + 4 * c + e + 1, r - e * 365))"

fun month_of :: "int \<Rightarrow> int \<Rightarrow> nat \<Rightarrow> nat" where
  "month_of y yday 0 = 0"
| "month_of y yday (Suc k) = (if days_before_month (Suc k) y \<le> yday then Suc k else month_of y yday k)"

text \<open>Year, month and day of a day counted from 1970.\<close>

definition civil_of :: "int \<Rightarrow> int \<times> int \<times> int" where
  "civil_of n =
     (let (y, yday) = year_day (n + 719162); m = month_of y yday 11 in
      (y, int m + 1, yday - days_before_month m y + 1))"

lemma year_day_bounds:
  fixes n :: int
  assumes "year_day n = (y, d)"
  shows "days_before_year y + d = n" "0 \<le> d" "d < days_before_year (y + 1) - days_before_year y"
proof -
  define a where "a = n div 146097"
  define r1 where "r1 = n mod 146097"
  define b where "b = min 3 (r1 div 36524)"
  define r2 where "r2 = r1 - b * 36524"
  define c where "c = r2 div 1461"
  define r3 where "r3 = r2 mod 1461"
  define e where "e = min 3 (r3 div 365)"
  have y: "y = 400 * a + 100 * b + 4 * c + e + 1" "d = r3 - e * 365"
  proof -
    have "year_day n = (400 * a + 100 * b + 4 * c + e + 1, r3 - e * 365)"
      by (simp only: year_day_def Let_def a_def r1_def b_def r2_def c_def r3_def e_def)
    with assms show "y = 400 * a + 100 * b + 4 * c + e + 1" "d = r3 - e * 365" by simp_all
  qed
  have n: "n = 146097 * a + r1" "0 \<le> r1" "r1 < 146097" by (simp_all add: a_def r1_def)
  have b: "0 \<le> b" "b \<le> 3" "0 \<le> r2" "r2 \<le> 36524" "b < 3 \<Longrightarrow> r2 < 36524"
  proof -
    define q where "q = r1 div 36524"
    define m where "m = r1 mod 36524"
    have q: "r1 = 36524 * q + m" "0 \<le> m" "m < 36524" by (simp_all add: q_def m_def)
    then have bounds: "0 \<le> q" "q \<le> 4" using n(2,3) by linarith+
    have b_q: "b = (if q \<le> 3 then q else 3)" by (simp add: b_def q_def min_def)
    have r2: "r2 = 36524 * (q - b) + m" using q(1) by (simp add: r2_def algebra_simps)
    show "0 \<le> b" "b \<le> 3" using bounds b_q by auto
    show "0 \<le> r2" "r2 \<le> 36524" "b < 3 \<Longrightarrow> r2 < 36524"
      using bounds q n(3) b_q r2 by (cases "q \<le> 3"; simp)+
  qed
  have c: "r2 = 1461 * c + r3" "0 \<le> r3" "r3 < 1461" "0 \<le> c" "c \<le> 24"
    using b unfolding c_def r3_def by auto
  have e: "0 \<le> e" "e \<le> 3" "0 \<le> d" "d \<le> 365" "e < 3 \<Longrightarrow> d < 365"
    using c unfolding y(2) e_def by (auto simp: min_def)
  have "(y - 1) div 4 = 100 * a + 25 * b + c" "(y - 1) div 100 = 4 * a + b" "(y - 1) div 400 = a"
    using e(1,2) c(4,5) b(1,2) by (simp_all add: y(1))
  then have "days_before_year y = 146097 * a + 36524 * b + 1461 * c + 365 * e"
    unfolding days_before_year_def by (simp add: y(1))
  then show sum: "days_before_year y + d = n" using n(1) c(1) y(2) by (simp add: r2_def)
  show "0 \<le> d" by (rule e(3))
  show "d < days_before_year (y + 1) - days_before_year y"
  proof (cases "e < 3")
    case True
    then show ?thesis using e(5) year_length [of y] by auto
  next
    case False
    then have e3: "e = 3" using e(2) by simp
    have "y = 4 * (100 * a + 25 * b + c + 1)" using e3 y(1) by simp
    then have four: "y mod 4 = 0" by simp
    have "is_leap y \<or> d < 365"
    proof (cases "c = 24")
      case False
      have "y = 4 * c + 4 + 100 * (4 * a + b)" using e3 y(1) by simp
      then have "y mod 100 = (4 * c + 4) mod 100" by (simp only: mod_mult_self2)
      then have "y mod 100 = 4 * c + 4" using False c(4,5) by simp
      then show ?thesis using four c(4) by (simp add: is_leap_def)
    next
      case True
      show ?thesis
      proof (cases "b = 3")
        case True
        then have "y = 400 * (a + 1)" using \<open>c = 24\<close> e3 y(1) by simp
        then show ?thesis using four by (simp add: is_leap_def)
      next
        case False
        then have "r3 < 1460" using b(2,5) c(1) True by simp
        then show ?thesis using y(2) e3 by simp
      qed
    qed
    then show ?thesis using e(4) year_length [of y] by auto
  qed
qed

lemma month_of_bounds:
  assumes "0 \<le> yday" "yday < days_before_month (Suc k) y"
  shows "month_of y yday k \<le> k" "days_before_month (month_of y yday k) y \<le> yday"
    "yday < days_before_month (Suc (month_of y yday k)) y"
  using assms(2) by (induction k) (use assms(1) in \<open>auto simp: le_Suc_eq\<close>)

lemma civil_of_civil_days:
  assumes "civil_of n = (y, m, d)"
  shows "civil_days y m d = n" "1 \<le> m" "m \<le> 12" "1 \<le> d" "d \<le> days_in m y"
proof -
  obtain yday where yd: "year_day (n + 719162) = (y, yday)" and m: "m = int (month_of y yday 11) + 1"
    and d: "d = yday - days_before_month (month_of y yday 11) y + 1"
    using assms by (auto simp: civil_of_def Let_def split: prod.splits)
  note b = year_day_bounds [OF yd]
  have "yday < days_before_month (Suc 11) y"
    using b(3) year_length [of y] year_months [of y] by simp
  note mb = month_of_bounds [OF b(2) this]
  show "civil_days y m d = n" using b(1) by (simp add: civil_days_def m d)
  show "1 \<le> m" "m \<le> 12" using mb(1) by (simp_all add: m)
  show "1 \<le> d" using mb(2) by (simp add: d)
  show "d \<le> days_in m y" using mb(3) by (simp add: d m add.commute)
qed

section \<open>Layouts of \<open>Time.Format\<close>\<close>

text \<open>A number with zeros in front, as the layouts write it.\<close>

definition padded :: "nat \<Rightarrow> int \<Rightarrow> bytes" where
  "padded w i =
     (let ds = nat_digits (nat \<bar>i\<bar>) in
      (if i < 0 then ''-'' else []) @ replicate (w - length ds) (CHR ''0'') @ ds)"

text \<open>The clock of an instant in its location, in seconds.\<close>

definition wall_secs :: "go_time \<Rightarrow> int" where
  "wall_secs t = t_sec t + fst (t_loc t (t_sec t))"

definition in_utc :: "go_time \<Rightarrow> go_time" where
  "in_utc t = t\<lparr>t_loc := utc\<rparr>"

text \<open>The layout \<open>20060102T150405Z\<close>.\<close>

definition format_compact :: "go_time \<Rightarrow> bytes" where
  "format_compact t =
     (let w = wall_secs t; (y, m, d) = civil_of (w div 86400); s = w mod 86400 in
      padded 4 y @ padded 2 m @ padded 2 d @ ''T''
        @ padded 2 (s div 3600) @ padded 2 (s div 60 mod 60) @ padded 2 (s mod 60) @ ''Z'')"

definition weekday_names :: "bytes list" where
  "weekday_names = [''Sun'', ''Mon'', ''Tue'', ''Wed'', ''Thu'', ''Fri'', ''Sat'']"

definition month_names :: "bytes list" where
  "month_names = [''Jan'', ''Feb'', ''Mar'', ''Apr'', ''May'', ''Jun'', ''Jul'', ''Aug'', ''Sep'', ''Oct'', ''Nov'', ''Dec'']"

text \<open>The layout \<open>Mon, 02 Jan 2006 15:04:05 -0700\<close>; 1 January 1970 was a Thursday.\<close>

definition format_rfc1123z :: "go_time \<Rightarrow> bytes" where
  "format_rfc1123z t =
     (let w = wall_secs t; n = w div 86400; (y, m, d) = civil_of n; s = w mod 86400;
          offset = fst (t_loc t (t_sec t)); zone = \<bar>offset\<bar> div 60 in
      weekday_names ! nat ((n + 4) mod 7) @ '', '' @ padded 2 d @ '' '' @ month_names ! nat (m - 1) @ '' ''
        @ padded 4 y @ '' '' @ padded 2 (s div 3600) @ '':'' @ padded 2 (s div 60 mod 60) @ '':'' @ padded 2 (s mod 60)
        @ '' '' @ (if offset div 60 < 0 \<and> zone \<noteq> 0 then ''-'' else ''+'') @ padded 2 (zone div 60) @ padded 2 (zone mod 60))"

section \<open>\<open>strconv.Quote\<close>\<close>

text \<open>\<open>printable\<close> stands for the table of \<open>strconv.IsPrint\<close> above ASCII.\<close>

definition lower_hex :: "nat \<Rightarrow> bytes" where
  "lower_hex n = [''0123456789abcdef'' ! n]"

definition hex_field :: "nat \<Rightarrow> nat \<Rightarrow> bytes" where
  "hex_field w r = concat (map (\<lambda>i. lower_hex (r div 16 ^ i mod 16)) (rev [0..<w]))"

definition quote_rune :: "(rune \<Rightarrow> bool) \<Rightarrow> rune \<Rightarrow> bytes" where
  "quote_rune printable r =
     (if r = byte DQUOTE \<or> r = byte BSLASH then [BSLASH, chr r]
      else if (if r < 128 then 32 \<le> r \<and> r \<le> 126 else printable r) then encode_rune r
      else if r = 7 then [BSLASH] @ ''a'' else if r = 8 then [BSLASH] @ ''b'' else if r = 12 then [BSLASH] @ ''f''
      else if r = 10 then [BSLASH] @ ''n'' else if r = 13 then [BSLASH] @ ''r'' else if r = 9 then [BSLASH] @ ''t''
      else if r = 11 then [BSLASH] @ ''v''
      else if r < 32 \<or> r = 127 then [BSLASH] @ ''x'' @ hex_field 2 r
      else if r < 65536 then [BSLASH] @ ''u'' @ hex_field 4 r
      else [BSLASH] @ ''U'' @ hex_field 8 r)"

function quote_loop :: "(rune \<Rightarrow> bool) \<Rightarrow> bytes \<Rightarrow> bytes" where
  "quote_loop printable s =
     (if s = [] then []
      else
        (let (r, k) = decode_rune s in
         (if k = 1 \<and> r = rune_error then [BSLASH] @ ''x'' @ hex_field 2 (byte (hd s)) else quote_rune printable r)
           @ quote_loop printable (drop k s)))"
  by pat_completeness auto
termination
proof (relation "measure (\<lambda>(printable, s). length s)")
  fix printable :: "rune \<Rightarrow> bool" and s :: bytes and p r k
  assume "s \<noteq> []" "p = decode_rune s" "(r, k) = p"
  then have "0 < k" using decode_rune_width [of s] by (metis snd_conv)
  with \<open>s \<noteq> []\<close> show "((printable, drop k s), printable, s) \<in> measure (\<lambda>(printable, s). length s)" by simp
qed simp

declare quote_loop.simps [simp del]

definition go_quote :: "(rune \<Rightarrow> bool) \<Rightarrow> bytes \<Rightarrow> bytes" where
  "go_quote printable s = [DQUOTE] @ quote_loop printable s @ [DQUOTE]"

section \<open>\<open>html.EscapeString\<close>\<close>

definition html_escape_char :: "char \<Rightarrow> bytes" where
  "html_escape_char c =
     (if c = CHR ''&'' then ''&amp;'' else if c = CHR 0x27 then ''&#39;'' else if c = CHR ''<'' then ''&lt;''
      else if c = CHR ''>'' then ''&gt;'' else if c = DQUOTE then ''&#34;'' else [c])"

definition html_escape :: "bytes \<Rightarrow> bytes" where
  "html_escape s = concat (map html_escape_char s)"

section \<open>\<open>QEncoding.Encode(\"UTF-8\", s)\<close>\<close>

definition q_plain :: "char \<Rightarrow> bool" where
  "q_plain c \<longleftrightarrow> 32 \<le> byte c \<and> byte c \<le> 126 \<and> c \<notin> {CHR ''='', CHR ''?'', CHR ''_''}"

definition q_char :: "char \<Rightarrow> bytes" where
  "q_char c = (if c = CHR '' '' then ''_'' else if q_plain c then [c] else qp_code c)"

definition q_open :: bytes where
  "q_open = ''=?UTF-8?q?''"

definition q_close :: bytes where
  "q_close = ''?=''"

definition q_content_max :: nat where
  "q_content_max = 75 - length q_open - length q_close"

text \<open>Encoded words are split between runes; \<open>n\<close> bytes of the word are used.\<close>

function q_loop :: "nat \<Rightarrow> bytes \<Rightarrow> bytes" where
  "q_loop n s =
     (if s = [] then []
      else
        (let k = (if q_plain (hd s) then 1 else snd (decode_rune s));
             len = (if q_plain (hd s) then 1 else 3 * k);
             over = (q_content_max < n + len) in
         (if over then q_close @ '' '' @ q_open else []) @ concat (map q_char (take k s))
           @ q_loop ((if over then 0 else n) + len) (drop k s)))"
  by pat_completeness auto
termination
proof (relation "measure (\<lambda>(n, s). length s)")
  fix n :: nat and s :: bytes and k len over
  assume "s \<noteq> []" "k = (if q_plain (hd s) then 1 else snd (decode_rune s))"
  then have "0 < k" using decode_rune_width [of s] by simp
  with \<open>s \<noteq> []\<close> show "(((if over then 0 else n) + len, drop k s), n, s) \<in> measure (\<lambda>(n, s). length s)" by simp
qed simp

declare q_loop.simps [simp del]

definition q_needed :: "bytes \<Rightarrow> bool" where
  "q_needed s = list_ex (\<lambda>c. \<not> (32 \<le> byte c \<and> byte c \<le> 126) \<and> c \<noteq> TAB) s"

definition q_encode :: "bytes \<Rightarrow> bytes" where
  "q_encode s = (if q_needed s then q_open @ q_loop 0 s @ q_close else s)"

section \<open>\<open>Address.String\<close> without a name\<close>

definition mail_vchar :: "rune \<Rightarrow> bool" where
  "mail_vchar r \<longleftrightarrow> (33 \<le> r \<and> r \<le> 126) \<or> 128 \<le> r"

definition mail_atext :: "rune \<Rightarrow> bool" where
  "mail_atext r \<longleftrightarrow>
     mail_vchar r \<and> r \<notin> byte ` {CHR ''.'', CHR ''('', CHR '')'', CHR ''<'', CHR ''>'', CHR ''['', CHR '']'', CHR '':'',
       CHR '';'', CHR ''@'', BSLASH, CHR '','', DQUOTE}"

text \<open>Whether the local part needs quotes: a dot may stand alone inside it; \<open>prev\<close> is the byte before.\<close>

function needs_quotes :: "char option \<Rightarrow> bytes \<Rightarrow> bool" where
  "needs_quotes prev s =
     (if s = [] then False
      else
        (let (r, k) = decode_rune s in
         if mail_atext r \<or> (r = byte (CHR ''.'') \<and> prev \<noteq> None \<and> prev \<noteq> Some (CHR ''.'') \<and> 1 < length s)
         then needs_quotes (Some (last (take k s))) (drop k s)
         else True))"
  by pat_completeness auto
termination
proof (relation "measure (\<lambda>(prev, s). length s)")
  fix prev :: "char option" and s :: bytes and p r k
  assume "s \<noteq> []" "p = decode_rune s" "(r, k) = p"
  then have "0 < k" using decode_rune_width [of s] by (metis snd_conv)
  with \<open>s \<noteq> []\<close> show "((Some (last (take k s)), drop k s), prev, s) \<in> measure (\<lambda>(prev, s). length s)" by simp
qed simp

declare needs_quotes.simps [simp del]

definition quoted_rune :: "rune \<Rightarrow> bytes" where
  "quoted_rune r =
     (if r = 32 \<or> r = 9 \<or> (mail_vchar r \<and> r \<noteq> byte BSLASH \<and> r \<noteq> byte DQUOTE) then encode_rune r
      else if mail_vchar r then BSLASH # encode_rune r
      else [])"

definition quote_local :: "bytes \<Rightarrow> bytes" where
  "quote_local s = [DQUOTE] @ concat (map quoted_rune (runes s)) @ [DQUOTE]"

definition split_address :: "bytes \<Rightarrow> bytes \<times> bytes" where
  "split_address a =
     (if CHR ''@'' \<in> set a
      then (let domain = rev (takeWhile (\<lambda>c. c \<noteq> CHR ''@'') (rev a)) in (take (length a - length domain - 1) a, domain))
      else (a, []))"

definition address_string :: "bytes \<Rightarrow> bytes" where
  "address_string a =
     (let (name, domain) = split_address a in
      ''<'' @ (if needs_quotes None name then quote_local name else name) @ ''@'' @ domain @ ''>'')"

section \<open>\<open>net.SplitHostPort\<close>\<close>

text \<open>The host; \<open>None\<close> is any error.\<close>

definition split_host_port :: "bytes \<Rightarrow> bytes option" where
  "split_host_port s =
     (if CHR '':'' \<notin> set s then None
      else
        (let host = take (length s - length (takeWhile (\<lambda>c. c \<noteq> CHR '':'') (rev s)) - 1) s in
         if hd s = CHR ''['' then
           (case index_byte (\<lambda>c. c = CHR '']'') s of
              None \<Rightarrow> None
            | Some stop \<Rightarrow>
                if stop + 1 \<noteq> length host \<or> CHR ''['' \<in> set (tl s) \<or> CHR '']'' \<in> set (drop (stop + 1) s) then None
                else Some (take (stop - 1) (tl s)))
         else if CHR '':'' \<in> set host \<or> CHR ''['' \<in> set s \<or> CHR '']'' \<in> set s then None
         else Some host))"

lemma split_host_port_examples:
  "split_host_port ''127.0.0.1:2525'' = Some ''127.0.0.1''" "split_host_port ''[::1]:25'' = Some ''::1''"
  "split_host_port ''::1'' = None" "split_host_port ''[::1]25'' = None"
  by (simp_all add: split_host_port_def Let_def)

end
