(* ===== verification/Calendar_Plain.thy ===== *)
theory Calendar_Plain
  imports Calendar Go_Format
begin

text \<open>
  Content lines that need no quoting: how the calendar parser of \<open>Calendar\<close> reads lines, texts and instants
  that a program writes plainly.
\<close>

section \<open>Clean texts\<close>

definition clean :: "bytes \<Rightarrow> bool" where
  "clean s \<longleftrightarrow> set s \<inter> {BSLASH, DQUOTE, CHR '':'', CHR '';'', CHR '','', CR, LF} = {}"

lemma clean_simps [simp]:
  "clean []" "clean (c # s) \<longleftrightarrow> c \<notin> {BSLASH, DQUOTE, CHR '':'', CHR '';'', CHR '','', CR, LF} \<and> clean s"
  "clean (s @ t) \<longleftrightarrow> clean s \<and> clean t"
  by (auto simp: clean_def)

lemma separator_scan_clean:
  "\<forall>c\<in>set s. c \<noteq> BSLASH \<and> c \<noteq> DQUOTE \<and> c \<noteq> sep \<Longrightarrow> sep \<noteq> BSLASH \<Longrightarrow> sep \<noteq> DQUOTE
     \<Longrightarrow> separator_scan sep False False (s @ sep # t) = Some (length s)"
  by (induction s) auto

lemma split_scan_clean:
  "\<forall>c\<in>set s. c \<noteq> BSLASH \<and> c \<noteq> DQUOTE \<and> c \<noteq> sep \<Longrightarrow> sep \<noteq> BSLASH \<Longrightarrow> sep \<noteq> DQUOTE
     \<Longrightarrow> split_scan sep False False part s = [part @ s]
       \<and> split_scan sep False False part (s @ sep # t) = (part @ s) # split_scan sep False False [] t"
  by (induction s arbitrary: part) auto

lemma replace_all_absent: "old \<noteq> [] \<Longrightarrow> hd old \<notin> set s \<Longrightarrow> replace_all old new s = s"
  by (induction s) (auto simp: has_prefix_def neq_Nil_conv)

lemma decode_parameter_clean: "clean s \<Longrightarrow> decode_parameter s = s"
proof -
  assume s: "clean s"
  have "s = [] \<or> hd s \<noteq> DQUOTE" using s by (cases s) auto
  then have "(if 2 \<le> length s \<and> hd s = DQUOTE \<and> last s = DQUOTE then butlast (tl s) else s) = s" by auto
  then show ?thesis using s unfolding decode_parameter_def Let_def
    by (simp only: replace_all_absent) (auto simp: clean_def replace_all_absent)
qed

section \<open>Lines\<close>

type_synonym line_fields = "bytes \<times> (bytes \<times> bytes) list \<times> bytes"

definition render :: "line_fields \<Rightarrow> bytes" where
  "render f = (case f of (name, ps, v) \<Rightarrow> name @ concat (map (\<lambda>(k, w). '';'' @ k @ ''='' @ w) ps) @ '':'' @ v)"

definition read_as :: "line_fields \<Rightarrow> content_line" where
  "read_as f = (case f of (name, ps, v) \<Rightarrow> \<lparr>cl_name = name, cl_value = v, cl_params = map (\<lambda>(k, w). (k, [w])) ps\<rparr>)"

text \<open>A name of upper-case letters and hyphens.\<close>

definition plain_name :: "bytes \<Rightarrow> bool" where
  "plain_name s \<longleftrightarrow> s \<noteq> [] \<and> (\<forall>c\<in>set s. (65 \<le> byte c \<and> byte c \<le> 90) \<or> c = CHR ''-'')"

definition plain_fields :: "line_fields \<Rightarrow> bool" where
  "plain_fields f \<longleftrightarrow>
     (case f of (name, ps, v) \<Rightarrow>
        plain_name name \<and> (\<forall>(k, w)\<in>set ps. plain_name k \<and> clean w) \<and> distinct (map fst ps))"

lemma plain_name_clean:
  assumes "plain_name s"
  shows "clean s" "CHR ''='' \<notin> set s"
  using assms by (auto simp: plain_name_def clean_def byte_def)

lemma plain_name_upper: "plain_name s \<Longrightarrow> to_upper u s = s"
proof -
  assume s: "plain_name s"
  then have "ascii s" by (auto simp: plain_name_def ascii_def byte_def)
  moreover have "map ascii_upper s = s"
  proof (rule map_idI)
    fix c assume "c \<in> set s"
    then have "\<not> 97 \<le> byte c" using s by (auto simp: plain_name_def byte_def)
    then show "ascii_upper c = c" by (simp add: ascii_upper_def)
  qed
  ultimately show ?thesis by (simp add: to_upper_ascii)
qed

lemma parse_params_plain:
  "\<forall>(k, w)\<in>set ps. plain_name k \<and> clean w \<Longrightarrow> distinct (map fst ps) \<Longrightarrow> fst ` set ps \<inter> fst ` set m = {}
     \<Longrightarrow> parse_params u m (map (\<lambda>(k, w). k @ CHR ''='' # w) ps) = Some (m @ map (\<lambda>(k, w). (k, [w])) ps)"
proof (induction ps arbitrary: m)
  case (Cons p ps)
  obtain k w where p: "p = (k, w)" by (cases p)
  have k: "plain_name k" "clean w" using Cons.prems(1) by (auto simp: p)
  note kc = plain_name_clean [OF k(1)]
  have sep: "separator_index (k @ CHR ''='' # w) (CHR ''='') = Some (length k)"
    unfolding separator_index_def using kc by (intro separator_scan_clean) (auto simp: clean_def)
  have "split_outside_quotes w (CHR '','') = [w]"
    using split_scan_clean [of w "CHR '',''" "[]"] k(2) by (auto simp: split_outside_quotes_def clean_def)
  moreover have "length k \<noteq> 0" using k(1) by (simp add: plain_name_def)
  moreover have "map_put k [w] m = m @ [(k, [w])]"
    using Cons.prems(3) by (auto simp: map_put_def p intro!: filter_True)
  moreover have "parse_params u (m @ [(k, [w])]) (map (\<lambda>(k, w). k @ CHR ''='' # w) ps)
      = Some ((m @ [(k, [w])]) @ map (\<lambda>(k, w). (k, [w])) ps)"
    using Cons.prems by (intro Cons.IH) (auto simp: p)
  ultimately show ?case
    using sep k by (simp add: p plain_name_upper decode_parameter_clean split: nat.split)
qed simp

definition joined_params :: "(bytes \<times> bytes) list \<Rightarrow> bytes" where
  "joined_params ps = concat (map (\<lambda>(k, w). CHR '';'' # k @ CHR ''='' # w) ps)"

lemma split_params:
  "clean s \<Longrightarrow> \<forall>(k, w)\<in>set ps. plain_name k \<and> clean w
     \<Longrightarrow> split_scan (CHR '';'') False False [] (s @ joined_params ps) = s # map (\<lambda>(k, w). k @ CHR ''='' # w) ps"
proof (induction ps arbitrary: s)
  case Nil
  then show ?case using split_scan_clean [of s "CHR '';''" "[]"] by (auto simp: joined_params_def clean_def)
next
  case (Cons p ps)
  obtain k w where p: "p = (k, w)" by (cases p)
  have "clean (k @ CHR ''='' # w)" using Cons.prems plain_name_clean by (auto simp: p)
  from Cons.IH [OF this] Cons.prems(2)
  have "split_scan (CHR '';'') False False [] ((k @ CHR ''='' # w) @ joined_params ps) =
      (k @ CHR ''='' # w) # map (\<lambda>(k, w). k @ CHR ''='' # w) ps" by (simp add: p)
  then show ?case
    using split_scan_clean [of s "CHR '';''" "[]" "(k @ CHR ''='' # w) @ joined_params ps"] Cons.prems(1)
    by (auto simp: p joined_params_def clean_def)
qed

lemma clean_params: "\<forall>(k, w)\<in>set ps. plain_name k \<and> clean w \<Longrightarrow>
    c \<in> set (joined_params ps) \<Longrightarrow> c \<noteq> BSLASH \<and> c \<noteq> DQUOTE \<and> c \<noteq> CHR '':''"
  using plain_name_clean by (fastforce simp: joined_params_def clean_def)

lemma parse_plain_line:
  assumes "plain_fields f"
  shows "parse_content_line u (render f) = Some (read_as f)"
proof -
  obtain name ps v where f: "f = (name, ps, v)" by (metis prod_cases3)
  have n: "plain_name name" and ps: "\<forall>(k, w)\<in>set ps. plain_name k \<and> clean w" "distinct (map fst ps)"
    using assms by (auto simp: f plain_fields_def)
  let ?head = "name @ joined_params ps"
  have r: "render f = ?head @ CHR '':'' # v" by (simp add: f render_def joined_params_def)
  have colon: "separator_index (render f) (CHR '':'') = Some (length ?head)"
    unfolding separator_index_def r
  proof (rule separator_scan_clean)
    show "\<forall>c\<in>set ?head. c \<noteq> BSLASH \<and> c \<noteq> DQUOTE \<and> c \<noteq> CHR '':''"
      using clean_params [OF ps(1)] plain_name_clean [OF n] by (auto simp: clean_def)
  qed simp_all
  have "split_outside_quotes ?head (CHR '';'') = name # map (\<lambda>(k, w). k @ CHR ''='' # w) ps"
    unfolding split_outside_quotes_def using split_params [OF plain_name_clean(1) [OF n] ps(1)] .
  moreover have "length ?head \<noteq> 0" "name \<noteq> []" using n by (simp_all add: plain_name_def)
  moreover have "parse_params u [] (map (\<lambda>(k, w). k @ CHR ''='' # w) ps) = Some (map (\<lambda>(k, w). (k, [w])) ps)"
    using parse_params_plain [OF ps, of "[]"] by simp
  moreover obtain j where j: "length ?head = Suc j" using calculation(2) by (cases "length ?head") simp_all
  moreover have "separator_index (render f) (CHR '':'') = Some (Suc j)" using colon j by simp
  moreover have "take (Suc j) (render f) = ?head" "drop (Suc j + 1) (render f) = v"
    unfolding r using j by simp_all
  ultimately show ?thesis
    using plain_name_upper [OF n] unfolding parse_content_line_def by (simp add: f read_as_def Let_def)
qed

section \<open>Unfolding joined lines\<close>

definition one_line :: "bytes \<Rightarrow> bool" where
  "one_line l \<longleftrightarrow> CR \<notin> set l \<and> LF \<notin> set l"

lemma replace_crlf_append:
  "one_line l \<Longrightarrow> replace_all CRLF [LF] (l @ t) = l @ replace_all CRLF [LF] t"
  by (induction l) (auto simp: one_line_def has_prefix_def)

lemma replace_crlf_join: "\<forall>l\<in>set ls. one_line l \<Longrightarrow> replace_all CRLF [LF] (join CRLF ls) = join [LF] ls"
proof (induction CRLF ls rule: join.induct)
  case (2 w)
  then show ?case using replace_crlf_append [of w "[]"] by simp
next
  case (3 w v ws)
  then show ?case by (simp add: replace_crlf_append has_prefix_def)
qed simp

lemma set_join_lf: "\<forall>l\<in>set ls. one_line l \<Longrightarrow> CR \<notin> set (join [LF] ls)"
  by (induction "[LF]" ls rule: join.induct) (auto simp: one_line_def)

lemma split_byte_append: "sep \<notin> set l \<Longrightarrow> split_byte sep (l @ sep # t) = l # split_byte sep t"
  by (induction l) auto

lemma split_byte_one: "sep \<notin> set l \<Longrightarrow> split_byte sep l = [l]"
  by (induction l) auto

lemma split_join_lf: "ls \<noteq> [] \<Longrightarrow> \<forall>l\<in>set ls. one_line l \<Longrightarrow> split_byte LF (join [LF] ls) = ls"
  by (induction "[LF]" ls rule: join.induct) (auto simp: one_line_def split_byte_append split_byte_one)

lemma unfold_loop_plain:
  "\<forall>l\<in>set ls. \<not> is_folded l \<Longrightarrow>
     unfold_loop done line ls = Some (done @ (case line of None \<Rightarrow> [] | Some l \<Rightarrow> [l]) @ ls)"
  by (induction ls arbitrary: "done" line) (auto split: option.split)

lemma unfold_joined:
  assumes "ls \<noteq> []" "\<forall>l\<in>set ls. one_line l \<and> \<not> is_folded l"
  shows "unfold_lines (join CRLF ls) = Some ls"
proof -
  have "replace_all [CR] [LF] (join [LF] ls) = join [LF] ls"
    using assms(2) set_join_lf [of ls] by (intro replace_all_absent) auto
  then show ?thesis
    using assms by (simp add: unfold_lines_def replace_crlf_join split_join_lf unfold_loop_plain)
qed

lemma render_line:
  assumes "plain_fields (name, ps, v)" "one_line v"
  shows "one_line (render (name, ps, v))" "\<not> is_folded (render (name, ps, v))" "render (name, ps, v) \<noteq> []"
proof -
  have n: "plain_name name" and ps: "\<forall>(k, w)\<in>set ps. plain_name k \<and> clean w"
    using assms by (auto simp: plain_fields_def)
  then obtain c s where c: "name = c # s" by (auto simp: plain_name_def neq_Nil_conv)
  have "(65 \<le> byte c \<and> byte c \<le> 90) \<or> c = CHR ''-''" using n by (simp add: c plain_name_def)
  then show "\<not> is_folded (render (name, ps, v))" "render (name, ps, v) \<noteq> []"
    by (auto simp: c render_def is_folded_def has_prefix_def byte_def)
  show "one_line (render (name, ps, v))"
    using n ps assms(2) plain_name_clean by (fastforce simp: render_def one_line_def clean_def)
qed

section \<open>Reading a whole object\<close>

text \<open>The loop of \<open>ParseICS\<close> over lines that are read already.\<close>

definition fields_step :: "unicode \<Rightarrow> tz_env \<Rightarrow> content_line \<Rightarrow> ics_state \<Rightarrow> ics_state option" where
  "fields_step u tz line st =
     (if cl_name line = ''BEGIN'' then ics_begin u line st
      else if cl_name line = ''END'' then ics_end u tz line st
      else ics_property u line st)"

fun fields_loop :: "unicode \<Rightarrow> tz_env \<Rightarrow> content_line list \<Rightarrow> ics_state \<Rightarrow> ics_state option" where
  "fields_loop u tz [] st = Some st"
| "fields_loop u tz (l # ls) st = (case fields_step u tz l st of None \<Rightarrow> None | Some st \<Rightarrow> fields_loop u tz ls st)"

lemma ics_loop_plain:
  "\<forall>(name, ps, v)\<in>set fs. plain_fields (name, ps, v) \<and> one_line v \<Longrightarrow>
     ics_loop u tz (map render fs) st = fields_loop u tz (map read_as fs) st"
proof (induction fs arbitrary: st)
  case (Cons f fs)
  obtain name ps v where f: "f = (name, ps, v)" by (metis prod_cases3)
  have p: "plain_fields f" "render f \<noteq> []" using Cons.prems render_line(3) by (auto simp: f)
  have "ics_step u tz (render f) st = fields_step u tz (read_as f) st"
    using p by (simp add: ics_step_def fields_step_def parse_plain_line)
  then show ?case using Cons by (simp split: option.split)
qed simp

section \<open>Instants\<close>

lemma length_nat_digits: "n < 10 ^ Suc k \<Longrightarrow> length (nat_digits n) \<le> Suc k"
proof (induction k arbitrary: n)
  case 0
  then show ?case by (subst nat_digits.simps) simp
next
  case (Suc k)
  have "n div 10 < 10 ^ Suc k" using Suc.prems by (simp add: less_mult_imp_div_less)
  then show ?case using Suc.IH [of "n div 10"] by (subst nat_digits.simps) simp
qed

lemma padded_2:
  assumes "0 \<le> i" "i < 100"
  shows "padded 2 i = [chr (48 + nat i div 10), chr (48 + nat i mod 10)]"
proof (cases "nat i < 10")
  case True
  then have "nat_digits (nat i) = [chr (48 + nat i)]" by (subst nat_digits.simps) simp
  moreover have "CHR ''0'' = chr 48" by (simp add: chr_eval)
  ultimately show ?thesis using assms True by (simp add: padded_def Let_def)
next
  case False
  have "nat_digits (nat i) = [chr (48 + nat i div 10), chr (48 + nat i mod 10)]"
  proof -
    have "nat_digits (nat i div 10) = [chr (48 + nat i div 10)]" using assms by (subst nat_digits.simps) simp
    then show ?thesis using False by (subst nat_digits.simps) simp
  qed
  then show ?thesis using assms by (simp add: padded_def Let_def)
qed

lemma getnum_padded: "0 \<le> i \<Longrightarrow> i < 100 \<Longrightarrow> getnum (padded 2 i @ t) fixed = Some (i, t)"
  by (simp add: padded_2 getnum_def)

lemma parse_leading_zeros: "parse_digits 0 (replicate n (CHR ''0'') @ s) = parse_digits 0 s"
  by (induction n) (simp_all add: is_digit_def digit_val_def byte_def)

lemma get_year_padded:
  assumes "0 \<le> y" "y < 10000"
  shows "get_year (padded 4 y @ t) = Some (y, t)"
proof -
  have "length (nat_digits (nat y)) \<le> 4" using length_nat_digits [of "nat y" 3] assms by simp
  then have len: "length (padded 4 y) = 4" using assms by (simp add: padded_def Let_def)
  moreover have "parse_digits 0 (padded 4 y) = Some (nat y)"
    using assms by (simp add: padded_def Let_def parse_leading_zeros)
  ultimately show ?thesis using assms by (simp add: get_year_def)
qed

lemma get_date_padded:
  assumes "0 \<le> y" "y < 10000" "1 \<le> m" "m \<le> 12" "0 \<le> d" "d < 100"
  shows "get_date (padded 4 y @ padded 2 m @ padded 2 d @ t) = Some ((y, m, d), t)"
  using assms by (simp add: get_date_def get_year_padded getnum_padded in_range_def)

lemma get_clock_padded:
  assumes "0 \<le> h" "h \<le> 23" "0 \<le> mi" "mi \<le> 59" "0 \<le> s" "s \<le> 59"
  shows "get_clock (padded 2 h @ padded 2 mi @ padded 2 s @ ''Z'') = Some ((h, mi, s, 0), ''Z'')"
  using assms by (simp add: get_clock_def getnum_padded in_range_def get_fraction_def)

lemma clock_parts_sum:
  fixes s :: int
  assumes "0 \<le> s" "s < 86400"
  obtains h mi sec where "h = s div 3600" "mi = s div 60 mod 60" "sec = s mod 60"
    "0 \<le> h" "h \<le> 23" "0 \<le> mi" "mi \<le> 59" "0 \<le> sec" "sec \<le> 59" "h * 3600 + mi * 60 + sec = s"
proof
  show "0 \<le> s div 3600" "s div 3600 \<le> 23" "0 \<le> s div 60 mod 60" "0 \<le> s mod 60" using assms by simp_all
  show "s div 60 mod 60 \<le> 59" using pos_mod_bound [of 60 "s div 60"] by simp
  show "s mod 60 \<le> 59" using pos_mod_bound [of 60 s] by simp
  have "s div 3600 = s div 60 div 60" by (simp add: zdiv_zmult2_eq [symmetric])
  then show "s div 3600 * 3600 + s div 60 mod 60 * 60 + s mod 60 = s"
    using div_mult_mod_eq [of "s div 60" 60] div_mult_mod_eq [of s 60] by linarith
qed simp_all

text \<open>What \<open>format_compact\<close> writes of an instant in UTC.\<close>

lemma format_compact_parts:
  assumes "t_loc t = utc" and "0 \<le> fst (civil_of (t_sec t div 86400))" "fst (civil_of (t_sec t div 86400)) < 10000"
  obtains y m d h mi s where
    "format_compact t = padded 4 y @ padded 2 m @ padded 2 d @ ''T'' @ padded 2 h @ padded 2 mi @ padded 2 s @ ''Z''"
    "0 \<le> y" "y < 10000" "1 \<le> m" "m \<le> 12" "1 \<le> d" "d \<le> days_in m y" "0 \<le> h" "h \<le> 23" "0 \<le> mi" "mi \<le> 59" "0 \<le> s" "s \<le> 59"
    "civil_secs y m d h mi s = t_sec t"
proof -
  obtain y m d where c: "civil_of (t_sec t div 86400) = (y, m, d)" by (metis prod_cases3)
  note b = civil_of_civil_days [OF c]
  obtain h mi s where k: "h = t_sec t mod 86400 div 3600" "mi = t_sec t mod 86400 div 60 mod 60" "s = t_sec t mod 86400 mod 60"
    "0 \<le> h" "h \<le> 23" "0 \<le> mi" "mi \<le> 59" "0 \<le> s" "s \<le> 59" "h * 3600 + mi * 60 + s = t_sec t mod 86400"
    using clock_parts_sum [of "t_sec t mod 86400"] by (metis pos_mod_bound pos_mod_sign zero_less_numeral)
  have "wall_secs t = t_sec t" using assms(1) by (simp add: wall_secs_def utc_def)
  then have "format_compact t = padded 4 y @ padded 2 m @ padded 2 d @ ''T'' @ padded 2 h @ padded 2 mi @ padded 2 s @ ''Z''"
    by (simp add: format_compact_def c k(1-3) Let_def)
  moreover have "civil_secs y m d h mi s = t_sec t"
    using k(10) b(1) div_mult_mod_eq [of "t_sec t" 86400] unfolding civil_secs_def by linarith
  ultimately show thesis using that assms(2,3) c b(2-) k(4-9) by simp
qed

lemma parse_formatted:
  assumes "t_loc t = utc" and "0 \<le> fst (civil_of (t_sec t div 86400))" "fst (civil_of (t_sec t div 86400)) < 10000"
  shows "parse_datetime ''Z'' utc (format_compact t) = Some \<lparr>t_sec = t_sec t, t_nsec = 0, t_loc = utc\<rparr>"
  using assms
proof (rule format_compact_parts)
  fix y m d h mi s
  assume f: "format_compact t = padded 4 y @ padded 2 m @ padded 2 d @ ''T'' @ padded 2 h @ padded 2 mi @ padded 2 s @ ''Z''"
    and y: "0 \<le> y" "y < 10000" and m: "1 \<le> m" "m \<le> 12" and d: "1 \<le> d" "d \<le> days_in m y"
    and k: "0 \<le> h" "h \<le> 23" "0 \<le> mi" "mi \<le> 59" "0 \<le> s" "s \<le> 59" and secs: "civil_secs y m d h mi s = t_sec t"
  have d100: "0 \<le> d" "d < 100" using d days_in_bounds [of m y] by simp_all
  show ?thesis
    unfolding f parse_datetime_def get_date_padded [OF y m d100]
    using d by (simp add: get_literal_def get_clock_padded [OF k] valid_day_def date_in_def secs)
qed

lemma days_before_year_10000:
  assumes "10000 \<le> y"
  shows "days_before_year 10000 \<le> days_before_year y"
  using assms
proof (induction y rule: int_ge_induct)
  case (step y)
  then show ?case using year_length [of y] by (auto split: if_splits)
qed simp

lemma civil_year_bounds:
  assumes "0 \<le> n" "n < 2932897"
  shows "0 \<le> fst (civil_of n)" "fst (civil_of n) < 10000"
proof -
  obtain y d where yd: "year_day (n + 719162) = (y, d)" by fastforce
  note b = year_day_bounds [OF yd]
  have fst: "fst (civil_of n) = y" by (simp add: civil_of_def yd Let_def)
  have "y < 10000"
    using days_before_year_10000 [of y] b(1,2) assms(2) by (cases "10000 \<le> y") (simp_all add: days_before_year_def)
  then show "fst (civil_of n) < 10000" by (simp only: fst)
  have "days_before_year (y + 1) > 0" using b assms(1) by simp
  then have "0 \<le> y - 1"
    by (cases "y \<le> 0") (auto simp: days_before_year_def)
  then show "0 \<le> fst (civil_of n)" by (simp add: fst)
qed

text \<open>A formatted instant is 16 characters that upper-casing keeps.\<close>

lemma format_compact_shape:
  assumes "t_loc t = utc" and "0 \<le> fst (civil_of (t_sec t div 86400))" "fst (civil_of (t_sec t div 86400)) < 10000"
  shows "length (format_compact t) = 16" "\<exists>s. format_compact t = s @ ''Z''"
    "\<forall>c\<in>set (format_compact t). is_digit c \<or> c = CHR ''T'' \<or> c = CHR ''Z''"
proof -
  obtain y m d h mi sec where f: "format_compact t = padded 4 y @ padded 2 m @ padded 2 d @ ''T'' @ padded 2 h @ padded 2 mi @ padded 2 sec @ ''Z''"
    and y: "0 \<le> y" "y < 10000" and m: "1 \<le> m" "m \<le> 12" and d: "1 \<le> d" "d \<le> days_in m y"
    and k: "0 \<le> h" "h \<le> 23" "0 \<le> mi" "mi \<le> 59" "0 \<le> sec" "sec \<le> 59"
    using format_compact_parts [OF assms] by metis
  have "length (nat_digits (nat y)) \<le> 4" using length_nat_digits [of "nat y" 3] y by simp
  then have p4: "length (padded 4 y) = 4" "\<forall>c\<in>set (padded 4 y). is_digit c"
    using y nat_digits_digits [of "nat y"] by (auto simp: padded_def Let_def is_digit_def byte_def)
  have p2: "length (padded 2 i) = 2" "\<forall>c\<in>set (padded 2 i). is_digit c" if "0 \<le> i" "i < 100" for i
    using padded_2 [OF that] that by (simp_all add: less_mult_imp_div_less)
  have below: "0 \<le> m" "m < 100" "0 \<le> d" "d < 100" "h < 100" "mi < 100" "sec < 100"
    using m d k days_in_bounds [of m y] by simp_all
  note p = p2 [OF below(1,2)] p2 [OF below(3,4)] p2 [OF k(1) below(5)] p2 [OF k(3) below(6)] p2 [OF k(5) below(7)]
  show "length (format_compact t) = 16" using p p4 by (simp add: f)
  show "\<exists>s. format_compact t = s @ ''Z''"
    unfolding f by (rule exI [of _ "padded 4 y @ padded 2 m @ padded 2 d @ ''T'' @ padded 2 h @ padded 2 mi @ padded 2 sec"]) simp
  show "\<forall>c\<in>set (format_compact t). is_digit c \<or> c = CHR ''T'' \<or> c = CHR ''Z''"
    unfolding f set_append ball_Un using p p4 by simp
qed

end
