(* ===== verification/Sendtest.thy ===== *)
theory Sendtest
  imports Go_Format Go_Base64 Http_Server
begin

text \<open>
  \<open>internal/sendtest/sendtest.go\<close>: the messages of the built-in sender and the exchange that delivers them.
  \<open>printable\<close> is the table of \<open>strconv.IsPrint\<close>.
\<close>

section \<open>The calendar object\<close>

text \<open>The escaping of text values; line breaks become line feeds first.\<close>

definition escape_char :: "char \<Rightarrow> bytes" where
  "escape_char c =
     (if c = BSLASH then [BSLASH, BSLASH] else if c = LF then [BSLASH] @ ''n'' else if c = CHR '';'' then [BSLASH] @ '';''
      else if c = CHR '','' then [BSLASH] @ '','' else [c])"

definition normal_breaks :: "bytes \<Rightarrow> bytes" where
  "normal_breaks s = replace_all [CR] [LF] (replace_all CRLF [LF] s)"

definition escape_text :: "bytes \<Rightarrow> bytes" where
  "escape_text s = concat (map escape_char (normal_breaks s))"

definition is_alnum :: "char \<Rightarrow> bool" where
  "is_alnum c \<longleftrightarrow> is_digit c \<or> (97 \<le> byte c \<and> byte c \<le> 122) \<or> (65 \<le> byte c \<and> byte c \<le> 90)"

text \<open>\<open>unsafeUID\<close> replaces runes, not bytes.\<close>

definition safe_uid :: "bytes \<Rightarrow> bytes" where
  "safe_uid s = map (\<lambda>r. if r < 128 \<and> is_alnum (chr r) then chr r else CHR ''-'') (runes s)"

definition test_uid :: "bytes \<Rightarrow> bytes" where
  "test_uid to = ''hoomail-demo-'' @ safe_uid to @ ''@hoomail.local''"

definition utc_stamp :: "go_time \<Rightarrow> bytes" where
  "utc_stamp t = format_compact (in_utc t)"

definition ics_lines :: "bytes \<Rightarrow> bytes \<Rightarrow> bytes \<Rightarrow> bytes \<Rightarrow> int \<Rightarrow> go_time \<Rightarrow> go_time \<Rightarrow> go_time \<Rightarrow> bytes list" where
  "ics_lines to summary meth status sequence created start end' =
     [''BEGIN:VCALENDAR'', ''PRODID:-//hoomail//test sender//EN'', ''VERSION:2.0'', ''METHOD:'' @ meth, ''BEGIN:VEVENT'',
      ''UID:'' @ test_uid to, ''SEQUENCE:'' @ itoa sequence, ''DTSTAMP:'' @ utc_stamp created, ''DTSTART:'' @ utc_stamp start,
      ''DTEND:'' @ utc_stamp end', ''SUMMARY:'' @ escape_text summary, ''LOCATION:Owl Tree Conference Room'',
      ''DESCRIPTION:A test appointment sent by the hoomail built-in sender.'', ''STATUS:'' @ status,
      ''ORGANIZER;CN=The hoomail Owl:mailto:owl@hoomail.local'',
      ''ATTENDEE;CN='' @ escape_text to @ '';ROLE=REQ-PARTICIPANT;PARTSTAT=NEEDS-ACTION;RSVP=TRUE:mailto:'' @ escape_text to,
      ''END:VEVENT'', ''END:VCALENDAR'']"

definition build_ics :: "bytes \<Rightarrow> bytes \<Rightarrow> bytes \<Rightarrow> bytes \<Rightarrow> int \<Rightarrow> go_time \<Rightarrow> go_time \<Rightarrow> go_time \<Rightarrow> bytes" where
  "build_ics to summary meth status sequence created start end' =
     join CRLF (ics_lines to summary meth status sequence created start end')"

section \<open>Messages\<close>

definition write_headers :: "bytes \<Rightarrow> bytes \<Rightarrow> go_time \<Rightarrow> bytes" where
  "write_headers to subject now =
     ''From: '' @ [DQUOTE] @ ''The hoomail Owl'' @ [DQUOTE] @ '' <owl@hoomail.local>'' @ CRLF
       @ ''To: '' @ address_string to @ CRLF @ ''Subject: '' @ q_encode subject @ CRLF
       @ ''Date: '' @ format_rfc1123z now @ CRLF @ ''Message-ID: <'' @ itoa (wrap_int64 (nanos now)) @ ''@hoomail.local>'' @ CRLF"

definition sample_html :: "bytes \<Rightarrow> bytes" where
  "sample_html recipient =
     ''<!DOCTYPE html><html><body style='' @ [DQUOTE]
       @ ''margin:0;padding:0;background-color:#f4f1ea;font-family:Georgia,serif;'' @ [DQUOTE]
       @ ''><h1>Hoot hoot! It works.</h1><p>This test email was delivered through the hoomail SMTP server to <strong>''
       @ html_escape recipient
       @ ''</strong>. The inbox was created automatically, the message was parsed, stored in SQLite, and pushed to the UI in realtime.</p><a href=''
       @ [DQUOTE] @ ''https://example.com'' @ [DQUOTE] @ ''>A sample button</a></body></html>''"

definition plain_body :: "bytes \<Rightarrow> bytes" where
  "plain_body to =
     ''Hoot hoot! It works.'' @ CRLF @ CRLF @ ''This test email was delivered through the hoomail SMTP server to '' @ to
       @ ''. The inbox was created automatically, the message was parsed, stored in SQLite, and pushed to the UI in realtime.''"

definition sample_attachment :: bytes where
  "sample_attachment = ''This is a sample attachment from the hoomail test sender.'' @ [LF] @ ''Hoot hoot!'' @ [LF]"

text \<open>The header of a multipart entity, and that of a part with a quoted-printable text.\<close>

definition multipart_header :: "(rune \<Rightarrow> bool) \<Rightarrow> bytes \<Rightarrow> bytes \<Rightarrow> bytes" where
  "multipart_header printable subtype boundary =
     ''Content-Type: multipart/'' @ subtype @ ''; boundary='' @ go_quote printable boundary @ CRLF @ CRLF"

definition text_part :: "bytes \<Rightarrow> bytes \<Rightarrow> bytes \<Rightarrow> bytes" where
  "text_part boundary typ body =
     ''--'' @ boundary @ CRLF @ ''Content-Type: '' @ typ @ CRLF @ ''Content-Transfer-Encoding: quoted-printable'' @ CRLF @ CRLF
       @ qp_write body"

definition plain_message :: "(rune \<Rightarrow> bool) \<Rightarrow> bytes \<Rightarrow> bytes \<Rightarrow> go_time \<Rightarrow> bytes" where
  "plain_message printable to subject now =
     (let mixed = ''hoomail-mixed-boundary''; alternative = ''hoomail-alt-boundary'' in
      write_headers to subject now @ ''MIME-Version: 1.0'' @ CRLF @ multipart_header printable ''mixed'' mixed
        @ ''--'' @ mixed @ CRLF @ multipart_header printable ''alternative'' alternative
        @ text_part alternative ''text/plain; charset=utf-8'' (plain_body to) @ CRLF
        @ text_part alternative ''text/html; charset=utf-8'' (sample_html to) @ CRLF
        @ ''--'' @ alternative @ ''--'' @ CRLF
        @ ''--'' @ mixed @ CRLF @ ''Content-Type: text/plain; name='' @ [DQUOTE] @ ''hoot.txt'' @ [DQUOTE] @ CRLF
        @ ''Content-Disposition: attachment; filename='' @ [DQUOTE] @ ''hoot.txt'' @ [DQUOTE] @ CRLF
        @ ''Content-Transfer-Encoding: base64'' @ CRLF @ CRLF @ b64_encode sample_attachment @ CRLF
        @ ''--'' @ mixed @ ''--'' @ CRLF)"

text \<open>Method, sequence number, status, prefix of the subject and hour of each kind of calendar message.\<close>

definition calendar_kind :: "bytes \<Rightarrow> bytes \<times> int \<times> bytes \<times> bytes \<times> int" where
  "calendar_kind kind =
     (if kind = ''update'' then (''REQUEST'', 1, ''CONFIRMED'', ''Updated invitation'', 11)
      else if kind = ''cancellation'' then (''CANCEL'', 2, ''CANCELLED'', ''Cancelled'', 10)
      else (''REQUEST'', 0, ''CONFIRMED'', ''Invitation'', 10))"

text \<open>The start of the event: the next day, at the hour.\<close>

definition event_start :: "int \<Rightarrow> go_time \<Rightarrow> go_time" where
  "event_start hour now =
     (let (y, m, d) = civil_of (wall_secs (add_days 1 (in_utc now)) div 86400) in
      date_in utc (civil_secs y m d hour 0 0) 0)"

definition event_end :: "go_time \<Rightarrow> go_time" where
  "event_end start = add_duration (30 * 60 * 1000000000) start"

definition calendar_ics :: "send_test_request \<Rightarrow> bytes \<Rightarrow> go_time \<Rightarrow> bytes" where
  "calendar_ics request summary now =
     (let (meth, sequence, status, prefix', hour) = calendar_kind (str_kind request); start = event_start hour now in
      build_ics (str_to request) summary meth status sequence (in_utc now) start (event_end start))"

definition calendar_message :: "(rune \<Rightarrow> bool) \<Rightarrow> send_test_request \<Rightarrow> bytes \<Rightarrow> go_time \<Rightarrow> bytes" where
  "calendar_message printable request summary now =
     (let (meth, sequence, status, prefix', hour) = calendar_kind (str_kind request);
          boundary = ''hoomail-calendar-boundary'';
          body = (if str_kind request = ''cancellation''
                  then ''The event '' @ go_quote printable summary @ '' has been cancelled.''
                  else ''You have been invited to '' @ go_quote printable summary
                         @ ''. Open this message in hoomail to see the appointment.'') in
      write_headers (str_to request) (prefix' @ '': '' @ summary) now @ ''MIME-Version: 1.0'' @ CRLF
        @ multipart_header printable ''alternative'' boundary
        @ text_part boundary ''text/plain; charset=utf-8'' body @ CRLF
        @ text_part boundary (''text/calendar; charset=utf-8; method='' @ meth) (calendar_ics request summary now) @ CRLF
        @ ''--'' @ boundary @ ''--'' @ CRLF)"

text \<open>The subject, with a default for an empty one.\<close>

definition subject_of :: "send_test_request \<Rightarrow> bytes" where
  "subject_of request =
     (let subject = trim_space (str_subject request) in
      if subject \<noteq> [] then subject
      else if str_kind request = ''plain'' then ''hoomail delivery test'' else ''Owl standup meeting'')"

definition build_message :: "(rune \<Rightarrow> bool) \<Rightarrow> send_test_request \<Rightarrow> go_time \<Rightarrow> bytes" where
  "build_message printable request now =
     (if str_kind request = ''plain'' then plain_message printable (str_to request) (subject_of request) now
      else calendar_message printable request (subject_of request) now)"

section \<open>The exchange\<close>

text \<open>
  The calls of \<open>SendTest\<close> on the network and on \<open>smtp.Client\<close>.  A peer answers each with an error or
  without; its state is threaded through.  The context is asked once at the end.
\<close>

datatype call =
  Dial bytes | Set_Deadline | New_Client bytes | Mail bytes | Rcpt bytes | Data | Write bytes | Close_Data | Quit
| Close_Client | Close_Connection

record ('s, 'e) peer =
  pr_perform :: "call \<Rightarrow> 's \<Rightarrow> 'e option \<times> 's"
  pr_has_deadline :: bool
  pr_context_error :: "'s \<Rightarrow> 'e option"
  pr_timed_out :: "'s \<Rightarrow> 'e \<Rightarrow> bool"
  pr_deadline_exceeded :: 'e

text \<open>Calls in order until one fails: the error, the calls made and the state.\<close>

fun run_calls :: "(call \<Rightarrow> 's \<Rightarrow> 'e option \<times> 's) \<Rightarrow> call list \<Rightarrow> 's \<Rightarrow> 'e option \<times> call list \<times> 's" where
  "run_calls perform [] s = (None, [], s)"
| "run_calls perform (c # cs) s =
     (case perform c s of
        (Some e, s) \<Rightarrow> (Some e, [c], s)
      | (None, s) \<Rightarrow> (case run_calls perform cs s of (r, done, s) \<Rightarrow> (r, c # done, s)))"

definition host_of :: "bytes \<Rightarrow> bytes" where
  "host_of address = (case split_host_port address of None \<Rightarrow> ''localhost'' | Some h \<Rightarrow> h)"

text \<open>The conversation with the server; the error the deferred function puts in its place.\<close>

definition mail_calls :: "bytes \<Rightarrow> bytes \<Rightarrow> call list" where
  "mail_calls to message = [Mail ''owl@hoomail.local'', Rcpt to, Data, Write message, Close_Data, Quit]"

definition final_error :: "('s, 'e) peer \<Rightarrow> 's \<Rightarrow> 'e option \<Rightarrow> 'e option" where
  "final_error p s r =
     (case pr_context_error p s of
        Some e \<Rightarrow> Some e
      | None \<Rightarrow>
          (case r of
             Some e \<Rightarrow> if pr_has_deadline p \<and> pr_timed_out p s e then Some (pr_deadline_exceeded p) else r
           | None \<Rightarrow> None))"

text \<open>What follows once connected and the deadline set; the client is closed when there is one.\<close>

definition conversation :: "('s, 'e) peer \<Rightarrow> bytes \<Rightarrow> bytes \<Rightarrow> bytes \<Rightarrow> 's \<Rightarrow> 'e option \<times> call list \<times> 's" where
  "conversation p host to message s =
     (case pr_perform p (New_Client host) s of
        (Some e, s) \<Rightarrow> (final_error p s (Some e), [New_Client host], s)
      | (None, s) \<Rightarrow>
          (case run_calls (pr_perform p) (mail_calls to message) s of
             (r, calls, s) \<Rightarrow>
               (let s = snd (pr_perform p Close_Client s) in
                (final_error p s r, New_Client host # calls @ [Close_Client], s))))"

definition send_test ::
  "(rune \<Rightarrow> bool) \<Rightarrow> ('s, 'e) peer \<Rightarrow> bytes \<Rightarrow> go_time \<Rightarrow> send_test_request \<Rightarrow> 's
     \<Rightarrow> 'e option \<times> call list \<times> 's" where
  "send_test printable p address now request s =
     (let address = (if address = [] then ''127.0.0.1:2525'' else address);
          message = build_message printable request now;
          host = host_of address in
      case pr_perform p (Dial address) s of
        (Some e, s) \<Rightarrow> (Some e, [Dial address], s)
      | (None, s) \<Rightarrow>
          (case (if pr_has_deadline p then pr_perform p Set_Deadline s else (None, s)) of
             (Some e, s) \<Rightarrow>
               (Some e, [Dial address, Set_Deadline, Close_Connection], snd (pr_perform p Close_Connection s))
           | (None, s) \<Rightarrow>
               (case conversation p host (str_to request) message s of
                  (r, calls, s) \<Rightarrow>
                    (r, [Dial address] @ (if pr_has_deadline p then [Set_Deadline] else []) @ calls @ [Close_Connection],
                     snd (pr_perform p Close_Connection s)))))"

end
