(* ===== verification/Sendtest_Props.thy ===== *)
theory Sendtest_Props
  imports Sendtest Calendar_Plain
begin

text \<open>
  What the built-in sender writes is what the calendar parser reads, its header fields cannot be forged by the
  subject, and its exchange with the server ends as it should.
\<close>

section \<open>Text values\<close>

lemma cr_not_in_replaced: "CR \<notin> set (replace_all [CR] [LF] s)"
  by (induction "[CR]" "[LF]" s rule: replace_all.induct) (auto simp: has_prefix_def)

lemma replace_all_Nil_iff: "old \<noteq> [] \<Longrightarrow> new \<noteq> [] \<Longrightarrow> replace_all old new s = [] \<longleftrightarrow> s = []"
  by (cases s) auto

lemma normal_breaks_facts: "CR \<notin> set (normal_breaks s)" "normal_breaks s = [] \<longleftrightarrow> s = []"
  by (simp_all add: normal_breaks_def cr_not_in_replaced replace_all_Nil_iff)

lemma decode_escaped: "CR \<notin> set s \<Longrightarrow> decode_text (concat (map escape_char s)) = Some s"
  by (induction s) (auto simp: escape_char_def)

lemma escape_text_roundtrip: "decode_text (escape_text s) = Some (normal_breaks s)"
  by (simp add: escape_text_def decode_escaped normal_breaks_facts)

lemma one_line_escaped: "one_line (escape_text s)"
  using normal_breaks_facts(1) [of s] by (auto simp: escape_text_def one_line_def escape_char_def split: if_splits)

lemma escape_clean: "clean s \<Longrightarrow> escape_text s = s"
proof -
  assume s: "clean s"
  then have "normal_breaks s = s"
    by (auto simp: normal_breaks_def clean_def replace_all_absent)
  moreover have "concat (map escape_char s) = s"
    using s by (induction s) (auto simp: escape_char_def)
  ultimately show ?thesis by (simp add: escape_text_def)
qed

lemma decode_plain: "BSLASH \<notin> set s \<Longrightarrow> decode_text s = Some s"
  by (induction s) auto

lemma test_uid_facts: "clean (test_uid to)" "test_uid to \<noteq> []"
proof -
  have "is_alnum c \<Longrightarrow> clean [c]" for c by (auto simp: is_alnum_def is_digit_def byte_def)
  moreover have "is_alnum c \<or> c = CHR ''-''" if "c \<in> set (safe_uid to)" for c using that by (auto simp: safe_uid_def)
  ultimately have "clean (safe_uid to)" unfolding clean_def by fastforce
  then show "clean (test_uid to)" "test_uid to \<noteq> []" by (simp_all add: test_uid_def)
qed

lemma clean_one_line: "clean s \<Longrightarrow> one_line s"
  by (auto simp: clean_def one_line_def)

section \<open>The lines of the object\<close>

definition ics_fields :: "bytes \<Rightarrow> bytes \<Rightarrow> bytes \<Rightarrow> bytes \<Rightarrow> int \<Rightarrow> go_time \<Rightarrow> go_time \<Rightarrow> go_time \<Rightarrow> line_fields list" where
  "ics_fields to summary meth status sequence created start end' =
     [(''BEGIN'', [], ''VCALENDAR''), (''PRODID'', [], ''-//hoomail//test sender//EN''), (''VERSION'', [], ''2.0''),
      (''METHOD'', [], meth), (''BEGIN'', [], ''VEVENT''), (''UID'', [], test_uid to), (''SEQUENCE'', [], itoa sequence),
      (''DTSTAMP'', [], utc_stamp created), (''DTSTART'', [], utc_stamp start), (''DTEND'', [], utc_stamp end'),
      (''SUMMARY'', [], escape_text summary), (''LOCATION'', [], ''Owl Tree Conference Room''),
      (''DESCRIPTION'', [], ''A test appointment sent by the hoomail built-in sender.''), (''STATUS'', [], status),
      (''ORGANIZER'', [(''CN'', ''The hoomail Owl'')], ''mailto:owl@hoomail.local''),
      (''ATTENDEE'', [(''CN'', to), (''ROLE'', ''REQ-PARTICIPANT''), (''PARTSTAT'', ''NEEDS-ACTION''), (''RSVP'', ''TRUE'')],
        ''mailto:'' @ to),
      (''END'', [], ''VEVENT''), (''END'', [], ''VCALENDAR'')]"

lemma ics_lines_fields:
  "clean to \<Longrightarrow> ics_lines to summary meth status sequence created start end' =
     map render (ics_fields to summary meth status sequence created start end')"
  by (simp add: ics_lines_def ics_fields_def render_def escape_clean)

lemma plain_names:
  "\<forall>n\<in>set [''BEGIN'', ''PRODID'', ''VERSION'', ''METHOD'', ''UID'', ''SEQUENCE'', ''DTSTAMP'', ''DTSTART'', ''DTEND'', ''SUMMARY'',
     ''LOCATION'', ''DESCRIPTION'', ''STATUS'', ''ORGANIZER'', ''ATTENDEE'', ''END'', ''CN'', ''ROLE'', ''PARTSTAT'', ''RSVP'',
     ''VCALENDAR'', ''VEVENT'', ''REQUEST'', ''CANCEL'', ''CONFIRMED'', ''CANCELLED'', ''NEEDS-ACTION'', ''REQ-PARTICIPANT'']. plain_name n"
  by (simp add: plain_name_def byte_def)

lemma itoa_one_line: "one_line (itoa i)"
  using itoa_graphic [of i] by (auto simp: one_line_def is_digit_def byte_def)

lemma ics_fields_plain:
  assumes "clean to" "clean meth" "clean status" "one_line (utc_stamp created)" "one_line (utc_stamp start)" "one_line (utc_stamp end')"
  shows "\<forall>(name, ps, v)\<in>set (ics_fields to summary meth status sequence created start end'). plain_fields (name, ps, v) \<and> one_line v"
  using assms plain_names clean_one_line [OF assms(1)] clean_one_line [OF assms(2)] clean_one_line [OF assms(3)]
    clean_one_line [OF test_uid_facts(1)]
  unfolding ics_fields_def
  by (simp add: plain_fields_def one_line_escaped itoa_one_line, simp add: one_line_def)

section \<open>The event\<close>

text \<open>The event of a calendar message.\<close>

definition sent_event :: "unicode \<Rightarrow> bytes \<Rightarrow> bytes \<Rightarrow> bytes \<Rightarrow> bytes \<Rightarrow> int \<Rightarrow> int \<Rightarrow> int \<Rightarrow> parsed_event" where
  "sent_event u to summary meth status sequence start end' =
     \<lparr>pe_method = meth, pe_uid = test_uid to, pe_sequence = sequence, pe_summary = Some (normal_breaks summary),
      pe_description = Some ''A test appointment sent by the hoomail built-in sender.'',
      pe_location = Some ''Owl Tree Conference Room'', pe_status = Some status,
      pe_organizer_address = Some ''owl@hoomail.local'', pe_organizer_name = Some ''The hoomail Owl'',
      pe_attendees = [\<lparr>at_address = to_lower u to, at_name = Some to, at_partstat = Some ''NEEDS-ACTION'',
        at_role = Some ''REQ-PARTICIPANT''\<rparr>],
      pe_dtstart = start, pe_dtend = Some end', pe_all_day = False\<rparr>"

definition in_years :: "go_time \<Rightarrow> bool" where
  "in_years t \<longleftrightarrow> 0 \<le> t_sec t \<and> t_sec t < 253402300800"

lemma utc_stamp_facts:
  assumes "in_years t"
  shows "parse_datetime ''Z'' utc (utc_stamp t) = Some \<lparr>t_sec = t_sec t, t_nsec = 0, t_loc = utc\<rparr>"
    "length (utc_stamp t) = 16" "\<exists>s. utc_stamp t = s @ ''Z''" "one_line (utc_stamp t)" "\<And>u. to_upper u (utc_stamp t) = utc_stamp t"
proof -
  have days: "0 \<le> t_sec t div 86400" "t_sec t div 86400 < 2932897"
    using assms by (auto simp: in_years_def)
  note y = civil_year_bounds [OF days]
  have u: "t_loc (in_utc t) = utc" "t_sec (in_utc t) = t_sec t" by (simp_all add: in_utc_def)
  note shape = format_compact_shape [OF u(1), unfolded u(2), OF y]
  show "parse_datetime ''Z'' utc (utc_stamp t) = Some \<lparr>t_sec = t_sec t, t_nsec = 0, t_loc = utc\<rparr>"
    using parse_formatted [OF u(1), unfolded u(2), OF y] by (simp add: utc_stamp_def)
  show "length (utc_stamp t) = 16" "\<exists>s. utc_stamp t = s @ ''Z''" using shape by (simp_all add: utc_stamp_def)
  have digits: "\<forall>c\<in>set (utc_stamp t). is_digit c \<or> c = CHR ''T'' \<or> c = CHR ''Z''" using shape by (simp add: utc_stamp_def)
  then show "one_line (utc_stamp t)" by (auto simp: one_line_def is_digit_def byte_def)
  have "ascii (utc_stamp t)" using digits by (auto simp: ascii_def is_digit_def byte_def)
  moreover have "map ascii_upper (utc_stamp t) = utc_stamp t"
    using digits by (intro map_idI) (auto simp: ascii_upper_def is_digit_def byte_def)
  ultimately show "to_upper u (utc_stamp t) = utc_stamp t" for u by (simp add: to_upper_ascii)
qed

lemma parse_stamp_line:
  assumes "in_years t"
  shows "parse_calendar_time u tz \<lparr>cl_name = n, cl_value = utc_stamp t, cl_params = []\<rparr> =
    Some (\<lparr>t_sec = t_sec t, t_nsec = 0, t_loc = utc\<rparr>, False)"
proof -
  note f = utc_stamp_facts [OF assms]
  have "runes ''DATE'' \<noteq> []" "runes [] = []" unfolding runes_Nil_iff by simp_all
  then have "\<not> equal_fold u [] ''DATE''" unfolding equal_fold_def by (metis Nil_is_map_conv)
  then have "\<not> is_all_day u \<lparr>cl_name = n, cl_value = utc_stamp t, cl_params = []\<rparr>"
    using f(2) by (simp add: is_all_day_def first_parameter_def)
  moreover have "ends_in_z u (utc_stamp t)"
    using f(3) by (auto simp: ends_in_z_def f(5) has_suffix_def)
  ultimately show ?thesis using f(1,5) by (simp add: parse_calendar_time_def)
qed

lemma upper_words:
  "to_upper u ''VCALENDAR'' = ''VCALENDAR''" "to_upper u ''VEVENT'' = ''VEVENT''"
  "to_upper u ''REQ-PARTICIPANT'' = ''REQ-PARTICIPANT''" "to_upper u ''NEEDS-ACTION'' = ''NEEDS-ACTION''"
  using plain_names by (simp_all add: plain_name_upper)

text \<open>The builder when the event ends.\<close>

definition sent_builder :: "bytes \<Rightarrow> bytes \<Rightarrow> bytes \<Rightarrow> bytes \<Rightarrow> int \<Rightarrow> go_time \<Rightarrow> go_time \<Rightarrow> go_time \<Rightarrow> event_builder" where
  "sent_builder to summary meth status sequence created start end' =
     fold builder_add (map read_as (take 11 (drop 5 (ics_fields to summary meth status sequence created start end')))) new_event_builder"

lemma sent_builder_props:
  fixes to summary meth status :: bytes and sequence :: int and created start end' :: go_time
  defines "b \<equiv> sent_builder to summary meth status sequence created start end'"
  shows "map_of (eb_properties b) =
      [''UID'' \<mapsto> \<lparr>cl_name = ''UID'', cl_value = test_uid to, cl_params = []\<rparr>,
       ''SEQUENCE'' \<mapsto> \<lparr>cl_name = ''SEQUENCE'', cl_value = itoa sequence, cl_params = []\<rparr>,
       ''DTSTAMP'' \<mapsto> \<lparr>cl_name = ''DTSTAMP'', cl_value = utc_stamp created, cl_params = []\<rparr>,
       ''DTSTART'' \<mapsto> \<lparr>cl_name = ''DTSTART'', cl_value = utc_stamp start, cl_params = []\<rparr>,
       ''DTEND'' \<mapsto> \<lparr>cl_name = ''DTEND'', cl_value = utc_stamp end', cl_params = []\<rparr>,
       ''SUMMARY'' \<mapsto> \<lparr>cl_name = ''SUMMARY'', cl_value = escape_text summary, cl_params = []\<rparr>,
       ''LOCATION'' \<mapsto> \<lparr>cl_name = ''LOCATION'', cl_value = ''Owl Tree Conference Room'', cl_params = []\<rparr>,
       ''DESCRIPTION'' \<mapsto> \<lparr>cl_name = ''DESCRIPTION'', cl_value = ''A test appointment sent by the hoomail built-in sender.'', cl_params = []\<rparr>,
       ''STATUS'' \<mapsto> \<lparr>cl_name = ''STATUS'', cl_value = status, cl_params = []\<rparr>,
       ''ORGANIZER'' \<mapsto> \<lparr>cl_name = ''ORGANIZER'', cl_value = ''mailto:owl@hoomail.local'', cl_params = [(''CN'', [''The hoomail Owl''])]\<rparr>]"
    and "eb_attendees b = [\<lparr>cl_name = ''ATTENDEE'', cl_value = ''mailto:'' @ to,
      cl_params = [(''CN'', [to]), (''ROLE'', [''REQ-PARTICIPANT'']), (''PARTSTAT'', [''NEEDS-ACTION'']), (''RSVP'', [''TRUE''])]\<rparr>]"
  unfolding b_def sent_builder_def ics_fields_def
  by (simp_all add: read_as_def builder_add_def new_event_builder_def)

lemma build_sent:
  assumes to: "to \<noteq> []" and s: "summary \<noteq> []" and years: "in_years start" "in_years end'"
    and words: "to_upper u meth = meth" "to_upper u status = status" "status \<noteq> []" and seq: "0 \<le> sequence" "in_int64 sequence"
  shows "build u tz meth (sent_builder to summary meth status sequence created start end') =
    Built (sent_event u to summary meth status sequence (unix_milli \<lparr>t_sec = t_sec start, t_nsec = 0, t_loc = utc\<rparr>)
      (unix_milli \<lparr>t_sec = t_sec end', t_nsec = 0, t_loc = utc\<rparr>))"
proof -
  let ?b = "sent_builder to summary meth status sequence created start end'"
  note p = sent_builder_props [of to summary meth status sequence created start end']
  have uid: "decode_text (test_uid to) = Some (test_uid to)"
    using test_uid_facts(1) [of to] by (intro decode_plain) (auto simp: clean_def)
  have texts: "decode_text ''Owl Tree Conference Room'' = Some ''Owl Tree Conference Room''"
    "decode_text ''A test appointment sent by the hoomail built-in sender.'' = Some ''A test appointment sent by the hoomail built-in sender.''"
    by (rule decode_plain, simp)+
  have owl: "mailto u ''mailto:owl@hoomail.local'' = Some ''owl@hoomail.local''"
    by (simp add: mailto_def Let_def to_lower_ascii ascii_def byte_def ascii_lower_def)
  have whom: "mailto u (''mailto:'' @ to) = Some (to_lower u to)" using to by (simp add: mailto_def Let_def)
  have "parse_sequence (itoa sequence) = sequence" using seq by (simp add: parse_sequence_def atoi_itoa)
  moreover have "build_end u tz ?b x y = Some (Some (unix_milli \<lparr>t_sec = t_sec end', t_nsec = 0, t_loc = utc\<rparr>))" for x y
    by (simp add: build_end_def p parse_stamp_line [OF years(2)])
  moreover have "build_attendees u (eb_attendees ?b) = [\<lparr>at_address = to_lower u to, at_name = Some to,
      at_partstat = Some ''NEEDS-ACTION'', at_role = Some ''REQ-PARTICIPANT''\<rparr>]"
    using to whom by (simp add: build_attendees_def p optional_parameter_def upper_words)
  ultimately show ?thesis
    unfolding build_def prop_line_def
    using s test_uid_facts(2) [of to] words normal_breaks_facts(2) [of summary]
    by (simp add: p parse_stamp_line [OF years(1)] uid texts owl escape_text_roundtrip optional_text_def optional_upper_def
        optional_parameter_def sent_event_def)
qed

lemma fields_loop_append:
  "fields_loop u tz (xs @ ys) st = (case fields_loop u tz xs st of None \<Rightarrow> None | Some st \<Rightarrow> fields_loop u tz ys st)"
  by (induction xs arbitrary: st) (auto split: option.split)

text \<open>Lines inside the event go to its builder.\<close>

lemma fields_loop_event:
  assumes "\<forall>l\<in>set ls. cl_name l \<notin> {''BEGIN'', ''END'', ''METHOD''}"
    and "ics_stack st = [''VCALENDAR'', ''VEVENT'']" "ics_current st = Some b"
  shows "fields_loop u tz ls st = Some (st\<lparr>ics_current := Some (fold builder_add ls b)\<rparr>)"
  using assms
proof (induction ls arbitrary: st b)
  case (Cons l ls)
  have "fields_step u tz l st = Some (st\<lparr>ics_current := Some (builder_add l b)\<rparr>)"
    using Cons.prems by (simp add: fields_step_def ics_property_def)
  then show ?case using Cons.IH [of "st\<lparr>ics_current := Some (builder_add l b)\<rparr>" "builder_add l b"] Cons.prems by simp
qed simp

lemma event_begins:
  assumes "meth \<noteq> []" "to_upper u meth = meth"
  shows "fields_loop u tz (map read_as (take 5 (ics_fields to summary meth status sequence created start end'))) ics_init =
    Some \<lparr>ics_method = meth, ics_stack = [''VCALENDAR'', ''VEVENT''], ics_events = [], ics_current = Some new_event_builder,
      ics_seen_calendar = True, ics_closed_calendar = False, ics_seen_component = True, ics_event_count = 1\<rparr>"
  using assms
  by (simp add: ics_fields_def read_as_def fields_step_def ics_begin_def ics_property_def ics_init_def upper_words
      max_events_per_calendar_def Let_def)

lemma parse_sent:
  assumes to: "to \<noteq> []" "clean to" and s: "summary \<noteq> []" and years: "in_years created" "in_years start" "in_years end'"
    and words: "clean meth" "clean status" "to_upper u meth = meth" "to_upper u status = status" "meth \<noteq> []" "status \<noteq> []"
    and seq: "0 \<le> sequence" "in_int64 sequence"
  shows "parse_ics u tz (build_ics to summary meth status sequence created start end') =
    [sent_event u to summary meth status sequence (unix_milli \<lparr>t_sec = t_sec start, t_nsec = 0, t_loc = utc\<rparr>)
      (unix_milli \<lparr>t_sec = t_sec end', t_nsec = 0, t_loc = utc\<rparr>)]"
proof -
  let ?fs = "ics_fields to summary meth status sequence created start end'"
  let ?b = "sent_builder to summary meth status sequence created start end'"
  have plain: "\<forall>(name, ps, v)\<in>set ?fs. plain_fields (name, ps, v) \<and> one_line v"
    using to words years by (intro ics_fields_plain utc_stamp_facts(4)) simp_all
  have lines: "ics_lines to summary meth status sequence created start end' = map render ?fs"
    by (rule ics_lines_fields [OF to(2)])
  have "unfold_lines (join CRLF (map render ?fs)) = Some (map render ?fs)"
  proof (rule unfold_joined)
    show "map render ?fs \<noteq> []" by (simp add: ics_fields_def)
    show "\<forall>l\<in>set (map render ?fs). one_line l \<and> \<not> is_folded l"
      using plain render_line(1,2) by fastforce
  qed
  moreover have split: "?fs = take 5 ?fs @ take 11 (drop 5 ?fs) @ [(''END'', [], ''VEVENT''), (''END'', [], ''VCALENDAR'')]"
    by (simp add: ics_fields_def)
  let ?st = "\<lparr>ics_method = meth, ics_stack = [''VCALENDAR'', ''VEVENT''], ics_events = [], ics_current = Some new_event_builder,
      ics_seen_calendar = True, ics_closed_calendar = False, ics_seen_component = True, ics_event_count = 1\<rparr>"
  have "fields_loop u tz (map read_as (take 11 (drop 5 ?fs))) ?st = Some (?st\<lparr>ics_current := Some ?b\<rparr>)"
    unfolding sent_builder_def by (rule fields_loop_event) (simp_all add: ics_fields_def read_as_def)
  then have "fields_loop u tz (map read_as ?fs) ics_init =
      fields_loop u tz (map read_as [(''END'', [], ''VEVENT''), (''END'', [], ''VCALENDAR'')]) (?st\<lparr>ics_current := Some ?b\<rparr>)"
    using event_begins [OF words(5,3), of tz to summary status sequence created start end']
    by (subst split) (simp only: map_append fields_loop_append option.case)
  ultimately show ?thesis
    using build_sent [OF to(1) s years(2,3) words(3,4,6) seq, of tz created] words(3)
    by (simp add: build_ics_def lines parse_ics_def ics_loop_plain [OF plain] read_as_def fields_step_def ics_end_def upper_words Let_def)
qed

section \<open>When the event takes place\<close>

lemma event_start_eq:
  "event_start hour now = \<lparr>t_sec = (t_sec now div 86400 + 1) * 86400 + hour * 3600, t_nsec = 0, t_loc = utc\<rparr>"
proof -
  have "wall_secs (add_days 1 (in_utc now)) = t_sec now + 86400"
    by (simp add: wall_secs_def in_utc_def add_days_utc) (simp add: utc_def)
  moreover have "(t_sec now + 86400) div 86400 = t_sec now div 86400 + 1" by simp
  moreover obtain y m d where c: "civil_of (t_sec now div 86400 + 1) = (y, m, d)" by (metis prod_cases3)
  ultimately show ?thesis
    using civil_of_civil_days(1) [OF c] by (simp add: event_start_def civil_secs_def date_in_def)
qed

lemma event_end_eq:
  "event_end \<lparr>t_sec = s, t_nsec = 0, t_loc = l\<rparr> = \<lparr>t_sec = s + 1800, t_nsec = 0, t_loc = l\<rparr>"
proof -
  have "s * 1000000000 + 1800000000000 = (s + 1800) * 1000000000" by simp
  then show ?thesis by (simp add: event_end_def add_duration_def nanos_def del: distrib_right_numeral)
qed

definition calendar_hour :: "send_test_request \<Rightarrow> int" where
  "calendar_hour request = (if str_kind request = ''update'' then 11 else 10)"

lemma kind_hour:
  "calendar_kind (str_kind request) = (meth, sequence, status, prefix', hour) \<Longrightarrow>
     hour = calendar_hour request \<and> 0 \<le> sequence \<and> sequence \<le> 2 \<and> plain_name meth \<and> plain_name status"
  using plain_names by (auto simp: calendar_kind_def calendar_hour_def split: if_splits)

lemma ics_one_line:
  assumes "clean to" "clean meth" "clean status" "in_years created" "in_years start" "in_years end'"
  shows "qp_text False (build_ics to summary meth status sequence created start end') =
    build_ics to summary meth status sequence created start end'"
proof -
  let ?fs = "ics_fields to summary meth status sequence created start end'"
  have plain: "\<forall>(name, ps, v)\<in>set ?fs. plain_fields (name, ps, v) \<and> one_line v"
    using assms by (intro ics_fields_plain utc_stamp_facts(4)) simp_all
  then have "\<forall>l\<in>set (map render ?fs). one_line l" using render_line(1) by fastforce
  then show ?thesis
    unfolding build_ics_def ics_lines_fields [OF assms(1)] by (intro qp_text_join) (auto simp: one_line_def)
qed

lemma subject_nonempty: "subject_of request \<noteq> []"
  by (simp add: subject_of_def Let_def)

text \<open>
  C27. What the built-in sender writes into a calendar message is what the calendar parser reads from it: decoding
  the quoted-printable text of the calendar part and parsing it gives exactly one event, with the method, number and status of the
  kind of message, the subject as its summary with every escape undone, the recipient as its attendee, and half an hour of the next day at 10 or
  11 o'clock UTC, for every subject, every recipient without a character that has a meaning in a content line, and every instant
  until the end of the year 9999.
\<close>

theorem sent_invitation_is_read:
  assumes "str_to request \<noteq> []" and "clean (str_to request)"
    and "0 \<le> t_sec now" and "t_sec now < 253402128000"
    and "calendar_kind (str_kind request) = (meth, sequence, status, prefix', hour)"
  shows "map_option (parse_ics u tz) (qp_read (qp_write (calendar_ics request (subject_of request) now))) =
    Some [\<lparr>pe_method = meth, pe_uid = test_uid (str_to request), pe_sequence = sequence,
      pe_summary = Some (normal_breaks (subject_of request)),
      pe_description = Some ''A test appointment sent by the hoomail built-in sender.'',
      pe_location = Some ''Owl Tree Conference Room'', pe_status = Some status,
      pe_organizer_address = Some ''owl@hoomail.local'', pe_organizer_name = Some ''The hoomail Owl'',
      pe_attendees = [\<lparr>at_address = to_lower u (str_to request), at_name = Some (str_to request),
        at_partstat = Some ''NEEDS-ACTION'', at_role = Some ''REQ-PARTICIPANT''\<rparr>],
      pe_dtstart = ((t_sec now div 86400 + 1) * 86400 + hour * 3600) * 1000,
      pe_dtend = Some (((t_sec now div 86400 + 1) * 86400 + hour * 3600 + 1800) * 1000), pe_all_day = False\<rparr>]"
proof -
  let ?s = "(t_sec now div 86400 + 1) * 86400 + hour * 3600"
  note k = kind_hour [OF assms(5)]
  then have hour: "0 \<le> hour" "hour \<le> 11" by (auto simp: calendar_hour_def)
  have days: "t_sec now div 86400 * 86400 \<le> t_sec now" "0 \<le> t_sec now div 86400"
    using div_mult_mod_eq [of "t_sec now" 86400] assms(3) by simp_all
  have range: "0 \<le> ?s" "?s + 1800 < 253402300800" using days hour assms(4) by (simp_all add: distrib_right)
  have years: "in_years (in_utc now)" "in_years (event_start hour now)" "in_years (event_end (event_start hour now))"
    using assms(3,4) range by (simp_all add: in_years_def in_utc_def event_start_eq event_end_eq)
  have milli: "unix_milli \<lparr>t_sec = x, t_nsec = 0, t_loc = utc\<rparr> = x * 1000" if "0 \<le> x" "x < 253402300800" for x
    using that by (simp add: unix_milli_def wrap_int64_id in_int64_def max_int64_def)
  have words: "clean meth" "clean status" "to_upper u meth = meth" "to_upper u status = status" "meth \<noteq> []" "status \<noteq> []"
    using k plain_name_clean plain_name_upper by (auto simp: plain_name_def)
  have ics: "calendar_ics request (subject_of request) now =
      build_ics (str_to request) (subject_of request) meth status sequence (in_utc now) (event_start hour now) (event_end (event_start hour now))"
    by (simp add: calendar_ics_def assms(5) Let_def)
  have seq: "0 \<le> sequence" "in_int64 sequence" using k by (simp_all add: in_int64_def max_int64_def)
  show ?thesis
    unfolding ics qp_read_write ics_one_line [OF assms(2) words(1,2) years] option.map(2)
      parse_sent [OF assms(1,2) subject_nonempty years words seq]
    using milli [of ?s] milli [of "?s + 1800"] range
    by (simp add: sent_event_def event_start_eq event_end_eq)
qed

theorem sent_invitation_is_read_witness:
  "\<exists>e. map_option (parse_ics plain_unicode \<lparr>tz_local = utc, tz_load = (\<lambda>name. None)\<rparr>) (qp_read (qp_write (calendar_ics
       \<lparr>str_to = ''a@b.c'', str_subject = ''Lunch; maybe'', str_kind = ''update''\<rparr>
       (subject_of \<lparr>str_to = ''a@b.c'', str_subject = ''Lunch; maybe'', str_kind = ''update''\<rparr>)
       \<lparr>t_sec = 0, t_nsec = 0, t_loc = utc\<rparr>))) = Some [e] \<and> pe_sequence e = 1 \<and> pe_dtstart e = 126000000"
proof -
  let ?r = "\<lparr>str_to = ''a@b.c'', str_subject = ''Lunch; maybe'', str_kind = ''update''\<rparr>"
  have kind: "calendar_kind (str_kind ?r) = (''REQUEST'', 1, ''CONFIRMED'', ''Updated invitation'', 11)"
    by (simp add: calendar_kind_def)
  show ?thesis
    by (intro exI conjI, rule sent_invitation_is_read [OF _ _ _ _ kind]) simp_all
qed

section \<open>A recipient the parser misreads\<close>

text \<open>
  The recipient is escaped like a text, but it stands in a parameter and in an address, where the parser undoes no
  such escape: a comma, which \<open>recipientPattern\<close> allows, comes back with a backslash.
\<close>

lemma recipient_misread:
  "recipient_matches ''a,b@c.d''"
  "map_option (\<lambda>l. (mailto u (cl_value l), cl_params l))
     (parse_content_line u (''ATTENDEE;CN='' @ escape_text ''a,b@c.d'' @ '':mailto:'' @ escape_text ''a,b@c.d'')) =
     Some (Some (''a'' @ [BSLASH] @ '',b@c.d''), [(''CN'', [''a'' @ [BSLASH] @ '',b@c.d''])])"
proof -
  show "recipient_matches ''a,b@c.d''" by (simp add: recipient_matches_def go_re_space_def)
  have e: "escape_text ''a,b@c.d'' = ''a'' @ [BSLASH] @ '',b@c.d''"
    by (simp add: escape_text_def normal_breaks_def has_prefix_def escape_char_def)
  show "map_option (\<lambda>l. (mailto u (cl_value l), cl_params l))
     (parse_content_line u (''ATTENDEE;CN='' @ escape_text ''a,b@c.d'' @ '':mailto:'' @ escape_text ''a,b@c.d'')) =
     Some (Some (''a'' @ [BSLASH] @ '',b@c.d''), [(''CN'', [''a'' @ [BSLASH] @ '',b@c.d''])])"
    by (simp add: e parse_content_line_def separator_index_def split_outside_quotes_def decode_parameter_def has_prefix_def
        mailto_def ascii_eval map_put_def Let_def)
qed

end
