(* ===== verification/Sendtest_Delivery.thy ===== *)
theory Sendtest_Delivery
  imports Sendtest_Props Smtp_Props
begin

text \<open>
  The header fields and the exchange of the built-in sender, and the sender connected to the session of the SMTP
  server with the store behind it.
\<close>

section \<open>Header fields\<close>

lemma encode_rune_bytes: "c \<in> set (encode_rune r) \<Longrightarrow> byte c = r \<or> 128 \<le> byte c"
  by (auto simp: encode_rune_def Let_def rune_error_def valid_rune_def split: if_splits)

lemma one_line_append [simp]: "one_line (s @ t) \<longleftrightarrow> one_line s \<and> one_line t"
  by (auto simp: one_line_def)

lemma one_line_concat: "(\<And>x. one_line (f x)) \<Longrightarrow> one_line (concat (map f xs))"
  by (auto simp: one_line_def)

lemma one_line_encode_rune: "r \<noteq> 10 \<Longrightarrow> r \<noteq> 13 \<Longrightarrow> one_line (encode_rune r)"
  using encode_rune_bytes [of CR r] encode_rune_bytes [of LF r] by (auto simp: one_line_def byte_def)

lemma one_line_quoted: "one_line (quote_local s)"
proof -
  have "one_line (quoted_rune r)" for r
    using one_line_encode_rune [of r]
    by (auto simp: quoted_rune_def mail_vchar_def one_line_def byte_def)
  then have "one_line (concat (map quoted_rune (runes s)))" by (rule one_line_concat)
  then show ?thesis by (simp add: quote_local_def) (simp add: one_line_def)
qed

lemma one_line_address:
  assumes "one_line a"
  shows "one_line (address_string a)"
proof -
  obtain name domain where p: "split_address a = (name, domain)" by (metis surj_pair)
  have "set name \<subseteq> set a \<and> set domain \<subseteq> set a"
  proof (cases "CHR ''@'' \<in> set a")
    case True
    then show ?thesis using p set_takeWhileD [of _ "\<lambda>c. c \<noteq> CHR ''@''" "rev a"]
      by (auto simp: split_address_def Let_def dest: in_set_takeD)
  qed (use p in \<open>auto simp: split_address_def\<close>)
  with assms have "one_line name" "one_line domain" by (auto simp: one_line_def)
  then show ?thesis using one_line_quoted [of name]
    by (simp add: address_string_def p) (simp add: one_line_def)
qed

lemma one_line_q_char: "one_line (q_char c)"
  using hex_digit_graphic [of "byte c div 16"] hex_digit_graphic [of "byte c mod 16"] nibbles(1) [of c]
  by (auto simp: q_char_def q_plain_def qp_code_def one_line_def byte_def)

lemma one_line_q_loop: "one_line (q_loop n s)"
proof (induction n s rule: q_loop.induct)
  case (1 n s)
  show ?case
  proof (cases "s = []")
    case True
    then show ?thesis by (subst q_loop.simps) (simp add: one_line_def)
  next
    case False
    have "one_line (concat (map q_char t))" for t by (rule one_line_concat, rule one_line_q_char)
    moreover have "one_line (q_close @ '' '' @ q_open)" by (simp add: q_close_def q_open_def) (simp add: one_line_def)
    moreover have "one_line []" by (simp add: one_line_def)
    ultimately show ?thesis using 1 [OF False] False by (subst q_loop.simps) (simp add: Let_def)
  qed
qed

lemma one_line_q_encode: "one_line (q_encode s)"
proof (cases "q_needed s")
  case True
  have "one_line q_open" "one_line q_close" by (simp_all add: q_open_def q_close_def one_line_def)
  with True show ?thesis by (simp add: q_encode_def one_line_q_loop)
next
  case False
  then show ?thesis by (auto simp: q_encode_def q_needed_def list_ex_iff one_line_def byte_def)
qed

lemma one_line_padded: "one_line (padded w i)"
  using nat_digits_digits [of "nat \<bar>i\<bar>"] by (auto simp: padded_def one_line_def Let_def is_digit_def byte_def)

lemma one_line_date: "one_line (format_rfc1123z t)"
proof -
  obtain y m d where c: "civil_of (wall_secs t div 86400) = (y, m, d)" by (metis prod_cases3)
  have days: "one_line (weekday_names ! nat ((n + 4) mod 7))" for n :: int
  proof -
    have "nat ((n + 4) mod 7) < length weekday_names" by (simp add: weekday_names_def nat_less_iff)
    from nth_mem [OF this] show ?thesis by (auto simp: weekday_names_def one_line_def)
  qed
  have "nat (m - 1) < length month_names" using civil_of_civil_days [OF c] by (simp add: month_names_def)
  from nth_mem [OF this] have "one_line (month_names ! nat (m - 1))" by (auto simp: month_names_def one_line_def)
  then show ?thesis
    using days one_line_padded by (simp add: format_rfc1123z_def c Let_def) (simp add: one_line_def)
qed

lemma recipient_one_line: "recipient_matches to \<Longrightarrow> one_line to"
  by (auto simp: recipient_matches_def one_line_def list_ex_iff go_re_space_def split: list.splits)

text \<open>
  C30. No subject and no recipient that the handler lets through can add a header field to a test message: for every
  subject, of any bytes, the header is exactly five lines, one for each field the sender writes.
\<close>

theorem headers_cannot_be_forged:
  assumes "recipient_matches to"
  shows "\<exists>ls. write_headers to subject now = concat (map (\<lambda>l. l @ CRLF) ls) \<and> list_all one_line ls
     \<and> list_all2 has_prefix ls [''From: '', ''To: '', ''Subject: '', ''Date: '', ''Message-ID: '']"
proof -
  let ?ls = "[''From: '' @ [DQUOTE] @ ''The hoomail Owl'' @ [DQUOTE] @ '' <owl@hoomail.local>'', ''To: '' @ address_string to,
    ''Subject: '' @ q_encode subject, ''Date: '' @ format_rfc1123z now,
    ''Message-ID: <'' @ itoa (wrap_int64 (nanos now)) @ ''@hoomail.local>'']"
  have "list_all one_line ?ls"
    using one_line_address [OF recipient_one_line [OF assms]] one_line_q_encode [of subject] one_line_date [of now]
      itoa_one_line [of "wrap_int64 (nanos now)"]
    by simp (simp add: one_line_def)
  moreover have "list_all2 has_prefix ?ls [''From: '', ''To: '', ''Subject: '', ''Date: '', ''Message-ID: '']"
    by (simp add: has_prefix_def)
  moreover have "write_headers to subject now = concat (map (\<lambda>l. l @ CRLF) ?ls)" by (simp add: write_headers_def)
  ultimately show ?thesis by blast
qed

theorem headers_cannot_be_forged_witness:
  "\<exists>ls. write_headers ''a@b.c'' (''x'' @ CRLF @ ''Bcc: y'') \<lparr>t_sec = 0, t_nsec = 0, t_loc = utc\<rparr> = concat (map (\<lambda>l. l @ CRLF) ls)
     \<and> length ls = 5"
proof -
  have "recipient_matches ''a@b.c''" by (simp add: recipient_matches_def go_re_space_def)
  from headers_cannot_be_forged [OF this, of "''x'' @ CRLF @ ''Bcc: y''" "\<lparr>t_sec = 0, t_nsec = 0, t_loc = utc\<rparr>"]
  show ?thesis by (auto dest!: list_all2_lengthD)
qed

section \<open>The exchange\<close>

lemma run_calls_prefix:
  "run_calls perform cs s = (r, calls, s') \<Longrightarrow> prefix calls cs \<and> (r = None \<longrightarrow> calls = cs)"
proof (induction cs arbitrary: s calls)
  case (Cons c cs)
  obtain e t where c: "perform c s = (e, t)" by (metis surj_pair)
  show ?case
  proof (cases e)
    case None
    obtain r2 made t2 where rest: "run_calls perform cs t = (r2, made, t2)" by (metis prod_cases3)
    then have "calls = c # made" "r2 = r" "t2 = s'" using Cons.prems c None by simp_all
    then show ?thesis using Cons.IH [OF rest [unfolded \<open>r2 = r\<close> \<open>t2 = s'\<close>]] by simp
  qed (use Cons.prems c in auto)
qed simp

lemma run_calls_succeeds: "(\<And>c t. fst (perform c t) = None) \<Longrightarrow> fst (run_calls perform cs s) = None"
proof (induction cs arbitrary: s)
  case (Cons c cs)
  obtain e t where c: "perform c s = (e, t)" by (metis surj_pair)
  then have "e = None" using Cons.prems [of c s] by simp
  then show ?case using Cons.IH [OF Cons.prems, of t] c by (cases "run_calls perform cs t") simp
qed simp

text \<open>
  \<open>SendTest\<close> talks to the server as it must: it dials the configured address, sets a deadline when the context has one, and
  makes the calls of a mail transaction in their order up to the first that fails, passing the message it built.  A
  connection it opened is closed in the end and once, a client it made too, before the connection.  It
  reports success only when every call succeeded and the context was not over.
\<close>

theorem exchange_is_in_order:
  fixes p :: "('s, 'e) peer"
  assumes "send_test printable p address now request s = (r, calls, s')"
  defines "dialled \<equiv> Dial (if address = [] then ''127.0.0.1:2525'' else address)"
    and "deadline \<equiv> (if pr_has_deadline p then [Set_Deadline] else [])"
    and "client \<equiv> New_Client (host_of (if address = [] then ''127.0.0.1:2525'' else address))"
    and "transaction \<equiv> mail_calls (str_to request) (build_message printable request now)"
  shows "(calls = [dialled] \<and> r \<noteq> None)
     \<or> (calls = [dialled] @ deadline @ [Close_Connection] \<and> r \<noteq> None)
     \<or> (calls = [dialled] @ deadline @ [client, Close_Connection] \<and> r \<noteq> None)
     \<or> (\<exists>made t. prefix made transaction \<and> calls = [dialled] @ deadline @ [client] @ made @ [Close_Client, Close_Connection]
          \<and> s' = snd (pr_perform p Close_Connection t)
          \<and> (r = None \<longrightarrow> made = transaction \<and> pr_context_error p t = None))"
proof -
  have final: "final_error p s (Some e) \<noteq> None" for s e by (simp add: final_error_def split: option.split)
  have none: "final_error p s None = None \<Longrightarrow> pr_context_error p s = None" for s
    by (simp add: final_error_def split: option.splits)
  show ?thesis
  proof (cases "pr_perform p dialled s")
    case (Pair e s1)
    show ?thesis
    proof (cases e)
      case (Some e1)
      then show ?thesis using assms(1) Pair by (auto simp: send_test_def Let_def dialled_def)
    next
      case None
      obtain e2 s2 where set: "(if pr_has_deadline p then pr_perform p Set_Deadline s1 else (None, s1)) = (e2, s2)" by (metis surj_pair)
      show ?thesis
      proof (cases e2)
        case (Some e3)
        then show ?thesis using assms(1) Pair None set
          by (auto simp: send_test_def Let_def dialled_def deadline_def split: if_splits)
      next
        case None2: None
        obtain r3 calls3 s3 where conv: "conversation p (host_of (if address = [] then ''127.0.0.1:2525'' else address)) (str_to request)
            (build_message printable request now) s2 = (r3, calls3, s3)" by (metis prod_cases3)
        have out: "r = r3" "calls = [dialled] @ deadline @ calls3 @ [Close_Connection]"
          "s' = snd (pr_perform p Close_Connection s3)"
          using assms(1) Pair None set None2 conv by (auto simp: send_test_def Let_def dialled_def deadline_def)
        show ?thesis
        proof (cases "pr_perform p client s2")
          case new: (Pair e4 s4)
          show ?thesis
          proof (cases e4)
            case (Some e5)
            then show ?thesis using conv new out final by (auto simp: conversation_def client_def)
          next
            case None4: None
            obtain r5 made s5 where run: "run_calls (pr_perform p) transaction s4 = (r5, made, s5)" by (metis prod_cases3)
            have conv2: "calls3 = client # made @ [Close_Client]" "r3 = final_error p s3 r5"
              using conv new None4 run by (auto simp: conversation_def client_def transaction_def Let_def)
            have "prefix made transaction" "r = None \<longrightarrow> made = transaction \<and> pr_context_error p s3 = None"
              using run_calls_prefix [OF run] conv2(2) out(1) final none by (cases r5; auto)+
            then show ?thesis using conv2(1) out by auto
          qed
        qed
      qed
    qed
  qed
qed

text \<open>A peer that records the calls and fails none.\<close>

definition recording_peer :: "(call list, bytes) peer" where
  "recording_peer = \<lparr>pr_perform = (\<lambda>c s. (None, s @ [c])), pr_has_deadline = True, pr_context_error = (\<lambda>s. None),
     pr_timed_out = (\<lambda>s e. False), pr_deadline_exceeded = []\<rparr>"

lemma recording_simps [simp]:
  "pr_perform recording_peer c s = (None, s @ [c])" "pr_has_deadline recording_peer" "pr_context_error recording_peer s = None"
  by (simp_all add: recording_peer_def)

lemma recorded_calls [simp]: "run_calls (pr_perform recording_peer) cs s = (None, cs, s @ cs)"
  by (induction cs arbitrary: s) simp_all

lemma recorded_exchange:
  "\<exists>t. send_test printable recording_peer [] now request [] =
     (None, [Dial ''127.0.0.1:2525'', Set_Deadline, New_Client ''127.0.0.1'']
       @ mail_calls (str_to request) (build_message printable request now) @ [Close_Client, Close_Connection], t)"
  by (simp add: send_test_def conversation_def Let_def host_of_def split_host_port_def final_error_def)

theorem exchange_is_in_order_witness:
  "\<exists>r calls s'. send_test printable recording_peer [] now request [] = (r, calls, s')
     \<and> last calls = Close_Connection \<and> hd calls = Dial ''127.0.0.1:2525''"
proof -
  obtain r calls s' where run: "send_test printable recording_peer [] now request [] = (r, calls, s')" by (metis prod_cases3)
  from exchange_is_in_order [OF run] recorded_exchange [of printable now request] run
  have "last calls = Close_Connection \<and> hd calls = Dial ''127.0.0.1:2525''" by auto
  with run show ?thesis by blast
qed

section \<open>Through the server into the store\<close>

text \<open>
  The server the sender reaches is that of hoomail: the calls drive a session of \<open>Smtp_Session\<close> over the store.
  Between them lie \<open>net/smtp\<close> and the protocol library of the server, of which nothing is assumed but that a
  call comes to the method of the session it is for: they may fail any call, hand over another address (a quoted local part
  loses its quotes) or another text than was written, and lose the answer to a message the session accepted.  The bytes written so far are part of
  the state.
\<close>

record protocol =
  px_sender :: "bytes \<Rightarrow> bytes option"
  px_recipient :: "bytes \<Rightarrow> bytes option"
  px_text :: "bytes \<Rightarrow> bytes option"
  px_passes :: "call \<Rightarrow> bool"

datatype 'r failure = Refused | Replied "'r smtp_reply"

fun served ::
  "protocol \<Rightarrow> ('h, 'e) mime_lib \<Rightarrow> ('h, 'e) mail_lib \<Rightarrow> tz_env \<Rightarrow> engine \<times> int \<times> faults \<Rightarrow> call
     \<Rightarrow> smtp_session \<times> bytes \<times> store \<Rightarrow> 'r failure option \<times> smtp_session \<times> bytes \<times> store" where
  "served P L M tz c (Mail a) (s, w, st) =
     (case px_sender P a of None \<Rightarrow> (Some Refused, s, w, st) | Some from \<Rightarrow> (None, smtp_mail from s, w, st))"
| "served P L M tz c (Rcpt a) (s, w, st) =
     (case px_recipient P a of None \<Rightarrow> (Some Refused, s, w, st) | Some to \<Rightarrow> (None, smtp_rcpt to s, w, st))"
| "served P L M tz c Data (s, w, st) = (if px_passes P Data then None else Some Refused, s, [], st)"
| "served P L M tz c (Write b) (s, w, st) = (if px_passes P (Write b) then None else Some Refused, s, w @ b, st)"
| "served P L M tz c Close_Data (s, w, st) =
     (case px_text P w of
        None \<Rightarrow> (Some Refused, s, w, st)
      | Some text \<Rightarrow>
          (case smtp_data L M tz (store_put (ml_unicode L)) c text End_Of_Data s st of
             (reply, st) \<Rightarrow>
               (if reply \<noteq> Accepted then Some (Replied reply) else if px_passes P Close_Data then None else Some Refused, s, w, st)))"
| "served P L M tz c call t = (if px_passes P call then None else Some Refused, t)"

text \<open>The mail that a text for one recipient adds to the store: one message, or none when nothing of the address is left.\<close>

definition mail_for :: "unicode \<Rightarrow> bytes \<Rightarrow> bytes \<Rightarrow> (bytes \<times> bytes) list" where
  "mail_for u to text =
     map (\<lambda>a. (a, text)) (filter (\<lambda>a. a \<noteq> []) (map (normalize_address u) (recipients_loop u {} [to])))"

lemma served_mail:
  assumes "store_ok st" "engine_of_ok c"
    and "smtp_data L M tz (store_put (ml_unicode L)) c m End_Of_Data (smtp_rcpt to (smtp_mail from s)) st = (reply, st')"
  shows "store_ok st' \<and> mail_of st' = (if reply = Accepted then mail_of st @ mail_for (ml_unicode L) to m else mail_of st)"
proof -
  let ?u = "ml_unicode L"
  note d = smtp_store.data_stores [OF assms(1,2,3)]
  show ?thesis
  proof (cases "reply = Accepted")
    case True
    then obtain inp where inp: "smtp_parse L M tz m (ss_from (smtp_rcpt to (smtp_mail from s))) [to] = Inr inp"
      using assms(3) by (auto simp: smtp_data_def smtp_rcpt_def smtp_mail_def read_data_def Let_def split: sum.splits if_splits)
    then have "in_recipients inp = recipients_loop ?u {} [to]" "in_raw inp = m"
      using smtp_parse_Inr [OF inp] by (auto simp: normalized_recipients_def simp del: recipients_loop.simps)
    then have "copies (delivery_addresses ?u) inp = mail_for ?u to m"
      by (simp add: copies_def delivery_addresses_def mail_for_def del: recipients_loop.simps)
    then show ?thesis using d inp True by (simp add: acknowledged_def smtp_rcpt_def smtp_mail_def)
  next
    case False
    then show ?thesis using d by (simp add: acknowledged_def split: smtp_reply.split)
  qed
qed

text \<open>What the store has gained when the protocol got so far as to hand over a recipient and a text.\<close>

definition handed_over :: "protocol \<Rightarrow> unicode \<Rightarrow> bytes \<Rightarrow> bytes \<Rightarrow> (bytes \<times> bytes) list \<Rightarrow> bool" where
  "handed_over P u to m new \<longleftrightarrow>
     (\<exists>to' m'. px_recipient P to = Some to' \<and> px_text P m = Some m' \<and> new = mail_for u to' m')"

lemma served_transaction:
  fixes r :: "'r failure option"
  assumes "store_ok st" "engine_of_ok c"
    and "run_calls (served P L M tz c) (mail_calls to m) (s, w, st) = (r, made, s', w', st')"
  shows "store_ok st' \<and> (\<exists>new. mail_of st' = mail_of st @ new
    \<and> (if r = None then handed_over P (ml_unicode L) to m new else new = [] \<or> handed_over P (ml_unicode L) to m new))"
proof (cases "px_sender P ''owl@hoomail.local'' \<noteq> None \<and> px_recipient P to \<noteq> None \<and> px_passes P Data
    \<and> px_passes P (Write m) \<and> px_text P m \<noteq> None")
  case True
  then obtain from' to' m' where p: "px_sender P ''owl@hoomail.local'' = Some from'" "px_recipient P to = Some to'" "px_passes P Data"
    "px_passes P (Write m)" "px_text P m = Some m'" by blast
  obtain reply :: "'r smtp_reply" and st1 where data: "smtp_data L M tz (store_put (ml_unicode L)) c m' End_Of_Data
      (smtp_rcpt to' (smtp_mail from' s)) st = (reply, st1)" by (metis surj_pair)
  note stored = served_mail [OF assms(1,2) data]
  have "st' = st1" "r = None \<longrightarrow> reply = Accepted"
    using assms(3) p data by (auto simp: mail_calls_def split: if_splits)
  moreover have "handed_over P (ml_unicode L) to m (mail_for (ml_unicode L) to' m')" using p by (auto simp: handed_over_def)
  ultimately show ?thesis
    using stored by (cases "reply = Accepted") (auto intro: exI [of _ "mail_for (ml_unicode L) to' m'"] exI [of _ "[]"])
next
  case False
  then have "st' = st" "r \<noteq> None" using assms(3) by (auto simp: mail_calls_def split: option.splits if_splits)
  then show ?thesis using assms(1) by auto
qed

section \<open>The length of a test message\<close>

definition qw_size :: "qp_writer \<Rightarrow> nat" where
  "qw_size w = length (qw_out w) + length (qw_line w)"

lemma qw_size_encode: "qw_size (qw_encode c w) \<le> qw_size w + 6"
  by (auto simp: qw_size_def qw_encode_def qw_soft_break_def qw_insert_crlf_def qp_code_def Let_def)

lemma qw_size_check_last: "qw_size (qw_check_last w) \<le> qw_size w + 6"
  by (auto simp: qw_size_def qw_check_last_def qw_encode_def qw_soft_break_def qw_insert_crlf_def qp_code_def Let_def)

lemma qw_size_put: "qw_size (qw_put c w) \<le> qw_size w + 8"
proof -
  have crlf: "qw_size (qw_insert_crlf v) = qw_size v + 2" for v by (simp add: qw_size_def qw_insert_crlf_def)
  have cr: "qw_size (v\<lparr>qw_cr := b\<rparr>) = qw_size v" for v b by (simp add: qw_size_def)
  have line: "qw_size (v\<lparr>qw_line := qw_line v @ [c], qw_cr := b\<rparr>) = qw_size v + 1"
    "qw_size (v\<lparr>qw_line := qw_line v @ [c]\<rparr>) = qw_size v + 1" for v b by (simp_all add: qw_size_def)
  have soft: "qw_size (qw_soft_break v) = qw_size v + 3" for v by (simp add: qw_size_def qw_soft_break_def qw_insert_crlf_def)
  have restart: "qw_size (v\<lparr>qw_line := [c]\<rparr>) \<le> qw_size v + 1" for v by (simp add: qw_size_def)
  show ?thesis
    using qw_size_encode [of c w] qw_size_check_last [of w] restart [of "qw_soft_break w"]
    by (auto simp: qw_put_def qw_write_def Let_def crlf cr line soft)
qed

lemma qp_write_length: "length (qp_write s) \<le> 8 * length s + 6"
proof -
  have "qw_size (fold qw_put s w) \<le> qw_size w + 8 * length s" for w
  proof (induction s arbitrary: w)
    case (Cons c s)
    from Cons [of "qw_put c w"] qw_size_put [of c w] show ?case by simp
  qed simp
  from this [of new_qp_writer] qw_size_check_last [of "fold qw_put s new_qp_writer"]
  show ?thesis by (simp add: qp_write_def Let_def qw_size_def new_qp_writer_def)
qed

lemma b64_encode_length: "length (b64_encode s) \<le> 4 * length s"
  by (induction s rule: b64_encode.induct) simp_all

text \<open>Boundaries have no character that is quoted.\<close>

lemma quote_loop_plain:
  "list_all (\<lambda>c. 32 \<le> byte c \<and> byte c \<le> 126 \<and> c \<noteq> DQUOTE \<and> c \<noteq> BSLASH) s \<Longrightarrow> quote_loop printable s = s"
proof (induction s)
  case Nil
  show ?case by (subst quote_loop.simps) simp
next
  case (Cons c s)
  then have c: "byte c < 128" "32 \<le> byte c" "byte c \<le> 126" "byte c \<noteq> byte DQUOTE" "byte c \<noteq> byte BSLASH"
    by (auto simp: byte_inject)
  then have "valid_rune (byte c)" by (simp add: valid_rune_def)
  with c have "quote_rune printable (byte c) = [c]" by (simp add: quote_rune_def encode_rune_def)
  moreover have "byte c \<noteq> rune_error" using c by (simp add: rune_error_def)
  ultimately show ?case using Cons c by (subst quote_loop.simps) (simp add: decode_rune_ascii)
qed

definition sample_request :: send_test_request where
  "sample_request = \<lparr>str_to = ''a@b'', str_subject = [], str_kind = ''plain''\<rparr>"

definition epoch :: go_time where
  "epoch = \<lparr>t_sec = 0, t_nsec = 0, t_loc = utc\<rparr>"

lemma sample_message_length:
  "length (build_message printable sample_request epoch) \<le> max_message_bytes" "build_message printable sample_request epoch \<noteq> []"
proof -
  have subject: "subject_of sample_request = ''hoomail delivery test''" by (simp add: subject_of_def sample_request_def)
  have message: "build_message printable sample_request epoch = plain_message printable ''a@b'' ''hoomail delivery test'' epoch"
    unfolding build_message_def subject by (simp add: sample_request_def)
  have headers: "length (write_headers ''a@b'' ''hoomail delivery test'' epoch) \<le> 1000" by code_simp
  have parts: "length (plain_body ''a@b'') \<le> 1000" "length (sample_html ''a@b'') \<le> 1000" "length sample_attachment \<le> 1000" by code_simp+
  have boundary: "length (go_quote printable ''hoomail-mixed-boundary'') \<le> 100" "length (go_quote printable ''hoomail-alt-boundary'') \<le> 100"
    by (simp_all add: go_quote_def quote_loop_plain byte_def)
  show "length (build_message printable sample_request epoch) \<le> max_message_bytes"
    using headers parts boundary qp_write_length [of "plain_body ''a@b''"] qp_write_length [of "sample_html ''a@b''"]
      b64_encode_length [of sample_attachment]
    by (simp add: message plain_message_def text_part_def multipart_header_def Let_def max_message_bytes_def)
  show "build_message printable sample_request epoch \<noteq> []" by (simp add: message plain_message_def Let_def)
qed

section \<open>Delivery\<close>

text \<open>
  C28. When the sender is connected to the session of hoomail's own server and reports success, the store has
  gained exactly the mail of one text for one recipient: of the message that was built and of the recipient that was asked for, as
  the protocol hands them over, whatever it makes of them.  When it reports an error the store has gained the same or nothing,
  and it stays consistent, whatever the protocol refuses and the driver of the database does.
\<close>

theorem test_message_is_delivered:
  fixes p :: "(smtp_session \<times> bytes \<times> store, 'r failure) peer"
  assumes "db_ok (sdb st)" and "engine_ok (fst c)" and "pr_perform p = served P L M tz c"
    and "send_test printable p address now request (s, w, st) = (r, calls, s', w', st')"
  shows "db_ok (sdb st')
     \<and> (\<exists>new. mail_of st' = mail_of st @ new
          \<and> (if r = None then handed_over P (ml_unicode L) (str_to request) (build_message printable request now) new
             else new = [] \<or> handed_over P (ml_unicode L) (str_to request) (build_message printable request now) new))"
proof -
  let ?to = "str_to request" and ?m = "build_message printable request now"
  have ok: "store_ok st" "engine_of_ok c" using assms(1,2) by (simp_all add: store_ok_def engine_of_ok_def)
  obtain r1 made s1 w1 st1 where run: "run_calls (served P L M tz c) (mail_calls ?to ?m) (s, w, st) =
      (r1 :: 'r failure option, made, s1, w1, st1)" by (metis prod_cases5)
  have final: "final_error p t x = None \<Longrightarrow> x = None" for t x by (auto simp: final_error_def split: option.splits if_splits)
  have "r \<noteq> None \<and> st' = st \<or> st' = st1 \<and> r = final_error p (s1, w1, st1) r1"
    using assms(4) run final [of "(s, w, st)" "Some Refused"]
    by (auto simp: send_test_def conversation_def assms(3) Let_def split: if_splits)
  with served_transaction [OF ok run] final [of "(s1, w1, st1)" r1] assms(1) show ?thesis
    by (auto simp: store_ok_def split: if_splits)
qed

text \<open>A protocol that hands over everything, and the sender connected through it to a session over the empty store.\<close>

definition direct :: protocol where
  "direct = \<lparr>px_sender = Some, px_recipient = Some, px_text = Some, px_passes = (\<lambda>c. True)\<rparr>"

definition loop_peer :: "(smtp_session \<times> bytes \<times> store, unit failure) peer" where
  "loop_peer = \<lparr>pr_perform = served direct plain_lib plain_mail utc_env (rowid_engine, 7, []), pr_has_deadline = False,
     pr_context_error = (\<lambda>s. None), pr_timed_out = (\<lambda>s e. False), pr_deadline_exceeded = Refused\<rparr>"

lemma sample_recipient:
  "to_lower plain_unicode (trim_space ''a@b'') = ''a@b''" "normalize_address plain_unicode ''a@b'' = ''a@b''"
  by (simp_all add: normalize_address_def ascii_eval trim_space_id graphic_def)

lemma sample_mail: "mail_for plain_unicode ''a@b'' text = [(''a@b'', text)]"
  by (simp add: mail_for_def Let_def sample_recipient)

lemma sample_sent:
  "\<exists>calls s w st. send_test printable loop_peer [] epoch sample_request (new_smtp_session False, [], sample_store) = (None, calls, s, w, st)"
proof -
  let ?m = "build_message printable sample_request epoch"
  have sender: "sender_of [] ''owl@hoomail.local'' = (Some ''owl@hoomail.local'', None)"
    by (simp add: sender_of_def trim_space_id graphic_def byte_def)
  obtain st evs where put: "store_message rowid_engine plain_unicode 7 (plain_input_of (Some ''owl@hoomail.local'') ?m) [] sample_store
      = (Inr [(1, 1)], st, evs)"
    using plain_store_message_of by blast
  have read: "read_data ?m (End_Of_Data :: unit read_end) = Inr ?m"
    using sample_message_length [of printable] by (simp add: read_data_def)
  have unicode: "ml_unicode plain_lib = plain_unicode" by (simp add: plain_lib_simps)
  have accepted: "smtp_data plain_lib plain_mail utc_env (store_put plain_unicode) (rowid_engine, 7, []) ?m (End_Of_Data :: unit read_end)
      (smtp_rcpt ''a@b'' (smtp_mail ''owl@hoomail.local'' (new_smtp_session False))) sample_store = (Accepted, st)"
    by (simp add: smtp_data_def read smtp_rcpt_def smtp_mail_def new_smtp_session_def store_put_def put
        plain_smtp_parse_of [OF sample_message_length(2) sample_recipient(1) sender])
  have to: "str_to sample_request = ''a@b''" by (simp add: sample_request_def)
  show ?thesis
    by (simp add: send_test_def conversation_def Let_def loop_peer_def mail_calls_def direct_def final_error_def to unicode accepted)
qed

theorem test_message_is_delivered_witness:
  "\<exists>calls s w st. send_test (\<lambda>r. True) loop_peer [] epoch sample_request (new_smtp_session False, [], sample_store) = (None, calls, s, w, st)
     \<and> mail_of st = [(''a@b'', build_message (\<lambda>r. True) sample_request epoch)]"
proof -
  obtain calls s w st where run: "send_test (\<lambda>r. True) loop_peer [] epoch sample_request (new_smtp_session False, [], sample_store)
      = (None, calls, s, w, st)"
    using sample_sent by blast
  have peer: "pr_perform loop_peer = served direct plain_lib plain_mail utc_env (rowid_engine, 7, [])" by (simp add: loop_peer_def)
  have engine: "engine_ok (fst (rowid_engine, 7 :: int, [] :: faults))" by (simp add: rowid_engine_ok)
  have unicode: "ml_unicode plain_lib = plain_unicode" by (simp add: plain_lib_simps)
  have to: "str_to sample_request = ''a@b''" by (simp add: sample_request_def)
  have empty: "mail_of sample_store = []" by (simp add: mail_of_def sample_store_def empty_db_def)
  have "mail_of st = [(''a@b'', build_message (\<lambda>r. True) sample_request epoch)]"
    using test_message_is_delivered [OF sample_store_ok engine peer run]
    by (simp add: handed_over_def direct_def sample_mail unicode to empty)
  with run show ?thesis by blast
qed

end
