(* ===== verification/Command.thy ===== *)
theory Command
  imports Http_Server "HOL-Library.Multiset" "HOL-Library.Sublist"
begin

text \<open>
  \<open>cmd/hoomail/main.go\<close>: the environment, the health check, and the process that opens the store and the
  listeners, runs the three services and shuts them down.  What the operating system and the services answer is
  a parameter; the actions of \<open>run\<close> are recorded.
\<close>

section \<open>Environment\<close>

text \<open>\<open>os.Getenv\<close> gives the empty text for a variable that is not set.\<close>

definition environment :: "(bytes \<Rightarrow> bytes) \<Rightarrow> bytes \<Rightarrow> bytes \<Rightarrow> bytes" where
  "environment getenv name fallback = (if getenv name \<noteq> [] then getenv name else fallback)"

text \<open>\<open>net.JoinHostPort\<close>.\<close>

definition join_host_port :: "bytes \<Rightarrow> bytes \<Rightarrow> bytes" where
  "join_host_port host port =
     (if CHR '':'' \<in> set host then ''['' @ host @ '']:'' @ port else host @ '':'' @ port)"

section \<open>The health check\<close>

text \<open>A response of the HTTP server: its status, and the errors of reading and of closing its body.\<close>

record 'e http_answer =
  ha_status :: nat
  ha_status_text :: bytes
  ha_read_error :: "'e option"
  ha_close_error :: "'e option"

record 'e health_io =
  hi_get :: "bytes \<Rightarrow> 'e + 'e http_answer"
  hi_dial :: "bytes \<Rightarrow> 'e option"
  hi_close :: "bytes \<Rightarrow> 'e option"
  hi_set_deadline :: "bytes \<Rightarrow> 'e option"
  hi_read_line :: "bytes \<Rightarrow> 'e + bytes"

datatype 'e health_err =
  Http_Failed 'e | Http_Unread 'e | Http_Unclosed 'e | Http_Status bytes
| Smtp_Failed 'e | Smtp_Unclosed 'e
| Pop3_Failed 'e | Pop3_Deadline 'e | Pop3_Unread 'e | Pop3_Answered bytes

definition health_http :: "'e health_io \<Rightarrow> bytes \<Rightarrow> 'e health_err option" where
  "health_http io address =
     (case hi_get io (''http://'' @ address @ ''/api/mailboxes'') of
        Inl e \<Rightarrow> Some (Http_Failed e)
      | Inr a \<Rightarrow>
          (case ha_read_error a of
             Some e \<Rightarrow> Some (Http_Unread e)
           | None \<Rightarrow>
               (case ha_close_error a of
                  Some e \<Rightarrow> Some (Http_Unclosed e)
                | None \<Rightarrow> if ha_status a \<noteq> 200 then Some (Http_Status (ha_status_text a)) else None)))"

definition health_smtp :: "'e health_io \<Rightarrow> bytes \<Rightarrow> 'e health_err option" where
  "health_smtp io address =
     (case hi_dial io address of
        Some e \<Rightarrow> Some (Smtp_Failed e)
      | None \<Rightarrow> (case hi_close io address of Some e \<Rightarrow> Some (Smtp_Unclosed e) | None \<Rightarrow> None))"

definition health_pop3 :: "'e health_io \<Rightarrow> bytes \<Rightarrow> 'e health_err option" where
  "health_pop3 io address =
     (case hi_dial io address of
        Some e \<Rightarrow> Some (Pop3_Failed e)
      | None \<Rightarrow>
          (case hi_set_deadline io address of
             Some e \<Rightarrow> Some (Pop3_Deadline e)
           | None \<Rightarrow>
               (case hi_read_line io address of
                  Inl e \<Rightarrow> Some (Pop3_Unread e)
                | Inr greeting \<Rightarrow>
                    if \<not> has_prefix greeting ''+OK'' then Some (Pop3_Answered (trim_space greeting)) else None)))"

definition healthcheck :: "(bytes \<Rightarrow> bytes) \<Rightarrow> 'e health_io \<Rightarrow> 'e health_err option" where
  "healthcheck getenv io =
     (let host = environment getenv ''HOOMAIL_HEALTHCHECK_HOST'' ''127.0.0.1'';
          port = environment getenv ''PORT'' ''3000'';
          smtp_port = environment getenv ''HOOMAIL_SMTP_PORT'' ''2525'';
          pop3_port = environment getenv ''HOOMAIL_POP3_PORT'' ''3110'' in
      case health_http io (join_host_port host port) of
        Some e \<Rightarrow> Some e
      | None \<Rightarrow>
          (case health_smtp io (join_host_port host smtp_port) of
             Some e \<Rightarrow> Some e
           | None \<Rightarrow> health_pop3 io (join_host_port host pop3_port)))"

section \<open>Shutting down\<close>

datatype sentinel = Http_Closed | Smtp_Closed | Pop3_Closed

text \<open>\<open>is\<close> is \<open>errors.Is\<close> against the sentinel errors of the three servers; \<open>None\<close> is a nil error.\<close>

definition is_expected_close :: "('e \<Rightarrow> sentinel \<Rightarrow> bool) \<Rightarrow> 'e option \<Rightarrow> bool" where
  "is_expected_close is err =
     (case err of None \<Rightarrow> True | Some e \<Rightarrow> is e Http_Closed \<or> is e Smtp_Closed \<or> is e Pop3_Closed)"

datatype 'e shutdown_err = Shutdown_Http 'e | Shutdown_Smtp 'e | Shutdown_Pop3 'e

text \<open>The three outcomes in the order in which they arrive on the channel are written to a table by their index.\<close>

fun collect_outcomes :: "(nat \<times> 'e option) list \<Rightarrow> 'e option list \<Rightarrow> 'e option list" where
  "collect_outcomes [] table = table"
| "collect_outcomes ((i, err) # outcomes) table = collect_outcomes outcomes (table[i := err])"

definition shutdown_services :: "('e \<Rightarrow> sentinel \<Rightarrow> bool) \<Rightarrow> (nat \<times> 'e option) list \<Rightarrow> 'e shutdown_err option" where
  "shutdown_services is outcomes =
     (let table = collect_outcomes outcomes [None, None, None] in
      case table ! 0 of
        Some e \<Rightarrow> Some (Shutdown_Http e)
      | None \<Rightarrow>
          if table ! 1 \<noteq> None \<and> \<not> is_expected_close is (table ! 1) then map_option Shutdown_Smtp (table ! 1)
          else if table ! 2 \<noteq> None \<and> \<not> is_expected_close is (table ! 2) then map_option Shutdown_Pop3 (table ! 2)
          else None)"

section \<open>The process\<close>

datatype listener = Smtp_Listener | Pop3_Listener | Http_Listener

datatype action =
  Open_Store bytes | Close_Store | Listen listener bytes | Close_Listener listener
| Serve listener | Watch_Signals | Stop_Signals | Shutdown_All

text \<open>What ends the wait: a signal, or a server that returned.\<close>

datatype 'e wakeup = Signalled | Served "'e option"

record 'e system =
  sy_open :: "bytes \<Rightarrow> 'e option"
  sy_listen :: "listener \<Rightarrow> bytes \<Rightarrow> 'e option"
  sy_wakeup :: "'e wakeup"
  sy_outcomes :: "(nat \<times> 'e option) list"

datatype 'e run_err = Open_Failed 'e | Listen_Failed listener 'e | Serve_Failed 'e | Stop_Failed "'e shutdown_err"

definition default_path :: bytes where
  "default_path = ''data/hoomail.db''"

text \<open>What \<open>run\<close> does once everything is open.\<close>

definition serve_until :: "('e \<Rightarrow> sentinel \<Rightarrow> bool) \<Rightarrow> 'e system \<Rightarrow> 'e run_err option" where
  "serve_until is sys =
     (case sy_wakeup sys of
        Served (Some e) \<Rightarrow>
          if is_expected_close is (Some e) then map_option Stop_Failed (shutdown_services is (sy_outcomes sys))
          else Some (Serve_Failed e)
      | _ \<Rightarrow> map_option Stop_Failed (shutdown_services is (sy_outcomes sys)))"

text \<open>The result and the actions; deferred actions come last, the latest first.\<close>

definition run :: "(bytes \<Rightarrow> bytes) \<Rightarrow> ('e \<Rightarrow> sentinel \<Rightarrow> bool) \<Rightarrow> 'e system \<Rightarrow> 'e run_err option \<times> action list" where
  "run getenv is sys =
     (let smtp = '':'' @ environment getenv ''HOOMAIL_SMTP_PORT'' ''2525'';
          pop3 = '':'' @ environment getenv ''HOOMAIL_POP3_PORT'' ''3110'';
          http = '':'' @ environment getenv ''PORT'' ''3000'';
          path = environment getenv ''HOOMAIL_DB_PATH'' default_path in
      case sy_open sys path of
        Some e \<Rightarrow> (Some (Open_Failed e), [Open_Store path])
      | None \<Rightarrow>
          (case sy_listen sys Smtp_Listener smtp of
             Some e \<Rightarrow> (Some (Listen_Failed Smtp_Listener e), [Open_Store path, Listen Smtp_Listener smtp, Close_Store])
           | None \<Rightarrow>
               (case sy_listen sys Pop3_Listener pop3 of
                  Some e \<Rightarrow>
                    (Some (Listen_Failed Pop3_Listener e),
                     [Open_Store path, Listen Smtp_Listener smtp, Listen Pop3_Listener pop3, Close_Listener Smtp_Listener,
                      Close_Store])
                | None \<Rightarrow>
                    (case sy_listen sys Http_Listener http of
                       Some e \<Rightarrow>
                         (Some (Listen_Failed Http_Listener e),
                          [Open_Store path, Listen Smtp_Listener smtp, Listen Pop3_Listener pop3, Listen Http_Listener http,
                           Close_Listener Smtp_Listener, Close_Listener Pop3_Listener, Close_Store])
                     | None \<Rightarrow>
                         (serve_until is sys,
                          [Open_Store path, Listen Smtp_Listener smtp, Listen Pop3_Listener pop3, Listen Http_Listener http,
                           Serve Smtp_Listener, Serve Pop3_Listener, Serve Http_Listener, Watch_Signals,
                           Shutdown_All, Stop_Signals, Close_Store])))))"

section \<open>\<open>main\<close>\<close>

datatype 'e process_end = Printed bytes | Finished | Health_Failed "'e health_err" | Run_Failed "'e run_err"

definition main_process ::
  "bytes \<Rightarrow> (bytes \<Rightarrow> bytes) \<Rightarrow> 'e health_io \<Rightarrow> ('e \<Rightarrow> sentinel \<Rightarrow> bool) \<Rightarrow> 'e system \<Rightarrow> bytes list \<Rightarrow> 'e process_end" where
  "main_process version getenv io is sys args =
     (if length args = 2 \<and> args ! 1 = ''version'' then Printed version
      else if length args = 2 \<and> args ! 1 = ''healthcheck'' then
        (case healthcheck getenv io of None \<Rightarrow> Finished | Some e \<Rightarrow> Health_Failed e)
      else (case fst (run getenv is sys) of None \<Rightarrow> Finished | Some e \<Rightarrow> Run_Failed e))"

text \<open>The value of the package \<open>version\<close>: that of the build, or the embedded file for a build without one.\<close>

definition version_value :: "bytes \<Rightarrow> bytes \<Rightarrow> bytes" where
  "version_value built source = (if built = ''dev'' then trim_space source else built)"

section \<open>What the process guarantees\<close>

lemma collect_nth:
  "distinct (map fst outcomes) \<Longrightarrow> i < length table \<Longrightarrow>
     collect_outcomes outcomes table ! i = (case map_of outcomes i of None \<Rightarrow> table ! i | Some err \<Rightarrow> err)"
proof (induction outcomes arbitrary: table)
  case (Cons p outcomes)
  obtain j err where p: "p = (j, err)" by (cases p)
  have "map_of outcomes i = None" if "i = j" using Cons.prems(1) that by (simp add: p map_of_eq_None_iff)
  then show ?case using Cons by (auto simp: p nth_list_update split: option.split)
qed simp

text \<open>
  Shutting down waits for all three services, and its result does not depend on the order in which they finish: it
  is nil exactly when the HTTP server stopped without an error and the mail servers without one that does not
  just say they are closed; otherwise it is the first of these errors, the HTTP server first.
\<close>

theorem shutdown_independent_of_order:
  assumes "mset outcomes = {#(0, http), (1, smtp), (2, pop3)#}"
  shows "shutdown_services is outcomes =
    (case http of
       Some e \<Rightarrow> Some (Shutdown_Http e)
     | None \<Rightarrow>
         if is_expected_close is smtp then
           (if is_expected_close is pop3 then None else map_option Shutdown_Pop3 pop3)
         else map_option Shutdown_Smtp smtp)"
proof -
  have "mset (map fst outcomes) = mset [0, 1, 2]" using assms by (simp add: mset_map)
  then have d: "distinct (map fst outcomes)" using mset_eq_imp_distinct_iff [of "map fst outcomes" "[0, 1, 2]"] by simp
  have "set outcomes = {(0, http), (1, smtp), (2, pop3)}" using assms by (metis set_mset_add_mset_insert set_mset_empty set_mset_mset)
  then have m: "map_of outcomes 0 = Some http" "map_of outcomes 1 = Some smtp" "map_of outcomes 2 = Some pop3"
    using d by (simp_all add: map_of_eq_Some_iff)
  have table: "collect_outcomes outcomes [None, None, None] ! i = (case map_of outcomes i of None \<Rightarrow> None | Some err \<Rightarrow> err)"
    if "i < 3" for i
    using collect_nth [OF d, of i "[None, None, None]"] that by (simp add: less_Suc_eq numeral_eq_Suc split: option.split) auto
  show ?thesis
    using table [of 0] table [of 1] table [of 2] m
    by (auto simp: shutdown_services_def Let_def is_expected_close_def split: option.split)
qed

theorem shutdown_independent_of_order_witness:
  "shutdown_services (\<lambda>e s. False) [(2, Some ''late''), (0, None), (1, Some ''busy'')] = Some (Shutdown_Smtp ''busy'')"
proof -
  have "mset [(2 :: nat, Some ''late''), (0, None), (1, Some ''busy'')] = {#(0, None), (1, Some ''busy''), (2, Some ''late'')#}" by simp
  from shutdown_independent_of_order [OF this, of "\<lambda>e s. False"] show ?thesis by (simp add: is_expected_close_def)
qed

text \<open>
  Whatever fails, \<open>run\<close> closes what it opened: the store in the end, and every listener itself unless its server
  took it, and then all servers are shut down.
\<close>

lemma run_leaves_nothing_open:
  "case run getenv is sys of (r, actions) \<Rightarrow>
     (sy_open sys (environment getenv ''HOOMAIL_DB_PATH'' default_path) = None \<longrightarrow> last actions = Close_Store)
     \<and> (\<forall>l a. Listen l a \<in> set actions \<longrightarrow> sy_listen sys l a = None \<longrightarrow>
          Close_Listener l \<in> set actions \<or> (Serve l \<in> set actions \<and> Shutdown_All \<in> set actions))
     \<and> (r = None \<longrightarrow> Shutdown_All \<in> set actions)"
  by (auto simp: run_def Let_def split: option.split)

text \<open>The check succeeds only when all three servers answer as they should.\<close>

lemma healthcheck_exact:
  "healthcheck getenv io = None \<longleftrightarrow>
     (\<exists>a greeting. let address = (\<lambda>name port. join_host_port (environment getenv ''HOOMAIL_HEALTHCHECK_HOST'' ''127.0.0.1'') (environment getenv name port)) in
        hi_get io (''http://'' @ address ''PORT'' ''3000'' @ ''/api/mailboxes'') = Inr a \<and> ha_read_error a = None \<and> ha_close_error a = None
        \<and> ha_status a = 200
        \<and> hi_dial io (address ''HOOMAIL_SMTP_PORT'' ''2525'') = None \<and> hi_close io (address ''HOOMAIL_SMTP_PORT'' ''2525'') = None
        \<and> hi_dial io (address ''HOOMAIL_POP3_PORT'' ''3110'') = None \<and> hi_set_deadline io (address ''HOOMAIL_POP3_PORT'' ''3110'') = None
        \<and> hi_read_line io (address ''HOOMAIL_POP3_PORT'' ''3110'') = Inr greeting \<and> has_prefix greeting ''+OK'')"
  by (auto simp: healthcheck_def health_http_def health_smtp_def health_pop3_def Let_def split: option.split sum.split)

end
