(* ===== verification/Openapi.thy ===== *)
theory Openapi
  imports Http_Server
begin

text \<open>
  \<open>internal/httpserver/openapi_generate.go\<close>: the document that describes the API, as the JSON value that is
  encoded; the encoder of \<open>encoding/json\<close>, which also sorts the keys, and the files are not modelled.
\<close>

section \<open>Schemas\<close>

definition schema_prefix :: bytes where
  "schema_prefix = ''#/components/schemas/''"

definition schema_ref :: "bytes \<Rightarrow> json" where
  "schema_ref name = JObject [(''$ref'', JString (schema_prefix @ name))]"

definition array_of :: "json \<Rightarrow> json" where
  "array_of items = JObject [(''type'', JString ''array''), (''items'', items)]"

definition object_schema :: "bytes list \<Rightarrow> (bytes \<times> json) list \<Rightarrow> json" where
  "object_schema required properties =
     JObject ([(''type'', JString ''object''), (''properties'', JObject properties)]
       @ (if required \<noteq> [] then [(''required'', JArray (map JString required))] else []))"

definition nullable_schema :: "json \<Rightarrow> json" where
  "nullable_schema schema =
     (case schema of JObject fs \<Rightarrow> JObject (map_put ''nullable'' (JBool True) fs) | _ \<Rightarrow> schema)"

definition nullable_ref :: "bytes \<Rightarrow> json" where
  "nullable_ref name = JObject [(''allOf'', JArray [schema_ref name]), (''nullable'', JBool True)]"

definition string_schema :: json where
  "string_schema = JObject [(''type'', JString ''string'')]"

definition integer_schema :: json where
  "integer_schema = JObject [(''type'', JString ''integer''), (''format'', JString ''int64'')]"

definition boolean_schema :: json where
  "boolean_schema = JObject [(''type'', JString ''boolean'')]"

definition address_schema :: json where
  "address_schema =
     object_schema [''address''] [(''address'', string_schema), (''name'', nullable_schema (string_schema))]"

definition error_schema :: json where
  "error_schema =
     object_schema [''error''] [(''error'', string_schema)]"

definition success_schema :: json where
  "success_schema =
     object_schema [''ok''] [(''ok'', boolean_schema)]"

definition mailbox_schema :: json where
  "mailbox_schema =
     object_schema [''id'', ''address'', ''created_at'', ''last_message_at'', ''total_count'', ''unread_count'']
       [(''id'', integer_schema), (''address'', string_schema), (''created_at'', integer_schema),
       (''last_message_at'', nullable_schema (integer_schema)), (''total_count'', integer_schema),
       (''unread_count'', integer_schema)]"

definition message_list_item_schema :: json where
  "message_list_item_schema =
     object_schema [''id'', ''from_address'', ''from_name'', ''subject'', ''snippet'', ''is_read'', ''received_at'',
       ''has_ical'', ''attachment_count''] [(''id'', integer_schema), (''from_address'', nullable_schema (string_schema)),
       (''from_name'', nullable_schema (string_schema)), (''subject'', nullable_schema (string_schema)),
       (''snippet'', string_schema), (''is_read'', JObject [(''type'', JString ''integer''), (''enum'', JArray [JNumber
       ''0'', JNumber ''1''])]), (''received_at'', integer_schema), (''has_ical'', JObject [(''type'', JString ''integer''),
       (''enum'', JArray [JNumber ''0'', JNumber ''1''])]), (''attachment_count'', integer_schema)]"

definition calendar_attendee_schema :: json where
  "calendar_attendee_schema =
     object_schema [''address''] [(''address'', string_schema), (''name'', string_schema), (''partstat'', string_schema),
       (''role'', string_schema)]"

definition calendar_event_schema :: json where
  "calendar_event_schema =
     object_schema [''id'', ''uid'', ''sequence'', ''summary'', ''description'', ''location'', ''status'',
       ''organizerAddress'', ''organizerName'', ''attendees'', ''dtstart'', ''dtend'', ''allDay'', ''lastMessageId'',
       ''updatedAt''] [(''id'', integer_schema), (''uid'', string_schema), (''sequence'', JObject
       [(''type'', JString ''integer'')]), (''summary'', nullable_schema (string_schema)), (''description'', nullable_schema
       (string_schema)), (''location'', nullable_schema (string_schema)), (''status'', string_schema),
       (''organizerAddress'', nullable_schema (string_schema)), (''organizerName'', nullable_schema (string_schema)),
       (''attendees'', array_of (schema_ref ''CalendarAttendee'')), (''dtstart'', integer_schema),
       (''dtend'', nullable_schema (integer_schema)), (''allDay'', boolean_schema), (''lastMessageId'', nullable_schema
       (integer_schema)), (''updatedAt'', integer_schema)]"

definition attachment_info_schema :: json where
  "attachment_info_schema =
     object_schema [''id'', ''filename'', ''contentType'', ''size''] [(''id'', integer_schema),
       (''filename'', nullable_schema (string_schema)), (''contentType'', nullable_schema (string_schema)),
       (''size'', integer_schema)]"

definition message_schema :: json where
  "message_schema =
     object_schema [''id'', ''mailboxId'', ''fromAddress'', ''fromName'', ''to'', ''cc'', ''subject'', ''html'', ''text'',
       ''headers'', ''size'', ''receivedAt'', ''icalEvents''] [(''id'', integer_schema), (''mailboxId'', integer_schema),
       (''fromAddress'', nullable_schema (string_schema)), (''fromName'', nullable_schema (string_schema)),
       (''to'', array_of (address_schema)), (''cc'', array_of (address_schema)), (''subject'', nullable_schema
       (string_schema)), (''html'', nullable_schema (string_schema)), (''text'', nullable_schema (string_schema)),
       (''headers'', JObject [(''type'', JString ''object''), (''additionalProperties'', string_schema)]),
       (''size'', integer_schema), (''receivedAt'', integer_schema), (''icalEvents'', array_of (JObject
       [(''type'', JString ''object''), (''additionalProperties'', JBool True)]))]"

definition message_action_schema :: json where
  "message_action_schema =
     object_schema [''action'', ''ids''] [(''action'', JObject [(''type'', JString ''string''), (''enum'', JArray
       [JString ''delete'', JString ''read'', JString ''unread''])]), (''ids'', JObject [(''type'', JString ''array''),
       (''items'', integer_schema), (''minItems'', JNumber ''1''), (''maxItems'', JNumber ''10000'')])]"

definition send_test_request_schema :: json where
  "send_test_request_schema =
     object_schema [] [(''to'', JObject [(''type'', JString ''string''), (''format'', JString ''email''),
       (''default'', JString ''test@hoomail.local'')]), (''subject'', string_schema), (''kind'', JObject
       [(''type'', JString ''string''), (''enum'', JArray [JString ''plain'', JString ''invite'', JString ''update'',
       JString ''cancellation'']), (''default'', JString ''plain'')])]"

definition analysis_schema :: json where
  "analysis_schema =
     object_schema [''version'', ''state'', ''parsedThroughPath'', ''unavailableRuleFamilies'', ''truncated'']
       [(''version'', JObject [(''type'', JString ''integer'')]), (''state'', string_schema),
       (''parsedThroughPath'', nullable_schema (string_schema)), (''unavailableRuleFamilies'', array_of (string_schema)),
       (''truncated'', boolean_schema)]"

definition inspection_summary_schema :: json where
  "inspection_summary_schema =
     object_schema [''fail'', ''warning'', ''advisory'', ''observed'', ''pass'', ''notEvaluated''] [(''fail'', JObject
       [(''type'', JString ''integer'')]), (''warning'', JObject [(''type'', JString ''integer'')]), (''advisory'', JObject
       [(''type'', JString ''integer'')]), (''observed'', JObject [(''type'', JString ''integer'')]), (''pass'', JObject
       [(''type'', JString ''integer'')]), (''notEvaluated'', JObject [(''type'', JString ''integer'')])]"

definition reference_schema :: json where
  "reference_schema =
     object_schema [''label'', ''url''] [(''label'', string_schema), (''url'', JObject [(''type'', JString ''string''),
       (''format'', JString ''uri'')])]"

definition evidence_schema :: json where
  "evidence_schema =
     object_schema [''source''] [(''source'', string_schema), (''path'', string_schema), (''field'', string_schema),
       (''occurrence'', JObject [(''type'', JString ''integer'')]), (''line'', JObject [(''type'', JString ''integer'')]),
       (''value'', string_schema)]"

definition finding_schema :: json where
  "finding_schema =
     object_schema [''id'', ''category'', ''outcome'', ''severity'', ''basis'', ''applicability'', ''label'', ''detail'',
       ''evidence'', ''evidenceTruncated'', ''reference''] [(''id'', string_schema), (''category'', string_schema),
       (''outcome'', string_schema), (''severity'', string_schema), (''basis'', string_schema),
       (''applicability'', string_schema), (''label'', string_schema), (''detail'', string_schema), (''evidence'', array_of
       (schema_ref ''Evidence'')), (''evidenceTruncated'', boolean_schema), (''reference'', nullable_ref ''Reference'')]"

definition resource_schema :: json where
  "resource_schema =
     object_schema [''kind'', ''path'', ''url'', ''text'', ''occurrenceCount''] [(''kind'', string_schema),
       (''path'', nullable_schema (string_schema)), (''url'', string_schema), (''text'', string_schema),
       (''occurrenceCount'', JObject [(''type'', JString ''integer'')])]"

definition inspection_header_schema :: json where
  "inspection_header_schema =
     object_schema [''name'', ''value'', ''occurrence'', ''line''] [(''name'', string_schema), (''value'', string_schema),
       (''occurrence'', JObject [(''type'', JString ''integer'')]), (''line'', JObject [(''type'', JString ''integer'')])]"

definition checksums_schema :: json where
  "checksums_schema =
     object_schema [''md5'', ''sha1'', ''sha256''] [(''md5'', string_schema), (''sha1'', string_schema),
       (''sha256'', string_schema)]"

definition compatibility_score_schema :: json where
  "compatibility_score_schema =
     object_schema [''supported'', ''partial'', ''unsupported''] [(''supported'', JObject [(''type'', JString ''number'')]),
       (''partial'', JObject [(''type'', JString ''number'')]), (''unsupported'', JObject [(''type'', JString ''number'')])]"

definition compatibility_client_schema :: json where
  "compatibility_client_schema =
     object_schema [''name'', ''family'', ''platform'', ''version'', ''support'', ''note''] [(''name'', string_schema),
       (''family'', string_schema), (''platform'', string_schema), (''version'', string_schema), (''support'', JObject
       [(''type'', JString ''string''), (''enum'', JArray [JString ''yes'', JString ''partial'', JString ''no''])]),
       (''note'', nullable_schema (string_schema))]"

definition compatibility_warning_schema :: json where
  "compatibility_warning_schema =
     object_schema [''slug'', ''title'', ''category'', ''description'', ''url'', ''occurrences'', ''score'', ''clients'']
       [(''slug'', string_schema), (''title'', string_schema), (''category'', string_schema),
       (''description'', string_schema), (''url'', JObject [(''type'', JString ''string''), (''format'', JString ''uri'')]),
       (''occurrences'', JObject [(''type'', JString ''integer'')]), (''score'', schema_ref ''CompatibilityScore''),
       (''clients'', array_of (schema_ref ''CompatibilityClient''))]"

definition compatibility_platform_schema :: json where
  "compatibility_platform_schema =
     object_schema [''family'', ''platform'', ''label''] [(''family'', string_schema), (''platform'', string_schema),
       (''label'', string_schema)]"

definition html_compatibility_schema :: json where
  "html_compatibility_schema =
     object_schema [''dataVersion'', ''dataUpdated'', ''nodes'', ''tests'', ''score'', ''platforms'', ''warnings'']
       [(''dataVersion'', string_schema), (''dataUpdated'', string_schema), (''nodes'', JObject
       [(''type'', JString ''integer'')]), (''tests'', JObject [(''type'', JString ''integer'')]), (''score'', schema_ref
       ''CompatibilityScore''), (''platforms'', array_of (schema_ref ''CompatibilityPlatform'')), (''warnings'', array_of
       (schema_ref ''CompatibilityWarning'')), (''warningsTruncated'', JObject [(''type'', JString ''boolean'')]),
       (''clientsTruncated'', JObject [(''type'', JString ''boolean'')]), (''truncated'', JObject
       [(''type'', JString ''boolean'')])]"

definition mime_node_schema :: json where
  "mime_node_schema =
     object_schema [''path'', ''contentType'', ''charset'', ''encoding'', ''disposition'', ''filename'', ''contentId'',
       ''rawSize'', ''decodedSize'', ''children''] [(''path'', string_schema), (''contentType'', string_schema),
       (''charset'', nullable_schema (string_schema)), (''encoding'', nullable_schema (string_schema)),
       (''disposition'', nullable_schema (string_schema)), (''filename'', nullable_schema (string_schema)),
       (''contentId'', nullable_schema (string_schema)), (''rawSize'', nullable_schema (JObject
       [(''type'', JString ''integer'')])), (''decodedSize'', nullable_schema (JObject [(''type'', JString ''integer'')])),
       (''checksums'', schema_ref ''Checksums''), (''children'', array_of (schema_ref ''MimeNode''))]"

definition inspection_report_schema :: json where
  "inspection_report_schema =
     object_schema [''analysis'', ''summary'', ''findings'', ''headers'', ''resources'', ''mimeTree'',
       ''htmlCompatibility''] [(''analysis'', schema_ref ''Analysis''), (''summary'', schema_ref ''InspectionSummary''),
       (''findings'', array_of (schema_ref ''Finding'')), (''headers'', array_of (schema_ref ''InspectionHeader'')),
       (''resources'', array_of (schema_ref ''Resource'')), (''mimeTree'', nullable_ref ''MimeNode''),
       (''htmlCompatibility'', nullable_ref ''HTMLCompatibility'')]"

definition event_schema :: json where
  "event_schema =
     object_schema [''type''] [(''type'', JObject [(''type'', JString ''string''), (''enum'', JArray [JString ''connected'',
       JString ''mailbox:new'', JString ''mailbox:deleted'', JString ''messages:changed'', JString ''calendar:changed'',
       JString ''message:new'', JString ''reset''])]), (''mailbox'', object_schema [''id'', ''address'']
       [(''id'', integer_schema), (''address'', string_schema)]), (''mailboxId'', integer_schema),
       (''message'', object_schema [''id'', ''subject'', ''fromAddress'', ''fromName''] [(''id'', integer_schema),
       (''subject'', nullable_schema (string_schema)), (''fromAddress'', nullable_schema (string_schema)),
       (''fromName'', nullable_schema (string_schema))])]"

definition schemas :: "(bytes \<times> json) list" where
  "schemas =
     [(''Error'', error_schema), (''Success'', success_schema), (''Mailbox'', mailbox_schema),
       (''MessageListItem'', message_list_item_schema), (''CalendarAttendee'', calendar_attendee_schema),
       (''CalendarEvent'', calendar_event_schema), (''AttachmentInfo'', attachment_info_schema),
       (''Message'', message_schema), (''MessageAction'', message_action_schema),
       (''SendTestRequest'', send_test_request_schema), (''Analysis'', analysis_schema),
       (''InspectionSummary'', inspection_summary_schema), (''Reference'', reference_schema),
       (''Evidence'', evidence_schema), (''Finding'', finding_schema), (''Resource'', resource_schema),
       (''InspectionHeader'', inspection_header_schema), (''Checksums'', checksums_schema),
       (''CompatibilityScore'', compatibility_score_schema), (''CompatibilityClient'', compatibility_client_schema),
       (''CompatibilityWarning'', compatibility_warning_schema), (''CompatibilityPlatform'', compatibility_platform_schema),
       (''HTMLCompatibility'', html_compatibility_schema), (''MimeNode'', mime_node_schema),
       (''InspectionReport'', inspection_report_schema), (''Event'', event_schema)]"

section \<open>Responses and operations\<close>

definition json_response :: "bytes \<Rightarrow> json \<Rightarrow> json" where
  "json_response description schema =
     JObject [(''description'', JString description),
       (''content'', JObject [(''application/json'', JObject [(''schema'', schema)])])]"

definition error_description :: "bytes \<Rightarrow> bytes" where
  "error_description code =
     (if code = ''404'' then ''Resource not found'' else if code = ''502'' then ''SMTP server unavailable''
      else ''Invalid request'')"

definition error_responses :: "bytes list \<Rightarrow> (bytes \<times> json) list" where
  "error_responses codes =
     fold (\<lambda>code. map_put code (json_response (error_description code) (schema_ref ''Error''))) codes
       [(''500'', JObject [(''description'', JString ''Internal server error''),
           (''content'', JObject [(''text/plain'', JObject [(''schema'', string_schema)])])])]"

definition with_success :: "(bytes \<times> json) list \<Rightarrow> bytes \<Rightarrow> bytes \<Rightarrow> json \<Rightarrow> (bytes \<times> json) list" where
  "with_success responses status description schema = map_put status (json_response description schema) responses"

definition path_parameter :: "bytes \<Rightarrow> bytes \<Rightarrow> json" where
  "path_parameter name description =
     JObject [(''name'', JString name), (''in'', JString ''path''), (''required'', JBool True),
       (''description'', JString description), (''schema'', integer_schema)]"

definition operation :: "bytes \<Rightarrow> bytes \<Rightarrow> (bytes \<times> json) list \<Rightarrow> json" where
  "operation tag summary responses =
     JObject [(''tags'', JArray [JString tag]), (''summary'', JString summary), (''responses'', JObject responses)]"

text \<open>Assigning to a field of an object.\<close>

definition set_field :: "json \<Rightarrow> bytes \<Rightarrow> json \<Rightarrow> json" where
  "set_field v k x = (case v of JObject fs \<Rightarrow> JObject (map_put k x fs) | _ \<Rightarrow> v)"

definition op_mailboxes :: json where
  "op_mailboxes =
     operation ''Mailboxes'' ''List mailboxes'' (with_success (error_responses []) ''200'' ''Mailboxes'' (object_schema
       [''mailboxes''] [(''mailboxes'', array_of (schema_ref ''Mailbox''))]))"

definition op_delete_mailbox :: json where
  "op_delete_mailbox =
     set_field (operation ''Mailboxes'' ''Delete a mailbox and its messages'' (with_success (error_responses [''400'',
       ''404'']) ''200'' ''Mailbox deleted'' (schema_ref ''Success''))) ''parameters'' (JArray [path_parameter ''mailboxId''
       ''Mailbox ID''])"

definition op_list_messages :: json where
  "op_list_messages =
     set_field (operation ''Messages'' ''List or search mailbox messages'' (with_success (error_responses [''400'']) ''200''
       ''Messages'' (object_schema [''messages''] [(''messages'', array_of (schema_ref ''MessageListItem''))])))
       ''parameters'' (JArray [path_parameter ''mailboxId'' ''Mailbox ID'', JObject [(''name'', JString ''q''),
       (''in'', JString ''query''), (''description'', JString ''Case-insensitive message search''), (''schema'', JObject
       [(''type'', JString ''string''), (''maxLength'', JNumber ''1024'')])]])"

definition op_list_events :: json where
  "op_list_events =
     set_field (operation ''Calendar'' ''List mailbox calendar events'' (with_success (error_responses [''400'']) ''200''
       ''Calendar events'' (object_schema [''events''] [(''events'', array_of (schema_ref ''CalendarEvent''))])))
       ''parameters'' (JArray [path_parameter ''mailboxId'' ''Mailbox ID''])"

definition op_get_message :: json where
  "op_get_message =
     set_field (operation ''Messages'' ''Get a message and mark it read'' (with_success (error_responses [''400'', ''404''])
       ''200'' ''Message detail'' (object_schema [''message'', ''attachments''] [(''message'', schema_ref ''Message''),
       (''attachments'', array_of (schema_ref ''AttachmentInfo''))]))) ''parameters'' (JArray [path_parameter ''messageId''
       ''Message ID''])"

definition op_get_source :: json where
  "op_get_source =
     set_field (operation ''Messages'' ''Get exact stored RFC 822 source without marking read'' (map_put ''200'' (JObject
       [(''description'', JString ''Raw message source. The response is private and must not be cached; it does not mark the message read.''),
       (''headers'', JObject [(''Cache-Control'', JObject [(''schema'', JObject [(''type'', JString ''string''),
       (''example'', JString ''private, no-store'')])]), (''Content-Type'', JObject [(''schema'', JObject
       [(''type'', JString ''string''), (''example'', JString ''message/rfc822'')])]), (''X-Content-Type-Options'', JObject
       [(''schema'', JObject [(''type'', JString ''string''), (''example'', JString ''nosniff'')])])]),
       (''content'', JObject [(''message/rfc822'', JObject [(''schema'', JObject [(''type'', JString ''string''),
       (''format'', JString ''binary'')])])])]) (error_responses [''400'', ''404'']))) ''parameters'' (JArray
       [path_parameter ''messageId'' ''Message ID''])"

definition op_inspect_message :: json where
  "op_inspect_message =
     set_field (operation ''Messages'' ''Analyze a stored message offline'' (with_success (error_responses [''400'',
       ''404'']) ''200'' ''Inspection report'' (schema_ref ''InspectionReport''))) ''parameters'' (JArray [path_parameter
       ''messageId'' ''Message ID''])"

definition op_actions :: json where
  "op_actions =
     set_field (operation ''Messages'' ''Apply an action to messages'' (with_success (error_responses [''400'']) ''200''
       ''Action applied'' (schema_ref ''Success''))) ''requestBody'' (JObject [(''required'', JBool True),
       (''content'', JObject [(''application/json'', JObject [(''schema'', schema_ref ''MessageAction'')])])])"

definition op_attachment :: json where
  "op_attachment =
     set_field (operation ''Attachments'' ''Download or display an attachment'' (map_put ''200'' (JObject
       [(''description'', JString ''Attachment bytes. The response uses the stored safe media type and private no-store caching.''),
       (''content'', JObject [(''*/*'', JObject [(''schema'', JObject [(''type'', JString ''string''),
       (''format'', JString ''binary'')])])])]) (map_put ''422'' (json_response
       ''SVG attachment is not safe to render inline'' (schema_ref ''Error'')) (error_responses [''400'', ''404'',
       ''422''])))) ''parameters'' (JArray [path_parameter ''attachmentId'' ''Attachment ID'', JObject
       [(''name'', JString ''download''), (''in'', JString ''query''),
       (''description'', JString ''Set to 1 to force attachment disposition''), (''schema'', JObject
       [(''type'', JString ''string''), (''enum'', JArray [JString ''1''])])], JObject [(''name'', JString ''inline''),
       (''in'', JString ''query''),
       (''description'', JString ''Set to cid for sanitized inline rendering of a resolved CID SVG resource''),
       (''schema'', JObject [(''type'', JString ''string''), (''enum'', JArray [JString ''cid''])])]])"

definition op_stream :: json where
  "op_stream =
     operation ''Events'' ''Stream live mailbox events'' ([(''200'', JObject
       [(''description'', JString ''Server-sent events. Each data field contains an Event JSON object.''),
       (''content'', JObject [(''text/event-stream'', JObject [(''schema'', JObject [(''type'', JString ''string'')]),
       (''example'', JString (''data: {'' @ [DQUOTE] @ ''type'' @ [DQUOTE] @ '':'' @ [DQUOTE] @ ''connected'' @ [DQUOTE] @
       ''}'' @ [LF] @ [LF]))])])]), (''500'', the (map_of (error_responses []) ''500''))])"

definition op_reset :: json where
  "op_reset =
     operation ''System'' ''Delete all stored mailboxes and messages'' (with_success (error_responses []) ''200''
       ''Store reset'' (schema_ref ''Success''))"

definition op_send_test :: json where
  "op_send_test =
     set_field (operation ''System'' ''Send a built-in test message through Hoomail SMTP'' (with_success (error_responses
       [''400'', ''502'']) ''200'' ''Test message sent'' (schema_ref ''Success''))) ''requestBody'' (JObject
       [(''content'', JObject [(''application/json'', JObject [(''schema'', schema_ref ''SendTestRequest'')])])])"

section \<open>The document\<close>

definition api_paths :: "(bytes \<times> json) list" where
  "api_paths =
     [(''/api/mailboxes'', JObject [(''get'', op_mailboxes)]), (''/api/mailboxes/{mailboxId}'', JObject
       [(''delete'', op_delete_mailbox)]), (''/api/mailboxes/{mailboxId}/messages'', JObject [(''get'', op_list_messages)]),
       (''/api/mailboxes/{mailboxId}/events'', JObject [(''get'', op_list_events)]), (''/api/messages/{messageId}'', JObject
       [(''get'', op_get_message)]), (''/api/messages/{messageId}/source'', JObject [(''get'', op_get_source)]),
       (''/api/messages/{messageId}/inspect'', JObject [(''get'', op_inspect_message)]), (''/api/messages/actions'', JObject
       [(''post'', op_actions)]), (''/api/attachments/{attachmentId}'', JObject [(''get'', op_attachment)]),
       (''/api/events'', JObject [(''get'', op_stream)]), (''/api/reset'', JObject [(''post'', op_reset)]),
       (''/api/send-test'', JObject [(''post'', op_send_test)])]"

definition api_document :: "bytes \<Rightarrow> json" where
  "api_document version =
     JObject [(''openapi'', JString ''3.0.3''), (''info'', JObject [(''title'', JString ''Hoomail API''),
       (''version'', JString version),
       (''description'', JString ''HTTP API for Hoomail mailboxes, messages, attachments, calendar data, and live events.'')]),
       (''tags'', JArray [JObject [(''name'', JString ''Mailboxes'')], JObject [(''name'', JString ''Messages'')], JObject
       [(''name'', JString ''Attachments'')], JObject [(''name'', JString ''Calendar'')], JObject
       [(''name'', JString ''Events'')], JObject [(''name'', JString ''System'')]]), (''paths'', JObject api_paths),
       (''components'', JObject [(''schemas'', JObject schemas)])]"

end
