(* ===== verification/Openapi_Props.thy ===== *)
theory Openapi_Props
  imports Openapi
begin

text \<open>The generated document is closed and sound, and describes the routes of the server and what they answer.\<close>

section \<open>References and required fields\<close>

fun refs :: "json \<Rightarrow> bytes list" and refs_list :: "json list \<Rightarrow> bytes list" and refs_fields :: "(bytes \<times> json) list \<Rightarrow> bytes list" where
  "refs (JObject fs) = refs_fields fs"
| "refs (JArray vs) = refs_list vs"
| "refs _ = []"
| "refs_list [] = []"
| "refs_list (v # vs) = refs v @ refs_list vs"
| "refs_fields [] = []"
| "refs_fields ((k, v) # fs) =
     (if k = ''$ref'' then (case v of JString s \<Rightarrow> [s] | _ \<Rightarrow> [[]]) else refs v) @ refs_fields fs"

text \<open>Every object that requires fields has them among its properties.\<close>

definition has_required :: "(bytes \<times> json) list \<Rightarrow> bool" where
  "has_required fs =
     (case map_of fs ''required'' of
        Some (JArray rs) \<Rightarrow>
          (case map_of fs ''properties'' of
             Some (JObject ps) \<Rightarrow> list_all (\<lambda>r. r \<in> set (map (JString \<circ> fst) ps)) rs
           | _ \<Rightarrow> False)
      | _ \<Rightarrow> True)"

fun sound :: "json \<Rightarrow> bool" and sound_list :: "json list \<Rightarrow> bool" and sound_fields :: "(bytes \<times> json) list \<Rightarrow> bool" where
  "sound (JObject fs) = (has_required fs \<and> sound_fields fs)"
| "sound (JArray vs) = sound_list vs"
| "sound _ = True"
| "sound_list [] = True"
| "sound_list (v # vs) = (sound v \<and> sound_list vs)"
| "sound_fields [] = True"
| "sound_fields ((k, v) # fs) = (sound v \<and> sound_fields fs)"

lemma schemas_sound: "sound_fields schemas"
  by code_simp

lemma paths_sound: "sound_fields api_paths"
  by code_simp

definition schema_names :: "bytes list" where
  "schema_names = map fst schemas"

lemma schemas_closed: "list_all (\<lambda>r. \<exists>n\<in>set schema_names. r = schema_prefix @ n) (refs_fields schemas)"
  by code_simp

lemma paths_closed: "list_all (\<lambda>r. \<exists>n\<in>set schema_names. r = schema_prefix @ n) (refs_fields api_paths)"
  by code_simp

definition closed_json :: "json \<Rightarrow> bool" where
  "closed_json v \<longleftrightarrow> list_all (\<lambda>r. \<exists>n\<in>set schema_names. r = schema_prefix @ n) (refs v)"

lemma document_closed: "closed_json (api_document version)" "sound (api_document version)"
proof -
  have "map_of schemas ''required'' = None" "map_of api_paths ''required'' = None"
    by (simp_all add: schemas_def api_paths_def)
  then show "closed_json (api_document version)" "sound (api_document version)"
    using schemas_closed paths_closed schemas_sound paths_sound
    by (simp_all add: closed_json_def api_document_def has_required_def)
qed

section \<open>Operations of the document\<close>

definition field :: "bytes \<Rightarrow> json \<Rightarrow> json" where
  "field k v = (case v of JObject fs \<Rightarrow> (case map_of fs k of None \<Rightarrow> JNull | Some x \<Rightarrow> x) | _ \<Rightarrow> JNull)"

definition entries :: "json \<Rightarrow> (bytes \<times> json) list" where
  "entries v = (case v of JObject fs \<Rightarrow> fs | _ \<Rightarrow> [])"

text \<open>The statuses an operation lists, each with its media types.\<close>

definition listed_responses :: "bytes \<Rightarrow> bytes \<Rightarrow> (bytes \<times> bytes list) list" where
  "listed_responses path meth =
     map (\<lambda>(status, r). (status, map fst (entries (field ''content'' r))))
       (entries (field ''responses'' (field meth (field path (field ''paths'' (api_document []))))))"

text \<open>The path of the document and the method of a route; a method is written in lower case there.\<close>

definition template_of :: "route \<Rightarrow> (bytes \<times> bytes) option" where
  "template_of r =
     (case r of
        R_Mailboxes \<Rightarrow> Some (''/api/mailboxes'', ''get'')
      | R_Delete_Mailbox i \<Rightarrow> Some (''/api/mailboxes/{mailboxId}'', ''delete'')
      | R_Messages i \<Rightarrow> Some (''/api/mailboxes/{mailboxId}/messages'', ''get'')
      | R_Calendar i \<Rightarrow> Some (''/api/mailboxes/{mailboxId}/events'', ''get'')
      | R_Message i \<Rightarrow> Some (''/api/messages/{messageId}'', ''get'')
      | R_Source i \<Rightarrow> Some (''/api/messages/{messageId}/source'', ''get'')
      | R_Inspect i \<Rightarrow> Some (''/api/messages/{messageId}/inspect'', ''get'')
      | R_Actions \<Rightarrow> Some (''/api/messages/actions'', ''post'')
      | R_Attachment i \<Rightarrow> Some (''/api/attachments/{attachmentId}'', ''get'')
      | R_Events \<Rightarrow> Some (''/api/events'', ''get'')
      | R_Reset \<Rightarrow> Some (''/api/reset'', ''post'')
      | R_Send_Test \<Rightarrow> Some (''/api/send-test'', ''post'')
      | _ \<Rightarrow> None)"

lemma listed:
  "listed_responses ''/api/mailboxes'' ''get'' = [(''500'', [''text/plain'']), (''200'', [''application/json''])]"
  "listed_responses ''/api/mailboxes/{mailboxId}'' ''delete'' =
     [(''500'', [''text/plain'']), (''400'', [''application/json'']), (''404'', [''application/json'']), (''200'', [''application/json''])]"
  "listed_responses ''/api/mailboxes/{mailboxId}/messages'' ''get'' =
     [(''500'', [''text/plain'']), (''400'', [''application/json'']), (''200'', [''application/json''])]"
  "listed_responses ''/api/mailboxes/{mailboxId}/events'' ''get'' =
     [(''500'', [''text/plain'']), (''400'', [''application/json'']), (''200'', [''application/json''])]"
  "listed_responses ''/api/messages/{messageId}'' ''get'' =
     [(''500'', [''text/plain'']), (''400'', [''application/json'']), (''404'', [''application/json'']), (''200'', [''application/json''])]"
  "listed_responses ''/api/messages/{messageId}/source'' ''get'' =
     [(''500'', [''text/plain'']), (''400'', [''application/json'']), (''404'', [''application/json'']), (''200'', [''message/rfc822''])]"
  "listed_responses ''/api/messages/{messageId}/inspect'' ''get'' =
     [(''500'', [''text/plain'']), (''400'', [''application/json'']), (''404'', [''application/json'']), (''200'', [''application/json''])]"
  "listed_responses ''/api/messages/actions'' ''post'' =
     [(''500'', [''text/plain'']), (''400'', [''application/json'']), (''200'', [''application/json''])]"
  "listed_responses ''/api/attachments/{attachmentId}'' ''get'' =
     [(''500'', [''text/plain'']), (''400'', [''application/json'']), (''404'', [''application/json'']), (''422'', [''application/json'']), (''200'', [''*/*''])]"
  "listed_responses ''/api/events'' ''get'' = [(''200'', [''text/event-stream'']), (''500'', [''text/plain''])]"
  "listed_responses ''/api/reset'' ''post'' = [(''500'', [''text/plain'']), (''200'', [''application/json''])]"
  "listed_responses ''/api/send-test'' ''post'' =
     [(''500'', [''text/plain'']), (''400'', [''application/json'']), (''502'', [''application/json'']), (''200'', [''application/json''])]"
  by code_simp+

section \<open>What the server answers\<close>

definition media_type :: "'r http_response \<Rightarrow> bytes" where
  "media_type resp =
     (case map_of (rs_headers resp) ''Content-Type'' of None \<Rightarrow> [] | Some v \<Rightarrow> takeWhile (\<lambda>c. c \<noteq> CHR '';'') v)"

text \<open>An answer is described by a list of statuses with media types; without a body the type does not matter.\<close>

definition described :: "(bytes \<times> bytes list) list \<Rightarrow> 'r http_response \<Rightarrow> bool" where
  "described listed resp \<longleftrightarrow>
     (case map_of listed (itoa (int (rs_status resp))) of
        None \<Rightarrow> False
      | Some media \<Rightarrow> rs_body resp = No_Body \<or> media_type resp \<in> set media \<or> ''*/*'' \<in> set media)"

lemma status_texts:
  "itoa 200 = ''200''" "itoa 400 = ''400''" "itoa 404 = ''404''" "itoa 422 = ''422''" "itoa 500 = ''500''" "itoa 502 = ''502''"
  by (simp_all add: itoa_def nat_digits.simps chr_eval)

lemma described_json:
  "described listed (write_json hs status body) \<longleftrightarrow>
     (case map_of listed (itoa (int status)) of
        None \<Rightarrow> False | Some media \<Rightarrow> body = No_Body \<or> ''application/json'' \<in> set media \<or> ''*/*'' \<in> set media)"
  by (simp add: described_def write_json_def media_type_def split: option.split)

lemma described_error:
  "described listed (write_error hs status message) \<longleftrightarrow>
     (case map_of listed (itoa (int status)) of
        None \<Rightarrow> False | Some media \<Rightarrow> ''application/json'' \<in> set media \<or> ''*/*'' \<in> set media)"
  by (simp add: write_error_def described_json split: option.split)

lemma described_internal:
  "described listed (internal_error hs) \<longleftrightarrow>
     (case map_of listed ''500'' of None \<Rightarrow> False | Some media \<Rightarrow> ''text/plain'' \<in> set media \<or> ''*/*'' \<in> set media)"
  by (simp add: described_def internal_error_def http_error_def media_type_def status_texts split: option.split)

lemmas described_simps = described_json described_error described_internal status_texts listed

lemma described_actions:
  "described [(''500'', [''text/plain'']), (''400'', [''application/json'']), (''200'', [''application/json''])] (fst (action_done out))"
  "described [(''500'', [''text/plain'']), (''200'', [''application/json''])] (fst (action_done out))"
  by (auto simp: action_done_def described_simps split: sum.split prod.split)

lemma described_attachment:
  "described (listed_responses ''/api/attachments/{attachmentId}'' ''get'') (attachment_response env rq a)"
proof -
  have sent: "described (listed_responses ''/api/attachments/{attachmentId}'' ''get'') (send_attachment hs t d n c)" for hs t d n c
    by (simp add: described_def send_attachment_def status_texts listed)
  show ?thesis
    by (simp add: attachment_response_def Let_def sent [unfolded listed] described_error status_texts listed split: option.split)
qed

lemma described_branches:
  "described l a \<Longrightarrow> described l b \<Longrightarrow> described l c \<Longrightarrow>
     described l (fst (if p then (a, x) else if q then (b, y) else (c, z)))"
  by simp

lemma described_send_test:
  "described (listed_responses ''/api/send-test'' ''post'') (fst (h_send_test env rq st))"
  unfolding h_send_test_def Let_def
  by (rule described_branches) (simp_all add: described_simps)

text \<open>
  C29. The generated document describes the server: every reference in it names a schema it has, every required field is a
  property of its schema, and whatever a request of a documented route is answered with, the operation of that route lists the status
  of the answer with its media type, for every state of the store and every failure of its driver.
\<close>

theorem document_matches_server:
  "closed_json (api_document version) \<and> sound (api_document version)
   \<and> (case template_of (route_of rq) of
        None \<Rightarrow> True
      | Some (path, meth) \<Rightarrow> described (listed_responses path meth) (fst (serve_http env rq st)))"
proof -
  have "described (listed_responses path meth) (fst (serve_http env rq st))"
    if t: "template_of (route_of rq) = Some (path, meth)" for path meth
  proof (cases "route_of rq")
    case (R_Attachment raw)
    then have p: "path = ''/api/attachments/{attachmentId}''" "meth = ''get''" using t by (simp_all add: template_of_def)
    show ?thesis
      unfolding p by (simp add: serve_http_def R_Attachment h_get_attachment_def described_attachment [unfolded listed] described_simps
          split: option.split sum.split)
  next
    case R_Actions
    then show ?thesis using t
      by (auto simp: template_of_def serve_http_def h_message_actions_def Let_def described_actions described_simps split: option.split)
  next
    case R_Reset
    then show ?thesis using t by (auto simp: template_of_def serve_http_def h_reset_def described_actions described_simps)
  next
    case R_Events
    then show ?thesis using t
      by (auto simp: template_of_def serve_http_def stream_head_def described_def media_type_def described_simps)
  next
    case (R_Source raw)
    have raw: "described (listed_responses ''/api/messages/{messageId}/source'' ''get'')
        \<lparr>rs_status = 200, rs_headers = [(''Cache-Control'', ''private, no-store''), (''Content-Type'', ''message/rfc822''),
           (''X-Content-Type-Options'', ''nosniff'')], rs_body = Raw x\<rparr>" for x
      by (simp add: described_def media_type_def described_simps)
    show ?thesis using t
      by (auto simp: R_Source template_of_def serve_http_def h_get_message_source_def raw [unfolded listed] described_simps split: option.split sum.split)
  next
    case (R_Inspect raw)
    have gone: "described (listed_responses ''/api/messages/{messageId}/inspect'' ''get'')
        \<lparr>rs_status = 200, rs_headers = [], rs_body = No_Body\<rparr>"
      by (simp add: described_def described_simps)
    show ?thesis using t gone [unfolded listed]
      by (auto simp: R_Inspect template_of_def serve_http_def h_inspect_message_def described_simps split: option.split sum.split)
  next
    case R_Mailboxes
    then show ?thesis using t
      by (auto simp: template_of_def serve_http_def h_list_mailboxes_def described_simps split: sum.split prod.split)
  next
    case (R_Delete_Mailbox raw)
    then show ?thesis using t
      by (auto simp: template_of_def serve_http_def h_delete_mailbox_def described_simps split: option.split sum.split prod.split)
  next
    case (R_Messages raw)
    then show ?thesis using t
      by (auto simp: template_of_def serve_http_def h_list_messages_def Let_def described_simps split: option.split sum.split prod.split)
  next
    case (R_Calendar raw)
    then show ?thesis using t
      by (auto simp: template_of_def serve_http_def h_list_calendar_events_def described_simps split: option.split sum.split prod.split)
  next
    case (R_Message raw)
    then show ?thesis using t
      by (auto simp: template_of_def serve_http_def h_get_message_def Let_def described_simps split: option.split sum.split prod.split)
  next
    case R_Send_Test
    then show ?thesis using t by (auto simp: template_of_def serve_http_def described_send_test)
  qed (use t in \<open>simp_all add: template_of_def\<close>)
  then show ?thesis using document_closed by (auto split: option.split)
qed

section \<open>A query the document allows and the server refuses\<close>

text \<open>The document bounds the characters of a query, the server the bytes of its pattern, where a percent sign takes two.\<close>

lemma count_replicate: "count_list (replicate n x) y = (if x = y then n else 0)"
  by (induction n) auto

lemma documented_query_refused:
  "length (replicate 600 (CHR ''%'')) \<le> 1024" "max_search_pattern_bytes < search_pattern_bytes (replicate 600 (CHR ''%''))"
  by (simp_all add: max_search_pattern_bytes_def search_pattern_bytes_def count_replicate)

end
