(* ===== verification/Spec2Isabelle.thy ===== *)
theory Spec2Isabelle
  imports Prelude Go_Strings Go_Time Events Calendar_Lines Calendar Snippet
    Store_Schema Store_Tx Store_Calendar Store Store_Run Store_Props Store_Queries Store_Init Store_Open
    Pop3_Wire Pop3_Session Pop3_Backend Pop3_Props Pop3_Service
    Go_Mime Mime_Types Mime_Index Mime_Lines Mime_Paths Mime_Tree Mime_Index_Props
    Mime_Presentation Mime_Presentation_Props Mime_Parse Mime_Parse_Props
    Smtp_Parse Smtp_Session Smtp_Backend Smtp_Props Smtp_Service
    Http_Text Http_Text_Props Http_Server Http_Props
    Go_Text Go_Regexp Go_Base64 Inspect_Css Inspect_Svg Inspect_Data_Image Inspect_Sanitize Inspect_Sanitize_Props
    Inspect_Policy Inspect_Policy_Props
    Go_Quoted Go_Float Go_Search Inspect_Syntax Inspect_Report Inspect_Html Inspect_Html_Props Inspect_Context
    Inspect_Message Inspect_Mime Inspect_Auth Inspect_Compat Inspect_Finish Inspect_Analyze
    Inspect_Collect_Props Inspect_Report_Props Inspect_Auth_Props Inspect_Syntax_Props
    Go_Quoted_Writer Go_Format Calendar_Plain Sendtest Sendtest_Props Sendtest_Delivery
    Command Openapi Openapi_Props
begin

text \<open>
  hoomail is a mail catcher: an SMTP server receives every message, a store keeps one copy per
  recipient in an SQLite database, and a POP3 server and a web application show the mailboxes.
  This development models the whole program but its vendored protocol library: the mail path from the bytes of
  a message to the mailbox a client reads, the web server, the inspector, the built-in sender and the process.

  \<^bold>\<open>Parts and theories.\<close>
  \<^item> Foundations: \<open>Prelude\<close> (64-bit integers, lists, association lists), \<open>Go_Strings\<close> (strings as
    bytes, UTF-8, trimming, case, searching), \<open>Go_Time\<close> (instants, the civil calendar), \<open>Go_Mime\<close>
    (\<open>mime.ParseMediaType\<close>), \<open>Go_Text\<close> (splitting and joining, runes), \<open>Go_Regexp\<close> and \<open>Go_Search\<close> (regular
    expressions, matched and searched for), \<open>Go_Base64\<close>, \<open>Go_Quoted\<close> and \<open>Go_Quoted_Writer\<close>
    (quoted-printable), \<open>Go_Float\<close> (the \<open>float64\<close> values of the scores), \<open>Go_Format\<close> (dates, quoting, HTML
    escaping, encoded words, addresses).  A Go string is a list of characters read as bytes.
  \<^item> \<open>internal/events\<close>: \<open>Events\<close>, the hub that broadcasts the changes of the store to subscribers
    with bounded channels.  A channel is the list of the events in it and whether it is closed.
  \<^item> \<open>internal/calendar\<close>: \<open>Calendar_Lines\<close> (content lines), \<open>Calendar\<close> (times, durations, the event
    builder and \<open>ParseICS\<close>).
  \<^item> \<open>internal/store\<close>: \<open>Snippet\<close> (what a message list shows), \<open>Store_Schema\<close> (tables, keys, the SQL
    statements as functions on the database), \<open>Store_Tx\<close> (transactions in which any call of the driver
    may fail), \<open>Store_Calendar\<close> (reconciling invitations), \<open>Store\<close> (the operations), \<open>Store_Run\<close> (runs
    of requests of any clients), \<open>Store_Queries\<close> (reading and searching), \<open>Store_Init\<close> (migrations and
    the backfill of snippets), \<open>Store_Open\<close> (\<open>Open\<close>), \<open>Store_Props\<close>.
  \<^item> \<open>internal/mimeparse\<close>: \<open>Mime_Types\<close> (\<open>types.go\<close>), \<open>Mime_Index\<close> (\<open>index.go\<close>, the raw index under
    limits), \<open>Mime_Presentation\<close> (\<open>presentation.go\<close>), \<open>Mime_Parse\<close> (\<open>parse.go\<close>, the semantic pass);
    their lemmas in \<open>Mime_Lines\<close>, \<open>Mime_Paths\<close>, \<open>Mime_Tree\<close>, \<open>Mime_Index_Props\<close>,
    \<open>Mime_Presentation_Props\<close>, \<open>Mime_Parse_Props\<close>.
  \<^item> \<open>internal/smtpserver\<close>: \<open>Smtp_Parse\<close> (from a message to what the store is given), \<open>Smtp_Session\<close>
    (the methods of a session and of the service), \<open>Smtp_Backend\<close>, \<open>Smtp_Props\<close>, \<open>Smtp_Service\<close>.
  \<^item> \<open>internal/pop3server\<close>: \<open>Pop3_Wire\<close> (multi-line responses, TOP), \<open>Pop3_Session\<close> (commands),
    \<open>Pop3_Backend\<close>, \<open>Pop3_Props\<close>, \<open>Pop3_Service\<close> (accepting, serving, shutting down).
  \<^item> \<open>internal/httpserver\<close>: \<open>Http_Text\<close> (names, types and dispositions of attachments), \<open>Http_Server\<close>
    (requests, responses, every handler, the event stream, the routes), \<open>Http_Text_Props\<close>, \<open>Http_Props\<close>;
    \<open>Openapi\<close> (\<open>openapi_generate.go\<close>, the document as a JSON value), \<open>Openapi_Props\<close>.
  \<^item> \<open>internal/inspect\<close>, the report (\<open>Analyze\<close>): \<open>Inspect_Syntax\<close> (checks of header fields and encoded bodies, without
    state), \<open>Inspect_Report\<close> (\<open>report.go\<close> and the collector of findings and resources), \<open>Inspect_Html\<close>
    (\<open>html_analysis.go\<close>), \<open>Inspect_Context\<close> (the struct \<open>analyzer\<close>), the rules in \<open>Inspect_Message\<close>, \<open>Inspect_Mime\<close>,
    \<open>Inspect_Auth\<close> and \<open>Inspect_Analyze\<close>, \<open>Inspect_Compat\<close> (\<open>compatibility.go\<close>, \<open>compatibility_rules.go\<close>), \<open>Inspect_Finish\<close>
    (the tree of parts and the trimming), with \<open>Inspect_Analyze\<close> composing them as \<open>analyze\<close>; their lemmas in \<open>Inspect_Html_Props\<close>,
    \<open>Inspect_Collect_Props\<close>, \<open>Inspect_Report_Props\<close>, \<open>Inspect_Auth_Props\<close>, \<open>Inspect_Syntax_Props\<close>.
  \<^item> \<open>internal/sendtest\<close>: \<open>Sendtest\<close> (the messages and the exchange), \<open>Calendar_Plain\<close> (how the calendar parser reads
    unquoted lines), \<open>Sendtest_Props\<close>, \<open>Sendtest_Delivery\<close>.
  \<^item> \<open>cmd/hoomail\<close> and \<open>internal/version\<close>: \<open>Command\<close> (\<open>main\<close>, \<open>run\<close>, the health check, shutting down).
  \<^item> \<open>internal/inspect\<close>, the part that decides what of a message reaches a browser: \<open>Inspect_Css\<close>
    (\<open>safeCSSValue\<close>), \<open>Inspect_Svg\<close> (\<open>svg.go\<close>, the state machine over XML tokens), \<open>Inspect_Data_Image\<close>
    (embedded images), \<open>Inspect_Sanitize\<close> (the rewriting loop of \<open>SanitizeDocument\<close>), \<open>Inspect_Policy\<close>
    (the allow lists and the sources of images), \<open>Inspect_Sanitize_Props\<close>, \<open>Inspect_Policy_Props\<close>.

  \<^bold>\<open>How the parts interact.\<close>  The SMTP session hands a parsed message to the store, the POP3 session
  opens a snapshot of a mailbox and deletes by its ids; both are stated against a contract (the
  locales \<open>message_store\<close> and \<open>pop3_backend\<close>) that is interpreted on the model of the store.  A request
  of the store returns, with its result and the new state, the events it gives to the hub.  The HTTP
  handlers call the store directly; a handler is shown to act by requests of \<open>Store_Run\<close>, so that the
  invariant and the announcements of the store hold for every request of a web client.  An image source
  that the sanitizer writes is a path of the HTTP server's route for attachments, of the same message.
  The sender's calls drive a session of the SMTP server (\<open>served\<close> in \<open>Sendtest_Delivery\<close>), and its calendar part is read by
  the calendar parser.  The document of \<open>Openapi\<close> is compared with the routes and answers of \<open>Http_Server\<close>.

  \<^bold>\<open>What the lemmas show.\<close>
  \<^item> Store: the schema invariant under every sequence of requests and failures; all or nothing; one
    copy per recipient; no silent change; a snapshot's ids never delete another message, although ids
    restart after a wipe; calendar reconciliation refines an update of an abstract table; a search
    is a substring search; the backfill ends and leaves no message without a snippet.
  \<^item> MIME: the raw index returns on every input within every limit; its tree is well formed and its
    paths unambiguous; lines round trip; a document is consistent whatever the message library
    does; no part is presented twice, and in mixed messages none is lost.
  \<^item> SMTP: what is derived from a message; no leaf is lost on the way to the store; the mail of the
    store grows by exactly what was acknowledged; shutting down is final.
  \<^item> POP3: a client reads back what was sent; every command gets one response, after which the client is in step; the listings agree;
    only marked messages of the snapshot are deleted; after a shutdown nothing runs.
  \<^item> HTTP: a request does what its route allows and 200 means that it was done; GET changes only read
    marks; an attachment is shown inline only when that is safe; its name survives the header.
  \<^item> Report of the inspector: every report is bounded, ordered, marked when something was cut and correctly
    summarised, whatever the libraries answer; the trimming gives things up in its order, each only when that is needed; the HTML pass keeps its
    positions and panics in one way only, which a message can reach; the ARC check accepts exactly complete chains;
    the transfer check finds a contradiction exactly when there is one.
  \<^item> Sender, command, document: an invitation is read as it was meant; no header field can be forged; a delivery
    that is reported is in the store as the protocol handed it over; shutting down does not depend on the order of the services; the generated document
    is closed and lists every answer of the routes it describes.
  \<^item> Sanitizers: rewritten HTML has no start of an active element, no unsafe link and no remote source, whatever the tokenizer
    yields; the rewriting loop ends; a document without anything to remove is kept as it is; a
    sanitized SVG is a static document; an embedded image is the bytes it was made from; a style value
    that is let through cannot fetch, run or escape.
  \<^item> Events, calendar, snippets: delivery in order without gaps; exact or refused arithmetic;
    bounded results; the one-pass loop against its specification.

  \<^bold>\<open>Bounds and fuel.\<close>  \<open>parse_entity\<close> has the fuel \<open>Suc (length raw)\<close>: an entity inside another starts
  after a blank line of it, so that its text is shorter.  \<open>read_node\<close> counts the 64 levels of the
  code's own guard.  \<open>backfill_snippets\<close> has one more than the number of messages.
  \<open>rewrite_loop\<close> has \<open>Suc (length raw)\<close>: each token of the tokenizer takes a byte.  All other
  recursion has a measure.  \<open>int\<close> fields of the code are integers, with the wrap-around written out
  where the code may reach it; the generation of the store is a 64-bit word.

  \<^bold>\<open>Parameters.\<close>  Code outside the repository is an argument: Unicode case tables above ASCII, the
  time-zone database, the decoder of encoded words, the message library with its readers and headers
  (\<open>mime_lib\<close>, \<open>mail_lib\<close>), the choices of SQLite that its documentation leaves open (\<open>engine\<close>), its
  LIKE operator with the laws the search uses, and which calls of the driver fail.  For the HTTP server
  also the inspector, the sanitizers, the test sender, the files and the JSON of an event (\<open>http_env\<close>).
  For the sanitizers the HTML tokenizer, the engine of the policy library, the XML decoder and
  encoder, \<open>url.Parse\<close> and the capacity by which \<open>append\<close> grows a slice.  For the inspector (\<open>inspect_lib\<close>) also
  \<open>net/mail\<close> with its dates, \<open>language.Parse\<close>, \<open>strconv.ParseFloat\<close> on a score, the tokens of the HTML up to its buffer limit, the
  length of the JSON text of a report, checksums, the answers of the context at its checkpoints and the data of
  caniemail.  For the sender the table of \<open>strconv.IsPrint\<close> and the peer with the context, where it meets the server also the
  protocol between them (\<open>protocol\<close>), which may fail any call and change addresses and the text; for the process the
  environment, the outcome of opening and listening, and what wakes it up.

  \<^bold>\<open>Not modelled.\<close>  The protocol library for SMTP is vendored third-party code: it calls the session in the order of the
  client's commands and enforces \<open>MaxRecipients\<close>.  The JSON encoder, the writing of \<open>openapi.json\<close> and the embedded files
  of the web application are the standard library and data.  Deadlines and the contents of log lines are left out.
  The answer 500 of the event stream to a \<open>ResponseWriter\<close> that cannot flush is left out too: that of \<open>net/http\<close> can.
  A reader given to \<open>Data\<close> yields bytes and then an end, not both in the same call.
\<close>

end
